(* ===== verification/Prelude.thy ===== *)
theory Prelude
  imports Main "HOL-Library.Word"
begin

text \<open>
  Shared vocabulary of the Kiznix development: the machine integer types, the outcomes
  of kernel code that may never return to its caller, and generic facts on linked
  lists in a pointer heap. Every other theory builds on this one.
\<close>

unbundle bit_operations_syntax

section \<open>Machine integers\<close>

type_synonym u8 = "8 word"
type_synonym u16 = "16 word"
type_synonym u32 = "32 word"
type_synonym u64 = "64 word"

text \<open>The bits of the masks the code writes as numerals.\<close>

named_theorems mask_bits \<open>bits of constant masks\<close>

lemma bit_mask_FF [mask_bits]: "bit (0xFF :: int) n \<longleftrightarrow> n < 8"
proof -
  have "(0xFF :: int) = mask 8" by (simp add: mask_eq_exp_minus_1)
  then show ?thesis by (simp only: bit_mask_iff) simp
qed

lemma bit_mask_FFF [mask_bits]: "bit (0xFFF :: int) n \<longleftrightarrow> n < 12"
proof -
  have "(0xFFF :: int) = mask 12" by (simp add: mask_eq_exp_minus_1)
  then show ?thesis by (simp only: bit_mask_iff) simp
qed

lemma bit_mask_FFFF [mask_bits]: "bit (0xFFFF :: int) n \<longleftrightarrow> n < 16"
proof -
  have "(0xFFFF :: int) = mask 16" by (simp add: mask_eq_exp_minus_1)
  then show ?thesis by (simp only: bit_mask_iff) simp
qed

lemma bit_mask_FFFFFFFF [mask_bits]: "bit (0xFFFFFFFF :: int) n \<longleftrightarrow> n < 32"
proof -
  have "(0xFFFFFFFF :: int) = mask 32" by (simp add: mask_eq_exp_minus_1)
  then show ?thesis by (simp only: bit_mask_iff) simp
qed

section \<open>Outcomes of kernel code\<close>

text \<open>
  Kernel code ends in one of three ways: it returns, it calls \<open>fatal\<close> (or fails an
  assertion, or dereferences NULL, which ends in \<open>fatal\<close> through the page fault
  handler), or it loops forever. The two last are values of \<open>trap\<close>.
\<close>

datatype trap =
    Fatal string
  | Assertion_failed string
  | Null_dereference
  | Spins_forever
  | Page_fault_nested_too_deep
  | Buffer_overrun

type_synonym 'a outcome = "trap + 'a"

definition and_then :: "'a outcome \<Rightarrow> ('a \<Rightarrow> 'b outcome) \<Rightarrow> 'b outcome" where
  "and_then m f = (case m of Inl e \<Rightarrow> Inl e | Inr x \<Rightarrow> f x)"

definition check :: "bool \<Rightarrow> trap \<Rightarrow> 'a outcome \<Rightarrow> 'a outcome" where
  "check c e m = (if c then m else Inl e)"

definition returns :: "'a option \<Rightarrow> 'a outcome" where
  "returns r = (case r of None \<Rightarrow> Inl Spins_forever | Some x \<Rightarrow> Inr x)"

named_theorems outcome_simps \<open>evaluation of outcomes\<close>

lemma and_then_Inr [simp, outcome_simps]: "and_then (Inr x) f = f x"
  by (simp add: and_then_def)

lemma and_then_Inl [simp, outcome_simps]: "and_then (Inl e) f = Inl e"
  by (simp add: and_then_def)

lemma and_then_eq_Inr [outcome_simps]:
  "and_then m f = Inr y \<longleftrightarrow> (\<exists>x. m = Inr x \<and> f x = Inr y)"
  by (simp add: and_then_def split: sum.splits)

lemma and_then_eq_Inl [outcome_simps]:
  "and_then m f = Inl e \<longleftrightarrow> m = Inl e \<or> (\<exists>x. m = Inr x \<and> f x = Inl e)"
  by (auto simp: and_then_def split: sum.splits)

lemma check_True [simp]: "check True e m = m"
  by (simp add: check_def)

lemma check_False [simp]: "check False e m = Inl e"
  by (simp add: check_def)

lemma check_eq_Inr [outcome_simps]: "check c e m = Inr x \<longleftrightarrow> c \<and> m = Inr x"
  by (simp add: check_def)

lemma check_eq_Inl [outcome_simps]: "check c e m = Inl t \<longleftrightarrow> (if c then m = Inl t else e = t)"
  by (simp add: check_def)

lemma returns_Some [simp]: "returns (Some x) = Inr x"
  by (simp add: returns_def)

lemma returns_None [simp]: "returns None = Inl Spins_forever"
  by (simp add: returns_def)

lemma returns_eq_Inr [outcome_simps]: "returns r = Inr x \<longleftrightarrow> r = Some x"
  by (simp add: returns_def split: option.splits)

lemma returns_eq_Inl [outcome_simps]: "returns r = Inl e \<longleftrightarrow> r = None \<and> e = Spins_forever"
  by (auto simp: returns_def split: option.splits)

section \<open>Chains of pointers\<close>

text \<open>
  \<open>chain nxt p xs\<close>: starting from pointer \<open>p\<close> and following \<open>nxt\<close>, the nodes met are
  exactly \<open>xs\<close>, and the last one points to NULL (\<open>None\<close>).
\<close>

primrec chain :: "('a \<Rightarrow> 'a option) \<Rightarrow> 'a option \<Rightarrow> 'a list \<Rightarrow> bool" where
  "chain nxt p [] \<longleftrightarrow> p = None"
| "chain nxt p (x # xs) \<longleftrightarrow> p = Some x \<and> chain nxt (nxt x) xs"

lemma chain_None [simp]: "chain nxt None xs \<longleftrightarrow> xs = []"
  by (cases xs) auto

lemma chain_Some: "chain nxt (Some x) xs \<longleftrightarrow> (\<exists>ys. xs = x # ys \<and> chain nxt (nxt x) ys)"
  by (cases xs) auto

lemma chain_unique: "chain nxt p xs \<Longrightarrow> chain nxt p ys \<Longrightarrow> xs = ys"
  by (induction xs arbitrary: p ys) (auto simp: chain_Some)

lemma chain_cong: "(\<And>x. x \<in> set xs \<Longrightarrow> nxt x = nxt' x) \<Longrightarrow> chain nxt p xs = chain nxt' p xs"
  by (induction xs arbitrary: p) auto

lemma chain_update [simp]: "x \<notin> set xs \<Longrightarrow> chain (nxt(x := v)) p xs = chain nxt p xs"
  by (rule chain_cong) auto

lemma chain_tail: "chain nxt p (xs @ y # ys) \<Longrightarrow> chain nxt (nxt y) ys"
  by (induction xs arbitrary: p) auto

lemma chain_from: "chain nxt p (xs @ ys) \<Longrightarrow> ys \<noteq> [] \<Longrightarrow> chain nxt (Some (hd ys)) ys"
  by (induction xs arbitrary: p) (auto simp: neq_Nil_conv)

lemma chain_distinct: "chain nxt p xs \<Longrightarrow> distinct xs"
proof (induction xs arbitrary: p)
  case (Cons x xs)
  have "x \<notin> set xs"
  proof
    assume "x \<in> set xs"
    then obtain as bs where xs: "xs = as @ x # bs" by (meson split_list)
    with Cons.prems have "chain nxt (nxt x) bs" and "chain nxt (nxt x) xs"
      by (auto dest: chain_tail)
    then have "xs = bs" using chain_unique by blast
    with xs show False by (metis append_eq_append_conv2 append_self_conv2 length_append
        length_Cons add_Suc_right not_add_less2 less_Suc_eq)
  qed
  with Cons show ?case by auto
qed simp

lemma chain_snoc:
  "chain nxt p xs \<Longrightarrow> xs \<noteq> [] \<Longrightarrow> x \<notin> set xs \<Longrightarrow>
   chain (nxt(x := None, last xs := Some x)) p (xs @ [x])"
proof (induction xs arbitrary: p)
  case (Cons y ys)
  show ?case
  proof (cases "ys = []")
    case False
    have "y \<noteq> last ys" using chain_distinct [OF Cons.prems(1)] False by auto
    with Cons False show ?thesis by auto
  qed (use Cons in auto)
qed simp

end
