(* ===== verification/Paging.thy ===== *)
theory Paging
  imports Prelude
begin

text \<open>
  The four-level page tables of x86_64, as the processor walks them, in a physical memory
  of frames of 512 64-bit words. \<open>node ram root is\<close> follows the indices \<open>is\<close> from the
  table at \<open>root\<close>; a translation is a path of four indices. The kernel sees its own tables
  through a recursive entry (index 510 of the root points to the root), so an address in
  one of its four table windows denotes an entry of a table on some other address's path:
  this is what the window lemmas state.
\<close>

type_synonym ram = "u64 \<Rightarrow> u64 \<Rightarrow> u64"   \<comment> \<open>frame address, word index\<close>

definition PAGE_PRESENT :: u64 where "PAGE_PRESENT = 0x001"
definition PAGE_WRITE :: u64 where "PAGE_WRITE = 0x002"
definition PAGE_GLOBAL :: u64 where "PAGE_GLOBAL = 0x100"
definition PAGE_ALLOCATED :: u64 where "PAGE_ALLOCATED = 0x200"

definition present :: "u64 \<Rightarrow> bool" where
  "present e \<longleftrightarrow> e AND PAGE_PRESENT \<noteq> 0"

definition frame_of :: "u64 \<Rightarrow> u64" where
  "frame_of e = e AND 0x000FFFFFFFFFF000"

definition is_frame :: "u64 \<Rightarrow> bool" where
  "is_frame f \<longleftrightarrow> frame_of f = f"

definition ix4 :: "u64 \<Rightarrow> u64" where "ix4 va = drop_bit 39 va AND 0x1FF"
definition ix3 :: "u64 \<Rightarrow> u64" where "ix3 va = drop_bit 30 va AND 0x1FF"
definition ix2 :: "u64 \<Rightarrow> u64" where "ix2 va = drop_bit 21 va AND 0x1FF"
definition ix1 :: "u64 \<Rightarrow> u64" where "ix1 va = drop_bit 12 va AND 0x1FF"
definition slot :: "u64 \<Rightarrow> u64" where "slot va = drop_bit 3 va AND 0x1FF"

lemmas ix_defs = ix4_def ix3_def ix2_def ix1_def slot_def

fun node :: "ram \<Rightarrow> u64 \<Rightarrow> u64 list \<Rightarrow> u64 option" where
  "node r f [] = Some f"
| "node r f (i # is) = (if present (r f i) then node r (frame_of (r f i)) is else None)"

definition path :: "u64 \<Rightarrow> u64 list" where
  "path va = [ix4 va, ix3 va, ix2 va, ix1 va]"

definition walk :: "ram \<Rightarrow> u64 \<Rightarrow> u64 \<Rightarrow> u64 option" where
  "walk r root va = node r root (path va)"

section \<open>Entries\<close>

lemma present_iff: "present e \<longleftrightarrow> bit e 0"
  by (simp add: present_def PAGE_PRESENT_def and_one_eq odd_iff_mod_2_eq_one bit_0)

lemma bit_frame_mask [mask_bits]: "bit (0xFFFFFFFFFF000 :: int) n \<longleftrightarrow> 12 \<le> n \<and> n < 52"
proof -
  have "(0xFFFFFFFFFF000 :: int) = push_bit 12 (mask 40)" by (simp add: mask_eq_exp_minus_1 push_bit_eq_mult)
  then show ?thesis by (simp only: bit_push_bit_iff bit_mask_iff) auto
qed

lemma bit_mask_1FF [mask_bits]: "bit (0x1FF :: int) n \<longleftrightarrow> n < 9"
proof -
  have "(0x1FF :: int) = mask 9" by (simp add: mask_eq_exp_minus_1)
  then show ?thesis by (simp only: bit_mask_iff) simp
qed

lemma frame_of_frame [simp]: "frame_of (frame_of e) = frame_of e"
  by (simp add: frame_of_def and.assoc)

lemma is_frame_frame_of [simp]: "is_frame (frame_of e)"
  by (simp add: is_frame_def)

lemma frame_of_entry:
  assumes "is_frame p" and "flags AND 0x000FFFFFFFFFF000 = 0"
  shows "frame_of (p OR flags) = p"
  using assms by (simp add: frame_of_def is_frame_def bit.conj_disj_distrib2)

lemma entry_table:
  assumes "is_frame p"
  shows "present (p OR PAGE_WRITE OR PAGE_PRESENT)" and "frame_of (p OR PAGE_WRITE OR PAGE_PRESENT) = p"
    and "present (p OR PAGE_WRITE OR PAGE_PRESENT OR PAGE_GLOBAL)"
    and "frame_of (p OR PAGE_WRITE OR PAGE_PRESENT OR PAGE_GLOBAL) = p"
  using assms
  by (simp_all add: present_iff PAGE_WRITE_def PAGE_PRESENT_def PAGE_GLOBAL_def or.assoc frame_of_entry
      bit_simps)

lemma not_present_allocated [simp]: "\<not> present PAGE_ALLOCATED" "\<not> present 0"
  by (simp_all add: present_def PAGE_ALLOCATED_def PAGE_PRESENT_def)

section \<open>Updates along a path\<close>

lemma node_append: "node r f (is @ js) = Option.bind (node r f is) (\<lambda>g. node r g js)"
  by (induction "is" arbitrary: f) auto

text \<open>
  The tables met strictly before the end of a path. Words outside them do not influence
  where the path leads.
\<close>

fun tables :: "ram \<Rightarrow> u64 \<Rightarrow> u64 list \<Rightarrow> (u64 \<times> u64) list" where
  "tables r f [] = []"
| "tables r f (i # is) = (f, i) # (if present (r f i) then tables r (frame_of (r f i)) is else [])"

lemma node_cong:
  "(\<And>g i. (g, i) \<in> set (tables r f is) \<Longrightarrow> r' g i = r g i) \<Longrightarrow> node r' f is = node r f is"
  by (induction "is" arbitrary: f) auto

lemma tables_cong:
  "(\<And>g i. (g, i) \<in> set (tables r f is) \<Longrightarrow> r' g i = r g i) \<Longrightarrow> tables r' f is = tables r f is"
  by (induction "is" arbitrary: f) auto

lemma tables_append:
  "tables r f (is @ js) = tables r f is @ (case node r f is of None \<Rightarrow> [] | Some g \<Rightarrow> tables r g js)"
  by (induction "is" arbitrary: f) auto

section \<open>Windows\<close>

definition recursive_root :: "ram \<Rightarrow> u64 \<Rightarrow> bool" where
  "recursive_root r root \<longleftrightarrow> present (r root 510) \<and> frame_of (r root 510) = root"

lemma node_recursive [simp]: "recursive_root r root \<Longrightarrow> node r root (510 # is) = node r root is"
  by (simp add: recursive_root_def)

definition pm1_base :: u64 where "pm1_base = 0xFFFFFF0000000000"
definition pm2_base :: u64 where "pm2_base = 0xFFFFFF7F80000000"
definition pm3_base :: u64 where "pm3_base = 0xFFFFFF7FBFC00000"
definition pm4_base :: u64 where "pm4_base = 0xFFFFFF7FBFDFE000"

lemmas pm_bases = pm1_base_def pm2_base_def pm3_base_def pm4_base_def

text \<open>The addresses of \<open>vmm_page_mappings_k[i]\<close>, an array of 8-byte entries.\<close>

definition entry_addr :: "u64 \<Rightarrow> u64 \<Rightarrow> u64" where
  "entry_addr base i = base + 8 * i"

definition index1 :: "u64 \<Rightarrow> u64" where "index1 va = drop_bit 12 va AND 0xFFFFFFFFF"
definition index2 :: "u64 \<Rightarrow> u64" where "index2 va = drop_bit 21 va AND 0x7FFFFFF"
definition index3 :: "u64 \<Rightarrow> u64" where "index3 va = drop_bit 30 va AND 0x3FFFF"
definition index4 :: "u64 \<Rightarrow> u64" where "index4 va = drop_bit 39 va AND 0x1FF"

lemmas index_defs = index1_def index2_def index3_def index4_def

lemma bit_window_constants [mask_bits]:
  "bit (0xFFFFFF0000000000 :: int) n \<longleftrightarrow> 40 \<le> n \<and> n < 64"
  "bit (0xFFFFFF7F80000000 :: int) n \<longleftrightarrow> 40 \<le> n \<and> n < 64 \<or> 31 \<le> n \<and> n < 39"
  "bit (0xFFFFFF7FBFC00000 :: int) n \<longleftrightarrow> 40 \<le> n \<and> n < 64 \<or> 31 \<le> n \<and> n < 39 \<or> 22 \<le> n \<and> n < 30"
  "bit (0xFFFFFF7FBFDFE000 :: int) n \<longleftrightarrow>
     40 \<le> n \<and> n < 64 \<or> 31 \<le> n \<and> n < 39 \<or> 22 \<le> n \<and> n < 30 \<or> 13 \<le> n \<and> n < 21"
  "bit (510 :: int) n \<longleftrightarrow> 1 \<le> n \<and> n < 9"
  "bit (0xFFFFFFFFF :: int) n \<longleftrightarrow> n < 36"
  "bit (0x7FFFFFF :: int) n \<longleftrightarrow> n < 27"
  "bit (0x3FFFF :: int) n \<longleftrightarrow> n < 18"
proof -
  have c: "(0xFFFFFF0000000000 :: int) = push_bit 40 (mask 24)"
    "(0xFFFFFF7F80000000 :: int) = push_bit 40 (mask 24) OR push_bit 31 (mask 8)"
    "(0xFFFFFF7FBFC00000 :: int) = push_bit 40 (mask 24) OR push_bit 31 (mask 8) OR push_bit 22 (mask 8)"
    "(0xFFFFFF7FBFDFE000 :: int) =
       push_bit 40 (mask 24) OR push_bit 31 (mask 8) OR push_bit 22 (mask 8) OR push_bit 13 (mask 8)"
    "(510 :: int) = push_bit 1 (mask 8)" "(0xFFFFFFFFF :: int) = mask 36" "(0x7FFFFFF :: int) = mask 27"
    "(0x3FFFF :: int) = mask 18"
    by (simp_all add: mask_eq_exp_minus_1 push_bit_eq_mult)
  show "bit (0xFFFFFF0000000000 :: int) n \<longleftrightarrow> 40 \<le> n \<and> n < 64"
    "bit (0xFFFFFF7F80000000 :: int) n \<longleftrightarrow> 40 \<le> n \<and> n < 64 \<or> 31 \<le> n \<and> n < 39"
    "bit (0xFFFFFF7FBFC00000 :: int) n \<longleftrightarrow> 40 \<le> n \<and> n < 64 \<or> 31 \<le> n \<and> n < 39 \<or> 22 \<le> n \<and> n < 30"
    "bit (0xFFFFFF7FBFDFE000 :: int) n \<longleftrightarrow>
       40 \<le> n \<and> n < 64 \<or> 31 \<le> n \<and> n < 39 \<or> 22 \<le> n \<and> n < 30 \<or> 13 \<le> n \<and> n < 21"
    "bit (510 :: int) n \<longleftrightarrow> 1 \<le> n \<and> n < 9"
    "bit (0xFFFFFFFFF :: int) n \<longleftrightarrow> n < 36"
    "bit (0x7FFFFFF :: int) n \<longleftrightarrow> n < 27"
    "bit (0x3FFFF :: int) n \<longleftrightarrow> n < 18"
    unfolding c by (auto simp only: bit_push_bit_iff bit_mask_iff bit_or_iff possible_bit_int)
qed

lemma take_bit_ix:
  "ix4 va = take_bit 9 (drop_bit 39 va)" "ix3 va = take_bit 9 (drop_bit 30 va)"
  "ix2 va = take_bit 9 (drop_bit 21 va)" "ix1 va = take_bit 9 (drop_bit 12 va)"
  "slot va = take_bit 9 (drop_bit 3 va)"
  "index1 va = take_bit 36 (drop_bit 12 va)" "index2 va = take_bit 27 (drop_bit 21 va)"
  "index3 va = take_bit 18 (drop_bit 30 va)" "index4 va = take_bit 9 (drop_bit 39 va)"
  by (simp_all add: ix_defs index_defs take_bit_eq_mask mask_eq_exp_minus_1)

lemma bit_ix:
  "bit (ix4 va) n \<longleftrightarrow> n < 9 \<and> bit va (39 + n)" "bit (ix3 va) n \<longleftrightarrow> n < 9 \<and> bit va (30 + n)"
  "bit (ix2 va) n \<longleftrightarrow> n < 9 \<and> bit va (21 + n)" "bit (ix1 va) n \<longleftrightarrow> n < 9 \<and> bit va (12 + n)"
  "bit (slot va) n \<longleftrightarrow> n < 9 \<and> bit va (3 + n)"
  "bit (index1 va) n \<longleftrightarrow> n < 36 \<and> bit va (12 + n)" "bit (index2 va) n \<longleftrightarrow> n < 27 \<and> bit va (21 + n)"
  "bit (index3 va) n \<longleftrightarrow> n < 18 \<and> bit va (30 + n)" "bit (index4 va) n \<longleftrightarrow> n < 9 \<and> bit va (39 + n)"
  by (simp_all only: take_bit_ix bit_take_bit_iff bit_drop_bit_eq comp_def)

lemma bit_base:
  "bit pm1_base n \<longleftrightarrow> 40 \<le> n \<and> n < 64"
  "bit pm2_base n \<longleftrightarrow> 40 \<le> n \<and> n < 64 \<or> 31 \<le> n \<and> n < 39"
  "bit pm3_base n \<longleftrightarrow> 40 \<le> n \<and> n < 64 \<or> 31 \<le> n \<and> n < 39 \<or> 22 \<le> n \<and> n < 30"
  "bit pm4_base n \<longleftrightarrow>
     40 \<le> n \<and> n < 64 \<or> 31 \<le> n \<and> n < 39 \<or> 22 \<le> n \<and> n < 30 \<or> 13 \<le> n \<and> n < 21"
  by (auto simp: pm_bases mask_bits)

lemma times_8: "(8 :: u64) * i = push_bit 3 i"
  by (simp add: push_bit_eq_mult mult.commute)

lemma disjoint_add: "(\<And>n. \<not> (bit a n \<and> bit b n)) \<Longrightarrow> a + b = a OR (b :: 'a::len word)"
  by (rule disjunctive_add_eq_or, rule bit_word_eqI) (auto simp: bit_and_iff)

lemma entry_addr_or:
  "entry_addr pm1_base (index1 va) = pm1_base OR push_bit 3 (index1 va)"
  "entry_addr pm2_base (index2 va) = pm2_base OR push_bit 3 (index2 va)"
  "entry_addr pm3_base (index3 va) = pm3_base OR push_bit 3 (index3 va)"
  "entry_addr pm4_base (index4 va) = pm4_base OR push_bit 3 (index4 va)"
  unfolding entry_addr_def times_8
  by (rule disjoint_add, auto simp: bit_base bit_ix bit_push_bit_iff)+

text \<open>
  The entry of level k for address \<open>va\<close>, seen through the windows: its own path spells the
  recursive index as often as levels are skipped, then the higher indices of \<open>va\<close>.
\<close>

lemmas window_bits = bit_base bit_ix bit_or_iff bit_push_bit_iff mask_bits

lemma path_pm1: "path (entry_addr pm1_base (index1 va)) = [510, ix4 va, ix3 va, ix2 va]"
  unfolding entry_addr_or path_def list.inject
  by (intro conjI refl bit_word_eqI; auto simp: window_bits)

lemma slot_pm1: "slot (entry_addr pm1_base (index1 va)) = ix1 va"
  unfolding entry_addr_or
  by (rule bit_word_eqI) (auto simp: window_bits)

lemma path_pm2: "path (entry_addr pm2_base (index2 va)) = [510, 510, ix4 va, ix3 va]"
  unfolding entry_addr_or path_def list.inject
  by (intro conjI refl bit_word_eqI; auto simp: window_bits)

lemma slot_pm2: "slot (entry_addr pm2_base (index2 va)) = ix2 va"
  unfolding entry_addr_or
  by (rule bit_word_eqI) (auto simp: window_bits)

lemma path_pm3: "path (entry_addr pm3_base (index3 va)) = [510, 510, 510, ix4 va]"
  unfolding entry_addr_or path_def list.inject
  by (intro conjI refl bit_word_eqI; auto simp: window_bits)

lemma slot_pm3: "slot (entry_addr pm3_base (index3 va)) = ix3 va"
  unfolding entry_addr_or
  by (rule bit_word_eqI) (auto simp: window_bits)

lemma path_pm4: "path (entry_addr pm4_base (index4 va)) = [510, 510, 510, 510]"
  unfolding entry_addr_or path_def list.inject
  by (intro conjI refl bit_word_eqI; auto simp: window_bits)

lemma slot_pm4: "slot (entry_addr pm4_base (index4 va)) = ix4 va"
  unfolding entry_addr_or
  by (rule bit_word_eqI) (auto simp: window_bits)

text \<open>The pages of the windows that hold a whole table, cleared after it is installed.\<close>

definition table_page :: "u64 \<Rightarrow> u64 \<Rightarrow> u64" where
  "table_page base i = base + push_bit 12 i"

lemma table_page_or:
  "table_page pm1_base (index2 va) = pm1_base OR push_bit 12 (index2 va)"
  "table_page pm2_base (index3 va) = pm2_base OR push_bit 12 (index3 va)"
  "table_page pm3_base (index4 va) = pm3_base OR push_bit 12 (index4 va)"
  unfolding table_page_def
  by (rule disjoint_add, auto simp: bit_base bit_ix bit_push_bit_iff)+

lemma path_table_page:
  "path (table_page pm1_base (index2 va)) = [510, ix4 va, ix3 va, ix2 va]"
  "path (table_page pm2_base (index3 va)) = [510, 510, ix4 va, ix3 va]"
  "path (table_page pm3_base (index4 va)) = [510, 510, 510, ix4 va]"
  unfolding table_page_or path_def list.inject
  by (intro conjI refl bit_word_eqI; auto simp: window_bits)+

end
