(* ===== verification/Machine.thy ===== *)
theory Machine
  imports Prelude
begin

text \<open>
  The processor state the kernel manipulates through inline assembly: the interrupt flag
  (\<^verbatim>\<open>include/kernel/x86/interrupt.h\<close>) and the I/O ports
  (\<^verbatim>\<open>include/kernel/x86/io.h\<close>). The devices behind the ports are not part of the
  repository: a device is a parameter, a function from the history of port accesses to the
  value the next read of a port returns.
\<close>

datatype port_event =
    Out8 u16 u8 | Out16 u16 u16 | Out32 u16 u32
  | In8 u16 | In16 u16 | In32 u16

type_synonym device = "port_event list \<Rightarrow> u16 \<Rightarrow> u32"

record machine =
  if_flag :: bool                     \<comment> \<open>EFLAGS.IF\<close>
  port_log :: "port_event list"       \<comment> \<open>port accesses, the latest first\<close>

section \<open>Interrupt flag\<close>

definition X86_EFLAGS_IF :: int where
  "X86_EFLAGS_IF = 0x200"

definition interrupt_enable :: "'a machine_scheme \<Rightarrow> 'a machine_scheme" where
  "interrupt_enable s = s\<lparr>if_flag := True\<rparr>"

definition interrupt_disable :: "'a machine_scheme \<Rightarrow> 'a machine_scheme" where
  "interrupt_disable s = s\<lparr>if_flag := False\<rparr>"

definition interrupt_enabled :: "'a machine_scheme \<Rightarrow> int" where
  "interrupt_enabled s = (if if_flag s then X86_EFLAGS_IF else 0)"

lemma interrupt_enabled_nonzero [simp]: "interrupt_enabled s \<noteq> 0 \<longleftrightarrow> if_flag s"
  by (simp add: interrupt_enabled_def X86_EFLAGS_IF_def)

lemma interrupt_enabled_zero [simp]: "interrupt_enabled s = 0 \<longleftrightarrow> \<not> if_flag s"
  by (simp add: interrupt_enabled_def X86_EFLAGS_IF_def)

section \<open>Ports\<close>

definition io_out_8 :: "u16 \<Rightarrow> u8 \<Rightarrow> 'a machine_scheme \<Rightarrow> 'a machine_scheme" where
  "io_out_8 port v s = s\<lparr>port_log := Out8 port v # port_log s\<rparr>"

definition io_out_16 :: "u16 \<Rightarrow> u16 \<Rightarrow> 'a machine_scheme \<Rightarrow> 'a machine_scheme" where
  "io_out_16 port v s = s\<lparr>port_log := Out16 port v # port_log s\<rparr>"

definition io_out_32 :: "u16 \<Rightarrow> u32 \<Rightarrow> 'a machine_scheme \<Rightarrow> 'a machine_scheme" where
  "io_out_32 port v s = s\<lparr>port_log := Out32 port v # port_log s\<rparr>"

definition io_in_8 :: "device \<Rightarrow> u16 \<Rightarrow> 'a machine_scheme \<Rightarrow> u8 \<times> 'a machine_scheme" where
  "io_in_8 dev port s = (ucast (dev (port_log s) port), s\<lparr>port_log := In8 port # port_log s\<rparr>)"

definition io_in_16 :: "device \<Rightarrow> u16 \<Rightarrow> 'a machine_scheme \<Rightarrow> u16 \<times> 'a machine_scheme" where
  "io_in_16 dev port s = (ucast (dev (port_log s) port), s\<lparr>port_log := In16 port # port_log s\<rparr>)"

definition io_in_32 :: "device \<Rightarrow> u16 \<Rightarrow> 'a machine_scheme \<Rightarrow> u32 \<times> 'a machine_scheme" where
  "io_in_32 dev port s = (dev (port_log s) port, s\<lparr>port_log := In32 port # port_log s\<rparr>)"

text \<open>
  The ports touched by a piece of code are the part of its effect the devices see; the
  collection \<open>io_simps\<close> evaluates it.
\<close>

named_theorems io_simps \<open>evaluation of port accesses\<close>

lemmas [io_simps] = io_out_8_def io_out_16_def io_out_32_def io_in_8_def io_in_16_def io_in_32_def

lemma io_frame [simp]:
  "if_flag (io_out_8 p v s) = if_flag s"
  "if_flag (io_out_16 p w s) = if_flag s"
  "if_flag (io_out_32 p x s) = if_flag s"
  "if_flag (snd (io_in_8 dev p s)) = if_flag s"
  "if_flag (snd (io_in_16 dev p s)) = if_flag s"
  "if_flag (snd (io_in_32 dev p s)) = if_flag s"
  by (simp_all add: io_simps)

end
