(* ===== verification/Pic.thy ===== *)
theory Pic
  imports Machine
begin

text \<open>
  \<^verbatim>\<open>kernel/x86/pic.c\<close>: the two cascaded 8259A interrupt controllers. The functions are
  sequences of port accesses. What they achieve is stated over the documented behaviour
  of the chip (\<open>chip_of\<close>): the state an 8259A is in after a history of writes, and the
  assumption \<open>pic_8259\<close> that reading its data port returns its interrupt mask register.
\<close>

definition PIC_MASTER_COMMAND :: u16 where "PIC_MASTER_COMMAND = 0x20"
definition PIC_MASTER_DATA :: u16 where "PIC_MASTER_DATA = 0x21"
definition PIC_SLAVE_COMMAND :: u16 where "PIC_SLAVE_COMMAND = 0xA0"
definition PIC_SLAVE_DATA :: u16 where "PIC_SLAVE_DATA = 0xA1"

definition PIC_INIT :: u8 where "PIC_INIT = 0x11"
definition PIC_READ_IRR :: u8 where "PIC_READ_IRR = 0x0A"
definition PIC_READ_ISR :: u8 where "PIC_READ_ISR = 0x0B"
definition PIC_EOI :: u8 where "PIC_EOI = 0x20"

lemmas pic_ports = PIC_MASTER_COMMAND_def PIC_MASTER_DATA_def PIC_SLAVE_COMMAND_def PIC_SLAVE_DATA_def

section \<open>The driver\<close>

definition pic_init :: "int \<Rightarrow> 'a machine_scheme \<Rightarrow> 'a machine_scheme" where
  "pic_init irq_offset s =
     (let s = io_out_8 PIC_MASTER_COMMAND PIC_INIT s;
          s = io_out_8 PIC_SLAVE_COMMAND PIC_INIT s;
          s = io_out_8 PIC_MASTER_DATA (word_of_int irq_offset) s;
          s = io_out_8 PIC_SLAVE_DATA (word_of_int (irq_offset + 8)) s;
          s = io_out_8 PIC_MASTER_DATA (push_bit 2 1) s;
          s = io_out_8 PIC_SLAVE_DATA 2 s;
          s = io_out_8 PIC_MASTER_DATA 1 s;
          s = io_out_8 PIC_SLAVE_DATA 1 s;
          s = io_out_8 PIC_MASTER_DATA 0xfb s
      in io_out_8 PIC_SLAVE_DATA 0xff s)"

text \<open>
  \<open>pic_irq_real\<close> returns the C truth value of \<open>real\<close>. Its callers pass 0 to 15, so the
  shift count is a \<open>nat\<close>.
\<close>

definition pic_irq_real :: "device \<Rightarrow> int \<Rightarrow> 'a machine_scheme \<Rightarrow> bool \<times> 'a machine_scheme" where
  "pic_irq_real dev irq s =
     (if irq \<noteq> 7 \<and> irq \<noteq> 15 then (True, s)
      else
        let msk = push_bit (nat irq) (1 :: u32)
        in if irq < 8 then
             let s = io_out_8 PIC_MASTER_COMMAND PIC_READ_ISR s;
                 (v, s) = io_in_8 dev PIC_MASTER_COMMAND s;
                 real = ucast v AND msk;
                 s = io_out_8 PIC_MASTER_COMMAND PIC_READ_IRR s
             in (real \<noteq> 0, s)
           else
             let s = io_out_8 PIC_SLAVE_COMMAND PIC_READ_ISR s;
                 (v, s) = io_in_8 dev PIC_SLAVE_COMMAND s;
                 real = ucast v AND drop_bit 8 msk;
                 s = io_out_8 PIC_SLAVE_COMMAND PIC_READ_IRR s;
                 s = (if real = 0 then io_out_8 PIC_MASTER_COMMAND PIC_EOI s else s)
             in (real \<noteq> 0, s))"

definition pic_eoi :: "int \<Rightarrow> 'a machine_scheme \<Rightarrow> 'a machine_scheme" where
  "pic_eoi irq s =
     (let s = (if irq \<ge> 8 then io_out_8 PIC_SLAVE_COMMAND PIC_EOI s else s)
      in io_out_8 PIC_MASTER_COMMAND PIC_EOI s)"

definition pic_disable_irq :: "device \<Rightarrow> int \<Rightarrow> 'a machine_scheme \<Rightarrow> 'a machine_scheme" where
  "pic_disable_irq dev irq s =
     (if irq \<ge> 0 \<and> irq \<le> 7 then
        let (msk, s) = io_in_8 dev PIC_MASTER_DATA s
        in io_out_8 PIC_MASTER_DATA (msk OR push_bit (nat irq) 1) s
      else if irq \<ge> 8 \<and> irq \<le> 15 then
        let (msk, s) = io_in_8 dev PIC_SLAVE_DATA s
        in io_out_8 PIC_SLAVE_DATA (msk OR push_bit (nat (irq - 8)) 1) s
      else s)"

definition pic_enable_irq :: "device \<Rightarrow> int \<Rightarrow> 'a machine_scheme \<Rightarrow> 'a machine_scheme" where
  "pic_enable_irq dev irq s =
     (if irq \<ge> 0 \<and> irq \<le> 7 then
        let (msk, s) = io_in_8 dev PIC_MASTER_DATA s
        in io_out_8 PIC_MASTER_DATA (msk AND NOT (push_bit (nat irq) 1)) s
      else if irq \<ge> 8 \<and> irq \<le> 15 then
        let (msk, s) = io_in_8 dev PIC_SLAVE_DATA s
        in io_out_8 PIC_SLAVE_DATA (msk AND NOT (push_bit (nat (irq - 8)) 1)) s
      else s)"

section \<open>The chip\<close>

text \<open>
  An 8259A as its data sheet describes it: a write of ICW1 (bit 4 set) to the command port
  clears the mask and starts the initialisation sequence; the next write to the data port
  is ICW2 (the vector base), then comes ICW3 unless ICW1 said single mode, then ICW4 if
  ICW1 asked for it; after that a write to the data port sets the mask (OCW1). A command with
  bit 4 clear and bit 3 set is OCW3: with bit 1 set, bit 0 selects whether reading the command port returns the
  in-service register or the interrupt request register, as which it starts after ICW1.
\<close>

record chip =
  icws_left :: nat
  vector_expected :: bool
  vector_base :: u8
  imr :: u8
  reads_isr :: bool

definition reset_chip :: chip where
  "reset_chip = \<lparr>icws_left = 0, vector_expected = False, vector_base = 0, imr = 0, reads_isr = False\<rparr>"

definition write_command :: "u8 \<Rightarrow> chip \<Rightarrow> chip" where
  "write_command v c =
     (if bit v 4 then c\<lparr>icws_left := (if bit v 1 then 0 else 1) + (if bit v 0 then 1 else 0),
                        vector_expected := True, imr := 0, reads_isr := False\<rparr>
      else if bit v 3 \<and> bit v 1 then c\<lparr>reads_isr := bit v 0\<rparr> else c)"

definition write_data :: "u8 \<Rightarrow> chip \<Rightarrow> chip" where
  "write_data v c =
     (if vector_expected c then c\<lparr>vector_base := v AND 0xF8, vector_expected := False\<rparr>
      else if icws_left c > 0 then c\<lparr>icws_left := icws_left c - 1\<rparr>
      else c\<lparr>imr := v\<rparr>)"

fun chip_of :: "u16 \<Rightarrow> u16 \<Rightarrow> port_event list \<Rightarrow> chip" where
  "chip_of cmd data [] = reset_chip"
| "chip_of cmd data (Out8 p v # es) =
     (if p = cmd then write_command v (chip_of cmd data es)
      else if p = data then write_data v (chip_of cmd data es)
      else chip_of cmd data es)"
| "chip_of cmd data (_ # es) = chip_of cmd data es"

abbreviation master :: "port_event list \<Rightarrow> chip" where
  "master \<equiv> chip_of PIC_MASTER_COMMAND PIC_MASTER_DATA"

abbreviation slave :: "port_event list \<Rightarrow> chip" where
  "slave \<equiv> chip_of PIC_SLAVE_COMMAND PIC_SLAVE_DATA"

definition operating :: "chip \<Rightarrow> bool" where
  "operating c \<longleftrightarrow> icws_left c = 0 \<and> \<not> vector_expected c"

text \<open>Reading the data port of a chip in operation returns its mask.\<close>

definition pic_8259 :: "device \<Rightarrow> bool" where
  "pic_8259 dev \<longleftrightarrow>
     (\<forall>es. (operating (master es) \<longrightarrow> ucast (dev es PIC_MASTER_DATA) = imr (master es)) \<and>
           (operating (slave es) \<longrightarrow> ucast (dev es PIC_SLAVE_DATA) = imr (slave es)))"

text \<open>
  The in-service register of a chip after it was acknowledged an interrupt: bit \<open>k\<close> stands for line \<open>k\<close>, of which line 0 has the
  highest priority. The non-specific EOI (a command with bits 7 to 5 equal 001 and bits 4, 3 clear) clears the bit
  of the highest priority. No other command of the driver changes the register, and while the processor does not accept
  interrupts no acknowledgement does: \<open>in_service cmd r es\<close> is the register after the accesses \<open>es\<close> when it was \<open>r\<close> before them.
\<close>

definition end_of_interrupt :: "u8 \<Rightarrow> u8" where
  "end_of_interrupt r = r AND (r - 1)"

fun in_service :: "u16 \<Rightarrow> u8 \<Rightarrow> port_event list \<Rightarrow> u8" where
  "in_service cmd r [] = r"
| "in_service cmd r (Out8 p v # es) =
     (if p = cmd \<and> drop_bit 5 v = 1 \<and> \<not> bit v 4 \<and> \<not> bit v 3 then end_of_interrupt (in_service cmd r es) else in_service cmd r es)"
| "in_service cmd r (_ # es) = in_service cmd r es"

text \<open>
  \<open>answers_isr dev es rm rs\<close>: the controllers behind the ports have the in-service registers \<open>rm\<close> (master) and \<open>rs\<close> (slave) after
  the history \<open>es\<close>, and reading a command port returns the register if it is selected.
\<close>

definition answers_isr :: "device \<Rightarrow> port_event list \<Rightarrow> u8 \<Rightarrow> u8 \<Rightarrow> bool" where
  "answers_isr dev es rm rs \<longleftrightarrow>
     (\<forall>new. (reads_isr (master (new @ es)) \<longrightarrow> ucast (dev (new @ es) PIC_MASTER_COMMAND) = in_service PIC_MASTER_COMMAND rm new) \<and>
            (reads_isr (slave (new @ es)) \<longrightarrow> ucast (dev (new @ es) PIC_SLAVE_COMMAND) = in_service PIC_SLAVE_COMMAND rs new))"

text \<open>
  The chip raises line 7 without a request when a request goes away before it is acknowledged; its in-service bit
  is clear then. IRQ 7 is line 7 of the master, IRQ 15 line 7 of the slave.
\<close>

definition spurious :: "int \<Rightarrow> u8 \<Rightarrow> u8 \<Rightarrow> bool" where
  "spurious irq rm rs \<longleftrightarrow> irq = 7 \<and> \<not> bit rm 7 \<or> irq = 15 \<and> \<not> bit rs 7"

text \<open>The sixteen IRQ lines: \<open>masked es irq\<close> says that line \<open>irq\<close> is masked.\<close>

definition masked :: "port_event list \<Rightarrow> int \<Rightarrow> bool" where
  "masked es irq \<longleftrightarrow>
     (if irq < 8 then bit (imr (master es)) (nat irq) else bit (imr (slave es)) (nat (irq - 8)))"

definition pics_ready :: "port_event list \<Rightarrow> bool" where
  "pics_ready es \<longleftrightarrow> operating (master es) \<and> operating (slave es)"

section \<open>What the driver does to the chips\<close>

lemma pic_8259_reads:
  assumes "pic_8259 dev" and "pics_ready es"
  shows "ucast (dev es PIC_MASTER_DATA) = imr (master es)"
    and "ucast (dev es PIC_SLAVE_DATA) = imr (slave es)"
  using assms by (auto simp: pic_8259_def pics_ready_def)

lemma disable_line:
  assumes "pic_8259 dev" and "pics_ready (port_log s)" and "0 \<le> irq" and "irq \<le> 15"
    and "0 \<le> i" and "i \<le> 15"
  shows "masked (port_log (pic_disable_irq dev irq s)) i \<longleftrightarrow> i = irq \<or> masked (port_log s) i"
    and "pics_ready (port_log (pic_disable_irq dev irq s))"
  using assms pic_8259_reads [OF assms(1,2)]
  by (auto simp: pic_disable_irq_def io_simps pic_ports masked_def pics_ready_def operating_def
      write_data_def bit_simps Let_def)

lemma enable_line:
  assumes "pic_8259 dev" and "pics_ready (port_log s)" and "0 \<le> irq" and "irq \<le> 15"
    and "0 \<le> i" and "i \<le> 15"
  shows "masked (port_log (pic_enable_irq dev irq s)) i \<longleftrightarrow> i \<noteq> irq \<and> masked (port_log s) i"
    and "pics_ready (port_log (pic_enable_irq dev irq s))"
  using assms pic_8259_reads [OF assms(1,2)]
  by (auto simp: pic_enable_irq_def io_simps pic_ports masked_def pics_ready_def operating_def
      write_data_def bit_simps Let_def)

lemma init_chips:
  shows "vector_base (master (port_log (pic_init offset s))) = word_of_int offset AND 0xF8"
    and "vector_base (slave (port_log (pic_init offset s))) = word_of_int (offset + 8) AND 0xF8"
    and "pics_ready (port_log (pic_init offset s))"
    and "imr (master (port_log (pic_init offset s))) = 0xfb"
    and "imr (slave (port_log (pic_init offset s))) = 0xff"
  by (simp_all add: pic_init_def io_simps pic_ports PIC_INIT_def write_command_def write_data_def
      pics_ready_def operating_def bit_simps)

lemma eoi_frame:
  "imr (master (port_log (pic_eoi irq s))) = imr (master (port_log s))"
  "imr (slave (port_log (pic_eoi irq s))) = imr (slave (port_log s))"
  "pics_ready (port_log (pic_eoi irq s)) = pics_ready (port_log s)"
  by (simp_all add: pic_eoi_def io_simps pic_ports PIC_EOI_def write_command_def pics_ready_def
      operating_def bit_simps)

lemma irq_real_frame:
  "imr (master (port_log (snd (pic_irq_real dev irq s)))) = imr (master (port_log s))"
  "imr (slave (port_log (snd (pic_irq_real dev irq s)))) = imr (slave (port_log s))"
  "pics_ready (port_log (snd (pic_irq_real dev irq s))) = pics_ready (port_log s)"
  by (simp_all add: pic_irq_real_def io_simps pic_ports PIC_EOI_def PIC_READ_ISR_def PIC_READ_IRR_def
      write_command_def pics_ready_def operating_def bit_simps Let_def)

text \<open>The accesses that follow a state in the log.\<close>

definition accesses :: "'a machine_scheme \<Rightarrow> 'b machine_scheme \<Rightarrow> port_event list" where
  "accesses s t = take (length (port_log t) - length (port_log s)) (port_log t)"

lemma accessesI: "port_log t = new @ port_log s \<Longrightarrow> accesses s t = new"
  by (simp add: accesses_def)

lemma ends_served:
  assumes "port_log s1 = new @ port_log s" "0 \<le> irq" "irq \<le> 15"
  shows "in_service PIC_MASTER_COMMAND rm (accesses s (pic_eoi irq (pic_disable_irq dev irq s1))) =
      end_of_interrupt (in_service PIC_MASTER_COMMAND rm new)"
    and "in_service PIC_SLAVE_COMMAND rs (accesses s (pic_eoi irq (pic_disable_irq dev irq s1))) =
      (if irq \<ge> 8 then end_of_interrupt (in_service PIC_SLAVE_COMMAND rs new) else in_service PIC_SLAVE_COMMAND rs new)"
proof -
  have e: "drop_bit 5 PIC_EOI = 1 \<and> \<not> bit PIC_EOI 4 \<and> \<not> bit PIC_EOI 3" by (simp add: PIC_EOI_def bit_simps)
  consider "irq \<le> 7" | "8 \<le> irq" by linarith
  then have "in_service PIC_MASTER_COMMAND rm (accesses s (pic_eoi irq (pic_disable_irq dev irq s1))) =
      end_of_interrupt (in_service PIC_MASTER_COMMAND rm new) \<and>
    in_service PIC_SLAVE_COMMAND rs (accesses s (pic_eoi irq (pic_disable_irq dev irq s1))) =
      (if irq \<ge> 8 then end_of_interrupt (in_service PIC_SLAVE_COMMAND rs new) else in_service PIC_SLAVE_COMMAND rs new)"
  proof cases
    case 1
    then have "accesses s (pic_eoi irq (pic_disable_irq dev irq s1)) = Out8 PIC_MASTER_COMMAND PIC_EOI #
        Out8 PIC_MASTER_DATA (ucast (dev (port_log s1) PIC_MASTER_DATA) OR push_bit (nat irq) 1) # In8 PIC_MASTER_DATA # new"
      using assms by (intro accessesI) (simp add: pic_eoi_def pic_disable_irq_def io_simps)
    then show ?thesis using 1 e by (simp add: pic_ports)
  next
    case 2
    then have "accesses s (pic_eoi irq (pic_disable_irq dev irq s1)) = Out8 PIC_MASTER_COMMAND PIC_EOI # Out8 PIC_SLAVE_COMMAND PIC_EOI #
        Out8 PIC_SLAVE_DATA (ucast (dev (port_log s1) PIC_SLAVE_DATA) OR push_bit (nat (irq - 8)) 1) # In8 PIC_SLAVE_DATA # new"
      using assms by (intro accessesI) (simp add: pic_eoi_def pic_disable_irq_def io_simps)
    then show ?thesis using 2 e by (simp add: pic_ports)
  qed
  then show "in_service PIC_MASTER_COMMAND rm (accesses s (pic_eoi irq (pic_disable_irq dev irq s1))) =
      end_of_interrupt (in_service PIC_MASTER_COMMAND rm new)"
    and "in_service PIC_SLAVE_COMMAND rs (accesses s (pic_eoi irq (pic_disable_irq dev irq s1))) =
      (if irq \<ge> 8 then end_of_interrupt (in_service PIC_SLAVE_COMMAND rs new) else in_service PIC_SLAVE_COMMAND rs new)"
    by blast+
qed

lemma line_7_bit: "(ucast v :: u32) AND 0x80 = 0 \<longleftrightarrow> \<not> bit v 7" for v :: u8
  using and_exp_eq_0_iff_not_bit [of "ucast v :: u32" 7] by (simp add: bit_simps)

lemma irq_real_finds:
  assumes "answers_isr dev (port_log s) rm rs"
  shows "(fst (pic_irq_real dev irq s) \<longleftrightarrow> \<not> spurious irq rm rs) \<and>
    (\<exists>new. port_log (snd (pic_irq_real dev irq s)) = new @ port_log s \<and>
      in_service PIC_SLAVE_COMMAND rs new = rs \<and>
      in_service PIC_MASTER_COMMAND rm new = (if irq = 15 \<and> spurious irq rm rs then end_of_interrupt rm else rm))"
proof -
  have isr: "\<not> (drop_bit 5 PIC_READ_ISR = 1 \<and> \<not> bit PIC_READ_ISR 4 \<and> \<not> bit PIC_READ_ISR 3)"
    "\<not> (drop_bit 5 PIC_READ_IRR = 1 \<and> \<not> bit PIC_READ_IRR 4 \<and> \<not> bit PIC_READ_IRR 3)"
    "drop_bit 5 PIC_EOI = 1 \<and> \<not> bit PIC_EOI 4 \<and> \<not> bit PIC_EOI 3"
    "bit PIC_READ_ISR 3 \<and> bit PIC_READ_ISR 1 \<and> bit PIC_READ_ISR 0 \<and> \<not> bit PIC_READ_ISR 4"
    by (simp_all add: PIC_EOI_def PIC_READ_ISR_def PIC_READ_IRR_def bit_simps)
  have ports: "PIC_MASTER_COMMAND \<noteq> PIC_SLAVE_COMMAND" by (simp add: pic_ports)
  have m: "ucast (dev (Out8 PIC_MASTER_COMMAND PIC_READ_ISR # port_log s) PIC_MASTER_COMMAND) = rm"
    using assms [unfolded answers_isr_def, THEN spec, of "[Out8 PIC_MASTER_COMMAND PIC_READ_ISR]"] isr(1,4)
    by (simp add: write_command_def)
  have sl: "ucast (dev (Out8 PIC_SLAVE_COMMAND PIC_READ_ISR # port_log s) PIC_SLAVE_COMMAND) = rs"
    using assms [unfolded answers_isr_def, THEN spec, of "[Out8 PIC_SLAVE_COMMAND PIC_READ_ISR]"] isr(1,4)
    by (simp add: write_command_def)
  consider (other) "irq \<noteq> 7" "irq \<noteq> 15" | (master) "irq = 7" | (slave) "irq = 15" by blast
  then show ?thesis
  proof cases
    case other
    then show ?thesis by (auto simp: pic_irq_real_def spurious_def intro: exI [of _ "[]"])
  next
    case master
    have msk: "push_bit (nat irq) (1 :: u32) = 0x80" by (simp add: master push_bit_eq_mult)
    have real: "fst (pic_irq_real dev irq s) \<longleftrightarrow> \<not> spurious irq rm rs"
      using m by (simp add: pic_irq_real_def master msk [unfolded master] io_simps spurious_def line_7_bit)
    define new where "new = [Out8 PIC_MASTER_COMMAND PIC_READ_IRR, In8 PIC_MASTER_COMMAND, Out8 PIC_MASTER_COMMAND PIC_READ_ISR]"
    have "port_log (snd (pic_irq_real dev irq s)) = new @ port_log s"
      by (simp add: pic_irq_real_def master io_simps new_def)
    moreover have "in_service PIC_SLAVE_COMMAND rs new = rs" "in_service PIC_MASTER_COMMAND rm new = rm"
      unfolding new_def in_service.simps using isr(1,2) ports by (simp_all only: simp_thms if_False)
    ultimately show ?thesis using real by (auto simp: master)
  next
    case slave
    have msk: "drop_bit 8 (push_bit (nat irq) (1 :: u32)) = 0x80" by (simp add: slave push_bit_eq_mult)
    have real: "fst (pic_irq_real dev irq s) \<longleftrightarrow> bit rs 7"
      using sl by (simp add: pic_irq_real_def slave msk [unfolded slave] io_simps line_7_bit Let_def)
    define new where "new = (if bit rs 7 then [] else [Out8 PIC_MASTER_COMMAND PIC_EOI]) @
      [Out8 PIC_SLAVE_COMMAND PIC_READ_IRR, In8 PIC_SLAVE_COMMAND, Out8 PIC_SLAVE_COMMAND PIC_READ_ISR]"
    have "port_log (snd (pic_irq_real dev irq s)) = new @ port_log s"
      using sl by (simp add: pic_irq_real_def slave msk [unfolded slave] io_simps new_def line_7_bit Let_def)
    moreover have "in_service PIC_SLAVE_COMMAND rs new = rs"
      "in_service PIC_MASTER_COMMAND rm new = (if bit rs 7 then rm else end_of_interrupt rm)"
      unfolding new_def using isr(1-3) ports by (cases "bit rs 7"; simp only: append.simps in_service.simps simp_thms if_False if_True)+
    ultimately show ?thesis using real by (auto simp: slave spurious_def)
  qed
qed

text \<open>A device that answers as the assumptions say, for the examples; \<open>rm\<close> and \<open>rs\<close> are the in-service registers at first.\<close>

definition pic_device :: "u8 \<Rightarrow> u8 \<Rightarrow> device" where
  "pic_device rm rs es port =
     (if port = PIC_MASTER_DATA then ucast (imr (master es))
      else if port = PIC_SLAVE_DATA then ucast (imr (slave es))
      else if port = PIC_MASTER_COMMAND then ucast (in_service PIC_MASTER_COMMAND rm es)
      else if port = PIC_SLAVE_COMMAND then ucast (in_service PIC_SLAVE_COMMAND rs es)
      else 0)"

lemma in_service_append: "in_service cmd r (new @ es) = in_service cmd (in_service cmd r es) new"
  by (induction cmd r new rule: in_service.induct) simp_all

lemma pic_device_ok: "pic_8259 (pic_device rm rs)"
  and pic_device_isr: "answers_isr (pic_device rm rs) es (in_service PIC_MASTER_COMMAND rm es) (in_service PIC_SLAVE_COMMAND rs es)"
proof -
  have "(ucast (ucast x :: u32) :: u8) = x" for x :: u8 by (rule bit_word_eqI) (simp add: bit_simps)
  then show "pic_8259 (pic_device rm rs)"
    "answers_isr (pic_device rm rs) es (in_service PIC_MASTER_COMMAND rm es) (in_service PIC_SLAVE_COMMAND rs es)"
    by (simp_all add: pic_8259_def answers_isr_def pic_device_def pic_ports in_service_append)
qed

end
