(* ===== verification/Spinlock.thy ===== *)
theory Spinlock
  imports Machine
begin

text \<open>
  \<^verbatim>\<open>kernel/spinlock.c\<close>: spin locks that disable interrupts while any lock is held. The two
  globals \<open>g_spinLockCount\<close> and \<open>g_interruptsEnabled\<close> are fields of the state; the lock
  word itself (\<open>spinlock_t\<close>) is passed in and returned, because locks live in several
  structures. C's \<open>int\<close> counters are \<open>int\<close>.
\<close>

record spin = machine +
  g_spinLockCount :: int
  g_interruptsEnabled :: int

definition SPINLOCK_UNLOCKED :: u32 where
  "SPINLOCK_UNLOCKED = 0"

text \<open>
  The acquisition loop: \<open>__sync_lock_test_and_set(lock, 1)\<close> returns the old value and
  stores 1; while the old value is not 0 the inner loop reads the lock. On the one
  processor the kernel runs on, interrupts are off here and nothing else can write the
  lock word, so \<open>None\<close> (the loop does not end) is the value on a lock that is held.
\<close>

partial_function (option) spin_wait :: "u32 \<Rightarrow> u32 option" where
  "spin_wait lock = (if lock = 0 then Some lock else spin_wait lock)"

partial_function (option) spin_acquire :: "u32 \<Rightarrow> u32 option" where
  "spin_acquire lock =
     (if lock = 0 then Some 1
      else Option.bind (spin_wait 1) (\<lambda>lock'. spin_acquire lock'))"

definition spin_lock :: "u32 \<Rightarrow> 'a spin_scheme \<Rightarrow> (u32 \<times> 'a spin_scheme) outcome" where
  "spin_lock lock s =
     (let interruptsEnabled = interrupt_enabled s;
          s1 = interrupt_disable s;
          s2 = s1\<lparr>g_spinLockCount := g_spinLockCount s1 + 1\<rparr>;
          s3 = (if g_spinLockCount s1 = 0 then s2\<lparr>g_interruptsEnabled := interruptsEnabled\<rparr> else s2)
      in and_then (returns (spin_acquire lock)) (\<lambda>lock'. Inr (lock', s3)))"

definition spin_unlock :: "u32 \<Rightarrow> 'a spin_scheme \<Rightarrow> (u32 \<times> 'a spin_scheme) outcome" where
  "spin_unlock lock s =
     check (interrupt_enabled s = 0) (Assertion_failed ''!interrupt_enabled()'')
     (check (g_spinLockCount s > 0) (Assertion_failed ''g_spinLockCount > 0'')
       (let s1 = s\<lparr>g_spinLockCount := g_spinLockCount s - 1\<rparr>;
            s2 = (if g_spinLockCount s1 = 0 \<and> g_interruptsEnabled s1 \<noteq> 0
                  then interrupt_enable s1 else s1)
        in Inr (0, s2)))"

section \<open>The acquisition loop\<close>

lemma spin_wait_free: "spin_wait 0 = Some 0"
  by (simp add: spin_wait.simps)

lemma spin_wait_result: "spin_wait lock = Some r \<Longrightarrow> lock = 0"
  by (rule spin_wait.raw_induct [where P = "\<lambda>lock r. lock = 0"]) (auto split: if_splits)

lemma spin_wait_held [simp]: "lock \<noteq> 0 \<Longrightarrow> spin_wait lock = None"
  using spin_wait_result by (cases "spin_wait lock") auto

lemma spin_acquire_free [simp]: "spin_acquire 0 = Some 1"
  by (simp add: spin_acquire.simps)

lemma spin_acquire_held [simp]: "lock \<noteq> 0 \<Longrightarrow> spin_acquire lock = None"
  by (simp add: spin_acquire.simps)

section \<open>Locking and unlocking\<close>

text \<open>
  \<open>spin_ok\<close>: the interrupt flag is off whenever a lock is held, and the count is the
  number of locks held.
\<close>

definition spin_ok :: "'a spin_scheme \<Rightarrow> bool" where
  "spin_ok s \<longleftrightarrow> 0 \<le> g_spinLockCount s \<and> (0 < g_spinLockCount s \<longrightarrow> \<not> if_flag s)"

lemma spin_lock_held: "lock \<noteq> 0 \<Longrightarrow> spin_lock lock s = Inl Spins_forever"
  by (simp add: spin_lock_def Let_def)

lemma spin_lock_first:
  "g_spinLockCount s = 0 \<Longrightarrow>
   spin_lock 0 s = Inr (1, s\<lparr>if_flag := False, g_spinLockCount := 1,
                              g_interruptsEnabled := interrupt_enabled s\<rparr>)"
  by (simp add: spin_lock_def Let_def interrupt_disable_def)

lemma spin_lock_nested:
  "g_spinLockCount s \<noteq> 0 \<Longrightarrow>
   spin_lock 0 s = Inr (1, s\<lparr>if_flag := False, g_spinLockCount := g_spinLockCount s + 1\<rparr>)"
  by (simp add: spin_lock_def Let_def interrupt_disable_def)

lemma spin_unlock_nested:
  "\<not> if_flag s \<Longrightarrow> 1 < g_spinLockCount s \<Longrightarrow>
   spin_unlock lock s = Inr (0, s\<lparr>g_spinLockCount := g_spinLockCount s - 1\<rparr>)"
  by (simp add: spin_unlock_def Let_def)

lemma spin_unlock_last:
  "\<not> if_flag s \<Longrightarrow> g_spinLockCount s = 1 \<Longrightarrow>
   spin_unlock lock s = Inr (0, s\<lparr>if_flag := (g_interruptsEnabled s \<noteq> 0), g_spinLockCount := 0\<rparr>)"
  by (simp add: spin_unlock_def Let_def interrupt_enable_def)

lemma spin_lock_ok: "spin_ok s \<Longrightarrow> spin_lock lock s = Inr (lock', s') \<Longrightarrow> spin_ok s'"
  by (cases "lock = 0"; cases "g_spinLockCount s = 0")
     (auto simp: spin_lock_first spin_lock_nested spin_lock_held spin_ok_def)

lemma spin_unlock_ok: "spin_ok s \<Longrightarrow> spin_unlock lock s = Inr (lock', s') \<Longrightarrow> spin_ok s'"
  by (auto simp: spin_unlock_def spin_ok_def Let_def interrupt_enable_def outcome_simps split: if_splits)

section \<open>Nesting\<close>

text \<open>
  A properly nested sequence of lock operations, on locks that are free when they are
  taken: the model of a critical section with inner critical sections.
\<close>

fun lock_all :: "nat \<Rightarrow> 'a spin_scheme \<Rightarrow> 'a spin_scheme outcome" where
  "lock_all 0 s = Inr s"
| "lock_all (Suc n) s = and_then (spin_lock 0 s) (\<lambda>(_, s'). lock_all n s')"

fun unlock_all :: "nat \<Rightarrow> 'a spin_scheme \<Rightarrow> 'a spin_scheme outcome" where
  "unlock_all 0 s = Inr s"
| "unlock_all (Suc n) s = and_then (spin_unlock 1 s) (\<lambda>(_, s'). unlock_all n s')"

lemma lock_all_nested:
  "0 < g_spinLockCount s \<Longrightarrow> \<not> if_flag s \<Longrightarrow>
   lock_all n s = Inr (s\<lparr>g_spinLockCount := g_spinLockCount s + int n\<rparr>)"
  by (induction n arbitrary: s) (simp_all add: spin_lock_nested)

lemma unlock_all_nested:
  "int n < g_spinLockCount s \<Longrightarrow> \<not> if_flag s \<Longrightarrow>
   unlock_all n s = Inr (s\<lparr>g_spinLockCount := g_spinLockCount s - int n\<rparr>)"
  by (induction n arbitrary: s) (simp_all add: spin_unlock_nested)

lemma unlock_all_snoc:
  "unlock_all (Suc n) s = and_then (unlock_all n s) (unlock_all 1)"
proof (induction n arbitrary: s)
  case (Suc n)
  show ?case
    by (cases "spin_unlock 1 s") (auto simp: Suc.IH [simplified])
qed (simp add: and_then_def split: sum.splits prod.splits)

text \<open>
  C40. Any depth of nested spin locks leaves the interrupt flag, the lock count and the
  whole machine as they were, except the scratch global \<open>g_interruptsEnabled\<close>; while at
  least one lock is held, interrupts are off.
\<close>

theorem nested_spin_locks_restore_interrupts:
  assumes "g_spinLockCount s = 0" and "0 < n"
  shows "\<exists>t. lock_all n s = Inr t \<and> \<not> if_flag t \<and> g_spinLockCount t = int n \<and>
             unlock_all n t = Inr (s\<lparr>g_interruptsEnabled := interrupt_enabled s\<rparr>)"
proof -
  obtain m where n: "n = Suc m" using assms(2) by (cases n) auto
  define t where "t = s\<lparr>if_flag := False, g_spinLockCount := int n,
                        g_interruptsEnabled := interrupt_enabled s\<rparr>"
  have "lock_all n s = Inr t"
    using assms(1) by (simp add: n t_def spin_lock_first lock_all_nested add.commute)
  moreover have "unlock_all m t = Inr (t\<lparr>g_spinLockCount := 1\<rparr>)"
    by (simp add: unlock_all_nested t_def n)
  then have "unlock_all n t = Inr (s\<lparr>g_interruptsEnabled := interrupt_enabled s\<rparr>)"
    using assms(1) by (subst n, subst unlock_all_snoc) (simp add: spin_unlock_last t_def)
  ultimately show ?thesis by (auto simp: t_def)
qed

theorem nested_spin_locks_restore_interrupts_witness:
  "\<exists>t. lock_all 3 \<lparr>if_flag = True, port_log = [], g_spinLockCount = 0, g_interruptsEnabled = 0\<rparr> = Inr t \<and>
     \<not> if_flag t \<and> unlock_all 3 t = Inr \<lparr>if_flag = True, port_log = [], g_spinLockCount = 0, g_interruptsEnabled = 0x200\<rparr>"
  using nested_spin_locks_restore_interrupts
    [of "\<lparr>if_flag = True, port_log = [], g_spinLockCount = 0, g_interruptsEnabled = 0\<rparr>" 3]
  by (auto simp: interrupt_enabled_def X86_EFLAGS_IF_def)

end
