(* ===== verification/Interrupt.thy ===== *)
theory Interrupt
  imports Pic Spinlock
begin

text \<open>
  \<^verbatim>\<open>kernel/x86/interrupt.c\<close>: the interrupt descriptor table, the table of handlers and
  \<open>interrupt_dispatch\<close>, which every interrupt entry stub calls. The stubs' addresses come
  from assembly and are a parameter.
\<close>

section \<open>Interrupt descriptor table\<close>

record idt_descriptor =
  offset_low :: u16
  selector :: u16
  flags :: u16
  offset_mid :: u16
  offset_high :: u32
  reserved :: u32

definition idt_set_null :: "idt_descriptor" where
  "idt_set_null = \<lparr>offset_low = 0, selector = 0, flags = 0, offset_mid = 0, offset_high = 0, reserved = 0\<rparr>"

definition idt_set_interrupt_gate :: "u64 \<Rightarrow> idt_descriptor" where
  "idt_set_interrupt_gate address =
     \<lparr>offset_low = ucast (address AND 0xFFFF),
      selector = 0x08,
      flags = 0x8E00,
      offset_mid = ucast (drop_bit 16 address AND 0xFFFF),
      offset_high = ucast (drop_bit 32 address AND 0xFFFFFFFF),
      reserved = 0\<rparr>"

text \<open>
  The address the processor reads back from a gate (Intel SDM, 64-bit interrupt gate).
\<close>

definition gate_target :: "idt_descriptor \<Rightarrow> u64" where
  "gate_target d = ucast (offset_low d) OR push_bit 16 (ucast (offset_mid d)) OR
                   push_bit 32 (ucast (offset_high d))"

definition gate_present :: "idt_descriptor \<Rightarrow> bool" where
  "gate_present d \<longleftrightarrow> bit (flags d) 15"

text \<open>\<open>INTERRUPT_TABLE\<close>: the exceptions without an entry stub have a NULL entry.\<close>

definition interrupt_null :: "nat \<Rightarrow> bool" where
  "interrupt_null i \<longleftrightarrow> i = 9 \<or> i = 15 \<or> (21 \<le> i \<and> i \<le> 29) \<or> i = 31"

definition interrupt_init_table :: "(nat \<Rightarrow> u64) \<Rightarrow> nat \<Rightarrow> u64" where
  "interrupt_init_table entry i = (if interrupt_null i then 0 else entry i)"

definition PIC_IRQ_OFFSET :: int where
  "PIC_IRQ_OFFSET = 32"

datatype interrupt_handler =
    timer_callback_handler
  | vmm_page_fault_handler_handler
  | acpi_interrupt_handler_handler
  | other_handler nat

record intr = spin +
  IDT :: "nat \<Rightarrow> idt_descriptor"
  interrupt_handlers :: "int \<Rightarrow> interrupt_handler option"

text \<open>The loop of \<open>interrupt_init\<close> over the 256 gates.\<close>

primrec idt_fill :: "nat \<Rightarrow> (nat \<Rightarrow> u64) \<Rightarrow> (nat \<Rightarrow> idt_descriptor) \<Rightarrow> nat \<Rightarrow> idt_descriptor" where
  "idt_fill 0 table idt = idt"
| "idt_fill (Suc n) table idt =
     (idt_fill n table idt)(n := (if table n \<noteq> 0 then idt_set_interrupt_gate (table n) else idt_set_null))"

definition interrupt_init :: "(nat \<Rightarrow> u64) \<Rightarrow> 'a intr_scheme \<Rightarrow> 'a intr_scheme" where
  "interrupt_init entry s =
     (let s = s\<lparr>IDT := idt_fill 256 (interrupt_init_table entry) (IDT s)\<rparr>;
          s = pic_init PIC_IRQ_OFFSET s
      in interrupt_enable s)"

section \<open>Handlers\<close>

definition interrupt_register ::
    "int \<Rightarrow> interrupt_handler \<Rightarrow> 'a intr_scheme \<Rightarrow> (int \<times> 'a intr_scheme) outcome" where
  "interrupt_register interrupt handler s =
     check (interrupt \<ge> 0 \<and> interrupt \<le> 255) (Assertion_failed ''interrupt >= 0 && interrupt <= 255'')
       (if interrupt_handlers s interrupt \<noteq> None then Inr (0, s)
        else Inr (1, s\<lparr>interrupt_handlers := (interrupt_handlers s)(interrupt := Some handler)\<rparr>))"

section \<open>Dispatch\<close>

text \<open>
  The part of \<open>interrupt_dispatch\<close> before the handler: \<open>None\<close> is the early return for a
  spurious IRQ. The part after the handler is \<open>dispatch_leave\<close>. They are separate because
  the timer handler may switch threads: the part after it then runs when the interrupted
  thread is switched back in.
\<close>

definition irq_of :: "u64 \<Rightarrow> int" where
  "irq_of interrupt = sint (ucast interrupt - word_of_int PIC_IRQ_OFFSET :: u32)"

definition dispatch_enter ::
    "device \<Rightarrow> int \<Rightarrow> 'a machine_scheme \<Rightarrow> bool \<times> 'a machine_scheme" where
  "dispatch_enter dev irq s =
     (if irq \<ge> 0 \<and> irq \<le> 15 then
        let (real, s) = pic_irq_real dev irq s
        in if \<not> real then (False, s)
           else (True, pic_eoi irq (pic_disable_irq dev irq s))
      else (True, s))"

definition dispatch_leave :: "device \<Rightarrow> int \<Rightarrow> 'a machine_scheme \<Rightarrow> 'a machine_scheme" where
  "dispatch_leave dev irq s = (if irq \<ge> 0 \<and> irq \<le> 15 then pic_enable_irq dev irq s else s)"

definition interrupt_dispatch ::
    "device \<Rightarrow> (interrupt_handler \<Rightarrow> 'a intr_scheme \<Rightarrow> 'a intr_scheme outcome) \<Rightarrow>
     u64 \<Rightarrow> 'a intr_scheme \<Rightarrow> 'a intr_scheme outcome" where
  "interrupt_dispatch dev run interrupt s =
     (let irq = irq_of interrupt;
          (proceed, s) = dispatch_enter dev irq s
      in if \<not> proceed then Inr s
         else case interrupt_handlers s (uint interrupt) of
                None \<Rightarrow> Inl (Fatal ''Unhandled interrupt'')
              | Some handler \<Rightarrow>
                  and_then (run handler s) (\<lambda>s. Inr (dispatch_leave dev irq s)))"

section \<open>Gates\<close>

lemma gate_target_set: "gate_target (idt_set_interrupt_gate a) = a"
proof (rule bit_word_eqI)
  fix n assume "n < LENGTH(64)"
  then consider "n < 16" | "16 \<le> n" "n < 32" | "32 \<le> n" "n < 64" by force
  then show "bit (gate_target (idt_set_interrupt_gate a)) n \<longleftrightarrow> bit a n"
    by cases (auto simp: gate_target_def idt_set_interrupt_gate_def bit_simps mask_bits)
qed

lemma gate_present_set: "gate_present (idt_set_interrupt_gate a)"
  by (simp add: gate_present_def idt_set_interrupt_gate_def bit_simps)

lemma idt_fill_apply:
  "idt_fill n table idt i =
    (if i < n then if table i \<noteq> 0 then idt_set_interrupt_gate (table i) else idt_set_null else idt i)"
  by (induction n) (auto simp: less_Suc_eq)

lemma pic_init_intr [simp]:
  "IDT (pic_init n s) = IDT s" "interrupt_handlers (pic_init n s) = interrupt_handlers s"
  by (simp_all add: pic_init_def io_simps)

lemma pic_frame [simp]:
  "interrupt_handlers (pic_enable_irq dev irq s) = interrupt_handlers s"
  "interrupt_handlers (pic_disable_irq dev irq s) = interrupt_handlers s"
  "interrupt_handlers (pic_eoi irq s) = interrupt_handlers s"
  "interrupt_handlers (snd (pic_irq_real dev irq s)) = interrupt_handlers s"
  by (simp_all add: pic_enable_irq_def pic_disable_irq_def pic_eoi_def pic_irq_real_def io_simps Let_def)

lemma dispatch_enter_handlers [simp]:
  "interrupt_handlers (snd (dispatch_enter dev irq s)) = interrupt_handlers s"
  by (simp add: dispatch_enter_def split: prod.split) (metis pic_frame(4) snd_conv)

lemma interrupt_init_gate:
  "i < 256 \<Longrightarrow> IDT (interrupt_init entry s) i =
    (if interrupt_null i \<or> entry i = 0 then idt_set_null else idt_set_interrupt_gate (entry i))"
  by (simp add: interrupt_init_def interrupt_enable_def idt_fill_apply interrupt_init_table_def)

lemma gate_null_absent [simp]: "\<not> gate_present idt_set_null"
  by (simp add: gate_present_def idt_set_null_def)

text \<open>
  After \<open>interrupt_init\<close> the processor finds, for each of the 256 vectors, exactly the
  entry stub of the table (and a non-present gate for the reserved exceptions), the PICs
  deliver IRQ 0 to 15 as vectors 32 to 47 with every line masked but the cascade line, and
  interrupts are on.
\<close>

theorem interrupt_init_establishes_vectors:
  assumes "\<And>i. i < 256 \<Longrightarrow> entry i \<noteq> 0"
  shows "(\<forall>i < 256. if interrupt_null i then \<not> gate_present (IDT (interrupt_init entry s) i)
                    else gate_present (IDT (interrupt_init entry s) i) \<and>
                         gate_target (IDT (interrupt_init entry s) i) = entry i) \<and>
         vector_base (master (port_log (interrupt_init entry s))) = 32 \<and>
         vector_base (slave (port_log (interrupt_init entry s))) = 40 \<and>
         (\<forall>irq \<in> {0..15}. masked (port_log (interrupt_init entry s)) irq \<longleftrightarrow> irq \<noteq> 2) \<and>
         if_flag (interrupt_init entry s)"
proof -
  have lines: "{0..15} = {0, 1, 2, 3, 4, 5, 6, 7, 8, 9, 10, 11, 12, 13, 14, 15 :: int}"
    by (rule set_eqI) (simp, presburger)
  have "\<forall>irq \<in> {0..15}. masked (port_log (interrupt_init entry s)) irq \<longleftrightarrow> irq \<noteq> 2"
    unfolding lines by (simp add: interrupt_init_def interrupt_enable_def masked_def init_chips)
  then show ?thesis
    using assms by (simp add: interrupt_init_gate gate_target_set gate_present_set)
      (simp add: interrupt_init_def interrupt_enable_def init_chips PIC_IRQ_OFFSET_def)
qed

text \<open>The state at power on.\<close>

definition power_on :: intr where
  "power_on = \<lparr>if_flag = False, port_log = [], g_spinLockCount = 0, g_interruptsEnabled = 0,
     IDT = (\<lambda>_. idt_set_null), interrupt_handlers = (\<lambda>_. None)\<rparr>"

theorem interrupt_init_establishes_vectors_witness:
  "gate_target (IDT (interrupt_init (\<lambda>i. 0x100000 + of_nat i * 16) power_on) 14) = 0x1000E0 \<and>
   masked (port_log (interrupt_init (\<lambda>i. 0x100000 + of_nat i * 16) power_on)) 0"
proof -
  have nz: "(0x100000 + of_nat i * 16 :: u64) \<noteq> 0" if i: "i < 256" for i
  proof -
    have "uint (0x100000 + of_nat i * 16 :: u64) = 0x100000 + int i * 16"
      using i by (simp add: uint_word_ariths unsigned_of_nat take_bit_nat_eq_self zmod_int)
    then show ?thesis by auto
  qed
  have "\<not> interrupt_null 14" by (simp add: interrupt_null_def)
  then show ?thesis
    using conjunct1 [OF interrupt_init_establishes_vectors [of "\<lambda>i. 0x100000 + of_nat i * 16" power_on, OF nz], rule_format, of 14]
      interrupt_init_establishes_vectors [of "\<lambda>i. 0x100000 + of_nat i * 16" power_on, OF nz, THEN conjunct2, THEN conjunct2, THEN conjunct2, THEN conjunct1, rule_format, of 0]
    by simp
qed

text \<open>
  C38. An IRQ is spurious if it is line 7 of a controller whose in-service register has that line clear, and real otherwise.
  A real IRQ is dispatched with its line masked (so that it cannot nest) and ended, before the handler runs, at the master, and
  at the slave exactly if it came through the slave; its line is unmasked, and no other, after the handler. A spurious IRQ runs
  no handler, leaves every line and the slave's register as they were, and ends the cascade line at the master if it came through the slave.
\<close>

theorem interrupt_dispatch_irq:
  assumes dev: "pic_8259 dev" "pics_ready (port_log s)" "answers_isr dev (port_log s) rm rs"
    and irq: "0 \<le> irq_of interrupt" "irq_of interrupt \<le> 15"
    and handler: "interrupt_handlers s (uint interrupt) = Some h"
    and keeps: "\<forall>t t'. run h t = Inr t' \<longrightarrow> pics_ready (port_log t) \<longrightarrow> pics_ready (port_log t')"
  shows "if spurious (irq_of interrupt) rm rs
    then \<exists>s'. interrupt_dispatch dev run interrupt s = Inr s' \<and>
           (\<forall>i. masked (port_log s') i = masked (port_log s) i) \<and>
           in_service PIC_MASTER_COMMAND rm (accesses s s') = (if irq_of interrupt = 15 then end_of_interrupt rm else rm) \<and>
           in_service PIC_SLAVE_COMMAND rs (accesses s s') = rs
    else \<exists>t. interrupt_dispatch dev run interrupt s =
             and_then (run h t) (\<lambda>t'. Inr (dispatch_leave dev (irq_of interrupt) t')) \<and>
           (\<forall>i \<in> {0..15}. masked (port_log t) i = (i = irq_of interrupt \<or> masked (port_log s) i)) \<and>
           in_service PIC_MASTER_COMMAND rm (accesses s t) = end_of_interrupt rm \<and>
           in_service PIC_SLAVE_COMMAND rs (accesses s t) = (if irq_of interrupt \<ge> 8 then end_of_interrupt rs else rs) \<and>
           (\<forall>t'. run h t = Inr t' \<longrightarrow> (\<forall>i \<in> {0..15}.
              masked (port_log (dispatch_leave dev (irq_of interrupt) t')) i =
              (i \<noteq> irq_of interrupt \<and> masked (port_log t') i)))"
proof -
  let ?irq = "irq_of interrupt"
  obtain real s1 where r: "pic_irq_real dev ?irq s = (real, s1)" by (cases "pic_irq_real dev ?irq s") auto
  have s1: "imr (master (port_log s1)) = imr (master (port_log s))" "imr (slave (port_log s1)) = imr (slave (port_log s))"
    "pics_ready (port_log s1)" "interrupt_handlers s1 = interrupt_handlers s"
    using irq_real_frame [of dev ?irq s] pic_frame(4) [of dev ?irq s] dev(2) r by simp_all
  have m1: "masked (port_log s1) i = masked (port_log s) i" for i using s1 by (simp add: masked_def)
  obtain new where new: "port_log s1 = new @ port_log s" and real: "real \<longleftrightarrow> \<not> spurious ?irq rm rs"
    and isr: "in_service PIC_SLAVE_COMMAND rs new = rs"
      "in_service PIC_MASTER_COMMAND rm new = (if ?irq = 15 \<and> spurious ?irq rm rs then end_of_interrupt rm else rm)"
    using irq_real_finds [OF dev(3), of ?irq] by (auto simp: r)
  show ?thesis
  proof (cases real)
    case False
    have "interrupt_dispatch dev run interrupt s = Inr s1"
      using r irq False by (simp add: interrupt_dispatch_def dispatch_enter_def)
    then show ?thesis using False real isr m1 accessesI [OF new] by simp
  next
    case True
    let ?t = "pic_eoi ?irq (pic_disable_irq dev ?irq s1)"
    have en: "dispatch_enter dev ?irq s = (True, ?t)" using r irq True by (simp add: dispatch_enter_def)
    have run: "interrupt_dispatch dev run interrupt s =
        and_then (run h ?t) (\<lambda>t'. Inr (dispatch_leave dev ?irq t'))"
      using en handler s1(4) by (simp add: interrupt_dispatch_def Let_def)
    note dl = disable_line [OF dev(1) s1(3) irq]
    have mt: "masked (port_log ?t) i = (i = ?irq \<or> masked (port_log s) i)" if "i \<in> {0..15}" for i
    proof -
      have "masked (port_log ?t) i = masked (port_log (pic_disable_irq dev ?irq s1)) i"
        by (simp add: masked_def eoi_frame)
      then show ?thesis using dl(1) [of i] that m1 by simp
    qed
    have rt: "pics_ready (port_log ?t)" using dl(2) [of 0] by (simp add: eoi_frame)
    have eo: "in_service PIC_MASTER_COMMAND rm (accesses s ?t) = end_of_interrupt rm"
      "in_service PIC_SLAVE_COMMAND rs (accesses s ?t) = (if ?irq \<ge> 8 then end_of_interrupt rs else rs)"
      using ends_served(1) [where rm = rm and dev = dev, OF new irq] ends_served(2) [where rs = rs and dev = dev, OF new irq] isr True real by simp_all
    have lv: "masked (port_log (dispatch_leave dev ?irq t')) i = (i \<noteq> ?irq \<and> masked (port_log t') i)"
      if "run h ?t = Inr t'" "i \<in> {0..15}" for t' i
    proof -
      have "pics_ready (port_log t')" using keeps that(1) rt by blast
      then show ?thesis using that(2) irq by (simp add: dispatch_leave_def enable_line(1) [OF dev(1)])
    qed
    have "\<not> spurious ?irq rm rs" using True real by simp
    then show ?thesis using run mt eo lv by (simp only: if_False) blast
  qed
qed

text \<open>IRQ 15 with the slave's line 7 in service: both controllers end it.\<close>

definition with_timer :: intr where
  "with_timer = (pic_init 32 power_on)\<lparr>interrupt_handlers := (\<lambda>_. Some timer_callback_handler)\<rparr>"

lemma with_timer_ready: "pics_ready (port_log with_timer)"
  using init_chips(3) [of 32 power_on] by (simp add: with_timer_def)

theorem interrupt_dispatch_irq_witness:
  "\<exists>t. interrupt_dispatch (pic_device 0x04 0x80) (\<lambda>h. Inr) 47 with_timer = Inr t \<and> \<not> masked (port_log t) 15"
proof -
  have i: "irq_of 47 = 15" by (simp add: irq_of_def PIC_IRQ_OFFSET_def)
  have h: "interrupt_handlers with_timer (uint (47 :: u64)) = Some timer_callback_handler" by (simp add: with_timer_def)
  have "in_service PIC_MASTER_COMMAND 0x04 (port_log with_timer) = 0x04" "in_service PIC_SLAVE_COMMAND 0x80 (port_log with_timer) = 0x80"
    by (simp_all add: with_timer_def pic_init_def power_on_def io_simps pic_ports PIC_INIT_def bit_simps)
  then have isr: "answers_isr (pic_device 0x04 0x80) (port_log with_timer) 0x04 0x80"
    using pic_device_isr [of "0x04" "0x80" "port_log with_timer"] by simp
  have real: "\<not> spurious 15 0x04 0x80" by (simp add: spurious_def bit_simps)
  have keeps: "\<forall>t t'. (\<lambda>(h :: interrupt_handler) t :: intr. Inr t :: intr outcome) timer_callback_handler t = Inr t' \<longrightarrow>
      pics_ready (port_log t) \<longrightarrow> pics_ready (port_log t')" by simp
  show ?thesis
    using interrupt_dispatch_irq [OF pic_device_ok with_timer_ready isr _ _ h keeps] i real by auto
qed

end
