(* ===== verification/Mm_State.thy ===== *)
theory Mm_State
  imports Paging Interrupt
begin

text \<open>
  State of the memory managers (\<^verbatim>\<open>kernel/x86/pmm.c\<close> and \<^verbatim>\<open>kernel/x86/vmm.c\<close>, the
  x86_64 variant) and the accesses they make. Memory is physical; the kernel reads and
  writes virtual addresses, which the processor translates through the page tables at
  CR3. An access to an address that does not translate enters the page fault handler.
\<close>

record free_memory =
  fm_start :: u64
  fm_end :: u64

record mm = intr +
  ram :: ram
  cr3 :: u64
  invlpg_log :: "u64 list"            \<comment> \<open>addresses invalidated in the TLB, the latest first\<close>
  pmm_system_memory :: u64
  pmm_free_memory :: u64
  pmm_used_memory :: u64
  pmm_unavailable_memory :: u64
  pmm_stack_top :: u64                \<comment> \<open>virtual address\<close>
  s_free_memory :: "nat \<Rightarrow> free_memory"
  s_free_memory_count :: nat
  s_free_memory_current :: nat
  next_alloc :: u64

definition PAGE_SIZE :: u64 where "PAGE_SIZE = 0x1000"
definition PMM_STACK_VMA :: u64 where "PMM_STACK_VMA = 0xFFFFF00000000000"
definition KERNEL_SPACE :: u64 where "KERNEL_SPACE = 0x8000000000000000"
definition MEM_1_GB :: u64 where "MEM_1_GB = 0x100000"

definition PAGE_ALIGN_DOWN :: "u64 \<Rightarrow> u64" where
  "PAGE_ALIGN_DOWN addr = addr AND NOT (PAGE_SIZE - 1)"

definition PAGE_ALIGN_UP :: "u64 \<Rightarrow> u64" where
  "PAGE_ALIGN_UP addr = PAGE_ALIGN_DOWN (addr + PAGE_SIZE - 1)"

definition IS_PAGE_ALIGNED :: "u64 \<Rightarrow> bool" where
  "IS_PAGE_ALIGNED p \<longleftrightarrow> p AND (PAGE_SIZE - 1) = 0"

section \<open>Accesses\<close>

text \<open>
  A read of an unmapped address raises a page fault with error code 0, for which
  \<open>vmm_page_fault_handler\<close> calls \<open>fatal\<close>.
\<close>

definition load :: "'a mm_scheme \<Rightarrow> u64 \<Rightarrow> u64 outcome" where
  "load s va =
     (case walk (ram s) (cr3 s) va of
        Some f \<Rightarrow> Inr (ram s f (slot va))
      | None \<Rightarrow> Inl (Fatal ''UNHANDLED PAGE FAULT''))"

definition write_word :: "u64 \<Rightarrow> u64 \<Rightarrow> u64 \<Rightarrow> 'a mm_scheme \<Rightarrow> 'a mm_scheme" where
  "write_word f i v s = s\<lparr>ram := (ram s)(f := (ram s f)(i := v))\<rparr>"

definition zero_frame :: "u64 \<Rightarrow> 'a mm_scheme \<Rightarrow> 'a mm_scheme" where
  "zero_frame f s = s\<lparr>ram := (ram s)(f := (\<lambda>_. 0))\<rparr>"

text \<open>
  A write of an unmapped address enters the page fault handler, which itself writes
  memory; the functions the handler calls are therefore parameterised by the store they
  use (suffix \<open>_via\<close>), and the recursion is closed in \<^verbatim>\<open>Vmm\<close> over the nesting depth.
\<close>

type_synonym 'a storer = "u64 \<Rightarrow> u64 \<Rightarrow> 'a mm_scheme \<Rightarrow> 'a mm_scheme outcome"

definition vmm_invalidate :: "u64 \<Rightarrow> 'a mm_scheme \<Rightarrow> 'a mm_scheme" where
  "vmm_invalidate va s = s\<lparr>invlpg_log := va # invlpg_log s\<rparr>"

text \<open>\<open>memset(va, 0, PAGE_SIZE)\<close>: once the first word is written, the page is mapped.\<close>

definition zero_page_via :: "'a storer \<Rightarrow> u64 \<Rightarrow> 'a mm_scheme \<Rightarrow> 'a mm_scheme outcome" where
  "zero_page_via st va s =
     and_then (st va 0 s)
       (\<lambda>s. Inr (case walk (ram s) (cr3 s) va of Some f \<Rightarrow> zero_frame f s | None \<Rightarrow> s))"

definition vmm_unmap_page_via :: "'a storer \<Rightarrow> u64 \<Rightarrow> 'a mm_scheme \<Rightarrow> 'a mm_scheme outcome" where
  "vmm_unmap_page_via st va s = st (entry_addr pm1_base (index1 va)) 0 s"

section \<open>Page alignment\<close>

lemma align_down_uint: "uint (PAGE_ALIGN_DOWN a) = uint a div 4096 * 4096"
proof -
  have eq: "PAGE_ALIGN_DOWN a = (a div 4096) * 4096"
  proof -
    have "PAGE_ALIGN_DOWN a = push_bit 12 (drop_bit 12 a)"
      by (rule bit_word_eqI) (auto simp: PAGE_ALIGN_DOWN_def PAGE_SIZE_def bit_simps mask_bits)
    then show ?thesis by (simp add: push_bit_eq_mult drop_bit_eq_div)
  qed
  have "uint a div 4096 * 4096 < 2 ^ 64" using uint_lt2p [of a] by simp
  then have "uint (a div 4096) * uint (4096 :: u64) < 2 ^ LENGTH(64)" by (simp add: uint_div)
  then have "uint ((a div 4096) * 4096) = uint (a div 4096) * uint (4096 :: u64)"
    by (rule uint_mult_lem [THEN iffD1])
  then show ?thesis by (simp add: eq uint_div)
qed

lemma align_down_le: "PAGE_ALIGN_DOWN a \<le> a"
  by (simp add: word_le_def align_down_uint)

lemma align_down_aligned: "uint (PAGE_ALIGN_DOWN a) mod 4096 = 0"
  by (simp add: align_down_uint)

lemma align_up_uint:
  "uint a + 4095 < 2 ^ 64 \<Longrightarrow> uint (PAGE_ALIGN_UP a) = (uint a + 4095) div 4096 * 4096"
proof -
  assume "uint a + 4095 < 2 ^ 64"
  then have "uint (a + 4095) = uint a + 4095" by (simp add: uint_add_lem [THEN iffD1])
  then have "uint (a + PAGE_SIZE - 1) = uint a + 4095" by (simp add: PAGE_SIZE_def add.commute)
  then show ?thesis by (simp only: PAGE_ALIGN_UP_def align_down_uint)
qed

lemma page_aligned_uint: "IS_PAGE_ALIGNED a \<longleftrightarrow> uint a mod 4096 = 0"
proof -
  have "a AND (PAGE_SIZE - 1) = take_bit 12 a"
    by (simp add: PAGE_SIZE_def take_bit_eq_mask mask_eq_exp_minus_1)
  then have "IS_PAGE_ALIGNED a \<longleftrightarrow> take_bit 12 (uint a) = 0"
    by (simp add: IS_PAGE_ALIGNED_def flip: uint_0_iff unsigned_take_bit_eq)
  then show ?thesis by (simp add: take_bit_eq_mod)
qed

end
