(* ===== verification/Pmm.thy ===== *)
theory Pmm
  imports Mm_State
begin

text \<open>
  \<^verbatim>\<open>kernel/x86/pmm.c\<close>: the physical memory manager. Free pages come from two places: a
  table of free regions filled from the boot memory map, and a stack of freed pages in
  virtual memory that is backed by the free pages themselves. \<open>pmm_free_page\<close>, which maps
  a page, is in \<^verbatim>\<open>Vmm\<close>.
\<close>

record memory_map_entry =
  base :: u64
  len :: u64

section \<open>Initialisation\<close>

text \<open>
  One turn of the loop over the boot memory map: \<open>None\<close> is the \<open>break\<close> when the table of
  1000 regions is full. The kernel's bounds are the linker's \<open>kernel_image_start\<close> and
  \<open>kernel_image_end\<close>.
\<close>

definition region_start :: "u64 \<Rightarrow> u64 \<Rightarrow> memory_map_entry \<Rightarrow> u64" where
  "region_start kernel_start kernel_end entry =
     (let start = PAGE_ALIGN_UP (base entry);
          start = (if start < MEM_1_GB then MEM_1_GB else start)
      in if start \<ge> kernel_start \<and> start < kernel_end then kernel_end else start)"

definition region_end :: "u64 \<Rightarrow> u64 \<Rightarrow> memory_map_entry \<Rightarrow> u64" where
  "region_end kernel_start kernel_end entry =
     (let limit = PAGE_ALIGN_DOWN (base entry + len entry)
      in if limit \<ge> kernel_start \<and> limit < kernel_end then kernel_start else limit)"

definition pmm_add_entry ::
    "u64 \<Rightarrow> u64 \<Rightarrow> memory_map_entry \<Rightarrow> 'a mm_scheme \<Rightarrow> 'a mm_scheme" where
  "pmm_add_entry kernel_start kernel_end entry s =
     (let s = s\<lparr>pmm_system_memory := pmm_system_memory s + len entry\<rparr>;
          start = region_start kernel_start kernel_end entry;
          limit = region_end kernel_start kernel_end entry
      in if start \<ge> limit then s
         else s\<lparr>s_free_memory := (s_free_memory s)
                    (s_free_memory_count s := \<lparr>fm_start = start, fm_end = limit\<rparr>),
                s_free_memory_count := s_free_memory_count s + 1,
                pmm_free_memory := pmm_free_memory s + (limit - start)\<rparr>)"

fun pmm_init_loop ::
    "u64 \<Rightarrow> u64 \<Rightarrow> memory_map_entry list \<Rightarrow> 'a mm_scheme \<Rightarrow> 'a mm_scheme" where
  "pmm_init_loop ks ke [] s = s"
| "pmm_init_loop ks ke (entry # entries) s =
     (let t = pmm_add_entry ks ke entry s
      in if s_free_memory_count t \<noteq> s_free_memory_count s \<and> s_free_memory_count t = 1000 then t
         else pmm_init_loop ks ke entries t)"

definition pmm_init ::
    "u64 \<Rightarrow> u64 \<Rightarrow> memory_map_entry list \<Rightarrow> 'a mm_scheme \<Rightarrow> 'a mm_scheme outcome" where
  "pmm_init kernel_image_start kernel_image_end boot_map s =
     (let kernel_start = PAGE_ALIGN_DOWN kernel_image_start;
          kernel_end = PAGE_ALIGN_UP kernel_image_end;
          s = s\<lparr>s_free_memory_count := 0, s_free_memory_current := 0\<rparr>;
          s = pmm_init_loop kernel_start kernel_end boot_map s;
          s = s\<lparr>pmm_used_memory := pmm_system_memory s - pmm_free_memory s - pmm_unavailable_memory s\<rparr>
      in if pmm_free_memory s = 0 then Inl (Fatal ''No memory available'') else Inr s)"

section \<open>Allocation\<close>

partial_function (option) find_region :: "(nat \<Rightarrow> free_memory) \<Rightarrow> nat \<Rightarrow> nat \<Rightarrow> nat option" where
  "find_region fm count cur =
     (if cur = count then Some cur
      else if fm_start (fm cur) \<noteq> fm_end (fm cur) then Some cur
      else find_region fm count (cur + 1))"

definition alloc_from_regions :: "'a mm_scheme \<Rightarrow> (u64 \<times> 'a mm_scheme) outcome" where
  "alloc_from_regions s =
     and_then (returns (find_region (s_free_memory s) (s_free_memory_count s) (s_free_memory_current s)))
       (\<lambda>cur.
         let s = s\<lparr>s_free_memory_current := cur\<rparr>
         in if cur = s_free_memory_count s then Inl (Fatal ''Out of physical memory'')
            else let entry = s_free_memory s cur; page = fm_start entry
                 in Inr (page, s\<lparr>s_free_memory := (s_free_memory s)
                                    (cur := entry\<lparr>fm_start := fm_start entry + PAGE_SIZE\<rparr>),
                                 pmm_free_memory := pmm_free_memory s - PAGE_SIZE\<rparr>))"

definition pmm_alloc_page_via :: "'a storer \<Rightarrow> 'a mm_scheme \<Rightarrow> (u64 \<times> 'a mm_scheme) outcome" where
  "pmm_alloc_page_via st s =
     (if pmm_stack_top s \<noteq> PMM_STACK_VMA then
        let s = s\<lparr>pmm_stack_top := pmm_stack_top s - 8\<rparr>
        in and_then (load s (pmm_stack_top s)) (\<lambda>page.
           and_then (if IS_PAGE_ALIGNED (pmm_stack_top s)
                     then vmm_unmap_page_via st (pmm_stack_top s) s else Inr s) (\<lambda>s.
           Inr (page, s\<lparr>pmm_free_memory := pmm_free_memory s - PAGE_SIZE\<rparr>)))
      else alloc_from_regions s)"

end
