(* ===== verification/Vmm.thy ===== *)
theory Vmm
  imports Pmm
begin

text \<open>
  \<^verbatim>\<open>kernel/x86/vmm.c\<close> for x86_64, and \<open>pmm_free_page\<close> of \<^verbatim>\<open>kernel/x86/pmm.c\<close>.
\<close>

section \<open>Page faults\<close>

definition PAGE_FAULT_WRITE :: u64 where "PAGE_FAULT_WRITE = 2"
definition page_table_start :: u64 where "page_table_start = 0xFFFFFF0000000000"
definition page_table_end :: u64 where "page_table_end = 0xFFFFFF7FFFFFFFFF"

definition vmm_page_fault_handler_via ::
    "'a storer \<Rightarrow> u64 \<Rightarrow> u64 \<Rightarrow> 'a mm_scheme \<Rightarrow> (int \<times> 'a mm_scheme) outcome" where
  "vmm_page_fault_handler_via st cr2 error s =
     (let address = PAGE_ALIGN_DOWN cr2;
          pPageEntry = entry_addr pm1_base (index1 address);
          unhandled = Inl (Fatal ''UNHANDLED PAGE FAULT'')
      in if error = PAGE_FAULT_WRITE then
           and_then (load s pPageEntry) (\<lambda>e.
             if e AND PAGE_ALLOCATED \<noteq> 0 \<or> (address \<ge> page_table_start \<and> address \<le> page_table_end)
             then and_then (pmm_alloc_page_via st s) (\<lambda>(page, s).
                  let entry = page OR PAGE_WRITE OR PAGE_PRESENT;
                      entry = (if address \<ge> KERNEL_SPACE then entry OR PAGE_GLOBAL else entry)
                  in and_then (st pPageEntry entry s) (\<lambda>s.
                     and_then (zero_page_via st address (vmm_invalidate address s)) (\<lambda>s.
                     Inr (1, s))))
             else unhandled)
         else unhandled)"

text \<open>
  A store. When the address is not mapped, the processor enters the page fault handler and
  then runs the instruction again. The first argument bounds how deep page faults nest.
\<close>

fun store :: "nat \<Rightarrow> u64 \<Rightarrow> u64 \<Rightarrow> 'a mm_scheme \<Rightarrow> 'a mm_scheme outcome" where
  "store n va v s =
     (case walk (ram s) (cr3 s) va of
        Some f \<Rightarrow> Inr (write_word f (slot va) v s)
      | None \<Rightarrow>
         (case n of
            0 \<Rightarrow> Inl Page_fault_nested_too_deep
          | Suc m \<Rightarrow> and_then (vmm_page_fault_handler_via (store m) va PAGE_FAULT_WRITE s)
                               (\<lambda>(_, s). store m va v s)))"

declare store.simps [simp del]

text \<open>Two levels of nesting are more than the kernel's own accesses need.\<close>

definition put :: "u64 \<Rightarrow> u64 \<Rightarrow> 'a mm_scheme \<Rightarrow> 'a mm_scheme outcome" where
  "put = store 2"

definition pmm_alloc_page :: "'a mm_scheme \<Rightarrow> (u64 \<times> 'a mm_scheme) outcome" where
  "pmm_alloc_page = pmm_alloc_page_via put"

definition vmm_unmap_page :: "u64 \<Rightarrow> 'a mm_scheme \<Rightarrow> 'a mm_scheme outcome" where
  "vmm_unmap_page = vmm_unmap_page_via put"

definition vmm_page_fault_handler :: "u64 \<Rightarrow> u64 \<Rightarrow> 'a mm_scheme \<Rightarrow> (int \<times> 'a mm_scheme) outcome" where
  "vmm_page_fault_handler = vmm_page_fault_handler_via put"

section \<open>Mapping\<close>

text \<open>
  One level of \<open>vmm_map_page\<close>: when the entry at \<open>entry\<close> is not present, install a new
  table and clear it through its page \<open>window\<close> of the recursive mapping.
\<close>

definition vmm_ensure_table :: "u64 \<Rightarrow> u64 \<Rightarrow> 'a mm_scheme \<Rightarrow> 'a mm_scheme outcome" where
  "vmm_ensure_table entry window s =
     and_then (load s entry) (\<lambda>e.
       if \<not> present e then
         and_then (pmm_alloc_page s) (\<lambda>(page, s).
         and_then (put entry (page OR PAGE_WRITE OR PAGE_PRESENT) s) (\<lambda>s.
         zero_page_via put window (vmm_invalidate window s)))
       else Inr s)"

definition vmm_map_page :: "u64 \<Rightarrow> u64 \<Rightarrow> 'a mm_scheme \<Rightarrow> (int \<times> 'a mm_scheme) outcome" where
  "vmm_map_page physicalAddress va s =
     (let i4 = index4 va; i3 = index3 va; i2 = index2 va; i1 = index1 va
      in and_then (vmm_ensure_table (entry_addr pm4_base i4) (table_page pm3_base i4) s) (\<lambda>s.
         and_then (vmm_ensure_table (entry_addr pm3_base i3) (table_page pm2_base i3) s) (\<lambda>s.
         and_then (vmm_ensure_table (entry_addr pm2_base i2) (table_page pm1_base i2) s) (\<lambda>s.
         and_then (load s (entry_addr pm1_base i1)) (\<lambda>e.
           if present e then Inl (Fatal ''vmm_map_page() - there is already something there!'')
           else and_then (put (entry_addr pm1_base i1) (physicalAddress OR PAGE_WRITE OR PAGE_PRESENT) s) (\<lambda>s.
                Inr (0, vmm_invalidate va s)))))))"

definition pmm_free_page :: "u64 \<Rightarrow> 'a mm_scheme \<Rightarrow> 'a mm_scheme outcome" where
  "pmm_free_page page s =
     and_then (if IS_PAGE_ALIGNED (pmm_stack_top s)
               then and_then (vmm_map_page page (pmm_stack_top s) s)
                      (\<lambda>(r, s). if r \<noteq> 0 then Inl (Fatal ''Failed to map page'') else Inr s)
               else Inr s) (\<lambda>s.
     and_then (put (pmm_stack_top s) page s) (\<lambda>s.
     Inr (s\<lparr>pmm_stack_top := pmm_stack_top s + 8, pmm_free_memory := pmm_free_memory s + PAGE_SIZE\<rparr>)))"

section \<open>Virtual address space\<close>

definition KERNEL_HEAP_BEGIN :: u64 where "KERNEL_HEAP_BEGIN = 0xFFFFFFFFE0000000"
definition KERNEL_HEAP_END :: u64 where "KERNEL_HEAP_END = 0xFFFFFFFFF0000000"

text \<open>
  The loops run over the pages of an interval whose length is a multiple of the page size,
  so the number of turns is that length divided by the page size.
\<close>

primrec vmm_alloc_loop :: "nat \<Rightarrow> 'a mm_scheme \<Rightarrow> 'a mm_scheme outcome" where
  "vmm_alloc_loop 0 s = Inr s"
| "vmm_alloc_loop (Suc n) s =
     and_then (put (entry_addr pm1_base (index1 (next_alloc s))) PAGE_ALLOCATED s) (\<lambda>s.
     let s = vmm_invalidate (next_alloc s) s;
         s = s\<lparr>next_alloc := next_alloc s + PAGE_SIZE\<rparr>
     in vmm_alloc_loop n s)"

definition pages_between :: "u64 \<Rightarrow> u64 \<Rightarrow> nat" where
  "pages_between b e = unat (e - b) div 4096"

definition vmm_alloc :: "u64 \<Rightarrow> 'a mm_scheme \<Rightarrow> (u64 \<times> 'a mm_scheme) outcome" where
  "vmm_alloc nbytes s =
     (if nbytes = 0 then Inr (0, s)
      else let first = next_alloc s; limit = first + PAGE_ALIGN_UP nbytes
           in and_then (vmm_alloc_loop (pages_between first limit) s) (\<lambda>s. Inr (first, s)))"

primrec vmm_map_loop :: "nat \<Rightarrow> u64 \<Rightarrow> u64 \<Rightarrow> 'a mm_scheme \<Rightarrow> 'a mm_scheme outcome" where
  "vmm_map_loop 0 page va s = Inr s"
| "vmm_map_loop (Suc n) page va s =
     and_then (vmm_map_page page va s) (\<lambda>(_, s). vmm_map_loop n (page + PAGE_SIZE) (va + PAGE_SIZE) s)"

definition vmm_map :: "u64 \<Rightarrow> u64 \<Rightarrow> 'a mm_scheme \<Rightarrow> (u64 \<times> 'a mm_scheme) outcome" where
  "vmm_map physicalAddress nbytes s =
     (let first = PAGE_ALIGN_DOWN physicalAddress;
          limit = PAGE_ALIGN_UP (physicalAddress + nbytes)
      in and_then (vmm_alloc (limit - first) s) (\<lambda>(va, s).
         if va + limit - first > KERNEL_HEAP_END then Inl (Fatal ''vmm_map() - out of virtual space'')
         else and_then (vmm_map_loop (pages_between first limit) first va s) (\<lambda>s.
              Inr (va + (physicalAddress - first), s))))"

primrec vmm_unmap_loop :: "nat \<Rightarrow> u64 \<Rightarrow> 'a mm_scheme \<Rightarrow> 'a mm_scheme outcome" where
  "vmm_unmap_loop 0 p s = Inr s"
| "vmm_unmap_loop (Suc n) p s =
     and_then (vmm_unmap_page p s) (\<lambda>s. vmm_unmap_loop n (p + PAGE_SIZE) s)"

definition vmm_unmap :: "u64 \<Rightarrow> u64 \<Rightarrow> 'a mm_scheme \<Rightarrow> (int \<times> 'a mm_scheme) outcome" where
  "vmm_unmap address nbytes s =
     (let first = PAGE_ALIGN_DOWN address; limit = PAGE_ALIGN_UP (address + nbytes)
      in and_then (vmm_unmap_loop (pages_between first limit) first s) (\<lambda>s. Inr (0, s)))"

section \<open>Initialisation\<close>

text \<open>
  The addresses of the boot page tables come from \<^verbatim>\<open>boot_64.asm\<close>. Writing CR3 flushes the
  TLB and leaves the tables where they are.
\<close>

definition vmm_init ::
    "u64 \<Rightarrow> u64 \<Rightarrow> u64 \<Rightarrow> u64 \<Rightarrow> 'a mm_scheme \<Rightarrow> 'a mm_scheme outcome" where
  "vmm_init bootPML4 bootPDPT bootPageDirectory bootPageTables s =
     (let root = cr3 s
      in and_then (put (bootPML4 + 8 * 510) (root OR PAGE_WRITE OR PAGE_PRESENT) s) (\<lambda>s.
         and_then (put bootPDPT 0 s) (\<lambda>s.
         and_then (put bootPML4 0 s) (\<lambda>s.
         let s = s\<lparr>cr3 := root\<rparr>
         in and_then (vmm_unmap_page bootPML4 s) (\<lambda>s.
            and_then (vmm_unmap_page bootPDPT s) (\<lambda>s.
            and_then (vmm_unmap_page bootPageDirectory s) (\<lambda>s.
            and_then (vmm_unmap_page bootPageTables s) (\<lambda>s.
            and_then (vmm_unmap_page (bootPageTables + 8 * 512) s) (\<lambda>s.
            and_then (interrupt_register 14 vmm_page_fault_handler_handler s) (\<lambda>(_, s).
            Inr s))))))))))"

end
