(* ===== verification/Page_Tree.thy ===== *)
theory Page_Tree
  imports Paging "HOL-Library.Sublist"
begin

text \<open>
  The shape the kernel keeps its page tables in: every table is reached by exactly one
  path from the root (besides the paths through the recursive entry), so a write to one
  table entry changes exactly the translations that go through that entry.
\<close>

definition indices :: "u64 list \<Rightarrow> bool" where
  "indices us \<longleftrightarrow> (\<forall>i \<in> set us. i < 512) \<and> (us \<noteq> [] \<longrightarrow> hd us \<noteq> 510)"

definition table_path :: "u64 list \<Rightarrow> bool" where
  "table_path us \<longleftrightarrow> indices us \<and> length us \<le> 3"

definition table_tree :: "ram \<Rightarrow> u64 \<Rightarrow> bool" where
  "table_tree r root \<longleftrightarrow> recursive_root r root \<and>
     (\<forall>us js f. table_path us \<longrightarrow> table_path js \<longrightarrow>
        node r root us = Some f \<longrightarrow> node r root js = Some f \<longrightarrow> us = js)"

definition table_frames :: "ram \<Rightarrow> u64 \<Rightarrow> u64 set" where
  "table_frames r root = {f. \<exists>us. table_path us \<and> node r root us = Some f}"

definition put_entry :: "ram \<Rightarrow> u64 \<Rightarrow> u64 \<Rightarrow> u64 \<Rightarrow> ram" where
  "put_entry r g i v = r(g := (r g)(i := v))"

lemma put_entry_at: "put_entry r g i v f j = (if f = g \<and> j = i then v else r f j)"
  by (simp add: put_entry_def)

lemma indices_take: "indices us \<Longrightarrow> indices (take k us)"
  by (cases us; cases k) (auto simp: indices_def dest: in_set_takeD)

lemma indices_prefix: "indices (us @ js) \<Longrightarrow> indices us"
  using indices_take [of "us @ js" "length us"] by simp

lemma ix_less: "ix4 va < 512" "ix3 va < 512" "ix2 va < 512" "ix1 va < 512" "slot va < 512"
proof -
  have "take_bit 9 x < (512 :: u64)" for x :: u64
  proof -
    have "take_bit 9 (uint x) < 2 ^ 9" by (rule take_bit_int_less_exp)
    then show ?thesis by (simp add: word_less_def unsigned_take_bit_eq)
  qed
  then show "ix4 va < 512" "ix3 va < 512" "ix2 va < 512" "ix1 va < 512" "slot va < 512"
    by (simp_all add: take_bit_ix)
qed

lemma indices_path: "ix4 va \<noteq> 510 \<Longrightarrow> indices (path va)"
  by (simp add: indices_def path_def ix_less)

lemma path_prefix: "prefix (us @ [i]) (path va) \<Longrightarrow> length us = 3 \<Longrightarrow> path va = us @ [i]"
proof -
  assume "prefix (us @ [i]) (path va)" and "length us = 3"
  then obtain zs where zs: "path va = (us @ [i]) @ zs" by (auto simp: prefix_def)
  then have "length (path va) = length ((us @ [i]) @ zs)" by (rule arg_cong)
  then have "zs = []" using \<open>length us = 3\<close> by (simp add: path_def)
  with zs show ?thesis by simp
qed

lemma length_path [simp]: "length (path va) = 4"
  by (simp add: path_def)

lemma table_path_tables:
  "ix4 va \<noteq> 510 \<Longrightarrow> table_path []"
  "ix4 va \<noteq> 510 \<Longrightarrow> table_path [ix4 va]"
  "ix4 va \<noteq> 510 \<Longrightarrow> table_path [ix4 va, ix3 va]"
  "ix4 va \<noteq> 510 \<Longrightarrow> table_path [ix4 va, ix3 va, ix2 va]"
  by (simp_all add: table_path_def indices_def ix_less)

section \<open>Which words a path reads\<close>

lemma tables_at:
  "(g, i) \<in> set (tables r f us) \<Longrightarrow>
   \<exists>k < length us. node r f (take k us) = Some g \<and> i = us ! k"
proof (induction us arbitrary: f)
  case (Cons j js)
  show ?case
  proof (cases "(g, i) = (f, j)")
    case False
    then have p: "present (r f j)" and "(g, i) \<in> set (tables r (frame_of (r f j)) js)"
      using Cons.prems by (auto split: if_splits)
    with Cons.IH obtain k where "k < length js" "node r (frame_of (r f j)) (take k js) = Some g" "i = js ! k"
      by blast
    with p show ?thesis by (intro exI [of _ "Suc k"]) simp
  qed (auto intro!: exI [of _ 0])
qed simp

text \<open>A path of at most four indices only reads tables, and reads \<open>(g, i)\<close> only if it goes through it.\<close>

lemma tables_table_frames:
  assumes "(g, i) \<in> set (tables r root js)" and "indices js" and "length js \<le> 4"
  shows "g \<in> table_frames r root"
proof -
  obtain k where "k < length js" "node r root (take k js) = Some g"
    using tables_at [OF assms(1)] by blast
  moreover from this assms have "table_path (take k js)"
    by (auto simp: table_path_def intro: indices_take)
  ultimately show ?thesis by (auto simp: table_frames_def)
qed

lemma tables_prefix:
  assumes "table_tree r root" and "table_path us" and "node r root us = Some g"
    and "(g, i) \<in> set (tables r root js)" and "indices js" and "length js \<le> 4"
  shows "prefix (us @ [i]) js"
proof -
  obtain k where k: "k < length js" "node r root (take k js) = Some g" "i = js ! k"
    using tables_at [OF assms(4)] by blast
  then have "table_path (take k js)"
    using assms(5,6) by (auto simp: table_path_def intro: indices_take)
  then have "us = take k js" using assms(1,2,3) k(2) unfolding table_tree_def by blast
  then have "us @ [i] = take (Suc k) js" using k by (simp add: take_Suc_conv_app_nth)
  then show ?thesis by (simp add: take_is_prefix)
qed

lemma node_put_entry:
  assumes "table_tree r root" and "table_path us" and "node r root us = Some g"
    and "indices js" and "length js \<le> 4" and "\<not> prefix (us @ [i]) js"
  shows "node (put_entry r g i v) root js = node r root js"
  using tables_prefix [OF assms(1,2,3) _ assms(4,5)] assms(6)
  by (intro node_cong) (auto simp: put_entry_at)

lemma node_put_data:
  assumes "p \<notin> table_frames r root" and "indices js" and "length js \<le> 4"
  shows "node (r(p := w)) root js = node r root js"
  using tables_table_frames [OF _ assms(2,3)] assms(1) by (intro node_cong) auto

lemma recursive_root_put_data:
  assumes "p \<notin> table_frames r root" and "recursive_root r root"
  shows "recursive_root (r(p := w)) root"
proof -
  have "root \<in> table_frames r root"
    unfolding table_frames_def by (auto intro!: exI [of _ "[]"] simp: table_path_def indices_def)
  then have "root \<noteq> p" using assms(1) by blast
  then show ?thesis using assms(2) by (simp add: recursive_root_def)
qed

lemma table_frames_cong:
  assumes "\<And>js. table_path js \<Longrightarrow> node r' root js = node r root js"
  shows "table_frames r' root = table_frames r root"
  using assms by (auto simp: table_frames_def)

lemma table_tree_cong:
  assumes "\<And>js. table_path js \<Longrightarrow> node r' root js = node r root js"
    and "recursive_root r' root" and "table_tree r root"
  shows "table_tree r' root"
  using assms unfolding table_tree_def by metis

section \<open>The three kinds of writes\<close>

text \<open>A write to a frame that is not a table.\<close>

lemma put_data:
  assumes "table_tree r root" and "p \<notin> table_frames r root"
  shows "table_tree (r(p := w)) root" and "table_frames (r(p := w)) root = table_frames r root"
    and "ix4 va \<noteq> 510 \<Longrightarrow> walk (r(p := w)) root va = walk r root va"
proof -
  have n: "table_path js \<Longrightarrow> node (r(p := w)) root js = node r root js" for js
    using assms(2) by (intro node_put_data) (auto simp: table_path_def)
  have "recursive_root (r(p := w)) root"
    using assms by (auto simp: table_tree_def intro: recursive_root_put_data)
  then show "table_tree (r(p := w)) root" using n assms(1) by (blast intro: table_tree_cong)
  show "table_frames (r(p := w)) root = table_frames r root" using n by (rule table_frames_cong)
  show "ix4 va \<noteq> 510 \<Longrightarrow> walk (r(p := w)) root va = walk r root va"
    unfolding walk_def using assms(2) indices_path by (intro node_put_data) (simp_all add: path_def)
qed

lemma recursive_root_put_entry:
  assumes "table_tree r root" and "table_path us" and "node r root us = Some g" and "us = [] \<longrightarrow> i \<noteq> 510"
  shows "recursive_root (put_entry r g i v) root"
proof -
  have "root = g \<Longrightarrow> us = []"
    using assms(1-3) unfolding table_tree_def
    by (metis node.simps(1) table_path_def indices_def list.set(1) empty_iff list.size(3) zero_le)
  then show ?thesis using assms(1,4) by (auto simp: table_tree_def recursive_root_def put_entry_at)
qed

text \<open>A write to an entry of a last-level table.\<close>

lemma put_leaf:
  assumes "table_tree r root" and "table_path us" and "length us = 3" and "node r root us = Some g"
  shows "table_tree (put_entry r g i v) root"
    and "table_frames (put_entry r g i v) root = table_frames r root"
    and "table_path js \<Longrightarrow> node (put_entry r g i v) root js = node r root js"
    and "ix4 va \<noteq> 510 \<Longrightarrow> path va \<noteq> us @ [i] \<Longrightarrow> walk (put_entry r g i v) root va = walk r root va"
    and "path va = us @ [i] \<Longrightarrow>
         walk (put_entry r g i v) root va = (if present v then Some (frame_of v) else None)"
proof -
  have n: "table_path js \<Longrightarrow> node (put_entry r g i v) root js = node r root js" for js
    using assms by (intro node_put_entry [where us = us])
      (auto simp: table_path_def prefix_def)
  have "recursive_root (put_entry r g i v) root"
    using assms by (intro recursive_root_put_entry) auto
  then show "table_tree (put_entry r g i v) root" using n assms(1) by (blast intro: table_tree_cong)
  show "table_frames (put_entry r g i v) root = table_frames r root" using n by (rule table_frames_cong)
  show "table_path js \<Longrightarrow> node (put_entry r g i v) root js = node r root js" by (rule n)
  show "walk (put_entry r g i v) root va = walk r root va" if "ix4 va \<noteq> 510" "path va \<noteq> us @ [i]"
  proof -
    have "\<not> prefix (us @ [i]) (path va)"
      using that(2) assms(3) path_prefix by blast
    then show ?thesis unfolding walk_def
      using assms that(1) by (intro node_put_entry [where us = us]) (auto simp: indices_path)
  qed
  show "walk (put_entry r g i v) root va = (if present v then Some (frame_of v) else None)"
    if "path va = us @ [i]"
    using n [OF assms(2)] assms(4) by (simp add: walk_def that node_append put_entry_at)
qed

text \<open>The installation of an empty table \<open>p\<close> below the entry \<open>i\<close> of table \<open>g\<close>.\<close>

definition install :: "ram \<Rightarrow> u64 \<Rightarrow> u64 \<Rightarrow> u64 \<Rightarrow> u64 \<Rightarrow> ram" where
  "install r g i e p = (put_entry r g i e)(p := (\<lambda>_. 0))"

lemma install_swap: "p \<noteq> g \<Longrightarrow> install r g i e p = put_entry (r(p := (\<lambda>_. 0))) g i e"
  by (auto simp: install_def put_entry_def fun_eq_iff)

lemma node_zeros: "js \<noteq> [] \<Longrightarrow> r f = (\<lambda>_. 0) \<Longrightarrow> node r f js = None"
  by (cases js) auto

lemma install_node:
  assumes "table_tree r root" and "table_path us" and "node r root us = Some g"
    and "p \<notin> table_frames r root" and "present e" and "frame_of e = p" and "table_path (us @ [i])"
  shows "\<not> prefix (us @ [i]) js \<Longrightarrow> indices js \<Longrightarrow> length js \<le> 4 \<Longrightarrow>
           node (install r g i e p) root js = node r root js"
    and "node (install r g i e p) root (us @ [i]) = Some p"
    and "js \<noteq> [] \<Longrightarrow> node (install r g i e p) root (us @ i # js) = None"
    and "table_tree (install r g i e p) root"
    and "table_frames (install r g i e p) root \<subseteq> insert p (table_frames r root)"
proof -
  let ?r = "install r g i e p"
  let ?cleared = "r(p := (\<lambda>_. 0))"
  note us = assms(2) [unfolded table_path_def]
  have g: "g \<noteq> p" using assms(2,3,4) by (auto simp: table_frames_def)
  note swap = install_swap [OF g [symmetric]]
  have t0: "table_tree ?cleared root" by (rule put_data [OF assms(1,4)])
  have n0: "node ?cleared root js = node r root js" if "indices js" "length js \<le> 4" for js
    using assms(4) that by (rule node_put_data)
  have g0: "node ?cleared root us = Some g" using n0 us assms(3) by simp
  have same: "node ?r root ks = node r root ks"
    if "\<not> prefix (us @ [i]) ks" "indices ks" "length ks \<le> 4" for ks
    using node_put_entry [OF t0 assms(2) g0 that(2,3,1)] n0 [OF that(2,3)] by (simp add: swap)
  show "\<not> prefix (us @ [i]) js \<Longrightarrow> indices js \<Longrightarrow> length js \<le> 4 \<Longrightarrow>
      node ?r root js = node r root js" by (rule same)
  have "node ?r root us = Some g"
    using same [of us] us assms(3) by (simp add: prefix_def)
  then have at: "node ?r root (us @ [i] @ js) = node ?r p js" for js
    unfolding node_append using assms(5,6) g by (simp add: install_def put_entry_at)
  show top: "node ?r root (us @ [i]) = Some p" using at [of "[]"] by simp
  have below: "node ?r root (us @ i # ks) = None" if "ks \<noteq> []" for ks
    using at [of ks] that node_zeros [of ks ?r p] by (simp add: install_def)
  show "js \<noteq> [] \<Longrightarrow> node ?r root (us @ i # js) = None" by (rule below)
  have cases: "(js = us @ [i] \<and> f = p) \<or> (node r root js = Some f \<and> \<not> prefix (us @ [i]) js)"
    if "table_path js" "node ?r root js = Some f" for js f
  proof (cases "prefix (us @ [i]) js")
    case True
    then obtain ks where js: "js = us @ [i] @ ks" by (auto simp: prefix_def)
    with that(2) below [of ks] have "ks = []" by auto
    then show ?thesis using js that(2) at [of ks] by simp
  next
    case False
    then show ?thesis using same [of js] that by (simp add: table_path_def)
  qed
  show frames: "table_frames ?r root \<subseteq> insert p (table_frames r root)"
    using cases by (fastforce simp: table_frames_def)
  have rr: "recursive_root ?r root"
  proof -
    have "us = [] \<longrightarrow> i \<noteq> 510" using assms(7) by (auto simp: table_path_def indices_def)
    then show ?thesis unfolding swap using t0 assms(2) g0 by (intro recursive_root_put_entry)
  qed
  show "table_tree ?r root"
    unfolding table_tree_def
  proof (intro conjI allI impI rr)
    fix js1 js2 f
    assume a: "table_path js1" "table_path js2" "node ?r root js1 = Some f" "node ?r root js2 = Some f"
    have old: "node r root xs = Some f \<Longrightarrow> table_path xs \<Longrightarrow> f \<noteq> p" for xs
      using assms(4) by (auto simp: table_frames_def)
    show "js1 = js2"
      using cases [OF a(1,3)] cases [OF a(2,4)] old a assms(1)
      by (metis table_tree_def)
  qed
qed

end
