(* ===== verification/Mm_Invariant.thy ===== *)
theory Mm_Invariant
  imports Vmm Page_Tree
begin

text \<open>
  What the memory managers maintain: the page tables form a tree, the stack of freed pages
  is backed by the free pages themselves, and no free page is a page table or mapped
  anywhere else. The abstract state is the list \<open>ps\<close> of pages on the stack together with
  the set of pages in the free regions.
\<close>

section \<open>Accesses through the windows\<close>

lemma recursive_tree [simp]: "table_tree r root \<Longrightarrow> recursive_root r root"
  by (simp add: table_tree_def)

lemma walk_pm:
  assumes "recursive_root r root"
  shows "walk r root (entry_addr pm1_base (index1 va)) = node r root [ix4 va, ix3 va, ix2 va]"
    and "walk r root (entry_addr pm2_base (index2 va)) = node r root [ix4 va, ix3 va]"
    and "walk r root (entry_addr pm3_base (index3 va)) = node r root [ix4 va]"
    and "walk r root (entry_addr pm4_base (index4 va)) = Some root"
    and "walk r root (table_page pm1_base (index2 va)) = node r root [ix4 va, ix3 va, ix2 va]"
    and "walk r root (table_page pm2_base (index3 va)) = node r root [ix4 va, ix3 va]"
    and "walk r root (table_page pm3_base (index4 va)) = node r root [ix4 va]"
  using assms
  by (simp_all add: walk_def path_pm1 path_pm2 path_pm3 path_pm4 path_table_page del: node.simps)
     (simp add: recursive_root_def)

lemma slot_table_page:
  "slot (table_page pm1_base (index2 va)) = 0"
  "slot (table_page pm2_base (index3 va)) = 0"
  "slot (table_page pm3_base (index4 va)) = 0"
  unfolding table_page_or by (rule bit_word_eqI; auto simp: window_bits)+

lemma put_mapped: "walk (ram s) (cr3 s) va = Some f \<Longrightarrow> put va v s = Inr (write_word f (slot va) v s)"
  by (simp add: put_def numeral_2_eq_2 store.simps)

lemma load_mapped: "walk (ram s) (cr3 s) va = Some f \<Longrightarrow> load s va = Inr (ram s f (slot va))"
  by (simp add: load_def)

lemma write_word_fields [simp]:
  "ram (write_word f i v s) = put_entry (ram s) f i v" "cr3 (write_word f i v s) = cr3 s"
  by (simp_all add: write_word_def put_entry_def)

lemma zero_frame_fields [simp]:
  "ram (zero_frame f s) = (ram s)(f := (\<lambda>_. 0))" "cr3 (zero_frame f s) = cr3 s"
  by (simp_all add: zero_frame_def)

lemma invalidate_fields [simp]:
  "ram (vmm_invalidate va s) = ram s" "cr3 (vmm_invalidate va s) = cr3 s"
  by (simp_all add: vmm_invalidate_def)

section \<open>What an operation may change\<close>

text \<open>The fields of the memory managers; everything else of the machine is left alone.\<close>

definition only_mm :: "'a mm_scheme \<Rightarrow> 'a mm_scheme \<Rightarrow> bool" where
  "only_mm s s' \<longleftrightarrow> s' = s\<lparr>ram := ram s', invlpg_log := invlpg_log s', pmm_free_memory := pmm_free_memory s',
     pmm_stack_top := pmm_stack_top s', s_free_memory := s_free_memory s',
     s_free_memory_current := s_free_memory_current s'\<rparr>"

lemma only_mm_refl [simp]: "only_mm s s"
  by (simp add: only_mm_def)

lemma only_mm_trans: "only_mm s t \<Longrightarrow> only_mm t u \<Longrightarrow> only_mm s u"
  unfolding only_mm_def by (cases s, cases t, cases u) simp

lemma only_mm_fields:
  assumes "only_mm s s'"
  shows "cr3 s' = cr3 s" "next_alloc s' = next_alloc s" "s_free_memory_count s' = s_free_memory_count s"
    "interrupt_handlers s' = interrupt_handlers s" "if_flag s' = if_flag s" "mm.more s' = mm.more s"
  by (rule trans [OF arg_cong [OF assms [unfolded only_mm_def]]], simp)+

lemma only_mm_steps [simp]:
  "only_mm s (write_word f i v s)" "only_mm s (zero_frame f s)" "only_mm s (vmm_invalidate va s)"
  by (simp_all add: only_mm_def write_word_def zero_frame_def vmm_invalidate_def)

section \<open>The stack of freed pages\<close>

definition stack_addr :: "nat \<Rightarrow> u64" where
  "stack_addr k = PMM_STACK_VMA + 8 * of_nat k"

lemma bit_stack_base [mask_bits]: "bit (0xFFFFF00000000000 :: int) n \<longleftrightarrow> 44 \<le> n \<and> n < 64"
proof -
  have "(0xFFFFF00000000000 :: int) = push_bit 44 (mask 20)" by (simp add: mask_eq_exp_minus_1 push_bit_eq_mult)
  then show ?thesis by (simp only: bit_push_bit_iff bit_mask_iff) auto
qed

lemma bit_less: "bit k n \<Longrightarrow> k < 2 ^ m \<Longrightarrow> n < m" for k :: nat
proof (rule ccontr)
  assume "bit k n" and "k < 2 ^ m" and "\<not> n < m"
  then have "k < 2 ^ n" by (meson less_le_trans linorder_not_less one_le_numeral power_increasing)
  then show False using \<open>bit k n\<close> by (simp add: bit_iff_odd)
qed

lemma bit_less_36: "bit k n \<Longrightarrow> k < 68719476736 \<Longrightarrow> n < 36" for k :: nat
  by (rule bit_less [where k = k]) simp_all

lemma stack_addr_or: "k < 2 ^ 36 \<Longrightarrow> stack_addr k = PMM_STACK_VMA OR push_bit 3 (of_nat k)"
  unfolding stack_addr_def times_8
  by (rule disjoint_add) (auto simp: PMM_STACK_VMA_def mask_bits bit_push_bit_iff bit_simps dest: bit_less_36)

lemma bit_stack_addr:
  "k < 2 ^ 36 \<Longrightarrow> bit (stack_addr k) n \<longleftrightarrow> 44 \<le> n \<and> n < 64 \<or> 3 \<le> n \<and> n < 39 \<and> bit k (n - 3)"
  by (auto simp: stack_addr_or PMM_STACK_VMA_def mask_bits bit_push_bit_iff bit_simps dest: bit_less_36)

lemma ix4_stack: "k < 2 ^ 36 \<Longrightarrow> ix4 (stack_addr k) = 480"
proof (rule bit_word_eqI)
  fix n assume "k < 2 ^ 36" "n < LENGTH(64)"
  have "bit (480 :: int) n \<longleftrightarrow> 5 \<le> n \<and> n < 9"
  proof -
    have "(480 :: int) = push_bit 5 (mask 4)" by (simp add: mask_eq_exp_minus_1 push_bit_eq_mult)
    then show ?thesis by (simp only: bit_push_bit_iff bit_mask_iff) auto
  qed
  then show "bit (ix4 (stack_addr k)) n \<longleftrightarrow> bit (480 :: u64) n"
    using \<open>k < 2 ^ 36\<close> by (auto simp: bit_ix bit_stack_addr)
qed

lemma slot_stack: "k < 2 ^ 36 \<Longrightarrow> slot (stack_addr k) = of_nat (k mod 512)"
proof (rule bit_word_eqI)
  fix n assume "k < 2 ^ 36" "n < LENGTH(64)"
  have "k mod 512 = take_bit 9 k" by (simp add: take_bit_eq_mod)
  then show "bit (slot (stack_addr k)) n \<longleftrightarrow> bit (of_nat (k mod 512) :: u64) n"
    using \<open>k < 2 ^ 36\<close> by (auto simp: bit_ix bit_stack_addr bit_simps)
qed

lemma path_eq_iff: "path a = path b \<longleftrightarrow> (\<forall>n. 12 \<le> n \<and> n < 48 \<longrightarrow> bit a n = bit b n)"
proof
  assume p: "path a = path b"
  show "\<forall>n. 12 \<le> n \<and> n < 48 \<longrightarrow> bit a n = bit b n"
  proof (intro allI impI)
    fix n :: nat assume n: "12 \<le> n \<and> n < 48"

    have e: "bit (ix4 a) (n - 39) = bit (ix4 b) (n - 39)" "bit (ix3 a) (n - 30) = bit (ix3 b) (n - 30)"
      "bit (ix2 a) (n - 21) = bit (ix2 b) (n - 21)" "bit (ix1 a) (n - 12) = bit (ix1 b) (n - 12)"
      using p by (simp_all add: path_def)
    consider "12 \<le> n \<and> n < 21" | "21 \<le> n \<and> n < 30" | "30 \<le> n \<and> n < 39" | "39 \<le> n \<and> n < 48"
      using n by linarith
    then show "bit a n = bit b n" using e unfolding bit_ix by cases (simp_all add: less_diff_conv2)
  qed
next
  assume "\<forall>n. 12 \<le> n \<and> n < 48 \<longrightarrow> bit a n = bit b n"
  then show "path a = path b"
    unfolding path_def list.inject by (intro conjI refl bit_word_eqI; auto simp: bit_ix)
qed

lemma path_stack_eq: 
  assumes "j < 2 ^ 36" "k < 2 ^ 36"
  shows "path (stack_addr j) = path (stack_addr k) \<longleftrightarrow> j div 512 = k div 512"
proof -
  have "j div 512 = k div 512 \<longleftrightarrow> drop_bit 9 j = drop_bit 9 k" by (simp add: drop_bit_eq_div)
  also have "\<dots> \<longleftrightarrow> (\<forall>n. bit j (9 + n) = bit k (9 + n))" by (simp add: bit_eq_iff [of "drop_bit 9 j"] bit_simps)
  also have "\<dots> \<longleftrightarrow> (\<forall>n. 12 \<le> n \<and> n < 48 \<longrightarrow> bit (stack_addr j) n = bit (stack_addr k) n)"
    (is "?A \<longleftrightarrow> ?B")
  proof
    assume ?A
    have "bit j (n - 3) = bit k (n - 3)" if "12 \<le> n" for n
    proof -
      have "n - 3 = 9 + (n - 12)" using that by simp
      then show ?thesis using \<open>?A\<close> by (simp del: add_diff_assoc)
    qed
    then show ?B using assms by (auto simp: bit_stack_addr)
  next
    assume b: ?B
    show ?A
    proof
      fix n
      show "bit j (9 + n) = bit k (9 + n)"
      proof (cases "n < 27")
        case True
        then show ?thesis using b [rule_format, of "12 + n"] assms by (auto simp: bit_stack_addr)
      next
        case False
        then show ?thesis using assms bit_less [of j "9 + n" 36] bit_less [of k "9 + n" 36] by auto
      qed
    qed
  qed
  finally show ?thesis by (simp add: path_eq_iff)
qed

lemma stack_addr_Suc: "stack_addr (Suc k) = stack_addr k + 8"
  by (simp add: stack_addr_def algebra_simps)

lemma stack_addr_0: "stack_addr 0 = PMM_STACK_VMA"
  by (simp add: stack_addr_def)

lemma stack_addr_inj: "j < 2 ^ 36 \<Longrightarrow> k < 2 ^ 36 \<Longrightarrow> stack_addr j = stack_addr k \<longleftrightarrow> j = k"
proof
  assume a: "j < 2 ^ 36" "k < 2 ^ 36" "stack_addr j = stack_addr k"
  have "bit j n = bit k n" for n
  proof (cases "n < 36")
    case True
    have "bit (stack_addr j) (n + 3) = bit (stack_addr k) (n + 3)" using a(3) by simp
    then show ?thesis using a(1,2) True by (auto simp: bit_stack_addr)
  next
    case False
    then show ?thesis using a bit_less [of j n 36] bit_less [of k n 36] by auto
  qed
  then show "j = k" by (simp add: bit_eq_iff)
qed simp

lemma stack_addr_aligned: "k < 2 ^ 36 \<Longrightarrow> IS_PAGE_ALIGNED (stack_addr k) \<longleftrightarrow> k mod 512 = 0"
proof -
  assume k: "k < 2 ^ 36"
  have "stack_addr k AND (PAGE_SIZE - 1) = push_bit 3 (of_nat (k mod 512))"
  proof (rule bit_word_eqI)
    fix n assume "n < LENGTH(64)"
    have "k mod 512 = take_bit 9 k" by (simp add: take_bit_eq_mod)
    then show "bit (stack_addr k AND (PAGE_SIZE - 1)) n \<longleftrightarrow> bit (push_bit 3 (of_nat (k mod 512) :: u64)) n"
      using k by (auto simp: bit_stack_addr PAGE_SIZE_def mask_bits bit_simps)
  qed
  moreover have "push_bit 3 (of_nat (k mod 512) :: u64) = 0 \<longleftrightarrow> k mod 512 = 0"
  proof
    assume "push_bit 3 (of_nat (k mod 512) :: u64) = 0"
    then have "8 * of_nat (k mod 512) = (0 :: u64)" by (simp add: push_bit_eq_mult mult.commute)
    then have "of_nat (8 * (k mod 512)) = (0 :: u64)" by simp
    then have d: "2 ^ 64 dvd 8 * (k mod 512)" by (simp only: word_of_nat_eq_0_iff) simp
    have "k mod 512 < 512" by simp
    then have "8 * (k mod 512) < 2 ^ 64" by simp
    then have "8 * (k mod 512) = 0" using d by (metis dvd_imp_le gr0I not_less)
    then show "k mod 512 = 0" by simp
  qed simp
  ultimately show ?thesis by (simp add: IS_PAGE_ALIGNED_def)
qed

section \<open>The invariant\<close>

text \<open>
  \<open>free_stack s ps\<close>: the pages \<open>ps\<close> lie on the stack, the oldest first. Page \<open>k\<close> is at
  \<open>stack_addr k\<close>, and the virtual page that holds the entries \<open>512 * m\<close> to \<open>512 * m + 511\<close>
  is backed by entry \<open>512 * m\<close> itself. Above the stack nothing is mapped.
\<close>

definition free_stack :: "'a mm_scheme \<Rightarrow> u64 list \<Rightarrow> bool" where
  "free_stack s ps \<longleftrightarrow>
     pmm_stack_top s = stack_addr (length ps) \<and> length ps < 2 ^ 36 \<and>
     (\<forall>k < length ps. walk (ram s) (cr3 s) (stack_addr k) = Some (ps ! (k div 512 * 512)) \<and>
                      ram s (ps ! (k div 512 * 512)) (of_nat (k mod 512)) = ps ! k) \<and>
     (\<forall>k < 2 ^ 36. length ps \<le> k div 512 * 512 \<longrightarrow> walk (ram s) (cr3 s) (stack_addr k) = None)"

definition regions_ok :: "'a mm_scheme \<Rightarrow> bool" where
  "regions_ok s \<longleftrightarrow> s_free_memory_current s \<le> s_free_memory_count s \<and>
     (\<forall>i < s_free_memory_count s.
        uint (fm_start (s_free_memory s i)) mod 4096 = 0 \<and> uint (fm_end (s_free_memory s i)) mod 4096 = 0 \<and>
        fm_start (s_free_memory s i) \<le> fm_end (s_free_memory s i) \<and> uint (fm_end (s_free_memory s i)) \<le> 2 ^ 52) \<and>
     (\<forall>i < s_free_memory_count s. \<forall>j < s_free_memory_count s. i \<noteq> j \<longrightarrow>
        fm_end (s_free_memory s i) \<le> fm_start (s_free_memory s j) \<or>
        fm_end (s_free_memory s j) \<le> fm_start (s_free_memory s i))"

definition region_pages :: "'a mm_scheme \<Rightarrow> u64 set" where
  "region_pages s = {p. uint p mod 4096 = 0 \<and>
     (\<exists>i. s_free_memory_current s \<le> i \<and> i < s_free_memory_count s \<and>
          fm_start (s_free_memory s i) \<le> p \<and> p < fm_end (s_free_memory s i))}"

definition free_pages :: "'a mm_scheme \<Rightarrow> u64 list \<Rightarrow> u64 set" where
  "free_pages s ps = set ps \<union> region_pages s"

text \<open>
  Frames the kernel uses: page tables, and what is mapped outside the stack and the windows. The boot loader maps the
  first 4 MB whole at \<open>KERNEL_VIRTUAL_BASE\<close>, free pages behind the kernel among them; a page is not in use because of that.
\<close>

definition outside :: "u64 \<Rightarrow> bool" where
  "outside va \<longleftrightarrow> ix4 va \<noteq> 510 \<and> ix4 va \<noteq> 480"

definition boot_window :: "u64 \<Rightarrow> bool" where
  "boot_window va \<longleftrightarrow> ix4 va = 511 \<and> ix3 va = 511 \<and> ix2 va < 2"

definition in_use :: "'a mm_scheme \<Rightarrow> u64 set" where
  "in_use s = table_frames (ram s) (cr3 s) \<union>
     {f. \<exists>va. outside va \<and> \<not> boot_window va \<and> walk (ram s) (cr3 s) va = Some f}"

definition frames_ok :: "'a mm_scheme \<Rightarrow> u64 list \<Rightarrow> bool" where
  "frames_ok s ps \<longleftrightarrow> regions_ok s \<and> distinct ps \<and> (\<forall>p \<in> set ps. is_frame p) \<and>
     set ps \<inter> region_pages s = {} \<and> free_pages s ps \<inter> in_use s = {}"

definition mm_ok :: "'a mm_scheme \<Rightarrow> u64 list \<Rightarrow> bool" where
  "mm_ok s ps \<longleftrightarrow> table_tree (ram s) (cr3 s) \<and> free_stack s ps \<and> frames_ok s ps"

lemma frames_ok_mono:
  assumes "frames_ok s ps" and "regions_ok s'" and "set ps' \<subseteq> set ps" and "distinct ps'"
    and "region_pages s' \<subseteq> region_pages s" and "in_use s' \<subseteq> in_use s \<union> X" and "X \<inter> free_pages s' ps' = {}"
  shows "frames_ok s' ps'"
  using assms unfolding frames_ok_def free_pages_def by blast

lemma free_not_table: "mm_ok s ps \<Longrightarrow> p \<in> free_pages s ps \<Longrightarrow> p \<notin> table_frames (ram s) (cr3 s)"
  by (auto simp: mm_ok_def frames_ok_def in_use_def)

lemma mm_ok_tree: "mm_ok s ps \<Longrightarrow> table_tree (ram s) (cr3 s)"
  by (simp add: mm_ok_def)

section \<open>The free regions\<close>

lemma find_region_result:
  "cur \<le> count \<Longrightarrow> \<exists>c. find_region fm count cur = Some c \<and> cur \<le> c \<and> c \<le> count \<and>
     (\<forall>i. cur \<le> i \<longrightarrow> i < c \<longrightarrow> fm_start (fm i) = fm_end (fm i)) \<and>
     (c < count \<longrightarrow> fm_start (fm c) \<noteq> fm_end (fm c))"
proof (induction "count - cur" arbitrary: cur)
  case 0
  then show ?case by (subst find_region.simps) (auto intro!: exI [of _ cur])
next
  case (Suc n)
  show ?case
  proof (cases "fm_start (fm cur) \<noteq> fm_end (fm cur)")
    case True
    then show ?thesis using Suc.prems by (subst find_region.simps) (auto intro!: exI [of _ cur])
  next
    case False
    then have step: "find_region fm count cur = find_region fm count (cur + 1)"
      using Suc.hyps(2) by (subst find_region.simps) auto
    obtain c where c: "find_region fm count (cur + 1) = Some c" "cur + 1 \<le> c" "c \<le> count"
      "\<forall>i. cur + 1 \<le> i \<longrightarrow> i < c \<longrightarrow> fm_start (fm i) = fm_end (fm i)"
      "c < count \<longrightarrow> fm_start (fm c) \<noteq> fm_end (fm c)"
    proof -
      have "n = count - (cur + 1)" "cur + 1 \<le> count" using Suc.hyps(2) by linarith+
      from Suc.hyps(1) [OF this] that show thesis by blast
    qed
    have "\<forall>i. cur \<le> i \<longrightarrow> i < c \<longrightarrow> fm_start (fm i) = fm_end (fm i)"
      using c(4) False by (metis Suc_eq_plus1 Suc_leI le_neq_implies_less)
    with step c show ?thesis by auto
  qed
qed

lemma frame_bits: "is_frame p \<longleftrightarrow> (\<forall>n. bit p n \<longrightarrow> 12 \<le> n \<and> n < 52)"
proof
  assume "is_frame p"
  then have "bit p n \<Longrightarrow> bit (frame_of p) n" for n by (simp add: is_frame_def)
  then have "bit p n \<Longrightarrow> 12 \<le> n \<and> n < 52" for n by (simp add: frame_of_def mask_bits bit_simps)
  then show "\<forall>n. bit p n \<longrightarrow> 12 \<le> n \<and> n < 52" by blast
next
  assume "\<forall>n. bit p n \<longrightarrow> 12 \<le> n \<and> n < 52"
  then show "is_frame p"
    unfolding is_frame_def by (intro bit_word_eqI) (auto simp: frame_of_def mask_bits bit_simps)
qed

lemma is_frameI: "uint p mod 4096 = 0 \<Longrightarrow> uint p < 2 ^ 52 \<Longrightarrow> is_frame p"
proof -
  assume a: "uint p mod 4096 = 0" "uint p < 2 ^ 52"
  have "12 \<le> n \<and> n < 52" if "bit p n" for n
  proof (rule conjI)
    have b: "bit (uint p) n" using that bit_imp_le_length [OF that] by (simp add: bit_uint_iff)
    have "take_bit 12 (uint p) = 0" using a(1) by (simp add: take_bit_eq_mod)
    then show "12 \<le> n" using b by (metis bit_take_bit_iff bit_0_eq bot_apply bot_bool_def not_le)
    have "take_bit 52 (uint p) = uint p" using a(2) by (simp add: take_bit_int_eq_self)
    then show "n < 52" using b by (metis bit_take_bit_iff)
  qed
  then show ?thesis by (simp add: frame_bits)
qed

lemma region_page_frame: "regions_ok s \<Longrightarrow> p \<in> region_pages s \<Longrightarrow> is_frame p"
proof (rule is_frameI)
  assume r: "regions_ok s" and p: "p \<in> region_pages s"
  then show "uint p mod 4096 = 0" by (simp add: region_pages_def)
  obtain i where "i < s_free_memory_count s" "p < fm_end (s_free_memory s i)"
    using p by (auto simp: region_pages_def)
  with r show "uint p < 2 ^ 52" unfolding regions_ok_def word_less_def by (meson less_le_trans)
qed

text \<open>Taking the first page of a region that is not empty.\<close>

lemma multiples_less: "x < y \<Longrightarrow> x mod 4096 = 0 \<Longrightarrow> y mod 4096 = 0 \<Longrightarrow> x + 4096 \<le> y" for x y :: int
  by (auto simp: mod_0_imp_dvd elim!: dvdE dest!: mod_0_imp_dvd)

lemma next_page:
  fixes b e q :: u64
  assumes "uint b mod 4096 = 0" "uint e mod 4096 = 0" "b < e" "uint e \<le> 2 ^ 52" "uint q mod 4096 = 0"
  shows "uint (b + PAGE_SIZE) = uint b + 4096" and "b + PAGE_SIZE \<le> e"
    and "b + PAGE_SIZE \<le> q \<longleftrightarrow> b \<le> q \<and> q \<noteq> b"
proof -
  have be: "uint b + 4096 \<le> uint e" using assms(1-3) multiples_less by (simp add: word_less_def)
  then show u: "uint (b + PAGE_SIZE) = uint b + 4096"
    using assms(4) uint_add_lem [of b "PAGE_SIZE"] by (simp add: PAGE_SIZE_def)
  show "b + PAGE_SIZE \<le> e" using be u by (simp add: word_le_def)
  have "b \<le> q \<and> q \<noteq> b \<longleftrightarrow> uint b < uint q" by (auto simp: word_le_def less_le word_uint_eq_iff)
  also have "\<dots> \<longleftrightarrow> uint b + 4096 \<le> uint q" using multiples_less [OF _ assms(1,5)] by auto
  finally show "b + PAGE_SIZE \<le> q \<longleftrightarrow> b \<le> q \<and> q \<noteq> b" using u by (simp add: word_le_def)
qed

section \<open>Last-level entries\<close>

text \<open>
  The indices above the last level, and the entry of the last level for an address: \<open>None\<close>
  when a table on its path is missing.
\<close>

definition upper :: "u64 \<Rightarrow> u64 list" where
  "upper va = [ix4 va, ix3 va, ix2 va]"

lemma path_upper: "path va = upper va @ [ix1 va]"
  by (simp add: path_def upper_def)

lemma length_upper [simp]: "length (upper va) = 3"
  by (simp add: upper_def)

lemma table_path_upper: "ix4 va \<noteq> 510 \<Longrightarrow> table_path (upper va)"
  by (simp add: upper_def table_path_tables)

lemma walk_upper: "walk r root va = Option.bind (node r root (upper va)) (\<lambda>g. if present (r g (ix1 va)) then Some (frame_of (r g (ix1 va))) else None)"
  by (auto simp: walk_def path_upper node_append cong: if_cong)

lemma walk_window: "recursive_root r root \<Longrightarrow> walk r root (entry_addr pm1_base (index1 va)) = node r root (upper va)"
  by (simp add: walk_pm upper_def del: node.simps)

definition page_entry :: "'a mm_scheme \<Rightarrow> u64 \<Rightarrow> u64 option" where
  "page_entry s va = map_option (\<lambda>g. ram s g (ix1 va)) (node (ram s) (cr3 s) (upper va))"

lemma walk_page_entry:
  "walk (ram s) (cr3 s) va =
   Option.bind (page_entry s va) (\<lambda>e. if present e then Some (frame_of e) else None)"
  by (cases "node (ram s) (cr3 s) (upper va)") (simp_all add: page_entry_def walk_upper)

section \<open>Allocating a page\<close>

text \<open>
  The contract of \<open>pmm_alloc_page\<close>: it hands out a free page, removes it from the free
  pages, and changes neither a page table the kernel uses nor a translation outside the
  stack nor the contents of any frame that is not a table.
\<close>

definition same_space :: "'a mm_scheme \<Rightarrow> 'a mm_scheme \<Rightarrow> bool" where
  "same_space s s' \<longleftrightarrow>
     (\<forall>js. table_path js \<longrightarrow> node (ram s') (cr3 s') js = node (ram s) (cr3 s) js) \<and>
     (\<forall>va. outside va \<longrightarrow> page_entry s' va = page_entry s va) \<and>
     (\<forall>f. f \<notin> table_frames (ram s) (cr3 s) \<longrightarrow> ram s' f = ram s f)"

definition alloc_step :: "'a mm_scheme \<Rightarrow> u64 list \<Rightarrow> u64 \<Rightarrow> 'a mm_scheme \<Rightarrow> u64 list \<Rightarrow> bool" where
  "alloc_step s ps p s' ps' \<longleftrightarrow>
     only_mm s s' \<and> mm_ok s' ps' \<and> same_space s s' \<and> is_frame p \<and> p \<in> free_pages s ps \<and>
     free_pages s' ps' = free_pages s ps - {p} \<and> prefix ps' ps"

lemma same_space_walk:
  "same_space s s' \<Longrightarrow> outside va \<Longrightarrow> walk (ram s') (cr3 s') va = walk (ram s) (cr3 s) va"
  by (simp add: same_space_def walk_page_entry)

lemma same_space_tables:
  "same_space s s' \<Longrightarrow> cr3 s' = cr3 s \<Longrightarrow> table_frames (ram s') (cr3 s') = table_frames (ram s) (cr3 s)"
  unfolding same_space_def table_frames_def by auto

lemma same_space_in_use: "same_space s s' \<Longrightarrow> cr3 s' = cr3 s \<Longrightarrow> in_use s' = in_use s"
  using same_space_tables [of s s'] same_space_walk [of s s'] unfolding in_use_def by auto

lemma region_page_exists:
  assumes "regions_ok s" and "c < s_free_memory_count s" and "s_free_memory_current s \<le> c"
    and "fm_start (s_free_memory s c) \<noteq> fm_end (s_free_memory s c)"
  shows "fm_start (s_free_memory s c) \<in> region_pages s"
  using assms unfolding regions_ok_def region_pages_def by (auto intro!: exI [of _ c])

definition take_region :: "nat \<Rightarrow> 'a mm_scheme \<Rightarrow> 'a mm_scheme" where
  "take_region c s =
     s\<lparr>s_free_memory_current := c,
       s_free_memory := (s_free_memory s)
         (c := (s_free_memory s c)\<lparr>fm_start := fm_start (s_free_memory s c) + PAGE_SIZE\<rparr>),
       pmm_free_memory := pmm_free_memory s - PAGE_SIZE\<rparr>"

lemma take_region_fields [simp]:
  "ram (take_region c s) = ram s" "cr3 (take_region c s) = cr3 s"
  "pmm_stack_top (take_region c s) = pmm_stack_top s" "only_mm s (take_region c s)"
  by (simp_all add: take_region_def only_mm_def)

lemma take_region_parts:
  "s_free_memory_current (take_region c s) = c"
  "s_free_memory_count (take_region c s) = s_free_memory_count s"
  "fm_start (s_free_memory (take_region c s) i) =
     (if i = c then fm_start (s_free_memory s c) + PAGE_SIZE else fm_start (s_free_memory s i))"
  "fm_end (s_free_memory (take_region c s) i) = fm_end (s_free_memory s i)"
  by (simp_all add: take_region_def)

lemma take_region_ok:
  assumes r: "regions_ok s" and c: "c < s_free_memory_count s" "s_free_memory_current s \<le> c"
    and ne: "fm_start (s_free_memory s c) \<noteq> fm_end (s_free_memory s c)"
    and empty: "\<forall>i. s_free_memory_current s \<le> i \<longrightarrow> i < c \<longrightarrow>
       fm_start (s_free_memory s i) = fm_end (s_free_memory s i)"
  shows "regions_ok (take_region c s)"
    and "region_pages (take_region c s) = region_pages s - {fm_start (s_free_memory s c)}"
proof -
  let ?b = "fm_start (s_free_memory s c)" and ?e = "fm_end (s_free_memory s c)"
  have be: "uint ?b mod 4096 = 0" "uint ?e mod 4096 = 0" "?b < ?e" "uint ?e \<le> 2 ^ 52"
    using r c ne by (auto simp: regions_ok_def)
  have apart: "fm_end (s_free_memory s i) \<le> ?b \<or> ?e \<le> fm_start (s_free_memory s i)"
    if "i < s_free_memory_count s" "i \<noteq> c" for i
    using r c that unfolding regions_ok_def by blast
  have b_le: "?b \<le> ?b + PAGE_SIZE" using next_page(1) [OF be be(1)] by (simp add: word_le_def)
  show "regions_ok (take_region c s)"
    unfolding regions_ok_def
  proof (intro conjI allI impI)
    fix i assume i: "i < s_free_memory_count (take_region c s)"
    show "uint (fm_start (s_free_memory (take_region c s) i)) mod 4096 = 0"
      using r i be(1) next_page(1) [OF be be(1)] by (simp add: take_region_def regions_ok_def)
    show "fm_start (s_free_memory (take_region c s) i) \<le> fm_end (s_free_memory (take_region c s) i)"
      using r i next_page(2) [OF be be(1)] by (simp add: take_region_def regions_ok_def)
  next
    fix i j assume ij: "i < s_free_memory_count (take_region c s)" "j < s_free_memory_count (take_region c s)" "i \<noteq> j"
    then have "fm_end (s_free_memory s i) \<le> fm_start (s_free_memory s j) \<or>
        fm_end (s_free_memory s j) \<le> fm_start (s_free_memory s i)"
      using r unfolding regions_ok_def take_region_def by simp
    then show "fm_end (s_free_memory (take_region c s) i) \<le> fm_start (s_free_memory (take_region c s) j) \<or>
        fm_end (s_free_memory (take_region c s) j) \<le> fm_start (s_free_memory (take_region c s) i)"
      using b_le ij by (auto simp: take_region_def intro: order_trans)
  qed (use r c in \<open>auto simp: take_region_def regions_ok_def\<close>)
  show "region_pages (take_region c s) = region_pages s - {?b}"
  proof (intro set_eqI iffI)
    fix q assume "q \<in> region_pages (take_region c s)"
    then obtain i where i: "uint q mod 4096 = 0" "c \<le> i" "i < s_free_memory_count s"
      "(if i = c then ?b + PAGE_SIZE else fm_start (s_free_memory s i)) \<le> q" "q < fm_end (s_free_memory s i)"
      unfolding region_pages_def mem_Collect_eq take_region_parts by metis
    show "q \<in> region_pages s - {?b}"
    proof (cases "i = c")
      case True
      then show ?thesis using i c next_page(3) [OF be i(1)] by (auto simp: region_pages_def)
    next
      case False
      then have "q \<noteq> ?b" using apart [OF i(3)] i(4,5) be(3) by auto
      moreover have "s_free_memory_current s \<le> i" using i(2) c(2) by simp
      ultimately show ?thesis using i False unfolding region_pages_def by auto
    qed
  next
    fix q assume q: "q \<in> region_pages s - {?b}"
    then obtain i where i: "uint q mod 4096 = 0" "s_free_memory_current s \<le> i" "i < s_free_memory_count s"
      "fm_start (s_free_memory s i) \<le> q" "q < fm_end (s_free_memory s i)"
      by (auto simp: region_pages_def)
    then have "c \<le> i" using empty by (metis leD leI)
    then show "q \<in> region_pages (take_region c s)"
      using i q next_page(3) [OF be i(1)]
      by (auto simp: region_pages_def take_region_def intro!: exI [of _ i])
  qed
qed

lemma alloc_from_regions_step:
  assumes ok: "mm_ok s []" and ne: "region_pages s \<noteq> {}"
  shows "\<exists>p s'. pmm_alloc_page s = Inr (p, s') \<and> alloc_step s [] p s' []"
proof -
  have r: "regions_ok s" and top: "pmm_stack_top s = PMM_STACK_VMA"
    using ok by (auto simp: mm_ok_def frames_ok_def free_stack_def stack_addr_0)
  then obtain c where c: "find_region (s_free_memory s) (s_free_memory_count s) (s_free_memory_current s) = Some c"
    "s_free_memory_current s \<le> c" "c \<le> s_free_memory_count s"
    and empty: "\<forall>i. s_free_memory_current s \<le> i \<longrightarrow> i < c \<longrightarrow>
       fm_start (s_free_memory s i) = fm_end (s_free_memory s i)"
    and full: "c < s_free_memory_count s \<longrightarrow> fm_start (s_free_memory s c) \<noteq> fm_end (s_free_memory s c)"
    using find_region_result [of "s_free_memory_current s" "s_free_memory_count s" "s_free_memory s"]
    by (auto simp: regions_ok_def)
  have lt: "c < s_free_memory_count s"
  proof (rule ccontr)
    assume "\<not> ?thesis"
    then have "region_pages s = {}" using c empty by (fastforce simp: region_pages_def)
    with ne show False ..
  qed
  let ?p = "fm_start (s_free_memory s c)"
  have run: "pmm_alloc_page s = Inr (?p, take_region c s)"
    using c lt top by (simp add: pmm_alloc_page_def pmm_alloc_page_via_def alloc_from_regions_def take_region_def Let_def)
  have p: "?p \<in> region_pages s" using region_page_exists [OF r lt c(2)] full lt by blast
  note t = take_region_ok [OF r lt c(2) full [rule_format, OF lt] empty]
  have "in_use (take_region c s) = in_use s" by (simp add: in_use_def)
  then have "mm_ok (take_region c s) []"
    using ok t by (auto simp: mm_ok_def frames_ok_def free_stack_def free_pages_def)
  moreover have "same_space s (take_region c s)" by (simp add: same_space_def page_entry_def)
  ultimately have "alloc_step s [] ?p (take_region c s) []"
    using p t(2) region_page_frame [OF r p] by (simp add: alloc_step_def free_pages_def)
  with run show ?thesis by blast
qed

lemma alloc_from_regions_empty:
  assumes ok: "mm_ok s []" and "region_pages s = {}"
  shows "pmm_alloc_page s = Inl (Fatal ''Out of physical memory'')"
proof -
  have r: "regions_ok s" and top: "pmm_stack_top s = PMM_STACK_VMA"
    using ok by (auto simp: mm_ok_def frames_ok_def free_stack_def stack_addr_0)
  then obtain c where c: "find_region (s_free_memory s) (s_free_memory_count s) (s_free_memory_current s) = Some c"
    "s_free_memory_current s \<le> c" "c \<le> s_free_memory_count s"
    and full: "c < s_free_memory_count s \<longrightarrow> fm_start (s_free_memory s c) \<noteq> fm_end (s_free_memory s c)"
    using find_region_result [of "s_free_memory_current s" "s_free_memory_count s" "s_free_memory s"]
    by (auto simp: regions_ok_def)
  then have "c = s_free_memory_count s"
    using region_page_exists [OF r] assms(2) by (metis empty_iff le_neq_implies_less)
  then show ?thesis
    using c top by (simp add: pmm_alloc_page_def pmm_alloc_page_via_def alloc_from_regions_def Let_def)
qed

text \<open>The writes the stack makes.\<close>

lemma put_window:
  "recursive_root (ram s) (cr3 s) \<Longrightarrow> node (ram s) (cr3 s) (upper va) = Some g \<Longrightarrow>
   put (entry_addr pm1_base (index1 va)) v s = Inr (write_word g (ix1 va) v s)"
  by (simp add: put_mapped walk_window slot_pm1)

lemma table_frame_upper:
  "ix4 va \<noteq> 510 \<Longrightarrow> node r root (upper va) = Some g \<Longrightarrow> g \<in> table_frames r root"
  unfolding table_frames_def using table_path_upper by blast

lemma write_leaf:
  assumes "table_tree (ram s) (cr3 s)" and "ix4 va \<noteq> 510" and "node (ram s) (cr3 s) (upper va) = Some g"
  shows "table_tree (put_entry (ram s) g (ix1 va) v) (cr3 s)"
    and "table_frames (put_entry (ram s) g (ix1 va) v) (cr3 s) = table_frames (ram s) (cr3 s)"
    and "table_path js \<Longrightarrow> node (put_entry (ram s) g (ix1 va) v) (cr3 s) js = node (ram s) (cr3 s) js"
    and "ix4 vb \<noteq> 510 \<Longrightarrow> path vb \<noteq> path va \<Longrightarrow>
         walk (put_entry (ram s) g (ix1 va) v) (cr3 s) vb = walk (ram s) (cr3 s) vb"
    and "path vb = path va \<Longrightarrow> walk (put_entry (ram s) g (ix1 va) v) (cr3 s) vb =
         (if present v then Some (frame_of v) else None)"
    and "f \<notin> table_frames (ram s) (cr3 s) \<Longrightarrow> put_entry (ram s) g (ix1 va) v f = ram s f"
    and "ix4 vb \<noteq> 510 \<Longrightarrow> node (ram s) (cr3 s) (upper vb) = Some h \<Longrightarrow> path vb \<noteq> path va \<Longrightarrow>
         put_entry (ram s) g (ix1 va) v h (ix1 vb) = ram s h (ix1 vb)"
proof -
  note leaf = put_leaf [OF assms(1) table_path_upper [OF assms(2)] length_upper assms(3)]
  show "table_tree (put_entry (ram s) g (ix1 va) v) (cr3 s)" by (rule leaf)
  show "table_frames (put_entry (ram s) g (ix1 va) v) (cr3 s) = table_frames (ram s) (cr3 s)" by (rule leaf)
  show "table_path js \<Longrightarrow> node (put_entry (ram s) g (ix1 va) v) (cr3 s) js = node (ram s) (cr3 s) js"
    by (rule leaf)
  show "ix4 vb \<noteq> 510 \<Longrightarrow> path vb \<noteq> path va \<Longrightarrow>
      walk (put_entry (ram s) g (ix1 va) v) (cr3 s) vb = walk (ram s) (cr3 s) vb"
    unfolding path_upper [of va] by (rule leaf)
  show "path vb = path va \<Longrightarrow> walk (put_entry (ram s) g (ix1 va) v) (cr3 s) vb =
      (if present v then Some (frame_of v) else None)"
    unfolding path_upper [of va] by (rule leaf)
  show "f \<notin> table_frames (ram s) (cr3 s) \<Longrightarrow> put_entry (ram s) g (ix1 va) v f = ram s f"
    using table_frame_upper [OF assms(2,3)] by (auto simp: put_entry_def)
  assume vb: "ix4 vb \<noteq> 510" "node (ram s) (cr3 s) (upper vb) = Some h" "path vb \<noteq> path va"
  have "h = g \<Longrightarrow> upper vb = upper va"
    using vb(1,2) assms table_path_upper unfolding table_tree_def by blast
  then show "put_entry (ram s) g (ix1 va) v h (ix1 vb) = ram s h (ix1 vb)"
    using vb(3) by (auto simp: put_entry_at path_upper)
qed

lemma write_leaf_entry:
  assumes "table_tree (ram s) (cr3 s)" and "ix4 va \<noteq> 510" and "node (ram s) (cr3 s) (upper va) = Some g"
    and "ix4 vb \<noteq> 510" and "path vb \<noteq> path va"
    and "ram t = put_entry (ram s) g (ix1 va) v" and "cr3 t = cr3 s"
  shows "page_entry t vb = page_entry s vb"
proof (cases "node (ram s) (cr3 s) (upper vb)")
  case None
  then show ?thesis
    using write_leaf(3) [OF assms(1-3) table_path_upper [OF assms(4)]] assms(6,7) by (simp add: page_entry_def)
next
  case (Some h)
  then show ?thesis
    using write_leaf(3) [OF assms(1-3) table_path_upper [OF assms(4)]]
      write_leaf(7) [OF assms(1-3) assms(4) Some assms(5)] assms(6,7) by (simp add: page_entry_def)
qed

lemma div_lower: "n mod 512 = 0 \<Longrightarrow> k < n \<Longrightarrow> k div 512 \<noteq> n div 512" for n k :: nat
  using div_mult_mod_eq [of n 512] div_times_less_eq_dividend [of k 512] by auto

lemma div_block: "n mod 512 = 0 \<Longrightarrow> n \<le> k div 512 * 512 \<Longrightarrow> k div 512 \<noteq> n div 512 \<Longrightarrow> Suc n \<le> k div 512 * 512"
  for n k :: nat
  by (cases "n = k div 512 * 512") auto

lemma alloc_from_stack:
  assumes ok: "mm_ok s (ps @ [p])"
  shows "\<exists>s'. pmm_alloc_page s = Inr (p, s') \<and> alloc_step s (ps @ [p]) p s' ps"
proof -
  let ?qs = "ps @ [p]" and ?n = "length ps" and ?a = "stack_addr (length ps)"
  let ?s = "s\<lparr>pmm_stack_top := ?a\<rparr>"
  note tree = mm_ok_tree [OF ok]
  have fs: "free_stack s ?qs" and fr: "frames_ok s ?qs" using ok by (simp_all add: mm_ok_def)
  then have n: "?n < 2 ^ 36" "Suc ?n < 2 ^ 36" by (simp_all add: free_stack_def)
  have entry: "walk (ram s) (cr3 s) (stack_addr k) = Some (?qs ! (k div 512 * 512))"
      "ram s (?qs ! (k div 512 * 512)) (of_nat (k mod 512)) = ?qs ! k" if "k \<le> ?n" for k
    using fs that by (simp_all add: free_stack_def less_Suc_eq_le)
  have above: "walk (ram s) (cr3 s) (stack_addr k) = None" if "k < 2 ^ 36" "Suc ?n \<le> k div 512 * 512" for k
    using fs that by (simp add: free_stack_def)
  have a510: "ix4 (stack_addr k) \<noteq> 510" if "k < 2 ^ 36" for k using ix4_stack [OF that] by simp
  have top: "pmm_stack_top s = stack_addr (Suc ?n)" using fs by (simp add: free_stack_def)
  then have ne: "pmm_stack_top s \<noteq> PMM_STACK_VMA"
    using stack_addr_inj [OF n(2), of 0] by (simp add: stack_addr_0)
  have ld: "load ?s ?a = Inr p"
    using entry [of ?n] n by (simp add: load_def slot_stack)
  have start: "pmm_alloc_page s = and_then (if ?n mod 512 = 0 then vmm_unmap_page_via put ?a ?s else Inr ?s)
      (\<lambda>s. Inr (p, s\<lparr>pmm_free_memory := pmm_free_memory s - PAGE_SIZE\<rparr>))"
    unfolding pmm_alloc_page_def pmm_alloc_page_via_def Let_def
    using ne top ld stack_addr_aligned [OF n(1)] by (simp add: stack_addr_Suc)
  have pfree: "p \<in> free_pages s ?qs" "is_frame p" using fr by (auto simp: free_pages_def frames_ok_def)
  have notab: "q \<notin> table_frames (ram s) (cr3 s)" if "q \<in> set ?qs" for q
    using free_not_table [OF ok, of q] that unfolding free_pages_def by blast
  have finish: "alloc_step s ?qs p s' ps"
    if om: "only_mm s s'" and tr: "table_tree (ram s') (cr3 s')" and st: "free_stack s' ps"
      and ss: "same_space s s'" and reg: "s_free_memory s' = s_free_memory s"
        "s_free_memory_current s' = s_free_memory_current s" for s'
  proof -
    note c = only_mm_fields [OF om]
    have rp: "region_pages s' = region_pages s" using reg c by (simp add: region_pages_def)
    have "regions_ok s'" using fr reg c by (simp add: frames_ok_def regions_ok_def)
    then have "frames_ok s' ps"
      using fr rp same_space_in_use [OF ss c(1)] by (auto simp: frames_ok_def free_pages_def)
    then have "mm_ok s' ps" using tr st by (simp add: mm_ok_def)
    moreover have "free_pages s' ps = free_pages s ?qs - {p}"
      using fr rp by (auto simp: free_pages_def frames_ok_def)
    ultimately show ?thesis using om ss pfree by (simp add: alloc_step_def)
  qed
  show ?thesis
  proof (cases "?n mod 512 = 0")
    case True
    obtain g where g: "node (ram s) (cr3 s) (upper ?a) = Some g"
      using entry(1) [of ?n] by (auto simp: walk_upper bind_eq_Some_conv)
    let ?r = "put_entry (ram s) g (ix1 ?a) 0"
    let ?t = "(write_word g (ix1 ?a) 0 ?s)\<lparr>pmm_free_memory := pmm_free_memory s - PAGE_SIZE\<rparr>"
    note wl = write_leaf [OF tree a510 [OF n(1)] g]
    have run: "pmm_alloc_page s = Inr (p, ?t)"
      using put_window [of ?s ?a g 0] tree g True start
      by (simp add: vmm_unmap_page_via_def write_word_def)
    have other: "walk ?r (cr3 s) (stack_addr k) = walk (ram s) (cr3 s) (stack_addr k)"
      if "k < 2 ^ 36" "k div 512 \<noteq> ?n div 512" for k
      using wl(4) a510 that n path_stack_eq by blast
    have "free_stack ?t ps"
      unfolding free_stack_def
    proof (intro conjI allI impI)
      fix k assume k: "k < ?n"
      have d: "k div 512 \<noteq> ?n div 512" using True k by (rule div_lower)
      have i: "k div 512 * 512 < ?n" using k by (metis le_less_trans div_times_less_eq_dividend)
      show "walk (ram ?t) (cr3 ?t) (stack_addr k) = Some (ps ! (k div 512 * 512))"
        using other [OF _ d] entry(1) [of k] k n i by (simp add: nth_append)
      have "ps ! (k div 512 * 512) \<notin> table_frames (ram s) (cr3 s)" using notab i by simp
      then show "ram ?t (ps ! (k div 512 * 512)) (of_nat (k mod 512)) = ps ! k"
        using wl(6) entry(2) [of k] k i by (simp add: nth_append)
    next
      fix k :: nat assume k: "k < 2 ^ 36" "?n \<le> k div 512 * 512"
      show "walk (ram ?t) (cr3 ?t) (stack_addr k) = None"
      proof (cases "k div 512 = ?n div 512")
        case True
        then show ?thesis using wl(5) [of "stack_addr k" 0] path_stack_eq k n by simp
      next
        case False
        then show ?thesis using other [OF k(1) False] above [OF k(1)] div_block [OF True k(2) False] by simp
      qed
    qed (use n in \<open>simp_all add: write_word_def\<close>)
    moreover have "same_space s ?t"
    proof -
      have "page_entry ?t va = page_entry s va" if "outside va" for va
        using that ix4_stack [OF n(1)]
        by (intro write_leaf_entry [OF tree a510 [OF n(1)] g, where v = 0]) (auto simp: outside_def path_def write_word_def put_entry_def)
      then show ?thesis using wl(3,6) unfolding same_space_def by simp
    qed
    moreover have "only_mm s ?t" by (simp add: only_mm_def write_word_def)
    ultimately have "alloc_step s ?qs p ?t ps" using wl(1) by (intro finish) (simp_all add: write_word_def put_entry_def)
    with run show ?thesis by blast
  next
    case False
    let ?t = "?s\<lparr>pmm_free_memory := pmm_free_memory s - PAGE_SIZE\<rparr>"
    have run: "pmm_alloc_page s = Inr (p, ?t)" using False start by simp
    have i: "k div 512 * 512 < ?n" if "k < ?n" for k using that by (metis le_less_trans div_times_less_eq_dividend)
    have "Suc ?n \<le> k div 512 * 512" if "?n \<le> k div 512 * 512" for k
      using that False by (metis Suc_leI le_neq_implies_less mod_mult_self2_is_0)
    moreover have "walk (ram s) (cr3 s) (stack_addr k) = Some (ps ! (k div 512 * 512))"
        "ram s (ps ! (k div 512 * 512)) (of_nat (k mod 512)) = ps ! k" if "k < ?n" for k
      using entry [of k] i [OF that] that by (simp_all add: nth_append)
    ultimately have "free_stack ?t ps" using n above by (simp add: free_stack_def)
    then have "alloc_step s ?qs p ?t ps"
      using tree by (intro finish) (simp_all add: only_mm_def same_space_def page_entry_def)
    with run show ?thesis by blast
  qed
qed

lemma pmm_alloc_page_step:
  assumes "mm_ok s ps" and "free_pages s ps \<noteq> {}"
  obtains p s' ps' where "pmm_alloc_page s = Inr (p, s')" and "alloc_step s ps p s' ps'"
proof (cases ps rule: rev_cases)
  case Nil
  then show ?thesis using alloc_from_regions_step [of s] assms that by (auto simp: free_pages_def)
next
  case (snoc qs q)
  then show ?thesis using alloc_from_stack [of s qs q] assms that by auto
qed

end
