(* ===== verification/Vmm_Tables.thy ===== *)
theory Vmm_Tables
  imports Mm_Invariant
begin

text \<open>
  How page tables grow: the effect of installing one table (by \<open>vmm_map_page\<close> or by the page
  fault handler), of creating all the tables on an address's path, and of writing the last
  entry of a path.
\<close>

section \<open>Installing a table\<close>

lemma install_walk:
  assumes "table_tree r root" and "length us \<le> 2" and "node r root us = Some g"
    and "p \<notin> table_frames r root" and "present e" and "frame_of e = p" and "table_path (us @ [i])"
    and "\<not> present (r g i)" and "ix4 va \<noteq> 510"
  shows "walk (install r g i e p) root va = walk r root va"
proof -
  have us: "table_path us" using assms(2,7) indices_prefix by (auto simp: table_path_def)
  note inst = install_node [OF assms(1) us assms(3-7)]
  show ?thesis
  proof (cases "prefix (us @ [i]) (path va)")
    case True
    then obtain zs where zs: "path va = us @ i # zs" by (auto simp: prefix_def)
    then have "length (path va) = length us + Suc (length zs)" by simp
    then have "zs \<noteq> []" using assms(2) by auto
    then show ?thesis using inst(3) assms(3,8) by (simp add: walk_def zs node_append)
  next
    case False
    then show ?thesis unfolding walk_def using inst(1) indices_path [OF assms(9)] by simp
  qed
qed

lemma installing:
  assumes "table_tree r root" and "table_path us" and "node r root us = Some g"
    and "p \<notin> table_frames r root" and "present e" and "frame_of e = p" and "table_path (us @ [i])"
  shows "recursive_root (put_entry (r(p := w)) g i e) root"
    and "node (put_entry (r(p := w)) g i e) root (us @ [i]) = Some p"
proof -
  let ?w = "r(p := w)"
  have t: "table_tree ?w root" by (rule put_data [OF assms(1,4)])
  have l: "indices us" "length us \<le> 4" using assms(2) by (auto simp: table_path_def)
  have g: "node ?w root us = Some g" using node_put_data [OF assms(4) l] assms(3) by simp
  have "us = [] \<longrightarrow> i \<noteq> 510" using assms(7) by (auto simp: table_path_def indices_def)
  then show "recursive_root (put_entry ?w g i e) root"
    using recursive_root_put_entry [OF t assms(2) g] by blast
  have "node (put_entry ?w g i e) root us = Some g"
    using node_put_entry [OF t assms(2) g l] g by (simp add: prefix_def)
  then show "node (put_entry ?w g i e) root (us @ [i]) = Some p"
    using assms(5,6) by (simp add: node_append put_entry_at)
qed

text \<open>
  What one or more installations of tables do: free pages become tables, every table stays
  where it is, translations do not change.
\<close>

definition grown :: "'a mm_scheme \<Rightarrow> u64 list \<Rightarrow> 'a mm_scheme \<Rightarrow> u64 list \<Rightarrow> bool" where
  "grown s ps s' ps' \<longleftrightarrow>
     only_mm s s' \<and> mm_ok s' ps' \<and> prefix ps' ps \<and> free_pages s' ps' \<subseteq> free_pages s ps \<and>
     table_frames (ram s') (cr3 s') \<subseteq> table_frames (ram s) (cr3 s) \<union> free_pages s ps \<and>
     free_pages s ps \<subseteq> free_pages s' ps' \<union> table_frames (ram s') (cr3 s') \<and>
     (\<forall>js f. table_path js \<longrightarrow> node (ram s) (cr3 s) js = Some f \<longrightarrow> node (ram s') (cr3 s') js = Some f) \<and>
     (\<forall>va. outside va \<longrightarrow> walk (ram s') (cr3 s') va = walk (ram s) (cr3 s) va) \<and>
     (\<forall>va e. outside va \<longrightarrow> page_entry s va = Some e \<longrightarrow> page_entry s' va = Some e) \<and>
     (\<forall>f. f \<notin> table_frames (ram s) (cr3 s) \<union> free_pages s ps \<longrightarrow> ram s' f = ram s f)"

lemma grown_refl: "mm_ok s ps \<Longrightarrow> grown s ps s ps"
  by (simp add: grown_def)

lemma grownD:
  assumes "grown s ps s' ps'"
  shows "only_mm s s'" "mm_ok s' ps'" "prefix ps' ps" "free_pages s' ps' \<subseteq> free_pages s ps"
    "table_frames (ram s') (cr3 s') \<subseteq> table_frames (ram s) (cr3 s) \<union> free_pages s ps"
    "\<And>js f. table_path js \<Longrightarrow> node (ram s) (cr3 s) js = Some f \<Longrightarrow> node (ram s') (cr3 s') js = Some f"
    "\<And>va. outside va \<Longrightarrow> walk (ram s') (cr3 s') va = walk (ram s) (cr3 s) va"
    "\<And>f. f \<notin> table_frames (ram s) (cr3 s) \<union> free_pages s ps \<Longrightarrow> ram s' f = ram s f"
    "\<And>va e. outside va \<Longrightarrow> page_entry s va = Some e \<Longrightarrow> page_entry s' va = Some e"
    "free_pages s ps \<subseteq> free_pages s' ps' \<union> table_frames (ram s') (cr3 s')"
  using assms unfolding grown_def by blast+

lemma grown_tables:
  assumes "grown s ps s' ps'"
  shows "table_frames (ram s) (cr3 s) \<subseteq> table_frames (ram s') (cr3 s')"
  using grownD(6) [OF assms] unfolding table_frames_def by blast

lemma grown_trans:
  assumes "grown s ps t qs" and "grown t qs u rs"
  shows "grown s ps u rs"
proof -
  note a = grownD [OF assms(1)] and b = grownD [OF assms(2)]
  have "ram u f = ram s f" if f: "f \<notin> table_frames (ram s) (cr3 s) \<union> free_pages s ps" for f
  proof -
    have "f \<notin> table_frames (ram t) (cr3 t) \<union> free_pages t qs" using a(4,5) f by blast
    then show ?thesis using a(8) [OF f] b(8) by simp
  qed
  moreover have "table_frames (ram u) (cr3 u) \<subseteq> table_frames (ram s) (cr3 s) \<union> free_pages s ps"
    using a(4,5) b(5) by blast
  moreover have "free_pages s ps \<subseteq> free_pages u rs \<union> table_frames (ram u) (cr3 u)"
    using a(10) b(10) grown_tables [OF assms(2)] by blast
  ultimately show ?thesis
    unfolding grown_def
    by (intro conjI allI impI only_mm_trans [OF a(1) b(1)] b(2) prefix_order.trans [OF b(3) a(3)]
        subset_trans [OF b(4) a(4)] b(6) a(6) b(9) a(9)) (simp_all add: a(7) b(7))
qed

definition window_of :: "u64 list \<Rightarrow> u64 \<Rightarrow> u64 \<Rightarrow> u64 \<Rightarrow> bool" where
  "window_of us i entry window \<longleftrightarrow> slot entry = i \<and> slot window = 0 \<and>
     (\<forall>r root. recursive_root r root \<longrightarrow>
        walk r root entry = node r root us \<and> walk r root window = node r root (us @ [i]))"

lemma windows:
  "window_of [] (ix4 va) (entry_addr pm4_base (index4 va)) (table_page pm3_base (index4 va))"
  "window_of [ix4 va] (ix3 va) (entry_addr pm3_base (index3 va)) (table_page pm2_base (index3 va))"
  "window_of [ix4 va, ix3 va] (ix2 va) (entry_addr pm2_base (index2 va)) (table_page pm1_base (index2 va))"
  unfolding window_of_def by (simp_all add: walk_pm slot_pm2 slot_pm3 slot_pm4 slot_table_page)

lemma ensure_table_present:
  assumes "window_of us i entry window" and "recursive_root (ram s) (cr3 s)"
    and "node (ram s) (cr3 s) us = Some g" and "present (ram s g i)"
  shows "vmm_ensure_table entry window s = Inr s"
proof -
  have "load s entry = Inr (ram s g i)"
    using assms by (auto simp: window_of_def load_mapped)
  then show ?thesis using assms(4) by (simp add: vmm_ensure_table_def)
qed

text \<open>A store that writes memory when the address is mapped, whatever it does when it is not.\<close>

definition direct :: "'a storer \<Rightarrow> bool" where
  "direct st \<longleftrightarrow> (\<forall>s va v f. walk (ram s) (cr3 s) va = Some f \<longrightarrow> st va v s = Inr (write_word f (slot va) v s))"

lemma direct_store: "direct (store n)"
  by (simp add: direct_def store.simps)

lemma direct_put: "direct put"
  by (simp add: put_def direct_store)

lemma directD: "direct st \<Longrightarrow> walk (ram s) (cr3 s) va = Some f \<Longrightarrow> st va v s = Inr (write_word f (slot va) v s)"
  by (simp add: direct_def)

text \<open>
  Writing the entry of a page just allocated, and clearing the page through its window.
\<close>

definition write_table :: "'a storer \<Rightarrow> u64 \<Rightarrow> u64 \<Rightarrow> u64 \<Rightarrow> 'a mm_scheme \<Rightarrow> 'a mm_scheme outcome" where
  "write_table st entry e window s =
     and_then (st entry e s) (\<lambda>s. zero_page_via st window (vmm_invalidate window s))"

lemma write_table_step:
  assumes ok: "mm_ok s ps" and us: "length us \<le> 2" "table_path (us @ [i])"
    and w: "window_of us i entry window" and g: "node (ram s) (cr3 s) us = Some g"
    and absent: "\<not> present (ram s g i)" and step: "alloc_step s ps p s1 qs"
    and e: "present e" "frame_of e = p" and dir: "direct st"
  shows "\<exists>s'. write_table st entry e window s1 = Inr s' \<and> grown s ps s' qs \<and>
    node (ram s') (cr3 s') (us @ [i]) = Some p \<and> ram s' p = (\<lambda>_. 0) \<and>
    card (free_pages s ps) = card (free_pages s' qs) + 1"
proof -
  note st = step [unfolded alloc_step_def]
  have om: "only_mm s s1" and ok1: "mm_ok s1 qs" and ss: "same_space s s1" using st by simp_all
  have root: "cr3 s1 = cr3 s" by (rule only_mm_fields [OF om])
  have same: "table_path js \<Longrightarrow> node (ram s1) (cr3 s) js = node (ram s) (cr3 s) js" for js
    using ss root by (simp add: same_space_def)
  have tp: "table_path us" using us indices_prefix by (auto simp: table_path_def)
  have g1: "node (ram s1) (cr3 s1) us = Some g" using same [OF tp] g root by simp
  have absent1: "\<not> present (ram s1 g i)"
    using same [OF us(2)] g1 g absent root by (auto simp: node_append split: if_splits)
  have tf: "table_frames (ram s1) (cr3 s1) = table_frames (ram s) (cr3 s)"
    using same_space_tables ss root by blast
  have pnew: "p \<notin> table_frames (ram s1) (cr3 s1)"
    using st tf free_not_table [OF ok] by simp
  have gtab: "g \<in> table_frames (ram s1) (cr3 s1)" using g1 tp by (auto simp: table_frames_def)
  then have pg: "p \<noteq> g" using pnew by blast
  note inst = install_node [OF mm_ok_tree [OF ok1] tp g1 pnew e us(2)]
  note going = installing [OF mm_ok_tree [OF ok1] tp g1 pnew e us(2)]
  have gi: "slot entry = i" "slot window = 0" using w by (simp_all add: window_of_def)
  have at: "walk (ram s1) (cr3 s1) entry = Some g"
    using w g1 mm_ok_tree [OF ok1] by (simp add: window_of_def)
  define s2 where "s2 = vmm_invalidate window (write_word g i e s1)"
  have s2: "ram s2 = put_entry ((ram s1)(p := ram s1 p)) g i e" "cr3 s2 = cr3 s1"
    by (simp_all add: s2_def)
  have win2: "walk (ram s2) (cr3 s2) window = Some p"
    using w going [of "ram s1 p"] by (simp add: window_of_def s2)
  define s3 where "s3 = write_word p 0 0 s2"
  have "ram s3 = put_entry ((ram s1)(p := (ram s1 p)(0 := 0))) g i e" "cr3 s3 = cr3 s1"
    using pg by (auto simp: s3_def s2 put_entry_def fun_eq_iff)
  then have win3: "walk (ram s3) (cr3 s3) window = Some p"
    using w going [of "(ram s1 p)(0 := 0)"] by (simp add: window_of_def)
  define s4 where "s4 = zero_frame p s3"
  have ram4: "ram s4 = install (ram s1) g i e p" and root4: "cr3 s4 = cr3 s1"
    by (auto simp: s4_def s3_def s2_def install_def put_entry_def fun_eq_iff)
  have run: "write_table st entry e window s1 = Inr s4"
    using directD [OF dir at] directD [OF dir win2] win3 gi
    by (simp add: write_table_def zero_page_via_def s2_def s3_def s4_def)
  have w4: "walk (ram s4) (cr3 s4) va = walk (ram s1) (cr3 s1) va" if "ix4 va \<noteq> 510" for va
    using install_walk [OF mm_ok_tree [OF ok1] us(1) g1 pnew e us(2) absent1 that] by (simp add: ram4 root4)
  have keep: "ram s4 f = ram s1 f" if "f \<noteq> p" "f \<notin> table_frames (ram s1) (cr3 s1)" for f
    using that gtab by (auto simp: ram4 install_def put_entry_def)
  have om4: "only_mm s1 s4"
    unfolding s4_def s3_def s2_def by (meson only_mm_steps only_mm_trans)
  have fields: "pmm_stack_top s4 = pmm_stack_top s1" "s_free_memory s4 = s_free_memory s1"
    "s_free_memory_current s4 = s_free_memory_current s1" "s_free_memory_count s4 = s_free_memory_count s1"
    by (simp_all add: s4_def s3_def s2_def write_word_def zero_frame_def vmm_invalidate_def)
  have rp: "region_pages s4 = region_pages s1" "regions_ok s4 = regions_ok s1"
    using fields by (simp_all add: region_pages_def regions_ok_def)
  then have fp: "free_pages s4 qs = free_pages s1 qs" by (simp add: free_pages_def)
  have pfree: "p \<notin> free_pages s1 qs" using st by simp
  have stack4: "free_stack s4 qs"
  proof -
    have "ram s4 (qs ! k) = ram s1 (qs ! k)" if "k < length qs" for k
    proof -
      have "qs ! k \<in> free_pages s1 qs" using that by (simp add: free_pages_def)
      then show ?thesis using pfree free_not_table [OF ok1] by (intro keep) auto
    qed
    moreover have "k div 512 * 512 < length qs" if "k < length qs" for k
      using that by (metis le_less_trans div_times_less_eq_dividend)
    moreover have "walk (ram s4) (cr3 s4) (stack_addr k) = walk (ram s1) (cr3 s1) (stack_addr k)" if "k < 2 ^ 36" for k
      using w4 ix4_stack [OF that] by simp
    ultimately show ?thesis using ok1 fields unfolding mm_ok_def free_stack_def by simp
  qed
  have "frames_ok s1 qs" using ok1 by (simp add: mm_ok_def)
  moreover have "in_use s4 \<subseteq> in_use s1 \<union> {p}"
    using inst(5) w4 unfolding in_use_def outside_def ram4 root4 by auto
  ultimately have "frames_ok s4 qs"
    by (intro frames_ok_mono [of s1 qs s4 qs "{p}"])
       (use rp fp pfree in \<open>simp_all add: frames_ok_def\<close>)
  then have ok4: "mm_ok s4 qs" using stack4 inst(4) by (simp add: mm_ok_def ram4 root4)
  have pf: "p \<in> free_pages s ps" using st by simp
  have "grown s ps s4 qs"
    unfolding grown_def
  proof (intro conjI allI impI)
    show "only_mm s s4" using om om4 by (rule only_mm_trans)
    show "mm_ok s4 qs" by (rule ok4)
    show "prefix qs ps" "free_pages s4 qs \<subseteq> free_pages s ps" using st fp by auto
    show "table_frames (ram s4) (cr3 s4) \<subseteq> table_frames (ram s) (cr3 s) \<union> free_pages s ps"
      using inst(5) tf pf by (auto simp: ram4 root4)
    have "p \<in> table_frames (ram s4) (cr3 s4)" using inst(2) us(2) by (auto simp: table_frames_def ram4 root4)
    then show "free_pages s ps \<subseteq> free_pages s4 qs \<union> table_frames (ram s4) (cr3 s4)" using st fp by auto
  next
    fix js f assume js: "table_path js" "node (ram s) (cr3 s) js = Some f"
    then have f1: "node (ram s1) (cr3 s1) js = Some f" using same root by simp
    have "\<not> prefix (us @ [i]) js"
    proof
      assume "prefix (us @ [i]) js"
      then obtain zs where "js = us @ [i] @ zs" by (auto simp: prefix_def)
      then show False using f1 g1 absent1 by (simp add: node_append)
    qed
    then show "node (ram s4) (cr3 s4) js = Some f"
      using inst(1) [of js] js(1) f1 by (simp add: table_path_def ram4 root4)
  next
    fix va assume "outside va"
    then show "walk (ram s4) (cr3 s4) va = walk (ram s) (cr3 s) va"
      using w4 same_space_walk [OF ss] by (simp add: outside_def)
  next
    fix va x assume va: "outside va" "page_entry s va = Some x"
    then have v510: "ix4 va \<noteq> 510" and x1: "page_entry s1 va = Some x"
      using ss by (simp_all add: outside_def same_space_def)
    then obtain h where h: "node (ram s1) (cr3 s1) (upper va) = Some h" "x = ram s1 h (ix1 va)"
      by (auto simp: page_entry_def)
    have "h \<noteq> p" using pnew table_frame_upper [OF v510 h(1)] by blast
    moreover have "h \<noteq> g"
    proof
      assume "h = g"
      then have "upper va = us"
        using h(1) g1 tp table_path_upper [OF v510] mm_ok_tree [OF ok1] unfolding table_tree_def by blast
      then show False using us(1) by (metis length_upper Suc_n_not_le_n numeral_2_eq_2 numeral_3_eq_3)
    qed
    ultimately have same4: "ram s4 h = ram s1 h" by (simp add: ram4 install_def put_entry_def)
    have "\<not> prefix (us @ [i]) (upper va)"
    proof
      assume "prefix (us @ [i]) (upper va)"
      then obtain zs where "upper va = us @ [i] @ zs" by (auto simp: prefix_def)
      then show False using h(1) g1 absent1 by (simp add: node_append)
    qed
    then have "node (ram s4) (cr3 s4) (upper va) = Some h"
      using inst(1) [of "upper va"] table_path_upper [OF v510] h(1) by (simp add: table_path_def ram4 root4)
    then show "page_entry s4 va = Some x" using same4 h(2) by (simp add: page_entry_def)
  next
    fix f assume "f \<notin> table_frames (ram s) (cr3 s) \<union> free_pages s ps"
    then show "ram s4 f = ram s f"
      using keep [of f] tf pf ss by (auto simp: same_space_def)
  qed
  moreover have "node (ram s4) (cr3 s4) (us @ [i]) = Some p" using inst(2) by (simp add: ram4 root4)
  moreover have "card (free_pages s ps) = card (free_pages s4 qs) + 1"
    using st fp pf by (metis Suc_eq_plus1 card_Suc_Diff1 finite)
  moreover have "ram s4 p = (\<lambda>_. 0)" by (simp add: ram4 install_def)
  ultimately show ?thesis using run by blast
qed

lemma ensure_table_absent:
  assumes ok: "mm_ok s ps" and free: "free_pages s ps \<noteq> {}" and us: "length us \<le> 2" "table_path (us @ [i])"
    and w: "window_of us i entry window" and g: "node (ram s) (cr3 s) us = Some g"
    and absent: "\<not> present (ram s g i)"
  shows "\<exists>s' ps' h. vmm_ensure_table entry window s = Inr s' \<and> grown s ps s' ps' \<and>
    node (ram s') (cr3 s') (us @ [i]) = Some h \<and> card (free_pages s ps) = card (free_pages s' ps') + 1"
proof -
  obtain p s1 qs where alloc: "pmm_alloc_page s = Inr (p, s1)" and step: "alloc_step s ps p s1 qs"
    using pmm_alloc_page_step [OF ok free] by blast
  let ?e = "p OR PAGE_WRITE OR PAGE_PRESENT"
  have e: "present ?e" "frame_of ?e = p" using step entry_table by (simp_all add: alloc_step_def)
  have "load s entry = Inr (ram s g i)"
    using w g mm_ok_tree [OF ok] by (simp add: window_of_def load_mapped)
  then have "vmm_ensure_table entry window s = write_table put entry ?e window s1"
    using absent alloc by (simp add: vmm_ensure_table_def write_table_def)
  with write_table_step [OF ok us w g absent step e direct_put] show ?thesis by metis
qed


section \<open>The tables on the path of an address\<close>

lemma ensure_table:
  assumes ok: "mm_ok s ps" and free: "1 \<le> card (free_pages s ps)" and us: "length us \<le> 2" "table_path (us @ [i])"
    and w: "window_of us i entry window" and g: "node (ram s) (cr3 s) us = Some g"
  obtains s' ps' h where "vmm_ensure_table entry window s = Inr s'" and "grown s ps s' ps'"
    and "node (ram s') (cr3 s') (us @ [i]) = Some h" and "card (free_pages s ps) \<le> card (free_pages s' ps') + 1"
proof (cases "present (ram s g i)")
  case True
  show ?thesis
  proof (rule that [of s ps])
    show "vmm_ensure_table entry window s = Inr s"
      using ensure_table_present [OF w _ g True] mm_ok_tree [OF ok] by simp
    show "node (ram s) (cr3 s) (us @ [i]) = Some (frame_of (ram s g i))"
      using g True by (simp add: node_append)
  qed (simp_all add: grown_refl ok)
next
  case False
  have "free_pages s ps \<noteq> {}" using free by auto
  from ensure_table_absent [OF ok this us w g False] that show ?thesis by (metis order_refl)
qed

definition vmm_map_tables :: "u64 \<Rightarrow> 'a mm_scheme \<Rightarrow> 'a mm_scheme outcome" where
  "vmm_map_tables va s =
     and_then (vmm_ensure_table (entry_addr pm4_base (index4 va)) (table_page pm3_base (index4 va)) s) (\<lambda>s.
     and_then (vmm_ensure_table (entry_addr pm3_base (index3 va)) (table_page pm2_base (index3 va)) s) (\<lambda>s.
     vmm_ensure_table (entry_addr pm2_base (index2 va)) (table_page pm1_base (index2 va)) s))"

lemma grown_ok: "grown s ps s' ps' \<Longrightarrow> mm_ok s' ps'"
  by (simp add: grown_def)

lemma map_tables:
  assumes ok: "mm_ok s ps" and free: "3 \<le> card (free_pages s ps)" and va: "ix4 va \<noteq> 510"
  obtains s' ps' g where "vmm_map_tables va s = Inr s'" and "grown s ps s' ps'"
    and "node (ram s') (cr3 s') (upper va) = Some g" and "card (free_pages s ps) \<le> card (free_pages s' ps') + 3"
proof -
  note tp = table_path_tables [OF va]
  have c0: "1 \<le> card (free_pages s ps)" using free by simp
  obtain s1 ps1 h1 where 1: "vmm_ensure_table (entry_addr pm4_base (index4 va)) (table_page pm3_base (index4 va)) s = Inr s1"
      "grown s ps s1 ps1" "node (ram s1) (cr3 s1) ([] @ [ix4 va]) = Some h1"
      "card (free_pages s ps) \<le> card (free_pages s1 ps1) + 1"
    by (rule ensure_table [OF ok c0 _ _ windows(1) node.simps(1)]) (use tp in simp_all)
  have c1: "1 \<le> card (free_pages s1 ps1)" using 1(4) free by simp
  obtain s2 ps2 h2 where 2: "vmm_ensure_table (entry_addr pm3_base (index3 va)) (table_page pm2_base (index3 va)) s1 = Inr s2"
      "grown s1 ps1 s2 ps2" "node (ram s2) (cr3 s2) ([ix4 va] @ [ix3 va]) = Some h2"
      "card (free_pages s1 ps1) \<le> card (free_pages s2 ps2) + 1"
    by (rule ensure_table [OF grown_ok [OF 1(2)] c1 _ _ windows(2) 1(3) [unfolded append_Nil]]) (use tp in simp_all)
  have c2: "1 \<le> card (free_pages s2 ps2)" using 1(4) 2(4) free by simp
  have h2: "node (ram s2) (cr3 s2) [ix4 va, ix3 va] = Some h2" using 2(3) by (simp del: node.simps)
  obtain s3 ps3 h3 where 3: "vmm_ensure_table (entry_addr pm2_base (index2 va)) (table_page pm1_base (index2 va)) s2 = Inr s3"
      "grown s2 ps2 s3 ps3" "node (ram s3) (cr3 s3) ([ix4 va, ix3 va] @ [ix2 va]) = Some h3"
      "card (free_pages s2 ps2) \<le> card (free_pages s3 ps3) + 1"
    by (rule ensure_table [OF grown_ok [OF 2(2)] c2 _ _ windows(3) h2]) (use tp in simp_all)
  show ?thesis
  proof (rule that)
    show "vmm_map_tables va s = Inr s3" using 1(1) 2(1) 3(1) by (simp add: vmm_map_tables_def)
    show "grown s ps s3 ps3" using 1(2) 2(2) 3(2) by (blast intro: grown_trans)
    show "node (ram s3) (cr3 s3) (upper va) = Some h3" using 3(3) by (simp add: upper_def del: node.simps)
    show "card (free_pages s ps) \<le> card (free_pages s3 ps3) + 3" using 1(4) 2(4) 3(4) by simp
  qed
qed

lemma map_tables_present:
  assumes "recursive_root (ram s) (cr3 s)" and "node (ram s) (cr3 s) (upper va) = Some g"
  shows "vmm_map_tables va s = Inr s"
proof -
  obtain g3 where 3: "node (ram s) (cr3 s) [ix4 va, ix3 va] = Some g3" "present (ram s g3 (ix2 va))"
    using assms(2) by (auto simp: upper_def split: if_splits)
  obtain g2 where 2: "node (ram s) (cr3 s) [ix4 va] = Some g2" "present (ram s g2 (ix3 va))"
    using 3(1) by (auto split: if_splits)
  have 1: "node (ram s) (cr3 s) [] = Some (cr3 s)" "present (ram s (cr3 s) (ix4 va))"
    using 2(1) by (auto split: if_splits)
  show ?thesis
    using ensure_table_present [OF windows(1) assms(1) 1] ensure_table_present [OF windows(2) assms(1) 2]
      ensure_table_present [OF windows(3) assms(1) 3]
    by (simp add: vmm_map_tables_def)
qed

lemma and_then_assoc: "and_then (and_then m f) g = and_then m (\<lambda>x. and_then (f x) g)"
  by (cases m) simp_all

lemma vmm_map_page_tables:
  "vmm_map_page pa va s = and_then (vmm_map_tables va s) (\<lambda>s.
     and_then (load s (entry_addr pm1_base (index1 va))) (\<lambda>e.
       if present e then Inl (Fatal ''vmm_map_page() - there is already something there!'')
       else and_then (put (entry_addr pm1_base (index1 va)) (pa OR PAGE_WRITE OR PAGE_PRESENT) s) (\<lambda>s.
            Inr (0, vmm_invalidate va s))))"
  by (simp add: vmm_map_page_def vmm_map_tables_def and_then_assoc Let_def)

lemma load_window:
  "recursive_root (ram s) (cr3 s) \<Longrightarrow> node (ram s) (cr3 s) (upper va) = Some g \<Longrightarrow>
   load s (entry_addr pm1_base (index1 va)) = Inr (ram s g (ix1 va))"
  by (simp add: load_mapped walk_window slot_pm1)

lemma map_page_leaf:
  assumes "vmm_map_tables va s = Inr t" and "recursive_root (ram t) (cr3 t)"
    and "node (ram t) (cr3 t) (upper va) = Some g"
  shows "vmm_map_page pa va s =
    (if present (ram t g (ix1 va)) then Inl (Fatal ''vmm_map_page() - there is already something there!'')
     else Inr (0, vmm_invalidate va (write_word g (ix1 va) (pa OR PAGE_WRITE OR PAGE_PRESENT) t)))"
  using assms by (simp add: vmm_map_page_tables load_window put_window)

section \<open>Writing the last entry\<close>

lemma entry_flags: "present (pa OR PAGE_WRITE OR PAGE_PRESENT)" "frame_of (pa OR PAGE_WRITE OR PAGE_PRESENT) = frame_of pa"
  by (simp_all add: present_iff frame_of_def PAGE_WRITE_def PAGE_PRESENT_def bit_simps bit.conj_disj_distrib2)

lemma free_stack_cong:
  assumes "free_stack s ps" and "pmm_stack_top s' = pmm_stack_top s"
    and "\<And>k. k < 2 ^ 36 \<Longrightarrow> walk (ram s') (cr3 s') (stack_addr k) = walk (ram s) (cr3 s) (stack_addr k)"
    and "\<And>p. p \<in> set ps \<Longrightarrow> ram s' p = ram s p"
  shows "free_stack s' ps"
proof -
  have "k div 512 * 512 < length ps" if "k < length ps" for k
    using that by (metis le_less_trans div_times_less_eq_dividend)
  then show ?thesis using assms unfolding free_stack_def by simp
qed

lemma mm_ok_leaf:
  assumes ok: "mm_ok s ps" and va: "outside va" and g: "node (ram s) (cr3 s) (upper va) = Some g"
    and v: "present v \<Longrightarrow> frame_of v \<notin> free_pages s ps"
  shows "mm_ok (write_word g (ix1 va) v s) ps"
proof -
  let ?t = "write_word g (ix1 va) v s"
  have a: "ix4 va \<noteq> 510" using va by (simp add: outside_def)
  note wl = write_leaf [OF mm_ok_tree [OF ok] a g]
  have "free_stack ?t ps"
  proof (rule free_stack_cong [of s])
    show "free_stack s ps" using ok by (simp add: mm_ok_def)
    show "walk (ram ?t) (cr3 ?t) (stack_addr k) = walk (ram s) (cr3 s) (stack_addr k)" if k: "k < 2 ^ 36" for k
    proof -
      have "path (stack_addr k) \<noteq> path va"
        using va ix4_stack [OF k] by (auto simp: outside_def path_def)
      then show ?thesis using wl(4) [of "stack_addr k" v] ix4_stack [OF k] by simp
    qed
    show "ram ?t p = ram s p" if "p \<in> set ps" for p
      using wl(6) [of p v] free_not_table [OF ok, of p] that by (simp add: free_pages_def)
  qed (simp add: write_word_def)
  moreover have "frames_ok ?t ps"
  proof -
    have "region_pages ?t = region_pages s" "regions_ok ?t = regions_ok s"
      by (simp_all add: region_pages_def regions_ok_def write_word_def)
    moreover have "in_use ?t \<subseteq> in_use s \<union> (if present v then {frame_of v} else {})"
    proof
      fix f assume "f \<in> in_use ?t"
      then consider "f \<in> table_frames (ram s) (cr3 s)"
        | vb where "outside vb" "\<not> boot_window vb" "walk (ram ?t) (cr3 ?t) vb = Some f"
        using wl(2) by (auto simp: in_use_def)
      then show "f \<in> in_use s \<union> (if present v then {frame_of v} else {})"
      proof cases
        case 2
        then show ?thesis
          using wl(4) [of vb v] wl(5) [of vb v]
          by (cases "path vb = path va") (auto simp: in_use_def outside_def split: if_splits)
      qed (simp add: in_use_def)
    qed
    ultimately show ?thesis
      using ok v unfolding mm_ok_def
      by (intro frames_ok_mono [of s ps ?t ps "if present v then {frame_of v} else {}"])
         (auto simp: frames_ok_def free_pages_def)
  qed
  ultimately show ?thesis using wl(1) by (simp add: mm_ok_def)
qed

end
