(* ===== verification/Vmm_Spec.thy ===== *)
theory Vmm_Spec
  imports Vmm_Tables
begin

text \<open>
  What the memory managers promise: page faults on reserved pages, \<open>vmm_map_page\<close>,
  \<open>vmm_unmap_page\<close>, \<open>vmm_alloc\<close>, \<open>vmm_map\<close>, \<open>vmm_unmap\<close>, \<open>pmm_alloc_page\<close> and
  \<open>pmm_free_page\<close>, each on the states of the invariant \<open>mm_ok\<close>.
\<close>

section \<open>Page faults\<close>

lemma bit_align_down: "bit (PAGE_ALIGN_DOWN a) n \<longleftrightarrow> bit a n \<and> 12 \<le> n"
  using bit_imp_le_length [of a n]
  by (auto simp: PAGE_ALIGN_DOWN_def PAGE_SIZE_def bit_simps mask_bits)

lemma path_align_down [simp]: "path (PAGE_ALIGN_DOWN a) = path a"
  by (simp add: path_eq_iff bit_align_down)

lemma slot_align_down [simp]: "slot (PAGE_ALIGN_DOWN a) = 0"
  by (rule bit_word_eqI) (simp add: bit_ix bit_align_down)

lemma path_parts: "path a = path b \<Longrightarrow> ix4 a = ix4 b \<and> ix1 a = ix1 b \<and> upper a = upper b"
  by (simp add: path_def upper_def)

lemma walk_path: "path a = path b \<Longrightarrow> walk r root a = walk r root b"
  by (simp add: walk_def)

lemma index1_align_down [simp]: "index1 (PAGE_ALIGN_DOWN a) = index1 a"
  by (rule bit_word_eqI) (auto simp: bit_ix bit_align_down)

lemma pm1_entry_range:
  "page_table_start \<le> PAGE_ALIGN_DOWN (entry_addr pm1_base (index1 va))"
  "PAGE_ALIGN_DOWN (entry_addr pm1_base (index1 va)) \<le> page_table_end"
proof -
  let ?x = "PAGE_ALIGN_DOWN (entry_addr pm1_base (index1 va))"
  have b: "bit ?x n \<longleftrightarrow> 12 \<le> n \<and> (40 \<le> n \<and> n < 64 \<or> 3 \<le> n \<and> n < 39 \<and> bit va (9 + n))" for n
    unfolding bit_align_down entry_addr_or by (auto simp: window_bits)
  have split: "?x = pm1_base + (?x AND mask 39)"
  proof -
    have "pm1_base + (?x AND mask 39) = pm1_base OR (?x AND mask 39)"
      by (rule disjoint_add) (auto simp: bit_base bit_simps)
    also have "\<dots> = ?x" by (rule bit_word_eqI) (auto simp: b bit_base bit_simps)
    finally show ?thesis ..
  qed
  have "?x AND mask 39 \<le> mask 39" by (simp add: word_and_le1)
  then have le: "uint (?x AND mask 39) \<le> 2 ^ 39 - 1" by (simp add: word_le_def mask_eq_exp_minus_1)
  have "uint pm1_base + uint (?x AND mask 39) < 2 ^ 64" using le by (simp add: pm1_base_def)
  then have u: "uint ?x = uint pm1_base + uint (?x AND mask 39)"
    using split uint_add_lem [of pm1_base "?x AND mask 39"] by simp
  show "page_table_start \<le> ?x" using u by (simp add: word_le_def page_table_start_def pm1_base_def)
  show "?x \<le> page_table_end" using u le by (simp add: word_le_def page_table_end_def pm1_base_def)
qed

lemma pmm_alloc_page_direct:
  assumes ok: "mm_ok s ps" and dir: "direct st"
  shows "pmm_alloc_page_via st s = pmm_alloc_page s"
proof (cases ps rule: rev_cases)
  case Nil
  then show ?thesis
    using ok by (simp add: pmm_alloc_page_def pmm_alloc_page_via_def mm_ok_def free_stack_def stack_addr_0)
next
  case (snoc qs q)
  let ?a = "stack_addr (length qs)" and ?s = "s\<lparr>pmm_stack_top := stack_addr (length qs)\<rparr>"
  have n: "length qs < 2 ^ 36" "pmm_stack_top s = ?a + 8"
    and w: "walk (ram s) (cr3 s) ?a \<noteq> None"
    using ok by (auto simp: snoc mm_ok_def free_stack_def stack_addr_Suc)
  then obtain g where g: "node (ram s) (cr3 s) (upper ?a) = Some g"
    by (auto simp: walk_upper bind_eq_Some_conv)
  then have win: "walk (ram ?s) (cr3 ?s) (entry_addr pm1_base (index1 ?a)) = Some g"
    using mm_ok_tree [OF ok] by (simp add: walk_window)
  have eq: "vmm_unmap_page_via st ?a ?s = vmm_unmap_page_via put ?a ?s"
    by (simp add: vmm_unmap_page_via_def directD [OF dir win] directD [OF direct_put win])
  show ?thesis
    unfolding pmm_alloc_page_def pmm_alloc_page_via_def Let_def using n(2) eq by simp
qed

definition fault_entry :: "u64 \<Rightarrow> u64 \<Rightarrow> u64" where
  "fault_entry address page =
     (if address \<ge> KERNEL_SPACE then page OR PAGE_WRITE OR PAGE_PRESENT OR PAGE_GLOBAL
      else page OR PAGE_WRITE OR PAGE_PRESENT)"

lemma fault_entry: "is_frame p \<Longrightarrow> present (fault_entry a p)" "is_frame p \<Longrightarrow> frame_of (fault_entry a p) = p"
  by (simp_all add: fault_entry_def entry_table)

lemma fault_handled:
  assumes ok: "mm_ok s ps" and free: "free_pages s ps \<noteq> {}" and dir: "direct st"
    and e: "load s (entry_addr pm1_base (index1 cr2)) = Inr e"
    and reserved: "e AND PAGE_ALLOCATED \<noteq> 0 \<or>
       page_table_start \<le> PAGE_ALIGN_DOWN cr2 \<and> PAGE_ALIGN_DOWN cr2 \<le> page_table_end"
  obtains p s1 qs where "alloc_step s ps p s1 qs" and
    "vmm_page_fault_handler_via st cr2 PAGE_FAULT_WRITE s =
       and_then (write_table st (entry_addr pm1_base (index1 cr2)) (fault_entry (PAGE_ALIGN_DOWN cr2) p)
         (PAGE_ALIGN_DOWN cr2) s1) (\<lambda>s. Inr (1, s))"
proof -
  obtain p s1 qs where alloc: "pmm_alloc_page s = Inr (p, s1)" and step: "alloc_step s ps p s1 qs"
    using pmm_alloc_page_step [OF ok free] by blast
  have "vmm_page_fault_handler_via st cr2 PAGE_FAULT_WRITE s =
       and_then (write_table st (entry_addr pm1_base (index1 cr2)) (fault_entry (PAGE_ALIGN_DOWN cr2) p)
         (PAGE_ALIGN_DOWN cr2) s1) (\<lambda>s. Inr (1, s))"
    using e reserved alloc pmm_alloc_page_direct [OF ok dir]
    by (simp add: vmm_page_fault_handler_via_def write_table_def fault_entry_def Let_def and_then_assoc or.assoc)
  with step that show ?thesis by blast
qed

text \<open>
  A write to the entry of an address whose last-level table is missing: the fault handler
  installs the table.
\<close>

lemma put_entry_fault:
  assumes ok: "mm_ok s ps" and free: "free_pages s ps \<noteq> {}" and va: "ix4 va \<noteq> 510"
    and g: "node (ram s) (cr3 s) [ix4 va, ix3 va] = Some g" and absent: "\<not> present (ram s g (ix2 va))"
  obtains s' ps' h where
    "put (entry_addr pm1_base (index1 va)) v s = put (entry_addr pm1_base (index1 va)) v s'"
    and "grown s ps s' ps'" and "node (ram s') (cr3 s') (upper va) = Some h"
    and "card (free_pages s ps) = card (free_pages s' ps') + 1"
proof -
  let ?A = "entry_addr pm1_base (index1 va)"
  let ?E = "entry_addr pm1_base (index1 ?A)"
  note tree = mm_ok_tree [OF ok]
  have parts: "ix4 ?A = 510" "ix3 ?A = ix4 va" "ix2 ?A = ix3 va" "ix1 ?A = ix2 va"
    using path_pm1 [of va] by (simp_all add: path_def)
  have win: "window_of [ix4 va, ix3 va] (ix2 va) ?E (PAGE_ALIGN_DOWN ?A)"
    unfolding window_of_def
  proof (intro conjI allI impI)
    show "slot ?E = ix2 va" using slot_pm1 [of ?A] parts by simp
    fix r root assume rr: "recursive_root r root"
    show "walk r root ?E = node r root [ix4 va, ix3 va]"
      using rr by (simp add: walk_window upper_def parts del: node.simps(2))
    show "walk r root (PAGE_ALIGN_DOWN ?A) = node r root ([ix4 va, ix3 va] @ [ix2 va])"
      using rr by (simp add: walk_def path_pm1 del: node.simps(2))
  qed simp
  have ld: "load s ?E = Inr (ram s g (ix2 va))"
    using win tree g by (auto simp: window_of_def intro!: load_mapped [THEN trans])
  obtain p s1 qs where step: "alloc_step s ps p s1 qs" and run:
    "vmm_page_fault_handler_via (store 1) ?A PAGE_FAULT_WRITE s =
       and_then (write_table (store 1) ?E (fault_entry (PAGE_ALIGN_DOWN ?A) p) (PAGE_ALIGN_DOWN ?A) s1) (\<lambda>s. Inr (1, s))"
    using fault_handled [OF ok free direct_store ld] pm1_entry_range by blast
  have p: "is_frame p" using step by (simp add: alloc_step_def)
  have us: "length [ix4 va, ix3 va] \<le> 2" "table_path ([ix4 va, ix3 va] @ [ix2 va])"
    using table_path_tables [OF va] by simp_all
  obtain s' where s': "write_table (store 1) ?E (fault_entry (PAGE_ALIGN_DOWN ?A) p) (PAGE_ALIGN_DOWN ?A) s1 = Inr s'"
    "grown s ps s' qs" "node (ram s') (cr3 s') ([ix4 va, ix3 va] @ [ix2 va]) = Some p"
    "card (free_pages s ps) = card (free_pages s' qs) + 1"
    using write_table_step [OF ok us win g absent step fault_entry(1,2) [OF p] direct_store] by blast
  have g': "node (ram s') (cr3 s') (upper va) = Some p" using s'(3) by (simp add: upper_def)
  have "walk (ram s) (cr3 s) ?A = None"
    using tree g absent by (simp add: walk_window upper_def split: if_splits)
  then have "put ?A v s = store 1 ?A v s'"
    using run s'(1) by (simp add: put_def numeral_2_eq_2 store.simps [of "Suc (Suc 0)"] One_nat_def)
  also have "walk (ram s') (cr3 s') ?A = Some p"
    using grown_ok [OF s'(2), THEN mm_ok_tree] g' by (simp add: walk_window)
  then have "store 1 ?A v s' = put ?A v s'"
    by (simp add: directD [OF direct_store] directD [OF direct_put])
  finally show ?thesis using that s'(2,4) g' by blast
qed

section \<open>Writing data\<close>

lemma mm_ok_data:
  assumes ok: "mm_ok s ps" and f: "f \<notin> table_frames (ram s) (cr3 s)" "f \<notin> set ps"
    and s': "s' = s\<lparr>ram := (ram s)(f := w)\<rparr>"
  shows "mm_ok s' ps" and "table_frames (ram s') (cr3 s') = table_frames (ram s) (cr3 s)"
    and "ix4 va \<noteq> 510 \<Longrightarrow> walk (ram s') (cr3 s') va = walk (ram s) (cr3 s) va"
proof -
  note pd = put_data [OF mm_ok_tree [OF ok] f(1), where w = w]
  show wk: "walk (ram s') (cr3 s') va = walk (ram s) (cr3 s) va" if "ix4 va \<noteq> 510" for va
    using pd(3) that by (simp add: s')
  show tf: "table_frames (ram s') (cr3 s') = table_frames (ram s) (cr3 s)" using pd(2) by (simp add: s')
  have "free_stack s' ps"
  proof (rule free_stack_cong [of s])
    show "free_stack s ps" using ok by (simp add: mm_ok_def)
    show "walk (ram s') (cr3 s') (stack_addr k) = walk (ram s) (cr3 s) (stack_addr k)" if "k < 2 ^ 36" for k
      by (rule wk) (simp add: ix4_stack [OF that])
    show "ram s' p = ram s p" if "p \<in> set ps" for p using that f(2) by (auto simp: s')
  qed (simp add: s')
  moreover have "in_use s' = in_use s"
    using tf wk unfolding in_use_def outside_def by (simp cong: conj_cong)
  then have "frames_ok s' ps"
    using ok by (simp add: s' mm_ok_def frames_ok_def regions_ok_def free_pages_def region_pages_def)
  ultimately show "mm_ok s' ps" using pd(1) by (simp add: mm_ok_def s')
qed

lemma mm_ok_write_word:
  "mm_ok s ps \<Longrightarrow> f \<notin> table_frames (ram s) (cr3 s) \<Longrightarrow> f \<notin> set ps \<Longrightarrow> mm_ok (write_word f i v s) ps"
  "mm_ok s ps \<Longrightarrow> f \<notin> table_frames (ram s) (cr3 s) \<Longrightarrow> f \<notin> set ps \<Longrightarrow> ix4 va \<noteq> 510 \<Longrightarrow>
   walk (ram (write_word f i v s)) (cr3 s) va = walk (ram s) (cr3 s) va"
  "mm_ok s ps \<Longrightarrow> f \<notin> table_frames (ram s) (cr3 s) \<Longrightarrow> f \<notin> set ps \<Longrightarrow>
   table_frames (ram (write_word f i v s)) (cr3 s) = table_frames (ram s) (cr3 s)"
  using mm_ok_data [of s ps f "write_word f i v s" "(ram s f)(i := v)"]
  by (simp_all add: write_word_def)

lemma mm_ok_zero_frame:
  "mm_ok s ps \<Longrightarrow> f \<notin> table_frames (ram s) (cr3 s) \<Longrightarrow> f \<notin> set ps \<Longrightarrow> mm_ok (zero_frame f s) ps"
  "mm_ok s ps \<Longrightarrow> f \<notin> table_frames (ram s) (cr3 s) \<Longrightarrow> f \<notin> set ps \<Longrightarrow> ix4 va \<noteq> 510 \<Longrightarrow>
   walk (ram (zero_frame f s)) (cr3 s) va = walk (ram s) (cr3 s) va"
  using mm_ok_data [of s ps f "zero_frame f s" "\<lambda>_. 0"]
  by (simp_all add: zero_frame_def)

lemma mm_ok_invalidate [simp]: "mm_ok (vmm_invalidate va s) ps = mm_ok s ps"
  by (simp add: mm_ok_def free_stack_def frames_ok_def regions_ok_def region_pages_def free_pages_def in_use_def vmm_invalidate_def)

lemma free_pages_fields [simp]:
  "free_pages (vmm_invalidate va s) ps = free_pages s ps"
  "free_pages (write_word f i v s) ps = free_pages s ps"
  "free_pages (zero_frame f s) ps = free_pages s ps"
  by (simp_all add: free_pages_def region_pages_def vmm_invalidate_def write_word_def zero_frame_def)

lemma in_use_not_free: "mm_ok s ps \<Longrightarrow> f \<in> in_use s \<Longrightarrow> f \<notin> free_pages s ps"
  by (auto simp: mm_ok_def frames_ok_def)

lemma alloc_step_node:
  assumes "alloc_step s ps p s1 qs" and "table_path js"
  shows "node (ram s1) (cr3 s1) js = node (ram s) (cr3 s) js"
  using assms by (simp add: alloc_step_def same_space_def)

text \<open>Demand paging: the first write to a page that \<open>vmm_alloc\<close> reserved.\<close>

lemma demand_page_tables:
  assumes ok: "mm_ok s ps" and free: "free_pages s ps \<noteq> {}" and va: "outside va"
    and e: "page_entry s va = Some e" "\<not> present e" "e AND PAGE_ALLOCATED \<noteq> 0"
  shows "\<exists>p s' ps'. put va v s = Inr s' \<and> mm_ok s' ps' \<and> p \<in> free_pages s ps \<and>
           free_pages s' ps' = free_pages s ps - {p} \<and>
           walk (ram s') (cr3 s') va = Some p \<and> ram s' p = (\<lambda>_. 0)(slot va := v) \<and>
           (\<forall>vb. outside vb \<longrightarrow> path vb \<noteq> path va \<longrightarrow>
              walk (ram s') (cr3 s') vb = walk (ram s) (cr3 s) vb) \<and>
           (\<forall>f. f \<notin> table_frames (ram s) (cr3 s) \<union> free_pages s ps \<longrightarrow> ram s' f = ram s f) \<and>
           table_frames (ram s') (cr3 s') = table_frames (ram s) (cr3 s)"
proof -
  let ?E = "entry_addr pm1_base (index1 va)" and ?A = "PAGE_ALIGN_DOWN va"
  have v510: "ix4 va \<noteq> 510" using va by (simp add: outside_def)
  obtain g where g: "node (ram s) (cr3 s) (upper va) = Some g" and eg: "e = ram s g (ix1 va)"
    using e(1) by (auto simp: page_entry_def)
  have none: "walk (ram s) (cr3 s) va = None" using e(1,2) by (simp add: walk_page_entry)
  have ld: "load s ?E = Inr e" using load_window [OF _ g] mm_ok_tree [OF ok] eg by simp
  obtain p s1 qs where step: "alloc_step s ps p s1 qs" and run:
    "vmm_page_fault_handler_via (store 1) va PAGE_FAULT_WRITE s =
       and_then (write_table (store 1) ?E (fault_entry ?A p) ?A s1) (\<lambda>s. Inr (1, s))"
    using fault_handled [OF ok free direct_store ld] e(3) by blast
  note st = step [unfolded alloc_step_def]
  have p: "is_frame p" "p \<in> free_pages s ps" and ok1: "mm_ok s1 qs" and ss: "same_space s s1"
    and root: "cr3 s1 = cr3 s" using st only_mm_fields by auto
  let ?v = "fault_entry ?A p"
  have v: "present ?v" "frame_of ?v = p" using p fault_entry by blast+
  have g1: "node (ram s1) (cr3 s1) (upper va) = Some g"
    using alloc_step_node [OF step table_path_upper [OF v510]] g by simp
  have tf1: "table_frames (ram s1) (cr3 s1) = table_frames (ram s) (cr3 s)"
    using same_space_tables [OF ss root] .
  note wl = write_leaf [OF mm_ok_tree [OF ok1] v510 g1]
  define s2 where "s2 = vmm_invalidate ?A (write_word g (ix1 va) ?v s1)"
  have pq: "p \<notin> free_pages s1 qs" using st by simp
  have ok2: "mm_ok s2 qs" using mm_ok_leaf [OF ok1 va g1, of ?v] v pq by (simp add: s2_def)
  have w2: "walk (ram s2) (cr3 s2) va = Some p" using wl(5) [of va ?v] v by (simp add: s2_def)
  have tf2: "table_frames (ram s2) (cr3 s2) = table_frames (ram s) (cr3 s)"
    using wl(2) tf1 by (simp add: s2_def)
  have pt: "p \<notin> table_frames (ram s2) (cr3 s2)" using tf2 free_not_table [OF ok p(2)] by simp
  have pqs: "p \<notin> set qs" using pq by (simp add: free_pages_def)
  have w2A: "walk (ram s2) (cr3 s2) ?A = Some p" using w2 walk_path [OF path_align_down] by metis
  define s3 where "s3 = write_word p 0 0 s2"
  have ok3: "mm_ok s3 qs" using mm_ok_write_word(1) [OF ok2 pt pqs] by (simp add: s3_def)
  have w3: "walk (ram s3) (cr3 s3) vb = walk (ram s2) (cr3 s2) vb" if "ix4 vb \<noteq> 510" for vb
    using mm_ok_write_word(2) [OF ok2 pt pqs that] by (simp add: s3_def)
  have w3A: "walk (ram s3) (cr3 s3) ?A = Some p"
    using w3 [OF v510] w2 walk_path [OF path_align_down, of _ _ va] by simp
  define s4 where "s4 = zero_frame p s3"
  have pt3: "p \<notin> table_frames (ram s3) (cr3 s3)"
    using mm_ok_write_word(3) [OF ok2 pt pqs] pt by (simp add: s3_def)
  have ok4: "mm_ok s4 qs" using mm_ok_zero_frame(1) [OF ok3 pt3 pqs] by (simp add: s4_def)
  have w4: "walk (ram s4) (cr3 s4) vb = walk (ram s2) (cr3 s2) vb" if "ix4 vb \<noteq> 510" for vb
    using mm_ok_zero_frame(2) [OF ok3 pt3 pqs that] w3 [OF that] by (simp add: s4_def)
  have tf4: "table_frames (ram s4) (cr3 s4) = table_frames (ram s) (cr3 s)"
    using mm_ok_data(2) [OF ok3 pt3 pqs, of s4 "\<lambda>_. 0"] mm_ok_write_word(3) [OF ok2 pt pqs] tf2
    by (simp add: s4_def s3_def zero_frame_def)
  define s5 where "s5 = write_word p (slot va) v s4"
  have pt4: "p \<notin> table_frames (ram s4) (cr3 s4)" using tf4 tf2 pt by simp
  have ok5: "mm_ok s5 qs" using mm_ok_write_word(1) [OF ok4 pt4 pqs] by (simp add: s5_def)
  have w5: "walk (ram s5) (cr3 s5) vb = walk (ram s2) (cr3 s2) vb" if "ix4 vb \<noteq> 510" for vb
    using mm_ok_write_word(2) [OF ok4 pt4 pqs that] w4 [OF that] by (simp add: s5_def)
  have handler: "vmm_page_fault_handler_via (store 1) va PAGE_FAULT_WRITE s = Inr (1, s4)"
  proof -
    have at: "walk (ram s1) (cr3 s1) ?E = Some g"
      using g1 mm_ok_tree [OF ok1] by (simp add: walk_window)
    then show ?thesis
      using run directD [OF direct_store at] directD [OF direct_store w2A] w3A
      by (simp add: write_table_def zero_page_via_def slot_pm1 s2_def s3_def s4_def)
  qed
  have "put va v s = Inr s5"
    using none handler directD [OF direct_store, of s4 va p 1 v] w4 [OF v510] w2
    by (simp add: put_def numeral_2_eq_2 store.simps [of "Suc (Suc 0)"] s5_def)
  moreover have "free_pages s5 qs = free_pages s ps - {p}"
    using st by (simp add: s5_def s4_def s3_def s2_def)
  moreover have "walk (ram s5) (cr3 s5) va = Some p" using w5 [OF v510] w2 by simp
  moreover have "ram s5 p = (\<lambda>_. 0)(slot va := v)"
    by (simp add: s5_def s4_def s3_def put_entry_def)
  moreover have "walk (ram s5) (cr3 s5) vb = walk (ram s) (cr3 s) vb" if "outside vb" "path vb \<noteq> path va" for vb
  proof -
    have "walk (ram s2) (cr3 s2) vb = walk (ram s1) (cr3 s1) vb"
      using wl(4) [of vb ?v] that by (simp add: s2_def outside_def)
    then show ?thesis using w5 that(1) same_space_walk [OF ss that(1)] by (simp add: outside_def)
  qed
  moreover have "ram s5 f = ram s f" if f: "f \<notin> table_frames (ram s) (cr3 s) \<union> free_pages s ps" for f
  proof -
    have "f \<noteq> p" "f \<noteq> g" using f p(2) table_frame_upper [OF v510 g] by auto
    then show ?thesis using ss f by (auto simp: same_space_def s5_def s4_def s3_def s2_def put_entry_def)
  qed
  moreover have "table_frames (ram s5) (cr3 s5) = table_frames (ram s) (cr3 s)"
    using mm_ok_write_word(3) [OF ok4 pt4 pqs] tf4 by (simp add: s5_def)
  ultimately show ?thesis using ok5 p(2) by blast
qed

lemma demand_page:
  assumes ok: "mm_ok s ps" and free: "free_pages s ps \<noteq> {}" and va: "outside va"
    and e: "page_entry s va = Some e" "\<not> present e" "e AND PAGE_ALLOCATED \<noteq> 0"
  shows "\<exists>p s' ps'. put va v s = Inr s' \<and> mm_ok s' ps' \<and> p \<in> free_pages s ps \<and>
           free_pages s' ps' = free_pages s ps - {p} \<and>
           walk (ram s') (cr3 s') va = Some p \<and> ram s' p = (\<lambda>_. 0)(slot va := v) \<and>
           (\<forall>vb. outside vb \<longrightarrow> path vb \<noteq> path va \<longrightarrow>
              walk (ram s') (cr3 s') vb = walk (ram s) (cr3 s) vb) \<and>
           (\<forall>f. f \<notin> table_frames (ram s) (cr3 s) \<union> free_pages s ps \<longrightarrow> ram s' f = ram s f)"
  using demand_page_tables [OF assms] by blast

section \<open>Mapping and unmapping a page\<close>

lemma walk_none_leaf:
  "node r root (upper va) = Some g \<Longrightarrow> walk r root va = None \<longleftrightarrow> \<not> present (r g (ix1 va))"
  by (simp add: walk_upper)

lemma map_page_step:
  assumes ok: "mm_ok s ps" and free: "3 \<le> card (free_pages s ps)" and va: "outside va"
    and none: "walk (ram s) (cr3 s) va = None" and pa: "frame_of pa \<notin> free_pages s ps"
  shows "\<exists>s' ps'. vmm_map_page pa va s = Inr (0, s') \<and> mm_ok s' ps' \<and>
           walk (ram s') (cr3 s') va = Some (frame_of pa) \<and>
           (\<forall>vb. outside vb \<longrightarrow> path vb \<noteq> path va \<longrightarrow>
              walk (ram s') (cr3 s') vb = walk (ram s) (cr3 s) vb) \<and>
           (\<forall>f. f \<notin> table_frames (ram s) (cr3 s) \<union> free_pages s ps \<longrightarrow> ram s' f = ram s f) \<and>
           free_pages s' ps' \<subseteq> free_pages s ps \<and> card (free_pages s ps) \<le> card (free_pages s' ps') + 3"
proof -
  have v510: "ix4 va \<noteq> 510" using va by (simp add: outside_def)
  obtain t qs g where t: "vmm_map_tables va s = Inr t" "grown s ps t qs"
    "node (ram t) (cr3 t) (upper va) = Some g" "card (free_pages s ps) \<le> card (free_pages t qs) + 3"
    using map_tables [OF ok free v510] by blast
  note gr = grownD [OF t(2)]
  let ?v = "pa OR PAGE_WRITE OR PAGE_PRESENT"
  let ?u = "vmm_invalidate va (write_word g (ix1 va) ?v t)"
  have "\<not> present (ram t g (ix1 va))"
    using walk_none_leaf [OF t(3)] gr(7) [OF va] none by simp
  then have run: "vmm_map_page pa va s = Inr (0, ?u)"
    using map_page_leaf [OF t(1) _ t(3)] mm_ok_tree [OF gr(2)] by simp
  note wl = write_leaf [OF mm_ok_tree [OF gr(2)] v510 t(3)]
  have "mm_ok ?u qs"
    using mm_ok_leaf [OF gr(2) va t(3), of ?v] pa gr(4) by (auto simp: entry_flags)
  moreover have "walk (ram ?u) (cr3 ?u) va = Some (frame_of pa)"
    using wl(5) [of va ?v] by (simp add: entry_flags)
  moreover have "walk (ram ?u) (cr3 ?u) vb = walk (ram s) (cr3 s) vb" if "outside vb" "path vb \<noteq> path va" for vb
    using wl(4) [of vb ?v] gr(7) that by (simp add: outside_def)
  moreover have "ram ?u f = ram s f" if "f \<notin> table_frames (ram s) (cr3 s) \<union> free_pages s ps" for f
    using that gr(5,8) wl(6) [of f ?v] by auto
  ultimately show ?thesis using run t(4) gr(4) by auto
qed

lemma map_page_twice:
  assumes "table_tree (ram s) (cr3 s)" and "walk (ram s) (cr3 s) va = Some f"
  shows "vmm_map_page pa va s = Inl (Fatal ''vmm_map_page() - there is already something there!'')"
proof -
  obtain g where g: "node (ram s) (cr3 s) (upper va) = Some g" "present (ram s g (ix1 va))"
    using assms(2) by (auto simp: walk_upper bind_eq_Some_conv split: if_splits)
  show ?thesis
    using map_page_leaf [OF map_tables_present [OF _ g(1)] _ g(1)] g(2) assms(1) by simp
qed

lemma write_entry_step:
  assumes ok: "mm_ok s ps" and va: "outside va" and e: "page_entry s va \<noteq> None"
    and v: "\<not> present v"
  shows "\<exists>s'. put (entry_addr pm1_base (index1 va)) v s = Inr s' \<and> mm_ok s' ps \<and> only_mm s s' \<and>
           page_entry s' va = Some v \<and> walk (ram s') (cr3 s') va = None \<and> free_pages s' ps = free_pages s ps \<and>
           (\<forall>js. table_path js \<longrightarrow> node (ram s') (cr3 s') js = node (ram s) (cr3 s) js) \<and>
           (\<forall>vb. ix4 vb \<noteq> 510 \<longrightarrow> path vb \<noteq> path va \<longrightarrow>
              walk (ram s') (cr3 s') vb = walk (ram s) (cr3 s) vb \<and> page_entry s' vb = page_entry s vb) \<and>
           (\<forall>f. f \<notin> table_frames (ram s) (cr3 s) \<longrightarrow> ram s' f = ram s f)"
proof -
  have v510: "ix4 va \<noteq> 510" using va by (simp add: outside_def)
  obtain g where g: "node (ram s) (cr3 s) (upper va) = Some g" using e by (auto simp: page_entry_def)
  let ?t = "write_word g (ix1 va) v s"
  note wl = write_leaf [OF mm_ok_tree [OF ok] v510 g]
  have run: "put (entry_addr pm1_base (index1 va)) v s = Inr ?t"
    using put_window [OF _ g] mm_ok_tree [OF ok] by simp
  have pe: "page_entry ?t va = Some v"
    using wl(3) [OF table_path_upper [OF v510], of v] g by (simp add: page_entry_def put_entry_at)
  have other: "page_entry ?t vb = page_entry s vb" if "ix4 vb \<noteq> 510" "path vb \<noteq> path va" for vb
    by (rule write_leaf_entry [OF mm_ok_tree [OF ok] v510 g that]) simp_all
  show ?thesis
  proof (intro exI conjI allI impI)
    show "put (entry_addr pm1_base (index1 va)) v s = Inr ?t" by (rule run)
    show "mm_ok ?t ps" using mm_ok_leaf [OF ok va g, of v] v by simp
  qed (use wl(3,4,6) wl(5) [of va v] pe other v in \<open>auto\<close>)
qed

lemma unmap_page_step:
  assumes "mm_ok s ps" and "outside va" and "page_entry s va \<noteq> None"
  shows "\<exists>s'. vmm_unmap_page va s = Inr s' \<and> mm_ok s' ps \<and> only_mm s s' \<and>
           page_entry s' va = Some 0 \<and> walk (ram s') (cr3 s') va = None \<and> free_pages s' ps = free_pages s ps \<and>
           (\<forall>js. table_path js \<longrightarrow> node (ram s') (cr3 s') js = node (ram s) (cr3 s) js) \<and>
           (\<forall>vb. ix4 vb \<noteq> 510 \<longrightarrow> path vb \<noteq> path va \<longrightarrow>
              walk (ram s') (cr3 s') vb = walk (ram s) (cr3 s) vb \<and> page_entry s' vb = page_entry s vb) \<and>
           (\<forall>f. f \<notin> table_frames (ram s) (cr3 s) \<longrightarrow> ram s' f = ram s f)"
  using write_entry_step [OF assms not_present_allocated(2)]
  by (simp add: vmm_unmap_page_def vmm_unmap_page_via_def)

section \<open>Freeing a page\<close>

lemma small_index: "of_nat (j mod 512) = (of_nat (k mod 512) :: u64) \<Longrightarrow> j mod 512 = k mod 512"
proof -
  have t: "take_bit 64 (i mod 512) = i mod 512" for i :: nat
    by (rule take_bit_nat_eq_self) (simp add: less_trans [OF mod_less_divisor])
  show "of_nat (j mod 512) = (of_nat (k mod 512) :: u64) \<Longrightarrow> j mod 512 = k mod 512"
    unfolding word_of_nat_eq_iff using t by simp
qed

lemma push_entry:
  assumes ok: "mm_ok s ps" and n: "Suc (length ps) < 2 ^ 36"
    and fr: "is_frame page" "page \<notin> free_pages s ps" "page \<notin> in_use s"
    and mapped: "walk (ram t) (cr3 t) (stack_addr (length ps)) = Some ((ps @ [page]) ! (length ps div 512 * 512))"
    and t: "table_tree (ram t) (cr3 t)" "table_frames (ram t) (cr3 t) = table_frames (ram s) (cr3 s)"
      "cr3 t = cr3 s" "pmm_stack_top t = pmm_stack_top s"
      "s_free_memory t = s_free_memory s" "s_free_memory_count t = s_free_memory_count s"
      "s_free_memory_current t = s_free_memory_current s"
    and same: "\<And>vb. ix4 vb \<noteq> 510 \<Longrightarrow> path vb \<noteq> path (stack_addr (length ps)) \<or> length ps mod 512 \<noteq> 0 \<Longrightarrow>
       walk (ram t) (cr3 t) vb = walk (ram s) (cr3 s) vb"
    and data: "\<And>f. f \<notin> table_frames (ram s) (cr3 s) \<Longrightarrow> ram t f = ram s f"
  shows "\<exists>s'. and_then (put (pmm_stack_top t) page t)
       (\<lambda>u. Inr (u\<lparr>pmm_stack_top := pmm_stack_top u + 8, pmm_free_memory := pmm_free_memory u + PAGE_SIZE\<rparr>)) = Inr s' \<and>
     mm_ok s' (ps @ [page]) \<and> free_pages s' (ps @ [page]) = insert page (free_pages s ps) \<and>
     table_frames (ram s') (cr3 s') = table_frames (ram s) (cr3 s)"
proof -
  let ?n = "length ps" and ?qs = "ps @ [page]"
  let ?B = "?qs ! (?n div 512 * 512)"
  let ?u = "write_word ?B (of_nat (?n mod 512)) page t"
  let ?w = "?u\<lparr>pmm_stack_top := pmm_stack_top ?u + 8, pmm_free_memory := pmm_free_memory ?u + PAGE_SIZE\<rparr>"
  have n36: "?n < 2 ^ 36" using n by simp
  have fs: "free_stack s ps" using ok by (simp add: mm_ok_def)
  have top: "pmm_stack_top t = stack_addr ?n" using fs t(4) by (simp add: free_stack_def)
  have run: "put (pmm_stack_top t) page t = Inr ?u"
    using put_mapped [OF mapped] top slot_stack [OF n36] by simp
  have blk: "k div 512 * 512 \<le> ?n" if "k \<le> ?n" for k :: nat
    using that by (metis div_times_less_eq_dividend le_trans)
  have Bset: "?B \<in> set ?qs" using blk [of ?n] by (intro nth_mem) (simp add: less_Suc_eq_le)
  have notab: "q \<notin> table_frames (ram s) (cr3 s)" if "q \<in> set ?qs" for q
    using that fr(3) free_not_table [OF ok, of q] by (auto simp: free_pages_def in_use_def)
  have B: "?B \<notin> table_frames (ram t) (cr3 t)" using notab [OF Bset] t(2) by simp
  have pd: "table_tree (ram ?u) (cr3 ?u)" "table_frames (ram ?u) (cr3 ?u) = table_frames (ram t) (cr3 t)"
    "ix4 va \<noteq> 510 \<Longrightarrow> walk (ram ?u) (cr3 ?u) va = walk (ram t) (cr3 t) va" for va
    using put_data [OF t(1) B] by (simp_all add: put_entry_def)
  have s510: "ix4 (stack_addr k) \<noteq> 510" if "k < 2 ^ 36" for k using ix4_stack [OF that] by simp
  have dist: "distinct ?qs" using ok fr(2) by (auto simp: mm_ok_def frames_ok_def free_pages_def)
  have samew: "walk (ram ?u) (cr3 ?u) (stack_addr k) = walk (ram s) (cr3 s) (stack_addr k)"
    if "k < 2 ^ 36" "k div 512 \<noteq> ?n div 512 \<or> ?n mod 512 \<noteq> 0" for k
    using pd(3) [OF s510] same [OF s510] that path_stack_eq [of k ?n] n36 by auto
  have "free_stack ?w ?qs"
    unfolding free_stack_def
  proof (intro conjI allI impI)
    show "pmm_stack_top ?w = stack_addr (length ?qs)" using top by (simp add: write_word_def stack_addr_Suc)
    show "length ?qs < 2 ^ 36" using n by simp
  next
    fix k assume "k < length ?qs"
    then have k: "k \<le> ?n" "k < 2 ^ 36" using n36 by simp_all
    let ?b = "k div 512 * 512"
    show "walk (ram ?w) (cr3 ?w) (stack_addr k) = Some (?qs ! ?b)"
    proof (cases "k div 512 = ?n div 512")
      case True
      then show ?thesis
        using pd(3) [OF s510 [OF k(2)]] walk_path [OF path_stack_eq [THEN iffD2, OF k(2) n36 True]] mapped by simp
    next
      case False
      then have "k < ?n" using k(1) by (cases "k = ?n") auto
      moreover from this have "?b < ?n" by (metis le_less_trans div_times_less_eq_dividend)
      ultimately show ?thesis
        using samew [OF k(2)] False fs by (simp add: free_stack_def nth_append)
    qed
    have bset: "?qs ! ?b \<in> set ?qs" using blk [OF k(1)] by (intro nth_mem) (simp add: less_Suc_eq_le)
    show "ram ?w (?qs ! ?b) (of_nat (k mod 512)) = ?qs ! k"
    proof (cases "k = ?n")
      case False
      then have lt: "k < ?n" using k by simp
      then have bn: "?b < ?n" by (metis le_less_trans div_times_less_eq_dividend)
      have old: "ram s (?qs ! ?b) (of_nat (k mod 512)) = ?qs ! k"
        using fs lt bn by (simp add: free_stack_def nth_append)
      have "\<not> (?qs ! ?b = ?B \<and> of_nat (k mod 512) = (of_nat (?n mod 512) :: u64))"
      proof
        assume a: "?qs ! ?b = ?B \<and> of_nat (k mod 512) = (of_nat (?n mod 512) :: u64)"
        then have "?b = ?n div 512 * 512"
          using dist blk [of ?n] bn nth_eq_iff_index_eq [OF dist, of ?b "?n div 512 * 512"] by simp
        moreover have "k mod 512 = ?n mod 512"
          using a small_index by blast
        ultimately show False using False by (metis div_mult_mod_eq)
      qed
      then show ?thesis using old data [OF notab [OF bset]] by (auto simp: put_entry_at)
    qed (simp add: put_entry_at)
  next
    fix k :: nat assume k: "k < 2 ^ 36" "length ?qs \<le> k div 512 * 512"
    then have "k div 512 \<noteq> ?n div 512" by (metis One_nat_def Suc_n_not_le_n add.right_neutral add_Suc_right blk le_trans length_append_singleton order_refl)
    then show "walk (ram ?w) (cr3 ?w) (stack_addr k) = None"
      using samew [OF k(1)] fs k by (simp add: free_stack_def)
  qed
  moreover have rp: "region_pages ?w = region_pages s" "regions_ok ?w = regions_ok s"
    using t by (simp_all add: region_pages_def regions_ok_def write_word_def)
  have "frames_ok ?w ?qs"
  proof -
    have "walk (ram ?w) (cr3 ?w) va = walk (ram s) (cr3 s) va" if "outside va" for va
    proof -
      have "path va \<noteq> path (stack_addr ?n)"
        using that ix4_stack [OF n36] by (auto simp: outside_def path_def)
      then show ?thesis using that pd(3) same by (simp add: outside_def)
    qed
    then have "in_use ?w = in_use s" using pd(2) t(2) by (simp add: in_use_def cong: conj_cong)
    then show ?thesis
      using ok fr dist rp by (auto simp: mm_ok_def frames_ok_def free_pages_def)
  qed
  ultimately have "mm_ok ?w ?qs" using pd(1) by (simp add: mm_ok_def)
  moreover have "free_pages ?w ?qs = insert page (free_pages s ps)" using rp(1) by (auto simp: free_pages_def)
  moreover have "table_frames (ram ?w) (cr3 ?w) = table_frames (ram s) (cr3 s)" using pd(2) t(2) by simp
  ultimately show ?thesis using run by simp
qed

lemma free_page_room:
  assumes "mm_ok s ps" and "is_frame page" and "page \<notin> free_pages s ps" and "page \<notin> in_use s"
    and "grown s ps t qs"
  shows "page \<notin> free_pages t qs" "page \<notin> in_use t"
proof -
  note gr = grownD [OF assms(5)]
  show "page \<notin> free_pages t qs" using gr(4) assms(3) by blast
  show "page \<notin> in_use t"
    using gr(5,7) assms(3,4) unfolding in_use_def by auto
qed

text \<open>
  \<open>pmm_free_page\<close> pushes a page on the stack, when the next entry lies in the current page
  of the stack, or the table for the next page exists, or there is none on the stack
  (then the tables come from the regions). In the remaining case, a stack of more than
  2 ^ 18 pages whose next table is missing, the function takes the page for the table from
  the very stack it is about to push to.
\<close>

definition stack_ready :: "'a mm_scheme \<Rightarrow> u64 list \<Rightarrow> bool" where
  "stack_ready s ps \<longleftrightarrow> length ps mod 512 \<noteq> 0 \<or> page_entry s (stack_addr (length ps)) \<noteq> None \<or>
     (ps = [] \<and> 3 \<le> card (region_pages s))"

lemma free_page_step:
  assumes ok: "mm_ok s ps" and n: "Suc (length ps) < 2 ^ 36"
    and fr: "is_frame page" "page \<notin> free_pages s ps" "page \<notin> in_use s" and ready: "stack_ready s ps"
  shows "\<exists>s'. pmm_free_page page s = Inr s' \<and> mm_ok s' (ps @ [page]) \<and>
    free_pages s' (ps @ [page]) \<subseteq> insert page (free_pages s ps) \<and>
    free_pages s ps \<subseteq> free_pages s' (ps @ [page]) \<union> table_frames (ram s') (cr3 s') \<and>
    (length ps mod 512 \<noteq> 0 \<or> page_entry s (stack_addr (length ps)) \<noteq> None \<longrightarrow>
       free_pages s' (ps @ [page]) = insert page (free_pages s ps))"
proof -
  let ?n = "length ps" and ?a = "stack_addr (length ps)"
  have n36: "?n < 2 ^ 36" using n by simp
  have fs: "free_stack s ps" using ok by (simp add: mm_ok_def)
  have top: "pmm_stack_top s = ?a" using fs by (simp add: free_stack_def)
  have a510: "ix4 ?a \<noteq> 510" using ix4_stack [OF n36] by simp
  show ?thesis
  proof (cases "?n mod 512 = 0")
    case False
    then have "?n \<noteq> 0" by auto
    then obtain m where m: "?n = Suc m" by (cases "length ps") auto
    have eq: "m div 512 = ?n div 512" using m False by (simp add: div_Suc mod_Suc split: if_splits)
    have "path ?a = path (stack_addr m)" using path_stack_eq [of ?n m] n36 m eq by simp
    moreover have lt: "m div 512 * 512 < ?n" using m by (metis div_times_less_eq_dividend le_imp_less_Suc)
    moreover have "walk (ram s) (cr3 s) (stack_addr m) = Some (ps ! (m div 512 * 512))"
      using fs m by (simp add: free_stack_def)
    ultimately have "walk (ram s) (cr3 s) ?a = Some ((ps @ [page]) ! (?n div 512 * 512))"
      using walk_path [of ?a "stack_addr m"] eq by (simp add: nth_append)
    from push_entry [OF ok n fr this mm_ok_tree [OF ok]] obtain s' where
      "pmm_free_page page s = Inr s'" "mm_ok s' (ps @ [page])" "free_pages s' (ps @ [page]) = insert page (free_pages s ps)"
      using stack_addr_aligned [OF n36] top False by (auto simp: pmm_free_page_def)
    then show ?thesis by blast
  next
    case True
    have blk: "?n div 512 * 512 = ?n" using True div_mult_mod_eq [of ?n 512] by simp
    obtain t g where t: "vmm_map_tables ?a s = Inr t" "grown s ps t ps"
      "node (ram t) (cr3 t) (upper ?a) = Some g" "page_entry s ?a \<noteq> None \<longrightarrow> t = s"
    proof (cases "page_entry s ?a")
      case (Some e)
      then obtain g where g: "node (ram s) (cr3 s) (upper ?a) = Some g" by (auto simp: page_entry_def)
      have "vmm_map_tables ?a s = Inr s"
        by (rule map_tables_present [OF recursive_tree [OF mm_ok_tree [OF ok]] g])
      then show ?thesis using that [OF _ grown_refl [OF ok] g] by simp
    next
      case None
      then have e: "ps = []" "3 \<le> card (free_pages s ps)"
        using ready True by (auto simp: stack_ready_def free_pages_def)
      obtain t qs g where t: "vmm_map_tables ?a s = Inr t" "grown s ps t qs"
          "node (ram t) (cr3 t) (upper ?a) = Some g"
        using map_tables [OF ok e(2) a510] by metis
      moreover have "qs = ps" using grownD(3) [OF t(2)] e(1) by simp
      ultimately show ?thesis using that None by simp
    qed
    note okt = grownD(2) [OF t(2)]
    have fst: "free_stack t ps" using okt by (simp add: mm_ok_def)
    have topt: "pmm_stack_top t = ?a" using fst by (simp add: free_stack_def)
    have "walk (ram t) (cr3 t) ?a = None" using fst n36 blk by (simp add: free_stack_def)
    then have "\<not> present (ram t g (ix1 ?a))" using walk_none_leaf [OF t(3)] by simp
    then have run: "vmm_map_page page ?a s =
        Inr (0, vmm_invalidate ?a (write_word g (ix1 ?a) (page OR PAGE_WRITE OR PAGE_PRESENT) t))"
      using map_page_leaf [OF t(1) _ t(3)] mm_ok_tree [OF okt] by simp
    let ?v = "page OR PAGE_WRITE OR PAGE_PRESENT"
    let ?w = "vmm_invalidate ?a (write_word g (ix1 ?a) ?v t)"
    note wl = write_leaf [OF mm_ok_tree [OF okt] a510 t(3)]
    have fp: "frame_of page = page" using fr(1) by (simp add: is_frame_def)
    have "\<exists>s'. and_then (put (pmm_stack_top ?w) page ?w)
         (\<lambda>u. Inr (u\<lparr>pmm_stack_top := pmm_stack_top u + 8, pmm_free_memory := pmm_free_memory u + PAGE_SIZE\<rparr>)) = Inr s' \<and>
       mm_ok s' (ps @ [page]) \<and> free_pages s' (ps @ [page]) = insert page (free_pages t ps) \<and>
       table_frames (ram s') (cr3 s') = table_frames (ram t) (cr3 t)"
    proof (rule push_entry [OF okt n fr(1) free_page_room [OF ok fr t(2)]])
      show "walk (ram ?w) (cr3 ?w) ?a = Some ((ps @ [page]) ! (?n div 512 * 512))"
        using wl(5) [of ?a ?v] by (simp add: entry_flags fp blk)
      show "table_tree (ram ?w) (cr3 ?w)" using wl(1) by simp
      show "table_frames (ram ?w) (cr3 ?w) = table_frames (ram t) (cr3 t)" using wl(2) by simp
      show "walk (ram ?w) (cr3 ?w) vb = walk (ram t) (cr3 t) vb"
        if "ix4 vb \<noteq> 510" "path vb \<noteq> path ?a \<or> ?n mod 512 \<noteq> 0" for vb
        using wl(4) [of vb ?v] that True by simp
      show "ram ?w f = ram t f" if "f \<notin> table_frames (ram t) (cr3 t)" for f
        using wl(6) [OF that, of ?v] by simp
    qed (simp_all add: write_word_def vmm_invalidate_def)
    moreover have "pmm_stack_top ?w = ?a" using topt by (simp add: write_word_def vmm_invalidate_def)
    ultimately obtain s' where "pmm_free_page page s = Inr s'" "mm_ok s' (ps @ [page])"
      "free_pages s' (ps @ [page]) = insert page (free_pages t ps)" "table_frames (ram s') (cr3 s') = table_frames (ram t) (cr3 t)"
      using stack_addr_aligned [OF n36] top True run by (auto simp: pmm_free_page_def)
    then show ?thesis using grownD(4,10) [OF t(2)] t(4) True by (intro exI [of _ s']) auto
  qed
qed

section \<open>Reserving address space\<close>

lemma reserve_page:
  assumes ok: "mm_ok s ps" and free: "1 \<le> card (free_pages s ps)" and va: "outside va"
    and dir: "node (ram s) (cr3 s) [ix4 va, ix3 va] \<noteq> None"
  shows "\<exists>s' ps'. put (entry_addr pm1_base (index1 va)) PAGE_ALLOCATED s = Inr s' \<and> mm_ok s' ps' \<and> only_mm s s' \<and>
    page_entry s' va = Some PAGE_ALLOCATED \<and>
    (\<forall>vb. outside vb \<longrightarrow> path vb \<noteq> path va \<longrightarrow> walk (ram s') (cr3 s') vb = walk (ram s) (cr3 s) vb) \<and>
    (\<forall>vb e. outside vb \<longrightarrow> path vb \<noteq> path va \<longrightarrow> page_entry s vb = Some e \<longrightarrow> page_entry s' vb = Some e) \<and>
    (\<forall>js. table_path js \<longrightarrow> node (ram s) (cr3 s) js \<noteq> None \<longrightarrow> node (ram s') (cr3 s') js \<noteq> None) \<and>
    (\<forall>f. f \<notin> table_frames (ram s) (cr3 s) \<union> free_pages s ps \<longrightarrow> ram s' f = ram s f) \<and>
    table_frames (ram s') (cr3 s') \<subseteq> table_frames (ram s) (cr3 s) \<union> free_pages s ps \<and>
    free_pages s' ps' \<subseteq> free_pages s ps \<and> card (free_pages s ps) \<le> card (free_pages s' ps') + 1"
proof -
  have v510: "ix4 va \<noteq> 510" using va by (simp add: outside_def)
  obtain t qs where t: "grown s ps t qs" "page_entry t va \<noteq> None"
    "put (entry_addr pm1_base (index1 va)) PAGE_ALLOCATED s = put (entry_addr pm1_base (index1 va)) PAGE_ALLOCATED t"
    "card (free_pages s ps) \<le> card (free_pages t qs) + 1"
  proof (cases "page_entry s va")
    case None
    obtain g where g: "node (ram s) (cr3 s) [ix4 va, ix3 va] = Some g" using dir by blast
    then have "\<not> present (ram s g (ix2 va))"
      using None by (auto simp: page_entry_def upper_def split: if_splits)
    moreover have "free_pages s ps \<noteq> {}" using free by auto
    ultimately obtain t qs h where "put (entry_addr pm1_base (index1 va)) PAGE_ALLOCATED s = put (entry_addr pm1_base (index1 va)) PAGE_ALLOCATED t"
      "grown s ps t qs" "node (ram t) (cr3 t) (upper va) = Some h" "card (free_pages s ps) = card (free_pages t qs) + 1"
      using put_entry_fault [OF ok _ v510 g, of PAGE_ALLOCATED] by metis
    then show ?thesis using that by (simp add: page_entry_def)
  qed (use that grown_refl [OF ok] in auto)
  note gr = grownD [OF t(1)]
  obtain u where u: "put (entry_addr pm1_base (index1 va)) PAGE_ALLOCATED t = Inr u" "mm_ok u qs" "only_mm t u"
    "page_entry u va = Some PAGE_ALLOCATED" "free_pages u qs = free_pages t qs"
    "\<forall>js. table_path js \<longrightarrow> node (ram u) (cr3 u) js = node (ram t) (cr3 t) js"
    "\<forall>vb. ix4 vb \<noteq> 510 \<longrightarrow> path vb \<noteq> path va \<longrightarrow>
       walk (ram u) (cr3 u) vb = walk (ram t) (cr3 t) vb \<and> page_entry u vb = page_entry t vb"
    "\<forall>f. f \<notin> table_frames (ram t) (cr3 t) \<longrightarrow> ram u f = ram t f"
    using write_entry_step [OF gr(2) va t(2) not_present_allocated(1)] by blast
  have tfu: "table_frames (ram u) (cr3 u) = table_frames (ram t) (cr3 t)"
    using u(6) unfolding table_frames_def by auto
  show ?thesis
  proof (intro exI conjI allI impI)
    show "put (entry_addr pm1_base (index1 va)) PAGE_ALLOCATED s = Inr u" using t(3) u(1) by simp
    show "only_mm s u" using gr(1) u(3) by (rule only_mm_trans)
    show "free_pages u qs \<subseteq> free_pages s ps" using gr(4) u(5) by simp
    show "table_frames (ram u) (cr3 u) \<subseteq> table_frames (ram s) (cr3 s) \<union> free_pages s ps" using gr(5) tfu by simp
    show "ram u f = ram s f" if "f \<notin> table_frames (ram s) (cr3 s) \<union> free_pages s ps" for f
      using that gr(5,8) u(8) by auto
    show "node (ram u) (cr3 u) js \<noteq> None" if "table_path js" "node (ram s) (cr3 s) js \<noteq> None" for js
      using that gr(6) u(6) by fastforce
  qed (use u t gr in \<open>auto simp: outside_def\<close>)
qed

end
