(* ===== verification/Vmm_Range.thy ===== *)
theory Vmm_Range
  imports Vmm_Spec
begin

text \<open>
  Operations on ranges of pages: the loops of \<open>vmm_alloc\<close>, \<open>vmm_map\<close> and \<open>vmm_unmap\<close>.
\<close>

section \<open>Pages of a range\<close>

definition page_at :: "u64 \<Rightarrow> nat \<Rightarrow> u64" where
  "page_at va i = va + PAGE_SIZE * of_nat i"

lemma page_at_0 [simp]: "page_at va 0 = va"
  by (simp add: page_at_def)

lemma page_at_Suc: "page_at va (Suc i) = page_at (va + PAGE_SIZE) i"
  by (simp add: page_at_def algebra_simps)

lemma index1_uint: "uint (index1 x) = take_bit 36 (drop_bit 12 (uint x))"
  by (rule bit_eqI) (auto simp: bit_ix bit_uint_iff bit_simps dest: bit_imp_le_length)

lemma path_index1: "path a = path b \<longleftrightarrow> index1 a = index1 b"
proof -
  have "index1 a = index1 b \<longleftrightarrow> (\<forall>n < 36. bit a (12 + n) = bit b (12 + n))"
  proof
    assume "index1 a = index1 b"
    then have "bit (index1 a) n = bit (index1 b) n" for n by simp
    then show "\<forall>n < 36. bit a (12 + n) = bit b (12 + n)" unfolding bit_ix by blast
  next
    assume "\<forall>n < 36. bit a (12 + n) = bit b (12 + n)"
    then show "index1 a = index1 b" by (intro bit_word_eqI) (auto simp: bit_ix)
  qed
  also have "\<dots> \<longleftrightarrow> (\<forall>n. 12 \<le> n \<and> n < 48 \<longrightarrow> bit a n = bit b n)"
    (is "?A \<longleftrightarrow> ?B")
  proof
    assume a: ?A
    show ?B
    proof (intro allI impI)
      fix n :: nat assume "12 \<le> n \<and> n < 48"
      then obtain m where "n = 12 + m" "m < 36" using le_Suc_ex [of 12 n] by auto
      then show "bit a n = bit b n" using a by simp
    qed
  next
    assume b: ?B
    show ?A
    proof (intro allI impI)
      fix n :: nat assume "n < 36"
      then show "bit a (12 + n) = bit b (12 + n)" using b [rule_format, of "12 + n"] by simp
    qed
  qed
  finally show ?thesis by (simp add: path_eq_iff)
qed

lemma index1_page_at: "uint (index1 (page_at va i)) = (uint va div 4096 + int i) mod 2 ^ 36"
proof -
  have "uint (page_at va i) = take_bit 64 (uint va + 4096 * int i)"
    by (simp add: page_at_def PAGE_SIZE_def take_bit_eq_mod uint_word_ariths unsigned_of_nat zmod_int mod_simps)
  then have "uint (index1 (page_at va i)) = take_bit 36 (drop_bit 12 (take_bit 64 (uint va + 4096 * int i)))"
    by (simp only: index1_uint)
  also have "\<dots> = take_bit 36 (drop_bit 12 (uint va + 4096 * int i))"
    by (rule bit_eqI) (auto simp: bit_simps)
  also have "drop_bit 12 (uint va + 4096 * int i) = uint va div 4096 + int i"
    by (simp add: drop_bit_eq_div)
  finally show ?thesis by (simp add: take_bit_eq_mod)
qed

lemma page_at_inj:
  assumes "path (page_at va i) = path (page_at va j)" and "i < 2 ^ 36" and "j < 2 ^ 36"
  shows "i = j"
proof -
  have "(uint va div 4096 + int i) mod 2 ^ 36 = (uint va div 4096 + int j) mod 2 ^ 36"
    using assms(1) index1_page_at by (metis path_index1)
  then have "int i mod 2 ^ 36 = int j mod 2 ^ 36"
    by (metis mod_add_cong add_diff_cancel_left' mod_diff_cong)
  then show ?thesis using assms(2,3) by simp
qed

definition range_paths :: "u64 \<Rightarrow> nat \<Rightarrow> u64 list set" where
  "range_paths va n = {path (page_at va i) | i. i < n}"

lemma range_paths_Suc: "range_paths va (Suc n) = insert (path va) (range_paths (va + PAGE_SIZE) n)"
proof -
  have "range_paths va (Suc n) = (\<lambda>i. path (page_at va i)) ` {..<Suc n}" by (auto simp: range_paths_def)
  also have "\<dots> = insert (path va) ((\<lambda>i. path (page_at va (Suc i))) ` {..<n})"
    by (simp add: lessThan_Suc_eq_insert_0 image_image)
  finally show ?thesis by (auto simp: range_paths_def page_at_Suc)
qed

lemma path_not_later: "n < 2 ^ 36 \<Longrightarrow> path va \<notin> range_paths (va + PAGE_SIZE) n"
proof
  assume n: "n < 2 ^ 36" and "path va \<in> range_paths (va + PAGE_SIZE) n"
  then obtain i where "i < n" "path (page_at va 0) = path (page_at va (Suc i))"
    by (auto simp: range_paths_def page_at_Suc)
  then show False using page_at_inj [of va 0 "Suc i"] n by simp
qed

section \<open>What may change\<close>

text \<open>
  \<open>confined P s ps s' ps'\<close>: an operation that keeps the invariant, only turns free pages
  into tables, and outside the paths \<open>P\<close> keeps every translation and every entry, and the
  contents of all frames that were neither tables nor free.
\<close>

definition confined :: "u64 list set \<Rightarrow> 'a mm_scheme \<Rightarrow> u64 list \<Rightarrow> 'a mm_scheme \<Rightarrow> u64 list \<Rightarrow> bool" where
  "confined P s ps s' ps' \<longleftrightarrow> mm_ok s' ps' \<and>
     (\<forall>vb. outside vb \<longrightarrow> path vb \<notin> P \<longrightarrow> walk (ram s') (cr3 s') vb = walk (ram s) (cr3 s) vb) \<and>
     (\<forall>vb e. outside vb \<longrightarrow> path vb \<notin> P \<longrightarrow> page_entry s vb = Some e \<longrightarrow> page_entry s' vb = Some e) \<and>
     (\<forall>js. table_path js \<longrightarrow> node (ram s) (cr3 s) js \<noteq> None \<longrightarrow> node (ram s') (cr3 s') js \<noteq> None) \<and>
     (\<forall>f. f \<notin> table_frames (ram s) (cr3 s) \<union> free_pages s ps \<longrightarrow> ram s' f = ram s f) \<and>
     table_frames (ram s') (cr3 s') \<subseteq> table_frames (ram s) (cr3 s) \<union> free_pages s ps \<and>
     free_pages s' ps' \<subseteq> free_pages s ps"

lemma confined_refl: "mm_ok s ps \<Longrightarrow> confined P s ps s ps"
  by (simp add: confined_def)

lemma confinedD:
  assumes "confined P s ps s' ps'"
  shows "mm_ok s' ps'"
    and "\<And>vb. outside vb \<Longrightarrow> path vb \<notin> P \<Longrightarrow> walk (ram s') (cr3 s') vb = walk (ram s) (cr3 s) vb"
    and "\<And>vb e. outside vb \<Longrightarrow> path vb \<notin> P \<Longrightarrow> page_entry s vb = Some e \<Longrightarrow> page_entry s' vb = Some e"
    and "\<And>js. table_path js \<Longrightarrow> node (ram s) (cr3 s) js \<noteq> None \<Longrightarrow> node (ram s') (cr3 s') js \<noteq> None"
    and "\<And>f. f \<notin> table_frames (ram s) (cr3 s) \<union> free_pages s ps \<Longrightarrow> ram s' f = ram s f"
    and "table_frames (ram s') (cr3 s') \<subseteq> table_frames (ram s) (cr3 s) \<union> free_pages s ps"
    and "free_pages s' ps' \<subseteq> free_pages s ps"
  using assms unfolding confined_def by blast+

lemma confined_trans:
  assumes "confined P s ps t qs" and "confined Q t qs u rs"
  shows "confined (P \<union> Q) s ps u rs"
proof -
  note a = confinedD [OF assms(1)] and b = confinedD [OF assms(2)]
  have "ram u f = ram s f" if f: "f \<notin> table_frames (ram s) (cr3 s) \<union> free_pages s ps" for f
  proof -
    have "f \<notin> table_frames (ram t) (cr3 t) \<union> free_pages t qs" using a(6,7) f by blast
    then show ?thesis using a(5) [OF f] b(5) by simp
  qed
  moreover have "table_frames (ram u) (cr3 u) \<subseteq> table_frames (ram s) (cr3 s) \<union> free_pages s ps"
    using a(6,7) b(6) by blast
  ultimately show ?thesis
    unfolding confined_def
    by (intro conjI allI impI b(1) b(4) a(4) subset_trans [OF b(7) a(7)] b(3) a(3))
       (simp_all add: a(2) b(2))
qed

lemma confined_weaken: "confined P s ps s' ps' \<Longrightarrow> P \<subseteq> Q \<Longrightarrow> confined Q s ps s' ps'"
  unfolding confined_def by blast

lemma confined_fields:
  assumes "confined P s ps s' ps'" and "mm_ok u ps' = mm_ok s' ps'" and "ram u = ram s'" and "cr3 u = cr3 s'"
    and "free_pages u ps' = free_pages s' ps'"
  shows "confined P s ps u ps'"
  using assms unfolding confined_def page_entry_def by simp

lemma entry_upper: "page_entry s va \<noteq> None \<longleftrightarrow> node (ram s) (cr3 s) (upper va) \<noteq> None"
  by (simp add: page_entry_def)

section \<open>The single steps\<close>

lemma reserve_confined:
  assumes "mm_ok s ps" and "1 \<le> card (free_pages s ps)" and "outside va"
    and "node (ram s) (cr3 s) [ix4 va, ix3 va] \<noteq> None"
  shows "\<exists>s' ps'. put (entry_addr pm1_base (index1 va)) PAGE_ALLOCATED s = Inr s' \<and> only_mm s s' \<and>
    confined {path va} s ps s' ps' \<and> page_entry s' va = Some PAGE_ALLOCATED \<and>
    card (free_pages s ps) \<le> card (free_pages s' ps') + 1"
  using reserve_page [OF assms] unfolding confined_def by auto

lemma map_confined:
  assumes ok: "mm_ok s ps" and va: "outside va" and e: "page_entry s va = Some e" "\<not> present e"
    and pa: "frame_of pa \<notin> free_pages s ps"
  shows "\<exists>s'. vmm_map_page pa va s = Inr (0, s') \<and> only_mm s s' \<and> confined {path va} s ps s' ps \<and>
    walk (ram s') (cr3 s') va = Some (frame_of pa) \<and> page_entry s' va \<noteq> None"
proof -
  have v510: "ix4 va \<noteq> 510" using va by (simp add: outside_def)
  obtain g where g: "node (ram s) (cr3 s) (upper va) = Some g" "e = ram s g (ix1 va)"
    using e(1) by (auto simp: page_entry_def)
  note rr = recursive_tree [OF mm_ok_tree [OF ok]]
  let ?v = "pa OR PAGE_WRITE OR PAGE_PRESENT"
  let ?u = "vmm_invalidate va (write_word g (ix1 va) ?v s)"
  have run: "vmm_map_page pa va s = Inr (0, ?u)"
    using map_page_leaf [OF map_tables_present [OF rr g(1)] rr g(1)] e(2) g(2) by simp
  note wl = write_leaf [OF mm_ok_tree [OF ok] v510 g(1)]
  have ent: "page_entry ?u vb = page_entry s vb" if "ix4 vb \<noteq> 510" "path vb \<noteq> path va" for vb
    by (rule write_leaf_entry [OF mm_ok_tree [OF ok] v510 g(1) that]) simp_all
  have "mm_ok ?u ps" using mm_ok_leaf [OF ok va g(1), of ?v] pa by (simp add: entry_flags)
  then have "confined {path va} s ps ?u ps"
    unfolding confined_def using wl(2,3,4,6) ent by (auto simp: outside_def)
  moreover have "walk (ram ?u) (cr3 ?u) va = Some (frame_of pa)" using wl(5) [of va ?v] by (simp add: entry_flags)
  moreover have "page_entry ?u va \<noteq> None"
    using wl(3) [OF table_path_upper [OF v510], of ?v] g(1) by (simp add: page_entry_def)
  moreover have "only_mm s ?u" by (meson only_mm_steps only_mm_trans)
  ultimately show ?thesis using run by blast
qed

lemma unmap_confined:
  assumes "mm_ok s ps" and "outside va" and "page_entry s va \<noteq> None"
  shows "\<exists>s'. vmm_unmap_page va s = Inr s' \<and> only_mm s s' \<and> confined {path va} s ps s' ps \<and>
    walk (ram s') (cr3 s') va = None \<and> page_entry s' va = Some 0"
proof -
  obtain s' where s': "vmm_unmap_page va s = Inr s'" "mm_ok s' ps" "only_mm s s'" "page_entry s' va = Some 0"
    "walk (ram s') (cr3 s') va = None" "free_pages s' ps = free_pages s ps"
    "\<And>js. table_path js \<Longrightarrow> node (ram s') (cr3 s') js = node (ram s) (cr3 s) js"
    "\<And>vb. ix4 vb \<noteq> 510 \<Longrightarrow> path vb \<noteq> path va \<Longrightarrow>
       walk (ram s') (cr3 s') vb = walk (ram s) (cr3 s) vb \<and> page_entry s' vb = page_entry s vb"
    "\<And>f. f \<notin> table_frames (ram s) (cr3 s) \<Longrightarrow> ram s' f = ram s f"
    using unmap_page_step [OF assms] by blast
  have "table_frames (ram s') (cr3 s') = table_frames (ram s) (cr3 s)"
    using s'(7) unfolding table_frames_def by auto
  then have "confined {path va} s ps s' ps"
    unfolding confined_def using s'(2,6-9) by (auto simp: outside_def)
  with s' show ?thesis by blast
qed

section \<open>The loops\<close>

text \<open>The pages of a range lie outside the windows and the stack, in existing page directories.\<close>

definition range_ok :: "'a mm_scheme \<Rightarrow> u64 \<Rightarrow> nat \<Rightarrow> bool" where
  "range_ok s va n \<longleftrightarrow> n < 2 ^ 36 \<and>
     (\<forall>i < n. outside (page_at va i) \<and>
        node (ram s) (cr3 s) [ix4 (page_at va i), ix3 (page_at va i)] \<noteq> None)"

lemma range_ok_Suc:
  "range_ok s va (Suc n) \<Longrightarrow> range_ok s (va + PAGE_SIZE) n \<and> outside va \<and>
     node (ram s) (cr3 s) [ix4 va, ix3 va] \<noteq> None \<and> path va \<notin> range_paths (va + PAGE_SIZE) n"
  unfolding range_ok_def using path_not_later [of n va] page_at_Suc page_at_0
  by (metis Suc_lessD Suc_mono zero_less_Suc)

lemma range_ok_cong:
  assumes "range_ok s va n" and "confined P s ps s' ps'"
  shows "range_ok s' va n"
  using assms(1) confinedD(4) [OF assms(2)] table_path_tables(3) unfolding range_ok_def outside_def by blast

lemma in_range_path: "i < n \<Longrightarrow> path (page_at va i) \<in> range_paths va n"
  by (auto simp: range_paths_def)

lemma alloc_loop:
  "mm_ok s ps \<Longrightarrow> n \<le> card (free_pages s ps) \<Longrightarrow> range_ok s (next_alloc s) n \<Longrightarrow>
   \<exists>s' ps'. vmm_alloc_loop n s = Inr s' \<and> next_alloc s' = page_at (next_alloc s) n \<and>
     confined (range_paths (next_alloc s) n) s ps s' ps' \<and>
     (\<forall>i < n. page_entry s' (page_at (next_alloc s) i) = Some PAGE_ALLOCATED) \<and>
     card (free_pages s ps) \<le> card (free_pages s' ps') + n"
proof (induction n arbitrary: s ps)
  case 0
  then show ?case by (auto intro: confined_refl)
next
  case (Suc n)
  let ?va = "next_alloc s"
  note r = range_ok_Suc [OF Suc.prems(3)]
  obtain s1 ps1 where 1: "put (entry_addr pm1_base (index1 ?va)) PAGE_ALLOCATED s = Inr s1" "only_mm s s1"
    "confined {path ?va} s ps s1 ps1" "page_entry s1 ?va = Some PAGE_ALLOCATED"
    "card (free_pages s ps) \<le> card (free_pages s1 ps1) + 1"
    using reserve_confined [OF Suc.prems(1), of ?va] Suc.prems(2) r by auto
  define s2 where "s2 = (vmm_invalidate ?va s1)\<lparr>next_alloc := ?va + PAGE_SIZE\<rparr>"
  have next1: "next_alloc s1 = ?va" using only_mm_fields(2) [OF 1(2)] .
  have eq2: "mm_ok s2 ps1 = mm_ok s1 ps1" "ram s2 = ram s1" "cr3 s2 = cr3 s1" "free_pages s2 ps1 = free_pages s1 ps1"
    by (simp_all add: s2_def mm_ok_def free_stack_def frames_ok_def regions_ok_def region_pages_def free_pages_def
        in_use_def vmm_invalidate_def)
  have c2: "confined {path ?va} s ps s2 ps1" using confined_fields [OF 1(3) eq2] .
  have nx2: "next_alloc s2 = ?va + PAGE_SIZE" by (simp add: s2_def)
  have "range_ok s2 (next_alloc s2) n" using range_ok_cong [OF _ c2] r nx2 by simp
  moreover have "n \<le> card (free_pages s2 ps1)" using Suc.prems(2) 1(5) eq2(4) by simp
  ultimately obtain s' ps' where IH: "vmm_alloc_loop n s2 = Inr s'" "next_alloc s' = page_at (next_alloc s2) n"
    "confined (range_paths (next_alloc s2) n) s2 ps1 s' ps'"
    "\<forall>i < n. page_entry s' (page_at (next_alloc s2) i) = Some PAGE_ALLOCATED"
    "card (free_pages s2 ps1) \<le> card (free_pages s' ps') + n"
    using Suc.IH [OF confinedD(1) [OF c2]] by blast
  have "vmm_alloc_loop (Suc n) s = Inr s'"
    using 1(1) IH(1) next1 by (simp add: s2_def vmm_invalidate_def)
  moreover have "confined (range_paths ?va (Suc n)) s ps s' ps'"
    using confined_trans [OF c2 IH(3)] nx2 by (simp add: range_paths_Suc)
  moreover have "page_entry s' (page_at ?va i) = Some PAGE_ALLOCATED" if "i < Suc n" for i
  proof (cases i)
    case 0
    have "page_entry s2 ?va = Some PAGE_ALLOCATED" using 1(4) eq2(2,3) by (simp add: page_entry_def)
    then show ?thesis using 0 confinedD(3) [OF IH(3)] r nx2 by simp
  next
    case (Suc j)
    then show ?thesis using IH(4) that nx2 by (simp add: page_at_Suc)
  qed
  moreover have "card (free_pages s ps) \<le> card (free_pages s' ps') + Suc n" using IH(5) 1(5) eq2(4) by simp
  moreover have "next_alloc s' = page_at ?va (Suc n)" using IH(2) nx2 by (simp add: page_at_Suc)
  ultimately show ?case by blast
qed

lemma map_loop:
  "mm_ok s ps \<Longrightarrow> n < 2 ^ 36 \<Longrightarrow>
   (\<forall>i < n. outside (page_at va i) \<and> (\<exists>e. page_entry s (page_at va i) = Some e \<and> \<not> present e) \<and>
            frame_of (page_at page i) \<notin> free_pages s ps) \<Longrightarrow>
   \<exists>s'. vmm_map_loop n page va s = Inr s' \<and> only_mm s s' \<and> confined (range_paths va n) s ps s' ps \<and>
     (\<forall>i < n. walk (ram s') (cr3 s') (page_at va i) = Some (frame_of (page_at page i)) \<and>
              page_entry s' (page_at va i) \<noteq> None)"
proof (induction n arbitrary: s va page)
  case 0
  then show ?case by (auto intro: confined_refl)
next
  case (Suc n)
  have 0: "outside va" "frame_of page \<notin> free_pages s ps" and e: "\<exists>e. page_entry s va = Some e \<and> \<not> present e"
    using Suc.prems(3) page_at_0 by (metis zero_less_Suc)+
  obtain s1 where 1: "vmm_map_page page va s = Inr (0, s1)" "only_mm s s1" "confined {path va} s ps s1 ps"
    "walk (ram s1) (cr3 s1) va = Some (frame_of page)" "page_entry s1 va \<noteq> None"
    using map_confined [OF Suc.prems(1) 0(1) _ _ 0(2)] e by blast
  note c1 = confinedD [OF 1(3)]
  have later: "path va \<notin> range_paths (va + PAGE_SIZE) n" using path_not_later Suc.prems(2) by simp
  have n: "n < 2 ^ 36" using Suc.prems(2) by simp
  have rest: "\<forall>i < n. outside (page_at (va + PAGE_SIZE) i) \<and>
      (\<exists>e. page_entry s1 (page_at (va + PAGE_SIZE) i) = Some e \<and> \<not> present e) \<and>
      frame_of (page_at (page + PAGE_SIZE) i) \<notin> free_pages s1 ps"
  proof (intro allI impI)
    fix i assume i: "i < n"
    have p: "outside (page_at (va + PAGE_SIZE) i)" "\<exists>e. page_entry s (page_at (va + PAGE_SIZE) i) = Some e \<and> \<not> present e"
      "frame_of (page_at (page + PAGE_SIZE) i) \<notin> free_pages s ps"
      using Suc.prems(3) [rule_format, of "Suc i"] i by (auto simp: page_at_Suc)
    have "path (page_at (va + PAGE_SIZE) i) \<noteq> path va" using later in_range_path [OF i] by metis
    then show "outside (page_at (va + PAGE_SIZE) i) \<and>
      (\<exists>e. page_entry s1 (page_at (va + PAGE_SIZE) i) = Some e \<and> \<not> present e) \<and>
      frame_of (page_at (page + PAGE_SIZE) i) \<notin> free_pages s1 ps"
      using p c1(3) [OF p(1)] c1(7) by blast
  qed
  obtain s' where IH: "vmm_map_loop n (page + PAGE_SIZE) (va + PAGE_SIZE) s1 = Inr s'" "only_mm s1 s'"
    "confined (range_paths (va + PAGE_SIZE) n) s1 ps s' ps"
    "\<forall>i < n. walk (ram s') (cr3 s') (page_at (va + PAGE_SIZE) i) = Some (frame_of (page_at (page + PAGE_SIZE) i)) \<and>
       page_entry s' (page_at (va + PAGE_SIZE) i) \<noteq> None"
    using Suc.IH [OF c1(1) n rest] by blast
  have "vmm_map_loop (Suc n) page va s = Inr s'" using 1(1) IH(1) by simp
  moreover have "confined (range_paths va (Suc n)) s ps s' ps"
    using confined_trans [OF 1(3) IH(3)] by (simp add: range_paths_Suc)
  moreover have "walk (ram s') (cr3 s') (page_at va i) = Some (frame_of (page_at page i)) \<and>
      page_entry s' (page_at va i) \<noteq> None" if "i < Suc n" for i
  proof (cases i)
    case 0
    then show ?thesis
      using 1(4,5) confinedD(2,3) [OF IH(3) \<open>outside va\<close> later] by auto
  next
    case (Suc j)
    then show ?thesis using IH(4) that by (simp add: page_at_Suc)
  qed
  ultimately show ?case using only_mm_trans [OF 1(2) IH(2)] by blast
qed

lemma unmap_loop:
  "mm_ok s ps \<Longrightarrow> n < 2 ^ 36 \<Longrightarrow>
   (\<forall>i < n. outside (page_at va i) \<and> page_entry s (page_at va i) \<noteq> None) \<Longrightarrow>
   \<exists>s'. vmm_unmap_loop n va s = Inr s' \<and> only_mm s s' \<and> confined (range_paths va n) s ps s' ps \<and>
     (\<forall>i < n. walk (ram s') (cr3 s') (page_at va i) = None)"
proof (induction n arbitrary: s va)
  case 0
  then show ?case by (auto intro: confined_refl)
next
  case (Suc n)
  have 0: "outside va" "page_entry s va \<noteq> None"
    using Suc.prems(3) page_at_0 by (metis zero_less_Suc)+
  obtain s1 where 1: "vmm_unmap_page va s = Inr s1" "only_mm s s1" "confined {path va} s ps s1 ps"
    "walk (ram s1) (cr3 s1) va = None"
    using unmap_confined [OF Suc.prems(1) 0] by blast
  note c1 = confinedD [OF 1(3)]
  have later: "path va \<notin> range_paths (va + PAGE_SIZE) n" using path_not_later Suc.prems(2) by simp
  have n: "n < 2 ^ 36" using Suc.prems(2) by simp
  have rest: "\<forall>i < n. outside (page_at (va + PAGE_SIZE) i) \<and> page_entry s1 (page_at (va + PAGE_SIZE) i) \<noteq> None"
  proof (intro allI impI)
    fix i assume i: "i < n"
    have p: "outside (page_at (va + PAGE_SIZE) i)" "page_entry s (page_at (va + PAGE_SIZE) i) \<noteq> None"
      using Suc.prems(3) [rule_format, of "Suc i"] i by (auto simp: page_at_Suc)
    have "path (page_at (va + PAGE_SIZE) i) \<noteq> path va" using later in_range_path [OF i] by metis
    then show "outside (page_at (va + PAGE_SIZE) i) \<and> page_entry s1 (page_at (va + PAGE_SIZE) i) \<noteq> None"
      using p c1(3) [OF p(1)] by blast
  qed
  obtain s' where IH: "vmm_unmap_loop n (va + PAGE_SIZE) s1 = Inr s'" "only_mm s1 s'"
    "confined (range_paths (va + PAGE_SIZE) n) s1 ps s' ps"
    "\<forall>i < n. walk (ram s') (cr3 s') (page_at (va + PAGE_SIZE) i) = None"
    using Suc.IH [OF c1(1) n rest] by blast
  have "vmm_unmap_loop (Suc n) va s = Inr s'" using 1(1) IH(1) by simp
  moreover have "confined (range_paths va (Suc n)) s ps s' ps"
    using confined_trans [OF 1(3) IH(3)] by (simp add: range_paths_Suc)
  moreover have "walk (ram s') (cr3 s') (page_at va i) = None" if "i < Suc n" for i
  proof (cases i)
    case 0
    then show ?thesis using 1(4) confinedD(2) [OF IH(3) \<open>outside va\<close> later] by simp
  next
    case (Suc j)
    then show ?thesis using IH(4) that by (simp add: page_at_Suc)
  qed
  ultimately show ?case using only_mm_trans [OF 1(2) IH(2)] by blast
qed

section \<open>Lengths\<close>

lemma uint_plus: "uint a + uint b < 2 ^ 64 \<Longrightarrow> uint (a + b) = uint a + uint b" for a b :: u64
  using uint_add_lem [of a b] by simp

lemma uint_minus: "uint b \<le> uint a \<Longrightarrow> uint (a - b) = uint a - uint b" for a b :: u64
  using uint_sub_lem [of b a] by simp

text \<open>The number of pages that the \<open>nbytes\<close> bytes from \<open>a\<close> touch.\<close>

definition touched :: "u64 \<Rightarrow> u64 \<Rightarrow> nat" where
  "touched a nbytes = nat ((uint a + uint nbytes + 4095) div 4096 - uint a div 4096)"

lemma pages_between_touched:
  assumes "uint a + uint nbytes + 4095 < 2 ^ 64"
  shows "pages_between (PAGE_ALIGN_DOWN a) (PAGE_ALIGN_UP (a + nbytes)) = touched a nbytes"
    and "uint (PAGE_ALIGN_UP (a + nbytes) - PAGE_ALIGN_DOWN a) = 4096 * int (touched a nbytes)"
proof -
  have "uint (a + nbytes) = uint a + uint nbytes" using assms by (intro uint_plus) simp
  then have up: "uint (PAGE_ALIGN_UP (a + nbytes)) = (uint a + uint nbytes + 4095) div 4096 * 4096"
    using align_up_uint [of "a + nbytes"] assms by simp
  have down: "uint (PAGE_ALIGN_DOWN a) = uint a div 4096 * 4096" by (rule align_down_uint)
  have le: "uint a div 4096 \<le> (uint a + uint nbytes + 4095) div 4096" by (rule zdiv_mono1) simp_all
  then have d: "uint (PAGE_ALIGN_UP (a + nbytes) - PAGE_ALIGN_DOWN a) =
      ((uint a + uint nbytes + 4095) div 4096 - uint a div 4096) * 4096"
    using up down by (subst uint_minus) (simp_all add: left_diff_distrib)
  then show "uint (PAGE_ALIGN_UP (a + nbytes) - PAGE_ALIGN_DOWN a) = 4096 * int (touched a nbytes)"
    using le by (simp add: touched_def)
  then have "unat (PAGE_ALIGN_UP (a + nbytes) - PAGE_ALIGN_DOWN a) = 4096 * touched a nbytes"
    by (simp add: unat_eq_nat_uint nat_mult_distrib)
  then show "pages_between (PAGE_ALIGN_DOWN a) (PAGE_ALIGN_UP (a + nbytes)) = touched a nbytes"
    by (simp add: pages_between_def)
qed

lemma uint_page_at:
  assumes "uint va + 4096 * int i < 2 ^ 64"
  shows "uint (page_at va i) = uint va + 4096 * int i"
proof -
  have "int i < 2 ^ 64" using assms uint_ge_0 [of va] by linarith
  then have "uint (of_nat i :: u64) = int i" by (simp add: unsigned_of_nat take_bit_nat_eq_self)
  then show ?thesis
    using assms uint_ge_0 [of va] by (simp add: page_at_def PAGE_SIZE_def uint_word_ariths mod_simps)
qed

lemma align_down_in_page:
  assumes "uint va mod 4096 = 0" and "uint va + int m < 2 ^ 64"
  shows "PAGE_ALIGN_DOWN (va + of_nat m) = page_at va (m div 4096)"
proof -
  have "int m < 2 ^ 64" using assms(2) uint_ge_0 [of va] by linarith
  then have m: "m < 2 ^ 64" by simp
  have u: "uint (of_nat m :: u64) = int m" using m by (simp add: unsigned_of_nat take_bit_nat_eq_self)
  then have "uint (va + of_nat m) = uint va + int m" using assms(2) by (subst uint_plus) simp_all
  moreover have "(uint va + int m) div 4096 * 4096 = uint va + 4096 * (int m div 4096)"
    using assms(1) by (auto simp: mod_0_imp_dvd elim!: dvdE dest!: mod_0_imp_dvd)
  moreover have "4096 * int (m div 4096) \<le> int m" by (simp add: zdiv_int)
  then have "uint (page_at va (m div 4096)) = uint va + 4096 * int (m div 4096)"
    using assms(2) by (intro uint_page_at) linarith
  ultimately have "uint (PAGE_ALIGN_DOWN (va + of_nat m)) = uint (page_at va (m div 4096))"
    by (simp add: align_down_uint zdiv_int)
  then show ?thesis by (simp add: word_uint_eq_iff)
qed

lemma frame_align_down [simp]: "frame_of (PAGE_ALIGN_DOWN a) = frame_of a"
  by (rule bit_word_eqI) (auto simp: frame_of_def bit_align_down bit_simps mask_bits)

lemma offset_in_page: "(b + of_nat m) AND 0xFFF = of_nat (m mod 4096)" if "uint b mod 4096 = 0" for b :: u64
proof -
  have "uint (b + of_nat m) = (uint b + int m) mod 2 ^ 64"
    by (simp add: uint_word_ariths unsigned_of_nat take_bit_eq_mod zmod_int mod_simps)
  then have "uint (take_bit 12 (b + of_nat m)) = (uint b + int m) mod 2 ^ 64 mod 2 ^ 12"
    by (subst unsigned_take_bit_eq) (simp add: take_bit_eq_mod)
  also have "\<dots> = (uint b + int m) mod 2 ^ 12" by (rule mod_mod_cancel) simp
  also have "\<dots> = int (m mod 4096)" using that by (simp add: mod_add_left_eq [symmetric] zmod_int)
  finally have "take_bit 12 (b + of_nat m) = word_of_int (int (m mod 4096))" by (metis word_of_int_uint)
  then show ?thesis by (simp add: take_bit_eq_mask mask_eq_exp_minus_1)
qed

section \<open>Whole ranges\<close>

definition page_offset :: "u64 \<Rightarrow> nat" where
  "page_offset a = unat (a - PAGE_ALIGN_DOWN a)"

lemma page_offset: "int (page_offset a) = uint a mod 4096" "of_nat (page_offset a) = a - PAGE_ALIGN_DOWN a"
proof -
  have "uint (a - PAGE_ALIGN_DOWN a) = uint a mod 4096"
    using align_down_uint [of a] align_down_le [of a]
    by (subst uint_minus) (simp_all add: word_le_def minus_div_mult_eq_mod)
  then show "int (page_offset a) = uint a mod 4096" "of_nat (page_offset a) = a - PAGE_ALIGN_DOWN a"
    by (simp_all add: page_offset_def)
qed

lemma touched_offset: "int (touched a nbytes) = (int (page_offset a) + uint nbytes + 4095) div 4096"
proof -
  have "uint a + uint nbytes + 4095 = int (page_offset a) + uint nbytes + 4095 + 4096 * (uint a div 4096)"
    by (simp add: page_offset(1) mod_div_mult_eq)
  then have "(uint a + uint nbytes + 4095) div 4096 = (int (page_offset a) + uint nbytes + 4095) div 4096 + uint a div 4096"
    by simp
  then show ?thesis by (simp add: touched_def pos_imp_zdiv_nonneg_iff)
qed

lemma touched_within:
  assumes "uint a + uint nbytes + 4095 < 2 ^ 64" and "k < unat nbytes"
  shows "(page_offset a + k) div 4096 < touched a nbytes"
proof -
  have "int k < int (unat nbytes)" using assms(2) by (rule of_nat_less_iff [THEN iffD2])
  then have "int k + 1 \<le> uint nbytes" by simp
  then have "(int (page_offset a) + int k) div 4096 + 1 \<le> (int (page_offset a) + uint nbytes + 4095) div 4096" by linarith
  then show ?thesis using touched_offset [of a nbytes] by (simp flip: zdiv_int of_nat_less_iff)
qed

lemma vmm_alloc_pages:
  assumes ok: "mm_ok s ps" and len: "nbytes \<noteq> 0" "uint nbytes + 4095 < 2 ^ 64"
    and free: "touched 0 nbytes \<le> card (free_pages s ps)"
    and room: "range_ok s (next_alloc s) (touched 0 nbytes)"
  shows "\<exists>s' ps'. vmm_alloc nbytes s = Inr (next_alloc s, s') \<and>
    next_alloc s' = next_alloc s + PAGE_ALIGN_UP nbytes \<and>
    (\<forall>i < touched 0 nbytes. page_entry s' (page_at (next_alloc s) i) = Some PAGE_ALLOCATED) \<and>
    confined (range_paths (next_alloc s) (touched 0 nbytes)) s ps s' ps'"
proof -
  have pb: "pages_between (next_alloc s) (next_alloc s + PAGE_ALIGN_UP nbytes) = touched 0 nbytes"
    and up: "uint (PAGE_ALIGN_UP nbytes) = 4096 * int (touched 0 nbytes)"
    using pages_between_touched [of 0 nbytes] len(2)
    by (simp_all add: pages_between_def PAGE_ALIGN_DOWN_def)
  have "PAGE_ALIGN_UP nbytes = PAGE_SIZE * of_nat (touched 0 nbytes)"
  proof -
    have "PAGE_ALIGN_UP nbytes = word_of_int (uint (PAGE_ALIGN_UP nbytes))" by simp
    also have "\<dots> = PAGE_SIZE * of_nat (touched 0 nbytes)" unfolding up by (simp add: PAGE_SIZE_def)
    finally show ?thesis .
  qed
  then have "page_at (next_alloc s) (touched 0 nbytes) = next_alloc s + PAGE_ALIGN_UP nbytes"
    by (simp add: page_at_def)
  with alloc_loop [OF ok free room] len(1) pb show ?thesis by (fastforce simp: vmm_alloc_def Let_def)
qed

lemma vmm_map_pages:
  assumes ok: "mm_ok s ps" and nbytes: "nbytes \<noteq> 0" "uint pa + uint nbytes + 4095 < 2 ^ 64"
    and free: "touched pa nbytes \<le> card (free_pages s ps)"
    and room: "range_ok s (next_alloc s) (touched pa nbytes)"
    and heap: "uint (next_alloc s) mod 4096 = 0"
      "uint (next_alloc s) + 4096 * int (touched pa nbytes) \<le> uint KERNEL_HEAP_END"
    and frames: "\<forall>i < touched pa nbytes. frame_of (page_at (PAGE_ALIGN_DOWN pa) i) \<notin> free_pages s ps"
  shows "\<exists>s' ps'. vmm_map pa nbytes s = Inr (next_alloc s + (pa - PAGE_ALIGN_DOWN pa), s') \<and>
    (\<forall>i < touched pa nbytes.
       walk (ram s') (cr3 s') (page_at (next_alloc s) i) = Some (frame_of (page_at (PAGE_ALIGN_DOWN pa) i)) \<and>
       page_entry s' (page_at (next_alloc s) i) \<noteq> None) \<and>
    confined (range_paths (next_alloc s) (touched pa nbytes)) s ps s' ps'"
proof -
  let ?b = "PAGE_ALIGN_DOWN pa" and ?e = "PAGE_ALIGN_UP (pa + nbytes)" and ?n = "touched pa nbytes"
  let ?va = "next_alloc s"
  note pb = pages_between_touched [OF nbytes(2)]
  have pos: "0 < ?n" using touched_within [OF nbytes(2), of 0] nbytes(1) by (simp add: unat_gt_0)
  have ne: "?e - ?b \<noteq> 0" using pb(2) pos by auto
  have tn: "touched 0 (?e - ?b) = ?n" using pb(2) by (simp add: touched_def)
  have "uint KERNEL_HEAP_END + 4095 < 2 ^ 64" by (simp add: KERNEL_HEAP_END_def)
  then have lim: "uint (?e - ?b) + 4095 < 2 ^ 64"
    unfolding pb(2) using heap(2) uint_ge_0 [of ?va] by linarith
  obtain s1 ps1 where 1: "vmm_alloc (?e - ?b) s = Inr (?va, s1)"
    "\<forall>i < ?n. page_entry s1 (page_at ?va i) = Some PAGE_ALLOCATED" "confined (range_paths ?va ?n) s ps s1 ps1"
    using vmm_alloc_pages [OF ok ne lim] free room tn by auto
  note c1 = confinedD [OF 1(3)]
  have n36: "?n < 2 ^ 36" using room by (simp add: range_ok_def)
  have "\<forall>i < ?n. outside (page_at ?va i) \<and> (\<exists>e. page_entry s1 (page_at ?va i) = Some e \<and> \<not> present e) \<and>
      frame_of (page_at ?b i) \<notin> free_pages s1 ps1"
    using room 1(2) frames c1(7) unfolding range_ok_def by auto
  then obtain s2 where 2: "vmm_map_loop ?n ?b ?va s1 = Inr s2" "confined (range_paths ?va ?n) s1 ps1 s2 ps1"
    "\<forall>i < ?n. walk (ram s2) (cr3 s2) (page_at ?va i) = Some (frame_of (page_at ?b i)) \<and>
       page_entry s2 (page_at ?va i) \<noteq> None"
    using map_loop [OF c1(1) n36] by blast
  have "\<not> ?va + ?e - ?b > KERNEL_HEAP_END"
  proof -
    have "uint (?va + (?e - ?b)) = uint ?va + 4096 * int ?n"
      using pb(2) heap(2) by (subst uint_plus) (simp_all add: KERNEL_HEAP_END_def)
    then show ?thesis using heap(2) by (simp add: word_less_def add_diff_eq)
  qed
  then have run: "vmm_map pa nbytes s = Inr (?va + (pa - ?b), s2)"
    using 1(1) 2(1) pb(1) by (simp add: vmm_map_def Let_def)
  have "confined (range_paths ?va ?n) s ps s2 ps1" using confined_trans [OF 1(3) 2(2)] by simp
  with run 2(3) show ?thesis by blast
qed

lemma vmm_unmap_pages:
  assumes ok: "mm_ok s ps" and nbytes: "uint a + uint nbytes + 4095 < 2 ^ 64" and n: "touched a nbytes < 2 ^ 36"
    and pages: "\<forall>i < touched a nbytes. outside (page_at (PAGE_ALIGN_DOWN a) i) \<and>
      page_entry s (page_at (PAGE_ALIGN_DOWN a) i) \<noteq> None"
  shows "\<exists>s'. vmm_unmap a nbytes s = Inr (0, s') \<and>
    (\<forall>i < touched a nbytes. walk (ram s') (cr3 s') (page_at (PAGE_ALIGN_DOWN a) i) = None) \<and>
    confined (range_paths (PAGE_ALIGN_DOWN a) (touched a nbytes)) s ps s' ps"
  using unmap_loop [OF ok n pages] pages_between_touched(1) [OF nbytes]
  by (auto simp: vmm_unmap_def Let_def)

end
