(* ===== verification/Tlb.thy ===== *)
theory Tlb
  imports Vmm_Range
begin

text \<open>
  The translation cache of the processor (TLB) beside the page tables. The processor may hold any translation it has found in the
  tables until the address is invalidated with \<open>invlpg\<close>; a write to the tables alone does not change what it
  holds. The log \<open>invlpg_log\<close> of the model says which addresses an operation of \<^verbatim>\<open>kernel/x86/vmm.c\<close> invalidates.
\<close>

section \<open>The log of invalidated addresses only grows\<close>

definition log_grows :: "'a mm_scheme \<Rightarrow> 'a mm_scheme \<Rightarrow> bool" where
  "log_grows s s' \<longleftrightarrow> (\<exists>new. invlpg_log s' = new @ invlpg_log s)"

lemma log_grows_same: "invlpg_log s' = invlpg_log s \<Longrightarrow> log_grows s s'"
  by (simp add: log_grows_def)

lemma log_grows_trans: "log_grows s t \<Longrightarrow> log_grows t u \<Longrightarrow> log_grows s u"
  by (auto simp: log_grows_def)

lemma log_steps [simp]:
  "invlpg_log (write_word f i v s) = invlpg_log s" "invlpg_log (zero_frame f s) = invlpg_log s"
  "invlpg_log (vmm_invalidate va s) = va # invlpg_log s"
  by (simp_all add: write_word_def zero_frame_def vmm_invalidate_def)

lemma log_grows_steps [simp]:
  "log_grows s (write_word f i v s)" "log_grows s (zero_frame f s)" "log_grows s (vmm_invalidate va s)" "log_grows s s"
  by (simp_all add: log_grows_def)

definition stores_grow :: "'a storer \<Rightarrow> bool" where
  "stores_grow st \<longleftrightarrow> (\<forall>va v s s'. st va v s = Inr s' \<longrightarrow> log_grows s s')"

lemma stores_growD: "stores_grow st \<Longrightarrow> st va v s = Inr s' \<Longrightarrow> log_grows s s'"
  by (simp add: stores_grow_def)

lemma zero_page_grows: "stores_grow st \<Longrightarrow> zero_page_via st va s = Inr s' \<Longrightarrow> log_grows s s'"
  by (auto simp: zero_page_via_def outcome_simps dest!: stores_growD intro: log_grows_trans log_grows_steps split: option.splits)

lemma alloc_page_grows:
  assumes st: "stores_grow st" and run: "pmm_alloc_page_via st s = Inr (p, s')"
  shows "log_grows s s'"
proof (cases "pmm_stack_top s \<noteq> PMM_STACK_VMA")
  case True
  let ?t = "s\<lparr>pmm_stack_top := pmm_stack_top s - 8\<rparr>"
  obtain u where u: "(if IS_PAGE_ALIGNED (pmm_stack_top ?t) then vmm_unmap_page_via st (pmm_stack_top ?t) ?t else Inr ?t) = Inr u"
    and s': "s' = u\<lparr>pmm_free_memory := pmm_free_memory u - PAGE_SIZE\<rparr>"
    using run True by (auto simp: pmm_alloc_page_via_def outcome_simps Let_def)
  have "log_grows s ?t" "log_grows u s'" by (simp_all add: log_grows_same s')
  moreover have "log_grows ?t u" using u stores_growD [OF st] by (auto simp: vmm_unmap_page_via_def split: if_splits)
  ultimately show ?thesis by (blast intro: log_grows_trans)
next
  case False
  then show ?thesis
    using run by (auto simp: pmm_alloc_page_via_def alloc_from_regions_def outcome_simps Let_def log_grows_same split: if_splits)
qed

lemma fault_grows:
  assumes st: "stores_grow st" and run: "vmm_page_fault_handler_via st a e s = Inr (r, s')"
  shows "log_grows s s'"
proof -
  obtain page entry u v where "pmm_alloc_page_via st s = Inr (page, u)" "st (entry_addr pm1_base (index1 (PAGE_ALIGN_DOWN a))) entry u = Inr v"
    "zero_page_via st (PAGE_ALIGN_DOWN a) (vmm_invalidate (PAGE_ALIGN_DOWN a) v) = Inr s'"
    using run by (auto simp: vmm_page_fault_handler_via_def outcome_simps Let_def simp del: index1_align_down split: if_splits)
  then have "log_grows s u" "log_grows u v" "log_grows (vmm_invalidate (PAGE_ALIGN_DOWN a) v) s'"
    using alloc_page_grows [OF st] stores_growD [OF st] zero_page_grows [OF st] by blast+
  then show ?thesis by (blast intro: log_grows_trans log_grows_steps(3))
qed

lemma store_grows: "stores_grow (store n)"
proof (induction n)
  case 0
  show ?case by (auto simp: stores_grow_def store.simps split: option.splits)
next
  case (Suc n)
  show ?case unfolding stores_grow_def
    by (subst store.simps) (auto simp: outcome_simps split: option.splits
        dest!: fault_grows [OF Suc] stores_growD [OF Suc] intro: log_grows_trans)
qed

lemma put_grows: "stores_grow put"
  by (simp add: put_def store_grows)

lemma ensure_table_grows:
  assumes "vmm_ensure_table entry window s = Inr s'"
  shows "log_grows s s'"
proof (cases "s' = s")
  case False
  then obtain page u v where "pmm_alloc_page s = Inr (page, u)" "put entry (page OR PAGE_WRITE OR PAGE_PRESENT) u = Inr v"
    "zero_page_via put window (vmm_invalidate window v) = Inr s'"
    using assms by (auto simp: vmm_ensure_table_def outcome_simps split: if_splits)
  then have "log_grows s u" "log_grows u v" "log_grows (vmm_invalidate window v) s'"
    using alloc_page_grows [OF put_grows] stores_growD [OF put_grows] zero_page_grows [OF put_grows]
    unfolding pmm_alloc_page_def by blast+
  then show ?thesis by (blast intro: log_grows_trans log_grows_steps(3))
qed simp

lemma map_page_log:
  assumes "vmm_map_page pa va s = Inr (r, s')"
  shows "\<exists>new. invlpg_log s' = va # new @ invlpg_log s"
proof -
  obtain t u where t: "vmm_map_tables va s = Inr t"
    and u: "put (entry_addr pm1_base (index1 va)) (pa OR PAGE_WRITE OR PAGE_PRESENT) t = Inr u" "s' = vmm_invalidate va u"
    using assms by (auto simp: vmm_map_page_tables outcome_simps split: if_splits)
  have "log_grows s t"
    using t by (auto simp: vmm_map_tables_def outcome_simps dest!: ensure_table_grows intro: log_grows_trans)
  then have "log_grows s u" using stores_growD [OF put_grows u(1)] by (rule log_grows_trans)
  then show ?thesis by (simp add: log_grows_def u(2))
qed

lemma alloc_loop_grows: "vmm_alloc_loop n s = Inr s' \<Longrightarrow> log_grows s s'"
proof (induction n arbitrary: s)
  case (Suc n)
  obtain t where t: "put (entry_addr pm1_base (index1 (next_alloc s))) PAGE_ALLOCATED s = Inr t"
    "vmm_alloc_loop n ((vmm_invalidate (next_alloc t) t)\<lparr>next_alloc := next_alloc (vmm_invalidate (next_alloc t) t) + PAGE_SIZE\<rparr>) = Inr s'"
    using Suc.prems by (auto simp: outcome_simps Let_def)
  let ?u = "(vmm_invalidate (next_alloc t) t)\<lparr>next_alloc := next_alloc (vmm_invalidate (next_alloc t) t) + PAGE_SIZE\<rparr>"
  have "log_grows t ?u" by (simp add: log_grows_def)
  then show ?case using stores_growD [OF put_grows t(1)] Suc.IH [OF t(2)] log_grows_trans by blast
qed simp

lemma map_loop_log:
  "vmm_map_loop n page va s = Inr s' \<Longrightarrow> \<exists>new. invlpg_log s' = new @ invlpg_log s \<and> (\<forall>i < n. page_at va i \<in> set new)"
proof (induction n arbitrary: page va s)
  case (Suc n)
  obtain r t where t: "vmm_map_page page va s = Inr (r, t)" "vmm_map_loop n (page + PAGE_SIZE) (va + PAGE_SIZE) t = Inr s'"
    using Suc.prems by (auto simp: outcome_simps)
  obtain new where new: "invlpg_log s' = new @ invlpg_log t" "\<forall>i < n. page_at (va + PAGE_SIZE) i \<in> set new"
    using Suc.IH [OF t(2)] by blast
  obtain old where old: "invlpg_log t = va # old @ invlpg_log s" using map_page_log [OF t(1)] by blast
  have "page_at va i \<in> set (new @ va # old)" if "i < Suc n" for i
    using that new(2) by (cases i) (simp_all add: page_at_Suc)
  then show ?case using new(1) old by (intro exI [of _ "new @ va # old"]) simp
qed simp

lemma vmm_map_log:
  assumes run: "vmm_map pa nbytes s = Inr (va, s')" and len: "nbytes \<noteq> 0" "uint pa + uint nbytes + 4095 < 2 ^ 64"
  shows "\<exists>new. invlpg_log s' = new @ invlpg_log s \<and> (\<forall>i < touched pa nbytes. page_at (next_alloc s) i \<in> set new)"
proof -
  let ?b = "PAGE_ALIGN_DOWN pa" and ?l = "PAGE_ALIGN_UP (pa + nbytes)"
  have n: "pages_between ?b ?l = touched pa nbytes" using pages_between_touched(1) [OF len(2)] .
  obtain v t where t: "vmm_alloc (?l - ?b) s = Inr (v, t)" "vmm_map_loop (touched pa nbytes) ?b v t = Inr s'"
    using run n by (auto simp: vmm_map_def Let_def outcome_simps split: if_splits)
  have nz: "?l - ?b \<noteq> 0"
  proof
    assume "?l - ?b = 0"
    then have "touched pa nbytes = 0" using n by (simp add: pages_between_def)
    then show False using touched_within [OF len(2), of 0] len(1) by (simp add: unat_gt_0)
  qed
  then have v: "v = next_alloc s" and "log_grows s t"
    using t(1) by (auto simp: vmm_alloc_def Let_def outcome_simps dest: alloc_loop_grows)
  then show ?thesis using map_loop_log [OF t(2)] by (fastforce simp: log_grows_def)
qed

section \<open>\<open>vmm_unmap\<close> invalidates nothing\<close>

lemma unmap_page_log:
  assumes ok: "mm_ok s ps" and e: "page_entry s va \<noteq> None" and run: "vmm_unmap_page va s = Inr s'"
  shows "invlpg_log s' = invlpg_log s"
proof -
  obtain g where g: "node (ram s) (cr3 s) (upper va) = Some g" using e by (auto simp: page_entry_def)
  show ?thesis
    using put_window [OF recursive_tree [OF mm_ok_tree [OF ok]] g, of 0] run
    by (simp add: vmm_unmap_page_def vmm_unmap_page_via_def) (metis log_steps(1))
qed

lemma unmap_loop_log:
  "mm_ok s ps \<Longrightarrow> n < 2 ^ 36 \<Longrightarrow> (\<forall>i < n. outside (page_at va i) \<and> page_entry s (page_at va i) \<noteq> None) \<Longrightarrow>
   vmm_unmap_loop n va s = Inr s' \<Longrightarrow> invlpg_log s' = invlpg_log s"
proof (induction n arbitrary: s va)
  case (Suc n)
  have 0: "outside va" "page_entry s va \<noteq> None"
    using Suc.prems(3) page_at_0 by (metis zero_less_Suc)+
  obtain t where t: "vmm_unmap_page va s = Inr t" "vmm_unmap_loop n (va + PAGE_SIZE) t = Inr s'"
    using Suc.prems(4) by (auto simp: outcome_simps)
  have c: "confined {path va} s ps t ps" using unmap_confined [OF Suc.prems(1) 0] t(1) by auto
  have later: "path va \<notin> range_paths (va + PAGE_SIZE) n" using path_not_later Suc.prems(2) by simp
  have "\<forall>i < n. outside (page_at (va + PAGE_SIZE) i) \<and> page_entry t (page_at (va + PAGE_SIZE) i) \<noteq> None"
  proof (intro allI impI)
    fix i assume i: "i < n"
    have p: "outside (page_at (va + PAGE_SIZE) i)" "page_entry s (page_at (va + PAGE_SIZE) i) \<noteq> None"
      using Suc.prems(3) [rule_format, of "Suc i"] i by (auto simp: page_at_Suc)
    have "path (page_at (va + PAGE_SIZE) i) \<noteq> path va" using later in_range_path [OF i] by metis
    then show "outside (page_at (va + PAGE_SIZE) i) \<and> page_entry t (page_at (va + PAGE_SIZE) i) \<noteq> None"
      using p confinedD(3) [OF c p(1)] by blast
  qed
  then have "invlpg_log s' = invlpg_log t" using Suc.IH [OF confinedD(1) [OF c] _ _ t(2)] Suc.prems(2) by simp
  then show ?case using unmap_page_log [OF Suc.prems(1) 0(2) t(1)] by simp
qed simp

lemma vmm_unmap_log:
  assumes "mm_ok s ps" and "uint a + uint nbytes + 4095 < 2 ^ 64" and "touched a nbytes < 2 ^ 36"
    and "\<forall>i < touched a nbytes. outside (page_at (PAGE_ALIGN_DOWN a) i) \<and> page_entry s (page_at (PAGE_ALIGN_DOWN a) i) \<noteq> None"
    and "vmm_unmap a nbytes s = Inr (r, s')"
  shows "invlpg_log s' = invlpg_log s"
  using unmap_loop_log [OF assms(1,3,4)] assms(5) pages_between_touched(1) [OF assms(2)]
  by (auto simp: vmm_unmap_def Let_def outcome_simps)

section \<open>The cache\<close>

text \<open>
  The translations the processor holds, by address. It is consistent if every one of them (of the addresses outside the windows and
  the stack of pages) is in the page tables. \<open>tlb_after s s' T\<close> is what is left of \<open>T\<close> after an operation that
  takes the machine from \<open>s\<close> to \<open>s'\<close>: everything but the pages of the addresses it has invalidated.
\<close>

type_synonym tlb = "u64 \<Rightarrow> u64 option"

definition tlb_consistent :: "'a mm_scheme \<Rightarrow> tlb \<Rightarrow> bool" where
  "tlb_consistent s T \<longleftrightarrow> (\<forall>va f. outside va \<longrightarrow> T va = Some f \<longrightarrow> walk (ram s) (cr3 s) va = Some f)"

definition invlpgs :: "'a mm_scheme \<Rightarrow> 'a mm_scheme \<Rightarrow> u64 list" where
  "invlpgs s s' = take (length (invlpg_log s') - length (invlpg_log s)) (invlpg_log s')"

definition tlb_after :: "'a mm_scheme \<Rightarrow> 'a mm_scheme \<Rightarrow> tlb \<Rightarrow> tlb" where
  "tlb_after s s' T = (\<lambda>va. if path va \<in> path ` set (invlpgs s s') then None else T va)"

lemma invlpgs_new: "invlpg_log s' = new @ invlpg_log s \<Longrightarrow> invlpgs s s' = new"
  by (simp add: invlpgs_def)

lemma tlb_after_silent: "invlpg_log s' = invlpg_log s \<Longrightarrow> tlb_after s s' T = T"
  using invlpgs_new [of s' "[]" s] by (simp add: tlb_after_def)

lemma map_keeps_tlb:
  assumes c: "confined (range_paths (next_alloc s) n) s ps s' ps'" and T: "tlb_consistent s T"
    and new: "invlpg_log s' = new @ invlpg_log s" "\<forall>i < n. page_at (next_alloc s) i \<in> set new"
  shows "tlb_consistent s' (tlb_after s s' T)"
  unfolding tlb_consistent_def
proof (intro allI impI)
  fix va f assume va: "outside va" and f: "tlb_after s s' T va = Some f"
  then have not: "path va \<notin> path ` set new" and "T va = Some f"
    by (auto simp: tlb_after_def invlpgs_new [OF new(1)] split: if_splits)
  then have "walk (ram s) (cr3 s) va = Some f" using T va by (simp add: tlb_consistent_def)
  moreover have "path va \<notin> range_paths (next_alloc s) n" using not new(2) by (auto simp: range_paths_def)
  ultimately show "walk (ram s') (cr3 s') va = Some f" using confinedD(2) [OF c va] by simp
qed

text \<open>After an operation that only takes translations away and invalidates nothing, what a consistent cache still holds.\<close>

lemma unmapped_tlb:
  assumes T: "tlb_consistent s T"
    and gone: "\<And>va. outside va \<Longrightarrow> walk (ram s') (cr3 s') va = (if path va \<in> P then None else walk (ram s) (cr3 s) va)"
  shows "tlb_consistent s' T \<longleftrightarrow> (\<forall>va. outside va \<and> path va \<in> P \<longrightarrow> T va = None)"
proof
  assume c: "tlb_consistent s' T"
  show "\<forall>va. outside va \<and> path va \<in> P \<longrightarrow> T va = None"
  proof (intro allI impI)
    fix va assume "outside va \<and> path va \<in> P"
    then show "T va = None" using c gone [of va] by (cases "T va") (auto simp: tlb_consistent_def)
  qed
next
  assume none: "\<forall>va. outside va \<and> path va \<in> P \<longrightarrow> T va = None"
  show "tlb_consistent s' T" unfolding tlb_consistent_def
  proof (intro allI impI)
    fix va f assume va: "outside va" "T va = Some f"
    then have "path va \<notin> P" using none by auto
    then show "walk (ram s') (cr3 s') va = Some f" using va T gone [OF va(1)] by (simp add: tlb_consistent_def)
  qed
qed

end
