(* ===== verification/Pmm_Stack.thy ===== *)
theory Pmm_Stack
  imports Vmm_Spec
begin

text \<open>
  \<open>pmm_free_page\<close> of \<^verbatim>\<open>kernel/x86/pmm.c\<close> when the stack of free pages reaches a virtual page whose page table is missing:
  \<open>vmm_map_page\<close> then calls \<open>pmm_alloc_page\<close> for the table, which pops the stack that is being pushed to, and
  \<open>*pmm_stack_top++ = page\<close> stores at the moved top.
\<close>

section \<open>Tables taken from the stack\<close>

lemma ensure_from_stack:
  assumes ok: "mm_ok s ps" and ne: "ps \<noteq> []" and us: "length us \<le> 2" "table_path (us @ [i])"
    and w: "window_of us i entry window" and g: "node (ram s) (cr3 s) us = Some g"
  obtains s' qs h where "vmm_ensure_table entry window s = Inr s'" and "grown s ps s' qs"
    and "node (ram s') (cr3 s') (us @ [i]) = Some h" and "length ps \<le> length qs + 1" and "length qs = length ps \<longrightarrow> s' = s"
proof (cases "present (ram s g i)")
  case True
  have "node (ram s) (cr3 s) (us @ [i]) = Some (frame_of (ram s g i))" using g True by (simp add: node_append)
  then show ?thesis
    using that [of s ps] ensure_table_present [OF w recursive_tree [OF mm_ok_tree [OF ok]] g True] grown_refl [OF ok] by simp
next
  case False
  obtain qs p where ps: "ps = qs @ [p]" using ne by (cases ps rule: rev_cases) auto
  obtain s1 where alloc: "pmm_alloc_page s = Inr (p, s1)" and step: "alloc_step s ps p s1 qs"
    using alloc_from_stack ok unfolding ps by blast
  let ?e = "p OR PAGE_WRITE OR PAGE_PRESENT"
  have e: "present ?e" "frame_of ?e = p" using step entry_table by (simp_all add: alloc_step_def)
  have "load s entry = Inr (ram s g i)"
    using w g mm_ok_tree [OF ok] by (simp add: window_of_def load_mapped)
  then have "vmm_ensure_table entry window s = write_table put entry ?e window s1"
    using False alloc by (simp add: vmm_ensure_table_def write_table_def)
  with write_table_step [OF ok us w g False step e direct_put] that show ?thesis by (auto simp: ps)
qed

lemma map_tables_from_stack:
  assumes ok: "mm_ok s ps" and len: "3 \<le> length ps" and va: "ix4 va \<noteq> 510"
  obtains t qs g where "vmm_map_tables va s = Inr t" and "grown s ps t qs"
    and "node (ram t) (cr3 t) (upper va) = Some g" and "length ps \<le> length qs + 3" and "length qs = length ps \<longrightarrow> t = s"
proof -
  note tp = table_path_tables [OF va]
  have n0: "ps \<noteq> []" using len by auto
  obtain s1 ps1 h1 where 1: "vmm_ensure_table (entry_addr pm4_base (index4 va)) (table_page pm3_base (index4 va)) s = Inr s1"
      "grown s ps s1 ps1" "node (ram s1) (cr3 s1) ([] @ [ix4 va]) = Some h1"
      "length ps \<le> length ps1 + 1" "length ps1 = length ps \<longrightarrow> s1 = s"
    by (rule ensure_from_stack [OF ok n0 _ _ windows(1) node.simps(1)]) (use tp in simp_all)
  have n1: "ps1 \<noteq> []" using 1(4) len by auto
  obtain s2 ps2 h2 where 2: "vmm_ensure_table (entry_addr pm3_base (index3 va)) (table_page pm2_base (index3 va)) s1 = Inr s2"
      "grown s1 ps1 s2 ps2" "node (ram s2) (cr3 s2) ([ix4 va] @ [ix3 va]) = Some h2"
      "length ps1 \<le> length ps2 + 1" "length ps2 = length ps1 \<longrightarrow> s2 = s1"
    by (rule ensure_from_stack [OF grown_ok [OF 1(2)] n1 _ _ windows(2) 1(3) [unfolded append_Nil]]) (use tp in simp_all)
  have n2: "ps2 \<noteq> []" using 1(4) 2(4) len by auto
  have h2: "node (ram s2) (cr3 s2) [ix4 va, ix3 va] = Some h2" using 2(3) by (simp del: node.simps)
  obtain s3 ps3 h3 where 3: "vmm_ensure_table (entry_addr pm2_base (index2 va)) (table_page pm1_base (index2 va)) s2 = Inr s3"
      "grown s2 ps2 s3 ps3" "node (ram s3) (cr3 s3) ([ix4 va, ix3 va] @ [ix2 va]) = Some h3"
      "length ps2 \<le> length ps3 + 1" "length ps3 = length ps2 \<longrightarrow> s3 = s2"
    by (rule ensure_from_stack [OF grown_ok [OF 2(2)] n2 _ _ windows(3) h2]) (use tp in simp_all)
  have le: "length ps1 \<le> length ps" "length ps2 \<le> length ps1" "length ps3 \<le> length ps2"
    using 1(2) 2(2) 3(2) by (simp_all add: grownD prefix_length_le)
  show ?thesis
  proof (rule that)
    show "vmm_map_tables va s = Inr s3" using 1(1) 2(1) 3(1) by (simp add: vmm_map_tables_def)
    show "grown s ps s3 ps3" using 1(2) 2(2) 3(2) by (blast intro: grown_trans)
    show "node (ram s3) (cr3 s3) (upper va) = Some h3" using 3(3) by (simp add: upper_def del: node.simps)
    show "length ps \<le> length ps3 + 3" using 1(4) 2(4) 3(4) by simp
    show "length ps3 = length ps \<longrightarrow> s3 = s" using le 1(5) 2(5) 3(5) by auto
  qed
qed

section \<open>The push after the pop\<close>

text \<open>No list of pages is the stack of a state in which a page above the top is mapped.\<close>

lemma mapped_above_top:
  assumes "pmm_stack_top s = stack_addr m" and "m \<le> n" and "n < 2 ^ 36" and "n mod 512 = 0"
    and "walk (ram s) (cr3 s) (stack_addr n) \<noteq> None"
  shows "\<not> mm_ok s qs"
proof
  assume "mm_ok s qs"
  then have fs: "free_stack s qs" by (simp add: mm_ok_def)
  then have "length qs = m" using assms(1-3) stack_addr_inj [of m "length qs"] by (simp add: free_stack_def)
  moreover have "n div 512 * 512 = n" using assms(4) div_mult_mod_eq [of n 512] by simp
  ultimately show False using fs assms(2,3,5) by (auto simp: free_stack_def)
qed

text \<open>Storing a page at the top of the stack, below a virtual page that has been mapped.\<close>

lemma push_below:
  assumes ok: "mm_ok t qs" and m: "m = length qs" "m mod 512 \<noteq> 0" "m div 512 \<noteq> n div 512" and n: "n < 2 ^ 36"
    and w: "table_tree (ram w) (cr3 w)" "table_frames (ram w) (cr3 w) = table_frames (ram t) (cr3 t)"
      "pmm_stack_top w = pmm_stack_top t" "walk (ram w) (cr3 w) (stack_addr n) = Some page"
    and same: "\<And>vb. ix4 vb \<noteq> 510 \<Longrightarrow> path vb \<noteq> path (stack_addr n) \<Longrightarrow> walk (ram w) (cr3 w) vb = walk (ram t) (cr3 t) vb"
  obtains u B where "put (pmm_stack_top w) page w = Inr u" and "pmm_stack_top u = stack_addr m"
    and "walk (ram u) (cr3 u) (stack_addr n) = Some page"
    and "walk (ram u) (cr3 u) (stack_addr m) = Some B" and "ram u B (of_nat (m mod 512)) = page"
proof -
  have fs: "free_stack t qs" using ok by (simp add: mm_ok_def)
  have m36: "m < 2 ^ 36" using fs m(1) by (simp add: free_stack_def)
  obtain k where k: "m = Suc k" using m(2) by (cases m) auto
  have eq: "k div 512 = m div 512" using k m(2) by (simp add: div_Suc mod_Suc split: if_splits)
  let ?B = "qs ! (k div 512 * 512)"
  have "walk (ram t) (cr3 t) (stack_addr k) = Some ?B" using fs m(1) k by (simp add: free_stack_def)
  moreover have "path (stack_addr m) = path (stack_addr k)" using path_stack_eq [of m k] m36 k eq by simp
  ultimately have "walk (ram t) (cr3 t) (stack_addr m) = Some ?B" using walk_path by metis
  then have at: "walk (ram w) (cr3 w) (stack_addr m) = Some ?B"
    using same [of "stack_addr m"] ix4_stack [OF m36] path_stack_eq [OF m36 n] m(3) by simp
  let ?u = "write_word ?B (of_nat (m mod 512)) page w"
  have top: "pmm_stack_top w = stack_addr m" using fs w(3) m(1) by (simp add: free_stack_def)
  have run: "put (pmm_stack_top w) page w = Inr ?u"
    using put_mapped [OF at] top slot_stack [OF m36] by simp
  have "k div 512 * 512 < length qs" using k m(1) by (metis div_times_less_eq_dividend le_imp_less_Suc)
  then have "?B \<in> free_pages t qs" by (simp add: free_pages_def)
  then have notab: "?B \<notin> table_frames (ram w) (cr3 w)" using free_not_table [OF ok] w(2) by auto
  have pd: "walk (ram ?u) (cr3 ?u) va = walk (ram w) (cr3 w) va" if "ix4 va \<noteq> 510" for va
    using put_data(3) [OF w(1) notab that] by (simp add: put_entry_def)
  show ?thesis
  proof (rule that [OF run])
    show "walk (ram ?u) (cr3 ?u) (stack_addr n) = Some page" using pd ix4_stack [OF n] w(4) by simp
    show "walk (ram ?u) (cr3 ?u) (stack_addr m) = Some ?B" using pd ix4_stack [OF m36] at by simp
    show "pmm_stack_top ?u = stack_addr m" using top by (simp add: write_word_def)
  qed (simp add: put_entry_at)
qed

lemma below_block:
  fixes m n :: nat
  assumes "n mod 512 = 0" and "m < n" and "n \<le> m + 3"
  shows "m mod 512 \<noteq> 0" and "m div 512 \<noteq> n div 512"
proof -
  obtain d where d: "n = m + d" "0 < d" "d \<le> 3" using assms(2,3) by (metis less_imp_add_positive nat_add_left_cancel_le)
  show "m mod 512 \<noteq> 0"
  proof
    assume "m mod 512 = 0"
    then have "n mod 512 = d mod 512" using d(1) by (metis add_0 mod_add_left_eq)
    then show False using assms(1) d by simp
  qed
  show "m div 512 \<noteq> n div 512"
  proof
    assume "m div 512 = n div 512"
    then have "512 * (m div 512) = n" using assms(1) mult_div_mod_eq [of 512 n] by simp
    then show False using assms(2) div_times_less_eq_dividend [of m 512] by simp
  qed
qed

lemma free_page_reentrant:
  assumes ok: "mm_ok s ps" and n: "length ps < 2 ^ 36" "length ps mod 512 = 0" "ps \<noteq> []"
    and missing: "page_entry s (stack_addr (length ps)) = None" and page: "is_frame page"
  shows "\<exists>s' s''. pmm_free_page page s = Inr s' \<and> (\<forall>qs. \<not> mm_ok s' qs) \<and>
    pmm_alloc_page s' = Inr (page, s'') \<and> walk (ram s'') (cr3 s'') (stack_addr (length ps)) = Some page"
proof -
  let ?n = "length ps" and ?a = "stack_addr (length ps)"
  have "?n \<noteq> 0" using n(3) by simp
  then have big: "512 \<le> ?n" using n(2) by presburger
  have three: "3 \<le> ?n" using big by simp
  have a510: "ix4 ?a \<noteq> 510" using ix4_stack [OF n(1)] by simp
  have top: "pmm_stack_top s = ?a" using ok by (simp add: mm_ok_def free_stack_def)
  obtain t qs g where t: "vmm_map_tables ?a s = Inr t" "grown s ps t qs" "node (ram t) (cr3 t) (upper ?a) = Some g"
    "?n \<le> length qs + 3" "length qs = ?n \<longrightarrow> t = s"
    by (rule map_tables_from_stack [OF ok three a510])
  note okt = grownD(2) [OF t(2)]
  let ?m = "length qs"
  have "?m \<noteq> ?n" using t(3,5) missing by (auto simp: page_entry_def)
  then have mn: "?m < ?n" using prefix_length_le [OF grownD(3) [OF t(2)]] by simp
  have m: "?m mod 512 \<noteq> 0" "?m div 512 \<noteq> ?n div 512"
    using below_block [OF n(2) mn t(4)] by simp_all
  have m36: "?m < 2 ^ 36" using mn n(1) by simp
  have "walk (ram t) (cr3 t) ?a = None"
    using okt mn n(1,2) div_mult_mod_eq [of ?n 512] by (simp add: mm_ok_def free_stack_def)
  then have "\<not> present (ram t g (ix1 ?a))" using walk_none_leaf [OF t(3)] by simp
  then have run: "vmm_map_page page ?a s =
      Inr (0, vmm_invalidate ?a (write_word g (ix1 ?a) (page OR PAGE_WRITE OR PAGE_PRESENT) t))"
    using map_page_leaf [OF t(1) _ t(3)] mm_ok_tree [OF okt] by simp
  let ?v = "page OR PAGE_WRITE OR PAGE_PRESENT"
  let ?w = "vmm_invalidate ?a (write_word g (ix1 ?a) ?v t)"
  note wl = write_leaf [OF mm_ok_tree [OF okt] a510 t(3)]
  have fp: "frame_of page = page" using page by (simp add: is_frame_def)
  obtain u B where u: "put (pmm_stack_top ?w) page ?w = Inr u" "pmm_stack_top u = stack_addr ?m"
    "walk (ram u) (cr3 u) ?a = Some page" "walk (ram u) (cr3 u) (stack_addr ?m) = Some B" "ram u B (of_nat (?m mod 512)) = page"
  proof (rule push_below [OF okt refl m n(1)])
    show "table_tree (ram ?w) (cr3 ?w)" using wl(1) by simp
    show "table_frames (ram ?w) (cr3 ?w) = table_frames (ram t) (cr3 t)" using wl(2) by simp
    show "walk (ram ?w) (cr3 ?w) ?a = Some page" using wl(5) [of ?a ?v] by (simp add: entry_flags fp)
    show "walk (ram ?w) (cr3 ?w) vb = walk (ram t) (cr3 t) vb" if "ix4 vb \<noteq> 510" "path vb \<noteq> path ?a" for vb
      using wl(4) [OF that, of ?v] by simp
  qed (simp add: write_word_def vmm_invalidate_def)
  let ?s = "u\<lparr>pmm_stack_top := stack_addr (Suc ?m), pmm_free_memory := pmm_free_memory u + PAGE_SIZE\<rparr>"
  have free: "pmm_free_page page s = Inr ?s"
    using stack_addr_aligned [OF n(1)] n(2) top run u(1,2) by (simp add: pmm_free_page_def stack_addr_Suc)
  have bad: "\<not> mm_ok ?s rs" for rs
    by (rule mapped_above_top [of _ "Suc ?m" ?n]) (use mn n u(3) in simp_all)
  have "stack_addr (Suc ?m) \<noteq> PMM_STACK_VMA"
    using stack_addr_inj [of "Suc ?m" 0] mn n(1) by (simp add: stack_addr_0)
  moreover have "load (?s\<lparr>pmm_stack_top := stack_addr ?m\<rparr>) (stack_addr ?m) = Inr page"
    using u(4,5) slot_stack [OF m36] by (simp add: load_def)
  ultimately have alloc: "pmm_alloc_page ?s = Inr (page, u)"
    using stack_addr_aligned [OF m36] m(1) u(2)
    by (simp add: pmm_alloc_page_def pmm_alloc_page_via_def stack_addr_Suc)
  show ?thesis
    by (rule exI [of _ ?s], rule exI [of _ u]) (intro conjI allI free bad alloc u(3))
qed

end
