(* ===== verification/Memory_Props.thy ===== *)
theory Memory_Props
  imports Tlb Pmm_Stack
begin

text \<open>
  The properties of the memory managers (\<^verbatim>\<open>kernel/x86/pmm.c\<close> and \<^verbatim>\<open>kernel/x86/vmm.c\<close>),
  with a small concrete address space on which each of them is applied.
\<close>

section \<open>A small address space\<close>

text \<open>
  A concrete state of the memory managers for the examples: the root, one table of each
  lower level on the path of the kernel heap, a reserved page, a mapped page, and one free
  region of sixteen pages.
\<close>

definition boot_ram :: ram where
  "boot_ram f i =
     (if f = 0x1000 \<and> i = 510 then 0x1003 else if f = 0x1000 \<and> i = 511 then 0x2003
      else if f = 0x2000 \<and> i = 511 then 0x3003 else if f = 0x3000 \<and> i = 256 then 0x4003
      else if f = 0x4000 \<and> i = 0 then PAGE_ALLOCATED else if f = 0x4000 \<and> i = 1 then 0x200003 else 0)"

definition boot_state :: mm where
  "boot_state = \<lparr>if_flag = False, port_log = [], g_spinLockCount = 0, g_interruptsEnabled = 0,
     IDT = (\<lambda>_. idt_set_null), interrupt_handlers = (\<lambda>_. None),
     ram = boot_ram, cr3 = 0x1000, invlpg_log = [], pmm_system_memory = 0, pmm_free_memory = 0x10000,
     pmm_used_memory = 0, pmm_unavailable_memory = 0, pmm_stack_top = PMM_STACK_VMA,
     s_free_memory = (\<lambda>_. \<lparr>fm_start = 0x100000, fm_end = 0x110000\<rparr>), s_free_memory_count = 1,
     s_free_memory_current = 0, next_alloc = 0xFFFFFFFFE0002000\<rparr>"

lemma boot_fields:
  "ram boot_state = boot_ram" "cr3 boot_state = 0x1000" "pmm_stack_top boot_state = PMM_STACK_VMA"
  "s_free_memory boot_state i = \<lparr>fm_start = 0x100000, fm_end = 0x110000\<rparr>"
  "s_free_memory_count boot_state = 1" "s_free_memory_current boot_state = 0"
  "next_alloc boot_state = 0xFFFFFFFFE0002000"
  by (simp_all add: boot_state_def)

lemma node_boot:
  "i \<noteq> 510 \<Longrightarrow> node boot_ram 0x1000 (i # us) = (if i = 511 then node boot_ram 0x2000 us else None)"
  "node boot_ram 0x2000 (i # us) = (if i = 511 then node boot_ram 0x3000 us else None)"
  "node boot_ram 0x3000 (i # us) = (if i = 256 then node boot_ram 0x4000 us else None)"
  "node boot_ram 0x4000 (i # us) = (if i = 1 then node boot_ram 0x200000 us else None)"
  by (simp_all add: boot_ram_def present_def frame_of_def PAGE_PRESENT_def PAGE_ALLOCATED_def)

lemma short_list:
  "length us \<le> 3 \<Longrightarrow> us = [] \<or> (\<exists>a. us = [a]) \<or> (\<exists>a b. us = [a, b]) \<or> (\<exists>a b c. us = [a, b, c])"
  for us :: "'b list"
proof (induction us)
  case (Cons a as)
  have "as = [] \<or> (\<exists>a. as = [a]) \<or> (\<exists>a b. as = [a, b])"
  proof (cases as)
    case (Cons b bs)
    have l: "length bs \<le> 1" using Cons.prems Cons by simp
    then show ?thesis using Cons by (cases bs) auto
  qed simp
  then show ?case by blast
qed simp

lemma node_boot_Some:
  "node boot_ram 0x1000 (i # us) = Some f \<Longrightarrow> i \<noteq> 510 \<Longrightarrow> i = 511 \<and> node boot_ram 0x2000 us = Some f"
  "node boot_ram 0x2000 (i # us) = Some f \<Longrightarrow> i = 511 \<and> node boot_ram 0x3000 us = Some f"
  "node boot_ram 0x3000 (i # us) = Some f \<Longrightarrow> i = 256 \<and> node boot_ram 0x4000 us = Some f"
  "node boot_ram 0x4000 (i # us) = Some f \<Longrightarrow> i = 1 \<and> node boot_ram 0x200000 us = Some f"
  by (cases "i = 511"; cases "i = 256"; cases "i = 1"; simp add: node_boot del: node.simps(2))+

lemma boot_tables:
  assumes "table_path us" and "node boot_ram 0x1000 us = Some f"
  shows "(us, f) \<in> {([], 0x1000), ([511], 0x2000), ([511, 511], 0x3000), ([511, 511, 256], 0x4000)}"
proof -
  have i: "us \<noteq> [] \<longrightarrow> hd us \<noteq> 510" and l: "length us \<le> 3"
    using assms(1) by (simp_all add: table_path_def indices_def)
  from short_list [OF l] show ?thesis
  proof (elim disjE exE)
    fix a assume "us = [a]"
    then show ?thesis using node_boot_Some(1) [of a "[]" f] assms(2) i by simp
  next
    fix a b assume "us = [a, b]"
    then show ?thesis
      using node_boot_Some(1) [of a "[b]" f] node_boot_Some(2) [of b "[]" f] assms(2) i
      by (simp del: node.simps(2))
  next
    fix a b c assume "us = [a, b, c]"
    then show ?thesis
      using node_boot_Some(1) [of a "[b, c]" f] node_boot_Some(2) [of b "[c]" f] node_boot_Some(3) [of c "[]" f]
        assms(2) i
      by (simp del: node.simps(2))
  qed (use assms(2) in simp)
qed

lemma boot_walk:
  assumes "ix4 va \<noteq> 510" and "walk boot_ram 0x1000 va = Some f"
  shows "ix4 va = 511 \<and> f = 0x200000"
  using node_boot_Some(1) [OF assms(2) [unfolded walk_def path_def] assms(1)]
  by (auto simp del: node.simps(2) dest!: node_boot_Some(2-4))

lemma boot_region: "region_pages boot_state = {p. uint p mod 4096 = 0 \<and> 0x100000 \<le> p \<and> p < 0x110000}"
  by (simp add: region_pages_def boot_fields)

lemma boot_ok: "mm_ok boot_state []"
proof -
  have rr: "recursive_root boot_ram 0x1000"
    by (simp add: recursive_root_def boot_ram_def present_def frame_of_def PAGE_PRESENT_def)
  have "table_tree boot_ram 0x1000"
    unfolding table_tree_def
  proof (intro conjI allI impI rr)
    fix us js f
    assume a: "table_path us" "table_path js" "node boot_ram 0x1000 us = Some f" "node boot_ram 0x1000 js = Some f"
    show "us = js"
      using boot_tables [OF a(1,3)] boot_tables [OF a(2,4)] by (elim insertE emptyE) simp_all
  qed
  moreover have "free_stack boot_state []"
  proof -
    have "walk boot_ram 0x1000 (stack_addr k) = None" if "k < 2 ^ 36" for k
      using boot_walk [of "stack_addr k"] ix4_stack [OF that] by (cases "walk boot_ram 0x1000 (stack_addr k)") simp_all
    then show ?thesis by (simp add: free_stack_def boot_fields stack_addr_0)
  qed
  moreover have "table_frames boot_ram 0x1000 \<subseteq> {0x1000, 0x2000, 0x3000, 0x4000}"
    unfolding table_frames_def by (auto dest!: boot_tables)
  then have "in_use boot_state \<subseteq> {0x1000, 0x2000, 0x3000, 0x4000, 0x200000}"
    using boot_walk by (auto simp: in_use_def boot_fields outside_def)
  then have "frames_ok boot_state []"
    by (auto simp: frames_ok_def regions_ok_def boot_fields free_pages_def boot_region)
  ultimately show ?thesis by (simp add: mm_ok_def boot_fields)
qed

lemma boot_free: "p \<in> free_pages boot_state [] \<longleftrightarrow> uint p mod 4096 = 0 \<and> 0x100000 \<le> p \<and> p < 0x110000"
  by (simp add: free_pages_def boot_region)

lemma boot_card: "3 \<le> card (free_pages boot_state [])" "free_pages boot_state [] \<noteq> {}"
proof -
  have sub: "{0x100000, 0x101000, 0x102000} \<subseteq> free_pages boot_state []" by (simp add: boot_free)
  have "card {0x100000, 0x101000, 0x102000 :: u64} \<le> card (free_pages boot_state [])"
    by (rule card_mono [OF _ sub]) simp
  then show "3 \<le> card (free_pages boot_state [])" by simp
  then show "free_pages boot_state [] \<noteq> {}" by auto
qed

lemma boot_ix:
  "ix4 0xFFFFFFFFE0000000 = 511" "ix3 0xFFFFFFFFE0000000 = 511" "ix2 0xFFFFFFFFE0000000 = 256" "ix1 0xFFFFFFFFE0000000 = 0"
  "ix4 0xFFFFFFFFE0001000 = 511" "ix3 0xFFFFFFFFE0001000 = 511" "ix2 0xFFFFFFFFE0001000 = 256" "ix1 0xFFFFFFFFE0001000 = 1"
  "ix4 0xFFFFFFFFE0002000 = 511" "ix3 0xFFFFFFFFE0002000 = 511" "ix2 0xFFFFFFFFE0002000 = 256" "ix1 0xFFFFFFFFE0002000 = 2"
  "ix4 0xFFFFFFFFE0003000 = 511" "ix3 0xFFFFFFFFE0003000 = 511"
  by (simp_all add: ix_defs drop_bit_eq_div)

section \<open>Allocation and release of pages\<close>

text \<open>
  C7. \<open>pmm_alloc_page\<close> hands out a free page that is in nobody's use (not a page table, not
  mapped but by the boot loader's window on the first 4 MB), takes exactly that page out of the free pages, keeps the invariant, and changes
  no translation and no memory except page tables of the stack area; when nothing is free
  the kernel stops with its out-of-memory message.
\<close>

theorem pmm_alloc_page_contract:
  assumes "mm_ok s ps"
  shows "if free_pages s ps = {} then pmm_alloc_page s = Inl (Fatal ''Out of physical memory'')
    else \<exists>p s' ps'. pmm_alloc_page s = Inr (p, s') \<and> p \<in> free_pages s ps \<and> p \<notin> in_use s \<and> is_frame p \<and>
      mm_ok s' ps' \<and> free_pages s' ps' = free_pages s ps - {p} \<and>
      (\<forall>va. outside va \<longrightarrow> walk (ram s') (cr3 s') va = walk (ram s) (cr3 s) va) \<and>
      (\<forall>f. f \<notin> table_frames (ram s) (cr3 s) \<longrightarrow> ram s' f = ram s f)"
proof (cases "free_pages s ps = {}")
  case True
  then have "ps = []" "region_pages s = {}" by (auto simp: free_pages_def)
  then show ?thesis using alloc_from_regions_empty assms True by simp
next
  case False
  obtain p s' ps' where p: "pmm_alloc_page s = Inr (p, s')" "alloc_step s ps p s' ps'"
    using pmm_alloc_page_step [OF assms False] by blast
  have "p \<notin> in_use s" using in_use_not_free [OF assms] p(2) by (auto simp: alloc_step_def)
  with False p show ?thesis
    unfolding alloc_step_def using same_space_walk [of s s'] by (auto simp: same_space_def)
qed

theorem pmm_alloc_page_contract_witness:
  "\<exists>p s' ps'. pmm_alloc_page boot_state = Inr (p, s') \<and> 0x100000 \<le> p \<and> mm_ok s' ps'"
  using pmm_alloc_page_contract [OF boot_ok] boot_card(2) by (auto simp: boot_free)

text \<open>
  C10. \<open>pmm_free_page\<close> and \<open>pmm_alloc_page\<close> are inverse: a page that is freed is the next one
  to be allocated, and the memory managers are then back in a state with the free pages they had before the two calls, except for
  pages that have become page tables of the stack area; when the tables for the top of the stack were there, the free pages are
  exactly the same. The stack of free pages lies in the freed pages themselves, so the proof follows the first page of every group of
  512 being mapped and unmapped as the stack grows and shrinks. In the remaining case, a stack that is not empty and has reached an
  address whose page table is missing (every 2 ^ 18 pages), the two calls are not inverse: the table is taken from the stack being
  pushed to, after \<open>pmm_free_page\<close> no list of pages is the stack any more, and the page that is allocated next is
  still mapped in the stack area, where it is written to as the stack grows.
\<close>

theorem free_alloc_roundtrip:
  assumes ok: "mm_ok s ps" and room: "Suc (length ps) < 2 ^ 36"
    and page: "is_frame page" "page \<notin> free_pages s ps" "page \<notin> in_use s"
  shows "(stack_ready s ps \<longrightarrow>
     (\<exists>s' s''. pmm_free_page page s = Inr s' \<and> mm_ok s' (ps @ [page]) \<and>
        pmm_alloc_page s' = Inr (page, s'') \<and> mm_ok s'' ps \<and> free_pages s'' ps \<subseteq> free_pages s ps \<and>
        free_pages s ps - free_pages s'' ps \<subseteq> table_frames (ram s'') (cr3 s'') \<and>
        (length ps mod 512 \<noteq> 0 \<or> page_entry s (stack_addr (length ps)) \<noteq> None \<longrightarrow>
           free_pages s'' ps = free_pages s ps))) \<and>
   (\<not> stack_ready s ps \<and> ps \<noteq> [] \<longrightarrow>
     (\<exists>s' s''. pmm_free_page page s = Inr s' \<and> (\<forall>qs. \<not> mm_ok s' qs) \<and>
        pmm_alloc_page s' = Inr (page, s'') \<and> walk (ram s'') (cr3 s'') (stack_addr (length ps)) = Some page))"
proof (intro conjI impI)
  assume "stack_ready s ps"
  with free_page_step [OF ok room page] obtain s' where s': "pmm_free_page page s = Inr s'" "mm_ok s' (ps @ [page])"
    "free_pages s' (ps @ [page]) \<subseteq> insert page (free_pages s ps)"
    "free_pages s ps \<subseteq> free_pages s' (ps @ [page]) \<union> table_frames (ram s') (cr3 s')"
    "length ps mod 512 \<noteq> 0 \<or> page_entry s (stack_addr (length ps)) \<noteq> None \<longrightarrow>
       free_pages s' (ps @ [page]) = insert page (free_pages s ps)" by blast
  obtain s'' where a: "pmm_alloc_page s' = Inr (page, s'')" "alloc_step s' (ps @ [page]) page s'' ps"
    using alloc_from_stack [OF s'(2)] by blast
  have free: "free_pages s'' ps = free_pages s' (ps @ [page]) - {page}" and ok'': "mm_ok s'' ps"
    using a(2) by (simp_all add: alloc_step_def)
  have "table_frames (ram s'') (cr3 s'') = table_frames (ram s') (cr3 s')"
    using a(2) same_space_tables only_mm_fields unfolding alloc_step_def by blast
  then have tables: "free_pages s ps - free_pages s'' ps \<subseteq> table_frames (ram s'') (cr3 s'')"
    and less: "free_pages s'' ps \<subseteq> free_pages s ps"
    and same: "length ps mod 512 \<noteq> 0 \<or> page_entry s (stack_addr (length ps)) \<noteq> None \<longrightarrow>
      free_pages s'' ps = free_pages s ps"
    using s'(3-5) free page(2) by blast+
  show "\<exists>s' s''. pmm_free_page page s = Inr s' \<and> mm_ok s' (ps @ [page]) \<and>
        pmm_alloc_page s' = Inr (page, s'') \<and> mm_ok s'' ps \<and> free_pages s'' ps \<subseteq> free_pages s ps \<and>
        free_pages s ps - free_pages s'' ps \<subseteq> table_frames (ram s'') (cr3 s'') \<and>
        (length ps mod 512 \<noteq> 0 \<or> page_entry s (stack_addr (length ps)) \<noteq> None \<longrightarrow>
           free_pages s'' ps = free_pages s ps)"
    by (rule exI [of _ s'], rule exI [of _ s'']) (intro conjI s'(1,2) a(1) ok'' less tables same)
next
  assume "\<not> stack_ready s ps \<and> ps \<noteq> []"
  then show "\<exists>s' s''. pmm_free_page page s = Inr s' \<and> (\<forall>qs. \<not> mm_ok s' qs) \<and>
        pmm_alloc_page s' = Inr (page, s'') \<and> walk (ram s'') (cr3 s'') (stack_addr (length ps)) = Some page"
    using free_page_reentrant [OF ok _ _ _ _ page(1)] room by (simp add: stack_ready_def)
qed

lemma boot_unused: "page = 0x300000 \<Longrightarrow> is_frame page \<and> page \<notin> free_pages boot_state [] \<and> page \<notin> in_use boot_state"
  by (auto simp: is_frame_def frame_of_def boot_free in_use_def boot_fields outside_def table_frames_def
      dest!: boot_tables boot_walk)

theorem free_alloc_roundtrip_witness:
  "\<exists>s' s''. pmm_free_page 0x300000 boot_state = Inr s' \<and> pmm_alloc_page s' = Inr (0x300000, s'') \<and> mm_ok s'' [] \<and>
     free_pages s'' [] \<subseteq> free_pages boot_state []"
proof -
  have "stack_ready boot_state []" using boot_card(1) by (simp add: stack_ready_def free_pages_def)
  then show ?thesis using free_alloc_roundtrip [OF boot_ok, of "0x300000"] boot_unused by auto
qed

section \<open>Pages\<close>

text \<open>
  C4. \<open>vmm_map_page\<close> on an address that translates to nothing: whatever tables are missing on
  its path are created from free pages, the address then translates to the frame asked
  for, every other address of the address space translates as before, and the contents
  of memory in use do not change.
\<close>

theorem vmm_map_page_maps:
  assumes ok: "mm_ok s ps" and free: "3 \<le> card (free_pages s ps)" and va: "outside va"
    and none: "walk (ram s) (cr3 s) va = None" and pa: "frame_of pa \<notin> free_pages s ps"
  shows "\<exists>s' ps'. vmm_map_page pa va s = Inr (0, s') \<and> mm_ok s' ps' \<and>
           walk (ram s') (cr3 s') va = Some (frame_of pa) \<and>
           (\<forall>vb. outside vb \<longrightarrow> path vb \<noteq> path va \<longrightarrow>
              walk (ram s') (cr3 s') vb = walk (ram s) (cr3 s) vb) \<and>
           (\<forall>f. f \<notin> table_frames (ram s) (cr3 s) \<union> free_pages s ps \<longrightarrow> ram s' f = ram s f)"
  using map_page_step [OF assms] by blast

theorem vmm_map_page_maps_witness:
  "\<exists>s' ps'. vmm_map_page 0xB8000 0x400000 boot_state = Inr (0, s') \<and> mm_ok s' ps' \<and>
     walk (ram s') (cr3 s') 0x400000 = Some 0xB8000"
proof -
  have ix: "ix4 0x400000 = 0" by (simp add: ix_defs drop_bit_eq_div)
  have w: "walk (ram boot_state) (cr3 boot_state) 0x400000 = None"
    using boot_walk [of "0x400000"] ix by (cases "walk boot_ram 0x1000 0x400000") (auto simp: boot_fields)
  have "frame_of 0xB8000 = 0xB8000" by (simp add: frame_of_def)
  then show ?thesis
    using vmm_map_page_maps [OF boot_ok boot_card(1) _ w, of "0xB8000"] ix by (auto simp: outside_def boot_free)
qed

text \<open>
  Mapping an address that is already mapped stops the kernel, whatever page is asked for.
\<close>

theorem vmm_map_page_refuses:
  assumes "mm_ok s ps" and "walk (ram s) (cr3 s) va = Some f"
  shows "vmm_map_page pa va s = Inl (Fatal ''vmm_map_page() - there is already something there!'')"
  using map_page_twice [OF mm_ok_tree [OF assms(1)] assms(2)] .

lemma boot_mapped: "walk (ram boot_state) (cr3 boot_state) 0xFFFFFFFFE0001000 = Some 0x200000"
  by (simp add: boot_fields walk_def path_def boot_ix node_boot del: node.simps(2))

theorem vmm_map_page_refuses_witness:
  "vmm_map_page 0xB8000 0xFFFFFFFFE0001000 boot_state =
     Inl (Fatal ''vmm_map_page() - there is already something there!'')"
  by (rule vmm_map_page_refuses [OF boot_ok boot_mapped])

text \<open>
  C8. Demand paging: the first write to a page reserved by \<open>vmm_alloc\<close> goes through the page
  fault handler, which backs the page with a free frame, cleared; the write is then
  performed, and no other translation and no memory in use changes.
\<close>

theorem page_fault_backs_reserved_page:
  assumes "mm_ok s ps" and "free_pages s ps \<noteq> {}" and "outside va"
    and "page_entry s va = Some e" and "\<not> present e" and "e AND PAGE_ALLOCATED \<noteq> 0"
  shows "\<exists>p s' ps'. put va v s = Inr s' \<and> mm_ok s' ps' \<and> p \<in> free_pages s ps \<and>
           free_pages s' ps' = free_pages s ps - {p} \<and>
           walk (ram s') (cr3 s') va = Some p \<and> ram s' p = (\<lambda>_. 0)(slot va := v) \<and>
           (\<forall>vb. outside vb \<longrightarrow> path vb \<noteq> path va \<longrightarrow>
              walk (ram s') (cr3 s') vb = walk (ram s) (cr3 s) vb) \<and>
           (\<forall>f. f \<notin> table_frames (ram s) (cr3 s) \<union> free_pages s ps \<longrightarrow> ram s' f = ram s f)"
  using demand_page [OF assms] .

lemma boot_reserved: "page_entry boot_state 0xFFFFFFFFE0000000 = Some PAGE_ALLOCATED"
  by (simp add: page_entry_def boot_fields upper_def boot_ix node_boot boot_ram_def del: node.simps(2))

theorem page_fault_backs_reserved_page_witness:
  "\<exists>p s' ps'. put 0xFFFFFFFFE0000000 42 boot_state = Inr s' \<and> mm_ok s' ps' \<and> 0x100000 \<le> p \<and>
     walk (ram s') (cr3 s') 0xFFFFFFFFE0000000 = Some p \<and> ram s' p (slot 0xFFFFFFFFE0000000) = 42"
  using page_fault_backs_reserved_page [OF boot_ok boot_card(2) _ boot_reserved, of 42] boot_ix
  by (auto simp: outside_def boot_free PAGE_ALLOCATED_def present_def PAGE_PRESENT_def)

section \<open>Ranges\<close>

lemma boot_pages:
  "page_at 0xFFFFFFFFE0002000 0 = 0xFFFFFFFFE0002000" "page_at 0xFFFFFFFFE0002000 (Suc 0) = 0xFFFFFFFFE0003000"
  by (simp_all add: page_at_def PAGE_SIZE_def)

lemma boot_room: "range_ok boot_state (next_alloc boot_state) 2"
  by (auto simp: range_ok_def boot_fields less_2_cases_iff boot_pages boot_ix outside_def node_boot simp del: node.simps(2))

lemma boot_two: "2 \<le> card (free_pages boot_state [])"
  using boot_card(1) by simp

text \<open>
  \<open>vmm_alloc\<close> reserves a range of pages: it returns the old allocation pointer, moves
  the pointer past the pages that hold the requested bytes, marks every one of these pages as reserved
  (the tables they need being created by the page fault handler from free pages), keeps the
  invariant of the memory managers and touches no other translation and no other memory.
\<close>

theorem vmm_alloc_reserves:
  assumes ok: "mm_ok s ps" and len: "nbytes \<noteq> 0" "uint nbytes + 4095 < 2 ^ 64"
    and free: "touched 0 nbytes \<le> card (free_pages s ps)"
    and room: "range_ok s (next_alloc s) (touched 0 nbytes)"
  shows "\<exists>s' ps'. vmm_alloc nbytes s = Inr (next_alloc s, s') \<and>
    next_alloc s' = next_alloc s + PAGE_ALIGN_UP nbytes \<and>
    (\<forall>i < touched 0 nbytes. page_entry s' (page_at (next_alloc s) i) = Some PAGE_ALLOCATED) \<and>
    confined (range_paths (next_alloc s) (touched 0 nbytes)) s ps s' ps'"
  by (rule vmm_alloc_pages [OF assms])

theorem vmm_alloc_reserves_witness:
  "\<exists>s' ps'. vmm_alloc 5000 boot_state = Inr (0xFFFFFFFFE0002000, s') \<and> next_alloc s' = 0xFFFFFFFFE0004000 \<and> mm_ok s' ps'"
proof -
  have t: "touched 0 5000 = 2" by (simp add: touched_def)
  have up: "PAGE_ALIGN_UP 5000 = 0x2000" by (simp add: PAGE_ALIGN_UP_def PAGE_ALIGN_DOWN_def PAGE_SIZE_def)
  show ?thesis
    using vmm_alloc_reserves [OF boot_ok, of 5000] boot_room boot_two t up confinedD(1) by (fastforce simp: boot_fields)
qed

text \<open>
  C5. \<open>vmm_map\<close> gives a virtual address through which every byte of the requested physical
  range is reached: byte \<open>k\<close> of the range translates to the frame of physical byte \<open>k\<close>, at
  the same offset in the page; no other translation and no memory in use changes.
\<close>

theorem vmm_map_translates:
  assumes ok: "mm_ok s ps" and nbytes: "nbytes \<noteq> 0" "uint pa + uint nbytes + 4095 < 2 ^ 64"
    and free: "touched pa nbytes \<le> card (free_pages s ps)"
    and room: "range_ok s (next_alloc s) (touched pa nbytes)"
    and heap: "uint (next_alloc s) mod 4096 = 0"
      "uint (next_alloc s) + 4096 * int (touched pa nbytes) \<le> uint KERNEL_HEAP_END"
    and frames: "\<forall>i < touched pa nbytes. frame_of (page_at (PAGE_ALIGN_DOWN pa) i) \<notin> free_pages s ps"
  shows "\<exists>va s' ps'. vmm_map pa nbytes s = Inr (va, s') \<and>
    (\<forall>k < unat nbytes. walk (ram s') (cr3 s') (va + of_nat k) = Some (frame_of (pa + of_nat k)) \<and>
       (va + of_nat k) AND 0xFFF = (pa + of_nat k) AND 0xFFF) \<and>
    confined (range_paths (next_alloc s) (touched pa nbytes)) s ps s' ps'"
proof -
  let ?b = "PAGE_ALIGN_DOWN pa" and ?n = "touched pa nbytes" and ?va = "next_alloc s"
  have down: "uint ?b = uint pa div 4096 * 4096" by (rule align_down_uint)
  have b0: "uint ?b mod 4096 = 0" by (rule align_down_aligned)
  note off = page_offset(1) [of pa]
  obtain s1 ps1 where 1: "vmm_map pa nbytes s = Inr (?va + (pa - ?b), s1)"
    "\<forall>i < ?n. walk (ram s1) (cr3 s1) (page_at ?va i) = Some (frame_of (page_at ?b i)) \<and>
       page_entry s1 (page_at ?va i) \<noteq> None"
    "confined (range_paths ?va ?n) s ps s1 ps1"
    using vmm_map_pages [OF assms] by blast
  have byte: "walk (ram s1) (cr3 s1) (?va + (pa - ?b) + of_nat k) = Some (frame_of (pa + of_nat k)) \<and>
      (?va + (pa - ?b) + of_nat k) AND 0xFFF = (pa + of_nat k) AND 0xFFF" if k: "k < unat nbytes" for k
  proof -
    have ov: "(of_nat (page_offset pa) :: u64) = pa - ?b" by (rule page_offset(2))
    have v: "?va + (pa - ?b) + of_nat k = ?va + of_nat (page_offset pa + k)" by (simp add: ov algebra_simps)
    have p: "pa + of_nat k = ?b + of_nat (page_offset pa + k)" by (simp add: ov algebra_simps)
    let ?i = "(page_offset pa + k) div 4096"
    have i: "?i < ?n" using touched_within [OF nbytes(2) k] .
    have "int k < int (unat nbytes)" using k by (rule of_nat_less_iff [THEN iffD2])
    then have kn: "int k < uint nbytes" by simp
    have "int (page_offset pa + k) < 4096 * int ?n" using i by (simp add: div_less_iff_less_mult flip: of_nat_less_iff)
    then have "uint ?va + int (page_offset pa + k) < 2 ^ 64" using heap(2) by (simp add: KERNEL_HEAP_END_def)
    then have "PAGE_ALIGN_DOWN (?va + of_nat (page_offset pa + k)) = page_at ?va ?i" by (rule align_down_in_page [OF heap(1)])
    then have "walk (ram s1) (cr3 s1) (?va + of_nat (page_offset pa + k)) = Some (frame_of (page_at ?b ?i))"
      using 1(2) i walk_path [OF path_align_down] by metis
    moreover have "uint ?b + int (page_offset pa + k) < 2 ^ 64"
      using nbytes(2) kn off down by (simp add: div_mult_mod_eq)
    then have "PAGE_ALIGN_DOWN (?b + of_nat (page_offset pa + k)) = page_at ?b ?i" by (rule align_down_in_page [OF b0])
    then have "frame_of (page_at ?b ?i) = frame_of (?b + of_nat (page_offset pa + k))" by (metis frame_align_down)
    moreover have "(?va + of_nat (page_offset pa + k)) AND 0xFFF = (?b + of_nat (page_offset pa + k)) AND 0xFFF"
      unfolding offset_in_page [OF heap(1)] offset_in_page [OF b0] ..
    ultimately show ?thesis unfolding v p by (simp del: of_nat_add)
  qed
  with 1 show ?thesis by blast
qed

lemma boot_frames: "\<forall>i < 2. frame_of (page_at (PAGE_ALIGN_DOWN 0xB8123) i) \<notin> free_pages boot_state []"
  by (auto simp: less_2_cases_iff page_at_def PAGE_SIZE_def PAGE_ALIGN_DOWN_def frame_of_def boot_free)

theorem vmm_map_translates_witness:
  "\<exists>va s' ps'. vmm_map 0xB8123 4096 boot_state = Inr (va, s') \<and> mm_ok s' ps' \<and>
     walk (ram s') (cr3 s') (va + 4000) = Some 0xB9000"
proof -
  have t: "touched 0xB8123 4096 = 2" by (simp add: touched_def)
  have f: "frame_of (0xB8123 + of_nat 4000) = 0xB9000" by (simp add: frame_of_def)
  obtain va s' ps' where r: "vmm_map 0xB8123 4096 boot_state = Inr (va, s')"
    "\<forall>k < unat (4096 :: u64). walk (ram s') (cr3 s') (va + of_nat k) = Some (frame_of (0xB8123 + of_nat k)) \<and>
       (va + of_nat k) AND 0xFFF = (0xB8123 + of_nat k) AND 0xFFF"
    "confined (range_paths (next_alloc boot_state) (touched 0xB8123 4096)) boot_state [] s' ps'"
    using vmm_map_translates [OF boot_ok, of 4096 "0xB8123"] boot_room boot_two boot_frames
    by (auto simp: t boot_fields KERNEL_HEAP_END_def)
  have "walk (ram s') (cr3 s') (va + 4000) = Some 0xB9000"
    using r(2) [rule_format, of 4000] f by simp
  then show ?thesis using r(1) confinedD(1) [OF r(3)] by blast
qed





lemmas page_macros = PAGE_ALIGN_UP_def PAGE_ALIGN_DOWN_def PAGE_SIZE_def

section \<open>Building the table of free regions\<close>

lemma align_up_aligned: "uint (PAGE_ALIGN_UP a) mod 4096 = 0"
  by (simp add: PAGE_ALIGN_UP_def align_down_aligned)

lemma align_up_ge: "uint a + 4095 < 2 ^ 64 \<Longrightarrow> a \<le> PAGE_ALIGN_UP a"
  using align_up_uint [of a] unfolding word_le_def by linarith

lemma region_start_facts:
  assumes "uint ks mod 4096 = 0" and "uint ke mod 4096 = 0" and "uint (base e) + 4095 < 2 ^ 64"
  shows "uint (region_start ks ke e) mod 4096 = 0" and "MEM_1_GB \<le> region_start ks ke e"
    and "base e \<le> region_start ks ke e" and "ks \<le> region_start ks ke e \<Longrightarrow> ke \<le> region_start ks ke e"
  using assms align_up_ge [OF assms(3)] align_up_aligned [of "base e"]
  by (auto simp: region_start_def Let_def MEM_1_GB_def not_less split: if_splits)

lemma region_end_facts:
  assumes "uint ks mod 4096 = 0" and "uint ke mod 4096 = 0"
  shows "uint (region_end ks ke e) mod 4096 = 0" and "region_end ks ke e \<le> base e + len e"
    and "ks \<le> region_end ks ke e \<Longrightarrow> region_end ks ke e = ks \<or> ke \<le> region_end ks ke e"
  using assms align_down_le [of "base e + len e"] align_down_aligned [of "base e + len e"]
  by (auto simp: region_end_def Let_def not_less)

lemma pmm_add_entry_cases:
  "pmm_add_entry ks ke e s =
     (if region_start ks ke e \<ge> region_end ks ke e
      then s\<lparr>pmm_system_memory := pmm_system_memory s + len e\<rparr>
      else s\<lparr>pmm_system_memory := pmm_system_memory s + len e,
             s_free_memory := (s_free_memory s)(s_free_memory_count s :=
               \<lparr>fm_start = region_start ks ke e, fm_end = region_end ks ke e\<rparr>),
             s_free_memory_count := s_free_memory_count s + 1,
             pmm_free_memory := pmm_free_memory s + (region_end ks ke e - region_start ks ke e)\<rparr>)"
  by (simp add: pmm_add_entry_def Let_def)

definition region_size :: "free_memory \<Rightarrow> u64" where
  "region_size m = fm_end m - fm_start m"

text \<open>What the loop over the memory map leaves in the table, from the entries seen so far.\<close>

definition table_from :: "u64 \<Rightarrow> u64 \<Rightarrow> memory_map_entry set \<Rightarrow> 'a mm_scheme \<Rightarrow> bool" where
  "table_from ks ke E s \<longleftrightarrow> s_free_memory_count s \<le> 1000 \<and>
     (\<forall>i < s_free_memory_count s. \<exists>e \<in> E. fm_start (s_free_memory s i) = region_start ks ke e \<and>
        fm_end (s_free_memory s i) = region_end ks ke e \<and> region_start ks ke e < region_end ks ke e)"

lemma pmm_add_entry_table:
  assumes "table_from ks ke E s" and "s_free_memory_count s < 1000"
  shows "table_from ks ke (insert e E) (pmm_add_entry ks ke e s)"
  using assms unfolding table_from_def pmm_add_entry_cases by (auto simp: less_Suc_eq not_le)

lemma pmm_init_loop_table:
  "table_from ks ke E s \<Longrightarrow> s_free_memory_count s < 1000 \<Longrightarrow>
   table_from ks ke (E \<union> set entries) (pmm_init_loop ks ke entries s)"
proof (induction entries arbitrary: E s)
  case (Cons e entries)
  let ?t = "pmm_add_entry ks ke e s"
  have t: "table_from ks ke (insert e E) ?t" by (rule pmm_add_entry_table [OF Cons.prems])
  show ?case
  proof (cases "s_free_memory_count ?t = 1000")
    case True
    then have "pmm_init_loop ks ke (e # entries) s = ?t" using Cons.prems(2) by (auto simp: Let_def)
    moreover have "table_from ks ke (E \<union> set (e # entries)) ?t"
      using t unfolding table_from_def by (auto 0 3)
    ultimately show ?thesis by simp
  next
    case False
    then have "s_free_memory_count ?t < 1000" using t by (simp add: table_from_def)
    moreover have "pmm_init_loop ks ke (e # entries) s = pmm_init_loop ks ke entries ?t"
      using False by (simp add: Let_def)
    ultimately show ?thesis using Cons.IH [OF t] by simp
  qed
qed simp

lemma pmm_init_loop_memory:
  "pmm_free_memory s = b + (\<Sum>i < s_free_memory_count s. region_size (s_free_memory s i)) \<Longrightarrow>
   pmm_free_memory (pmm_init_loop ks ke entries s) =
     b + (\<Sum>i < s_free_memory_count (pmm_init_loop ks ke entries s).
            region_size (s_free_memory (pmm_init_loop ks ke entries s) i))"
proof (induction entries arbitrary: s)
  case (Cons e entries)
  have "pmm_free_memory (pmm_add_entry ks ke e s) =
      b + (\<Sum>i < s_free_memory_count (pmm_add_entry ks ke e s). region_size (s_free_memory (pmm_add_entry ks ke e s) i))"
    using Cons.prems by (simp add: pmm_add_entry_cases region_size_def algebra_simps)
  then show ?case using Cons.IH by (simp add: Let_def)
qed simp

text \<open>
  C36. After \<open>pmm_init\<close>, every region of the free table is made of whole pages, lies above
  the first megabyte and inside an entry of the boot memory map. It shares no byte with the kernel when the kernel is loaded
  at the first megabyte, as it is linked; a kernel loaded higher is either apart from the region or, as a whole, inside it (which
  happens, see below). The free memory counted is the sum of the sizes of the regions.
\<close>

theorem pmm_init_regions:
  assumes init: "pmm_init image_start image_end boot_map s = Inr s'"
    and ks: "ks = PAGE_ALIGN_DOWN image_start" and ke: "ke = PAGE_ALIGN_UP image_end"
    and sane: "\<forall>e \<in> set boot_map. uint (base e) + 4095 < 2 ^ 64"
  shows "s_free_memory_count s' \<le> 1000 \<and> s_free_memory_current s' = 0 \<and>
    (\<forall>i < s_free_memory_count s'. \<exists>b l.
       b = fm_start (s_free_memory s' i) \<and> l = fm_end (s_free_memory s' i) \<and> b < l \<and>
       uint b mod 4096 = 0 \<and> uint l mod 4096 = 0 \<and> 0x100000 \<le> b \<and>
       (\<exists>e \<in> set boot_map. base e \<le> b \<and> l \<le> base e + len e) \<and>
       (l \<le> ks \<or> ke \<le> b \<or> b < ks \<and> ke \<le> l) \<and> (ks \<le> 0x100000 \<longrightarrow> l \<le> ks \<or> ke \<le> b)) \<and>
    pmm_free_memory s' = pmm_free_memory s +
      (\<Sum>i < s_free_memory_count s'. region_size (s_free_memory s' i))"
proof -
  let ?s0 = "s\<lparr>s_free_memory_count := 0, s_free_memory_current := 0\<rparr>"
  let ?t = "pmm_init_loop ks ke boot_map ?s0"
  have s': "s_free_memory_count s' = s_free_memory_count ?t" "s_free_memory s' = s_free_memory ?t"
    "pmm_free_memory s' = pmm_free_memory ?t" "s_free_memory_current s' = s_free_memory_current ?t"
    using init by (auto simp: pmm_init_def Let_def ks ke split: if_splits)
  have k: "uint ks mod 4096 = 0" "uint ke mod 4096 = 0"
    by (simp_all add: ks ke align_down_aligned align_up_aligned)
  have "table_from ks ke {} ?s0" by (simp add: table_from_def)
  then have t: "table_from ks ke (set boot_map) ?t" using pmm_init_loop_table [of ks ke "{}" ?s0 boot_map] by simp
  have cur: "s_free_memory_current (pmm_init_loop ks ke es u) = s_free_memory_current u" for es and u :: "'a mm_scheme"
    by (induction es arbitrary: u) (simp_all add: Let_def pmm_add_entry_cases)
  have reg: "\<exists>b l. b = fm_start (s_free_memory s' i) \<and> l = fm_end (s_free_memory s' i) \<and> b < l \<and>
       uint b mod 4096 = 0 \<and> uint l mod 4096 = 0 \<and> 0x100000 \<le> b \<and>
       (\<exists>e \<in> set boot_map. base e \<le> b \<and> l \<le> base e + len e) \<and>
       (l \<le> ks \<or> ke \<le> b \<or> b < ks \<and> ke \<le> l) \<and> (ks \<le> 0x100000 \<longrightarrow> l \<le> ks \<or> ke \<le> b)"
    if i: "i < s_free_memory_count s'" for i
  proof -
    obtain e where e: "e \<in> set boot_map" "fm_start (s_free_memory s' i) = region_start ks ke e"
      "fm_end (s_free_memory s' i) = region_end ks ke e" "region_start ks ke e < region_end ks ke e"
      using t i s' by (auto simp: table_from_def)
    note st = region_start_facts [OF k sane [rule_format, OF e(1)]] and en = region_end_facts [OF k, of e]
    have ap: "region_end ks ke e \<le> ks \<or> ke \<le> region_start ks ke e \<or> region_start ks ke e < ks \<and> ke \<le> region_end ks ke e"
      using st(4) en(3) by (metis linorder_not_less order.order_iff_strict)
    moreover have "ks \<le> 0x100000 \<Longrightarrow> \<not> region_start ks ke e < ks" using st(2) by (simp add: MEM_1_GB_def not_less)
    ultimately have "ks \<le> 0x100000 \<longrightarrow> region_end ks ke e \<le> ks \<or> ke \<le> region_start ks ke e" by blast
    then show ?thesis using e st en ap by (auto simp: MEM_1_GB_def)
  qed
  have "pmm_free_memory ?t = pmm_free_memory s + (\<Sum>i < s_free_memory_count ?t. region_size (s_free_memory ?t i))"
    by (rule pmm_init_loop_memory) simp
  then show ?thesis using t cur [of boot_map ?s0] reg s' by (simp add: table_from_def)
qed

theorem pmm_init_regions_witness:
  "\<exists>s'. pmm_init 0x100000 0x13F000 [\<lparr>base = 0, len = 0x9FC00\<rparr>, \<lparr>base = 0x100000, len = 0x100800\<rparr>] boot_state = Inr s' \<and>
     s_free_memory_count s' = 1 \<and> 0x13F000 \<le> fm_start (s_free_memory s' 0)"
proof -
  let ?map = "[\<lparr>base = 0, len = 0x9FC00\<rparr>, \<lparr>base = 0x100000, len = 0x100800\<rparr>]"
  have k: "(0x100000 :: u64) = PAGE_ALIGN_DOWN 0x100000" "(0x13F000 :: u64) = PAGE_ALIGN_UP 0x13F000"
    by (simp_all add: page_macros)
  have r: "region_start 0x100000 0x13F000 \<lparr>base = 0, len = 0x9FC00\<rparr> = 0x13F000"
    "region_end 0x100000 0x13F000 \<lparr>base = 0, len = 0x9FC00\<rparr> = 0x9F000"
    "region_start 0x100000 0x13F000 \<lparr>base = 0x100000, len = 0x100800\<rparr> = 0x13F000"
    "region_end 0x100000 0x13F000 \<lparr>base = 0x100000, len = 0x100800\<rparr> = 0x200000"
    by (simp_all add: region_start_def region_end_def Let_def MEM_1_GB_def page_macros)
  obtain s' where s': "pmm_init 0x100000 0x13F000 ?map boot_state = Inr s'" "s_free_memory_count s' = 1"
    by (simp add: pmm_init_def Let_def k [symmetric] pmm_add_entry_cases r boot_state_def)
  have "\<exists>b l. b = fm_start (s_free_memory s' 0) \<and> l = fm_end (s_free_memory s' 0) \<and> b < l \<and>
       uint b mod 4096 = 0 \<and> uint l mod 4096 = 0 \<and> 0x100000 \<le> b \<and>
       (\<exists>e \<in> set ?map. base e \<le> b \<and> l \<le> base e + len e) \<and>
       (l \<le> 0x100000 \<or> 0x13F000 \<le> b \<or> b < 0x100000 \<and> 0x13F000 \<le> l) \<and>
       ((0x100000 :: u64) \<le> 0x100000 \<longrightarrow> l \<le> 0x100000 \<or> 0x13F000 \<le> b)"
    using pmm_init_regions [OF s'(1) k] s'(2) r by auto
  then have "fm_end (s_free_memory s' 0) \<le> 0x100000 \<or> 0x13F000 \<le> fm_start (s_free_memory s' 0)"
    "0x100000 \<le> fm_start (s_free_memory s' 0)" "fm_start (s_free_memory s' 0) < fm_end (s_free_memory s' 0)" by simp_all
  then show ?thesis using s' by auto
qed

text \<open>
  An entry that starts below the kernel and ends above it is entered in the table whole, the kernel's own pages included.
\<close>

lemma pmm_init_frees_kernel_pages:
  "\<exists>s'. pmm_init 0x200000 0x240000 [\<lparr>base = 0x100000, len = 0x700000\<rparr>] boot_state = Inr s' \<and>
     s_free_memory_count s' = 1 \<and>
     fm_start (s_free_memory s' 0) = 0x100000 \<and> fm_end (s_free_memory s' 0) = 0x800000"
  by (simp add: pmm_init_def Let_def pmm_add_entry_cases region_start_def region_end_def MEM_1_GB_def
      page_macros boot_state_def)

end
