(* ===== verification/Queue_Interface.thy ===== *)
theory Queue_Interface
  imports Prelude
begin

text \<open>
  The contract of the kernel's intrusive queues: lists whose links are fields of the
  queued objects, so that an operation on a queue updates the object heap. Two components
  provide it: the scheduler's singly linked thread lists (head pointer only) and the
  waiter list of a semaphore (head and tail pointers). The heap is a function from
  pointers to nodes; \<open>rep h q xs\<close> says that handle \<open>q\<close> denotes the sequence \<open>xs\<close> in
  heap \<open>h\<close>, and \<open>payload\<close> is everything of a node but its link.
\<close>

locale intrusive_queue =
  fixes append :: "('p \<Rightarrow> 'n) \<Rightarrow> 'q \<Rightarrow> 'p \<Rightarrow> (('p \<Rightarrow> 'n) \<times> 'q) option"
    and pop :: "('p \<Rightarrow> 'n) \<Rightarrow> 'q \<Rightarrow> ('p \<Rightarrow> 'n) \<times> 'q \<times> 'p option"
    and rep :: "('p \<Rightarrow> 'n) \<Rightarrow> 'q \<Rightarrow> 'p list \<Rightarrow> bool"
    and payload :: "'n \<Rightarrow> 'v"
  assumes append_law: "rep h q xs \<Longrightarrow> x \<notin> set xs \<Longrightarrow>
      \<exists>h' q'. append h q x = Some (h', q') \<and> rep h' q' (xs @ [x]) \<and>
              (\<forall>t. payload (h' t) = payload (h t)) \<and>
              (\<forall>t. t \<notin> insert x (set xs) \<longrightarrow> h' t = h t)"
    and pop_empty: "rep h q [] \<Longrightarrow> pop h q = (h, q, None)"
    and pop_law: "rep h q (x # xs) \<Longrightarrow>
      \<exists>h' q'. pop h q = (h', q', Some x) \<and> rep h' q' xs \<and>
              (\<forall>t. payload (h' t) = payload (h t)) \<and> (\<forall>t. t \<noteq> x \<longrightarrow> h' t = h t)"
    and rep_local: "rep h q xs \<Longrightarrow> (\<And>t. t \<in> set xs \<Longrightarrow> h' t = h t) \<Longrightarrow> rep h' q xs"
    and rep_distinct: "rep h q xs \<Longrightarrow> distinct xs"
    and rep_unique: "rep h q xs \<Longrightarrow> rep h q ys \<Longrightarrow> xs = ys"
begin

lemma appendE:
  assumes "rep h q xs" and "x \<notin> set xs"
  obtains h' q' where "append h q x = Some (h', q')" and "rep h' q' (xs @ [x])"
    and "\<And>t. payload (h' t) = payload (h t)"
    and "\<And>t. t \<notin> insert x (set xs) \<Longrightarrow> h' t = h t"
  using append_law [OF assms] by blast

lemma popE:
  assumes "rep h q (x # xs)"
  obtains h' q' where "pop h q = (h', q', Some x)" and "rep h' q' xs"
    and "\<And>t. payload (h' t) = payload (h t)" and "\<And>t. t \<noteq> x \<Longrightarrow> h' t = h t"
  using pop_law [OF assms] by blast

lemma append_apart:
  assumes "append h q x = Some (h', q')" and "rep h q xs" and "x \<notin> set xs"
    and "rep h r ys" and "set ys \<inter> insert x (set xs) = {}"
  shows "rep h' r ys"
proof -
  have "\<And>t. t \<notin> insert x (set xs) \<Longrightarrow> h' t = h t"
    using appendE [OF assms(2,3)] assms(1) by (metis option.inject prod.inject)
  then show ?thesis using assms(4,5) by (blast intro: rep_local)
qed

lemma pop_apart:
  assumes "pop h q = (h', q', Some x)" and "rep h q (x # xs)"
    and "rep h r ys" and "x \<notin> set ys"
  shows "rep h' r ys"
proof -
  have "\<And>t. t \<noteq> x \<Longrightarrow> h' t = h t"
    using popE [OF assms(2)] assms(1) by (metis prod.inject)
  then show ?thesis using assms(3,4) by (metis rep_local)
qed

text \<open>Enqueueing a whole list and dequeueing as many elements gives them back in order.\<close>

primrec append_all :: "('p \<Rightarrow> 'n) \<Rightarrow> 'q \<Rightarrow> 'p list \<Rightarrow> (('p \<Rightarrow> 'n) \<times> 'q) option" where
  "append_all h q [] = Some (h, q)"
| "append_all h q (x # xs) = Option.bind (append h q x) (\<lambda>(h', q'). append_all h' q' xs)"

primrec pop_all :: "nat \<Rightarrow> ('p \<Rightarrow> 'n) \<Rightarrow> 'q \<Rightarrow> 'p option list" where
  "pop_all 0 h q = []"
| "pop_all (Suc n) h q = (case pop h q of (h', q', r) \<Rightarrow> r # pop_all n h' q')"

lemma append_all_rep:
  "rep h q xs \<Longrightarrow> distinct (xs @ ys) \<Longrightarrow> \<exists>h' q'. append_all h q ys = Some (h', q') \<and> rep h' q' (xs @ ys)"
proof (induction ys arbitrary: h q xs)
  case (Cons y ys)
  have "y \<notin> set xs" using Cons.prems(2) by auto
  then obtain h' q' where "append h q y = Some (h', q')" and "rep h' q' (xs @ [y])"
    using Cons.prems(1) by (blast elim: appendE)
  then show ?case using Cons.IH [of h' q' "xs @ [y]"] Cons.prems(2) by simp
qed simp

lemma pop_all_rep: "rep h q xs \<Longrightarrow> pop_all (length xs) h q = map Some xs"
proof (induction xs arbitrary: h q)
  case (Cons x xs)
  obtain h' q' where "pop h q = (h', q', Some x)" and "rep h' q' xs"
    using Cons.prems by (rule popE)
  then show ?case by (simp add: Cons.IH)
qed simp

lemma fifo:
  assumes "rep h q []" and "distinct xs"
  obtains h' q' where "append_all h q xs = Some (h', q')"
    and "pop_all (length xs) h' q' = map Some xs"
  using append_all_rep [of h q "[]" xs] pop_all_rep assms by auto

end

text \<open>Queues from the middle of which an element can be removed.\<close>

locale removable_queue = intrusive_queue append pop rep payload
  for append :: "('p \<Rightarrow> 'n) \<Rightarrow> 'q \<Rightarrow> 'p \<Rightarrow> (('p \<Rightarrow> 'n) \<times> 'q) option"
    and pop :: "('p \<Rightarrow> 'n) \<Rightarrow> 'q \<Rightarrow> ('p \<Rightarrow> 'n) \<times> 'q \<times> 'p option"
    and rep :: "('p \<Rightarrow> 'n) \<Rightarrow> 'q \<Rightarrow> 'p list \<Rightarrow> bool"
    and payload :: "'n \<Rightarrow> 'v" +
  fixes remove :: "('p \<Rightarrow> 'n) \<Rightarrow> 'q \<Rightarrow> 'p \<Rightarrow> (('p \<Rightarrow> 'n) \<times> 'q) option"
  assumes remove_law: "rep h q (xs @ x # ys) \<Longrightarrow>
      \<exists>h' q'. remove h q x = Some (h', q') \<and> rep h' q' (xs @ ys) \<and>
              (\<forall>t. payload (h' t) = payload (h t)) \<and>
              (\<forall>t. t \<notin> set xs \<longrightarrow> h' t = h t)"
    and remove_absent: "rep h q xs \<Longrightarrow> x \<notin> set xs \<Longrightarrow> remove h q x = Some (h, q)"
begin

lemma removeE:
  assumes "rep h q xs" and "x \<in> set xs"
  obtains h' q' where "remove h q x = Some (h', q')" and "rep h' q' (remove1 x xs)"
    and "\<And>t. payload (h' t) = payload (h t)"
    and "\<And>t. t \<notin> set xs - {x} \<Longrightarrow> h' t = h t"
proof -
  obtain as bs where xs: "xs = as @ x # bs" and "x \<notin> set as"
    using assms(2) by (meson split_list_first)
  then have "remove1 x xs = as @ bs" by (simp add: remove1_append)
  moreover have "set as \<subseteq> set xs - {x}" using xs rep_distinct [OF assms(1)] by auto
  ultimately show ?thesis
    using remove_law [of h q as x bs] assms(1) xs that by (metis subsetD)
qed

end

end
