(* ===== verification/Thread_List.thy ===== *)
theory Thread_List
  imports Queue_Interface
begin

text \<open>
  \<^verbatim>\<open>kernel/thread.c\<close>, list helpers, and the thread control block of
  \<^verbatim>\<open>include/kernel/thread.h\<close>. Threads are objects of a heap (a function from thread
  addresses, \<open>tid\<close>, to control blocks); the scheduler's lists are threaded through their
  \<open>next\<close> fields, NULL is \<open>None\<close>. The loops are \<open>partial_function\<close>s: on a cyclic list
  they do not return, which is the value \<open>None\<close>.
\<close>

type_synonym tid = nat
type_synonym sid = nat

datatype thread_state = THREAD_RUNNING | THREAD_READY | THREAD_SUSPENDED

text \<open>
  What a thread that is not running does when the processor is switched to it: a fresh
  thread starts at \<open>thread_entry\<close>; any other thread is inside \<open>thread_schedule\<close>, right
  after \<open>thread_switch\<close>, with its local \<open>interruptsEnabled\<close>, under a call of
  \<open>thread_yield\<close> made either by the thread itself or by the timer interrupt.
\<close>

datatype yield_caller = Called_by_thread | Called_by_timer

datatype saved_context =
    At_thread_entry
  | In_thread_schedule int yield_caller

record thread =
  th_state :: thread_state
  th_stack :: u64
  th_interrupt_frame :: "u64 option"
  th_context :: "saved_context option"
  th_next :: "tid option"
  th_blocker :: "sid option"

type_synonym thread_heap = "tid \<Rightarrow> thread"

definition set_next :: "thread_heap \<Rightarrow> tid \<Rightarrow> tid option \<Rightarrow> thread_heap" where
  "set_next h t v = h(t := (h t)\<lparr>th_next := v\<rparr>)"

definition nexts :: "thread_heap \<Rightarrow> tid \<Rightarrow> tid option" where
  "nexts h t = th_next (h t)"

section \<open>The list helpers\<close>

partial_function (option) last_node :: "thread_heap \<Rightarrow> tid \<Rightarrow> tid option" where
  "last_node h p =
     (case th_next (h p) of None \<Rightarrow> Some p | Some q \<Rightarrow> last_node h q)"

definition list_append :: "thread_heap \<Rightarrow> tid option \<Rightarrow> tid \<Rightarrow> (thread_heap \<times> tid option) option" where
  "list_append h head thread =
     (let h1 = set_next h thread None in
      case head of
        None \<Rightarrow> Some (h1, Some thread)
      | Some p \<Rightarrow> Option.bind (last_node h1 p) (\<lambda>l. Some (set_next h1 l (Some thread), head)))"

definition list_pop :: "thread_heap \<Rightarrow> tid option \<Rightarrow> thread_heap \<times> tid option \<times> tid option" where
  "list_pop h head =
     (case head of
        Some thread \<Rightarrow> (set_next h thread None, th_next (h thread), Some thread)
      | None \<Rightarrow> (h, head, None))"

text \<open>\<open>thread_t** pp\<close>: the address of the head pointer or of some thread's \<open>next\<close> field.\<close>

datatype link = Head_pointer | Next_field tid

fun read_link :: "thread_heap \<Rightarrow> tid option \<Rightarrow> link \<Rightarrow> tid option" where
  "read_link h head Head_pointer = head"
| "read_link h head (Next_field t) = th_next (h t)"

fun write_link :: "thread_heap \<Rightarrow> tid option \<Rightarrow> link \<Rightarrow> tid option \<Rightarrow> thread_heap \<times> tid option" where
  "write_link h head Head_pointer v = (h, v)"
| "write_link h head (Next_field t) v = (set_next h t v, head)"

partial_function (option) remove_loop ::
    "thread_heap \<Rightarrow> tid option \<Rightarrow> tid \<Rightarrow> link \<Rightarrow> (thread_heap \<times> tid option) option" where
  "remove_loop h head thread pp =
     (case read_link h head pp of
        None \<Rightarrow> Some (h, head)
      | Some p \<Rightarrow>
          if p = thread then Some (write_link h head pp (th_next (h thread)))
          else remove_loop h head thread (Next_field p))"

definition list_remove :: "thread_heap \<Rightarrow> tid option \<Rightarrow> tid \<Rightarrow> (thread_heap \<times> tid option) option" where
  "list_remove h head thread = remove_loop h head thread Head_pointer"

partial_function (option) size_loop :: "thread_heap \<Rightarrow> tid option \<Rightarrow> int \<Rightarrow> int option" where
  "size_loop h p n =
     (case p of None \<Rightarrow> Some n | Some t \<Rightarrow> size_loop h (th_next (h t)) (n + 1))"

definition list_size :: "thread_heap \<Rightarrow> tid option \<Rightarrow> int option" where
  "list_size h head = size_loop h head 0"

section \<open>The lists they compute\<close>

definition thread_list :: "thread_heap \<Rightarrow> tid option \<Rightarrow> tid list \<Rightarrow> bool" where
  "thread_list h head ts \<longleftrightarrow> chain (nexts h) head ts"

definition thread_payload :: "thread \<Rightarrow> thread" where
  "thread_payload t = t\<lparr>th_next := None\<rparr>"

lemma nexts_set_next [simp]: "nexts (set_next h t v) = (nexts h)(t := v)"
  by (auto simp: set_next_def nexts_def)

lemma payload_set_next [simp]: "thread_payload (set_next h t v u) = thread_payload (h u)"
  by (simp add: set_next_def thread_payload_def)

lemma set_next_other [simp]: "u \<noteq> t \<Longrightarrow> set_next h t v u = h u"
  by (simp add: set_next_def)

lemma next_set_next [simp]: "th_next (set_next h t v u) = (if u = t then v else th_next (h u))"
  by (simp add: set_next_def)

text \<open>One unfolding of each loop, by what the current link holds.\<close>

lemma last_node_end: "nexts h p = None \<Longrightarrow> last_node h p = Some p"
  by (simp add: last_node.simps nexts_def)

lemma last_node_step: "nexts h p = Some q \<Longrightarrow> last_node h p = last_node h q"
  by (simp add: last_node.simps [of h p] nexts_def)

lemma remove_loop_end: "read_link h head pp = None \<Longrightarrow> remove_loop h head x pp = Some (h, head)"
  by (simp add: remove_loop.simps)

lemma remove_loop_hit:
  "read_link h head pp = Some x \<Longrightarrow>
   remove_loop h head x pp = Some (write_link h head pp (nexts h x))"
  by (simp add: remove_loop.simps nexts_def)

lemma remove_loop_step:
  "read_link h head pp = Some y \<Longrightarrow> y \<noteq> x \<Longrightarrow>
   remove_loop h head x pp = remove_loop h head x (Next_field y)"
  by (simp add: remove_loop.simps [of h head x pp])

lemma size_loop_end: "size_loop h None n = Some n"
  by (simp add: size_loop.simps)

lemma size_loop_step: "size_loop h (Some t) n = size_loop h (nexts h t) (n + 1)"
  by (simp add: size_loop.simps [of h "Some t"] nexts_def)

lemma last_node_chain: "chain (nexts h) (Some p) ts \<Longrightarrow> last_node h p = Some (last ts)"
proof (induction ts arbitrary: p)
  case (Cons t ts)
  then show ?case
    by (cases ts) (auto simp: last_node_end last_node_step)
qed simp

lemma list_append_chain:
  assumes "chain (nexts h) head ts" and "x \<notin> set ts"
  shows "list_append h head x =
    (if ts = [] then Some (set_next h x None, Some x)
     else Some (set_next (set_next h x None) (last ts) (Some x), head))"
proof (cases head)
  case (Some p)
  then have "chain (nexts (set_next h x None)) (Some p) ts" using assms by simp
  then have "last_node (set_next h x None) p = Some (last ts)" by (rule last_node_chain)
  then show ?thesis using assms Some by (auto simp: list_append_def)
qed (use assms in \<open>auto simp: list_append_def\<close>)

lemma remove_loop_chain:
  assumes "chain (nexts h) (read_link h head pp) (as @ x # bs)" and "x \<notin> set as"
  shows "remove_loop h head x pp =
    Some (write_link h head (if as = [] then pp else Next_field (last as)) (nexts h x))"
  using assms
proof (induction as arbitrary: pp)
  case Nil
  then show ?case by (simp add: remove_loop_hit)
next
  case (Cons a as)
  then have "remove_loop h head x (Next_field a) =
      Some (write_link h head (if as = [] then Next_field a else Next_field (last as)) (nexts h x))"
    by (intro Cons.IH) (auto simp: nexts_def)
  with Cons.prems show ?case by (auto simp: remove_loop_step [of h head pp a])
qed

lemma remove_loop_absent:
  "chain (nexts h) (read_link h head pp) ts \<Longrightarrow> x \<notin> set ts \<Longrightarrow> remove_loop h head x pp = Some (h, head)"
proof (induction ts arbitrary: pp)
  case (Cons t ts)
  then have "remove_loop h head x (Next_field t) = Some (h, head)"
    by (intro Cons.IH) (auto simp: nexts_def)
  with Cons.prems show ?case by (auto simp: remove_loop_step [of h head pp t])
qed (simp add: remove_loop_end)

lemma chain_drop_middle:
  "chain nxt p (as @ x # bs) \<Longrightarrow> as \<noteq> [] \<Longrightarrow> chain (nxt(last as := nxt x)) p (as @ bs)"
proof (induction as arbitrary: p)
  case (Cons a as)
  note distinct = chain_distinct [OF Cons.prems(1)]
  show ?case
  proof (cases "as = []")
    case True
    moreover have "chain (nxt(a := nxt x)) (nxt x) bs"
      using Cons.prems distinct True by (intro chain_update [THEN iffD2]) auto
    ultimately show ?thesis using Cons.prems distinct by (simp add: fun_upd_def)
  next
    case False
    then have "a \<noteq> last as" using distinct by auto
    then show ?thesis using Cons False by simp
  qed
qed simp

lemma list_remove_chain:
  assumes "chain (nexts h) head (as @ x # bs)"
  shows "\<exists>h' head'. list_remove h head x = Some (h', head') \<and>
    chain (nexts h') head' (as @ bs) \<and>
    (\<forall>t. thread_payload (h' t) = thread_payload (h t)) \<and> (\<forall>t. t \<notin> set as \<longrightarrow> h' t = h t)"
proof -
  have x: "x \<notin> set as" using chain_distinct [OF assms] by auto
  have eq: "list_remove h head x =
      Some (write_link h head (if as = [] then Head_pointer else Next_field (last as)) (nexts h x))"
    using remove_loop_chain [of h head Head_pointer as x bs] assms x by (simp add: list_remove_def)
  show ?thesis
  proof (cases "as = []")
    case False
    then have "\<forall>t. t \<notin> set as \<longrightarrow> t \<noteq> last as" by auto
    then show ?thesis using eq False chain_drop_middle [OF assms False] by simp
  qed (use eq assms in simp)
qed

lemma list_size_loop: "chain (nexts h) p ts \<Longrightarrow> size_loop h p n = Some (n + int (length ts))"
  by (induction ts arbitrary: p n) (simp_all add: size_loop_end size_loop_step)

lemma list_size_length: "thread_list h p ts \<Longrightarrow> list_size h p = Some (int (length ts))"
  by (simp add: list_size_def thread_list_def list_size_loop)

section \<open>They implement the queue contract\<close>

interpretation tq: removable_queue list_append list_pop thread_list thread_payload list_remove
proof unfold_locales
  fix h q xs x
  assume "thread_list h q xs" and x: "x \<notin> set xs"
  then have c: "chain (nexts h) q xs" by (simp add: thread_list_def)
  show "\<exists>h' q'. list_append h q x = Some (h', q') \<and> thread_list h' q' (xs @ [x]) \<and>
      (\<forall>t. thread_payload (h' t) = thread_payload (h t)) \<and> (\<forall>t. t \<notin> insert x (set xs) \<longrightarrow> h' t = h t)"
  proof (cases "xs = []")
    case True
    then show ?thesis using list_append_chain [OF c x] c by (simp add: thread_list_def nexts_def)
  next
    case False
    then have "\<forall>t. t \<notin> insert x (set xs) \<longrightarrow> t \<noteq> x \<and> t \<noteq> last xs" by auto
    then show ?thesis
      using list_append_chain [OF c x] chain_snoc [OF c False x] False
      by (simp add: thread_list_def)
  qed
next
  fix h q
  assume "thread_list h q []"
  then show "list_pop h q = (h, q, None)" by (simp add: thread_list_def list_pop_def)
next
  fix h q x xs
  assume a: "thread_list h q (x # xs)"
  then have "x \<notin> set xs" unfolding thread_list_def using chain_distinct by fastforce
  with a show "\<exists>h' q'. list_pop h q = (h', q', Some x) \<and> thread_list h' q' xs \<and>
      (\<forall>t. thread_payload (h' t) = thread_payload (h t)) \<and> (\<forall>t. t \<noteq> x \<longrightarrow> h' t = h t)"
    by (auto simp: thread_list_def list_pop_def nexts_def)
next
  fix h h' :: thread_heap and q xs
  assume "thread_list h q xs" and "\<And>t. t \<in> set xs \<Longrightarrow> h' t = h t"
  then show "thread_list h' q xs"
    unfolding thread_list_def using chain_cong [of xs "nexts h" "nexts h'"] by (simp add: nexts_def)
next
  fix h q xs x ys
  assume "thread_list h q (xs @ x # ys)"
  then show "\<exists>h' q'. list_remove h q x = Some (h', q') \<and> thread_list h' q' (xs @ ys) \<and>
      (\<forall>t. thread_payload (h' t) = thread_payload (h t)) \<and> (\<forall>t. t \<notin> set xs \<longrightarrow> h' t = h t)"
    unfolding thread_list_def by (rule list_remove_chain)
next
  fix h q xs x
  assume "thread_list h q xs" and "x \<notin> set xs"
  then show "list_remove h q x = Some (h, q)"
    using remove_loop_absent [of h q Head_pointer] by (simp add: thread_list_def list_remove_def)
qed (auto simp: thread_list_def dest: chain_distinct chain_unique)


end
