(* ===== verification/Timer.thy ===== *)
theory Timer
  imports Interrupt
begin

text \<open>\<^verbatim>\<open>kernel/x86/timer.c\<close>: the programmable interval timer, channel 0.\<close>

definition PIT_CHANNEL0 :: u16 where "PIT_CHANNEL0 = 0x40"
definition PIT_COMMAND :: u16 where "PIT_COMMAND = 0x43"
definition PIT_INIT_TIMER :: u8 where "PIT_INIT_TIMER = 0x36"
definition PIT_FREQUENCY :: int where "PIT_FREQUENCY = 1193182"

definition pit_divisor :: "int \<Rightarrow> u32" where
  "pit_divisor frequency =
     (let divisor = (if frequency > 0 then word_of_int (PIT_FREQUENCY div frequency) else 0xFFFF)
      in if divisor > 0xFFFF then 0 else if divisor < 1 then 1 else divisor)"

definition timer_init ::
    "device \<Rightarrow> int \<Rightarrow> interrupt_handler \<Rightarrow> 'a intr_scheme \<Rightarrow> 'a intr_scheme outcome" where
  "timer_init dev frequency callback s =
     and_then (interrupt_register 32 callback s) (\<lambda>(_, s).
     let divisor = pit_divisor frequency;
         s = io_out_8 PIT_COMMAND PIT_INIT_TIMER s;
         s = io_out_8 PIT_CHANNEL0 (ucast (divisor AND 0xFF)) s;
         s = io_out_8 PIT_CHANNEL0 (ucast (drop_bit 8 divisor AND 0xFF)) s
     in Inr (pic_enable_irq dev 0 s))"

text \<open>
  The reload value channel 0 counts from after a command 0x36 and two writes, low byte
  first: 0 stands for 65536.
\<close>

fun pit_reload :: "port_event list \<Rightarrow> nat option" where
  "pit_reload (Out8 p2 hi # Out8 p1 lo # Out8 p0 c # es) =
     (if p2 = PIT_CHANNEL0 \<and> p1 = PIT_CHANNEL0 \<and> p0 = PIT_COMMAND \<and> c = PIT_INIT_TIMER
      then Some (if unat hi * 256 + unat lo = 0 then 65536 else unat hi * 256 + unat lo)
      else None)"
| "pit_reload _ = None"

lemma split_bytes: "x \<le> 0xFFFF \<Longrightarrow> unat (ucast (drop_bit 8 x AND 0xFF) :: u8) * 256 + unat (ucast (x AND 0xFF) :: u8) = unat x"
  for x :: u32
proof -
  assume "x \<le> 0xFFFF"
  then have x: "unat x \<le> 65535" by (simp add: word_le_nat_alt)
  have lo: "unat (ucast (x AND 0xFF) :: u8) = unat x mod 256"
  proof -
    have "(ucast (x AND 0xFF) :: u8) = ucast x" by (rule bit_word_eqI) (auto simp: bit_simps mask_bits)
    then show ?thesis by (simp add: unsigned_ucast_eq take_bit_eq_mod)
  qed
  have "(ucast (drop_bit 8 x AND 0xFF) :: u8) = ucast (drop_bit 8 x)"
    by (rule bit_word_eqI) (auto simp: bit_simps mask_bits)
  then have "unat (ucast (drop_bit 8 x AND 0xFF) :: u8) = unat x div 256 mod 256"
    by (simp add: unsigned_ucast_eq take_bit_eq_mod unsigned_drop_bit_eq drop_bit_eq_div unat_div)
  also have "\<dots> = unat x div 256" using x by simp
  finally show ?thesis using lo by simp
qed

lemma pit_divisor_value:
  assumes "0 < frequency"
  shows "unat (pit_divisor frequency) =
    (if PIT_FREQUENCY div frequency > 65535 then 0
     else if frequency > PIT_FREQUENCY then 1 else nat (PIT_FREQUENCY div frequency))"
proof -
  let ?q = "PIT_FREQUENCY div frequency"
  have q0: "0 \<le> ?q" using assms by (simp add: PIT_FREQUENCY_def pos_imp_zdiv_nonneg_iff)
  have "?q \<le> PIT_FREQUENCY div 1" using assms by (intro zdiv_mono2) (simp_all add: PIT_FREQUENCY_def)
  then have q1: "?q \<le> 1193182" by (simp add: PIT_FREQUENCY_def)
  have u: "uint (word_of_int ?q :: u32) = ?q"
    using q0 q1 by (simp add: uint_word_of_int)
  have un: "unat (word_of_int ?q :: u32) = nat ?q"
    using u by (simp add: unat_eq_nat_uint)
  have z: "?q = 0 \<longleftrightarrow> frequency > PIT_FREQUENCY"
    using assms by (simp add: PIT_FREQUENCY_def zdiv_eq_0_iff)
  have gt: "(word_of_int ?q :: u32) > 0xFFFF \<longleftrightarrow> ?q > 65535"
    by (simp only: word_less_def u) simp
  have lt: "(word_of_int ?q :: u32) < 1 \<longleftrightarrow> ?q = 0"
    using q0 by (simp only: word_less_def u) auto
  show ?thesis using assms z un by (simp only: pit_divisor_def Let_def gt lt if_True) auto
qed

text \<open>
  \<open>timer_init\<close> registers the callback for vector 32, unmasks IRQ 0 and nothing else, and
  programs the timer with the quotient of its input frequency by the requested one, so
  that the ticks come at the requested rate or faster by less than one divisor step; below 19 Hz the
  slowest rate is used, above the input frequency the fastest.
\<close>

theorem timer_init_programs_rate:
  assumes dev: "pic_8259 dev" "pics_ready (port_log s)" and free: "interrupt_handlers s 32 = None" and f: "0 < frequency"
  shows "\<exists>s'. timer_init dev frequency callback s = Inr s' \<and>
    interrupt_handlers s' = (interrupt_handlers s)(32 := Some callback) \<and>
    (\<forall>irq. 0 \<le> irq \<longrightarrow> irq \<le> 15 \<longrightarrow> masked (port_log s') irq = (irq \<noteq> 0 \<and> masked (port_log s) irq)) \<and>
    pit_reload (drop 2 (port_log s')) = Some (if PIT_FREQUENCY div frequency > 65535 then 65536
                          else if frequency > PIT_FREQUENCY then 1 else nat (PIT_FREQUENCY div frequency))"
proof -
  let ?d = "pit_divisor frequency"
  let ?s = "io_out_8 PIT_CHANNEL0 (ucast (drop_bit 8 ?d AND 0xFF)) (io_out_8 PIT_CHANNEL0 (ucast (?d AND 0xFF))
    (io_out_8 PIT_COMMAND PIT_INIT_TIMER (s\<lparr>interrupt_handlers := (interrupt_handlers s)(32 := Some callback)\<rparr>)))"
  have run: "timer_init dev frequency callback s = Inr (pic_enable_irq dev 0 ?s)"
    using free by (simp add: timer_init_def interrupt_register_def Let_def)
  have chips: "master (port_log ?s) = master (port_log s)" "slave (port_log ?s) = slave (port_log s)"
    by (simp_all add: io_simps pic_ports PIT_CHANNEL0_def PIT_COMMAND_def)
  then have ready: "pics_ready (port_log ?s)" using dev(2) by (simp add: pics_ready_def)
  have msk: "masked (port_log (pic_enable_irq dev 0 ?s)) irq = (irq \<noteq> 0 \<and> masked (port_log s) irq)"
    if "0 \<le> irq" "irq \<le> 15" for irq
    using enable_line(1) [OF dev(1) ready, of 0 irq] that chips by (simp add: masked_def)
  have log: "drop 2 (port_log (pic_enable_irq dev 0 ?s)) = port_log ?s"
    by (simp add: pic_enable_irq_def io_simps)
  have le: "?d \<le> 0xFFFF" by (auto simp: pit_divisor_def Let_def)
  have "pit_reload (port_log ?s) = Some (if unat ?d = 0 then 65536 else unat ?d)"
    using split_bytes [OF le] by (simp add: io_simps)
  also have "\<dots> = Some (if PIT_FREQUENCY div frequency > 65535 then 65536
      else if frequency > PIT_FREQUENCY then 1 else nat (PIT_FREQUENCY div frequency))"
  proof -
    have "0 \<le> PIT_FREQUENCY div frequency" using f by (simp add: PIT_FREQUENCY_def pos_imp_zdiv_nonneg_iff)
    then show ?thesis
      using pit_divisor_value [OF f] f by (auto simp: PIT_FREQUENCY_def nat_eq_iff zdiv_eq_0_iff)
  qed
  finally show ?thesis using run msk log by (auto simp: io_simps)
qed

theorem timer_init_programs_rate_witness:
  "\<exists>s'. timer_init (pic_device 0 0) 1000 timer_callback_handler (pic_init 32 power_on) = Inr s' \<and>
     \<not> masked (port_log s') 0 \<and> pit_reload (drop 2 (port_log s')) = Some 1193"
proof -
  have "interrupt_handlers (pic_init 32 power_on) 32 = None" by (simp add: power_on_def)
  from timer_init_programs_rate [OF pic_device_ok [of 0 0] init_chips(3) this, of 1000 timer_callback_handler]
  show ?thesis by (auto simp: PIT_FREQUENCY_def)
qed

end
