(* ===== verification/Scheduler.thy ===== *)
theory Scheduler
  imports Thread_List Vmm Timer
begin

text \<open>
  \<^verbatim>\<open>kernel/thread.c\<close>: the scheduler. The globals of the file are fields of the state. A
  context switch is split at \<open>thread_switch\<close>: the part of \<open>thread_schedule\<close> before it
  picks the next thread and saves the old one's context, \<open>thread_resume\<close> is what the
  processor then executes for the thread switched to, up to its return to the code that
  was interrupted or that called \<open>thread_yield\<close>. Messages printed on the console are left out.
\<close>

record sched = mm +
  timer_tick :: u64
  threads :: thread_heap
  current_thread :: tid
  ready_list :: "tid option"
  suspended_list :: "tid option"
  scheduler_lock :: u32

definition scheduler_acquire :: "'a sched_scheme \<Rightarrow> 'a sched_scheme outcome" where
  "scheduler_acquire s =
     and_then (spin_lock (scheduler_lock s) s) (\<lambda>(l, s). Inr (s\<lparr>scheduler_lock := l\<rparr>))"

definition scheduler_release :: "'a sched_scheme \<Rightarrow> 'a sched_scheme outcome" where
  "scheduler_release s =
     and_then (spin_unlock (scheduler_lock s) s) (\<lambda>(l, s). Inr (s\<lparr>scheduler_lock := l\<rparr>))"

definition set_state :: "tid \<Rightarrow> thread_state \<Rightarrow> 'a sched_scheme \<Rightarrow> 'a sched_scheme" where
  "set_state t st s = s\<lparr>threads := (threads s)(t := (threads s t)\<lparr>th_state := st\<rparr>)\<rparr>"

definition current_state :: "'a sched_scheme \<Rightarrow> thread_state" where
  "current_state s = th_state (threads s (current_thread s))"

section \<open>Scheduling\<close>

text \<open>
  \<open>thread_schedule\<close> up to \<open>thread_switch\<close>. The result says whether it switches (\<open>False\<close>
  is the early return). The argument is the caller of the \<open>thread_yield\<close> it runs under,
  which is part of the context saved.
\<close>

definition thread_schedule :: "yield_caller \<Rightarrow> 'a sched_scheme \<Rightarrow> (bool \<times> 'a sched_scheme) outcome" where
  "thread_schedule caller s =
     check (scheduler_lock s \<noteq> 0) (Fatal ''thread_schedule() - scheduler not locked!'')
    (check (g_spinLockCount s = 1) (Fatal ''thread_schedule() - spin lock count is not 1'')
    (check (current_state s \<noteq> THREAD_RUNNING) (Fatal ''thread_schedule() - Current thread is running!'')
    (check (interrupt_enabled s = 0) (Fatal ''thread_schedule() - interrupts are enabled!'')
      (if ready_list s = None \<and> current_state s = THREAD_READY
       then Inr (False, set_state (current_thread s) THREAD_RUNNING s)
       else
         and_then (if current_state s = THREAD_READY
                   then and_then (returns (list_append (threads s) (ready_list s) (current_thread s)))
                          (\<lambda>(h, l). Inr (s\<lparr>threads := h, ready_list := l\<rparr>))
                   else and_then (returns (list_append (threads s) (suspended_list s) (current_thread s)))
                          (\<lambda>(h, l). Inr (s\<lparr>threads := h, suspended_list := l\<rparr>))) (\<lambda>s.
           case list_pop (threads s) (ready_list s) of
             (h, l, None) \<Rightarrow> Inl Null_dereference
           | (h, l, Some new_thread) \<Rightarrow>
               let old_thread = current_thread s;
                   s = set_state new_thread THREAD_RUNNING (s\<lparr>threads := h, ready_list := l\<rparr>);
                   s = s\<lparr>current_thread := new_thread\<rparr>;
                   saved = In_thread_schedule (g_interruptsEnabled s) caller
               in Inr (True, s\<lparr>threads := (threads s)
                    (old_thread := (threads s old_thread)\<lparr>th_context := Some saved\<rparr>)\<rparr>))))))"

text \<open>
  The code that runs after \<open>thread_switch\<close> in the thread switched to: the end of its own
  \<open>thread_schedule\<close> and \<open>thread_yield\<close> and, if that was in the timer interrupt, the end of
  \<open>interrupt_dispatch\<close> and the return from interrupt; or, for a new thread, \<open>thread_entry\<close>
  and the return from interrupt into its function, with the interrupt flag set.
\<close>

definition thread_entry :: "device \<Rightarrow> 'a sched_scheme \<Rightarrow> 'a sched_scheme outcome" where
  "thread_entry dev s = and_then (scheduler_release s) (\<lambda>s. Inr (pic_enable_irq dev 0 s))"

definition interrupt_exit :: "'a machine_scheme \<Rightarrow> 'a machine_scheme" where
  "interrupt_exit s = s\<lparr>if_flag := True\<rparr>"

definition thread_resume :: "device \<Rightarrow> 'a sched_scheme \<Rightarrow> 'a sched_scheme outcome" where
  "thread_resume dev s =
     (case th_context (threads s (current_thread s)) of
        None \<Rightarrow> Inl Null_dereference
      | Some At_thread_entry \<Rightarrow> and_then (thread_entry dev s) (\<lambda>s. Inr (interrupt_exit s))
      | Some (In_thread_schedule interruptsEnabled caller) \<Rightarrow>
          and_then (scheduler_release (s\<lparr>g_interruptsEnabled := interruptsEnabled\<rparr>)) (\<lambda>s.
            Inr (case caller of
                   Called_by_thread \<Rightarrow> s
                 | Called_by_timer \<Rightarrow> interrupt_exit (dispatch_leave dev 0 s))))"

text \<open>
  \<open>thread_yield\<close>: the result says whether the thread that continues is the caller, returning
  from the call (\<open>False\<close>), or another one, which has been resumed (\<open>True\<close>).
\<close>

definition thread_yield :: "device \<Rightarrow> yield_caller \<Rightarrow> 'a sched_scheme \<Rightarrow> (bool \<times> 'a sched_scheme) outcome" where
  "thread_yield dev caller s =
     and_then (scheduler_acquire s) (\<lambda>s.
     check (current_state s = THREAD_RUNNING \<or> current_state s = THREAD_SUSPENDED)
           (Fatal ''thread_yield() - Current thread isn't running!'')
    (let s = (if current_state s = THREAD_RUNNING then set_state (current_thread s) THREAD_READY s else s)
     in and_then (thread_schedule caller s) (\<lambda>(switched, s).
          if switched then and_then (thread_resume dev s) (\<lambda>s. Inr (True, s))
          else and_then (scheduler_release s) (\<lambda>s. Inr (False, s)))))"

section \<open>The timer interrupt\<close>

definition timer_callback :: "device \<Rightarrow> 'a sched_scheme \<Rightarrow> (bool \<times> 'a sched_scheme) outcome" where
  "timer_callback dev s = thread_yield dev Called_by_timer (s\<lparr>timer_tick := timer_tick s + 1\<rparr>)"

text \<open>
  The processor takes IRQ 0: it clears the interrupt flag and runs \<open>interrupt_dispatch\<close> with
  the handler that \<open>thread_init\<close> registered, then returns from the interrupt.
\<close>

definition timer_interrupt :: "device \<Rightarrow> 'a sched_scheme \<Rightarrow> 'a sched_scheme outcome" where
  "timer_interrupt dev s =
     (let (proceed, s) = dispatch_enter dev 0 (interrupt_disable s)
      in if \<not> proceed then Inr (interrupt_exit s)
         else and_then (timer_callback dev s) (\<lambda>(switched, s).
                Inr (if switched then s else interrupt_exit (dispatch_leave dev 0 s))))"

section \<open>Other operations\<close>

definition thread0 :: tid where
  "thread0 = 0"

definition thread_init :: "device \<Rightarrow> 'a sched_scheme \<Rightarrow> 'a sched_scheme outcome" where
  "thread_init dev s =
     timer_init dev 1000 timer_callback_handler
       (s\<lparr>threads := (threads s)(thread0 := (threads s thread0)
            \<lparr>th_state := THREAD_RUNNING, th_stack := 0, th_interrupt_frame := None,
             th_context := None, th_next := None, th_blocker := None\<rparr>),
          current_thread := thread0\<rparr>)"

definition thread_wakeup :: "tid \<Rightarrow> 'a sched_scheme \<Rightarrow> 'a sched_scheme outcome" where
  "thread_wakeup thread s =
     and_then (scheduler_acquire s) (\<lambda>s.
     check (th_state (threads s thread) = THREAD_SUSPENDED) (Fatal ''thread_wakeup() - Thread isn't suspended!'')
    (let s = set_state thread THREAD_READY s;
         s = s\<lparr>threads := (threads s)(thread := (threads s thread)\<lparr>th_blocker := None\<rparr>)\<rparr>
     in and_then (returns (list_remove (threads s) (suspended_list s) thread)) (\<lambda>(h, l).
        let s = s\<lparr>threads := h, suspended_list := l\<rparr>
        in and_then (returns (list_append (threads s) (ready_list s) thread)) (\<lambda>(h, l).
           scheduler_release (s\<lparr>threads := h, ready_list := l\<rparr>)))))"

text \<open>Updates of the scheduler's fields are kept outside those of the machine.\<close>

lemma update_order [simp]:
  "if_flag_update f (threads_update g s) = threads_update g (if_flag_update f s)"
  "g_spinLockCount_update k (threads_update g s) = threads_update g (g_spinLockCount_update k s)"
  "g_interruptsEnabled_update k (threads_update g s) = threads_update g (g_interruptsEnabled_update k s)"
  "if_flag_update f (scheduler_lock_update l s) = scheduler_lock_update l (if_flag_update f s)"
  "g_spinLockCount_update k (scheduler_lock_update l s) = scheduler_lock_update l (g_spinLockCount_update k s)"
  "g_interruptsEnabled_update k (scheduler_lock_update l s) = scheduler_lock_update l (g_interruptsEnabled_update k s)"
  "if_flag_update f (ready_list_update r s) = ready_list_update r (if_flag_update f s)"
  "g_spinLockCount_update k (ready_list_update r s) = ready_list_update r (g_spinLockCount_update k s)"
  "if_flag_update f (suspended_list_update r s) = suspended_list_update r (if_flag_update f s)"
  "g_spinLockCount_update k (suspended_list_update r s) = suspended_list_update r (g_spinLockCount_update k s)"
  "scheduler_lock_update l (threads_update g s) = threads_update g (scheduler_lock_update l s)"
  "scheduler_lock_update l (ready_list_update r s) = ready_list_update r (scheduler_lock_update l s)"
  "scheduler_lock_update l (suspended_list_update r s) = suspended_list_update r (scheduler_lock_update l s)"
  "threads_update g (suspended_list_update r s) = suspended_list_update r (threads_update g s)"
  "threads_update g (ready_list_update r s) = ready_list_update r (threads_update g s)"
  "suspended_list_update q (ready_list_update r s) = ready_list_update r (suspended_list_update q s)"
  "threads_update g (current_thread_update c s) = current_thread_update c (threads_update g s)"
  for s :: "'a sched_scheme"
  by (cases s; simp)+

section \<open>Locking\<close>

lemma acquire_first:
  "g_spinLockCount s = 0 \<Longrightarrow> scheduler_lock s = 0 \<Longrightarrow>
   scheduler_acquire s = Inr (s\<lparr>if_flag := False, g_spinLockCount := 1,
     g_interruptsEnabled := interrupt_enabled s, scheduler_lock := 1\<rparr>)"
  by (simp add: scheduler_acquire_def spin_lock_first)

lemma acquire_nested:
  "g_spinLockCount s \<noteq> 0 \<Longrightarrow> scheduler_lock s = 0 \<Longrightarrow>
   scheduler_acquire s = Inr (s\<lparr>if_flag := False, g_spinLockCount := g_spinLockCount s + 1, scheduler_lock := 1\<rparr>)"
  by (simp add: scheduler_acquire_def spin_lock_nested)

lemma release_last:
  "\<not> if_flag s \<Longrightarrow> g_spinLockCount s = 1 \<Longrightarrow>
   scheduler_release s = Inr (s\<lparr>if_flag := (g_interruptsEnabled s \<noteq> 0), g_spinLockCount := 0, scheduler_lock := 0\<rparr>)"
  by (simp add: scheduler_release_def spin_unlock_last)

lemma release_nested:
  "\<not> if_flag s \<Longrightarrow> 1 < g_spinLockCount s \<Longrightarrow>
   scheduler_release s = Inr (s\<lparr>g_spinLockCount := g_spinLockCount s - 1, scheduler_lock := 0\<rparr>)"
  by (simp add: scheduler_release_def spin_unlock_nested)

section \<open>Threads and lists\<close>

text \<open>Updates of fields other than \<open>next\<close> do not disturb the lists.\<close>

lemma nexts_payload [simp]:
  "nexts (h(t := (h t)\<lparr>th_state := a\<rparr>)) = nexts h"
  "nexts (h(t := (h t)\<lparr>th_context := b\<rparr>)) = nexts h"
  "nexts (h(t := (h t)\<lparr>th_blocker := c\<rparr>)) = nexts h"
  by (auto simp: nexts_def)

lemma thread_list_payload [simp]:
  "thread_list (h(t := (h t)\<lparr>th_state := a\<rparr>)) p xs = thread_list h p xs"
  "thread_list (h(t := (h t)\<lparr>th_context := b\<rparr>)) p xs = thread_list h p xs"
  "thread_list (h(t := (h t)\<lparr>th_blocker := c\<rparr>)) p xs = thread_list h p xs"
  by (simp_all add: thread_list_def)

lemma payload_fields:
  assumes "thread_payload a = thread_payload b"
  shows "th_state a = th_state b" "th_context a = th_context b" "th_blocker a = th_blocker b"
    "th_stack a = th_stack b" "th_interrupt_frame a = th_interrupt_frame b"
  using assms by (simp_all add: thread_payload_def thread.defs) (cases a; cases b; simp)+

lemma list_nonempty: "thread_list h p xs \<Longrightarrow> p = None \<longleftrightarrow> xs = []"
  by (cases xs) (auto simp: thread_list_def)

text \<open>
  \<open>queued s rs ss\<close>: the ready list is \<open>rs\<close> and the suspended list \<open>ss\<close>; the current thread is
  on neither, no thread is on both, and every thread on one of them has a saved context.
\<close>

definition queued :: "'a sched_scheme \<Rightarrow> tid list \<Rightarrow> tid list \<Rightarrow> bool" where
  "queued s rs ss \<longleftrightarrow>
     thread_list (threads s) (ready_list s) rs \<and> thread_list (threads s) (suspended_list s) ss \<and>
     set rs \<inter> set ss = {} \<and> current_thread s \<notin> set rs \<union> set ss \<and>
     (\<forall>t \<in> set rs \<union> set ss. th_context (threads s t) \<noteq> None)"

text \<open>
  What a switch does to the control blocks: the thread switched to runs, the old one gets
  the state \<open>st\<close> and a saved context; nothing else changes but the links.
\<close>

definition switched_blocks :: "thread_heap \<Rightarrow> tid \<Rightarrow> thread_state \<Rightarrow> saved_context \<Rightarrow> tid \<Rightarrow> thread_heap \<Rightarrow> bool" where
  "switched_blocks h old st saved new h' \<longleftrightarrow>
     (\<forall>t. th_blocker (h' t) = th_blocker (h t) \<and> th_stack (h' t) = th_stack (h t) \<and>
          th_interrupt_frame (h' t) = th_interrupt_frame (h t) \<and>
          th_state (h' t) = (if t = new then THREAD_RUNNING else if t = old then st else th_state (h t)) \<and>
          th_context (h' t) = (if t = old then Some saved else th_context (h t)))"

text \<open>The part of the state that scheduling does not touch.\<close>

definition same_rest :: "'a sched_scheme \<Rightarrow> 'a sched_scheme \<Rightarrow> bool" where
  "same_rest s s' \<longleftrightarrow> s' = s\<lparr>if_flag := if_flag s', port_log := port_log s', g_spinLockCount := g_spinLockCount s',
     g_interruptsEnabled := g_interruptsEnabled s', threads := threads s', current_thread := current_thread s',
     ready_list := ready_list s', suspended_list := suspended_list s', scheduler_lock := scheduler_lock s'\<rparr>"

lemma same_rest_refl [simp]: "same_rest s s"
  by (simp add: same_rest_def)

lemma same_rest_trans: "same_rest s t \<Longrightarrow> same_rest t u \<Longrightarrow> same_rest s u"
  unfolding same_rest_def by (cases s, cases t, cases u) simp

lemma same_rest_fields:
  assumes "same_rest s s'"
  shows "timer_tick s' = timer_tick s" "ram s' = ram s" "cr3 s' = cr3 s" "sched.more s' = sched.more s"
  by (rule trans [OF arg_cong [OF assms [unfolded same_rest_def]]], simp)+

lemma port_only_rest [simp]:
  "same_rest s (pic_enable_irq dev irq s)" "same_rest s (dispatch_leave dev irq s)"
  "same_rest s (interrupt_exit s)"
  by (simp_all add: same_rest_def dispatch_leave_def pic_enable_irq_def interrupt_exit_def io_simps Let_def)

section \<open>thread_schedule\<close>

lemma schedule_switch:
  assumes q: "queued s (t # ts) ss" and lock: "scheduler_lock s \<noteq> 0" "g_spinLockCount s = 1" "\<not> if_flag s"
    and st: "current_state s = THREAD_READY \<or> current_state s = THREAD_SUSPENDED"
  shows "\<exists>s'. thread_schedule caller s = Inr (True, s') \<and> current_thread s' = t \<and>
    queued s' (if current_state s = THREAD_READY then ts @ [current_thread s] else ts)
              (if current_state s = THREAD_READY then ss else ss @ [current_thread s]) \<and>
    switched_blocks (threads s) (current_thread s) (current_state s)
       (In_thread_schedule (g_interruptsEnabled s) caller) t (threads s') \<and>
    same_rest s s' \<and> if_flag s' = if_flag s \<and> g_spinLockCount s' = g_spinLockCount s \<and>
    scheduler_lock s' = scheduler_lock s \<and> port_log s' = port_log s"
proof -
  let ?cur = "current_thread s" and ?h = "threads s"
  note q' = q [unfolded queued_def]
  have tcur: "t \<noteq> ?cur" and ts: "?cur \<notin> set ts" "?cur \<notin> set ss" "t \<notin> set ss" using q' by auto
  have tts: "t \<notin> set ts" using tq.rep_distinct [of ?h "ready_list s" "t # ts"] q' by simp
  have ne: "ready_list s \<noteq> None" using q' list_nonempty by blast
  have cases: "current_state s \<noteq> THREAD_RUNNING" using st by auto
  show ?thesis
  proof (cases "current_state s = THREAD_READY")
    case True
    obtain h1 l1 where a: "list_append ?h (ready_list s) ?cur = Some (h1, l1)" "thread_list h1 l1 ((t # ts) @ [?cur])"
      "\<And>u. thread_payload (h1 u) = thread_payload (?h u)" "\<And>u. u \<notin> insert ?cur (set (t # ts)) \<Longrightarrow> h1 u = ?h u"
      using tq.appendE [of ?h "ready_list s" "t # ts" ?cur] q' by auto
    obtain h2 l2 where p: "list_pop h1 l1 = (h2, l2, Some t)" "thread_list h2 l2 (ts @ [?cur])"
      "\<And>u. thread_payload (h2 u) = thread_payload (h1 u)" "\<And>u. u \<noteq> t \<Longrightarrow> h2 u = h1 u"
      using tq.popE [of h1 l1 t "ts @ [?cur]"] a(2) by auto
    have pay: "thread_payload (h2 u) = thread_payload (?h u)" for u using a(3) p(3) by simp
    have ss2: "thread_list h2 (suspended_list s) ss"
    proof (rule tq.rep_local)
      show "thread_list ?h (suspended_list s) ss" using q' by blast
      fix u assume "u \<in> set ss"
      then have "u \<notin> insert ?cur (set (t # ts))" "u \<noteq> t" using q' ts by auto
      then show "h2 u = ?h u" using a(4) p(4) by simp
    qed
    let ?h3 = "h2(t := (h2 t)\<lparr>th_state := THREAD_RUNNING\<rparr>)"
    let ?h4 = "?h3(?cur := (?h3 ?cur)\<lparr>th_context := Some (In_thread_schedule (g_interruptsEnabled s) caller)\<rparr>)"
    let ?s' = "s\<lparr>threads := ?h4, ready_list := l2, current_thread := t\<rparr>"
    have run: "thread_schedule caller s = Inr (True, ?s')"
      using lock ne True a(1) p(1) by (simp add: thread_schedule_def set_state_def Let_def)
    have lists: "thread_list ?h4 l xs = thread_list h2 l xs" for l xs by (simp only: thread_list_payload)
    have ctx: "th_context (?h4 u) \<noteq> None" if "u = ?cur \<or> u \<in> set (t # ts) \<union> set ss" for u
      using that q' payload_fields(2) [OF pay, of u] tcur by auto
    have q4: "queued ?s' (ts @ [?cur]) ss"
      using p(2) ss2 tcur ts tts q' ctx unfolding queued_def by (auto simp: lists simp del: fun_upd_apply)
    have "switched_blocks ?h ?cur (current_state s) (In_thread_schedule (g_interruptsEnabled s) caller) t ?h4"
      using tcur payload_fields [OF pay] True by (simp add: switched_blocks_def current_state_def)
    with run q4 True show ?thesis by (intro exI [of _ ?s']) (simp add: same_rest_def)
  next
    case False
    then have sus: "current_state s = THREAD_SUSPENDED" using st by simp
    obtain h1 l1 where a: "list_append ?h (suspended_list s) ?cur = Some (h1, l1)" "thread_list h1 l1 (ss @ [?cur])"
      "\<And>u. thread_payload (h1 u) = thread_payload (?h u)" "\<And>u. u \<notin> insert ?cur (set ss) \<Longrightarrow> h1 u = ?h u"
      using tq.appendE [of ?h "suspended_list s" ss ?cur] q' by auto
    have r1: "thread_list h1 (ready_list s) (t # ts)"
    proof (rule tq.rep_local)
      show "thread_list ?h (ready_list s) (t # ts)" using q' by blast
      fix u assume "u \<in> set (t # ts)"
      then have "u \<notin> insert ?cur (set ss)" using q' by auto
      then show "h1 u = ?h u" by (rule a(4))
    qed
    obtain h2 l2 where p: "list_pop h1 (ready_list s) = (h2, l2, Some t)" "thread_list h2 l2 ts"
      "\<And>u. thread_payload (h2 u) = thread_payload (h1 u)" "\<And>u. u \<noteq> t \<Longrightarrow> h2 u = h1 u"
      using tq.popE [OF r1] by blast
    have pay: "thread_payload (h2 u) = thread_payload (?h u)" for u using a(3) p(3) by simp
    have ss2: "thread_list h2 l1 (ss @ [?cur])"
    proof (rule tq.rep_local [OF a(2)])
      fix u assume "u \<in> set (ss @ [?cur])"
      then have "u \<noteq> t" using ts tcur by auto
      then show "h2 u = h1 u" by (rule p(4))
    qed
    let ?h3 = "h2(t := (h2 t)\<lparr>th_state := THREAD_RUNNING\<rparr>)"
    let ?h4 = "?h3(?cur := (?h3 ?cur)\<lparr>th_context := Some (In_thread_schedule (g_interruptsEnabled s) caller)\<rparr>)"
    let ?s' = "s\<lparr>threads := ?h4, ready_list := l2, suspended_list := l1, current_thread := t\<rparr>"
    have run: "thread_schedule caller s = Inr (True, ?s')"
      using lock sus a(1) p(1) by (simp add: thread_schedule_def set_state_def Let_def)
    have lists: "thread_list ?h4 l xs = thread_list h2 l xs" for l xs by (simp only: thread_list_payload)
    have ctx: "th_context (?h4 u) \<noteq> None" if "u = ?cur \<or> u \<in> set (t # ts) \<union> set ss" for u
      using that q' payload_fields(2) [OF pay, of u] tcur by auto
    have q4: "queued ?s' ts (ss @ [?cur])"
      using p(2) ss2 tcur ts tts q' ctx unfolding queued_def by (auto simp: lists simp del: fun_upd_apply)
    have "switched_blocks ?h ?cur (current_state s) (In_thread_schedule (g_interruptsEnabled s) caller) t ?h4"
      using tcur payload_fields [OF pay] sus by (simp add: switched_blocks_def current_state_def)
    with run q4 sus show ?thesis by (intro exI [of _ ?s']) (simp add: same_rest_def)
  qed
qed
section \<open>thread_yield\<close>

lemma schedule_stuck:
  assumes q: "queued s [] ss" and lock: "scheduler_lock s \<noteq> 0" "g_spinLockCount s = 1" "\<not> if_flag s"
    and st: "current_state s = THREAD_SUSPENDED"
  shows "thread_schedule caller s = Inl Null_dereference"
proof -
  note q' = q [unfolded queued_def]
  obtain h1 l1 where a: "list_append (threads s) (suspended_list s) (current_thread s) = Some (h1, l1)"
    using tq.append_law [of "threads s" "suspended_list s" ss "current_thread s"] q' by blast
  have "ready_list s = None" using q' by (simp add: thread_list_def)
  then show ?thesis using lock st a by (simp add: thread_schedule_def list_pop_def)
qed

lemma resume:
  assumes ctx: "th_context (threads s (current_thread s)) = Some c" and lock: "g_spinLockCount s = 1" "\<not> if_flag s"
  shows "\<exists>s'. thread_resume dev s = Inr s' \<and> threads s' = threads s \<and> current_thread s' = current_thread s \<and>
    ready_list s' = ready_list s \<and> suspended_list s' = suspended_list s \<and>
    g_spinLockCount s' = 0 \<and> scheduler_lock s' = 0 \<and> same_rest s s' \<and>
    if_flag s' = (case c of In_thread_schedule n Called_by_thread \<Rightarrow> n \<noteq> 0 | _ \<Rightarrow> True)"
proof (cases c)
  case At_thread_entry
  then show ?thesis
    using ctx release_last [OF lock(2,1)]
    by (simp add: thread_resume_def thread_entry_def same_rest_def pic_enable_irq_def interrupt_exit_def io_simps Let_def)
next
  case (In_thread_schedule n caller)
  let ?s = "s\<lparr>g_interruptsEnabled := n\<rparr>"
  have "scheduler_release ?s = Inr (?s\<lparr>if_flag := (n \<noteq> 0), g_spinLockCount := 0, scheduler_lock := 0\<rparr>)"
    using release_last [of ?s] lock by simp
  then show ?thesis
    using ctx In_thread_schedule
    by (cases caller) (simp_all add: thread_resume_def same_rest_def dispatch_leave_def pic_enable_irq_def
        interrupt_exit_def io_simps Let_def)
qed

text \<open>Between operations no lock is held.\<close>

definition unlocked :: "'a sched_scheme \<Rightarrow> bool" where
  "unlocked s \<longleftrightarrow> g_spinLockCount s = 0 \<and> scheduler_lock s = 0"

lemma yield_alone:
  assumes q: "queued s [] ss" and u: "unlocked s" and st: "current_state s = THREAD_RUNNING"
  shows "thread_yield dev caller s = Inr (False, s\<lparr>g_interruptsEnabled := interrupt_enabled s\<rparr>)"
proof -
  let ?t = "current_thread s"
  have r: "ready_list s = None" using q by (simp add: queued_def thread_list_def)
  have same: "(threads s)(?t := (threads s ?t)\<lparr>th_state := THREAD_RUNNING\<rparr>) = threads s"
    using st by (auto simp: current_state_def fun_upd_idem_iff)
  show ?thesis
    using u r st acquire_first [of s] same
    by (simp add: unlocked_def thread_yield_def thread_schedule_def current_state_def set_state_def release_last Let_def
        interrupt_enabled_def [of "s\<lparr>if_flag := False\<rparr>" for s])
qed
lemma yield_prefix:
  assumes u: "unlocked s" and st: "current_state s = THREAD_RUNNING \<or> current_state s = THREAD_SUSPENDED"
  defines "s1 \<equiv> (if current_state s = THREAD_RUNNING then set_state (current_thread s) THREAD_READY s else s)
    \<lparr>if_flag := False, g_spinLockCount := 1, g_interruptsEnabled := interrupt_enabled s, scheduler_lock := 1\<rparr>"
  shows "thread_yield dev caller s = and_then (thread_schedule caller s1) (\<lambda>(switched, s).
      if switched then and_then (thread_resume dev s) (\<lambda>s. Inr (True, s))
      else and_then (scheduler_release s) (\<lambda>s. Inr (False, s)))"
  using u st acquire_first [of s]
  by (auto simp: unlocked_def thread_yield_def s1_def current_state_def set_state_def Let_def)

text \<open>What \<open>thread_yield\<close> leaves when it switches.\<close>

definition yielded :: "yield_caller \<Rightarrow> 'a sched_scheme \<Rightarrow> tid \<Rightarrow> tid list \<Rightarrow> tid list \<Rightarrow> 'a sched_scheme \<Rightarrow> bool" where
  "yielded caller s t ts ss s' \<longleftrightarrow> current_thread s' = t \<and> unlocked s' \<and> same_rest s s' \<and>
     (if current_state s = THREAD_RUNNING then queued s' (ts @ [current_thread s]) ss
      else queued s' ts (ss @ [current_thread s])) \<and>
     switched_blocks (threads s) (current_thread s)
       (if current_state s = THREAD_RUNNING then THREAD_READY else THREAD_SUSPENDED)
       (In_thread_schedule (interrupt_enabled s) caller) t (threads s') \<and>
     if_flag s' = (case th_context (threads s t) of
       Some (In_thread_schedule n Called_by_thread) \<Rightarrow> n \<noteq> 0 | _ \<Rightarrow> True)"

lemma yield_switch:
  assumes q: "queued s (t # ts) ss" and u: "unlocked s"
    and st: "current_state s = THREAD_RUNNING \<or> current_state s = THREAD_SUSPENDED"
  shows "\<exists>s'. thread_yield dev caller s = Inr (True, s') \<and> yielded caller s t ts ss s'"
proof -
  let ?cur = "current_thread s"
  let ?st = "if current_state s = THREAD_RUNNING then THREAD_READY else THREAD_SUSPENDED"
  define s1 where "s1 = (if current_state s = THREAD_RUNNING then set_state ?cur THREAD_READY s else s)
    \<lparr>if_flag := False, g_spinLockCount := 1, g_interruptsEnabled := interrupt_enabled s, scheduler_lock := 1\<rparr>"
  have s1: "current_thread s1 = ?cur" "scheduler_lock s1 \<noteq> 0" "g_spinLockCount s1 = 1" "\<not> if_flag s1"
    "g_interruptsEnabled s1 = interrupt_enabled s" "ready_list s1 = ready_list s" "suspended_list s1 = suspended_list s"
    "current_state s1 = ?st" "same_rest s s1"
    "threads s1 = (threads s)(?cur := (threads s ?cur)\<lparr>th_state := ?st\<rparr>)"
    using st by (auto simp: s1_def set_state_def current_state_def same_rest_def fun_upd_idem_iff)
  have q1: "queued s1 (t # ts) ss"
    using q unfolding queued_def s1(1,6,7,10) by (auto simp del: fun_upd_apply simp: fun_upd_apply [of "threads s"])
  have st1: "current_state s1 = THREAD_READY \<or> current_state s1 = THREAD_SUSPENDED" using s1(8) by simp
  from schedule_switch [OF q1 s1(2,3,4) st1, of caller, unfolded s1(1,5,8)]
  obtain s2 where "thread_schedule caller s1 = Inr (True, s2) \<and> current_thread s2 = t \<and>
    queued s2 (if ?st = THREAD_READY then ts @ [?cur] else ts) (if ?st = THREAD_READY then ss else ss @ [?cur]) \<and>
    switched_blocks (threads s1) ?cur ?st (In_thread_schedule (interrupt_enabled s) caller) t (threads s2) \<and>
    same_rest s1 s2 \<and> if_flag s2 = if_flag s1 \<and> g_spinLockCount s2 = g_spinLockCount s1 \<and>
    scheduler_lock s2 = scheduler_lock s1 \<and> port_log s2 = port_log s1" ..
  then have s2: "thread_schedule caller s1 = Inr (True, s2)" "current_thread s2 = t"
    "queued s2 (if ?st = THREAD_READY then ts @ [?cur] else ts) (if ?st = THREAD_READY then ss else ss @ [?cur])"
    "switched_blocks (threads s1) ?cur ?st (In_thread_schedule (interrupt_enabled s) caller) t (threads s2)"
    "same_rest s1 s2" "\<not> if_flag s2" "g_spinLockCount s2 = 1"
    using s1(3,4) by (blast | simp)+
  have tcur: "t \<noteq> ?cur" using q by (auto simp: queued_def)
  then have c2: "th_context (threads s2 t) = th_context (threads s t)"
    using s2(4) s1(10) by (simp add: switched_blocks_def)
  then obtain c where c: "th_context (threads s t) = Some c" using q by (auto simp: queued_def)
  then have c': "th_context (threads s2 (current_thread s2)) = Some c" using c2 s2(2) by simp
  obtain s3 where s3: "thread_resume dev s2 = Inr s3" "threads s3 = threads s2" "current_thread s3 = t"
    "ready_list s3 = ready_list s2" "suspended_list s3 = suspended_list s2" "unlocked s3" "same_rest s2 s3"
    "if_flag s3 = (case c of In_thread_schedule n Called_by_thread \<Rightarrow> n \<noteq> 0 | _ \<Rightarrow> True)"
    using resume [OF c' s2(7,6), of dev] s2(2) by (auto simp: unlocked_def)
  have "thread_yield dev caller s = Inr (True, s3)"
    using yield_prefix [OF u st, of dev caller] s2(1) s3(1) by (simp add: s1_def)
  moreover have "switched_blocks (threads s) ?cur ?st (In_thread_schedule (interrupt_enabled s) caller) t (threads s3)"
    using s2(4) s3(2) s1(10) tcur by (simp add: switched_blocks_def)
  moreover have "queued s3 (if ?st = THREAD_READY then ts @ [?cur] else ts) (if ?st = THREAD_READY then ss else ss @ [?cur])"
    using s2(2,3) s3(2-5) by (simp add: queued_def)
  moreover have "same_rest s s3" using s1(9) s2(5) s3(7) by (blast intro: same_rest_trans)
  ultimately show ?thesis using s3 c by (auto simp: yielded_def)
qed

lemma yield_stuck:
  assumes q: "queued s [] ss" and u: "unlocked s" and st: "current_state s = THREAD_SUSPENDED"
  shows "thread_yield dev caller s = Inl Null_dereference"
proof -
  let ?s1 = "s\<lparr>if_flag := False, g_spinLockCount := 1, g_interruptsEnabled := interrupt_enabled s, scheduler_lock := 1\<rparr>"
  have "queued ?s1 [] ss" using q by (simp add: queued_def)
  then have "thread_schedule caller ?s1 = Inl Null_dereference"
    using st by (intro schedule_stuck) (simp_all add: current_state_def)
  then show ?thesis using yield_prefix [OF u, of dev caller] st by simp
qed

section \<open>thread_wakeup\<close>

definition woken :: "thread_heap \<Rightarrow> tid \<Rightarrow> thread_heap \<Rightarrow> bool" where
  "woken h t h' \<longleftrightarrow> (\<forall>u.
     th_state (h' u) = (if u = t then THREAD_READY else th_state (h u)) \<and>
     th_blocker (h' u) = (if u = t then None else th_blocker (h u)) \<and>
     th_context (h' u) = th_context (h u) \<and> th_stack (h' u) = th_stack (h u) \<and>
     th_interrupt_frame (h' u) = th_interrupt_frame (h u))"

lemma wakeup:
  assumes q: "queued s rs ss" and t: "t \<in> set ss" "th_state (threads s t) = THREAD_SUSPENDED"
    and lock: "scheduler_lock s = 0" "0 < g_spinLockCount s" "\<not> if_flag s"
  shows "\<exists>s'. thread_wakeup t s = Inr s' \<and> queued s' (rs @ [t]) (remove1 t ss) \<and> woken (threads s) t (threads s') \<and>
    current_thread s' = current_thread s \<and> same_rest s s' \<and> scheduler_lock s' = 0 \<and>
    g_spinLockCount s' = g_spinLockCount s \<and> \<not> if_flag s' \<and> g_interruptsEnabled s' = g_interruptsEnabled s \<and>
    port_log s' = port_log s"
proof -
  note q' = q [unfolded queued_def]
  let ?h = "threads s"
  let ?h1 = "?h(t := (?h t)\<lparr>th_state := THREAD_READY\<rparr>)"
  let ?h2 = "?h1(t := (?h1 t)\<lparr>th_blocker := None\<rparr>)"
  have l2: "thread_list ?h2 l xs = thread_list ?h l xs" for l xs by (simp only: thread_list_payload)
  have ss2: "thread_list ?h2 (suspended_list s) ss" and rs2: "thread_list ?h2 (ready_list s) rs"
    using q' by (simp_all only: l2)
  obtain h3 l3 where r: "list_remove ?h2 (suspended_list s) t = Some (h3, l3)" "thread_list h3 l3 (remove1 t ss)"
    "\<And>u. thread_payload (h3 u) = thread_payload (?h2 u)" "\<And>u. u \<notin> set ss - {t} \<Longrightarrow> h3 u = ?h2 u"
    using tq.removeE [OF ss2 t(1)] by blast
  have rs3: "thread_list h3 (ready_list s) rs"
  proof (rule tq.rep_local [OF rs2])
    fix u assume "u \<in> set rs"
    then have "u \<notin> set ss - {t}" using q' by auto
    then show "h3 u = ?h2 u" by (rule r(4))
  qed
  have tr: "t \<notin> set rs" using q' t(1) by auto
  obtain h4 l4 where a: "list_append h3 (ready_list s) t = Some (h4, l4)" "thread_list h4 l4 (rs @ [t])"
    "\<And>u. thread_payload (h4 u) = thread_payload (h3 u)" "\<And>u. u \<notin> insert t (set rs) \<Longrightarrow> h4 u = h3 u"
    using tq.appendE [OF rs3 tr] by blast
  have dist: "distinct ss" using tq.rep_distinct q' by blast
  have ss4: "thread_list h4 l3 (remove1 t ss)"
  proof (rule tq.rep_local [OF r(2)])
    fix u assume "u \<in> set (remove1 t ss)"
    then have "u \<notin> insert t (set rs)" using dist q' by (auto simp: set_remove1_eq)
    then show "h4 u = h3 u" by (rule a(4))
  qed
  let ?s4 = "s\<lparr>if_flag := False, g_spinLockCount := g_spinLockCount s + 1, scheduler_lock := 1,
    threads := h4, suspended_list := l3, ready_list := l4\<rparr>"
  have rel: "scheduler_release ?s4 = Inr (?s4\<lparr>g_spinLockCount := g_spinLockCount s, scheduler_lock := 0\<rparr>)"
    using release_nested [of ?s4] lock by simp
  let ?s' = "?s4\<lparr>g_spinLockCount := g_spinLockCount s, scheduler_lock := 0\<rparr>"
  have run: "thread_wakeup t s = Inr ?s'"
    using lock t(2) r(1) a(1) rel acquire_nested [of s]
    by (simp add: thread_wakeup_def set_state_def Let_def)
  have pay: "thread_payload (h4 u) = thread_payload (?h2 u)" for u using r(3) a(3) by simp
  have w: "woken ?h t h4"
    unfolding woken_def using payload_fields [OF pay] by simp
  have "queued ?s' (rs @ [t]) (remove1 t ss)"
    using a(2) ss4 q' t(1) dist w unfolding queued_def woken_def by (auto simp: set_remove1_eq)
  with run w lock show ?thesis by (intro exI [of _ ?s']) (simp add: same_rest_def)
qed

text \<open>Called with the scheduler unlocked, whichever list the thread is on.\<close>

lemma wakeup_fatal:
  "unlocked s \<Longrightarrow> th_state (threads s t) \<noteq> THREAD_SUSPENDED \<Longrightarrow>
   thread_wakeup t s = Inl (Fatal ''thread_wakeup() - Thread isn't suspended!'')"
  using acquire_first [of s] by (simp add: thread_wakeup_def unlocked_def)

lemma wakeup_outcome:
  assumes q: "queued s rs ss" and u: "unlocked s" and t: "t \<notin> set rs"
  shows "if th_state (threads s t) = THREAD_SUSPENDED
    then \<exists>s'. thread_wakeup t s = Inr s' \<and> unlocked s' \<and> thread_list (threads s') (ready_list s') (rs @ [t]) \<and>
      thread_list (threads s') (suspended_list s') (remove1 t ss) \<and> woken (threads s) t (threads s') \<and> if_flag s' = if_flag s
    else thread_wakeup t s = Inl (Fatal ''thread_wakeup() - Thread isn't suspended!'')"
proof (cases "th_state (threads s t) = THREAD_SUSPENDED")
  case False
  then show ?thesis using wakeup_fatal [OF u] by simp
next
  case True
  note q' = q [unfolded queued_def]
  let ?h = "threads s"
  let ?h1 = "?h(t := (?h t)\<lparr>th_state := THREAD_READY\<rparr>)"
  let ?h2 = "?h1(t := (?h1 t)\<lparr>th_blocker := None\<rparr>)"
  have l2: "thread_list ?h2 l xs = thread_list ?h l xs" for l xs by (simp only: thread_list_payload)
  have ss2: "thread_list ?h2 (suspended_list s) ss" and rs2: "thread_list ?h2 (ready_list s) rs"
    using q' by (simp_all only: l2)
  obtain h3 l3 where r: "list_remove ?h2 (suspended_list s) t = Some (h3, l3)" "thread_list h3 l3 (remove1 t ss)"
    "\<And>u. thread_payload (h3 u) = thread_payload (?h2 u)" "\<And>u. u \<notin> set ss - {t} \<Longrightarrow> h3 u = ?h2 u"
  proof (cases "t \<in> set ss")
    case True
    show ?thesis by (rule tq.removeE [OF ss2 True]) (rule that)
  next
    case False
    then show ?thesis using that tq.remove_absent [OF ss2 False] ss2 by (simp add: remove1_idem)
  qed
  have rs3: "thread_list h3 (ready_list s) rs"
  proof (rule tq.rep_local [OF rs2])
    fix u assume "u \<in> set rs"
    then have "u \<notin> set ss - {t}" using q' by auto
    then show "h3 u = ?h2 u" by (rule r(4))
  qed
  obtain h4 l4 where a: "list_append h3 (ready_list s) t = Some (h4, l4)" "thread_list h4 l4 (rs @ [t])"
    "\<And>u. thread_payload (h4 u) = thread_payload (h3 u)" "\<And>u. u \<notin> insert t (set rs) \<Longrightarrow> h4 u = h3 u"
    using tq.appendE [OF rs3 t] by blast
  have dist: "distinct ss" using tq.rep_distinct q' by blast
  have ss4: "thread_list h4 l3 (remove1 t ss)"
  proof (rule tq.rep_local [OF r(2)])
    fix u assume "u \<in> set (remove1 t ss)"
    then have "u \<notin> insert t (set rs)" using dist q' by (auto simp: set_remove1_eq)
    then show "h4 u = h3 u" by (rule a(4))
  qed
  let ?s4 = "s\<lparr>if_flag := False, g_spinLockCount := 1, g_interruptsEnabled := interrupt_enabled s, scheduler_lock := 1,
    threads := h4, suspended_list := l3, ready_list := l4\<rparr>"
  let ?s' = "?s4\<lparr>if_flag := if_flag s, g_spinLockCount := 0, scheduler_lock := 0\<rparr>"
  have rel: "scheduler_release ?s4 = Inr ?s'" using release_last [of ?s4] by simp
  have run: "thread_wakeup t s = Inr ?s'"
    using u True r(1) a(1) rel acquire_first [of s]
    by (simp add: thread_wakeup_def set_state_def Let_def unlocked_def)
  have pay: "thread_payload (h4 u) = thread_payload (?h2 u)" for u using r(3) a(3) by simp
  have "woken ?h t h4" unfolding woken_def using payload_fields [OF pay] by simp
  then show ?thesis unfolding if_P [OF True] using run a(2) ss4 by (intro exI [of _ ?s']) (simp add: unlocked_def)
qed

end
