(* ===== verification/Semaphore.thy ===== *)
theory Semaphore
  imports Scheduler
begin

text \<open>
  \<^verbatim>\<open>kernel/semaphore.c\<close> and \<^verbatim>\<open>kernel/mutex.c\<close>: counting semaphores with a queue of waiting
  threads. A waiter is a local variable of the blocked thread's call of \<open>semaphore_lock\<close>,
  so it is identified by that thread. The queue has a head and a tail pointer.
\<close>

record waiter =
  wt_thread :: tid
  wt_next :: "tid option"

record semaphore =
  sm_lock :: u32
  sm_count :: int
  sm_head :: "tid option"
  sm_tail :: "tid option"

type_synonym waiter_heap = "tid \<Rightarrow> waiter"

record sys = sched +
  sems :: "sid \<Rightarrow> semaphore"
  waiters :: waiter_heap

section \<open>The queue of waiters\<close>

definition set_wt_next :: "waiter_heap \<Rightarrow> tid \<Rightarrow> tid option \<Rightarrow> waiter_heap" where
  "set_wt_next h w v = h(w := (h w)\<lparr>wt_next := v\<rparr>)"

text \<open>Linking a waiter, and the pop in \<open>semaphore_unlock\<close>; the queue is its head and tail.\<close>

definition waiter_append ::
    "waiter_heap \<Rightarrow> tid option \<times> tid option \<Rightarrow> tid \<Rightarrow> (waiter_heap \<times> tid option \<times> tid option) option" where
  "waiter_append h q waiter =
     (let h = set_wt_next h waiter None
      in case snd q of
           None \<Rightarrow> Some (h, Some waiter, Some waiter)
         | Some tail \<Rightarrow> Some (set_wt_next h tail (Some waiter), fst q, Some waiter))"

definition waiter_pop ::
    "waiter_heap \<Rightarrow> tid option \<times> tid option \<Rightarrow> waiter_heap \<times> (tid option \<times> tid option) \<times> tid option" where
  "waiter_pop h q =
     (case fst q of
        None \<Rightarrow> (h, q, None)
      | Some waiter \<Rightarrow>
          let head = wt_next (h waiter);
              tail = (if head = None then None else snd q)
          in (h, (head, tail), Some waiter))"

definition wt_nexts :: "waiter_heap \<Rightarrow> tid \<Rightarrow> tid option" where
  "wt_nexts h w = wt_next (h w)"

definition waiter_queue :: "waiter_heap \<Rightarrow> tid option \<times> tid option \<Rightarrow> tid list \<Rightarrow> bool" where
  "waiter_queue h q ws \<longleftrightarrow>
     chain (wt_nexts h) (fst q) ws \<and> snd q = (if ws = [] then None else Some (last ws))"

lemma wt_nexts_set [simp]: "wt_nexts (set_wt_next h w v) = (wt_nexts h)(w := v)"
  by (auto simp: set_wt_next_def wt_nexts_def)

lemma wt_thread_set [simp]: "wt_thread (set_wt_next h w v u) = wt_thread (h u)"
  by (simp add: set_wt_next_def)

lemma set_wt_next_other [simp]: "u \<noteq> w \<Longrightarrow> set_wt_next h w v u = h u"
  by (simp add: set_wt_next_def)

interpretation wq: intrusive_queue waiter_append waiter_pop waiter_queue wt_thread
proof unfold_locales
  fix h q ws w
  assume q: "waiter_queue h q ws" and w: "w \<notin> set ws"
  show "\<exists>h' q'. waiter_append h q w = Some (h', q') \<and> waiter_queue h' q' (ws @ [w]) \<and>
      (\<forall>t. wt_thread (h' t) = wt_thread (h t)) \<and> (\<forall>t. t \<notin> insert w (set ws) \<longrightarrow> h' t = h t)"
  proof (cases "ws = []")
    case True
    then show ?thesis using q by (simp add: waiter_append_def waiter_queue_def wt_nexts_def set_wt_next_def)
  next
    case False
    have "chain ((wt_nexts h)(w := None, last ws := Some w)) (fst q) (ws @ [w])"
      using q False w by (intro chain_snoc) (simp_all add: waiter_queue_def)
    moreover have "\<forall>t. t \<notin> insert w (set ws) \<longrightarrow> t \<noteq> w \<and> t \<noteq> last ws" using False by auto
    ultimately show ?thesis using q False by (simp add: waiter_append_def waiter_queue_def Let_def)
  qed
next
  fix h q
  assume "waiter_queue h q []"
  then show "waiter_pop h q = (h, q, None)" by (simp add: waiter_queue_def waiter_pop_def)
next
  fix h q w ws
  assume "waiter_queue h q (w # ws)"
  then show "\<exists>h' q'. waiter_pop h q = (h', q', Some w) \<and> waiter_queue h' q' ws \<and>
      (\<forall>t. wt_thread (h' t) = wt_thread (h t)) \<and> (\<forall>t. t \<noteq> w \<longrightarrow> h' t = h t)"
    by (cases ws) (auto simp: waiter_queue_def waiter_pop_def wt_nexts_def Let_def)
next
  fix h h' :: waiter_heap and q ws
  assume "waiter_queue h q ws" and "\<And>t. t \<in> set ws \<Longrightarrow> h' t = h t"
  then show "waiter_queue h' q ws"
    unfolding waiter_queue_def using chain_cong [of ws "wt_nexts h" "wt_nexts h'"] by (simp add: wt_nexts_def)
qed (auto simp: waiter_queue_def dest: chain_distinct chain_unique)

section \<open>Operations\<close>

definition set_sem :: "sid \<Rightarrow> (semaphore \<Rightarrow> semaphore) \<Rightarrow> 'a sys_scheme \<Rightarrow> 'a sys_scheme" where
  "set_sem m f s = s\<lparr>sems := (sems s)(m := f (sems s m))\<rparr>"

definition sem_acquire :: "sid \<Rightarrow> 'a sys_scheme \<Rightarrow> 'a sys_scheme outcome" where
  "sem_acquire m s =
     and_then (spin_lock (sm_lock (sems s m)) s) (\<lambda>(l, s). Inr (set_sem m (\<lambda>x. x\<lparr>sm_lock := l\<rparr>) s))"

definition sem_release :: "sid \<Rightarrow> 'a sys_scheme \<Rightarrow> 'a sys_scheme outcome" where
  "sem_release m s =
     and_then (spin_unlock (sm_lock (sems s m)) s) (\<lambda>(l, s). Inr (set_sem m (\<lambda>x. x\<lparr>sm_lock := l\<rparr>) s))"

definition semaphore_init :: "sid \<Rightarrow> int \<Rightarrow> 'a sys_scheme \<Rightarrow> 'a sys_scheme outcome" where
  "semaphore_init m initialCount s =
     check (initialCount \<ge> 0) (Assertion_failed ''initialCount >= 0'')
       (Inr (s\<lparr>sems := (sems s)(m := \<lparr>sm_lock = SPINLOCK_UNLOCKED, sm_count = initialCount,
                                          sm_head = None, sm_tail = None\<rparr>)\<rparr>))"

text \<open>
  \<open>semaphore_lock\<close> up to its call of \<open>thread_yield\<close>; the result says whether the count was
  taken (and \<open>semaphore_lock\<close> returns). The thread can be preempted before the call.
\<close>

definition semaphore_lock_begin :: "sid \<Rightarrow> 'a sys_scheme \<Rightarrow> (bool \<times> 'a sys_scheme) outcome" where
  "semaphore_lock_begin m s =
     and_then (sem_acquire m s) (\<lambda>s.
       if sm_count (sems s m) > 0 then
         and_then (sem_release m (set_sem m (\<lambda>x. x\<lparr>sm_count := sm_count x - 1\<rparr>) s)) (\<lambda>s. Inr (True, s))
       else
         let thread = current_thread s;
             s = s\<lparr>waiters := (waiters s)(thread := \<lparr>wt_thread = thread, wt_next = None\<rparr>)\<rparr>
         in and_then (returns (waiter_append (waiters s) (sm_head (sems s m), sm_tail (sems s m)) thread))
              (\<lambda>(h, head, tail).
              let s = set_sem m (\<lambda>x. x\<lparr>sm_head := head, sm_tail := tail\<rparr>) (s\<lparr>waiters := h\<rparr>);
                  s = set_state thread THREAD_SUSPENDED s;
                  s = s\<lparr>threads := (threads s)(thread := (threads s thread)\<lparr>th_blocker := Some m\<rparr>)\<rparr>
              in and_then (sem_release m s) (\<lambda>s. Inr (False, s))))"

definition semaphore_lock :: "device \<Rightarrow> sid \<Rightarrow> 'a sys_scheme \<Rightarrow> 'a sys_scheme outcome" where
  "semaphore_lock dev m s =
     and_then (semaphore_lock_begin m s) (\<lambda>(taken, s).
       if taken then Inr s
       else and_then (thread_yield dev Called_by_thread s) (\<lambda>(switched, s). Inr s))"

definition semaphore_try_lock :: "sid \<Rightarrow> 'a sys_scheme \<Rightarrow> (bool \<times> 'a sys_scheme) outcome" where
  "semaphore_try_lock m s =
     and_then (sem_acquire m s) (\<lambda>s.
       if sm_count (sems s m) > 0 then
         and_then (sem_release m (set_sem m (\<lambda>x. x\<lparr>sm_count := sm_count x - 1\<rparr>) s)) (\<lambda>s. Inr (True, s))
       else and_then (sem_release m s) (\<lambda>s. Inr (False, s)))"

definition semaphore_unlock :: "sid \<Rightarrow> 'a sys_scheme \<Rightarrow> 'a sys_scheme outcome" where
  "semaphore_unlock m s =
     and_then (sem_acquire m s) (\<lambda>s.
       case waiter_pop (waiters s) (sm_head (sems s m), sm_tail (sems s m)) of
         (h, q, None) \<Rightarrow> sem_release m (set_sem m (\<lambda>x. x\<lparr>sm_count := sm_count x + 1\<rparr>) s)
       | (h, (head, tail), Some waiter) \<Rightarrow>
           let s = set_sem m (\<lambda>x. x\<lparr>sm_head := head, sm_tail := tail\<rparr>) s
           in and_then (thread_wakeup (wt_thread (waiters s waiter)) s) (\<lambda>s. sem_release m s))"

section \<open>Mutexes\<close>

text \<open>A \<open>mutex_t\<close> is a structure with a semaphore as its only field.\<close>

definition mutex_init :: "sid \<Rightarrow> 'a sys_scheme \<Rightarrow> 'a sys_scheme outcome" where
  "mutex_init m s = semaphore_init m 1 s"

definition mutex_lock :: "device \<Rightarrow> sid \<Rightarrow> 'a sys_scheme \<Rightarrow> 'a sys_scheme outcome" where
  "mutex_lock dev m s = semaphore_lock dev m s"

definition mutex_try_lock :: "sid \<Rightarrow> 'a sys_scheme \<Rightarrow> (bool \<times> 'a sys_scheme) outcome" where
  "mutex_try_lock m s = semaphore_try_lock m s"

definition mutex_unlock :: "sid \<Rightarrow> 'a sys_scheme \<Rightarrow> 'a sys_scheme outcome" where
  "mutex_unlock m s = semaphore_unlock m s"

end
