(* ===== verification/Run.thy ===== *)
theory Run
  imports Semaphore "HOL-Library.Multiset"
begin

text \<open>
  The kernel as a transition system: threads call the scheduler and the semaphores, and the
  timer interrupt comes at any point between the operations where interrupts are enabled,
  in particular between the two halves of \<open>semaphore_lock\<close>. Three ghost fields follow what the code does
  not store: which threads are about to call \<open>thread_yield\<close> inside \<open>semaphore_lock\<close>, which
  threads hold a unit of each semaphore, and how many units it has.
\<close>

record run = sys +
  must_yield :: "tid \<Rightarrow> bool"
  held :: "sid \<Rightarrow> tid multiset"
  capacity :: "sid \<Rightarrow> int"

definition grant :: "sid \<Rightarrow> tid \<Rightarrow> run \<Rightarrow> run" where
  "grant m t s = s\<lparr>held := (held s)(m := add_mset t (held s m))\<rparr>"

definition woken_waiter :: "sid \<Rightarrow> 'a sys_scheme \<Rightarrow> tid multiset" where
  "woken_waiter m s = (case sm_head (sems s m) of None \<Rightarrow> {#} | Some w \<Rightarrow> {#w#})"

inductive step :: "device \<Rightarrow> run \<Rightarrow> run \<Rightarrow> bool" for dev :: device where
  Tick: "if_flag s \<Longrightarrow> timer_interrupt dev s = Inr s' \<Longrightarrow> step dev s s'"
| Yield: "thread_yield dev Called_by_thread s = Inr (switched, s') \<Longrightarrow>
    step dev s (s'\<lparr>must_yield := (must_yield s')(current_thread s := False)\<rparr>)"
| Lock: "\<not> must_yield s (current_thread s) \<Longrightarrow> semaphore_lock_begin m s = Inr (True, s') \<Longrightarrow>
    step dev s (grant m (current_thread s) s')"
| Block: "\<not> must_yield s (current_thread s) \<Longrightarrow> semaphore_lock_begin m s = Inr (False, s') \<Longrightarrow>
    step dev s (s'\<lparr>must_yield := (must_yield s')(current_thread s := True)\<rparr>)"
| Try: "\<not> must_yield s (current_thread s) \<Longrightarrow> semaphore_try_lock m s = Inr (True, s') \<Longrightarrow>
    step dev s (grant m (current_thread s) s')"
| Try_fails: "\<not> must_yield s (current_thread s) \<Longrightarrow> semaphore_try_lock m s = Inr (False, s') \<Longrightarrow> step dev s s'"
| Unlock: "\<not> must_yield s (current_thread s) \<Longrightarrow> current_thread s \<in># held s m \<Longrightarrow>
    semaphore_unlock m s = Inr s' \<Longrightarrow>
    step dev s (s'\<lparr>held := (held s')(m := held s m - {#current_thread s#} + woken_waiter m s)\<rparr>)"
| Signal: "\<not> must_yield s (current_thread s) \<Longrightarrow> semaphore_unlock m s = Inr s' \<Longrightarrow>
    step dev s (s'\<lparr>held := (held s')(m := held s m + woken_waiter m s),
                    capacity := (capacity s')(m := capacity s m + 1)\<rparr>)"

section \<open>The invariant\<close>

text \<open>
  \<open>sem_ok s m ws\<close>: the threads queued on semaphore \<open>m\<close> are \<open>ws\<close>, in order; they are
  suspended on it; while there are any its count is 0; units held and count add up.
\<close>

definition sem_ok :: "run \<Rightarrow> sid \<Rightarrow> tid list \<Rightarrow> bool" where
  "sem_ok s m ws \<longleftrightarrow>
     sm_lock (sems s m) = 0 \<and> waiter_queue (waiters s) (sm_head (sems s m), sm_tail (sems s m)) ws \<and>
     0 \<le> sm_count (sems s m) \<and> (ws \<noteq> [] \<longrightarrow> sm_count (sems s m) = 0) \<and>
     (\<forall>w \<in> set ws. wt_thread (waiters s w) = w \<and> th_state (threads s w) = THREAD_SUSPENDED \<and>
                    th_blocker (threads s w) = Some m) \<and>
     int (size (held s m)) + sm_count (sems s m) = capacity s m"

definition run_ok :: "run \<Rightarrow> tid list \<Rightarrow> tid list \<Rightarrow> (sid \<Rightarrow> tid list) \<Rightarrow> bool" where
  "run_ok s rs ss W \<longleftrightarrow>
     unlocked s \<and> queued s rs ss \<and>
     (\<forall>t \<in> set rs. th_state (threads s t) = THREAD_READY) \<and>
     (\<forall>t \<in> set ss. th_state (threads s t) = THREAD_SUSPENDED) \<and>
     (current_state s = THREAD_RUNNING \<or> current_state s = THREAD_SUSPENDED \<and> must_yield s (current_thread s)) \<and>
     (\<forall>m. sem_ok s m (W m)) \<and> (\<forall>m. set (W m) \<subseteq> insert (current_thread s) (set ss)) \<and>
     (\<forall>t \<in> insert (current_thread s) (set ss). th_state (threads s t) = THREAD_SUSPENDED \<longrightarrow> (\<exists>m. t \<in> set (W m)))"

section \<open>What the operations do\<close>

lemma sem_acquire_first:
  "g_spinLockCount s = 0 \<Longrightarrow> sm_lock (sems s m) = 0 \<Longrightarrow>
   sem_acquire m s = Inr (set_sem m (\<lambda>x. x\<lparr>sm_lock := 1\<rparr>)
     (s\<lparr>if_flag := False, g_spinLockCount := 1, g_interruptsEnabled := interrupt_enabled s\<rparr>))"
  by (simp add: sem_acquire_def spin_lock_first)

lemma sem_release_last:
  "\<not> if_flag s \<Longrightarrow> g_spinLockCount s = 1 \<Longrightarrow>
   sem_release m s = Inr (set_sem m (\<lambda>x. x\<lparr>sm_lock := 0\<rparr>)
     (s\<lparr>if_flag := (g_interruptsEnabled s \<noteq> 0), g_spinLockCount := 0\<rparr>))"
  by (simp add: sem_release_def spin_unlock_last)

definition lists_of :: "'a sched_scheme \<Rightarrow> tid \<times> tid option \<times> tid option" where
  "lists_of s = (current_thread s, ready_list s, suspended_list s)"

definition ghosts :: "run \<Rightarrow> (tid \<Rightarrow> bool) \<times> (sid \<Rightarrow> tid multiset) \<times> (sid \<Rightarrow> int)" where
  "ghosts s = (must_yield s, held s, capacity s)"

lemmas state_parts = lists_of_def ghosts_def unlocked_def

lemma lock_taken:
  fixes s :: run
  assumes u: "unlocked s" and l: "sm_lock (sems s m) = 0" and c: "0 < sm_count (sems s m)"
  shows "\<exists>s'. semaphore_lock_begin m s = Inr (True, s') \<and> semaphore_try_lock m s = Inr (True, s') \<and>
    unlocked s' \<and> lists_of s' = lists_of s \<and> ghosts s' = ghosts s \<and> threads s' = threads s \<and> waiters s' = waiters s \<and>
    sems s' = (sems s)(m := (sems s m)\<lparr>sm_count := sm_count (sems s m) - 1\<rparr>) \<and> if_flag s' = if_flag s"
proof -
  have same: "(sems s m)\<lparr>sm_count := c, sm_lock := 0\<rparr> = (sems s m)\<lparr>sm_count := c\<rparr>" for c
    using l by (cases "sems s m") simp
  show ?thesis
    using u c sem_acquire_first [of s m] l
    by (simp add: semaphore_lock_begin_def semaphore_try_lock_def sem_release_last set_sem_def state_parts same)
qed

lemma try_fails:
  fixes s :: run
  assumes u: "unlocked s" and l: "sm_lock (sems s m) = 0" and c: "\<not> 0 < sm_count (sems s m)"
  shows "\<exists>s'. semaphore_try_lock m s = Inr (False, s') \<and>
    unlocked s' \<and> lists_of s' = lists_of s \<and> ghosts s' = ghosts s \<and> threads s' = threads s \<and> waiters s' = waiters s \<and>
    sems s' = sems s \<and> if_flag s' = if_flag s"
proof -
  have same: "(sems s m)\<lparr>sm_lock := 0\<rparr> = sems s m" using l by simp
  show ?thesis
    using u c sem_acquire_first [of s m] l same
    by (simp add: semaphore_try_lock_def sem_release_last set_sem_def state_parts fun_upd_idem_iff)
qed

lemma lock_blocked:
  fixes s :: run
  assumes u: "unlocked s" and l: "sm_lock (sems s m) = 0" and c: "\<not> 0 < sm_count (sems s m)"
    and q: "waiter_queue (waiters s) (sm_head (sems s m), sm_tail (sems s m)) ws" and w: "current_thread s \<notin> set ws"
  shows "\<exists>s'. semaphore_lock_begin m s = Inr (False, s') \<and> unlocked s' \<and> lists_of s' = lists_of s \<and> ghosts s' = ghosts s \<and>
    if_flag s' = if_flag s \<and>
    threads s' = (threads s)(current_thread s := (threads s (current_thread s))
       \<lparr>th_state := THREAD_SUSPENDED, th_blocker := Some m\<rparr>) \<and>
    waiter_queue (waiters s') (sm_head (sems s' m), sm_tail (sems s' m)) (ws @ [current_thread s]) \<and>
    wt_thread (waiters s' (current_thread s)) = current_thread s \<and>
    (\<forall>v. v \<notin> insert (current_thread s) (set ws) \<longrightarrow> waiters s' v = waiters s v) \<and>
    (\<forall>v. v \<noteq> current_thread s \<longrightarrow> wt_thread (waiters s' v) = wt_thread (waiters s v)) \<and>
    sm_lock (sems s' m) = 0 \<and> sm_count (sems s' m) = sm_count (sems s m) \<and>
    (\<forall>k. k \<noteq> m \<longrightarrow> sems s' k = sems s k)"
proof -
  let ?t = "current_thread s"
  let ?h0 = "(waiters s)(?t := \<lparr>wt_thread = ?t, wt_next = None\<rparr>)"
  have q0: "waiter_queue ?h0 (sm_head (sems s m), sm_tail (sems s m)) ws"
    by (rule wq.rep_local [OF q]) (use w in auto)
  obtain h head tail where a: "waiter_append ?h0 (sm_head (sems s m), sm_tail (sems s m)) ?t = Some (h, head, tail)"
    "waiter_queue h (head, tail) (ws @ [?t])" "\<And>v. wt_thread (h v) = wt_thread (?h0 v)"
    "\<And>v. v \<notin> insert ?t (set ws) \<Longrightarrow> h v = ?h0 v"
    using wq.appendE [OF q0 w] by (metis surj_pair)
  have a4: "\<And>v. v \<notin> insert ?t (set ws) \<Longrightarrow> h v = waiters s v" using a(4) by simp
  show ?thesis
    using u c sem_acquire_first [of s m] l a(1) a(2) a(3) a4
    by (simp add: semaphore_lock_begin_def sem_release_last set_sem_def set_state_def state_parts Let_def)
qed
lemma unlock_free:
  fixes s :: run
  assumes u: "unlocked s" and l: "sm_lock (sems s m) = 0"
    and q: "waiter_queue (waiters s) (sm_head (sems s m), sm_tail (sems s m)) []"
  shows "\<exists>s'. semaphore_unlock m s = Inr s' \<and> unlocked s' \<and> lists_of s' = lists_of s \<and> ghosts s' = ghosts s \<and>
    threads s' = threads s \<and> waiters s' = waiters s \<and>
    sems s' = (sems s)(m := (sems s m)\<lparr>sm_count := sm_count (sems s m) + 1\<rparr>) \<and> if_flag s' = if_flag s"
proof -
  have same: "(sems s m)\<lparr>sm_count := c, sm_lock := 0\<rparr> = (sems s m)\<lparr>sm_count := c\<rparr>" for c
    using l by (cases "sems s m") simp
  have "sm_head (sems s m) = None" using q by (simp add: waiter_queue_def)
  then show ?thesis
    using u sem_acquire_first [of s m] l
    by (simp add: semaphore_unlock_def waiter_pop_def sem_release_last set_sem_def state_parts same)
qed

lemma pop_heap: "waiter_pop h q = (h', r) \<Longrightarrow> h' = h"
  by (auto simp: waiter_pop_def Let_def split: option.splits)

lemma same_rest_run:
  fixes s s' :: run
  assumes "same_rest s s'"
  shows "sems s' = sems s" "waiters s' = waiters s" "must_yield s' = must_yield s" "held s' = held s"
    "capacity s' = capacity s"
  by (rule trans [OF arg_cong [OF assms [unfolded same_rest_def]]], simp)+

lemma unlock_wake:
  fixes s :: run
  assumes u: "unlocked s" and l: "sm_lock (sems s m) = 0" and qs: "queued s rs ss"
    and q: "waiter_queue (waiters s) (sm_head (sems s m), sm_tail (sems s m)) (w # ws)"
    and w: "wt_thread (waiters s w) = w" "w \<in> set ss" "th_state (threads s w) = THREAD_SUSPENDED"
  shows "\<exists>s'. semaphore_unlock m s = Inr s' \<and> unlocked s' \<and> queued s' (rs @ [w]) (remove1 w ss) \<and>
    woken (threads s) w (threads s') \<and> current_thread s' = current_thread s \<and> ghosts s' = ghosts s \<and>
    if_flag s' = if_flag s \<and>
    waiters s' = waiters s \<and> waiter_queue (waiters s') (sm_head (sems s' m), sm_tail (sems s' m)) ws \<and>
    sm_lock (sems s' m) = 0 \<and> sm_count (sems s' m) = sm_count (sems s m) \<and> (\<forall>k. k \<noteq> m \<longrightarrow> sems s' k = sems s k)"
proof -
  obtain head tail where p: "waiter_pop (waiters s) (sm_head (sems s m), sm_tail (sems s m)) = (waiters s, (head, tail), Some w)"
    "waiter_queue (waiters s) (head, tail) ws"
    using wq.popE [OF q] pop_heap by (metis surj_pair)
  let ?s1 = "set_sem m (\<lambda>x. x\<lparr>sm_lock := 1\<rparr>)
     (s\<lparr>if_flag := False, g_spinLockCount := 1, g_interruptsEnabled := interrupt_enabled s\<rparr>)"
  let ?s2 = "set_sem m (\<lambda>x. x\<lparr>sm_head := head, sm_tail := tail\<rparr>) ?s1"
  have acq: "sem_acquire m s = Inr ?s1" using u l by (intro sem_acquire_first) (simp_all add: unlocked_def)
  have q2: "queued ?s2 rs ss" using qs by (simp add: queued_def set_sem_def)
  have pre2: "th_state (threads ?s2 w) = THREAD_SUSPENDED" "scheduler_lock ?s2 = 0" "0 < g_spinLockCount ?s2" "\<not> if_flag ?s2"
    using w(3) u by (simp_all add: set_sem_def unlocked_def)
  obtain s3 where s3: "thread_wakeup w ?s2 = Inr s3" "queued s3 (rs @ [w]) (remove1 w ss)" "woken (threads ?s2) w (threads s3)"
    "current_thread s3 = current_thread ?s2" "same_rest ?s2 s3" "scheduler_lock s3 = 0" "g_spinLockCount s3 = g_spinLockCount ?s2"
    "\<not> if_flag s3" "g_interruptsEnabled s3 = g_interruptsEnabled ?s2"
    using wakeup [OF q2 w(2) pre2] by blast
  note r3 = same_rest_run [OF s3(5)]
  let ?s4 = "set_sem m (\<lambda>x. x\<lparr>sm_lock := 0\<rparr>) (s3\<lparr>if_flag := (g_interruptsEnabled s3 \<noteq> 0), g_spinLockCount := 0\<rparr>)"
  have c3: "g_spinLockCount s3 = 1" using s3(7) by (simp add: set_sem_def)
  have rel: "sem_release m s3 = Inr ?s4" by (rule sem_release_last [OF s3(8) c3])
  have run: "semaphore_unlock m s = Inr ?s4"
    using acq p(1) w(1) s3(1) rel by (simp add: semaphore_unlock_def set_sem_def)
  have "queued ?s4 (rs @ [w]) (remove1 w ss)" using s3(2) by (simp add: queued_def set_sem_def)
  moreover have "woken (threads s) w (threads ?s4)" using s3(3) by (simp add: set_sem_def)
  moreover have "waiter_queue (waiters ?s4) (sm_head (sems ?s4 m), sm_tail (sems ?s4 m)) ws"
    using p(2) r3 by (simp add: set_sem_def)
  moreover have "sems ?s4 k = (if k = m then (sems s m)\<lparr>sm_head := head, sm_tail := tail\<rparr> else sems s k)" for k
    using r3(1) l by (cases "sems s m") (simp add: set_sem_def)
  moreover have "unlocked ?s4" "current_thread ?s4 = current_thread s" "ghosts ?s4 = ghosts s" "waiters ?s4 = waiters s"
    "if_flag ?s4 = if_flag s"
    using s3(4,6,9) r3 by (simp_all add: set_sem_def state_parts)
  ultimately show ?thesis using run l by (intro exI [of _ ?s4]) simp
qed

section \<open>Preservation\<close>

definition run_view where
  "run_view s = (threads s, current_thread s, ready_list s, suspended_list s, scheduler_lock s, g_spinLockCount s,
     sems s, waiters s, must_yield s, held s, capacity s)" for s :: run

lemma run_ok_view: "run_view s' = run_view s \<Longrightarrow> run_ok s' = run_ok s"
  by (intro ext) (simp add: run_view_def run_ok_def sem_ok_def unlocked_def queued_def current_state_def)

lemma run_okD:
  assumes "run_ok s rs ss W"
  shows "unlocked s" "queued s rs ss" "\<And>t. t \<in> set rs \<Longrightarrow> th_state (threads s t) = THREAD_READY"
    "\<And>t. t \<in> set ss \<Longrightarrow> th_state (threads s t) = THREAD_SUSPENDED"
    "current_state s = THREAD_RUNNING \<or> current_state s = THREAD_SUSPENDED"
    "current_state s = THREAD_SUSPENDED \<Longrightarrow> must_yield s (current_thread s)"
    "sem_ok s m (W m)" "set (W m) \<subseteq> insert (current_thread s) (set ss)"
    "t \<in> insert (current_thread s) (set ss) \<Longrightarrow> th_state (threads s t) = THREAD_SUSPENDED \<Longrightarrow> \<exists>m. t \<in> set (W m)"
proof -
  note r = assms [unfolded run_ok_def]
  show "unlocked s" "queued s rs ss" "sem_ok s m (W m)" "set (W m) \<subseteq> insert (current_thread s) (set ss)"
    using r by simp_all
  show "current_state s = THREAD_RUNNING \<or> current_state s = THREAD_SUSPENDED"
    using r by (elim conjE) (erule disjE, simp_all)
  show "\<And>t. t \<in> set rs \<Longrightarrow> th_state (threads s t) = THREAD_READY"
    "\<And>t. t \<in> set ss \<Longrightarrow> th_state (threads s t) = THREAD_SUSPENDED"
    "current_state s = THREAD_SUSPENDED \<Longrightarrow> must_yield s (current_thread s)"
    "t \<in> insert (current_thread s) (set ss) \<Longrightarrow> th_state (threads s t) = THREAD_SUSPENDED \<Longrightarrow> \<exists>m. t \<in> set (W m)"
    using r by auto
qed

lemma running_not_waiting:
  assumes "run_ok s rs ss W" "current_state s = THREAD_RUNNING"
  shows "current_thread s \<notin> set (W m)"
  using run_okD(7) [OF assms(1), of m] assms(2) by (auto simp: sem_ok_def current_state_def)

lemma sem_ok_switch:
  assumes "sem_ok s m ws" "same_rest s s'"
    "\<And>w. w \<in> set ws \<Longrightarrow> th_state (threads s' w) = th_state (threads s w)"
    "\<And>w. th_blocker (threads s' w) = th_blocker (threads s w)"
  shows "sem_ok s' m ws"
  using assms same_rest_run [OF assms(2)] unfolding sem_ok_def by simp

lemma run_yield_from:
  assumes g: "run_ok g (t # ts) ss W" "g = s\<lparr>must_yield := f\<rparr>"
  shows "\<exists>s'. thread_yield dev caller s = Inr (True, s') \<and> yielded caller s t ts ss s' \<and>
    current_state s' = THREAD_RUNNING \<and>
    run_ok s' (if current_state s = THREAD_RUNNING then ts @ [current_thread s] else ts)
              (if current_state s = THREAD_RUNNING then ss else ss @ [current_thread s]) W"
proof -
  let ?cur = "current_thread s"
  note G = run_okD [OF g(1)]
  have R: "unlocked s" "queued s (t # ts) ss" "\<And>u. u \<in> set (t # ts) \<Longrightarrow> th_state (threads s u) = THREAD_READY"
    "\<And>u. u \<in> set ss \<Longrightarrow> th_state (threads s u) = THREAD_SUSPENDED"
    "current_state s = THREAD_RUNNING \<or> current_state s = THREAD_SUSPENDED" "unlocked s" "\<And>m. sem_ok s m (W m)"
    "\<And>m. set (W m) \<subseteq> insert ?cur (set ss)"
    "\<And>u. u \<in> insert ?cur (set ss) \<Longrightarrow> th_state (threads s u) = THREAD_SUSPENDED \<Longrightarrow> \<exists>m. u \<in> set (W m)"
    using G g(2) by (simp_all add: unlocked_def queued_def current_state_def sem_ok_def)
  have waiting: "?cur \<notin> set (W m)" if "current_state s = THREAD_RUNNING" for m
    using R(7) [of m] that by (auto simp: sem_ok_def current_state_def)
  obtain s' where s': "thread_yield dev caller s = Inr (True, s')" "yielded caller s t ts ss s'"
    using yield_switch [OF R(2,1,5)] by blast
  note y = s'(2) [unfolded yielded_def]
  note q = R(2) [unfolded queued_def]
  have dist: "distinct (t # ts)" using tq.rep_distinct q by blast
  have notin: "t \<noteq> ?cur" "t \<notin> set ss" "?cur \<notin> set ts" "?cur \<notin> set ss" "t \<notin> set ts" "set ts \<inter> set ss = {}"
    using q dist by auto
  have sw: "th_state (threads s' u) = (if u = t then THREAD_RUNNING else if u = ?cur then
      (if current_state s = THREAD_RUNNING then THREAD_READY else THREAD_SUSPENDED) else th_state (threads s u))"
    "th_blocker (threads s' u) = th_blocker (threads s u)" for u
    using y by (simp_all add: switched_blocks_def)
  have cs: "current_thread s' = t" "unlocked s'" "same_rest s s'" using y by blast+
  have run: "current_state s' = THREAD_RUNNING" using cs(1) sw(1) [of t] by (simp add: current_state_def)
  have tW: "t \<notin> set (W m)" for m using R(8) [of m] notin by auto
  have sem: "sem_ok s' m (W m)" for m
  proof (rule sem_ok_switch [OF R(7) cs(3) _ sw(2)])
    fix w assume w: "w \<in> set (W m)"
    then have "th_state (threads s w) = THREAD_SUSPENDED" using R(7) [of m] by (simp add: sem_ok_def)
    then show "th_state (threads s' w) = th_state (threads s w)"
      using sw(1) [of w] tW [of m] w by (auto simp: current_state_def)
  qed
  show ?thesis
  proof (cases "current_state s = THREAD_RUNNING")
    case True
    then have q': "queued s' (ts @ [?cur]) ss" using y by simp
    have W: "set (W m) \<subseteq> insert (current_thread s') (set ss)" for m
      using R(8) [of m] waiting [OF True, of m] by auto
    have "run_ok s' (ts @ [?cur]) ss W"
      unfolding run_ok_def using q' W sem run cs notin R(3,4,9) sw(1) True by auto
    then show ?thesis using True s' run by auto
  next
    case False
    then have q': "queued s' ts (ss @ [?cur])" and S: "th_state (threads s ?cur) = THREAD_SUSPENDED"
      using y R(5) by (simp_all add: current_state_def)
    have W: "set (W m) \<subseteq> insert (current_thread s') (set (ss @ [?cur]))" for m
      using R(8) [of m] by auto
    have "run_ok s' ts (ss @ [?cur]) W"
      unfolding run_ok_def using q' W sem run cs notin R(3,4,9) sw(1) False S by auto
    then show ?thesis using False s' run by auto
  qed
qed

lemma run_yield:
  assumes "run_ok s (t # ts) ss W"
  shows "\<exists>s'. thread_yield dev caller s = Inr (True, s') \<and> yielded caller s t ts ss s' \<and>
    current_state s' = THREAD_RUNNING \<and>
    run_ok s' (if current_state s = THREAD_RUNNING then ts @ [current_thread s] else ts)
              (if current_state s = THREAD_RUNNING then ss else ss @ [current_thread s]) W"
  using run_yield_from [OF assms, where s = s and f = "must_yield s"] by simp

lemma run_ok_running:
  assumes "run_ok s rs ss W" "current_state s = THREAD_RUNNING"
  shows "run_ok (s\<lparr>must_yield := f\<rparr>) rs ss W"
  using assms by (simp add: run_ok_def sem_ok_def unlocked_def queued_def current_state_def)

lemma run_yield_alone:
  assumes r: "run_ok s [] ss W" and c: "current_state s = THREAD_RUNNING"
  shows "thread_yield dev caller s = Inr (False, s\<lparr>g_interruptsEnabled := interrupt_enabled s\<rparr>)"
    "run_ok (s\<lparr>g_interruptsEnabled := i\<rparr>) [] ss W"
  using yield_alone [OF run_okD(2,1) [OF r] c] run_ok_view [of "s\<lparr>g_interruptsEnabled := i\<rparr>" s] r
  by (simp_all add: run_view_def)

section \<open>The timer interrupt\<close>

text \<open>The state \<open>thread_yield\<close> finds in the timer interrupt: the tick is counted, IRQ 0 masked.\<close>

definition tick_entry :: "device \<Rightarrow> 'a sched_scheme \<Rightarrow> 'a sched_scheme" where
  "tick_entry dev s = (let s1 = snd (dispatch_enter dev 0 (interrupt_disable s)) in s1\<lparr>timer_tick := timer_tick s1 + 1\<rparr>)"

lemma timer_interrupt_yield:
  "timer_interrupt dev s = and_then (thread_yield dev Called_by_timer (tick_entry dev s)) (\<lambda>(switched, s).
     Inr (if switched then s else interrupt_exit (dispatch_leave dev 0 s)))"
  by (simp add: timer_interrupt_def tick_entry_def timer_callback_def dispatch_enter_def pic_irq_real_def Let_def)

lemma tick_entry_view [simp]: "run_view (tick_entry dev s) = run_view s" "current_state (tick_entry dev s) = current_state s"
  "timer_tick (tick_entry dev s) = timer_tick s + 1" "if_flag (tick_entry dev s) = False"
  by (simp_all add: tick_entry_def dispatch_enter_def pic_irq_real_def run_view_def pic_eoi_def pic_disable_irq_def
      io_simps Let_def interrupt_disable_def current_state_def)

lemma leave_view [simp]: "run_view (interrupt_exit (dispatch_leave dev irq s)) = run_view s"
  by (simp add: dispatch_leave_def run_view_def pic_enable_irq_def io_simps interrupt_exit_def Let_def)

section \<open>Semaphore operations preserve the invariant\<close>

lemma lists_ghosts:
  assumes "lists_of s' = lists_of s"
  shows "current_thread s' = current_thread s" "ready_list s' = ready_list s" "suspended_list s' = suspended_list s"
  using assms by (simp_all add: lists_of_def)

lemma ghostsD:
  assumes "ghosts s' = ghosts s"
  shows "must_yield s' = must_yield s" "held s' = held s" "capacity s' = capacity s"
  using assms by (simp_all add: ghosts_def)

lemma sem_ok_cong:
  assumes "sems s' m = sems s m" "\<And>w. w \<in> set ws \<Longrightarrow> waiters s' w = waiters s w"
    "\<And>w. w \<in> set ws \<Longrightarrow> threads s' w = threads s w" "held s' m = held s m" "capacity s' m = capacity s m"
    "sem_ok s m ws"
  shows "sem_ok s' m ws"
  using assms wq.rep_local [of "waiters s" _ ws "waiters s'"] unfolding sem_ok_def by (simp (no_asm_simp))

lemma run_ok_same_threads:
  assumes r: "run_ok s rs ss W" and u: "unlocked s'" and l: "lists_of s' = lists_of s" and t: "threads s' = threads s"
    and y: "must_yield s' = must_yield s" and sem: "\<And>m. sem_ok s' m (W m)"
  shows "run_ok s' rs ss W"
  using r u t y sem lists_ghosts [OF l] by (simp add: run_ok_def queued_def current_state_def)

lemma run_lock_taken:
  assumes r: "run_ok s rs ss W" and c: "0 < sm_count (sems s m)"
  shows "\<exists>s'. semaphore_lock_begin m s = Inr (True, s') \<and> semaphore_try_lock m s = Inr (True, s') \<and>
    run_ok (grant m (current_thread s) s') rs ss W \<and> lists_of s' = lists_of s \<and> ghosts s' = ghosts s \<and> if_flag s' = if_flag s"
proof -
  note R = run_okD [OF r]
  have S: "sem_ok s k (W k)" for k by (rule R(7))
  obtain s' where s': "semaphore_lock_begin m s = Inr (True, s')" "semaphore_try_lock m s = Inr (True, s')"
    "unlocked s'" "lists_of s' = lists_of s" "ghosts s' = ghosts s" "threads s' = threads s" "waiters s' = waiters s"
    "sems s' = (sems s)(m := (sems s m)\<lparr>sm_count := sm_count (sems s m) - 1\<rparr>)" "if_flag s' = if_flag s"
    using lock_taken [OF R(1) _ c] S [of m] by (auto simp: sem_ok_def)
  let ?g = "grant m (current_thread s) s'"
  have g: "unlocked ?g" "lists_of ?g = lists_of s" "threads ?g = threads s" "must_yield ?g = must_yield s"
    using s' ghostsD [OF s'(5)] by (simp_all add: grant_def unlocked_def lists_of_def)
  have "sem_ok ?g k (W k)" for k
  proof (cases "k = m")
    case True
    have "W m = []" using S [of m] c by (auto simp: sem_ok_def)
    then show ?thesis using True S [of m] c s' ghostsD [OF s'(5)] by (simp add: sem_ok_def grant_def)
  next
    case False
    show ?thesis
      by (rule sem_ok_cong [OF _ _ _ _ _ S]) (use False s' ghostsD [OF s'(5)] in \<open>simp_all add: grant_def\<close>)
  qed
  then have "run_ok ?g rs ss W" by (rule run_ok_same_threads [OF r g])
  then show ?thesis using s' by blast
qed

lemma run_try_fails:
  assumes r: "run_ok s rs ss W" and c: "\<not> 0 < sm_count (sems s m)"
  shows "\<exists>s'. semaphore_try_lock m s = Inr (False, s') \<and> run_ok s' rs ss W \<and> lists_of s' = lists_of s \<and>
    ghosts s' = ghosts s \<and> sems s' = sems s \<and> if_flag s' = if_flag s"
proof -
  note R = run_okD [OF r]
  obtain s' where s': "semaphore_try_lock m s = Inr (False, s')" "unlocked s'" "lists_of s' = lists_of s"
    "ghosts s' = ghosts s" "threads s' = threads s" "waiters s' = waiters s" "sems s' = sems s" "if_flag s' = if_flag s"
    using try_fails [OF R(1) _ c] R(7) [of m] by (auto simp: sem_ok_def)
  have "run_ok s' rs ss W"
  proof (rule run_ok_same_threads [OF r s'(2,3,5) ghostsD(1) [OF s'(4)]])
    fix k show "sem_ok s' k (W k)"
      by (rule sem_ok_cong [OF _ _ _ _ _ R(7)]) (use s' ghostsD [OF s'(4)] in simp_all)
  qed
  then show ?thesis using s' by blast
qed

text \<open>
  A thread that finds the count at 0 queues itself at the end, is suspended, and must yield.
\<close>

lemma run_lock_blocked:
  assumes r: "run_ok s rs ss W" and c: "\<not> 0 < sm_count (sems s m)" and y: "current_state s = THREAD_RUNNING"
  shows "\<exists>s'. semaphore_lock_begin m s = Inr (False, s') \<and>
    run_ok (s'\<lparr>must_yield := (must_yield s')(current_thread s := True)\<rparr>) rs ss (W(m := W m @ [current_thread s])) \<and>
    lists_of s' = lists_of s \<and> ghosts s' = ghosts s \<and> current_state s' = THREAD_SUSPENDED"
proof -
  note R = run_okD [OF r]
  let ?t = "current_thread s"
  have S: "sem_ok s k (W k)" for k by (rule R(7))
  have notin: "?t \<notin> set (W k)" for k by (rule running_not_waiting [OF r y])
  have l: "sm_lock (sems s m) = 0" and q: "waiter_queue (waiters s) (sm_head (sems s m), sm_tail (sems s m)) (W m)"
    using S [of m] by (simp_all add: sem_ok_def)
  obtain s' where "semaphore_lock_begin m s = Inr (False, s') \<and> unlocked s' \<and> lists_of s' = lists_of s \<and> ghosts s' = ghosts s \<and>
    if_flag s' = if_flag s \<and>
    threads s' = (threads s)(?t := (threads s ?t)\<lparr>th_state := THREAD_SUSPENDED, th_blocker := Some m\<rparr>) \<and>
    waiter_queue (waiters s') (sm_head (sems s' m), sm_tail (sems s' m)) (W m @ [?t]) \<and>
    wt_thread (waiters s' ?t) = ?t \<and>
    (\<forall>v. v \<notin> insert ?t (set (W m)) \<longrightarrow> waiters s' v = waiters s v) \<and>
    (\<forall>v. v \<noteq> ?t \<longrightarrow> wt_thread (waiters s' v) = wt_thread (waiters s v)) \<and>
    sm_lock (sems s' m) = 0 \<and> sm_count (sems s' m) = sm_count (sems s m) \<and>
    (\<forall>k. k \<noteq> m \<longrightarrow> sems s' k = sems s k)"
    using lock_blocked [OF R(1) l c q notin] by blast
  note s' = this
  let ?g = "s'\<lparr>must_yield := (must_yield s')(?t := True)\<rparr>"
  have G: "held s' = held s" "capacity s' = capacity s" "must_yield s' = must_yield s"
    using s' ghostsD [of s' s] by blast+
  have L: "current_thread s' = ?t" "ready_list s' = ready_list s" "suspended_list s' = suspended_list s"
    using s' lists_ghosts [of s' s] by blast+
  have th: "threads s' = (threads s)(?t := (threads s ?t)\<lparr>th_state := THREAD_SUSPENDED, th_blocker := Some m\<rparr>)"
    using s' by blast
  have sem: "sem_ok ?g k ((W(m := W m @ [?t])) k)" for k
  proof (cases "k = m")
    case True
    then show ?thesis using s' S [of m] c notin [of m] G by (auto simp: sem_ok_def)
  next
    case False
    have disj: "w \<notin> insert ?t (set (W m))" if "w \<in> set (W k)" for w
      using that False S [of k] S [of m] notin [of k] by (auto simp: sem_ok_def)
    have "sem_ok ?g k (W k)"
      by (rule sem_ok_cong [OF _ _ _ _ _ S]) (use False s' G disj th in \<open>auto\<close>)
    then show ?thesis using False by simp
  qed
  have "nexts (threads s') = nexts (threads s)" by (auto simp: nexts_def th)
  then have q': "queued ?g rs ss" using R(2) th L by (simp add: queued_def thread_list_def)
  have tn: "?t \<notin> set rs" "?t \<notin> set ss" using R(2) by (auto simp: queued_def)
  have cs: "current_state s' = THREAD_SUSPENDED" using th L by (simp add: current_state_def)
  have W: "set ((W(m := W m @ [?t])) k) \<subseteq> insert ?t (set ss)" for k using R(8) [of k] R(8) [of m] by auto
  have blk: "\<exists>k. t \<in> set ((W(m := W m @ [?t])) k)" if "t \<in> insert ?t (set ss)" for t
  proof (cases "t = ?t")
    case False
    then have "t \<in> set ss" using that by simp
    then obtain k where "t \<in> set (W k)" using R(9) [of t] R(4) [of t] by auto
    then show ?thesis by (intro exI [of _ k]) auto
  qed (intro exI [of _ m], simp)
  have "run_ok ?g rs ss (W(m := W m @ [?t]))"
    unfolding run_ok_def
  proof (intro conjI allI ballI impI)
    show "unlocked ?g" using s' by (simp add: unlocked_def)
    show "queued ?g rs ss" by (rule q')
    show "current_state ?g = THREAD_RUNNING \<or> current_state ?g = THREAD_SUSPENDED \<and> must_yield ?g (current_thread ?g)"
      using cs L by (simp add: current_state_def)
    fix k show "sem_ok ?g k ((W(m := W m @ [?t])) k)" by (rule sem)
    show "set ((W(m := W m @ [?t])) k) \<subseteq> insert (current_thread ?g) (set ss)" using W L by simp
  next
    fix t assume "t \<in> set rs"
    then show "th_state (threads ?g t) = THREAD_READY" using R(3) th tn by auto
  next
    fix t assume "t \<in> set ss"
    then show "th_state (threads ?g t) = THREAD_SUSPENDED" using R(4) th tn by auto
  next
    fix t assume "t \<in> insert (current_thread ?g) (set ss)"
    then show "\<exists>k. t \<in> set ((W(m := W m @ [?t])) k)" using blk L by simp
  qed
  then show ?thesis using s' cs by blast
qed

text \<open>
  \<open>semaphore_unlock\<close>. The units after the call: the caller's own is given up (\<open>Unlock\<close>) or a
  new one is made (\<open>Signal\<close>); the first thread waiting, if any, holds it when it is resumed.
\<close>

lemma woken_waiter_W:
  assumes "sem_ok s m ws"
  shows "woken_waiter m s = (case ws of [] \<Rightarrow> {#} | w # _ \<Rightarrow> {#w#})"
  using assms by (cases ws) (auto simp: woken_waiter_def sem_ok_def waiter_queue_def)

lemma run_unlock_free:
  assumes r: "run_ok s rs ss W" and e: "W m = []"
    and units: "int (size H) + sm_count (sems s m) + 1 = C"
  shows "\<exists>s'. semaphore_unlock m s = Inr s' \<and>
    run_ok (s'\<lparr>held := (held s')(m := H), capacity := (capacity s')(m := C)\<rparr>) rs ss W \<and>
    lists_of s' = lists_of s \<and> ghosts s' = ghosts s \<and> sm_count (sems s' m) = sm_count (sems s m) + 1"
proof -
  note R = run_okD [OF r]
  have S: "sem_ok s k (W k)" for k by (rule R(7))
  obtain s' where s': "semaphore_unlock m s = Inr s'" "unlocked s'" "lists_of s' = lists_of s" "ghosts s' = ghosts s"
    "threads s' = threads s" "waiters s' = waiters s"
    "sems s' = (sems s)(m := (sems s m)\<lparr>sm_count := sm_count (sems s m) + 1\<rparr>)"
    using unlock_free [OF R(1)] S [of m] e by (auto simp: sem_ok_def)
  let ?g = "s'\<lparr>held := (held s')(m := H), capacity := (capacity s')(m := C)\<rparr>"
  have g: "unlocked ?g" "lists_of ?g = lists_of s" "threads ?g = threads s" "must_yield ?g = must_yield s"
    using s' ghostsD [OF s'(4)] by (simp_all add: unlocked_def lists_of_def)
  have "sem_ok ?g k (W k)" for k
  proof (cases "k = m")
    case True
    then show ?thesis using e S [of m] units s' by (simp add: sem_ok_def)
  next
    case False
    show ?thesis
      by (rule sem_ok_cong [OF _ _ _ _ _ S]) (use False s' ghostsD [OF s'(4)] in simp_all)
  qed
  then have "run_ok ?g rs ss W" by (rule run_ok_same_threads [OF r g])
  then show ?thesis using s' by auto
qed

lemma run_unlock_wake:
  assumes r: "run_ok s rs ss W" and e: "W m = w # ws" and y: "current_state s = THREAD_RUNNING"
    and units: "int (size H) = C"
  shows "\<exists>s'. semaphore_unlock m s = Inr s' \<and>
    run_ok (s'\<lparr>held := (held s')(m := H), capacity := (capacity s')(m := C)\<rparr>) (rs @ [w]) (remove1 w ss) (W(m := ws)) \<and>
    ghosts s' = ghosts s \<and> current_thread s' = current_thread s \<and> sm_count (sems s' m) = sm_count (sems s m)"
proof -
  note R = run_okD [OF r]
  let ?t = "current_thread s"
  have S: "sem_ok s k (W k)" for k by (rule R(7))
  have notin: "?t \<notin> set (W k)" for k by (rule running_not_waiting [OF r y])
  have Sm: "sm_lock (sems s m) = 0" "waiter_queue (waiters s) (sm_head (sems s m), sm_tail (sems s m)) (w # ws)"
    "wt_thread (waiters s w) = w" "th_state (threads s w) = THREAD_SUSPENDED" "th_blocker (threads s w) = Some m"
    "sm_count (sems s m) = 0"
    using S [of m] e by (simp_all add: sem_ok_def)
  have wss: "w \<in> set ss" "w \<noteq> ?t" using R(8) [of m] notin [of m] e by auto
  have dw: "distinct (w # ws)" by (rule wq.rep_distinct [OF Sm(2)])
  have only_m: "w \<notin> set (W k)" if "k \<noteq> m" for k
    using that S [of k] Sm(5) by (auto simp: sem_ok_def)
  obtain s' where s': "semaphore_unlock m s = Inr s'" "unlocked s'" "queued s' (rs @ [w]) (remove1 w ss)"
    "woken (threads s) w (threads s')" "current_thread s' = ?t" "ghosts s' = ghosts s" "waiters s' = waiters s"
    "waiter_queue (waiters s') (sm_head (sems s' m), sm_tail (sems s' m)) ws"
    "sm_lock (sems s' m) = 0" "sm_count (sems s' m) = sm_count (sems s m)" "\<And>k. k \<noteq> m \<Longrightarrow> sems s' k = sems s k"
    using unlock_wake [OF R(1) Sm(1) R(2) Sm(2,3) wss(1) Sm(4)] by blast
  note G = ghostsD [OF s'(6)]
  let ?g = "s'\<lparr>held := (held s')(m := H), capacity := (capacity s')(m := C)\<rparr>"
  have st: "th_state (threads s' u) = (if u = w then THREAD_READY else th_state (threads s u))" for u
    using s'(4) by (simp add: woken_def)
  have bl: "th_blocker (threads s' u) = (if u = w then None else th_blocker (threads s u))" for u
    using s'(4) by (simp add: woken_def)
  have dss: "distinct ss" using R(2) tq.rep_distinct unfolding queued_def by blast
  have ss': "set (remove1 w ss) = set ss - {w}" using dss by simp
  have sem: "sem_ok ?g k ((W(m := ws)) k)" for k
  proof (cases "k = m")
    case True
    have "th_state (threads s v) = THREAD_SUSPENDED" "th_blocker (threads s v) = Some m" "wt_thread (waiters s v) = v" "v \<noteq> w"
      if "v \<in> set ws" for v using that S [of m] e dw by (auto simp: sem_ok_def)
    then show ?thesis using True s' Sm(6) units st bl by (simp add: sem_ok_def)
  next
    case False
    have "v \<noteq> w" if "v \<in> set (W k)" for v using that only_m [OF False] by auto
    then show ?thesis using False S [of k] s' st bl G by (simp add: sem_ok_def)
  qed
  have W: "set ((W(m := ws)) k) \<subseteq> insert ?t (set (remove1 w ss))" for k
    using R(8) [of k] R(8) [of m] only_m [of k] e dw ss' by (cases "k = m") auto
  have blk: "\<exists>k. u \<in> set ((W(m := ws)) k)" if "u \<in> insert ?t (set (remove1 w ss))" "th_state (threads s' u) = THREAD_SUSPENDED" for u
  proof -
    have u: "u \<noteq> w" "th_state (threads s u) = THREAD_SUSPENDED" "u \<in> insert ?t (set ss)"
      using that st [of u] ss' by (auto split: if_splits)
    then obtain k where "u \<in> set (W k)" using R(9) [of u] by auto
    then show ?thesis using u(1) e by (intro exI [of _ k]) auto
  qed
  have "run_ok ?g (rs @ [w]) (remove1 w ss) (W(m := ws))"
    unfolding run_ok_def
  proof (intro conjI allI ballI impI)
    show "unlocked ?g" "queued ?g (rs @ [w]) (remove1 w ss)" using s' by (simp_all add: unlocked_def queued_def)
    have "current_state s' = THREAD_RUNNING" using y st [of ?t] wss(2) s'(5) by (simp add: current_state_def)
    then show "current_state ?g = THREAD_RUNNING \<or> current_state ?g = THREAD_SUSPENDED \<and> must_yield ?g (current_thread ?g)"
      by (simp add: current_state_def)
    fix k show "sem_ok ?g k ((W(m := ws)) k)" by (rule sem)
    show "set ((W(m := ws)) k) \<subseteq> insert (current_thread ?g) (set (remove1 w ss))" using W s'(5) by simp
  next
    fix u assume "u \<in> set (rs @ [w])"
    then show "th_state (threads ?g u) = THREAD_READY" using st [of u] R(3) by auto
  next
    fix u assume "u \<in> set (remove1 w ss)"
    then show "th_state (threads ?g u) = THREAD_SUSPENDED" using st [of u] R(4) ss' by auto
  next
    fix u assume "u \<in> insert (current_thread ?g) (set (remove1 w ss))" "th_state (threads ?g u) = THREAD_SUSPENDED"
    then show "\<exists>k. u \<in> set ((W(m := ws)) k)" using blk s'(5) by simp
  qed
  then show ?thesis using s' by auto
qed

section \<open>Steps\<close>

definition run_inv :: "run \<Rightarrow> bool" where
  "run_inv s \<longleftrightarrow> (\<exists>rs ss W. run_ok s rs ss W)"

lemma ready_to_run:
  assumes "run_ok s rs ss W" "\<not> must_yield s (current_thread s)"
  shows "current_state s = THREAD_RUNNING"
  using run_okD(5,6) [OF assms(1)] assms(2) by blast

lemma yield_step:
  assumes r: "run_ok s rs ss W" and y: "thread_yield dev c s = Inr (switched, s')"
  shows "\<exists>rs' ss' W'. run_ok s' rs' ss' W' \<and> current_state s' = THREAD_RUNNING"
proof (cases rs)
  case Nil
  have run: "current_state s = THREAD_RUNNING"
  proof (rule ccontr)
    assume "current_state s \<noteq> THREAD_RUNNING"
    then have "thread_yield dev c s = Inl Null_dereference"
      using yield_stuck [of s ss dev c] run_okD(1,2,5) [OF r] Nil by blast
    with y show False by simp
  qed
  have "s' = s\<lparr>g_interruptsEnabled := interrupt_enabled s\<rparr>"
    using run_yield_alone(1) [OF r [unfolded Nil] run, of dev c] y by simp
  moreover have "run_ok (s\<lparr>g_interruptsEnabled := interrupt_enabled s\<rparr>) [] ss W"
    by (rule run_yield_alone(2) [OF r [unfolded Nil] run])
  ultimately show ?thesis using run by (auto simp: current_state_def)
next
  case (Cons t ts)
  then show ?thesis using run_yield [OF r [unfolded Cons], of dev c] y by auto
qed

lemma tick_step:
  assumes r: "run_ok s rs ss W" and y: "timer_interrupt dev s = Inr s'"
  shows "\<exists>rs' ss' W'. run_ok s' rs' ss' W'"
proof -
  have e: "run_ok (tick_entry dev s) rs ss W" using r run_ok_view [OF tick_entry_view(1)] by simp
  obtain sw s2 where y2: "thread_yield dev Called_by_timer (tick_entry dev s) = Inr (sw, s2)"
    "s' = (if sw then s2 else interrupt_exit (dispatch_leave dev 0 s2))"
    using y by (auto simp: timer_interrupt_yield and_then_def split: sum.splits prod.splits)
  obtain rs' ss' W' where "run_ok s2 rs' ss' W'" using yield_step [OF e y2(1)] by blast
  then have "run_ok s' rs' ss' W'" using y2(2) run_ok_view [OF leave_view] by simp
  then show ?thesis by blast
qed

lemma size_diff1: "t \<in># M \<Longrightarrow> size (M - {#t#}) + 1 = size M" for M :: "tid multiset"
  by (simp add: size_Diff_singleton) (metis Suc_pred nonempty_has_size empty_iff set_mset_empty)

lemma unlock_step:
  assumes r: "run_ok s rs ss W" and y: "current_state s = THREAD_RUNNING" and u: "semaphore_unlock m s = Inr s'"
    and n: "W m = [] \<Longrightarrow> int (size H) + sm_count (sems s m) + 1 = C" "\<And>w ws. W m = w # ws \<Longrightarrow> int (size (H + {#w#})) = C"
  shows "\<exists>rs' ss' W'. run_ok (s'\<lparr>held := (held s')(m := H + woken_waiter m s), capacity := (capacity s')(m := C)\<rparr>) rs' ss' W'"
proof (cases "W m")
  case Nil
  then have "woken_waiter m s = {#}" using woken_waiter_W [OF run_okD(7) [OF r, of m]] by simp
  then show ?thesis using run_unlock_free [OF r Nil n(1) [OF Nil]] u by auto
next
  case (Cons w ws)
  then have "woken_waiter m s = {#w#}" using woken_waiter_W [OF run_okD(7) [OF r, of m]] by simp
  then show ?thesis using run_unlock_wake [OF r Cons y n(2) [OF Cons]] u by auto
qed

lemma unlock_ghosts:
  assumes r: "run_ok s rs ss W" and y: "current_state s = THREAD_RUNNING" and u: "semaphore_unlock m s = Inr s'"
  shows "ghosts s' = ghosts s"
proof (cases "W m")
  case Nil
  show ?thesis
    using run_unlock_free [OF r Nil, of "replicate_mset n 0" "int n + sm_count (sems s m) + 1" for n] u by auto
next
  case (Cons w ws)
  show ?thesis using run_unlock_wake [OF r Cons y, of "{#}" 0] u by auto
qed

lemma step_run_inv:
  assumes "step dev s s'" "run_inv s"
  shows "run_inv s'"
proof -
  obtain rs ss W where r: "run_ok s rs ss W" using assms(2) by (auto simp: run_inv_def)
  from assms(1) show ?thesis
  proof cases
    case Tick
    then show ?thesis using tick_step [OF r] by (simp add: run_inv_def)
  next
    case (Yield sw s2)
    then show ?thesis using yield_step [OF r Yield(2)] run_ok_running unfolding run_inv_def by blast
  next
    case (Lock m s2)
    then have "0 < sm_count (sems s m)"
      using run_lock_blocked [OF r _ ready_to_run [OF r], of m] by force
    then show ?thesis using run_lock_taken [OF r, of m] Lock by (auto simp: run_inv_def)
  next
    case (Block m s2)
    then have "\<not> 0 < sm_count (sems s m)" using run_lock_taken [OF r, of m] by auto
    then show ?thesis using run_lock_blocked [OF r _ ready_to_run [OF r], of m] Block by (auto simp: run_inv_def)
  next
    case (Try m s2)
    then have "0 < sm_count (sems s m)" using run_try_fails [OF r, of m] by force
    then show ?thesis using run_lock_taken [OF r, of m] Try by (auto simp: run_inv_def)
  next
    case (Try_fails m)
    then have "\<not> 0 < sm_count (sems s m)" using run_lock_taken [OF r, of m] by auto
    then show ?thesis using run_try_fails [OF r, of m] Try_fails by (auto simp: run_inv_def)
  next
    case (Unlock m s2)
    let ?t = "current_thread s"
    note y = ready_to_run [OF r Unlock(2)]
    have S: "sem_ok s m (W m)" by (rule run_okD(7) [OF r])
    have n: "size (held s m - {#?t#}) + 1 = size (held s m)" by (rule size_diff1 [OF Unlock(3)])
    have c: "capacity s2 = capacity s" using ghostsD(3) [OF unlock_ghosts [OF r y Unlock(4)]] .
    have "\<exists>rs' ss' W'. run_ok (s2\<lparr>held := (held s2)(m := held s m - {#?t#} + woken_waiter m s),
        capacity := (capacity s2)(m := capacity s m)\<rparr>) rs' ss' W'"
      by (rule unlock_step [OF r y Unlock(4)]) (use S n in \<open>auto simp: sem_ok_def\<close>)
    moreover have "s2\<lparr>held := h, capacity := (capacity s2)(m := capacity s m)\<rparr> = s2\<lparr>held := h\<rparr>" for h
      using c by (simp add: fun_upd_idem)
    ultimately show ?thesis using Unlock(1) by (simp add: run_inv_def)
  next
    case (Signal m s2)
    note y = ready_to_run [OF r Signal(2)]
    have S: "sem_ok s m (W m)" by (rule run_okD(7) [OF r])
    have "\<exists>rs' ss' W'. run_ok (s2\<lparr>held := (held s2)(m := held s m + woken_waiter m s),
        capacity := (capacity s2)(m := capacity s m + 1)\<rparr>) rs' ss' W'"
      by (rule unlock_step [OF r y Signal(3)]) (use S in \<open>auto simp: sem_ok_def\<close>)
    then show ?thesis using Signal(1) by (simp add: run_inv_def)
  qed
qed

end
