(* ===== verification/Run_Props.thy ===== *)
theory Run_Props
  imports Run
begin

text \<open>
  The scheduler and the semaphores at work: what holds in every state reached from the one
  the kernel starts in, whatever the threads call and wherever the timer interrupts them.
\<close>

section \<open>The starting state\<close>

text \<open>
  One thread runs, the others (made by \<open>thread_create\<close>) are on the ready list, and the
  semaphores have just been initialised.
\<close>

definition initial :: "tid list \<Rightarrow> run \<Rightarrow> bool" where
  "initial rs s \<longleftrightarrow> unlocked s \<and> current_state s = THREAD_RUNNING \<and> queued s rs [] \<and>
     (\<forall>t \<in> set rs. th_state (threads s t) = THREAD_READY) \<and>
     (\<forall>m. sm_lock (sems s m) = SPINLOCK_UNLOCKED \<and> sm_head (sems s m) = None \<and> sm_tail (sems s m) = None \<and>
          0 \<le> sm_count (sems s m) \<and> capacity s m = sm_count (sems s m) \<and> held s m = {#})"

lemma initial_run_ok: "initial rs s \<Longrightarrow> run_ok s rs [] (\<lambda>_. [])"
  by (simp add: initial_def run_ok_def sem_ok_def waiter_queue_def SPINLOCK_UNLOCKED_def current_state_def)

lemma steps_run_inv: "(step dev)\<^sup>*\<^sup>* s0 s \<Longrightarrow> run_inv s0 \<Longrightarrow> run_inv s"
  by (induction rule: rtranclp_induct) (blast intro: step_run_inv)+

lemma one_step: "step dev s s' \<Longrightarrow> (step dev)\<^sup>*\<^sup>* s s'"
  by (rule r_into_rtranclp)

lemma reachable: "initial rs0 s0 \<Longrightarrow> (step dev)\<^sup>*\<^sup>* s0 s \<Longrightarrow> run_inv s"
  using steps_run_inv initial_run_ok unfolding run_inv_def by blast

lemma reachableE:
  assumes "initial rs0 s0" "(step dev)\<^sup>*\<^sup>* s0 s"
  obtains rs ss W where "run_ok s rs ss W"
  using reachable [OF assms] unfolding run_inv_def by blast

text \<open>
  A kernel with a second thread ready, semaphore 6 initialised to 0 and the others to 1.
\<close>

definition started :: run where
  "started = \<lparr>if_flag = True, port_log = [], g_spinLockCount = 0, g_interruptsEnabled = 0,
     IDT = (\<lambda>_. idt_set_null), interrupt_handlers = (\<lambda>_. None),
     ram = (\<lambda>_ _. 0), cr3 = 0x1000, invlpg_log = [], pmm_system_memory = 0, pmm_free_memory = 0,
     pmm_used_memory = 0, pmm_unavailable_memory = 0, pmm_stack_top = 0,
     s_free_memory = (\<lambda>_. \<lparr>fm_start = 0, fm_end = 0\<rparr>), s_free_memory_count = 0,
     s_free_memory_current = 0, next_alloc = 0,
     timer_tick = 0, threads = (\<lambda>t. \<lparr>th_state = (if t = 0 then THREAD_RUNNING else THREAD_READY), th_stack = 0, th_interrupt_frame = None,
       th_context = Some At_thread_entry, th_next = None, th_blocker = None\<rparr>),
     current_thread = 0, ready_list = Some 1, suspended_list = None, scheduler_lock = 0,
     sems = (\<lambda>m. \<lparr>sm_lock = 0, sm_count = (if m = 6 then 0 else 1), sm_head = None, sm_tail = None\<rparr>),
     waiters = (\<lambda>w. \<lparr>wt_thread = w, wt_next = None\<rparr>),
     must_yield = (\<lambda>_. False), held = (\<lambda>_. {#}), capacity = (\<lambda>m. if m = 6 then 0 else 1)\<rparr>"

lemma started_initial: "initial [1] started"
  by (simp add: initial_def started_def unlocked_def current_state_def SPINLOCK_UNLOCKED_def queued_def thread_list_def
      nexts_def)

text \<open>
  A state with three threads: 0 runs and holds semaphore 1, 1 is ready, 2 waits for semaphore 1.
\<close>

definition busy :: run where
  "busy = started\<lparr>
     threads := (threads started)
       (2 := (threads started 2)\<lparr>th_state := THREAD_SUSPENDED, th_blocker := Some 1,
               th_context := Some (In_thread_schedule 1 Called_by_thread)\<rparr>),
     suspended_list := Some 2,
     sems := (sems started)(1 := \<lparr>sm_lock = 0, sm_count = 0, sm_head = Some 2, sm_tail = Some 2\<rparr>),
     held := (held started)(1 := {#0#})\<rparr>"

lemma busy_ok: "run_ok busy [1] [2] (\<lambda>m. if m = 1 then [2] else [])"
  by (auto simp: busy_def started_def run_ok_def sem_ok_def queued_def thread_list_def waiter_queue_def nexts_def
      wt_nexts_def unlocked_def current_state_def)

lemma busy_fields: "current_thread busy = 0" "current_state busy = THREAD_RUNNING" "sm_count (sems busy 1) = 0"
  "must_yield busy = (\<lambda>_. False)" "if_flag busy"
  by (simp_all add: busy_def started_def current_state_def)

section \<open>Safety\<close>

text \<open>
  C1. In every reachable state the scheduler's data is consistent: the two lists are
  well-formed, disjoint and without the running thread, states agree with lists, and on each
  semaphore the queue is well formed, its threads are suspended on it, and the units held
  and counted are its capacity.
\<close>

theorem reachable_states_are_consistent:
  assumes "initial rs0 s0" "(step dev)\<^sup>*\<^sup>* s0 s"
  shows "\<exists>rs ss W. run_ok s rs ss W"
  using reachable [OF assms] by (simp add: run_inv_def)

lemma started_lock:
  "\<exists>s'. step dev started s' \<and> held s' 5 = {#0#} \<and> capacity s' 5 = 1"
proof -
  have c: "0 < sm_count (sems started 5)" "current_thread started = 0" "\<not> must_yield started (current_thread started)"
    "held started = (\<lambda>_. {#})" "capacity started 5 = 1"
    by (simp_all add: started_def)
  obtain s' where s': "semaphore_lock_begin 5 started = Inr (True, s')" "ghosts s' = ghosts started"
    using run_lock_taken [OF initial_run_ok [OF started_initial] c(1)] by blast
  have "step dev started (grant 5 (current_thread started) s')" by (rule step.Lock [OF c(3) s'(1)])
  moreover have "held (grant 5 (current_thread started) s') 5 = {#0#}" "capacity (grant 5 (current_thread started) s') 5 = 1"
    using ghostsD [OF s'(2)] c by (simp_all add: grant_def)
  ultimately show ?thesis by blast
qed

theorem reachable_states_are_consistent_witness:
  "\<exists>s :: run. held s 5 = {#0#} \<and> (\<exists>rs ss W. run_ok s rs ss W)"
proof -
  obtain s where s: "step (\<lambda>_ _. 0) started s" "held s 5 = {#0#}" using started_lock by blast
  show ?thesis using reachable_states_are_consistent [OF started_initial one_step [OF s(1)]] s(2) by blast
qed

text \<open>
  C2. Mutual exclusion: as long as a semaphore that started with one unit (a mutex) is not
  unlocked by threads that do not hold it, at most one thread holds it, and its count is 1
  exactly when none does.
\<close>

theorem mutex_excludes:
  assumes "initial rs0 s0" "(step dev)\<^sup>*\<^sup>* s0 s" "capacity s m = 1"
  shows "size (held s m) \<le> 1 \<and> (sm_count (sems s m) = 1 \<longleftrightarrow> held s m = {#})"
proof -
  obtain rs ss W where "run_ok s rs ss W" using reachableE [OF assms(1,2)] .
  then have "sem_ok s m (W m)" by (rule run_okD(7))
  then have "int (size (held s m)) + sm_count (sems s m) = 1" "0 \<le> sm_count (sems s m)"
    using assms(3) by (simp_all add: sem_ok_def)
  then have "size (held s m) \<le> 1 \<and> (sm_count (sems s m) = 1 \<longleftrightarrow> size (held s m) = 0)" by linarith
  then show ?thesis by (simp only: size_eq_0_iff_empty)
qed

theorem mutex_excludes_witness:
  "\<exists>s :: run. held s 5 = {#0#} \<and> sm_count (sems s 5) \<noteq> 1"
proof -
  obtain s where s: "step (\<lambda>_ _. 0) started s" "held s 5 = {#0#}" "capacity s 5 = 1" using started_lock by blast
  show ?thesis using mutex_excludes [OF started_initial one_step [OF s(1)] s(3)] s(2) by auto
qed

text \<open>
  C3. No wake-up is lost: in every reachable state a thread on the suspended list is blocked on
  a semaphore in whose queue it is, and that semaphore has no unit left: all are held, so
  a later \<open>semaphore_unlock\<close> hands one to the queue.
\<close>

theorem no_lost_wakeup:
  assumes "initial rs0 s0" "(step dev)\<^sup>*\<^sup>* s0 s" "thread_list (threads s) (suspended_list s) ss" "t \<in> set ss"
  shows "\<exists>m ws. th_blocker (threads s t) = Some m \<and>
    waiter_queue (waiters s) (sm_head (sems s m), sm_tail (sems s m)) ws \<and> t \<in> set ws \<and>
    sm_count (sems s m) = 0 \<and> int (size (held s m)) = capacity s m"
proof -
  obtain rs ss' W where r: "run_ok s rs ss' W" using reachableE [OF assms(1,2)] .
  have "ss' = ss" using run_okD(2) [OF r] assms(3) tq.rep_unique unfolding queued_def by blast
  then have t: "t \<in> set ss'" using assms(4) by simp
  then obtain m where m: "t \<in> set (W m)" using run_okD(9) [OF r, of t] run_okD(4) [OF r] by auto
  then show ?thesis using run_okD(7) [OF r, of m] by (intro exI [of _ m] exI [of _ "W m"]) (auto simp: sem_ok_def)
qed


text \<open>Thread 0 waits for semaphore 6 and thread 1 runs.\<close>

lemma started_waits:
  "\<exists>s. (step (\<lambda>_ _. 0))\<^sup>*\<^sup>* started s \<and> current_thread s = 1 \<and> thread_list (threads s) (suspended_list s) [0]"
proof -
  let ?dev = "\<lambda>_ _. 0 :: u32"
  have c: "\<not> 0 < sm_count (sems started 6)" "current_thread started = 0" "current_state started = THREAD_RUNNING"
    "\<not> must_yield started (current_thread started)" by (simp_all add: started_def current_state_def)
  obtain s1 where s1: "semaphore_lock_begin 6 started = Inr (False, s1)"
    "run_ok (s1\<lparr>must_yield := (must_yield s1)(current_thread started := True)\<rparr>) [1] [] ((\<lambda>_. [])(6 := [0]))"
    "lists_of s1 = lists_of started" "current_state s1 = THREAD_SUSPENDED"
    using run_lock_blocked [OF initial_run_ok [OF started_initial] c(1,3)] c(2) by auto
  let ?s = "s1\<lparr>must_yield := (must_yield s1)(current_thread started := True)\<rparr>"
  have a: "step ?dev started ?s" by (rule step.Block [OF c(4) s1(1)])
  have b: "current_state ?s \<noteq> THREAD_RUNNING" "current_thread ?s = 0"
    using s1(4) lists_ghosts(1) [OF s1(3)] c(2) by (simp_all add: current_state_def)
  obtain s2 where s2: "thread_yield ?dev Called_by_thread ?s = Inr (True, s2)"
    "yielded Called_by_thread ?s 1 [] [] s2" "run_ok s2 [] ([] @ [0]) ((\<lambda>_. [])(6 := [0]))"
    using run_yield [OF s1(2), of ?dev Called_by_thread] b by auto
  let ?t = "s2\<lparr>must_yield := (must_yield s2)(current_thread ?s := False)\<rparr>"
  have "step ?dev ?s ?t" by (rule step.Yield [OF s2(1)])
  moreover have "current_thread ?t = 1" using s2(2) by (simp add: yielded_def)
  moreover have "thread_list (threads ?t) (suspended_list ?t) [0]"
    using run_okD(2) [OF s2(3)] by (simp add: queued_def)
  ultimately show ?thesis using a by (meson converse_rtranclp_into_rtranclp one_step)
qed

theorem no_lost_wakeup_witness:
  "\<exists>s m ws. (step (\<lambda>_ _. 0))\<^sup>*\<^sup>* started s \<and> th_blocker (threads s 0) = Some m \<and>
    waiter_queue (waiters s) (sm_head (sems s m), sm_tail (sems s m)) ws \<and> 0 \<in> set ws \<and> sm_count (sems s m) = 0"
proof -
  obtain s where s: "(step (\<lambda>_ _. 0))\<^sup>*\<^sup>* started s" "thread_list (threads s) (suspended_list s) [0]"
    using started_waits by blast
  show ?thesis using no_lost_wakeup [OF started_initial s, of 0] s(1) by auto
qed

section \<open>No operation fails\<close>

lemma lock_returns:
  assumes r: "run_ok s rs ss W" and y: "current_state s = THREAD_RUNNING"
  shows "if sm_count (sems s m) \<le> 0 \<and> rs = [] then semaphore_lock dev m s = Inl Null_dereference
    else \<exists>r. semaphore_lock dev m s = Inr r"
proof (cases "0 < sm_count (sems s m)")
  case True
  then show ?thesis using run_lock_taken [OF r True] by (auto simp: semaphore_lock_def)
next
  case False
  obtain s1 where s1: "semaphore_lock_begin m s = Inr (False, s1)"
    "run_ok (s1\<lparr>must_yield := (must_yield s1)(current_thread s := True)\<rparr>) rs ss (W(m := W m @ [current_thread s]))"
    "current_state s1 = THREAD_SUSPENDED"
    using run_lock_blocked [OF r False y] by blast
  show ?thesis
  proof (cases rs)
    case Nil
    have "queued s1 [] ss" "unlocked s1" using run_okD(1,2) [OF s1(2)] Nil by (simp_all add: queued_def unlocked_def)
    then show ?thesis using yield_stuck [OF _ _ s1(3)] s1(1) False Nil by (simp add: semaphore_lock_def)
  next
    case (Cons u us)
    then show ?thesis using run_yield_from [OF s1(2) [unfolded Cons] refl, of dev Called_by_thread] s1(1) by (auto simp: semaphore_lock_def)
  qed
qed

text \<open>
  C11. What returns in a consistent state. Trying a semaphore returns, whatever the state of the current thread. Unlocking and
  \<open>semaphore_lock\<close> are called by a running thread (one that has suspended itself goes on to its call of \<open>thread_yield\<close> only):
  unlocking returns, and so does \<open>semaphore_lock\<close>, unless it has to wait while no thread is ready. \<open>thread_wakeup\<close> returns for
  every suspended thread, with the thread ready and last in the ready list, and is fatal for any other thread. \<open>thread_yield\<close> and the timer interrupt return
  unless the current thread has suspended itself and no thread is ready. In that case, as when \<open>semaphore_lock\<close> does not return,
  \<open>thread_schedule\<close> pops an empty list and dereferences NULL.
\<close>

theorem operations_return:
  assumes "run_ok s rs ss W"
  shows "(\<exists>r. semaphore_try_lock m s = Inr r) \<and>
    (current_state s = THREAD_RUNNING \<longrightarrow>
       (\<exists>r. semaphore_lock_begin m s = Inr r) \<and> (\<exists>r. semaphore_unlock m s = Inr r) \<and>
       (if sm_count (sems s m) \<le> 0 \<and> rs = [] then semaphore_lock dev m s = Inl Null_dereference
        else \<exists>r. semaphore_lock dev m s = Inr r)) \<and>
    (if th_state (threads s t) = THREAD_SUSPENDED
     then \<exists>s'. thread_wakeup t s = Inr s' \<and> th_state (threads s' t) = THREAD_READY \<and>
       thread_list (threads s') (ready_list s') (rs @ [t])
     else thread_wakeup t s = Inl (Fatal ''thread_wakeup() - Thread isn't suspended!'')) \<and>
    (if current_state s = THREAD_SUSPENDED \<and> rs = []
     then thread_yield dev c s = Inl Null_dereference \<and> timer_interrupt dev s = Inl Null_dereference
     else (\<exists>r. thread_yield dev c s = Inr r) \<and> (\<exists>r. timer_interrupt dev s = Inr r))"
proof (intro conjI impI)
  note R = run_okD [OF assms]
  show "\<exists>r. semaphore_try_lock m s = Inr r"
    using run_lock_taken [OF assms, of m] run_try_fails [OF assms, of m] by blast
  assume y: "current_state s = THREAD_RUNNING"
  show "\<exists>r. semaphore_lock_begin m s = Inr r"
    using run_lock_taken [OF assms, of m] run_lock_blocked [OF assms _ y, of m] by blast
  show "\<exists>r. semaphore_unlock m s = Inr r"
  proof (cases "W m")
    case Nil
    then show ?thesis using run_unlock_free [OF assms, of m "{#}" "sm_count (sems s m) + 1"] by auto
  next
    case (Cons w ws)
    then show ?thesis using run_unlock_wake [OF assms Cons y, of "{#}" 0] by auto
  qed
  show "if sm_count (sems s m) \<le> 0 \<and> rs = [] then semaphore_lock dev m s = Inl Null_dereference
        else \<exists>r. semaphore_lock dev m s = Inr r"
    by (rule lock_returns [OF assms y])
next
  note R = run_okD [OF assms]
  have "t \<notin> set rs" if "th_state (threads s t) = THREAD_SUSPENDED" using R(3) [of t] that by auto
  then show "if th_state (threads s t) = THREAD_SUSPENDED
     then \<exists>s'. thread_wakeup t s = Inr s' \<and> th_state (threads s' t) = THREAD_READY \<and>
       thread_list (threads s') (ready_list s') (rs @ [t])
     else thread_wakeup t s = Inl (Fatal ''thread_wakeup() - Thread isn't suspended!'')"
    using wakeup_outcome [OF R(2,1), of t] wakeup_fatal [OF R(1), of t] by (auto simp: woken_def)
next
  note R = run_okD [OF assms]
  let ?e = "tick_entry dev s"
  have e: "run_ok ?e rs ss W" using assms run_ok_view [OF tick_entry_view(1)] by simp
  show "if current_state s = THREAD_SUSPENDED \<and> rs = []
     then thread_yield dev c s = Inl Null_dereference \<and> timer_interrupt dev s = Inl Null_dereference
     else (\<exists>r. thread_yield dev c s = Inr r) \<and> (\<exists>r. timer_interrupt dev s = Inr r)"
  proof (cases "current_state s = THREAD_SUSPENDED \<and> rs = []")
    case True
    then show ?thesis
      using yield_stuck [of s ss dev c] yield_stuck [of ?e ss dev Called_by_timer] R(1,2) run_okD(1,2) [OF e]
      by (simp add: timer_interrupt_yield and_then_def)
  next
    case False
    have ret: "\<exists>r. thread_yield dev k u = Inr r" if u: "run_ok u rs ss W" "current_state u = current_state s" for u k
    proof (cases rs)
      case Nil
      then show ?thesis using run_yield_alone(1) [OF u(1) [unfolded Nil]] False u(2) R(5) by auto
    next
      case (Cons t ts)
      then show ?thesis using run_yield [OF u(1) [unfolded Cons], of dev k] by blast
    qed
    show ?thesis
      using False ret [OF assms refl, of c] ret [OF e tick_entry_view(2), of Called_by_timer]
      by (auto simp: timer_interrupt_yield)
  qed
qed

theorem operations_return_witness:
  "(\<exists>r. timer_interrupt (\<lambda>_ _. 0) busy = Inr r) \<and> (\<exists>r. semaphore_unlock 1 busy = Inr r)"
  using operations_return [OF busy_ok, where m = 1 and dev = "\<lambda>_ _. 0" and c = Called_by_thread] busy_fields by simp

section \<open>Order\<close>

lemma unlock_running:
  assumes "run_ok s rs ss W" "current_state s = THREAD_RUNNING" "semaphore_unlock m s = Inr s'"
  shows "current_state s' = THREAD_RUNNING"
proof (cases "W m")
  case Nil
  then show ?thesis
    using unlock_free [OF run_okD(1) [OF assms(1)], of m] run_okD(7) [OF assms(1), of m] assms(2,3)
    by (auto simp: sem_ok_def current_state_def lists_of_def)
next
  case (Cons w ws)
  note R = run_okD [OF assms(1)]
  have S: "sem_ok s m (w # ws)" using R(7) [of m] Cons by simp
  have w: "w \<noteq> current_thread s" using running_not_waiting [OF assms(1,2), of m] Cons by auto
  then have "w \<in> set ss" using R(8) [of m] Cons by auto
  then show ?thesis
    using unlock_wake [OF R(1) _ R(2), of m w ws] S w assms(2,3) by (auto simp: sem_ok_def woken_def current_state_def)
qed

text \<open>
  Semaphores are fair: \<open>semaphore_unlock\<close> with threads waiting wakes the one that has waited
  longest: it leaves the queue and the suspended list and becomes the last ready thread, holding the
  unit, while the count stays 0 so that nobody can take it first.
\<close>

theorem unlock_hands_over:
  assumes "run_ok s rs ss W" "W m = w # ws" "current_state s = THREAD_RUNNING"
  shows "\<exists>s'. semaphore_unlock m s = Inr s' \<and> queued s' (rs @ [w]) (remove1 w ss) \<and>
    waiter_queue (waiters s') (sm_head (sems s' m), sm_tail (sems s' m)) ws \<and>
    th_state (threads s' w) = THREAD_READY \<and> sm_count (sems s' m) = 0 \<and>
    current_thread s' = current_thread s \<and> current_state s' = THREAD_RUNNING"
proof -
  obtain s' where s': "semaphore_unlock m s = Inr s'"
    "run_ok (s'\<lparr>held := (held s')(m := {#}), capacity := (capacity s')(m := 0)\<rparr>) (rs @ [w]) (remove1 w ss) (W(m := ws))"
    "ghosts s' = ghosts s" "current_thread s' = current_thread s" "sm_count (sems s' m) = sm_count (sems s m)"
    using run_unlock_wake [OF assms(1,2,3), of "{#}" 0] by auto
  let ?g = "s'\<lparr>held := (held s')(m := {#}), capacity := (capacity s')(m := 0)\<rparr>"
  note R = run_okD [OF s'(2)]
  have "queued s' (rs @ [w]) (remove1 w ss)" using R(2) by (simp add: queued_def)
  moreover have "waiter_queue (waiters s') (sm_head (sems s' m), sm_tail (sems s' m)) ws"
    using R(7) [of m] by (simp add: sem_ok_def)
  moreover have "th_state (threads s' w) = THREAD_READY" using R(3) [of w] by simp
  moreover have "sm_count (sems s m) = 0" using run_okD(7) [OF assms(1), of m] assms(2) by (simp add: sem_ok_def)
  moreover have "current_state s' = THREAD_RUNNING" 
    using unlock_running [OF assms(1,3) s'(1)] .
  ultimately show ?thesis using s' by auto
qed

theorem unlock_hands_over_witness:
  "\<exists>s'. semaphore_unlock 1 busy = Inr s' \<and> th_state (threads s' 2) = THREAD_READY \<and> sm_count (sems s' 1) = 0"
  using unlock_hands_over [OF busy_ok, of 1 2 "[]"] busy_fields by auto

text \<open>\<open>n\<close> calls of \<open>thread_yield\<close>, each by the thread then running.\<close>

fun yields :: "device \<Rightarrow> nat \<Rightarrow> 'a sched_scheme \<Rightarrow> 'a sched_scheme outcome" where
  "yields dev 0 s = Inr s"
| "yields dev (Suc n) s = and_then (thread_yield dev Called_by_thread s) (\<lambda>(switched, s). yields dev n s)"

lemma yields_rotate:
  "run_ok s rs ss W \<Longrightarrow> current_state s = THREAD_RUNNING \<Longrightarrow>
   \<exists>s' rs'. yields dev n s = Inr s' \<and> current_thread s' # rs' = rotate n (current_thread s # rs) \<and> run_ok s' rs' ss W"
proof (induction n arbitrary: s rs)
  case (Suc n)
  show ?case
  proof (cases rs)
    case Nil
    note a = run_yield_alone [OF Suc.prems(1) [unfolded Nil] Suc.prems(2)]
    let ?s = "s\<lparr>g_interruptsEnabled := interrupt_enabled s\<rparr>"
    have "current_state ?s = THREAD_RUNNING" using Suc.prems(2) by (simp add: current_state_def)
    from Suc.IH [OF a(2) this] show ?thesis using a(1) Nil by simp
  next
    case (Cons t ts)
    obtain s' where s': "thread_yield dev Called_by_thread s = Inr (True, s')" "yielded Called_by_thread s t ts ss s'"
      "current_state s' = THREAD_RUNNING" "run_ok s' (ts @ [current_thread s]) ss W"
      using run_yield [OF Suc.prems(1) [unfolded Cons], of dev Called_by_thread] Suc.prems(2) by auto
    have "current_thread s' = t" using s'(2) by (simp add: yielded_def)
    moreover from Suc.IH [OF s'(4,3)] obtain s2 rs2 where "yields dev n s' = Inr s2"
      "current_thread s2 # rs2 = rotate n (current_thread s' # ts @ [current_thread s])" "run_ok s2 rs2 ss W" by blast
    moreover have "rotate (Suc n) (current_thread s # t # ts) = rotate n (t # ts @ [current_thread s])"
      by (simp add: rotate1_rotate_swap)
    ultimately show ?thesis using s'(1) Cons by auto
  qed
qed simp

text \<open>
  C6. Round robin: after \<open>n\<close> yields of running threads the running thread and the ready list
  are the original ones rotated by \<open>n\<close>. So the thread at position \<open>k\<close> of the ready list runs
  after \<open>k + 1\<close> yields, none is starved, and nothing else about the suspended threads and the
  semaphores changes.
\<close>

theorem yield_is_round_robin:
  assumes "run_ok s rs ss W" "current_state s = THREAD_RUNNING"
  shows "\<exists>s' rs'. yields dev n s = Inr s' \<and> run_ok s' rs' ss W \<and>
    current_thread s' # rs' = rotate n (current_thread s # rs) \<and>
    (n \<le> length rs \<longrightarrow> current_thread s' = (current_thread s # rs) ! n)"
proof -
  obtain s' rs' where r: "yields dev n s = Inr s'" "current_thread s' # rs' = rotate n (current_thread s # rs)"
    "run_ok s' rs' ss W" using yields_rotate [OF assms] by blast
  have "current_thread s' = (current_thread s # rs) ! n" if "n \<le> length rs"
  proof -
    have "rotate n (current_thread s # rs) ! 0 = (current_thread s # rs) ! n"
      using that by (subst nth_rotate) simp_all
    then show ?thesis using r(2) by (metis nth_Cons_0)
  qed
  then show ?thesis using r by blast
qed

theorem yield_is_round_robin_witness:
  "\<exists>s1 s2. yields (\<lambda>_ _. 0) 1 busy = Inr s1 \<and> current_thread s1 = 1 \<and>
           yields (\<lambda>_ _. 0) 2 busy = Inr s2 \<and> current_thread s2 = 0"
  using yield_is_round_robin [OF busy_ok busy_fields(2), of "\<lambda>_ _. 0" 1]
    yield_is_round_robin [OF busy_ok busy_fields(2), of "\<lambda>_ _. 0" 2] busy_fields(1)
  by (auto simp: numeral_2_eq_2)

text \<open>
  Preemption: a timer interrupt counts a tick and switches from the running thread to the
  first ready one. The thread interrupted becomes the last ready one, with a saved context
  that returns into the interrupt.
\<close>

theorem timer_preempts:
  assumes "run_ok s (t # ts) ss W" "current_state s = THREAD_RUNNING"
  shows "\<exists>s'. timer_interrupt dev s = Inr s' \<and> timer_tick s' = timer_tick s + 1 \<and> current_thread s' = t \<and>
    run_ok s' (ts @ [current_thread s]) ss W \<and>
    th_context (threads s' (current_thread s)) = Some (In_thread_schedule 0 Called_by_timer)"
proof -
  let ?e = "tick_entry dev s"
  have e: "run_ok ?e (t # ts) ss W" using assms(1) run_ok_view [OF tick_entry_view(1)] by simp
  have v: "current_thread ?e = current_thread s" using tick_entry_view(1) [of dev s] by (simp add: run_view_def)
  obtain s' where s': "thread_yield dev Called_by_timer ?e = Inr (True, s')" "yielded Called_by_timer ?e t ts ss s'"
    "run_ok s' (ts @ [current_thread s]) ss W"
    using run_yield [OF e, of dev Called_by_timer] assms(2) v by auto
  note y = s'(2) [unfolded yielded_def]
  have "timer_tick s' = timer_tick ?e" using y same_rest_fields(1) by blast
  moreover have "th_context (threads s' (current_thread s)) = Some (In_thread_schedule (interrupt_enabled ?e) Called_by_timer)"
    using y v by (simp add: switched_blocks_def)
  moreover have "interrupt_enabled ?e = 0" using tick_entry_view(4) [of dev s] by (simp add: interrupt_enabled_def)
  moreover have "current_thread s' = t" using y by blast
  ultimately show ?thesis using s'(1,3) by (simp add: timer_interrupt_yield)
qed

theorem timer_preempts_witness:
  "\<exists>s'. timer_interrupt (\<lambda>_ _. 0) busy = Inr s' \<and> current_thread s' = 1 \<and> timer_tick s' = 1"
  using timer_preempts [OF busy_ok busy_fields(2), of "\<lambda>_ _. 0"] by (auto simp: busy_def started_def)

section \<open>Semaphores and mutexes\<close>

text \<open>
  \<open>semaphore_lock\<close> by a running thread takes a unit and returns when there is one. Otherwise
  the thread goes to the end of the semaphore's queue and of the suspended list, and the
  first ready thread runs.
\<close>

theorem semaphore_lock_takes_or_waits:
  assumes "run_ok s (t # ts) ss W" "current_state s = THREAD_RUNNING"
  shows "\<exists>s'. semaphore_lock dev m s = Inr s' \<and>
    (if 0 < sm_count (sems s m)
     then current_thread s' = current_thread s \<and> run_ok (grant m (current_thread s) s') (t # ts) ss W \<and>
          sm_count (sems s' m) = sm_count (sems s m) - 1
     else current_thread s' = t \<and> run_ok s' ts (ss @ [current_thread s]) (W(m := W m @ [current_thread s])))"
proof (cases "0 < sm_count (sems s m)")
  case True
  obtain s' where s': "semaphore_lock_begin m s = Inr (True, s')" "run_ok (grant m (current_thread s) s') (t # ts) ss W"
    "current_thread s' = current_thread s" "sm_count (sems s' m) = sm_count (sems s m) - 1"
    using run_lock_taken [OF assms(1) True] lock_taken [OF run_okD(1) [OF assms(1)] _ True]
      run_okD(7) [OF assms(1), of m] by (auto simp: sem_ok_def lists_of_def)
  then show ?thesis using True by (intro exI [of _ s']) (simp add: semaphore_lock_def)
next
  case False
  let ?cur = "current_thread s"
  obtain s1 where s1: "semaphore_lock_begin m s = Inr (False, s1)"
    "run_ok (s1\<lparr>must_yield := (must_yield s1)(?cur := True)\<rparr>) (t # ts) ss (W(m := W m @ [?cur]))"
    "current_state s1 = THREAD_SUSPENDED" "current_thread s1 = ?cur"
    using run_lock_blocked [OF assms(1) False assms(2)] by (auto simp: lists_of_def)
  obtain s2 where s2: "thread_yield dev Called_by_thread s1 = Inr (True, s2)" "yielded Called_by_thread s1 t ts ss s2"
    "run_ok s2 ts (ss @ [?cur]) (W(m := W m @ [?cur]))"
    using run_yield_from [OF s1(2) refl, of dev Called_by_thread] s1(3,4) by auto
  moreover have "current_thread s2 = t" using s2(2) by (simp add: yielded_def)
  ultimately show ?thesis using False s1(1) s2(1) by (intro exI [of _ s2]) (simp add: semaphore_lock_def)
qed

theorem semaphore_lock_takes_or_waits_witness:
  "\<exists>s1 s2. semaphore_lock (\<lambda>_ _. 0) 1 busy = Inr s1 \<and> current_thread s1 = 1 \<and>
           semaphore_lock (\<lambda>_ _. 0) 5 busy = Inr s2 \<and> current_thread s2 = 0"
  using semaphore_lock_takes_or_waits [OF busy_ok busy_fields(2), of "\<lambda>_ _. 0" 1]
    semaphore_lock_takes_or_waits [OF busy_ok busy_fields(2), of "\<lambda>_ _. 0" 5]
  by (auto simp: busy_def started_def)

text \<open>
  A mutex from \<open>mutex_init\<close> can be locked once: a first \<open>mutex_try_lock\<close> succeeds, a second
  one fails and changes nothing, and \<open>mutex_unlock\<close> restores the mutex.
\<close>

theorem mutex_try_lock_roundtrip:
  fixes s :: run
  assumes "unlocked s"
  shows "\<exists>s1 s2 s3 s4. mutex_init m s = Inr s1 \<and> mutex_try_lock m s1 = Inr (True, s2) \<and>
    mutex_try_lock m s2 = Inr (False, s3) \<and> mutex_unlock m s3 = Inr s4 \<and>
    sems s3 = sems s2 \<and> sems s4 = sems s1 \<and> threads s4 = threads s1 \<and> if_flag s4 = if_flag s1"
proof -
  let ?s1 = "s\<lparr>sems := (sems s)(m := \<lparr>sm_lock = SPINLOCK_UNLOCKED, sm_count = 1, sm_head = None, sm_tail = None\<rparr>)\<rparr>"
  have i: "mutex_init m s = Inr ?s1" by (simp add: mutex_init_def semaphore_init_def)
  obtain s2 where s2: "semaphore_try_lock m ?s1 = Inr (True, s2)" "unlocked s2" "threads s2 = threads s"
    "sems s2 = (sems ?s1)(m := (sems ?s1 m)\<lparr>sm_count := 0\<rparr>)" "if_flag s2 = if_flag s"
    using lock_taken [of ?s1 m] assms by (auto simp: unlocked_def SPINLOCK_UNLOCKED_def)
  obtain s3 where s3: "semaphore_try_lock m s2 = Inr (False, s3)" "unlocked s3" "threads s3 = threads s2" "sems s3 = sems s2"
    "if_flag s3 = if_flag s2"
    using try_fails [OF s2(2), of m] s2(4) by (auto simp: SPINLOCK_UNLOCKED_def)
  obtain s4 where s4: "semaphore_unlock m s3 = Inr s4" "threads s4 = threads s3" "if_flag s4 = if_flag s3"
    "sems s4 = (sems s3)(m := (sems s3 m)\<lparr>sm_count := sm_count (sems s3 m) + 1\<rparr>)"
    using unlock_free [OF s3(2), of m] s3(4) s2(4) by (auto simp: SPINLOCK_UNLOCKED_def waiter_queue_def)
  show ?thesis
    using i s2 s3 s4 by (simp add: mutex_try_lock_def mutex_unlock_def)
qed

theorem mutex_try_lock_roundtrip_witness:
  "\<exists>s1 s2. mutex_init 3 started = Inr s1 \<and> mutex_try_lock 3 s1 = Inr (True, s2)"
  using mutex_try_lock_roundtrip [of started 3] by (auto simp: started_def unlocked_def)
end
