(* ===== verification/Pci.thy ===== *)
theory Pci
  imports Machine
begin

text \<open>
  \<^verbatim>\<open>kernel/x86/pci.c\<close>: reads of the PCI configuration space through its address and data ports. The lemmas
  give a host bridge as the device behind the two ports; the other ports are left open.
\<close>

definition PCI_CONFIG_ADDRESSS :: u16 where "PCI_CONFIG_ADDRESSS = 0xCF8"
definition PCI_CONFIG_DATA :: u16 where "PCI_CONFIG_DATA = 0xCFC"
definition PCI_CONFIG_ENABLE :: u32 where "PCI_CONFIG_ENABLE = 0x80000000"

definition pci_address :: "int \<Rightarrow> int \<Rightarrow> int \<Rightarrow> int \<Rightarrow> u32" where
  "pci_address bus device function offset =
     PCI_CONFIG_ENABLE OR word_of_int (push_bit 16 bus) OR word_of_int (push_bit 11 device) OR
     word_of_int (push_bit 8 function) OR word_of_int offset"

definition pci_assertions :: "int \<Rightarrow> int \<Rightarrow> int \<Rightarrow> int \<Rightarrow> 'a outcome \<Rightarrow> 'a outcome" where
  "pci_assertions bus device function offset m =
     check (bus \<ge> 0 \<and> bus < 256) (Assertion_failed ''bus >= 0 && bus < 256'')
     (check (device \<ge> 0 \<and> device < 32) (Assertion_failed ''device >= 0 && device < 32'')
     (check (function \<ge> 0 \<and> function < 8) (Assertion_failed ''function >= 0 && function < 8'')
     (check (offset \<ge> 0 \<and> offset < 256) (Assertion_failed ''offset >= 0 && offset < 256'') m)))"

definition pci_read_config_8 :: "device \<Rightarrow> int \<Rightarrow> int \<Rightarrow> int \<Rightarrow> int \<Rightarrow> 'a machine_scheme \<Rightarrow> (u8 \<times> 'a machine_scheme) outcome" where
  "pci_read_config_8 dev bus device function offset s =
     pci_assertions bus device function offset
       (let address = pci_address bus device function offset;
            s = io_out_32 PCI_CONFIG_ADDRESSS address s;
            (result, s) = io_in_8 dev (PCI_CONFIG_DATA + word_of_int (offset AND 3)) s
        in Inr (result, s))"

text \<open>The two wider reads also keep their result in a \<open>uint8_t\<close>.\<close>

definition pci_read_config_16 :: "device \<Rightarrow> int \<Rightarrow> int \<Rightarrow> int \<Rightarrow> int \<Rightarrow> 'a machine_scheme \<Rightarrow> (u16 \<times> 'a machine_scheme) outcome" where
  "pci_read_config_16 dev bus device function offset s =
     pci_assertions bus device function offset
       (check (offset AND 1 = 0) (Assertion_failed ''!(offset & 1)'')
         (let address = pci_address bus device function offset;
              s = io_out_32 PCI_CONFIG_ADDRESSS address s;
              (v, s) = io_in_16 dev (PCI_CONFIG_DATA + word_of_int (offset AND 2)) s;
              result = ucast v :: u8
          in Inr (ucast result, s)))"

definition pci_read_config_32 :: "device \<Rightarrow> int \<Rightarrow> int \<Rightarrow> int \<Rightarrow> int \<Rightarrow> 'a machine_scheme \<Rightarrow> (u32 \<times> 'a machine_scheme) outcome" where
  "pci_read_config_32 dev bus device function offset s =
     pci_assertions bus device function offset
       (check (offset AND 3 = 0) (Assertion_failed ''!(offset & 3)'')
         (let address = pci_address bus device function offset;
              s = io_out_32 PCI_CONFIG_ADDRESSS address s;
              (v, s) = io_in_32 dev PCI_CONFIG_DATA s;
              result = ucast v :: u8
          in Inr (ucast result, s)))"

section \<open>A host bridge\<close>

text \<open>
  The specification of configuration mechanism 1: the address port selects a function and a dword of its
  configuration space; the four data ports are the bytes of that dword.
\<close>

fun selected :: "port_event list \<Rightarrow> u32" where
  "selected [] = 0"
| "selected (Out32 p v # es) = (if p = PCI_CONFIG_ADDRESSS then v else selected es)"
| "selected (_ # es) = selected es"

type_synonym config_space = "nat \<Rightarrow> nat \<Rightarrow> nat \<Rightarrow> nat \<Rightarrow> u8"

definition config_byte :: "config_space \<Rightarrow> u32 \<Rightarrow> nat \<Rightarrow> u8" where
  "config_byte cfg a i = cfg (unat a div 65536 mod 256) (unat a div 2048 mod 32) (unat a div 256 mod 8) (unat a mod 256 div 4 * 4 + i)"

definition host_bridge :: "config_space \<Rightarrow> device \<Rightarrow> device" where
  "host_bridge cfg dev es port =
     (let a = selected es; i = unat port - unat PCI_CONFIG_DATA
      in if PCI_CONFIG_DATA \<le> port \<and> port < PCI_CONFIG_DATA + 4 \<and> bit a 31
         then word_of_nat (\<Sum>k < 4 - i. unat (config_byte cfg a (i + k)) * 256 ^ k)
         else dev es port)"

lemma field_bits:
  assumes "bit (word_of_int (push_bit j (int k)) :: u32) n" "k < 2 ^ m"
  shows "j \<le> n \<and> n < j + m"
proof -
  have b: "j \<le> n" "bit k (n - j)" using assms(1) by (auto simp: bit_simps)
  have "n - j < m"
  proof (rule ccontr)
    assume "\<not> n - j < m"
    then have "(2 :: nat) ^ m \<le> 2 ^ (n - j)" by (intro power_increasing) simp_all
    with assms(2) have "k < 2 ^ (n - j)" by (rule order.strict_trans2)
    then show False using b(2) by (simp add: bit_nat_def)
  qed
  then show ?thesis using b(1) by simp
qed

lemma pci_address_value:
  assumes "b < 256" "d < 32" "f < 8" "k < 256"
  shows "unat (pci_address (int b) (int d) (int f) (int k)) = 2 ^ 31 + (b * 65536 + (d * 2048 + (f * 256 + k)))"
proof -
  have e: "bit PCI_CONFIG_ENABLE n \<longleftrightarrow> n = 31" for n
  proof -
    have "PCI_CONFIG_ENABLE = push_bit 31 1" by (simp add: PCI_CONFIG_ENABLE_def push_bit_eq_mult)
    show ?thesis unfolding \<open>PCI_CONFIG_ENABLE = push_bit 31 1\<close> bit_push_bit_iff by (auto simp: bit_1_iff)
  qed
  define B D F K where "B = (word_of_int (push_bit 16 (int b)) :: u32)" and "D = (word_of_int (push_bit 11 (int d)) :: u32)"
    and "F = (word_of_int (push_bit 8 (int f)) :: u32)" and "K = (word_of_int (int k) :: u32)"
  have bits: "bit B n \<Longrightarrow> 16 \<le> n \<and> n < 24" "bit D n \<Longrightarrow> 11 \<le> n \<and> n < 16" "bit F n \<Longrightarrow> 8 \<le> n \<and> n < 11" "bit K n \<Longrightarrow> n < 8" for n
    using field_bits [of 16 b n 8] field_bits [of 11 d n 5] field_bits [of 8 f n 3] field_bits [of 0 k n 8] assms
    by (simp_all add: B_def D_def F_def K_def)
  have add: "x OR y = x + y" if "\<And>n. bit x n \<Longrightarrow> bit y n \<Longrightarrow> False" for x y :: u32
    by (rule disjunctive_add [symmetric]) (use that in blast)
  have "PCI_CONFIG_ENABLE OR B = PCI_CONFIG_ENABLE + B" by (rule add) (use e bits in fastforce)
  moreover have "(PCI_CONFIG_ENABLE OR B) OR D = (PCI_CONFIG_ENABLE OR B) + D"
    by (rule add) (use e bits(1,2) in \<open>fastforce simp: bit_or_iff\<close>)
  moreover have "((PCI_CONFIG_ENABLE OR B) OR D) OR F = ((PCI_CONFIG_ENABLE OR B) OR D) + F"
    by (rule add) (use e bits(1,2,3) in \<open>fastforce simp: bit_or_iff\<close>)
  moreover have "(((PCI_CONFIG_ENABLE OR B) OR D) OR F) OR K = (((PCI_CONFIG_ENABLE OR B) OR D) OR F) + K"
    by (rule add) (use e bits in \<open>fastforce simp: bit_or_iff\<close>)
  ultimately have "pci_address (int b) (int d) (int f) (int k) = PCI_CONFIG_ENABLE + B + D + F + K"
    unfolding pci_address_def B_def [symmetric] D_def [symmetric] F_def [symmetric] K_def [symmetric] by (simp only: or.assoc [symmetric])
  also have "\<dots> = of_nat (2 ^ 31 + (b * 65536 + (d * 2048 + (f * 256 + k))))"
    by (simp add: PCI_CONFIG_ENABLE_def push_bit_eq_mult B_def D_def F_def K_def)
  finally show ?thesis using assms by (simp only: unsigned_of_nat of_nat_id) (rule take_bit_nat_eq_self, simp)
qed

lemma pci_address_fields:
  assumes "b < 256" "d < 32" "f < 8" "k < 256"
  shows "bit (pci_address (int b) (int d) (int f) (int k)) 31"
    "i < 4 \<Longrightarrow> config_byte cfg (pci_address (int b) (int d) (int f) (int k)) i = cfg b d f (k div 4 * 4 + i)"
proof -
  note v = pci_address_value [OF assms]
  have "(2147483648 + (b * 65536 + (d * 2048 + (f * 256 + k)))) div 2147483648 = 1"
    using assms by (intro div_nat_eqI) simp_all
  then have "bit (unat (pci_address (int b) (int d) (int f) (int k))) 31" unfolding v by (simp add: bit_nat_def)
  then show "bit (pci_address (int b) (int d) (int f) (int k)) 31" by (simp add: bit_unsigned_iff)
  let ?n = "2147483648 + (b * 65536 + (d * 2048 + (f * 256 + k)))"
  have "(256 * 128 + b) mod 256 = b" using assms(1) by (simp only: mod_mult_self4 mod_less)
  then have b: "(32768 + b) mod 256 = b" by simp
  have "?n div 65536 = 32768 + b" "?n div 2048 = 32 * (32768 + b) + d" "?n div 256 = 8 * (32 * (32768 + b) + d) + f"
    using assms by (intro div_nat_eqI; simp)+
  moreover have "?n = 256 * (8 * (32 * (32768 + b) + d) + f) + k" by simp
  ultimately have "?n div 65536 mod 256 = b" "?n div 2048 mod 32 = d" "?n div 256 mod 8 = f" "?n mod 256 = k"
    using assms b by (simp_all only: mod_mult_self4 mod_less)
  then show "config_byte cfg (pci_address (int b) (int d) (int f) (int k)) i = cfg b d f (k div 4 * 4 + i)" if "i < 4"
    by (simp add: config_byte_def v)
qed

lemma low_byte_of_nat: "ucast (word_of_nat n :: u32) = (word_of_nat n :: u8)"
  by (rule bit_word_eqI) (auto simp: bit_simps bit_of_nat_iff)

lemma bridge_data:
  assumes "bit (selected es) 31" "i < 4"
  shows "ucast (host_bridge cfg dev es (PCI_CONFIG_DATA + of_nat i)) = config_byte cfg (selected es) i"
proof -
  have i: "i = 0 \<or> i = 1 \<or> i = 2 \<or> i = 3" using assms(2) by auto
  have p: "PCI_CONFIG_DATA \<le> PCI_CONFIG_DATA + of_nat i" "PCI_CONFIG_DATA + of_nat i < PCI_CONFIG_DATA + 4"
    "unat (PCI_CONFIG_DATA + of_nat i) - unat PCI_CONFIG_DATA = i"
    using i by (auto simp: PCI_CONFIG_DATA_def)
  obtain m where m: "4 - i = Suc m" using assms(2) by (cases "4 - i") auto
  let ?c = "\<lambda>k. unat (config_byte cfg (selected es) (i + k))"
  have "(\<Sum>k < Suc m. ?c k * 256 ^ k) = ?c 0 + 256 * (\<Sum>k < m. ?c (Suc k) * 256 ^ k)"
    by (simp only: sum.lessThan_Suc_shift) (simp add: sum_distrib_left mult.left_commute)
  then have "ucast (word_of_nat (\<Sum>k < 4 - i. ?c k * 256 ^ k) :: u32) =
      (word_of_nat (?c 0 + 256 * (\<Sum>k < m. ?c (Suc k) * 256 ^ k)) :: u8)"
    unfolding m by (simp only: low_byte_of_nat)
  also have "\<dots> = config_byte cfg (selected es) i"
  proof -
    have "(256 :: u8) = 0" by code_simp
    then show ?thesis by (simp only: of_nat_add of_nat_mult of_nat_numeral mult_zero_left add_0_right power_0 mult_1_right) simp
  qed
  finally show ?thesis using p assms(1) by (simp add: host_bridge_def Let_def)
qed

lemma offset_bits:
  "int k AND 3 = int (k mod 4)" "int k AND 1 = int (k mod 2)" "even k \<Longrightarrow> int k AND 2 = int (k mod 4)"
proof -
  have "int k AND mask 2 = int (k mod 4)" by (simp only: take_bit_eq_mask [symmetric] take_bit_eq_mod of_nat_mod) simp
  then show "int k AND 3 = int (k mod 4)" by (simp add: mask_eq_exp_minus_1)
  show "int k AND 1 = int (k mod 2)" by (simp add: and_one_eq of_nat_mod)
  show "int k AND 2 = int (k mod 4)" if "even k"
  proof -
    have "push_bit 1 (int (k div 2)) AND push_bit 1 1 = push_bit 1 (int (k div 2) AND 1)" by (simp only: push_bit_and)
    then have "(int (k div 2) * 2) AND 2 = (int (k div 2) mod 2) * 2" by (simp only: push_bit_eq_mult and_one_eq) simp
    moreover have "int k = int (k div 2) * 2" using that by auto
    moreover have "int (k mod 4) = (int (k div 2) mod 2) * 2" using that by presburger
    ultimately show ?thesis by simp
  qed
qed

lemma narrow: "ucast (ucast v :: u16) = (ucast v :: u8)" for v :: u32
  by (rule bit_word_eqI) (auto simp: bit_simps)

section \<open>Properties\<close>

text \<open>
  C37. The reads of the configuration space. With a host bridge behind the ports, a byte read returns the byte at
  the offset of the given function, for every bus, device, function and offset; the 16-bit and the 32-bit read
  return the low byte of what is there only, because they keep it in a \<open>uint8_t\<close>.
\<close>
theorem pci_reads:
  assumes "b < 256" "d < 32" "f < 8" "k < 256"
  shows "map_sum id fst (pci_read_config_8 (host_bridge cfg dev) (int b) (int d) (int f) (int k) s) = Inr (cfg b d f k) \<and>
    map_sum id fst (pci_read_config_16 (host_bridge cfg dev) (int b) (int d) (int f) (int k) s) =
      (if even k then Inr (ucast (cfg b d f k)) else Inl (Assertion_failed ''!(offset & 1)'')) \<and>
    map_sum id fst (pci_read_config_32 (host_bridge cfg dev) (int b) (int d) (int f) (int k) s) =
      (if k mod 4 = 0 then Inr (ucast (cfg b d f k)) else Inl (Assertion_failed ''!(offset & 3)''))"
proof -
  let ?a = "pci_address (int b) (int d) (int f) (int k)"
  define es where "es = Out32 PCI_CONFIG_ADDRESSS ?a # port_log s"
  have sel: "selected es = ?a" by (simp add: es_def)
  have data: "ucast (host_bridge cfg dev es (PCI_CONFIG_DATA + of_nat (k mod 4))) = cfg b d f k"
    using bridge_data [of es "k mod 4" cfg dev] pci_address_fields [OF assms] by (simp add: sel)
  have range: "0 \<le> int k" "int k < 256" "int b < 256" "int d < 32" "int f < 8" using assms by simp_all
  have "pci_read_config_8 (host_bridge cfg dev) (int b) (int d) (int f) (int k) s =
      Inr (cfg b d f k, s\<lparr>port_log := In8 (PCI_CONFIG_DATA + of_nat (k mod 4)) # es\<rparr>)"
    using range data by (simp add: pci_read_config_8_def pci_assertions_def io_simps offset_bits es_def)
  moreover have "map_sum id fst (pci_read_config_16 (host_bridge cfg dev) (int b) (int d) (int f) (int k) s) =
      (if even k then Inr (ucast (cfg b d f k)) else Inl (Assertion_failed ''!(offset & 1)''))"
    using range data by (simp add: pci_read_config_16_def pci_assertions_def io_simps offset_bits es_def narrow odd_iff_mod_2_eq_one)
  moreover have "map_sum id fst (pci_read_config_32 (host_bridge cfg dev) (int b) (int d) (int f) (int k) s) =
      (if k mod 4 = 0 then Inr (ucast (cfg b d f k)) else Inl (Assertion_failed ''!(offset & 3)''))"
    using range data by (auto simp: pci_read_config_32_def pci_assertions_def io_simps offset_bits es_def)
  ultimately show ?thesis by simp
qed

lemma pci_reads_witness:
  "map_sum id fst (pci_read_config_8 (host_bridge (\<lambda>b d f k. if (b, d, f, k) = (0, 31, 2, 10) then 0x86 else 0) (\<lambda>_ _. 0)) 0 31 2 10
     \<lparr>if_flag = False, port_log = []\<rparr>) = Inr 0x86"
  using pci_reads [of 0 31 2 10 "\<lambda>b d f k. if (b, d, f, k) = (0, 31, 2, 10) then 0x86 else 0" "\<lambda>_ _. 0" "\<lparr>if_flag = False, port_log = []\<rparr>"] by simp

end
