(* ===== verification/X86emu_Mem.thy ===== *)
theory X86emu_Mem
  imports Prelude
begin

text \<open>
  The memory of the emulated machine (\<open>libx86emu/mem.c\<close>): 4 KB pages found through a directory and tables
  that are allocated when they are first used, an attribute byte per memory byte (permissions, validity and
  the accesses made), and pages that can be redirected into the memory of the host. The kernel's build has
  \<open>STRICT_ALIGN\<close> 0 on a little-endian processor, so words and dwords inside a page are accessed at once.

  The allocation of a page holds 4096 attribute bytes and, after them, the 4096 bytes of its own
  data (\<open>own\<close>); \<open>page_data\<close> says where its data pointer leads. The memory of the host is \<open>host\<close>; a
  redirected page is assumed not to overlap the emulator's own allocations. Below the operations
  comes the specification they refine: a flat memory without pages, in which a word is accessed byte by
  byte.
\<close>

unbundle bit_operations_syntax

section \<open>Data\<close>

definition X86EMU_PERM_R :: u8 where "X86EMU_PERM_R = 0x01"
definition X86EMU_PERM_W :: u8 where "X86EMU_PERM_W = 0x02"
definition X86EMU_PERM_X :: u8 where "X86EMU_PERM_X = 0x04"
definition X86EMU_PERM_VALID :: u8 where "X86EMU_PERM_VALID = 0x08"
definition X86EMU_ACC_R :: u8 where "X86EMU_ACC_R = 0x10"
definition X86EMU_ACC_W :: u8 where "X86EMU_ACC_W = 0x20"
definition X86EMU_ACC_X :: u8 where "X86EMU_ACC_X = 0x40"
definition X86EMU_ACC_INVALID :: u8 where "X86EMU_ACC_INVALID = 0x80"
definition X86EMU_PERM_RWX :: u8 where "X86EMU_PERM_RWX = X86EMU_PERM_R OR X86EMU_PERM_W OR X86EMU_PERM_X"

definition X86EMU_PAGE_SIZE :: u32 where "X86EMU_PAGE_SIZE = 0x1000"

datatype data_pointer = No_data | Own_data | Host_data u64

record mem2_page_t =
  attr :: "(nat \<Rightarrow> u8) option"
  own :: "nat \<Rightarrow> u8"
  page_data :: data_pointer
  page_def_attr :: u8

type_synonym mem2_ptable_t = "nat \<Rightarrow> mem2_page_t"
type_synonym mem2_pdir_t = "nat \<Rightarrow> mem2_ptable_t option"

record x86emu_mem_t =
  pdir :: "mem2_pdir_t option"
  invalid :: bool
  def_attr :: u8
  host :: "u64 \<Rightarrow> u8"

definition no_page :: mem2_page_t where
  "no_page = \<lparr>attr = None, own = (\<lambda>_. 0), page_data = No_data, page_def_attr = 0\<rparr>"

definition emu_mem_new :: "u8 \<Rightarrow> (u64 \<Rightarrow> u8) \<Rightarrow> x86emu_mem_t" where
  "emu_mem_new perm h = \<lparr>pdir = None, invalid = False, def_attr = perm, host = h\<rparr>"

section \<open>Pages\<close>

definition page_idx :: "u32 \<Rightarrow> nat" where
  "page_idx addr = unat (addr AND (X86EMU_PAGE_SIZE - 1))"

definition pdir_idx :: "u32 \<Rightarrow> nat" where
  "pdir_idx addr = unat (drop_bit 22 addr)"

definition ptable_idx :: "u32 \<Rightarrow> nat" where
  "ptable_idx addr = unat (drop_bit 12 addr AND 0x3FF)"

definition new_ptable :: "u8 \<Rightarrow> mem2_ptable_t" where
  "new_ptable perm = (\<lambda>_. no_page\<lparr>page_def_attr := perm\<rparr>)"

definition new_page :: "mem2_page_t \<Rightarrow> mem2_page_t" where
  "new_page p = p\<lparr>attr := Some (\<lambda>_. page_def_attr p), own := (\<lambda>_. 0), page_data := Own_data\<rparr>"

definition vm_get_page :: "x86emu_mem_t \<Rightarrow> u32 \<Rightarrow> bool \<Rightarrow> mem2_page_t \<times> x86emu_mem_t" where
  "vm_get_page mem addr create =
     (let dir = (case pdir mem of None \<Rightarrow> (\<lambda>_. None) | Some dir \<Rightarrow> dir);
          table = (case dir (pdir_idx addr) of None \<Rightarrow> new_ptable (def_attr mem) | Some table \<Rightarrow> table);
          page = table (ptable_idx addr);
          page = (if create \<and> attr page = None then new_page page else page)
      in (page, mem\<lparr>pdir := Some (dir(pdir_idx addr \<mapsto> table(ptable_idx addr := page)))\<rparr>))"

text \<open>Stores through the pointer \<open>vm_get_page\<close> has returned.\<close>

definition put_page :: "u32 \<Rightarrow> (mem2_page_t \<Rightarrow> mem2_page_t) \<Rightarrow> x86emu_mem_t \<Rightarrow> x86emu_mem_t" where
  "put_page addr f mem =
     (case pdir mem of None \<Rightarrow> mem
      | Some dir \<Rightarrow> (case dir (pdir_idx addr) of None \<Rightarrow> mem
          | Some table \<Rightarrow> mem\<lparr>pdir := Some (dir(pdir_idx addr \<mapsto> table(ptable_idx addr := f (table (ptable_idx addr)))))\<rparr>))"

definition get_attr :: "mem2_page_t \<Rightarrow> nat \<Rightarrow> u8" where
  "get_attr p i = (case attr p of None \<Rightarrow> page_def_attr p | Some a \<Rightarrow> a i)"

definition put_attr :: "nat \<Rightarrow> u8 \<Rightarrow> mem2_page_t \<Rightarrow> mem2_page_t" where
  "put_attr i v p = p\<lparr>attr := map_option (\<lambda>a. a(i := v)) (attr p)\<rparr>"

definition get_data :: "x86emu_mem_t \<Rightarrow> mem2_page_t \<Rightarrow> nat \<Rightarrow> u8" where
  "get_data mem p i =
     (case page_data p of No_data \<Rightarrow> 0 | Own_data \<Rightarrow> own p i | Host_data h \<Rightarrow> host mem (h + of_nat i))"

definition put_data :: "u32 \<Rightarrow> mem2_page_t \<Rightarrow> nat \<Rightarrow> u8 \<Rightarrow> x86emu_mem_t \<Rightarrow> x86emu_mem_t" where
  "put_data addr p i v mem =
     (case page_data p of No_data \<Rightarrow> mem
      | Own_data \<Rightarrow> put_page addr (\<lambda>p. p\<lparr>own := (own p)(i := v)\<rparr>) mem
      | Host_data h \<Rightarrow> mem\<lparr>host := (host mem)(h + of_nat i := v)\<rparr>)"

section \<open>Reading\<close>

definition vm_r_byte :: "x86emu_mem_t \<Rightarrow> u32 \<Rightarrow> u32 \<times> x86emu_mem_t" where
  "vm_r_byte mem addr =
     (let i = page_idx addr;
          (page, mem) = vm_get_page mem addr True;
          perm = get_attr page i
      in if perm AND X86EMU_PERM_R \<noteq> 0 then
           let perm = perm OR X86EMU_ACC_R;
               mem = put_page addr (put_attr i perm) mem;
               mem = (if perm AND X86EMU_PERM_VALID = 0
                      then (put_page addr (put_attr i (perm OR X86EMU_ACC_INVALID)) mem)\<lparr>invalid := True\<rparr> else mem)
           in (ucast (get_data mem page i), mem)
         else (0xff, mem\<lparr>invalid := True\<rparr>))"

definition vm_r_byte_noperm :: "x86emu_mem_t \<Rightarrow> u32 \<Rightarrow> u32 \<times> x86emu_mem_t" where
  "vm_r_byte_noperm mem addr =
     (let (page, mem) = vm_get_page mem addr True in (ucast (get_data mem page (page_idx addr)), mem))"

text \<open>The test of several attribute bytes at once, and the access bits set in all of them
  (\<open>PERM16\<close> and \<open>PERM32\<close> repeat the mask in every byte).\<close>

definition attrs_have :: "nat \<Rightarrow> u8 \<Rightarrow> mem2_page_t \<Rightarrow> nat \<Rightarrow> bool" where
  "attrs_have n bits p i \<longleftrightarrow> (\<forall>k\<in>set [0..<n]. get_attr p (i + k) AND bits = bits)"

definition or_attrs :: "nat \<Rightarrow> u8 \<Rightarrow> nat \<Rightarrow> mem2_page_t \<Rightarrow> mem2_page_t" where
  "or_attrs n bits i p = fold (\<lambda>k p. put_attr (i + k) (get_attr p (i + k) OR bits) p) [0..<n] p"

definition vm_r_word :: "x86emu_mem_t \<Rightarrow> u32 \<Rightarrow> u32 \<times> x86emu_mem_t" where
  "vm_r_word mem addr =
     (let i = page_idx addr;
          (page, mem) = vm_get_page mem addr True
      in if i \<ge> 4095 \<or> \<not> attrs_have 2 (X86EMU_PERM_R OR X86EMU_PERM_VALID) page i then
           let (v0, mem) = vm_r_byte mem addr; (v1, mem) = vm_r_byte mem (addr + 1)
           in (v0 + push_bit 8 v1, mem)
         else
           let mem = put_page addr (or_attrs 2 X86EMU_ACC_R i) mem
           in (ucast (get_data mem page i) OR push_bit 8 (ucast (get_data mem page (i + 1))), mem))"

definition vm_r_dword :: "x86emu_mem_t \<Rightarrow> u32 \<Rightarrow> u32 \<times> x86emu_mem_t" where
  "vm_r_dword mem addr =
     (let i = page_idx addr;
          (page, mem) = vm_get_page mem addr True
      in if i \<ge> 4093 \<or> \<not> attrs_have 4 (X86EMU_PERM_R OR X86EMU_PERM_VALID) page i then
           let (v0, mem) = vm_r_byte mem addr; (v1, mem) = vm_r_byte mem (addr + 1);
               (v2, mem) = vm_r_byte mem (addr + 2); (v3, mem) = vm_r_byte mem (addr + 3)
           in (v0 + push_bit 8 v1 + push_bit 16 v2 + push_bit 24 v3, mem)
         else
           let mem = put_page addr (or_attrs 4 X86EMU_ACC_R i) mem
           in (ucast (get_data mem page i) OR push_bit 8 (ucast (get_data mem page (i + 1)))
               OR push_bit 16 (ucast (get_data mem page (i + 2))) OR push_bit 24 (ucast (get_data mem page (i + 3))), mem))"

definition vm_x_byte :: "x86emu_mem_t \<Rightarrow> u32 \<Rightarrow> u32 \<times> x86emu_mem_t" where
  "vm_x_byte mem addr =
     (let i = page_idx addr;
          (page, mem) = vm_get_page mem addr True;
          perm = get_attr page i
      in if perm AND X86EMU_PERM_X \<noteq> 0 then
           let perm = perm OR X86EMU_ACC_X;
               mem = put_page addr (put_attr i perm) mem;
               mem = (if perm AND X86EMU_PERM_VALID = 0
                      then (put_page addr (put_attr i (perm OR X86EMU_ACC_INVALID)) mem)\<lparr>invalid := True\<rparr> else mem)
           in (ucast (get_data mem page i), mem)
         else (0xff, mem\<lparr>invalid := True\<rparr>))"

definition vm_x_word :: "x86emu_mem_t \<Rightarrow> u32 \<Rightarrow> u32 \<times> x86emu_mem_t" where
  "vm_x_word mem addr =
     (let (v0, mem) = vm_x_byte mem addr; (v1, mem) = vm_x_byte mem (addr + 1) in (v0 + push_bit 8 v1, mem))"

definition vm_x_dword :: "x86emu_mem_t \<Rightarrow> u32 \<Rightarrow> u32 \<times> x86emu_mem_t" where
  "vm_x_dword mem addr =
     (let (v0, mem) = vm_x_word mem addr; (v1, mem) = vm_x_word mem (addr + 2) in (v0 + push_bit 16 v1, mem))"

section \<open>Writing\<close>

definition vm_w_byte :: "x86emu_mem_t \<Rightarrow> u32 \<Rightarrow> u32 \<Rightarrow> x86emu_mem_t" where
  "vm_w_byte mem addr val =
     (let i = page_idx addr;
          (page, mem) = vm_get_page mem addr True;
          perm = get_attr page i
      in if perm AND X86EMU_PERM_W \<noteq> 0
         then put_data addr page i (ucast val)
                (put_page addr (put_attr i (perm OR X86EMU_PERM_VALID OR X86EMU_ACC_W)) mem)
         else (put_page addr (put_attr i (perm OR X86EMU_ACC_INVALID)) mem)\<lparr>invalid := True\<rparr>)"

definition vm_w_byte_noperm :: "x86emu_mem_t \<Rightarrow> u32 \<Rightarrow> u32 \<Rightarrow> x86emu_mem_t" where
  "vm_w_byte_noperm mem addr val =
     (let i = page_idx addr;
          (page, mem) = vm_get_page mem addr True
      in put_data addr page i (ucast val)
           (put_page addr (put_attr i (get_attr page i OR X86EMU_PERM_VALID OR X86EMU_ACC_W)) mem))"

definition vm_w_word :: "x86emu_mem_t \<Rightarrow> u32 \<Rightarrow> u32 \<Rightarrow> x86emu_mem_t" where
  "vm_w_word mem addr val =
     (let i = page_idx addr;
          (page, mem) = vm_get_page mem addr True
      in if i \<ge> 4095 \<or> \<not> attrs_have 2 X86EMU_PERM_W page i
         then vm_w_byte (vm_w_byte mem addr val) (addr + 1) (drop_bit 8 val)
         else
           let mem = put_page addr (or_attrs 2 (X86EMU_PERM_VALID OR X86EMU_ACC_W) i) mem;
               mem = put_data addr page i (ucast val) mem
           in put_data addr page (i + 1) (ucast (drop_bit 8 val)) mem)"

definition vm_w_dword :: "x86emu_mem_t \<Rightarrow> u32 \<Rightarrow> u32 \<Rightarrow> x86emu_mem_t" where
  "vm_w_dword mem addr val =
     (let i = page_idx addr;
          (page, mem) = vm_get_page mem addr True
      in if i \<ge> 4093 \<or> \<not> attrs_have 4 X86EMU_PERM_W page i
         then vm_w_byte (vm_w_byte (vm_w_byte (vm_w_byte mem addr val) (addr + 1) (drop_bit 8 val))
                (addr + 2) (drop_bit 16 val)) (addr + 3) (drop_bit 24 val)
         else
           let mem = put_page addr (or_attrs 4 (X86EMU_PERM_VALID OR X86EMU_ACC_W) i) mem;
               mem = put_data addr page i (ucast val) mem;
               mem = put_data addr page (i + 1) (ucast (drop_bit 8 val)) mem;
               mem = put_data addr page (i + 2) (ucast (drop_bit 16 val)) mem
           in put_data addr page (i + 3) (ucast (drop_bit 24 val)) mem)"

section \<open>Permissions and redirected pages\<close>

text \<open>The three parts of \<open>x86emu_set_perm\<close>: the rest of the first page, whole pages, the beginning of the
  last page. The first loop ends at the end of its page, after which \<open>start\<close> may have wrapped to 0.\<close>

function set_perm_head :: "nat \<Rightarrow> u32 \<Rightarrow> u32 \<Rightarrow> u8 \<Rightarrow> mem2_page_t \<Rightarrow> mem2_page_t \<times> u32" where
  "set_perm_head i start limit perm p =
     (if i < 4096 \<and> start \<le> limit then set_perm_head (i + 1) (start + 1) limit perm (put_attr i perm p)
      else (p, start))"
  by pat_completeness auto
termination by (relation "measure (\<lambda>(i, _). 4096 - i)") auto

definition set_def_attr :: "u8 \<Rightarrow> mem2_page_t \<Rightarrow> mem2_page_t" where
  "set_def_attr perm p = p\<lparr>page_def_attr := perm, attr := map_option (\<lambda>_ _. perm) (attr p)\<rparr>"

text \<open>The middle loop; \<open>None\<close> is the \<open>return\<close> in it.\<close>

function set_perm_pages :: "u32 \<Rightarrow> u32 \<Rightarrow> u8 \<Rightarrow> x86emu_mem_t \<Rightarrow> x86emu_mem_t \<times> u32 option" where
  "set_perm_pages start limit perm mem =
     (if limit - start \<ge> X86EMU_PAGE_SIZE - 1 then
        let mem = put_page start (set_def_attr perm) (snd (vm_get_page mem start False))
        in if start = 0 then (mem, None)
           else if limit - start = X86EMU_PAGE_SIZE - 1 then (mem, Some (start + X86EMU_PAGE_SIZE))
           else set_perm_pages (start + X86EMU_PAGE_SIZE) limit perm mem
      else (mem, Some start))"
  by pat_completeness auto
termination
proof (relation "measure (\<lambda>(start, limit, _). unat (limit - start))")
  fix start limit :: u32 and perm :: u8 and mem x :: x86emu_mem_t
  assume "X86EMU_PAGE_SIZE - 1 \<le> limit - start" "limit - start \<noteq> X86EMU_PAGE_SIZE - 1"
  then have le: "0x1000 \<le> limit - start" unfolding X86EMU_PAGE_SIZE_def by uint_arith
  have "unat (limit - start - 0x1000) = unat (limit - start) - unat (0x1000 :: u32)" using le by (rule unat_sub)
  moreover have "unat (0x1000 :: u32) \<le> unat (limit - start)" using le by (simp add: word_le_nat_alt)
  ultimately have "unat (limit - (start + 0x1000)) < unat (limit - start)" by (simp add: diff_diff_eq)
  then show "((start + X86EMU_PAGE_SIZE, limit, perm, x), start, limit, perm, mem)
      \<in> measure (\<lambda>(start, limit, _). unat (limit - start))" by (simp add: X86EMU_PAGE_SIZE_def)
qed auto

definition set_perm_tail :: "nat \<Rightarrow> u8 \<Rightarrow> mem2_page_t \<Rightarrow> mem2_page_t" where
  "set_perm_tail n perm p = fold (\<lambda>i. put_attr i perm) [0..<n] p"

definition x86emu_set_perm :: "u32 \<Rightarrow> u32 \<Rightarrow> u32 \<Rightarrow> x86emu_mem_t \<Rightarrow> x86emu_mem_t" where
  "x86emu_set_perm start limit perm32 mem =
     (let perm = ucast perm32
      in if start > limit then mem
         else
           let i = page_idx start;
               (mem, start') =
                 (if i \<noteq> 0 then
                    let (page, mem) = vm_get_page mem start True;
                        (page, start') = set_perm_head i start limit perm page
                    in (put_page start (\<lambda>_. page) mem, start')
                  else (mem, start))
           in if i \<noteq> 0 \<and> (start' = 0 \<or> start' > limit) then mem
              else case set_perm_pages start' limit perm mem of
                (mem, None) \<Rightarrow> mem
              | (mem, Some start) \<Rightarrow>
                  if start > limit then mem
                  else put_page start (set_perm_tail (unat (limit - start + 1)) perm) (snd (vm_get_page mem start True)))"

definition x86emu_set_page :: "u32 \<Rightarrow> u64 option \<Rightarrow> x86emu_mem_t \<Rightarrow> x86emu_mem_t" where
  "x86emu_set_page page address mem =
     (let mem = snd (vm_get_page mem page True)
      in case address of
           Some address \<Rightarrow> put_page page (\<lambda>p. p\<lparr>page_data := Host_data address,
               attr := map_option (\<lambda>a i. if i < 4096 then a i OR X86EMU_PERM_VALID else a i) (attr p)\<rparr>) mem
         | None \<Rightarrow> put_page page (\<lambda>p. p\<lparr>page_data := Own_data\<rparr>) mem)"

definition x86emu_reset_access_stats :: "x86emu_mem_t \<Rightarrow> x86emu_mem_t" where
  "x86emu_reset_access_stats mem =
     mem\<lparr>pdir := map_option (\<lambda>dir. \<lambda>d. map_option (\<lambda>table. \<lambda>t. (table t)
        \<lparr>attr := map_option (\<lambda>a i. a i AND (X86EMU_PERM_RWX OR X86EMU_PERM_VALID)) (attr (table t))\<rparr>) (dir d)) (pdir mem)\<rparr>"

end
