(* ===== verification/X86emu_Mem_Spec.thy ===== *)
theory X86emu_Mem_Spec
  imports X86emu_Mem
begin

text \<open>
  The flat memory that the paged memory of the emulator implements: an attribute byte and a storage
  location per address, and byte accesses only. \<open>view\<close> is the abstraction function; a page that was not yet
  allocated counts with its default attributes and zero bytes. The lemmas show that allocation is
  invisible, that every operation is simulated by its flat counterpart, and what follows for the flat one.
\<close>

section \<open>Specification\<close>

datatype loc = Own_byte u32 | Host_byte u64

record flat =
  fattr :: "u32 \<Rightarrow> u8"
  floc :: "u32 \<Rightarrow> loc"
  fbyte :: "loc \<Rightarrow> u8"
  finvalid :: bool

definition flat_use :: "u8 \<Rightarrow> u8 \<Rightarrow> u32 \<Rightarrow> flat \<Rightarrow> u32 \<times> flat" where
  "flat_use perm acc a f =
     (let at = fattr f a
      in if at AND perm \<noteq> 0
         then (ucast (fbyte f (floc f a)),
               f\<lparr>fattr := (fattr f)(a := if at AND X86EMU_PERM_VALID = 0 then at OR acc OR X86EMU_ACC_INVALID else at OR acc),
                 finvalid := finvalid f \<or> at AND X86EMU_PERM_VALID = 0\<rparr>)
         else (0xff, f\<lparr>finvalid := True\<rparr>))"

definition flat_w_byte :: "u32 \<Rightarrow> u8 \<Rightarrow> flat \<Rightarrow> flat" where
  "flat_w_byte a v f =
     (let at = fattr f a
      in if at AND X86EMU_PERM_W \<noteq> 0
         then f\<lparr>fattr := (fattr f)(a := at OR X86EMU_PERM_VALID OR X86EMU_ACC_W), fbyte := (fbyte f)(floc f a := v)\<rparr>
         else f\<lparr>fattr := (fattr f)(a := at OR X86EMU_ACC_INVALID), finvalid := True\<rparr>)"

primrec flat_read :: "u8 \<Rightarrow> u8 \<Rightarrow> nat \<Rightarrow> u32 \<Rightarrow> flat \<Rightarrow> u32 \<times> flat" where
  "flat_read perm acc 0 a f = (0, f)"
| "flat_read perm acc (Suc n) a f =
     (let (v, f) = flat_use perm acc a f; (w, f) = flat_read perm acc n (a + 1) f in (v + 256 * w, f))"

primrec flat_write :: "nat \<Rightarrow> u32 \<Rightarrow> u32 \<Rightarrow> flat \<Rightarrow> flat" where
  "flat_write 0 a v f = f"
| "flat_write (Suc n) a v f = flat_write n (a + 1) (drop_bit 8 v) (flat_w_byte a (ucast v) f)"

section \<open>Abstraction\<close>

definition page_of :: "x86emu_mem_t \<Rightarrow> u32 \<Rightarrow> mem2_page_t" where
  "page_of mem a =
     (case pdir mem of None \<Rightarrow> no_page\<lparr>page_def_attr := def_attr mem\<rparr>
      | Some dir \<Rightarrow> (case dir (pdir_idx a) of None \<Rightarrow> no_page\<lparr>page_def_attr := def_attr mem\<rparr>
          | Some table \<Rightarrow> table (ptable_idx a)))"

definition view :: "x86emu_mem_t \<Rightarrow> flat" where
  "view mem =
     \<lparr>fattr = (\<lambda>a. get_attr (page_of mem a) (page_idx a)),
      floc = (\<lambda>a. case page_data (page_of mem a) of Host_data h \<Rightarrow> Host_byte (h + of_nat (page_idx a)) | _ \<Rightarrow> Own_byte a),
      fbyte = (\<lambda>l. case l of Host_byte h \<Rightarrow> host mem h
                 | Own_byte a \<Rightarrow> if attr (page_of mem a) = None then 0 else own (page_of mem a) (page_idx a)),
      finvalid = invalid mem\<rparr>"

definition mem_ok :: "x86emu_mem_t \<Rightarrow> bool" where
  "mem_ok mem \<longleftrightarrow> (\<forall>a. attr (page_of mem a) = None \<longleftrightarrow> page_data (page_of mem a) = No_data)"

definition same_page :: "u32 \<Rightarrow> u32 \<Rightarrow> bool" where
  "same_page a b \<longleftrightarrow> pdir_idx a = pdir_idx b \<and> ptable_idx a = ptable_idx b"

section \<open>Addresses\<close>

lemma bit_3FF: "bit (0x3FF :: u32) k \<longleftrightarrow> k < 10"
proof -
  have eq: "(0x3FF :: u32) = mask 10" by (simp add: mask_eq_exp_minus_1)
  show ?thesis unfolding eq by (auto simp: bit_simps)
qed

lemma same_page_iff: "same_page a b \<longleftrightarrow> drop_bit 12 a = drop_bit 12 b"
proof
  assume "same_page a b"
  then have d: "drop_bit 22 a = drop_bit 22 b" and t: "drop_bit 12 a AND 0x3FF = drop_bit 12 b AND 0x3FF"
    unfolding same_page_def pdir_idx_def ptable_idx_def word_unat_eq_iff by blast+
  show "drop_bit 12 a = drop_bit 12 b"
  proof (rule bit_word_eqI)
    fix k assume "k < LENGTH(32)"
    show "bit (drop_bit 12 a) k = bit (drop_bit 12 b) k"
    proof (cases "k < 10")
      case True
      then show ?thesis using arg_cong [OF t, of "\<lambda>w. bit w k"] by (simp only: bit_and_iff bit_3FF True simp_thms)
    next
      case False
      then have "12 + k = 22 + (k - 10)" by simp
      then show ?thesis using arg_cong [OF d, of "\<lambda>w. bit w (k - 10)"] by (simp only: bit_drop_bit_eq comp_apply)
    qed
  qed
next
  assume e: "drop_bit 12 a = drop_bit 12 b"
  have "drop_bit 22 w = drop_bit 10 (drop_bit 12 w)" for w :: u32 by (simp add: drop_bit_drop_bit)
  then have "drop_bit 22 a = drop_bit 22 b" using e by metis
  then show "same_page a b" using e by (simp add: same_page_def pdir_idx_def ptable_idx_def)
qed

lemma page_idx_mod: "page_idx a = unat a mod 4096"
proof -
  have eq: "X86EMU_PAGE_SIZE - 1 = mask 12" by (simp add: mask_eq_exp_minus_1 X86EMU_PAGE_SIZE_def)
  have "unat (a AND mask 12) = take_bit 12 (unat a)" by (simp only: unsigned_take_bit_eq flip: take_bit_eq_mask)
  then show ?thesis unfolding page_idx_def eq by (simp add: take_bit_eq_mod)
qed

lemma page_idx_less [simp]: "page_idx a < 4096"
  by (simp add: page_idx_mod)

lemma same_page_div: "same_page a b \<longleftrightarrow> unat a div 4096 = unat b div 4096"
proof -
  have "unat (drop_bit 12 w) = unat w div 2 ^ 12" for w :: u32 by (simp only: unat_drop_bit_eq) (simp only: drop_bit_eq_div)
  then have "unat (drop_bit 12 w) = unat w div 4096" for w :: u32 by simp
  then show ?thesis by (metis same_page_iff word_unat_eq_iff)
qed

lemma same_address: "same_page a b \<Longrightarrow> page_idx a = page_idx b \<longleftrightarrow> a = b"
  by (metis same_page_div page_idx_mod div_mult_mod_eq word_unat_eq_iff)

lemma same_page_refl [simp]: "same_page a a"
  by (simp add: same_page_def)

lemma same_page_sym: "same_page a b \<longleftrightarrow> same_page b a"
  by (auto simp: same_page_def)

lemma unat_within_page:
  assumes "page_idx a + k < 4096"
  shows "unat (a + of_nat k) = unat a + k"
proof -
  define q where "q = unat a div 4096"
  have a: "unat a = q * 4096 + page_idx a" by (simp add: page_idx_mod q_def)
  have "unat a < 2 ^ 32" using unsigned_less [of a, where 'a = nat] by simp
  then have "q < 2 ^ 20" by (simp add: q_def div_less_iff_less_mult)
  then have "unat a + k < 2 ^ 32" using a assms by simp
  moreover have k: "unat (of_nat k :: u32) = k" using assms by (simp add: unsigned_of_nat take_bit_nat_eq_self)
  ultimately show ?thesis using unat_add_lem [of a "of_nat k"] by (simp add: k)
qed

lemma within_page:
  assumes "page_idx a + k < 4096"
  shows "same_page a (a + of_nat k)" "page_idx (a + of_nat k) = page_idx a + k"
proof -
  have a: "unat a = unat a div 4096 * 4096 + page_idx a" by (simp add: page_idx_mod)
  have "unat a + k = unat a div 4096 * 4096 + (page_idx a + k)" using a by linarith
  then have "(unat a + k) div 4096 = unat a div 4096 \<and> (unat a + k) mod 4096 = page_idx a + k"
    using assms by (metis add.commute div_less div_mult_self3 mod_less mod_mult_self3 add_0 zero_neq_numeral)
  then show "same_page a (a + of_nat k)" "page_idx (a + of_nat k) = page_idx a + k"
    by (simp_all add: same_page_div page_idx_mod [of "a + _"] unat_within_page [OF assms])
qed

section \<open>Pages and the view\<close>

definition present_page :: "x86emu_mem_t \<Rightarrow> u32 \<Rightarrow> bool" where
  "present_page mem a \<longleftrightarrow> (\<exists>dir table. pdir mem = Some dir \<and> dir (pdir_idx a) = Some table)"

lemma put_page:
  assumes "present_page mem a"
  shows "page_of (put_page a g mem) b = (if same_page a b then g (page_of mem a) else page_of mem b)"
    "present_page (put_page a g mem) b \<longleftrightarrow> present_page mem b"
    "invalid (put_page a g mem) = invalid mem" "host (put_page a g mem) = host mem"
    "def_attr (put_page a g mem) = def_attr mem"
  using assms by (auto simp: present_page_def put_page_def page_of_def same_page_def split: option.splits)

lemma present_same_page: "present_page mem a \<Longrightarrow> same_page a b \<Longrightarrow> present_page mem b"
  by (auto simp: present_page_def same_page_def)

lemma page_of_same_page: "same_page a b \<Longrightarrow> page_of mem b = page_of mem a"
  by (auto simp: page_of_def same_page_def split: option.splits)

lemma page_of_fields [simp]:
  "page_of (mem\<lparr>host := h\<rparr>) = page_of mem" "page_of (mem\<lparr>invalid := i\<rparr>) = page_of mem"
  by (auto simp: page_of_def fun_eq_iff split: option.splits)

lemma other_fields [simp]:
  "present_page (mem\<lparr>host := h\<rparr>) = present_page mem" "present_page (mem\<lparr>invalid := i\<rparr>) = present_page mem"
  "mem_ok (mem\<lparr>host := h\<rparr>) = mem_ok mem" "mem_ok (mem\<lparr>invalid := i\<rparr>) = mem_ok mem"
  "view (mem\<lparr>invalid := i\<rparr>) = view mem\<lparr>finvalid := i\<rparr>"
  by (auto simp: present_page_def mem_ok_def view_def fun_eq_iff split: loc.splits)

lemma get_page:
  assumes "vm_get_page mem a create = (p, mem')"
  shows "present_page mem' a"
    "p = (if create \<and> attr (page_of mem a) = None then new_page (page_of mem a) else page_of mem a)"
    "page_of mem' b = (if same_page a b then p else page_of mem b)"
    "invalid mem' = invalid mem" "host mem' = host mem" "def_attr mem' = def_attr mem"
proof -
  define dir where "dir = (case pdir mem of None \<Rightarrow> (\<lambda>_. None) | Some dir \<Rightarrow> dir)"
  define table where "table = (case dir (pdir_idx a) of None \<Rightarrow> new_ptable (def_attr mem) | Some table \<Rightarrow> table)"
  have old: "page_of mem b = (if pdir_idx a = pdir_idx b then table (ptable_idx b)
      else case dir (pdir_idx b) of None \<Rightarrow> no_page\<lparr>page_def_attr := def_attr mem\<rparr> | Some t \<Rightarrow> t (ptable_idx b))" for b
    by (cases "pdir mem"; cases "dir (pdir_idx b)") (auto simp: page_of_def table_def dir_def new_ptable_def)
  define q where "q = (if create \<and> attr (table (ptable_idx a)) = None then new_page (table (ptable_idx a)) else table (ptable_idx a))"
  have "vm_get_page mem a create = (q, mem\<lparr>pdir := Some (dir(pdir_idx a \<mapsto> table(ptable_idx a := q)))\<rparr>)"
    by (simp only: vm_get_page_def Let_def q_def table_def dir_def)
  then have p: "p = q" and mem': "mem' = mem\<lparr>pdir := Some (dir(pdir_idx a \<mapsto> table(ptable_idx a := p)))\<rparr>"
    using assms by auto
  show "p = (if create \<and> attr (page_of mem a) = None then new_page (page_of mem a) else page_of mem a)"
    by (simp add: old p q_def)
  show "present_page mem' a" "invalid mem' = invalid mem" "host mem' = host mem" "def_attr mem' = def_attr mem"
    by (simp_all add: mem' present_page_def)
  show "page_of mem' b = (if same_page a b then p else page_of mem b)"
    by (simp add: old same_page_def) (auto simp: mem' page_of_def split: option.splits)
qed

lemma get_attr_new_page [simp]: "attr p = None \<Longrightarrow> get_attr (new_page p) i = get_attr p i"
  by (simp add: new_page_def get_attr_def)

text \<open>Allocating tables and pages cannot be observed.\<close>

lemma vm_get_page_invisible:
  assumes g: "vm_get_page mem a create = (p, mem')" and ok: "mem_ok mem"
  shows "view mem' = view mem" "mem_ok mem'" "present_page mem' a" "p = page_of mem' a"
    "create \<Longrightarrow> attr p \<noteq> None \<and> page_data p \<noteq> No_data"
proof -
  note get_page [OF g]
  then show "mem_ok mem'" "present_page mem' a" "p = page_of mem' a"
    "create \<Longrightarrow> attr p \<noteq> None \<and> page_data p \<noteq> No_data"
    using ok by (auto simp: mem_ok_def new_page_def split: if_splits)
  have new: "get_attr (page_of mem' b) i = get_attr (page_of mem b) i"
    "(case page_data (page_of mem' b) of Host_data h \<Rightarrow> Host_byte (h + of_nat i) | _ \<Rightarrow> Own_byte b)
     = (case page_data (page_of mem b) of Host_data h \<Rightarrow> Host_byte (h + of_nat i) | _ \<Rightarrow> Own_byte b)"
    "(if attr (page_of mem' b) = None then 0 else own (page_of mem' b) i)
     = (if attr (page_of mem b) = None then 0 else own (page_of mem b) i)" for b i
  proof -
    show "get_attr (page_of mem' b) i = get_attr (page_of mem b) i"
      by (cases "same_page a b") (simp_all add: get_page(3) [OF g] get_page(2) [OF g] page_of_same_page)
    have old: "attr (page_of mem a) = None \<Longrightarrow> page_data (page_of mem a) = No_data" using ok by (simp add: mem_ok_def)
    then show "(case page_data (page_of mem' b) of Host_data h \<Rightarrow> Host_byte (h + of_nat i) | _ \<Rightarrow> Own_byte b)
     = (case page_data (page_of mem b) of Host_data h \<Rightarrow> Host_byte (h + of_nat i) | _ \<Rightarrow> Own_byte b)"
      by (cases "same_page a b") (simp_all add: get_page(3) [OF g] get_page(2) [OF g] page_of_same_page new_page_def)
    show "(if attr (page_of mem' b) = None then 0 else own (page_of mem' b) i)
     = (if attr (page_of mem b) = None then 0 else own (page_of mem b) i)"
      by (cases "same_page a b") (auto simp: get_page(3) [OF g] get_page(2) [OF g] page_of_same_page new_page_def)
  qed
  show "view mem' = view mem"
    by (auto simp: view_def new get_page(4,5) [OF g] fun_eq_iff split: loc.splits)
qed

lemma view_put_attr:
  assumes "present_page mem a" "attr (page_of mem a) \<noteq> None" "same_page a b" "i = page_idx b"
  shows "view (put_page a (put_attr i v) mem) = view mem\<lparr>fattr := (fattr (view mem))(b := v)\<rparr>"
proof -
  have "fattr (view (put_page a (put_attr i v) mem)) c = (if c = b then v else fattr (view mem) c)" for c
    using assms same_address [of b c]
    by (auto simp: view_def put_page get_attr_def put_attr_def same_page_div page_of_same_page [of a c] split: option.splits)
  moreover have "fbyte (view (put_page a (put_attr i v) mem)) l = fbyte (view mem) l" for l
    using assms by (cases l) (auto simp: view_def put_page put_attr_def page_of_same_page)
  moreover have "floc (view (put_page a (put_attr i v) mem)) c = floc (view mem) c" for c
    using assms by (auto simp: view_def put_page put_attr_def page_of_same_page)
  ultimately show ?thesis using assms by (auto simp: view_def put_page)
qed

lemma put_attr_page [simp]:
  "attr (put_attr i v p) = None \<longleftrightarrow> attr p = None" "page_data (put_attr i v p) = page_data p" "own (put_attr i v p) = own p"
  by (simp_all add: put_attr_def)

lemma mem_ok_put_attr:
  "present_page mem a \<Longrightarrow> mem_ok mem \<Longrightarrow> mem_ok (put_page a (put_attr i v) mem)"
  by (auto simp: mem_ok_def put_page)

lemma get_data_view:
  assumes "same_page a b" "attr (page_of mem a) \<noteq> None" "page_data p = page_data (page_of mem a)" "own p = own (page_of mem a)"
    "page_data p \<noteq> No_data" "i = page_idx b"
  shows "get_data mem p i = fbyte (view mem) (floc (view mem) b)"
  using assms by (auto simp: get_data_def view_def page_of_same_page [of a b] split: data_pointer.splits)

lemma view_put_data:
  assumes "present_page mem a" "attr (page_of mem a) \<noteq> None" "same_page a b"
    "page_data p = page_data (page_of mem a)" "page_data p \<noteq> No_data" "i = page_idx b"
  shows "view (put_data a p i v mem) = view mem\<lparr>fbyte := (fbyte (view mem))(floc (view mem) b := v)\<rparr>"
proof (cases "page_data p")
  case Own_data
  then have loc: "floc (view mem) b = Own_byte b" using assms by (simp add: view_def page_of_same_page [of a b])
  have eq: "put_data a p i v mem = put_page a (\<lambda>p. p\<lparr>own := (own p)(i := v)\<rparr>) mem" using Own_data by (simp add: put_data_def)
  have byte: "fbyte (view (put_data a p i v mem)) l = ((fbyte (view mem))(floc (view mem) b := v)) l" for l
  proof (cases l)
    case (Own_byte c)
    have "same_page a c \<Longrightarrow> same_page b c" using assms by (simp add: same_page_def)
    then have "same_page a c \<Longrightarrow> page_idx b = page_idx c \<longleftrightarrow> b = c" by (rule same_address)
    then show ?thesis using assms unfolding loc eq Own_byte
      by (cases "same_page a c") (auto simp: view_def put_page page_of_same_page [of a c])
  next
    case (Host_byte h)
    show ?thesis using assms unfolding loc eq Host_byte by (simp add: view_def put_page)
  qed
  have other: "floc (view (put_data a p i v mem)) = floc (view mem)" "fattr (view (put_data a p i v mem)) = fattr (view mem)"
    "finvalid (view (put_data a p i v mem)) = finvalid (view mem)"
    unfolding eq using assms by (auto simp: view_def put_page fun_eq_iff get_attr_def page_of_same_page split: option.splits)
  show ?thesis by (rule flat.equality) (simp_all add: byte other fun_eq_iff)
next
  case (Host_data h)
  then have "floc (view mem) b = Host_byte (h + of_nat i)" using assms by (simp add: view_def page_of_same_page [of a b])
  then show ?thesis using Host_data
    by (auto simp: put_data_def view_def page_of_def fun_eq_iff split: loc.splits)
qed (use assms in simp)

lemma put_data_page:
  assumes "present_page mem a"
  shows "present_page (put_data a p i v mem) c = present_page mem c"
    "page_data (page_of (put_data a p i v mem) c) = page_data (page_of mem c)"
    "attr (page_of (put_data a p i v mem) c) = attr (page_of mem c)"
    "mem_ok (put_data a p i v mem) = mem_ok mem"
proof -
  show page: "page_data (page_of (put_data a p i v mem) c) = page_data (page_of mem c)"
    "attr (page_of (put_data a p i v mem) c) = attr (page_of mem c)" for c
    using assms by (auto simp: put_data_def put_page page_of_same_page split: data_pointer.splits)
  show "present_page (put_data a p i v mem) c = present_page mem c"
    using assms by (auto simp: put_data_def put_page split: data_pointer.splits)
  show "mem_ok (put_data a p i v mem) = mem_ok mem" by (simp add: mem_ok_def page)
qed

section \<open>Byte accesses\<close>

lemma acc_bits [simp]:
  "(x OR X86EMU_ACC_R) AND X86EMU_PERM_VALID = x AND X86EMU_PERM_VALID"
  "(x OR X86EMU_ACC_X) AND X86EMU_PERM_VALID = x AND X86EMU_PERM_VALID"
  by (simp_all add: bit.conj_disj_distrib2 X86EMU_ACC_R_def X86EMU_ACC_X_def X86EMU_PERM_VALID_def)

definition use_byte :: "u8 \<Rightarrow> u8 \<Rightarrow> u32 \<Rightarrow> mem2_page_t \<Rightarrow> x86emu_mem_t \<Rightarrow> u32 \<times> x86emu_mem_t" where
  "use_byte perm acc a page mem =
     (let i = page_idx a; at = get_attr page i
      in if at AND perm \<noteq> 0 then
           (ucast (get_data mem page i),
            if at AND X86EMU_PERM_VALID = 0
            then (put_page a (put_attr i (at OR acc OR X86EMU_ACC_INVALID)) (put_page a (put_attr i (at OR acc)) mem))\<lparr>invalid := True\<rparr>
            else put_page a (put_attr i (at OR acc)) mem)
         else (0xff, mem\<lparr>invalid := True\<rparr>))"

lemma get_data_put_attr [simp]: "get_data (put_page a (put_attr i v) mem) p j = get_data mem p j"
  by (auto simp: get_data_def put_page_def split: option.splits data_pointer.splits)

lemma get_data_invalid [simp]: "get_data (mem\<lparr>invalid := b\<rparr>) p j = get_data mem p j"
  by (auto simp: get_data_def split: data_pointer.splits)

lemma vm_use_byte:
  "vm_r_byte mem a = (let (page, mem) = vm_get_page mem a True in use_byte X86EMU_PERM_R X86EMU_ACC_R a page mem)"
  "vm_x_byte mem a = (let (page, mem) = vm_get_page mem a True in use_byte X86EMU_PERM_X X86EMU_ACC_X a page mem)"
  by (cases "vm_get_page mem a True"; simp add: vm_r_byte_def vm_x_byte_def use_byte_def Let_def or.assoc)+

text \<open>A page that was fetched for an access.\<close>

definition fetched :: "u32 \<Rightarrow> mem2_page_t \<Rightarrow> x86emu_mem_t \<Rightarrow> bool" where
  "fetched a p mem \<longleftrightarrow> mem_ok mem \<and> present_page mem a \<and> attr (page_of mem a) \<noteq> None \<and> page_data p \<noteq> No_data \<and>
     page_data p = page_data (page_of mem a)"

lemma vm_get_page_fetched:
  assumes "vm_get_page mem a True = (p, mem')" "mem_ok mem"
  shows "fetched a p mem'" "view mem' = view mem" "p = page_of mem' a"
  using vm_get_page_invisible [OF assms] by (simp_all add: fetched_def)

lemma fetched_attr:
  assumes "fetched a p mem" "same_page a b" "i = page_idx b"
  shows "view (put_page a (put_attr i v) mem) = view mem\<lparr>fattr := (fattr (view mem))(b := v)\<rparr>"
    "fetched a p (put_page a (put_attr i v) mem)"
  using assms view_put_attr [of mem a b i v]
  by (auto simp: fetched_def put_page mem_ok_put_attr)

lemma fetched_data:
  assumes "fetched a p mem" "same_page a b" "i = page_idx b"
  shows "view (put_data a p i v mem) = view mem\<lparr>fbyte := (fbyte (view mem))(floc (view mem) b := v)\<rparr>"
    "fetched a p (put_data a p i v mem)"
  using assms view_put_data [of mem a b p i v]
  by (auto simp: fetched_def put_data_page)

lemma fetched_invalid [simp]: "fetched a p (mem\<lparr>invalid := b\<rparr>) = fetched a p mem"
  by (simp add: fetched_def)

lemma fetched_get_data:
  "fetched a p mem \<Longrightarrow> own p = own (page_of mem a) \<Longrightarrow> same_page a b \<Longrightarrow> i = page_idx b \<Longrightarrow>
   get_data mem p i = fbyte (view mem) (floc (view mem) b)"
  by (rule get_data_view) (auto simp: fetched_def)

lemma fattr_page: "same_page a b \<Longrightarrow> fattr (view mem) b = get_attr (page_of mem a) (page_idx b)"
  by (simp add: view_def page_of_same_page)

lemma fetched_ok: "fetched a p mem \<Longrightarrow> mem_ok mem"
  by (simp add: fetched_def)

lemma use_byte_view:
  assumes f: "fetched a p mem" and p: "p = page_of mem a" and u: "use_byte perm acc a p mem = (v, mem')"
  shows "flat_use perm acc a (view mem) = (v, view mem')" "mem_ok mem'"
proof -
  have at: "get_attr p (page_idx a) = fattr (view mem) a" by (simp add: p fattr_page [of a a])
  have data: "get_data mem p (page_idx a) = fbyte (view mem) (floc (view mem) a)"
    by (rule fetched_get_data [OF f]) (simp_all add: p)
  note put = fetched_attr [OF f same_page_refl refl] fetched_attr [OF fetched_attr(2) [OF f same_page_refl refl] same_page_refl refl]
  show "flat_use perm acc a (view mem) = (v, view mem')"
    using u by (auto simp: use_byte_def flat_use_def Let_def at data put split: if_splits)
  show "mem_ok mem'"
    using u put fetched_ok [OF f] by (auto simp: use_byte_def Let_def fetched_def split: if_splits)
qed

lemma vm_r_byte_view:
  assumes "mem_ok mem" "vm_r_byte mem a = (v, mem')"
  shows "flat_use X86EMU_PERM_R X86EMU_ACC_R a (view mem) = (v, view mem')" "mem_ok mem'"
proof -
  obtain p mem1 where g: "vm_get_page mem a True = (p, mem1)" by (cases "vm_get_page mem a True")
  note f = vm_get_page_fetched [OF g assms(1)]
  have "use_byte X86EMU_PERM_R X86EMU_ACC_R a p mem1 = (v, mem')" using assms(2) by (simp add: vm_use_byte g)
  from use_byte_view [OF f(1,3) this] show "flat_use X86EMU_PERM_R X86EMU_ACC_R a (view mem) = (v, view mem')" "mem_ok mem'"
    by (simp_all add: f(2))
qed

lemma vm_x_byte_view:
  assumes "mem_ok mem" "vm_x_byte mem a = (v, mem')"
  shows "flat_use X86EMU_PERM_X X86EMU_ACC_X a (view mem) = (v, view mem')" "mem_ok mem'"
proof -
  obtain p mem1 where g: "vm_get_page mem a True = (p, mem1)" by (cases "vm_get_page mem a True")
  note f = vm_get_page_fetched [OF g assms(1)]
  have "use_byte X86EMU_PERM_X X86EMU_ACC_X a p mem1 = (v, mem')" using assms(2) by (simp add: vm_use_byte g)
  from use_byte_view [OF f(1,3) this] show "flat_use X86EMU_PERM_X X86EMU_ACC_X a (view mem) = (v, view mem')" "mem_ok mem'"
    by (simp_all add: f(2))
qed

lemma vm_w_byte_view:
  assumes "mem_ok mem"
  shows "view (vm_w_byte mem a v) = flat_w_byte a (ucast v) (view mem)" "mem_ok (vm_w_byte mem a v)"
proof -
  obtain p mem1 where g: "vm_get_page mem a True = (p, mem1)" by (cases "vm_get_page mem a True")
  note f = vm_get_page_fetched [OF g assms]
  have at: "get_attr p (page_idx a) = fattr (view mem) a" by (simp add: f(3) fattr_page [of a a] flip: f(2))
  note put = fetched_attr [OF f(1) same_page_refl refl]
  note data = fetched_data [OF put(2) same_page_refl refl]
  show "view (vm_w_byte mem a v) = flat_w_byte a (ucast v) (view mem)"
    using f(2) by (simp add: vm_w_byte_def flat_w_byte_def Let_def g at put data or.assoc)
  show "mem_ok (vm_w_byte mem a v)"
    using put(2) [THEN fetched_ok] data(2) [THEN fetched_ok] by (simp add: vm_w_byte_def Let_def g)
qed

section \<open>Words and dwords\<close>

definition flat_or :: "nat \<Rightarrow> u8 \<Rightarrow> u32 \<Rightarrow> flat \<Rightarrow> flat" where
  "flat_or n bits a f =
     fold (\<lambda>k f. f\<lparr>fattr := (fattr f)(a + of_nat k := fattr f (a + of_nat k) OR bits)\<rparr>) [0..<n] f"

lemma put_page_twice: "put_page a g (put_page a h mem) = put_page a (g \<circ> h) mem"
  by (auto simp: put_page_def split: option.splits)

lemma put_page_at: "present_page mem a \<Longrightarrow> g (page_of mem a) = h (page_of mem a) \<Longrightarrow> put_page a g mem = put_page a h mem"
  by (auto simp: put_page_def present_page_def page_of_def)

lemma or_attrs_view:
  assumes f: "fetched a p mem" and n: "page_idx a + n \<le> 4096"
  shows "fetched a p (put_page a (or_attrs n bits (page_idx a)) mem) \<and>
    view (put_page a (or_attrs n bits (page_idx a)) mem) = flat_or n bits a (view mem)"
  using n
proof (induction n)
  case 0
  have "put_page a (or_attrs 0 bits (page_idx a)) mem = mem"
    using f by (auto simp: or_attrs_def fetched_def put_page_def present_page_def fun_upd_idem)
  then show ?case using f by (simp add: flat_or_def)
next
  case (Suc n)
  let ?i = "page_idx a" and ?m = "put_page a (or_attrs n bits (page_idx a)) mem"
  have m: "fetched a p ?m" and v: "view ?m = flat_or n bits a (view mem)" using Suc by simp_all
  have w: "same_page a (a + of_nat n)" "?i + n = page_idx (a + of_nat n)"
    using within_page [of a n] Suc.prems by simp_all
  have pm: "page_of ?m a = or_attrs n bits ?i (page_of mem a)" using f by (simp add: fetched_def put_page)
  have at: "get_attr (or_attrs n bits ?i (page_of mem a)) (?i + n) = fattr (view ?m) (a + of_nat n)"
    by (simp add: pm fattr_page [OF w(1)] flip: w(2))
  have "put_page a (or_attrs (Suc n) bits ?i) mem = put_page a (put_attr (?i + n) (fattr (view ?m) (a + of_nat n) OR bits)) ?m"
    unfolding put_page_twice
    by (rule put_page_at) (use f in \<open>simp_all add: fetched_def or_attrs_def flip: at\<close>)
  then show ?case
    using fetched_attr [OF m w, of "fattr (view ?m) (a + of_nat n) OR bits"]
    by (simp add: flat_or_def v)
qed

lemma perm_bits:
  "at AND X86EMU_PERM_R \<noteq> 0 \<longleftrightarrow> bit at 0" "at AND X86EMU_PERM_W \<noteq> 0 \<longleftrightarrow> bit at 1" "at AND X86EMU_PERM_X \<noteq> 0 \<longleftrightarrow> bit at 2"
  "at AND X86EMU_PERM_VALID \<noteq> 0 \<longleftrightarrow> bit at 3" "at AND X86EMU_ACC_INVALID \<noteq> 0 \<longleftrightarrow> bit at 7"
  "bit X86EMU_PERM_R k \<longleftrightarrow> k = 0" "bit X86EMU_PERM_W k \<longleftrightarrow> k = 1" "bit X86EMU_PERM_X k \<longleftrightarrow> k = 2" "bit X86EMU_PERM_VALID k \<longleftrightarrow> k = 3"
  "bit X86EMU_ACC_R k \<longleftrightarrow> k = 4" "bit X86EMU_ACC_W k \<longleftrightarrow> k = 5" "bit X86EMU_ACC_X k \<longleftrightarrow> k = 6" "bit X86EMU_ACC_INVALID k \<longleftrightarrow> k = 7"
proof -
  have exps: "X86EMU_PERM_R = 2 ^ 0" "X86EMU_PERM_W = 2 ^ 1" "X86EMU_PERM_X = 2 ^ 2" "X86EMU_PERM_VALID = 2 ^ 3"
    "X86EMU_ACC_R = 2 ^ 4" "X86EMU_ACC_W = 2 ^ 5" "X86EMU_ACC_X = 2 ^ 6" "X86EMU_ACC_INVALID = 2 ^ 7"
    by (simp_all add: X86EMU_PERM_R_def X86EMU_PERM_W_def X86EMU_PERM_X_def X86EMU_PERM_VALID_def
        X86EMU_ACC_R_def X86EMU_ACC_W_def X86EMU_ACC_X_def X86EMU_ACC_INVALID_def)
  have one: "n < 8 \<Longrightarrow> bit ((2::u8) ^ n) k \<longleftrightarrow> k = n" for n by (auto simp: bit_exp_iff)
  show "at AND X86EMU_PERM_R \<noteq> 0 \<longleftrightarrow> bit at 0" "at AND X86EMU_PERM_W \<noteq> 0 \<longleftrightarrow> bit at 1" "at AND X86EMU_PERM_X \<noteq> 0 \<longleftrightarrow> bit at 2"
    "at AND X86EMU_PERM_VALID \<noteq> 0 \<longleftrightarrow> bit at 3" "at AND X86EMU_ACC_INVALID \<noteq> 0 \<longleftrightarrow> bit at 7"
    unfolding exps by (simp_all only: and_exp_eq_0_iff_not_bit not_not)
  show "bit X86EMU_PERM_R k \<longleftrightarrow> k = 0" "bit X86EMU_PERM_W k \<longleftrightarrow> k = 1" "bit X86EMU_PERM_X k \<longleftrightarrow> k = 2" "bit X86EMU_PERM_VALID k \<longleftrightarrow> k = 3"
    "bit X86EMU_ACC_R k \<longleftrightarrow> k = 4" "bit X86EMU_ACC_W k \<longleftrightarrow> k = 5" "bit X86EMU_ACC_X k \<longleftrightarrow> k = 6" "bit X86EMU_ACC_INVALID k \<longleftrightarrow> k = 7"
    unfolding exps by (simp_all only: one) 
qed

lemma byte_masks:
  "at AND (X86EMU_PERM_R OR X86EMU_PERM_VALID) = X86EMU_PERM_R OR X86EMU_PERM_VALID \<longleftrightarrow>
   at AND X86EMU_PERM_R \<noteq> 0 \<and> at AND X86EMU_PERM_VALID \<noteq> 0"
  "at AND X86EMU_PERM_W = X86EMU_PERM_W \<longleftrightarrow> at AND X86EMU_PERM_W \<noteq> 0"
proof -
  have mask: "at AND m = m \<longleftrightarrow> (\<forall>k. bit m k \<longrightarrow> bit at k)" for m
    by (metis bit_and_iff bit_word_eqI)
  show "at AND (X86EMU_PERM_R OR X86EMU_PERM_VALID) = X86EMU_PERM_R OR X86EMU_PERM_VALID \<longleftrightarrow>
   at AND X86EMU_PERM_R \<noteq> 0 \<and> at AND X86EMU_PERM_VALID \<noteq> 0"
    unfolding mask bit_or_iff perm_bits by blast
  show "at AND X86EMU_PERM_W = X86EMU_PERM_W \<longleftrightarrow> at AND X86EMU_PERM_W \<noteq> 0"
    unfolding mask perm_bits by blast
qed

lemma flat_use_allowed:
  "fattr f a AND perm \<noteq> 0 \<Longrightarrow> fattr f a AND X86EMU_PERM_VALID \<noteq> 0 \<Longrightarrow>
   flat_use perm acc a f = (ucast (fbyte f (floc f a)), f\<lparr>fattr := (fattr f)(a := fattr f a OR acc)\<rparr>)"
  by (simp add: flat_use_def Let_def)

lemma flat_w_byte_allowed:
  "fattr f a AND X86EMU_PERM_W \<noteq> 0 \<Longrightarrow>
   flat_w_byte a v f = f\<lparr>fattr := (fattr f)(a := fattr f a OR (X86EMU_PERM_VALID OR X86EMU_ACC_W)), fbyte := (fbyte f)(floc f a := v)\<rparr>"
  by (simp add: flat_w_byte_def Let_def or.assoc)

lemma attrs_have_view:
  assumes "page_idx a + n \<le> 4096" "p = page_of mem a"
  shows "attrs_have n bits p (page_idx a) \<longleftrightarrow> (\<forall>k\<in>set [0..<n]. fattr (view mem) (a + of_nat k) AND bits = bits)"
proof -
  have "get_attr p (page_idx a + k) = fattr (view mem) (a + of_nat k)" if "k \<in> set [0..<n]" for k
    using within_page [of a k] fattr_page [of a "a + of_nat k" mem] assms that by simp
  then show ?thesis by (auto simp: attrs_have_def)
qed

lemma four: "(4 :: nat) = Suc (Suc (Suc (Suc 0)))" "(2 :: nat) = Suc (Suc 0)"
  by simp_all

lemma join_bytes:
  fixes b0 b1 b2 b3 :: u8
  shows "(ucast b0 OR push_bit 8 (ucast b1) :: u32) = ucast b0 + 256 * ucast b1"
    "(ucast b0 OR push_bit 8 (ucast b1) OR push_bit 16 (ucast b2) OR push_bit 24 (ucast b3) :: u32) =
     ucast b0 + 256 * (ucast b1 + 256 * (ucast b2 + 256 * ucast b3))"
proof -
  have d: "x OR push_bit n y = x + push_bit n y" if "\<And>k. bit x k \<Longrightarrow> k < n" for x y :: u32 and n
    by (rule disjunctive_add [symmetric]) (auto simp: bit_push_bit_iff dest!: that)
  have b: "bit (ucast b :: u32) k \<Longrightarrow> k < 8" for b :: u8 and k by (auto simp: bit_ucast_iff dest: bit_imp_le_length)
  show "(ucast b0 OR push_bit 8 (ucast b1) :: u32) = ucast b0 + 256 * ucast b1"
    by (subst d) (use b in \<open>auto simp: push_bit_eq_mult\<close>)
  have "(ucast b0 OR push_bit 8 (ucast b1) OR push_bit 16 (ucast b2) OR push_bit 24 (ucast b3) :: u32) =
     ucast b0 OR push_bit 8 (ucast b1 OR push_bit 8 (ucast b2 OR push_bit 8 (ucast b3)))"
    by (simp only: push_bit_or push_bit_push_bit) (simp add: or.assoc)
  also have "\<dots> = ucast b0 + push_bit 8 (ucast b1 + push_bit 8 (ucast b2 + push_bit 8 (ucast b3)))"
    by (simp only: d b)
  finally show "(ucast b0 OR push_bit 8 (ucast b1) OR push_bit 16 (ucast b2) OR push_bit 24 (ucast b3) :: u32) =
     ucast b0 + 256 * (ucast b1 + 256 * (ucast b2 + 256 * ucast b3))"
    by (simp add: push_bit_eq_mult)
qed

lemma upto_4: "[0..<4] = [0, 1, 2, 3]" "[0..<2] = [0, 1::nat]"
  by (simp_all add: upt_rec)

lemma own_or_attrs [simp]: "own (or_attrs n bits i p) = own p"
  by (induction n) (simp_all add: or_attrs_def)

lemma flat_or_other [simp]: "fbyte (flat_or n bits a f) = fbyte f" "floc (flat_or n bits a f) = floc f"
  by (induction n) (simp_all add: flat_or_def)

text \<open>Access to \<open>n\<close> bytes of one page at once, its attributes being updated first.\<close>

lemma fast_access:
  assumes f: "fetched a p mem" and own: "own p = own (page_of mem a)" and n: "page_idx a + n \<le> 4096"
    and m: "m = put_page a (or_attrs n bits (page_idx a)) mem"
  shows "fetched a p m" "view m = flat_or n bits a (view mem)"
    "k < n \<Longrightarrow> get_data m p (page_idx a + k) = fbyte (view mem) (floc (view mem) (a + of_nat k))"
proof -
  show f': "fetched a p m" and v: "view m = flat_or n bits a (view mem)"
    using or_attrs_view [OF f n, of bits] by (simp_all add: m)
  have own': "own p = own (page_of m a)" using f own by (simp add: m fetched_def put_page)
  show "get_data m p (page_idx a + k) = fbyte (view mem) (floc (view mem) (a + of_nat k))" if "k < n"
    using fetched_get_data [OF f' own' within_page(1), of k] within_page(2) [of a k] n that by (simp add: v)
qed

lemma vm_r_word_view:
  assumes ok: "mem_ok mem" and r: "vm_r_word mem a = (v, mem')"
  shows "flat_read X86EMU_PERM_R X86EMU_ACC_R 2 a (view mem) = (v, view mem') \<and> mem_ok mem'"
proof -
  obtain p mem1 where g: "vm_get_page mem a True = (p, mem1)" by (cases "vm_get_page mem a True")
  note f = vm_get_page_fetched [OF g ok]
  show ?thesis
  proof (cases "page_idx a \<ge> 4095 \<or> \<not> attrs_have 2 (X86EMU_PERM_R OR X86EMU_PERM_VALID) p (page_idx a)")
    case True
    obtain v0 m0 v1 m1 where b: "vm_r_byte mem1 a = (v0, m0)" "vm_r_byte m0 (a + 1) = (v1, m1)"
      by (metis surj_pair)
    have res: "v = v0 + push_bit 8 v1" "mem' = m1" using r True by (simp_all add: vm_r_word_def g b)
    note v0 = vm_r_byte_view [OF fetched_ok [OF f(1)] b(1)]
    note v1 = vm_r_byte_view [OF v0(2) b(2)]
    show ?thesis using v0 v1 by (simp add: four f(2) res push_bit_eq_mult)
  next
    case False
    then have len: "page_idx a + 2 \<le> 4096" by simp
    have ok': "\<forall>k\<in>set [0..<2]. fattr (view mem) (a + of_nat k) AND X86EMU_PERM_R \<noteq> 0 \<and>
        fattr (view mem) (a + of_nat k) AND X86EMU_PERM_VALID \<noteq> 0"
      using False by (simp only: attrs_have_view [OF len f(3)] f(2) byte_masks) simp
    have own: "own p = own (page_of mem1 a)" by (simp add: f(3))
    note m = fast_access [OF f(1) own len refl, where bits = X86EMU_ACC_R]
    have d: "get_data (put_page a (or_attrs 2 X86EMU_ACC_R (page_idx a)) mem1) p (page_idx a) = fbyte (view mem) (floc (view mem) (a + of_nat 0))"
      "get_data (put_page a (or_attrs 2 X86EMU_ACC_R (page_idx a)) mem1) p (page_idx a + 1) = fbyte (view mem) (floc (view mem) (a + of_nat 1))"
      using m(3) [of 0] m(3) [of 1] by (simp_all add: f(2))
    have res: "v = ucast (fbyte (view mem) (floc (view mem) a)) OR push_bit 8 (ucast (fbyte (view mem) (floc (view mem) (a + 1))))"
        "mem' = put_page a (or_attrs 2 X86EMU_ACC_R (page_idx a)) mem1"
      using r False d by (auto simp: vm_r_word_def g Let_def)
    show ?thesis
      using ok' fetched_ok [OF m(1)] unfolding res join_bytes m(2) f(2)
      by (simp add: four upto_4 flat_use_allowed) (simp add: flat_or_def upto_4 flip: four)
  qed
qed

lemma vm_r_dword_view:
  assumes ok: "mem_ok mem" and r: "vm_r_dword mem a = (v, mem')"
  shows "flat_read X86EMU_PERM_R X86EMU_ACC_R 4 a (view mem) = (v, view mem') \<and> mem_ok mem'"
proof -
  obtain p mem1 where g: "vm_get_page mem a True = (p, mem1)" by (cases "vm_get_page mem a True")
  note f = vm_get_page_fetched [OF g ok]
  show ?thesis
  proof (cases "page_idx a \<ge> 4093 \<or> \<not> attrs_have 4 (X86EMU_PERM_R OR X86EMU_PERM_VALID) p (page_idx a)")
    case True
    obtain v0 m0 v1 m1 v2 m2 v3 m3 where b: "vm_r_byte mem1 a = (v0, m0)" "vm_r_byte m0 (a + 1) = (v1, m1)"
      "vm_r_byte m1 (a + 2) = (v2, m2)" "vm_r_byte m2 (a + 3) = (v3, m3)"
      by (metis surj_pair)
    have res: "v = v0 + push_bit 8 v1 + push_bit 16 v2 + push_bit 24 v3" "mem' = m3"
      using r True by (simp_all add: vm_r_dword_def g b)
    note v0 = vm_r_byte_view [OF fetched_ok [OF f(1)] b(1)]
    note v1 = vm_r_byte_view [OF v0(2) b(2)]
    note v2 = vm_r_byte_view [OF v1(2) b(3)]
    note v3 = vm_r_byte_view [OF v2(2) b(4)]
    show ?thesis using v0 v1 v2 v3 by (simp add: four f(2) res push_bit_eq_mult add.assoc)
  next
    case False
    then have len: "page_idx a + 4 \<le> 4096" by simp
    have ok': "\<forall>k\<in>set [0..<4]. fattr (view mem) (a + of_nat k) AND X86EMU_PERM_R \<noteq> 0 \<and>
        fattr (view mem) (a + of_nat k) AND X86EMU_PERM_VALID \<noteq> 0"
      using False by (simp only: attrs_have_view [OF len f(3)] f(2) byte_masks) simp
    have own: "own p = own (page_of mem1 a)" by (simp add: f(3))
    note m = fast_access [OF f(1) own len refl, where bits = X86EMU_ACC_R]
    have d: "get_data (put_page a (or_attrs 4 X86EMU_ACC_R (page_idx a)) mem1) p (page_idx a) = fbyte (view mem) (floc (view mem) (a + of_nat 0))"
      "get_data (put_page a (or_attrs 4 X86EMU_ACC_R (page_idx a)) mem1) p (page_idx a + 1) = fbyte (view mem) (floc (view mem) (a + of_nat 1))"
      "get_data (put_page a (or_attrs 4 X86EMU_ACC_R (page_idx a)) mem1) p (page_idx a + 2) = fbyte (view mem) (floc (view mem) (a + of_nat 2))"
      "get_data (put_page a (or_attrs 4 X86EMU_ACC_R (page_idx a)) mem1) p (page_idx a + 3) = fbyte (view mem) (floc (view mem) (a + of_nat 3))"
      using m(3) [of 0] m(3) [of 1] m(3) [of 2] m(3) [of 3] by (simp_all add: f(2))
    have res: "v = ucast (fbyte (view mem) (floc (view mem) a)) OR push_bit 8 (ucast (fbyte (view mem) (floc (view mem) (a + 1))))
          OR push_bit 16 (ucast (fbyte (view mem) (floc (view mem) (a + 2)))) OR push_bit 24 (ucast (fbyte (view mem) (floc (view mem) (a + 3))))"
        "mem' = put_page a (or_attrs 4 X86EMU_ACC_R (page_idx a)) mem1"
      using r False d by (auto simp: vm_r_dword_def g Let_def)
    show ?thesis
      using ok' fetched_ok [OF m(1)] unfolding res join_bytes m(2) f(2)
      by (simp add: four upto_4 flat_use_allowed add.assoc) (simp add: flat_use_allowed flat_or_def upto_4 flip: four)
  qed
qed

lemma vm_x_word_view:
  assumes "mem_ok mem" "vm_x_word mem a = (v, mem')"
  shows "flat_read X86EMU_PERM_X X86EMU_ACC_X 2 a (view mem) = (v, view mem') \<and> mem_ok mem'"
proof -
  obtain v0 m0 v1 m1 where b: "vm_x_byte mem a = (v0, m0)" "vm_x_byte m0 (a + 1) = (v1, m1)"
    by (metis surj_pair)
  note v0 = vm_x_byte_view [OF assms(1) b(1)]
  note v1 = vm_x_byte_view [OF v0(2) b(2)]
  show ?thesis using assms v0 v1 by (auto simp: vm_x_word_def b four push_bit_eq_mult)
qed

lemma flat_read_append:
  "flat_read perm acc (m + n) a f =
   (let (v, f) = flat_read perm acc m a f; (w, f) = flat_read perm acc n (a + of_nat m) f in (v + 256 ^ m * w, f))"
  by (induction m arbitrary: a f) (auto simp: Let_def algebra_simps split: prod.splits)

lemma vm_x_dword_view:
  assumes "mem_ok mem" "vm_x_dword mem a = (v, mem')"
  shows "flat_read X86EMU_PERM_X X86EMU_ACC_X 4 a (view mem) = (v, view mem') \<and> mem_ok mem'"
proof -
  obtain v0 m0 v1 m1 where b: "vm_x_word mem a = (v0, m0)" "vm_x_word m0 (a + 2) = (v1, m1)"
    by (metis surj_pair)
  note v0 = vm_x_word_view [OF assms(1) b(1)]
  note v1 = vm_x_word_view [OF conjunct2 [OF v0] b(2)]
  show ?thesis using assms v0 v1 flat_read_append [of X86EMU_PERM_X X86EMU_ACC_X 2 2 a "view mem"]
    by (auto simp: vm_x_dword_def b push_bit_eq_mult power2_eq_square)
qed

lemma vm_w_word_view:
  assumes ok: "mem_ok mem"
  shows "view (vm_w_word mem a v) = flat_write 2 a v (view mem)" "mem_ok (vm_w_word mem a v)"
proof -
  obtain p mem1 where g: "vm_get_page mem a True = (p, mem1)" by (cases "vm_get_page mem a True")
  note f = vm_get_page_fetched [OF g ok]
  have "view (vm_w_word mem a v) = flat_write 2 a v (view mem) \<and> mem_ok (vm_w_word mem a v)"
  proof (cases "page_idx a \<ge> 4095 \<or> \<not> attrs_have 2 X86EMU_PERM_W p (page_idx a)")
    case True
    then show ?thesis
      by (simp add: vm_w_word_def g four vm_w_byte_view fetched_ok [OF f(1)] f(2))
  next
    case False
    then have len: "page_idx a + 2 \<le> 4096" by simp
    have ok': "\<forall>k\<in>set [0..<2]. fattr (view mem) (a + of_nat k) AND X86EMU_PERM_W \<noteq> 0"
      using False by (simp only: attrs_have_view [OF len f(3)] f(2) byte_masks) simp
    have own: "own p = own (page_of mem1 a)" by (simp add: f(3))
    note m = fast_access [OF f(1) own len refl, where bits = "X86EMU_PERM_VALID OR X86EMU_ACC_W"]
    have w: "same_page a (a + 1)" "page_idx a + 1 = page_idx (a + 1)" using within_page [of a 1] False by simp_all
    note d0 = fetched_data [OF m(1) same_page_refl refl]
    note d1 = fetched_data [OF d0(2) w]
    have res: "vm_w_word mem a v = put_data a p (page_idx a + 1) (ucast (drop_bit 8 v)) (put_data a p (page_idx a) (ucast v)
        (put_page a (or_attrs 2 (X86EMU_PERM_VALID OR X86EMU_ACC_W) (page_idx a)) mem1))"
      using False by (simp add: vm_w_word_def g Let_def)
    show ?thesis
      unfolding res d1(1) d0(1) m(2) f(2) using ok' fetched_ok [OF d1(2)]
      by (simp add: four upto_4 flat_w_byte_allowed) (simp add: flat_or_def upto_4 flip: four)
  qed
  then show "view (vm_w_word mem a v) = flat_write 2 a v (view mem)" "mem_ok (vm_w_word mem a v)" by simp_all
qed

lemma vm_w_dword_view:
  assumes ok: "mem_ok mem"
  shows "view (vm_w_dword mem a v) = flat_write 4 a v (view mem)" "mem_ok (vm_w_dword mem a v)"
proof -
  obtain p mem1 where g: "vm_get_page mem a True = (p, mem1)" by (cases "vm_get_page mem a True")
  note f = vm_get_page_fetched [OF g ok]
  have "view (vm_w_dword mem a v) = flat_write 4 a v (view mem) \<and> mem_ok (vm_w_dword mem a v)"
  proof (cases "page_idx a \<ge> 4093 \<or> \<not> attrs_have 4 X86EMU_PERM_W p (page_idx a)")
    case True
    then show ?thesis
      by (simp add: vm_w_dword_def g four vm_w_byte_view fetched_ok [OF f(1)] f(2) drop_bit_drop_bit add.commute [of 2 a] add.commute [of 3 a])
  next
    case False
    then have len: "page_idx a + 4 \<le> 4096" by simp
    have ok': "\<forall>k\<in>set [0..<4]. fattr (view mem) (a + of_nat k) AND X86EMU_PERM_W \<noteq> 0"
      using False by (simp only: attrs_have_view [OF len f(3)] f(2) byte_masks) simp
    have own: "own p = own (page_of mem1 a)" by (simp add: f(3))
    note m = fast_access [OF f(1) own len refl, where bits = "X86EMU_PERM_VALID OR X86EMU_ACC_W"]
    have w: "same_page a (a + 1)" "page_idx a + 1 = page_idx (a + 1)" "same_page a (a + 2)" "page_idx a + 2 = page_idx (a + 2)"
      "same_page a (a + 3)" "page_idx a + 3 = page_idx (a + 3)"
      using within_page [of a 1] within_page [of a 2] within_page [of a 3] False by simp_all
    note d0 = fetched_data [OF m(1) same_page_refl refl]
    note d1 = fetched_data [OF d0(2) w(1,2)]
    note d2 = fetched_data [OF d1(2) w(3,4)]
    note d3 = fetched_data [OF d2(2) w(5,6)]
    have res: "vm_w_dword mem a v = put_data a p (page_idx a + 3) (ucast (drop_bit 24 v))
       (put_data a p (page_idx a + 2) (ucast (drop_bit 16 v))
       (put_data a p (page_idx a + 1) (ucast (drop_bit 8 v)) (put_data a p (page_idx a) (ucast v)
        (put_page a (or_attrs 4 (X86EMU_PERM_VALID OR X86EMU_ACC_W) (page_idx a)) mem1))))"
      using False by (simp add: vm_w_dword_def g Let_def)
    show ?thesis
      unfolding res d3(1) d2(1) d1(1) d0(1) m(2) f(2) using ok' fetched_ok [OF d3(2)]
      by (simp add: four upto_4 flat_w_byte_allowed drop_bit_drop_bit add.commute [of 2 a] add.commute [of 3 a])
        (simp add: flat_w_byte_allowed flat_or_def upto_4 flip: four)
  qed
  then show "view (vm_w_dword mem a v) = flat_write 4 a v (view mem)" "mem_ok (vm_w_dword mem a v)" by simp_all
qed

lemma emu_mem_new_view: "mem_ok (emu_mem_new perm h)" "view (emu_mem_new perm h) =
    \<lparr>fattr = (\<lambda>_. perm), floc = Own_byte, fbyte = (\<lambda>l. case l of Own_byte _ \<Rightarrow> 0 | Host_byte a \<Rightarrow> h a), finvalid = False\<rparr>"
  by (auto simp: mem_ok_def view_def emu_mem_new_def page_of_def no_page_def get_attr_def fun_eq_iff split: loc.splits)

end
