(* ===== verification/X86emu_Mem_Perm.thy ===== *)
theory X86emu_Mem_Perm
  imports X86emu_Mem_Spec
begin

text \<open>
  Setting permissions and redirecting pages, on the flat view: \<open>x86emu_set_perm\<close> cuts its range into the rest
  of a page, whole pages and the beginning of a page; the lemmas follow the three loops and put the
  parts together again.
\<close>

section \<open>Permissions and redirected pages\<close>

lemma view_put_attrs:
  assumes "present_page mem a" "\<And>p. own (g p) = own p" "\<And>p. page_data (g p) = page_data p"
    "\<And>p. attr (g p) = None \<longleftrightarrow> attr p = None"
  shows "view (put_page a g mem) = view mem\<lparr>fattr := \<lambda>b. if same_page a b then get_attr (g (page_of mem a)) (page_idx b)
     else fattr (view mem) b\<rparr>"
    "mem_ok mem \<Longrightarrow> mem_ok (put_page a g mem)"
proof -
  have page: "own (page_of (put_page a g mem) b) = own (page_of mem b)"
    "page_data (page_of (put_page a g mem) b) = page_data (page_of mem b)"
    "attr (page_of (put_page a g mem) b) = None \<longleftrightarrow> attr (page_of mem b) = None" for b
    using assms by (simp_all add: put_page page_of_same_page)
  show "mem_ok mem \<Longrightarrow> mem_ok (put_page a g mem)" by (simp add: mem_ok_def page)
  have "floc (view (put_page a g mem)) = floc (view mem)" "fbyte (view (put_page a g mem)) = fbyte (view mem)"
    by (auto simp: view_def page put_page(4) [OF assms(1)] fun_eq_iff split: loc.splits)
  moreover have "fattr (view (put_page a g mem)) b
      = (if same_page a b then get_attr (g (page_of mem a)) (page_idx b) else fattr (view mem) b)" for b
    by (simp add: view_def put_page(1) [OF assms(1)])
  moreover have "finvalid (view (put_page a g mem)) = finvalid (view mem)" by (simp add: view_def put_page(3) [OF assms(1)])
  ultimately show "view (put_page a g mem) = view mem\<lparr>fattr := \<lambda>b. if same_page a b then get_attr (g (page_of mem a)) (page_idx b)
     else fattr (view mem) b\<rparr>" by (auto intro!: flat.equality)
qed

definition flat_set_perm :: "nat \<Rightarrow> nat \<Rightarrow> u8 \<Rightarrow> flat \<Rightarrow> flat" where
  "flat_set_perm lo hi perm f = f\<lparr>fattr := \<lambda>b. if lo \<le> unat b \<and> unat b < hi then perm else fattr f b\<rparr>"

lemma flat_set_perm_join:
  "lo \<le> mid \<Longrightarrow> mid \<le> hi \<Longrightarrow> flat_set_perm mid hi perm (flat_set_perm lo mid perm f) = flat_set_perm lo hi perm f"
  by (auto simp: flat_set_perm_def fun_eq_iff)

lemma flat_set_perm_empty [simp]: "hi \<le> lo \<Longrightarrow> flat_set_perm lo hi perm f = f"
  by (rule flat.equality) (auto simp: flat_set_perm_def fun_eq_iff)

lemma put_attrs_page:
  "own (fold (\<lambda>k. put_attr k perm) ks p) = own p" "page_data (fold (\<lambda>k. put_attr k perm) ks p) = page_data p"
  "attr (fold (\<lambda>k. put_attr k perm) ks p) = None \<longleftrightarrow> attr p = None"
  "attr p \<noteq> None \<Longrightarrow> get_attr (fold (\<lambda>k. put_attr k perm) ks p) i = (if i \<in> set ks then perm else get_attr p i)"
  by (induction ks arbitrary: p) (auto simp: get_attr_def put_attr_def split: option.splits)

lemma put_attrs_view:
  assumes f: "fetched a p mem" and i: "page_idx a = i" and j: "i \<le> j" "j \<le> 4096"
    and hi: "hi = unat a + (j - i)"
  shows "view (put_page a (fold (\<lambda>k. put_attr k perm) [i..<j]) mem) = flat_set_perm (unat a) hi perm (view mem)"
    "mem_ok (put_page a (fold (\<lambda>k. put_attr k perm) [i..<j]) mem)"
proof -
  have m: "present_page mem a" "attr (page_of mem a) \<noteq> None" "mem_ok mem" using f by (simp_all add: fetched_def)
  note v = view_put_attrs [OF m(1), of "fold (\<lambda>k. put_attr k perm) [i..<j]", OF put_attrs_page(1-3)]
  show "mem_ok (put_page a (fold (\<lambda>k. put_attr k perm) [i..<j]) mem)" by (rule v(2) [OF m(3)])
  have a: "unat a = unat a div 4096 * 4096 + i" using i div_mult_mod_eq [of "unat a" 4096] by (simp add: page_idx_mod)
  have range: "i \<le> page_idx b \<and> page_idx b < j \<and> same_page a b \<longleftrightarrow> unat a \<le> unat b \<and> unat b < hi" for b
  proof
    assume h: "i \<le> page_idx b \<and> page_idx b < j \<and> same_page a b"
    have "unat b = unat a div 4096 * 4096 + page_idx b" using h by (simp add: page_idx_mod same_page_div)
    then show "unat a \<le> unat b \<and> unat b < hi" using h a j hi by linarith
  next
    assume h: "unat a \<le> unat b \<and> unat b < hi"
    define d where "d = unat b - unat a"
    have d: "b = a + of_nat d" "d < j - i" unfolding d_def using h hi by (simp add: of_nat_diff, linarith)
    then show "i \<le> page_idx b \<and> page_idx b < j \<and> same_page a b" using within_page [of a d] i j by auto
  qed
  have "(if same_page a b then get_attr (fold (\<lambda>k. put_attr k perm) [i..<j] (page_of mem a)) (page_idx b) else fattr (view mem) b)
      = (if unat a \<le> unat b \<and> unat b < hi then perm else fattr (view mem) b)" for b
    using range [of b] put_attrs_page(4) [OF m(2), of perm "[i..<j]" "page_idx b"] by (auto simp: fattr_page)
  then show "view (put_page a (fold (\<lambda>k. put_attr k perm) [i..<j]) mem) = flat_set_perm (unat a) hi perm (view mem)"
    unfolding v(1) flat_set_perm_def by presburger
qed

lemma set_perm_head_run:
  "i + n \<le> 4096 \<Longrightarrow> unat start + n \<le> unat limit + 1 \<Longrightarrow>
   set_perm_head i start limit perm p
   = set_perm_head (i + n) (start + of_nat n) limit perm (fold (\<lambda>k. put_attr k perm) [i..<i + n] p)"
proof (induction n)
  case (Suc n)
  have "unat start + n < 2 ^ 32" using Suc.prems unsigned_less [of limit, where 'a = nat] by simp
  then have "unat (start + of_nat n) = unat start + n"
    by (simp add: unat_word_ariths unsigned_of_nat take_bit_eq_mod)
  then have "start + of_nat n \<le> limit" using Suc.prems by (simp add: word_le_nat_alt)
  then show ?case using Suc by (simp add: set_perm_head.simps [of "i + n"] ac_simps del: set_perm_head.simps)
qed (simp del: set_perm_head.simps)

lemma set_perm_head_view:
  assumes f: "fetched a p mem" and p: "p = page_of mem a" and i: "i = page_idx a" and le: "a \<le> limit"
    and h: "set_perm_head i a limit perm p = (q, stop)"
  shows "mem_ok (put_page a (\<lambda>_. q) mem)"
    "stop = 0 \<or> stop > limit \<Longrightarrow> view (put_page a (\<lambda>_. q) mem) = flat_set_perm (unat a) (unat limit + 1) perm (view mem)"
    "\<not> (stop = 0 \<or> stop > limit) \<Longrightarrow> view (put_page a (\<lambda>_. q) mem) = flat_set_perm (unat a) (unat stop) perm (view mem)
       \<and> unat a < unat stop \<and> page_idx stop = 0"
proof -
  define n where "n = min (4096 - i) (unat limit - unat a + 1)"
  have le': "unat a \<le> unat limit" using le by (simp add: word_le_nat_alt)
  have i': "i < 4096" by (simp add: i)
  have n: "i + n \<le> 4096" "unat a + n \<le> unat limit + 1" "0 < n" using le' i' by (auto simp: n_def)
  have L: "unat limit < 2 ^ 32" using unsigned_less [of limit, where 'a = nat] by simp
  have end_cases: "i + n = 4096 \<or> unat a + n = unat limit + 1" using i' le' by (auto simp: n_def min_def)
  have a: "unat a = unat a div 4096 * 4096 + i" using i div_mult_mod_eq [of "unat a" 4096] by (simp add: page_idx_mod)
  have next_word: "unat (a + of_nat n) = (unat a + n) mod 2 ^ 32"
    by (simp add: unat_word_ariths unsigned_of_nat take_bit_eq_mod mod_simps)
  have wrap: "a + of_nat n = 0 \<longleftrightarrow> unat a + n = 2 ^ 32"
  proof -
    have "a + of_nat n = 0 \<longleftrightarrow> (unat a + n) mod 2 ^ 32 = 0" using next_word by (metis unat_eq_zero)
    moreover have "0 < unat a + n \<and> unat a + n \<le> 2 ^ 32" using n L by simp
    ultimately show ?thesis by (auto simp: mod_eq_0_iff_dvd dest: dvd_imp_le)
  qed
  have beyond: "a + of_nat n \<noteq> 0 \<Longrightarrow> unat (a + of_nat n) = unat a + n"
    using wrap next_word n L by (simp add: mod_less)
  have full: "unat a + n = 2 ^ 32 \<Longrightarrow> i + n = 4096"
  proof -
    assume e: "unat a + n = 2 ^ 32"
    have "(unat a + n) mod 4096 = (i + n) mod 4096" by (subst a) (simp add: add.assoc)
    then have "(i + n) mod 4096 = 0" by (simp add: e)
    then show "i + n = 4096" using n by (auto simp: mod_eq_0_iff_dvd dest: dvd_imp_le)
  qed
  have stops: "\<not> (i + n < 4096 \<and> a + of_nat n \<le> limit)"
  proof
    assume s: "i + n < 4096 \<and> a + of_nat n \<le> limit"
    then have e: "unat a + n = unat limit + 1" using end_cases by simp
    have "a + of_nat n \<noteq> 0" using full wrap s by auto
    then show False using beyond s e by (simp add: word_le_nat_alt)
  qed
  have q: "q = fold (\<lambda>k. put_attr k perm) [i..<i + n] p" "stop = a + of_nat n"
    using h set_perm_head_run [OF n(1,2), of perm p] stops by (auto simp: set_perm_head.simps [of "i + n"] simp del: set_perm_head.simps)
  have put: "put_page a (\<lambda>_. q) mem = put_page a (fold (\<lambda>k. put_attr k perm) [i..<i + n]) mem"
    by (rule put_page_at) (use f in \<open>simp_all add: fetched_def q p\<close>)
  note v = put_attrs_view [OF f i [symmetric] _ n(1), of "unat a + n" perm]
  show "mem_ok (put_page a (\<lambda>_. q) mem)" unfolding put by (rule v(2)) simp_all
  have view: "view (put_page a (\<lambda>_. q) mem) = flat_set_perm (unat a) (unat a + n) perm (view mem)"
    unfolding put by (rule v(1)) simp_all
  show "view (put_page a (\<lambda>_. q) mem) = flat_set_perm (unat a) (unat limit + 1) perm (view mem)" if "stop = 0 \<or> stop > limit"
  proof -
    have "unat a + n = unat limit + 1" using that wrap beyond n L by (auto simp: q word_less_nat_alt)
    then show ?thesis by (simp add: view)
  qed
  show "view (put_page a (\<lambda>_. q) mem) = flat_set_perm (unat a) (unat stop) perm (view mem)
       \<and> unat a < unat stop \<and> page_idx stop = 0" if s: "\<not> (stop = 0 \<or> stop > limit)"
  proof -
    have b: "unat stop = unat a + n" using s beyond by (simp add: q)
    have "i + n = 4096" using end_cases b s by (auto simp: word_less_nat_alt)
    then have "unat a + n = (unat a div 4096 + 1) * 4096" using a by simp
    then show ?thesis using b n by (simp add: view page_idx_mod)
  qed
qed

lemma set_def_attr_view:
  assumes ok: "mem_ok mem" and al: "page_idx a = 0"
    and m: "m = put_page a (set_def_attr perm) (snd (vm_get_page mem a False))"
  shows "mem_ok m" "view m = flat_set_perm (unat a) (unat a + 4096) perm (view mem)"
proof -
  obtain p mem1 where g: "vm_get_page mem a False = (p, mem1)" by (cases "vm_get_page mem a False")
  note f = vm_get_page_invisible [OF g ok]
  have same: "own (set_def_attr perm p) = own p" "page_data (set_def_attr perm p) = page_data p"
    "attr (set_def_attr perm p) = None \<longleftrightarrow> attr p = None" for p by (simp_all add: set_def_attr_def)
  note v = view_put_attrs [OF f(3), of "set_def_attr perm", OF same]
  show "mem_ok m" unfolding m g snd_conv by (rule v(2) [OF f(2)])
  have "unat a = unat a div 4096 * 4096" using al div_mult_mod_eq [of "unat a" 4096] by (simp add: page_idx_mod)
  then have "same_page a b \<longleftrightarrow> unat a \<le> unat b \<and> unat b < unat a + 4096" for b
    using div_mult_mod_eq [of "unat b" 4096] by (auto simp: same_page_div div_nat_eqI)
  moreover have "get_attr (set_def_attr perm p) i = perm" for p i
    by (simp add: set_def_attr_def get_attr_def split: option.splits)
  ultimately show "view m = flat_set_perm (unat a) (unat a + 4096) perm (view mem)"
    unfolding m g snd_conv v(1) f(1) flat_set_perm_def by (simp cong: if_cong)
qed

declare set_perm_pages.simps [simp del] set_perm_head.simps [simp del]

lemma set_perm_pages_view:
  assumes "set_perm_pages a limit perm mem = (mem', r)" "mem_ok mem" "page_idx a = 0" "a \<noteq> 0" "a \<le> limit"
  shows "mem_ok mem' \<and> (\<exists>stop. r = Some stop \<and>
    (if stop = 0 \<or> stop > limit then view mem' = flat_set_perm (unat a) (unat limit + 1) perm (view mem) \<and> (stop = 0 \<longrightarrow> limit = - 1)
     else view mem' = flat_set_perm (unat a) (unat stop) perm (view mem) \<and> a \<le> stop \<and> page_idx stop = 0 \<and>
          unat limit + 1 - unat stop < 4096))"
  using assms
proof (induction a limit perm mem arbitrary: mem' r rule: set_perm_pages.induct)
  case (1 a limit perm mem)
  let ?m = "put_page a (set_def_attr perm) (snd (vm_get_page mem a False))"
  note m = set_def_attr_view [OF 1(3,4) refl, of perm]
  have le: "unat a \<le> unat limit" using 1(6) by (simp add: word_le_nat_alt)
  have L: "unat limit < 2 ^ 32" using unsigned_less [of limit, where 'a = nat] by simp
  have diff: "unat (limit - a) = unat limit - unat a" using 1(6) by (rule unat_sub)
  have a: "unat a = unat a div 4096 * 4096" using 1(4) div_mult_mod_eq [of "unat a" 4096] by (simp add: page_idx_mod)
  have next_word: "unat (a + X86EMU_PAGE_SIZE) = (unat a + 4096) mod 2 ^ 32"
    by (simp add: unat_word_ariths X86EMU_PAGE_SIZE_def)
  show ?case
  proof (cases "X86EMU_PAGE_SIZE - 1 \<le> limit - a")
    case False
    then have "unat limit - unat a < 4095" by (simp add: word_le_nat_alt diff X86EMU_PAGE_SIZE_def)
    then show ?thesis using 1 False le by (auto simp: set_perm_pages.simps [of a] word_less_nat_alt)
  next
    case more: True
    then have ge: "unat a + 4095 \<le> unat limit" using le by (simp add: word_le_nat_alt diff X86EMU_PAGE_SIZE_def)
    show ?thesis
    proof (cases "limit - a = X86EMU_PAGE_SIZE - 1")
      case True
      then have "unat limit - unat a = 4095" using diff by (simp add: X86EMU_PAGE_SIZE_def)
      then have e: "unat limit + 1 = unat a + 4096" using ge by simp
      have r: "mem' = ?m" "r = Some (a + X86EMU_PAGE_SIZE)" using 1(2,5) more True by (auto simp: set_perm_pages.simps [of a] Let_def)
      have stop: "a + X86EMU_PAGE_SIZE = 0 \<or> a + X86EMU_PAGE_SIZE > limit" "a + X86EMU_PAGE_SIZE = 0 \<longrightarrow> limit = - 1"
      proof -
        have "a + X86EMU_PAGE_SIZE = limit + 1" using True by (simp add: X86EMU_PAGE_SIZE_def algebra_simps)
        moreover have "limit + 1 = 0 \<or> limit < limit + 1"
        proof (cases "unat limit + 1 = 2 ^ 32")
          case True
          then have "unat (limit + 1) = 0" by (simp add: unat_word_ariths)
          then show ?thesis by (simp only: unat_eq_zero) simp
        next
          case False
          then show ?thesis using L by (simp add: word_less_nat_alt unat_word_ariths)
        qed
        ultimately show "a + X86EMU_PAGE_SIZE = 0 \<or> a + X86EMU_PAGE_SIZE > limit" "a + X86EMU_PAGE_SIZE = 0 \<longrightarrow> limit = - 1"
          by (auto simp: eq_neg_iff_add_eq_0)
      qed
      then show ?thesis using m e by (simp add: r add.commute)
    next
      case False
      have ne: "unat limit - unat a \<noteq> 4095"
      proof
        assume "unat limit - unat a = 4095"
        then have "unat (limit - a) = unat (X86EMU_PAGE_SIZE - 1)" by (simp add: diff X86EMU_PAGE_SIZE_def)
        then show False using False by (simp only: word_unat_eq_iff)
      qed
      then have gt: "unat a + 4096 \<le> unat limit" using ge by linarith
      then have nw: "unat (a + X86EMU_PAGE_SIZE) = unat a + 4096" using next_word L by simp
      have step: "set_perm_pages (a + X86EMU_PAGE_SIZE) limit perm ?m = (mem', r)"
        using 1(2,5) more False by (simp add: set_perm_pages.simps [of a] Let_def)
      have "page_idx (a + X86EMU_PAGE_SIZE) = 0" "a + X86EMU_PAGE_SIZE \<noteq> 0" "a + X86EMU_PAGE_SIZE \<le> limit"
        using nw gt 1(4) by (auto simp: page_idx_mod word_le_nat_alt)
      note IH = 1(1) [OF more refl 1(5) False step m(1) this]
      have sub: "a \<le> stop" if "a + X86EMU_PAGE_SIZE \<le> stop" for stop using that nw by (simp add: word_le_nat_alt)
      from IH obtain stop where r: "r = Some stop" and ok: "mem_ok mem'" and c:
        "(if stop = 0 \<or> stop > limit then view mem' = flat_set_perm (unat a + 4096) (unat limit + 1) perm (view ?m) \<and> (stop = 0 \<longrightarrow> limit = - 1)
     else view mem' = flat_set_perm (unat a + 4096) (unat stop) perm (view ?m) \<and> a + X86EMU_PAGE_SIZE \<le> stop \<and> page_idx stop = 0 \<and>
          unat limit + 1 - unat stop < 4096)" unfolding nw by blast
      show ?thesis
      proof (cases "stop = 0 \<or> stop > limit")
        case True
        then show ?thesis using c ok gt unfolding r m(2) by (simp add: flat_set_perm_join)
      next
        case False
        then have s: "a + X86EMU_PAGE_SIZE \<le> stop" "page_idx stop = 0" "unat limit + 1 - unat stop < 4096"
          "view mem' = flat_set_perm (unat a + 4096) (unat stop) perm (view ?m)" using c by simp_all
        have "unat a + 4096 \<le> unat stop" using s(1) by (simp add: word_le_nat_alt nw)
        then have "view mem' = flat_set_perm (unat a) (unat stop) perm (view mem)"
          unfolding s(4) m(2) by (simp add: flat_set_perm_join)
        then show ?thesis using False ok s sub [OF s(1)] by (simp add: r)
      qed
    qed
  qed
qed

lemma set_perm_tail_view:
  assumes ok: "mem_ok mem" and al: "page_idx a = 0" and le: "a \<le> limit" and n: "unat limit + 1 - unat a < 4096"
    and m: "m = put_page a (set_perm_tail (unat (limit - a + 1)) perm) (snd (vm_get_page mem a True))"
  shows "mem_ok m" "view m = flat_set_perm (unat a) (unat limit + 1) perm (view mem)"
proof -
  obtain p mem1 where g: "vm_get_page mem a True = (p, mem1)" by (cases "vm_get_page mem a True")
  note f = vm_get_page_fetched [OF g ok]
  have le': "unat a \<le> unat limit" using le by (simp add: word_le_nat_alt)
  have "unat (limit - a) = unat limit - unat a" using le by (rule unat_sub)
  then have len: "unat (limit - a + 1) = unat limit + 1 - unat a"
    using n le' by (simp add: unat_word_ariths)
  note v = put_attrs_view [OF f(1) al le0 less_imp_le [OF n], of "unat limit + 1" perm]
  show "mem_ok m" "view m = flat_set_perm (unat a) (unat limit + 1) perm (view mem)"
    using v le' unfolding m g snd_conv set_perm_tail_def len f(2) by simp_all
qed

definition set_perm_rest :: "u32 \<Rightarrow> u32 \<Rightarrow> u8 \<Rightarrow> x86emu_mem_t \<Rightarrow> x86emu_mem_t" where
  "set_perm_rest start limit perm mem =
     (case set_perm_pages start limit perm mem of
        (mem, None) \<Rightarrow> mem
      | (mem, Some start) \<Rightarrow>
          if start > limit then mem
          else put_page start (set_perm_tail (unat (limit - start + 1)) perm) (snd (vm_get_page mem start True)))"

lemma set_perm_rest_view:
  assumes ok: "mem_ok mem" and al: "page_idx a = 0" and nz: "a \<noteq> 0" and le: "a \<le> limit"
  shows "mem_ok (set_perm_rest a limit perm mem) \<and>
    view (set_perm_rest a limit perm mem) = flat_set_perm (unat a) (unat limit + 1) perm (view mem)"
proof -
  obtain mem1 r where p: "set_perm_pages a limit perm mem = (mem1, r)" by (cases "set_perm_pages a limit perm mem")
  from set_perm_pages_view [OF p ok al nz le] obtain stop where r: "r = Some stop" and ok1: "mem_ok mem1" and c:
    "(if stop = 0 \<or> stop > limit then view mem1 = flat_set_perm (unat a) (unat limit + 1) perm (view mem) \<and> (stop = 0 \<longrightarrow> limit = - 1)
     else view mem1 = flat_set_perm (unat a) (unat stop) perm (view mem) \<and> a \<le> stop \<and> page_idx stop = 0 \<and>
          unat limit + 1 - unat stop < 4096)" by blast
  consider "stop > limit" | "stop = 0" | "stop \<noteq> 0" "stop \<le> limit" by force
  then show ?thesis
  proof cases
    case 1
    then show ?thesis using c ok1 by (simp add: set_perm_rest_def p r)
  next
    case 2
    then have e: "limit = - 1" and v: "view mem1 = flat_set_perm (unat a) (unat limit + 1) perm (view mem)" using c by simp_all
    obtain q mem2 where g: "vm_get_page mem1 0 True = (q, mem2)" by (cases "vm_get_page mem1 0 True")
    note f = vm_get_page_fetched [OF g ok1]
    note w = put_attrs_view [OF f(1), of 0 0 0 perm]
    have "set_perm_rest a limit perm mem = (if 0 > limit then mem1
        else put_page 0 (set_perm_tail (unat (limit - 0 + 1)) perm) (snd (vm_get_page mem1 0 True)))"
      by (simp add: set_perm_rest_def p r 2)
    then have "set_perm_rest a limit perm mem = put_page 0 (fold (\<lambda>k. put_attr k perm) [0..<0]) mem2"
      by (simp add: e g set_perm_tail_def [abs_def] id_def)
    then show ?thesis using w v f(2) by (simp add: page_idx_mod)
  next
    case 3
    then have s: "view mem1 = flat_set_perm (unat a) (unat stop) perm (view mem)" "a \<le> stop" "page_idx stop = 0"
      "unat limit + 1 - unat stop < 4096" using c by (simp_all add: not_less del: add_Suc_right Suc_eq_plus1 One_nat_def)
    note v = set_perm_tail_view [OF ok1 s(3) 3(2) s(4) refl, of perm]
    have "unat a \<le> unat stop" "unat stop \<le> unat limit + 1" using s(2) 3(2) by (simp_all add: word_le_nat_alt)
    then show ?thesis using v 3(2) ok1 by (simp add: set_perm_rest_def p r s(1) flat_set_perm_join)
  qed
qed

lemma x86emu_set_perm_view:
  assumes ok: "mem_ok mem"
  shows "mem_ok (x86emu_set_perm start limit perm mem) \<and> view (x86emu_set_perm start limit perm mem) =
    flat_set_perm (unat start) (if start = 0 \<and> 0xFFF \<le> limit then 4096 else if start \<le> limit then unat limit + 1 else 0)
      (ucast perm) (view mem)"
proof -
  have unfolded: "x86emu_set_perm start limit perm mem =
     (if start > limit then mem
      else let i = page_idx start;
               (mem, start') =
                 (if i \<noteq> 0 then
                    let (page, mem) = vm_get_page mem start True;
                        (page, start') = set_perm_head i start limit (ucast perm) page
                    in (put_page start (\<lambda>_. page) mem, start')
                  else (mem, start))
           in if i \<noteq> 0 \<and> (start' = 0 \<or> start' > limit) then mem else set_perm_rest start' limit (ucast perm) mem)"
    by (simp only: x86emu_set_perm_def set_perm_rest_def Let_def)
  consider "start > limit" | "start \<le> limit" "page_idx start \<noteq> 0" | "start \<le> limit" "page_idx start = 0" "start \<noteq> 0"
    | "start = 0" "limit < 0xFFF" | "start = 0" "0xFFF \<le> limit" by force
  then show ?thesis
  proof cases
    case 1
    then show ?thesis using ok by (auto simp: unfolded word_less_nat_alt)
  next
    case 2
    obtain p mem1 where g: "vm_get_page mem start True = (p, mem1)" by (cases "vm_get_page mem start True")
    note f = vm_get_page_fetched [OF g ok]
    obtain q stop where h: "set_perm_head (page_idx start) start limit (ucast perm) p = (q, stop)"
      by (cases "set_perm_head (page_idx start) start limit (ucast perm) p")
    note v = set_perm_head_view [OF f(1,3) refl 2(1) h]
    have nz: "start \<noteq> 0" using 2 by (auto simp: page_idx_mod)
    show ?thesis
    proof (cases "stop = 0 \<or> stop > limit")
      case True
      then show ?thesis using v(1) v(2) [OF True] 2 nz ok by (simp add: unfolded g h f(2))
    next
      case False
      note w = set_perm_rest_view [OF v(1), of stop limit "ucast perm"]
      have "stop \<le> limit" "unat stop \<le> unat limit + 1" using False by (simp_all add: word_le_nat_alt not_less)
      then show ?thesis using v(3) [OF False] w False 2 nz ok by (simp add: unfolded g h f(2) flat_set_perm_join)
    qed
  next
    case 3
    then show ?thesis using ok set_perm_rest_view [OF ok 3(2,3,1), of "ucast perm"] by (simp add: unfolded Let_def)
  next
    case 4
    then have "unat limit < 4095" by (simp add: word_less_nat_alt)
    then have "set_perm_rest start limit (ucast perm) mem
        = put_page start (set_perm_tail (unat (limit - start + 1)) (ucast perm)) (snd (vm_get_page mem start True))"
      using 4 by (simp add: set_perm_rest_def set_perm_pages.simps X86EMU_PAGE_SIZE_def)
    moreover have "x86emu_set_perm start limit perm mem = set_perm_rest start limit (ucast perm) mem"
      unfolding unfolded using 4 by (simp add: page_idx_mod)
    ultimately show ?thesis
      using set_perm_tail_view [OF ok, of start limit _ "ucast perm"] 4 \<open>unat limit < 4095\<close> by (simp add: page_idx_mod)
  next
    case 5
    then have "set_perm_rest start limit (ucast perm) mem
        = put_page start (set_def_attr (ucast perm)) (snd (vm_get_page mem start False))"
      by (simp add: set_perm_rest_def set_perm_pages.simps [of 0] Let_def X86EMU_PAGE_SIZE_def)
    moreover have "x86emu_set_perm start limit perm mem = set_perm_rest start limit (ucast perm) mem"
      unfolding unfolded using 5 by (simp add: page_idx_mod)
    ultimately show ?thesis
      using set_def_attr_view [OF ok, of start _ "ucast perm"] 5 by (simp add: page_idx_mod)
  qed
qed

lemma x86emu_set_page_view:
  assumes ok: "mem_ok mem"
  shows "mem_ok (x86emu_set_page a h mem)"
    "view (x86emu_set_page a h mem) = view mem
      \<lparr>floc := \<lambda>b. if same_page a b then (case h of None \<Rightarrow> Own_byte b | Some h \<Rightarrow> Host_byte (h + of_nat (page_idx b))) else floc (view mem) b,
       fattr := \<lambda>b. if same_page a b \<and> h \<noteq> None then fattr (view mem) b OR X86EMU_PERM_VALID else fattr (view mem) b\<rparr>"
proof -
  obtain p mem1 where g: "vm_get_page mem a True = (p, mem1)" by (cases "vm_get_page mem a True")
  note f = vm_get_page_fetched [OF g ok]
  have m: "present_page mem1 a" "attr (page_of mem1 a) \<noteq> None" "mem_ok mem1" using f by (simp_all add: fetched_def)
  define change :: "mem2_page_t \<Rightarrow> mem2_page_t" where "change = (\<lambda>p. case h of
      Some h \<Rightarrow> p\<lparr>page_data := Host_data h, attr := map_option (\<lambda>a i. if i < 4096 then a i OR X86EMU_PERM_VALID else a i) (attr p)\<rparr>
    | None \<Rightarrow> p\<lparr>page_data := Own_data\<rparr>)"
  have eq: "x86emu_set_page a h mem = put_page a change mem1"
    by (cases h) (simp_all add: x86emu_set_page_def g change_def)
  have new: "own (change p) = own p" "attr (change p) = None \<longleftrightarrow> attr p = None"
    "page_data (change p) = (case h of None \<Rightarrow> Own_data | Some h \<Rightarrow> Host_data h)"
    "i < 4096 \<Longrightarrow> attr p \<noteq> None \<Longrightarrow> get_attr (change p) i = (if h \<noteq> None then get_attr p i OR X86EMU_PERM_VALID else get_attr p i)" for p i
    by (auto simp: change_def get_attr_def split: option.splits)
  note put = put_page [OF m(1), of change]
  have nd: "page_data (page_of mem1 a) \<noteq> No_data" using m(2,3) by (metis mem_ok_def)
  show "mem_ok (x86emu_set_page a h mem)"
    unfolding eq mem_ok_def
  proof
    fix b
    show "attr (page_of (put_page a change mem1) b) = None \<longleftrightarrow> page_data (page_of (put_page a change mem1) b) = No_data"
      using m(2,3) nd by (cases "same_page a b") (auto simp: put new mem_ok_def split: option.splits)
  qed
  have "floc (view (put_page a change mem1)) b = (if same_page a b
      then (case h of None \<Rightarrow> Own_byte b | Some h \<Rightarrow> Host_byte (h + of_nat (page_idx b))) else floc (view mem1) b)" for b
    by (auto simp: view_def put new split: option.splits)
  moreover have "fattr (view (put_page a change mem1)) b =
     (if same_page a b \<and> h \<noteq> None then fattr (view mem1) b OR X86EMU_PERM_VALID else fattr (view mem1) b)" for b
    using new(4) [OF page_idx_less m(2)] by (simp add: view_def put page_of_same_page)
  moreover have "fbyte (view (put_page a change mem1)) l = fbyte (view mem1) l" for l
  proof -
    have page: "own (page_of (put_page a change mem1) b) = own (page_of mem1 b)"
      "attr (page_of (put_page a change mem1) b) = None \<longleftrightarrow> attr (page_of mem1 b) = None" for b
      by (simp_all add: put new(1,2) page_of_same_page)
    show ?thesis by (auto simp: view_def page put(4) split: loc.splits)
  qed
  moreover have "finvalid (view (put_page a change mem1)) = finvalid (view mem1)" by (simp add: view_def put(3))
  ultimately show "view (x86emu_set_page a h mem) = view mem
      \<lparr>floc := \<lambda>b. if same_page a b then (case h of None \<Rightarrow> Own_byte b | Some h \<Rightarrow> Host_byte (h + of_nat (page_idx b))) else floc (view mem) b,
       fattr := \<lambda>b. if same_page a b \<and> h \<noteq> None then fattr (view mem) b OR X86EMU_PERM_VALID else fattr (view mem) b\<rparr>"
    unfolding eq f(2) [symmetric]
    by (intro flat.equality) (auto simp: fun_eq_iff)
qed

end
