(* ===== verification/X86emu_Mem_Props.thy ===== *)
theory X86emu_Mem_Props
  imports X86emu_Mem_Perm
begin

text \<open>
  What the memory of the emulator promises, as properties: it refines the flat memory, what was written is
  read back, accesses stay within the permissions, and setting permissions covers exactly its range.
\<close>

section \<open>Flat accesses\<close>

definition same_bits :: "flat \<Rightarrow> flat \<Rightarrow> bool" where
  "same_bits f g \<longleftrightarrow> (\<forall>b k. k < 3 \<longrightarrow> bit (fattr f b) k = bit (fattr g b) k)"

lemma same_bits_trans: "same_bits f g \<Longrightarrow> same_bits g h \<Longrightarrow> same_bits f h"
  by (simp add: same_bits_def)

lemma same_bits_perm:
  assumes "same_bits f g"
  shows "fattr f b AND X86EMU_PERM_R \<noteq> 0 \<longleftrightarrow> fattr g b AND X86EMU_PERM_R \<noteq> 0"
    "fattr f b AND X86EMU_PERM_W \<noteq> 0 \<longleftrightarrow> fattr g b AND X86EMU_PERM_W \<noteq> 0"
    "fattr f b AND X86EMU_PERM_X \<noteq> 0 \<longleftrightarrow> fattr g b AND X86EMU_PERM_X \<noteq> 0"
  using assms by (simp_all add: perm_bits same_bits_def)

definition readable :: "u8 \<Rightarrow> flat \<Rightarrow> u32 \<Rightarrow> bool" where
  "readable perm f b \<longleftrightarrow> fattr f b AND perm \<noteq> 0 \<and> fattr f b AND X86EMU_PERM_VALID \<noteq> 0"

definition permits :: "u8 \<Rightarrow> u8 \<Rightarrow> bool" where
  "permits perm acc \<longleftrightarrow> (perm = X86EMU_PERM_R \<and> acc = X86EMU_ACC_R) \<or> (perm = X86EMU_PERM_X \<and> acc = X86EMU_ACC_X)"

lemma flat_use_effect:
  assumes "flat_use perm acc a f = (v, g)" "permits perm acc"
  shows "same_bits f g" "fbyte g = fbyte f" "floc g = floc f"
    "\<And>b. fattr g b AND perm \<noteq> 0 \<longleftrightarrow> fattr f b AND perm \<noteq> 0"
    "\<And>b. readable perm g b \<longleftrightarrow> readable perm f b"
    "finvalid g \<longleftrightarrow> finvalid f \<or> \<not> readable perm f a"
    "v = (if fattr f a AND perm \<noteq> 0 then ucast (fbyte f (floc f a)) else 0xFF)"
proof -
  have acc: "\<not> bit acc k" "\<not> bit X86EMU_ACC_INVALID k" if "k < 4" for k
    using assms(2) that by (auto simp: permits_def perm_bits)
  have low: "bit (fattr g b) k = bit (fattr f b) k" if "k < 4" for b k
    using assms(1) acc [OF that] by (auto simp: flat_use_def Let_def bit_or_iff split: if_splits)
  show "same_bits f g" by (simp add: same_bits_def low)
  show "fbyte g = fbyte f" "floc g = floc f"
    "v = (if fattr f a AND perm \<noteq> 0 then ucast (fbyte f (floc f a)) else 0xFF)"
    "finvalid g \<longleftrightarrow> finvalid f \<or> \<not> readable perm f a"
    using assms(1) by (auto simp: flat_use_def Let_def readable_def split: if_splits)
  show p: "fattr g b AND perm \<noteq> 0 \<longleftrightarrow> fattr f b AND perm \<noteq> 0" for b
    using assms(2) low unfolding permits_def by (metis perm_bits(1,3) zero_less_numeral numeral_less_iff semiring_norm(76,78))
  show "readable perm g b \<longleftrightarrow> readable perm f b" for b
    unfolding readable_def p perm_bits by (simp add: low)
qed

text \<open>The addresses of an access to \<open>n\<close> bytes, and the value it sees with permission \<open>perm\<close>.\<close>

primrec addrs :: "nat \<Rightarrow> u32 \<Rightarrow> u32 list" where
  "addrs 0 a = []"
| "addrs (Suc n) a = a # addrs n (a + 1)"

primrec seen :: "u8 \<Rightarrow> u32 list \<Rightarrow> flat \<Rightarrow> u32" where
  "seen perm [] f = 0"
| "seen perm (a # as) f = (if fattr f a AND perm \<noteq> 0 then ucast (fbyte f (floc f a)) else 0xFF) + 256 * seen perm as f"

lemma seen_cong:
  "fbyte g = fbyte f \<Longrightarrow> floc g = floc f \<Longrightarrow> (\<And>b. fattr g b AND perm \<noteq> 0 \<longleftrightarrow> fattr f b AND perm \<noteq> 0) \<Longrightarrow>
   seen perm as g = seen perm as f"
  by (induction as) simp_all

lemma flat_read_effect:
  assumes "flat_read perm acc n a f = (v, g)" "permits perm acc"
  shows "same_bits f g \<and> fbyte g = fbyte f \<and> floc g = floc f \<and> v = seen perm (addrs n a) f \<and>
    (finvalid g \<longleftrightarrow> finvalid f \<or> (\<exists>b\<in>set (addrs n a). \<not> readable perm f b))"
  using assms(1)
proof (induction n arbitrary: a f v)
  case 0
  then show ?case by (simp add: same_bits_def)
next
  case (Suc n)
  obtain v1 f1 where u: "flat_use perm acc a f = (v1, f1)" by (cases "flat_use perm acc a f")
  obtain v2 f2 where r: "flat_read perm acc n (a + 1) f1 = (v2, f2)" by (cases "flat_read perm acc n (a + 1) f1")
  have vg: "v = v1 + 256 * v2" "g = f2" using Suc.prems by (simp_all add: u r)
  note e = flat_use_effect [OF u assms(2)]
  note IH = Suc.IH [OF r [folded vg(2)]]
  then show ?case using e(2,3,6) same_bits_trans [OF e(1)] seen_cong [OF e(2,3,4)] by (auto simp: vg e(5,7))
qed

lemma flat_w_byte_effect:
  "same_bits f (flat_w_byte a v f)" "floc (flat_w_byte a v f) = floc f"
  "finvalid (flat_w_byte a v f) \<longleftrightarrow> finvalid f \<or> fattr f a AND X86EMU_PERM_W = 0"
  "fbyte (flat_w_byte a v f) = (if fattr f a AND X86EMU_PERM_W \<noteq> 0 then (fbyte f)(floc f a := v) else fbyte f)"
  "fattr (flat_w_byte a v f) b AND X86EMU_PERM_VALID \<noteq> 0 \<longleftrightarrow>
     fattr f b AND X86EMU_PERM_VALID \<noteq> 0 \<or> b = a \<and> fattr f a AND X86EMU_PERM_W \<noteq> 0"
proof -
  show "same_bits f (flat_w_byte a v f)" by (auto simp: same_bits_def flat_w_byte_def Let_def bit_or_iff perm_bits)
  show "floc (flat_w_byte a v f) = floc f"
    "finvalid (flat_w_byte a v f) \<longleftrightarrow> finvalid f \<or> fattr f a AND X86EMU_PERM_W = 0"
    "fbyte (flat_w_byte a v f) = (if fattr f a AND X86EMU_PERM_W \<noteq> 0 then (fbyte f)(floc f a := v) else fbyte f)"
    by (auto simp: flat_w_byte_def Let_def)
  show "fattr (flat_w_byte a v f) b AND X86EMU_PERM_VALID \<noteq> 0 \<longleftrightarrow>
     fattr f b AND X86EMU_PERM_VALID \<noteq> 0 \<or> b = a \<and> fattr f a AND X86EMU_PERM_W \<noteq> 0"
    unfolding perm_bits by (auto simp: flat_w_byte_def Let_def bit_or_iff perm_bits)
qed

lemma flat_write_effect:
  "same_bits f (flat_write n a v f) \<and> floc (flat_write n a v f) = floc f \<and>
   (finvalid (flat_write n a v f) \<longleftrightarrow> finvalid f \<or> (\<exists>b\<in>set (addrs n a). fattr f b AND X86EMU_PERM_W = 0)) \<and>
   (\<forall>l. fbyte (flat_write n a v f) l \<noteq> fbyte f l \<longrightarrow>
      (\<exists>b\<in>set (addrs n a). l = floc f b \<and> fattr f b AND X86EMU_PERM_W \<noteq> 0))"
proof (induction n arbitrary: a v f)
  case 0
  then show ?case by (simp add: same_bits_def)
next
  case (Suc n)
  let ?g = "flat_w_byte a (ucast v) f"
  note e = flat_w_byte_effect [where f = f and a = a and v = "ucast v"]
  have w: "fattr ?g b AND X86EMU_PERM_W = 0 \<longleftrightarrow> fattr f b AND X86EMU_PERM_W = 0" for b
    using same_bits_perm(2) [OF e(1)] by blast
  note IH = Suc [of ?g "a + 1" "drop_bit 8 v"]
  show ?case unfolding flat_write.simps
  proof (intro conjI allI impI)
    show "same_bits f (flat_write n (a + 1) (drop_bit 8 v) ?g)" using IH same_bits_trans [OF e(1)] by blast
    show "floc (flat_write n (a + 1) (drop_bit 8 v) ?g) = floc f" using IH e(2) by simp
    show "finvalid (flat_write n (a + 1) (drop_bit 8 v) ?g) \<longleftrightarrow>
        finvalid f \<or> (\<exists>b\<in>set (addrs (Suc n) a). fattr f b AND X86EMU_PERM_W = 0)" using IH e(3) w by auto
    fix l assume l: "fbyte (flat_write n (a + 1) (drop_bit 8 v) ?g) l \<noteq> fbyte f l"
    show "\<exists>b\<in>set (addrs (Suc n) a). l = floc f b \<and> fattr f b AND X86EMU_PERM_W \<noteq> 0"
    proof (cases "fbyte ?g l = fbyte f l")
      case True
      then show ?thesis using IH l w e(2) by auto
    next
      case False
      then show ?thesis using e(4) by (auto split: if_splits)
    qed
  qed
qed

lemma flat_write_bytes:
  assumes "\<forall>b\<in>set (addrs n a). fattr f b AND X86EMU_PERM_W \<noteq> 0" and "distinct (map (floc f) (addrs n a))"
  shows "map (\<lambda>b. fbyte (flat_write n a v f) (floc f b)) (addrs n a) = map (\<lambda>k. ucast (drop_bit (8 * k) v)) [0..<n]"
  using assms
proof (induction n arbitrary: a v f)
  case (Suc n)
  let ?g = "flat_w_byte a (ucast v) f"
  note e = flat_w_byte_effect [where f = f and a = a and v = "ucast v"]
  have p: "\<forall>b\<in>set (addrs n (a + 1)). fattr ?g b AND X86EMU_PERM_W \<noteq> 0"
    using Suc.prems(1) same_bits_perm(2) [OF e(1)] by simp
  have d: "distinct (map (floc ?g) (addrs n (a + 1)))" using Suc.prems(2) by (simp add: e(2))
  have "fbyte (flat_write n (a + 1) (drop_bit 8 v) ?g) (floc f a) = fbyte ?g (floc f a)"
    using flat_write_effect [of ?g n "a + 1" "drop_bit 8 v"] Suc.prems(2) e(2) by auto
  then have "fbyte (flat_write n (a + 1) (drop_bit 8 v) ?g) (floc f a) = ucast v" using Suc.prems(1) by (simp add: e(4))
  moreover have "map (\<lambda>k. ucast (drop_bit (8 * k) v) :: u8) [0..<Suc n]
      = ucast v # map (\<lambda>k. ucast (drop_bit (8 * k) (drop_bit 8 v))) [0..<n]"
    by (simp add: upt_conv_Cons map_Suc_upt [symmetric] drop_bit_drop_bit add.commute del: upt_Suc)
  ultimately show ?case using Suc.IH [OF p d, of "drop_bit 8 v"] by (simp add: e(2) del: upt_Suc)
qed simp

lemma flat_write_valid:
  assumes "\<forall>b\<in>set (addrs n a). fattr f b AND X86EMU_PERM_W \<noteq> 0"
  shows "fattr (flat_write n a v f) b AND X86EMU_PERM_VALID \<noteq> 0 \<longleftrightarrow>
    fattr f b AND X86EMU_PERM_VALID \<noteq> 0 \<or> b \<in> set (addrs n a)"
  using assms
proof (induction n arbitrary: a v f)
  case (Suc n)
  note e = flat_w_byte_effect [where f = f and a = a and v = "ucast v"]
  have p: "\<forall>b\<in>set (addrs n (a + 1)). fattr (flat_w_byte a (ucast v) f) b AND X86EMU_PERM_W \<noteq> 0"
    using Suc.prems same_bits_perm(2) [OF e(1)] by simp
  show ?case using Suc.IH [OF p, of "drop_bit 8 v"] Suc.prems unfolding flat_write.simps e(5) by auto
qed simp

primrec join :: "u8 list \<Rightarrow> u32" where
  "join [] = 0"
| "join (b # bs) = ucast b + 256 * join bs"

lemma seen_readable:
  "\<forall>b\<in>set as. fattr f b AND perm \<noteq> 0 \<Longrightarrow> seen perm as f = join (map (\<lambda>b. fbyte f (floc f b)) as)"
  by (induction as) simp_all

lemma bytes_of_word:
  fixes v :: u32
  shows "join (map (\<lambda>k. ucast (drop_bit (8 * k) v)) [0..<4]) = v"
    "join (map (\<lambda>k. ucast (drop_bit (8 * k) v)) [0..<2]) = v AND 0xFFFF"
    "join (map (\<lambda>k. ucast (drop_bit (8 * k) v)) [0..<1]) = v AND 0xFF"
proof -
  let ?b = "\<lambda>k. ucast (drop_bit k v) :: u8"
  have bit: "bit (push_bit n (ucast (?b n)) :: u32) k \<longleftrightarrow> n \<le> k \<and> k < n + 8 \<and> bit v k" if "n \<le> 24" for n k
    using that by (auto simp: bit_push_bit_iff bit_ucast_iff bit_drop_bit_eq dest: bit_imp_le_length)
  have "push_bit 0 (ucast (?b 0)) OR push_bit 8 (ucast (?b 8)) OR push_bit 16 (ucast (?b 16)) OR push_bit 24 (ucast (?b 24)) = v"
    by (rule bit_word_eqI) (simp only: bit_or_iff bit order.refl le_numeral_extra, auto)
  then show "join (map (\<lambda>k. ucast (drop_bit (8 * k) v)) [0..<4]) = v"
    by (simp add: join_bytes upto_4)
  have "push_bit 0 (ucast (?b 0)) OR push_bit 8 (ucast (?b 8)) = take_bit 16 v"
    by (rule bit_word_eqI) (simp only: bit_or_iff bit order.refl le_numeral_extra bit_take_bit_iff, auto)
  then show "join (map (\<lambda>k. ucast (drop_bit (8 * k) v)) [0..<2]) = v AND 0xFFFF"
    by (simp add: join_bytes upto_4 take_bit_eq_mask mask_numeral)
  have "push_bit 0 (ucast (?b 0)) = take_bit 8 v"
    using bit [of 0] by (intro bit_word_eqI) (simp add: bit_take_bit_iff)
  then show "join (map (\<lambda>k. ucast (drop_bit (8 * k) v)) [0..<1]) = v AND 0xFF"
    by (simp add: take_bit_eq_mask mask_numeral)
qed

section \<open>Simulation\<close>

definition reads_as :: "(x86emu_mem_t \<Rightarrow> u32 \<Rightarrow> u32 \<times> x86emu_mem_t) \<Rightarrow> u8 \<Rightarrow> u8 \<Rightarrow> nat \<Rightarrow> bool" where
  "reads_as op perm acc n \<longleftrightarrow> (\<forall>mem a. mem_ok mem \<longrightarrow>
     (let (v, mem') = op mem a in mem_ok mem' \<and> flat_read perm acc n a (view mem) = (v, view mem')))"

definition writes_as :: "(x86emu_mem_t \<Rightarrow> u32 \<Rightarrow> u32 \<Rightarrow> x86emu_mem_t) \<Rightarrow> nat \<Rightarrow> bool" where
  "writes_as op n \<longleftrightarrow> (\<forall>mem a v. mem_ok mem \<longrightarrow>
     mem_ok (op mem a v) \<and> view (op mem a v) = flat_write n a v (view mem))"

lemma flat_byte [simp]:
  "flat_read perm acc (Suc 0) a f = flat_use perm acc a f" "flat_write (Suc 0) a v f = flat_w_byte a (ucast v) f"
  by (simp_all split: prod.splits)

lemma reads_asI:
  "(\<And>mem a v mem'. mem_ok mem \<Longrightarrow> op mem a = (v, mem') \<Longrightarrow> flat_read perm acc n a (view mem) = (v, view mem') \<and> mem_ok mem') \<Longrightarrow>
   reads_as op perm acc n"
  by (force simp: reads_as_def)

lemma reads_asD:
  "reads_as op perm acc n \<Longrightarrow> mem_ok mem \<Longrightarrow> op mem a = (v, mem') \<Longrightarrow>
   flat_read perm acc n a (view mem) = (v, view mem') \<and> mem_ok mem'"
  unfolding reads_as_def by (metis (mono_tags, lifting) case_prod_conv)

lemma simulated_reads:
  "reads_as vm_r_byte X86EMU_PERM_R X86EMU_ACC_R 1" "reads_as vm_r_word X86EMU_PERM_R X86EMU_ACC_R 2"
  "reads_as vm_r_dword X86EMU_PERM_R X86EMU_ACC_R 4" "reads_as vm_x_byte X86EMU_PERM_X X86EMU_ACC_X 1"
  "reads_as vm_x_word X86EMU_PERM_X X86EMU_ACC_X 2" "reads_as vm_x_dword X86EMU_PERM_X X86EMU_ACC_X 4"
proof -
  show "reads_as vm_r_byte X86EMU_PERM_R X86EMU_ACC_R 1" "reads_as vm_x_byte X86EMU_PERM_X X86EMU_ACC_X 1"
    unfolding One_nat_def by (rule reads_asI, unfold flat_byte, intro conjI, (fact vm_r_byte_view vm_x_byte_view)+)+
qed (rule reads_asI, fact vm_r_word_view vm_r_dword_view vm_x_word_view vm_x_dword_view)+

lemma simulated_writes: "writes_as vm_w_byte 1" "writes_as vm_w_word 2" "writes_as vm_w_dword 4"
  using vm_w_byte_view vm_w_word_view vm_w_dword_view by (auto simp: writes_as_def)

text \<open>The interface between the memory and its users: a pair of operations that read and write \<open>n\<close> bytes as the
  flat memory does. What follows for every width is proved once in it.\<close>

locale memory_read =
  fixes rd :: "x86emu_mem_t \<Rightarrow> u32 \<Rightarrow> u32 \<times> x86emu_mem_t"
    and perm acc :: u8
    and n :: nat
  assumes reads: "reads_as rd perm acc n"
    and permits: "permits perm acc"
begin

lemma read_effect:
  assumes "mem_ok mem" "rd mem a = (v, mem')"
  shows "v = seen perm (addrs n a) (view mem)" "fbyte (view mem') = fbyte (view mem)"
    "invalid mem' \<longleftrightarrow> invalid mem \<or> (\<exists>b\<in>set (addrs n a). \<not> readable perm (view mem) b)"
    "same_bits (view mem) (view mem')" "floc (view mem') = floc (view mem)" "mem_ok mem'"
proof -
  note r = reads_asD [OF reads assms]
  show "mem_ok mem'" using r by simp
  have "finvalid (view m) = invalid m" for m by (simp add: view_def)
  then show "v = seen perm (addrs n a) (view mem)" "fbyte (view mem') = fbyte (view mem)"
    "invalid mem' \<longleftrightarrow> invalid mem \<or> (\<exists>b\<in>set (addrs n a). \<not> readable perm (view mem) b)"
    "same_bits (view mem) (view mem')" "floc (view mem') = floc (view mem)"
    using flat_read_effect [OF conjunct1 [OF r] permits] by auto
qed

end

locale memory_access = memory_read rd X86EMU_PERM_R X86EMU_ACC_R n
  for rd :: "x86emu_mem_t \<Rightarrow> u32 \<Rightarrow> u32 \<times> x86emu_mem_t" and n :: nat +
  fixes wr :: "x86emu_mem_t \<Rightarrow> u32 \<Rightarrow> u32 \<Rightarrow> x86emu_mem_t"
  assumes writes: "writes_as wr n"
begin

lemma read_back:
  assumes ok: "mem_ok mem"
    and rw: "\<forall>b\<in>set (addrs n a). fattr (view mem) b AND X86EMU_PERM_R \<noteq> 0 \<and> fattr (view mem) b AND X86EMU_PERM_W \<noteq> 0"
    and d: "distinct (map (floc (view mem)) (addrs n a))"
  shows "fst (rd (wr mem a v) a) = join (map (\<lambda>k. ucast (drop_bit (8 * k) v)) [0..<n])"
    "invalid (snd (rd (wr mem a v) a)) = invalid mem"
    "l \<notin> floc (view mem) ` set (addrs n a) \<Longrightarrow> fbyte (view (snd (rd (wr mem a v) a))) l = fbyte (view mem) l"
proof -
  define f where "f = view mem"
  define g where "g = flat_write n a v f"
  obtain val mem' where rd: "rd (wr mem a v) a = (val, mem')" by (cases "rd (wr mem a v) a")
  have "mem_ok (wr mem a v)" "view (wr mem a v) = g" using writes ok by (simp_all add: writes_as_def g_def f_def)
  then have read: "flat_read X86EMU_PERM_R X86EMU_ACC_R n a g = (val, view mem')"
    using reads_asD [OF reads _ rd] by simp
  have W: "\<forall>b\<in>set (addrs n a). fattr f b AND X86EMU_PERM_W \<noteq> 0" using rw by (simp add: f_def)
  note e = flat_write_effect [of f n a v, folded g_def]
  have R: "\<forall>b\<in>set (addrs n a). fattr g b AND X86EMU_PERM_R \<noteq> 0" using rw same_bits_perm(1) e by (auto simp: f_def)
  have V: "\<forall>b\<in>set (addrs n a). readable X86EMU_PERM_R g b"
    using R flat_write_valid [OF W, of v] by (simp add: readable_def g_def)
  note q = flat_read_effect [OF read, unfolded permits_def, simplified]
  have "val = join (map (\<lambda>b. fbyte g (floc g b)) (addrs n a))" using q seen_readable [OF R] by simp
  then show "fst (rd (wr mem a v) a) = join (map (\<lambda>k. ucast (drop_bit (8 * k) v)) [0..<n])"
    using flat_write_bytes [OF W d [folded f_def], of v] e by (simp add: rd g_def)
  have "finvalid (view mem') = finvalid f" using q V e W by auto
  then show "invalid (snd (rd (wr mem a v) a)) = invalid mem" by (simp add: rd f_def view_def)
  show "l \<notin> floc (view mem) ` set (addrs n a) \<Longrightarrow> fbyte (view (snd (rd (wr mem a v) a))) l = fbyte (view mem) l"
    using q e by (auto simp: rd f_def)
qed

lemma write_effect:
  assumes "mem_ok mem"
  shows "fbyte (view (wr mem a v)) l \<noteq> fbyte (view mem) l \<Longrightarrow>
      \<exists>b\<in>set (addrs n a). l = floc (view mem) b \<and> fattr (view mem) b AND X86EMU_PERM_W \<noteq> 0"
    "invalid (wr mem a v) \<longleftrightarrow> invalid mem \<or> (\<exists>b\<in>set (addrs n a). fattr (view mem) b AND X86EMU_PERM_W = 0)"
    "same_bits (view mem) (view (wr mem a v))" "floc (view (wr mem a v)) = floc (view mem)" "mem_ok (wr mem a v)"
proof -
  have w: "view (wr mem a v) = flat_write n a v (view mem)" "mem_ok (wr mem a v)" using writes assms by (simp_all add: writes_as_def)
  show "mem_ok (wr mem a v)" by (rule w(2))
  have "finvalid (view m) = invalid m" for m by (simp add: view_def)
  then show "invalid (wr mem a v) \<longleftrightarrow> invalid mem \<or> (\<exists>b\<in>set (addrs n a). fattr (view mem) b AND X86EMU_PERM_W = 0)"
    "same_bits (view mem) (view (wr mem a v))" "floc (view (wr mem a v)) = floc (view mem)"
    "fbyte (view (wr mem a v)) l \<noteq> fbyte (view mem) l \<Longrightarrow>
      \<exists>b\<in>set (addrs n a). l = floc (view mem) b \<and> fattr (view mem) b AND X86EMU_PERM_W \<noteq> 0"
    using flat_write_effect [of "view mem" n a v] unfolding w(1) [symmetric] by auto
qed

end

interpretation byte_access: memory_access vm_r_byte 1 vm_w_byte
  by unfold_locales (simp_all only: simulated_reads simulated_writes permits_def simp_thms)

interpretation word_access: memory_access vm_r_word 2 vm_w_word
  by unfold_locales (simp_all only: simulated_reads simulated_writes permits_def simp_thms)

interpretation dword_access: memory_access vm_r_dword 4 vm_w_dword
  by unfold_locales (simp_all only: simulated_reads simulated_writes permits_def simp_thms)

interpretation byte_fetch: memory_read vm_x_byte X86EMU_PERM_X X86EMU_ACC_X 1
  by unfold_locales (simp_all only: simulated_reads permits_def simp_thms)

interpretation word_fetch: memory_read vm_x_word X86EMU_PERM_X X86EMU_ACC_X 2
  by unfold_locales (simp_all only: simulated_reads permits_def simp_thms)

interpretation dword_fetch: memory_read vm_x_dword X86EMU_PERM_X X86EMU_ACC_X 4
  by unfold_locales (simp_all only: simulated_reads permits_def simp_thms)

section \<open>Properties\<close>

text \<open>
  C27. The paged memory of the emulator, with its lazily allocated tables and pages, pages redirected into
  host memory and one-step accesses to words and dwords, implements the flat memory in which a word
  is accessed byte by byte: every read, fetch and write does to the view exactly what the flat access does.
\<close>
theorem paged_memory_refines_flat_memory:
  "reads_as vm_r_byte X86EMU_PERM_R X86EMU_ACC_R 1 \<and> reads_as vm_r_word X86EMU_PERM_R X86EMU_ACC_R 2 \<and>
   reads_as vm_r_dword X86EMU_PERM_R X86EMU_ACC_R 4 \<and> reads_as vm_x_byte X86EMU_PERM_X X86EMU_ACC_X 1 \<and>
   reads_as vm_x_word X86EMU_PERM_X X86EMU_ACC_X 2 \<and> reads_as vm_x_dword X86EMU_PERM_X X86EMU_ACC_X 4 \<and>
   writes_as vm_w_byte 1 \<and> writes_as vm_w_word 2 \<and> writes_as vm_w_dword 4 \<and>
   mem_ok (emu_mem_new perm h) \<and> fattr (view (emu_mem_new perm h)) a = perm \<and>
   fbyte (view (emu_mem_new perm h)) (floc (view (emu_mem_new perm h)) a) = 0"
  using simulated_reads simulated_writes by (simp add: emu_mem_new_view del: One_nat_def)

text \<open>
  What is written to readable and writable memory is read back, as a byte, a word or a dword, also
  across a page boundary or the end of the address space, without an error being recorded; it needs
  the bytes to be stored at distinct places, which holds unless two redirected pages overlap.
\<close>
theorem written_value_is_read_back:
  assumes "mem_ok mem" "distinct (map (floc (view mem)) [a, a + 1, a + 2, a + 3])"
    and "\<forall>b\<in>{a, a + 1, a + 2, a + 3}. fattr (view mem) b AND X86EMU_PERM_R \<noteq> 0 \<and> fattr (view mem) b AND X86EMU_PERM_W \<noteq> 0"
  shows "fst (vm_r_byte (vm_w_byte mem a v) a) = v AND 0xFF \<and> fst (vm_r_word (vm_w_word mem a v) a) = v AND 0xFFFF \<and>
    fst (vm_r_dword (vm_w_dword mem a v) a) = v \<and> invalid (snd (vm_r_dword (vm_w_dword mem a v) a)) = invalid mem"
proof -
  have n: "addrs 1 a = [a]" "addrs 2 a = [a, a + 1]" "addrs 4 a = [a, a + 1, a + 2, a + 3]"
    by (simp_all add: numeral_eq_Suc add.assoc)
  note rb = byte_access.read_back [OF assms(1), where a = a and v = v, unfolded n bytes_of_word]
    and rw = word_access.read_back [OF assms(1), where a = a and v = v, unfolded n bytes_of_word]
    and rd = dword_access.read_back [OF assms(1), where a = a and v = v, unfolded n bytes_of_word]
  have d: "distinct (map (floc (view mem)) [a])" "distinct (map (floc (view mem)) [a, a + 1])"
    and p: "\<forall>b\<in>set [a]. fattr (view mem) b AND X86EMU_PERM_R \<noteq> 0 \<and> fattr (view mem) b AND X86EMU_PERM_W \<noteq> 0"
      "\<forall>b\<in>set [a, a + 1]. fattr (view mem) b AND X86EMU_PERM_R \<noteq> 0 \<and> fattr (view mem) b AND X86EMU_PERM_W \<noteq> 0"
      "\<forall>b\<in>set [a, a + 1, a + 2, a + 3]. fattr (view mem) b AND X86EMU_PERM_R \<noteq> 0 \<and> fattr (view mem) b AND X86EMU_PERM_W \<noteq> 0"
    using assms(2,3) by simp_all
  show ?thesis using rb(1) [OF p(1) d(1)] rw(1) [OF p(2) d(2)] rd(1,2) [OF p(3) assms(2)] by simp
qed

lemma written_value_is_read_back_witness:
  "fst (vm_r_dword (vm_w_dword (emu_mem_new 0x07 (\<lambda>_. 0)) 0x1FFE 0xCAFE1234) 0x1FFE) = 0xCAFE1234"
proof -
  have "fst (vm_r_byte (vm_w_byte (emu_mem_new 0x07 (\<lambda>_. 0)) 0x1FFE 0xCAFE1234) 0x1FFE) = 0xCAFE1234 AND 0xFF \<and>
    fst (vm_r_word (vm_w_word (emu_mem_new 0x07 (\<lambda>_. 0)) 0x1FFE 0xCAFE1234) 0x1FFE) = 0xCAFE1234 AND 0xFFFF \<and>
    fst (vm_r_dword (vm_w_dword (emu_mem_new 0x07 (\<lambda>_. 0)) 0x1FFE 0xCAFE1234) 0x1FFE) = 0xCAFE1234 \<and>
    invalid (snd (vm_r_dword (vm_w_dword (emu_mem_new 0x07 (\<lambda>_. 0)) 0x1FFE 0xCAFE1234) 0x1FFE)) = invalid (emu_mem_new 0x07 (\<lambda>_. 0))"
    by (rule written_value_is_read_back) (simp_all add: emu_mem_new_view X86EMU_PERM_R_def X86EMU_PERM_W_def)
  then show ?thesis by blast
qed

text \<open>
  Setting permissions changes the attributes of exactly the addresses from \<open>start\<close> to \<open>end\<close>, however
  they lie to the pages, and no contents - but when \<open>start\<close> is 0 and the range is at least a page long
  only the first page gets the new permissions.
\<close>
theorem set_perm_covers_range:
  assumes "mem_ok mem"
  shows "fattr (view (x86emu_set_perm start limit perm mem)) b =
      (if start \<le> b \<and> b \<le> limit \<and> (start = 0 \<and> 0xFFF \<le> limit \<longrightarrow> b \<le> 0xFFF) then ucast perm else fattr (view mem) b) \<and>
    floc (view (x86emu_set_perm start limit perm mem)) = floc (view mem) \<and>
    fbyte (view (x86emu_set_perm start limit perm mem)) = fbyte (view mem) \<and>
    mem_ok (x86emu_set_perm start limit perm mem)"
proof -
  note v = x86emu_set_perm_view [OF assms, of start limit perm]
  have "fattr (view (x86emu_set_perm start limit perm mem)) b =
      (if start \<le> b \<and> b \<le> limit \<and> (start = 0 \<and> 0xFFF \<le> limit \<longrightarrow> b \<le> 0xFFF) then ucast perm else fattr (view mem) b)"
    unfolding conjunct2 [OF v] by (auto simp: flat_set_perm_def word_le_nat_alt)
  then show ?thesis using v by (simp add: flat_set_perm_def)
qed

lemma set_perm_covers_range_witness:
  "fattr (view (x86emu_set_perm 0x7000 0x8000 7 (emu_mem_new 0 (\<lambda>_. 0)))) 0x8000 = 7 \<and>
   fattr (view (x86emu_set_perm 0 0xFFFF 7 (emu_mem_new 0 (\<lambda>_. 0)))) 0x8000 = 0"
proof -
  have new: "mem_ok (emu_mem_new 0 (\<lambda>_. 0))" "fattr (view (emu_mem_new 0 (\<lambda>_. 0))) b = 0" for b by (simp_all add: emu_mem_new_view)
  show ?thesis
    using set_perm_covers_range [OF new(1), of "0x7000" "0x8000" 7 "0x8000"] set_perm_covers_range [OF new(1), of 0 "0xFFFF" 7 "0x8000"]
    by (simp add: new(2))
qed

end
