(* ===== verification/X86emu_Flags.thy ===== *)
theory X86emu_Flags
  imports Prelude
begin

unbundle bit_operations_syntax

text \<open>
  \<^verbatim>\<open>libx86emu\<close>, the processor emulator that runs BIOS code for the kernel: the flags register
  and the macros on it (\<^verbatim>\<open>include/x86emu.h\<close>, \<^verbatim>\<open>include/x86emu_int.h\<close>), and the parity table and macros of
  \<^verbatim>\<open>prim_ops.c\<close>. A function of \<^verbatim>\<open>prim_ops.c\<close> that only reads and writes the flags is a function of its
  operands and the flags register, with its result and the new register as value.
\<close>

type_synonym flags = u32

definition F_CF :: u32 where "F_CF = 0x0001"
definition F_PF :: u32 where "F_PF = 0x0004"
definition F_AF :: u32 where "F_AF = 0x0010"
definition F_ZF :: u32 where "F_ZF = 0x0040"
definition F_SF :: u32 where "F_SF = 0x0080"
definition F_DF :: u32 where "F_DF = 0x0400"
definition F_OF :: u32 where "F_OF = 0x0800"

definition SET_FLAG :: "u32 \<Rightarrow> flags \<Rightarrow> flags" where
  "SET_FLAG flag f = f OR flag"

definition CLEAR_FLAG :: "u32 \<Rightarrow> flags \<Rightarrow> flags" where
  "CLEAR_FLAG flag f = f AND NOT flag"

definition ACCESS_FLAG :: "u32 \<Rightarrow> flags \<Rightarrow> bool" where
  "ACCESS_FLAG flag f \<longleftrightarrow> f AND flag \<noteq> 0"

definition CONDITIONAL_SET_FLAG :: "bool \<Rightarrow> u32 \<Rightarrow> flags \<Rightarrow> flags" where
  "CONDITIONAL_SET_FLAG c flag f = (if c then SET_FLAG flag f else CLEAR_FLAG flag f)"

section \<open>Parity\<close>

definition x86emu_parity_tab :: "u32 list" where
  "x86emu_parity_tab = [0x96696996, 0x69969669, 0x69969669, 0x96696996, 0x69969669, 0x96696996, 0x96696996, 0x69969669]"

text \<open>The macro \<open>PARITY\<close>; its argument is always below 256, so the index is below 8.\<close>

definition PARITY :: "u32 \<Rightarrow> bool" where
  "PARITY x \<longleftrightarrow> drop_bit (unat (x mod 32)) (x86emu_parity_tab ! unat (x div 32)) AND 1 = 0"

definition XOR2 :: "u32 \<Rightarrow> bool" where
  "XOR2 x \<longleftrightarrow> (x XOR drop_bit 1 x) AND 0x1 \<noteq> 0"

section \<open>Reading flags by bit\<close>

lemma one_bit: "n < 32 \<Longrightarrow> bit ((2::u32) ^ n) k \<longleftrightarrow> k = n"
  by (auto simp: bit_exp_iff)

lemma flag_bits:
  "bit F_CF k \<longleftrightarrow> k = 0" "bit F_PF k \<longleftrightarrow> k = 2" "bit F_AF k \<longleftrightarrow> k = 4" "bit F_ZF k \<longleftrightarrow> k = 6"
  "bit F_SF k \<longleftrightarrow> k = 7" "bit F_DF k \<longleftrightarrow> k = 10" "bit F_OF k \<longleftrightarrow> k = 11"
  using one_bit [of 0 k] one_bit [of 2 k] one_bit [of 4 k] one_bit [of 6 k] one_bit [of 7 k] one_bit [of 10 k]
    one_bit [of 11 k]
  by (simp_all add: F_CF_def F_PF_def F_AF_def F_ZF_def F_SF_def F_DF_def F_OF_def)

lemma and_exp_nonzero: "w AND 2 ^ n \<noteq> 0 \<longleftrightarrow> bit w n" for w :: "'a::len word"
  by (simp add: and_exp_eq_0_iff_not_bit)

lemma access_bit:
  "ACCESS_FLAG F_CF f = bit f 0" "ACCESS_FLAG F_PF f = bit f 2" "ACCESS_FLAG F_AF f = bit f 4"
  "ACCESS_FLAG F_ZF f = bit f 6" "ACCESS_FLAG F_SF f = bit f 7" "ACCESS_FLAG F_DF f = bit f 10"
  "ACCESS_FLAG F_OF f = bit f 11"
  using and_exp_nonzero [of f 0] and_exp_nonzero [of f 2] and_exp_nonzero [of f 4] and_exp_nonzero [of f 6]
    and_exp_nonzero [of f 7] and_exp_nonzero [of f 10] and_exp_nonzero [of f 11]
  by (simp_all add: ACCESS_FLAG_def F_CF_def F_PF_def F_AF_def F_ZF_def F_SF_def F_DF_def F_OF_def)

lemma flag_update_bit:
  "bit (SET_FLAG flag f) k \<longleftrightarrow> bit flag k \<or> bit f k"
  "bit (CLEAR_FLAG flag f) k \<longleftrightarrow> \<not> bit flag k \<and> bit f k"
  "bit (CONDITIONAL_SET_FLAG c flag f) k \<longleftrightarrow> (if bit flag k then c else bit f k)"
  using bit_imp_le_length [of f k]
  by (auto simp: SET_FLAG_def CLEAR_FLAG_def CONDITIONAL_SET_FLAG_def bit_simps)

lemmas flag_simps = access_bit flag_update_bit flag_bits

text \<open>A test of a mask with one bit.\<close>

lemma test_bit_masks:
  fixes w :: "'a::len word"
  shows "w AND 1 \<noteq> 0 \<longleftrightarrow> bit w 0" "w AND 0x8 \<noteq> 0 \<longleftrightarrow> bit w 3" "w AND 0x80 \<noteq> 0 \<longleftrightarrow> bit w 7"
    "w AND 0x100 \<noteq> 0 \<longleftrightarrow> bit w 8" "w AND 0x8000 \<noteq> 0 \<longleftrightarrow> bit w 15" "w AND 0x10000 \<noteq> 0 \<longleftrightarrow> bit w 16"
    "w AND 0x80000000 \<noteq> 0 \<longleftrightarrow> bit w 31" "w AND 0xF = take_bit 4 w" "w AND 0xFF = take_bit 8 w" "w AND 0xFFFF = take_bit 16 w"
  using and_exp_nonzero [of w 0] and_exp_nonzero [of w 3] and_exp_nonzero [of w 7] and_exp_nonzero [of w 8]
    and_exp_nonzero [of w 15] and_exp_nonzero [of w 16] and_exp_nonzero [of w 31]
  by (simp_all add: take_bit_eq_mask mask_numeral)

lemma XOR2_bit: "XOR2 x \<longleftrightarrow> bit x 0 \<noteq> bit x 1"
  using and_exp_nonzero [of "x XOR drop_bit 1 x" 0] by (simp add: XOR2_def bit_simps)

text \<open>The parity table holds the parity of every byte.\<close>

definition even_parity :: "'a::len word \<Rightarrow> bool" where
  "even_parity x \<longleftrightarrow> even (length (filter (bit x) [0..<8]))"

lemma even_parity_ucast [simp]: "8 \<le> LENGTH('a) \<Longrightarrow> 8 \<le> LENGTH('b) \<Longrightarrow> even_parity (ucast (w :: 'a::len word) :: 'b::len word) = even_parity w"
  by (simp add: even_parity_def bit_simps upt_rec)

lemma even_parity_take [simp]: "8 \<le> n \<Longrightarrow> even_parity (take_bit n w) = even_parity w" for w :: "'a::len word"
  by (simp add: even_parity_def bit_simps upt_rec)

lemma parity_table: "\<forall>n \<in> set [0..<256]. PARITY (word_of_nat n) = even_parity (word_of_nat n :: u32)"
  by code_simp

lemma PARITY_even:
  assumes "x < 256"
  shows "PARITY x = even_parity x"
proof -
  have "unat x < 256" using assms by (simp add: word_less_nat_alt)
  then show ?thesis using parity_table [rule_format, of "unat x"] by simp
qed

lemma PARITY_byte [simp]: "PARITY (take_bit 8 x) = even_parity x"
proof -
  have "uint (take_bit 8 x) < 2 ^ 8" using take_bit_int_less_exp [of 8 "uint x"] by (simp add: unsigned_take_bit_eq)
  then have "take_bit 8 x < 256" by (simp add: word_less_def)
  then show ?thesis by (simp add: PARITY_even)
qed

lemma PARITY_ucast [simp]: "PARITY (ucast (w :: u8)) = even_parity w"
proof -
  have "(ucast w :: u32) = take_bit 8 (ucast w)" by (rule bit_word_eqI) (auto simp: bit_simps dest: bit_imp_le_length)
  then have "PARITY (ucast w) = even_parity (ucast w :: u32)" using PARITY_byte [of "ucast w"] by metis
  then show ?thesis by simp
qed

end
