(* ===== verification/X86emu_Carry.thy ===== *)
theory X86emu_Carry
  imports X86emu_Flags
begin

text \<open>
  The carry and borrow chains of \<^verbatim>\<open>prim_ops.c\<close> (the note at its top): from the operands
  and the truncated result, the formula gives the carry out of every bit position. These are the
  facts the arithmetic instructions of all widths share.
\<close>

section \<open>Carries of integers\<close>

definition carry_into :: "nat \<Rightarrow> int \<Rightarrow> int \<Rightarrow> bool \<Rightarrow> bool" where
  "carry_into k a b c \<longleftrightarrow> 2 ^ k \<le> take_bit k a + take_bit k b + of_bool c"

lemma carry_into_0 [simp]: "carry_into 0 a b c = c"
  by (simp add: carry_into_def)

lemma take_bit_top: "take_bit (Suc k) a = take_bit k a + 2 ^ k * of_bool (bit a k)" for a :: int
  by (simp add: take_bit_Suc_from_most)

lemma carry_arith:
  fixes A B P :: int
  assumes "0 \<le> A" "A < P" "0 \<le> B" "B < P"
  shows "2 * P \<le> A + P * of_bool x + (B + P * of_bool y) + of_bool c \<longleftrightarrow>
      (x \<and> y) \<or> (x \<noteq> y \<and> P \<le> A + B + of_bool c)"
    "(P \<le> A + B + of_bool c) \<noteq> (2 * P \<le> A + P * of_bool x + (B + P * of_bool y) + of_bool c) \<longleftrightarrow>
      (A - (if x then P else 0)) + (B - (if y then P else 0)) + of_bool c \<notin> {- P ..< P}"
    "0 \<le> A + B + of_bool c" "A + B + of_bool c < 2 * P"
  using assms by (cases x; cases y; cases c; simp; linarith)+

lemmas take_bit_range = take_bit_nonnegative take_bit_int_less_exp

lemma carry_into_Suc:
  "carry_into (Suc k) a b c \<longleftrightarrow>
   (bit a k \<and> bit b k) \<or> (bit a k \<noteq> bit b k \<and> carry_into k a b c)"
  unfolding carry_into_def take_bit_top power_Suc by (rule carry_arith) (rule take_bit_range)+

lemma bit_sum:
  "bit (a + b + of_bool c) k \<longleftrightarrow> ((bit a k \<noteq> bit b k) \<noteq> carry_into k a b c)" for a b :: int
proof -
  let ?t = "take_bit k a + take_bit k b + of_bool c"
  have a: "a = take_bit k a + 2 ^ k * (a div 2 ^ k)" and b: "b = take_bit k b + 2 ^ k * (b div 2 ^ k)"
    unfolding take_bit_eq_mod by (rule mod_mult_div_eq [symmetric])+
  have t: "0 \<le> ?t" "?t < 2 * 2 ^ k" by (rule carry_arith; rule take_bit_range)+
  have "a + b + of_bool c = ?t + 2 ^ k * (a div 2 ^ k + b div 2 ^ k)"
    using a b by (simp add: algebra_simps)
  then have "(a + b + of_bool c) div 2 ^ k = ?t div 2 ^ k + (a div 2 ^ k + b div 2 ^ k)"
    using div_mult_self2 [of "2 ^ k" ?t "a div 2 ^ k + b div 2 ^ k"] by (simp only: add.commute) simp
  moreover have "?t div 2 ^ k = of_bool (carry_into k a b c)"
  proof (cases "carry_into k a b c")
    case True
    then have "0 \<le> ?t - 2 ^ k" "?t - 2 ^ k < 2 ^ k" using t by (simp_all add: carry_into_def)
    then have "(?t - 2 ^ k) div 2 ^ k = 0" by simp
    moreover have "?t div 2 ^ k = (?t - 2 ^ k) div 2 ^ k + 1"
      using div_add_self2 [of "2 ^ k" "?t - 2 ^ k"] by simp
    ultimately show ?thesis using True by simp
  next
    case False
    then show ?thesis using t by (simp add: carry_into_def)
  qed
  ultimately show ?thesis by (auto simp: bit_iff_odd)
qed

text \<open>The formula of the note for the carry, bit by bit, and that for the borrow.\<close>

lemma carry_formula:
  "(bit s k \<and> bit d k) \<or> (\<not> bit (d + s + of_bool c) k \<and> (bit s k \<or> bit d k)) \<longleftrightarrow> carry_into (Suc k) d s c"
  for d s :: int
  by (auto simp: carry_into_Suc bit_sum)

lemma borrow_formula:
  fixes d s :: int
  assumes "d = r + s + of_bool c"
  shows "(bit r k \<and> (\<not> bit d k \<or> bit s k)) \<or> (\<not> bit d k \<and> bit s k) \<longleftrightarrow> carry_into (Suc k) r s c"
  by (auto simp: carry_into_Suc bit_sum assms)

text \<open>Overflow of two's complement addition is a difference of the last two carries.\<close>

definition signed_value :: "nat \<Rightarrow> int \<Rightarrow> int" where
  "signed_value n a = take_bit n a - (if bit a n then 2 ^ n else 0)"

lemma overflow_carries:
  "(carry_into n a b c \<noteq> carry_into (Suc n) a b c) \<longleftrightarrow>
   signed_value n a + signed_value n b + of_bool c \<notin> {- (2 ^ n) ..< 2 ^ n}"
  unfolding carry_into_def take_bit_top power_Suc signed_value_def by (rule carry_arith) (rule take_bit_range)+

lemma signed_take_bit_value: "signed_take_bit n a = signed_value n a"
  by (simp add: signed_value_def signed_take_bit_eq_take_bit_minus take_bit_top)

lemma sint_value: "sint w = signed_value (LENGTH('a) - 1) (uint w)" for w :: "'a::len word"
  by (simp add: sint_uint flip: signed_take_bit_value)

section \<open>The formulas on machine words\<close>

lemma bit_uint: "bit (uint w) k = bit w k" for w :: "'a::len word"
  using bit_imp_le_length [of w k] by (auto simp: bit_uint_iff)

lemma uint_cast: "LENGTH('a) \<le> 32 \<Longrightarrow> uint (ucast w :: u32) = uint w" for w :: "'a::len word"
proof -
  assume le: "LENGTH('a) \<le> 32"
  have "uint w < 2 ^ LENGTH('a)" by simp
  also have "(2::int) ^ LENGTH('a) \<le> 2 ^ 32" using le by (intro power_increasing) simp_all
  finally show ?thesis by (simp add: unsigned_ucast_eq take_bit_int_eq_self_iff)
qed

lemma bit_sum_word:
  fixes a b :: "'a::len word"
  assumes "k < LENGTH('a)"
  shows "bit (a + b + of_bool c) k = bit (uint a + uint b + of_bool c) k"
proof -
  have "uint (a + b + of_bool c) = take_bit LENGTH('a) (uint a + uint b + of_bool c)"
    by (simp add: uint_word_ariths take_bit_eq_mod mod_simps)
  then have "bit (uint (a + b + of_bool c)) k = bit (uint a + uint b + of_bool c) k"
    using assms by (simp add: bit_take_bit_iff)
  then show ?thesis by (simp only: bit_uint)
qed

lemma carry_chain:
  fixes d s :: "'a::len word"
  assumes "k < LENGTH('a)" "res = d + s + of_bool c"
  shows "bit ((s AND d) OR (NOT res AND (s OR d))) k = carry_into (Suc k) (uint d) (uint s) c"
  using assms bit_sum_word [OF assms(1), of d s c] carry_formula [of "uint s" k "uint d" c]
  by (simp add: bit_simps bit_uint)

lemma borrow_chain:
  fixes d s :: "'a::len word"
  assumes "k < LENGTH('a)" "res = d - s - of_bool c"
  shows "bit ((res AND (NOT d OR s)) OR (NOT d AND s)) k = carry_into (Suc k) (uint res) (uint s) c"
proof -
  have d: "d = res + s + of_bool c" using assms(2) by simp
  have "bit d k = bit (uint res + uint s + of_bool c) k"
    by (subst d) (rule bit_sum_word [OF assms(1)])
  then show ?thesis
    using assms(1) borrow_formula [OF refl, of "uint res" k "uint s" c] by (simp add: bit_simps bit_uint)
qed

text \<open>A borrow in terms of the operands.\<close>

lemma borrow_arith:
  fixes D S C N :: int
  assumes "0 \<le> D" "D < N" "0 \<le> S" "S < N" "0 \<le> C" "C \<le> 1"
  shows "N \<le> (D - S - C) mod N + S + C \<longleftrightarrow> D < S + C"
proof (cases "D < S + C")
  case True
  have "(D - S - C) mod N = (D - S - C + N) mod N" by simp
  also have "\<dots> = D - S - C + N"
    by (rule mod_pos_pos_trivial) (use True assms in linarith)+
  finally show ?thesis using True assms by linarith
next
  case False
  have "(D - S - C) mod N = D - S - C"
    by (rule mod_pos_pos_trivial) (use False assms in linarith)+
  then show ?thesis using False assms by linarith
qed

lemma carry_of_difference:
  assumes "take_bit k r = take_bit k (d - s - of_bool c)"
  shows "carry_into k r s c \<longleftrightarrow> take_bit k d < take_bit k s + of_bool c"
proof -
  have "take_bit k r = (take_bit k d - take_bit k s - of_bool c) mod 2 ^ k"
    using assms by (simp only: take_bit_eq_mod) (metis mod_diff_eq mod_diff_left_eq)
  then show ?thesis
    unfolding carry_into_def by (simp only:) (rule borrow_arith; simp add: take_bit_range)
qed

text \<open>Two's complement subtraction overflows exactly when the addition that undoes it does.\<close>

lemma difference_overflow:
  fixes x d s M :: int
  assumes "x mod (2 * M) = (d - s - c) mod (2 * M)" "x \<in> {- M ..< M}" "d \<in> {- M ..< M}" "0 < M"
  shows "x + s + c \<in> {- M ..< M} \<longleftrightarrow> d - s - c \<in> {- M ..< M}"
proof -
  have unique: "a = b" if "a mod (2 * M) = b mod (2 * M)" "a \<in> {- M ..< M}" "b \<in> {- M ..< M}" for a b :: int
  proof -
    have "(a + M) mod (2 * M) = (b + M) mod (2 * M)" using that(1) by (metis mod_add_left_eq)
    then show ?thesis using that(2,3) by simp
  qed
  have "(x + s + c) mod (2 * M) = (d - s - c + s + c) mod (2 * M)" using assms(1) by (metis mod_add_left_eq)
  then have eq: "(x + s + c) mod (2 * M) = d mod (2 * M)" by simp
  show ?thesis
  proof
    assume "x + s + c \<in> {- M ..< M}"
    then have "x + s + c = d" using unique [OF eq] assms(3) by blast
    then have "d - s - c = x" by simp
    then show "d - s - c \<in> {- M ..< M}" using assms(2) by simp
  next
    assume "d - s - c \<in> {- M ..< M}"
    then have "x = d - s - c" using unique [OF assms(1,2)] by blast
    then have "x + s + c = d" by simp
    then show "x + s + c \<in> {- M ..< M}" using assms(3) by simp
  qed
qed
section \<open>Results and flags at the width of the operands\<close>

lemma cast_hom:
  fixes x y :: "'b::len word"
  assumes "LENGTH('a) \<le> LENGTH('b)"
  shows "(ucast (x + y) :: 'a::len word) = ucast x + ucast y" "(ucast (x - y) :: 'a word) = ucast x - ucast y"
    "(ucast (x * y) :: 'a word) = ucast x * ucast y"
proof -
  have m: "z mod 2 ^ LENGTH('b) mod 2 ^ LENGTH('a) = z mod 2 ^ LENGTH('a)" for z :: int
    using assms by (simp add: mod_mod_cancel le_imp_power_dvd)
  show "(ucast (x + y) :: 'a::len word) = ucast x + ucast y" "(ucast (x - y) :: 'a word) = ucast x - ucast y"
    "(ucast (x * y) :: 'a word) = ucast x * ucast y"
    by (rule word_uint_eqI, simp add: unsigned_ucast_eq uint_word_ariths take_bit_eq_mod m mod_simps)+
qed

lemma cast_back: "LENGTH('a) \<le> LENGTH('b) \<Longrightarrow> ucast (ucast w :: 'b::len word) = w" for w :: "'a::len word"
  by (rule bit_word_eqI) (simp add: bit_simps)

lemma cast_of_bool [simp]: "ucast (of_bool c) = of_bool c"
  by simp

lemma cast_ring:
  assumes "LENGTH('a) \<le> LENGTH('b)"
  shows "ucast (ucast d + ucast s + of_bool c :: 'b::len word) = d + s + (of_bool c :: 'a::len word)"
    "ucast (ucast d - ucast s - of_bool c :: 'b::len word) = d - s - (of_bool c :: 'a::len word)"
  using assms by (simp_all only: cast_hom cast_back cast_of_bool)

lemma cast_zero: "LENGTH('a) \<le> LENGTH('b) \<Longrightarrow> (take_bit LENGTH('a) w = 0) = (ucast w = (0 :: 'a::len word))"
  for w :: "'b::len word"
  by (auto simp: bit_eq_iff bit_simps)

lemma cast_sign: "LENGTH('a) \<le> LENGTH('b) \<Longrightarrow> bit w (LENGTH('a) - 1) = (sint (ucast w :: 'a::len word) < 0)"
  for w :: "'b::len word"
  using bit_last_iff [of "ucast w :: 'a word"] by (simp add: bit_simps)

text \<open>The flags that depend on the result only: zero, sign, parity.\<close>

definition result_flags :: "'a::len word \<Rightarrow> flags \<Rightarrow> bool" where
  "result_flags r f \<longleftrightarrow> ACCESS_FLAG F_ZF f = (r = 0) \<and> ACCESS_FLAG F_SF f = (sint r < 0) \<and>
     ACCESS_FLAG F_PF f = even_parity r"

text \<open>The bits of the register that are not arithmetic flags.\<close>

definition other_bits :: "flags \<Rightarrow> flags \<Rightarrow> bool" where
  "other_bits f f' \<longleftrightarrow> (\<forall>k. k \<notin> {0, 2, 4, 6, 7, 11} \<longrightarrow> bit f' k = bit f k)"

text \<open>
  What the processor manual says of addition with carry in \<open>c\<close>, and of subtraction with borrow in
  \<open>c\<close>: result, carry, overflow, carry or borrow of the low four bits, and the other flags.
\<close>

definition add_flags :: "'a::len word \<Rightarrow> 'a word \<Rightarrow> bool \<Rightarrow> flags \<Rightarrow> flags \<Rightarrow> bool" where
  "add_flags d s c f f' \<longleftrightarrow> result_flags (d + s + of_bool c) f' \<and> other_bits f f' \<and>
     ACCESS_FLAG F_OF f' = (sint d + sint s + of_bool c \<notin> {- (2 ^ (LENGTH('a) - 1)) ..< 2 ^ (LENGTH('a) - 1)}) \<and>
     ACCESS_FLAG F_AF f' = (16 \<le> uint d mod 16 + uint s mod 16 + of_bool c)"

definition sub_flags :: "'a::len word \<Rightarrow> 'a word \<Rightarrow> bool \<Rightarrow> flags \<Rightarrow> flags \<Rightarrow> bool" where
  "sub_flags d s c f f' \<longleftrightarrow> result_flags (d - s - of_bool c) f' \<and> other_bits f f' \<and>
     ACCESS_FLAG F_OF f' = (sint d - sint s - of_bool c \<notin> {- (2 ^ (LENGTH('a) - 1)) ..< 2 ^ (LENGTH('a) - 1)}) \<and>
     ACCESS_FLAG F_AF f' = (uint d mod 16 < uint s mod 16 + of_bool c)"

lemma sint_range: "sint w \<in> {- (2 ^ (LENGTH('a) - 1)) ..< 2 ^ (LENGTH('a) - 1)}" for w :: "'a::len word"
  using sint_ge [of w] sint_lt [of w] by simp

lemma sint_mod:
  "sint (d - s - of_bool c) mod 2 ^ LENGTH('a) = (sint d - sint s - of_bool c) mod 2 ^ LENGTH('a)" for d s :: "'a::len word"
proof -
  have u: "sint w mod 2 ^ LENGTH('a) = uint w" for w :: "'a word"
    using uint_sint [of w] by (simp add: take_bit_eq_mod)
  have "sint (d - s - of_bool c) mod 2 ^ LENGTH('a) = (uint d - uint s - of_bool c) mod 2 ^ LENGTH('a)"
    by (simp add: u uint_word_ariths mod_simps)
  also have "\<dots> = (sint d - sint s - of_bool c) mod 2 ^ LENGTH('a)"
    unfolding u [symmetric] by (metis mod_diff_eq mod_diff_left_eq)
  finally show ?thesis .
qed

lemma add_chain:
  fixes d s :: "'a::len word"
  assumes le: "LENGTH('a) \<le> 32" "4 \<le> LENGTH('a)" and res: "res = ucast d + ucast s + (of_bool c :: u32)"
  defines "cc \<equiv> ((ucast s :: u32) AND ucast d) OR (NOT res AND (ucast s OR ucast d))"
  shows "bit cc (LENGTH('a) - 2) \<noteq> bit cc (LENGTH('a) - 1) \<longleftrightarrow>
      sint d + sint s + of_bool c \<notin> {- (2 ^ (LENGTH('a) - 1)) ..< 2 ^ (LENGTH('a) - 1)}"
    "bit cc 3 \<longleftrightarrow> 16 \<le> uint d mod 16 + uint s mod 16 + of_bool c"
    "LENGTH('a) < 32 \<Longrightarrow> bit res LENGTH('a) \<longleftrightarrow> 2 ^ LENGTH('a) \<le> uint d + uint s + of_bool c"
proof -
  have cc: "bit cc k = carry_into (Suc k) (uint d) (uint s) c" if "k < 32" for k
    using carry_chain [of k res "ucast d" "ucast s" c] that res by (simp add: cc_def uint_cast [OF le(1)])
  have n: "Suc (Suc (LENGTH('a) - 2)) = LENGTH('a)" "Suc (LENGTH('a) - 2) = LENGTH('a) - 1" "Suc (LENGTH('a) - 1) = LENGTH('a)"
    using le by simp_all
  show "bit cc (LENGTH('a) - 2) \<noteq> bit cc (LENGTH('a) - 1) \<longleftrightarrow>
      sint d + sint s + of_bool c \<notin> {- (2 ^ (LENGTH('a) - 1)) ..< 2 ^ (LENGTH('a) - 1)}"
    using cc [of "LENGTH('a) - 2"] cc [of "LENGTH('a) - 1"] le n overflow_carries [of "LENGTH('a) - 1" "uint d" "uint s" c] by (simp add: sint_value)
  show "bit cc 3 \<longleftrightarrow> 16 \<le> uint d mod 16 + uint s mod 16 + of_bool c"
    using cc [of 3] by (simp add: carry_into_def take_bit_eq_mod)
  assume "LENGTH('a) < 32"
  then have "bit res LENGTH('a) = bit (uint d + uint s + of_bool c) LENGTH('a)"
    using bit_sum_word [of "LENGTH('a)" "ucast d :: u32" "ucast s" c] res le by (simp add: uint_cast)
  also have "\<dots> = carry_into LENGTH('a) (uint d) (uint s) c"
    using bit_imp_le_length by (auto simp: bit_sum bit_uint)
  finally show "bit res LENGTH('a) \<longleftrightarrow> 2 ^ LENGTH('a) \<le> uint d + uint s + of_bool c"
    by (simp add: carry_into_def take_bit_int_eq_self)
qed

lemma sub_chain:
  fixes d s :: "'a::len word"
  assumes le: "LENGTH('a) \<le> 32" "4 \<le> LENGTH('a)" and res: "res = ucast d - ucast s - (of_bool c :: u32)"
  defines "bc \<equiv> (res AND (NOT (ucast d) OR ucast s)) OR (NOT (ucast d) AND (ucast s :: u32))"
  shows "bit bc (LENGTH('a) - 2) \<noteq> bit bc (LENGTH('a) - 1) \<longleftrightarrow>
      sint d - sint s - of_bool c \<notin> {- (2 ^ (LENGTH('a) - 1)) ..< 2 ^ (LENGTH('a) - 1)}"
    "bit bc 3 \<longleftrightarrow> uint d mod 16 < uint s mod 16 + of_bool c"
    "bit bc (LENGTH('a) - 1) \<longleftrightarrow> uint d < uint s + of_bool c"
proof -
  have bc: "bit bc k = carry_into (Suc k) (uint res) (uint s) c" if "k < 32" for k
    using borrow_chain [of k res "ucast d" "ucast s" c] that res by (simp add: bc_def uint_cast [OF le(1)])
  have ures: "take_bit k (uint res) = take_bit k (uint d - uint s - of_bool c)" if "k \<le> 32" for k
  proof -
    have "uint res = take_bit 32 (uint d - uint s - of_bool c)"
      by (simp add: res uint_word_ariths uint_cast [OF le(1)] take_bit_eq_mod mod_simps)
    then show ?thesis using that by (simp add: min_absorb1)
  qed
  have b: "bit bc k \<longleftrightarrow> take_bit (Suc k) (uint d) < take_bit (Suc k) (uint s) + of_bool c" if "k < 32" for k
    using bc [OF that] carry_of_difference [OF ures] that by simp
  have n: "Suc (Suc (LENGTH('a) - 2)) = LENGTH('a)" "Suc (LENGTH('a) - 2) = LENGTH('a) - 1" "Suc (LENGTH('a) - 1) = LENGTH('a)"
    using le by simp_all
  show "bit bc 3 \<longleftrightarrow> uint d mod 16 < uint s mod 16 + of_bool c"
    using b [of 3] by (simp add: take_bit_eq_mod)
  show "bit bc (LENGTH('a) - 1) \<longleftrightarrow> uint d < uint s + of_bool c"
    using b [of "LENGTH('a) - 1"] le n by (simp add: take_bit_int_eq_self)
  let ?r = "d - s - of_bool c" and ?M = "2 ^ (LENGTH('a) - 1) :: int"
  have r: "take_bit k (uint res) = take_bit k (uint ?r)" if "k \<le> LENGTH('a)" for k
  proof -
    have "uint ?r = take_bit LENGTH('a) (uint d - uint s - of_bool c)"
      by (simp add: uint_word_ariths take_bit_eq_mod mod_simps)
    then show ?thesis using that ures [of k] le by (simp add: min_absorb1)
  qed
  have cr: "carry_into k (uint res) (uint s) c = carry_into k (uint ?r) (uint s) c" if "k \<le> LENGTH('a)" for k
    using r [OF that] by (simp add: carry_into_def)
  have "bit bc (LENGTH('a) - 2) \<noteq> bit bc (LENGTH('a) - 1) \<longleftrightarrow> sint ?r + sint s + of_bool c \<notin> {- ?M ..< ?M}"
    using bc [of "LENGTH('a) - 2"] bc [of "LENGTH('a) - 1"] cr [of "LENGTH('a) - 1"] cr [of "LENGTH('a)"] le n
      overflow_carries [of "LENGTH('a) - 1" "uint ?r" "uint s" c] by (simp add: sint_value)
  also have "\<dots> \<longleftrightarrow> sint d - sint s - of_bool c \<notin> {- ?M ..< ?M}"
  proof -
    have two: "2 * ?M = 2 ^ LENGTH('a)" using n(3) by (metis power_Suc)
    have "sint ?r mod (2 * ?M) = (sint d - sint s - of_bool c) mod (2 * ?M)"
      unfolding two by (rule sint_mod)
    then have "sint ?r + sint s + of_bool c \<in> {- ?M ..< ?M} \<longleftrightarrow> sint d - sint s - of_bool c \<in> {- ?M ..< ?M}"
      by (rule difference_overflow) (use sint_range in auto)
    then show ?thesis by blast
  qed
  finally show "bit bc (LENGTH('a) - 2) \<noteq> bit bc (LENGTH('a) - 1) \<longleftrightarrow>
      sint d - sint s - of_bool c \<notin> {- (2 ^ (LENGTH('a) - 1)) ..< 2 ^ (LENGTH('a) - 1)}" .
qed

text \<open>The same from the bits the code tests, as they are in the functions below.\<close>

lemma result_flagsI:
  fixes r :: "'a::len word" and res :: u32
  assumes "8 \<le> LENGTH('a)" "LENGTH('a) \<le> 32" "ucast res = r"
    "bit f' 6 = (take_bit LENGTH('a) res = 0)" "bit f' 7 = bit res (LENGTH('a) - 1)" "bit f' 2 = even_parity res"
  shows "result_flags r f'"
  using assms cast_zero [where 'a = 'a, of res] cast_sign [where 'a = 'a, of res]
    even_parity_ucast [where 'b = 'a, of res]
  by (simp add: result_flags_def flag_simps)

lemma add_flagsI:
  fixes d s :: "'a::len word" and res :: u32
  assumes le: "8 \<le> LENGTH('a)" "LENGTH('a) \<le> 32" and res: "res = ucast d + ucast s + of_bool c"
    and cc: "cc = ((ucast s :: u32) AND ucast d) OR (NOT res AND (ucast s OR ucast d))"
    and zsp: "bit f' 6 = (take_bit LENGTH('a) res = 0)" "bit f' 7 = bit res (LENGTH('a) - 1)" "bit f' 2 = even_parity res"
    and oa: "bit f' 11 = (bit cc (LENGTH('a) - 2) \<noteq> bit cc (LENGTH('a) - 1))" "bit f' 4 = bit cc 3"
    and other: "other_bits f f'"
  shows "add_flags d s c f f'"
proof -
  have "ucast res = d + s + of_bool c" unfolding res using le by (simp add: cast_ring)
  then have "result_flags (d + s + of_bool c) f'" by (rule result_flagsI [OF le _ zsp])
  moreover have "4 \<le> LENGTH('a)" using le by simp
  ultimately show ?thesis
    using add_chain(1,2) [OF le(2) _ res] other oa cc by (simp add: add_flags_def flag_simps)
qed

lemma sub_flagsI:
  fixes d s :: "'a::len word" and res :: u32
  assumes le: "8 \<le> LENGTH('a)" "LENGTH('a) \<le> 32" and res: "res = ucast d - ucast s - of_bool c"
    and bc: "bc = (res AND (NOT (ucast d) OR ucast s)) OR (NOT (ucast d) AND (ucast s :: u32))"
    and zsp: "bit f' 6 = (take_bit LENGTH('a) res = 0)" "bit f' 7 = bit res (LENGTH('a) - 1)" "bit f' 2 = even_parity res"
    and oa: "bit f' 11 = (bit bc (LENGTH('a) - 2) \<noteq> bit bc (LENGTH('a) - 1))" "bit f' 4 = bit bc 3"
    and other: "other_bits f f'"
  shows "sub_flags d s c f f'"
proof -
  have "ucast res = d - s - of_bool c" unfolding res using le by (simp add: cast_ring)
  then have "result_flags (d - s - of_bool c) f'" by (rule result_flagsI [OF le _ zsp])
  moreover have "4 \<le> LENGTH('a)" using le by simp
  ultimately show ?thesis
    using sub_chain(1,2) [OF le(2) _ res] other oa bc by (simp add: sub_flags_def flag_simps)
qed

lemma other_bitsI:
  "(\<And>k. k \<notin> {0, 2, 4, 6, 7, 11} \<Longrightarrow> bit f' k = bit f k) \<Longrightarrow> other_bits f f'"
  by (simp add: other_bits_def)

end
