(* ===== verification/X86emu_Arith.thy ===== *)
theory X86emu_Arith
  imports X86emu_Carry
begin

text \<open>
  \<^verbatim>\<open>libx86emu/prim_ops.c\<close>: addition, subtraction, comparison, increment, decrement and
  negation of 8, 16 and 32 bits, and the conditions of jumps. A C operand narrower than 32 bits is
  promoted, which is \<open>ucast\<close> here, and the intermediate values are 32 bits wide as in the source.
\<close>

section \<open>Instructions\<close>

definition adc_byte :: "u8 \<Rightarrow> u8 \<Rightarrow> flags \<Rightarrow> u8 \<times> flags" where
  "adc_byte d s f =
     (let res = (if ACCESS_FLAG F_CF f then 1 + ucast d + ucast s else ucast d + ucast s) :: u32;
          f = CONDITIONAL_SET_FLAG (res AND 0x100 \<noteq> 0) F_CF f;
          f = CONDITIONAL_SET_FLAG (res AND 0xff = 0) F_ZF f;
          f = CONDITIONAL_SET_FLAG (res AND 0x80 \<noteq> 0) F_SF f;
          f = CONDITIONAL_SET_FLAG (PARITY (res AND 0xff)) F_PF f;
          cc = (ucast s AND ucast d) OR (NOT res AND (ucast s OR ucast d));
          f = CONDITIONAL_SET_FLAG (XOR2 (drop_bit 6 cc)) F_OF f;
          f = CONDITIONAL_SET_FLAG (cc AND 0x8 \<noteq> 0) F_AF f
      in (ucast res, f))"

definition add_byte :: "u8 \<Rightarrow> u8 \<Rightarrow> flags \<Rightarrow> u8 \<times> flags" where
  "add_byte d s f =
     (let res = ucast d + ucast s :: u32;
          f = CONDITIONAL_SET_FLAG (res AND 0x100 \<noteq> 0) F_CF f;
          f = CONDITIONAL_SET_FLAG (res AND 0xff = 0) F_ZF f;
          f = CONDITIONAL_SET_FLAG (res AND 0x80 \<noteq> 0) F_SF f;
          f = CONDITIONAL_SET_FLAG (PARITY (res AND 0xff)) F_PF f;
          cc = (ucast s AND ucast d) OR (NOT res AND (ucast s OR ucast d));
          f = CONDITIONAL_SET_FLAG (XOR2 (drop_bit 6 cc)) F_OF f;
          f = CONDITIONAL_SET_FLAG (cc AND 0x8 \<noteq> 0) F_AF f
      in (ucast res, f))"

definition sbb_byte :: "u8 \<Rightarrow> u8 \<Rightarrow> flags \<Rightarrow> u8 \<times> flags" where
  "sbb_byte d s f =
     (let res = (if ACCESS_FLAG F_CF f then ucast d - ucast s - 1 else ucast d - ucast s) :: u32;
          f = CONDITIONAL_SET_FLAG (res AND 0x80 \<noteq> 0) F_SF f;
          f = CONDITIONAL_SET_FLAG (res AND 0xff = 0) F_ZF f;
          f = CONDITIONAL_SET_FLAG (PARITY (res AND 0xff)) F_PF f;
          bc = (res AND (NOT (ucast d) OR ucast s)) OR (NOT (ucast d) AND ucast s);
          f = CONDITIONAL_SET_FLAG (bc AND 0x80 \<noteq> 0) F_CF f;
          f = CONDITIONAL_SET_FLAG (XOR2 (drop_bit 6 bc)) F_OF f;
          f = CONDITIONAL_SET_FLAG (bc AND 0x8 \<noteq> 0) F_AF f
      in (ucast res, f))"

definition sub_byte :: "u8 \<Rightarrow> u8 \<Rightarrow> flags \<Rightarrow> u8 \<times> flags" where
  "sub_byte d s f =
     (let res = ucast d - ucast s :: u32;
          f = CONDITIONAL_SET_FLAG (res AND 0x80 \<noteq> 0) F_SF f;
          f = CONDITIONAL_SET_FLAG (res AND 0xff = 0) F_ZF f;
          f = CONDITIONAL_SET_FLAG (PARITY (res AND 0xff)) F_PF f;
          bc = (res AND (NOT (ucast d) OR ucast s)) OR (NOT (ucast d) AND ucast s);
          f = CONDITIONAL_SET_FLAG (bc AND 0x80 \<noteq> 0) F_CF f;
          f = CONDITIONAL_SET_FLAG (XOR2 (drop_bit 6 bc)) F_OF f;
          f = CONDITIONAL_SET_FLAG (bc AND 0x8 \<noteq> 0) F_AF f
      in (ucast res, f))"

definition cmp_byte :: "u8 \<Rightarrow> u8 \<Rightarrow> flags \<Rightarrow> u8 \<times> flags" where
  "cmp_byte d s f =
     (let res = ucast d - ucast s :: u32;
          f = CLEAR_FLAG F_CF f;
          f = CONDITIONAL_SET_FLAG (res AND 0x80 \<noteq> 0) F_SF f;
          f = CONDITIONAL_SET_FLAG (res AND 0xff = 0) F_ZF f;
          f = CONDITIONAL_SET_FLAG (PARITY (res AND 0xff)) F_PF f;
          bc = (res AND (NOT (ucast d) OR ucast s)) OR (NOT (ucast d) AND ucast s);
          f = CONDITIONAL_SET_FLAG (bc AND 0x80 \<noteq> 0) F_CF f;
          f = CONDITIONAL_SET_FLAG (XOR2 (drop_bit 6 bc)) F_OF f;
          f = CONDITIONAL_SET_FLAG (bc AND 0x8 \<noteq> 0) F_AF f
      in (d, f))"

definition inc_byte :: "u8 \<Rightarrow> flags \<Rightarrow> u8 \<times> flags" where
  "inc_byte d f =
     (let res = ucast d + 1 :: u32;
          f = CONDITIONAL_SET_FLAG (res AND 0xff = 0) F_ZF f;
          f = CONDITIONAL_SET_FLAG (res AND 0x80 \<noteq> 0) F_SF f;
          f = CONDITIONAL_SET_FLAG (PARITY (res AND 0xff)) F_PF f;
          cc = ((1 AND ucast d) OR NOT res) AND (1 OR ucast d);
          f = CONDITIONAL_SET_FLAG (XOR2 (drop_bit 6 cc)) F_OF f;
          f = CONDITIONAL_SET_FLAG (cc AND 0x8 \<noteq> 0) F_AF f
      in (ucast res, f))"

definition dec_byte :: "u8 \<Rightarrow> flags \<Rightarrow> u8 \<times> flags" where
  "dec_byte d f =
     (let res = ucast d - 1 :: u32;
          f = CONDITIONAL_SET_FLAG (res AND 0x80 \<noteq> 0) F_SF f;
          f = CONDITIONAL_SET_FLAG (res AND 0xff = 0) F_ZF f;
          f = CONDITIONAL_SET_FLAG (PARITY (res AND 0xff)) F_PF f;
          bc = (res AND (NOT (ucast d) OR 1)) OR (NOT (ucast d) AND 1);
          f = CONDITIONAL_SET_FLAG (XOR2 (drop_bit 6 bc)) F_OF f;
          f = CONDITIONAL_SET_FLAG (bc AND 0x8 \<noteq> 0) F_AF f
      in (ucast res, f))"

definition neg_byte :: "u8 \<Rightarrow> flags \<Rightarrow> u8 \<times> flags" where
  "neg_byte s f =
     (let f = CONDITIONAL_SET_FLAG (s \<noteq> 0) F_CF f;
          res = - s;
          f = CONDITIONAL_SET_FLAG (res AND 0xff = 0) F_ZF f;
          f = CONDITIONAL_SET_FLAG (res AND 0x80 \<noteq> 0) F_SF f;
          f = CONDITIONAL_SET_FLAG (PARITY (ucast res)) F_PF f;
          bc = res OR s;
          f = CONDITIONAL_SET_FLAG (XOR2 (ucast (drop_bit 6 bc))) F_OF f;
          f = CONDITIONAL_SET_FLAG (bc AND 0x8 \<noteq> 0) F_AF f
      in (res, f))"

definition adc_word :: "u16 \<Rightarrow> u16 \<Rightarrow> flags \<Rightarrow> u16 \<times> flags" where
  "adc_word d s f =
     (let res = (if ACCESS_FLAG F_CF f then 1 + ucast d + ucast s else ucast d + ucast s) :: u32;
          f = CONDITIONAL_SET_FLAG (res AND 0x10000 \<noteq> 0) F_CF f;
          f = CONDITIONAL_SET_FLAG (res AND 0xffff = 0) F_ZF f;
          f = CONDITIONAL_SET_FLAG (res AND 0x8000 \<noteq> 0) F_SF f;
          f = CONDITIONAL_SET_FLAG (PARITY (res AND 0xff)) F_PF f;
          cc = (ucast s AND ucast d) OR (NOT res AND (ucast s OR ucast d));
          f = CONDITIONAL_SET_FLAG (XOR2 (drop_bit 14 cc)) F_OF f;
          f = CONDITIONAL_SET_FLAG (cc AND 0x8 \<noteq> 0) F_AF f
      in (ucast res, f))"

definition add_word :: "u16 \<Rightarrow> u16 \<Rightarrow> flags \<Rightarrow> u16 \<times> flags" where
  "add_word d s f =
     (let res = ucast d + ucast s :: u32;
          f = CONDITIONAL_SET_FLAG (res AND 0x10000 \<noteq> 0) F_CF f;
          f = CONDITIONAL_SET_FLAG (res AND 0xffff = 0) F_ZF f;
          f = CONDITIONAL_SET_FLAG (res AND 0x8000 \<noteq> 0) F_SF f;
          f = CONDITIONAL_SET_FLAG (PARITY (res AND 0xff)) F_PF f;
          cc = (ucast s AND ucast d) OR (NOT res AND (ucast s OR ucast d));
          f = CONDITIONAL_SET_FLAG (XOR2 (drop_bit 14 cc)) F_OF f;
          f = CONDITIONAL_SET_FLAG (cc AND 0x8 \<noteq> 0) F_AF f
      in (ucast res, f))"

definition sbb_word :: "u16 \<Rightarrow> u16 \<Rightarrow> flags \<Rightarrow> u16 \<times> flags" where
  "sbb_word d s f =
     (let res = (if ACCESS_FLAG F_CF f then ucast d - ucast s - 1 else ucast d - ucast s) :: u32;
          f = CONDITIONAL_SET_FLAG (res AND 0x8000 \<noteq> 0) F_SF f;
          f = CONDITIONAL_SET_FLAG (res AND 0xffff = 0) F_ZF f;
          f = CONDITIONAL_SET_FLAG (PARITY (res AND 0xff)) F_PF f;
          bc = (res AND (NOT (ucast d) OR ucast s)) OR (NOT (ucast d) AND ucast s);
          f = CONDITIONAL_SET_FLAG (bc AND 0x8000 \<noteq> 0) F_CF f;
          f = CONDITIONAL_SET_FLAG (XOR2 (drop_bit 14 bc)) F_OF f;
          f = CONDITIONAL_SET_FLAG (bc AND 0x8 \<noteq> 0) F_AF f
      in (ucast res, f))"

definition sub_word :: "u16 \<Rightarrow> u16 \<Rightarrow> flags \<Rightarrow> u16 \<times> flags" where
  "sub_word d s f =
     (let res = ucast d - ucast s :: u32;
          f = CONDITIONAL_SET_FLAG (res AND 0x8000 \<noteq> 0) F_SF f;
          f = CONDITIONAL_SET_FLAG (res AND 0xffff = 0) F_ZF f;
          f = CONDITIONAL_SET_FLAG (PARITY (res AND 0xff)) F_PF f;
          bc = (res AND (NOT (ucast d) OR ucast s)) OR (NOT (ucast d) AND ucast s);
          f = CONDITIONAL_SET_FLAG (bc AND 0x8000 \<noteq> 0) F_CF f;
          f = CONDITIONAL_SET_FLAG (XOR2 (drop_bit 14 bc)) F_OF f;
          f = CONDITIONAL_SET_FLAG (bc AND 0x8 \<noteq> 0) F_AF f
      in (ucast res, f))"

definition cmp_word :: "u16 \<Rightarrow> u16 \<Rightarrow> flags \<Rightarrow> u16 \<times> flags" where
  "cmp_word d s f =
     (let res = ucast d - ucast s :: u32;
          f = CONDITIONAL_SET_FLAG (res AND 0x8000 \<noteq> 0) F_SF f;
          f = CONDITIONAL_SET_FLAG (res AND 0xffff = 0) F_ZF f;
          f = CONDITIONAL_SET_FLAG (PARITY (res AND 0xff)) F_PF f;
          bc = (res AND (NOT (ucast d) OR ucast s)) OR (NOT (ucast d) AND ucast s);
          f = CONDITIONAL_SET_FLAG (bc AND 0x8000 \<noteq> 0) F_CF f;
          f = CONDITIONAL_SET_FLAG (XOR2 (drop_bit 14 bc)) F_OF f;
          f = CONDITIONAL_SET_FLAG (bc AND 0x8 \<noteq> 0) F_AF f
      in (d, f))"

definition inc_word :: "u16 \<Rightarrow> flags \<Rightarrow> u16 \<times> flags" where
  "inc_word d f =
     (let res = ucast d + 1 :: u32;
          f = CONDITIONAL_SET_FLAG (res AND 0xffff = 0) F_ZF f;
          f = CONDITIONAL_SET_FLAG (res AND 0x8000 \<noteq> 0) F_SF f;
          f = CONDITIONAL_SET_FLAG (PARITY (res AND 0xff)) F_PF f;
          cc = (1 AND ucast d) OR (NOT res AND (1 OR ucast d));
          f = CONDITIONAL_SET_FLAG (XOR2 (drop_bit 14 cc)) F_OF f;
          f = CONDITIONAL_SET_FLAG (cc AND 0x8 \<noteq> 0) F_AF f
      in (ucast res, f))"

definition dec_word :: "u16 \<Rightarrow> flags \<Rightarrow> u16 \<times> flags" where
  "dec_word d f =
     (let res = ucast d - 1 :: u32;
          f = CONDITIONAL_SET_FLAG (res AND 0x8000 \<noteq> 0) F_SF f;
          f = CONDITIONAL_SET_FLAG (res AND 0xffff = 0) F_ZF f;
          f = CONDITIONAL_SET_FLAG (PARITY (res AND 0xff)) F_PF f;
          bc = (res AND (NOT (ucast d) OR 1)) OR (NOT (ucast d) AND 1);
          f = CONDITIONAL_SET_FLAG (XOR2 (drop_bit 14 bc)) F_OF f;
          f = CONDITIONAL_SET_FLAG (bc AND 0x8 \<noteq> 0) F_AF f
      in (ucast res, f))"

definition neg_word :: "u16 \<Rightarrow> flags \<Rightarrow> u16 \<times> flags" where
  "neg_word s f =
     (let f = CONDITIONAL_SET_FLAG (s \<noteq> 0) F_CF f;
          res = - s;
          f = CONDITIONAL_SET_FLAG (res AND 0xffff = 0) F_ZF f;
          f = CONDITIONAL_SET_FLAG (res AND 0x8000 \<noteq> 0) F_SF f;
          f = CONDITIONAL_SET_FLAG (PARITY (ucast (res AND 0xff))) F_PF f;
          bc = res OR s;
          f = CONDITIONAL_SET_FLAG (XOR2 (ucast (drop_bit 14 bc))) F_OF f;
          f = CONDITIONAL_SET_FLAG (bc AND 0x8 \<noteq> 0) F_AF f
      in (res, f))"

definition adc_long :: "u32 \<Rightarrow> u32 \<Rightarrow> flags \<Rightarrow> u32 \<times> flags" where
  "adc_long d s f =
     (let (lo, res) = (if ACCESS_FLAG F_CF f then (1 + (d AND 0xFFFF) + (s AND 0xFFFF), 1 + d + s)
                       else ((d AND 0xFFFF) + (s AND 0xFFFF), d + s));
          hi = drop_bit 16 lo + drop_bit 16 d + drop_bit 16 s;
          f = CONDITIONAL_SET_FLAG (hi AND 0x10000 \<noteq> 0) F_CF f;
          f = CONDITIONAL_SET_FLAG (res AND 0xffffffff = 0) F_ZF f;
          f = CONDITIONAL_SET_FLAG (res AND 0x80000000 \<noteq> 0) F_SF f;
          f = CONDITIONAL_SET_FLAG (PARITY (res AND 0xff)) F_PF f;
          cc = (s AND d) OR (NOT res AND (s OR d));
          f = CONDITIONAL_SET_FLAG (XOR2 (drop_bit 30 cc)) F_OF f;
          f = CONDITIONAL_SET_FLAG (cc AND 0x8 \<noteq> 0) F_AF f
      in (res, f))"

definition add_long :: "u32 \<Rightarrow> u32 \<Rightarrow> flags \<Rightarrow> u32 \<times> flags" where
  "add_long d s f =
     (let lo = (d AND 0xFFFF) + (s AND 0xFFFF);
          res = d + s;
          hi = drop_bit 16 lo + drop_bit 16 d + drop_bit 16 s;
          f = CONDITIONAL_SET_FLAG (hi AND 0x10000 \<noteq> 0) F_CF f;
          f = CONDITIONAL_SET_FLAG (res AND 0xffffffff = 0) F_ZF f;
          f = CONDITIONAL_SET_FLAG (res AND 0x80000000 \<noteq> 0) F_SF f;
          f = CONDITIONAL_SET_FLAG (PARITY (res AND 0xff)) F_PF f;
          cc = (s AND d) OR (NOT res AND (s OR d));
          f = CONDITIONAL_SET_FLAG (XOR2 (drop_bit 30 cc)) F_OF f;
          f = CONDITIONAL_SET_FLAG (cc AND 0x8 \<noteq> 0) F_AF f
      in (res, f))"

definition sbb_long :: "u32 \<Rightarrow> u32 \<Rightarrow> flags \<Rightarrow> u32 \<times> flags" where
  "sbb_long d s f =
     (let res = (if ACCESS_FLAG F_CF f then d - s - 1 else d - s) :: u32;
          f = CONDITIONAL_SET_FLAG (res AND 0x80000000 \<noteq> 0) F_SF f;
          f = CONDITIONAL_SET_FLAG (res AND 0xffffffff = 0) F_ZF f;
          f = CONDITIONAL_SET_FLAG (PARITY (res AND 0xff)) F_PF f;
          bc = (res AND (NOT d OR s)) OR (NOT d AND s);
          f = CONDITIONAL_SET_FLAG (bc AND 0x80000000 \<noteq> 0) F_CF f;
          f = CONDITIONAL_SET_FLAG (XOR2 (drop_bit 30 bc)) F_OF f;
          f = CONDITIONAL_SET_FLAG (bc AND 0x8 \<noteq> 0) F_AF f
      in (res, f))"

definition sub_long :: "u32 \<Rightarrow> u32 \<Rightarrow> flags \<Rightarrow> u32 \<times> flags" where
  "sub_long d s f =
     (let res = d - s :: u32;
          f = CONDITIONAL_SET_FLAG (res AND 0x80000000 \<noteq> 0) F_SF f;
          f = CONDITIONAL_SET_FLAG (res AND 0xffffffff = 0) F_ZF f;
          f = CONDITIONAL_SET_FLAG (PARITY (res AND 0xff)) F_PF f;
          bc = (res AND (NOT d OR s)) OR (NOT d AND s);
          f = CONDITIONAL_SET_FLAG (bc AND 0x80000000 \<noteq> 0) F_CF f;
          f = CONDITIONAL_SET_FLAG (XOR2 (drop_bit 30 bc)) F_OF f;
          f = CONDITIONAL_SET_FLAG (bc AND 0x8 \<noteq> 0) F_AF f
      in (res, f))"

definition cmp_long :: "u32 \<Rightarrow> u32 \<Rightarrow> flags \<Rightarrow> u32 \<times> flags" where
  "cmp_long d s f =
     (let res = d - s :: u32;
          f = CONDITIONAL_SET_FLAG (res AND 0x80000000 \<noteq> 0) F_SF f;
          f = CONDITIONAL_SET_FLAG (res AND 0xffffffff = 0) F_ZF f;
          f = CONDITIONAL_SET_FLAG (PARITY (res AND 0xff)) F_PF f;
          bc = (res AND (NOT d OR s)) OR (NOT d AND s);
          f = CONDITIONAL_SET_FLAG (bc AND 0x80000000 \<noteq> 0) F_CF f;
          f = CONDITIONAL_SET_FLAG (XOR2 (drop_bit 30 bc)) F_OF f;
          f = CONDITIONAL_SET_FLAG (bc AND 0x8 \<noteq> 0) F_AF f
      in (d, f))"

definition inc_long :: "u32 \<Rightarrow> flags \<Rightarrow> u32 \<times> flags" where
  "inc_long d f =
     (let res = d + 1 :: u32;
          f = CONDITIONAL_SET_FLAG (res AND 0xffffffff = 0) F_ZF f;
          f = CONDITIONAL_SET_FLAG (res AND 0x80000000 \<noteq> 0) F_SF f;
          f = CONDITIONAL_SET_FLAG (PARITY (res AND 0xff)) F_PF f;
          cc = (1 AND d) OR (NOT res AND (1 OR d));
          f = CONDITIONAL_SET_FLAG (XOR2 (drop_bit 30 cc)) F_OF f;
          f = CONDITIONAL_SET_FLAG (cc AND 0x8 \<noteq> 0) F_AF f
      in (res, f))"

definition dec_long :: "u32 \<Rightarrow> flags \<Rightarrow> u32 \<times> flags" where
  "dec_long d f =
     (let res = d - 1 :: u32;
          f = CONDITIONAL_SET_FLAG (res AND 0x80000000 \<noteq> 0) F_SF f;
          f = CONDITIONAL_SET_FLAG (res AND 0xffffffff = 0) F_ZF f;
          f = CONDITIONAL_SET_FLAG (PARITY (res AND 0xff)) F_PF f;
          bc = (res AND (NOT d OR 1)) OR (NOT d AND 1);
          f = CONDITIONAL_SET_FLAG (XOR2 (drop_bit 30 bc)) F_OF f;
          f = CONDITIONAL_SET_FLAG (bc AND 0x8 \<noteq> 0) F_AF f
      in (res, f))"

definition neg_long :: "u32 \<Rightarrow> flags \<Rightarrow> u32 \<times> flags" where
  "neg_long s f =
     (let f = CONDITIONAL_SET_FLAG (s \<noteq> 0) F_CF f;
          res = - s;
          f = CONDITIONAL_SET_FLAG (res AND 0xffffffff = 0) F_ZF f;
          f = CONDITIONAL_SET_FLAG (res AND 0x80000000 \<noteq> 0) F_SF f;
          f = CONDITIONAL_SET_FLAG (PARITY (res AND 0xff)) F_PF f;
          bc = res OR s;
          f = CONDITIONAL_SET_FLAG (XOR2 ((drop_bit 30 bc))) F_OF f;
          f = CONDITIONAL_SET_FLAG (bc AND 0x8 \<noteq> 0) F_AF f
      in (res, f))"

section \<open>Addition and subtraction\<close>

text \<open>
  What an instruction returns and does to the flags, as a relation between its operands, the
  incoming carry and the register before.
\<close>

definition is_add :: "'a::len word \<times> flags \<Rightarrow> 'a word \<Rightarrow> 'a word \<Rightarrow> bool \<Rightarrow> flags \<Rightarrow> bool" where
  "is_add rf d s c f \<longleftrightarrow> fst rf = d + s + of_bool c \<and> add_flags d s c f (snd rf) \<and>
     ACCESS_FLAG F_CF (snd rf) = (2 ^ LENGTH('a) \<le> uint d + uint s + of_bool c)"

definition is_sub :: "'a::len word \<times> flags \<Rightarrow> 'a word \<Rightarrow> 'a word \<Rightarrow> bool \<Rightarrow> flags \<Rightarrow> bool" where
  "is_sub rf d s c f \<longleftrightarrow> fst rf = d - s - of_bool c \<and> sub_flags d s c f (snd rf) \<and>
     ACCESS_FLAG F_CF (snd rf) = (uint d < uint s + of_bool c)"

lemmas alu_simps = flag_simps test_bit_masks XOR2_bit bit_drop_bit_eq bit_and_iff bit_or_iff bit_not_iff other_bits_def

lemma mask_32 [simp]: "w AND 0xFFFFFFFF = w" for w :: u32
proof -
  have "(0xFFFFFFFF :: u32) = mask 32" by (simp add: mask_eq_exp_minus_1)
  then show ?thesis by (simp only: flip: take_bit_eq_mask) (simp add: take_bit_word_eq_self)
qed

lemma take_bit_32 [simp]: "take_bit 32 w = w" for w :: u32
  by (simp add: take_bit_word_eq_self)

lemma take_bit_16 [simp]: "take_bit 16 w = w" for w :: u16
  by (simp add: take_bit_word_eq_self)

lemma take_bit_8 [simp]: "take_bit 8 w = w" for w :: u8
  by (simp add: take_bit_word_eq_self)

lemma PARITY_word [simp]: "PARITY (ucast (take_bit 8 w)) = even_parity w" for w :: u16
  using PARITY_byte [of "ucast w"] by (simp add: unsigned_take_bit_eq)

lemma incoming:
  "(if c then 1 + d + s else d + s) = d + s + of_bool c" "(if c then d - s - 1 else d - s) = d - s - of_bool c"
  "d + s = d + s + of_bool False" "d - s = d - s - of_bool False"
  for d s :: u32
  by simp_all

lemma is_addI:
  fixes d s :: "'a::len word" and res :: u32
  assumes "8 \<le> LENGTH('a)" "LENGTH('a) \<le> 32" "res = ucast d + ucast s + of_bool c"
    and "fst rf = ucast res"
    and "bit (snd rf) 0 = (if LENGTH('a) < 32 then bit res LENGTH('a) else 2 ^ LENGTH('a) \<le> uint d + uint s + of_bool c)"
    and "cc = ((ucast s :: u32) AND ucast d) OR (NOT res AND (ucast s OR ucast d))"
    and "bit (snd rf) 6 = (take_bit LENGTH('a) res = 0)" "bit (snd rf) 7 = bit res (LENGTH('a) - 1)"
      "bit (snd rf) 2 = even_parity res"
    and "bit (snd rf) 11 = (bit cc (LENGTH('a) - 2) \<noteq> bit cc (LENGTH('a) - 1))" "bit (snd rf) 4 = bit cc 3"
    and "other_bits f (snd rf)"
  shows "is_add rf d s c f"
proof -
  have "add_flags d s c f (snd rf)" by (rule add_flagsI) (use assms in simp_all)
  moreover have "LENGTH('a) < 32 \<Longrightarrow> bit res LENGTH('a) \<longleftrightarrow> 2 ^ LENGTH('a) \<le> uint d + uint s + of_bool c"
    using add_chain(3) [OF _ _ assms(3)] assms(1,2) by simp
  moreover have "ucast res = d + s + of_bool c" unfolding assms(3) using assms(2) by (simp add: cast_ring)
  ultimately show ?thesis using assms(4,5) by (simp add: is_add_def flag_simps)
qed

lemma is_subI:
  fixes d s :: "'a::len word" and res :: u32
  assumes "8 \<le> LENGTH('a)" "LENGTH('a) \<le> 32" "res = ucast d - ucast s - of_bool c"
    and "fst rf = ucast res" "bit (snd rf) 0 = bit bc (LENGTH('a) - 1)"
    and "bc = (res AND (NOT (ucast d) OR ucast s)) OR (NOT (ucast d) AND (ucast s :: u32))"
    and "bit (snd rf) 6 = (take_bit LENGTH('a) res = 0)" "bit (snd rf) 7 = bit res (LENGTH('a) - 1)"
      "bit (snd rf) 2 = even_parity res"
    and "bit (snd rf) 11 = (bit bc (LENGTH('a) - 2) \<noteq> bit bc (LENGTH('a) - 1))" "bit (snd rf) 4 = bit bc 3"
    and "other_bits f (snd rf)"
  shows "is_sub rf d s c f"
proof -
  have "sub_flags d s c f (snd rf)" by (rule sub_flagsI) (use assms in simp_all)
  moreover have "bit bc (LENGTH('a) - 1) \<longleftrightarrow> uint d < uint s + of_bool c"
    using sub_chain(3) [OF _ _ assms(3)] assms(1,2,6) by simp
  moreover have "ucast res = d - s - of_bool c" unfolding assms(3) using assms(2) by (simp add: cast_ring)
  ultimately show ?thesis using assms(4,5) by (simp add: is_sub_def flag_simps)
qed

lemma adc_byte: "is_add (adc_byte d s f) d s (ACCESS_FLAG F_CF f) f"
  unfolding adc_byte_def Let_def
  by (rule is_addI [OF _ _ incoming(1) _ _ refl]) (simp_all add: alu_simps del: of_bool_eq)

lemma add_byte: "is_add (add_byte d s f) d s False f"
  unfolding add_byte_def Let_def
  by (rule is_addI [OF _ _ incoming(3) _ _ refl]) (simp_all add: alu_simps del: of_bool_eq)

lemma adc_word: "is_add (adc_word d s f) d s (ACCESS_FLAG F_CF f) f"
  unfolding adc_word_def Let_def
  by (rule is_addI [OF _ _ incoming(1) _ _ refl]) (simp_all add: alu_simps del: of_bool_eq)

lemma add_word: "is_add (add_word d s f) d s False f"
  unfolding add_word_def Let_def
  by (rule is_addI [OF _ _ incoming(3) _ _ refl]) (simp_all add: alu_simps del: of_bool_eq)

lemma sbb_byte: "is_sub (sbb_byte d s f) d s (ACCESS_FLAG F_CF f) f"
  unfolding sbb_byte_def Let_def
  by (rule is_subI [OF _ _ incoming(2) _ _ refl]) (simp_all add: alu_simps del: of_bool_eq)

lemma sub_byte: "is_sub (sub_byte d s f) d s False f"
  unfolding sub_byte_def Let_def
  by (rule is_subI [OF _ _ incoming(4) _ _ refl]) (simp_all add: alu_simps del: of_bool_eq)

lemma sbb_word: "is_sub (sbb_word d s f) d s (ACCESS_FLAG F_CF f) f"
  unfolding sbb_word_def Let_def
  by (rule is_subI [OF _ _ incoming(2) _ _ refl]) (simp_all add: alu_simps del: of_bool_eq)

lemma sub_word: "is_sub (sub_word d s f) d s False f"
  unfolding sub_word_def Let_def
  by (rule is_subI [OF _ _ incoming(4) _ _ refl]) (simp_all add: alu_simps del: of_bool_eq)

lemma sbb_long: "is_sub (sbb_long d s f) d s (ACCESS_FLAG F_CF f) f"
  unfolding sbb_long_def Let_def
  by (rule is_subI [OF _ _ incoming(2) _ _ refl]) (simp_all add: alu_simps del: of_bool_eq)

lemma sub_long: "is_sub (sub_long d s f) d s False f"
  unfolding sub_long_def Let_def
  by (rule is_subI [OF _ _ incoming(4) _ _ refl]) (simp_all add: alu_simps del: of_bool_eq)

text \<open>The 32-bit versions take the carry from a sum of halves.\<close>

lemma halves_carry:
  fixes d s :: u32
  assumes lo_def: "lo = (d AND 0xFFFF) + (s AND 0xFFFF) + of_bool c"
  shows "bit (drop_bit 16 lo + drop_bit 16 d + drop_bit 16 s) 16 \<longleftrightarrow> 2 ^ 32 \<le> uint d + uint s + of_bool c"
proof -
  let ?D = "uint d" and ?S = "uint s" and ?c = "of_bool c :: int" and ?hi = "drop_bit 16 lo + drop_bit 16 d + drop_bit 16 s"
  have range: "0 \<le> ?D" "?D < 2 ^ 32" "0 \<le> ?S" "?S < 2 ^ 32" "0 \<le> ?c" "?c \<le> 1"
    using uint_bounded [of d] uint_bounded [of s] by auto
  have p: "(2::int) ^ 16 = 65536" "(2::int) ^ 32 = 4294967296" by simp_all
  have m: "0 \<le> x mod 2 ^ 16" "x mod 2 ^ 16 < 2 ^ 16" for x :: int by simp_all
  have q: "x div 2 ^ 16 < 2 ^ 16" "0 \<le> x div 2 ^ 16" if "0 \<le> x" "x < 2 ^ 32" for x :: int
    using that by (simp_all add: div_less_iff_less_mult pos_imp_zdiv_nonneg_iff)
  have lo: "uint lo = ?D mod 2 ^ 16 + ?S mod 2 ^ 16 + ?c"
  proof -
    have a: "uint (w AND 0xFFFF) = uint w mod 2 ^ 16" for w :: u32
      by (simp only: test_bit_masks unsigned_take_bit_eq) (simp add: take_bit_eq_mod)
    have "uint lo = (?D mod 2 ^ 16 + ?S mod 2 ^ 16 + ?c) mod 2 ^ 32"
      unfolding lo_def by (cases c) (simp_all add: uint_word_ariths a mod_simps)
    also have "\<dots> = ?D mod 2 ^ 16 + ?S mod 2 ^ 16 + ?c"
      by (rule mod_pos_pos_trivial) (use m [of ?D] m [of ?S] range p in linarith)+
    finally show ?thesis .
  qed
  have lo_range: "0 \<le> uint lo" "uint lo < 2 ^ 32" using uint_bounded [of lo] by simp_all
  have h: "uint (drop_bit 16 w) = uint w div 2 ^ 16" for w :: u32
    using uint_bounded [of w] by (simp only: unsigned_drop_bit_eq) (simp add: drop_bit_eq_div take_bit_int_eq_self)
  have len32: "LENGTH(32) = 32" by simp
  have "uint ?hi = (uint lo div 2 ^ 16 + ?D div 2 ^ 16 + ?S div 2 ^ 16) mod 2 ^ 32"
    by (simp only: uint_word_ariths h mod_simps len32)
  also have "\<dots> = uint lo div 2 ^ 16 + ?D div 2 ^ 16 + ?S div 2 ^ 16"
    by (rule mod_pos_pos_trivial) (use q [OF lo_range] q [OF range(1,2)] q [OF range(3,4)] p in linarith)+
  also have "\<dots> = (?D + ?S + ?c) div 2 ^ 16"
  proof -
    have "?D + ?S + ?c = uint lo + 2 ^ 16 * (?D div 2 ^ 16 + ?S div 2 ^ 16)"
      unfolding lo distrib_left using mult_div_mod_eq [of "2 ^ 16" ?D] mult_div_mod_eq [of "2 ^ 16" ?S] by linarith
    then have "(?D + ?S + ?c) div 2 ^ 16 = (?D div 2 ^ 16 + ?S div 2 ^ 16) + uint lo div 2 ^ 16"
      by (simp only: div_mult_self2) simp
    then show ?thesis by simp
  qed
  finally have hi: "uint ?hi = (?D + ?S + ?c) div 2 ^ 16" .
  have "bit ?hi 16 = bit (uint ?hi) 16" by (simp only: bit_uint)
  also have "\<dots> = odd ((?D + ?S + ?c) div 2 ^ 32)" unfolding hi bit_iff_odd by (simp flip: zdiv_zmult2_eq)
  also have "\<dots> \<longleftrightarrow> 2 ^ 32 \<le> ?D + ?S + ?c"
  proof (cases "2 ^ 32 \<le> ?D + ?S + ?c")
    case True
    have "(?D + ?S + ?c - 2 ^ 32) div 2 ^ 32 = 0"
      by (rule div_pos_pos_trivial) (use True range in linarith)+
    moreover have "(?D + ?S + ?c) div 2 ^ 32 = (?D + ?S + ?c - 2 ^ 32) div 2 ^ 32 + 1"
      using div_add_self2 [of "2 ^ 32" "?D + ?S + ?c - 2 ^ 32"] by simp
    ultimately show ?thesis using True by simp
  next
    case False
    then have "(?D + ?S + ?c) div 2 ^ 32 = 0" using range by (intro div_pos_pos_trivial) linarith+
    then show ?thesis using False by simp
  qed
  finally show ?thesis .
qed

lemma adc_long: "is_add (adc_long d s f) d s (ACCESS_FLAG F_CF f) f"
proof (cases "ACCESS_FLAG F_CF f")
  case True
  have lo: "1 + (d AND 0xFFFF) + (s AND 0xFFFF) = (d AND 0xFFFF) + (s AND 0xFFFF) + of_bool True" by simp
  have res: "1 + d + s = ucast d + ucast s + of_bool True" by simp
  have "is_add (adc_long d s f) d s True f"
    unfolding adc_long_def Let_def if_P [OF True] prod.case
    by (rule is_addI [OF _ _ res _ _ refl]) (use halves_carry [OF lo] in \<open>simp_all add: alu_simps\<close>)
  then show ?thesis using True by simp
next
  case False
  have "is_add (adc_long d s f) d s False f"
    unfolding adc_long_def Let_def if_not_P [OF False] prod.case
    by (rule is_addI [OF _ _ incoming(3) _ _ refl]) (use halves_carry [OF refl, of d s False] in \<open>simp_all add: alu_simps\<close>)
  then show ?thesis using False by simp
qed

lemma add_long: "is_add (add_long d s f) d s False f"
  unfolding add_long_def Let_def
  by (rule is_addI [OF _ _ incoming(3) _ _ refl]) (use halves_carry [OF refl, of d s False] in \<open>simp_all add: alu_simps\<close>)

lemma cmp_byte: "fst (cmp_byte d s f) = d \<and> is_sub (d - s, snd (cmp_byte d s f)) d s False f"
  by (rule conjI, simp add: cmp_byte_def Let_def, unfold cmp_byte_def Let_def,
      rule is_subI [OF _ _ incoming(4) _ _ refl]) (simp_all add: alu_simps cast_hom cast_back del: of_bool_eq)

lemma cmp_word: "fst (cmp_word d s f) = d \<and> is_sub (d - s, snd (cmp_word d s f)) d s False f"
  by (rule conjI, simp add: cmp_word_def Let_def, unfold cmp_word_def Let_def,
      rule is_subI [OF _ _ incoming(4) _ _ refl]) (simp_all add: alu_simps cast_hom cast_back del: of_bool_eq)

lemma cmp_long: "fst (cmp_long d s f) = d \<and> is_sub (d - s, snd (cmp_long d s f)) d s False f"
  by (rule conjI, simp add: cmp_long_def Let_def, unfold cmp_long_def Let_def,
      rule is_subI [OF _ _ incoming(4) _ _ refl]) (simp_all add: alu_simps cast_hom cast_back del: of_bool_eq)

text \<open>\<open>INC\<close> and \<open>DEC\<close> are additions and subtractions of 1 that keep the carry flag.\<close>

definition is_step :: "'a::len word \<times> flags \<Rightarrow> 'a word \<times> flags \<Rightarrow> flags \<Rightarrow> bool" where
  "is_step rf rf' f \<longleftrightarrow> fst rf = fst rf' \<and> ACCESS_FLAG F_CF (snd rf) = ACCESS_FLAG F_CF f \<and>
     (\<forall>k. k \<noteq> 0 \<longrightarrow> bit (snd rf) k = bit (snd rf') k)"

lemma inc_byte: "is_step (inc_byte d f) (add_byte d 1 f) f"
  by (auto simp: is_step_def inc_byte_def add_byte_def Let_def alu_simps)

lemma inc_word: "is_step (inc_word d f) (add_word d 1 f) f"
  by (auto simp: is_step_def inc_word_def add_word_def Let_def alu_simps)

lemma inc_long: "is_step (inc_long d f) (add_long d 1 f) f"
  by (auto simp: is_step_def inc_long_def add_long_def Let_def alu_simps)

lemma dec_byte: "is_step (dec_byte d f) (sub_byte d 1 f) f"
  by (auto simp: is_step_def dec_byte_def sub_byte_def Let_def alu_simps)

lemma dec_word: "is_step (dec_word d f) (sub_word d 1 f) f"
  by (auto simp: is_step_def dec_word_def sub_word_def Let_def alu_simps)

lemma dec_long: "is_step (dec_long d f) (sub_long d 1 f) f"
  by (auto simp: is_step_def dec_long_def sub_long_def Let_def alu_simps)

text \<open>\<open>NEG\<close> subtracts from 0.\<close>

lemma is_negI:
  fixes s :: "'a::len word"
  assumes le: "8 \<le> LENGTH('a)" "LENGTH('a) \<le> 32"
    and rf: "fst rf = - s" "bit (snd rf) 0 = (s \<noteq> 0)"
      "bit (snd rf) 6 = (- s = 0)" "bit (snd rf) 7 = bit (- s) (LENGTH('a) - 1)" "bit (snd rf) 2 = even_parity (- s)"
      "bit (snd rf) 11 = (bit (- s OR s) (LENGTH('a) - 2) \<noteq> bit (- s OR s) (LENGTH('a) - 1))"
      "bit (snd rf) 4 = bit (- s OR s) 3" "other_bits f (snd rf)"
  shows "is_sub rf 0 s False f"
proof (rule is_subI [OF le _ _ _ refl])
  let ?res = "ucast (0 :: 'a word) - ucast s :: u32"
  have c: "ucast ?res = - s" using cast_ring(2) [where 'a = 'a and 'b = 32, of 0 s False] le by simp
  have b: "bit ?res k = bit (- s) k" if "k < LENGTH('a)" for k
  proof -
    have "bit (- s) k = bit (ucast ?res :: 'a word) k" by (simp only: c)
    then show ?thesis using that by (simp add: bit_ucast_iff)
  qed
  let ?bc = "(?res AND (NOT (ucast (0 :: 'a word)) OR ucast s)) OR (NOT (ucast (0 :: 'a word)) AND (ucast s :: u32))"
  have bc: "bit ?bc k = bit (- s OR s) k" if "k < LENGTH('a)" for k
    using that le b [OF that] by (simp add: bit_simps)
  show "bit (snd rf) 0 = bit ?bc (LENGTH('a) - 1)"
  proof -
    have "bit ?bc (LENGTH('a) - 1) \<longleftrightarrow> uint (0 :: 'a word) < uint s + of_bool False"
      by (rule sub_chain(3) [OF le(2)]) (use le in simp_all)
    moreover have "0 < uint s \<longleftrightarrow> s \<noteq> 0" using uint_ge_0 [of s] uint_0_iff [of s] by linarith
    ultimately show ?thesis using rf(2) by simp
  qed
  show "?res = ucast (0 :: 'a word) - ucast s - of_bool False" by simp
  show "fst rf = ucast ?res" using rf(1) c by simp
  show "bit (snd rf) 6 = (take_bit LENGTH('a) ?res = 0)" using rf(3) cast_zero [where 'a = 'a, of ?res] c le by simp
  show "bit (snd rf) 7 = bit ?res (LENGTH('a) - 1)" using rf(4) b [of "LENGTH('a) - 1"] by simp
  show "bit (snd rf) 2 = even_parity ?res" using rf(5) even_parity_ucast [where 'a = 32 and 'b = 'a, of ?res] le unfolding c by simp
  show "bit (snd rf) 11 = (bit ?bc (LENGTH('a) - 2) \<noteq> bit ?bc (LENGTH('a) - 1))"
    using rf(6) bc [of "LENGTH('a) - 2"] bc [of "LENGTH('a) - 1"] le by simp
  show "bit (snd rf) 4 = bit ?bc 3" using rf(7) bc [of 3] le by simp
qed (rule rf)

lemma neg_byte: "is_sub (neg_byte s f) 0 s False f"
  unfolding neg_byte_def Let_def by (rule is_negI) (simp_all add: alu_simps bit_ucast_iff)

lemma neg_word: "is_sub (neg_word s f) 0 s False f"
  unfolding neg_word_def Let_def by (rule is_negI) (simp_all add: alu_simps bit_ucast_iff)

lemma neg_long: "is_sub (neg_long s f) 0 s False f"
  unfolding neg_long_def Let_def by (rule is_negI) (simp_all add: alu_simps)

section \<open>Conditions\<close>

text \<open>
  The condition of a conditional jump, \<open>eval_condition\<close>; the value is the truth value of its result. The cases
  3 and 7 of the switch fall through into 2 and 6.
\<close>

definition eval_condition :: "u32 \<Rightarrow> flags \<Rightarrow> bool" where
  "eval_condition type flags =
     (let case_of = drop_bit 1 type;
          cond = (if case_of = 0 then ACCESS_FLAG F_OF flags
                  else if case_of = 1 then ACCESS_FLAG F_CF flags
                  else if case_of = 3 then ACCESS_FLAG F_CF flags \<or> ACCESS_FLAG F_ZF flags
                  else if case_of = 2 then ACCESS_FLAG F_ZF flags
                  else if case_of = 4 then ACCESS_FLAG F_SF flags
                  else if case_of = 5 then ACCESS_FLAG F_PF flags
                  else if case_of = 7 then ACCESS_FLAG F_ZF flags \<or> (ACCESS_FLAG F_SF flags \<noteq> ACCESS_FLAG F_OF flags)
                  else if case_of = 6 then ACCESS_FLAG F_SF flags \<noteq> ACCESS_FLAG F_OF flags
                  else False)
      in if type AND 1 \<noteq> 0 then \<not> cond else cond)"

lemma sign_or_overflow:
  fixes x y M :: int
  assumes "x mod (2 * M) = y mod (2 * M)" "- M \<le> x" "x < M" "- (2 * M) < y" "y < 2 * M" "0 < M"
  shows "((x < 0) \<noteq> (y \<notin> {- M ..< M})) \<longleftrightarrow> y < 0"
proof -
  have "x = y \<or> x = y - 2 * M \<or> x = y + 2 * M"
  proof -
    obtain k where k: "x - y = 2 * M * k" using assms(1) by (auto simp: mod_eq_dvd_iff elim: dvdE)
    have lo: "- (2 * M) * 2 < 2 * M * k" and hi: "2 * M * k < 2 * M * 2" using assms k by linarith+
    have "k < 2" using hi assms(6) by (simp add: mult_less_cancel_left)
    moreover have "- 2 < k" using lo assms(6) mult_less_cancel_left_pos [of "2 * M" "- 2" k] by simp
    ultimately have "k = - 1 \<or> k = 0 \<or> k = 1" by auto
    then show ?thesis using k by auto
  qed
  then show ?thesis using assms by auto
qed

lemma sub_conditions:
  fixes d s :: "'a::len word"
  assumes "is_sub rf d s False f" and le: "8 \<le> LENGTH('a)"
  shows "eval_condition 2 (snd rf) \<longleftrightarrow> d < s" "eval_condition 4 (snd rf) \<longleftrightarrow> d = s" "eval_condition 6 (snd rf) \<longleftrightarrow> d \<le> s"
    "eval_condition 12 (snd rf) \<longleftrightarrow> sint d < sint s" "eval_condition 14 (snd rf) \<longleftrightarrow> sint d \<le> sint s"
    "eval_condition 3 (snd rf) \<longleftrightarrow> \<not> eval_condition 2 (snd rf)" "eval_condition 5 (snd rf) \<longleftrightarrow> \<not> eval_condition 4 (snd rf)"
    "eval_condition 7 (snd rf) \<longleftrightarrow> \<not> eval_condition 6 (snd rf)" "eval_condition 13 (snd rf) \<longleftrightarrow> \<not> eval_condition 12 (snd rf)"
    "eval_condition 15 (snd rf) \<longleftrightarrow> \<not> eval_condition 14 (snd rf)"
proof -
  let ?M = "2 ^ (LENGTH('a) - 1) :: int"
  have two: "2 * ?M = 2 ^ LENGTH('a)" using le power_Suc [of "2::int" "LENGTH('a) - 1"] by simp
  have "sint (d - s) mod (2 * ?M) = (sint d - sint s) mod (2 * ?M)"
    unfolding two using sint_mod [of d s False] by simp
  moreover have "- ?M \<le> sint (d - s)" "sint (d - s) < ?M" "- (2 * ?M) < sint d - sint s" "sint d - sint s < 2 * ?M"
    using sint_range [of d] sint_range [of s] sint_range [of "d - s"] by auto
  ultimately have less: "((sint (d - s) < 0) \<noteq> (sint d - sint s \<notin> {- ?M ..< ?M})) \<longleftrightarrow> sint d < sint s"
    using sign_or_overflow [of "sint (d - s)" ?M "sint d - sint s"] by simp
  have cf: "ACCESS_FLAG F_CF (snd rf) \<longleftrightarrow> d < s" using assms(1) by (simp add: is_sub_def word_less_def)
  have zf: "ACCESS_FLAG F_ZF (snd rf) \<longleftrightarrow> d = s"
    using assms(1) by (simp add: is_sub_def sub_flags_def result_flags_def)
  have so: "ACCESS_FLAG F_SF (snd rf) \<noteq> ACCESS_FLAG F_OF (snd rf) \<longleftrightarrow> sint d < sint s"
    using assms(1) less by (simp add: is_sub_def sub_flags_def result_flags_def)
  show "eval_condition 2 (snd rf) \<longleftrightarrow> d < s" "eval_condition 4 (snd rf) \<longleftrightarrow> d = s" 
    "eval_condition 12 (snd rf) \<longleftrightarrow> sint d < sint s"
    using cf zf so by (simp_all add: eval_condition_def)
  show "eval_condition 6 (snd rf) \<longleftrightarrow> d \<le> s"
    using cf zf by (auto simp: eval_condition_def)
  show "eval_condition 14 (snd rf) \<longleftrightarrow> sint d \<le> sint s"
    using so zf by (auto simp: eval_condition_def order_le_less dest: signed_word_eqI)
  show "eval_condition 3 (snd rf) \<longleftrightarrow> \<not> eval_condition 2 (snd rf)" "eval_condition 5 (snd rf) \<longleftrightarrow> \<not> eval_condition 4 (snd rf)"
    "eval_condition 7 (snd rf) \<longleftrightarrow> \<not> eval_condition 6 (snd rf)" "eval_condition 13 (snd rf) \<longleftrightarrow> \<not> eval_condition 12 (snd rf)"
    "eval_condition 15 (snd rf) \<longleftrightarrow> \<not> eval_condition 14 (snd rf)"
    by (simp_all add: eval_condition_def)
qed

text \<open>The jumps JB, JE, JBE, JL, JLE and their opposites decide the order of two words.\<close>

definition decides_order :: "'a::len word \<Rightarrow> 'a word \<Rightarrow> flags \<Rightarrow> bool" where
  "decides_order d s f \<longleftrightarrow>
     (eval_condition 2 f \<longleftrightarrow> d < s) \<and> (eval_condition 3 f \<longleftrightarrow> \<not> d < s) \<and>
     (eval_condition 4 f \<longleftrightarrow> d = s) \<and> (eval_condition 5 f \<longleftrightarrow> d \<noteq> s) \<and>
     (eval_condition 6 f \<longleftrightarrow> d \<le> s) \<and> (eval_condition 7 f \<longleftrightarrow> \<not> d \<le> s) \<and>
     (eval_condition 12 f \<longleftrightarrow> sint d < sint s) \<and> (eval_condition 13 f \<longleftrightarrow> \<not> sint d < sint s) \<and>
     (eval_condition 14 f \<longleftrightarrow> sint d \<le> sint s) \<and> (eval_condition 15 f \<longleftrightarrow> \<not> sint d \<le> sint s)"

lemma sub_decides_order:
  fixes d s :: "'a::len word"
  shows "is_sub rf d s False f \<Longrightarrow> 8 \<le> LENGTH('a) \<Longrightarrow> decides_order d s (snd rf)"
  using sub_conditions [of rf d s f] by (simp add: decides_order_def)

section \<open>Properties\<close>

text \<open>
  C30. \<open>ADD\<close> and \<open>ADC\<close> of 8, 16 and 32 bits return the sum with the incoming carry, modulo the
  width, and set carry, overflow, auxiliary carry, zero, sign and parity as the processor does: the carry
  chain formula and the sum of halves compute the true carries.
\<close>

theorem addition_instructions:
  "is_add (add_byte d8 s8 f) d8 s8 False f \<and> is_add (adc_byte d8 s8 f) d8 s8 (ACCESS_FLAG F_CF f) f \<and>
   is_add (add_word d16 s16 f) d16 s16 False f \<and> is_add (adc_word d16 s16 f) d16 s16 (ACCESS_FLAG F_CF f) f \<and>
   is_add (add_long d32 s32 f) d32 s32 False f \<and> is_add (adc_long d32 s32 f) d32 s32 (ACCESS_FLAG F_CF f) f"
  by (intro conjI add_byte adc_byte add_word adc_word add_long adc_long)

text \<open>
  C31. \<open>SUB\<close>, \<open>SBB\<close> and \<open>NEG\<close> of 8, 16 and 32 bits return the difference with the incoming borrow and
  set the flags as the processor does: the borrow chain formula computes the true borrows.
\<close>

theorem subtraction_instructions:
  "is_sub (sub_byte d8 s8 f) d8 s8 False f \<and> is_sub (sbb_byte d8 s8 f) d8 s8 (ACCESS_FLAG F_CF f) f \<and>
   is_sub (sub_word d16 s16 f) d16 s16 False f \<and> is_sub (sbb_word d16 s16 f) d16 s16 (ACCESS_FLAG F_CF f) f \<and>
   is_sub (sub_long d32 s32 f) d32 s32 False f \<and> is_sub (sbb_long d32 s32 f) d32 s32 (ACCESS_FLAG F_CF f) f \<and>
   is_sub (neg_byte s8 f) 0 s8 False f \<and> is_sub (neg_word s16 f) 0 s16 False f \<and> is_sub (neg_long s32 f) 0 s32 False f"
  by (intro conjI sub_byte sbb_byte sub_word sbb_word sub_long sbb_long neg_byte neg_word neg_long)

text \<open>
  \<open>INC\<close> and \<open>DEC\<close> agree with \<open>ADD\<close> and \<open>SUB\<close> of 1 in the result and every flag but the carry, which they keep.
\<close>

theorem increment_instructions:
  "is_step (inc_byte d8 f) (add_byte d8 1 f) f \<and> is_step (dec_byte d8 f) (sub_byte d8 1 f) f \<and>
   is_step (inc_word d16 f) (add_word d16 1 f) f \<and> is_step (dec_word d16 f) (sub_word d16 1 f) f \<and>
   is_step (inc_long d32 f) (add_long d32 1 f) f \<and> is_step (dec_long d32 f) (sub_long d32 1 f) f"
  by (intro conjI inc_byte dec_byte inc_word dec_word inc_long dec_long)

text \<open>
  C32. Compare and jump: after \<open>CMP\<close> (which leaves its operand as it is) the conditions of the
  conditional jumps decide the unsigned and signed order of the operands, at every width, and odd
  condition codes are the negations of the even ones.
\<close>

theorem compare_then_condition:
  "fst (cmp_byte d8 s8 f) = d8 \<and> decides_order d8 s8 (snd (cmp_byte d8 s8 f)) \<and>
   fst (cmp_word d16 s16 f) = d16 \<and> decides_order d16 s16 (snd (cmp_word d16 s16 f)) \<and>
   fst (cmp_long d32 s32 f) = d32 \<and> decides_order d32 s32 (snd (cmp_long d32 s32 f))"
  using sub_decides_order [OF conjunct2 [OF cmp_byte], of d8 s8 f] cmp_byte [of d8 s8 f]
    sub_decides_order [OF conjunct2 [OF cmp_word], of d16 s16 f] cmp_word [of d16 s16 f]
    sub_decides_order [OF conjunct2 [OF cmp_long], of d32 s32 f] cmp_long [of d32 s32 f]
  by simp

end
