(* ===== verification/X86emu_Logic.thy ===== *)
theory X86emu_Logic
  imports X86emu_Arith
begin

text \<open>
  \<^verbatim>\<open>libx86emu/prim_ops.c\<close>: bitwise operations and the adjustments after arithmetic on decimal digits.
\<close>

section \<open>Bitwise operations\<close>

definition and_byte :: "u8 \<Rightarrow> u8 \<Rightarrow> flags \<Rightarrow> u8 \<times> flags" where
  "and_byte d s f =
     (let res = d AND s;
          f = CLEAR_FLAG F_OF f;
          f = CLEAR_FLAG F_CF f;
          f = CLEAR_FLAG F_AF f;
          f = CONDITIONAL_SET_FLAG (res AND 0x80 \<noteq> 0) F_SF f;
          f = CONDITIONAL_SET_FLAG (res = 0) F_ZF f;
          f = CONDITIONAL_SET_FLAG (PARITY (ucast res)) F_PF f
      in (res, f))"

definition and_word :: "u16 \<Rightarrow> u16 \<Rightarrow> flags \<Rightarrow> u16 \<times> flags" where
  "and_word d s f =
     (let res = d AND s;
          f = CLEAR_FLAG F_OF f;
          f = CLEAR_FLAG F_CF f;
          f = CLEAR_FLAG F_AF f;
          f = CONDITIONAL_SET_FLAG (res AND 0x8000 \<noteq> 0) F_SF f;
          f = CONDITIONAL_SET_FLAG (res = 0) F_ZF f;
          f = CONDITIONAL_SET_FLAG (PARITY (ucast (res AND 0xff))) F_PF f
      in (res, f))"

definition and_long :: "u32 \<Rightarrow> u32 \<Rightarrow> flags \<Rightarrow> u32 \<times> flags" where
  "and_long d s f =
     (let res = d AND s;
          f = CLEAR_FLAG F_OF f;
          f = CLEAR_FLAG F_CF f;
          f = CLEAR_FLAG F_AF f;
          f = CONDITIONAL_SET_FLAG (res AND 0x80000000 \<noteq> 0) F_SF f;
          f = CONDITIONAL_SET_FLAG (res = 0) F_ZF f;
          f = CONDITIONAL_SET_FLAG (PARITY (res AND 0xff)) F_PF f
      in (res, f))"

definition or_byte :: "u8 \<Rightarrow> u8 \<Rightarrow> flags \<Rightarrow> u8 \<times> flags" where
  "or_byte d s f =
     (let res = d OR s;
          f = CLEAR_FLAG F_OF f;
          f = CLEAR_FLAG F_CF f;
          f = CLEAR_FLAG F_AF f;
          f = CONDITIONAL_SET_FLAG (res AND 0x80 \<noteq> 0) F_SF f;
          f = CONDITIONAL_SET_FLAG (res = 0) F_ZF f;
          f = CONDITIONAL_SET_FLAG (PARITY (ucast res)) F_PF f
      in (res, f))"

definition or_word :: "u16 \<Rightarrow> u16 \<Rightarrow> flags \<Rightarrow> u16 \<times> flags" where
  "or_word d s f =
     (let res = d OR s;
          f = CLEAR_FLAG F_OF f;
          f = CLEAR_FLAG F_CF f;
          f = CLEAR_FLAG F_AF f;
          f = CONDITIONAL_SET_FLAG (res AND 0x8000 \<noteq> 0) F_SF f;
          f = CONDITIONAL_SET_FLAG (res = 0) F_ZF f;
          f = CONDITIONAL_SET_FLAG (PARITY (ucast (res AND 0xff))) F_PF f
      in (res, f))"

definition or_long :: "u32 \<Rightarrow> u32 \<Rightarrow> flags \<Rightarrow> u32 \<times> flags" where
  "or_long d s f =
     (let res = d OR s;
          f = CLEAR_FLAG F_OF f;
          f = CLEAR_FLAG F_CF f;
          f = CLEAR_FLAG F_AF f;
          f = CONDITIONAL_SET_FLAG (res AND 0x80000000 \<noteq> 0) F_SF f;
          f = CONDITIONAL_SET_FLAG (res = 0) F_ZF f;
          f = CONDITIONAL_SET_FLAG (PARITY (res AND 0xff)) F_PF f
      in (res, f))"

definition xor_byte :: "u8 \<Rightarrow> u8 \<Rightarrow> flags \<Rightarrow> u8 \<times> flags" where
  "xor_byte d s f =
     (let res = d XOR s;
          f = CLEAR_FLAG F_OF f;
          f = CONDITIONAL_SET_FLAG (res AND 0x80 \<noteq> 0) F_SF f;
          f = CONDITIONAL_SET_FLAG (res = 0) F_ZF f;
          f = CONDITIONAL_SET_FLAG (PARITY (ucast res)) F_PF f;
          f = CLEAR_FLAG F_CF f;
          f = CLEAR_FLAG F_AF f
      in (res, f))"

definition xor_word :: "u16 \<Rightarrow> u16 \<Rightarrow> flags \<Rightarrow> u16 \<times> flags" where
  "xor_word d s f =
     (let res = d XOR s;
          f = CLEAR_FLAG F_OF f;
          f = CONDITIONAL_SET_FLAG (res AND 0x8000 \<noteq> 0) F_SF f;
          f = CONDITIONAL_SET_FLAG (res = 0) F_ZF f;
          f = CONDITIONAL_SET_FLAG (PARITY (ucast (res AND 0xff))) F_PF f;
          f = CLEAR_FLAG F_CF f;
          f = CLEAR_FLAG F_AF f
      in (res, f))"

definition xor_long :: "u32 \<Rightarrow> u32 \<Rightarrow> flags \<Rightarrow> u32 \<times> flags" where
  "xor_long d s f =
     (let res = d XOR s;
          f = CLEAR_FLAG F_OF f;
          f = CONDITIONAL_SET_FLAG (res AND 0x80000000 \<noteq> 0) F_SF f;
          f = CONDITIONAL_SET_FLAG (res = 0) F_ZF f;
          f = CONDITIONAL_SET_FLAG (PARITY (res AND 0xff)) F_PF f;
          f = CLEAR_FLAG F_CF f;
          f = CLEAR_FLAG F_AF f
      in (res, f))"

definition test_byte :: "u8 \<Rightarrow> u8 \<Rightarrow> flags \<Rightarrow> flags" where
  "test_byte d s f =
     (let res = ucast d AND ucast s :: u32;
          f = CLEAR_FLAG F_OF f;
          f = CONDITIONAL_SET_FLAG (res AND 0x80 \<noteq> 0) F_SF f;
          f = CONDITIONAL_SET_FLAG (res = 0) F_ZF f;
          f = CONDITIONAL_SET_FLAG (PARITY (res AND 0xff)) F_PF f
      in CLEAR_FLAG F_CF f)"

definition test_word :: "u16 \<Rightarrow> u16 \<Rightarrow> flags \<Rightarrow> flags" where
  "test_word d s f =
     (let res = ucast d AND ucast s :: u32;
          f = CLEAR_FLAG F_OF f;
          f = CONDITIONAL_SET_FLAG (res AND 0x8000 \<noteq> 0) F_SF f;
          f = CONDITIONAL_SET_FLAG (res = 0) F_ZF f;
          f = CONDITIONAL_SET_FLAG (PARITY (res AND 0xff)) F_PF f
      in CLEAR_FLAG F_CF f)"

definition test_long :: "u32 \<Rightarrow> u32 \<Rightarrow> flags \<Rightarrow> flags" where
  "test_long d s f =
     (let res = d AND s :: u32;
          f = CLEAR_FLAG F_OF f;
          f = CONDITIONAL_SET_FLAG (res AND 0x80000000 \<noteq> 0) F_SF f;
          f = CONDITIONAL_SET_FLAG (res = 0) F_ZF f;
          f = CONDITIONAL_SET_FLAG (PARITY (res AND 0xff)) F_PF f
      in CLEAR_FLAG F_CF f)"

definition not_byte :: "u8 \<Rightarrow> u8" where
  "not_byte s = NOT s"

definition not_word :: "u16 \<Rightarrow> u16" where
  "not_word s = NOT s"

definition not_long :: "u32 \<Rightarrow> u32" where
  "not_long s = NOT s"

section \<open>Decimal adjustment\<close>

definition aaa_word :: "u16 \<Rightarrow> flags \<Rightarrow> u16 \<times> flags" where
  "aaa_word d f =
     (let (d, f) = (if (d AND 0xf) > 0x9 \<or> ACCESS_FLAG F_AF f
                    then (d + 0x6 + 0x100, SET_FLAG F_CF (SET_FLAG F_AF f))
                    else (d, CLEAR_FLAG F_AF (CLEAR_FLAG F_CF f)));
          res = d AND 0xFF0F;
          f = CLEAR_FLAG F_SF f;
          f = CONDITIONAL_SET_FLAG (res = 0) F_ZF f;
          f = CONDITIONAL_SET_FLAG (PARITY (ucast (res AND 0xff))) F_PF f
      in (res, f))"

definition aas_word :: "u16 \<Rightarrow> flags \<Rightarrow> u16 \<times> flags" where
  "aas_word d f =
     (let (d, f) = (if (d AND 0xf) > 0x9 \<or> ACCESS_FLAG F_AF f
                    then (d - 0x6 - 0x100, SET_FLAG F_CF (SET_FLAG F_AF f))
                    else (d, CLEAR_FLAG F_AF (CLEAR_FLAG F_CF f)));
          res = d AND 0xFF0F;
          f = CLEAR_FLAG F_SF f;
          f = CONDITIONAL_SET_FLAG (res = 0) F_ZF f;
          f = CONDITIONAL_SET_FLAG (PARITY (ucast (res AND 0xff))) F_PF f
      in (res, f))"

definition aad_word :: "u16 \<Rightarrow> u8 \<Rightarrow> flags \<Rightarrow> u16 \<times> flags" where
  "aad_word d radix f =
     (let hb = ucast (drop_bit 8 d AND 0xff) :: u8;
          lb = ucast (d AND 0xff) :: u8;
          l = ucast ((ucast lb + ucast radix * ucast hb :: u32) AND 0xFF) :: u16;
          f = CLEAR_FLAG F_CF f;
          f = CLEAR_FLAG F_AF f;
          f = CLEAR_FLAG F_OF f;
          f = CONDITIONAL_SET_FLAG (l AND 0x80 \<noteq> 0) F_SF f;
          f = CONDITIONAL_SET_FLAG (l = 0) F_ZF f;
          f = CONDITIONAL_SET_FLAG (PARITY (ucast (l AND 0xff))) F_PF f
      in (l, f))"

text \<open>A radix of 0 is a division by zero in the host: the caller raises the emulated fault but calls this all the same.\<close>

definition aam_word :: "u8 \<Rightarrow> u8 \<Rightarrow> flags \<Rightarrow> (u16 \<times> flags) outcome" where
  "aam_word d radix f =
     check (radix \<noteq> 0) (Fatal ''division by zero'')
     (Inr (let h = ucast (d div radix) :: u16;
               l = ucast (d mod radix) :: u16;
               l = l OR push_bit 8 h;
               f = CLEAR_FLAG F_CF f;
               f = CLEAR_FLAG F_AF f;
               f = CLEAR_FLAG F_OF f;
               f = CONDITIONAL_SET_FLAG (l AND 0x80 \<noteq> 0) F_SF f;
               f = CONDITIONAL_SET_FLAG (l = 0) F_ZF f;
               f = CONDITIONAL_SET_FLAG (PARITY (ucast (l AND 0xff))) F_PF f
           in (l, f)))"

definition daa_byte :: "u8 \<Rightarrow> flags \<Rightarrow> u8 \<times> flags" where
  "daa_byte d f =
     (let res = ucast d :: u32;
          (res, f) = (if (d AND 0xf) > 9 \<or> ACCESS_FLAG F_AF f then (res + 6, SET_FLAG F_AF f) else (res, f));
          (res, f) = (if res > 0x9F \<or> ACCESS_FLAG F_CF f then (res + 0x60, SET_FLAG F_CF f) else (res, f));
          f = CONDITIONAL_SET_FLAG (res AND 0x80 \<noteq> 0) F_SF f;
          f = CONDITIONAL_SET_FLAG (res AND 0xFF = 0) F_ZF f;
          f = CONDITIONAL_SET_FLAG (PARITY (res AND 0xff)) F_PF f
      in (ucast res, f))"

definition das_byte :: "u8 \<Rightarrow> flags \<Rightarrow> u8 \<times> flags" where
  "das_byte d f =
     (let (d, f) = (if (d AND 0xf) > 9 \<or> ACCESS_FLAG F_AF f then (d - 6, SET_FLAG F_AF f) else (d, f));
          (d, f) = (if d > 0x9F \<or> ACCESS_FLAG F_CF f then (d - 0x60, SET_FLAG F_CF f) else (d, f));
          f = CONDITIONAL_SET_FLAG (d AND 0x80 \<noteq> 0) F_SF f;
          f = CONDITIONAL_SET_FLAG (d = 0) F_ZF f;
          f = CONDITIONAL_SET_FLAG (PARITY (ucast (d AND 0xff))) F_PF f
      in (d, f))"

section \<open>Properties\<close>

definition is_logic :: "'a::len word \<times> flags \<Rightarrow> 'a word \<Rightarrow> flags \<Rightarrow> bool" where
  "is_logic rf r f \<longleftrightarrow> fst rf = r \<and> result_flags r (snd rf) \<and> other_bits f (snd rf) \<and>
     \<not> ACCESS_FLAG F_CF (snd rf) \<and> \<not> ACCESS_FLAG F_OF (snd rf) \<and> \<not> ACCESS_FLAG F_AF (snd rf)"

lemma sign_bits:
  "bit w 7 = (sint w < 0)" "bit w' 15 = (sint w' < 0)" "bit w'' 31 = (sint w'' < 0)"
  for w :: u8 and w' :: u16 and w'' :: u32
  using bit_last_iff [of w] bit_last_iff [of w'] bit_last_iff [of w''] by simp_all

lemma cast_and:
  "(ucast v AND ucast w :: u32) = ucast (v AND w)" "(ucast v' AND ucast w' :: u32) = ucast (v' AND w')"
  "bit (ucast v :: u32) 7 = (sint v < 0)" "bit (ucast v' :: u32) 15 = (sint v' < 0)"
  "(ucast v :: u32) = 0 \<longleftrightarrow> v = 0" "(ucast v' :: u32) = 0 \<longleftrightarrow> v' = 0"
  for v w :: u8 and v' w' :: u16
proof -
  show "(ucast v AND ucast w :: u32) = ucast (v AND w)" "(ucast v' AND ucast w' :: u32) = ucast (v' AND w')"
    by (simp_all add: unsigned_and_eq)
  show "bit (ucast v :: u32) 7 = (sint v < 0)" "bit (ucast v' :: u32) 15 = (sint v' < 0)"
    by (simp_all add: bit_ucast_iff sign_bits)
  show "(ucast v :: u32) = 0 \<longleftrightarrow> v = 0" "(ucast v' :: u32) = 0 \<longleftrightarrow> v' = 0"
    using cast_back [where 'b = 32, of v] cast_back [where 'b = 32, of v'] by auto
qed

lemmas test_simps = is_logic_def result_flags_def Let_def flag_simps test_bit_masks other_bits_def cast_and

lemmas logic_simps = is_logic_def result_flags_def Let_def alu_simps sign_bits

text \<open>
  \<open>AND\<close>, \<open>OR\<close> and \<open>XOR\<close> compute the bitwise operation, clear carry, overflow and auxiliary carry and set
  zero, sign and parity from the result. \<open>TEST\<close> sets zero, sign and parity like \<open>AND\<close> and clears carry
  and overflow.
\<close>

theorem logic_instructions:
  "is_logic (and_byte d8 s8 f) (d8 AND s8) f \<and> is_logic (or_byte d8 s8 f) (d8 OR s8) f \<and> is_logic (xor_byte d8 s8 f) (d8 XOR s8) f \<and>
   is_logic (and_word d16 s16 f) (d16 AND s16) f \<and> is_logic (or_word d16 s16 f) (d16 OR s16) f \<and>
   is_logic (xor_word d16 s16 f) (d16 XOR s16) f \<and>
   is_logic (and_long d32 s32 f) (d32 AND s32) f \<and> is_logic (or_long d32 s32 f) (d32 OR s32) f \<and>
   is_logic (xor_long d32 s32 f) (d32 XOR s32) f \<and>
   is_logic (d8 AND s8, CLEAR_FLAG F_AF (test_byte d8 s8 f)) (d8 AND s8) f \<and>
   is_logic (d16 AND s16, CLEAR_FLAG F_AF (test_word d16 s16 f)) (d16 AND s16) f \<and>
   is_logic (d32 AND s32, CLEAR_FLAG F_AF (test_long d32 s32 f)) (d32 AND s32) f"
proof (intro conjI)
  show "is_logic (and_byte d8 s8 f) (d8 AND s8) f" by (simp add: and_byte_def logic_simps)
  show "is_logic (or_byte d8 s8 f) (d8 OR s8) f" by (simp add: or_byte_def logic_simps)
  show "is_logic (xor_byte d8 s8 f) (d8 XOR s8) f" by (simp add: xor_byte_def logic_simps)
  show "is_logic (and_word d16 s16 f) (d16 AND s16) f" by (simp add: and_word_def logic_simps)
  show "is_logic (or_word d16 s16 f) (d16 OR s16) f" by (simp add: or_word_def logic_simps)
  show "is_logic (xor_word d16 s16 f) (d16 XOR s16) f" by (simp add: xor_word_def logic_simps)
  show "is_logic (and_long d32 s32 f) (d32 AND s32) f" by (simp add: and_long_def logic_simps)
  show "is_logic (or_long d32 s32 f) (d32 OR s32) f" by (simp add: or_long_def logic_simps)
  show "is_logic (xor_long d32 s32 f) (d32 XOR s32) f" by (simp add: xor_long_def logic_simps)
  show "is_logic (d8 AND s8, CLEAR_FLAG F_AF (test_byte d8 s8 f)) (d8 AND s8) f"
    by (simp add: test_byte_def test_simps)
  show "is_logic (d16 AND s16, CLEAR_FLAG F_AF (test_word d16 s16 f)) (d16 AND s16) f"
    by (simp add: test_word_def test_simps)
  show "is_logic (d32 AND s32, CLEAR_FLAG F_AF (test_long d32 s32 f)) (d32 AND s32) f"
    by (simp add: test_long_def logic_simps)
qed

section \<open>Packed decimal\<close>

text \<open>Two decimal digits in a byte.\<close>

definition bcd :: "int \<Rightarrow> int" where
  "bcd n = 16 * (n div 10) + n mod 10"

text \<open>\<open>daa_byte\<close> and \<open>das_byte\<close> on integers: result and carry.\<close>

definition daa_int :: "int \<Rightarrow> bool \<Rightarrow> bool \<Rightarrow> int \<times> bool" where
  "daa_int x af cf =
     (let y = x + (if 9 < x mod 16 \<or> af then 6 else 0);
          c = (0x9F < y \<or> cf)
      in ((y + (if c then 0x60 else 0)) mod 256, c))"

definition das_int :: "int \<Rightarrow> bool \<Rightarrow> bool \<Rightarrow> int \<times> bool" where
  "das_int x af cf =
     (let y = (x - (if 9 < x mod 16 \<or> af then 6 else 0)) mod 256;
          c = (0x9F < y \<or> cf)
      in ((y - (if c then 0x60 else 0)) mod 256, c))"

lemma low_nibble: "(d AND 0xF) > 9 \<longleftrightarrow> 9 < uint d mod 16" for d :: u8
proof -
  have "uint (take_bit 4 d) = uint d mod 16" by (simp only: unsigned_take_bit_eq) (simp add: take_bit_eq_mod)
  then show ?thesis by (simp only: test_bit_masks word_less_def) simp
qed

lemma byte_range: "0 \<le> uint d" "uint d < 256" for d :: u8
  using uint_bounded [of d] by simp_all

lemma low_byte: "uint (ucast w :: u8) = uint w mod 256" for w :: u32
  by (simp add: unsigned_ucast_eq take_bit_eq_mod)

lemma byte_plus: "k < 1000 \<Longrightarrow> uint (ucast d + word_of_int k :: u32) = uint d + k" if "0 \<le> k" for d :: u8
  using that byte_range [of d] uint_cast [of d] by (simp add: uint_word_ariths uint_word_of_int)

lemmas byte_sums = byte_plus [of 6, simplified] byte_plus [of "0x60", simplified] byte_plus [of "0x66", simplified]
  byte_plus [of 0, simplified]

lemma daa_byte_int:
  "uint (fst (daa_byte d f)) = fst (daa_int (uint d) (ACCESS_FLAG F_AF f) (ACCESS_FLAG F_CF f))"
  "ACCESS_FLAG F_CF (snd (daa_byte d f)) = snd (daa_int (uint d) (ACCESS_FLAG F_AF f) (ACCESS_FLAG F_CF f))"
proof -
  have sum: "ucast d + 6 + 0x60 = (ucast d + 0x66 :: u32)" by simp
  have g: "0x9F < w \<longleftrightarrow> 0x9F < uint w" for w :: u32 by (simp only: word_less_def) simp
  show "uint (fst (daa_byte d f)) = fst (daa_int (uint d) (ACCESS_FLAG F_AF f) (ACCESS_FLAG F_CF f))"
    by (cases "9 < uint d mod 16 \<or> ACCESS_FLAG F_AF f")
      (simp_all add: daa_byte_def daa_int_def Let_def low_nibble g byte_sums low_byte sum flag_simps ac_simps)
  show "ACCESS_FLAG F_CF (snd (daa_byte d f)) = snd (daa_int (uint d) (ACCESS_FLAG F_AF f) (ACCESS_FLAG F_CF f))"
    by (cases "9 < uint d mod 16 \<or> ACCESS_FLAG F_AF f")
      (simp_all add: daa_byte_def daa_int_def Let_def low_nibble g byte_sums low_byte sum flag_simps ac_simps)
qed

lemma das_byte_int:
  "uint (fst (das_byte d f)) = fst (das_int (uint d) (ACCESS_FLAG F_AF f) (ACCESS_FLAG F_CF f))"
  "ACCESS_FLAG F_CF (snd (das_byte d f)) = snd (das_int (uint d) (ACCESS_FLAG F_AF f) (ACCESS_FLAG F_CF f))"
proof -
  have g: "0x9F < w \<longleftrightarrow> 0x9F < uint w" for w :: u8 by (simp only: word_less_def) simp
  have m: "uint (w - 6) = (uint w - 6) mod 256" "uint (w - 0x60) = (uint w - 0x60) mod 256" for w :: u8
    by (simp_all add: uint_word_ariths)
  have m2: "uint (w - 102) = ((uint w - 6) mod 256 - 96) mod 256" for w :: u8
    by (simp add: uint_word_ariths mod_simps)
  have t: "159 < y mod 256 \<Longrightarrow> (y mod 256 - 96) mod 256 = y mod 256 - 96" for y :: int
    by (rule mod_pos_pos_trivial) (use pos_mod_bound [of 256 y] in linarith)+
  show "uint (fst (das_byte d f)) = fst (das_int (uint d) (ACCESS_FLAG F_AF f) (ACCESS_FLAG F_CF f))"
    by (cases "9 < uint d mod 16 \<or> ACCESS_FLAG F_AF f")
      (simp_all add: das_byte_def das_int_def Let_def low_nibble g m m2 t flag_simps byte_range)
  show "ACCESS_FLAG F_CF (snd (das_byte d f)) = snd (das_int (uint d) (ACCESS_FLAG F_AF f) (ACCESS_FLAG F_CF f))"
    by (cases "9 < uint d mod 16 \<or> ACCESS_FLAG F_AF f")
      (simp_all add: das_byte_def das_int_def Let_def low_nibble g m m2 t flag_simps byte_range)
qed

text \<open>Digit sums are between 0 and 18, digit differences between -9 and 9: 361 cases each.\<close>

lemma daa_table:
  "\<forall>h \<in> set [0..<19]. \<forall>l \<in> set [0..<19].
     daa_int ((16 * int h + int l) mod 256) (16 \<le> l) (256 \<le> 16 * h + l) =
       (bcd ((10 * int h + int l) mod 100), 100 \<le> 10 * h + l)"
  by code_simp

lemma das_table:
  "\<forall>h \<in> set [0..<19]. \<forall>l \<in> set [0..<19].
     das_int ((16 * (int h - 9) + (int l - 9)) mod 256) (l < 9) (16 * (int h - 9) + (int l - 9) < 0) =
       (bcd ((10 * (int h - 9) + (int l - 9)) mod 100), 10 * (int h - 9) + (int l - 9) < 0)"
  by code_simp

lemma digits:
  fixes a b p q u v :: int
  assumes "a = 10 * p + q" "b = 10 * u + v"
  shows "16 * (p + u) + (q + v) = 16 * p + q + (16 * u + v)" "10 * (p + u) + (q + v) = a + b"
    "16 * (p - u) + (q - v) = 16 * p + q - (16 * u + v)" "10 * (p - u) + (q - v) = a - b"
  using assms by simp_all

text \<open>The instruction pairs, on two decimal numbers below 100.\<close>

definition decimal_add :: "int \<Rightarrow> int \<Rightarrow> flags \<Rightarrow> u8 \<times> flags" where
  "decimal_add a b f = (let (r, f) = add_byte (word_of_int (bcd a)) (word_of_int (bcd b)) f in daa_byte r f)"

definition decimal_sub :: "int \<Rightarrow> int \<Rightarrow> flags \<Rightarrow> u8 \<times> flags" where
  "decimal_sub a b f = (let (r, f) = sub_byte (word_of_int (bcd a)) (word_of_int (bcd b)) f in das_byte r f)"

text \<open>
  C35. Decimal arithmetic: \<open>ADD\<close> of two packed decimal bytes followed by \<open>DAA\<close> gives their decimal sum
  and sets the carry flag when it is 100 or more; \<open>SUB\<close> followed by \<open>DAS\<close> gives the decimal difference modulo
  100 and sets the carry flag on a borrow.
\<close>

theorem decimal_adjustment:
  fixes a b :: int
  assumes "0 \<le> a" "a < 100" "0 \<le> b" "b < 100"
  shows "uint (fst (decimal_add a b f0)) = bcd ((a + b) mod 100) \<and> ACCESS_FLAG F_CF (snd (decimal_add a b f0)) = (100 \<le> a + b) \<and>
    uint (fst (decimal_sub a b f0)) = bcd ((a - b) mod 100) \<and> ACCESS_FLAG F_CF (snd (decimal_sub a b f0)) = (a < b)"
proof -
  let ?A = "word_of_int (bcd a) :: u8" and ?B = "word_of_int (bcd b) :: u8"
  have u: "uint (word_of_int (bcd n) :: u8) = bcd n" "bcd n mod 16 = n mod 10" "n = 10 * (n div 10) + n mod 10"
    if "0 \<le> n" "n < 100" for n
  proof -
    have "n div 10 < 10" "0 \<le> n div 10" using that by auto
    moreover have "0 \<le> n mod 10" "n mod 10 < 10" by simp_all
    ultimately have "0 \<le> bcd n" "bcd n < 256" unfolding bcd_def by linarith+
    then show "uint (word_of_int (bcd n) :: u8) = bcd n" by (simp add: uint_word_of_int)
    show "bcd n mod 16 = n mod 10" by (simp add: bcd_def)
    show "n = 10 * (n div 10) + n mod 10" by simp
  qed
  let ?h = "nat (a div 10 + b div 10)" and ?l = "nat (a mod 10 + b mod 10)"
    and ?h' = "nat (a div 10 - b div 10 + 9)" and ?l' = "nat (a mod 10 - b mod 10 + 9)"
  have dig: "0 \<le> a div 10" "a div 10 < 10" "0 \<le> b div 10" "b div 10 < 10"
    "0 \<le> a mod 10" "a mod 10 < 10" "0 \<le> b mod 10" "b mod 10 < 10" using assms by auto
  obtain r f where rf: "add_byte ?A ?B f0 = (r, f)" by (cases "add_byte ?A ?B f0")
  have add: "uint r = (bcd a + bcd b) mod 256" "ACCESS_FLAG F_CF f = (256 \<le> bcd a + bcd b)"
    "ACCESS_FLAG F_AF f = (16 \<le> a mod 10 + b mod 10)"
    using add_byte [of ?A ?B f0] u [of a] u [of b] assms
    by (simp_all add: rf is_add_def add_flags_def uint_word_ariths)
  obtain r' f' where rf': "sub_byte ?A ?B f0 = (r', f')" by (cases "sub_byte ?A ?B f0")
  have sub: "uint r' = (bcd a - bcd b) mod 256" "ACCESS_FLAG F_CF f' = (bcd a < bcd b)"
    "ACCESS_FLAG F_AF f' = (a mod 10 < b mod 10)"
    using sub_byte [of ?A ?B f0] u [of a] u [of b] assms
    by (simp_all add: rf' is_sub_def sub_flags_def uint_word_ariths)
  have s: "?h < 19" "?l < 19" "?h' < 19" "?l' < 19" "int ?h = a div 10 + b div 10" "int ?l = a mod 10 + b mod 10"
    "int ?h' - 9 = a div 10 - b div 10" "int ?l' - 9 = a mod 10 - b mod 10"
    using dig by (simp_all add: nat_less_iff)
  have val: "16 * (a div 10 + b div 10) + (a mod 10 + b mod 10) = bcd a + bcd b"
    "10 * (a div 10 + b div 10) + (a mod 10 + b mod 10) = a + b"
    "16 * (a div 10 - b div 10) + (a mod 10 - b mod 10) = bcd a - bcd b"
    "10 * (a div 10 - b div 10) + (a mod 10 - b mod 10) = a - b"
    by (simp_all only: bcd_def) (rule digits; rule mult_div_mod_eq [symmetric])+
  have "daa_int ((16 * int ?h + int ?l) mod 256) (16 \<le> ?l) (256 \<le> 16 * ?h + ?l) =
      (bcd ((10 * int ?h + int ?l) mod 100), 100 \<le> 10 * ?h + ?l)"
    using daa_table s(1,2) by (metis atLeast0LessThan lessThan_iff atLeastLessThan_upt)
  then have t: "daa_int ((bcd a + bcd b) mod 256) (16 \<le> a mod 10 + b mod 10) (256 \<le> bcd a + bcd b) =
      (bcd ((a + b) mod 100), 100 \<le> a + b)"
    using s(5,6) val(1,2) by (simp only: flip: of_nat_le_iff [where 'a = int]) (simp add: add.commute)
  have "das_int ((16 * (int ?h' - 9) + (int ?l' - 9)) mod 256) (?l' < 9) (16 * (int ?h' - 9) + (int ?l' - 9) < 0) =
      (bcd ((10 * (int ?h' - 9) + (int ?l' - 9)) mod 100), 10 * (int ?h' - 9) + (int ?l' - 9) < 0)"
    using das_table s(3,4) by (metis atLeast0LessThan lessThan_iff atLeastLessThan_upt)
  then have t': "das_int ((bcd a - bcd b) mod 256) (a mod 10 < b mod 10) (bcd a < bcd b) =
      (bcd ((a - b) mod 100), a < b)"
    using s(7,8) val(3,4) by (simp only: flip: of_nat_less_iff [where 'a = int]) simp
  show ?thesis
    using daa_byte_int [of r f] das_byte_int [of r' f'] add sub t t'
    by (simp add: decimal_add_def decimal_sub_def rf rf')
qed

theorem decimal_adjustment_witness:
  "uint (fst (decimal_add 58 67 0)) = 0x25 \<and> ACCESS_FLAG F_CF (snd (decimal_add 58 67 0))"
  using decimal_adjustment [of 58 67 0] by (simp add: bcd_def)

end
