(* ===== verification/X86emu_Shift.thy ===== *)
theory X86emu_Shift
  imports X86emu_Logic
begin

text \<open>
  The rotate and shift instructions of the emulator (\<open>libx86emu/prim_ops.c\<close>): \<open>rcl\<close>, \<open>rcr\<close>, \<open>rol\<close>,
  \<open>ror\<close>, \<open>shl\<close>, \<open>shr\<close>, \<open>sar\<close> for 8, 16 and 32 bits, \<open>shld\<close> and \<open>shrd\<close> for 16 and 32, with
  rotations of words, of words with the carry on top, and shifts of words as the reference.
\<close>

text \<open>
  Shifts of C on 32-bit values. C leaves a shift by 32 or more undefined; here it is the
  processor's, by the count modulo 32. Narrower operands are promoted to \<open>int\<close>, with the same bits.
\<close>

definition shl32 :: "u32 \<Rightarrow> nat \<Rightarrow> u32" where
  "shl32 x n = push_bit (n mod 32) x"

definition shr32 :: "u32 \<Rightarrow> nat \<Rightarrow> u32" where
  "shr32 x n = drop_bit (n mod 32) x"

definition rcl_byte :: "u8 \<Rightarrow> u8 \<Rightarrow> flags \<Rightarrow> u8 \<times> flags" where
  "rcl_byte d s f =
     (let cnt = unat s mod 9
      in if cnt \<noteq> 0 then
           let cf = shr32 (ucast d) (8 - cnt) AND 0x1;
               res = shl32 (ucast d) cnt AND 0xff;
               msk = shl32 1 (cnt - 1) - 1;
               res = res OR (shr32 (ucast d) (9 - cnt) AND msk);
               res = (if ACCESS_FLAG F_CF f then res OR shl32 1 (cnt - 1) else res);
               f = CONDITIONAL_SET_FLAG (cf \<noteq> 0) F_CF f;
               f = CONDITIONAL_SET_FLAG (cnt = 1 \<and> XOR2 (cf + (shr32 res 6 AND 0x2))) F_OF f
           in (ucast res, f)
         else (d, f))"

definition rcr_byte :: "u8 \<Rightarrow> u8 \<Rightarrow> flags \<Rightarrow> u8 \<times> flags" where
  "rcr_byte d s f =
     (let cnt = unat s mod 9
      in if cnt \<noteq> 0 then
           let (cf, ocf) = (if cnt = 1 then (ucast d AND 0x1, of_bool (ACCESS_FLAG F_CF f))
                            else (shr32 (ucast d) (cnt - 1) AND 0x1, 0));
               msk = shl32 1 (8 - cnt) - 1;
               res = shr32 (ucast d) cnt AND msk;
               res = res OR shl32 (ucast d) (9 - cnt);
               res = (if ACCESS_FLAG F_CF f then res OR shl32 1 (8 - cnt) else res);
               f = CONDITIONAL_SET_FLAG (cf \<noteq> 0) F_CF f;
               f = (if cnt = 1 then CONDITIONAL_SET_FLAG (XOR2 (ocf + (shr32 (ucast d) 6 AND 0x2))) F_OF f else f)
           in (ucast res, f)
         else (d, f))"

definition rol_byte :: "u8 \<Rightarrow> u8 \<Rightarrow> flags \<Rightarrow> u8 \<times> flags" where
  "rol_byte d s f =
     (let cnt = unat s mod 8;
          (res, f) = (if cnt \<noteq> 0 then
                        let res = shl32 (ucast d) cnt;
                            msk = shl32 1 cnt - 1;
                            res = res OR (shr32 (ucast d) (8 - cnt) AND msk);
                            f = CONDITIONAL_SET_FLAG (res AND 0x1 \<noteq> 0) F_CF f;
                            f = CONDITIONAL_SET_FLAG (s = 1 \<and> XOR2 ((res AND 0x1) + (shr32 res 6 AND 0x2))) F_OF f
                        in (res, f)
                      else (ucast d, f));
          f = (if s \<noteq> 0 then CONDITIONAL_SET_FLAG (res AND 0x1 \<noteq> 0) F_CF f else f)
      in (ucast res, f))"

definition ror_byte :: "u8 \<Rightarrow> u8 \<Rightarrow> flags \<Rightarrow> u8 \<times> flags" where
  "ror_byte d s f =
     (let cnt = unat s mod 8
      in if cnt \<noteq> 0 then
           let res = shl32 (ucast d) (8 - cnt);
               msk = shl32 1 (8 - cnt) - 1;
               res = res OR (shr32 (ucast d) cnt AND msk);
               f = CONDITIONAL_SET_FLAG (res AND 0x80 \<noteq> 0) F_CF f;
               f = CONDITIONAL_SET_FLAG (s = 1 \<and> XOR2 (shr32 res 6)) F_OF f
           in (ucast res, f)
         else if s \<noteq> 0 then (d, CONDITIONAL_SET_FLAG ((ucast d :: u32) AND 0x80 \<noteq> 0) F_CF f)
         else (d, f))"

definition shl_byte :: "u8 \<Rightarrow> u8 \<Rightarrow> flags \<Rightarrow> u8 \<times> flags" where
  "shl_byte d s f =
     (if s < 8 then
        let cnt = unat s mod 8;
            (res, f) = (if cnt > 0 then
                        let res = shl32 (ucast d) cnt;
                            cf = ucast d AND shl32 1 (8 - cnt);
                            f = CONDITIONAL_SET_FLAG (cf \<noteq> 0) F_CF f;
                            f = CONDITIONAL_SET_FLAG (res AND 0xff = 0) F_ZF f;
                            f = CONDITIONAL_SET_FLAG (res AND 0x80 \<noteq> 0) F_SF f;
                            f = CONDITIONAL_SET_FLAG (PARITY (res AND 0xff)) F_PF f
                        in (res, f)
                      else (ucast d, f));
            f = (if cnt = 1 then CONDITIONAL_SET_FLAG ((res AND 0x80 = 0x80) \<noteq> ACCESS_FLAG F_CF f) F_OF f else CLEAR_FLAG F_OF f)
        in (ucast res, f)
      else
        let f = CONDITIONAL_SET_FLAG (shl32 (ucast d) (unat s - 1) AND 0x80 \<noteq> 0) F_CF f;
            f = CLEAR_FLAG F_OF f;
            f = CLEAR_FLAG F_SF f;
            f = SET_FLAG F_PF f;
            f = SET_FLAG F_ZF f
        in (0, f))"

definition shr_byte :: "u8 \<Rightarrow> u8 \<Rightarrow> flags \<Rightarrow> u8 \<times> flags" where
  "shr_byte d s f =
     (if s < 8 then
        let cnt = unat s mod 8;
            (res, f) = (if cnt > 0 then
                        let res = shr32 (ucast d) cnt;
                            cf = ucast d AND shl32 1 (cnt - 1);
                            f = CONDITIONAL_SET_FLAG (cf \<noteq> 0) F_CF f;
                            f = CONDITIONAL_SET_FLAG (res AND 0xff = 0) F_ZF f;
                            f = CONDITIONAL_SET_FLAG (res AND 0x80 \<noteq> 0) F_SF f;
                            f = CONDITIONAL_SET_FLAG (PARITY (res AND 0xff)) F_PF f
                        in (res, f)
                      else (ucast d, f));
            f = (if cnt = 1 then CONDITIONAL_SET_FLAG (XOR2 (drop_bit 6 res)) F_OF f else CLEAR_FLAG F_OF f)
        in (ucast res, f)
      else
        let f = CONDITIONAL_SET_FLAG (shr32 (ucast d) (unat s - 1) AND 0x1 \<noteq> 0) F_CF f;
            f = CLEAR_FLAG F_OF f;
            f = CLEAR_FLAG F_SF f;
            f = SET_FLAG F_PF f;
            f = SET_FLAG F_ZF f
        in (0, f))"

definition sar_byte :: "u8 \<Rightarrow> u8 \<Rightarrow> flags \<Rightarrow> u8 \<times> flags" where
  "sar_byte d s f =
     (let sf = (ucast d :: u32) AND 0x80;
          cnt = unat s mod 8
      in if cnt > 0 \<and> cnt < 8 then
         let msk = shl32 1 (8 - cnt) - 1;
             cf = ucast d AND shl32 1 (cnt - 1);
             res = shr32 (ucast d) cnt AND msk;
             f = CONDITIONAL_SET_FLAG (cf \<noteq> 0) F_CF f;
             res = (if sf \<noteq> 0 then res OR NOT msk else res);
             f = CONDITIONAL_SET_FLAG (res AND 0xff = 0) F_ZF f;
             f = CONDITIONAL_SET_FLAG (PARITY (res AND 0xff)) F_PF f;
             f = CONDITIONAL_SET_FLAG (res AND 0x80 \<noteq> 0) F_SF f
         in (ucast res, f)
       else if cnt \<ge> 8 then
         if sf \<noteq> 0 then
           (0xff, SET_FLAG F_PF (SET_FLAG F_SF (CLEAR_FLAG F_ZF (SET_FLAG F_CF f))))
         else (0, CLEAR_FLAG F_PF (CLEAR_FLAG F_SF (SET_FLAG F_ZF (CLEAR_FLAG F_CF f))))
       else (d, f))"

definition rcl_word :: "u16 \<Rightarrow> u8 \<Rightarrow> flags \<Rightarrow> u16 \<times> flags" where
  "rcl_word d s f =
     (let cnt = unat s mod 17
      in if cnt \<noteq> 0 then
           let cf = shr32 (ucast d) (16 - cnt) AND 0x1;
               res = shl32 (ucast d) cnt AND 0xffff;
               msk = shl32 1 (cnt - 1) - 1;
               res = res OR (shr32 (ucast d) (17 - cnt) AND msk);
               res = (if ACCESS_FLAG F_CF f then res OR shl32 1 (cnt - 1) else res);
               f = CONDITIONAL_SET_FLAG (cf \<noteq> 0) F_CF f;
               f = CONDITIONAL_SET_FLAG (cnt = 1 \<and> XOR2 (cf + (shr32 res 14 AND 0x2))) F_OF f
           in (ucast res, f)
         else (d, f))"

definition rcr_word :: "u16 \<Rightarrow> u8 \<Rightarrow> flags \<Rightarrow> u16 \<times> flags" where
  "rcr_word d s f =
     (let cnt = unat s mod 17
      in if cnt \<noteq> 0 then
           let (cf, ocf) = (if cnt = 1 then (ucast d AND 0x1, of_bool (ACCESS_FLAG F_CF f))
                            else (shr32 (ucast d) (cnt - 1) AND 0x1, 0));
               msk = shl32 1 (16 - cnt) - 1;
               res = shr32 (ucast d) cnt AND msk;
               res = res OR shl32 (ucast d) (17 - cnt);
               res = (if ACCESS_FLAG F_CF f then res OR shl32 1 (16 - cnt) else res);
               f = CONDITIONAL_SET_FLAG (cf \<noteq> 0) F_CF f;
               f = (if cnt = 1 then CONDITIONAL_SET_FLAG (XOR2 (ocf + (shr32 (ucast d) 14 AND 0x2))) F_OF f else f)
           in (ucast res, f)
         else (d, f))"

definition rol_word :: "u16 \<Rightarrow> u8 \<Rightarrow> flags \<Rightarrow> u16 \<times> flags" where
  "rol_word d s f =
     (let cnt = unat s mod 16;
          (res, f) = (if cnt \<noteq> 0 then
                        let res = shl32 (ucast d) cnt;
                            msk = shl32 1 cnt - 1;
                            res = res OR (shr32 (ucast d) (16 - cnt) AND msk);
                            f = CONDITIONAL_SET_FLAG (res AND 0x1 \<noteq> 0) F_CF f;
                            f = CONDITIONAL_SET_FLAG (s = 1 \<and> XOR2 ((res AND 0x1) + (shr32 res 14 AND 0x2))) F_OF f
                        in (res, f)
                      else (ucast d, f));
          f = (if s \<noteq> 0 then CONDITIONAL_SET_FLAG (res AND 0x1 \<noteq> 0) F_CF f else f)
      in (ucast res, f))"

definition ror_word :: "u16 \<Rightarrow> u8 \<Rightarrow> flags \<Rightarrow> u16 \<times> flags" where
  "ror_word d s f =
     (let cnt = unat s mod 16
      in if cnt \<noteq> 0 then
           let res = shl32 (ucast d) (16 - cnt);
               msk = shl32 1 (16 - cnt) - 1;
               res = res OR (shr32 (ucast d) cnt AND msk);
               f = CONDITIONAL_SET_FLAG (res AND 0x8000 \<noteq> 0) F_CF f;
               f = CONDITIONAL_SET_FLAG (s = 1 \<and> XOR2 (shr32 res 14)) F_OF f
           in (ucast res, f)
         else if s \<noteq> 0 then (d, CONDITIONAL_SET_FLAG ((ucast d :: u32) AND 0x8000 \<noteq> 0) F_CF f)
         else (d, f))"

definition shl_word :: "u16 \<Rightarrow> u8 \<Rightarrow> flags \<Rightarrow> u16 \<times> flags" where
  "shl_word d s f =
     (if s < 16 then
        let cnt = unat s mod 16;
            (res, f) = (if cnt > 0 then
                        let res = shl32 (ucast d) cnt;
                            cf = ucast d AND shl32 1 (16 - cnt);
                            f = CONDITIONAL_SET_FLAG (cf \<noteq> 0) F_CF f;
                            f = CONDITIONAL_SET_FLAG (res AND 0xffff = 0) F_ZF f;
                            f = CONDITIONAL_SET_FLAG (res AND 0x8000 \<noteq> 0) F_SF f;
                            f = CONDITIONAL_SET_FLAG (PARITY (res AND 0xff)) F_PF f
                        in (res, f)
                      else (ucast d, f));
            f = (if cnt = 1 then CONDITIONAL_SET_FLAG ((res AND 0x8000 = 0x8000) \<noteq> ACCESS_FLAG F_CF f) F_OF f else CLEAR_FLAG F_OF f)
        in (ucast res, f)
      else
        let f = CONDITIONAL_SET_FLAG (shl32 (ucast d) (unat s - 1) AND 0x8000 \<noteq> 0) F_CF f;
            f = CLEAR_FLAG F_OF f;
            f = CLEAR_FLAG F_SF f;
            f = SET_FLAG F_PF f;
            f = SET_FLAG F_ZF f
        in (0, f))"

definition shr_word :: "u16 \<Rightarrow> u8 \<Rightarrow> flags \<Rightarrow> u16 \<times> flags" where
  "shr_word d s f =
     (if s < 16 then
        let cnt = unat s mod 16;
            (res, f) = (if cnt > 0 then
                        let res = shr32 (ucast d) cnt;
                            cf = ucast d AND shl32 1 (cnt - 1);
                            f = CONDITIONAL_SET_FLAG (cf \<noteq> 0) F_CF f;
                            f = CONDITIONAL_SET_FLAG (res AND 0xffff = 0) F_ZF f;
                            f = CONDITIONAL_SET_FLAG (res AND 0x8000 \<noteq> 0) F_SF f;
                            f = CONDITIONAL_SET_FLAG (PARITY (res AND 0xff)) F_PF f
                        in (res, f)
                      else (ucast d, f));
            f = (if cnt = 1 then CONDITIONAL_SET_FLAG (XOR2 (drop_bit 14 res)) F_OF f else CLEAR_FLAG F_OF f)
        in (ucast res, f)
      else
        let f = CLEAR_FLAG F_CF f;
            f = CLEAR_FLAG F_OF f;
            f = SET_FLAG F_ZF f;
            f = CLEAR_FLAG F_SF f;
            f = CLEAR_FLAG F_PF f
        in (0, f))"

definition shld_word :: "u16 \<Rightarrow> u16 \<Rightarrow> u8 \<Rightarrow> flags \<Rightarrow> u16 \<times> flags" where
  "shld_word d fill s f =
     (if s < 16 then
        let cnt = unat s mod 16;
            (res, f) = (if cnt > 0 then
                        let res = shl32 (ucast d) cnt OR shr32 (ucast fill) (16 - cnt);
                            cf = ucast d AND shl32 1 (16 - cnt);
                            f = CONDITIONAL_SET_FLAG (cf \<noteq> 0) F_CF f;
                            f = CONDITIONAL_SET_FLAG (res AND 0xffff = 0) F_ZF f;
                            f = CONDITIONAL_SET_FLAG (res AND 0x8000 \<noteq> 0) F_SF f;
                            f = CONDITIONAL_SET_FLAG (PARITY (res AND 0xff)) F_PF f
                        in (res, f)
                      else (ucast d, f));
            f = (if cnt = 1 then CONDITIONAL_SET_FLAG ((res AND 0x8000 = 0x8000) \<noteq> ACCESS_FLAG F_CF f) F_OF f else CLEAR_FLAG F_OF f)
        in (ucast res, f)
      else
        let f = CONDITIONAL_SET_FLAG (shl32 (ucast d) (unat s - 1) AND 0x8000 \<noteq> 0) F_CF f;
            f = CLEAR_FLAG F_OF f;
            f = CLEAR_FLAG F_SF f;
            f = SET_FLAG F_PF f;
            f = SET_FLAG F_ZF f
        in (0, f))"

definition shrd_word :: "u16 \<Rightarrow> u16 \<Rightarrow> u8 \<Rightarrow> flags \<Rightarrow> u16 \<times> flags" where
  "shrd_word d fill s f =
     (if s < 16 then
        let cnt = unat s mod 16;
            (res, f) = (if cnt > 0 then
                        let res = shr32 (ucast d) cnt OR shl32 (ucast fill) (16 - cnt);
                            cf = ucast d AND shl32 1 (cnt - 1);
                            f = CONDITIONAL_SET_FLAG (cf \<noteq> 0) F_CF f;
                            f = CONDITIONAL_SET_FLAG (res AND 0xffff = 0) F_ZF f;
                            f = CONDITIONAL_SET_FLAG (res AND 0x8000 \<noteq> 0) F_SF f;
                            f = CONDITIONAL_SET_FLAG (PARITY (res AND 0xff)) F_PF f
                        in (res, f)
                      else (ucast d, f));
            f = (if cnt = 1 then CONDITIONAL_SET_FLAG (XOR2 (drop_bit 14 res)) F_OF f else CLEAR_FLAG F_OF f)
        in (ucast res, f)
      else
        let f = CLEAR_FLAG F_CF f;
            f = CLEAR_FLAG F_OF f;
            f = SET_FLAG F_ZF f;
            f = CLEAR_FLAG F_SF f;
            f = CLEAR_FLAG F_PF f
        in (0, f))"

definition sar_word :: "u16 \<Rightarrow> u8 \<Rightarrow> flags \<Rightarrow> u16 \<times> flags" where
  "sar_word d s f =
     (let sf = (ucast d :: u32) AND 0x8000;
          cnt = unat s mod 16
      in if cnt > 0 \<and> cnt < 16 then
         let msk = shl32 1 (16 - cnt) - 1;
             cf = ucast d AND shl32 1 (cnt - 1);
             res = shr32 (ucast d) cnt AND msk;
             f = CONDITIONAL_SET_FLAG (cf \<noteq> 0) F_CF f;
             res = (if sf \<noteq> 0 then res OR NOT msk else res);
             f = CONDITIONAL_SET_FLAG (res AND 0xffff = 0) F_ZF f;
             f = CONDITIONAL_SET_FLAG (res AND 0x8000 \<noteq> 0) F_SF f;
             f = CONDITIONAL_SET_FLAG (PARITY (res AND 0xff)) F_PF f
         in (ucast res, f)
       else if cnt \<ge> 16 then
         if sf \<noteq> 0 then
           (0xffff, SET_FLAG F_PF (SET_FLAG F_SF (CLEAR_FLAG F_ZF (SET_FLAG F_CF f))))
         else (0, CLEAR_FLAG F_PF (CLEAR_FLAG F_SF (SET_FLAG F_ZF (CLEAR_FLAG F_CF f))))
       else (d, f))"

definition rcl_long :: "u32 \<Rightarrow> u8 \<Rightarrow> flags \<Rightarrow> u32 \<times> flags" where
  "rcl_long d s f =
     (let cnt = unat s mod 33
      in if cnt \<noteq> 0 then
           let cf = shr32 d (32 - cnt) AND 0x1;
               res = shl32 d cnt AND 0xffffffff;
               msk = shl32 1 (cnt - 1) - 1;
               res = res OR (shr32 d (33 - cnt) AND msk);
               res = (if ACCESS_FLAG F_CF f then res OR shl32 1 (cnt - 1) else res);
               f = CONDITIONAL_SET_FLAG (cf \<noteq> 0) F_CF f;
               f = CONDITIONAL_SET_FLAG (cnt = 1 \<and> XOR2 (cf + (shr32 res 30 AND 0x2))) F_OF f
           in (res, f)
         else (d, f))"

definition rcr_long :: "u32 \<Rightarrow> u8 \<Rightarrow> flags \<Rightarrow> u32 \<times> flags" where
  "rcr_long d s f =
     (let cnt = unat s mod 33
      in if cnt \<noteq> 0 then
           let (cf, ocf) = (if cnt = 1 then (d AND 0x1, of_bool (ACCESS_FLAG F_CF f))
                            else (shr32 d (cnt - 1) AND 0x1, 0));
               msk = shl32 1 (32 - cnt) - 1;
               res = shr32 d cnt AND msk;
               res = (if cnt \<noteq> 1 then res OR shl32 d (33 - cnt) else res);
               res = (if ACCESS_FLAG F_CF f then res OR shl32 1 (32 - cnt) else res);
               f = CONDITIONAL_SET_FLAG (cf \<noteq> 0) F_CF f;
               f = (if cnt = 1 then CONDITIONAL_SET_FLAG (XOR2 (ocf + (shr32 d 30 AND 0x2))) F_OF f else f)
           in (res, f)
         else (d, f))"

definition rol_long :: "u32 \<Rightarrow> u8 \<Rightarrow> flags \<Rightarrow> u32 \<times> flags" where
  "rol_long d s f =
     (let cnt = unat s mod 32;
          (res, f) = (if cnt \<noteq> 0 then
                        let res = shl32 d cnt;
                            msk = shl32 1 cnt - 1;
                            res = res OR (shr32 d (32 - cnt) AND msk);
                            f = CONDITIONAL_SET_FLAG (res AND 0x1 \<noteq> 0) F_CF f;
                            f = CONDITIONAL_SET_FLAG (s = 1 \<and> XOR2 ((res AND 0x1) + (shr32 res 30 AND 0x2))) F_OF f
                        in (res, f)
                      else (d, f));
          f = (if s \<noteq> 0 then CONDITIONAL_SET_FLAG (res AND 0x1 \<noteq> 0) F_CF f else f)
      in (res, f))"

definition ror_long :: "u32 \<Rightarrow> u8 \<Rightarrow> flags \<Rightarrow> u32 \<times> flags" where
  "ror_long d s f =
     (let cnt = unat s mod 32
      in if cnt \<noteq> 0 then
           let res = shl32 d (32 - cnt);
               msk = shl32 1 (32 - cnt) - 1;
               res = res OR (shr32 d cnt AND msk);
               f = CONDITIONAL_SET_FLAG (res AND 0x80000000 \<noteq> 0) F_CF f;
               f = CONDITIONAL_SET_FLAG (s = 1 \<and> XOR2 (shr32 res 30)) F_OF f
           in (res, f)
         else if s \<noteq> 0 then (d, CONDITIONAL_SET_FLAG (d AND 0x80000000 \<noteq> 0) F_CF f)
         else (d, f))"

definition shl_long :: "u32 \<Rightarrow> u8 \<Rightarrow> flags \<Rightarrow> u32 \<times> flags" where
  "shl_long d s f =
     (if s < 32 then
        let cnt = unat s mod 32;
            (res, f) = (if cnt > 0 then
                        let res = shl32 d cnt;
                            cf = d AND shl32 1 (32 - cnt);
                            f = CONDITIONAL_SET_FLAG (cf \<noteq> 0) F_CF f;
                            f = CONDITIONAL_SET_FLAG (res AND 0xffffffff = 0) F_ZF f;
                            f = CONDITIONAL_SET_FLAG (res AND 0x80000000 \<noteq> 0) F_SF f;
                            f = CONDITIONAL_SET_FLAG (PARITY (res AND 0xff)) F_PF f
                        in (res, f)
                      else (d, f));
            f = (if cnt = 1 then CONDITIONAL_SET_FLAG ((res AND 0x80000000 = 0x80000000) \<noteq> ACCESS_FLAG F_CF f) F_OF f else CLEAR_FLAG F_OF f)
        in (res, f)
      else
        let f = CONDITIONAL_SET_FLAG (shl32 d (unat s - 1) AND 0x80000000 \<noteq> 0) F_CF f;
            f = CLEAR_FLAG F_OF f;
            f = CLEAR_FLAG F_SF f;
            f = SET_FLAG F_PF f;
            f = SET_FLAG F_ZF f
        in (0, f))"

definition shr_long :: "u32 \<Rightarrow> u8 \<Rightarrow> flags \<Rightarrow> u32 \<times> flags" where
  "shr_long d s f =
     (if s < 32 then
        let cnt = unat s mod 32;
            (res, f) = (if cnt > 0 then
                        let res = shr32 d cnt;
                            cf = d AND shl32 1 (cnt - 1);
                            f = CONDITIONAL_SET_FLAG (cf \<noteq> 0) F_CF f;
                            f = CONDITIONAL_SET_FLAG (res AND 0xffffffff = 0) F_ZF f;
                            f = CONDITIONAL_SET_FLAG (res AND 0x80000000 \<noteq> 0) F_SF f;
                            f = CONDITIONAL_SET_FLAG (PARITY (res AND 0xff)) F_PF f
                        in (res, f)
                      else (d, f));
            f = (if cnt = 1 then CONDITIONAL_SET_FLAG (XOR2 (drop_bit 30 res)) F_OF f else CLEAR_FLAG F_OF f)
        in (res, f)
      else
        let f = CLEAR_FLAG F_CF f;
            f = CLEAR_FLAG F_OF f;
            f = SET_FLAG F_ZF f;
            f = CLEAR_FLAG F_SF f;
            f = CLEAR_FLAG F_PF f
        in (0, f))"

definition shld_long :: "u32 \<Rightarrow> u32 \<Rightarrow> u8 \<Rightarrow> flags \<Rightarrow> u32 \<times> flags" where
  "shld_long d fill s f =
     (if s < 32 then
        let cnt = unat s mod 32;
            (res, f) = (if cnt > 0 then
                        let res = shl32 d cnt OR shr32 (fill) (32 - cnt);
                            cf = d AND shl32 1 (32 - cnt);
                            f = CONDITIONAL_SET_FLAG (cf \<noteq> 0) F_CF f;
                            f = CONDITIONAL_SET_FLAG (res AND 0xffffffff = 0) F_ZF f;
                            f = CONDITIONAL_SET_FLAG (res AND 0x80000000 \<noteq> 0) F_SF f;
                            f = CONDITIONAL_SET_FLAG (PARITY (res AND 0xff)) F_PF f
                        in (res, f)
                      else (d, f));
            f = (if cnt = 1 then CONDITIONAL_SET_FLAG ((res AND 0x80000000 = 0x80000000) \<noteq> ACCESS_FLAG F_CF f) F_OF f else CLEAR_FLAG F_OF f)
        in (res, f)
      else
        let f = CONDITIONAL_SET_FLAG (shl32 d (unat s - 1) AND 0x80000000 \<noteq> 0) F_CF f;
            f = CLEAR_FLAG F_OF f;
            f = CLEAR_FLAG F_SF f;
            f = SET_FLAG F_PF f;
            f = SET_FLAG F_ZF f
        in (0, f))"

definition shrd_long :: "u32 \<Rightarrow> u32 \<Rightarrow> u8 \<Rightarrow> flags \<Rightarrow> u32 \<times> flags" where
  "shrd_long d fill s f =
     (if s < 32 then
        let cnt = unat s mod 32;
            (res, f) = (if cnt > 0 then
                        let res = shr32 d cnt OR shl32 (fill) (32 - cnt);
                            cf = d AND shl32 1 (cnt - 1);
                            f = CONDITIONAL_SET_FLAG (cf \<noteq> 0) F_CF f;
                            f = CONDITIONAL_SET_FLAG (res AND 0xffffffff = 0) F_ZF f;
                            f = CONDITIONAL_SET_FLAG (res AND 0x80000000 \<noteq> 0) F_SF f;
                            f = CONDITIONAL_SET_FLAG (PARITY (res AND 0xff)) F_PF f
                        in (res, f)
                      else (d, f));
            f = (if cnt = 1 then CONDITIONAL_SET_FLAG (XOR2 (drop_bit 30 res)) F_OF f else CLEAR_FLAG F_OF f)
        in (res, f)
      else
        let f = CLEAR_FLAG F_CF f;
            f = CLEAR_FLAG F_OF f;
            f = SET_FLAG F_ZF f;
            f = CLEAR_FLAG F_SF f;
            f = CLEAR_FLAG F_PF f
        in (0, f))"

definition sar_long :: "u32 \<Rightarrow> u8 \<Rightarrow> flags \<Rightarrow> u32 \<times> flags" where
  "sar_long d s f =
     (let sf = d AND 0x80000000;
          cnt = unat s mod 32
      in if cnt > 0 \<and> cnt < 32 then
         let msk = shl32 1 (32 - cnt) - 1;
             cf = d AND shl32 1 (cnt - 1);
             res = shr32 d cnt AND msk;
             f = CONDITIONAL_SET_FLAG (cf \<noteq> 0) F_CF f;
             res = (if sf \<noteq> 0 then res OR NOT msk else res);
             f = CONDITIONAL_SET_FLAG (res AND 0xffffffff = 0) F_ZF f;
             f = CONDITIONAL_SET_FLAG (res AND 0x80000000 \<noteq> 0) F_SF f;
             f = CONDITIONAL_SET_FLAG (PARITY (res AND 0xff)) F_PF f
         in (res, f)
       else if cnt \<ge> 32 then
         if sf \<noteq> 0 then
           (0xffffffff, SET_FLAG F_PF (SET_FLAG F_SF (CLEAR_FLAG F_ZF (SET_FLAG F_CF f))))
         else (0, CLEAR_FLAG F_PF (CLEAR_FLAG F_SF (SET_FLAG F_ZF (CLEAR_FLAG F_CF f))))
       else (d, f))"

section \<open>Bits\<close>

lemma bit_shl32: "n < 32 \<Longrightarrow> bit (shl32 x n) k \<longleftrightarrow> n \<le> k \<and> k < 32 \<and> bit x (k - n)"
  by (auto simp: shl32_def bit_push_bit_iff)

lemma bit_shr32: "n < 32 \<Longrightarrow> bit (shr32 x n) k \<longleftrightarrow> bit x (k + n)"
  by (simp add: shr32_def bit_drop_bit_eq add.commute)

lemma mask_shl32: "n < 32 \<Longrightarrow> shl32 1 n - 1 = mask n"
  by (simp add: shl32_def mask_eq_exp_minus_1 push_bit_of_1)

lemma one_shl32: "n < 32 \<Longrightarrow> w AND shl32 1 n \<noteq> 0 \<longleftrightarrow> bit w n"
  using and_exp_nonzero [of w n] by (simp add: shl32_def push_bit_of_1)

lemma bit_cast: "bit (ucast w :: u32) k \<longleftrightarrow> bit w k \<and> k < 32" for w :: "'a::len word"
  by (auto simp: bit_ucast_iff)

lemma bit_mask32: "bit (mask n :: u32) k \<longleftrightarrow> k < n \<and> k < 32"
  by (auto simp: bit_mask_iff)

lemmas shift_bits = bit_shl32 bit_shr32 mask_shl32 one_shl32 bit_cast bit_mask32 bit_and_iff bit_or_iff bit_not_iff
  bit_take_bit_iff bit_ucast_iff

section \<open>Rotations\<close>

lemma bit_rotl:
  fixes w :: "'a::len word"
  assumes "k < LENGTH('a)"
  shows "bit (word_rotl n w) k \<longleftrightarrow> (if n mod LENGTH('a) \<le> k then bit w (k - n mod LENGTH('a))
    else bit w (k + LENGTH('a) - n mod LENGTH('a)))"
proof -
  let ?L = "LENGTH('a)" and ?c = "n mod LENGTH('a)"
  have c: "?c < ?L" by simp
  have "(k + (?L - ?c)) mod ?L = (if ?c \<le> k then k - ?c else k + ?L - ?c)"
  proof (cases "?c \<le> k")
    case True
    then have "k + (?L - ?c) = (k - ?c) + ?L" using c by linarith
    then show ?thesis using True assms by (simp only: mod_add_self2) simp
  qed (use c assms in auto)
  then show ?thesis using assms by (simp add: word_rotl_eq_word_rotr bit_word_rotr_iff)
qed

lemma bit_rotr:
  fixes w :: "'a::len word"
  assumes "k < LENGTH('a)"
  shows "bit (word_rotr n w) k \<longleftrightarrow> (if k + n mod LENGTH('a) < LENGTH('a) then bit w (k + n mod LENGTH('a))
    else bit w (k + n mod LENGTH('a) - LENGTH('a)))"
proof -
  let ?L = "LENGTH('a)" and ?c = "n mod LENGTH('a)"
  have c: "?c < ?L" by simp
  have "(k + ?c) mod ?L = (if k + ?c < ?L then k + ?c else k + ?c - ?L)"
  proof (cases "k + ?c < ?L")
    case False
    then have "(k + ?c) mod ?L = (k + ?c - ?L) mod ?L" by (intro le_mod_geq) simp
    moreover have "k + ?c - ?L < ?L" using assms c False by linarith
    ultimately show ?thesis using False by simp
  qed simp
  moreover have "(k + n) mod ?L = (k + ?c) mod ?L" by (simp add: mod_simps)
  ultimately show ?thesis using assms by (simp add: bit_word_rotr_iff)
qed

text \<open>Rotation: the carry becomes the bit that was rotated around last; a count of 0 changes nothing.\<close>

definition is_rol :: "'a::len word \<times> flags \<Rightarrow> 'a word \<Rightarrow> u8 \<Rightarrow> flags \<Rightarrow> bool" where
  "is_rol rf d s f \<longleftrightarrow> fst rf = word_rotl (unat s) d \<and>
     (if s = 0 then snd rf = f else ACCESS_FLAG F_CF (snd rf) = bit (fst rf) 0)"

definition is_ror :: "'a::len word \<times> flags \<Rightarrow> 'a word \<Rightarrow> u8 \<Rightarrow> flags \<Rightarrow> bool" where
  "is_ror rf d s f \<longleftrightarrow> fst rf = word_rotr (unat s) d \<and>
     (if s = 0 then snd rf = f else ACCESS_FLAG F_CF (snd rf) = bit (fst rf) (LENGTH('a) - 1))"

lemma rol_byte: "is_rol (rol_byte d s f) d s f"
proof -
  have c: "unat s mod 8 < 8" by simp
  have "fst (rol_byte d s f) = word_rotl (unat s) d"
  proof (rule bit_word_eqI)
    fix k assume "k < LENGTH(8)"
    then have "k < 8" by simp
    then show "bit (fst (rol_byte d s f)) k = bit (word_rotl (unat s) d) k"
      using c by (auto simp: rol_byte_def Let_def bit_rotl shift_bits dest: bit_imp_le_length)
  qed
  moreover have "s \<noteq> 0 \<Longrightarrow> ACCESS_FLAG F_CF (snd (rol_byte d s f)) = bit (fst (rol_byte d s f)) 0"
    by (simp add: rol_byte_def case_prod_unfold Let_def alu_simps bit_ucast_iff)
  moreover have "snd (rol_byte d 0 f) = f" by (simp add: rol_byte_def)
  ultimately show ?thesis by (simp add: is_rol_def)
qed

lemma ror_byte: "is_ror (ror_byte d s f) d s f"
proof -
  have c: "unat s mod 8 < 8" by simp
  have "fst (ror_byte d s f) = word_rotr (unat s) d"
  proof (rule bit_word_eqI)
    fix k assume "k < LENGTH(8)"
    then have "k < 8" by simp
    then show "bit (fst (ror_byte d s f)) k = bit (word_rotr (unat s) d) k"
      using c by (auto simp: ror_byte_def Let_def bit_rotr shift_bits dest: bit_imp_le_length)
  qed
  moreover have "s \<noteq> 0 \<Longrightarrow> ACCESS_FLAG F_CF (snd (ror_byte d s f)) = bit (fst (ror_byte d s f)) 7"
    by (simp add: ror_byte_def case_prod_unfold Let_def alu_simps bit_ucast_iff)
  moreover have "snd (ror_byte d 0 f) = f" by (simp add: ror_byte_def)
  ultimately show ?thesis by (simp add: is_ror_def)
qed

lemma rol_word: "is_rol (rol_word d s f) d s f"
proof -
  have c: "unat s mod 16 < 16" by simp
  have "fst (rol_word d s f) = word_rotl (unat s) d"
  proof (rule bit_word_eqI)
    fix k assume "k < LENGTH(16)"
    then have "k < 16" by simp
    then show "bit (fst (rol_word d s f)) k = bit (word_rotl (unat s) d) k"
      using c by (auto simp: rol_word_def Let_def bit_rotl shift_bits dest: bit_imp_le_length)
  qed
  moreover have "s \<noteq> 0 \<Longrightarrow> ACCESS_FLAG F_CF (snd (rol_word d s f)) = bit (fst (rol_word d s f)) 0"
    by (simp add: rol_word_def case_prod_unfold Let_def alu_simps bit_ucast_iff)
  moreover have "snd (rol_word d 0 f) = f" by (simp add: rol_word_def)
  ultimately show ?thesis by (simp add: is_rol_def)
qed

lemma ror_word: "is_ror (ror_word d s f) d s f"
proof -
  have c: "unat s mod 16 < 16" by simp
  have "fst (ror_word d s f) = word_rotr (unat s) d"
  proof (rule bit_word_eqI)
    fix k assume "k < LENGTH(16)"
    then have "k < 16" by simp
    then show "bit (fst (ror_word d s f)) k = bit (word_rotr (unat s) d) k"
      using c by (auto simp: ror_word_def Let_def bit_rotr shift_bits dest: bit_imp_le_length)
  qed
  moreover have "s \<noteq> 0 \<Longrightarrow> ACCESS_FLAG F_CF (snd (ror_word d s f)) = bit (fst (ror_word d s f)) 15"
    by (simp add: ror_word_def case_prod_unfold Let_def alu_simps bit_ucast_iff)
  moreover have "snd (ror_word d 0 f) = f" by (simp add: ror_word_def)
  ultimately show ?thesis by (simp add: is_ror_def)
qed

lemma rol_long: "is_rol (rol_long d s f) d s f"
proof -
  have c: "unat s mod 32 < 32" by simp
  have "fst (rol_long d s f) = word_rotl (unat s) d"
  proof (rule bit_word_eqI)
    fix k assume "k < LENGTH(32)"
    then have "k < 32" by simp
    then show "bit (fst (rol_long d s f)) k = bit (word_rotl (unat s) d) k"
      using c by (auto simp: rol_long_def Let_def bit_rotl shift_bits dest: bit_imp_le_length)
  qed
  moreover have "s \<noteq> 0 \<Longrightarrow> ACCESS_FLAG F_CF (snd (rol_long d s f)) = bit (fst (rol_long d s f)) 0"
    by (simp add: rol_long_def case_prod_unfold Let_def alu_simps bit_ucast_iff)
  moreover have "snd (rol_long d 0 f) = f" by (simp add: rol_long_def)
  ultimately show ?thesis by (simp add: is_rol_def)
qed

lemma ror_long: "is_ror (ror_long d s f) d s f"
proof -
  have c: "unat s mod 32 < 32" by simp
  have "fst (ror_long d s f) = word_rotr (unat s) d"
  proof (rule bit_word_eqI)
    fix k assume "k < LENGTH(32)"
    then have "k < 32" by simp
    then show "bit (fst (ror_long d s f)) k = bit (word_rotr (unat s) d) k"
      using c by (auto simp: ror_long_def Let_def bit_rotr shift_bits dest: bit_imp_le_length)
  qed
  moreover have "s \<noteq> 0 \<Longrightarrow> ACCESS_FLAG F_CF (snd (ror_long d s f)) = bit (fst (ror_long d s f)) 31"
    by (simp add: ror_long_def case_prod_unfold Let_def alu_simps bit_ucast_iff)
  moreover have "snd (ror_long d 0 f) = f" by (simp add: ror_long_def)
  ultimately show ?thesis by (simp add: is_ror_def)
qed

lemma XOR2_pair: "XOR2 ((x AND 1) + (y AND 2)) \<longleftrightarrow> bit x 0 \<noteq> bit y 1"
proof -
  have "x AND 1 = of_bool (bit x 0)" by (simp add: and_one_eq mod_2_eq_odd bit_0)
  moreover have "y AND 2 = 2 * of_bool (bit y 1)"
    using and_exp_nonzero [of y 1] by (auto intro!: bit_word_eqI simp: bit_simps bit_double_iff)
  ultimately show ?thesis by (cases "bit x 0"; cases "bit y 1") (simp_all add: XOR2_def)
qed

lemma XOR2_carry: "XOR2 (of_bool c + (y AND 2)) \<longleftrightarrow> c \<noteq> bit y 1"
  using XOR2_pair [of "of_bool c" y] by (cases c) simp_all

section \<open>Rotations through the carry\<close>

text \<open>The operand with the carry flag on top of it.\<close>

definition with_carry :: "'a::len word \<Rightarrow> bool \<Rightarrow> nat \<Rightarrow> bool" where
  "with_carry w c k = (if k = LENGTH('a) then c else bit w k)"

definition is_rcl :: "'a::len word \<times> flags \<Rightarrow> 'a word \<Rightarrow> u8 \<Rightarrow> flags \<Rightarrow> bool" where
  "is_rcl rf d s f \<longleftrightarrow> (\<forall>k \<le> LENGTH('a). with_carry (fst rf) (ACCESS_FLAG F_CF (snd rf)) ((k + unat s) mod (LENGTH('a) + 1)) =
     with_carry d (ACCESS_FLAG F_CF f) k)"

definition is_rcr :: "'a::len word \<times> flags \<Rightarrow> 'a word \<Rightarrow> u8 \<Rightarrow> flags \<Rightarrow> bool" where
  "is_rcr rf d s f \<longleftrightarrow> (\<forall>k \<le> LENGTH('a). with_carry (fst rf) (ACCESS_FLAG F_CF (snd rf)) k =
     with_carry d (ACCESS_FLAG F_CF f) ((k + unat s) mod (LENGTH('a) + 1)))"

lemma mod_wrap: "k < m \<Longrightarrow> (k + n) mod m = (if k + n mod m < m then k + n mod m else k + n mod m - m)" for k m n :: nat
proof -
  assume k: "k < m"
  have e: "(k + n) mod m = (k + n mod m) mod m" by (simp add: mod_simps)
  show ?thesis
  proof (cases "k + n mod m < m")
    case False
    moreover have "n mod m < m" using k by simp
    ultimately have "k + n mod m - m < m" using k by linarith
    then have "(k + n mod m - m) mod m = k + n mod m - m" by (rule mod_less)
    then show ?thesis using False unfolding e by (simp add: le_mod_geq)
  qed (simp add: e)
qed

lemma is_rclI:
  fixes d :: "'a::len word"
  assumes "\<And>k. k < LENGTH('a) + 1 \<Longrightarrow> with_carry (fst rf) (ACCESS_FLAG F_CF (snd rf))
      (if k + unat s mod (LENGTH('a) + 1) < LENGTH('a) + 1 then k + unat s mod (LENGTH('a) + 1)
       else k + unat s mod (LENGTH('a) + 1) - (LENGTH('a) + 1)) = with_carry d (ACCESS_FLAG F_CF f) k"
  shows "is_rcl rf d s f"
  unfolding is_rcl_def
proof (intro allI impI)
  fix k assume "k \<le> LENGTH('a)"
  then have k: "k < LENGTH('a) + 1" by simp
  show "with_carry (fst rf) (ACCESS_FLAG F_CF (snd rf)) ((k + unat s) mod (LENGTH('a) + 1)) =
      with_carry d (ACCESS_FLAG F_CF f) k"
    unfolding mod_wrap [OF k] by (rule assms [OF k])
qed

lemma is_rcrI:
  fixes d :: "'a::len word"
  assumes "\<And>k. k < LENGTH('a) + 1 \<Longrightarrow> with_carry (fst rf) (ACCESS_FLAG F_CF (snd rf)) k = with_carry d (ACCESS_FLAG F_CF f)
      (if k + unat s mod (LENGTH('a) + 1) < LENGTH('a) + 1 then k + unat s mod (LENGTH('a) + 1)
       else k + unat s mod (LENGTH('a) + 1) - (LENGTH('a) + 1))"
  shows "is_rcr rf d s f"
  unfolding is_rcr_def
proof (intro allI impI)
  fix k assume "k \<le> LENGTH('a)"
  then have k: "k < LENGTH('a) + 1" by simp
  show "with_carry (fst rf) (ACCESS_FLAG F_CF (snd rf)) k =
      with_carry d (ACCESS_FLAG F_CF f) ((k + unat s) mod (LENGTH('a) + 1))"
    unfolding mod_wrap [OF k] by (rule assms [OF k])
qed

lemma rcl_byte: "is_rcl (rcl_byte d s f) d s f"
proof -
  define n where "n = unat s mod 9"
  have n: "n < 9" by (simp add: n_def)
  have e: "k + n = 8 \<Longrightarrow> 8 - n = k" for k by simp
  have "with_carry (fst (rcl_byte d s f)) (ACCESS_FLAG F_CF (snd (rcl_byte d s f))) (if k + n < 9 then k + n else k + n - 9) =
      with_carry d (ACCESS_FLAG F_CF f) k" if "k < 9" for k
    using n that e [of k] unfolding rcl_byte_def Let_def n_def [symmetric]
    by (auto simp: with_carry_def alu_simps shift_bits bit_1_iff dest: bit_imp_le_length)
  then show ?thesis by (intro is_rclI) (simp add: n_def split del: if_split cong: if_cong)
qed

lemma rcr_byte: "is_rcr (rcr_byte d s f) d s f"
proof -
  define n where "n = unat s mod 9"
  have n: "n < 9" by (simp add: n_def)
  have e: "k + n = 8 \<Longrightarrow> 8 - n = k" for k by simp
  have "with_carry (fst (rcr_byte d s f)) (ACCESS_FLAG F_CF (snd (rcr_byte d s f))) k =
      with_carry d (ACCESS_FLAG F_CF f) (if k + n < 9 then k + n else k + n - 9)" if "k < 9" for k
    using n that e [of k] unfolding rcr_byte_def Let_def n_def [symmetric]
    by (auto simp: with_carry_def alu_simps shift_bits bit_1_iff dest: bit_imp_le_length)
  then show ?thesis by (intro is_rcrI) (simp add: n_def split del: if_split cong: if_cong)
qed

lemma rcl_word: "is_rcl (rcl_word d s f) d s f"
proof -
  define n where "n = unat s mod 17"
  have n: "n < 17" by (simp add: n_def)
  have e: "k + n = 16 \<Longrightarrow> 16 - n = k" for k by simp
  have "with_carry (fst (rcl_word d s f)) (ACCESS_FLAG F_CF (snd (rcl_word d s f))) (if k + n < 17 then k + n else k + n - 17) =
      with_carry d (ACCESS_FLAG F_CF f) k" if "k < 17" for k
    using n that e [of k] unfolding rcl_word_def Let_def n_def [symmetric]
    by (auto simp: with_carry_def alu_simps shift_bits bit_1_iff dest: bit_imp_le_length)
  then show ?thesis by (intro is_rclI) (simp add: n_def split del: if_split cong: if_cong)
qed

lemma rcr_word: "is_rcr (rcr_word d s f) d s f"
proof -
  define n where "n = unat s mod 17"
  have n: "n < 17" by (simp add: n_def)
  have e: "k + n = 16 \<Longrightarrow> 16 - n = k" for k by simp
  have "with_carry (fst (rcr_word d s f)) (ACCESS_FLAG F_CF (snd (rcr_word d s f))) k =
      with_carry d (ACCESS_FLAG F_CF f) (if k + n < 17 then k + n else k + n - 17)" if "k < 17" for k
    using n that e [of k] unfolding rcr_word_def Let_def n_def [symmetric]
    by (auto simp: with_carry_def alu_simps shift_bits bit_1_iff dest: bit_imp_le_length)
  then show ?thesis by (intro is_rcrI) (simp add: n_def split del: if_split cong: if_cong)
qed

lemma rcl_long: "unat s mod 33 \<noteq> 32 \<Longrightarrow> is_rcl (rcl_long d s f) d s f"
proof -
  assume ok: "unat s mod 33 \<noteq> 32"
  define n where "n = unat s mod 33"
  have n: "n < 33" by (simp add: n_def)
  have e: "k + n = 32 \<Longrightarrow> 32 - n = k" for k by simp
  have "with_carry (fst (rcl_long d s f)) (ACCESS_FLAG F_CF (snd (rcl_long d s f))) (if k + n < 33 then k + n else k + n - 33) =
      with_carry d (ACCESS_FLAG F_CF f) k" if "k < 33" for k
    using n that ok e [of k] unfolding rcl_long_def Let_def n_def [symmetric]
    by (auto simp: with_carry_def alu_simps shift_bits bit_1_iff dest: bit_imp_le_length)
  then show ?thesis by (intro is_rclI) (simp add: n_def split del: if_split cong: if_cong)
qed

lemma rcr_long: "is_rcr (rcr_long d s f) d s f"
proof -
  define n where "n = unat s mod 33"
  have n: "n < 33" by (simp add: n_def)
  have e: "k + n = 32 \<Longrightarrow> 32 - n = k" for k by simp
  have "with_carry (fst (rcr_long d s f)) (ACCESS_FLAG F_CF (snd (rcr_long d s f))) k =
      with_carry d (ACCESS_FLAG F_CF f) (if k + n < 33 then k + n else k + n - 33)" if "k < 33" for k
    using n that e [of k] unfolding rcr_long_def Let_def n_def [symmetric]
    by (auto simp: with_carry_def alu_simps shift_bits bit_1_iff dest: bit_imp_le_length)
  then show ?thesis by (intro is_rcrI) (simp add: n_def split del: if_split cong: if_cong)
qed

section \<open>Shifts\<close>

text \<open>
  Flags after a shift by a count below the width. A count of 0 clears the overflow flag and leaves the
  others; otherwise zero, sign and parity are the result's, the carry is the last bit
  shifted out and the overflow flag is defined by the operand for a count of 1 and clear beyond.
\<close>

definition shift_flags :: "'a::len word \<times> flags \<Rightarrow> bool \<Rightarrow> bool \<Rightarrow> nat \<Rightarrow> flags \<Rightarrow> bool" where
  "shift_flags rf carry overflow n f \<longleftrightarrow>
     (if n = 0 then snd rf = CLEAR_FLAG F_OF f
      else result_flags (fst rf) (snd rf) \<and> ACCESS_FLAG F_CF (snd rf) = carry \<and>
        ACCESS_FLAG F_OF (snd rf) = (n = 1 \<and> overflow) \<and>
        ACCESS_FLAG F_AF (snd rf) = ACCESS_FLAG F_AF f \<and> other_bits f (snd rf))"

definition is_shl :: "'a::len word \<times> flags \<Rightarrow> 'a word \<Rightarrow> nat \<Rightarrow> flags \<Rightarrow> bool" where
  "is_shl rf d n f \<longleftrightarrow> fst rf = push_bit n d \<and>
     (n < LENGTH('a) \<longrightarrow> shift_flags rf (bit d (LENGTH('a) - n)) (bit d (LENGTH('a) - 1) \<noteq> bit d (LENGTH('a) - 2)) n f)"

definition is_shr :: "'a::len word \<times> flags \<Rightarrow> 'a word \<Rightarrow> nat \<Rightarrow> flags \<Rightarrow> bool" where
  "is_shr rf d n f \<longleftrightarrow> fst rf = drop_bit n d \<and>
     (n < LENGTH('a) \<longrightarrow> shift_flags rf (bit d (n - 1)) (bit d (LENGTH('a) - 1)) n f)"

text \<open>\<open>SAR\<close> takes the count modulo the width and leaves the overflow flag alone.\<close>

definition is_sar :: "'a::len word \<times> flags \<Rightarrow> 'a word \<Rightarrow> nat \<Rightarrow> flags \<Rightarrow> bool" where
  "is_sar rf d n f \<longleftrightarrow> fst rf = signed_drop_bit n d \<and>
     (if n = 0 then snd rf = f
      else result_flags (fst rf) (snd rf) \<and> ACCESS_FLAG F_CF (snd rf) = bit d (n - 1) \<and>
        ACCESS_FLAG F_OF (snd rf) = ACCESS_FLAG F_OF f \<and>
        ACCESS_FLAG F_AF (snd rf) = ACCESS_FLAG F_AF f \<and> other_bits f (snd rf))"

text \<open>The double shifts bring in the bits of the second operand.\<close>

definition is_shld :: "'a::len word \<times> flags \<Rightarrow> 'a word \<Rightarrow> 'a word \<Rightarrow> nat \<Rightarrow> flags \<Rightarrow> bool" where
  "is_shld rf d fill n f \<longleftrightarrow> fst rf = push_bit n d OR drop_bit (LENGTH('a) - n) fill \<and>
     shift_flags rf (bit d (LENGTH('a) - n)) (bit d (LENGTH('a) - 1) \<noteq> bit d (LENGTH('a) - 2)) n f"

definition is_shrd :: "'a::len word \<times> flags \<Rightarrow> 'a word \<Rightarrow> 'a word \<Rightarrow> nat \<Rightarrow> flags \<Rightarrow> bool" where
  "is_shrd rf d fill n f \<longleftrightarrow> fst rf = drop_bit n d OR push_bit (LENGTH('a) - n) fill \<and>
     shift_flags rf (bit d (n - 1)) (bit d (LENGTH('a) - 1) \<noteq> bit fill 0) n f"

lemma bit_sar: "bit (signed_drop_bit n w) k \<longleftrightarrow>
    bit w (if LENGTH('a) - n \<le> k \<and> k < LENGTH('a) then LENGTH('a) - 1 else k + n)" for w :: "'a::len word"
  by (simp add: bit_signed_drop_bit_iff add.commute)

lemma sign_mask: "w AND 0x80 = 0x80 \<longleftrightarrow> bit w 7" "w AND 0x8000 = 0x8000 \<longleftrightarrow> bit w 15"
  "w AND 0x80000000 = 0x80000000 \<longleftrightarrow> bit w 31" for w :: u32
proof -
  have "w AND 2 ^ n = 2 ^ n \<longleftrightarrow> bit w n" if "n < 32" for n
  proof
    assume "w AND 2 ^ n = 2 ^ n"
    then have "bit (w AND 2 ^ n) n" using that by (simp add: bit_simps)
    then show "bit w n" by (simp add: bit_simps)
  qed (rule bit_word_eqI, auto simp: bit_simps)
  from this [of 7] this [of 15] this [of 31]
  show "w AND 0x80 = 0x80 \<longleftrightarrow> bit w 7" "w AND 0x8000 = 0x8000 \<longleftrightarrow> bit w 15"
    "w AND 0x80000000 = 0x80000000 \<longleftrightarrow> bit w 31" by simp_all
qed

lemma shl_byte: "is_shl (shl_byte d s f) d (unat s) f"
proof -
  define n where "n = unat s"
  have s: "s < 8 \<longleftrightarrow> n < 8" by (simp add: n_def word_less_nat_alt)
  have "fst (shl_byte d s f) = push_bit n d"
    unfolding shl_byte_def Let_def s n_def [symmetric]
    by (rule bit_word_eqI) (auto simp: shift_bits bit_push_bit_iff bit_drop_bit_eq add.commute dest: bit_imp_le_length)
  moreover have "shift_flags (shl_byte d s f) (bit d (8 - n)) (bit d 7 \<noteq> bit d 6) n f" if "n < 8"
    using that unfolding shl_byte_def Let_def s n_def [symmetric] shift_flags_def
    by (auto intro!: result_flagsI [where res = "shl32 (ucast d) n"] simp: alu_simps shift_bits sign_mask dest: bit_imp_le_length)
  ultimately show ?thesis by (simp add: is_shl_def n_def)
qed

lemma shr_byte: "is_shr (shr_byte d s f) d (unat s) f"
proof -
  define n where "n = unat s"
  have s: "s < 8 \<longleftrightarrow> n < 8" by (simp add: n_def word_less_nat_alt)
  have "fst (shr_byte d s f) = drop_bit n d"
    unfolding shr_byte_def Let_def s n_def [symmetric]
    by (rule bit_word_eqI) (auto simp: shift_bits bit_push_bit_iff bit_drop_bit_eq add.commute dest: bit_imp_le_length)
  moreover have "shift_flags (shr_byte d s f) (bit d (n - 1)) (bit d 7) n f" if "n < 8"
    using that unfolding shr_byte_def Let_def s n_def [symmetric] shift_flags_def
    by (auto intro!: result_flagsI [where res = "shr32 (ucast d) n"] simp: alu_simps shift_bits sign_mask dest: bit_imp_le_length)
  ultimately show ?thesis by (simp add: is_shr_def n_def)
qed

lemma sar_byte: "is_sar (sar_byte d s f) d (unat s mod 8) f"
proof -
  define n where "n = unat s mod 8"
  have n: "n < 8" by (simp add: n_def)
  have "fst (sar_byte d s f) = signed_drop_bit n d"
    using n unfolding sar_byte_def Let_def n_def [symmetric]
    by (intro bit_word_eqI) (auto simp: alu_simps shift_bits bit_sar dest: bit_imp_le_length)
  moreover have "n = 0 \<Longrightarrow> snd (sar_byte d s f) = f"
    unfolding sar_byte_def Let_def n_def [symmetric] by simp
  moreover have "n \<noteq> 0 \<Longrightarrow> result_flags (fst (sar_byte d s f)) (snd (sar_byte d s f)) \<and> ACCESS_FLAG F_CF (snd (sar_byte d s f)) = bit d (n - 1) \<and>
        ACCESS_FLAG F_OF (snd (sar_byte d s f)) = ACCESS_FLAG F_OF f \<and>
        ACCESS_FLAG F_AF (snd (sar_byte d s f)) = ACCESS_FLAG F_AF f \<and> other_bits f (snd (sar_byte d s f))"
    using n unfolding sar_byte_def Let_def n_def [symmetric]
    by (auto intro!: result_flagsI [where res = "(shr32 (ucast d) n AND (shl32 1 (8 - n) - 1)) OR (if bit d 7 then NOT (shl32 1 (8 - n) - 1) else 0)"]
          simp: alu_simps shift_bits)
  ultimately show ?thesis by (simp add: is_sar_def n_def)
qed

lemma shl_word: "is_shl (shl_word d s f) d (unat s) f"
proof -
  define n where "n = unat s"
  have s: "s < 16 \<longleftrightarrow> n < 16" by (simp add: n_def word_less_nat_alt)
  have "fst (shl_word d s f) = push_bit n d"
    unfolding shl_word_def Let_def s n_def [symmetric]
    by (rule bit_word_eqI) (auto simp: shift_bits bit_push_bit_iff bit_drop_bit_eq add.commute dest: bit_imp_le_length)
  moreover have "shift_flags (shl_word d s f) (bit d (16 - n)) (bit d 15 \<noteq> bit d 14) n f" if "n < 16"
    using that unfolding shl_word_def Let_def s n_def [symmetric] shift_flags_def
    by (auto intro!: result_flagsI [where res = "shl32 (ucast d) n"] simp: alu_simps shift_bits sign_mask dest: bit_imp_le_length)
  ultimately show ?thesis by (simp add: is_shl_def n_def)
qed

lemma shr_word: "is_shr (shr_word d s f) d (unat s) f"
proof -
  define n where "n = unat s"
  have s: "s < 16 \<longleftrightarrow> n < 16" by (simp add: n_def word_less_nat_alt)
  have "fst (shr_word d s f) = drop_bit n d"
    unfolding shr_word_def Let_def s n_def [symmetric]
    by (rule bit_word_eqI) (auto simp: shift_bits bit_push_bit_iff bit_drop_bit_eq add.commute dest: bit_imp_le_length)
  moreover have "shift_flags (shr_word d s f) (bit d (n - 1)) (bit d 15) n f" if "n < 16"
    using that unfolding shr_word_def Let_def s n_def [symmetric] shift_flags_def
    by (auto intro!: result_flagsI [where res = "shr32 (ucast d) n"] simp: alu_simps shift_bits sign_mask dest: bit_imp_le_length)
  ultimately show ?thesis by (simp add: is_shr_def n_def)
qed

lemma sar_word: "is_sar (sar_word d s f) d (unat s mod 16) f"
proof -
  define n where "n = unat s mod 16"
  have n: "n < 16" by (simp add: n_def)
  have "fst (sar_word d s f) = signed_drop_bit n d"
    using n unfolding sar_word_def Let_def n_def [symmetric]
    by (intro bit_word_eqI) (auto simp: alu_simps shift_bits bit_sar dest: bit_imp_le_length)
  moreover have "n = 0 \<Longrightarrow> snd (sar_word d s f) = f"
    unfolding sar_word_def Let_def n_def [symmetric] by simp
  moreover have "n \<noteq> 0 \<Longrightarrow> result_flags (fst (sar_word d s f)) (snd (sar_word d s f)) \<and> ACCESS_FLAG F_CF (snd (sar_word d s f)) = bit d (n - 1) \<and>
        ACCESS_FLAG F_OF (snd (sar_word d s f)) = ACCESS_FLAG F_OF f \<and>
        ACCESS_FLAG F_AF (snd (sar_word d s f)) = ACCESS_FLAG F_AF f \<and> other_bits f (snd (sar_word d s f))"
    using n unfolding sar_word_def Let_def n_def [symmetric]
    by (auto intro!: result_flagsI [where res = "(shr32 (ucast d) n AND (shl32 1 (16 - n) - 1)) OR (if bit d 15 then NOT (shl32 1 (16 - n) - 1) else 0)"]
          simp: alu_simps shift_bits)
  ultimately show ?thesis by (simp add: is_sar_def n_def)
qed

lemma shld_word: "unat s < 16 \<Longrightarrow> is_shld (shld_word d fill s f) d fill (unat s) f"
proof -
  assume lt: "unat s < 16"
  define n where "n = unat s"
  have s: "s < 16 \<longleftrightarrow> n < 16" and n: "n < 16" using lt by (simp_all add: n_def word_less_nat_alt)
  have "fst (shld_word d fill s f) = push_bit n d OR drop_bit (16 - n) fill"
    using n unfolding shld_word_def Let_def s n_def [symmetric]
    by (intro bit_word_eqI) (auto simp: shift_bits bit_push_bit_iff bit_drop_bit_eq add.commute dest: bit_imp_le_length)
  moreover have "shift_flags (shld_word d fill s f) (bit d (16 - n)) (bit d 15 \<noteq> bit d 14) n f"
    using n unfolding shld_word_def Let_def s n_def [symmetric] shift_flags_def
    by (auto intro!: result_flagsI [where res = "shl32 (ucast d) n OR shr32 (ucast fill) (16 - n)"] simp: alu_simps shift_bits sign_mask dest: bit_imp_le_length simp del: take_bit_or)
  ultimately show ?thesis by (simp add: is_shld_def n_def)
qed

lemma shrd_word: "unat s < 16 \<Longrightarrow> is_shrd (shrd_word d fill s f) d fill (unat s) f"
proof -
  assume lt: "unat s < 16"
  define n where "n = unat s"
  have s: "s < 16 \<longleftrightarrow> n < 16" and n: "n < 16" using lt by (simp_all add: n_def word_less_nat_alt)
  have "fst (shrd_word d fill s f) = drop_bit n d OR push_bit (16 - n) fill"
    using n unfolding shrd_word_def Let_def s n_def [symmetric]
    by (intro bit_word_eqI) (auto simp: shift_bits bit_push_bit_iff bit_drop_bit_eq add.commute dest: bit_imp_le_length)
  moreover have "shift_flags (shrd_word d fill s f) (bit d (n - 1)) (bit d 15 \<noteq> bit fill 0) n f"
    using n unfolding shrd_word_def Let_def s n_def [symmetric] shift_flags_def
    by (auto intro!: result_flagsI [where res = "shr32 (ucast d) n OR shl32 (ucast fill) (16 - n)"] simp: alu_simps shift_bits sign_mask dest: bit_imp_le_length simp del: take_bit_or)
  ultimately show ?thesis by (simp add: is_shrd_def n_def)
qed

lemma shl_long: "is_shl (shl_long d s f) d (unat s) f"
proof -
  define n where "n = unat s"
  have s: "s < 32 \<longleftrightarrow> n < 32" by (simp add: n_def word_less_nat_alt)
  have "fst (shl_long d s f) = push_bit n d"
    unfolding shl_long_def Let_def s n_def [symmetric]
    by (rule bit_word_eqI) (auto simp: shift_bits bit_push_bit_iff bit_drop_bit_eq add.commute dest: bit_imp_le_length)
  moreover have "shift_flags (shl_long d s f) (bit d (32 - n)) (bit d 31 \<noteq> bit d 30) n f" if "n < 32"
    using that unfolding shl_long_def Let_def s n_def [symmetric] shift_flags_def
    by (auto intro!: result_flagsI [where res = "shl32 d n"] simp: alu_simps shift_bits sign_mask dest: bit_imp_le_length)
  ultimately show ?thesis by (simp add: is_shl_def n_def)
qed

lemma shr_long: "is_shr (shr_long d s f) d (unat s) f"
proof -
  define n where "n = unat s"
  have s: "s < 32 \<longleftrightarrow> n < 32" by (simp add: n_def word_less_nat_alt)
  have "fst (shr_long d s f) = drop_bit n d"
    unfolding shr_long_def Let_def s n_def [symmetric]
    by (rule bit_word_eqI) (auto simp: shift_bits bit_push_bit_iff bit_drop_bit_eq add.commute dest: bit_imp_le_length)
  moreover have "shift_flags (shr_long d s f) (bit d (n - 1)) (bit d 31) n f" if "n < 32"
    using that unfolding shr_long_def Let_def s n_def [symmetric] shift_flags_def
    by (auto intro!: result_flagsI [where res = "shr32 d n"] simp: alu_simps shift_bits sign_mask dest: bit_imp_le_length)
  ultimately show ?thesis by (simp add: is_shr_def n_def)
qed

lemma sar_long: "is_sar (sar_long d s f) d (unat s mod 32) f"
proof -
  define n where "n = unat s mod 32"
  have n: "n < 32" by (simp add: n_def)
  have "fst (sar_long d s f) = signed_drop_bit n d"
    using n unfolding sar_long_def Let_def n_def [symmetric]
    by (intro bit_word_eqI) (auto simp: alu_simps shift_bits bit_sar dest: bit_imp_le_length)
  moreover have "n = 0 \<Longrightarrow> snd (sar_long d s f) = f"
    unfolding sar_long_def Let_def n_def [symmetric] by simp
  moreover have "n \<noteq> 0 \<Longrightarrow> result_flags (fst (sar_long d s f)) (snd (sar_long d s f)) \<and> ACCESS_FLAG F_CF (snd (sar_long d s f)) = bit d (n - 1) \<and>
        ACCESS_FLAG F_OF (snd (sar_long d s f)) = ACCESS_FLAG F_OF f \<and>
        ACCESS_FLAG F_AF (snd (sar_long d s f)) = ACCESS_FLAG F_AF f \<and> other_bits f (snd (sar_long d s f))"
    using n unfolding sar_long_def Let_def n_def [symmetric]
    by (auto intro!: result_flagsI [where res = "(shr32 d n AND (shl32 1 (32 - n) - 1)) OR (if bit d 31 then NOT (shl32 1 (32 - n) - 1) else 0)"]
          simp: alu_simps shift_bits)
  ultimately show ?thesis by (simp add: is_sar_def n_def)
qed

lemma shld_long: "unat s < 32 \<Longrightarrow> is_shld (shld_long d fill s f) d fill (unat s) f"
proof -
  assume lt: "unat s < 32"
  define n where "n = unat s"
  have s: "s < 32 \<longleftrightarrow> n < 32" and n: "n < 32" using lt by (simp_all add: n_def word_less_nat_alt)
  have "fst (shld_long d fill s f) = push_bit n d OR drop_bit (32 - n) fill"
    using n unfolding shld_long_def Let_def s n_def [symmetric]
    by (intro bit_word_eqI) (auto simp: shift_bits bit_push_bit_iff bit_drop_bit_eq add.commute dest: bit_imp_le_length)
  moreover have "shift_flags (shld_long d fill s f) (bit d (32 - n)) (bit d 31 \<noteq> bit d 30) n f"
    using n unfolding shld_long_def Let_def s n_def [symmetric] shift_flags_def
    by (auto intro!: result_flagsI [where res = "shl32 d n OR shr32 fill (32 - n)"] simp: alu_simps shift_bits sign_mask dest: bit_imp_le_length simp del: take_bit_or)
  ultimately show ?thesis by (simp add: is_shld_def n_def)
qed

lemma shrd_long: "unat s < 32 \<Longrightarrow> is_shrd (shrd_long d fill s f) d fill (unat s) f"
proof -
  assume lt: "unat s < 32"
  define n where "n = unat s"
  have s: "s < 32 \<longleftrightarrow> n < 32" and n: "n < 32" using lt by (simp_all add: n_def word_less_nat_alt)
  have "fst (shrd_long d fill s f) = drop_bit n d OR push_bit (32 - n) fill"
    using n unfolding shrd_long_def Let_def s n_def [symmetric]
    by (intro bit_word_eqI) (auto simp: shift_bits bit_push_bit_iff bit_drop_bit_eq add.commute dest: bit_imp_le_length)
  moreover have "shift_flags (shrd_long d fill s f) (bit d (n - 1)) (bit d 31 \<noteq> bit fill 0) n f"
    using n unfolding shrd_long_def Let_def s n_def [symmetric] shift_flags_def
    by (auto intro!: result_flagsI [where res = "shr32 d n OR shl32 fill (32 - n)"] simp: alu_simps shift_bits sign_mask dest: bit_imp_le_length simp del: take_bit_or)
  ultimately show ?thesis by (simp add: is_shrd_def n_def)
qed

section \<open>Properties\<close>

lemma rotate_back:
  assumes "is_rol r d s f" "is_ror r' (fst r) s g"
  shows "fst r' = d"
  using assms by (simp add: is_rol_def is_ror_def word_rot_lr)

lemma rotate_carry_back:
  assumes "is_rcl r d s f" "is_rcr r' (fst r) s (snd r)"
  shows "fst r' = d \<and> ACCESS_FLAG F_CF (snd r') = ACCESS_FLAG F_CF f"
proof -
  have w: "with_carry (fst r') (ACCESS_FLAG F_CF (snd r')) k = with_carry d (ACCESS_FLAG F_CF f) k" if "k \<le> LENGTH('a)" for k
    using assms that unfolding is_rcl_def is_rcr_def by metis
  have "fst r' = d"
  proof (rule bit_word_eqI)
    fix k assume "k < LENGTH('a)"
    then show "bit (fst r') k = bit d k" using w [of k] by (simp add: with_carry_def)
  qed
  then show ?thesis using w [of "LENGTH('a)"] by (simp add: with_carry_def)
qed

text \<open>
  \<open>ROL\<close> and \<open>ROR\<close> rotate by the count modulo the width and copy the bit that went around last
  to the carry flag. \<open>RCL\<close> and \<open>RCR\<close> rotate the operand with the carry flag on top of it, by the
  count modulo one more than the width; the 32-bit \<open>RCL\<close> does so unless that count is 32, where
  the C shift \<open>d << 32\<close> is undefined.
\<close>

theorem rotate_instructions:
  assumes "unat s mod 33 \<noteq> 32"
  shows "is_rol (rol_byte b s f) b s f \<and> is_ror (ror_byte b s f) b s f \<and>
    is_rol (rol_word w s f) w s f \<and> is_ror (ror_word w s f) w s f \<and>
    is_rol (rol_long l s f) l s f \<and> is_ror (ror_long l s f) l s f \<and>
    is_rcl (rcl_byte b s f) b s f \<and> is_rcr (rcr_byte b s f) b s f \<and>
    is_rcl (rcl_word w s f) w s f \<and> is_rcr (rcr_word w s f) w s f \<and>
    is_rcl (rcl_long l s f) l s f \<and> is_rcr (rcr_long l s f) l s f"
  using rcl_long [OF assms]
  by (intro conjI rol_byte ror_byte rol_word ror_word rol_long ror_long rcl_byte rcr_byte rcl_word rcr_word rcr_long)

theorem rotate_instructions_witness:
  "is_rol (rol_byte 0x81 9 0) 0x81 9 0 \<and> is_rcl (rcl_long 0x80000001 4 F_CF) 0x80000001 4 F_CF"
  using rotate_instructions [of 9 "0x81" 0] rotate_instructions [where s = 4 and f = F_CF and l = "0x80000001"] by simp

text \<open>
  The right rotations undo the left ones: \<open>ROR\<close> after \<open>ROL\<close> and \<open>RCR\<close> after \<open>RCL\<close>, by the same
  count, give the operand back, and the latter the carry flag as well.
\<close>

theorem rotations_cancel:
  assumes "unat s mod 33 \<noteq> 32"
  shows "fst (ror_byte (fst (rol_byte b s f)) s g) = b \<and> fst (ror_word (fst (rol_word w s f)) s g) = w \<and>
    fst (ror_long (fst (rol_long l s f)) s g) = l \<and>
    (case rcl_byte b s f of (r, h) \<Rightarrow> fst (rcr_byte r s h) = b \<and> ACCESS_FLAG F_CF (snd (rcr_byte r s h)) = ACCESS_FLAG F_CF f) \<and>
    (case rcl_word w s f of (r, h) \<Rightarrow> fst (rcr_word r s h) = w \<and> ACCESS_FLAG F_CF (snd (rcr_word r s h)) = ACCESS_FLAG F_CF f) \<and>
    (case rcl_long l s f of (r, h) \<Rightarrow> fst (rcr_long r s h) = l \<and> ACCESS_FLAG F_CF (snd (rcr_long r s h)) = ACCESS_FLAG F_CF f)"
  using rotate_back [OF rol_byte ror_byte, of b s f g] rotate_back [OF rol_word ror_word, of w s f g]
    rotate_back [OF rol_long ror_long, of l s f g] rotate_carry_back [OF rcl_byte rcr_byte, of b s f]
    rotate_carry_back [OF rcl_word rcr_word, of w s f] rotate_carry_back [OF rcl_long [OF assms] rcr_long, of l f]
  by (simp add: case_prod_beta)

theorem rotations_cancel_witness:
  "fst (ror_byte (fst (rol_byte 0x81 3 0)) 3 0) = 0x81"
  using rotations_cancel [where s = 3 and b = "0x81" and f = 0 and g = 0] by simp

text \<open>
  \<open>SHL\<close> and \<open>SHR\<close> shift by any count, 0 beyond the width, and for counts below it set the flags as
  the processor does (but that a count of 0 clears the overflow flag); \<open>SAR\<close> is the
  arithmetic shift by the count modulo the width.
\<close>

theorem shift_instructions:
  "is_shl (shl_byte b s f) b (unat s) f \<and> is_shr (shr_byte b s f) b (unat s) f \<and> is_sar (sar_byte b s f) b (unat s mod 8) f \<and>
   is_shl (shl_word w s f) w (unat s) f \<and> is_shr (shr_word w s f) w (unat s) f \<and>
   is_sar (sar_word w s f) w (unat s mod 16) f \<and>
   is_shl (shl_long l s f) l (unat s) f \<and> is_shr (shr_long l s f) l (unat s) f \<and>
   is_sar (sar_long l s f) l (unat s mod 32) f"
  by (intro conjI shl_byte shr_byte sar_byte shl_word shr_word sar_word shl_long shr_long sar_long)

text \<open>
  \<open>SHLD\<close> and \<open>SHRD\<close> with a count below the width shift the first operand and fill it with the
  bits of the second, and set the flags from the result.
\<close>

theorem double_shift_instructions:
  assumes "unat s < 32"
  shows "is_shld (shld_long l fl s f) l fl (unat s) f \<and> is_shrd (shrd_long l fl s f) l fl (unat s) f \<and>
    (unat s < 16 \<longrightarrow> is_shld (shld_word w fw s f) w fw (unat s) f \<and> is_shrd (shrd_word w fw s f) w fw (unat s) f)"
  using shld_long [OF assms] shrd_long [OF assms] shld_word shrd_word by blast

theorem double_shift_instructions_witness:
  "is_shld (shld_long 0x12345678 0x9ABCDEF0 8 0) 0x12345678 0x9ABCDEF0 8 0 \<and> is_shrd (shrd_word 1 2 3 0) 1 2 3 0"
  using double_shift_instructions [where s = 8 and l = "0x12345678" and fl = "0x9ABCDEF0" and f = 0]
    double_shift_instructions [where s = 3 and w = 1 and fw = 2 and f = 0] by simp

end
