(* ===== verification/X86emu_Regs.thy ===== *)
theory X86emu_Regs
  imports X86emu_Shift
begin

text \<open>
  The registers of the emulated processor (\<open>x86emu_regs_t\<close> of \<open>libx86emu/include/x86emu.h\<close>, as far
  as \<open>prim_ops.c\<close> uses them) and the raising of emulated interrupts. In C the parts
  of a register are overlaid in a union; here they are read from and written into the 32-bit value, in the
  little-endian layout.
\<close>

record sel_t =
  sel_base :: u32
  sel_limit :: u32
  sel_sel :: u16
  sel_acc :: u16

record x86emu_regs =
  R_EAX :: u32
  R_EBX :: u32
  R_ECX :: u32
  R_EDX :: u32
  R_ESP :: u32
  R_EBP :: u32
  R_ESI :: u32
  R_EDI :: u32
  R_FLG :: flags
  seg :: "nat \<Rightarrow> sel_t"
  mode :: u32
  intr_nr :: u8
  intr_type :: u32
  intr_errcode :: u32

definition x_reg :: "u32 \<Rightarrow> u16" where
  "x_reg e = ucast e"

definition l_reg :: "u32 \<Rightarrow> u8" where
  "l_reg e = ucast e"

definition h_reg :: "u32 \<Rightarrow> u8" where
  "h_reg e = ucast (drop_bit 8 e)"

definition with_x_reg :: "u16 \<Rightarrow> u32 \<Rightarrow> u32" where
  "with_x_reg v e = (e AND 0xFFFF0000) OR ucast v"

definition with_l_reg :: "u8 \<Rightarrow> u32 \<Rightarrow> u32" where
  "with_l_reg v e = (e AND 0xFFFFFF00) OR ucast v"

definition with_h_reg :: "u8 \<Rightarrow> u32 \<Rightarrow> u32" where
  "with_h_reg v e = (e AND 0xFFFF00FF) OR push_bit 8 (ucast v)"

definition x86emu_intr_raise :: "u8 \<Rightarrow> u32 \<Rightarrow> u32 \<Rightarrow> 'a x86emu_regs_scheme \<Rightarrow> 'a x86emu_regs_scheme" where
  "x86emu_intr_raise nr type err r =
     (if intr_type r = 0 then r\<lparr>intr_nr := nr, intr_type := type, intr_errcode := err\<rparr> else r)"

definition INTR_TYPE_SOFT :: u32 where "INTR_TYPE_SOFT = 1"
definition INTR_MODE_RESTART :: u32 where "INTR_MODE_RESTART = 0x100"

definition INTR_RAISE_DIV0 :: "'a x86emu_regs_scheme \<Rightarrow> 'a x86emu_regs_scheme" where
  "INTR_RAISE_DIV0 = x86emu_intr_raise 0 (INTR_TYPE_SOFT OR INTR_MODE_RESTART) 0"

section \<open>Reading back what was written\<close>

lemma bit_masks:
  "bit (0xFFFF0000 :: u32) k \<longleftrightarrow> 16 \<le> k \<and> k < 32" "bit (0xFFFFFF00 :: u32) k \<longleftrightarrow> 8 \<le> k \<and> k < 32"
  "bit (0xFFFF00FF :: u32) k \<longleftrightarrow> (k < 8 \<or> 16 \<le> k) \<and> k < 32"
proof -
  have eq: "(0xFFFF0000 :: u32) = push_bit 16 (mask 16)" "(0xFFFFFF00 :: u32) = push_bit 8 (mask 24)"
    "(0xFFFF00FF :: u32) = push_bit 16 (mask 16) OR mask 8" by (simp_all add: mask_eq_exp_minus_1 push_bit_eq_mult)
  show "bit (0xFFFF0000 :: u32) k \<longleftrightarrow> 16 \<le> k \<and> k < 32" "bit (0xFFFFFF00 :: u32) k \<longleftrightarrow> 8 \<le> k \<and> k < 32"
    "bit (0xFFFF00FF :: u32) k \<longleftrightarrow> (k < 8 \<or> 16 \<le> k) \<and> k < 32"
    unfolding eq by (auto simp: bit_simps)
qed

lemmas reg_bits = bit_or_iff bit_and_iff bit_ucast_iff bit_push_bit_iff bit_drop_bit_eq comp_apply bit_masks

lemma parts_of_register [simp]:
  "x_reg (with_x_reg v e) = v" "l_reg (with_l_reg b e) = b" "h_reg (with_h_reg b e) = b"
  "h_reg (with_l_reg b e) = h_reg e" "l_reg (with_h_reg b e) = l_reg e"
proof -
  show "x_reg (with_x_reg v e) = v"
    by (rule bit_word_eqI, simp only: x_reg_def with_x_reg_def reg_bits) auto
  show "l_reg (with_l_reg b e) = b" "h_reg (with_h_reg b e) = b"
    "h_reg (with_l_reg b e) = h_reg e" "l_reg (with_h_reg b e) = l_reg e"
    by (rule bit_word_eqI, simp only: l_reg_def h_reg_def with_l_reg_def with_h_reg_def reg_bits,
        auto dest: bit_imp_le_length)+
qed

lemma x_reg_parts: "x_reg e = ucast (l_reg e) + 256 * ucast (h_reg e)"
proof -
  have "(256 :: u16) * ucast (h_reg e) = push_bit 8 (ucast (h_reg e))" by (simp add: push_bit_eq_mult)
  moreover have "ucast (l_reg e) + push_bit 8 (ucast (h_reg e)) = (ucast (l_reg e) OR push_bit 8 (ucast (h_reg e)) :: u16)"
    by (rule disjunctive_add) (auto simp: reg_bits dest: bit_imp_le_length)
  moreover have "x_reg e = ucast (l_reg e) OR push_bit 8 (ucast (h_reg e))"
    by (rule bit_word_eqI) (auto simp: x_reg_def l_reg_def h_reg_def reg_bits)
  ultimately show ?thesis by simp
qed

end
