(* ===== verification/X86emu_Ports.thy ===== *)
theory X86emu_Ports
  imports X86emu_Mem_Props X86emu_Regs Machine
begin

text \<open>
  The emulated machine as far as memory and ports go: the registers extended by the memory and the
  I/O port permissions and counters of \<open>x86emu_t\<close>, the port accesses \<open>vm_i_*\<close> and \<open>vm_o_*\<close>, and
  \<open>vm_memio\<close>, through which all accesses of the emulator go (\<open>libx86emu/mem.c\<close>). An access to a permitted port
  is made on the ports of the host: \<open>inb\<close>, \<open>outb\<close> and their wider forms are the macros of
  \<open>libc/include/sys/io.h\<close> for \<open>io_in_8\<close>, \<open>io_out_8\<close> and so on, whose arguments are port and value.
  The caller passes value and port, as on Linux, so the macro takes the value for the port; the model follows
  the macro.
\<close>

record x86emu_io = x86emu_regs +
  emu_mem :: x86emu_mem_t
  io_map :: "nat \<Rightarrow> u8"
  stats_i :: "nat \<Rightarrow> u32"
  stats_o :: "nat \<Rightarrow> u32"
  iopl_needed :: bool
  iopl_ok :: bool
  host_io :: machine

definition X86EMU_IO_PORTS :: nat where "X86EMU_IO_PORTS = 65536"

section \<open>Port permissions\<close>

definition or_io_map :: "(nat \<Rightarrow> u8) \<Rightarrow> u8" where
  "or_io_map m = fold (\<lambda>port perm. perm OR m port) [0..<X86EMU_IO_PORTS] 0"

text \<open>\<open>getiopl\<close> reads the privilege level of the host processor; it is the parameter \<open>iopl\<close>.\<close>

definition x86emu_set_io_perm :: "nat \<Rightarrow> u32 \<Rightarrow> u32 \<Rightarrow> u32 \<Rightarrow> 'a x86emu_io_scheme \<Rightarrow> 'a x86emu_io_scheme" where
  "x86emu_set_io_perm iopl start limit perm s =
     (let limit = (if limit > 0xFFFF then 0xFFFF else limit);
          m = (\<lambda>port. if unat start \<le> port \<and> port \<le> unat limit then ucast perm else io_map s port);
          s = s\<lparr>io_map := m\<rparr>;
          all_perm = or_io_map m;
          needed = (all_perm AND (X86EMU_PERM_R OR X86EMU_PERM_W) \<noteq> 0)
      in s\<lparr>iopl_needed := needed, iopl_ok := \<not> (needed \<and> iopl \<noteq> 3)\<rparr>)"

section \<open>Port accesses\<close>

definition or_io :: "nat \<Rightarrow> u8 \<Rightarrow> 'a x86emu_io_scheme \<Rightarrow> 'a x86emu_io_scheme" where
  "or_io port bits s = s\<lparr>io_map := (io_map s)(port := io_map s port OR bits)\<rparr>"

definition count_i :: "nat \<Rightarrow> 'a x86emu_io_scheme \<Rightarrow> 'a x86emu_io_scheme" where
  "count_i port s = s\<lparr>stats_i := (stats_i s)(port := stats_i s port + 1)\<rparr>"

definition count_o :: "nat \<Rightarrow> 'a x86emu_io_scheme \<Rightarrow> 'a x86emu_io_scheme" where
  "count_o port s = s\<lparr>stats_o := (stats_o s)(port := stats_o s port + 1)\<rparr>"

definition set_invalid :: "'a x86emu_io_scheme \<Rightarrow> 'a x86emu_io_scheme" where
  "set_invalid s = s\<lparr>emu_mem := (emu_mem s)\<lparr>invalid := True\<rparr>\<rparr>"

definition inb :: "device \<Rightarrow> u32 \<Rightarrow> 'a x86emu_io_scheme \<Rightarrow> u32 \<times> 'a x86emu_io_scheme" where
  "inb dev port s = (let (v, m) = io_in_8 dev (ucast port) (host_io s) in (ucast v, s\<lparr>host_io := m\<rparr>))"

definition inw :: "device \<Rightarrow> u32 \<Rightarrow> 'a x86emu_io_scheme \<Rightarrow> u32 \<times> 'a x86emu_io_scheme" where
  "inw dev port s = (let (v, m) = io_in_16 dev (ucast port) (host_io s) in (ucast v, s\<lparr>host_io := m\<rparr>))"

definition inl :: "device \<Rightarrow> u32 \<Rightarrow> 'a x86emu_io_scheme \<Rightarrow> u32 \<times> 'a x86emu_io_scheme" where
  "inl dev port s = (let (v, m) = io_in_32 dev (ucast port) (host_io s) in (v, s\<lparr>host_io := m\<rparr>))"

definition outb :: "u32 \<Rightarrow> u32 \<Rightarrow> 'a x86emu_io_scheme \<Rightarrow> 'a x86emu_io_scheme" where
  "outb port v s = s\<lparr>host_io := io_out_8 (ucast port) (ucast v) (host_io s)\<rparr>"

definition outw :: "u32 \<Rightarrow> u32 \<Rightarrow> 'a x86emu_io_scheme \<Rightarrow> 'a x86emu_io_scheme" where
  "outw port v s = s\<lparr>host_io := io_out_16 (ucast port) (ucast v) (host_io s)\<rparr>"

definition outl :: "u32 \<Rightarrow> u32 \<Rightarrow> 'a x86emu_io_scheme \<Rightarrow> 'a x86emu_io_scheme" where
  "outl port v s = s\<lparr>host_io := io_out_32 (ucast port) v (host_io s)\<rparr>"

definition vm_i_byte :: "device \<Rightarrow> u32 \<Rightarrow> 'a x86emu_io_scheme \<Rightarrow> u32 \<times> 'a x86emu_io_scheme" where
  "vm_i_byte dev addr s =
     (let addr = addr AND 0xffff; port = unat addr
      in if iopl_ok s \<and> io_map s port AND X86EMU_PERM_R \<noteq> 0
         then inb dev addr (count_i port (or_io port X86EMU_ACC_R s))
         else (0xff, set_invalid (or_io port X86EMU_ACC_INVALID s)))"

definition vm_i_word :: "device \<Rightarrow> u32 \<Rightarrow> 'a x86emu_io_scheme \<Rightarrow> u32 \<times> 'a x86emu_io_scheme" where
  "vm_i_word dev addr s =
     (let addr = addr AND 0xffff; port = unat addr
      in if \<not> iopl_ok s \<or> addr = 0xffff \<or> io_map s port AND X86EMU_PERM_R = 0 \<or> io_map s (port + 1) AND X86EMU_PERM_R = 0
         then let (v0, s) = vm_i_byte dev addr s; (v1, s) = vm_i_byte dev (addr + 1) s
              in (v0 + push_bit 8 v1, s)
         else inw dev addr (count_i (port + 1) (count_i port (or_io (port + 1) X86EMU_ACC_R (or_io port X86EMU_ACC_R s)))))"

definition vm_i_dword :: "device \<Rightarrow> u32 \<Rightarrow> 'a x86emu_io_scheme \<Rightarrow> u32 \<times> 'a x86emu_io_scheme" where
  "vm_i_dword dev addr s =
     (let addr = addr AND 0xffff; port = unat addr
      in if \<not> iopl_ok s \<or> addr \<ge> 0xfffd \<or> (\<exists>k\<in>set [0..<4]. io_map s (port + k) AND X86EMU_PERM_R = 0)
         then let (v0, s) = vm_i_byte dev addr s; (v1, s) = vm_i_byte dev (addr + 1) s;
                  (v2, s) = vm_i_byte dev (addr + 2) s; (v3, s) = vm_i_byte dev (addr + 3) s
              in (v0 + push_bit 8 v1 + push_bit 16 v2 + push_bit 24 v3, s)
         else inl dev addr (fold (\<lambda>k. count_i (port + k)) [0..<4] (fold (\<lambda>k. or_io (port + k) X86EMU_ACC_R) [0..<4] s)))"

definition vm_o_byte :: "u32 \<Rightarrow> u32 \<Rightarrow> 'a x86emu_io_scheme \<Rightarrow> 'a x86emu_io_scheme" where
  "vm_o_byte addr val s =
     (let addr = addr AND 0xffff; port = unat addr
      in if iopl_ok s \<and> io_map s port AND X86EMU_PERM_W \<noteq> 0
         then outb val addr (count_o port (or_io port X86EMU_ACC_W s))
         else set_invalid (or_io port X86EMU_ACC_INVALID s))"

definition vm_o_word :: "u32 \<Rightarrow> u32 \<Rightarrow> 'a x86emu_io_scheme \<Rightarrow> 'a x86emu_io_scheme" where
  "vm_o_word addr val s =
     (let addr = addr AND 0xffff; port = unat addr
      in if \<not> iopl_ok s \<or> addr = 0xffff \<or> io_map s port AND X86EMU_PERM_W = 0 \<or> io_map s (port + 1) AND X86EMU_PERM_W = 0
         then vm_o_byte (addr + 1) val (vm_o_byte addr val s)
         else outw val addr (count_o (port + 1) (count_o port (or_io (port + 1) X86EMU_ACC_W (or_io port X86EMU_ACC_W s)))))"

definition vm_o_dword :: "u32 \<Rightarrow> u32 \<Rightarrow> 'a x86emu_io_scheme \<Rightarrow> 'a x86emu_io_scheme" where
  "vm_o_dword addr val s =
     (let addr = addr AND 0xffff; port = unat addr
      in if \<not> iopl_ok s \<or> addr \<ge> 0xfffd \<or> (\<exists>k\<in>set [0..<4]. io_map s (port + k) AND X86EMU_PERM_W = 0)
         then vm_o_byte (addr + 3) val (vm_o_byte (addr + 2) val (vm_o_byte (addr + 1) val (vm_o_byte addr val s)))
         else outl val addr (fold (\<lambda>k. count_o (port + k)) [0..<4] (fold (\<lambda>k. or_io (port + k) X86EMU_ACC_W) [0..<4] s)))"

section \<open>The access function\<close>

definition X86EMU_MEMIO_8 :: u32 where "X86EMU_MEMIO_8 = 0"
definition X86EMU_MEMIO_16 :: u32 where "X86EMU_MEMIO_16 = 1"
definition X86EMU_MEMIO_32 :: u32 where "X86EMU_MEMIO_32 = 2"
definition X86EMU_MEMIO_8_NOPERM :: u32 where "X86EMU_MEMIO_8_NOPERM = 3"
definition X86EMU_MEMIO_R :: u32 where "X86EMU_MEMIO_R = 0x000"
definition X86EMU_MEMIO_W :: u32 where "X86EMU_MEMIO_W = 0x100"
definition X86EMU_MEMIO_X :: u32 where "X86EMU_MEMIO_X = 0x200"
definition X86EMU_MEMIO_I :: u32 where "X86EMU_MEMIO_I = 0x300"
definition X86EMU_MEMIO_O :: u32 where "X86EMU_MEMIO_O = 0x400"

definition mem_read :: "(x86emu_mem_t \<Rightarrow> u32 \<Rightarrow> u32 \<times> x86emu_mem_t) \<Rightarrow> u32 \<Rightarrow> 'a x86emu_io_scheme \<Rightarrow> u32 \<times> 'a x86emu_io_scheme" where
  "mem_read op addr s = (let (v, mem) = op (emu_mem s) addr in (v, s\<lparr>emu_mem := mem\<rparr>))"

definition mem_write :: "(x86emu_mem_t \<Rightarrow> u32 \<Rightarrow> u32 \<Rightarrow> x86emu_mem_t) \<Rightarrow> u32 \<Rightarrow> u32 \<Rightarrow> 'a x86emu_io_scheme \<Rightarrow> 'a x86emu_io_scheme" where
  "mem_write op addr val s = s\<lparr>emu_mem := op (emu_mem s) addr val\<rparr>"

text \<open>The result is the value \<open>*val\<close> holds afterwards, the state, and whether the access was invalid.\<close>

definition vm_memio :: "device \<Rightarrow> u32 \<Rightarrow> u32 \<Rightarrow> u32 \<Rightarrow> 'a x86emu_io_scheme \<Rightarrow> bool \<times> u32 \<times> 'a x86emu_io_scheme" where
  "vm_memio dev addr val type s =
     (let bits = type AND 0xff; type = type AND NOT 0xff;
          s = s\<lparr>emu_mem := (emu_mem s)\<lparr>invalid := False\<rparr>\<rparr>;
          (val, s) =
            (if type = X86EMU_MEMIO_R then
               (if bits = X86EMU_MEMIO_8 then mem_read vm_r_byte addr s
                else if bits = X86EMU_MEMIO_16 then mem_read vm_r_word addr s
                else if bits = X86EMU_MEMIO_32 then mem_read vm_r_dword addr s
                else if bits = X86EMU_MEMIO_8_NOPERM then mem_read vm_r_byte_noperm addr s
                else (val, s))
             else if type = X86EMU_MEMIO_W then
               (val, if bits = X86EMU_MEMIO_8 then mem_write vm_w_byte addr val s
                     else if bits = X86EMU_MEMIO_16 then mem_write vm_w_word addr val s
                     else if bits = X86EMU_MEMIO_32 then mem_write vm_w_dword addr val s
                     else if bits = X86EMU_MEMIO_8_NOPERM then mem_write vm_w_byte_noperm addr val s
                     else s)
             else if type = X86EMU_MEMIO_X then
               (if bits = X86EMU_MEMIO_8 then mem_read vm_x_byte addr s
                else if bits = X86EMU_MEMIO_16 then mem_read vm_x_word addr s
                else if bits = X86EMU_MEMIO_32 then mem_read vm_x_dword addr s
                else (val, s))
             else if type = X86EMU_MEMIO_I then
               (if bits = X86EMU_MEMIO_8 then vm_i_byte dev addr s
                else if bits = X86EMU_MEMIO_16 then vm_i_word dev addr s
                else if bits = X86EMU_MEMIO_32 then vm_i_dword dev addr s
                else (val, s))
             else if type = X86EMU_MEMIO_O then
               (val, if bits = X86EMU_MEMIO_8 then vm_o_byte addr val s
                     else if bits = X86EMU_MEMIO_16 then vm_o_word addr val s
                     else if bits = X86EMU_MEMIO_32 then vm_o_dword addr val s
                     else s)
             else (val, s))
      in (invalid (emu_mem s), val, s))"

section \<open>Memory accesses through the access function\<close>

text \<open>The number of bytes of an access.\<close>

definition width :: "u32 \<Rightarrow> nat" where
  "width bits = (if bits = X86EMU_MEMIO_8 then 1 else if bits = X86EMU_MEMIO_16 then 2 else 4)"

lemmas memio_consts = X86EMU_MEMIO_8_def X86EMU_MEMIO_16_def X86EMU_MEMIO_32_def X86EMU_MEMIO_8_NOPERM_def
  X86EMU_MEMIO_R_def X86EMU_MEMIO_W_def X86EMU_MEMIO_X_def X86EMU_MEMIO_I_def X86EMU_MEMIO_O_def

lemma view_cleared: "view (m\<lparr>invalid := False\<rparr>) = view m\<lparr>finvalid := False\<rparr>"
  by simp

lemma cleared_view [simp]:
  "seen perm as (f\<lparr>finvalid := i\<rparr>) = seen perm as f" "readable perm (f\<lparr>finvalid := i\<rparr>) b = readable perm f b"
  "same_bits (f\<lparr>finvalid := i\<rparr>) g = same_bits f g"
  by (induction as) (simp_all add: readable_def same_bits_def)

lemma memio_through_read:
  assumes acc: "memory_read rd perm acc n" and ok: "mem_ok (emu_mem s)"
    and r: "mem_read rd a (s\<lparr>emu_mem := (emu_mem s)\<lparr>invalid := False\<rparr>\<rparr>) = (val, s')"
  shows "val = seen perm (addrs n a) (view (emu_mem s)) \<and> fbyte (view (emu_mem s')) = fbyte (view (emu_mem s)) \<and>
    (invalid (emu_mem s') \<longleftrightarrow> (\<exists>b\<in>set (addrs n a). \<not> readable perm (view (emu_mem s)) b)) \<and>
    same_bits (view (emu_mem s)) (view (emu_mem s')) \<and> mem_ok (emu_mem s')"
proof -
  obtain mem' where rd: "rd ((emu_mem s)\<lparr>invalid := False\<rparr>) a = (val, mem')" and s': "emu_mem s' = mem'"
    using r by (auto simp: mem_read_def split: prod.splits)
  have "mem_ok ((emu_mem s)\<lparr>invalid := False\<rparr>)" using ok by simp
  note e = memory_read.read_effect [OF acc this rd]
  show ?thesis using e by (simp add: s')
qed

lemma memio_through_write:
  assumes acc: "memory_access rd n wr" and ok: "mem_ok (emu_mem s)"
    and s': "s' = mem_write wr a v (s\<lparr>emu_mem := (emu_mem s)\<lparr>invalid := False\<rparr>\<rparr>)"
  shows "(invalid (emu_mem s') \<longleftrightarrow> (\<exists>b\<in>set (addrs n a). fattr (view (emu_mem s)) b AND X86EMU_PERM_W = 0)) \<and>
    (\<forall>l. fbyte (view (emu_mem s')) l \<noteq> fbyte (view (emu_mem s)) l \<longrightarrow>
      (\<exists>b\<in>set (addrs n a). l = floc (view (emu_mem s)) b \<and> fattr (view (emu_mem s)) b AND X86EMU_PERM_W \<noteq> 0)) \<and>
    same_bits (view (emu_mem s)) (view (emu_mem s')) \<and> mem_ok (emu_mem s')"
proof -
  have ok': "mem_ok ((emu_mem s)\<lparr>invalid := False\<rparr>)" using ok by simp
  note e = memory_access.write_effect [OF acc ok', of a v]
  show ?thesis using e by (auto simp: s' mem_write_def)
qed

lemma memio_R:
  assumes "mem_ok (emu_mem s)" "bits = X86EMU_MEMIO_8 \<or> bits = X86EMU_MEMIO_16 \<or> bits = X86EMU_MEMIO_32"
    and "vm_memio dev a v (X86EMU_MEMIO_R OR bits) s = (err, val, s')"
  shows "(err \<longleftrightarrow> (\<exists>b\<in>set (addrs (width bits) a). \<not> readable X86EMU_PERM_R (view (emu_mem s)) b)) \<and>
    val = seen X86EMU_PERM_R (addrs (width bits) a) (view (emu_mem s)) \<and> fbyte (view (emu_mem s')) = fbyte (view (emu_mem s)) \<and>
    same_bits (view (emu_mem s)) (view (emu_mem s')) \<and> mem_ok (emu_mem s')"
  using assms(2,3)
    memio_through_read [OF byte_access.memory_read_axioms assms(1), of a val s']
    memio_through_read [OF word_access.memory_read_axioms assms(1), of a val s']
    memio_through_read [OF dword_access.memory_read_axioms assms(1), of a val s']
  by (elim disjE; hypsubst; simp add: vm_memio_def memio_consts width_def split: prod.splits)

lemma memio_X:
  assumes "mem_ok (emu_mem s)" "bits = X86EMU_MEMIO_8 \<or> bits = X86EMU_MEMIO_16 \<or> bits = X86EMU_MEMIO_32"
    and "vm_memio dev a v (X86EMU_MEMIO_X OR bits) s = (err, val, s')"
  shows "(err \<longleftrightarrow> (\<exists>b\<in>set (addrs (width bits) a). \<not> readable X86EMU_PERM_X (view (emu_mem s)) b)) \<and>
    val = seen X86EMU_PERM_X (addrs (width bits) a) (view (emu_mem s)) \<and> fbyte (view (emu_mem s')) = fbyte (view (emu_mem s)) \<and>
    same_bits (view (emu_mem s)) (view (emu_mem s')) \<and> mem_ok (emu_mem s')"
  using assms(2,3)
    memio_through_read [OF byte_fetch.memory_read_axioms assms(1), of a val s']
    memio_through_read [OF word_fetch.memory_read_axioms assms(1), of a val s']
    memio_through_read [OF dword_fetch.memory_read_axioms assms(1), of a val s']
  by (elim disjE; hypsubst; simp add: vm_memio_def memio_consts width_def split: prod.splits)

lemma memio_W:
  assumes "mem_ok (emu_mem s)" "bits = X86EMU_MEMIO_8 \<or> bits = X86EMU_MEMIO_16 \<or> bits = X86EMU_MEMIO_32"
    and "vm_memio dev a v (X86EMU_MEMIO_W OR bits) s = (err, val, s')"
  shows "(err \<longleftrightarrow> (\<exists>b\<in>set (addrs (width bits) a). fattr (view (emu_mem s)) b AND X86EMU_PERM_W = 0)) \<and>
    (\<forall>l. fbyte (view (emu_mem s')) l \<noteq> fbyte (view (emu_mem s)) l \<longrightarrow>
      (\<exists>b\<in>set (addrs (width bits) a). l = floc (view (emu_mem s)) b \<and> fattr (view (emu_mem s)) b AND X86EMU_PERM_W \<noteq> 0)) \<and>
    same_bits (view (emu_mem s)) (view (emu_mem s')) \<and> mem_ok (emu_mem s')"
proof -
  let ?s = "s\<lparr>emu_mem := (emu_mem s)\<lparr>invalid := False\<rparr>\<rparr>"
  have "\<exists>rd wr. memory_access rd (width bits) wr \<and> s' = mem_write wr a v ?s \<and> err = invalid (emu_mem s')"
    using assms(2)
  proof (elim disjE)
    assume "bits = X86EMU_MEMIO_8"
    then show ?thesis using assms(3) byte_access.memory_access_axioms
      by (intro exI [of _ vm_r_byte] exI [of _ vm_w_byte]) (auto simp: vm_memio_def memio_consts width_def Let_def)
  next
    assume "bits = X86EMU_MEMIO_16"
    then show ?thesis using assms(3) word_access.memory_access_axioms
      by (intro exI [of _ vm_r_word] exI [of _ vm_w_word]) (auto simp: vm_memio_def memio_consts width_def Let_def)
  next
    assume "bits = X86EMU_MEMIO_32"
    then show ?thesis using assms(3) dword_access.memory_access_axioms
      by (intro exI [of _ vm_r_dword] exI [of _ vm_w_dword]) (auto simp: vm_memio_def memio_consts width_def Let_def)
  qed
  then obtain rd wr where acc: "memory_access rd (width bits) wr" and s': "s' = mem_write wr a v ?s" and err: "err = invalid (emu_mem s')"
    by blast
  show ?thesis unfolding err by (rule memio_through_write [OF acc assms(1) s'])
qed

text \<open>
  C28. The memory accesses of the emulator respect the permissions at every width: a read or an instruction
  fetch changes no contents and sees 0xFF in place of what it may not read, a write changes only
  bytes that may be written, none changes a permission, and the access is reported as invalid exactly if
  some byte lacked the permission or, for reads and fetches, was never written.
\<close>
theorem memory_accesses_respect_permissions:
  assumes "mem_ok (emu_mem s)" "bits = X86EMU_MEMIO_8 \<or> bits = X86EMU_MEMIO_16 \<or> bits = X86EMU_MEMIO_32"
    and "f = view (emu_mem s)" "bytes = set (addrs (width bits) a)"
    and "vm_memio dev a v (X86EMU_MEMIO_R OR bits) s = (err_r, val_r, s_r)"
    and "vm_memio dev a v (X86EMU_MEMIO_X OR bits) s = (err_x, val_x, s_x)"
    and "vm_memio dev a v (X86EMU_MEMIO_W OR bits) s = (err_w, val_w, s_w)"
  shows "(err_r \<longleftrightarrow> (\<exists>b\<in>bytes. \<not> readable X86EMU_PERM_R f b)) \<and> val_r = seen X86EMU_PERM_R (addrs (width bits) a) f \<and>
    (err_x \<longleftrightarrow> (\<exists>b\<in>bytes. \<not> readable X86EMU_PERM_X f b)) \<and> val_x = seen X86EMU_PERM_X (addrs (width bits) a) f \<and>
    (err_w \<longleftrightarrow> (\<exists>b\<in>bytes. fattr f b AND X86EMU_PERM_W = 0)) \<and>
    fbyte (view (emu_mem s_r)) = fbyte f \<and> fbyte (view (emu_mem s_x)) = fbyte f \<and>
    (\<forall>l. fbyte (view (emu_mem s_w)) l \<noteq> fbyte f l \<longrightarrow> (\<exists>b\<in>bytes. l = floc f b \<and> fattr f b AND X86EMU_PERM_W \<noteq> 0)) \<and>
    same_bits f (view (emu_mem s_r)) \<and> same_bits f (view (emu_mem s_x)) \<and> same_bits f (view (emu_mem s_w))"
  using memio_R [OF assms(1,2,5)] memio_X [OF assms(1,2,6)] memio_W [OF assms(1,2,7)] unfolding assms(3,4) by blast

text \<open>A machine after reset, for the examples.\<close>

definition blank_machine :: "u8 \<Rightarrow> x86emu_io" where
  "blank_machine perm =
     \<lparr>R_EAX = 0, R_EBX = 0, R_ECX = 0, R_EDX = 0, R_ESP = 0, R_EBP = 0, R_ESI = 0, R_EDI = 0, R_FLG = 2,
      seg = (\<lambda>_. \<lparr>sel_base = 0, sel_limit = 0xFFFF, sel_sel = 0, sel_acc = 0x93\<rparr>), mode = 0,
      intr_nr = 0, intr_type = 0, intr_errcode = 0,
      emu_mem = emu_mem_new perm (\<lambda>_. 0), io_map = (\<lambda>port. if port = 0x80 then X86EMU_PERM_R OR X86EMU_PERM_W else 0),
      stats_i = (\<lambda>_. 0), stats_o = (\<lambda>_. 0), iopl_needed = True, iopl_ok = True,
      host_io = \<lparr>if_flag = True, port_log = []\<rparr>\<rparr>"

lemma memory_accesses_respect_permissions_witness:
  "fst (vm_memio (\<lambda>_ _. 0) 0x10 5 (X86EMU_MEMIO_W OR X86EMU_MEMIO_32) (blank_machine 0x01)) \<and>
   fst (snd (vm_memio (\<lambda>_ _. 0) 0x10 5 (X86EMU_MEMIO_R OR X86EMU_MEMIO_32) (blank_machine 0x01))) = 0"
proof -
  let ?m = "blank_machine 0x01" and ?d = "(\<lambda>_ _. 0) :: device"
  have v: "view (emu_mem ?m) = \<lparr>fattr = (\<lambda>_. 1), floc = Own_byte, fbyte = (\<lambda>l. case l of Own_byte _ \<Rightarrow> 0 | Host_byte a \<Rightarrow> 0), finvalid = False\<rparr>"
    and ok: "mem_ok (emu_mem ?m)" by (simp_all add: blank_machine_def emu_mem_new_view)
  obtain er vr sr where r: "vm_memio ?d 0x10 5 (X86EMU_MEMIO_R OR X86EMU_MEMIO_32) ?m = (er, vr, sr)"
    by (metis prod.exhaust)
  obtain ex vx sx where x: "vm_memio ?d 0x10 5 (X86EMU_MEMIO_X OR X86EMU_MEMIO_32) ?m = (ex, vx, sx)"
    by (metis prod.exhaust)
  obtain ew vw sw where w: "vm_memio ?d 0x10 5 (X86EMU_MEMIO_W OR X86EMU_MEMIO_32) ?m = (ew, vw, sw)"
    by (metis prod.exhaust)
  have a: "addrs (width X86EMU_MEMIO_32) 0x10 = [0x10, 0x11, 0x12, 0x13]" by (simp add: width_def memio_consts numeral_eq_Suc)
  show ?thesis
    using memory_accesses_respect_permissions [OF ok disjI2 [OF disjI2 [OF refl]] refl refl r x w] unfolding a v r w
    by (auto simp: X86EMU_PERM_R_def X86EMU_PERM_W_def X86EMU_PERM_X_def)
qed

section \<open>Port accesses through the permissions\<close>

text \<open>The ports an access on the host reads.\<close>

definition ports_read :: "port_event \<Rightarrow> nat list" where
  "ports_read e = (case e of In8 p \<Rightarrow> [unat p] | In16 p \<Rightarrow> [unat p, unat p + 1]
     | In32 p \<Rightarrow> [unat p, unat p + 1, unat p + 2, unat p + 3] | _ \<Rightarrow> [])"

definition may_read :: "'a x86emu_io_scheme \<Rightarrow> nat \<Rightarrow> bool" where
  "may_read s p \<longleftrightarrow> iopl_ok s \<and> io_map s p AND X86EMU_PERM_R \<noteq> 0"

definition may_write :: "'a x86emu_io_scheme \<Rightarrow> nat \<Rightarrow> bool" where
  "may_write s p \<longleftrightarrow> iopl_ok s \<and> io_map s p AND X86EMU_PERM_W \<noteq> 0"

text \<open>An input step: it keeps the permissions, reads only permitted ports and writes none.\<close>

definition input_step :: "'a x86emu_io_scheme \<Rightarrow> 'a x86emu_io_scheme \<Rightarrow> bool" where
  "input_step s t \<longleftrightarrow> (\<exists>new. port_log (host_io t) = new @ port_log (host_io s) \<and>
      (\<forall>e\<in>set new. ports_read e \<noteq> [] \<and> (\<forall>p\<in>set (ports_read e). may_read s p))) \<and>
    (\<forall>p. may_read t p \<longleftrightarrow> may_read s p) \<and> (\<forall>p. may_write t p \<longleftrightarrow> may_write s p)"

lemma input_step_trans:
  assumes st: "input_step s t" and tu: "input_step t u"
  shows "input_step s u"
proof -
  obtain new new' where n: "port_log (host_io t) = new @ port_log (host_io s)" "port_log (host_io u) = new' @ port_log (host_io t)"
    and p: "\<forall>e\<in>set new. ports_read e \<noteq> [] \<and> (\<forall>p\<in>set (ports_read e). may_read s p)"
      "\<forall>e\<in>set new'. ports_read e \<noteq> [] \<and> (\<forall>p\<in>set (ports_read e). may_read t p)"
    using st tu unfolding input_step_def by blast
  have "port_log (host_io u) = (new' @ new) @ port_log (host_io s)" by (simp add: n)
  moreover have "\<forall>e\<in>set (new' @ new). ports_read e \<noteq> [] \<and> (\<forall>p\<in>set (ports_read e). may_read s p)"
    using p st by (auto simp: input_step_def)
  ultimately show ?thesis using st tu unfolding input_step_def by metis
qed

lemma or_io_rights [simp]:
  "may_read (or_io p X86EMU_ACC_R s) q = may_read s q" "may_read (or_io p X86EMU_ACC_INVALID s) q = may_read s q"
  "may_write (or_io p X86EMU_ACC_R s) q = may_write s q" "may_write (or_io p X86EMU_ACC_INVALID s) q = may_write s q"
  "may_read (or_io p X86EMU_ACC_W s) q = may_read s q" "may_write (or_io p X86EMU_ACC_W s) q = may_write s q"
  unfolding may_read_def may_write_def perm_bits by (simp_all add: or_io_def bit_or_iff perm_bits)

lemma other_rights [simp]:
  "may_read (count_i p s) q = may_read s q" "may_write (count_i p s) q = may_write s q"
  "may_read (count_o p s) q = may_read s q" "may_write (count_o p s) q = may_write s q"
  "may_read (set_invalid s) q = may_read s q" "may_write (set_invalid s) q = may_write s q"
  "may_read (s\<lparr>host_io := m\<rparr>) q = may_read s q" "may_write (s\<lparr>host_io := m\<rparr>) q = may_write s q"
  "host_io (or_io p b s) = host_io s" "host_io (count_i p s) = host_io s" "host_io (count_o p s) = host_io s"
  "host_io (set_invalid s) = host_io s" "emu_mem (or_io p b s) = emu_mem s" "emu_mem (count_i p s) = emu_mem s"
  "emu_mem (count_o p s) = emu_mem s" "emu_mem (set_invalid s) = (emu_mem s)\<lparr>invalid := True\<rparr>"
  by (simp_all add: may_read_def may_write_def or_io_def count_i_def count_o_def set_invalid_def)

lemma port_word: "unat (ucast (addr AND 0xFFFF :: u32) :: u16) = unat (addr AND 0xFFFF)" for addr :: u32
proof -
  have eq: "addr AND 0xFFFF = take_bit 16 addr" by (simp add: take_bit_eq_mask mask_numeral)
  show ?thesis unfolding eq by (simp add: unsigned_ucast_eq unsigned_take_bit_eq)
qed

lemma vm_i_byte_step:
  assumes "vm_i_byte dev addr s = (v, t)" and p: "p = unat (addr AND 0xFFFF)"
  shows "input_step s t" "invalid (emu_mem t) \<longleftrightarrow> invalid (emu_mem s) \<or> \<not> may_read s p" "\<not> may_read s p \<Longrightarrow> v = 0xFF"
  using assms(1) port_word [of addr]
  by (auto simp: vm_i_byte_def p Let_def inb_def io_in_8_def input_step_def may_read_def [of s "unat _"] ports_read_def split: if_splits)


lemma vm_o_byte_effect:
  assumes "t = vm_o_byte addr v s" and p: "p = unat (addr AND 0xFFFF)"
  shows "host_io t = (if may_write s p then io_out_8 (ucast v) (ucast (addr AND 0xFFFF)) (host_io s) else host_io s)"
    "invalid (emu_mem t) \<longleftrightarrow> invalid (emu_mem s) \<or> \<not> may_write s p"
    "may_read t q \<longleftrightarrow> may_read s q" "may_write t q \<longleftrightarrow> may_write s q"
  unfolding assms by (auto simp: vm_o_byte_def Let_def outb_def may_write_def [of s "unat _"])

lemma masked_port: "unat (a AND 0xFFFF :: u32) < 65536"
  using word_and_le1 [of a "0xFFFF"] by (simp add: word_le_nat_alt)

lemma next_port: "unat (((a AND 0xFFFF) + of_nat k) AND 0xFFFF :: u32) = (unat (a AND 0xFFFF) + k) mod 65536"
proof -
  have mask: "x AND 0xFFFF = take_bit 16 x" for x :: u32 by (simp add: take_bit_eq_mask mask_numeral)
  have "unat (take_bit 16 (take_bit 16 a + of_nat k)) = take_bit 16 (unat (take_bit 16 a + of_nat k))"
    by (simp add: unsigned_take_bit_eq)
  also have "\<dots> = (unat (take_bit 16 a) + k) mod 2 ^ 32 mod 2 ^ 16"
    by (simp only: unat_word_ariths unsigned_of_nat take_bit_eq_mod len_num1 len_bit0 len_bit1) (simp add: mod_simps)
  also have "\<dots> = (unat (take_bit 16 a) + k) mod 2 ^ 16"
    by (rule mod_mod_cancel) (simp add: le_imp_power_dvd)
  finally show ?thesis by (simp add: mask)
qed

lemma vm_i_byte_next:
  assumes "vm_i_byte dev ((addr AND 0xFFFF) + of_nat k) s = (v, t)" and "\<And>p. may_read s p \<longleftrightarrow> may_read s' p"
  shows "input_step s t" "invalid (emu_mem t) \<longleftrightarrow> invalid (emu_mem s) \<or> \<not> may_read s' ((unat (addr AND 0xFFFF) + k) mod 65536)"
    "may_read t p \<longleftrightarrow> may_read s' p"
proof -
  show step: "input_step s t" by (rule vm_i_byte_step(1) [OF assms(1) refl])
  show "may_read t p \<longleftrightarrow> may_read s' p" using step assms(2) by (simp add: input_step_def)
  show "invalid (emu_mem t) \<longleftrightarrow> invalid (emu_mem s) \<or> \<not> may_read s' ((unat (addr AND 0xFFFF) + k) mod 65536)"
    using vm_i_byte_step(2) [OF assms(1) refl] by (simp add: next_port assms(2))
qed

lemma port_room:
  "(a AND 0xFFFF :: u32) \<noteq> 0xFFFF \<Longrightarrow> unat (a AND 0xFFFF) + 1 < 65536"
  "\<not> (0xFFFD \<le> (a AND 0xFFFF :: u32)) \<Longrightarrow> unat (a AND 0xFFFF) + 3 < 65536"
proof -
  assume "(a AND 0xFFFF :: u32) \<noteq> 0xFFFF"
  then have "a AND 0xFFFF < 0xFFFF" using word_and_le1 [of a "0xFFFF"] by (simp add: order.not_eq_order_implies_strict)
  then show "unat (a AND 0xFFFF) + 1 < 65536" by (simp add: word_less_nat_alt)
next
  assume "\<not> (0xFFFD \<le> (a AND 0xFFFF :: u32))"
  then show "unat (a AND 0xFFFF) + 3 < 65536" by (simp add: word_le_nat_alt)
qed

lemma vm_i_word_step:
  assumes "vm_i_word dev addr s = (v, t)" and p: "p = unat (addr AND 0xFFFF)"
  shows "input_step s t \<and> (invalid (emu_mem t) \<longleftrightarrow> invalid (emu_mem s) \<or> (\<exists>k\<in>{0, 1}. \<not> may_read s ((p + k) mod 65536)))"
proof (cases "iopl_ok s \<and> addr AND 0xFFFF \<noteq> 0xFFFF \<and> may_read s p \<and> may_read s (p + 1)")
  case True
  then have room: "p + 1 < 65536" using port_room(1) by (simp add: p)
  have "t = (let s' = count_i (p + 1) (count_i p (or_io (p + 1) X86EMU_ACC_R (or_io p X86EMU_ACC_R s)))
      in s'\<lparr>host_io := (host_io s)\<lparr>port_log := In16 (ucast (addr AND 0xFFFF)) # port_log (host_io s)\<rparr>\<rparr>)"
    using assms(1) True unfolding may_read_def
    by (auto simp: vm_i_word_def Let_def p inw_def io_in_16_def)
  then show ?thesis using True room port_word [of addr]
    by (simp add: input_step_def ports_read_def p Let_def)
next
  case False
  obtain v0 s0 v1 s1 where b: "vm_i_byte dev (addr AND 0xFFFF) s = (v0, s0)" "vm_i_byte dev ((addr AND 0xFFFF) + 1) s0 = (v1, s1)"
    by (metis surj_pair)
  have t: "t = s1" using assms(1) False b unfolding may_read_def by (auto simp: vm_i_word_def Let_def p)
  note e0 = vm_i_byte_next [where k = 0 and s' = s, simplified, OF b(1)]
  note e1 = vm_i_byte_next [where k = 1 and s' = s, simplified, OF b(2) e0(3)]
  show ?thesis using e0(2) e1(2) input_step_trans [OF e0(1) e1(1)] by (auto simp: t p)
qed

lemma vm_i_dword_step:
  assumes "vm_i_dword dev addr s = (v, t)" and p: "p = unat (addr AND 0xFFFF)"
  shows "input_step s t \<and> (invalid (emu_mem t) \<longleftrightarrow> invalid (emu_mem s) \<or> (\<exists>k\<in>{0, 1, 2, 3}. \<not> may_read s ((p + k) mod 65536)))"
proof (cases "iopl_ok s \<and> \<not> addr AND 0xFFFF \<ge> 0xFFFD \<and> (\<forall>k\<in>{0, 1, 2, 3}. may_read s (p + k))")
  case True
  then have room: "p + 3 < 65536" using port_room(2) by (simp add: p)
  have "t = (let s' = fold (\<lambda>k. count_i (p + k)) [0..<4] (fold (\<lambda>k. or_io (p + k) X86EMU_ACC_R) [0..<4] s)
      in s'\<lparr>host_io := (host_io s)\<lparr>port_log := In32 (ucast (addr AND 0xFFFF)) # port_log (host_io s)\<rparr>\<rparr>)"
    using assms(1) True unfolding may_read_def
    by (auto simp: vm_i_dword_def Let_def p inl_def io_in_32_def upto_4)
  then show ?thesis using True room port_word [of addr]
    by (simp add: input_step_def ports_read_def p Let_def upto_4)
next
  case False
  obtain v0 s0 v1 s1 v2 s2 v3 s3 where b: "vm_i_byte dev (addr AND 0xFFFF) s = (v0, s0)" "vm_i_byte dev ((addr AND 0xFFFF) + 1) s0 = (v1, s1)"
      "vm_i_byte dev ((addr AND 0xFFFF) + 2) s1 = (v2, s2)" "vm_i_byte dev ((addr AND 0xFFFF) + 3) s2 = (v3, s3)"
    by (metis surj_pair)
  have t: "t = s3" using assms(1) False b unfolding may_read_def by (auto simp: vm_i_dword_def Let_def p upto_4)
  note e0 = vm_i_byte_next [where k = 0 and s' = s, simplified, OF b(1)]
  note e1 = vm_i_byte_next [where k = 1 and s' = s, simplified, OF b(2) e0(3)]
  note e2 = vm_i_byte_next [where k = 2 and s' = s, simplified, OF b(3) e1(3)]
  note e3 = vm_i_byte_next [where k = 3 and s' = s, simplified, OF b(4) e2(3)]
  show ?thesis
    using e0(2) e1(2) e2(2) e3(2) input_step_trans [OF input_step_trans [OF input_step_trans [OF e0(1) e1(1)] e2(1)] e3(1)]
    by (auto simp: t p)
qed

text \<open>Output. An access whose ports are all permitted, and do not wrap around, is one host access of the access's
  width; any other is made byte by byte, and each of its bytes is the low byte of the value.\<close>

definition ports :: "nat \<Rightarrow> nat \<Rightarrow> nat list" where
  "ports n p = map (\<lambda>k. (p + k) mod 65536) [0..<n]"

definition bytes_out :: "'a x86emu_io_scheme \<Rightarrow> u32 \<Rightarrow> nat list \<Rightarrow> machine \<Rightarrow> machine" where
  "bytes_out s v ps m = fold (\<lambda>p m. if may_write s p then io_out_8 (ucast v) (of_nat p) m else m) ps m"

definition output_step :: "'a x86emu_io_scheme \<Rightarrow> nat list \<Rightarrow> 'a x86emu_io_scheme \<Rightarrow> bool" where
  "output_step s ps t \<longleftrightarrow> (invalid (emu_mem t) \<longleftrightarrow> invalid (emu_mem s) \<or> \<not> set ps \<subseteq> Collect (may_write s)) \<and>
    (\<forall>p. may_read t p \<longleftrightarrow> may_read s p) \<and> (\<forall>p. may_write t p \<longleftrightarrow> may_write s p)"

lemma ports_simps [simp]:
  "ports 1 p = [p mod 65536]" "ports (Suc 0) p = [p mod 65536]" "ports 2 p = [p mod 65536, (p + 1) mod 65536]"
  "ports 4 p = [p mod 65536, (p + 1) mod 65536, (p + 2) mod 65536, (p + 3) mod 65536]"
  by (simp_all add: ports_def upt_rec add.commute)

lemma vm_o_byte_next:
  assumes "t = vm_o_byte ((addr AND 0xFFFF) + of_nat k) v u" and "output_step s ps u" and "host_io u = bytes_out s v ps m"
    and p: "p = unat (addr AND 0xFFFF)"
  shows "output_step s (ps @ [(p + k) mod 65536]) t" "host_io t = bytes_out s v (ps @ [(p + k) mod 65536]) m"
proof -
  have port: "ucast (((addr AND 0xFFFF) + of_nat k) AND 0xFFFF :: u32) = (of_nat ((p + k) mod 65536) :: u8)"
    unfolding p next_port [symmetric] of_nat_unat ..
  note e = vm_o_byte_effect [OF assms(1) refl, unfolded next_port p [symmetric] port]
  have r: "may_write u q = may_write s q" "may_read u q = may_read s q" for q
    using assms(2) by (simp_all add: output_step_def)
  show "output_step s (ps @ [(p + k) mod 65536]) t" using assms(2) e(2-4) r by (auto simp: output_step_def)
  show "host_io t = bytes_out s v (ps @ [(p + k) mod 65536]) m"
    using e(1) r assms(3) by (simp add: bytes_out_def)
qed

lemma output_step_nil: "output_step s [] s" "host_io s = bytes_out s v [] (host_io s)"
  by (simp_all add: output_step_def bytes_out_def)

lemma vm_o_byte_step:
  assumes "p = unat (addr AND 0xFFFF)"
  shows "output_step s (ports 1 p) (vm_o_byte addr v s)"
    "host_io (vm_o_byte addr v s) = bytes_out s v (ports 1 p) (host_io s)"
proof -
  have low: "p mod 65536 = p" using masked_port [of addr] by (simp add: assms)
  have port: "(of_nat p :: u8) = ucast (addr AND 0xFFFF)"
    unfolding assms of_nat_unat ..
  note e = vm_o_byte_effect [OF refl assms, of v s]
  show "output_step s (ports 1 p) (vm_o_byte addr v s)" using e(2-4) by (auto simp: output_step_def low)
  show "host_io (vm_o_byte addr v s) = bytes_out s v (ports 1 p) (host_io s)" using e(1) by (simp add: bytes_out_def low port)
qed

lemma vm_o_word_step:
  assumes p: "p = unat (addr AND 0xFFFF)" and t: "t = vm_o_word addr v s"
  shows "output_step s (ports 2 p) t"
    "host_io t = (if p + 1 < 65536 \<and> may_write s p \<and> may_write s (p + 1) then io_out_16 (ucast v) (of_nat p) (host_io s)
       else bytes_out s v (ports 2 p) (host_io s))"
proof -
  have room: "addr AND 0xFFFF \<noteq> 0xFFFF \<longleftrightarrow> p + 1 < 65536"
    using port_room(1) [of addr] by (auto simp: p)
  have low: "p mod 65536 = p" using masked_port [of addr] by (simp add: p)
  have "output_step s (ports 2 p) t \<and>
    host_io t = (if p + 1 < 65536 \<and> may_write s p \<and> may_write s (p + 1) then io_out_16 (ucast v) (of_nat p) (host_io s)
       else bytes_out s v (ports 2 p) (host_io s))"
  proof (cases "p + 1 < 65536 \<and> may_write s p \<and> may_write s (p + 1)")
    case True
    then have "t = outw v (addr AND 0xFFFF) (count_o (p + 1) (count_o p (or_io (p + 1) X86EMU_ACC_W (or_io p X86EMU_ACC_W s))))"
      using room unfolding t may_write_def by (auto simp: vm_o_word_def Let_def p)
    then show ?thesis using True low by (simp add: outw_def output_step_def) (simp add: p of_nat_unat)
  next
    case False
    then have "t = vm_o_byte ((addr AND 0xFFFF) + 1) v (vm_o_byte (addr AND 0xFFFF) v s)"
      using room unfolding t may_write_def by (auto simp: vm_o_word_def Let_def p)
    moreover note b0 = vm_o_byte_next [where k = 0 and v = v, simplified, OF refl output_step_nil p]
    moreover note b1 = vm_o_byte_next [where k = 1, simplified, OF refl b0 p]
    ultimately show ?thesis using False by (auto simp: low)
  qed
  then show "output_step s (ports 2 p) t"
    "host_io t = (if p + 1 < 65536 \<and> may_write s p \<and> may_write s (p + 1) then io_out_16 (ucast v) (of_nat p) (host_io s)
       else bytes_out s v (ports 2 p) (host_io s))" by blast+
qed

lemma vm_o_dword_step:
  assumes p: "p = unat (addr AND 0xFFFF)" and t: "t = vm_o_dword addr v s"
  shows "output_step s (ports 4 p) t"
    "host_io t = (if p + 3 < 65536 \<and> {p, p + 1, p + 2, p + 3} \<subseteq> Collect (may_write s)
       then io_out_32 (ucast v) (addr AND 0xFFFF) (host_io s) else bytes_out s v (ports 4 p) (host_io s))"
proof -
  have room: "\<not> 0xFFFD \<le> addr AND 0xFFFF \<longleftrightarrow> p + 3 < 65536"
    by (simp add: p word_le_nat_alt not_le less_diff_conv)
  have low: "p mod 65536 = p" using masked_port [of addr] by (simp add: p)
  have "output_step s (ports 4 p) t \<and>
    host_io t = (if p + 3 < 65536 \<and> {p, p + 1, p + 2, p + 3} \<subseteq> Collect (may_write s)
      then io_out_32 (ucast v) (addr AND 0xFFFF) (host_io s) else bytes_out s v (ports 4 p) (host_io s))"
  proof (cases "p + 3 < 65536 \<and> {p, p + 1, p + 2, p + 3} \<subseteq> Collect (may_write s)")
    case True
    then have "t = outl v (addr AND 0xFFFF)
        (fold (\<lambda>k. count_o (p + k)) [0..<4] (fold (\<lambda>k. or_io (p + k) X86EMU_ACC_W) [0..<4] s))"
      using room unfolding t may_write_def by (auto simp: vm_o_dword_def Let_def p upto_4)
    then show ?thesis using True low by (simp add: outl_def output_step_def upto_4)
  next
    case False
    then have "t = vm_o_byte ((addr AND 0xFFFF) + 3) v (vm_o_byte ((addr AND 0xFFFF) + 2) v
        (vm_o_byte ((addr AND 0xFFFF) + 1) v (vm_o_byte (addr AND 0xFFFF) v s)))"
      using room unfolding t may_write_def vm_o_dword_def Let_def p by (auto simp: upto_4)
    moreover note b0 = vm_o_byte_next [where k = 0 and v = v, simplified, OF refl output_step_nil p]
    moreover note b1 = vm_o_byte_next [where k = 1, simplified, OF refl b0 p]
    moreover note b2 = vm_o_byte_next [where k = 2, simplified, OF refl b1 p]
    moreover note b3 = vm_o_byte_next [where k = 3, simplified, OF refl b2 p]
    ultimately show ?thesis using False by (auto simp: low)
  qed
  then show "output_step s (ports 4 p) t"
    "host_io t = (if p + 3 < 65536 \<and> {p, p + 1, p + 2, p + 3} \<subseteq> Collect (may_write s)
       then io_out_32 (ucast v) (addr AND 0xFFFF) (host_io s) else bytes_out s v (ports 4 p) (host_io s))" by blast+
qed

text \<open>
  C29. Input through the emulated ports reads only ports the emulated program may read, writes none
  and keeps the permissions, at every width, and is reported as invalid exactly if one of its ports (taken modulo 65536)
  may not be read. Output is reported as invalid exactly if one of its ports may not be written and keeps the permissions,
  at every width. What reaches the host is exactly this: nothing for a byte that is not permitted; one access of the full
  width if all ports are permitted and do not wrap around; otherwise one byte access for each permitted port, each with
  the low byte of the value. In all cases port and value are exchanged: the access is made to the port whose number is
  the value.
\<close>
theorem port_accesses_respect_permissions:
  "let p = unat (addr AND 0xFFFF);
       b = snd (vm_i_byte dev addr s); w = snd (vm_i_word dev addr s); l = snd (vm_i_dword dev addr s);
       out_b = vm_o_byte addr v s; out_w = vm_o_word addr v s; out_l = vm_o_dword addr v s
   in input_step s b \<and> (\<not> invalid (emu_mem b) \<longleftrightarrow> \<not> invalid (emu_mem s) \<and> may_read s p) \<and>
      input_step s w \<and> (\<not> invalid (emu_mem w) \<longleftrightarrow>
        \<not> invalid (emu_mem s) \<and> (\<lambda>k. (p + k) mod 65536) ` {0, 1} \<subseteq> Collect (may_read s)) \<and>
      input_step s l \<and> (\<not> invalid (emu_mem l) \<longleftrightarrow>
        \<not> invalid (emu_mem s) \<and> (\<lambda>k. (p + k) mod 65536) ` {0, 1, 2, 3} \<subseteq> Collect (may_read s)) \<and>
      output_step s (ports 1 p) out_b \<and>
      host_io out_b = (if may_write s p then io_out_8 (ucast v) (ucast (addr AND 0xFFFF)) (host_io s) else host_io s) \<and>
      output_step s (ports 2 p) out_w \<and>
      host_io out_w = (if p + 1 < 65536 \<and> {p, p + 1} \<subseteq> Collect (may_write s)
        then io_out_16 (ucast v) (ucast (addr AND 0xFFFF)) (host_io s) else bytes_out s v (ports 2 p) (host_io s)) \<and>
      output_step s (ports 4 p) out_l \<and>
      host_io out_l = (if p + 3 < 65536 \<and> {p, p + 1, p + 2, p + 3} \<subseteq> Collect (may_write s)
        then io_out_32 (ucast v) (addr AND 0xFFFF) (host_io s) else bytes_out s v (ports 4 p) (host_io s))"
proof -
  obtain vb b vw w vl l where r: "vm_i_byte dev addr s = (vb, b)" "vm_i_word dev addr s = (vw, w)" "vm_i_dword dev addr s = (vl, l)"
    by (metis surj_pair)
  show ?thesis
    using vm_i_byte_step [OF r(1) refl] vm_i_word_step [OF r(2) refl] vm_i_dword_step [OF r(3) refl]
      vm_o_byte_step(1) [where addr = addr and v = v and s = s, OF refl] vm_o_byte_effect(1) [OF refl refl, of addr v s]
      vm_o_word_step [where addr = addr and v = v and s = s, OF refl refl] vm_o_dword_step [where addr = addr and v = v and s = s, OF refl refl]
    by (simp add: r Let_def of_nat_unat del: ports_simps) blast
qed

end
