(* ===== verification/X86emu_Cpu.thy ===== *)
theory X86emu_Cpu
  imports X86emu_Ports
begin

text \<open>
  The processor of the emulator around the arithmetic unit (\<open>libx86emu/decode.c\<close>, stack and string
  operations of \<open>prim_ops.c\<close>): fetching instruction bytes, data accesses through segments, descriptors, interrupts,
  the stack and \<open>INS\<close> and \<open>OUTS\<close>. The trace log is left out, and of the disassembly text only the length
  is modelled, since its buffer has no bounds check (\<open>disasm_len\<close>, \<open>OP_DECODE\<close> in X86emu_Run); \<open>memio\<close> is the default
  handler \<open>vm_memio\<close>. The pointers to segment registers lead into the array \<open>seg\<close>, and are indices here.
\<close>

record x86emu = x86emu_io +
  R_EIP :: u32
  ldt :: sel_t
  tr :: sel_t
  crx :: "nat \<Rightarrow> u32"
  drx :: "nat \<Rightarrow> u32"
  gdt_base :: u32
  gdt_limit :: u32
  idt_base :: u32
  idt_limit :: u32
  msr :: "nat \<Rightarrow> u64"
  msr_perm :: "nat \<Rightarrow> u8"
  default_seg :: "nat option"
  saved_eip :: u32
  saved_cs :: u16
  instr_buf :: "u8 list"              \<comment> \<open>the first \<open>instr_len\<close> bytes of the buffer\<close>
  intr_stats :: "u8 \<Rightarrow> u32"
  debug_start :: u32
  debug_len :: u32
  log_trace :: u32
  max_instr :: u64
  disasm_len :: nat                   \<comment> \<open>\<open>disasm_ptr - disasm_buf\<close>, as far as the prefixes moved it\<close>

text \<open>The state after \<open>x86emu_reset\<close>. The segment array has eight entries; the last two are not segment registers,
  and entry 6 stands for the operand of an invalid encoding.\<close>

definition x86emu_reset :: "x86emu \<Rightarrow> x86emu" where
  "x86emu_reset s = s\<lparr>
     R_EAX := 0, R_EBX := 0, R_ECX := 0, R_EDX := 0, R_ESP := 0, R_EBP := 0, R_ESI := 0, R_EDI := 0, R_FLG := 2,
     seg := (\<lambda>i. if i = 1 then \<lparr>sel_base = 0xf0000, sel_limit = 0xffff, sel_sel = 0xf000, sel_acc = 0x9b\<rparr>
                 else if i < 6 then \<lparr>sel_base = 0, sel_limit = 0xffff, sel_sel = 0, sel_acc = 0x93\<rparr>
                 else \<lparr>sel_base = 0, sel_limit = 0, sel_sel = 0, sel_acc = 0\<rparr>),
     mode := 0, intr_nr := 0, intr_type := 0, intr_errcode := 0,
     R_EIP := 0xfff0, ldt := \<lparr>sel_base = 0, sel_limit = 0, sel_sel = 0, sel_acc = 0\<rparr>,
     tr := \<lparr>sel_base = 0, sel_limit = 0, sel_sel = 0, sel_acc = 0\<rparr>, crx := (\<lambda>_. 0), drx := (\<lambda>_. 0),
     msr := (\<lambda>_. 0), msr_perm := (\<lambda>i. if i \<in> {0x10, 0x11, 0x12} then X86EMU_ACC_X else 0),
     gdt_base := 0, gdt_limit := 0xffff, idt_base := 0, idt_limit := 0xffff, default_seg := None,
     saved_eip := 0, saved_cs := 0, instr_buf := [], intr_stats := (\<lambda>_. 0), debug_start := 0, debug_len := 0, disasm_len := 0\<rparr>"

definition R_CR0 :: "x86emu \<Rightarrow> u32" where "R_CR0 s = crx s 0"

definition R_ES_INDEX :: nat where "R_ES_INDEX = 0"
definition R_CS_INDEX :: nat where "R_CS_INDEX = 1"
definition R_SS_INDEX :: nat where "R_SS_INDEX = 2"
definition R_DS_INDEX :: nat where "R_DS_INDEX = 3"
definition R_FS_INDEX :: nat where "R_FS_INDEX = 4"
definition R_GS_INDEX :: nat where "R_GS_INDEX = 5"

definition MODE_SEG_DS_SS :: u32 where "MODE_SEG_DS_SS = 0x01"
definition MODE_REPE_bit :: u32 where "MODE_REPE_bit = 0x02"
definition MODE_REPNE_bit :: u32 where "MODE_REPNE_bit = 0x04"
definition MODE_DATA32_bit :: u32 where "MODE_DATA32_bit = 0x08"
definition MODE_ADDR32_bit :: u32 where "MODE_ADDR32_bit = 0x10"
definition MODE_STACK32_bit :: u32 where "MODE_STACK32_bit = 0x20"
definition MODE_CODE32_bit :: u32 where "MODE_CODE32_bit = 0x40"
definition MODE_HALTED_bit :: u32 where "MODE_HALTED_bit = 0x80"

definition MODE_REP :: "'a x86emu_regs_scheme \<Rightarrow> bool" where
  "MODE_REP s \<longleftrightarrow> mode s AND (MODE_REPE_bit OR MODE_REPNE_bit) \<noteq> 0"

definition MODE_REPE :: "'a x86emu_regs_scheme \<Rightarrow> bool" where
  "MODE_REPE s \<longleftrightarrow> mode s AND MODE_REPE_bit \<noteq> 0"

definition MODE_REPNE :: "'a x86emu_regs_scheme \<Rightarrow> bool" where
  "MODE_REPNE s \<longleftrightarrow> mode s AND MODE_REPNE_bit \<noteq> 0"

definition MODE_DATA32 :: "'a x86emu_regs_scheme \<Rightarrow> bool" where
  "MODE_DATA32 s \<longleftrightarrow> mode s AND MODE_DATA32_bit \<noteq> 0"

definition MODE_ADDR32 :: "'a x86emu_regs_scheme \<Rightarrow> bool" where
  "MODE_ADDR32 s \<longleftrightarrow> mode s AND MODE_ADDR32_bit \<noteq> 0"

definition MODE_STACK32 :: "'a x86emu_regs_scheme \<Rightarrow> bool" where
  "MODE_STACK32 s \<longleftrightarrow> mode s AND MODE_STACK32_bit \<noteq> 0"

definition MODE_CODE32 :: "'a x86emu_regs_scheme \<Rightarrow> bool" where
  "MODE_CODE32 s \<longleftrightarrow> mode s AND MODE_CODE32_bit \<noteq> 0"

definition MODE_HALTED :: "'a x86emu_regs_scheme \<Rightarrow> bool" where
  "MODE_HALTED s \<longleftrightarrow> mode s AND MODE_HALTED_bit \<noteq> 0"

definition MODE_PROTECTED :: "x86emu \<Rightarrow> bool" where
  "MODE_PROTECTED s \<longleftrightarrow> R_CR0 s AND 1 \<noteq> 0"

definition MODE_REAL :: "x86emu \<Rightarrow> bool" where
  "MODE_REAL s \<longleftrightarrow> \<not> MODE_PROTECTED s"

definition INTR_TYPE_FAULT :: u32 where "INTR_TYPE_FAULT = 2"
definition INTR_MODE_ERRCODE :: u32 where "INTR_MODE_ERRCODE = 0x200"

definition INTR_RAISE_GP :: "u32 \<Rightarrow> 'a x86emu_regs_scheme \<Rightarrow> 'a x86emu_regs_scheme" where
  "INTR_RAISE_GP err = x86emu_intr_raise 0x0d (INTR_TYPE_FAULT OR INTR_MODE_RESTART OR INTR_MODE_ERRCODE) err"

definition INTR_RAISE_SOFT :: "u8 \<Rightarrow> 'a x86emu_regs_scheme \<Rightarrow> 'a x86emu_regs_scheme" where
  "INTR_RAISE_SOFT n = x86emu_intr_raise n INTR_TYPE_SOFT 0"

definition INTR_RAISE_UD :: "'a x86emu_regs_scheme \<Rightarrow> 'a x86emu_regs_scheme" where
  "INTR_RAISE_UD = x86emu_intr_raise 0x06 (INTR_TYPE_FAULT OR INTR_MODE_RESTART) 0"

definition x86emu_stop :: "'a x86emu_regs_scheme \<Rightarrow> 'a x86emu_regs_scheme" where
  "x86emu_stop s = s\<lparr>mode := mode s OR MODE_HALTED_bit\<rparr>"

section \<open>Accesses\<close>

definition decode_memio :: "device \<Rightarrow> u32 \<Rightarrow> u32 \<Rightarrow> u32 \<Rightarrow> x86emu \<Rightarrow> bool \<times> u32 \<times> x86emu" where
  "decode_memio = vm_memio"

text \<open>The instruction pointer after \<open>n\<close> bytes: in 16-bit code only its lower half counts.\<close>

definition advance_ip :: "u32 \<Rightarrow> x86emu \<Rightarrow> x86emu" where
  "advance_ip n s =
     s\<lparr>R_EIP := (if MODE_CODE32 s then R_EIP s + n else with_x_reg (x_reg (R_EIP s) + ucast n) (R_EIP s))\<rparr>"

definition fetch_byte :: "device \<Rightarrow> x86emu \<Rightarrow> u8 \<times> x86emu" where
  "fetch_byte dev s =
     (let (err, val, s) = decode_memio dev (sel_base (seg s R_CS_INDEX) + R_EIP s) 0 (X86EMU_MEMIO_8 OR X86EMU_MEMIO_X) s;
          s = (if err then x86emu_stop s else s);
          s = advance_ip 1 s;
          s = (if length (instr_buf s) < 32 then s\<lparr>instr_buf := instr_buf s @ [ucast val]\<rparr> else s)
      in (ucast val, s))"

definition fetch_word :: "device \<Rightarrow> x86emu \<Rightarrow> u16 \<times> x86emu" where
  "fetch_word dev s =
     (let (err, val, s) = decode_memio dev (sel_base (seg s R_CS_INDEX) + R_EIP s) 0 (X86EMU_MEMIO_16 OR X86EMU_MEMIO_X) s;
          s = (if err then x86emu_stop s else s);
          s = advance_ip 2 s;
          s = (if length (instr_buf s) + 1 < 32 then s\<lparr>instr_buf := instr_buf s @ [ucast val, ucast (drop_bit 8 val)]\<rparr> else s)
      in (ucast val, s))"

definition fetch_long :: "device \<Rightarrow> x86emu \<Rightarrow> u32 \<times> x86emu" where
  "fetch_long dev s =
     (let (err, val, s) = decode_memio dev (sel_base (seg s R_CS_INDEX) + R_EIP s) 0 (X86EMU_MEMIO_32 OR X86EMU_MEMIO_X) s;
          s = (if err then x86emu_stop s else s);
          s = advance_ip 4 s;
          s = (if length (instr_buf s) + 3 < 32
               then s\<lparr>instr_buf := instr_buf s @ [ucast val, ucast (drop_bit 8 val), ucast (drop_bit 16 val), ucast (drop_bit 24 val)]\<rparr>
               else s)
      in (val, s))"

definition fetch_decode_modrm :: "device \<Rightarrow> x86emu \<Rightarrow> (nat \<times> nat \<times> nat) \<times> x86emu" where
  "fetch_decode_modrm dev s =
     (let (fetched, s) = fetch_byte dev s
      in ((unat (drop_bit 6 fetched AND 0x03), unat (drop_bit 3 fetched AND 0x07), unat (fetched AND 0x07)), s))"

definition get_data_segment :: "x86emu \<Rightarrow> nat" where
  "get_data_segment s =
     (case default_seg s of Some i \<Rightarrow> i
      | None \<Rightarrow> if mode s AND MODE_SEG_DS_SS \<noteq> 0 then R_SS_INDEX else R_DS_INDEX)"

definition check_data_access :: "nat \<Rightarrow> u32 \<Rightarrow> u32 \<Rightarrow> x86emu \<Rightarrow> x86emu" where
  "check_data_access i ofs n s =
     (if ofs + n - 1 > sel_limit (seg s i) then INTR_RAISE_GP (ucast (sel_sel (seg s i))) s else s)"

definition fetch_data_byte_abs :: "device \<Rightarrow> nat \<Rightarrow> u32 \<Rightarrow> x86emu \<Rightarrow> u8 \<times> x86emu" where
  "fetch_data_byte_abs dev i ofs s =
     (let s = check_data_access i ofs 1 s;
          (err, val, s) = decode_memio dev (sel_base (seg s i) + ofs) 0 (X86EMU_MEMIO_8 OR X86EMU_MEMIO_R) s
      in (ucast val, s))"

definition fetch_data_word_abs :: "device \<Rightarrow> nat \<Rightarrow> u32 \<Rightarrow> x86emu \<Rightarrow> u16 \<times> x86emu" where
  "fetch_data_word_abs dev i ofs s =
     (let s = check_data_access i ofs 2 s;
          (err, val, s) = decode_memio dev (sel_base (seg s i) + ofs) 0 (X86EMU_MEMIO_16 OR X86EMU_MEMIO_R) s
      in (ucast val, s))"

definition fetch_data_long_abs :: "device \<Rightarrow> nat \<Rightarrow> u32 \<Rightarrow> x86emu \<Rightarrow> u32 \<times> x86emu" where
  "fetch_data_long_abs dev i ofs s =
     (let s = check_data_access i ofs 4 s;
          (err, val, s) = decode_memio dev (sel_base (seg s i) + ofs) 0 (X86EMU_MEMIO_32 OR X86EMU_MEMIO_R) s
      in (val, s))"

definition fetch_data_byte :: "device \<Rightarrow> u32 \<Rightarrow> x86emu \<Rightarrow> u8 \<times> x86emu" where
  "fetch_data_byte dev ofs s = fetch_data_byte_abs dev (get_data_segment s) ofs s"

definition fetch_data_word :: "device \<Rightarrow> u32 \<Rightarrow> x86emu \<Rightarrow> u16 \<times> x86emu" where
  "fetch_data_word dev ofs s = fetch_data_word_abs dev (get_data_segment s) ofs s"

definition fetch_data_long :: "device \<Rightarrow> u32 \<Rightarrow> x86emu \<Rightarrow> u32 \<times> x86emu" where
  "fetch_data_long dev ofs s = fetch_data_long_abs dev (get_data_segment s) ofs s"

definition store_data_byte_abs :: "device \<Rightarrow> nat \<Rightarrow> u32 \<Rightarrow> u8 \<Rightarrow> x86emu \<Rightarrow> x86emu" where
  "store_data_byte_abs dev i ofs val s =
     (let s = check_data_access i ofs 1 s
      in snd (snd (decode_memio dev (sel_base (seg s i) + ofs) (ucast val) (X86EMU_MEMIO_8 OR X86EMU_MEMIO_W) s)))"

definition store_data_word_abs :: "device \<Rightarrow> nat \<Rightarrow> u32 \<Rightarrow> u16 \<Rightarrow> x86emu \<Rightarrow> x86emu" where
  "store_data_word_abs dev i ofs val s =
     (let s = check_data_access i ofs 2 s
      in snd (snd (decode_memio dev (sel_base (seg s i) + ofs) (ucast val) (X86EMU_MEMIO_16 OR X86EMU_MEMIO_W) s)))"

definition store_data_long_abs :: "device \<Rightarrow> nat \<Rightarrow> u32 \<Rightarrow> u32 \<Rightarrow> x86emu \<Rightarrow> x86emu" where
  "store_data_long_abs dev i ofs val s =
     (let s = check_data_access i ofs 4 s
      in snd (snd (decode_memio dev (sel_base (seg s i) + ofs) val (X86EMU_MEMIO_32 OR X86EMU_MEMIO_W) s)))"

definition store_data_byte :: "device \<Rightarrow> u32 \<Rightarrow> u8 \<Rightarrow> x86emu \<Rightarrow> x86emu" where
  "store_data_byte dev ofs val s = store_data_byte_abs dev (get_data_segment s) ofs val s"

definition store_data_word :: "device \<Rightarrow> u32 \<Rightarrow> u16 \<Rightarrow> x86emu \<Rightarrow> x86emu" where
  "store_data_word dev ofs val s = store_data_word_abs dev (get_data_segment s) ofs val s"

definition store_data_long :: "device \<Rightarrow> u32 \<Rightarrow> u32 \<Rightarrow> x86emu \<Rightarrow> x86emu" where
  "store_data_long dev ofs val s = store_data_long_abs dev (get_data_segment s) ofs val s"

definition fetch_io_byte :: "device \<Rightarrow> u32 \<Rightarrow> x86emu \<Rightarrow> u8 \<times> x86emu" where
  "fetch_io_byte dev port s =
     (let (err, val, s) = decode_memio dev port 0 (X86EMU_MEMIO_8 OR X86EMU_MEMIO_I) s in (ucast val, s))"

definition fetch_io_word :: "device \<Rightarrow> u32 \<Rightarrow> x86emu \<Rightarrow> u16 \<times> x86emu" where
  "fetch_io_word dev port s =
     (let (err, val, s) = decode_memio dev port 0 (X86EMU_MEMIO_16 OR X86EMU_MEMIO_I) s in (ucast val, s))"

definition fetch_io_long :: "device \<Rightarrow> u32 \<Rightarrow> x86emu \<Rightarrow> u32 \<times> x86emu" where
  "fetch_io_long dev port s =
     (let (err, val, s) = decode_memio dev port 0 (X86EMU_MEMIO_32 OR X86EMU_MEMIO_I) s in (val, s))"

definition store_io_byte :: "device \<Rightarrow> u32 \<Rightarrow> u8 \<Rightarrow> x86emu \<Rightarrow> x86emu" where
  "store_io_byte dev port val s = snd (snd (decode_memio dev port (ucast val) (X86EMU_MEMIO_8 OR X86EMU_MEMIO_O) s))"

definition store_io_word :: "device \<Rightarrow> u32 \<Rightarrow> u16 \<Rightarrow> x86emu \<Rightarrow> x86emu" where
  "store_io_word dev port val s = snd (snd (decode_memio dev port (ucast val) (X86EMU_MEMIO_16 OR X86EMU_MEMIO_O) s))"

definition store_io_long :: "device \<Rightarrow> u32 \<Rightarrow> u32 \<Rightarrow> x86emu \<Rightarrow> x86emu" where
  "store_io_long dev port val s = snd (snd (decode_memio dev port val (X86EMU_MEMIO_32 OR X86EMU_MEMIO_O) s))"

section \<open>The stack\<close>

definition set_SP :: "u16 \<Rightarrow> 'a x86emu_regs_scheme \<Rightarrow> 'a x86emu_regs_scheme" where
  "set_SP v s = s\<lparr>R_ESP := with_x_reg v (R_ESP s)\<rparr>"

definition push_word :: "device \<Rightarrow> u16 \<Rightarrow> x86emu \<Rightarrow> x86emu" where
  "push_word dev w s =
     (if MODE_STACK32 s then
        let s = s\<lparr>R_ESP := R_ESP s - 2\<rparr> in store_data_word_abs dev R_SS_INDEX (R_ESP s) w s
      else
        let s = set_SP (x_reg (R_ESP s) - 2) s in store_data_word_abs dev R_SS_INDEX (ucast (x_reg (R_ESP s))) w s)"

definition push_long :: "device \<Rightarrow> u32 \<Rightarrow> x86emu \<Rightarrow> x86emu" where
  "push_long dev w s =
     (if MODE_STACK32 s then
        let s = s\<lparr>R_ESP := R_ESP s - 4\<rparr> in store_data_long_abs dev R_SS_INDEX (R_ESP s) w s
      else
        let s = set_SP (x_reg (R_ESP s) - 4) s in store_data_long_abs dev R_SS_INDEX (ucast (x_reg (R_ESP s))) w s)"

definition pop_word :: "device \<Rightarrow> x86emu \<Rightarrow> u16 \<times> x86emu" where
  "pop_word dev s =
     (if MODE_STACK32 s then
        let (res, s) = fetch_data_word_abs dev R_SS_INDEX (R_ESP s) s in (res, s\<lparr>R_ESP := R_ESP s + 2\<rparr>)
      else
        let (res, s) = fetch_data_word_abs dev R_SS_INDEX (ucast (x_reg (R_ESP s))) s in (res, set_SP (x_reg (R_ESP s) + 2) s))"

definition pop_long :: "device \<Rightarrow> x86emu \<Rightarrow> u32 \<times> x86emu" where
  "pop_long dev s =
     (if MODE_STACK32 s then
        let (res, s) = fetch_data_long_abs dev R_SS_INDEX (R_ESP s) s in (res, s\<lparr>R_ESP := R_ESP s + 4\<rparr>)
      else
        let (res, s) = fetch_data_long_abs dev R_SS_INDEX (ucast (x_reg (R_ESP s))) s in (res, set_SP (x_reg (R_ESP s) + 4) s))"

section \<open>What an access leaves alone\<close>

text \<open>The processor without memory and ports. An access through \<open>vm_memio\<close> leaves it as it is.\<close>

definition cpu :: "x86emu \<Rightarrow> x86emu" where
  "cpu s = s\<lparr>emu_mem := emu_mem_new 0 (\<lambda>_. 0), io_map := (\<lambda>_. 0), stats_i := (\<lambda>_. 0), stats_o := (\<lambda>_. 0),
     host_io := \<lparr>if_flag = False, port_log = []\<rparr>\<rparr>"

lemma cpu_update [simp]:
  "cpu (s\<lparr>emu_mem := m\<rparr>) = cpu s" "cpu (s\<lparr>io_map := i\<rparr>) = cpu s" "cpu (s\<lparr>stats_i := c\<rparr>) = cpu s"
  "cpu (s\<lparr>stats_o := c\<rparr>) = cpu s" "cpu (s\<lparr>host_io := h\<rparr>) = cpu s"
  by (simp_all add: cpu_def)

lemma cpu_port_steps [simp]:
  "cpu (or_io p b s) = cpu s" "cpu (count_i p s) = cpu s" "cpu (count_o p s) = cpu s" "cpu (set_invalid s) = cpu s"
  "cpu (snd (inb dev a s)) = cpu s" "cpu (snd (inw dev a s)) = cpu s" "cpu (snd (inl dev a s)) = cpu s"
  "cpu (outb a v s) = cpu s" "cpu (outw a v s) = cpu s" "cpu (outl a v s) = cpu s"
  "cpu (snd (mem_read rd a s)) = cpu s" "cpu (mem_write wr a v s) = cpu s"
  by (simp_all add: or_io_def count_i_def count_o_def set_invalid_def inb_def inw_def inl_def outb_def outw_def outl_def
      mem_read_def mem_write_def split_beta)

lemma cpu_fold [simp]:
  "cpu (fold (\<lambda>k. count_i (p + k)) ks s) = cpu s" "cpu (fold (\<lambda>k. count_o (p + k)) ks s) = cpu s"
  "cpu (fold (\<lambda>k. or_io (p + k) b) ks s) = cpu s"
  by (induction ks arbitrary: s) simp_all

lemma cpu_if: "cpu (snd (if c then x else y)) = (if c then cpu (snd x) else cpu (snd y))" "cpu (if c then r else u) = (if c then cpu r else cpu u)"
  by simp_all

lemma cpu_byte_ports [simp]: "cpu (snd (vm_i_byte dev a s)) = cpu s" "cpu (vm_o_byte a v s) = cpu s"
  by (simp_all only: vm_i_byte_def vm_o_byte_def Let_def snd_conv cpu_if cpu_port_steps if_cancel)

lemma cpu_ports [simp]:
  "cpu (snd (vm_i_word dev a s)) = cpu s" "cpu (snd (vm_i_dword dev a s)) = cpu s"
  "cpu (vm_o_word a v s) = cpu s" "cpu (vm_o_dword a v s) = cpu s"
  by (simp_all only: vm_i_word_def vm_o_word_def vm_i_dword_def vm_o_dword_def Let_def split_beta snd_conv cpu_if cpu_port_steps
      cpu_fold cpu_byte_ports if_cancel)

lemma cpu_memio [simp]: "cpu (snd (snd (vm_memio dev a v t s))) = cpu s"
  by (simp only: vm_memio_def Let_def split_beta snd_conv cpu_if cpu_ports cpu_byte_ports cpu_port_steps cpu_update if_cancel)

lemma cpu_sel:
  "R_EAX (cpu s) = R_EAX s" "R_EBX (cpu s) = R_EBX s" "R_ECX (cpu s) = R_ECX s" "R_EDX (cpu s) = R_EDX s"
  "R_ESP (cpu s) = R_ESP s" "R_EBP (cpu s) = R_EBP s" "R_ESI (cpu s) = R_ESI s" "R_EDI (cpu s) = R_EDI s"
  "R_FLG (cpu s) = R_FLG s" "seg (cpu s) = seg s" "mode (cpu s) = mode s" "intr_nr (cpu s) = intr_nr s"
  "intr_type (cpu s) = intr_type s" "intr_errcode (cpu s) = intr_errcode s" "iopl_needed (cpu s) = iopl_needed s"
  "iopl_ok (cpu s) = iopl_ok s" "R_EIP (cpu s) = R_EIP s" "ldt (cpu s) = ldt s" "tr (cpu s) = tr s" "crx (cpu s) = crx s"
  "drx (cpu s) = drx s" "gdt_base (cpu s) = gdt_base s" "gdt_limit (cpu s) = gdt_limit s" "idt_base (cpu s) = idt_base s"
  "idt_limit (cpu s) = idt_limit s" "msr (cpu s) = msr s" "msr_perm (cpu s) = msr_perm s" "default_seg (cpu s) = default_seg s"
  "saved_eip (cpu s) = saved_eip s" "saved_cs (cpu s) = saved_cs s" "instr_buf (cpu s) = instr_buf s"
  "intr_stats (cpu s) = intr_stats s" "debug_start (cpu s) = debug_start s" "debug_len (cpu s) = debug_len s"
  "disasm_len (cpu s) = disasm_len s" "log_trace (cpu s) = log_trace s" "max_instr (cpu s) = max_instr s"
  by (simp_all add: cpu_def)

lemmas memio_sel [simp] = cpu_sel [of "snd (snd (vm_memio dev a v t s))", unfolded cpu_memio cpu_sel, symmetric] for dev a v t s

text \<open>A data access may raise an interrupt as well.\<close>

definition calm :: "x86emu \<Rightarrow> x86emu" where
  "calm s = cpu s\<lparr>intr_nr := 0, intr_type := 0, intr_errcode := 0\<rparr>"

lemma calm_sel:
  "R_EAX (calm s) = R_EAX s" "R_EBX (calm s) = R_EBX s" "R_ECX (calm s) = R_ECX s" "R_EDX (calm s) = R_EDX s"
  "R_ESP (calm s) = R_ESP s" "R_EBP (calm s) = R_EBP s" "R_ESI (calm s) = R_ESI s" "R_EDI (calm s) = R_EDI s"
  "R_FLG (calm s) = R_FLG s" "seg (calm s) = seg s" "mode (calm s) = mode s" "iopl_needed (calm s) = iopl_needed s"
  "iopl_ok (calm s) = iopl_ok s" "R_EIP (calm s) = R_EIP s" "ldt (calm s) = ldt s" "tr (calm s) = tr s" "crx (calm s) = crx s"
  "drx (calm s) = drx s" "gdt_base (calm s) = gdt_base s" "gdt_limit (calm s) = gdt_limit s" "idt_base (calm s) = idt_base s"
  "idt_limit (calm s) = idt_limit s" "msr (calm s) = msr s" "msr_perm (calm s) = msr_perm s" "default_seg (calm s) = default_seg s"
  "saved_eip (calm s) = saved_eip s" "saved_cs (calm s) = saved_cs s" "instr_buf (calm s) = instr_buf s"
  "intr_stats (calm s) = intr_stats s" "debug_start (calm s) = debug_start s" "debug_len (calm s) = debug_len s"
  "disasm_len (calm s) = disasm_len s" "log_trace (calm s) = log_trace s" "max_instr (calm s) = max_instr s"
  by (simp_all add: calm_def cpu_sel)

lemma calm_memio [simp]: "calm (snd (snd (vm_memio dev a v t s))) = calm s"
  by (simp add: calm_def)

lemma calm_intr [simp]: "calm (x86emu_intr_raise nr t e s) = calm s"
  by (simp add: calm_def cpu_def x86emu_intr_raise_def)

lemma calm_check [simp]: "calm (check_data_access i ofs n s) = calm s"
  by (simp add: check_data_access_def INTR_RAISE_GP_def)

lemma calm_fetch [simp]:
  "calm (snd (fetch_data_byte_abs dev i ofs s)) = calm s" "calm (snd (fetch_data_word_abs dev i ofs s)) = calm s"
  "calm (snd (fetch_data_long_abs dev i ofs s)) = calm s" "calm (snd (fetch_data_byte dev ofs s)) = calm s"
  "calm (snd (fetch_data_word dev ofs s)) = calm s" "calm (snd (fetch_data_long dev ofs s)) = calm s"
  by (simp_all add: fetch_data_byte_abs_def fetch_data_word_abs_def fetch_data_long_abs_def fetch_data_byte_def
      fetch_data_word_def fetch_data_long_def decode_memio_def split_beta Let_def)

lemma calm_store [simp]:
  "calm (store_data_byte_abs dev i ofs x s) = calm s" "calm (store_data_word_abs dev i ofs w s) = calm s"
  "calm (store_data_long_abs dev i ofs l s) = calm s" "calm (store_data_byte dev ofs x s) = calm s"
  "calm (store_data_word dev ofs w s) = calm s" "calm (store_data_long dev ofs l s) = calm s"
  by (simp_all add: store_data_byte_abs_def store_data_word_abs_def store_data_long_abs_def store_data_byte_def
      store_data_word_def store_data_long_def decode_memio_def Let_def)

lemmas fetch_sel [simp] =
  calm_sel [of "snd (fetch_data_byte_abs dev i ofs s)", unfolded calm_fetch calm_sel, symmetric]
  calm_sel [of "snd (fetch_data_word_abs dev i ofs s)", unfolded calm_fetch calm_sel, symmetric]
  calm_sel [of "snd (fetch_data_long_abs dev i ofs s)", unfolded calm_fetch calm_sel, symmetric]
  calm_sel [of "snd (fetch_data_byte dev ofs s)", unfolded calm_fetch calm_sel, symmetric]
  calm_sel [of "snd (fetch_data_word dev ofs s)", unfolded calm_fetch calm_sel, symmetric]
  calm_sel [of "snd (fetch_data_long dev ofs s)", unfolded calm_fetch calm_sel, symmetric] for dev i ofs s

lemmas store_sel [simp] =
  calm_sel [of "store_data_byte_abs dev i ofs x s", unfolded calm_store calm_sel, symmetric]
  calm_sel [of "store_data_word_abs dev i ofs w s", unfolded calm_store calm_sel, symmetric]
  calm_sel [of "store_data_long_abs dev i ofs l s", unfolded calm_store calm_sel, symmetric]
  calm_sel [of "store_data_byte dev ofs x s", unfolded calm_store calm_sel, symmetric]
  calm_sel [of "store_data_word dev ofs w s", unfolded calm_store calm_sel, symmetric]
  calm_sel [of "store_data_long dev ofs l s", unfolded calm_store calm_sel, symmetric] for dev i ofs s x w l

end
