(* ===== verification/X86emu_Decode.thy ===== *)
theory X86emu_Decode
  imports X86emu_Cpu
begin

text \<open>
  The instruction decoder of the emulator (\<open>libx86emu/decode.c\<close>): the registers and addresses that the mod/rm and SIB
  bytes name, the segment descriptors, and the delivery of interrupts. A pointer to a register is
  modelled by the number of the register, with one function that reads through it and one that writes.
\<close>

section \<open>Registers\<close>

definition decode_rm_long_register :: "nat \<Rightarrow> 'a x86emu_regs_scheme \<Rightarrow> u32" where
  "decode_rm_long_register reg s = [R_EAX s, R_ECX s, R_EDX s, R_EBX s, R_ESP s, R_EBP s, R_ESI s, R_EDI s] ! reg"

definition set_rm_long_register :: "nat \<Rightarrow> u32 \<Rightarrow> 'a x86emu_regs_scheme \<Rightarrow> 'a x86emu_regs_scheme" where
  "set_rm_long_register reg v s =
     (if reg = 0 then s\<lparr>R_EAX := v\<rparr> else if reg = 1 then s\<lparr>R_ECX := v\<rparr>
      else if reg = 2 then s\<lparr>R_EDX := v\<rparr> else if reg = 3 then s\<lparr>R_EBX := v\<rparr>
      else if reg = 4 then s\<lparr>R_ESP := v\<rparr> else if reg = 5 then s\<lparr>R_EBP := v\<rparr>
      else if reg = 6 then s\<lparr>R_ESI := v\<rparr> else s\<lparr>R_EDI := v\<rparr>)"

definition decode_rm_word_register :: "nat \<Rightarrow> 'a x86emu_regs_scheme \<Rightarrow> u16" where
  "decode_rm_word_register reg s = x_reg (decode_rm_long_register reg s)"

definition set_rm_word_register :: "nat \<Rightarrow> u16 \<Rightarrow> 'a x86emu_regs_scheme \<Rightarrow> 'a x86emu_regs_scheme" where
  "set_rm_word_register reg v s = set_rm_long_register reg (with_x_reg v (decode_rm_long_register reg s)) s"

text \<open>\<open>al\<close>, \<open>cl\<close>, \<open>dl\<close>, \<open>bl\<close> and then \<open>ah\<close>, \<open>ch\<close>, \<open>dh\<close>, \<open>bh\<close>.\<close>

definition decode_rm_byte_register :: "nat \<Rightarrow> 'a x86emu_regs_scheme \<Rightarrow> u8" where
  "decode_rm_byte_register reg s =
     (if reg < 4 then l_reg (decode_rm_long_register reg s) else h_reg (decode_rm_long_register (reg - 4) s))"

definition set_rm_byte_register :: "nat \<Rightarrow> u8 \<Rightarrow> 'a x86emu_regs_scheme \<Rightarrow> 'a x86emu_regs_scheme" where
  "set_rm_byte_register reg v s =
     (if reg < 4 then set_rm_long_register reg (with_l_reg v (decode_rm_long_register reg s)) s
      else set_rm_long_register (reg - 4) (with_h_reg v (decode_rm_long_register (reg - 4) s)) s)"

definition decode_rm_seg_register :: "nat \<Rightarrow> x86emu \<Rightarrow> nat \<times> x86emu" where
  "decode_rm_seg_register reg s = (if reg < 6 then (reg, s) else (6, INTR_RAISE_UD s))"

section \<open>Addresses\<close>

definition seg_ds_ss :: "x86emu \<Rightarrow> x86emu" where
  "seg_ds_ss s = s\<lparr>mode := mode s OR MODE_SEG_DS_SS\<rparr>"

definition decode_sib_address :: "device \<Rightarrow> u8 \<Rightarrow> nat \<Rightarrow> x86emu \<Rightarrow> u32 \<times> x86emu" where
  "decode_sib_address dev sib md s =
     (let b = unat (sib AND 0x07);
          (bs, s) =
            (if b = 4 then (R_ESP s, seg_ds_ss s)
             else if b = 5 then (if md = 0 then fetch_long dev s else (R_EBP s, seg_ds_ss s))
             else (decode_rm_long_register b s, s));
          x = unat (drop_bit 3 sib AND 0x07);
          i = (if x = 4 then 0 else decode_rm_long_register x s);
          scale = unat (drop_bit 6 sib AND 0x03)
      in (bs + push_bit scale i, s))"

text \<open>The base of a 16-bit address, before the displacement: \<open>bx+si\<close>, \<open>bx+di\<close>, \<open>bp+si\<close>, \<open>bp+di\<close>, \<open>si\<close>, \<open>di\<close>, \<open>bp\<close>, \<open>bx\<close>.\<close>

definition base_16 :: "nat \<Rightarrow> x86emu \<Rightarrow> u32" where
  "base_16 rm s =
     (let bx = ucast (x_reg (R_EBX s)); bp = ucast (x_reg (R_EBP s)); si = ucast (x_reg (R_ESI s)); di = ucast (x_reg (R_EDI s))
      in [bx + si, bx + di, bp + si, bp + di, si, di, bp, bx] ! rm)"

definition decode_rm00_address :: "device \<Rightarrow> nat \<Rightarrow> x86emu \<Rightarrow> u32 \<times> x86emu" where
  "decode_rm00_address dev rm s =
     (if MODE_ADDR32 s then
        if rm = 4 then let (sib, s) = fetch_byte dev s in decode_sib_address dev sib 0 s
        else if rm = 5 then fetch_long dev s
        else (decode_rm_long_register rm s, s)
      else
        if rm = 2 \<or> rm = 3 then (base_16 rm s AND 0xffff, seg_ds_ss s)
        else if rm = 6 then let (offset, s) = fetch_word dev s in (ucast offset, s)
        else (base_16 rm s AND 0xffff, s))"

definition decode_rm01_address :: "device \<Rightarrow> nat \<Rightarrow> x86emu \<Rightarrow> u32 \<times> x86emu" where
  "decode_rm01_address dev rm s =
     (let (displacement, s) =
            (if \<not> (MODE_ADDR32 s \<and> rm = 4) then let (d, s) = fetch_byte dev s in (scast d :: u32, s) else (0, s))
      in if MODE_ADDR32 s then
           if rm = 4 then
             let (sib, s) = fetch_byte dev s; (bs, s) = decode_sib_address dev sib 1 s; (d, s) = fetch_byte dev s
             in (bs + scast d, s)
           else (decode_rm_long_register rm s + displacement, s)
         else
           ((base_16 rm s + displacement) AND 0xffff, if rm = 2 \<or> rm = 3 \<or> rm = 6 then seg_ds_ss s else s))"

definition decode_rm10_address :: "device \<Rightarrow> nat \<Rightarrow> x86emu \<Rightarrow> u32 \<times> x86emu" where
  "decode_rm10_address dev rm s =
     (let (displacement, s) =
            (if \<not> MODE_ADDR32 s then let (d, s) = fetch_word dev s in (scast d :: u32, s)
             else if rm \<noteq> 4 then fetch_long dev s else (0, s))
      in if MODE_ADDR32 s then
           if rm = 4 then
             let (sib, s) = fetch_byte dev s; (bs, s) = decode_sib_address dev sib 2 s; (d, s) = fetch_long dev s
             in (bs + d, s)
           else if rm = 5 then (R_EBP s + displacement, seg_ds_ss s)
           else (decode_rm_long_register rm s + displacement, s)
         else
           ((base_16 rm s + displacement) AND 0xffff, if rm = 2 \<or> rm = 3 \<or> rm = 6 then seg_ds_ss s else s))"

definition decode_rm_address :: "device \<Rightarrow> nat \<Rightarrow> nat \<Rightarrow> x86emu \<Rightarrow> u32 \<times> x86emu" where
  "decode_rm_address dev md rl s =
     (if md = 0 then decode_rm00_address dev rl s
      else if md = 1 then decode_rm01_address dev rl s
      else if md = 2 then decode_rm10_address dev rl s
      else (0, INTR_RAISE_UD s))"

section \<open>Descriptors\<close>

text \<open>
  In C \<open>base\<close> and \<open>offset\<close> share their storage, as do \<open>limit\<close> and the pair of \<open>sel\<close> (its lower half) and \<open>w_count\<close>; so they do
  here.
\<close>

record descr_t =
  d_base_offset :: u32
  d_limit_sel :: u32
  d_acc :: u16
  d_invalid :: bool
  d_seg :: bool
  d_dpl :: u16
  d_r :: bool
  d_w :: bool
  d_x :: bool
  d_c :: bool
  d_a :: bool
  d_p :: bool
  d_g :: bool
  d_ed :: bool
  d_ldt :: bool
  d_c_gate :: bool
  d_i_gate :: bool
  d_t_gate :: bool
  d_tss :: bool
  d_busy :: bool
  d_trap :: bool
  d_is_i386 :: bool

definition d_base :: "descr_t \<Rightarrow> u32" where "d_base d = d_base_offset d"
definition d_offset :: "descr_t \<Rightarrow> u32" where "d_offset d = d_base_offset d"
definition d_limit :: "descr_t \<Rightarrow> u32" where "d_limit d = d_limit_sel d"
definition d_sel :: "descr_t \<Rightarrow> u16" where "d_sel d = ucast (d_limit_sel d)"

definition ACC_G :: "u16 \<Rightarrow> bool" where "ACC_G a \<longleftrightarrow> drop_bit 11 a AND 1 \<noteq> 0"
definition ACC_D :: "u16 \<Rightarrow> bool" where "ACC_D a \<longleftrightarrow> drop_bit 10 a AND 1 \<noteq> 0"
definition ACC_P :: "u16 \<Rightarrow> bool" where "ACC_P a \<longleftrightarrow> drop_bit 7 a AND 1 \<noteq> 0"
definition ACC_DPL :: "u16 \<Rightarrow> u16" where "ACC_DPL a = drop_bit 5 a AND 3"
definition ACC_S :: "u16 \<Rightarrow> bool" where "ACC_S a \<longleftrightarrow> drop_bit 4 a AND 1 \<noteq> 0"
definition ACC_E :: "u16 \<Rightarrow> bool" where "ACC_E a \<longleftrightarrow> drop_bit 3 a AND 1 \<noteq> 0"
definition ACC_ED :: "u16 \<Rightarrow> bool" where "ACC_ED a \<longleftrightarrow> drop_bit 2 a AND 1 \<noteq> 0"
definition ACC_C :: "u16 \<Rightarrow> bool" where "ACC_C a \<longleftrightarrow> drop_bit 2 a AND 1 \<noteq> 0"
definition ACC_W :: "u16 \<Rightarrow> bool" where "ACC_W a \<longleftrightarrow> drop_bit 1 a AND 1 \<noteq> 0"
definition ACC_R :: "u16 \<Rightarrow> bool" where "ACC_R a \<longleftrightarrow> drop_bit 1 a AND 1 \<noteq> 0"
definition ACC_A :: "u16 \<Rightarrow> bool" where "ACC_A a \<longleftrightarrow> a AND 1 \<noteq> 0"

definition empty_descriptor :: descr_t where
  "empty_descriptor =
     \<lparr>d_base_offset = 0, d_limit_sel = 0, d_acc = 0, d_invalid = False, d_seg = False, d_dpl = 0, d_r = False,
      d_w = False, d_x = False, d_c = False, d_a = False, d_p = False, d_g = False, d_ed = False, d_ldt = False,
      d_c_gate = False, d_i_gate = False, d_t_gate = False, d_tss = False, d_busy = False, d_trap = False,
      d_is_i386 = False\<rparr>"

text \<open>The descriptors of system segments: cases 3 and 7 of the \<open>switch\<close> fall through to 1 and 6.\<close>

definition decode_system_descriptor :: "u16 \<Rightarrow> u32 \<Rightarrow> u32 \<Rightarrow> descr_t \<Rightarrow> descr_t" where
  "decode_system_descriptor acc dl dh d =
     (let d = (if acc AND 8 \<noteq> 0 then d\<lparr>d_is_i386 := True\<rparr> else d);
          t = acc AND 7;
          d = (if t = 0 then d\<lparr>d_invalid := True\<rparr>
               else if t = 3 then d\<lparr>d_busy := True, d_tss := True\<rparr>
               else if t = 1 then d\<lparr>d_tss := True\<rparr>
               else if t = 2 then d\<lparr>d_ldt := True\<rparr>
               else if t = 4 then d\<lparr>d_c_gate := True\<rparr>
               else if t = 5 then d\<lparr>d_t_gate := True\<rparr>
               else if t = 7 then d\<lparr>d_trap := True, d_i_gate := True\<rparr>
               else d\<lparr>d_i_gate := True\<rparr>)
      in if d_c_gate d \<or> d_i_gate d \<or> d_t_gate d then
           d\<lparr>d_base_offset := (dl AND 0xffff) + (dh AND 0xffff0000),
             d_limit_sel := push_bit 16 (dh AND 0x1f) OR drop_bit 16 dl\<rparr>
         else d)"

definition decode_descriptor :: "u32 \<Rightarrow> u32 \<Rightarrow> descr_t" where
  "decode_descriptor dl dh =
     (let acc = ucast ((drop_bit 8 dh AND 0xff) + (drop_bit 12 dh AND 0xf00)) :: u16;
          limit = (dl AND 0xffff) + (dh AND 0xf0000);
          d = empty_descriptor\<lparr>
            d_acc := acc,
            d_base_offset := (drop_bit 16 dl AND 0xffff) + push_bit 16 (dh AND 0xff) + (dh AND 0xff000000),
            d_limit_sel := (if ACC_G acc then push_bit 12 limit + 0xfff else limit),
            d_g := ACC_G acc, d_p := ACC_P acc, d_dpl := ACC_DPL acc\<rparr>
      in if ACC_S acc then
           let d = d\<lparr>d_seg := True, d_is_i386 := ACC_D acc, d_a := ACC_A acc\<rparr>
           in if ACC_E acc then d\<lparr>d_x := True, d_c := ACC_C acc, d_r := ACC_R acc\<rparr>
              else d\<lparr>d_r := True, d_ed := ACC_ED acc, d_w := ACC_W acc\<rparr>
         else decode_system_descriptor acc dl dh d)"

text \<open>
  \<open>x86emu_set_seg_register\<close> takes a pointer to a segment register; \<open>set_sel\<close> takes what reads through it and what
  writes through it, so that it serves the array and the \<open>ldt\<close>. \<open>emu_memio\<close> is \<open>decode_memio\<close> for any emulator. C leaves the order
  of the two accesses open; the lower half is read first here.
\<close>

definition emu_memio :: "device \<Rightarrow> u32 \<Rightarrow> u32 \<Rightarrow> u32 \<Rightarrow> x86emu \<Rightarrow> bool \<times> u32 \<times> x86emu" where
  "emu_memio = vm_memio"

definition set_sel :: "device \<Rightarrow> (x86emu \<Rightarrow> sel_t) \<Rightarrow> (sel_t \<Rightarrow> x86emu \<Rightarrow> x86emu) \<Rightarrow> u16 \<Rightarrow> x86emu \<Rightarrow> x86emu" where
  "set_sel dev rd wr val s =
     (if MODE_REAL s then wr ((rd s)\<lparr>sel_sel := val, sel_base := push_bit 4 (ucast val)\<rparr>) s
      else
        let ofs = ucast val AND NOT 7 :: u32;
            (dt_base, dt_limit) =
              (if val AND 4 \<noteq> 0 then (sel_base (ldt s), sel_limit (ldt s)) else (gdt_base s, gdt_limit s))
        in if ofs = 0 then wr \<lparr>sel_base = 0, sel_limit = 0, sel_sel = 0, sel_acc = 0\<rparr> s
           else if ofs + 7 \<le> dt_limit then
             let (err1, dl, s) = emu_memio dev (dt_base + ofs) 0 (X86EMU_MEMIO_32 OR X86EMU_MEMIO_R) s;
                 (err2, dh, s) = emu_memio dev (dt_base + ofs + 4) 0 (X86EMU_MEMIO_32 OR X86EMU_MEMIO_R) s;
                 d = decode_descriptor dl dh
             in if \<not> (err1 \<or> err2) \<and> \<not> d_invalid d \<and> d_p d \<and> d_seg d
                then wr \<lparr>sel_base = d_base d, sel_limit = d_limit d, sel_sel = val, sel_acc = d_acc d\<rparr> s
                else INTR_RAISE_GP (ucast val) s
           else INTR_RAISE_GP (ucast val) s)"

definition x86emu_set_seg_register :: "device \<Rightarrow> nat \<Rightarrow> u16 \<Rightarrow> x86emu \<Rightarrow> x86emu" where
  "x86emu_set_seg_register dev i = set_sel dev (\<lambda>s. seg s i) (\<lambda>x s. s\<lparr>seg := (seg s)(i := x)\<rparr>)"

section \<open>Interrupts\<close>

text \<open>\<open>idt_lookup\<close> overwrites \<open>new_cs\<close> and \<open>new_eip\<close>; in protected mode it leaves them when there is no interrupt gate.\<close>

definition idt_lookup :: "device \<Rightarrow> u8 \<Rightarrow> u32 \<Rightarrow> u32 \<Rightarrow> x86emu \<Rightarrow> (u32 \<times> u32) \<times> x86emu" where
  "idt_lookup dev nr new_cs new_eip s =
     (if MODE_REAL s then
        let ofs = push_bit 2 (ucast nr) :: u32;
            (err1, new_eip, s) = decode_memio dev (idt_base s + ofs) new_eip (X86EMU_MEMIO_16 OR X86EMU_MEMIO_R) s;
            (err2, new_cs, s) = decode_memio dev (idt_base s + ofs + 2) new_cs (X86EMU_MEMIO_16 OR X86EMU_MEMIO_R) s
        in ((new_cs, new_eip), s)
      else
        let ofs = push_bit 3 (ucast nr) :: u32
        in if ofs + 7 \<le> idt_limit s then
             let (err1, dl, s) = decode_memio dev (idt_base s + ofs) 0 (X86EMU_MEMIO_32 OR X86EMU_MEMIO_R) s;
                 (err2, dh, s) = decode_memio dev (idt_base s + ofs + 4) 0 (X86EMU_MEMIO_32 OR X86EMU_MEMIO_R) s;
                 d1 = decode_descriptor dl dh
             in if \<not> (err1 \<or> err2) \<and> \<not> d_invalid d1 \<and> d_p d1 \<and> d_i_gate d1
                then ((ucast (d_sel d1), d_offset d1), s) else ((new_cs, new_eip), s)
           else ((new_cs, new_eip), s))"

definition F_TF :: u32 where "F_TF = 0x0100"
definition F_IF :: u32 where "F_IF = 0x0200"

text \<open>The handler \<open>M.intr\<close>, if there is one: a result other than 0 means that it has dealt with the interrupt.\<close>

type_synonym intr_handler = "(x86emu \<Rightarrow> u8 \<Rightarrow> u32 \<Rightarrow> int \<times> x86emu) option"

definition generate_int :: "device \<Rightarrow> intr_handler \<Rightarrow> u8 \<Rightarrow> u32 \<Rightarrow> u32 \<Rightarrow> x86emu \<Rightarrow> x86emu" where
  "generate_int dev intr nr type errcode s =
     (let s = s\<lparr>intr_stats := (intr_stats s)(nr := intr_stats s nr + 1)\<rparr>;
          (i, s) = (case intr of Some h \<Rightarrow> h s nr type | None \<Rightarrow> (0, s))
      in if i = 0 then
           let (eip, cs) = (if type AND INTR_MODE_RESTART \<noteq> 0 then (saved_eip s, ucast (saved_cs s))
                            else (R_EIP s, ucast (sel_sel (seg s R_CS_INDEX)))) :: u32 \<times> u32;
               ((new_cs, new_eip), s) = idt_lookup dev nr cs eip s;
               s = (if MODE_PROTECTED s \<and> MODE_CODE32 s
                    then push_long dev eip (push_long dev cs (push_long dev (R_FLG s) s))
                    else push_word dev (ucast eip) (push_word dev (ucast cs) (push_word dev (ucast (R_FLG s)) s)));
               s = (if type AND INTR_MODE_ERRCODE \<noteq> 0 then push_long dev errcode s else s);
               s = s\<lparr>R_FLG := CLEAR_FLAG F_TF (CLEAR_FLAG F_IF (R_FLG s))\<rparr>;
               s = x86emu_set_seg_register dev R_CS_INDEX (ucast new_cs) s
           in s\<lparr>R_EIP := new_eip\<rparr>
         else s)"

definition handle_interrupt :: "device \<Rightarrow> intr_handler \<Rightarrow> x86emu \<Rightarrow> x86emu" where
  "handle_interrupt dev intr s =
     (let s = (if intr_type s \<noteq> 0 then generate_int dev intr (intr_nr s) (intr_type s) (intr_errcode s) s else s)
      in s\<lparr>intr_type := 0\<rparr>)"

end
