(* ===== verification/X86emu_Muldiv.thy ===== *)
theory X86emu_Muldiv
  imports X86emu_Regs "HOL-Library.Signed_Division"
begin

text \<open>
  Multiplication and division of the emulator (\<open>libx86emu/prim_ops.c\<close>). \<open>__HAS_LONG_LONG__\<close> is defined nowhere,
  so that the 32-bit forms are the \<open>#else\<close> branches: products from 16-bit halves, quotients by shifting and subtracting.
\<close>

section \<open>Multiplication\<close>

text \<open>The carry and overflow flags are both cleared when the condition holds, else both set.\<close>

definition mul_flags :: "bool \<Rightarrow> 'a x86emu_regs_scheme \<Rightarrow> 'a x86emu_regs_scheme" where
  "mul_flags fits r =
     (if fits then r\<lparr>R_FLG := CLEAR_FLAG F_OF (CLEAR_FLAG F_CF (R_FLG r))\<rparr>
      else r\<lparr>R_FLG := SET_FLAG F_OF (SET_FLAG F_CF (R_FLG r))\<rparr>)"

definition imul_byte :: "u8 \<Rightarrow> 'a x86emu_regs_scheme \<Rightarrow> 'a x86emu_regs_scheme" where
  "imul_byte s r =
     (let res = word_of_int (sint (l_reg (R_EAX r)) * sint s) :: u16;
          r = r\<lparr>R_EAX := with_x_reg res (R_EAX r)\<rparr>;
          al = l_reg (R_EAX r); ah = h_reg (R_EAX r)
      in mul_flags ((al AND 0x80 = 0 \<and> ah = 0x00) \<or> (al AND 0x80 \<noteq> 0 \<and> ah = 0xFF)) r)"

definition imul_word :: "u16 \<Rightarrow> 'a x86emu_regs_scheme \<Rightarrow> 'a x86emu_regs_scheme" where
  "imul_word s r =
     (let res = word_of_int (sint (x_reg (R_EAX r)) * sint s) :: u32;
          r = r\<lparr>R_EAX := with_x_reg (ucast res) (R_EAX r)\<rparr>;
          r = r\<lparr>R_EDX := with_x_reg (ucast (signed_drop_bit 16 res)) (R_EDX r)\<rparr>;
          ax = x_reg (R_EAX r); dx = x_reg (R_EDX r)
      in mul_flags ((ax AND 0x8000 = 0 \<and> dx = 0x00) \<or> (ax AND 0x8000 \<noteq> 0 \<and> dx = 0xFF)) r)"

text \<open>\<open>imul_long_direct\<close> returns the pair \<open>(res_lo, res_hi)\<close>.\<close>

definition imul_long_direct :: "u32 \<Rightarrow> u32 \<Rightarrow> u32 \<times> u32" where
  "imul_long_direct d s =
     (let d_sign = d AND 0x80000000;
          d = (if d_sign \<noteq> 0 then - d else d);
          d_lo = d AND 0xFFFF;
          d_hi = drop_bit 16 d;
          s_sign = s AND 0x80000000;
          s = (if s_sign \<noteq> 0 then - s else s);
          s_lo = s AND 0xFFFF;
          s_hi = drop_bit 16 s;
          rlo_lo = d_lo * s_lo;
          rlo_hi = (d_hi * s_lo + d_lo * s_hi) + drop_bit 16 rlo_lo;
          rhi_lo = d_hi * s_hi + drop_bit 16 rlo_hi;
          res_lo = push_bit 16 rlo_hi OR (rlo_lo AND 0xFFFF);
          res_hi = rhi_lo
      in if d_sign \<noteq> s_sign then
           let d = NOT res_lo;
               s = drop_bit 16 ((d AND 0xFFFF) + 1) + drop_bit 16 d
           in (NOT res_lo + 1, NOT res_hi + drop_bit 16 s)
         else (res_lo, res_hi))"

definition imul_long :: "u32 \<Rightarrow> 'a x86emu_regs_scheme \<Rightarrow> 'a x86emu_regs_scheme" where
  "imul_long s r =
     (let (res_lo, res_hi) = imul_long_direct (R_EAX r) s;
          r = r\<lparr>R_EAX := res_lo, R_EDX := res_hi\<rparr>
      in mul_flags ((R_EAX r AND 0x80000000 = 0 \<and> R_EDX r = 0x00) \<or> (R_EAX r AND 0x80000000 \<noteq> 0 \<and> R_EDX r = 0xFF)) r)"

definition mul_byte :: "u8 \<Rightarrow> 'a x86emu_regs_scheme \<Rightarrow> 'a x86emu_regs_scheme" where
  "mul_byte s r =
     (let res = ucast (ucast (l_reg (R_EAX r)) * ucast s :: u32) :: u16;
          r = r\<lparr>R_EAX := with_x_reg res (R_EAX r)\<rparr>
      in mul_flags (h_reg (R_EAX r) = 0) r)"

definition mul_word :: "u16 \<Rightarrow> 'a x86emu_regs_scheme \<Rightarrow> 'a x86emu_regs_scheme" where
  "mul_word s r =
     (let res = ucast (x_reg (R_EAX r)) * ucast s :: u32;
          r = r\<lparr>R_EAX := with_x_reg (ucast res) (R_EAX r)\<rparr>;
          r = r\<lparr>R_EDX := with_x_reg (ucast (drop_bit 16 res)) (R_EDX r)\<rparr>
      in mul_flags (x_reg (R_EDX r) = 0) r)"

definition mul_long :: "u32 \<Rightarrow> 'a x86emu_regs_scheme \<Rightarrow> 'a x86emu_regs_scheme" where
  "mul_long s r =
     (let a = R_EAX r;
          a_lo = a AND 0xFFFF;
          a_hi = drop_bit 16 a;
          s_lo = s AND 0xFFFF;
          s_hi = drop_bit 16 s;
          rlo_lo = a_lo * s_lo;
          rlo_hi = (a_hi * s_lo + a_lo * s_hi) + drop_bit 16 rlo_lo;
          rhi_lo = a_hi * s_hi + drop_bit 16 rlo_hi;
          r = r\<lparr>R_EAX := push_bit 16 rlo_hi OR (rlo_lo AND 0xFFFF)\<rparr>;
          r = r\<lparr>R_EDX := rhi_lo\<rparr>
      in mul_flags (R_EDX r = 0) r)"

section \<open>Division\<close>

text \<open>
  C's \<open>abs\<close> of a value that is converted to \<open>int\<close>: the absolute value of the most negative number
  wraps around to itself. \<open>None\<close> below is the fault of the host processor on the
  one signed division that overflows.
\<close>

definition c_abs :: "u32 \<Rightarrow> int" where
  "c_abs x = sint (if sint x < 0 then - x else x)"

definition idiv_byte :: "u8 \<Rightarrow> 'a x86emu_regs_scheme \<Rightarrow> 'a x86emu_regs_scheme" where
  "idiv_byte s r =
     (let dividend = sint (x_reg (R_EAX r))
      in if s = 0 then INTR_RAISE_DIV0 r
         else
           let dv = word_of_int (dividend sdiv sint s) :: u32;
               md = word_of_int (dividend smod sint s) :: u32
           in if c_abs dv > 0x7f then INTR_RAISE_DIV0 r
              else r\<lparr>R_EAX := with_h_reg (ucast md) (with_l_reg (ucast dv) (R_EAX r))\<rparr>)"

definition idiv_word :: "u16 \<Rightarrow> 'a x86emu_regs_scheme \<Rightarrow> 'a x86emu_regs_scheme option" where
  "idiv_word s r =
     (let dividend = sint (push_bit 16 (ucast (x_reg (R_EDX r))) OR ucast (x_reg (R_EAX r)) :: u32)
      in if s = 0 then Some (INTR_RAISE_DIV0 r)
         else if dividend = - (2 ^ 31) \<and> sint s = - 1 then None
         else
           let dv = word_of_int (dividend sdiv sint s) :: u32;
               md = word_of_int (dividend smod sint s) :: u32
           in if c_abs dv > 0x7fff then Some (INTR_RAISE_DIV0 r)
              else
                let f = CLEAR_FLAG F_CF (R_FLG r);
                    f = CLEAR_FLAG F_SF f;
                    f = CONDITIONAL_SET_FLAG (dv = 0) F_ZF f;
                    f = CONDITIONAL_SET_FLAG (PARITY (md AND 0xff)) F_PF f
                in Some (r\<lparr>R_FLG := f, R_EAX := with_x_reg (ucast dv) (R_EAX r), R_EDX := with_x_reg (ucast md) (R_EDX r)\<rparr>))"

definition div_byte :: "u8 \<Rightarrow> 'a x86emu_regs_scheme \<Rightarrow> 'a x86emu_regs_scheme" where
  "div_byte s r =
     (let dividend = ucast (x_reg (R_EAX r)) :: u32
      in if s = 0 then INTR_RAISE_DIV0 r
         else
           let dv = dividend div ucast s;
               md = dividend mod ucast s
           in if c_abs dv > 0xff then INTR_RAISE_DIV0 r
              else r\<lparr>R_EAX := with_h_reg (ucast md) (with_l_reg (ucast dv) (R_EAX r))\<rparr>)"

definition div_word :: "u16 \<Rightarrow> 'a x86emu_regs_scheme \<Rightarrow> 'a x86emu_regs_scheme" where
  "div_word s r =
     (let dividend = push_bit 16 (ucast (x_reg (R_EDX r))) OR ucast (x_reg (R_EAX r)) :: u32
      in if s = 0 then INTR_RAISE_DIV0 r
         else
           let dv = dividend div ucast s;
               md = dividend mod ucast s
           in if c_abs dv > 0xffff then INTR_RAISE_DIV0 r
              else
                let f = CLEAR_FLAG F_CF (R_FLG r);
                    f = CLEAR_FLAG F_SF f;
                    f = CONDITIONAL_SET_FLAG (dv = 0) F_ZF f;
                    f = CONDITIONAL_SET_FLAG (PARITY (md AND 0xff)) F_PF f
                in r\<lparr>R_FLG := f, R_EAX := with_x_reg (ucast dv) (R_EAX r), R_EDX := with_x_reg (ucast md) (R_EDX r)\<rparr>)"

text \<open>
  The 64-bit division by shifting and subtracting. The loop of both \<open>div_long\<close> and \<open>idiv_long\<close>: one round for each
  value of \<open>counter\<close> down to 0, returning \<open>(div, h_dvd, l_dvd)\<close>. All comparisons are unsigned. The value of \<open>l_s\<close>
  after the last round, a shift by \<open>-1\<close> in C, is not used.
\<close>

fun divide_loop :: "u32 \<Rightarrow> nat \<Rightarrow> u32 \<Rightarrow> u32 \<Rightarrow> u32 \<Rightarrow> u32 \<Rightarrow> u32 \<Rightarrow> u32 \<times> u32 \<times> u32" where
  "divide_loop s counter dv h_dvd l_dvd h_s l_s =
     (let dv = push_bit 1 dv;
          carry = (if l_dvd \<ge> l_s then 0 else 1);
          (dv, h_dvd, l_dvd) =
            (if h_dvd < h_s + carry then (dv, h_dvd, l_dvd)
             else (dv OR 1, h_dvd - (h_s + carry),
                   if carry \<noteq> 0 then (0xFFFFFFFF - l_s) + l_dvd + 1 else l_dvd - l_s))
      in case counter of
           0 \<Rightarrow> (dv, h_dvd, l_dvd)
         | Suc c \<Rightarrow> divide_loop s c dv h_dvd l_dvd (drop_bit 1 h_s) (push_bit c s))"

declare divide_loop.simps [simp del]

definition long_division_flags :: "u32 \<Rightarrow> flags \<Rightarrow> flags" where
  "long_division_flags md f =
     (let f = CLEAR_FLAG F_CF f;
          f = CLEAR_FLAG F_AF f;
          f = CLEAR_FLAG F_SF f;
          f = SET_FLAG F_ZF f
      in CONDITIONAL_SET_FLAG (PARITY (md AND 0xff)) F_PF f)"

definition div_long :: "u32 \<Rightarrow> 'a x86emu_regs_scheme \<Rightarrow> 'a x86emu_regs_scheme" where
  "div_long s r =
     (if s = 0 then INTR_RAISE_DIV0 r
      else
        let (dv, h_dvd, l_dvd) = divide_loop s 32 0 (R_EDX r) (R_EAX r) s 0
        in if h_dvd \<noteq> 0 \<or> l_dvd > s then INTR_RAISE_DIV0 r
           else r\<lparr>R_FLG := long_division_flags l_dvd (R_FLG r), R_EAX := dv, R_EDX := l_dvd\<rparr>)"

definition idiv_long :: "u32 \<Rightarrow> 'a x86emu_regs_scheme \<Rightarrow> 'a x86emu_regs_scheme" where
  "idiv_long s r =
     (let h_dvd = R_EDX r;
          abs_s = s AND 0x7FFFFFFF;
          abs_h_dvd = h_dvd AND 0x7FFFFFFF
      in if s = 0 then INTR_RAISE_DIV0 r
         else
           let (dv, abs_h_dvd, l_dvd) = divide_loop abs_s 31 0 abs_h_dvd (R_EAX r) (drop_bit 1 abs_s) (push_bit 31 abs_s)
           in if abs_h_dvd \<noteq> 0 \<or> l_dvd > abs_s then INTR_RAISE_DIV0 r
              else
                let dv = dv OR ((h_dvd AND 0x10000000) XOR (s AND 0x10000000))
                in r\<lparr>R_FLG := long_division_flags l_dvd (R_FLG r), R_EAX := dv, R_EDX := l_dvd\<rparr>)"
section \<open>The product from 16-bit halves\<close>

text \<open>
  The sum of the cross products can exceed 32 bits; the carry is lost. Otherwise the result is the 64-bit product.
\<close>

definition cross_sum :: "u32 \<Rightarrow> u32 \<Rightarrow> int" where
  "cross_sum d s = uint d div 2 ^ 16 * (uint s mod 2 ^ 16) + uint d mod 2 ^ 16 * (uint s div 2 ^ 16) +
     uint d mod 2 ^ 16 * (uint s mod 2 ^ 16) div 2 ^ 16"

lemma uint_halves: "uint (d AND 0xFFFF) = uint d mod 2 ^ 16" "uint (drop_bit 16 d) = uint d div 2 ^ 16" for d :: u32
proof -
  show "uint (d AND 0xFFFF) = uint d mod 2 ^ 16"
    by (simp only: test_bit_masks unsigned_take_bit_eq) (simp only: take_bit_eq_mod)
  show "uint (drop_bit 16 d) = uint d div 2 ^ 16"
    unfolding unsigned_drop_bit_eq using uint_lt2p [of d] by (simp add: drop_bit_eq_div take_bit_int_eq_self)
qed

lemma half_range: "0 \<le> uint d mod 2 ^ 16" "uint d mod 2 ^ 16 < 2 ^ 16" "0 \<le> uint d div 2 ^ 16" "uint d div 2 ^ 16 < 2 ^ 16"
  for d :: u32
  using uint_lt2p [of d] by (auto intro: div_int_pos_iff [THEN iffD2])

lemma half_product: "0 \<le> a * b \<and> a * b \<le> 65535 * 65535" if "0 \<le> a" "a < 65536" "0 \<le> b" "b < 65536" for a b :: int
  using that mult_mono [of a 65535 b 65535] by simp

lemma uint_mult_small: "uint x * uint y < 2 ^ 32 \<Longrightarrow> uint (x * y) = uint x * uint y" for x y :: u32
  by (simp add: uint_word_ariths)

lemma uint_join: "uint (push_bit 16 h OR (l AND 0xFFFF)) = uint h mod 2 ^ 16 * 2 ^ 16 + uint l mod 2 ^ 16" for h l :: u32
proof -
  have "push_bit 16 h OR (l AND 0xFFFF) = push_bit 16 h + (l AND 0xFFFF)"
    by (rule disjunctive_add [symmetric]) (auto simp: test_bit_masks bit_simps)
  moreover have "uint (push_bit 16 h) = uint h mod 2 ^ 16 * 2 ^ 16"
    by (simp add: push_bit_eq_mult uint_word_ariths mult_mod_left)
  ultimately show ?thesis
    using half_range [of h] half_range [of l] by (simp add: uint_add_lem [THEN iffD1] uint_halves)
qed

lemma halves_arith:
  fixes dl dh sl sh q c c1 c0 r :: int
  assumes "dl * sl = 65536 * q + r" "dh * sl + dl * sh + q = 65536 * c1 + c0 + v * 2 ^ 32"
  shows "(dh * 65536 + dl) * (sh * 65536 + sl) = (dh * sh + c1) * 2 ^ 32 + (c0 * 65536 + r) + v * 2 ^ 48"
proof -
  have "(dh * 65536 + dl) * (sh * 65536 + sl) = dh * sh * 2 ^ 32 + (dh * sl + dl * sh) * 65536 + dl * sl"
    by (simp add: algebra_simps)
  also have "\<dots> = dh * sh * 2 ^ 32 + (65536 * c1 + c0 + v * 2 ^ 32 - q) * 65536 + (65536 * q + r)"
    using assms by (simp add: algebra_simps)
  finally show ?thesis by (simp add: algebra_simps)
qed

lemma mod_once:
  fixes c n :: int
  assumes "0 \<le> c" "c < 2 * n"
  shows "c mod n = c - of_bool (n \<le> c) * n"
proof (cases "n \<le> c")
  case True
  have "c mod n = (c - n) mod n" by simp
  also have "\<dots> = c - n" using True assms by (intro mod_pos_pos_trivial) simp_all
  finally show ?thesis using True by simp
qed (use assms in simp)

lemma halves_product:
  fixes d s :: u32
  assumes d: "dl = d AND 0xFFFF" "dh = drop_bit 16 d" and s: "sl = s AND 0xFFFF" "sh = drop_bit 16 s"
    and m: "m = (dh * sl + dl * sh) + drop_bit 16 (dl * sl)"
  shows "uint (dh * sh + drop_bit 16 m) * 2 ^ 32 + uint (push_bit 16 m OR (dl * sl AND 0xFFFF)) =
    uint d * uint s - of_bool (2 ^ 32 \<le> cross_sum d s) * 2 ^ 48"
proof -
  let ?c = "cross_sum d s" and ?v = "of_bool (2 ^ 32 \<le> cross_sum d s) :: int"
  have r: "0 \<le> uint dl \<and> uint dl < 65536 \<and> 0 \<le> uint dh \<and> uint dh < 65536"
    "0 \<le> uint sl \<and> uint sl < 65536 \<and> 0 \<le> uint sh \<and> uint sh < 65536"
    using half_range [of d] half_range [of s] by (simp_all add: d s uint_halves)
  have p: "uint dl * uint sl \<le> 65535 * 65535" "uint dh * uint sl \<le> 65535 * 65535" "uint dl * uint sh \<le> 65535 * 65535"
    "uint dh * uint sh \<le> 65535 * 65535" "0 \<le> uint dl * uint sl" "0 \<le> uint dh * uint sl" "0 \<le> uint dl * uint sh" "0 \<le> uint dh * uint sh"
    using r half_product by simp_all
  then have u: "uint (dl * sl) = uint dl * uint sl" "uint (dh * sl) = uint dh * uint sl" "uint (dl * sh) = uint dl * uint sh"
    "uint (dh * sh) = uint dh * uint sh" by (simp_all add: uint_mult_small)
  have c: "?c = uint dh * uint sl + uint dl * uint sh + uint dl * uint sl div 2 ^ 16"
    by (simp only: cross_sum_def d s uint_halves)
  have "0 \<le> uint dl * uint sl div 2 ^ 16" using p(5) by (simp add: pos_imp_zdiv_nonneg_iff)
  then have c_range: "0 \<le> ?c" "?c < 2 * 2 ^ 32" using p unfolding c by simp_all
  have "uint m = ?c mod 2 ^ 32"
    unfolding m c by (simp only: uint_word_ariths(1) u uint_halves) (simp add: mod_simps)
  then have um: "uint m = ?c - ?v * 2 ^ 32" using mod_once [OF c_range] by (rule trans)
  have "uint (dh * sh + drop_bit 16 m) = uint dh * uint sh + uint m div 2 ^ 16"
    using p half_range [of m] by (simp only: uint_word_ariths(1) u uint_halves) simp
  moreover have "uint d = uint dh * 65536 + uint dl" "uint s = uint sh * 65536 + uint sl"
    by (simp_all add: d s uint_halves)
  moreover have "uint dl * uint sl = 65536 * (uint dl * uint sl div 2 ^ 16) + uint dl * uint sl mod 2 ^ 16" by simp
  moreover have "uint m = 65536 * (uint m div 2 ^ 16) + uint m mod 2 ^ 16" by simp
  ultimately show ?thesis
    using halves_arith [of "uint dl" "uint sl" "uint dl * uint sl div 2 ^ 16" "uint dl * uint sl mod 2 ^ 16" "uint dh" "uint sh"
        "uint m div 2 ^ 16" "uint m mod 2 ^ 16" ?v] um c
    by (simp add: uint_join u)
qed

lemma mul_flags_fields [simp]:
  "R_EAX (mul_flags c r) = R_EAX r" "R_EDX (mul_flags c r) = R_EDX r" "intr_type (mul_flags c r) = intr_type r"
  "ACCESS_FLAG F_CF (R_FLG (mul_flags c r)) = (\<not> c)" "ACCESS_FLAG F_OF (R_FLG (mul_flags c r)) = (\<not> c)"
  by (simp_all add: mul_flags_def flag_simps)

lemma mul_long_product:
  "uint (R_EDX (mul_long s r)) * 2 ^ 32 + uint (R_EAX (mul_long s r)) =
     uint (R_EAX r) * uint s - of_bool (2 ^ 32 \<le> cross_sum (R_EAX r) s) * 2 ^ 48"
  unfolding mul_long_def Let_def
  using halves_product [OF refl refl refl refl refl, of "R_EAX r" s] by simp

section \<open>The signed product\<close>

lemma sint_small: "- 2147483648 \<le> k \<Longrightarrow> k < 2147483648 \<Longrightarrow> sint (word_of_int k :: u32) = k"
  by (simp add: signed_of_int signed_take_bit_int_eq_self)

lemma uint_nonneg: "0 \<le> uint w" for w :: "'a::len word"
  by simp

lemma uint_abs: "uint (if d AND 0x80000000 \<noteq> 0 then - d else d) = \<bar>sint d\<bar>" for d :: u32
proof -
  have d: "sint d = (if bit d 31 then uint d - 2 ^ 32 else uint d)"
    using uint_lt2p [of d] by (simp add: sint_uint signed_take_bit_eq_take_bit_minus take_bit_int_eq_self bit_uint_iff)
  have "bit d 31 \<longleftrightarrow> sint d < 0" by (rule sign_bits)
  moreover have "uint (- d) = (- uint d) mod 2 ^ 32" by (simp add: uint_word_ariths)
  moreover have "(- uint d) mod 2 ^ 32 = 2 ^ 32 - uint d" if "uint d \<noteq> 0"
    using that uint_lt2p [of d] by (simp add: zmod_zminus1_eq_if)
  moreover have "bit d 31 \<Longrightarrow> uint d \<noteq> 0" by (auto simp: uint_0_iff)
  ultimately show ?thesis using d uint_lt2p [of d] by (auto simp: test_bit_masks)
qed

lemma cross_sum_small:
  assumes "uint a \<le> 2 ^ 31" "uint b \<le> 2 ^ 31"
  shows "cross_sum a b < 2 ^ 32"
proof -
  have h: "uint a div 2 ^ 16 \<le> 32768" "uint b div 2 ^ 16 \<le> 32768" using assms by simp_all
  have "uint a div 2 ^ 16 * (uint b mod 2 ^ 16) \<le> 32768 * 65535" "uint b div 2 ^ 16 * (uint a mod 2 ^ 16) \<le> 32768 * 65535"
    using h half_range [of a] half_range [of b] mult_mono [of "uint a div 2 ^ 16" 32768 "uint b mod 2 ^ 16" 65535]
      mult_mono [of "uint b div 2 ^ 16" 32768 "uint a mod 2 ^ 16" 65535] by simp_all
  moreover have "uint a mod 2 ^ 16 * (uint b mod 2 ^ 16) div 2 ^ 16 \<le> 65535 * 65535 div 2 ^ 16"
    using half_range [of a] half_range [of b] half_product by (intro zdiv_mono1) simp_all
  ultimately show ?thesis by (simp add: cross_sum_def mult.commute)
qed

lemma carry_of_complement:
  fixes x :: u32
  shows "drop_bit 16 (drop_bit 16 ((x AND 0xFFFF) + 1) + drop_bit 16 x) = of_bool (x = - 1)"
proof -
  let ?l = "uint x mod 2 ^ 16" and ?h = "uint x div 2 ^ 16"
  have l: "uint ((x AND 0xFFFF) + 1) = ?l + 1"
    using half_range [of x] by (simp only: uint_word_ariths(1) uint_halves) simp
  have "(?l + 1) div 2 ^ 16 = of_bool (?l = 65535)" using half_range [of x] by (cases "?l = 65535") auto
  then have "uint (drop_bit 16 ((x AND 0xFFFF) + 1) + drop_bit 16 x) = of_bool (?l = 65535) + ?h"
    using half_range [of x] by (simp only: uint_word_ariths(1) uint_halves l) simp
  then have "uint (drop_bit 16 (drop_bit 16 ((x AND 0xFFFF) + 1) + drop_bit 16 x)) = of_bool (?l = 65535 \<and> ?h = 65535)"
    using half_range [of x] by (cases "?l = 65535"; cases "?h = 65535") (simp_all add: uint_halves)
  moreover have "?l = 65535 \<and> ?h = 65535 \<longleftrightarrow> x = - 1"
  proof -
    have u: "uint x = ?h * 2 ^ 16 + ?l" by (rule div_mult_mod_eq [symmetric])
    have "(l = 65535 \<and> h = 65535) \<longleftrightarrow> h * 2 ^ 16 + l = 4294967295"
      if "0 \<le> l" "l < 2 ^ 16" "0 \<le> h" "h < 2 ^ 16" for l h :: int using that by auto
    from this [OF half_range, of x x] have "(?l = 65535 \<and> ?h = 65535) \<longleftrightarrow> uint x = 4294967295"
      by (simp only: u [symmetric])
    then show ?thesis by (simp only: word_uint_eq_iff) (simp add: unsigned_minus_1_eq_mask mask_eq_exp_minus_1)
  qed
  ultimately show ?thesis by (intro word_uint_eqI) simp
qed

lemma negate_pair:
  fixes lo hi :: u32
  assumes "uint hi \<le> 1073741824"
  shows "sint (NOT hi + of_bool (NOT lo = - 1)) * 2 ^ 32 + uint (NOT lo + 1) = - (uint hi * 2 ^ 32 + uint lo)"
proof (cases "lo = 0")
  case True
  have "NOT hi + 1 = word_of_int (- uint hi)" by (simp add: not_eq_complement)
  moreover have "0 \<le> uint hi" by simp
  then have "sint (word_of_int (- uint hi) :: u32) = - uint hi" using assms by (intro sint_small) linarith+
  ultimately show ?thesis using True by simp
next
  case False
  then have "uint lo \<noteq> 0" by (simp add: uint_0_iff)
  then have "uint (- lo) = 2 ^ 32 - uint lo" using uint_lt2p [of lo] by (simp add: uint_word_ariths zmod_zminus1_eq_if)
  moreover have "NOT hi = word_of_int (- uint hi - 1)" by (simp add: not_eq_complement)
  moreover have "NOT lo \<noteq> - 1" using False by (simp add: not_eq_complement)
  moreover have "sint (word_of_int (- uint hi - 1) :: u32) = - uint hi - 1"
    using assms uint_nonneg [of hi] by (intro sint_small) linarith+
  ultimately show ?thesis by (simp add: not_eq_complement algebra_simps)
qed

lemma imul_long_direct_product:
  "sint (snd (imul_long_direct d s)) * 2 ^ 32 + uint (fst (imul_long_direct d s)) = sint d * sint s"
proof -
  define a where "a = (if d AND 0x80000000 \<noteq> 0 then - d else d)"
  define b where "b = (if s AND 0x80000000 \<noteq> 0 then - s else s)"
  define m where "m = drop_bit 16 a * (b AND 0xFFFF) + (a AND 0xFFFF) * drop_bit 16 b + drop_bit 16 ((a AND 0xFFFF) * (b AND 0xFFFF))"
  define hi where "hi = drop_bit 16 a * drop_bit 16 b + drop_bit 16 m"
  define lo where "lo = push_bit 16 m OR ((a AND 0xFFFF) * (b AND 0xFFFF) AND 0xFFFF)"
  have ab: "uint a = \<bar>sint d\<bar>" "uint b = \<bar>sint s\<bar>" by (simp_all only: a_def b_def uint_abs)
  have le: "\<bar>sint d\<bar> \<le> 2 ^ 31" "\<bar>sint s\<bar> \<le> 2 ^ 31" using sint_range [of d] sint_range [of s] by auto
  have p: "uint hi * 2 ^ 32 + uint lo = \<bar>sint d\<bar> * \<bar>sint s\<bar>"
    using halves_product [OF refl refl refl refl m_def] cross_sum_small [of a b] le ab by (simp add: hi_def lo_def)
  have "\<bar>sint d\<bar> * \<bar>sint s\<bar> \<le> 2 ^ 31 * 2 ^ 31" using le by (intro mult_mono) auto
  then have "uint hi * 4294967296 + uint lo \<le> 4611686018427387904" using p by simp
  then have hi: "uint hi \<le> 1073741824" using uint_nonneg [of lo] by linarith
  have sign: "d AND 0x80000000 = s AND 0x80000000 \<longleftrightarrow> (sint d < 0 \<longleftrightarrow> sint s < 0)"
  proof -
    have "w AND 0x80000000 = (if sint w < 0 then 0x80000000 else 0)" for w :: u32
      using sign_mask(3) [of w] test_bit_masks(7) [of w] sign_bits(3) [of w] by auto
    from this [of d] this [of s] show ?thesis by auto
  qed
  have res: "imul_long_direct d s = (if d AND 0x80000000 = s AND 0x80000000 then (lo, hi)
      else (NOT lo + 1, NOT hi + of_bool (NOT lo = - 1)))"
    by (simp only: imul_long_direct_def Let_def carry_of_complement if_not_P a_def [symmetric] b_def [symmetric] m_def [symmetric]
        hi_def [symmetric] lo_def [symmetric] split: if_splits) simp
  show ?thesis
  proof (cases "sint d < 0 \<longleftrightarrow> sint s < 0")
    case True
    have "sint (word_of_int (uint hi) :: u32) = uint hi" using hi uint_nonneg [of hi] by (intro sint_small) linarith+
    then have "sint hi = uint hi" by simp
    then show ?thesis using True p by (simp add: res sign abs_if split: if_splits)
  next
    case False
    then have "\<bar>sint d\<bar> * \<bar>sint s\<bar> = - (sint d * sint s)" by (auto simp: abs_if)
    then show ?thesis using False p negate_pair [OF hi, of lo] by (simp add: res sign)
  qed
qed

section \<open>Narrow products\<close>

lemma uint_low_half: "uint (ucast p :: u16) = uint p mod 2 ^ 16" for p :: u32
  by (simp only: unsigned_ucast_eq) (simp only: take_bit_eq_mod, simp)

lemma uint_high_half: "uint (ucast (drop_bit 16 p) :: u16) = uint p div 2 ^ 16" for p :: u32
  using half_range [of p] by (simp only: uint_low_half uint_halves) simp

lemma word_product_parts: "uint (ucast (drop_bit 16 p) :: u16) * 2 ^ 16 + uint (ucast p :: u16) = uint p" for p :: u32
  unfolding uint_high_half unfolding uint_low_half by simp

lemma uint_up: "LENGTH('a) \<le> LENGTH('b) \<Longrightarrow> uint (ucast w :: 'b::len word) = uint w" for w :: "'a::len word"
proof -
  assume "LENGTH('a) \<le> LENGTH('b)"
  then have "(2 :: int) ^ LENGTH('a) \<le> 2 ^ LENGTH('b)" by (intro power_increasing) simp_all
  then have "uint w < 2 ^ LENGTH('b)" using uint_lt2p [of w] by (rule less_le_trans [rotated])
  then show ?thesis by (simp add: unsigned_ucast_eq take_bit_int_eq_self)
qed

lemma uint_x_reg: "uint (x_reg e) = uint (l_reg e) + 256 * uint (h_reg e)"
proof -
  have "uint (l_reg e) + 256 * uint (h_reg e) < 65536" using uint_lt2p [of "l_reg e"] uint_lt2p [of "h_reg e"] by simp
  then show ?thesis using uint_lt2p [of "h_reg e"] unfolding x_reg_parts by (simp add: uint_word_ariths uint_up)
qed

lemma sint_high_half: "sint (ucast (drop_bit 16 p) :: u16) * 2 ^ 16 + uint (ucast p :: u16) = sint p" for p :: u32
proof -
  let ?h = "ucast (drop_bit 16 p) :: u16"
  have "sint ?h = uint ?h - 2 ^ 16 * of_bool (bit p 31)"
    using uint_lt2p [of ?h] by (simp add: sint_uint signed_take_bit_eq_take_bit_minus take_bit_int_eq_self bit_uint_iff bit_simps)
  moreover have "sint p = uint p - 2 ^ 32 * of_bool (bit p 31)"
    using uint_lt2p [of p] by (simp add: sint_uint signed_take_bit_eq_take_bit_minus take_bit_int_eq_self bit_uint_iff)
  ultimately show ?thesis using word_product_parts [of p] by (simp add: algebra_simps)
qed

lemma high_half_signed: "(ucast (signed_drop_bit 16 p) :: u16) = ucast (drop_bit 16 p)" for p :: u32
  by (rule bit_word_eqI) (auto simp: bit_ucast_iff bit_sar bit_drop_bit_eq add.commute)

text \<open>
  \<open>MUL\<close> of 8 and 16 bits leaves the full product in \<open>AX\<close> and \<open>DX:AX\<close> and sets carry and overflow when its upper
  half is not 0. The 32-bit \<open>MUL\<close>, computed from 16-bit halves, leaves the product in \<open>EDX:EAX\<close> when the sum of the
  cross products fits 32 bits; otherwise its carry is lost and the result is too small by \<open>2 ^ 48\<close>.
\<close>

theorem unsigned_multiplication:
  "uint (x_reg (R_EAX (mul_byte sb r))) = uint (l_reg (R_EAX r)) * uint sb \<and>
   ACCESS_FLAG F_CF (R_FLG (mul_byte sb r)) = (2 ^ 8 \<le> uint (l_reg (R_EAX r)) * uint sb) \<and>
   uint (x_reg (R_EDX (mul_word sw r))) * 2 ^ 16 + uint (x_reg (R_EAX (mul_word sw r))) = uint (x_reg (R_EAX r)) * uint sw \<and>
   ACCESS_FLAG F_CF (R_FLG (mul_word sw r)) = (2 ^ 16 \<le> uint (x_reg (R_EAX r)) * uint sw) \<and>
   uint (R_EDX (mul_long sl r)) * 2 ^ 32 + uint (R_EAX (mul_long sl r)) =
     uint (R_EAX r) * uint sl - of_bool (2 ^ 32 \<le> cross_sum (R_EAX r) sl) * 2 ^ 48 \<and>
   ACCESS_FLAG F_CF (R_FLG (mul_long sl r)) = (R_EDX (mul_long sl r) \<noteq> 0)"
proof -
  have b: "uint (ucast (l_reg (R_EAX r)) * ucast sb :: u32) = uint (l_reg (R_EAX r)) * uint sb"
    using half_product [of "uint (l_reg (R_EAX r))" "uint sb"] uint_lt2p [of "l_reg (R_EAX r)"] uint_lt2p [of sb]
    by (simp add: uint_word_ariths uint_up)
  have w: "uint (ucast (x_reg (R_EAX r)) * ucast sw :: u32) = uint (x_reg (R_EAX r)) * uint sw"
    using half_product [of "uint (x_reg (R_EAX r))" "uint sw"] uint_lt2p [of "x_reg (R_EAX r)"] uint_lt2p [of sw]
    by (simp add: uint_word_ariths uint_up)
  have hb: "h_reg e = 0 \<longleftrightarrow> uint (x_reg e) < 2 ^ 8" for e
  proof -
    have "uint (l_reg e) < 256" using uint_lt2p [of "l_reg e"] by simp
    then have "uint (h_reg e) = 0 \<longleftrightarrow> uint (x_reg e) < 256"
      using uint_x_reg [of e] uint_nonneg [of "h_reg e"] uint_nonneg [of "l_reg e"] by linarith
    then show ?thesis by (simp add: uint_0_iff)
  qed
  have "uint (l_reg (R_EAX r)) * uint sb < 65536"
    using mult_mono [of "uint (l_reg (R_EAX r))" 255 "uint sb" 255] uint_lt2p [of "l_reg (R_EAX r)"] uint_lt2p [of sb] by simp
  then have bb: "uint (ucast (ucast (l_reg (R_EAX r)) * ucast sb :: u32) :: u16) = uint (l_reg (R_EAX r)) * uint sb"
    unfolding uint_low_half b by simp
  have wz: "(ucast (drop_bit 16 (ucast (x_reg (R_EAX r)) * ucast sw :: u32)) :: u16) = 0 \<longleftrightarrow> uint (x_reg (R_EAX r)) * uint sw < 2 ^ 16"
    unfolding uint_0_iff [symmetric] uint_high_half w by (auto simp: zdiv_eq_0_iff)
  have l: "ACCESS_FLAG F_CF (R_FLG (mul_long sl r)) = (R_EDX (mul_long sl r) \<noteq> 0)" by (simp add: mul_long_def Let_def)
  show ?thesis
    using word_product_parts [of "ucast (x_reg (R_EAX r)) * ucast sw"] mul_long_product [of sl r] bb w wz l
    by (simp add: mul_byte_def mul_word_def Let_def hb not_less)
qed

lemma mul_long_loses_carry: "R_EAX r = 0xFFFFFFFF \<Longrightarrow> R_EDX (mul_long 0xFFFFFFFF r) = 0xFFFEFFFE"
  by (simp add: mul_long_def Let_def)

lemma sint_bits: "sint b = uint b - 256 * of_bool (bit b 7)" "sint w = uint w - 65536 * of_bool (bit w 15)" for b :: u8 and w :: u16
  using uint_lt2p [of b] uint_lt2p [of w]
  by (simp_all add: sint_uint signed_take_bit_eq_take_bit_minus take_bit_int_eq_self bit_uint_iff)

lemma sint_x_reg: "sint (x_reg e) = sint (h_reg e) * 256 + uint (l_reg e)"
proof -
  have "bit (x_reg e) 15 \<longleftrightarrow> bit (h_reg e) 7" by (simp add: x_reg_def h_reg_def bit_simps)
  then show ?thesis by (simp add: sint_bits uint_x_reg algebra_simps)
qed

lemma bit7_uint: "bit b 7 \<longleftrightarrow> 128 \<le> uint b" for b :: u8
  using sint_range [of b] uint_lt2p [of b] sint_bits(1) [of b] by (cases "bit b 7") auto

lemma imul_byte_fits:
  "sint (x_reg e) \<in> {- (2 ^ 7) ..< 2 ^ 7} \<longleftrightarrow> (l_reg e AND 0x80 = 0 \<and> h_reg e = 0x00) \<or> (l_reg e AND 0x80 \<noteq> 0 \<and> h_reg e = 0xFF)"
proof -
  have h: "h_reg e = 0 \<longleftrightarrow> sint (h_reg e) = 0" "h_reg e = 0xFF \<longleftrightarrow> sint (h_reg e) = - 1"
    by (simp_all add: word_eq_iff_signed [where 'a = int])
  have l: "l_reg e AND 0x80 = 0 \<longleftrightarrow> uint (l_reg e) < 128"
    using bit7_uint [of "l_reg e"] test_bit_masks(3) [of "l_reg e"] by auto
  have "(- 128 \<le> s * 256 + u \<and> s * 256 + u < 128) = (u < 128 \<and> s = 0 \<or> \<not> u < 128 \<and> s = - 1)"
    if "0 \<le> u" "u < 256" for s u :: int using that by presburger
  then show ?thesis
    using uint_lt2p [of "l_reg e"] uint_nonneg [of "l_reg e"] unfolding h l sint_x_reg by simp
qed

lemma sint_fits: "- (2 ^ (LENGTH('a) - 1)) \<le> k \<Longrightarrow> k < 2 ^ (LENGTH('a) - 1) \<Longrightarrow> sint (word_of_int k :: 'a::len word) = k"
  by (simp only: signed_of_int) (simp add: signed_take_bit_int_eq_self)

lemma sint_product_range:
  fixes a b m :: int
  assumes "\<bar>a\<bar> \<le> m" "\<bar>b\<bar> \<le> m"
  shows "- (m * m) \<le> a * b \<and> a * b \<le> m * m"
proof -
  have "\<bar>a\<bar> * \<bar>b\<bar> \<le> m * m" using assms by (intro mult_mono) auto
  then have "\<bar>a * b\<bar> \<le> m * m" by (simp only: abs_mult)
  then have "a * b \<le> m * m" "- (a * b) \<le> m * m" by (simp_all only: abs_le_iff)
  then show ?thesis by linarith
qed

text \<open>
  \<open>IMUL\<close> leaves the signed product in \<open>AX\<close>, \<open>DX:AX\<close> or \<open>EDX:EAX\<close>, the 32-bit one also when it is put together
  from 16-bit halves and negated in two steps, and the 8-bit \<open>IMUL\<close> sets carry and overflow
  when the product does not fit 8 bits.
\<close>

theorem signed_multiplication:
  "sint (x_reg (R_EAX (imul_byte sb r))) = sint (l_reg (R_EAX r)) * sint sb \<and>
   ACCESS_FLAG F_CF (R_FLG (imul_byte sb r)) = (sint (l_reg (R_EAX r)) * sint sb \<notin> {- (2 ^ 7) ..< 2 ^ 7}) \<and>
   sint (x_reg (R_EDX (imul_word sw r))) * 2 ^ 16 + uint (x_reg (R_EAX (imul_word sw r))) = sint (x_reg (R_EAX r)) * sint sw \<and>
   sint (R_EDX (imul_long sl r)) * 2 ^ 32 + uint (R_EAX (imul_long sl r)) = sint (R_EAX r) * sint sl"
proof -
  let ?b = "sint (l_reg (R_EAX r)) * sint sb" and ?w = "sint (x_reg (R_EAX r)) * sint sw"
  have "- (128 * 128) \<le> ?b \<and> ?b \<le> 128 * 128" "- (32768 * 32768) \<le> ?w \<and> ?w \<le> 32768 * 32768"
    using sint_range [of "l_reg (R_EAX r)"] sint_range [of sb] sint_range [of "x_reg (R_EAX r)"] sint_range [of sw]
    by (intro sint_product_range; auto)+
  then have b: "sint (word_of_int ?b :: u16) = ?b" and w: "sint (word_of_int ?w :: u32) = ?w"
    by (intro sint_fits; simp)+
  have "sint (x_reg (R_EAX (imul_byte sb r))) = ?b" by (simp add: imul_byte_def Let_def b del: of_int_mult)
  moreover have "ACCESS_FLAG F_CF (R_FLG (imul_byte sb r)) = (?b \<notin> {- (2 ^ 7) ..< 2 ^ 7})"
    using imul_byte_fits [of "with_x_reg (word_of_int ?b) (R_EAX r)"] by (simp add: imul_byte_def Let_def b del: of_int_mult)
  moreover have "sint (x_reg (R_EDX (imul_word sw r))) * 2 ^ 16 + uint (x_reg (R_EAX (imul_word sw r))) = ?w"
    using sint_high_half [of "word_of_int ?w"] by (simp add: imul_word_def Let_def high_half_signed w del: of_int_mult)
  moreover have "sint (R_EDX (imul_long sl r)) * 2 ^ 32 + uint (R_EAX (imul_long sl r)) = sint (R_EAX r) * sint sl"
    using imul_long_direct_product [of "R_EAX r" sl] by (simp add: imul_long_def case_prod_beta Let_def)
  ultimately show ?thesis by blast
qed

text \<open>The wider forms compare the upper half with \<open>0xFF\<close>: they report an overflow for the product \<open>- 1\<close>.\<close>

lemma minus_one_halves: "(ucast (- 1 :: u32) :: u16) AND 0x8000 \<noteq> 0" "(ucast (mask 16 :: u32) :: u16) = 0xFFFF"
  by code_simp+

lemma imul_flags_wrong:
  "x_reg (R_EAX r) = 1 \<Longrightarrow> ACCESS_FLAG F_OF (R_FLG (imul_word 0xFFFF r))"
  using minus_one_halves by (simp add: imul_word_def Let_def high_half_signed)

section \<open>The division loop\<close>

text \<open>One round compares the 64-bit remainder with the shifted divisor, in halves, and subtracts it.\<close>

definition divide_round :: "u32 \<Rightarrow> u32 \<Rightarrow> u32 \<Rightarrow> u32 \<Rightarrow> u32 \<Rightarrow> u32 \<times> u32 \<times> u32" where
  "divide_round dv h_dvd l_dvd h_s l_s =
     (let dv = push_bit 1 dv;
          carry = (if l_dvd \<ge> l_s then 0 else 1)
      in if h_dvd < h_s + carry then (dv, h_dvd, l_dvd)
         else (dv OR 1, h_dvd - (h_s + carry), if carry \<noteq> 0 then (0xFFFFFFFF - l_s) + l_dvd + 1 else l_dvd - l_s))"

definition pair :: "u32 \<Rightarrow> u32 \<Rightarrow> int" where
  "pair h l = uint h * 2 ^ 32 + uint l"

lemma divide_loop_round:
  "divide_loop s n dv h l hs ls =
     (case divide_round dv h l hs ls of (dv, h, l) \<Rightarrow>
        case n of 0 \<Rightarrow> (dv, h, l) | Suc c \<Rightarrow> divide_loop s c dv h l (drop_bit 1 hs) (push_bit c s))"
  by (subst divide_loop.simps) (simp only: divide_round_def Let_def split: if_splits)

lemma uint_quotient_bit:
  "uint (push_bit 1 dv) = 2 * uint dv mod 2 ^ 32" "uint (push_bit 1 dv OR 1) = (2 * uint dv + 1) mod 2 ^ 32" for dv :: u32
proof -
  show e: "uint (push_bit 1 dv) = 2 * uint dv mod 2 ^ 32" by (simp add: push_bit_eq_mult uint_word_ariths mult.commute)
  have "push_bit 1 dv OR 1 = push_bit 1 dv + 1"
    by (rule disjunctive_add [symmetric], simp only: bit_push_bit_iff bit_1_iff) auto
  then show "uint (push_bit 1 dv OR 1) = (2 * uint dv + 1) mod 2 ^ 32" by (simp add: uint_word_ariths mult.commute mod_simps)
qed

lemma uint_quotient_bit': "uint (dv * 2) = 2 * uint dv mod 4294967296" "uint (dv * 2 OR 1) = (2 * uint dv + 1) mod 4294967296" for dv :: u32
  using uint_quotient_bit [of dv] by simp_all

lemma pair_less: "pair h l < pair h' l' \<longleftrightarrow> h < h' \<or> h = h' \<and> l < l'"
proof -
  have "(a * 4294967296 + b < a' * 4294967296 + b') = (a < a' \<or> a = a' \<and> b < b')"
    if "0 \<le> b" "b < 4294967296" "0 \<le> b'" "b' < 4294967296" for a b a' b' :: int using that by (cases a a' rule: linorder_cases) auto
  then show ?thesis
    using uint_lt2p [of l] uint_lt2p [of l'] by (simp add: pair_def word_less_def word_uint_eq_iff)
qed

lemma divide_round_step:
  assumes "pair hs ls \<le> (2 ^ 32 - 1) * 2 ^ 32"
  shows "case divide_round dv h l hs ls of (dv', h', l') \<Rightarrow>
    pair h' l' = pair h l - of_bool (pair hs ls \<le> pair h l) * pair hs ls \<and>
    uint dv' = (2 * uint dv + of_bool (pair hs ls \<le> pair h l)) mod 2 ^ 32"
proof -
  let ?c = "if l \<ge> ls then 0 else 1 :: u32"
  have "uint hs < 4294967295" if "l < ls"
  proof -
    have "0 < uint ls" using that uint_nonneg [of l] unfolding word_less_def by linarith
    then show ?thesis using assms by (simp add: pair_def)
  qed
  then have c: "uint (hs + ?c) = uint hs + (if l < ls then 1 else 0)"
    using uint_lt2p [of hs] by (auto simp: uint_word_ariths)
  have less: "h < hs + ?c \<longleftrightarrow> \<not> pair hs ls \<le> pair h l"
    using pair_less [of h l hs ls] c by (auto simp: word_less_def word_uint_eq_iff)
  have sub: "pair (h - (hs + ?c)) (l - ls) = pair h l - pair hs ls" if "pair hs ls \<le> pair h l"
  proof -
    have h: "uint (h - (hs + ?c)) = uint h - uint (hs + ?c)" 
      by (rule iffD1 [OF uint_sub_lem]) (use less that in \<open>simp add: word_less_def\<close>)
    have "uint (l - ls) = uint l - uint ls + (if l < ls then 2 ^ 32 else 0)" by (simp add: uint_sub_if_size word_size word_le_def word_less_def)
    then show ?thesis by (simp add: pair_def h c algebra_simps)
  qed
  have l: "(if ?c \<noteq> 0 then (0xFFFFFFFF - ls) + l + 1 else l - ls) = l - ls" by simp
  show ?thesis
    unfolding divide_round_def Let_def l using less sub by (cases "pair hs ls \<le> pair h l") (simp_all add: uint_quotient_bit')
qed

lemma div_once: "0 \<le> c \<Longrightarrow> c < 2 * n \<Longrightarrow> c div n = of_bool (n \<le> c)" for c n :: int
proof (cases "n \<le> c")
  case True
  assume "0 \<le> c" "c < 2 * n"
  then have "(c - n) div n = 0" using True by (intro div_pos_pos_trivial) simp_all
  moreover have "c div n = (c - n) div n + 1" using True \<open>c < 2 * n\<close> by (intro div_pos_geq) simp_all
  ultimately show ?thesis using True by simp
qed simp

lemma divide_shift: "x = y + m * k \<Longrightarrow> 0 < m \<Longrightarrow> x mod m = y mod m \<and> x div m = y div m + k" for x y m k :: int
  by simp

lemma halve_divisor:
  assumes "pair hs ls = uint s * 2 ^ Suc c"
  shows "pair (drop_bit 1 hs) (push_bit c s) = uint s * 2 ^ c"
proof -
  let ?t = "uint s * 2 ^ c"
  have "uint hs = pair hs ls div 2 ^ 32" using uint_lt2p [of ls] by (simp add: pair_def)
  also have "pair hs ls = 2 * ?t" using assms by simp
  finally have "uint hs div 2 = ?t div 2 ^ 32" by simp
  moreover have "uint (drop_bit 1 hs) = uint hs div 2"
    using uint_lt2p [of hs] unfolding unsigned_drop_bit_eq by (simp add: drop_bit_eq_div take_bit_int_eq_self)
  moreover have "uint (push_bit c s) = ?t mod 2 ^ 32" 
    by (simp only: unsigned_push_bit_eq) (simp add: push_bit_eq_mult take_bit_eq_mod)
  ultimately show ?thesis by (simp add: pair_def)
qed

lemma divide_loop_quotient:
  assumes "s \<noteq> 0" "n \<le> 32" "pair hs ls = uint s * 2 ^ n" "pair h l < uint s * 2 ^ Suc n"
  shows "case divide_loop s n dv h l hs ls of (dv', h', l') \<Rightarrow>
    pair h' l' = pair h l mod uint s \<and> uint dv' = (uint dv * 2 ^ Suc n + pair h l div uint s) mod 2 ^ 32"
  using assms(2-4)
proof (induction n arbitrary: dv h l hs ls)
  case 0
  obtain dv' h' l' where r: "divide_round dv h l hs ls = (dv', h', l')" by (cases "divide_round dv h l hs ls")
  have "pair hs ls \<le> (2 ^ 32 - 1) * 2 ^ 32" using 0 uint_lt2p [of s] by simp
  note D = divide_round_step [OF this, of h l dv]
  let ?b = "of_bool (uint s \<le> pair h l) :: int"
  have "0 \<le> pair h l" by (simp add: pair_def)
  then have "pair h l div uint s = ?b" "pair h l mod uint s = pair h l - ?b * uint s"
    using 0 by (simp_all add: div_once mod_once)
  then show ?case using D 0 by (subst divide_loop_round) (simp add: r mult.commute del: divide_loop.simps)
next
  case (Suc c)
  obtain dv' h' l' where r: "divide_round dv h l hs ls = (dv', h', l')" by (cases "divide_round dv h l hs ls")
  have "uint s * 2 ^ Suc c \<le> (2 ^ 32 - 1) * 2 ^ 32"
    using Suc.prems uint_lt2p [of s] power_increasing [of "Suc c" 32 "2 :: int"] by (intro mult_mono) simp_all
  then have "pair hs ls \<le> (2 ^ 32 - 1) * 2 ^ 32" using Suc.prems by simp
  note D = divide_round_step [OF this, of h l dv]
  let ?b = "of_bool (uint s * 2 ^ Suc c \<le> pair h l) :: int"
  have p: "pair h' l' = pair h l - ?b * (uint s * 2 ^ Suc c)" and q: "uint dv' = (2 * uint dv + ?b) mod 2 ^ 32"
    using D Suc.prems r by simp_all
  have lt: "pair h' l' < uint s * 2 ^ Suc c" using p Suc.prems by (cases "uint s * 2 ^ Suc c \<le> pair h l") simp_all
  have half: "pair (drop_bit 1 hs) (push_bit c s) = uint s * 2 ^ c"
    using Suc.prems by (intro halve_divisor) simp
  have s: "0 < uint s" using assms(1) uint_nonneg [of s] by (simp add: order_less_le uint_0_iff del: uint_nonneg)
  have "pair h l = pair h' l' + uint s * (?b * 2 ^ Suc c)" using p by (simp add: algebra_simps)
  then have dm: "pair h l mod uint s = pair h' l' mod uint s" "pair h l div uint s = pair h' l' div uint s + ?b * 2 ^ Suc c"
    using s divide_shift by blast+
  have "(uint dv' * 2 ^ Suc c + pair h' l' div uint s) mod 2 ^ 32 =
      ((2 * uint dv + ?b) * 2 ^ Suc c + pair h' l' div uint s) mod 2 ^ 32"
    unfolding q by (intro mod_add_cong mod_mult_left_eq refl)
  also have "(2 * uint dv + ?b) * 2 ^ Suc c + pair h' l' div uint s = uint dv * 2 ^ Suc (Suc c) + pair h l div uint s"
    unfolding dm by (simp add: algebra_simps)
  finally have fin: "(uint dv' * 2 ^ Suc c + pair h' l' div uint s) mod 2 ^ 32 =
      (uint dv * 2 ^ Suc (Suc c) + pair h l div uint s) mod 2 ^ 32" .
  have e: "divide_loop s (Suc c) dv h l hs ls = divide_loop s c dv' h' l' (drop_bit 1 hs) (push_bit c s)"
    by (subst divide_loop_round) (simp add: r del: divide_loop.simps)
  show ?case
    unfolding e dm(1) fin [symmetric] using Suc.IH [OF _ half lt, of dv'] Suc.prems(1) by (simp del: divide_loop.simps)
qed

section \<open>Division\<close>

lemma c_abs_small: "- 2147483648 < q \<Longrightarrow> q < 2147483648 \<Longrightarrow> c_abs (word_of_int q) = \<bar>q\<bar>"
proof -
  assume q: "- 2147483648 < q" "q < 2147483648"
  then have "sint (word_of_int q :: u32) = q" "sint (- word_of_int q :: u32) = - q"
    using sint_small [of q] sint_small [of "- q"] by simp_all
  then show ?thesis by (simp add: c_abs_def)
qed

lemma c_abs_uint: "uint dv < 2147483648 \<Longrightarrow> c_abs dv = uint dv"
  using c_abs_small [of "uint dv"] uint_nonneg [of dv] by simp

lemma ucast_word_of_int: "LENGTH('a) \<le> LENGTH('b) \<Longrightarrow> ucast (word_of_int k :: 'b::len word) = (word_of_int k :: 'a::len word)"
  by (rule bit_word_eqI) (simp add: bit_simps)

lemma pair_DX_AX: "uint (push_bit 16 (ucast dx) OR ucast ax :: u32) = uint dx * 2 ^ 16 + uint ax" for dx ax :: u16
proof -
  have "(ucast ax :: u32) = ucast ax AND 0xFFFF"
    by (rule bit_word_eqI) (auto simp: test_bit_masks bit_take_bit_iff bit_ucast_iff dest: bit_imp_le_length)
  then show ?thesis
    using uint_join [of "ucast dx" "ucast ax"] uint_lt2p [of dx] uint_lt2p [of ax] by (simp add: uint_up)
qed

lemma div_le_int: "0 \<le> a \<Longrightarrow> 0 < b \<Longrightarrow> a div b \<le> a" for a b :: int
  using zdiv_mono2 [of a 1 b] by simp

lemma le_div_int: "0 < b \<Longrightarrow> k \<le> a div b \<longleftrightarrow> k * b \<le> a" for a b k :: int
proof
  assume b: "0 < b" and k: "k \<le> a div b"
  have "k * b \<le> a div b * b" using b k by (intro mult_right_mono) simp_all
  also have "\<dots> = a - a mod b" by (rule minus_mod_eq_div_mult [symmetric])
  finally show "k * b \<le> a" using pos_mod_sign [OF b, of a] by linarith
next
  assume "0 < b" "k * b \<le> a"
  then show "k \<le> a div b" using zdiv_mono1 [of "k * b" a b] by simp
qed

lemma quotient_bound: "\<bar>a sdiv b\<bar> \<le> \<bar>a\<bar>" "b \<noteq> 0 \<Longrightarrow> \<bar>a smod b\<bar> < \<bar>b\<bar>" for a b :: int
  using sdiv_int_range [of a b] by (auto simp: signed_modulo_int_def abs_mult abs_sgn_eq)

lemma quotient_fits:
  fixes l h s :: int
  shows "0 \<le> l \<Longrightarrow> l < 256 \<Longrightarrow> 256 * s \<le> l + 256 * h \<longleftrightarrow> s \<le> h"
    "0 \<le> l \<Longrightarrow> l < 65536 \<Longrightarrow> 65536 * s \<le> l + 65536 * h \<longleftrightarrow> s \<le> h"
  by (cases "s \<le> h"; simp)+

lemma uint_low_byte: "uint (ucast p :: u8) = uint p mod 2 ^ 8" for p :: u32
  by (simp only: unsigned_ucast_eq) (simp only: take_bit_eq_mod, simp)

lemma eax_updated: "P e \<Longrightarrow> \<exists>e'. r\<lparr>R_EAX := e\<rparr> = r\<lparr>R_EAX := e'\<rparr> \<and> P e'"
  by blast

lemma result_updated: "P e e' \<Longrightarrow> \<exists>g x x'. r\<lparr>R_FLG := f, R_EAX := e, R_EDX := e'\<rparr> = r\<lparr>R_FLG := g, R_EAX := x, R_EDX := x'\<rparr> \<and> P x x'"
  by blast

lemma div_byte_result:
  "if sb = 0 \<or> uint sb \<le> uint (h_reg (R_EAX r)) then div_byte sb r = INTR_RAISE_DIV0 r
   else \<exists>e. div_byte sb r = r\<lparr>R_EAX := e\<rparr> \<and> uint (l_reg e) = uint (x_reg (R_EAX r)) div uint sb \<and>
     uint (h_reg e) = uint (x_reg (R_EAX r)) mod uint sb"
proof -
  let ?a = "uint (x_reg (R_EAX r))" and ?e = "ucast (x_reg (R_EAX r)) :: u32"
  show ?thesis
  proof (cases "sb = 0")
    case False
    then have s: "0 < uint sb" using uint_nonneg [of sb] by (simp add: order_less_le uint_0_iff del: uint_nonneg)
    have d: "uint (?e div ucast sb) = ?a div uint sb" "uint (?e mod ucast sb) = ?a mod uint sb"
      by (simp_all add: uint_div uint_mod uint_up)
    have "?a div uint sb \<le> ?a" using s by (intro div_le_int) simp_all
    then have "c_abs (?e div ucast sb) = ?a div uint sb"
      using uint_lt2p [of "x_reg (R_EAX r)"] by (simp add: c_abs_uint d)
    moreover have "?a div uint sb > 255 \<longleftrightarrow> uint sb \<le> uint (h_reg (R_EAX r))"
    proof -
      have "?a div uint sb > 255 \<longleftrightarrow> 256 * uint sb \<le> ?a"
        using le_div_int [OF s, of 256 ?a] by auto
      then show ?thesis
        using quotient_fits(1) [of "uint (l_reg (R_EAX r))" "uint sb" "uint (h_reg (R_EAX r))"] uint_lt2p [of "l_reg (R_EAX r)"]
        by (simp add: uint_x_reg)
    qed
    moreover have "0 \<le> ?a div uint sb" using s by (simp add: pos_imp_zdiv_nonneg_iff)
    moreover have "?a mod uint sb < 256" using uint_lt2p [of sb, simplified] pos_mod_bound [OF s, of ?a] by linarith
    ultimately show ?thesis using False d s
      by (cases "?a div uint sb > 255") (simp_all add: div_byte_def Let_def eax_updated uint_low_byte)
  qed (simp add: div_byte_def)
qed

lemma uint_pos: "w \<noteq> 0 \<Longrightarrow> 0 < uint w" for w :: "'a::len word"
  using uint_nonneg [of w] by (simp add: order_less_le uint_0_iff del: uint_nonneg)

definition division_flags :: "bool \<Rightarrow> u32 \<Rightarrow> flags \<Rightarrow> flags" where
  "division_flags zero md f =
     CONDITIONAL_SET_FLAG (PARITY (md AND 0xff)) F_PF (CONDITIONAL_SET_FLAG zero F_ZF (CLEAR_FLAG F_SF (CLEAR_FLAG F_CF f)))"

lemma div_word_result:
  defines "a \<equiv> \<lambda>r. uint (x_reg (R_EDX r)) * 2 ^ 16 + uint (x_reg (R_EAX r))"
  shows "sw = 0 \<or> 1 < uint sw \<and> uint sw \<le> uint (x_reg (R_EDX r)) \<Longrightarrow> div_word sw r = INTR_RAISE_DIV0 r"
    and "uint (x_reg (R_EDX r)) < uint sw \<Longrightarrow> \<exists>f e e'. div_word sw r = r\<lparr>R_FLG := f, R_EAX := e, R_EDX := e'\<rparr> \<and>
      uint (x_reg e) = a r div uint sw \<and> uint (x_reg e') = a r mod uint sw"
proof -
  let ?d = "push_bit 16 (ucast (x_reg (R_EDX r))) OR ucast (x_reg (R_EAX r)) :: u32"
  have d: "uint (?d div ucast sw) = a r div uint sw" "uint (?d mod ucast sw) = a r mod uint sw"
    by (simp_all add: uint_div uint_mod uint_up pair_DX_AX a_def)
  have range: "0 \<le> a r" "a r < 2 ^ 32" using uint_lt2p [of "x_reg (R_EDX r)"] uint_lt2p [of "x_reg (R_EAX r)"] by (simp_all add: a_def)
  have fits: "k * uint sw \<le> a r \<longleftrightarrow> uint sw \<le> uint (x_reg (R_EDX r))" if "k = 65536" for k
    using quotient_fits(2) [of "uint (x_reg (R_EAX r))" "uint sw" "uint (x_reg (R_EDX r))"] uint_lt2p [of "x_reg (R_EAX r)"]
    by (simp add: that a_def algebra_simps)
  show "div_word sw r = INTR_RAISE_DIV0 r" if "sw = 0 \<or> 1 < uint sw \<and> uint sw \<le> uint (x_reg (R_EDX r))"
  proof (cases "sw = 0")
    case False
    then have s: "2 \<le> uint sw" and q: "65536 \<le> a r div uint sw" using that fits le_div_int [of "uint sw" 65536 "a r"] uint_pos by auto
    have "a r div uint sw \<le> a r div 2" using s range by (intro zdiv_mono2) simp_all
    then have "c_abs (?d div ucast sw) = a r div uint sw" using range by (intro trans [OF c_abs_uint]) (simp_all add: d)
    then show ?thesis using False q by (simp add: div_word_def Let_def)
  qed (simp add: div_word_def)
  show "\<exists>f e e'. div_word sw r = r\<lparr>R_FLG := f, R_EAX := e, R_EDX := e'\<rparr> \<and>
      uint (x_reg e) = a r div uint sw \<and> uint (x_reg e') = a r mod uint sw" if lt: "uint (x_reg (R_EDX r)) < uint sw"
  proof -
    have s: "0 < uint sw" using lt uint_nonneg [of "x_reg (R_EDX r)"] by linarith
    have q: "a r div uint sw < 65536" "0 \<le> a r div uint sw" using le_div_int [OF s, of 65536 "a r"] fits lt range s
      by (simp_all add: pos_imp_zdiv_nonneg_iff)
    have m: "0 \<le> a r mod uint sw" "a r mod uint sw < 65536"
      using s uint_lt2p [of sw, simplified] pos_mod_bound [OF s, of "a r"] by (simp, linarith)
    have "c_abs (?d div ucast sw) = a r div uint sw" using q by (intro trans [OF c_abs_uint]) (simp_all add: d)
    moreover have "uint (ucast (?d div ucast sw) :: u16) = a r div uint sw" "uint (ucast (?d mod ucast sw) :: u16) = a r mod uint sw"
      using q m by (simp_all add: uint_low_half d)
    ultimately show ?thesis using s q by (auto simp: div_word_def Let_def intro!: result_updated)
  qed
qed

lemma positive_of_less: "a < s \<Longrightarrow> 0 < uint s" for a s :: u32
  using uint_nonneg [of a] unfolding word_less_def by linarith

lemma remainder_found:
  assumes "pair h l = k mod uint s" "0 < uint s"
  shows "h = 0" "uint l = k mod uint s" "\<not> s < l"
proof -
  have "uint h * 4294967296 + uint l < uint s" using assms pos_mod_bound [of "uint s" k] by (simp add: pair_def)
  then have h: "uint h = 0" using uint_lt2p [of s, simplified] uint_nonneg [of h] uint_nonneg [of l] by linarith
  then show "h = 0" by (simp add: uint_0_iff)
  show l: "uint l = k mod uint s" using assms(1) h by (simp add: pair_def)
  show "\<not> s < l" unfolding word_less_def l using pos_mod_bound [OF assms(2), of k] by simp
qed

lemma quotient_32:
  assumes "0 \<le> k" "k < uint s * 2 ^ 32" "0 < uint s"
  shows "k div uint s mod 2 ^ 32 = k div uint s"
  using assms le_div_int [of "uint s" "2 ^ 32" k] by (simp add: pos_imp_zdiv_nonneg_iff mult.commute)

lemma pair_divisor: "pair s 0 = uint s * 2 ^ 32"
  by (simp add: pair_def)

lemma pair_bound: "h < s \<Longrightarrow> pair h l < uint s * 2 ^ 32" "0 \<le> pair h l"
  using uint_lt2p [of l, simplified] by (simp_all add: pair_def word_less_def)

lemma pair_bound_twice: "h < s \<Longrightarrow> pair h l < uint s * 2 ^ Suc 32"
  using pair_bound(1) [of h s l] positive_of_less [of h s] by simp

lemma div_long_result:
  assumes lt: "R_EDX r < s"
  shows "\<exists>f e e'. div_long s r = r\<lparr>R_FLG := f, R_EAX := e, R_EDX := e'\<rparr> \<and>
      uint e = pair (R_EDX r) (R_EAX r) div uint s \<and> uint e' = pair (R_EDX r) (R_EAX r) mod uint s"
proof -
  let ?k = "pair (R_EDX r) (R_EAX r)"
  have s: "0 < uint s" "s \<noteq> 0" using positive_of_less [OF lt] by auto
  obtain dv h l where q: "divide_loop s 32 0 (R_EDX r) (R_EAX r) s 0 = (dv, h, l)"
    by (cases "divide_loop s 32 0 (R_EDX r) (R_EAX r) s 0")
  have p: "pair h l = ?k mod uint s" and dv: "uint dv = ?k div uint s"
    using divide_loop_quotient [OF s(2) order_refl pair_divisor, of "R_EDX r" "R_EAX r" 0] pair_bound(1) [OF lt, of "R_EAX r"]
      pair_bound_twice [OF lt, of "R_EAX r"] q quotient_32 [OF pair_bound(2) pair_bound(1) [OF lt] s(1)] by simp_all
  note found = remainder_found [OF p s(1)]
  have "div_long s r = r\<lparr>R_FLG := long_division_flags l (R_FLG r), R_EAX := dv, R_EDX := l\<rparr>"
    using found(1,3) s(2) by (simp add: div_long_def q)
  then show ?thesis using found(2) dv by blast
qed

lemma idiv_long_result:
  assumes lt: "R_EDX r < s" and small: "uint s < 2 ^ 28"
  shows "\<exists>f e e'. idiv_long s r = r\<lparr>R_FLG := f, R_EAX := e, R_EDX := e'\<rparr> \<and>
      uint e = pair (R_EDX r) (R_EAX r) div uint s \<and> uint e' = pair (R_EDX r) (R_EAX r) mod uint s"
proof -
  let ?k = "pair (R_EDX r) (R_EAX r)"
  have s: "0 < uint s" "s \<noteq> 0" using positive_of_less [OF lt] by auto
  have low: "w AND 0x7FFFFFFF = w \<and> w AND 0x10000000 = 0" if "uint w < 2 ^ 28" for w :: u32
  proof -
    have t: "take_bit 28 w = w" using that by (intro word_uint_eqI) (simp add: unsigned_take_bit_eq take_bit_int_eq_self)
    then have "\<not> bit w 28" by (metis bit_take_bit_iff less_irrefl)
    then have "w AND 0x10000000 = 0" using and_exp_nonzero [of w 28] by simp
    moreover have "w AND mask 31 = take_bit 31 (take_bit 28 w)" unfolding t by (rule take_bit_eq_mask [symmetric])
    moreover have "take_bit 31 (take_bit 28 w) = take_bit 28 w" by (simp only: take_bit_take_bit) simp
    then have "take_bit 31 w = w" unfolding t .
    ultimately have "w AND mask 31 = w" "w AND 0x10000000 = 0" using t by simp_all
    then show ?thesis by (simp add: mask_eq_exp_minus_1)
  qed
  have d: "uint (R_EDX r) < 2 ^ 28" using lt small by (simp add: word_less_def)
  obtain dv h l where q: "divide_loop s 31 0 (R_EDX r) (R_EAX r) (drop_bit 1 s) (push_bit 31 s) = (dv, h, l)"
    by (cases "divide_loop s 31 0 (R_EDX r) (R_EAX r) (drop_bit 1 s) (push_bit 31 s)")
  have half: "pair (drop_bit 1 s) (push_bit 31 s) = uint s * 2 ^ 31" by (rule halve_divisor [of s 0]) (simp add: pair_divisor)
  have p: "pair h l = ?k mod uint s" and dv: "uint dv = ?k div uint s"
    using divide_loop_quotient [OF s(2) _ half, of "R_EDX r" "R_EAX r" 0] pair_bound(1) [OF lt, of "R_EAX r"]
      pair_bound_twice [OF lt, of "R_EAX r"] q quotient_32 [OF pair_bound(2) pair_bound(1) [OF lt] s(1)] by simp_all
  note found = remainder_found [OF p s(1)]
  have "idiv_long s r = r\<lparr>R_FLG := long_division_flags l (R_FLG r), R_EAX := dv, R_EDX := l\<rparr>"
    using found(1,3) s(2) low [OF small] low [OF d] q by (simp add: idiv_long_def Let_def)
  then show ?thesis using found(2) dv by blast
qed

lemma abs_quotient: "\<bar>a sdiv b\<bar> = \<bar>a\<bar> div \<bar>b\<bar>" for a b :: int
  by (cases "a = 0"; cases "b = 0") (auto simp: signed_divide_int_def abs_mult abs_sgn_eq pos_imp_zdiv_nonneg_iff)

lemma idiv_byte_result:
  fixes r :: "'a x86emu_regs_scheme" and sb :: u8
  defines "q \<equiv> sint (x_reg (R_EAX r)) sdiv sint sb"
  shows "if sb = 0 \<or> 127 < \<bar>q\<bar> then idiv_byte sb r = INTR_RAISE_DIV0 r
    else \<exists>e. idiv_byte sb r = r\<lparr>R_EAX := e\<rparr> \<and> sint (l_reg e) = q \<and> sint (h_reg e) = sint (x_reg (R_EAX r)) smod sint sb"
proof (cases "sb = 0")
  case False
  let ?a = "sint (x_reg (R_EAX r))" and ?m = "sint (x_reg (R_EAX r)) smod sint sb"
  have nz: "sint sb \<noteq> 0" using False by (simp add: word_eq_iff_signed [where 'a = int])
  have "\<bar>?a\<bar> \<le> 32768" "\<bar>sint sb\<bar> \<le> 128" using sint_range [of "x_reg (R_EAX r)"] sint_range [of sb] by auto
  then have q: "\<bar>q\<bar> \<le> 32768" and m: "\<bar>?m\<bar> \<le> 127" using quotient_bound(1) [of ?a "sint sb"] quotient_bound(2) [OF nz, of ?a] by (simp_all add: q_def)
  have "c_abs (word_of_int q) = \<bar>q\<bar>" using q by (intro c_abs_small) simp_all
  moreover have "sint (word_of_int q :: u8) = q" if "\<bar>q\<bar> \<le> 127" using that by (intro sint_fits) simp_all
  moreover have "sint (word_of_int ?m :: u8) = ?m" using m by (intro sint_fits) simp_all
  ultimately show ?thesis
    using False by (cases "127 < \<bar>q\<bar>") (simp_all add: idiv_byte_def Let_def q_def [symmetric] eax_updated ucast_word_of_int)
qed (simp add: idiv_byte_def)

lemma pair_parts:
  fixes dx ax :: u16
  shows "(ucast (drop_bit 16 (push_bit 16 (ucast dx) OR ucast ax :: u32)) :: u16) = dx"
    "(ucast (push_bit 16 (ucast dx) OR ucast ax :: u32) :: u16) = ax"
  by (rule bit_word_eqI; auto simp: bit_simps dest: bit_imp_le_length)+

lemma idiv_word_result:
  fixes r :: "'a x86emu_regs_scheme" and sw :: u16
  defines "a \<equiv> sint (x_reg (R_EDX r)) * 2 ^ 16 + uint (x_reg (R_EAX r))"
  defines "q \<equiv> a sdiv sint sw"
  assumes regular: "\<not> (a = - (2 ^ 31) \<and> sint sw = 1)"
  shows "if a = - (2 ^ 31) \<and> sint sw = - 1 then idiv_word sw r = None
    else if sw = 0 \<or> 32767 < \<bar>q\<bar> then idiv_word sw r = Some (INTR_RAISE_DIV0 r)
    else \<exists>f e e'. idiv_word sw r = Some (r\<lparr>R_FLG := f, R_EAX := e, R_EDX := e'\<rparr>) \<and>
      sint (x_reg e) = q \<and> sint (x_reg e') = a smod sint sw"
proof -
  let ?p = "push_bit 16 (ucast (x_reg (R_EDX r))) OR ucast (x_reg (R_EAX r)) :: u32" and ?m = "a smod sint sw"
  have p: "sint ?p = a" using sint_high_half [of ?p] unfolding pair_parts a_def by (rule sym)
  have range: "- 2147483648 \<le> a" "a < 2147483648" using sint_range [of ?p] by (simp_all add: p)
  show ?thesis
  proof (cases "sw = 0 \<or> a = - (2 ^ 31) \<and> sint sw = - 1")
    case True
    then show ?thesis by (auto simp: idiv_word_def Let_def p)
  next
    case False
    then have nz: "sint sw \<noteq> 0" by (simp add: word_eq_iff_signed [where 'a = int])
    have q: "\<bar>q\<bar> \<le> 2147483647"
    proof (cases "a = - (2 ^ 31)")
      case True
      then have "2 \<le> \<bar>sint sw\<bar>" using nz False regular by auto
      then have "\<bar>a\<bar> div \<bar>sint sw\<bar> \<le> \<bar>a\<bar> div 2" by (intro zdiv_mono2) simp_all
      then show ?thesis using True by (simp add: q_def abs_quotient)
    qed (use range quotient_bound(1) [of a "sint sw"] in \<open>simp add: q_def\<close>)
    have "\<bar>sint sw\<bar> \<le> 32768" using sint_range [of sw] by auto
    then have m: "\<bar>?m\<bar> \<le> 32767" using quotient_bound(2) [OF nz, of a] by simp
    have "c_abs (word_of_int q) = \<bar>q\<bar>" using q by (intro c_abs_small) simp_all
    moreover have "sint (word_of_int q :: u16) = q" if "\<bar>q\<bar> \<le> 32767" using that by (intro sint_fits) simp_all
    moreover have "sint (word_of_int ?m :: u16) = ?m" using m by (intro sint_fits) simp_all
    ultimately show ?thesis
      using False by (cases "32767 < \<bar>q\<bar>")
        (auto simp: idiv_word_def Let_def p q_def [symmetric] ucast_word_of_int intro!: result_updated)
  qed
qed

definition empty_regs :: x86emu_regs where
  "empty_regs = \<lparr>R_EAX = 0, R_EBX = 0, R_ECX = 0, R_EDX = 0, R_ESP = 0, R_EBP = 0, R_ESI = 0, R_EDI = 0, R_FLG = 0,
     seg = (\<lambda>_. \<lparr>sel_base = 0, sel_limit = 0, sel_sel = 0, sel_acc = 0\<rparr>), mode = 0, intr_nr = 0, intr_type = 0, intr_errcode = 0\<rparr>"

lemma empty_regs_fields [simp]: "R_EAX empty_regs = 0" "R_EDX empty_regs = 0" "intr_type empty_regs = 0"
  by (simp_all add: empty_regs_def)

section \<open>Quotients that do not fit\<close>

text \<open>If the dividend is at least twice the shifted divisor, every round subtracts.\<close>

lemma divide_loop_saturated:
  assumes "n \<le> 32" "pair hs ls = uint s * 2 ^ n" "uint s * 2 ^ Suc n \<le> pair h l"
  shows "case divide_loop s n dv h l hs ls of (dv', h', l') \<Rightarrow>
    pair h' l' = pair h l - uint s * (2 ^ Suc n - 1) \<and> uint dv' = (uint dv * 2 ^ Suc n + (2 ^ Suc n - 1)) mod 2 ^ 32"
  using assms
proof (induction n arbitrary: dv h l hs ls)
  case 0
  have "pair hs ls \<le> (2 ^ 32 - 1) * 2 ^ 32" using 0 uint_lt2p [of s] by simp
  note D = divide_round_step [OF this, of h l dv]
  have "pair hs ls \<le> pair h l" using 0(2,3) uint_nonneg [of s] by (simp only: power_0 power_Suc mult_1_right)
  then show ?case using D 0 by (subst divide_loop_round) (simp add: mult.commute split: prod.splits del: divide_loop.simps)
next
  case (Suc c)
  obtain dv' h' l' where r: "divide_round dv h l hs ls = (dv', h', l')" by (cases "divide_round dv h l hs ls")
  have "uint s * 2 ^ Suc c \<le> (2 ^ 32 - 1) * 2 ^ 32"
    using Suc.prems uint_lt2p [of s] power_increasing [of "Suc c" 32 "2 :: int"] by (intro mult_mono) simp_all
  then have "pair hs ls \<le> (2 ^ 32 - 1) * 2 ^ 32" using Suc.prems by simp
  note D = divide_round_step [OF this, of h l dv]
  have "pair hs ls \<le> uint s * 2 ^ Suc (Suc c)" unfolding Suc.prems(2) by (intro mult_left_mono) simp_all
  then have "pair hs ls \<le> pair h l" using Suc.prems(3) by (rule order_trans)
  then have p: "pair h' l' = pair h l - uint s * 2 ^ Suc c" and q: "uint dv' = (2 * uint dv + 1) mod 2 ^ 32"
    using D Suc.prems r by simp_all
  have le: "uint s * 2 ^ Suc c \<le> pair h' l'" using p Suc.prems(3) by simp
  have half: "pair (drop_bit 1 hs) (push_bit c s) = uint s * 2 ^ c" using Suc.prems by (intro halve_divisor) simp
  have e: "divide_loop s (Suc c) dv h l hs ls = divide_loop s c dv' h' l' (drop_bit 1 hs) (push_bit c s)"
    by (subst divide_loop_round) (simp add: r del: divide_loop.simps)
  have "(uint dv' * 2 ^ Suc c + (2 ^ Suc c - 1)) mod 2 ^ 32 = ((2 * uint dv + 1) * 2 ^ Suc c + (2 ^ Suc c - 1)) mod 2 ^ 32"
    unfolding q by (intro mod_add_cong mod_mult_left_eq refl)
  also have "(2 * uint dv + 1) * 2 ^ Suc c + (2 ^ Suc c - 1) = uint dv * 2 ^ Suc (Suc c) + (2 ^ Suc (Suc c) - 1)"
    by (simp add: algebra_simps)
  finally have fin: "(uint dv' * 2 ^ Suc c + (2 ^ Suc c - 1)) mod 2 ^ 32 =
      (uint dv * 2 ^ Suc (Suc c) + (2 ^ Suc (Suc c) - 1)) mod 2 ^ 32" .
  have rem: "pair h' l' - uint s * (2 ^ Suc c - 1) = pair h l - uint s * (2 ^ Suc (Suc c) - 1)"
    unfolding p by (simp add: algebra_simps)
  show ?case
    unfolding e fin [symmetric] rem [symmetric] using Suc.IH [OF _ half le, of dv'] Suc.prems(1) by (simp del: divide_loop.simps)
qed

text \<open>The quotient of the loop of \<open>n + 1\<close> rounds: it has at most \<open>n + 1\<close> bits.\<close>

definition loop_quotient :: "nat \<Rightarrow> int \<Rightarrow> int \<Rightarrow> int" where
  "loop_quotient n k s = (if s * 2 ^ Suc n \<le> k then 2 ^ Suc n - 1 else k div s)"

lemma divide_loop_result:
  assumes "n \<le> 32" "pair hs ls = uint s * 2 ^ n" "divide_loop s n 0 h l hs ls = (dv', h', l')"
  defines "q \<equiv> loop_quotient n (pair h l) (uint s)"
  shows "uint dv' = q mod 2 ^ 32" "pair h' l' = pair h l - uint s * q"
    "h' \<noteq> 0 \<or> s < l' \<longleftrightarrow> uint s * 2 ^ Suc n < pair h l" "uint s * 2 ^ Suc n \<ge> pair h l \<Longrightarrow> uint l' = pair h l - uint s * q"
proof -
  have k: "0 \<le> pair h l" by (simp add: pair_def)
  have r: "uint dv' = q mod 2 ^ 32 \<and> pair h' l' = pair h l - uint s * q"
  proof (cases "uint s * 2 ^ Suc n \<le> pair h l")
    case True
    then show ?thesis using divide_loop_saturated [OF assms(1,2) True, of 0] assms(3)
      by (simp add: q_def loop_quotient_def del: divide_loop.simps)
  next
    case False
    then have "s \<noteq> 0" using k by auto
    then show ?thesis using divide_loop_quotient [OF _ assms(1,2), of h l 0] False assms(3)
      by (simp add: q_def loop_quotient_def minus_div_mult_eq_mod [symmetric] mult.commute del: divide_loop.simps)
  qed
  then show "uint dv' = q mod 2 ^ 32" "pair h' l' = pair h l - uint s * q" by blast+
  have "h' \<noteq> 0 \<or> s < l' \<longleftrightarrow> pair 0 s < pair h' l'"
    by (simp only: pair_less word_gt_0) auto
  also have "\<dots> \<longleftrightarrow> uint s < pair h l - uint s * q" using r by (simp add: pair_def)
  also have "\<dots> \<longleftrightarrow> uint s * 2 ^ Suc n < pair h l"
  proof (cases "uint s * 2 ^ Suc n \<le> pair h l")
    case True
    then show ?thesis by (simp add: q_def loop_quotient_def algebra_simps)
  next
    case False
    then have "0 < uint s" using k uint_nonneg [of s] by (cases "uint s = 0") (simp, linarith)
    then have "pair h l mod uint s < uint s" by simp
    then show ?thesis using False by (simp add: q_def loop_quotient_def minus_div_mult_eq_mod [symmetric] mult.commute)
  qed
  finally show iff: "h' \<noteq> 0 \<or> s < l' \<longleftrightarrow> uint s * 2 ^ Suc n < pair h l" .
  show "uint l' = pair h l - uint s * q" if "uint s * 2 ^ Suc n \<ge> pair h l"
    using iff that r by (simp add: pair_def)
qed

lemma div_long_complete:
  fixes r :: "'a x86emu_regs_scheme" and s :: u32
  defines "k \<equiv> uint (R_EDX r) * 2 ^ 32 + uint (R_EAX r)"
  shows "if s = 0 \<or> uint s * 2 ^ 33 < k then div_long s r = INTR_RAISE_DIV0 r
    else \<exists>f e e'. div_long s r = r\<lparr>R_FLG := f, R_EAX := e, R_EDX := e'\<rparr> \<and>
      uint e = loop_quotient 32 k (uint s) mod 2 ^ 32 \<and> uint e' = k - uint s * loop_quotient 32 k (uint s)"
proof (cases "s = 0")
  case False
  obtain dv h l where q: "divide_loop s 32 0 (R_EDX r) (R_EAX r) s 0 = (dv, h, l)"
    by (cases "divide_loop s 32 0 (R_EDX r) (R_EAX r) s 0")
  have k: "pair (R_EDX r) (R_EAX r) = k" by (simp add: pair_def k_def)
  note R = divide_loop_result [OF order_refl pair_divisor q, unfolded k]
  show ?thesis
  proof (cases "uint s * 2 ^ 33 < k")
    case True
    then have "h \<noteq> 0 \<or> s < l" using R(3) by simp
    then show ?thesis using True False by (simp add: div_long_def q)
  next
    case no: False
    then have "\<not> (h \<noteq> 0 \<or> s < l)" using R(3) by simp
    then have "div_long s r = r\<lparr>R_FLG := long_division_flags l (R_FLG r), R_EAX := dv, R_EDX := l\<rparr>"
      using False by (simp add: div_long_def q)
    moreover have "uint l = k - uint s * loop_quotient 32 k (uint s)" using R(4) no by simp
    ultimately show ?thesis using False no R(1) by (simp only: if_False simp_thms) (rule result_updated, simp)
  qed
qed (simp add: div_long_def)

lemma idiv_long_complete:
  fixes r :: "'a x86emu_regs_scheme" and s :: u32
  defines "k \<equiv> uint (R_EDX r AND 0x7FFFFFFF) * 2 ^ 32 + uint (R_EAX r)" and "d \<equiv> uint (s AND 0x7FFFFFFF)"
  shows "if s = 0 \<or> d * 2 ^ 32 < k then idiv_long s r = INTR_RAISE_DIV0 r
    else \<exists>f e e'. idiv_long s r = r\<lparr>R_FLG := f, R_EAX := e, R_EDX := e'\<rparr> \<and>
      e = word_of_int (loop_quotient 31 k d) OR ((R_EDX r AND 0x10000000) XOR (s AND 0x10000000)) \<and>
      uint e' = k - d * loop_quotient 31 k d"
proof (cases "s = 0")
  case False
  let ?s = "s AND 0x7FFFFFFF" and ?h = "R_EDX r AND 0x7FFFFFFF"
  obtain dv h l where q: "divide_loop ?s 31 0 ?h (R_EAX r) (drop_bit 1 ?s) (push_bit 31 ?s) = (dv, h, l)"
    by (cases "divide_loop ?s 31 0 ?h (R_EAX r) (drop_bit 1 ?s) (push_bit 31 ?s)")
  have k: "pair ?h (R_EAX r) = k" by (simp add: pair_def k_def)
  have half: "pair (drop_bit 1 ?s) (push_bit 31 ?s) = uint ?s * 2 ^ 31" by (rule halve_divisor [of ?s 0]) (simp add: pair_divisor)
  have "(31 :: nat) \<le> 32" by simp
  note R = divide_loop_result [OF this half q, unfolded k d_def [symmetric]]
  show ?thesis
  proof (cases "d * 2 ^ 32 < k")
    case True
    then have "h \<noteq> 0 \<or> ?s < l" using R(3) by simp
    then show ?thesis using True False by (simp only: idiv_long_def Let_def q prod.case if_False if_True simp_thms)
  next
    case no: False
    then have "\<not> (h \<noteq> 0 \<or> ?s < l)" using R(3) by simp
    then have "idiv_long s r = r\<lparr>R_FLG := long_division_flags l (R_FLG r),
        R_EAX := dv OR ((R_EDX r AND 0x10000000) XOR (s AND 0x10000000)), R_EDX := l\<rparr>"
      using False by (simp only: idiv_long_def Let_def q prod.case if_False simp_thms)
    moreover have "uint l = k - d * loop_quotient 31 k d" using R(4) no by simp
    moreover have "dv = word_of_int (loop_quotient 31 k d)"
      using R(1) by (intro word_uint_eqI) (simp add: uint_word_of_int)
    ultimately show ?thesis using False no by (simp only: if_False simp_thms) (rule result_updated, simp)
  qed
qed (simp add: idiv_long_def)

text \<open>The 16-bit divisions by 1 for which \<open>abs\<close> of the quotient, taken as a signed number, does not report the overflow.\<close>

lemma c_abs_large: "2147483648 < uint w \<Longrightarrow> c_abs w = 2 ^ 32 - uint w" for w :: u32
proof -
  assume "2147483648 < uint w"
  then have "c_abs (word_of_int (uint w - 2 ^ 32)) = \<bar>uint w - 2 ^ 32\<bar>"
    using uint_lt2p [of w] by (intro c_abs_small) simp_all
  moreover have "word_of_int (uint w - 2 ^ 32) = w"
    using uint_lt2p [of w] by (intro word_uint_eqI) (simp only: uint_word_of_int, simp)
  ultimately have "c_abs w = \<bar>uint w - 2 ^ 32\<bar>" by (simp only:)
  then show ?thesis using uint_lt2p [of w] by simp
qed

lemma c_abs_halfway: "uint w = 2147483648 \<Longrightarrow> c_abs w = - 2147483648" for w :: u32
proof -
  assume "uint w = 2147483648"
  then have "w = 0x80000000" by (intro word_uint_eqI) simp
  then show ?thesis by (simp add: c_abs_def)
qed

lemma div_word_by_one:
  fixes r :: "'a x86emu_regs_scheme"
  defines "a \<equiv> uint (x_reg (R_EDX r)) * 2 ^ 16 + uint (x_reg (R_EAX r))"
  assumes dx: "1 \<le> uint (x_reg (R_EDX r))"
  shows "if a = 2 ^ 31 \<or> 2 ^ 32 - 2 ^ 16 < a
    then \<exists>f e e'. div_word 1 r = r\<lparr>R_FLG := f, R_EAX := e, R_EDX := e'\<rparr> \<and> uint (x_reg e) = a mod 2 ^ 16 \<and> uint (x_reg e') = 0
    else div_word 1 r = INTR_RAISE_DIV0 r"
proof -
  let ?d = "push_bit 16 (ucast (x_reg (R_EDX r))) OR ucast (x_reg (R_EAX r)) :: u32"
  have d: "uint ?d = a" by (simp add: pair_DX_AX a_def)
  have "1 * 65536 \<le> uint (x_reg (R_EDX r)) * 65536" using dx by (intro mult_right_mono) simp_all
  then have a: "65536 \<le> a" by (simp add: a_def add_increasing2)
  have big: "c_abs ?d > 0xffff \<longleftrightarrow> \<not> (a = 2 ^ 31 \<or> 2 ^ 32 - 2 ^ 16 < a)"
  proof (cases a "2147483648 :: int" rule: linorder_cases)
    case less
    then show ?thesis using a c_abs_uint [of ?d] by (simp add: d)
  next
    case equal
    then show ?thesis using c_abs_halfway [of ?d] by (simp add: d)
  next
    case greater
    then show ?thesis using c_abs_large [of ?d] by (simp add: d) linarith
  qed
  have one: "?d div ucast (1 :: u16) = ?d" "?d mod ucast (1 :: u16) = 0" by simp_all
  have "uint (ucast ?d :: u16) = a mod 2 ^ 16" by (simp only: uint_low_half d)
  then show ?thesis
    using big by (simp only: div_word_def Let_def one if_False if_True split: if_split) (auto intro!: result_updated)
qed

lemma div_word_complete:
  fixes r :: "'a x86emu_regs_scheme"
  defines "a \<equiv> uint (x_reg (R_EDX r)) * 2 ^ 16 + uint (x_reg (R_EAX r))"
  shows "if sw = 0 \<or> uint sw \<le> uint (x_reg (R_EDX r)) \<and> \<not> (sw = 1 \<and> (a = 2 ^ 31 \<or> 2 ^ 32 - 2 ^ 16 < a))
    then div_word sw r = INTR_RAISE_DIV0 r
    else \<exists>f e e'. div_word sw r = r\<lparr>R_FLG := f, R_EAX := e, R_EDX := e'\<rparr> \<and>
      uint (x_reg e) = (if uint (x_reg (R_EDX r)) < uint sw then a div uint sw else a mod 2 ^ 16) \<and>
      uint (x_reg e') = a mod uint sw"
proof (cases "sw = 0 \<or> uint (x_reg (R_EDX r)) < uint sw")
  case True
  then show ?thesis
  proof
    assume lt: "uint (x_reg (R_EDX r)) < uint sw"
    then have "sw \<noteq> 0" using uint_nonneg [of "x_reg (R_EDX r)"] by auto
    then show ?thesis using div_word_result(2) [OF lt] lt by (simp add: a_def)
  qed (use div_word_result(1) [of sw r] in simp)
next
  case False
  show ?thesis
  proof (cases "sw = 1")
    case True
    then show ?thesis using div_word_by_one [of r, folded a_def] False by (auto intro!: result_updated split: if_splits)
  next
    case no: False
    moreover have "uint sw \<noteq> 1" using no by (simp add: word_uint_eq_iff)
    ultimately have "1 < uint sw" using False uint_pos [of sw] by linarith
    then show ?thesis using div_word_result(1) [of sw r] False no by simp
  qed
qed

lemma div_long_exact:
  fixes r :: "'a x86emu_regs_scheme" and s :: u32
  defines "a \<equiv> uint (R_EDX r) * 2 ^ 32 + uint (R_EAX r)"
  shows "if s = 0 \<or> uint s * 2 ^ 33 < a then div_long s r = INTR_RAISE_DIV0 r
    else \<exists>f e e'. div_long s r = r\<lparr>R_FLG := f, R_EAX := e, R_EDX := e'\<rparr> \<and>
      (if a = uint s * 2 ^ 33 then uint e = 2 ^ 32 - 1 \<and> e' = s
       else uint e = (if R_EDX r < s then a div uint s else a div uint s mod 2 ^ 32) \<and> uint e' = a mod uint s)"
proof -
  have q: "loop_quotient 32 a (uint s) = (if uint s * 2 ^ 33 \<le> a then 2 ^ 33 - 1 else a div uint s)"
    by (simp add: loop_quotient_def)
  have fits: "a div uint s mod 2 ^ 32 = a div uint s" if "R_EDX r < s"
    using quotient_32 [OF pair_bound(2) pair_bound(1) [OF that] positive_of_less [OF that], of "R_EAX r"]
    by (simp add: pair_def a_def)
  show ?thesis
  proof (cases "s = 0 \<or> uint s * 2 ^ 33 < a")
    case True
    then show ?thesis using div_long_complete [of s r] by (simp only: a_def [symmetric] if_True)
  next
    case False
    then obtain f e e' where r: "div_long s r = r\<lparr>R_FLG := f, R_EAX := e, R_EDX := e'\<rparr>"
      and e: "uint e = loop_quotient 32 a (uint s) mod 2 ^ 32" and e': "uint e' = a - uint s * loop_quotient 32 a (uint s)"
      using div_long_complete [of s r] unfolding a_def [symmetric] by (auto simp only: if_False)
    have "if a = uint s * 2 ^ 33 then uint e = 2 ^ 32 - 1 \<and> e' = s
       else uint e = (if R_EDX r < s then a div uint s else a div uint s mod 2 ^ 32) \<and> uint e' = a mod uint s"
    proof (cases "a = uint s * 2 ^ 33")
      case True
      then show ?thesis using e e' by (simp add: loop_quotient_def word_uint_eq_iff)
    next
      case no: False
      then show ?thesis using e e' False fits by (simp add: q minus_div_mult_eq_mod [symmetric] mult.commute)
    qed
    then show ?thesis using False r by (simp only: if_False) blast
  qed
qed

lemma idiv_word_complete:
  fixes r :: "'a x86emu_regs_scheme" and sw :: u16
  defines "a \<equiv> sint (x_reg (R_EDX r)) * 2 ^ 16 + uint (x_reg (R_EAX r))"
  shows "if a = - (2 ^ 31) \<and> sint sw = - 1 then idiv_word sw r = None
    else if sw = 0 \<or> 32767 < \<bar>a sdiv sint sw\<bar> \<and> \<not> (a = - (2 ^ 31) \<and> sint sw = 1)
    then idiv_word sw r = Some (INTR_RAISE_DIV0 r)
    else \<exists>f e e'. idiv_word sw r = Some (r\<lparr>R_FLG := f, R_EAX := e, R_EDX := e'\<rparr>) \<and>
      sint (x_reg e) = (if a = - (2 ^ 31) \<and> sint sw = 1 then 0 else a sdiv sint sw) \<and> sint (x_reg e') = a smod sint sw"
proof (cases "a = - (2 ^ 31) \<and> sint sw = 1")
  case True
  let ?p = "push_bit 16 (ucast (x_reg (R_EDX r))) OR ucast (x_reg (R_EAX r)) :: u32"
  have p: "sint ?p = - 2147483648" using sint_high_half [of ?p] True unfolding pair_parts a_def by simp
  have sw: "sw \<noteq> 0" "sint sw = 1" using True by auto
  have "c_abs (word_of_int (- 2147483648)) = - 2147483648" by (simp add: c_abs_def)
  moreover have "2147483648 smod (1 :: int) = 0" by (simp add: signed_modulo_int_def)
  moreover have "with_x_reg 2147483648 e = with_x_reg 0 e" for e by (rule arg_cong2 [where f = with_x_reg]) simp_all
  ultimately have "idiv_word sw r = Some (r\<lparr>R_FLG := CONDITIONAL_SET_FLAG (PARITY ((0 :: u32) AND 0xff)) F_PF
      (CONDITIONAL_SET_FLAG False F_ZF (CLEAR_FLAG F_SF (CLEAR_FLAG F_CF (R_FLG r)))),
      R_EAX := with_x_reg 0 (R_EAX r), R_EDX := with_x_reg 0 (R_EDX r)\<rparr>)"
    using sw by (simp add: idiv_word_def Let_def p ucast_word_of_int)
  moreover have "a smod sint sw = 0" using sw by (simp add: signed_modulo_int_def)
  ultimately show ?thesis using True sw by (auto intro!: result_updated)
next
  case False
  show ?thesis using idiv_word_result [of r sw, folded a_def, OF False] by (simp only: False simp_thms if_False)
qed

text \<open>
  C33. \<open>DIV\<close>, completely. 8 bits: interrupt 0 is raised with the registers unchanged if the divisor is 0 or the quotient does
  not fit; otherwise quotient and remainder of \<open>AX\<close> are in \<open>AL\<close> and \<open>AH\<close>. 16 bits, likewise for \<open>DX:AX\<close>, with one
  exception: divided by 1, the dividends \<open>2 ^ 31\<close> and above \<open>2 ^ 32 - 2 ^ 16\<close> raise no interrupt, and the low half of the quotient is
  returned. 32 bits, computed by shifting and subtracting: the result is the quotient and the remainder of \<open>EDX:EAX\<close> if
  \<open>EDX\<close> is less than the divisor, as on a processor, but no interrupt is raised either for quotients of 33 bits, which are
  returned modulo \<open>2 ^ 32\<close>; interrupt 0 is raised exactly for a divisor of 0 and a quotient above \<open>2 ^ 33\<close>, and for a dividend of
  exactly \<open>2 ^ 33\<close> times the divisor the remainder returned is the divisor.
\<close>

theorem unsigned_division:
  "(if sb = 0 \<or> uint sb \<le> uint (h_reg (R_EAX r)) then div_byte sb r = INTR_RAISE_DIV0 r
    else \<exists>e. div_byte sb r = r\<lparr>R_EAX := e\<rparr> \<and> uint (l_reg e) = uint (x_reg (R_EAX r)) div uint sb \<and>
      uint (h_reg e) = uint (x_reg (R_EAX r)) mod uint sb) \<and>
   (let a = uint (x_reg (R_EDX r)) * 2 ^ 16 + uint (x_reg (R_EAX r))
    in if sw = 0 \<or> uint sw \<le> uint (x_reg (R_EDX r)) \<and> \<not> (sw = 1 \<and> (a = 2 ^ 31 \<or> 2 ^ 32 - 2 ^ 16 < a))
       then div_word sw r = INTR_RAISE_DIV0 r
       else \<exists>f e e'. div_word sw r = r\<lparr>R_FLG := f, R_EAX := e, R_EDX := e'\<rparr> \<and>
         uint (x_reg e) = (if uint (x_reg (R_EDX r)) < uint sw then a div uint sw else a mod 2 ^ 16) \<and>
         uint (x_reg e') = a mod uint sw) \<and>
   (let a = uint (R_EDX r) * 2 ^ 32 + uint (R_EAX r)
    in if sl = 0 \<or> uint sl * 2 ^ 33 < a then div_long sl r = INTR_RAISE_DIV0 r
       else \<exists>f e e'. div_long sl r = r\<lparr>R_FLG := f, R_EAX := e, R_EDX := e'\<rparr> \<and>
         (if a = uint sl * 2 ^ 33 then uint e = 2 ^ 32 - 1 \<and> e' = sl
          else uint e = (if R_EDX r < sl then a div uint sl else a div uint sl mod 2 ^ 32) \<and> uint e' = a mod uint sl))"
unfolding Let_def by (intro conjI div_byte_result div_word_complete div_long_exact)

theorem unsigned_division_witness:
  "\<exists>f e e'. div_long 10 (empty_regs\<lparr>R_EDX := 5, R_EAX := 7\<rparr>) = empty_regs\<lparr>R_EDX := 5, R_EAX := 7, R_FLG := f, R_EAX := e, R_EDX := e'\<rparr> \<and>
     uint e = 21474836487 div 10 \<and> uint e' = 21474836487 mod 10"
  using unsigned_division [where r = "empty_regs\<lparr>R_EDX := 5, R_EAX := 7\<rparr>" and sl = 10 and sb = 0 and sw = 0] by (simp add: Let_def)

text \<open>
  C34. \<open>IDIV\<close>, completely. 8 bits: interrupt 0 is raised with the registers unchanged for a divisor of 0 and for a quotient
  whose absolute value exceeds 127 (so, unlike on a processor, for the quotient \<open>- 128\<close>); otherwise \<open>AX\<close> is divided with
  truncation, quotient in \<open>AL\<close> and remainder in \<open>AH\<close>. 16 bits, likewise for \<open>DX:AX\<close>, with two exceptions: \<open>- 2 ^ 31\<close> divided by
  \<open>- 1\<close> faults on the host, and divided by 1 it raises no interrupt and returns 0. 32 bits: the sign bits are dropped from
  dividend and divisor, the rest is divided as an unsigned number, and bit 28 of the quotient is set if the bits 28 of
  \<open>EDX\<close> and divisor differ; interrupt 0 is raised exactly for a divisor of 0 and if the unsigned quotient exceeds
  \<open>2 ^ 32\<close>. So the result is the right one for non-negative operands with \<open>EDX\<close> less than the divisor and the divisor below \<open>2 ^ 28\<close>.
\<close>

theorem signed_division:
  "(let a = sint (x_reg (R_EAX r))
    in if sb = 0 \<or> 127 < \<bar>a sdiv sint sb\<bar> then idiv_byte sb r = INTR_RAISE_DIV0 r
       else \<exists>e. idiv_byte sb r = r\<lparr>R_EAX := e\<rparr> \<and> sint (l_reg e) = a sdiv sint sb \<and> sint (h_reg e) = a smod sint sb) \<and>
   (let a = sint (x_reg (R_EDX r)) * 2 ^ 16 + uint (x_reg (R_EAX r))
    in if a = - (2 ^ 31) \<and> sint sw = - 1 then idiv_word sw r = None
       else if sw = 0 \<or> 32767 < \<bar>a sdiv sint sw\<bar> \<and> \<not> (a = - (2 ^ 31) \<and> sint sw = 1)
       then idiv_word sw r = Some (INTR_RAISE_DIV0 r)
       else \<exists>f e e'. idiv_word sw r = Some (r\<lparr>R_FLG := f, R_EAX := e, R_EDX := e'\<rparr>) \<and>
         sint (x_reg e) = (if a = - (2 ^ 31) \<and> sint sw = 1 then 0 else a sdiv sint sw) \<and> sint (x_reg e') = a smod sint sw) \<and>
   (let a = uint (R_EDX r AND 0x7FFFFFFF) * 2 ^ 32 + uint (R_EAX r); d = uint (sl AND 0x7FFFFFFF)
    in if sl = 0 \<or> d * 2 ^ 32 < a then idiv_long sl r = INTR_RAISE_DIV0 r
       else \<exists>f e e'. idiv_long sl r = r\<lparr>R_FLG := f, R_EAX := e, R_EDX := e'\<rparr> \<and>
         e = word_of_int (loop_quotient 31 a d) OR ((R_EDX r AND 0x10000000) XOR (sl AND 0x10000000)) \<and>
         uint e' = a - d * loop_quotient 31 a d) \<and>
   (R_EDX r < sl \<and> uint sl < 2 ^ 28 \<longrightarrow> (\<exists>f e e'. idiv_long sl r = r\<lparr>R_FLG := f, R_EAX := e, R_EDX := e'\<rparr> \<and>
      uint e = (uint (R_EDX r) * 2 ^ 32 + uint (R_EAX r)) div uint sl \<and>
      uint e' = (uint (R_EDX r) * 2 ^ 32 + uint (R_EAX r)) mod uint sl))"
using idiv_long_result [of r sl] unfolding Let_def pair_def
  by (intro conjI idiv_byte_result idiv_word_complete idiv_long_complete) blast

theorem signed_division_witness:
  "\<exists>f e e'. idiv_long 10 (empty_regs\<lparr>R_EDX := 5, R_EAX := 7\<rparr>) = empty_regs\<lparr>R_EDX := 5, R_EAX := 7, R_FLG := f, R_EAX := e, R_EDX := e'\<rparr> \<and>
     uint e = 21474836487 div 10 \<and> uint e' = 21474836487 mod 10"
  using signed_division [where r = "empty_regs\<lparr>R_EDX := 5, R_EAX := 7\<rparr>" and sl = 10 and sb = 0 and sw = 0,
      THEN conjunct2, THEN conjunct2, THEN conjunct2] by simp

end
