(* ===== verification/X86emu_Ops_Alu.thy ===== *)
theory X86emu_Ops_Alu
  imports X86emu_Decode X86emu_Muldiv
begin

text \<open>
  The arithmetic instructions of the one-byte opcode table (\<open>libx86emu/ops.c\<close>): the operations on registers and
  memory of the groups \<open>op_A\<close> (add to compare) and \<open>op_B\<close> (rotations and shifts), increments, multiplications, divisions
  and decimal adjustments. Each handler takes the state after the opcode byte was fetched; its disassembly
  text is accounted for by a bound on its length (\<open>execute\<close> in X86emu_Run). A result \<open>None\<close> is a fault of the host processor: a division by zero or an overflowing signed division.
\<close>

section \<open>The operations selected by an opcode\<close>

definition alu :: "(flags \<Rightarrow> 'b \<times> flags) \<Rightarrow> x86emu \<Rightarrow> 'b \<times> x86emu" where
  "alu f s = (let (v, fl) = f (R_FLG s) in (v, s\<lparr>R_FLG := fl\<rparr>))"

definition op_A_byte :: "nat \<Rightarrow> u8 \<Rightarrow> u8 \<Rightarrow> flags \<Rightarrow> u8 \<times> flags" where
  "op_A_byte type = [add_byte, or_byte, adc_byte, sbb_byte, and_byte, sub_byte, xor_byte, cmp_byte] ! type"

definition op_A_word :: "nat \<Rightarrow> u16 \<Rightarrow> u16 \<Rightarrow> flags \<Rightarrow> u16 \<times> flags" where
  "op_A_word type = [add_word, or_word, adc_word, sbb_word, and_word, sub_word, xor_word, cmp_word] ! type"

definition op_A_long :: "nat \<Rightarrow> u32 \<Rightarrow> u32 \<Rightarrow> flags \<Rightarrow> u32 \<times> flags" where
  "op_A_long type = [add_long, or_long, adc_long, sbb_long, and_long, sub_long, xor_long, cmp_long] ! type"

definition op_B_byte :: "nat \<Rightarrow> u8 \<Rightarrow> u8 \<Rightarrow> flags \<Rightarrow> u8 \<times> flags" where
  "op_B_byte type = [rol_byte, ror_byte, rcl_byte, rcr_byte, shl_byte, shr_byte, shl_byte, sar_byte] ! type"

definition op_B_word :: "nat \<Rightarrow> u16 \<Rightarrow> u8 \<Rightarrow> flags \<Rightarrow> u16 \<times> flags" where
  "op_B_word type = [rol_word, ror_word, rcl_word, rcr_word, shl_word, shr_word, shl_word, sar_word] ! type"

definition op_B_long :: "nat \<Rightarrow> u32 \<Rightarrow> u8 \<Rightarrow> flags \<Rightarrow> u32 \<times> flags" where
  "op_B_long type = [rol_long, ror_long, rcl_long, rcr_long, shl_long, shr_long, shl_long, sar_long] ! type"

text \<open>Setting the 8-, 16- or 32-bit register \<open>reg\<close> to the result of an operation.\<close>

abbreviation "rm_byte \<equiv> decode_rm_byte_register"
abbreviation "rm_word \<equiv> decode_rm_word_register"
abbreviation "rm_long \<equiv> decode_rm_long_register"
abbreviation "set_rm_byte \<equiv> set_rm_byte_register"
abbreviation "set_rm_word \<equiv> set_rm_word_register"
abbreviation "set_rm_long \<equiv> set_rm_long_register"

section \<open>Two operands\<close>

definition x86emuOp_op_A_byte_RM_R :: "device \<Rightarrow> u8 \<Rightarrow> x86emu \<Rightarrow> x86emu" where
  "x86emuOp_op_A_byte_RM_R dev op1 s =
     (let type = unat (drop_bit 3 op1);
          ((md, rh, rl), s) = fetch_decode_modrm dev s
      in if md = 3 then
           let (v, s) = alu (op_A_byte type (rm_byte rl s) (rm_byte rh s)) s in set_rm_byte rl v s
         else
           let (addr, s) = decode_rm_address dev md rl s;
               (val, s) = fetch_data_byte dev addr s;
               (val, s) = alu (op_A_byte type val (rm_byte rh s)) s
           in if type \<noteq> 7 then store_data_byte dev addr val s else s)"

definition x86emuOp_op_A_word_RM_R :: "device \<Rightarrow> u8 \<Rightarrow> x86emu \<Rightarrow> x86emu" where
  "x86emuOp_op_A_word_RM_R dev op1 s =
     (let type = unat (drop_bit 3 op1);
          ((md, rh, rl), s) = fetch_decode_modrm dev s
      in if md = 3 then
           if MODE_DATA32 s
           then let (v, s) = alu (op_A_long type (rm_long rl s) (rm_long rh s)) s in set_rm_long rl v s
           else let (v, s) = alu (op_A_word type (rm_word rl s) (rm_word rh s)) s in set_rm_word rl v s
         else
           let (addr, s) = decode_rm_address dev md rl s
           in if MODE_DATA32 s then
                let (val, s) = fetch_data_long dev addr s;
                    (val, s) = alu (op_A_long type val (rm_long rh s)) s
                in if type \<noteq> 7 then store_data_long dev addr val s else s
              else
                let (val, s) = fetch_data_word dev addr s;
                    (val, s) = alu (op_A_word type val (rm_word rh s)) s
                in if type \<noteq> 7 then store_data_word dev addr val s else s)"

definition x86emuOp_op_A_byte_R_RM :: "device \<Rightarrow> u8 \<Rightarrow> x86emu \<Rightarrow> x86emu" where
  "x86emuOp_op_A_byte_R_RM dev op1 s =
     (let type = unat (drop_bit 3 op1);
          ((md, rh, rl), s) = fetch_decode_modrm dev s
      in if md = 3 then
           let (v, s) = alu (op_A_byte type (rm_byte rh s) (rm_byte rl s)) s in set_rm_byte rh v s
         else
           let (addr, s) = decode_rm_address dev md rl s;
               (val, s) = fetch_data_byte dev addr s;
               (v, s) = alu (op_A_byte type (rm_byte rh s) val) s
           in set_rm_byte rh v s)"

definition x86emuOp_op_A_word_R_RM :: "device \<Rightarrow> u8 \<Rightarrow> x86emu \<Rightarrow> x86emu" where
  "x86emuOp_op_A_word_R_RM dev op1 s =
     (let type = unat (drop_bit 3 op1);
          ((md, rh, rl), s) = fetch_decode_modrm dev s
      in if md = 3 then
           if MODE_DATA32 s
           then let (v, s) = alu (op_A_long type (rm_long rh s) (rm_long rl s)) s in set_rm_long rh v s
           else let (v, s) = alu (op_A_word type (rm_word rh s) (rm_word rl s)) s in set_rm_word rh v s
         else if MODE_DATA32 s then
           let (addr, s) = decode_rm_address dev md rl s;
               (val, s) = fetch_data_long dev addr s;
               (v, s) = alu (op_A_long type (rm_long rh s) val) s
           in set_rm_long rh v s
         else
           let (addr, s) = decode_rm_address dev md rl s;
               (val, s) = fetch_data_word dev addr s;
               (v, s) = alu (op_A_word type (rm_word rh s) val) s
           in set_rm_word rh v s)"

definition x86emuOp_op_A_byte_AL_IMM :: "device \<Rightarrow> u8 \<Rightarrow> x86emu \<Rightarrow> x86emu" where
  "x86emuOp_op_A_byte_AL_IMM dev op1 s =
     (let type = unat (drop_bit 3 op1);
          (val, s) = fetch_byte dev s;
          (v, s) = alu (op_A_byte type (rm_byte 0 s) val) s
      in set_rm_byte 0 v s)"

definition x86emuOp_op_A_word_AX_IMM :: "device \<Rightarrow> u8 \<Rightarrow> x86emu \<Rightarrow> x86emu" where
  "x86emuOp_op_A_word_AX_IMM dev op1 s =
     (let type = unat (drop_bit 3 op1)
      in if MODE_DATA32 s then
           let (val, s) = fetch_long dev s;
               (v, s) = alu (op_A_long type (R_EAX s) val) s
           in s\<lparr>R_EAX := v\<rparr>
         else
           let (val, s) = fetch_word dev s;
               (v, s) = alu (op_A_word type (rm_word 0 s) val) s
           in set_rm_word 0 v s)"

definition x86emuOp_opc80_byte_RM_IMM :: "device \<Rightarrow> x86emu \<Rightarrow> x86emu" where
  "x86emuOp_opc80_byte_RM_IMM dev s =
     (let ((md, rh, rl), s) = fetch_decode_modrm dev s
      in if md = 3 then
           let (imm, s) = fetch_byte dev s;
               (val, s) = alu (op_A_byte rh (rm_byte rl s) imm) s
           in if rh \<noteq> 7 then set_rm_byte rl val s else s
         else
           let (addr, s) = decode_rm_address dev md rl s;
               (val, s) = fetch_data_byte dev addr s;
               (imm, s) = fetch_byte dev s;
               (val, s) = alu (op_A_byte rh val imm) s
           in if rh \<noteq> 7 then store_data_byte dev addr val s else s)"

definition x86emuOp_opc81_word_RM_IMM :: "device \<Rightarrow> x86emu \<Rightarrow> x86emu" where
  "x86emuOp_opc81_word_RM_IMM dev s =
     (let ((md, rh, rl), s) = fetch_decode_modrm dev s
      in if md = 3 then
           if MODE_DATA32 s then
             let (imm, s) = fetch_long dev s;
                 (val, s) = alu (op_A_long rh (rm_long rl s) imm) s
             in if rh \<noteq> 7 then set_rm_long rl val s else s
           else
             let (imm, s) = fetch_word dev s;
                 (val, s) = alu (op_A_word rh (rm_word rl s) imm) s
             in if rh \<noteq> 7 then set_rm_word rl val s else s
         else if MODE_DATA32 s then
           let (addr, s) = decode_rm_address dev md rl s;
               (val, s) = fetch_data_long dev addr s;
               (imm, s) = fetch_long dev s;
               (val, s) = alu (op_A_long rh val imm) s
           in if rh \<noteq> 7 then store_data_long dev addr val s else s
         else
           let (addr, s) = decode_rm_address dev md rl s;
               (val, s) = fetch_data_word dev addr s;
               (imm, s) = fetch_word dev s;
               (val, s) = alu (op_A_word rh val imm) s
           in if rh \<noteq> 7 then store_data_word dev addr val s else s)"

definition x86emuOp_opc83_word_RM_IMM :: "device \<Rightarrow> x86emu \<Rightarrow> x86emu" where
  "x86emuOp_opc83_word_RM_IMM dev s =
     (let ((md, rh, rl), s) = fetch_decode_modrm dev s
      in if md = 3 then
           if MODE_DATA32 s then
             let (imm, s) = fetch_byte dev s;
                 (val, s) = alu (op_A_long rh (rm_long rl s) (scast imm)) s
             in if rh \<noteq> 7 then set_rm_long rl val s else s
           else
             let (imm, s) = fetch_byte dev s;
                 (val, s) = alu (op_A_word rh (rm_word rl s) (scast imm)) s
             in if rh \<noteq> 7 then set_rm_word rl val s else s
         else if MODE_DATA32 s then
           let (addr, s) = decode_rm_address dev md rl s;
               (val, s) = fetch_data_long dev addr s;
               (imm, s) = fetch_byte dev s;
               (val, s) = alu (op_A_long rh val (scast imm)) s
           in if rh \<noteq> 7 then store_data_long dev addr val s else s
         else
           let (addr, s) = decode_rm_address dev md rl s;
               (val, s) = fetch_data_word dev addr s;
               (imm, s) = fetch_byte dev s;
               (val, s) = alu (op_A_word rh val (scast imm)) s
           in if rh \<noteq> 7 then store_data_word dev addr val s else s)"

section \<open>Tests\<close>

definition set_flags :: "(flags \<Rightarrow> flags) \<Rightarrow> x86emu \<Rightarrow> x86emu" where
  "set_flags f s = s\<lparr>R_FLG := f (R_FLG s)\<rparr>"

definition x86emuOp_test_byte_RM_R :: "device \<Rightarrow> x86emu \<Rightarrow> x86emu" where
  "x86emuOp_test_byte_RM_R dev s =
     (let ((md, rh, rl), s) = fetch_decode_modrm dev s
      in if md = 3 then set_flags (test_byte (rm_byte rl s) (rm_byte rh s)) s
         else
           let (addr, s) = decode_rm_address dev md rl s;
               (val, s) = fetch_data_byte dev addr s
           in set_flags (test_byte val (rm_byte rh s)) s)"

definition x86emuOp_test_word_RM_R :: "device \<Rightarrow> x86emu \<Rightarrow> x86emu" where
  "x86emuOp_test_word_RM_R dev s =
     (let ((md, rh, rl), s) = fetch_decode_modrm dev s
      in if md = 3 then
           if MODE_DATA32 s then set_flags (test_long (rm_long rl s) (rm_long rh s)) s
           else set_flags (test_word (rm_word rl s) (rm_word rh s)) s
         else
           let (addr, s) = decode_rm_address dev md rl s
           in if MODE_DATA32 s then
                let (val, s) = fetch_data_long dev addr s in set_flags (test_long val (rm_long rh s)) s
              else
                let (val, s) = fetch_data_word dev addr s in set_flags (test_word val (rm_word rh s)) s)"

definition x86emuOp_test_AL_IMM :: "device \<Rightarrow> x86emu \<Rightarrow> x86emu" where
  "x86emuOp_test_AL_IMM dev s = (let (imm, s) = fetch_byte dev s in set_flags (test_byte (rm_byte 0 s) imm) s)"

definition x86emuOp_test_AX_IMM :: "device \<Rightarrow> x86emu \<Rightarrow> x86emu" where
  "x86emuOp_test_AX_IMM dev s =
     (if MODE_DATA32 s then let (imm, s) = fetch_long dev s in set_flags (test_long (R_EAX s) imm) s
      else let (imm, s) = fetch_word dev s in set_flags (test_word (rm_word 0 s) imm) s)"

section \<open>Shifts and rotations\<close>

definition x86emuOp_opcC0_byte_RM_MEM :: "device \<Rightarrow> x86emu \<Rightarrow> x86emu" where
  "x86emuOp_opcC0_byte_RM_MEM dev s =
     (let ((md, rh, rl), s) = fetch_decode_modrm dev s
      in if md = 3 then
           let (imm, s) = fetch_byte dev s;
               (val, s) = alu (op_B_byte rh (rm_byte rl s) imm) s
           in set_rm_byte rl val s
         else
           let (addr, s) = decode_rm_address dev md rl s;
               (val, s) = fetch_data_byte dev addr s;
               (imm, s) = fetch_byte dev s;
               (val, s) = alu (op_B_byte rh val imm) s
           in store_data_byte dev addr val s)"

definition x86emuOp_opcC1_word_RM_MEM :: "device \<Rightarrow> x86emu \<Rightarrow> x86emu" where
  "x86emuOp_opcC1_word_RM_MEM dev s =
     (let ((md, rh, rl), s) = fetch_decode_modrm dev s
      in if md = 3 then
           if MODE_DATA32 s then
             let (imm, s) = fetch_byte dev s;
                 (val, s) = alu (op_B_long rh (rm_long rl s) imm) s
             in set_rm_long rl val s
           else
             let (imm, s) = fetch_byte dev s;
                 (val, s) = alu (op_B_word rh (rm_word rl s) imm) s
             in set_rm_word rl val s
         else if MODE_DATA32 s then
           let (addr, s) = decode_rm_address dev md rl s;
               (val, s) = fetch_data_long dev addr s;
               (imm, s) = fetch_byte dev s;
               (val, s) = alu (op_B_long rh val imm) s
           in store_data_long dev addr val s
         else
           let (addr, s) = decode_rm_address dev md rl s;
               (val, s) = fetch_data_word dev addr s;
               (imm, s) = fetch_byte dev s;
               (val, s) = alu (op_B_word rh val imm) s
           in store_data_word dev addr val s)"

text \<open>The shift count of the next four is 1 or \<open>CL\<close>.\<close>

definition shift_byte_RM :: "device \<Rightarrow> u8 \<Rightarrow> nat \<Rightarrow> nat \<Rightarrow> nat \<Rightarrow> x86emu \<Rightarrow> x86emu" where
  "shift_byte_RM dev count md rh rl s =
     (if md = 3 then
        let (val, s) = alu (op_B_byte rh (rm_byte rl s) count) s in set_rm_byte rl val s
      else
        let (addr, s) = decode_rm_address dev md rl s;
            (val, s) = fetch_data_byte dev addr s;
            (val, s) = alu (op_B_byte rh val count) s
        in store_data_byte dev addr val s)"

definition shift_word_RM :: "device \<Rightarrow> u8 \<Rightarrow> nat \<Rightarrow> nat \<Rightarrow> nat \<Rightarrow> x86emu \<Rightarrow> x86emu" where
  "shift_word_RM dev count md rh rl s =
     (if md = 3 then
        if MODE_DATA32 s
        then let (val, s) = alu (op_B_long rh (rm_long rl s) count) s in set_rm_long rl val s
        else let (val, s) = alu (op_B_word rh (rm_word rl s) count) s in set_rm_word rl val s
      else if MODE_DATA32 s then
        let (addr, s) = decode_rm_address dev md rl s;
            (val, s) = fetch_data_long dev addr s;
            (val, s) = alu (op_B_long rh val count) s
        in store_data_long dev addr val s
      else
        let (addr, s) = decode_rm_address dev md rl s;
            (val, s) = fetch_data_word dev addr s;
            (val, s) = alu (op_B_word rh val count) s
        in store_data_word dev addr val s)"

definition x86emuOp_opcD0_byte_RM_1 :: "device \<Rightarrow> x86emu \<Rightarrow> x86emu" where
  "x86emuOp_opcD0_byte_RM_1 dev s =
     (let ((md, rh, rl), s) = fetch_decode_modrm dev s in shift_byte_RM dev 1 md rh rl s)"

definition x86emuOp_opcD1_word_RM_1 :: "device \<Rightarrow> x86emu \<Rightarrow> x86emu" where
  "x86emuOp_opcD1_word_RM_1 dev s =
     (let ((md, rh, rl), s) = fetch_decode_modrm dev s in shift_word_RM dev 1 md rh rl s)"

definition x86emuOp_opcD2_byte_RM_CL :: "device \<Rightarrow> x86emu \<Rightarrow> x86emu" where
  "x86emuOp_opcD2_byte_RM_CL dev s =
     (let ((md, rh, rl), s) = fetch_decode_modrm dev s in shift_byte_RM dev (rm_byte 1 s) md rh rl s)"

definition x86emuOp_opcD3_word_RM_CL :: "device \<Rightarrow> x86emu \<Rightarrow> x86emu" where
  "x86emuOp_opcD3_word_RM_CL dev s =
     (let ((md, rh, rl), s) = fetch_decode_modrm dev s in shift_word_RM dev (rm_byte 1 s) md rh rl s)"

section \<open>One operand\<close>

definition inc_register :: "nat \<Rightarrow> x86emu \<Rightarrow> x86emu" where
  "inc_register reg s =
     (if MODE_DATA32 s then let (v, s) = alu (inc_long (rm_long reg s)) s in set_rm_long reg v s
      else let (v, s) = alu (inc_word (rm_word reg s)) s in set_rm_word reg v s)"

definition dec_register :: "nat \<Rightarrow> x86emu \<Rightarrow> x86emu" where
  "dec_register reg s =
     (if MODE_DATA32 s then let (v, s) = alu (dec_long (rm_long reg s)) s in set_rm_long reg v s
      else let (v, s) = alu (dec_word (rm_word reg s)) s in set_rm_word reg v s)"

definition x86emuOp_inc_AX :: "x86emu \<Rightarrow> x86emu" where "x86emuOp_inc_AX = inc_register 0"
definition x86emuOp_inc_CX :: "x86emu \<Rightarrow> x86emu" where "x86emuOp_inc_CX = inc_register 1"
definition x86emuOp_inc_DX :: "x86emu \<Rightarrow> x86emu" where "x86emuOp_inc_DX = inc_register 2"
definition x86emuOp_inc_BX :: "x86emu \<Rightarrow> x86emu" where "x86emuOp_inc_BX = inc_register 3"
definition x86emuOp_inc_SP :: "x86emu \<Rightarrow> x86emu" where "x86emuOp_inc_SP = inc_register 4"
definition x86emuOp_inc_BP :: "x86emu \<Rightarrow> x86emu" where "x86emuOp_inc_BP = inc_register 5"
definition x86emuOp_inc_SI :: "x86emu \<Rightarrow> x86emu" where "x86emuOp_inc_SI = inc_register 6"
definition x86emuOp_inc_DI :: "x86emu \<Rightarrow> x86emu" where "x86emuOp_inc_DI = inc_register 7"
definition x86emuOp_dec_AX :: "x86emu \<Rightarrow> x86emu" where "x86emuOp_dec_AX = dec_register 0"
definition x86emuOp_dec_CX :: "x86emu \<Rightarrow> x86emu" where "x86emuOp_dec_CX = dec_register 1"
definition x86emuOp_dec_DX :: "x86emu \<Rightarrow> x86emu" where "x86emuOp_dec_DX = dec_register 2"
definition x86emuOp_dec_BX :: "x86emu \<Rightarrow> x86emu" where "x86emuOp_dec_BX = dec_register 3"
definition x86emuOp_dec_SP :: "x86emu \<Rightarrow> x86emu" where "x86emuOp_dec_SP = dec_register 4"
definition x86emuOp_dec_BP :: "x86emu \<Rightarrow> x86emu" where "x86emuOp_dec_BP = dec_register 5"
definition x86emuOp_dec_SI :: "x86emu \<Rightarrow> x86emu" where "x86emuOp_dec_SI = dec_register 6"
definition x86emuOp_dec_DI :: "x86emu \<Rightarrow> x86emu" where "x86emuOp_dec_DI = dec_register 7"

definition x86emuOp_opcF6_byte_RM :: "device \<Rightarrow> x86emu \<Rightarrow> x86emu" where
  "x86emuOp_opcF6_byte_RM dev s =
     (let ((md, rh, rl), s) = fetch_decode_modrm dev s
      in if md = 3 then
           if rh \<le> 1 then let (imm, s) = fetch_byte dev s in set_flags (test_byte (rm_byte rl s) imm) s
           else if rh = 2 then set_rm_byte rl (not_byte (rm_byte rl s)) s
           else if rh = 3 then let (v, s) = alu (neg_byte (rm_byte rl s)) s in set_rm_byte rl v s
           else if rh = 4 then mul_byte (rm_byte rl s) s
           else if rh = 5 then imul_byte (rm_byte rl s) s
           else if rh = 6 then div_byte (rm_byte rl s) s
           else idiv_byte (rm_byte rl s) s
         else
           let (addr, s) = decode_rm_address dev md rl s
           in if rh \<le> 1 then
                let (imm, s) = fetch_byte dev s;
                    (val, s) = fetch_data_byte dev addr s
                in set_flags (test_byte val imm) s
              else
                let (val, s) = fetch_data_byte dev addr s
                in if rh = 2 then store_data_byte dev addr (not_byte val) s
                   else if rh = 3 then let (val, s) = alu (neg_byte val) s in store_data_byte dev addr val s
                   else if rh = 4 then mul_byte val s
                   else if rh = 5 then imul_byte val s
                   else if rh = 6 then div_byte val s
                   else idiv_byte val s)"

text \<open>The 32-bit and the 16-bit half of opcode \<open>0xf7\<close>.\<close>

definition opcF7_long_RM :: "device \<Rightarrow> nat \<Rightarrow> nat \<Rightarrow> nat \<Rightarrow> x86emu \<Rightarrow> x86emu" where
  "opcF7_long_RM dev md rh rl s =
     (if md = 3 then
        if rh \<le> 1 then let (imm, s) = fetch_long dev s in set_flags (test_long (rm_long rl s) imm) s
        else if rh = 2 then set_rm_long rl (not_long (rm_long rl s)) s
        else if rh = 3 then let (v, s) = alu (neg_long (rm_long rl s)) s in set_rm_long rl v s
        else if rh = 4 then mul_long (rm_long rl s) s
        else if rh = 5 then imul_long (rm_long rl s) s
        else if rh = 6 then div_long (rm_long rl s) s
        else idiv_long (rm_long rl s) s
      else
        let (addr, s) = decode_rm_address dev md rl s
        in if rh \<le> 1 then
             let (imm, s) = fetch_long dev s;
                 (val, s) = fetch_data_long dev addr s
             in set_flags (test_long val imm) s
           else
             let (val, s) = fetch_data_long dev addr s
             in if rh = 2 then store_data_long dev addr (not_long val) s
                else if rh = 3 then let (val, s) = alu (neg_long val) s in store_data_long dev addr val s
                else if rh = 4 then mul_long val s
                else if rh = 5 then imul_long val s
                else if rh = 6 then div_long val s
                else idiv_long val s)"

definition opcF7_word_RM :: "device \<Rightarrow> nat \<Rightarrow> nat \<Rightarrow> nat \<Rightarrow> x86emu \<Rightarrow> x86emu option" where
  "opcF7_word_RM dev md rh rl s =
     (if md = 3 then
        if rh \<le> 1 then let (imm, s) = fetch_word dev s in Some (set_flags (test_word (rm_word rl s) imm) s)
        else if rh = 2 then Some (set_rm_word rl (not_word (rm_word rl s)) s)
        else if rh = 3 then let (v, s) = alu (neg_word (rm_word rl s)) s in Some (set_rm_word rl v s)
        else if rh = 4 then Some (mul_word (rm_word rl s) s)
        else if rh = 5 then Some (imul_word (rm_word rl s) s)
        else if rh = 6 then Some (div_word (rm_word rl s) s)
        else idiv_word (rm_word rl s) s
      else
        let (addr, s) = decode_rm_address dev md rl s
        in if rh \<le> 1 then
             let (imm, s) = fetch_word dev s;
                 (val, s) = fetch_data_word dev addr s
             in Some (set_flags (test_word val imm) s)
           else
             let (val, s) = fetch_data_word dev addr s
             in if rh = 2 then Some (store_data_word dev addr (not_word val) s)
                else if rh = 3 then let (val, s) = alu (neg_word val) s in Some (store_data_word dev addr val s)
                else if rh = 4 then Some (mul_word val s)
                else if rh = 5 then Some (imul_word val s)
                else if rh = 6 then Some (div_word val s)
                else idiv_word val s)"

definition x86emuOp_opcF7_word_RM :: "device \<Rightarrow> x86emu \<Rightarrow> x86emu option" where
  "x86emuOp_opcF7_word_RM dev s =
     (let ((md, rh, rl), s) = fetch_decode_modrm dev s
      in if MODE_DATA32 s then Some (opcF7_long_RM dev md rh rl s) else opcF7_word_RM dev md rh rl s)"

definition x86emuOp_opcFE_byte_RM :: "device \<Rightarrow> x86emu \<Rightarrow> x86emu" where
  "x86emuOp_opcFE_byte_RM dev s =
     (let ((md, rh, rl), s) = fetch_decode_modrm dev s
      in if rh > 1 then INTR_RAISE_UD s
         else if md = 3 then
           let (v, s) = alu (if rh = 0 then inc_byte (rm_byte rl s) else dec_byte (rm_byte rl s)) s in set_rm_byte rl v s
         else
           let (addr, s) = decode_rm_address dev md rl s;
               (val, s) = fetch_data_byte dev addr s;
               (val, s) = alu (if rh = 0 then inc_byte val else dec_byte val) s
           in store_data_byte dev addr val s)"

section \<open>Multiplication by a constant\<close>

text \<open>
  The 16-bit product is a 32-bit value read without sign. With an operand in memory opcode \<open>0x69\<close> extends the 16-bit
  constant with zeros.
\<close>

definition x86emuOp_imul_word_IMM :: "device \<Rightarrow> x86emu \<Rightarrow> x86emu" where
  "x86emuOp_imul_word_IMM dev s =
     (let ((md, rh, rl), s) = fetch_decode_modrm dev s
      in if md = 3 then
           if MODE_DATA32 s then
             let (imm, s) = fetch_long dev s;
                 (res_lo, res_hi) = imul_long_direct (rm_long rl s) imm
             in set_rm_long rh res_lo (mul_flags (res_hi = 0) s)
           else
             let (imm, s) = fetch_word dev s;
                 res_lo = word_of_int (sint (rm_word rl s) * sint imm) :: u32
             in set_rm_word rh (ucast res_lo) (mul_flags (\<not> res_lo > 0xffff) s)
         else if MODE_DATA32 s then
           let (addr, s) = decode_rm_address dev md rl s;
               (val, s) = fetch_data_long dev addr s;
               (imm, s) = fetch_long dev s;
               (res_lo, res_hi) = imul_long_direct val imm
           in set_rm_long rh res_lo (mul_flags (res_hi = 0) s)
         else
           let (addr, s) = decode_rm_address dev md rl s;
               (val, s) = fetch_data_word dev addr s;
               (imm, s) = fetch_word dev s;
               res_lo = word_of_int (sint val * uint imm) :: u32
           in set_rm_word rh (ucast res_lo) (mul_flags (\<not> res_lo > 0xffff) s))"

definition x86emuOp_imul_byte_IMM :: "device \<Rightarrow> x86emu \<Rightarrow> x86emu" where
  "x86emuOp_imul_byte_IMM dev s =
     (let ((md, rh, rl), s) = fetch_decode_modrm dev s
      in if md = 3 then
           if MODE_DATA32 s then
             let (imm, s) = fetch_byte dev s;
                 (res_lo, res_hi) = imul_long_direct (rm_long rl s) (scast imm)
             in set_rm_long rh res_lo (mul_flags (res_hi = 0) s)
           else
             let (imm, s) = fetch_byte dev s;
                 res_lo = word_of_int (sint (rm_word rl s) * sint imm) :: u32
             in set_rm_word rh (ucast res_lo) (mul_flags (\<not> res_lo > 0xffff) s)
         else if MODE_DATA32 s then
           let (addr, s) = decode_rm_address dev md rl s;
               (val, s) = fetch_data_long dev addr s;
               (imm, s) = fetch_byte dev s;
               (res_lo, res_hi) = imul_long_direct val (scast imm)
           in set_rm_long rh res_lo (mul_flags (res_hi = 0) s)
         else
           let (addr, s) = decode_rm_address dev md rl s;
               (val, s) = fetch_data_word dev addr s;
               (imm, s) = fetch_byte dev s;
               res_lo = word_of_int (sint val * sint imm) :: u32
           in set_rm_word rh (ucast res_lo) (mul_flags (\<not> res_lo > 0xffff) s))"

section \<open>Adjustments and conversions\<close>

definition x86emuOp_daa :: "x86emu \<Rightarrow> x86emu" where
  "x86emuOp_daa s = (let (v, s) = alu (daa_byte (rm_byte 0 s)) s in set_rm_byte 0 v s)"

definition x86emuOp_das :: "x86emu \<Rightarrow> x86emu" where
  "x86emuOp_das s = (let (v, s) = alu (das_byte (rm_byte 0 s)) s in set_rm_byte 0 v s)"

definition x86emuOp_aaa :: "x86emu \<Rightarrow> x86emu" where
  "x86emuOp_aaa s = (let (v, s) = alu (aaa_word (rm_word 0 s)) s in set_rm_word 0 v s)"

definition x86emuOp_aas :: "x86emu \<Rightarrow> x86emu" where
  "x86emuOp_aas s = (let (v, s) = alu (aas_word (rm_word 0 s)) s in set_rm_word 0 v s)"

text \<open>With a radix of 0 the fault is raised, but \<open>aam_word\<close> is called as well and divides by zero.\<close>

definition x86emuOp_aam :: "device \<Rightarrow> x86emu \<Rightarrow> x86emu option" where
  "x86emuOp_aam dev s =
     (let (radix, s) = fetch_byte dev s;
          s = (if radix = 0 then INTR_RAISE_DIV0 s else s)
      in case aam_word (rm_byte 0 s) radix (R_FLG s) of
           Inl _ \<Rightarrow> None
         | Inr (v, f) \<Rightarrow> Some (set_rm_word 0 v (s\<lparr>R_FLG := f\<rparr>)))"

definition x86emuOp_aad :: "device \<Rightarrow> x86emu \<Rightarrow> x86emu" where
  "x86emuOp_aad dev s =
     (let (radix, s) = fetch_byte dev s;
          (v, s) = alu (aad_word (rm_word 0 s) radix) s
      in set_rm_word 0 v s)"

definition x86emuOp_setalc :: "x86emu \<Rightarrow> x86emu" where
  "x86emuOp_setalc s = set_rm_byte 0 (if ACCESS_FLAG F_CF (R_FLG s) then 0xff else 0) s"

definition x86emuOp_cbw :: "x86emu \<Rightarrow> x86emu" where
  "x86emuOp_cbw s = (if MODE_DATA32 s then s\<lparr>R_EAX := scast (rm_word 0 s)\<rparr> else set_rm_word 0 (scast (rm_byte 0 s)) s)"

definition x86emuOp_cwd :: "x86emu \<Rightarrow> x86emu" where
  "x86emuOp_cwd s =
     (if MODE_DATA32 s then s\<lparr>R_EDX := - drop_bit 31 (R_EAX s)\<rparr>
      else set_rm_word 2 (- drop_bit 15 (rm_word 0 s)) s)"

end
