(* ===== verification/X86emu_Ops_Move.thy ===== *)
theory X86emu_Ops_Move
  imports X86emu_Ops_Alu
begin

text \<open>
  The instructions of the one-byte table that move data (\<open>libx86emu/ops.c\<close>): pushes and pops, exchanges, moves between registers,
  memory and segment registers, stack frames, and the accesses to ports.
\<close>

section \<open>The stack\<close>

definition push_register :: "device \<Rightarrow> nat \<Rightarrow> x86emu \<Rightarrow> x86emu" where
  "push_register dev reg s =
     (if MODE_DATA32 s then push_long dev (rm_long reg s) s else push_word dev (rm_word reg s) s)"

definition pop_register :: "device \<Rightarrow> nat \<Rightarrow> x86emu \<Rightarrow> x86emu" where
  "pop_register dev reg s =
     (if MODE_DATA32 s then let (v, s) = pop_long dev s in set_rm_long reg v s
      else let (v, s) = pop_word dev s in set_rm_word reg v s)"

definition x86emuOp_push_AX :: "device \<Rightarrow> x86emu \<Rightarrow> x86emu" where "x86emuOp_push_AX dev = push_register dev 0"
definition x86emuOp_push_CX :: "device \<Rightarrow> x86emu \<Rightarrow> x86emu" where "x86emuOp_push_CX dev = push_register dev 1"
definition x86emuOp_push_DX :: "device \<Rightarrow> x86emu \<Rightarrow> x86emu" where "x86emuOp_push_DX dev = push_register dev 2"
definition x86emuOp_push_BX :: "device \<Rightarrow> x86emu \<Rightarrow> x86emu" where "x86emuOp_push_BX dev = push_register dev 3"
definition x86emuOp_push_SP :: "device \<Rightarrow> x86emu \<Rightarrow> x86emu" where "x86emuOp_push_SP dev = push_register dev 4"
definition x86emuOp_push_BP :: "device \<Rightarrow> x86emu \<Rightarrow> x86emu" where "x86emuOp_push_BP dev = push_register dev 5"
definition x86emuOp_push_SI :: "device \<Rightarrow> x86emu \<Rightarrow> x86emu" where "x86emuOp_push_SI dev = push_register dev 6"
definition x86emuOp_push_DI :: "device \<Rightarrow> x86emu \<Rightarrow> x86emu" where "x86emuOp_push_DI dev = push_register dev 7"
definition x86emuOp_pop_AX :: "device \<Rightarrow> x86emu \<Rightarrow> x86emu" where "x86emuOp_pop_AX dev = pop_register dev 0"
definition x86emuOp_pop_CX :: "device \<Rightarrow> x86emu \<Rightarrow> x86emu" where "x86emuOp_pop_CX dev = pop_register dev 1"
definition x86emuOp_pop_DX :: "device \<Rightarrow> x86emu \<Rightarrow> x86emu" where "x86emuOp_pop_DX dev = pop_register dev 2"
definition x86emuOp_pop_BX :: "device \<Rightarrow> x86emu \<Rightarrow> x86emu" where "x86emuOp_pop_BX dev = pop_register dev 3"
definition x86emuOp_pop_SP :: "device \<Rightarrow> x86emu \<Rightarrow> x86emu" where "x86emuOp_pop_SP dev = pop_register dev 4"
definition x86emuOp_pop_BP :: "device \<Rightarrow> x86emu \<Rightarrow> x86emu" where "x86emuOp_pop_BP dev = pop_register dev 5"
definition x86emuOp_pop_SI :: "device \<Rightarrow> x86emu \<Rightarrow> x86emu" where "x86emuOp_pop_SI dev = pop_register dev 6"
definition x86emuOp_pop_DI :: "device \<Rightarrow> x86emu \<Rightarrow> x86emu" where "x86emuOp_pop_DI dev = pop_register dev 7"

definition push_segment :: "device \<Rightarrow> nat \<Rightarrow> x86emu \<Rightarrow> x86emu" where
  "push_segment dev i s =
     (if MODE_DATA32 s then push_long dev (ucast (sel_sel (seg s i))) s else push_word dev (sel_sel (seg s i)) s)"

definition pop_segment :: "device \<Rightarrow> nat \<Rightarrow> x86emu \<Rightarrow> x86emu" where
  "pop_segment dev i s =
     (let (v, s) = (if MODE_DATA32 s then let (v, s) = pop_long dev s in (ucast v, s) else pop_word dev s)
      in x86emu_set_seg_register dev i v s)"

definition x86emuOp_push_ES :: "device \<Rightarrow> x86emu \<Rightarrow> x86emu" where "x86emuOp_push_ES dev = push_segment dev R_ES_INDEX"
definition x86emuOp_push_CS :: "device \<Rightarrow> x86emu \<Rightarrow> x86emu" where "x86emuOp_push_CS dev = push_segment dev R_CS_INDEX"
definition x86emuOp_push_SS :: "device \<Rightarrow> x86emu \<Rightarrow> x86emu" where "x86emuOp_push_SS dev = push_segment dev R_SS_INDEX"
definition x86emuOp_push_DS :: "device \<Rightarrow> x86emu \<Rightarrow> x86emu" where "x86emuOp_push_DS dev = push_segment dev R_DS_INDEX"
definition x86emuOp_pop_ES :: "device \<Rightarrow> x86emu \<Rightarrow> x86emu" where "x86emuOp_pop_ES dev = pop_segment dev R_ES_INDEX"
definition x86emuOp_pop_SS :: "device \<Rightarrow> x86emu \<Rightarrow> x86emu" where "x86emuOp_pop_SS dev = pop_segment dev R_SS_INDEX"
definition x86emuOp_pop_DS :: "device \<Rightarrow> x86emu \<Rightarrow> x86emu" where "x86emuOp_pop_DS dev = pop_segment dev R_DS_INDEX"

definition x86emuOp_push_all :: "device \<Rightarrow> x86emu \<Rightarrow> x86emu" where
  "x86emuOp_push_all dev s =
     (let esp = R_ESP s
      in if MODE_DATA32 s then
           let s = push_long dev (R_EAX s) s; s = push_long dev (R_ECX s) s; s = push_long dev (R_EDX s) s;
               s = push_long dev (R_EBX s) s; s = push_long dev esp s; s = push_long dev (R_EBP s) s;
               s = push_long dev (R_ESI s) s
           in push_long dev (R_EDI s) s
         else
           let s = push_word dev (rm_word 0 s) s; s = push_word dev (rm_word 1 s) s; s = push_word dev (rm_word 2 s) s;
               s = push_word dev (rm_word 3 s) s; s = push_word dev (ucast esp) s; s = push_word dev (rm_word 5 s) s;
               s = push_word dev (rm_word 6 s) s
           in push_word dev (rm_word 7 s) s)"

definition pop_long_into :: "device \<Rightarrow> nat \<Rightarrow> x86emu \<Rightarrow> x86emu" where
  "pop_long_into dev reg s = (let (v, s) = pop_long dev s in set_rm_long reg v s)"

definition pop_word_into :: "device \<Rightarrow> nat \<Rightarrow> x86emu \<Rightarrow> x86emu" where
  "pop_word_into dev reg s = (let (v, s) = pop_word dev s in set_rm_word reg v s)"

definition x86emuOp_pop_all :: "device \<Rightarrow> x86emu \<Rightarrow> x86emu" where
  "x86emuOp_pop_all dev s =
     (if MODE_DATA32 s then
        let s = pop_long_into dev 5 (pop_long_into dev 6 (pop_long_into dev 7 s));
            s = s\<lparr>R_ESP := R_ESP s + 4\<rparr>
        in pop_long_into dev 0 (pop_long_into dev 1 (pop_long_into dev 2 (pop_long_into dev 3 s)))
      else
        let s = pop_word_into dev 5 (pop_word_into dev 6 (pop_word_into dev 7 s));
            s = set_SP (x_reg (R_ESP s) + 2) s
        in pop_word_into dev 0 (pop_word_into dev 1 (pop_word_into dev 2 (pop_word_into dev 3 s))))"

definition x86emuOp_push_word_IMM :: "device \<Rightarrow> x86emu \<Rightarrow> x86emu" where
  "x86emuOp_push_word_IMM dev s =
     (if MODE_DATA32 s then let (imm, s) = fetch_long dev s in push_long dev imm s
      else let (imm, s) = fetch_word dev s in push_word dev imm s)"

definition x86emuOp_push_byte_IMM :: "device \<Rightarrow> x86emu \<Rightarrow> x86emu" where
  "x86emuOp_push_byte_IMM dev s =
     (let (imm, s) = fetch_byte dev s
      in if MODE_DATA32 s then push_long dev (scast imm) s else push_word dev (scast imm) s)"

definition x86emuOp_pop_RM :: "device \<Rightarrow> x86emu \<Rightarrow> x86emu" where
  "x86emuOp_pop_RM dev s =
     (let ((md, rh, rl), s) = fetch_decode_modrm dev s
      in if rh \<noteq> 0 then INTR_RAISE_UD s
         else if md = 3 then
           if MODE_DATA32 s then let (v, s) = pop_long dev s in set_rm_long rl v s
           else let (v, s) = pop_word dev s in set_rm_word rl v s
         else
           let (addr, s) = decode_rm_address dev md rl s
           in if MODE_DATA32 s then let (val, s) = pop_long dev s in store_data_long dev addr val s
              else let (val, s) = pop_word dev s in store_data_word dev addr val s)"

text \<open>The loop of \<open>enter\<close> that copies the \<open>nesting - 1\<close> outer frame pointers.\<close>

definition copy_frame_pointer :: "device \<Rightarrow> x86emu \<Rightarrow> x86emu" where
  "copy_frame_pointer dev s =
     (if MODE_DATA32 s then
        let s = (if MODE_STACK32 s then s\<lparr>R_EBP := R_EBP s - 4\<rparr> else set_rm_word 5 (rm_word 5 s - 4) s);
            (v, s) = fetch_data_long_abs dev R_SS_INDEX (if MODE_STACK32 s then R_EBP s else ucast (rm_word 5 s)) s
        in push_long dev v s
      else
        let s = (if MODE_STACK32 s then s\<lparr>R_EBP := R_EBP s - 2\<rparr> else set_rm_word 5 (rm_word 5 s - 2) s);
            (v, s) = fetch_data_word_abs dev R_SS_INDEX (if MODE_STACK32 s then R_EBP s else ucast (rm_word 5 s)) s
        in push_word dev v s)"

definition x86emuOp_enter :: "device \<Rightarrow> x86emu \<Rightarrow> x86emu" where
  "x86emuOp_enter dev s =
     (let (local, s) = fetch_word dev s;
          (nesting, s) = fetch_byte dev s;
          nesting = unat (nesting AND 0x1f);
          s = (if MODE_STACK32 s then push_long dev (R_EBP s) s else push_word dev (rm_word 5 s) s);
          frame_pointer = (if MODE_STACK32 s then R_ESP s else ucast (rm_word 4 s));
          s = (if nesting > 0 then
                 let s = (copy_frame_pointer dev ^^ (nesting - 1)) s
                 in if MODE_DATA32 s then push_long dev frame_pointer s else push_word dev (ucast frame_pointer) s
               else s)
      in if MODE_STACK32 s then s\<lparr>R_EBP := frame_pointer, R_ESP := R_ESP s - ucast local\<rparr>
         else set_SP (x_reg (R_ESP s) - local) (set_rm_word 5 (ucast frame_pointer) s))"

definition x86emuOp_leave :: "device \<Rightarrow> x86emu \<Rightarrow> x86emu" where
  "x86emuOp_leave dev s =
     (let s = (if MODE_STACK32 s then s\<lparr>R_ESP := R_EBP s\<rparr> else set_SP (rm_word 5 s) s)
      in if MODE_DATA32 s then let (v, s) = pop_long dev s in s\<lparr>R_EBP := v\<rparr>
         else let (v, s) = pop_word dev s in set_rm_word 5 v s)"

section \<open>Exchanges\<close>

definition x86emuOp_xchg_byte_RM_R :: "device \<Rightarrow> x86emu \<Rightarrow> x86emu" where
  "x86emuOp_xchg_byte_RM_R dev s =
     (let ((md, rh, rl), s) = fetch_decode_modrm dev s
      in if md = 3 then let val = rm_byte rh s in set_rm_byte rl val (set_rm_byte rh (rm_byte rl s) s)
         else
           let (addr, s) = decode_rm_address dev md rl s;
               (val, s) = fetch_data_byte dev addr s
           in set_rm_byte rh val (store_data_byte dev addr (rm_byte rh s) s))"

definition x86emuOp_xchg_word_RM_R :: "device \<Rightarrow> x86emu \<Rightarrow> x86emu" where
  "x86emuOp_xchg_word_RM_R dev s =
     (let ((md, rh, rl), s) = fetch_decode_modrm dev s
      in if md = 3 then
           if MODE_DATA32 s then let val = rm_long rh s in set_rm_long rl val (set_rm_long rh (rm_long rl s) s)
           else let val = rm_word rh s in set_rm_word rl val (set_rm_word rh (rm_word rl s) s)
         else
           let (addr, s) = decode_rm_address dev md rl s
           in if MODE_DATA32 s then
                let (val, s) = fetch_data_long dev addr s
                in set_rm_long rh val (store_data_long dev addr (rm_long rh s) s)
              else
                let (val, s) = fetch_data_word dev addr s
                in set_rm_word rh val (store_data_word dev addr (rm_word rh s) s))"

definition xchg_AX_register :: "nat \<Rightarrow> x86emu \<Rightarrow> x86emu" where
  "xchg_AX_register reg s =
     (if MODE_DATA32 s then let val = R_EAX s in set_rm_long reg val (s\<lparr>R_EAX := rm_long reg s\<rparr>)
      else let val = rm_word 0 s in set_rm_word reg val (set_rm_word 0 (rm_word reg s) s))"

definition x86emuOp_nop :: "x86emu \<Rightarrow> x86emu" where "x86emuOp_nop s = s"

definition x86emuOp_xchg_word_AX_CX :: "x86emu \<Rightarrow> x86emu" where "x86emuOp_xchg_word_AX_CX = xchg_AX_register 1"
definition x86emuOp_xchg_word_AX_DX :: "x86emu \<Rightarrow> x86emu" where "x86emuOp_xchg_word_AX_DX = xchg_AX_register 2"
definition x86emuOp_xchg_word_AX_BX :: "x86emu \<Rightarrow> x86emu" where "x86emuOp_xchg_word_AX_BX = xchg_AX_register 3"
definition x86emuOp_xchg_word_AX_SP :: "x86emu \<Rightarrow> x86emu" where "x86emuOp_xchg_word_AX_SP = xchg_AX_register 4"
definition x86emuOp_xchg_word_AX_BP :: "x86emu \<Rightarrow> x86emu" where "x86emuOp_xchg_word_AX_BP = xchg_AX_register 5"
definition x86emuOp_xchg_word_AX_SI :: "x86emu \<Rightarrow> x86emu" where "x86emuOp_xchg_word_AX_SI = xchg_AX_register 6"
definition x86emuOp_xchg_word_AX_DI :: "x86emu \<Rightarrow> x86emu" where "x86emuOp_xchg_word_AX_DI = xchg_AX_register 7"

section \<open>Moves\<close>

definition x86emuOp_mov_byte_RM_R :: "device \<Rightarrow> x86emu \<Rightarrow> x86emu" where
  "x86emuOp_mov_byte_RM_R dev s =
     (let ((md, rh, rl), s) = fetch_decode_modrm dev s
      in if md = 3 then set_rm_byte rl (rm_byte rh s) s
         else let (addr, s) = decode_rm_address dev md rl s in store_data_byte dev addr (rm_byte rh s) s)"

definition x86emuOp_mov_word_RM_R :: "device \<Rightarrow> x86emu \<Rightarrow> x86emu" where
  "x86emuOp_mov_word_RM_R dev s =
     (let ((md, rh, rl), s) = fetch_decode_modrm dev s
      in if md = 3 then
           if MODE_DATA32 s then set_rm_long rl (rm_long rh s) s else set_rm_word rl (rm_word rh s) s
         else
           let (addr, s) = decode_rm_address dev md rl s
           in if MODE_DATA32 s then store_data_long dev addr (rm_long rh s) s
              else store_data_word dev addr (rm_word rh s) s)"

definition x86emuOp_mov_byte_R_RM :: "device \<Rightarrow> x86emu \<Rightarrow> x86emu" where
  "x86emuOp_mov_byte_R_RM dev s =
     (let ((md, rh, rl), s) = fetch_decode_modrm dev s
      in if md = 3 then set_rm_byte rh (rm_byte rl s) s
         else
           let (addr, s) = decode_rm_address dev md rl s;
               (v, s) = fetch_data_byte dev addr s
           in set_rm_byte rh v s)"

definition x86emuOp_mov_word_R_RM :: "device \<Rightarrow> x86emu \<Rightarrow> x86emu" where
  "x86emuOp_mov_word_R_RM dev s =
     (let ((md, rh, rl), s) = fetch_decode_modrm dev s
      in if md = 3 then
           if MODE_DATA32 s then set_rm_long rh (rm_long rl s) s else set_rm_word rh (rm_word rl s) s
         else
           let (addr, s) = decode_rm_address dev md rl s
           in if MODE_DATA32 s then let (v, s) = fetch_data_long dev addr s in set_rm_long rh v s
              else let (v, s) = fetch_data_word dev addr s in set_rm_word rh v s)"

definition x86emuOp_mov_word_RM_SR :: "device \<Rightarrow> x86emu \<Rightarrow> x86emu" where
  "x86emuOp_mov_word_RM_SR dev s =
     (let ((md, rh, rl), s) = fetch_decode_modrm dev s
      in if md = 3 then
           let (i, s) = decode_rm_seg_register rh s
           in if MODE_DATA32 s then set_rm_long rl (ucast (sel_sel (seg s i))) s else set_rm_word rl (sel_sel (seg s i)) s
         else
           let (addr, s) = decode_rm_address dev md rl s;
               (i, s) = decode_rm_seg_register rh s
           in store_data_word dev addr (sel_sel (seg s i)) s)"

definition x86emuOp_lea_word_R_M :: "device \<Rightarrow> x86emu \<Rightarrow> x86emu" where
  "x86emuOp_lea_word_R_M dev s =
     (let ((md, rh, rl), s) = fetch_decode_modrm dev s
      in if md = 3 then INTR_RAISE_UD s
         else
           let (addr, s) = decode_rm_address dev md rl s
           in if MODE_DATA32 s then set_rm_long rh addr s else set_rm_word rh (ucast addr) s)"

definition x86emuOp_mov_word_SR_RM :: "device \<Rightarrow> x86emu \<Rightarrow> x86emu" where
  "x86emuOp_mov_word_SR_RM dev s =
     (let ((md, rh, rl), s) = fetch_decode_modrm dev s;
          (i, s) = decode_rm_seg_register rh s;
          (val, s) = (if md = 3 then (rm_word rl s, s)
                      else let (addr, s) = decode_rm_address dev md rl s in fetch_data_word dev addr s)
      in x86emu_set_seg_register dev i val s)"

text \<open>The address that follows the opcode.\<close>

definition fetch_moffs :: "device \<Rightarrow> x86emu \<Rightarrow> u32 \<times> x86emu" where
  "fetch_moffs dev s = (if MODE_ADDR32 s then fetch_long dev s else let (a, s) = fetch_word dev s in (ucast a, s))"

definition x86emuOp_mov_AL_M_IMM :: "device \<Rightarrow> x86emu \<Rightarrow> x86emu" where
  "x86emuOp_mov_AL_M_IMM dev s =
     (let (addr, s) = fetch_moffs dev s; (v, s) = fetch_data_byte dev addr s in set_rm_byte 0 v s)"

definition x86emuOp_mov_AX_M_IMM :: "device \<Rightarrow> x86emu \<Rightarrow> x86emu" where
  "x86emuOp_mov_AX_M_IMM dev s =
     (let (addr, s) = fetch_moffs dev s
      in if MODE_DATA32 s then let (v, s) = fetch_data_long dev addr s in s\<lparr>R_EAX := v\<rparr>
         else let (v, s) = fetch_data_word dev addr s in set_rm_word 0 v s)"

definition x86emuOp_mov_M_AL_IMM :: "device \<Rightarrow> x86emu \<Rightarrow> x86emu" where
  "x86emuOp_mov_M_AL_IMM dev s = (let (addr, s) = fetch_moffs dev s in store_data_byte dev addr (rm_byte 0 s) s)"

definition x86emuOp_mov_M_AX_IMM :: "device \<Rightarrow> x86emu \<Rightarrow> x86emu" where
  "x86emuOp_mov_M_AX_IMM dev s =
     (let (addr, s) = fetch_moffs dev s
      in if MODE_DATA32 s then store_data_long dev addr (R_EAX s) s else store_data_word dev addr (rm_word 0 s) s)"

definition mov_byte_register_IMM :: "device \<Rightarrow> nat \<Rightarrow> x86emu \<Rightarrow> x86emu" where
  "mov_byte_register_IMM dev reg s = (let (val, s) = fetch_byte dev s in set_rm_byte reg val s)"

definition mov_word_register_IMM :: "device \<Rightarrow> nat \<Rightarrow> x86emu \<Rightarrow> x86emu" where
  "mov_word_register_IMM dev reg s =
     (if MODE_DATA32 s then let (val, s) = fetch_long dev s in set_rm_long reg val s
      else let (val, s) = fetch_word dev s in set_rm_word reg val s)"

definition x86emuOp_mov_byte_AL_IMM :: "device \<Rightarrow> x86emu \<Rightarrow> x86emu" where "x86emuOp_mov_byte_AL_IMM dev = mov_byte_register_IMM dev 0"
definition x86emuOp_mov_byte_CL_IMM :: "device \<Rightarrow> x86emu \<Rightarrow> x86emu" where "x86emuOp_mov_byte_CL_IMM dev = mov_byte_register_IMM dev 1"
definition x86emuOp_mov_byte_DL_IMM :: "device \<Rightarrow> x86emu \<Rightarrow> x86emu" where "x86emuOp_mov_byte_DL_IMM dev = mov_byte_register_IMM dev 2"
definition x86emuOp_mov_byte_BL_IMM :: "device \<Rightarrow> x86emu \<Rightarrow> x86emu" where "x86emuOp_mov_byte_BL_IMM dev = mov_byte_register_IMM dev 3"
definition x86emuOp_mov_byte_AH_IMM :: "device \<Rightarrow> x86emu \<Rightarrow> x86emu" where "x86emuOp_mov_byte_AH_IMM dev = mov_byte_register_IMM dev 4"
definition x86emuOp_mov_byte_CH_IMM :: "device \<Rightarrow> x86emu \<Rightarrow> x86emu" where "x86emuOp_mov_byte_CH_IMM dev = mov_byte_register_IMM dev 5"
definition x86emuOp_mov_byte_DH_IMM :: "device \<Rightarrow> x86emu \<Rightarrow> x86emu" where "x86emuOp_mov_byte_DH_IMM dev = mov_byte_register_IMM dev 6"
definition x86emuOp_mov_byte_BH_IMM :: "device \<Rightarrow> x86emu \<Rightarrow> x86emu" where "x86emuOp_mov_byte_BH_IMM dev = mov_byte_register_IMM dev 7"
definition x86emuOp_mov_word_AX_IMM :: "device \<Rightarrow> x86emu \<Rightarrow> x86emu" where "x86emuOp_mov_word_AX_IMM dev = mov_word_register_IMM dev 0"
definition x86emuOp_mov_word_CX_IMM :: "device \<Rightarrow> x86emu \<Rightarrow> x86emu" where "x86emuOp_mov_word_CX_IMM dev = mov_word_register_IMM dev 1"
definition x86emuOp_mov_word_DX_IMM :: "device \<Rightarrow> x86emu \<Rightarrow> x86emu" where "x86emuOp_mov_word_DX_IMM dev = mov_word_register_IMM dev 2"
definition x86emuOp_mov_word_BX_IMM :: "device \<Rightarrow> x86emu \<Rightarrow> x86emu" where "x86emuOp_mov_word_BX_IMM dev = mov_word_register_IMM dev 3"
definition x86emuOp_mov_word_SP_IMM :: "device \<Rightarrow> x86emu \<Rightarrow> x86emu" where "x86emuOp_mov_word_SP_IMM dev = mov_word_register_IMM dev 4"
definition x86emuOp_mov_word_BP_IMM :: "device \<Rightarrow> x86emu \<Rightarrow> x86emu" where "x86emuOp_mov_word_BP_IMM dev = mov_word_register_IMM dev 5"
definition x86emuOp_mov_word_SI_IMM :: "device \<Rightarrow> x86emu \<Rightarrow> x86emu" where "x86emuOp_mov_word_SI_IMM dev = mov_word_register_IMM dev 6"
definition x86emuOp_mov_word_DI_IMM :: "device \<Rightarrow> x86emu \<Rightarrow> x86emu" where "x86emuOp_mov_word_DI_IMM dev = mov_word_register_IMM dev 7"

definition x86emuOp_mov_byte_RM_IMM :: "device \<Rightarrow> x86emu \<Rightarrow> x86emu" where
  "x86emuOp_mov_byte_RM_IMM dev s =
     (let ((md, rh, rl), s) = fetch_decode_modrm dev s
      in if rh \<noteq> 0 then INTR_RAISE_UD s
         else if md = 3 then let (imm, s) = fetch_byte dev s in set_rm_byte rl imm s
         else
           let (addr, s) = decode_rm_address dev md rl s;
               (imm, s) = fetch_byte dev s
           in store_data_byte dev addr imm s)"

text \<open>Unlike the byte form, this one goes on after the fault was raised.\<close>

definition x86emuOp_mov_word_RM_IMM :: "device \<Rightarrow> x86emu \<Rightarrow> x86emu" where
  "x86emuOp_mov_word_RM_IMM dev s =
     (let ((md, rh, rl), s) = fetch_decode_modrm dev s;
          s = (if rh \<noteq> 0 then INTR_RAISE_UD s else s)
      in if md = 3 then
           if MODE_DATA32 s then let (imm, s) = fetch_long dev s in set_rm_long rl imm s
           else let (imm, s) = fetch_word dev s in set_rm_word rl imm s
         else
           let (addr, s) = decode_rm_address dev md rl s
           in if MODE_DATA32 s then let (imm, s) = fetch_long dev s in store_data_long dev addr imm s
              else let (imm, s) = fetch_word dev s in store_data_word dev addr imm s)"

definition load_far_pointer :: "device \<Rightarrow> nat \<Rightarrow> x86emu \<Rightarrow> x86emu" where
  "load_far_pointer dev i s =
     (let ((md, rh, rl), s) = fetch_decode_modrm dev s
      in if md = 3 then INTR_RAISE_UD s
         else
           let (addr, s) = decode_rm_address dev md rl s;
               (addr, s) =
                 (if MODE_DATA32 s then let (v, s) = fetch_data_long dev addr s in (addr + 4, set_rm_long rh v s)
                  else let (v, s) = fetch_data_word dev addr s in (addr + 2, set_rm_word rh v s));
               (sel, s) = fetch_data_word dev addr s
           in x86emu_set_seg_register dev i sel s)"

definition x86emuOp_les_R_IMM :: "device \<Rightarrow> x86emu \<Rightarrow> x86emu" where
  "x86emuOp_les_R_IMM dev = load_far_pointer dev R_ES_INDEX"

definition x86emuOp_lds_R_IMM :: "device \<Rightarrow> x86emu \<Rightarrow> x86emu" where
  "x86emuOp_lds_R_IMM dev = load_far_pointer dev R_DS_INDEX"

definition x86emuOp_xlat :: "device \<Rightarrow> x86emu \<Rightarrow> x86emu" where
  "x86emuOp_xlat dev s =
     (let addr = (if MODE_DATA32 s then R_EBX s + ucast (rm_byte 0 s)
                  else (ucast (rm_word 3 s) + ucast (rm_byte 0 s)) AND 0xffff);
          (v, s) = fetch_data_byte dev addr s
      in set_rm_byte 0 v s)"

section \<open>Ports\<close>

definition x86emuOp_in_byte_AL_IMM :: "device \<Rightarrow> x86emu \<Rightarrow> x86emu" where
  "x86emuOp_in_byte_AL_IMM dev s =
     (let (port, s) = fetch_byte dev s; (v, s) = fetch_io_byte dev (ucast port) s in set_rm_byte 0 v s)"

definition in_word_AX :: "device \<Rightarrow> u32 \<Rightarrow> x86emu \<Rightarrow> x86emu" where
  "in_word_AX dev port s =
     (if MODE_DATA32 s then let (v, s) = fetch_io_long dev port s in s\<lparr>R_EAX := v\<rparr>
      else let (v, s) = fetch_io_word dev port s in set_rm_word 0 v s)"

definition out_word_AX :: "device \<Rightarrow> u32 \<Rightarrow> x86emu \<Rightarrow> x86emu" where
  "out_word_AX dev port s =
     (if MODE_DATA32 s then store_io_long dev port (R_EAX s) s else store_io_word dev port (rm_word 0 s) s)"

definition x86emuOp_in_word_AX_IMM :: "device \<Rightarrow> x86emu \<Rightarrow> x86emu" where
  "x86emuOp_in_word_AX_IMM dev s = (let (port, s) = fetch_byte dev s in in_word_AX dev (ucast port) s)"

definition x86emuOp_out_byte_IMM_AL :: "device \<Rightarrow> x86emu \<Rightarrow> x86emu" where
  "x86emuOp_out_byte_IMM_AL dev s = (let (port, s) = fetch_byte dev s in store_io_byte dev (ucast port) (rm_byte 0 s) s)"

definition x86emuOp_out_word_IMM_AX :: "device \<Rightarrow> x86emu \<Rightarrow> x86emu" where
  "x86emuOp_out_word_IMM_AX dev s = (let (port, s) = fetch_byte dev s in out_word_AX dev (ucast port) s)"

definition x86emuOp_in_byte_AL_DX :: "device \<Rightarrow> x86emu \<Rightarrow> x86emu" where
  "x86emuOp_in_byte_AL_DX dev s = (let (v, s) = fetch_io_byte dev (ucast (rm_word 2 s)) s in set_rm_byte 0 v s)"

definition x86emuOp_in_word_AX_DX :: "device \<Rightarrow> x86emu \<Rightarrow> x86emu" where
  "x86emuOp_in_word_AX_DX dev s = in_word_AX dev (ucast (rm_word 2 s)) s"

definition x86emuOp_out_byte_DX_AL :: "device \<Rightarrow> x86emu \<Rightarrow> x86emu" where
  "x86emuOp_out_byte_DX_AL dev s = store_io_byte dev (ucast (rm_word 2 s)) (rm_byte 0 s) s"

definition x86emuOp_out_word_DX_AX :: "device \<Rightarrow> x86emu \<Rightarrow> x86emu" where
  "x86emuOp_out_word_DX_AX dev s = out_word_AX dev (ucast (rm_word 2 s)) s"

end
