(* ===== verification/X86emu_Ops_String.thy ===== *)
theory X86emu_Ops_String
  imports X86emu_Ops_Move
begin

text \<open>
  The string instructions (\<open>libx86emu/ops.c\<close>, \<open>ins\<close> and \<open>outs\<close> of \<open>prim_ops.c\<close>). The C code has every loop twice, with the
  32-bit and with the 16-bit registers; here the registers are chosen by \<open>MODE_ADDR32\<close>, which no data access changes.
  A repetition that is counted beforehand is an iterated function; the comparisons, which may stop early, are
  recursive functions whose termination is proved.
\<close>

section \<open>Registers\<close>

definition string_SI :: "x86emu \<Rightarrow> u32" where
  "string_SI s = (if MODE_ADDR32 s then R_ESI s else ucast (x_reg (R_ESI s)))"

definition string_DI :: "x86emu \<Rightarrow> u32" where
  "string_DI s = (if MODE_ADDR32 s then R_EDI s else ucast (x_reg (R_EDI s)))"

definition string_count :: "x86emu \<Rightarrow> u32" where
  "string_count s = (if MODE_ADDR32 s then R_ECX s else ucast (x_reg (R_ECX s)))"

definition add_reg :: "u32 \<Rightarrow> u32 \<Rightarrow> x86emu \<Rightarrow> u32" where
  "add_reg inc r s = (if MODE_ADDR32 s then r + inc else with_x_reg (x_reg r + ucast inc) r)"

definition move_SI :: "u32 \<Rightarrow> x86emu \<Rightarrow> x86emu" where
  "move_SI inc s = s\<lparr>R_ESI := add_reg inc (R_ESI s) s\<rparr>"

definition move_DI :: "u32 \<Rightarrow> x86emu \<Rightarrow> x86emu" where
  "move_DI inc s = s\<lparr>R_EDI := add_reg inc (R_EDI s) s\<rparr>"

definition clear_count :: "x86emu \<Rightarrow> x86emu" where
  "clear_count s = s\<lparr>R_ECX := (if MODE_ADDR32 s then 0 else with_x_reg 0 (R_ECX s))\<rparr>"

definition count_down :: "x86emu \<Rightarrow> x86emu" where
  "count_down s = s\<lparr>R_ECX := add_reg (- 1) (R_ECX s) s\<rparr>"

definition string_inc :: "u32 \<Rightarrow> x86emu \<Rightarrow> u32" where
  "string_inc n s = (if ACCESS_FLAG F_DF (R_FLG s) then - n else n)"

text \<open>The step of the 16- and 32-bit forms is the operand size.\<close>

definition word_inc :: "x86emu \<Rightarrow> u32" where
  "word_inc s = string_inc (if MODE_DATA32 s then 4 else 2) s"

definition rep_string :: "(x86emu \<Rightarrow> x86emu) \<Rightarrow> x86emu \<Rightarrow> x86emu" where
  "rep_string step s = (if MODE_REP s then (step ^^ unat (string_count s)) (clear_count s) else step s)"

section \<open>Ports\<close>

text \<open>
  The registers advance by 1 for every operand size. A single 16-bit-addressed input of a long reads a byte, and \<open>outs\<close>
  reads from the segment \<open>ES\<close>; a single 32-bit-addressed output advances only the lower half of \<open>ESI\<close>.
\<close>

definition ins_item :: "device \<Rightarrow> nat \<Rightarrow> x86emu \<Rightarrow> x86emu" where
  "ins_item dev sz s =
     (let port = ucast (rm_word 2 s)
      in if sz = 1 then let (v, s) = fetch_io_byte dev port s in store_data_byte_abs dev R_ES_INDEX (string_DI s) v s
         else if sz = 2 then let (v, s) = fetch_io_word dev port s in store_data_word_abs dev R_ES_INDEX (string_DI s) v s
         else if MODE_REP s \<or> MODE_ADDR32 s
         then let (v, s) = fetch_io_long dev port s in store_data_long_abs dev R_ES_INDEX (string_DI s) v s
         else let (v, s) = fetch_io_byte dev port s in store_data_long_abs dev R_ES_INDEX (string_DI s) (ucast v) s)"

definition ins :: "device \<Rightarrow> nat \<Rightarrow> x86emu \<Rightarrow> x86emu" where
  "ins dev sz s = (let inc = string_inc 1 s in rep_string (\<lambda>s. move_DI inc (ins_item dev sz s)) s)"

definition outs_item :: "device \<Rightarrow> nat \<Rightarrow> x86emu \<Rightarrow> x86emu" where
  "outs_item dev sz s =
     (let port = ucast (rm_word 2 s)
      in if sz = 1 then let (v, s) = fetch_data_byte_abs dev R_ES_INDEX (string_SI s) s in store_io_byte dev port v s
         else if sz = 2 then let (v, s) = fetch_data_word_abs dev R_ES_INDEX (string_SI s) s in store_io_word dev port v s
         else let (v, s) = fetch_data_long_abs dev R_ES_INDEX (string_SI s) s in store_io_long dev port v s)"

definition outs :: "device \<Rightarrow> nat \<Rightarrow> x86emu \<Rightarrow> x86emu" where
  "outs dev sz s =
     (let inc = string_inc 1 s
      in rep_string (\<lambda>s. let s' = outs_item dev sz s
                         in if MODE_REP s then move_SI inc s' else set_rm_word 6 (rm_word 6 s' + ucast inc) s') s)"

definition x86emuOp_ins_byte :: "device \<Rightarrow> x86emu \<Rightarrow> x86emu" where "x86emuOp_ins_byte dev = ins dev 1"

definition x86emuOp_ins_word :: "device \<Rightarrow> x86emu \<Rightarrow> x86emu" where
  "x86emuOp_ins_word dev s = (if MODE_DATA32 s then ins dev 4 s else ins dev 2 s)"

definition x86emuOp_outs_byte :: "device \<Rightarrow> x86emu \<Rightarrow> x86emu" where "x86emuOp_outs_byte dev = outs dev 1"

definition x86emuOp_outs_word :: "device \<Rightarrow> x86emu \<Rightarrow> x86emu" where
  "x86emuOp_outs_word dev s = (if MODE_DATA32 s then outs dev 4 s else outs dev 2 s)"

section \<open>Moves\<close>

definition x86emuOp_movs_byte :: "device \<Rightarrow> x86emu \<Rightarrow> x86emu" where
  "x86emuOp_movs_byte dev s =
     (let inc = string_inc 1 s
      in rep_string (\<lambda>s. let (val, s) = fetch_data_byte dev (string_SI s) s;
                             s = store_data_byte_abs dev R_ES_INDEX (string_DI s) val s
                         in move_DI inc (move_SI inc s)) s)"

definition movs_item :: "device \<Rightarrow> x86emu \<Rightarrow> x86emu" where
  "movs_item dev s =
     (if MODE_DATA32 s
      then let (val, s) = fetch_data_long dev (string_SI s) s in store_data_long_abs dev R_ES_INDEX (string_DI s) val s
      else let (val, s) = fetch_data_word dev (string_SI s) s in store_data_word_abs dev R_ES_INDEX (string_DI s) val s)"

definition x86emuOp_movs_word :: "device \<Rightarrow> x86emu \<Rightarrow> x86emu" where
  "x86emuOp_movs_word dev s =
     (let inc = word_inc s in rep_string (\<lambda>s. move_DI inc (move_SI inc (movs_item dev s))) s)"

definition x86emuOp_stos_byte :: "device \<Rightarrow> x86emu \<Rightarrow> x86emu" where
  "x86emuOp_stos_byte dev s =
     (let inc = string_inc 1 s; val = rm_byte 0 s
      in rep_string (\<lambda>s. move_DI inc (store_data_byte_abs dev R_ES_INDEX (string_DI s) val s)) s)"

definition x86emuOp_stos_word :: "device \<Rightarrow> x86emu \<Rightarrow> x86emu" where
  "x86emuOp_stos_word dev s =
     (let inc = word_inc s; val = R_EAX s
      in rep_string (\<lambda>s. move_DI inc
           (if MODE_DATA32 s then store_data_long_abs dev R_ES_INDEX (string_DI s) val s
            else store_data_word_abs dev R_ES_INDEX (string_DI s) (ucast val) s)) s)"

definition x86emuOp_lods_byte :: "device \<Rightarrow> x86emu \<Rightarrow> x86emu" where
  "x86emuOp_lods_byte dev s =
     (let inc = string_inc 1 s
      in rep_string (\<lambda>s. let (v, s) = fetch_data_byte dev (string_SI s) s in move_SI inc (set_rm_byte 0 v s)) s)"

definition x86emuOp_lods_word :: "device \<Rightarrow> x86emu \<Rightarrow> x86emu" where
  "x86emuOp_lods_word dev s =
     (let inc = word_inc s
      in rep_string (\<lambda>s. move_SI inc
           (if MODE_DATA32 s then let (v, s) = fetch_data_long dev (string_SI s) s in s\<lparr>R_EAX := v\<rparr>
            else let (v, s) = fetch_data_word dev (string_SI s) s in set_rm_word 0 v s)) s)"

section \<open>Comparisons\<close>

text \<open>The condition that ends a repetition: not equal under \<open>REPE\<close>, equal under \<open>REPNE\<close>.\<close>

definition rep_cond :: "x86emu \<Rightarrow> u32" where
  "rep_cond s = (if MODE_REPE s then 2 * 2 + 1 else 2 * 2)"

definition cmps_byte_item :: "device \<Rightarrow> x86emu \<Rightarrow> x86emu" where
  "cmps_byte_item dev s =
     (let (val1, s) = fetch_data_byte dev (string_SI s) s;
          (val2, s) = fetch_data_byte_abs dev R_ES_INDEX (string_DI s) s
      in snd (alu (cmp_byte val1 val2) s))"

definition cmps_word_item :: "device \<Rightarrow> x86emu \<Rightarrow> x86emu" where
  "cmps_word_item dev s =
     (if MODE_DATA32 s then
        let (val1, s) = fetch_data_long dev (string_SI s) s;
            (val2, s) = fetch_data_long_abs dev R_ES_INDEX (string_DI s) s
        in snd (alu (cmp_long val1 val2) s)
      else
        let (val1, s) = fetch_data_word dev (string_SI s) s;
            (val2, s) = fetch_data_word_abs dev R_ES_INDEX (string_DI s) s
        in snd (alu (cmp_word val1 val2) s))"

definition scas_byte_item :: "device \<Rightarrow> x86emu \<Rightarrow> x86emu" where
  "scas_byte_item dev s =
     (let (val, s) = fetch_data_byte_abs dev R_ES_INDEX (string_DI s) s
      in snd (alu (cmp_byte (rm_byte 0 s) val) s))"

definition scas_word_item :: "device \<Rightarrow> x86emu \<Rightarrow> x86emu" where
  "scas_word_item dev s =
     (if MODE_DATA32 s then
        let (val, s) = fetch_data_long_abs dev R_ES_INDEX (string_DI s) s in snd (alu (cmp_long (R_EAX s) val) s)
      else
        let (val, s) = fetch_data_word_abs dev R_ES_INDEX (string_DI s) s in snd (alu (cmp_word (rm_word 0 s) val) s))"

lemma calm_flags: "calm (s\<lparr>R_FLG := f\<rparr>) = calm s\<lparr>R_FLG := f\<rparr>"
  by (simp add: calm_def cpu_def)

lemma calm_item: "calm s' = calm s \<Longrightarrow> \<exists>f. calm (snd (alu g s')) = calm s\<lparr>R_FLG := f\<rparr>"
  by (auto simp: alu_def split_beta calm_flags)

lemma item_calm:
  "\<exists>f. calm (cmps_byte_item dev s) = calm s\<lparr>R_FLG := f\<rparr>" "\<exists>f. calm (cmps_word_item dev s) = calm s\<lparr>R_FLG := f\<rparr>"
  "\<exists>f. calm (scas_byte_item dev s) = calm s\<lparr>R_FLG := f\<rparr>" "\<exists>f. calm (scas_word_item dev s) = calm s\<lparr>R_FLG := f\<rparr>"
  unfolding cmps_byte_item_def cmps_word_item_def scas_byte_item_def scas_word_item_def Let_def split_beta
  by (auto intro!: calm_item)

lemma item_sel: 
  assumes "\<exists>f. calm s' = calm s\<lparr>R_FLG := f\<rparr>"
  shows "R_ECX s' = R_ECX s" "R_ESI s' = R_ESI s" "R_EDI s' = R_EDI s" "mode s' = mode s"
proof -
  obtain f where "calm s' = calm s\<lparr>R_FLG := f\<rparr>" using assms by blast
  from arg_cong [OF this, of R_ECX] arg_cong [OF this, of R_ESI] arg_cong [OF this, of R_EDI] arg_cong [OF this, of mode]
  show "R_ECX s' = R_ECX s" "R_ESI s' = R_ESI s" "R_EDI s' = R_EDI s" "mode s' = mode s" by (simp_all add: calm_sel)
qed

lemmas compare_sel [simp] = item_calm [THEN item_sel(1)] item_calm [THEN item_sel(2)] item_calm [THEN item_sel(3)] item_calm [THEN item_sel(4)]

text \<open>The registers after one comparison; \<open>move\<close> advances the index registers.\<close>

definition cmps_move :: "u32 \<Rightarrow> x86emu \<Rightarrow> x86emu" where
  "cmps_move inc s = move_DI inc (move_SI inc s)"

lemma count_down_count:
  "string_count s \<noteq> 0 \<Longrightarrow> unat (string_count (move_DI a (count_down s))) < unat (string_count s)"
  "string_count s \<noteq> 0 \<Longrightarrow> unat (string_count (cmps_move a (count_down s))) < unat (string_count s)"
proof -
  have long: "unat (c - 1) < unat c" if "c \<noteq> 0" for c :: u32 using that by (rule measure_unat)
  have word: "unat (ucast (w - 1) :: u32) < unat (ucast w :: u32)" if "(ucast w :: u32) \<noteq> 0" for w :: u16
  proof -
    have "w \<noteq> 0" using that by auto
    then have "unat (w - 1) < unat w" by (rule measure_unat)
    moreover have "unat (ucast v :: u32) = unat v" for v :: u16
      using unsigned_less [of v, where 'a = nat] by (simp add: unsigned_ucast_eq take_bit_nat_eq_self)
    ultimately show ?thesis by simp
  qed
  have minus: "ucast (- 1 :: u32) = (- 1 :: u16)" by code_simp
  assume "string_count s \<noteq> 0"
  then show "unat (string_count (move_DI a (count_down s))) < unat (string_count s)"
    "unat (string_count (cmps_move a (count_down s))) < unat (string_count s)"
    using long [of "R_ECX s"] word [of "x_reg (R_ECX s)"]
    by (auto simp: string_count_def count_down_def move_DI_def move_SI_def cmps_move_def add_reg_def MODE_ADDR32_def minus)
qed


section \<open>Repeated comparisons\<close>

text \<open>
  The loops of \<open>cmps\<close> and \<open>scas\<close>. They end because each round decrements the count, which no comparison changes.
\<close>

function cmps_byte_loop :: "device \<Rightarrow> u32 \<Rightarrow> u32 \<Rightarrow> x86emu \<Rightarrow> x86emu" where
  "cmps_byte_loop dev inc cond s =
     (if string_count s = 0 then s
      else let s = cmps_move inc (count_down (cmps_byte_item dev s))
           in if eval_condition cond (R_FLG s) then s else cmps_byte_loop dev inc cond s)"
  by pat_completeness auto

function cmps_word_loop :: "device \<Rightarrow> u32 \<Rightarrow> u32 \<Rightarrow> x86emu \<Rightarrow> x86emu" where
  "cmps_word_loop dev inc cond s =
     (if string_count s = 0 then s
      else let s = cmps_move inc (count_down (cmps_word_item dev s))
           in if eval_condition cond (R_FLG s) then s else cmps_word_loop dev inc cond s)"
  by pat_completeness auto

function scas_byte_loop :: "device \<Rightarrow> u32 \<Rightarrow> u32 \<Rightarrow> x86emu \<Rightarrow> x86emu" where
  "scas_byte_loop dev inc cond s =
     (if string_count s = 0 then s
      else let s = move_DI inc (count_down (scas_byte_item dev s))
           in if eval_condition cond (R_FLG s) then s else scas_byte_loop dev inc cond s)"
  by pat_completeness auto

function scas_word_loop :: "device \<Rightarrow> u32 \<Rightarrow> u32 \<Rightarrow> x86emu \<Rightarrow> x86emu" where
  "scas_word_loop dev inc cond s =
     (if string_count s = 0 then s
      else let s = move_DI inc (count_down (scas_word_item dev s))
           in if eval_condition cond (R_FLG s) then s else scas_word_loop dev inc cond s)"
  by pat_completeness auto

lemma compare_count [simp]:
  "string_count (cmps_byte_item dev s) = string_count s" "string_count (cmps_word_item dev s) = string_count s"
  "string_count (scas_byte_item dev s) = string_count s" "string_count (scas_word_item dev s) = string_count s"
  by (simp_all add: string_count_def MODE_ADDR32_def)

lemma compare_decreases:
  "string_count s \<noteq> 0 \<Longrightarrow> unat (string_count (cmps_move a (count_down (cmps_byte_item dev s)))) < unat (string_count s)"
  "string_count s \<noteq> 0 \<Longrightarrow> unat (string_count (cmps_move a (count_down (cmps_word_item dev s)))) < unat (string_count s)"
  "string_count s \<noteq> 0 \<Longrightarrow> unat (string_count (move_DI a (count_down (scas_byte_item dev s)))) < unat (string_count s)"
  "string_count s \<noteq> 0 \<Longrightarrow> unat (string_count (move_DI a (count_down (scas_word_item dev s)))) < unat (string_count s)"
  using count_down_count by (metis compare_count)+

termination cmps_byte_loop
  by (relation "measure (\<lambda>(dev, inc, cond, s). unat (string_count s))") (auto simp: compare_decreases)

termination cmps_word_loop
  by (relation "measure (\<lambda>(dev, inc, cond, s). unat (string_count s))") (auto simp: compare_decreases)

termination scas_byte_loop
  by (relation "measure (\<lambda>(dev, inc, cond, s). unat (string_count s))") (auto simp: compare_decreases)

termination scas_word_loop
  by (relation "measure (\<lambda>(dev, inc, cond, s). unat (string_count s))") (auto simp: compare_decreases)

declare cmps_byte_loop.simps [simp del] cmps_word_loop.simps [simp del] scas_byte_loop.simps [simp del] scas_word_loop.simps [simp del]

definition x86emuOp_cmps_byte :: "device \<Rightarrow> x86emu \<Rightarrow> x86emu" where
  "x86emuOp_cmps_byte dev s =
     (let inc = string_inc 1 s
      in if MODE_REP s then cmps_byte_loop dev inc (rep_cond s) s else cmps_move inc (cmps_byte_item dev s))"

definition x86emuOp_cmps_word :: "device \<Rightarrow> x86emu \<Rightarrow> x86emu" where
  "x86emuOp_cmps_word dev s =
     (let inc = word_inc s
      in if MODE_REP s then cmps_word_loop dev inc (rep_cond s) s else cmps_move inc (cmps_word_item dev s))"

definition x86emuOp_scas_byte :: "device \<Rightarrow> x86emu \<Rightarrow> x86emu" where
  "x86emuOp_scas_byte dev s =
     (let inc = string_inc 1 s
      in if MODE_REP s then scas_byte_loop dev inc (rep_cond s) s else move_DI inc (scas_byte_item dev s))"

definition x86emuOp_scas_word :: "device \<Rightarrow> x86emu \<Rightarrow> x86emu" where
  "x86emuOp_scas_word dev s =
     (let inc = word_inc s
      in if MODE_REP s then scas_word_loop dev inc (rep_cond s) s else move_DI inc (scas_word_item dev s))"

end
