(* ===== verification/X86emu_Ops_Control.thy ===== *)
theory X86emu_Ops_Control
  imports X86emu_Ops_String
begin

text \<open>
  The instructions of the one-byte table that change the flow of control or the flags (\<open>libx86emu/ops.c\<close>): jumps, calls,
  returns, loops, software interrupts, and the last group, opcode \<open>0xff\<close>.
\<close>

definition F_MSK :: u32 where "F_MSK = F_CF OR F_PF OR F_AF OR F_ZF OR F_SF OR F_TF OR F_IF OR F_DF OR F_OF"
definition F_ALWAYS_ON :: u32 where "F_ALWAYS_ON = 0x0002"
definition X86EMU_TRACE_DEBUG :: u32 where "X86EMU_TRACE_DEBUG = 0x80"

definition x86emuOp_illegal_op :: "x86emu \<Rightarrow> x86emu" where "x86emuOp_illegal_op = INTR_RAISE_UD"

section \<open>Jumps\<close>

definition x86emuOp_jump_short_cc :: "device \<Rightarrow> u8 \<Rightarrow> x86emu \<Rightarrow> x86emu" where
  "x86emuOp_jump_short_cc dev op1 s =
     (let type = ucast (op1 AND 0xf) :: u32;
          (b, s) = fetch_byte dev s;
          eip = R_EIP s + scast b;
          eip = (if \<not> MODE_DATA32 s then eip AND 0xffff else eip)
      in if eval_condition type (R_FLG s) then s\<lparr>R_EIP := eip\<rparr> else s)"

definition x86emuOp_jump_near_IMM :: "device \<Rightarrow> x86emu \<Rightarrow> x86emu" where
  "x86emuOp_jump_near_IMM dev s =
     (let (ofs, s) = (if MODE_DATA32 s then fetch_long dev s else let (w, s) = fetch_word dev s in (scast w, s));
          eip = R_EIP s + ofs;
          eip = (if \<not> MODE_DATA32 s then eip AND 0xffff else eip)
      in s\<lparr>R_EIP := eip\<rparr>)"

text \<open>A far address: the offset and then the selector.\<close>

definition fetch_far :: "device \<Rightarrow> x86emu \<Rightarrow> (u32 \<times> u16) \<times> x86emu" where
  "fetch_far dev s =
     (let (eip, s) = (if MODE_DATA32 s then fetch_long dev s else let (w, s) = fetch_word dev s in (ucast w, s));
          (cs, s) = fetch_word dev s
      in ((eip, cs), s))"

definition x86emuOp_jump_far_IMM :: "device \<Rightarrow> x86emu \<Rightarrow> x86emu" where
  "x86emuOp_jump_far_IMM dev s =
     (let ((eip, cs), s) = fetch_far dev s;
          s = x86emu_set_seg_register dev R_CS_INDEX cs s
      in s\<lparr>R_EIP := eip\<rparr>)"

definition x86emuOp_jump_byte_IMM :: "device \<Rightarrow> x86emu \<Rightarrow> x86emu" where
  "x86emuOp_jump_byte_IMM dev s =
     (let (b, s) = fetch_byte dev s;
          ofs = scast b :: u32;
          eip = R_EIP s + ofs;
          eip = (if MODE_DATA32 s then eip else eip AND 0xffff);
          s = (if log_trace s AND X86EMU_TRACE_DEBUG \<noteq> 0 \<and> R_EIP s - saved_eip s = 3 \<and> sint ofs \<ge> 1
               then s\<lparr>debug_start := sel_base (seg s R_CS_INDEX) + R_EIP s, debug_len := ofs\<rparr> else s)
      in s\<lparr>R_EIP := eip\<rparr>)"

text \<open>The counting jumps: the target is relative, the count is that of the operand size.\<close>

definition loop_target :: "device \<Rightarrow> x86emu \<Rightarrow> u32 \<times> x86emu" where
  "loop_target dev s =
     (let (b, s) = fetch_byte dev s;
          eip = R_EIP s + scast b
      in (if MODE_DATA32 s then eip else eip AND 0xffff, s))"

definition loop_count_down :: "x86emu \<Rightarrow> bool \<times> x86emu" where
  "loop_count_down s =
     (let s = (if MODE_DATA32 s then s\<lparr>R_ECX := R_ECX s - 1\<rparr> else set_rm_word 1 (rm_word 1 s - 1) s)
      in (if MODE_DATA32 s then R_ECX s \<noteq> 0 else rm_word 1 s \<noteq> 0, s))"

definition x86emuOp_loopne :: "device \<Rightarrow> x86emu \<Rightarrow> x86emu" where
  "x86emuOp_loopne dev s =
     (let (eip, s) = loop_target dev s; (more, s) = loop_count_down s
      in if more \<and> \<not> ACCESS_FLAG F_ZF (R_FLG s) then s\<lparr>R_EIP := eip\<rparr> else s)"

definition x86emuOp_loope :: "device \<Rightarrow> x86emu \<Rightarrow> x86emu" where
  "x86emuOp_loope dev s =
     (let (eip, s) = loop_target dev s; (more, s) = loop_count_down s
      in if more \<and> ACCESS_FLAG F_ZF (R_FLG s) then s\<lparr>R_EIP := eip\<rparr> else s)"

definition x86emuOp_loop :: "device \<Rightarrow> x86emu \<Rightarrow> x86emu" where
  "x86emuOp_loop dev s =
     (let (eip, s) = loop_target dev s; (more, s) = loop_count_down s
      in if more then s\<lparr>R_EIP := eip\<rparr> else s)"

definition x86emuOp_jcxz :: "device \<Rightarrow> x86emu \<Rightarrow> x86emu" where
  "x86emuOp_jcxz dev s =
     (let (eip, s) = loop_target dev s
      in if MODE_DATA32 s then (if R_ECX s = 0 then s\<lparr>R_EIP := eip\<rparr> else s)
         else if rm_word 1 s = 0 then s\<lparr>R_EIP := eip\<rparr> else s)"

section \<open>Calls and returns\<close>

definition push_eip :: "device \<Rightarrow> x86emu \<Rightarrow> x86emu" where
  "push_eip dev s = (if MODE_DATA32 s then push_long dev (R_EIP s) s else push_word dev (x_reg (R_EIP s)) s)"

definition push_cs_eip :: "device \<Rightarrow> x86emu \<Rightarrow> x86emu" where
  "push_cs_eip dev s =
     (if MODE_DATA32 s
      then let s = push_long dev (ucast (sel_sel (seg s R_CS_INDEX))) s in push_long dev (R_EIP s) s
      else let s = push_word dev (sel_sel (seg s R_CS_INDEX)) s in push_word dev (x_reg (R_EIP s)) s)"

definition x86emuOp_call_near_IMM :: "device \<Rightarrow> x86emu \<Rightarrow> x86emu" where
  "x86emuOp_call_near_IMM dev s =
     (let (ofs, s) = (if MODE_DATA32 s then fetch_long dev s else let (w, s) = fetch_word dev s in (scast w, s));
          eip = R_EIP s + ofs;
          eip = (if MODE_DATA32 s then eip else eip AND 0xffff);
          s = push_eip dev s
      in s\<lparr>R_EIP := eip\<rparr>)"

definition x86emuOp_call_far_IMM :: "device \<Rightarrow> x86emu \<Rightarrow> x86emu" where
  "x86emuOp_call_far_IMM dev s =
     (let ((eip, cs), s) = fetch_far dev s;
          s = push_cs_eip dev s;
          s = x86emu_set_seg_register dev R_CS_INDEX cs s
      in s\<lparr>R_EIP := eip\<rparr>)"

text \<open>A pop of the operand size, extended to 32 bits.\<close>

definition pop_size :: "device \<Rightarrow> x86emu \<Rightarrow> u32 \<times> x86emu" where
  "pop_size dev s = (if MODE_DATA32 s then pop_long dev s else let (w, s) = pop_word dev s in (ucast w, s))"

definition x86emuOp_ret_near :: "device \<Rightarrow> x86emu \<Rightarrow> x86emu" where
  "x86emuOp_ret_near dev s = (let (eip, s) = pop_size dev s in s\<lparr>R_EIP := eip\<rparr>)"

text \<open>The immediate operand has the operand size, 32 bits in 32-bit code.\<close>

definition fetch_size :: "device \<Rightarrow> x86emu \<Rightarrow> u32 \<times> x86emu" where
  "fetch_size dev s = (if MODE_DATA32 s then fetch_long dev s else let (w, s) = fetch_word dev s in (ucast w, s))"

definition drop_stack :: "u32 \<Rightarrow> x86emu \<Rightarrow> x86emu" where
  "drop_stack imm s = (if MODE_DATA32 s then s\<lparr>R_ESP := R_ESP s + imm\<rparr> else set_SP (x_reg (R_ESP s) + ucast imm) s)"

definition x86emuOp_ret_near_IMM :: "device \<Rightarrow> x86emu \<Rightarrow> x86emu" where
  "x86emuOp_ret_near_IMM dev s =
     (let (imm, s) = fetch_size dev s; (eip, s) = pop_size dev s
      in drop_stack imm (s\<lparr>R_EIP := eip\<rparr>))"

definition x86emuOp_ret_far :: "device \<Rightarrow> x86emu \<Rightarrow> x86emu" where
  "x86emuOp_ret_far dev s =
     (let (eip, s) = pop_size dev s; (cs, s) = pop_size dev s;
          s = x86emu_set_seg_register dev R_CS_INDEX (ucast cs) s
      in s\<lparr>R_EIP := eip\<rparr>)"

definition x86emuOp_ret_far_IMM :: "device \<Rightarrow> x86emu \<Rightarrow> x86emu" where
  "x86emuOp_ret_far_IMM dev s =
     (let (imm, s) = fetch_size dev s; (eip, s) = pop_size dev s; (cs, s) = pop_size dev s;
          s = x86emu_set_seg_register dev R_CS_INDEX (ucast cs) (drop_stack imm s)
      in s\<lparr>R_EIP := eip\<rparr>)"

section \<open>Interrupts\<close>

definition x86emuOp_int3 :: "x86emu \<Rightarrow> x86emu" where "x86emuOp_int3 = INTR_RAISE_SOFT 3"

definition x86emuOp_int_IMM :: "device \<Rightarrow> x86emu \<Rightarrow> x86emu" where
  "x86emuOp_int_IMM dev s = (let (nr, s) = fetch_byte dev s in INTR_RAISE_SOFT nr s)"

definition x86emuOp_into :: "x86emu \<Rightarrow> x86emu" where
  "x86emuOp_into s = (if ACCESS_FLAG F_OF (R_FLG s) then INTR_RAISE_SOFT 4 s else s)"

definition x86emuOp_iret :: "device \<Rightarrow> x86emu \<Rightarrow> x86emu" where
  "x86emuOp_iret dev s =
     (let (eip, s) = pop_size dev s; (cs, s) = pop_size dev s; (f, s) = pop_size dev s;
          s = s\<lparr>R_FLG := f OR F_ALWAYS_ON\<rparr>;
          s = x86emu_set_seg_register dev R_CS_INDEX (ucast cs) s
      in s\<lparr>R_EIP := eip\<rparr>)"

section \<open>Flags and processor control\<close>

definition x86emuOp_pushf_word :: "device \<Rightarrow> x86emu \<Rightarrow> x86emu" where
  "x86emuOp_pushf_word dev s =
     (let f = (R_FLG s AND F_MSK) OR F_ALWAYS_ON
      in if MODE_DATA32 s then push_long dev f s else push_word dev (ucast f) s)"

definition x86emuOp_popf_word :: "device \<Rightarrow> x86emu \<Rightarrow> x86emu" where
  "x86emuOp_popf_word dev s = (let (f, s) = pop_size dev s in s\<lparr>R_FLG := f OR F_ALWAYS_ON\<rparr>)"

definition x86emuOp_sahf :: "x86emu \<Rightarrow> x86emu" where
  "x86emuOp_sahf s =
     s\<lparr>R_FLG := (R_FLG s AND 0xffffff00) OR ((ucast (rm_byte 4 s) OR F_ALWAYS_ON) AND 0xff)\<rparr>"

definition x86emuOp_lahf :: "x86emu \<Rightarrow> x86emu" where
  "x86emuOp_lahf s = set_rm_byte 4 (ucast (R_FLG s OR F_ALWAYS_ON)) s"

definition x86emuOp_wait :: "x86emu \<Rightarrow> x86emu" where "x86emuOp_wait s = s"
definition x86emuOp_hlt :: "x86emu \<Rightarrow> x86emu" where "x86emuOp_hlt = x86emu_stop"
definition x86emuOp_cmc :: "x86emu \<Rightarrow> x86emu" where "x86emuOp_cmc = set_flags (\<lambda>f. f XOR F_CF)"
definition x86emuOp_clc :: "x86emu \<Rightarrow> x86emu" where "x86emuOp_clc = set_flags (CLEAR_FLAG F_CF)"
definition x86emuOp_stc :: "x86emu \<Rightarrow> x86emu" where "x86emuOp_stc = set_flags (SET_FLAG F_CF)"
definition x86emuOp_cli :: "x86emu \<Rightarrow> x86emu" where "x86emuOp_cli = set_flags (CLEAR_FLAG F_IF)"
definition x86emuOp_sti :: "x86emu \<Rightarrow> x86emu" where "x86emuOp_sti = set_flags (SET_FLAG F_IF)"
definition x86emuOp_cld :: "x86emu \<Rightarrow> x86emu" where "x86emuOp_cld = set_flags (CLEAR_FLAG F_DF)"
definition x86emuOp_std :: "x86emu \<Rightarrow> x86emu" where "x86emuOp_std = set_flags (SET_FLAG F_DF)"

section \<open>Opcode 0xff\<close>

text \<open>With a register operand: increment, decrement, call, jump and push. The target of a call is read after the push.\<close>

definition opcFF_register :: "device \<Rightarrow> nat \<Rightarrow> nat \<Rightarrow> x86emu \<Rightarrow> x86emu" where
  "opcFF_register dev rh rl s =
     (if rh = 0 then inc_register rl s
      else if rh = 1 then dec_register rl s
      else if rh = 2 then
        let s = push_eip dev s
        in s\<lparr>R_EIP := (if MODE_DATA32 s then rm_long rl s else ucast (rm_word rl s))\<rparr>
      else if rh = 4 then s\<lparr>R_EIP := (if MODE_DATA32 s then rm_long rl s else ucast (rm_word rl s))\<rparr>
      else if rh = 6 then push_register dev rl s
      else INTR_RAISE_UD s)"

text \<open>A value of the operand size from memory, extended to 32 bits, and the size of it.\<close>

definition fetch_data_size :: "device \<Rightarrow> u32 \<Rightarrow> x86emu \<Rightarrow> u32 \<times> x86emu" where
  "fetch_data_size dev addr s =
     (if MODE_DATA32 s then fetch_data_long dev addr s else let (w, s) = fetch_data_word dev addr s in (ucast w, s))"

definition operand_size :: "x86emu \<Rightarrow> u32" where
  "operand_size s = (if MODE_DATA32 s then 4 else 2)"

definition opcFF_memory :: "device \<Rightarrow> nat \<Rightarrow> nat \<Rightarrow> nat \<Rightarrow> x86emu \<Rightarrow> x86emu" where
  "opcFF_memory dev md rh rl s =
     (if rh = 7 then INTR_RAISE_UD s
      else
        let (addr, s) = decode_rm_address dev md rl s;
            (val, s) = fetch_data_size dev addr s
        in if rh = 0 then
             if MODE_DATA32 s then let (val, s) = alu (inc_long val) s in store_data_long dev addr val s
             else let (val, s) = alu (inc_word (ucast val)) s in store_data_word dev addr val s
           else if rh = 1 then
             if MODE_DATA32 s then let (val, s) = alu (dec_long val) s in store_data_long dev addr val s
             else let (val, s) = alu (dec_word (ucast val)) s in store_data_word dev addr val s
           else if rh = 2 then let s = push_eip dev s in s\<lparr>R_EIP := val\<rparr>
           else if rh = 3 then
             let (cs, s) = fetch_data_word dev (addr + operand_size s) s;
                 s = push_cs_eip dev s;
                 s = x86emu_set_seg_register dev R_CS_INDEX cs s
             in s\<lparr>R_EIP := val\<rparr>
           else if rh = 4 then s\<lparr>R_EIP := val\<rparr>
           else if rh = 5 then
             let (cs, s) = fetch_data_word dev (addr + operand_size s) s;
                 s = x86emu_set_seg_register dev R_CS_INDEX cs s
             in s\<lparr>R_EIP := val\<rparr>
           else if MODE_DATA32 s then push_long dev val s else push_word dev (ucast val) s)"

definition x86emuOp_opcFF_word_RM :: "device \<Rightarrow> x86emu \<Rightarrow> x86emu" where
  "x86emuOp_opcFF_word_RM dev s =
     (let ((md, rh, rl), s) = fetch_decode_modrm dev s
      in if md = 3 then opcFF_register dev rh rl s else opcFF_memory dev md rh rl s)"

end
