(* ===== verification/X86emu_Ops2.thy ===== *)
theory X86emu_Ops2
  imports X86emu_Ops_Control
begin

text \<open>
  The two-byte opcodes, those after \<open>0x0f\<close> (\<open>libx86emu/ops2.c\<close>): system registers, model-specific registers, conditional
  jumps and stores, bit tests and scans, double shifts, and extending moves.
\<close>

definition x86emuOp2_illegal_op :: "x86emu \<Rightarrow> x86emu" where "x86emuOp2_illegal_op = INTR_RAISE_UD"

section \<open>System registers\<close>

definition set_ldt :: "device \<Rightarrow> u16 \<Rightarrow> x86emu \<Rightarrow> x86emu" where
  "set_ldt dev = set_sel dev ldt (\<lambda>x s. s\<lparr>ldt := x\<rparr>)"

definition opc_00_load :: "device \<Rightarrow> nat \<Rightarrow> u16 \<Rightarrow> x86emu \<Rightarrow> x86emu" where
  "opc_00_load dev rh val s =
     (if rh = 2 then set_ldt dev val s
      else if rh = 3 then s\<lparr>tr := (tr s)\<lparr>sel_sel := val\<rparr>\<rparr>
      else if val \<noteq> 0 then set_flags (SET_FLAG F_ZF) s else s)"

definition x86emuOp2_opc_00 :: "device \<Rightarrow> x86emu \<Rightarrow> x86emu" where
  "x86emuOp2_opc_00 dev s =
     (let ((md, rh, rl), s) = fetch_decode_modrm dev s
      in if rh > 5 then INTR_RAISE_UD s
         else if md = 3 then
           if rh = 0 then set_rm_word rl (sel_sel (ldt s)) s
           else if rh = 1 then set_rm_word rl (sel_sel (tr s)) s
           else opc_00_load dev rh (rm_word rl s) s
         else
           let (addr, s) = decode_rm_address dev md rl s
           in if rh = 0 then store_data_word dev addr (sel_sel (ldt s)) s
              else if rh = 1 then store_data_word dev addr (sel_sel (tr s)) s
              else let (val, s) = fetch_data_word dev addr s in opc_00_load dev rh val s)"

text \<open>A table register is stored and loaded as a 16-bit limit and a base, of which 16-bit code sees 24 bits.\<close>

definition table_base :: "u32 \<Rightarrow> x86emu \<Rightarrow> u32" where
  "table_base b s = (if \<not> MODE_DATA32 s then b AND 0xffffff else b)"

definition store_table :: "device \<Rightarrow> nat \<Rightarrow> nat \<Rightarrow> u32 \<Rightarrow> u32 \<Rightarrow> x86emu \<Rightarrow> x86emu" where
  "store_table dev md rl bs limit s =
     (let (addr, s) = decode_rm_address dev md rl s;
          bs = table_base bs s;
          s = store_data_word dev addr (ucast limit) s
      in store_data_long dev (addr + 2) bs s)"

definition load_table :: "device \<Rightarrow> nat \<Rightarrow> nat \<Rightarrow> x86emu \<Rightarrow> (u32 \<times> u32) \<times> x86emu" where
  "load_table dev md rl s =
     (let (addr, s) = decode_rm_address dev md rl s;
          (limit, s) = fetch_data_word dev addr s;
          (bs, s) = fetch_data_long dev (addr + 2) s
      in ((table_base bs s, ucast limit), s))"

definition set_CR0 :: "u32 \<Rightarrow> x86emu \<Rightarrow> x86emu" where
  "set_CR0 v s = s\<lparr>crx := (crx s)(0 := v)\<rparr>"

definition x86emuOp2_opc_01 :: "device \<Rightarrow> x86emu \<Rightarrow> x86emu" where
  "x86emuOp2_opc_01 dev s =
     (let ((md, rh, rl), s) = fetch_decode_modrm dev s
      in if md = 3 \<and> rh \<noteq> 4 \<and> rh \<noteq> 6 then INTR_RAISE_UD s
         else if rh = 0 then store_table dev md rl (gdt_base s) (gdt_limit s) s
         else if rh = 1 then store_table dev md rl (idt_base s) (idt_limit s) s
         else if rh = 2 then
           let ((bs, limit), s) = load_table dev md rl s in s\<lparr>gdt_limit := limit, gdt_base := bs\<rparr>
         else if rh = 3 then
           let ((bs, limit), s) = load_table dev md rl s in s\<lparr>idt_limit := limit, idt_base := bs\<rparr>
         else if rh = 4 then
           if md = 3 then set_rm_word rl (ucast (R_CR0 s)) s
           else let (addr, s) = decode_rm_address dev md rl s in store_data_word dev addr (ucast (R_CR0 s)) s
         else if rh = 5 then INTR_RAISE_UD s
         else if rh = 6 then
           if md = 3 then set_CR0 ((R_CR0 s AND NOT 0xffff) + ucast (rm_word rl s)) s
           else
             let (addr, s) = decode_rm_address dev md rl s;
                 (val, s) = fetch_data_word dev addr s
             in set_CR0 ((R_CR0 s AND NOT 0xffff) + ucast val) s
         else snd (decode_rm_address dev md rl s))"

definition x86emuOp2_clts :: "x86emu \<Rightarrow> x86emu" where "x86emuOp2_clts s = set_CR0 (R_CR0 s AND NOT 8) s"
definition x86emuOp2_invd :: "x86emu \<Rightarrow> x86emu" where "x86emuOp2_invd s = s"
definition x86emuOp2_wbinvd :: "x86emu \<Rightarrow> x86emu" where "x86emuOp2_wbinvd s = s"

definition x86emuOp2_mov_word_RM_CRx :: "device \<Rightarrow> x86emu \<Rightarrow> x86emu" where
  "x86emuOp2_mov_word_RM_CRx dev s =
     (let ((md, rh, rl), s) = fetch_decode_modrm dev s
      in if md = 3 then set_rm_long rl (crx s rh) s else INTR_RAISE_UD s)"

definition x86emuOp2_mov_word_RM_DRx :: "device \<Rightarrow> x86emu \<Rightarrow> x86emu" where
  "x86emuOp2_mov_word_RM_DRx dev s =
     (let ((md, rh, rl), s) = fetch_decode_modrm dev s
      in if md = 3 then set_rm_long rl (drx s rh) s else INTR_RAISE_UD s)"

definition x86emuOp2_mov_word_CRx_RM :: "device \<Rightarrow> x86emu \<Rightarrow> x86emu" where
  "x86emuOp2_mov_word_CRx_RM dev s =
     (let ((md, rh, rl), s) = fetch_decode_modrm dev s
      in if md = 3 then s\<lparr>crx := (crx s)(rh := rm_long rl s)\<rparr> else INTR_RAISE_UD s)"

definition x86emuOp2_mov_word_DRx_RM :: "device \<Rightarrow> x86emu \<Rightarrow> x86emu" where
  "x86emuOp2_mov_word_DRx_RM dev s =
     (let ((md, rh, rl), s) = fetch_decode_modrm dev s
      in if md = 3 then s\<lparr>drx := (drx s)(rh := rm_long rl s)\<rparr> else INTR_RAISE_UD s)"

definition X86EMU_MSRS :: u32 where "X86EMU_MSRS = 0x800"

definition x86emuOp2_wrmsr :: "x86emu \<Rightarrow> x86emu" where
  "x86emuOp2_wrmsr s =
     (let u = R_ECX s
      in if u \<ge> X86EMU_MSRS then INTR_RAISE_UD s
         else s\<lparr>msr := (msr s)(unat u := push_bit 32 (ucast (R_EDX s)) + ucast (R_EAX s)),
                msr_perm := (msr_perm s)(unat u := msr_perm s (unat u) OR X86EMU_ACC_W)\<rparr>)"

definition R_TSC :: "x86emu \<Rightarrow> u64" where "R_TSC s = msr s 0x10"

definition x86emuOp2_rdtsc :: "x86emu \<Rightarrow> x86emu" where
  "x86emuOp2_rdtsc s =
     s\<lparr>R_EAX := ucast (R_TSC s), R_EDX := ucast (drop_bit 32 (R_TSC s)),
       msr_perm := (msr_perm s)(0x10 := msr_perm s 0x10 OR X86EMU_ACC_R)\<rparr>"

definition x86emuOp2_rdmsr :: "x86emu \<Rightarrow> x86emu" where
  "x86emuOp2_rdmsr s =
     (let u = R_ECX s
      in if u \<ge> X86EMU_MSRS then INTR_RAISE_UD s
         else s\<lparr>R_EDX := ucast (drop_bit 32 (msr s (unat u))), R_EAX := ucast (msr s (unat u)),
                msr_perm := (msr_perm s)(unat u := msr_perm s (unat u) OR X86EMU_ACC_R)\<rparr>)"

definition x86emuOp2_rdpmc :: "x86emu \<Rightarrow> x86emu" where "x86emuOp2_rdpmc s = s\<lparr>R_EDX := 0, R_EAX := 0\<rparr>"
definition x86emuOp2_sysenter :: "x86emu \<Rightarrow> x86emu" where "x86emuOp2_sysenter = INTR_RAISE_UD"
definition x86emuOp2_sysexit :: "x86emu \<Rightarrow> x86emu" where "x86emuOp2_sysexit = INTR_RAISE_UD"

section \<open>Conditions and segments\<close>

definition x86emuOp2_long_jump :: "device \<Rightarrow> u8 \<Rightarrow> x86emu \<Rightarrow> x86emu" where
  "x86emuOp2_long_jump dev op2 s =
     (let type = ucast (op2 AND 0xf) :: u32;
          (ofs, s) = (if MODE_DATA32 s then fetch_long dev s else let (w, s) = fetch_word dev s in (scast w, s));
          eip = R_EIP s + ofs;
          eip = (if \<not> MODE_DATA32 s then eip AND 0xffff else eip)
      in if eval_condition type (R_FLG s) then s\<lparr>R_EIP := eip\<rparr> else s)"

definition x86emuOp2_set_byte :: "device \<Rightarrow> u8 \<Rightarrow> x86emu \<Rightarrow> x86emu" where
  "x86emuOp2_set_byte dev op2 s =
     (let type = ucast (op2 AND 0xf) :: u32;
          ((md, rh, rl), s) = fetch_decode_modrm dev s
      in if md = 3 then set_rm_byte rl (if eval_condition type (R_FLG s) then 1 else 0) s
         else
           let (addr, s) = decode_rm_address dev md rl s
           in store_data_byte dev addr (if eval_condition type (R_FLG s) then 1 else 0) s)"

definition x86emuOp2_push_FS :: "device \<Rightarrow> x86emu \<Rightarrow> x86emu" where "x86emuOp2_push_FS dev = push_segment dev R_FS_INDEX"
definition x86emuOp2_pop_FS :: "device \<Rightarrow> x86emu \<Rightarrow> x86emu" where "x86emuOp2_pop_FS dev = pop_segment dev R_FS_INDEX"
definition x86emuOp2_push_GS :: "device \<Rightarrow> x86emu \<Rightarrow> x86emu" where "x86emuOp2_push_GS dev = push_segment dev R_GS_INDEX"
definition x86emuOp2_pop_GS :: "device \<Rightarrow> x86emu \<Rightarrow> x86emu" where "x86emuOp2_pop_GS dev = pop_segment dev R_GS_INDEX"
definition x86emuOp2_lss_R_IMM :: "device \<Rightarrow> x86emu \<Rightarrow> x86emu" where "x86emuOp2_lss_R_IMM dev = load_far_pointer dev R_SS_INDEX"
definition x86emuOp2_lfs_R_IMM :: "device \<Rightarrow> x86emu \<Rightarrow> x86emu" where "x86emuOp2_lfs_R_IMM dev = load_far_pointer dev R_FS_INDEX"
definition x86emuOp2_lgs_R_IMM :: "device \<Rightarrow> x86emu \<Rightarrow> x86emu" where "x86emuOp2_lgs_R_IMM dev = load_far_pointer dev R_GS_INDEX"

section \<open>Bit tests\<close>

text \<open>
  \<open>wr\<close> combines the value with the mask of the bit, if the instruction changes the bit. With a memory operand the bit
  number also moves the address, by its 32-bit or 16-bit units but counted as bytes; all but \<open>bt\<close> divide the 16-bit
  number by 32.
\<close>

definition bit_test_R :: "device \<Rightarrow> (u32 \<Rightarrow> u32 \<Rightarrow> u32) option \<Rightarrow> nat \<Rightarrow> x86emu \<Rightarrow> x86emu" where
  "bit_test_R dev wr shift16 s =
     (let ((md, rh, rl), s) = fetch_decode_modrm dev s
      in if md = 3 then
           if MODE_DATA32 s then
             let mask = push_bit (unat (rm_long rh s AND 0x1f)) 1;
                 s = set_flags (CONDITIONAL_SET_FLAG (rm_long rl s AND mask \<noteq> 0) F_CF) s
             in case wr of None \<Rightarrow> s | Some f \<Rightarrow> set_rm_long rl (f (rm_long rl s) mask) s
           else
             let mask = push_bit (unat (rm_word rh s AND 0x0f)) 1;
                 s = set_flags (CONDITIONAL_SET_FLAG (ucast (rm_word rl s) AND mask \<noteq> 0) F_CF) s
             in case wr of None \<Rightarrow> s | Some f \<Rightarrow> set_rm_word rl (ucast (f (ucast (rm_word rl s)) mask)) s
         else
           let (addr, s) = decode_rm_address dev md rl s
           in if MODE_DATA32 s then
                let disp = rm_long rh s;
                    mask = push_bit (unat (disp AND 0x1f)) 1;
                    disp = signed_drop_bit 5 disp;
                    (val, s) = fetch_data_long dev (addr + disp) s;
                    s = set_flags (CONDITIONAL_SET_FLAG (val AND mask \<noteq> 0) F_CF) s
                in case wr of None \<Rightarrow> s | Some f \<Rightarrow> store_data_long dev (addr + disp) (f val mask) s
              else
                let disp = scast (rm_word rh s) :: u32;
                    mask = push_bit (unat (disp AND 0x0f)) 1;
                    disp = signed_drop_bit shift16 disp;
                    (val, s) = fetch_data_word dev (addr + disp) s;
                    s = set_flags (CONDITIONAL_SET_FLAG (ucast val AND mask \<noteq> 0) F_CF) s
                in case wr of None \<Rightarrow> s | Some f \<Rightarrow> store_data_word dev (addr + disp) (ucast (f (ucast val) mask)) s)"

definition x86emuOp2_bt_R :: "device \<Rightarrow> x86emu \<Rightarrow> x86emu" where "x86emuOp2_bt_R dev = bit_test_R dev None 4"
definition x86emuOp2_bts_R :: "device \<Rightarrow> x86emu \<Rightarrow> x86emu" where "x86emuOp2_bts_R dev = bit_test_R dev (Some (OR)) 5"
definition x86emuOp2_btr_R :: "device \<Rightarrow> x86emu \<Rightarrow> x86emu" where
  "x86emuOp2_btr_R dev = bit_test_R dev (Some (\<lambda>val mask. val AND NOT mask)) 5"
definition x86emuOp2_btc_R :: "device \<Rightarrow> x86emu \<Rightarrow> x86emu" where "x86emuOp2_btc_R dev = bit_test_R dev (Some (XOR)) 5"

definition btX_write :: "nat \<Rightarrow> (u32 \<Rightarrow> u32 \<Rightarrow> u32) option" where
  "btX_write rh = (if rh = 5 then Some (OR) else if rh = 6 then Some (\<lambda>val mask. val AND NOT mask)
     else if rh = 7 then Some (XOR) else None)"

text \<open>The 16-bit register form takes the bit number modulo 32, so that the mask can lie outside the register.\<close>

definition x86emuOp2_btX_I :: "device \<Rightarrow> x86emu \<Rightarrow> x86emu" where
  "x86emuOp2_btX_I dev s =
     (let ((md, rh, rl), s) = fetch_decode_modrm dev s
      in if rh < 4 then INTR_RAISE_UD s
         else if md = 3 then
           let (imm, s) = fetch_byte dev s;
               mask = push_bit (unat (imm AND 0x1f)) 1
           in if MODE_DATA32 s then
                let s = set_flags (CONDITIONAL_SET_FLAG (rm_long rl s AND mask \<noteq> 0) F_CF) s
                in case btX_write rh of None \<Rightarrow> s | Some f \<Rightarrow> set_rm_long rl (f (rm_long rl s) mask) s
              else
                let s = set_flags (CONDITIONAL_SET_FLAG (ucast (rm_word rl s) AND mask \<noteq> 0) F_CF) s
                in case btX_write rh of None \<Rightarrow> s | Some f \<Rightarrow> set_rm_word rl (ucast (f (ucast (rm_word rl s)) mask)) s
         else
           let (addr, s) = decode_rm_address dev md rl s;
               (imm, s) = fetch_byte dev s
           in if MODE_DATA32 s then
                let mask = push_bit (unat (imm AND 0x1f)) 1;
                    (val, s) = fetch_data_long dev addr s;
                    s = set_flags (CONDITIONAL_SET_FLAG (val AND mask \<noteq> 0) F_CF) s
                in case btX_write rh of None \<Rightarrow> s | Some f \<Rightarrow> store_data_long dev addr (f val mask) s
              else
                let mask = push_bit (unat (imm AND 0x0f)) 1;
                    (val, s) = fetch_data_word dev addr s;
                    s = set_flags (CONDITIONAL_SET_FLAG (ucast val AND mask \<noteq> 0) F_CF) s
                in case btX_write rh of None \<Rightarrow> s | Some f \<Rightarrow> store_data_word dev addr (ucast (f (ucast val) mask)) s)"

section \<open>Double shifts\<close>

text \<open>The immediate forms fetch the count after the operands are decoded and before the memory operand is read.\<close>

definition double_shift :: "device \<Rightarrow> (u32 \<Rightarrow> u32 \<Rightarrow> u8 \<Rightarrow> flags \<Rightarrow> u32 \<times> flags) \<Rightarrow> (u16 \<Rightarrow> u16 \<Rightarrow> u8 \<Rightarrow> flags \<Rightarrow> u16 \<times> flags) \<Rightarrow>
    (x86emu \<Rightarrow> u8 \<times> x86emu) \<Rightarrow> x86emu \<Rightarrow> x86emu" where
  "double_shift dev op_long op_word count s =
     (let ((md, rh, rl), s) = fetch_decode_modrm dev s
      in if md = 3 then
           let (imm, s) = count s
           in if MODE_DATA32 s
              then let (v, s) = alu (op_long (rm_long rl s) (rm_long rh s) imm) s in set_rm_long rl v s
              else let (v, s) = alu (op_word (rm_word rl s) (rm_word rh s) imm) s in set_rm_word rl v s
         else
           let (addr, s) = decode_rm_address dev md rl s;
               (imm, s) = count s
           in if MODE_DATA32 s then
                let (val, s) = fetch_data_long dev addr s;
                    (val, s) = alu (op_long val (rm_long rh s) imm) s
                in store_data_long dev addr val s
              else
                let (val, s) = fetch_data_word dev addr s;
                    (val, s) = alu (op_word val (rm_word rh s) imm) s
                in store_data_word dev addr val s)"

definition x86emuOp2_shld_IMM :: "device \<Rightarrow> x86emu \<Rightarrow> x86emu" where
  "x86emuOp2_shld_IMM dev = double_shift dev shld_long shld_word (fetch_byte dev)"
definition x86emuOp2_shld_CL :: "device \<Rightarrow> x86emu \<Rightarrow> x86emu" where
  "x86emuOp2_shld_CL dev = double_shift dev shld_long shld_word (\<lambda>s. (rm_byte 1 s, s))"
definition x86emuOp2_shrd_IMM :: "device \<Rightarrow> x86emu \<Rightarrow> x86emu" where
  "x86emuOp2_shrd_IMM dev = double_shift dev shrd_long shrd_word (fetch_byte dev)"
definition x86emuOp2_shrd_CL :: "device \<Rightarrow> x86emu \<Rightarrow> x86emu" where
  "x86emuOp2_shrd_CL dev = double_shift dev shrd_long shrd_word (\<lambda>s. (rm_byte 1 s, s))"

section \<open>Multiplication, scans and extending moves\<close>

definition x86emuOp2_imul_R_RM :: "device \<Rightarrow> x86emu \<Rightarrow> x86emu" where
  "x86emuOp2_imul_R_RM dev s =
     (let ((md, rh, rl), s) = fetch_decode_modrm dev s
      in if MODE_DATA32 s then
           let (val, s) = (if md = 3 then (rm_long rl s, s)
                           else let (addr, s) = decode_rm_address dev md rl s in fetch_data_long dev addr s);
               (res_lo, res_hi) = imul_long_direct (rm_long rh s) val
           in set_rm_long rh res_lo (mul_flags (res_hi = 0) s)
         else
           let (val, s) = (if md = 3 then (rm_word rl s, s)
                           else let (addr, s) = decode_rm_address dev md rl s in fetch_data_word dev addr s);
               res_lo = word_of_int (sint (rm_word rh s) * sint val) :: u32
           in set_rm_word rh (ucast res_lo) (mul_flags (\<not> res_lo > 0xffff) s))"

text \<open>The loops of \<open>bsf\<close> and \<open>bsr\<close>: the first set bit from below, or \<open>n\<close>, and from above, or 0.\<close>

function bsf_loop :: "nat \<Rightarrow> u32 \<Rightarrow> nat \<Rightarrow> nat" where
  "bsf_loop n val cnt = (if cnt < n \<and> drop_bit cnt val AND 1 = 0 then bsf_loop n val (cnt + 1) else cnt)"
  by pat_completeness auto
termination bsf_loop by (relation "measure (\<lambda>(n, val, cnt). n - cnt)") auto

declare bsf_loop.simps [simp del]

fun bsr_loop :: "u32 \<Rightarrow> nat \<Rightarrow> nat" where
  "bsr_loop val 0 = 0"
| "bsr_loop val (Suc c) = (if drop_bit (Suc c) val AND 1 \<noteq> 0 then Suc c else bsr_loop val c)"

definition bit_scan :: "device \<Rightarrow> (nat \<Rightarrow> u32 \<Rightarrow> nat) \<Rightarrow> x86emu \<Rightarrow> x86emu" where
  "bit_scan dev scan s =
     (let ((md, rh, rl), s) = fetch_decode_modrm dev s
      in if MODE_DATA32 s then
           let (val, s) = (if md = 3 then (rm_long rl s, s)
                           else let (addr, s) = decode_rm_address dev md rl s in fetch_data_long dev addr s);
               s = set_flags (CONDITIONAL_SET_FLAG (val = 0) F_ZF) s
           in set_rm_long rh (of_nat (scan 32 val)) s
         else
           let (val, s) = (if md = 3 then (rm_word rl s, s)
                           else let (addr, s) = decode_rm_address dev md rl s in fetch_data_word dev addr s);
               s = set_flags (CONDITIONAL_SET_FLAG (val = 0) F_ZF) s
           in set_rm_word rh (of_nat (scan 16 (ucast val))) s)"

definition x86emuOp2_bsf :: "device \<Rightarrow> x86emu \<Rightarrow> x86emu" where
  "x86emuOp2_bsf dev = bit_scan dev (\<lambda>n val. bsf_loop n val 0)"

definition x86emuOp2_bsr :: "device \<Rightarrow> x86emu \<Rightarrow> x86emu" where
  "x86emuOp2_bsr dev = bit_scan dev (\<lambda>n val. bsr_loop val (n - 1))"

definition x86emuOp2_movzx_byte_R_RM :: "device \<Rightarrow> x86emu \<Rightarrow> x86emu" where
  "x86emuOp2_movzx_byte_R_RM dev s =
     (let ((md, rh, rl), s) = fetch_decode_modrm dev s;
          (val, s) = (if md = 3 then (rm_byte rl s, s)
                      else let (addr, s) = decode_rm_address dev md rl s in fetch_data_byte dev addr s)
      in if MODE_DATA32 s then set_rm_long rh (ucast val) s else set_rm_word rh (ucast val) s)"

definition x86emuOp2_movzx_word_R_RM :: "device \<Rightarrow> x86emu \<Rightarrow> x86emu" where
  "x86emuOp2_movzx_word_R_RM dev s =
     (let ((md, rh, rl), s) = fetch_decode_modrm dev s;
          (val, s) = (if md = 3 then (rm_word rl s, s)
                      else let (addr, s) = decode_rm_address dev md rl s in fetch_data_word dev addr s)
      in if MODE_DATA32 s then set_rm_long rh (ucast val) s else set_rm_word rh val s)"

definition x86emuOp2_movsx_byte_R_RM :: "device \<Rightarrow> x86emu \<Rightarrow> x86emu" where
  "x86emuOp2_movsx_byte_R_RM dev s =
     (let ((md, rh, rl), s) = fetch_decode_modrm dev s;
          (val, s) = (if md = 3 then (rm_byte rl s, s)
                      else let (addr, s) = decode_rm_address dev md rl s in fetch_data_byte dev addr s)
      in if MODE_DATA32 s then set_rm_long rh (scast val) s else set_rm_word rh (scast val) s)"

definition x86emuOp2_movsx_word_R_RM :: "device \<Rightarrow> x86emu \<Rightarrow> x86emu" where
  "x86emuOp2_movsx_word_R_RM dev s =
     (let ((md, rh, rl), s) = fetch_decode_modrm dev s;
          (val, s) = (if md = 3 then (rm_word rl s, s)
                      else let (addr, s) = decode_rm_address dev md rl s in fetch_data_word dev addr s)
      in if MODE_DATA32 s then set_rm_long rh (scast val) s else set_rm_word rh val s)"

section \<open>The table\<close>

text \<open>The opcodes without an entry here are those whose entry is \<open>x86emuOp2_illegal_op\<close>.\<close>

definition x86emu_optab2 :: "device \<Rightarrow> u8 \<Rightarrow> x86emu \<Rightarrow> x86emu" where
  "x86emu_optab2 dev op2 =
     (if op2 = 0x00 then x86emuOp2_opc_00 dev
      else if op2 = 0x01 then x86emuOp2_opc_01 dev
      else if op2 = 0x06 then x86emuOp2_clts
      else if op2 = 0x08 then x86emuOp2_invd
      else if op2 = 0x09 then x86emuOp2_wbinvd
      else if op2 = 0x20 then x86emuOp2_mov_word_RM_CRx dev
      else if op2 = 0x21 then x86emuOp2_mov_word_RM_DRx dev
      else if op2 = 0x22 then x86emuOp2_mov_word_CRx_RM dev
      else if op2 = 0x23 then x86emuOp2_mov_word_DRx_RM dev
      else if op2 = 0x30 then x86emuOp2_wrmsr
      else if op2 = 0x31 then x86emuOp2_rdtsc
      else if op2 = 0x32 then x86emuOp2_rdmsr
      else if op2 = 0x33 then x86emuOp2_rdpmc
      else if op2 = 0x34 then x86emuOp2_sysenter
      else if op2 = 0x35 then x86emuOp2_sysexit
      else if 0x80 \<le> op2 \<and> op2 \<le> 0x8f then x86emuOp2_long_jump dev op2
      else if 0x90 \<le> op2 \<and> op2 \<le> 0x9f then x86emuOp2_set_byte dev op2
      else if op2 = 0xa0 then x86emuOp2_push_FS dev
      else if op2 = 0xa1 then x86emuOp2_pop_FS dev
      else if op2 = 0xa3 then x86emuOp2_bt_R dev
      else if op2 = 0xa4 then x86emuOp2_shld_IMM dev
      else if op2 = 0xa5 then x86emuOp2_shld_CL dev
      else if op2 = 0xa8 then x86emuOp2_push_GS dev
      else if op2 = 0xa9 then x86emuOp2_pop_GS dev
      else if op2 = 0xab then x86emuOp2_bts_R dev
      else if op2 = 0xac then x86emuOp2_shrd_IMM dev
      else if op2 = 0xad then x86emuOp2_shrd_CL dev
      else if op2 = 0xaf then x86emuOp2_imul_R_RM dev
      else if op2 = 0xb2 then x86emuOp2_lss_R_IMM dev
      else if op2 = 0xb3 then x86emuOp2_btr_R dev
      else if op2 = 0xb4 then x86emuOp2_lfs_R_IMM dev
      else if op2 = 0xb5 then x86emuOp2_lgs_R_IMM dev
      else if op2 = 0xb6 then x86emuOp2_movzx_byte_R_RM dev
      else if op2 = 0xb7 then x86emuOp2_movzx_word_R_RM dev
      else if op2 = 0xba then x86emuOp2_btX_I dev
      else if op2 = 0xbb then x86emuOp2_btc_R dev
      else if op2 = 0xbc then x86emuOp2_bsf dev
      else if op2 = 0xbd then x86emuOp2_bsr dev
      else if op2 = 0xbe then x86emuOp2_movsx_byte_R_RM dev
      else if op2 = 0xbf then x86emuOp2_movsx_word_R_RM dev
      else x86emuOp2_illegal_op)"

end
