(* ===== verification/X86emu_Run.thy ===== *)
theory X86emu_Run
  imports X86emu_Ops2
begin

text \<open>
  The opcode table (\<open>libx86emu/ops.c\<close>) and the main loop \<open>x86emu_run\<close> (\<open>libx86emu/decode.c\<close>). The loop is modelled without a log buffer,
  as the kernel runs it: \<open>emu_process_debug\<close> returns at once then.
\<close>

section \<open>The opcode table\<close>

definition x86emuOp_two_byte :: "device \<Rightarrow> x86emu \<Rightarrow> x86emu" where
  "x86emuOp_two_byte dev s = (let (op2, s) = fetch_byte dev s in x86emu_optab2 dev op2 s)"

text \<open>The handlers differ in whether they look at the opcode and whether they can fault in the host.\<close>

definition plain :: "(x86emu \<Rightarrow> x86emu) \<Rightarrow> u8 \<Rightarrow> x86emu \<Rightarrow> x86emu option" where
  "plain f op s = Some (f s)"

definition by_opcode :: "(u8 \<Rightarrow> x86emu \<Rightarrow> x86emu) \<Rightarrow> u8 \<Rightarrow> x86emu \<Rightarrow> x86emu option" where
  "by_opcode f op s = Some (f op s)"

definition faulting :: "(x86emu \<Rightarrow> x86emu option) \<Rightarrow> u8 \<Rightarrow> x86emu \<Rightarrow> x86emu option" where
  "faulting f op s = f s"

definition x86emu_optab :: "device \<Rightarrow> (u8 \<Rightarrow> x86emu \<Rightarrow> x86emu option) list" where
  "x86emu_optab dev = [
    by_opcode (x86emuOp_op_A_byte_RM_R dev), by_opcode (x86emuOp_op_A_word_RM_R dev), by_opcode (x86emuOp_op_A_byte_R_RM dev),
    by_opcode (x86emuOp_op_A_word_R_RM dev), by_opcode (x86emuOp_op_A_byte_AL_IMM dev),
    by_opcode (x86emuOp_op_A_word_AX_IMM dev), plain (x86emuOp_push_ES dev), plain (x86emuOp_pop_ES dev),
    by_opcode (x86emuOp_op_A_byte_RM_R dev), by_opcode (x86emuOp_op_A_word_RM_R dev), by_opcode (x86emuOp_op_A_byte_R_RM dev),
    by_opcode (x86emuOp_op_A_word_R_RM dev), by_opcode (x86emuOp_op_A_byte_AL_IMM dev),
    by_opcode (x86emuOp_op_A_word_AX_IMM dev), plain (x86emuOp_push_CS dev), plain (x86emuOp_two_byte dev),
    by_opcode (x86emuOp_op_A_byte_RM_R dev), by_opcode (x86emuOp_op_A_word_RM_R dev), by_opcode (x86emuOp_op_A_byte_R_RM dev),
    by_opcode (x86emuOp_op_A_word_R_RM dev), by_opcode (x86emuOp_op_A_byte_AL_IMM dev),
    by_opcode (x86emuOp_op_A_word_AX_IMM dev), plain (x86emuOp_push_SS dev), plain (x86emuOp_pop_SS dev),
    by_opcode (x86emuOp_op_A_byte_RM_R dev), by_opcode (x86emuOp_op_A_word_RM_R dev), by_opcode (x86emuOp_op_A_byte_R_RM dev),
    by_opcode (x86emuOp_op_A_word_R_RM dev), by_opcode (x86emuOp_op_A_byte_AL_IMM dev),
    by_opcode (x86emuOp_op_A_word_AX_IMM dev), plain (x86emuOp_push_DS dev), plain (x86emuOp_pop_DS dev),
    by_opcode (x86emuOp_op_A_byte_RM_R dev), by_opcode (x86emuOp_op_A_word_RM_R dev), by_opcode (x86emuOp_op_A_byte_R_RM dev),
    by_opcode (x86emuOp_op_A_word_R_RM dev), by_opcode (x86emuOp_op_A_byte_AL_IMM dev),
    by_opcode (x86emuOp_op_A_word_AX_IMM dev), plain x86emuOp_illegal_op, plain x86emuOp_daa,
    by_opcode (x86emuOp_op_A_byte_RM_R dev), by_opcode (x86emuOp_op_A_word_RM_R dev), by_opcode (x86emuOp_op_A_byte_R_RM dev),
    by_opcode (x86emuOp_op_A_word_R_RM dev), by_opcode (x86emuOp_op_A_byte_AL_IMM dev),
    by_opcode (x86emuOp_op_A_word_AX_IMM dev), plain x86emuOp_illegal_op, plain x86emuOp_das,
    by_opcode (x86emuOp_op_A_byte_RM_R dev), by_opcode (x86emuOp_op_A_word_RM_R dev), by_opcode (x86emuOp_op_A_byte_R_RM dev),
    by_opcode (x86emuOp_op_A_word_R_RM dev), by_opcode (x86emuOp_op_A_byte_AL_IMM dev),
    by_opcode (x86emuOp_op_A_word_AX_IMM dev), plain x86emuOp_illegal_op, plain x86emuOp_aaa,
    by_opcode (x86emuOp_op_A_byte_RM_R dev), by_opcode (x86emuOp_op_A_word_RM_R dev), by_opcode (x86emuOp_op_A_byte_R_RM dev),
    by_opcode (x86emuOp_op_A_word_R_RM dev), by_opcode (x86emuOp_op_A_byte_AL_IMM dev),
    by_opcode (x86emuOp_op_A_word_AX_IMM dev), plain x86emuOp_illegal_op, plain x86emuOp_aas, plain x86emuOp_inc_AX,
    plain x86emuOp_inc_CX, plain x86emuOp_inc_DX, plain x86emuOp_inc_BX, plain x86emuOp_inc_SP, plain x86emuOp_inc_BP,
    plain x86emuOp_inc_SI, plain x86emuOp_inc_DI, plain x86emuOp_dec_AX, plain x86emuOp_dec_CX, plain x86emuOp_dec_DX,
    plain x86emuOp_dec_BX, plain x86emuOp_dec_SP, plain x86emuOp_dec_BP, plain x86emuOp_dec_SI, plain x86emuOp_dec_DI,
    plain (x86emuOp_push_AX dev), plain (x86emuOp_push_CX dev), plain (x86emuOp_push_DX dev), plain (x86emuOp_push_BX dev),
    plain (x86emuOp_push_SP dev), plain (x86emuOp_push_BP dev), plain (x86emuOp_push_SI dev), plain (x86emuOp_push_DI dev),
    plain (x86emuOp_pop_AX dev), plain (x86emuOp_pop_CX dev), plain (x86emuOp_pop_DX dev), plain (x86emuOp_pop_BX dev),
    plain (x86emuOp_pop_SP dev), plain (x86emuOp_pop_BP dev), plain (x86emuOp_pop_SI dev), plain (x86emuOp_pop_DI dev),
    plain (x86emuOp_push_all dev), plain (x86emuOp_pop_all dev), plain x86emuOp_illegal_op, plain x86emuOp_illegal_op,
    plain x86emuOp_illegal_op, plain x86emuOp_illegal_op, plain x86emuOp_illegal_op, plain x86emuOp_illegal_op,
    plain (x86emuOp_push_word_IMM dev), plain (x86emuOp_imul_word_IMM dev), plain (x86emuOp_push_byte_IMM dev),
    plain (x86emuOp_imul_byte_IMM dev), plain (x86emuOp_ins_byte dev), plain (x86emuOp_ins_word dev),
    plain (x86emuOp_outs_byte dev), plain (x86emuOp_outs_word dev), by_opcode (x86emuOp_jump_short_cc dev),
    by_opcode (x86emuOp_jump_short_cc dev), by_opcode (x86emuOp_jump_short_cc dev), by_opcode (x86emuOp_jump_short_cc dev),
    by_opcode (x86emuOp_jump_short_cc dev), by_opcode (x86emuOp_jump_short_cc dev), by_opcode (x86emuOp_jump_short_cc dev),
    by_opcode (x86emuOp_jump_short_cc dev), by_opcode (x86emuOp_jump_short_cc dev), by_opcode (x86emuOp_jump_short_cc dev),
    by_opcode (x86emuOp_jump_short_cc dev), by_opcode (x86emuOp_jump_short_cc dev), by_opcode (x86emuOp_jump_short_cc dev),
    by_opcode (x86emuOp_jump_short_cc dev), by_opcode (x86emuOp_jump_short_cc dev), by_opcode (x86emuOp_jump_short_cc dev),
    plain (x86emuOp_opc80_byte_RM_IMM dev), plain (x86emuOp_opc81_word_RM_IMM dev), plain (x86emuOp_opc80_byte_RM_IMM dev),
    plain (x86emuOp_opc83_word_RM_IMM dev), plain (x86emuOp_test_byte_RM_R dev), plain (x86emuOp_test_word_RM_R dev),
    plain (x86emuOp_xchg_byte_RM_R dev), plain (x86emuOp_xchg_word_RM_R dev), plain (x86emuOp_mov_byte_RM_R dev),
    plain (x86emuOp_mov_word_RM_R dev), plain (x86emuOp_mov_byte_R_RM dev), plain (x86emuOp_mov_word_R_RM dev),
    plain (x86emuOp_mov_word_RM_SR dev), plain (x86emuOp_lea_word_R_M dev), plain (x86emuOp_mov_word_SR_RM dev),
    plain (x86emuOp_pop_RM dev), plain x86emuOp_nop, plain x86emuOp_xchg_word_AX_CX, plain x86emuOp_xchg_word_AX_DX,
    plain x86emuOp_xchg_word_AX_BX, plain x86emuOp_xchg_word_AX_SP, plain x86emuOp_xchg_word_AX_BP,
    plain x86emuOp_xchg_word_AX_SI, plain x86emuOp_xchg_word_AX_DI, plain x86emuOp_cbw, plain x86emuOp_cwd,
    plain (x86emuOp_call_far_IMM dev), plain x86emuOp_wait, plain (x86emuOp_pushf_word dev), plain (x86emuOp_popf_word dev),
    plain x86emuOp_sahf, plain x86emuOp_lahf, plain (x86emuOp_mov_AL_M_IMM dev), plain (x86emuOp_mov_AX_M_IMM dev),
    plain (x86emuOp_mov_M_AL_IMM dev), plain (x86emuOp_mov_M_AX_IMM dev), plain (x86emuOp_movs_byte dev),
    plain (x86emuOp_movs_word dev), plain (x86emuOp_cmps_byte dev), plain (x86emuOp_cmps_word dev),
    plain (x86emuOp_test_AL_IMM dev), plain (x86emuOp_test_AX_IMM dev), plain (x86emuOp_stos_byte dev),
    plain (x86emuOp_stos_word dev), plain (x86emuOp_lods_byte dev), plain (x86emuOp_lods_word dev),
    plain (x86emuOp_scas_byte dev), plain (x86emuOp_scas_word dev), plain (x86emuOp_mov_byte_AL_IMM dev),
    plain (x86emuOp_mov_byte_CL_IMM dev), plain (x86emuOp_mov_byte_DL_IMM dev), plain (x86emuOp_mov_byte_BL_IMM dev),
    plain (x86emuOp_mov_byte_AH_IMM dev), plain (x86emuOp_mov_byte_CH_IMM dev), plain (x86emuOp_mov_byte_DH_IMM dev),
    plain (x86emuOp_mov_byte_BH_IMM dev), plain (x86emuOp_mov_word_AX_IMM dev), plain (x86emuOp_mov_word_CX_IMM dev),
    plain (x86emuOp_mov_word_DX_IMM dev), plain (x86emuOp_mov_word_BX_IMM dev), plain (x86emuOp_mov_word_SP_IMM dev),
    plain (x86emuOp_mov_word_BP_IMM dev), plain (x86emuOp_mov_word_SI_IMM dev), plain (x86emuOp_mov_word_DI_IMM dev),
    plain (x86emuOp_opcC0_byte_RM_MEM dev), plain (x86emuOp_opcC1_word_RM_MEM dev), plain (x86emuOp_ret_near_IMM dev),
    plain (x86emuOp_ret_near dev), plain (x86emuOp_les_R_IMM dev), plain (x86emuOp_lds_R_IMM dev),
    plain (x86emuOp_mov_byte_RM_IMM dev), plain (x86emuOp_mov_word_RM_IMM dev), plain (x86emuOp_enter dev),
    plain (x86emuOp_leave dev), plain (x86emuOp_ret_far_IMM dev), plain (x86emuOp_ret_far dev), plain x86emuOp_int3,
    plain (x86emuOp_int_IMM dev), plain x86emuOp_into, plain (x86emuOp_iret dev), plain (x86emuOp_opcD0_byte_RM_1 dev),
    plain (x86emuOp_opcD1_word_RM_1 dev), plain (x86emuOp_opcD2_byte_RM_CL dev), plain (x86emuOp_opcD3_word_RM_CL dev),
    faulting (x86emuOp_aam dev), plain (x86emuOp_aad dev), plain x86emuOp_setalc, plain (x86emuOp_xlat dev),
    plain x86emuOp_illegal_op, plain x86emuOp_illegal_op, plain x86emuOp_illegal_op, plain x86emuOp_illegal_op,
    plain x86emuOp_illegal_op, plain x86emuOp_illegal_op, plain x86emuOp_illegal_op, plain x86emuOp_illegal_op,
    plain (x86emuOp_loopne dev), plain (x86emuOp_loope dev), plain (x86emuOp_loop dev), plain (x86emuOp_jcxz dev),
    plain (x86emuOp_in_byte_AL_IMM dev), plain (x86emuOp_in_word_AX_IMM dev), plain (x86emuOp_out_byte_IMM_AL dev),
    plain (x86emuOp_out_word_IMM_AX dev), plain (x86emuOp_call_near_IMM dev), plain (x86emuOp_jump_near_IMM dev),
    plain (x86emuOp_jump_far_IMM dev), plain (x86emuOp_jump_byte_IMM dev), plain (x86emuOp_in_byte_AL_DX dev),
    plain (x86emuOp_in_word_AX_DX dev), plain (x86emuOp_out_byte_DX_AL dev), plain (x86emuOp_out_word_DX_AX dev),
    plain x86emuOp_illegal_op, plain x86emuOp_illegal_op, plain x86emuOp_illegal_op, plain x86emuOp_illegal_op,
    plain x86emuOp_hlt, plain x86emuOp_cmc, plain (x86emuOp_opcF6_byte_RM dev), faulting (x86emuOp_opcF7_word_RM dev),
    plain x86emuOp_clc, plain x86emuOp_stc, plain x86emuOp_cli, plain x86emuOp_sti, plain x86emuOp_cld, plain x86emuOp_std,
    plain (x86emuOp_opcFE_byte_RM dev), plain (x86emuOp_opcFF_word_RM dev)]"

section \<open>Prefixes\<close>

definition is_prefix :: "u8 \<Rightarrow> bool" where
  "is_prefix op \<longleftrightarrow> op \<in> {0x26, 0x2e, 0x36, 0x3e, 0x64, 0x65, 0x66, 0x67, 0xf0, 0xf2, 0xf3}"

text \<open>
  Every instruction writes its disassembly to \<open>disasm_buf\<close>, which has \<open>DISASM_BUF\<close> bytes, and no write checks the room left.
  The text of the prefixes \<open>lock\<close>, \<open>repne\<close> and \<open>repe\<close> is not bounded: \<open>OP_DECODE n\<close> is the write of its \<open>n\<close> characters. The
  text of the instruction proper, with the terminating 0, takes at most \<open>INSTR_TEXT\<close> bytes and is modelled by this bound.
\<close>

definition DISASM_BUF :: nat where "DISASM_BUF = 256"
definition INSTR_TEXT :: nat where "INSTR_TEXT = 100"

definition OP_DECODE :: "nat \<Rightarrow> x86emu \<Rightarrow> x86emu" where
  "OP_DECODE n s = s\<lparr>disasm_len := disasm_len s + n\<rparr>"

definition apply_prefix :: "u8 \<Rightarrow> x86emu \<Rightarrow> x86emu" where
  "apply_prefix op s =
     (if op = 0x26 then s\<lparr>default_seg := Some R_ES_INDEX\<rparr>
      else if op = 0x2e then s\<lparr>default_seg := Some R_CS_INDEX\<rparr>
      else if op = 0x36 then s\<lparr>default_seg := Some R_SS_INDEX\<rparr>
      else if op = 0x3e then s\<lparr>default_seg := Some R_DS_INDEX\<rparr>
      else if op = 0x64 then s\<lparr>default_seg := Some R_FS_INDEX\<rparr>
      else if op = 0x65 then s\<lparr>default_seg := Some R_GS_INDEX\<rparr>
      else if op = 0x66 then s\<lparr>mode := mode s XOR MODE_DATA32_bit\<rparr>
      else if op = 0x67 then s\<lparr>mode := mode s XOR MODE_ADDR32_bit\<rparr>
      else if op = 0xf0 then OP_DECODE 6 s
      else if op = 0xf2 then (OP_DECODE 6 s)\<lparr>mode := mode s OR MODE_REPNE_bit\<rparr>
      else if op = 0xf3 then (OP_DECODE 5 s)\<lparr>mode := mode s OR MODE_REPE_bit\<rparr>
      else s)"

text \<open>
  The loop over the prefixes need not end: \<open>None\<close> is the loop that never does. When the text of the prefixes runs over the end of
  the buffer it overwrites \<open>disasm_ptr\<close>, through which the next text is written; the program is not followed
  further, which is \<open>Some None\<close>.
\<close>

partial_function (option) fetch_opcode :: "device \<Rightarrow> x86emu \<Rightarrow> (u8 \<times> x86emu) option option" where
  "fetch_opcode dev s =
     (let (op1, s) = fetch_byte dev s
      in if is_prefix op1 then
           let s = apply_prefix op1 s
           in if disasm_len s > DISASM_BUF then Some None else fetch_opcode dev s
         else Some (Some (op1, s)))"

section \<open>The main loop\<close>

definition X86EMU_RUN_TIMEOUT :: u32 where "X86EMU_RUN_TIMEOUT = 0x01"
definition X86EMU_RUN_MAX_INSTR :: u32 where "X86EMU_RUN_MAX_INSTR = 0x02"
definition X86EMU_RUN_NO_EXEC :: u32 where "X86EMU_RUN_NO_EXEC = 0x04"
definition X86EMU_RUN_NO_CODE :: u32 where "X86EMU_RUN_NO_CODE = 0x08"
definition X86EMU_RUN_LOOP :: u32 where "X86EMU_RUN_LOOP = 0x10"

text \<open>
  What the loop takes from outside: the ports of the host, the two handlers, the seconds since the start and the
  host's cycle counter, both given by the number of instructions executed, the privilege level for port accesses,
  and the limit on the time.
\<close>

record run_host =
  host_dev :: device
  host_intr :: intr_handler
  host_code_check :: "(x86emu \<Rightarrow> bool \<times> x86emu) option"
  host_elapsed :: "u64 \<Rightarrow> nat"
  host_tsc :: "u64 \<Rightarrow> u64"
  host_iopl :: nat
  host_timeout :: nat

definition begin_instruction :: "x86emu \<Rightarrow> x86emu" where
  "begin_instruction s =
     (let m = (if ACC_D (sel_acc (seg s R_CS_INDEX)) then MODE_DATA32_bit OR MODE_ADDR32_bit OR MODE_CODE32_bit else 0);
          m = (if ACC_D (sel_acc (seg s R_SS_INDEX)) then m OR MODE_STACK32_bit else m)
      in s\<lparr>disasm_len := 0, instr_buf := [], mode := m, default_seg := None,
           saved_cs := sel_sel (seg s R_CS_INDEX), saved_eip := R_EIP s\<rparr>)"

definition x86emu_read_byte_noperm :: "device \<Rightarrow> u32 \<Rightarrow> x86emu \<Rightarrow> u32 \<times> x86emu" where
  "x86emu_read_byte_noperm dev addr s = snd (vm_memio dev addr 0xff (X86EMU_MEMIO_R OR X86EMU_MEMIO_8_NOPERM) s)"

text \<open>The distance of an unconditional jump \<open>op1\<close> whose operand is at address \<open>u\<close>, 0 if it is none.\<close>

definition jump_distance :: "device \<Rightarrow> u8 \<Rightarrow> u32 \<Rightarrow> x86emu \<Rightarrow> u32 \<times> x86emu" where
  "jump_distance dev op1 u s =
     (if op1 = 0xeb then
        let (b, s) = x86emu_read_byte_noperm dev u s in (scast (ucast b :: u8) + 1, s)
      else if op1 = 0xe9 then
        if MODE_DATA32 s then
          let (b0, s) = x86emu_read_byte_noperm dev u s; (b1, s) = x86emu_read_byte_noperm dev (u + 1) s;
              (b2, s) = x86emu_read_byte_noperm dev (u + 2) s; (b3, s) = x86emu_read_byte_noperm dev (u + 3) s
          in (b0 + push_bit 8 b1 + push_bit 16 b2 + push_bit 24 b3 + 4, s)
        else
          let (b0, s) = x86emu_read_byte_noperm dev u s; (b1, s) = x86emu_read_byte_noperm dev (u + 1) s
          in (scast (ucast (b0 + push_bit 8 b1) :: u16) + 2, s)
      else (0, s))"

definition loop_check :: "device \<Rightarrow> u8 \<Rightarrow> x86emu \<Rightarrow> u32 \<times> x86emu" where
  "loop_check dev op1 s =
     (let (ofs, s) = jump_distance dev op1 (sel_base (seg s R_CS_INDEX) + R_EIP s) s
      in if ofs \<noteq> 0 then
           let (rs, s) =
             (if R_EIP s + ofs = saved_eip s then (X86EMU_RUN_LOOP, s)
              else if R_EIP s + 1 + ofs = saved_eip s \<and> saved_eip s \<ge> 1 then
                let (v, s) = x86emu_read_byte_noperm dev (sel_base (seg s R_CS_INDEX) + saved_eip s - 1) s;
                    u_m1 = ucast v :: u8
                in (if u_m1 \<ge> 0xf8 \<and> u_m1 \<le> 0xfd then X86EMU_RUN_LOOP else 0, s)
              else (0, s))
           in (rs, if rs \<noteq> 0 then x86emu_stop s else s)
         else (0, s))"

definition no_code_check :: "device \<Rightarrow> u8 \<Rightarrow> u32 \<Rightarrow> x86emu \<Rightarrow> u32 \<times> x86emu" where
  "no_code_check dev op1 rs s =
     (let (rs, s) =
        (if mode s = 0 \<and> op1 = 0x00 then
           let (b, s) = x86emu_read_byte_noperm dev (sel_base (seg s R_CS_INDEX) + R_EIP s) s
           in (if b = 0x00 then rs OR X86EMU_RUN_NO_CODE else rs, s)
         else (rs, s))
      in (rs, if rs \<noteq> 0 then x86emu_stop s else s))"

text \<open>
  One round of the loop: it goes on with a new state, ends with the result flags, the host faults, or the
  disassembly text runs over its buffer (or may do so, when the prefixes leave less than \<open>INSTR_TEXT\<close> bytes of it).
\<close>

datatype round = Next x86emu | Done u32 x86emu | Host_fault | Text_overrun

definition execute :: "run_host \<Rightarrow> u8 \<Rightarrow> u32 \<Rightarrow> x86emu \<Rightarrow> round" where
  "execute h op1 rs s =
     (if disasm_len s + INSTR_TEXT > DISASM_BUF then Text_overrun
      else case (x86emu_optab (host_dev h) ! unat op1) op1 s of
        None \<Rightarrow> Host_fault
      | Some s \<Rightarrow>
          let s = handle_interrupt (host_dev h) (host_intr h) s;
              s = s\<lparr>msr := (msr s)(0x11 := msr s 0x12, 0x12 := host_tsc h (R_TSC s))\<rparr>;
              s = (if debug_len s \<noteq> 0 then s\<lparr>debug_len := 0, debug_start := 0\<rparr> else s);
              s = s\<lparr>msr := (msr s)(0x10 := R_TSC s + 1)\<rparr>
          in if MODE_HALTED s then Done rs s else Next s)"

definition x86emu_round :: "run_host \<Rightarrow> u32 \<Rightarrow> x86emu \<Rightarrow> round option" where
  "x86emu_round h flags s =
     (let s = begin_instruction s
      in if flags AND X86EMU_RUN_MAX_INSTR \<noteq> 0 \<and> max_instr s \<noteq> 0 \<and> R_TSC s \<ge> max_instr s
         then Some (Done X86EMU_RUN_MAX_INSTR s)
         else if flags AND X86EMU_RUN_TIMEOUT \<noteq> 0 \<and> host_timeout h \<noteq> 0 \<and> R_TSC s AND 0xffff = 0 \<and>
                 host_elapsed h (R_TSC s) > host_timeout h
         then Some (Done X86EMU_RUN_TIMEOUT s)
         else
           let (no_code, s) =
             (case host_code_check h of Some f \<Rightarrow> let (r, s) = f s in (r \<or> MODE_HALTED s, s) | None \<Rightarrow> (False, s))
           in if no_code then Some (Done X86EMU_RUN_NO_CODE s)
              else
                case fetch_opcode (host_dev h) s of
                  None \<Rightarrow> None
                | Some None \<Rightarrow> Some Text_overrun
                | Some (Some (op1, s)) \<Rightarrow>
                    if MODE_HALTED s then Some (Done X86EMU_RUN_NO_EXEC (s\<lparr>R_EIP := saved_eip s\<rparr>))
                    else
                      let (rs, s) = (if flags AND X86EMU_RUN_LOOP \<noteq> 0 then loop_check (host_dev h) op1 s else (0, s));
                          (rs, s) = (if flags AND X86EMU_RUN_NO_CODE \<noteq> 0 then no_code_check (host_dev h) op1 rs s else (rs, s))
                      in Some (execute h op1 rs s))"

partial_function (option) run_loop :: "run_host \<Rightarrow> u32 \<Rightarrow> x86emu \<Rightarrow> round option" where
  "run_loop h flags s =
     (case x86emu_round h flags s of
        Some (Next s) \<Rightarrow> run_loop h flags s
      | r \<Rightarrow> r)"

text \<open>\<open>None\<close>: the emulator never returns. The counter of real cycles is brought up to date at the end.\<close>

definition x86emu_run :: "run_host \<Rightarrow> u32 \<Rightarrow> x86emu \<Rightarrow> round option" where
  "x86emu_run h flags s =
     (let s = s\<lparr>iopl_ok := \<not> (iopl_needed s \<and> host_iopl h \<noteq> 3)\<rparr>
      in case run_loop h flags s of
           Some (Done rs s) \<Rightarrow> Some (Done rs (s\<lparr>msr := (msr s)(0x12 := host_tsc h (R_TSC s))\<rparr>))
         | r \<Rightarrow> r)"

end
