(* ===== verification/X86emu_Invariant.thy ===== *)
theory X86emu_Invariant
  imports X86emu_Run
begin

text \<open>
  What the emulator keeps, whatever program it runs. An \<open>emu_invariant\<close> is a predicate that no access through
  \<open>vm_memio\<close> and no change of the processor destroys; the theory proves once, for any of them, that every instruction and the
  main loop keep it. The instances are the well-formedness of the processor and the confinement of the
  emulated program to the memory and the ports it was given.
\<close>

section \<open>Predicates on states and results\<close>

definition reserved :: "flags \<Rightarrow> bool" where
  "reserved f \<longleftrightarrow> f AND F_ALWAYS_ON \<noteq> 0"

text \<open>The shape of the processor: the reserved flag is set, the buffer of the instruction's bytes is not overrun,
  the segment override names a segment register, and the prefixes have left room for the disassembly of the instruction.\<close>

definition shape :: "x86emu \<Rightarrow> bool" where
  "shape s \<longleftrightarrow> reserved (R_FLG s) \<and> length (instr_buf s) \<le> 32 \<and> (\<forall>i. default_seg s = Some i \<longrightarrow> i < 6) \<and>
     disasm_len s \<le> DISASM_BUF"

text \<open>The part of the machine outside the processor, and the settings of the caller.\<close>

definition outside :: "x86emu \<Rightarrow> x86emu_mem_t \<times> (nat \<Rightarrow> u8) \<times> bool \<times> machine \<times> u64 \<times> u32" where
  "outside s = (emu_mem s, io_map s, iopl_ok s, host_io s, max_instr s, log_trace s)"

definition holds :: "(x86emu \<Rightarrow> bool) \<Rightarrow> x86emu \<Rightarrow> bool" where
  "holds I s \<longleftrightarrow> I s \<and> shape s"

definition holds2 :: "(x86emu \<Rightarrow> bool) \<Rightarrow> 'a \<times> x86emu \<Rightarrow> bool" where
  "holds2 I r \<longleftrightarrow> holds I (snd r)"

definition holds3 :: "(x86emu \<Rightarrow> bool) \<Rightarrow> 'a \<times> 'b \<times> x86emu \<Rightarrow> bool" where
  "holds3 I r \<longleftrightarrow> holds I (snd (snd r))"

definition holds_opt :: "(x86emu \<Rightarrow> bool) \<Rightarrow> x86emu option \<Rightarrow> bool" where
  "holds_opt I r \<longleftrightarrow> (\<forall>s. r = Some s \<longrightarrow> holds I s)"

named_theorems kept

text \<open>Rules that follow the structure of a definition, one binding at a time. The types say which bindings carry a state.\<close>

lemma let_state [kept]:
  "holds I v \<Longrightarrow> (\<And>x. holds I x \<Longrightarrow> holds I (f x)) \<Longrightarrow> holds I (Let v f)"
  "holds I v \<Longrightarrow> (\<And>x. holds I x \<Longrightarrow> holds2 I (g x)) \<Longrightarrow> holds2 I (Let v g)"
  "holds I v \<Longrightarrow> (\<And>x. holds I x \<Longrightarrow> holds_opt I (h x)) \<Longrightarrow> holds_opt I (Let v h)"
  by (simp_all add: Let_def)

lemma let_pair:
  assumes "holds2 I p"
  shows "(\<And>a x. holds I x \<Longrightarrow> holds I (f a x)) \<Longrightarrow> holds I (Let p (case_prod f))"
    "(\<And>a x. holds I x \<Longrightarrow> holds2 I (g a x)) \<Longrightarrow> holds2 I (Let p (case_prod g))"
    "(\<And>a x. holds I x \<Longrightarrow> holds_opt I (h a x)) \<Longrightarrow> holds_opt I (Let p (case_prod h))"
  using assms by (simp_all add: holds2_def split_beta)

lemmas [kept] = let_pair [where 'a = "'l::len word"] let_pair [where 'a = nat] let_pair [where 'a = bool]
  let_pair [where 'a = "u32 \<times> u32"] let_pair [where 'a = "u32 \<times> u16"] let_pair [where 'a = int]

lemma let_memio [kept]:
  assumes "holds3 I p"
  shows "(\<And>a b x. holds I x \<Longrightarrow> holds I (f a b x)) \<Longrightarrow> holds I (Let p (\<lambda>(a, b, x). f a b x))"
    "(\<And>a b x. holds I x \<Longrightarrow> holds2 I (g a b x)) \<Longrightarrow> holds2 I (Let p (\<lambda>(a, b, x). g a b x))"
  using assms by (simp_all add: holds3_def split_beta)

lemma let_value:
  "(\<And>x. x = v \<Longrightarrow> holds I (f x)) \<Longrightarrow> holds I (Let v f)"
  "(\<And>x. x = v \<Longrightarrow> holds2 I (g x)) \<Longrightarrow> holds2 I (Let v g)"
  "(\<And>x. x = v \<Longrightarrow> holds_opt I (h x)) \<Longrightarrow> holds_opt I (Let v h)"
  by simp_all

lemmas [kept] = let_value [where 'a = "'l::len word"] let_value [where 'a = nat] let_value [where 'a = descr_t]
  let_value [where 'a = "u32 \<times> u32"] let_value [where 'a = "u32 \<times> u32 \<times> u32"] let_value [where 'a = int] let_value [where 'a = bool]

lemma split_value [kept]:
  "(\<And>a b. holds I (f a b)) \<Longrightarrow> holds I (case_prod f p)" "(\<And>a b. holds I (f2 a b x)) \<Longrightarrow> holds I (case_prod f2 p x)"
  "(\<And>a b. holds2 I (g a b)) \<Longrightarrow> holds2 I (case_prod g p)" "(\<And>a b. holds2 I (g2 a b x)) \<Longrightarrow> holds2 I (case_prod g2 p x)"
  by (simp_all add: split_beta)

lemma branches [kept]:
  "holds I a \<Longrightarrow> holds I b \<Longrightarrow> holds I (if c then a else b)"
  "holds2 I p \<Longrightarrow> holds2 I q \<Longrightarrow> holds2 I (if c then p else q)"
  "holds_opt I r \<Longrightarrow> holds_opt I u \<Longrightarrow> holds_opt I (if c then r else u)"
  "holds I a \<Longrightarrow> (\<And>y. holds I (f y)) \<Longrightarrow> holds I (case w of None \<Rightarrow> a | Some y \<Rightarrow> f y)"
  "holds2 I p \<Longrightarrow> (\<And>y. w = Some y \<Longrightarrow> holds2 I (g y)) \<Longrightarrow> holds2 I (case w of None \<Rightarrow> p | Some y \<Rightarrow> g y)"
  by (simp_all split: option.split)

lemma results [kept]:
  "holds I s \<Longrightarrow> holds2 I (a, s)" "holds I s \<Longrightarrow> holds_opt I (Some s)" "holds_opt I None" "holds2 I p \<Longrightarrow> holds I (snd p)"
  by (simp_all add: holds2_def holds_opt_def)

section \<open>Flags\<close>

lemma reserved_bit: "reserved f \<longleftrightarrow> bit f 1"
  using and_exp_nonzero [of f 1] by (simp add: reserved_def F_ALWAYS_ON_def)

lemma reserved_update [simp]:
  "reserved (SET_FLAG flag f) \<longleftrightarrow> bit flag 1 \<or> reserved f"
  "reserved (CLEAR_FLAG flag f) \<longleftrightarrow> \<not> bit flag 1 \<and> reserved f"
  "reserved (CONDITIONAL_SET_FLAG c flag f) \<longleftrightarrow> (if bit flag 1 then c else reserved f)"
  by (simp_all add: reserved_bit flag_update_bit)

lemma system_flags [simp]: "\<not> bit F_TF (Suc 0)" "\<not> bit F_IF (Suc 0)"
  by code_simp+

lemma reserved_set [kept, simp]: "reserved (f OR F_ALWAYS_ON)"
proof -
  have "bit F_ALWAYS_ON (Suc 0)" by code_simp
  then show ?thesis by (simp add: reserved_bit bit_or_iff)
qed

lemma reserved_if: "reserved (snd (if c then a else b)) \<longleftrightarrow> (if c then reserved (snd a) else reserved (snd b))"
  "reserved (if c then x else y) \<longleftrightarrow> (if c then reserved x else reserved y)"
  by simp_all

lemmas reserved_rules = Let_def split_beta snd_conv fst_conv reserved_if reserved_update flag_bits One_nat_def if_True if_False
  nat.simps HOL.simp_thms zero_neq_numeral num.simps numeral_eq_Suc pred_numeral_simps Suc_not_Zero if_cancel

lemma reserved_arith [kept]:
  assumes "reserved f"
  shows "reserved (snd (add_byte a b f))" "reserved (snd (add_word c d f))" "reserved (snd (add_long e g f))"
    "reserved (snd (adc_byte a b f))" "reserved (snd (adc_word c d f))" "reserved (snd (adc_long e g f))"
    "reserved (snd (sub_byte a b f))" "reserved (snd (sub_word c d f))" "reserved (snd (sub_long e g f))"
    "reserved (snd (sbb_byte a b f))" "reserved (snd (sbb_word c d f))" "reserved (snd (sbb_long e g f))"
    "reserved (snd (cmp_byte a b f))" "reserved (snd (cmp_word c d f))" "reserved (snd (cmp_long e g f))"
    "reserved (snd (inc_byte a f))" "reserved (snd (inc_word c f))" "reserved (snd (inc_long e f))"
    "reserved (snd (dec_byte a f))" "reserved (snd (dec_word c f))" "reserved (snd (dec_long e f))"
    "reserved (snd (neg_byte a f))" "reserved (snd (neg_word c f))" "reserved (snd (neg_long e f))"
  using assms
  by (simp_all add: add_byte_def add_word_def add_long_def adc_byte_def adc_word_def adc_long_def sub_byte_def sub_word_def
      sub_long_def sbb_byte_def sbb_word_def sbb_long_def cmp_byte_def cmp_word_def cmp_long_def inc_byte_def inc_word_def
      inc_long_def dec_byte_def dec_word_def dec_long_def neg_byte_def neg_word_def neg_long_def Let_def flag_bits)

lemma reserved_logic [kept]:
  assumes "reserved f"
  shows "reserved (snd (and_byte a b f))" "reserved (snd (and_word c d f))" "reserved (snd (and_long e g f))"
    "reserved (snd (or_byte a b f))" "reserved (snd (or_word c d f))" "reserved (snd (or_long e g f))"
    "reserved (snd (xor_byte a b f))" "reserved (snd (xor_word c d f))" "reserved (snd (xor_long e g f))"
    "reserved (test_byte a b f)" "reserved (test_word c d f)" "reserved (test_long e g f)"
    "reserved (snd (aaa_word c f))" "reserved (snd (aas_word c f))" "reserved (snd (aad_word c b f))"
    "reserved (snd (daa_byte a f))" "reserved (snd (das_byte a f))"
  using assms
  by (simp_all add: and_byte_def and_word_def and_long_def or_byte_def or_word_def or_long_def xor_byte_def xor_word_def
      xor_long_def test_byte_def test_word_def test_long_def aaa_word_def aas_word_def aad_word_def daa_byte_def das_byte_def
      Let_def flag_bits split_beta)

lemma reserved_shift [kept]:
  assumes "reserved f"
  shows "reserved (snd (rol_byte a n f))" "reserved (snd (rol_word c n f))" "reserved (snd (rol_long e n f))"
    "reserved (snd (ror_byte a n f))" "reserved (snd (ror_word c n f))" "reserved (snd (ror_long e n f))"
    "reserved (snd (rcl_byte a n f))" "reserved (snd (rcl_word c n f))" "reserved (snd (rcl_long e n f))"
    "reserved (snd (rcr_byte a n f))" "reserved (snd (rcr_word c n f))" "reserved (snd (rcr_long e n f))"
    "reserved (snd (shl_byte a n f))" "reserved (snd (shl_word c n f))" "reserved (snd (shl_long e n f))"
    "reserved (snd (shr_byte a n f))" "reserved (snd (shr_word c n f))" "reserved (snd (shr_long e n f))"
    "reserved (snd (sar_byte a n f))" "reserved (snd (sar_word c n f))" "reserved (snd (sar_long e n f))"
    "reserved (snd (shld_word c d n f))" "reserved (snd (shld_long e g n f))"
    "reserved (snd (shrd_word c d n f))" "reserved (snd (shrd_long e g n f))"
  using assms
  by (simp_all only: rol_byte_def rol_word_def rol_long_def ror_byte_def ror_word_def ror_long_def rcl_byte_def rcl_word_def
      rcl_long_def rcr_byte_def rcr_word_def rcr_long_def shl_byte_def shl_word_def shl_long_def shr_byte_def shr_word_def
      shr_long_def sar_byte_def sar_word_def sar_long_def shld_word_def shld_long_def shrd_word_def shrd_long_def reserved_rules)

section \<open>Operations on the processor alone\<close>

text \<open>The operations selected by a number below 8 in a table.\<close>

lemma below_8: "(n :: nat) < 8 \<Longrightarrow> n = 0 \<or> n = 1 \<or> n = 2 \<or> n = 3 \<or> n = 4 \<or> n = 5 \<or> n = 6 \<or> n = 7"
  by auto

lemma reserved_op [kept]:
  assumes "t < 8" "reserved f"
  shows "reserved (snd (op_A_byte t a b f))" "reserved (snd (op_A_word t c d f))" "reserved (snd (op_A_long t e g f))"
    "reserved (snd (op_B_byte t a n f))" "reserved (snd (op_B_word t c n f))" "reserved (snd (op_B_long t e n f))"
  using below_8 [OF assms(1)] reserved_arith [OF assms(2)] reserved_logic [OF assms(2)] reserved_shift [OF assms(2)]
  by (auto simp: op_A_byte_def op_A_word_def op_A_long_def op_B_byte_def op_B_word_def op_B_long_def)

text \<open>An interface: what no step of the emulator may destroy. The first law says that the predicate looks at the machine outside
  the processor only, the second that an access to memory or ports keeps it.\<close>

locale emu_invariant =
  fixes I :: "x86emu \<Rightarrow> bool"
  assumes outside_only: "I s \<Longrightarrow> outside s' = outside s \<Longrightarrow> I s'"
    and access: "I s \<Longrightarrow> t \<noteq> X86EMU_MEMIO_W OR X86EMU_MEMIO_8_NOPERM \<Longrightarrow> I (snd (snd (vm_memio dev a v t s)))"
begin

lemma holds_cong: "holds I s \<Longrightarrow> outside s' = outside s \<Longrightarrow> R_FLG s' = R_FLG s \<Longrightarrow> instr_buf s' = instr_buf s \<Longrightarrow>
    default_seg s' = default_seg s \<Longrightarrow> disasm_len s' = disasm_len s \<Longrightarrow> holds I s'"
  using outside_only [of s s'] by (simp add: holds_def shape_def)

lemma updates [kept]:
  assumes "holds I s"
  shows "holds I (s\<lparr>R_EAX := r\<rparr>)" "holds I (s\<lparr>R_EBX := r\<rparr>)" "holds I (s\<lparr>R_ECX := r\<rparr>)" "holds I (s\<lparr>R_EDX := r\<rparr>)"
    "holds I (s\<lparr>R_ESP := r\<rparr>)" "holds I (s\<lparr>R_EBP := r\<rparr>)" "holds I (s\<lparr>R_ESI := r\<rparr>)" "holds I (s\<lparr>R_EDI := r\<rparr>)"
    "holds I (s\<lparr>R_EIP := r\<rparr>)" "holds I (s\<lparr>seg := sg\<rparr>)" "holds I (s\<lparr>mode := r\<rparr>)" "holds I (s\<lparr>intr_nr := nr\<rparr>)"
    "holds I (s\<lparr>intr_type := r\<rparr>)" "holds I (s\<lparr>intr_errcode := r\<rparr>)" "holds I (s\<lparr>ldt := sl\<rparr>)" "holds I (s\<lparr>tr := sl\<rparr>)"
    "holds I (s\<lparr>crx := c\<rparr>)" "holds I (s\<lparr>drx := c\<rparr>)" "holds I (s\<lparr>gdt_base := r\<rparr>)" "holds I (s\<lparr>gdt_limit := r\<rparr>)"
    "holds I (s\<lparr>idt_base := r\<rparr>)" "holds I (s\<lparr>idt_limit := r\<rparr>)" "holds I (s\<lparr>msr := m\<rparr>)" "holds I (s\<lparr>msr_perm := mp\<rparr>)"
    "holds I (s\<lparr>saved_eip := r\<rparr>)" "holds I (s\<lparr>saved_cs := w\<rparr>)" "holds I (s\<lparr>intr_stats := is\<rparr>)"
    "holds I (s\<lparr>debug_start := r\<rparr>)" "holds I (s\<lparr>debug_len := r\<rparr>)"
  by (rule holds_cong [OF assms]; simp add: outside_def)+

lemma shape_updates [kept]:
  assumes "holds I s"
  shows "reserved f \<Longrightarrow> holds I (s\<lparr>R_FLG := f\<rparr>)" "length bs \<le> 32 \<Longrightarrow> holds I (s\<lparr>instr_buf := bs\<rparr>)"
    "holds I (s\<lparr>default_seg := None\<rparr>)" "i < 6 \<Longrightarrow> holds I (s\<lparr>default_seg := Some i\<rparr>)"
    "n \<le> DISASM_BUF \<Longrightarrow> holds I (s\<lparr>disasm_len := n\<rparr>)"
  using assms outside_only [of s] by (auto simp: holds_def shape_def outside_def)

lemma reservedI [kept]: "holds I s \<Longrightarrow> reserved (R_FLG s)"
  by (simp add: holds_def shape_def)

lemma memio [kept]:
  assumes "holds I s" "t \<noteq> X86EMU_MEMIO_W OR X86EMU_MEMIO_8_NOPERM"
  shows "holds3 I (vm_memio dev a v t s)"
  using assms access by (simp add: holds3_def holds_def shape_def)

lemma alu_kept [kept]:
  "holds I s \<Longrightarrow> (\<And>f. reserved f \<Longrightarrow> reserved (snd (g f))) \<Longrightarrow> holds2 I (alu g s)"
  "holds I s \<Longrightarrow> (\<And>f. reserved f \<Longrightarrow> reserved (h f)) \<Longrightarrow> holds I (set_flags h s)"
  by (simp_all add: alu_def set_flags_def holds2_def split_beta shape_updates(1) reservedI)

lemma raised [kept]:
  assumes "holds I s"
  shows "holds I (x86emu_intr_raise nr t e s)" "holds I (INTR_RAISE_GP e s)" "holds I (INTR_RAISE_SOFT nr s)"
    "holds I (INTR_RAISE_UD s)" "holds I (INTR_RAISE_DIV0 s)" "holds I (x86emu_stop s)"
  using assms by (simp_all add: INTR_RAISE_GP_def INTR_RAISE_SOFT_def INTR_RAISE_UD_def INTR_RAISE_DIV0_def
      x86emu_intr_raise_def x86emu_stop_def kept)

lemma registers [kept]:
  assumes "holds I s"
  shows "holds I (set_rm_long n l s)" "holds I (set_rm_word n w s)" "holds I (set_rm_byte n b s)" "holds I (set_SP w s)"
    "holds I (seg_ds_ss s)" "holds I (advance_ip l s)"
  unfolding set_rm_word_register_def set_rm_byte_register_def set_rm_long_register_def set_SP_def seg_ds_ss_def advance_ip_def
  by (intro kept assms; assumption)+

lemma products [kept]:
  assumes "holds I s"
  shows "holds I (mul_flags c s)"
    "holds I (mul_byte a s)" "holds I (mul_word b s)" "holds I (mul_long l s)"
    "holds I (imul_byte a s)" "holds I (imul_word b s)" "holds I (imul_long l s)"
proof -
  have flags: "holds I (mul_flags c x)" if "holds I x" for c x
    using that by (simp add: mul_flags_def kept flag_bits)
  show "holds I (mul_flags c s)"
    "holds I (mul_byte a s)" "holds I (mul_word b s)" "holds I (mul_long l s)"
    "holds I (imul_byte a s)" "holds I (imul_word b s)" "holds I (imul_long l s)"
    unfolding mul_byte_def mul_word_def mul_long_def imul_byte_def imul_word_def imul_long_def
    by (intro kept flags assms; assumption)+
qed

lemma quotients [kept]:
  assumes "holds I s"
  shows "holds I (div_byte a s)" "holds I (div_word b s)" "holds I (div_long l s)"
    "holds I (idiv_byte a s)" "holds_opt I (idiv_word b s)" "holds I (idiv_long l s)"
proof -
  have flags: "reserved (R_FLG s)" using assms by (rule reservedI)
  then have "reserved (long_division_flags m (R_FLG s))" for m by (simp add: long_division_flags_def Let_def flag_bits)
  note rules = kept assms this
  show "holds I (div_byte a s)" "holds I (idiv_byte a s)" "holds I (div_long l s)" "holds I (idiv_long l s)"
    unfolding div_byte_def idiv_byte_def div_long_def idiv_long_def by (intro rules; assumption)+
  show "holds I (div_word b s)" "holds_opt I (idiv_word b s)"
    unfolding div_word_def idiv_word_def by (intro rules; simp add: flag_bits flags)+
qed

end

end
