(* ===== verification/X86emu_Keeps.thy ===== *)
theory X86emu_Keeps
  imports X86emu_Invariant
begin

text \<open>
  Every instruction of the emulator keeps an invariant of the machine outside the processor, and the shape of the processor.
  The proofs follow the definitions, from the fetches and data accesses to the opcode tables.
\<close>

context emu_invariant
begin

section \<open>Accesses, addresses, segments and the stack\<close>

lemma access_types [kept]:
  "X86EMU_MEMIO_8 OR X86EMU_MEMIO_X \<noteq> X86EMU_MEMIO_W OR X86EMU_MEMIO_8_NOPERM"
  "X86EMU_MEMIO_16 OR X86EMU_MEMIO_X \<noteq> X86EMU_MEMIO_W OR X86EMU_MEMIO_8_NOPERM"
  "X86EMU_MEMIO_32 OR X86EMU_MEMIO_X \<noteq> X86EMU_MEMIO_W OR X86EMU_MEMIO_8_NOPERM"
  "X86EMU_MEMIO_8 OR X86EMU_MEMIO_R \<noteq> X86EMU_MEMIO_W OR X86EMU_MEMIO_8_NOPERM"
  "X86EMU_MEMIO_16 OR X86EMU_MEMIO_R \<noteq> X86EMU_MEMIO_W OR X86EMU_MEMIO_8_NOPERM"
  "X86EMU_MEMIO_32 OR X86EMU_MEMIO_R \<noteq> X86EMU_MEMIO_W OR X86EMU_MEMIO_8_NOPERM"
  "X86EMU_MEMIO_8 OR X86EMU_MEMIO_W \<noteq> X86EMU_MEMIO_W OR X86EMU_MEMIO_8_NOPERM"
  "X86EMU_MEMIO_16 OR X86EMU_MEMIO_W \<noteq> X86EMU_MEMIO_W OR X86EMU_MEMIO_8_NOPERM"
  "X86EMU_MEMIO_32 OR X86EMU_MEMIO_W \<noteq> X86EMU_MEMIO_W OR X86EMU_MEMIO_8_NOPERM"
  "X86EMU_MEMIO_8 OR X86EMU_MEMIO_I \<noteq> X86EMU_MEMIO_W OR X86EMU_MEMIO_8_NOPERM"
  "X86EMU_MEMIO_16 OR X86EMU_MEMIO_I \<noteq> X86EMU_MEMIO_W OR X86EMU_MEMIO_8_NOPERM"
  "X86EMU_MEMIO_32 OR X86EMU_MEMIO_I \<noteq> X86EMU_MEMIO_W OR X86EMU_MEMIO_8_NOPERM"
  "X86EMU_MEMIO_8 OR X86EMU_MEMIO_O \<noteq> X86EMU_MEMIO_W OR X86EMU_MEMIO_8_NOPERM"
  "X86EMU_MEMIO_16 OR X86EMU_MEMIO_O \<noteq> X86EMU_MEMIO_W OR X86EMU_MEMIO_8_NOPERM"
  "X86EMU_MEMIO_32 OR X86EMU_MEMIO_O \<noteq> X86EMU_MEMIO_W OR X86EMU_MEMIO_8_NOPERM"
  "X86EMU_MEMIO_R OR X86EMU_MEMIO_8_NOPERM \<noteq> X86EMU_MEMIO_W OR X86EMU_MEMIO_8_NOPERM"
  by code_simp+

lemma memio_state [kept]:
  "holds I s \<Longrightarrow> t \<noteq> X86EMU_MEMIO_W OR X86EMU_MEMIO_8_NOPERM \<Longrightarrow> holds I (snd (snd (vm_memio dev a v t s)))"
  "holds I s \<Longrightarrow> t \<noteq> X86EMU_MEMIO_W OR X86EMU_MEMIO_8_NOPERM \<Longrightarrow> holds2 I (snd (vm_memio dev a v t s))"
  using memio [of s t dev a v] by (simp_all add: holds3_def holds2_def)

lemma fetches [kept]:
  assumes "holds I s"
  shows "holds2 I (fetch_byte dev s)" "holds2 I (fetch_word dev s)" "holds2 I (fetch_long dev s)"
proof -
  have grow: "holds I (if length (instr_buf x) + n < 32 then x\<lparr>instr_buf := instr_buf x @ bs\<rparr> else x)"
    if "holds I x" "length bs = Suc n" for x n bs using shape_updates(2) [OF that(1)] that by simp
  have one: "holds I (if length (instr_buf x) < 32 then x\<lparr>instr_buf := instr_buf x @ [b]\<rparr> else x)" if "holds I x" for x b
    using shape_updates(2) [OF that] that by simp
  show "holds2 I (fetch_byte dev s)"
    unfolding fetch_byte_def decode_memio_def by (rule kept one assms | assumption)+
  show "holds2 I (fetch_word dev s)" "holds2 I (fetch_long dev s)"
    unfolding fetch_word_def fetch_long_def decode_memio_def by (rule kept grow assms | assumption | simp)+
qed

lemma let_modrm [kept]:
  assumes "holds I s"
  shows "(\<And>md rh rl x. rh < 8 \<Longrightarrow> holds I x \<Longrightarrow> holds I (f md rh rl x)) \<Longrightarrow>
      holds I (let ((md, rh, rl), x) = fetch_decode_modrm dev s in f md rh rl x)"
    "(\<And>md rh rl x. rh < 8 \<Longrightarrow> holds I x \<Longrightarrow> holds_opt I (g md rh rl x)) \<Longrightarrow>
      holds_opt I (let ((md, rh, rl), x) = fetch_decode_modrm dev s in g md rh rl x)"
proof -
  have b: "unat (w AND 7 :: u8) < 8" for w
  proof -
    have "w AND 7 \<le> 7" by (rule word_and_le1)
    then show ?thesis by (simp add: word_le_nat_alt)
  qed
  have k: "holds I (snd (fetch_byte dev s))" by (rule kept fetches assms)+
  show "(\<And>md rh rl x. rh < 8 \<Longrightarrow> holds I x \<Longrightarrow> holds I (f md rh rl x)) \<Longrightarrow>
      holds I (let ((md, rh, rl), x) = fetch_decode_modrm dev s in f md rh rl x)"
    "(\<And>md rh rl x. rh < 8 \<Longrightarrow> holds I x \<Longrightarrow> holds_opt I (g md rh rl x)) \<Longrightarrow>
      holds_opt I (let ((md, rh, rl), x) = fetch_decode_modrm dev s in g md rh rl x)"
    using b k by (simp_all add: fetch_decode_modrm_def split_beta Let_def)
qed

lemma checked [kept]: "holds I s \<Longrightarrow> holds I (check_data_access i ofs n s)"
  unfolding check_data_access_def by (intro kept; assumption)

lemma data [kept]:
  assumes "holds I s"
  shows "holds2 I (fetch_data_byte_abs dev i ofs s)" "holds2 I (fetch_data_word_abs dev i ofs s)"
    "holds2 I (fetch_data_long_abs dev i ofs s)" "holds2 I (fetch_data_byte dev ofs s)" "holds2 I (fetch_data_word dev ofs s)"
    "holds2 I (fetch_data_long dev ofs s)" "holds I (store_data_byte_abs dev i ofs b s)" "holds I (store_data_word_abs dev i ofs w s)"
    "holds I (store_data_long_abs dev i ofs l s)" "holds I (store_data_byte dev ofs b s)" "holds I (store_data_word dev ofs w s)"
    "holds I (store_data_long dev ofs l s)"
  unfolding fetch_data_byte_def fetch_data_word_def fetch_data_long_def store_data_byte_def store_data_word_def
    store_data_long_def fetch_data_byte_abs_def fetch_data_word_abs_def fetch_data_long_abs_def store_data_byte_abs_def
    store_data_word_abs_def store_data_long_abs_def decode_memio_def
  by (rule kept assms | assumption)+

lemma port_data [kept]:
  assumes "holds I s"
  shows "holds2 I (fetch_io_byte dev p s)" "holds2 I (fetch_io_word dev p s)" "holds2 I (fetch_io_long dev p s)"
    "holds I (store_io_byte dev p b s)" "holds I (store_io_word dev p w s)" "holds I (store_io_long dev p l s)"
  unfolding fetch_io_byte_def fetch_io_word_def fetch_io_long_def store_io_byte_def store_io_word_def store_io_long_def
    decode_memio_def
  by (rule kept assms | assumption)+

lemma stack [kept]:
  assumes "holds I s"
  shows "holds I (push_word dev w s)" "holds I (push_long dev l s)" "holds2 I (pop_word dev s)" "holds2 I (pop_long dev s)"
  unfolding push_word_def push_long_def pop_word_def pop_long_def
  by (rule kept assms | assumption)+

lemma addresses [kept]:
  assumes "holds I s"
  shows "holds2 I (decode_rm_address dev md rl s)" "holds2 I (decode_rm_seg_register reg s)"
proof -
  have sib: "holds2 I (decode_sib_address dev sib md x)" if "holds I x" for sib md x
    unfolding decode_sib_address_def by (rule kept that | assumption)+
  show "holds2 I (decode_rm_address dev md rl s)" "holds2 I (decode_rm_seg_register reg s)"
    unfolding decode_rm_address_def decode_rm00_address_def decode_rm01_address_def decode_rm10_address_def
      decode_rm_seg_register_def
    by (rule kept sib assms | assumption)+
qed

lemma segments [kept]:
  assumes "holds I s"
  shows "(\<And>v x. holds I x \<Longrightarrow> holds I (wr v x)) \<Longrightarrow> holds I (set_sel dev rd wr val s)"
    "holds I (x86emu_set_seg_register dev i val s)" "holds I (set_ldt dev val s)"
proof -
  have sel: "holds I (set_sel dev rd wr val s)" if "\<And>v x. holds I x \<Longrightarrow> holds I (wr v x)" for rd wr
    unfolding set_sel_def emu_memio_def by (rule kept that assms | assumption)+
  then show "(\<And>v x. holds I x \<Longrightarrow> holds I (wr v x)) \<Longrightarrow> holds I (set_sel dev rd wr val s)" by blast
  show "holds I (x86emu_set_seg_register dev i val s)" "holds I (set_ldt dev val s)"
    unfolding x86emu_set_seg_register_def set_ldt_def by (rule kept sel assms | assumption)+
qed

section \<open>Arithmetic instructions\<close>

text \<open>In the rows of \<open>op_A\<close> the opcode selects one of eight operations.\<close>

lemma selects: "t = unat (drop_bit 3 op) \<Longrightarrow> unat (drop_bit 3 op) < 8 \<Longrightarrow> t < (8 :: nat)"
  by simp

lemma two_operands [kept]:
  assumes "holds I s" "unat (drop_bit 3 op) < 8"
  shows "holds I (x86emuOp_op_A_byte_RM_R dev op s)" "holds I (x86emuOp_op_A_word_RM_R dev op s)"
    "holds I (x86emuOp_op_A_byte_R_RM dev op s)" "holds I (x86emuOp_op_A_word_R_RM dev op s)"
    "holds I (x86emuOp_op_A_byte_AL_IMM dev op s)" "holds I (x86emuOp_op_A_word_AX_IMM dev op s)"
  unfolding x86emuOp_op_A_byte_RM_R_def x86emuOp_op_A_word_RM_R_def x86emuOp_op_A_byte_R_RM_def x86emuOp_op_A_word_R_RM_def
    x86emuOp_op_A_byte_AL_IMM_def x86emuOp_op_A_word_AX_IMM_def
  by (rule kept assms selects | assumption)+

lemma immediates [kept]:
  assumes "holds I s"
  shows "holds I (x86emuOp_opc80_byte_RM_IMM dev s)" "holds I (x86emuOp_opc81_word_RM_IMM dev s)"
    "holds I (x86emuOp_opc83_word_RM_IMM dev s)"
  unfolding x86emuOp_opc80_byte_RM_IMM_def x86emuOp_opc81_word_RM_IMM_def x86emuOp_opc83_word_RM_IMM_def
  by (rule kept assms | assumption)+

lemma tests [kept]:
  assumes "holds I s"
  shows "holds I (x86emuOp_test_byte_RM_R dev s)" "holds I (x86emuOp_test_word_RM_R dev s)"
    "holds I (x86emuOp_test_AL_IMM dev s)" "holds I (x86emuOp_test_AX_IMM dev s)"
  unfolding x86emuOp_test_byte_RM_R_def x86emuOp_test_word_RM_R_def x86emuOp_test_AL_IMM_def x86emuOp_test_AX_IMM_def
  by (rule kept assms | assumption)+

lemma shifts [kept]:
  assumes "holds I s"
  shows "holds I (x86emuOp_opcC0_byte_RM_MEM dev s)" "holds I (x86emuOp_opcC1_word_RM_MEM dev s)"
    "holds I (x86emuOp_opcD0_byte_RM_1 dev s)" "holds I (x86emuOp_opcD1_word_RM_1 dev s)"
    "holds I (x86emuOp_opcD2_byte_RM_CL dev s)" "holds I (x86emuOp_opcD3_word_RM_CL dev s)"
  unfolding x86emuOp_opcC0_byte_RM_MEM_def x86emuOp_opcC1_word_RM_MEM_def x86emuOp_opcD0_byte_RM_1_def x86emuOp_opcD1_word_RM_1_def
    x86emuOp_opcD2_byte_RM_CL_def x86emuOp_opcD3_word_RM_CL_def shift_byte_RM_def shift_word_RM_def
  by (rule kept assms | assumption)+

lemma reserved_choice [kept]:
  "reserved (snd (g f)) \<Longrightarrow> reserved (snd (h f)) \<Longrightarrow> reserved (snd ((if c then g else h) f))"
  by simp

lemma steps_by_one [kept]:
  assumes "holds I s"
  shows "holds I (inc_register n s)" "holds I (dec_register n s)" "holds I (x86emuOp_opcFE_byte_RM dev s)"
  unfolding inc_register_def dec_register_def x86emuOp_opcFE_byte_RM_def
  by (rule kept assms | assumption)+

lemma products_quotients [kept]:
  assumes "holds I s"
  shows "holds I (x86emuOp_opcF6_byte_RM dev s)" "holds_opt I (x86emuOp_opcF7_word_RM dev s)"
    "holds I (x86emuOp_imul_word_IMM dev s)" "holds I (x86emuOp_imul_byte_IMM dev s)"
  unfolding x86emuOp_opcF6_byte_RM_def x86emuOp_opcF7_word_RM_def x86emuOp_imul_word_IMM_def x86emuOp_imul_byte_IMM_def
    opcF7_long_RM_def opcF7_word_RM_def
  by (rule kept assms | assumption)+

lemma adjustments [kept]:
  assumes "holds I s"
  shows "holds I (x86emuOp_daa s)" "holds I (x86emuOp_das s)" "holds I (x86emuOp_aaa s)" "holds I (x86emuOp_aas s)"
    "holds I (x86emuOp_aad dev s)" "holds I (x86emuOp_setalc s)" "holds I (x86emuOp_cbw s)" "holds I (x86emuOp_cwd s)"
  unfolding x86emuOp_daa_def x86emuOp_das_def x86emuOp_aaa_def x86emuOp_aas_def x86emuOp_aad_def x86emuOp_setalc_def
    x86emuOp_cbw_def x86emuOp_cwd_def
  by (rule kept assms | assumption)+

section \<open>Moves\<close>

lemma stack_registers [kept]:
  assumes "holds I s"
  shows "holds I (push_register dev n s)" "holds I (pop_register dev n s)" "holds I (push_segment dev n s)"
    "holds I (pop_segment dev n s)" "holds I (pop_long_into dev n s)" "holds I (pop_word_into dev n s)"
    "holds I (copy_frame_pointer dev s)"
  unfolding push_register_def pop_register_def push_segment_def pop_segment_def pop_long_into_def pop_word_into_def
    copy_frame_pointer_def
  by (rule kept assms | assumption)+

lemma iterated [kept]: "(\<And>x. holds I x \<Longrightarrow> holds I (f x)) \<Longrightarrow> holds I s \<Longrightarrow> holds I ((f ^^ n) s)"
  by (induction n) simp_all

lemma stack_instructions [kept]:
  assumes "holds I s"
  shows "holds I (x86emuOp_push_all dev s)" "holds I (x86emuOp_pop_all dev s)" "holds I (x86emuOp_push_word_IMM dev s)"
    "holds I (x86emuOp_push_byte_IMM dev s)" "holds I (x86emuOp_pop_RM dev s)" "holds I (x86emuOp_enter dev s)"
    "holds I (x86emuOp_leave dev s)"
  unfolding x86emuOp_push_all_def x86emuOp_pop_all_def x86emuOp_push_word_IMM_def x86emuOp_push_byte_IMM_def x86emuOp_pop_RM_def
    x86emuOp_enter_def x86emuOp_leave_def
  by (rule kept assms | assumption)+

lemma move_helpers [kept]:
  assumes "holds I s"
  shows "holds I (xchg_AX_register n s)" "holds2 I (fetch_moffs dev s)" "holds I (mov_byte_register_IMM dev n s)"
    "holds I (mov_word_register_IMM dev n s)" "holds I (load_far_pointer dev n s)" "holds I (in_word_AX dev l s)"
    "holds I (out_word_AX dev l s)"
  unfolding xchg_AX_register_def fetch_moffs_def mov_byte_register_IMM_def mov_word_register_IMM_def load_far_pointer_def
    in_word_AX_def out_word_AX_def
  by (rule kept assms | assumption)+

lemma moves [kept]:
  assumes "holds I s"
  shows "holds I (x86emuOp_xchg_byte_RM_R dev s)" "holds I (x86emuOp_xchg_word_RM_R dev s)" "holds I (x86emuOp_nop s)"
    "holds I (x86emuOp_mov_byte_RM_R dev s)" "holds I (x86emuOp_mov_word_RM_R dev s)"
    "holds I (x86emuOp_mov_byte_R_RM dev s)" "holds I (x86emuOp_mov_word_R_RM dev s)"
    "holds I (x86emuOp_mov_word_RM_SR dev s)" "holds I (x86emuOp_lea_word_R_M dev s)"
    "holds I (x86emuOp_mov_word_SR_RM dev s)" "holds I (x86emuOp_mov_AL_M_IMM dev s)"
    "holds I (x86emuOp_mov_AX_M_IMM dev s)" "holds I (x86emuOp_mov_M_AL_IMM dev s)" "holds I (x86emuOp_mov_M_AX_IMM dev s)"
    "holds I (x86emuOp_mov_byte_RM_IMM dev s)" "holds I (x86emuOp_mov_word_RM_IMM dev s)" "holds I (x86emuOp_xlat dev s)"
    "holds I (x86emuOp_in_byte_AL_IMM dev s)" "holds I (x86emuOp_in_word_AX_IMM dev s)"
    "holds I (x86emuOp_out_byte_IMM_AL dev s)" "holds I (x86emuOp_out_word_IMM_AX dev s)"
    "holds I (x86emuOp_in_byte_AL_DX dev s)" "holds I (x86emuOp_in_word_AX_DX dev s)"
    "holds I (x86emuOp_out_byte_DX_AL dev s)" "holds I (x86emuOp_out_word_DX_AX dev s)"
  unfolding x86emuOp_xchg_byte_RM_R_def x86emuOp_xchg_word_RM_R_def x86emuOp_nop_def x86emuOp_mov_byte_RM_R_def
    x86emuOp_mov_word_RM_R_def x86emuOp_mov_byte_R_RM_def x86emuOp_mov_word_R_RM_def x86emuOp_mov_word_RM_SR_def
    x86emuOp_lea_word_R_M_def x86emuOp_mov_word_SR_RM_def x86emuOp_mov_AL_M_IMM_def x86emuOp_mov_AX_M_IMM_def
    x86emuOp_mov_M_AL_IMM_def x86emuOp_mov_M_AX_IMM_def x86emuOp_mov_byte_RM_IMM_def x86emuOp_mov_word_RM_IMM_def
    x86emuOp_xlat_def x86emuOp_in_byte_AL_IMM_def x86emuOp_in_word_AX_IMM_def x86emuOp_out_byte_IMM_AL_def
    x86emuOp_out_word_IMM_AX_def x86emuOp_in_byte_AL_DX_def x86emuOp_in_word_AX_DX_def x86emuOp_out_byte_DX_AL_def
    x86emuOp_out_word_DX_AX_def
  by (rule kept assms | assumption)+

section \<open>String instructions\<close>

lemma index_registers [kept]:
  assumes "holds I s"
  shows "holds I (move_SI l s)" "holds I (move_DI l s)" "holds I (clear_count s)" "holds I (count_down s)" "holds I (cmps_move l s)"
  unfolding cmps_move_def move_SI_def move_DI_def clear_count_def count_down_def
  by (rule kept assms | assumption)+

lemma rep [kept]: "(\<And>x. holds I x \<Longrightarrow> holds I (f x)) \<Longrightarrow> holds I s \<Longrightarrow> holds I (rep_string f s)"
  unfolding rep_string_def by (rule kept | assumption | blast)+

lemma ports_strings [kept]:
  assumes "holds I s"
  shows "holds I (ins dev n s)" "holds I (outs dev n s)"
  unfolding ins_def outs_def ins_item_def outs_item_def
  by (rule kept assms | assumption)+

lemma move_strings [kept]:
  assumes "holds I s"
  shows "holds I (x86emuOp_movs_byte dev s)" "holds I (x86emuOp_movs_word dev s)" "holds I (x86emuOp_stos_byte dev s)"
    "holds I (x86emuOp_stos_word dev s)" "holds I (x86emuOp_lods_byte dev s)" "holds I (x86emuOp_lods_word dev s)"
    "holds I (x86emuOp_ins_word dev s)" "holds I (x86emuOp_outs_word dev s)"
  unfolding x86emuOp_movs_byte_def x86emuOp_movs_word_def x86emuOp_stos_byte_def x86emuOp_stos_word_def x86emuOp_lods_byte_def
    x86emuOp_lods_word_def x86emuOp_ins_word_def x86emuOp_outs_word_def movs_item_def
  by (rule kept assms | assumption)+

lemma comparisons [kept]:
  assumes "holds I s"
  shows "holds I (cmps_byte_item dev s)" "holds I (cmps_word_item dev s)" "holds I (scas_byte_item dev s)"
    "holds I (scas_word_item dev s)"
  unfolding cmps_byte_item_def cmps_word_item_def scas_byte_item_def scas_word_item_def
  by (rule kept assms | assumption)+

lemma comparison_loops [kept]:
  "holds I s \<Longrightarrow> holds I (cmps_byte_loop dev inc cond s)" "holds I s \<Longrightarrow> holds I (cmps_word_loop dev inc cond s)"
  "holds I s \<Longrightarrow> holds I (scas_byte_loop dev inc cond s)" "holds I s \<Longrightarrow> holds I (scas_word_loop dev inc cond s)"
proof -
  show "holds I s \<Longrightarrow> holds I (cmps_byte_loop dev inc cond s)"
    by (induction dev inc cond s rule: cmps_byte_loop.induct) (subst cmps_byte_loop.simps, auto simp: Let_def kept)
  show "holds I s \<Longrightarrow> holds I (cmps_word_loop dev inc cond s)"
    by (induction dev inc cond s rule: cmps_word_loop.induct) (subst cmps_word_loop.simps, auto simp: Let_def kept)
  show "holds I s \<Longrightarrow> holds I (scas_byte_loop dev inc cond s)"
    by (induction dev inc cond s rule: scas_byte_loop.induct) (subst scas_byte_loop.simps, auto simp: Let_def kept)
  show "holds I s \<Longrightarrow> holds I (scas_word_loop dev inc cond s)"
    by (induction dev inc cond s rule: scas_word_loop.induct) (subst scas_word_loop.simps, auto simp: Let_def kept)
qed

lemma compare_strings [kept]:
  assumes "holds I s"
  shows "holds I (x86emuOp_cmps_byte dev s)" "holds I (x86emuOp_cmps_word dev s)" "holds I (x86emuOp_scas_byte dev s)"
    "holds I (x86emuOp_scas_word dev s)"
  unfolding x86emuOp_cmps_byte_def x86emuOp_cmps_word_def x86emuOp_scas_byte_def x86emuOp_scas_word_def
  by (rule kept assms | assumption)+

section \<open>Control\<close>

lemma control_helpers [kept]:
  assumes "holds I s"
  shows "holds2 I (fetch_far dev s)" "holds2 I (loop_target dev s)" "holds2 I (loop_count_down s)" "holds I (push_eip dev s)"
    "holds I (push_cs_eip dev s)" "holds2 I (pop_size dev s)" "holds2 I (fetch_size dev s)" "holds I (drop_stack l s)"
    "holds2 I (fetch_data_size dev l s)"
  unfolding fetch_far_def loop_target_def loop_count_down_def push_eip_def push_cs_eip_def pop_size_def fetch_size_def
    drop_stack_def fetch_data_size_def
  by (rule kept assms | assumption)+

lemma jumps [kept]:
  assumes "holds I s"
  shows "holds I (x86emuOp_jump_short_cc dev op s)" "holds I (x86emuOp_jump_near_IMM dev s)"
    "holds I (x86emuOp_jump_far_IMM dev s)" "holds I (x86emuOp_jump_byte_IMM dev s)" "holds I (x86emuOp_loopne dev s)"
    "holds I (x86emuOp_loope dev s)" "holds I (x86emuOp_loop dev s)" "holds I (x86emuOp_jcxz dev s)"
  unfolding x86emuOp_jump_short_cc_def x86emuOp_jump_near_IMM_def x86emuOp_jump_far_IMM_def x86emuOp_jump_byte_IMM_def
    x86emuOp_loopne_def x86emuOp_loope_def x86emuOp_loop_def x86emuOp_jcxz_def
  by (rule kept assms | assumption)+

lemma calls [kept]:
  assumes "holds I s"
  shows "holds I (x86emuOp_call_near_IMM dev s)" "holds I (x86emuOp_call_far_IMM dev s)" "holds I (x86emuOp_ret_near dev s)"
    "holds I (x86emuOp_ret_near_IMM dev s)" "holds I (x86emuOp_ret_far dev s)" "holds I (x86emuOp_ret_far_IMM dev s)"
  unfolding x86emuOp_call_near_IMM_def x86emuOp_call_far_IMM_def x86emuOp_ret_near_def x86emuOp_ret_near_IMM_def
    x86emuOp_ret_far_def x86emuOp_ret_far_IMM_def
  by (rule kept assms | assumption)+

lemma soft_interrupts [kept]:
  assumes "holds I s"
  shows "holds I (x86emuOp_illegal_op s)" "holds I (x86emuOp_int3 s)" "holds I (x86emuOp_int_IMM dev s)"
    "holds I (x86emuOp_into s)" "holds I (x86emuOp_iret dev s)"
  unfolding x86emuOp_illegal_op_def x86emuOp_int3_def x86emuOp_int_IMM_def x86emuOp_into_def x86emuOp_iret_def
  by (rule kept assms | assumption)+

lemma reserved_sahf: "reserved ((f AND 0xffffff00) OR ((ucast (b :: u8) OR F_ALWAYS_ON) AND 0xff))"
proof -
  have "bit F_ALWAYS_ON (Suc 0)" "bit (0xff :: u32) (Suc 0)" by code_simp+
  then show ?thesis by (simp add: reserved_bit bit_or_iff bit_and_iff)
qed

lemma reserved_set_bits [kept]:
  "reserved f \<Longrightarrow> reserved (f XOR F_CF)" "reserved f \<Longrightarrow> reserved (CLEAR_FLAG F_CF f)" "reserved f \<Longrightarrow> reserved (SET_FLAG F_CF f)"
  "reserved f \<Longrightarrow> reserved (CLEAR_FLAG F_IF f)" "reserved f \<Longrightarrow> reserved (SET_FLAG F_IF f)" "reserved f \<Longrightarrow> reserved (CLEAR_FLAG F_DF f)"
  "reserved f \<Longrightarrow> reserved (SET_FLAG F_DF f)" "reserved f \<Longrightarrow> reserved (SET_FLAG F_ZF f)" "reserved f \<Longrightarrow> reserved (CLEAR_FLAG F_TF f)"
  "reserved f \<Longrightarrow> reserved (CONDITIONAL_SET_FLAG c F_CF f)" "reserved f \<Longrightarrow> reserved (CONDITIONAL_SET_FLAG c F_ZF f)"
proof -
  assume "reserved f"
  then show "reserved (f XOR F_CF)" by (simp add: reserved_bit bit_xor_iff flag_bits)
qed (simp_all add: flag_bits)

lemma flag_instructions [kept]:
  assumes "holds I s"
  shows "holds I (x86emuOp_pushf_word dev s)" "holds I (x86emuOp_popf_word dev s)" "holds I (x86emuOp_sahf s)"
    "holds I (x86emuOp_lahf s)" "holds I (x86emuOp_wait s)" "holds I (x86emuOp_hlt s)" "holds I (x86emuOp_cmc s)"
    "holds I (x86emuOp_clc s)" "holds I (x86emuOp_stc s)" "holds I (x86emuOp_cli s)" "holds I (x86emuOp_sti s)"
    "holds I (x86emuOp_cld s)" "holds I (x86emuOp_std s)"
  unfolding x86emuOp_pushf_word_def x86emuOp_popf_word_def x86emuOp_sahf_def x86emuOp_lahf_def x86emuOp_wait_def x86emuOp_hlt_def
    x86emuOp_cmc_def x86emuOp_clc_def x86emuOp_stc_def x86emuOp_cli_def x86emuOp_sti_def x86emuOp_cld_def x86emuOp_std_def
  by (rule kept reserved_sahf assms | assumption)+

lemma group_ff [kept]:
  assumes "holds I s"
  shows "holds I (x86emuOp_opcFF_word_RM dev s)"
  unfolding x86emuOp_opcFF_word_RM_def opcFF_register_def opcFF_memory_def
  by (rule kept assms | assumption)+

section \<open>Two-byte opcodes\<close>

lemma table_instructions [kept]:
  assumes "holds I s"
  shows "holds I (opc_00_load dev n w s)" "holds I (store_table dev n n1 l l1 s)" "holds2 I (load_table dev n n1 s)"
    "holds I (set_CR0 l s)" "holds I (x86emuOp2_opc_00 dev s)" "holds I (x86emuOp2_opc_01 dev s)"
    "holds I (x86emuOp2_clts s)" "holds I (x86emuOp2_invd s)" "holds I (x86emuOp2_wbinvd s)"
  unfolding opc_00_load_def store_table_def load_table_def set_CR0_def x86emuOp2_opc_00_def x86emuOp2_opc_01_def x86emuOp2_clts_def
    x86emuOp2_invd_def x86emuOp2_wbinvd_def
  by (rule kept assms | assumption)+

lemma system_registers [kept]:
  assumes "holds I s"
  shows "holds I (x86emuOp2_mov_word_RM_CRx dev s)" "holds I (x86emuOp2_mov_word_RM_DRx dev s)"
    "holds I (x86emuOp2_mov_word_CRx_RM dev s)" "holds I (x86emuOp2_mov_word_DRx_RM dev s)" "holds I (x86emuOp2_wrmsr s)"
    "holds I (x86emuOp2_rdtsc s)" "holds I (x86emuOp2_rdmsr s)" "holds I (x86emuOp2_rdpmc s)"
    "holds I (x86emuOp2_sysenter s)" "holds I (x86emuOp2_sysexit s)" "holds I (x86emuOp2_illegal_op s)"
  unfolding x86emuOp2_mov_word_RM_CRx_def x86emuOp2_mov_word_RM_DRx_def x86emuOp2_mov_word_CRx_RM_def x86emuOp2_mov_word_DRx_RM_def
    x86emuOp2_wrmsr_def x86emuOp2_rdtsc_def x86emuOp2_rdmsr_def x86emuOp2_rdpmc_def x86emuOp2_sysenter_def
    x86emuOp2_sysexit_def x86emuOp2_illegal_op_def
  by (rule kept assms | assumption)+

lemma conditions [kept]:
  assumes "holds I s"
  shows "holds I (x86emuOp2_long_jump dev op s)" "holds I (x86emuOp2_set_byte dev op s)"
  unfolding x86emuOp2_long_jump_def x86emuOp2_set_byte_def
  by (rule kept assms | assumption)+

lemma bit_tests [kept]:
  assumes "holds I s"
  shows "holds I (bit_test_R dev wr n s)" "holds I (x86emuOp2_btX_I dev s)"
  unfolding bit_test_R_def x86emuOp2_btX_I_def
  by (rule kept assms | assumption)+

lemma double_shifts:
  assumes "holds I s" "\<And>a b n f. reserved f \<Longrightarrow> reserved (snd (op_long a b n f))" "\<And>a b n f. reserved f \<Longrightarrow> reserved (snd (op_word a b n f))"
    and "\<And>x. holds I x \<Longrightarrow> holds2 I (count x)"
  shows "holds I (double_shift dev op_long op_word count s)"
  unfolding double_shift_def
  by (rule kept assms | assumption)+

lemma double_shifts_kept [kept]:
  assumes "holds I s"
  shows "holds I (x86emuOp2_shld_IMM dev s)" "holds I (x86emuOp2_shld_CL dev s)"
    "holds I (x86emuOp2_shrd_IMM dev s)" "holds I (x86emuOp2_shrd_CL dev s)"
  unfolding x86emuOp2_shld_IMM_def x86emuOp2_shld_CL_def x86emuOp2_shrd_IMM_def x86emuOp2_shrd_CL_def
  by (rule double_shifts kept assms | assumption)+

lemma scans [kept]: "holds I s \<Longrightarrow> holds I (bit_scan dev f s)"
  unfolding bit_scan_def by (rule kept | assumption)+

lemma extending_moves [kept]:
  assumes "holds I s"
  shows "holds I (x86emuOp2_imul_R_RM dev s)" "holds I (x86emuOp2_movzx_byte_R_RM dev s)"
    "holds I (x86emuOp2_movzx_word_R_RM dev s)" "holds I (x86emuOp2_movsx_byte_R_RM dev s)"
    "holds I (x86emuOp2_movsx_word_R_RM dev s)"
  unfolding x86emuOp2_imul_R_RM_def x86emuOp2_movzx_byte_R_RM_def x86emuOp2_movzx_word_R_RM_def x86emuOp2_movsx_byte_R_RM_def
    x86emuOp2_movsx_word_R_RM_def
  by (rule kept assms | assumption)+

text \<open>The instructions that only name the operand of another.\<close>

lemmas named_operands =
  x86emuOp_push_AX_def x86emuOp_push_CX_def x86emuOp_push_DX_def x86emuOp_push_BX_def x86emuOp_push_SP_def
  x86emuOp_push_BP_def x86emuOp_push_SI_def x86emuOp_push_DI_def x86emuOp_pop_AX_def x86emuOp_pop_CX_def
  x86emuOp_pop_DX_def x86emuOp_pop_BX_def x86emuOp_pop_SP_def x86emuOp_pop_BP_def x86emuOp_pop_SI_def x86emuOp_pop_DI_def
  x86emuOp_push_ES_def x86emuOp_push_CS_def x86emuOp_push_SS_def x86emuOp_push_DS_def x86emuOp_pop_ES_def
  x86emuOp_pop_SS_def x86emuOp_pop_DS_def x86emuOp_xchg_word_AX_CX_def x86emuOp_xchg_word_AX_DX_def
  x86emuOp_xchg_word_AX_BX_def x86emuOp_xchg_word_AX_SP_def x86emuOp_xchg_word_AX_BP_def x86emuOp_xchg_word_AX_SI_def
  x86emuOp_xchg_word_AX_DI_def x86emuOp_mov_byte_AL_IMM_def x86emuOp_mov_byte_CL_IMM_def x86emuOp_mov_byte_DL_IMM_def
  x86emuOp_mov_byte_BL_IMM_def x86emuOp_mov_byte_AH_IMM_def x86emuOp_mov_byte_CH_IMM_def x86emuOp_mov_byte_DH_IMM_def
  x86emuOp_mov_byte_BH_IMM_def x86emuOp_mov_word_AX_IMM_def x86emuOp_mov_word_CX_IMM_def x86emuOp_mov_word_DX_IMM_def
  x86emuOp_mov_word_BX_IMM_def x86emuOp_mov_word_SP_IMM_def x86emuOp_mov_word_BP_IMM_def x86emuOp_mov_word_SI_IMM_def
  x86emuOp_mov_word_DI_IMM_def x86emuOp_les_R_IMM_def x86emuOp_lds_R_IMM_def x86emuOp_inc_AX_def x86emuOp_inc_CX_def
  x86emuOp_inc_DX_def x86emuOp_inc_BX_def x86emuOp_inc_SP_def x86emuOp_inc_BP_def x86emuOp_inc_SI_def x86emuOp_inc_DI_def
  x86emuOp_dec_AX_def x86emuOp_dec_CX_def x86emuOp_dec_DX_def x86emuOp_dec_BX_def x86emuOp_dec_SP_def x86emuOp_dec_BP_def
  x86emuOp_dec_SI_def x86emuOp_dec_DI_def x86emuOp_ins_byte_def x86emuOp_outs_byte_def x86emuOp2_push_FS_def
  x86emuOp2_pop_FS_def x86emuOp2_push_GS_def x86emuOp2_pop_GS_def x86emuOp2_lss_R_IMM_def x86emuOp2_lfs_R_IMM_def
  x86emuOp2_lgs_R_IMM_def x86emuOp2_bt_R_def x86emuOp2_bts_R_def x86emuOp2_btr_R_def x86emuOp2_btc_R_def x86emuOp2_bsf_def
  x86emuOp2_bsr_def

lemma choice [kept]: "holds I (f s) \<Longrightarrow> holds I (g s) \<Longrightarrow> holds I ((if c then f else g) s)"
  by simp

lemma two_byte [kept]: "holds I s \<Longrightarrow> holds I (x86emu_optab2 dev op s)"
  unfolding x86emu_optab2_def named_operands by (rule kept | assumption)+

lemma escape [kept]: "holds I s \<Longrightarrow> holds I (x86emuOp_two_byte dev s)"
  unfolding x86emuOp_two_byte_def by (rule kept | assumption)+

section \<open>The opcode table\<close>

lemma aam [kept]: "holds I s \<Longrightarrow> holds_opt I (x86emuOp_aam dev s)"
proof -
  assume s: "holds I s"
  have flags: "reserved f \<Longrightarrow> aam_word a r f = Inr (v, f') \<Longrightarrow> reserved f'" for a r f v f'
    by (auto simp: aam_word_def check_def Let_def flag_bits split: if_splits)
  have "holds I (set_rm_word 0 v (x\<lparr>R_FLG := f\<rparr>))" if "holds I x" "aam_word a r (R_FLG x) = Inr (v, f)" for x a r v f
    using flags [OF reservedI [OF that(1)] that(2)] that(1) by (simp add: kept)
  moreover have "holds I (snd (fetch_byte dev s))" using s by (simp add: kept)
  ultimately show ?thesis
    by (auto simp: x86emuOp_aam_def holds_opt_def split_beta Let_def kept split: sum.splits)
qed

lemma handlers:
  "(\<And>x. holds I x \<Longrightarrow> holds I (f x)) \<Longrightarrow> holds I s \<Longrightarrow> holds_opt I (plain f op s)"
  "(\<And>x. holds I x \<Longrightarrow> holds I (g op x)) \<Longrightarrow> holds I s \<Longrightarrow> holds_opt I (by_opcode g op s)"
  "(\<And>x. holds I x \<Longrightarrow> holds_opt I (h x)) \<Longrightarrow> holds I s \<Longrightarrow> holds_opt I (faulting h op s)"
  by (simp_all add: plain_def by_opcode_def faulting_def holds_opt_def)

end


end
