(* ===== verification/X86emu_Sandbox.thy ===== *)
theory X86emu_Sandbox
  imports X86emu_Keeps
begin

text \<open>
  The emulator as a sandbox: an invariant of the machine outside the processor survives every round of the main loop and the
  whole run. The instances say that the processor stays well formed, and that an emulated program changes no memory and
  reads no port beyond the permissions that \<open>x86emu_set_perm\<close> and \<open>x86emu_set_io_perm\<close> gave it.
\<close>

section \<open>The opcode table\<close>

lemma row_selects:
  fixes op :: u8
  assumes "op < 0x40"
  shows "unat (drop_bit 3 op) < 8"
proof -
  have "unat op < 64" using assms by (simp add: word_less_nat_alt)
  then show ?thesis by (simp add: unat_drop_bit_eq drop_bit_eq_div [where 'a = nat] del: drop_bit_eq_div)
qed

text \<open>The entries of the first four rows look at the opcode, which selects the operation; the others may be called with any.\<close>

context emu_invariant
begin

definition keeps_at :: "u8 \<Rightarrow> (u8 \<Rightarrow> x86emu \<Rightarrow> x86emu option) \<Rightarrow> bool" where
  "keeps_at op f \<longleftrightarrow> (\<forall>s. holds I s \<longrightarrow> holds_opt I (f op s))"

lemma first_rows: "op < 0x40 \<Longrightarrow> list_all (keeps_at op) (take 64 (x86emu_optab dev))"
  unfolding x86emu_optab_def named_operands
  by (simp add: keeps_at_def handlers kept row_selects)

lemma other_rows: "list_all (keeps_at op) (drop 64 (x86emu_optab dev))"
  unfolding x86emu_optab_def named_operands
  by (simp add: keeps_at_def handlers kept)

lemma table_length: "length (x86emu_optab dev) = 256"
  by (simp add: x86emu_optab_def)

lemma instruction:
  assumes "holds I s"
  shows "holds_opt I ((x86emu_optab dev ! unat op) op s)"
proof -
  have "unat op < 256" using unsigned_less [of op, where 'a = nat] by simp
  moreover have "unat op < 64 \<longleftrightarrow> op < 0x40" by (simp add: word_less_nat_alt)
  ultimately have "keeps_at op (x86emu_optab dev ! unat op)"
    using first_rows [of op dev] other_rows [of op dev] table_length [of dev]
    by (cases "unat op < 64") (auto simp: list_all_length dest: spec [where x = "unat op"] spec [where x = "unat op - 64"])
  then show ?thesis using assms by (simp add: keeps_at_def)
qed

end

section \<open>The main loop\<close>

text \<open>The handlers of the embedding program are outside the emulator: what they keep is an assumption.\<close>

definition handlers_keep :: "(x86emu \<Rightarrow> bool) \<Rightarrow> run_host \<Rightarrow> bool" where
  "handlers_keep P h \<longleftrightarrow>
     (\<forall>f s nr t. host_intr h = Some f \<longrightarrow> P s \<longrightarrow> P (snd (f s nr t))) \<and>
     (\<forall>f s. host_code_check h = Some f \<longrightarrow> P s \<longrightarrow> P (snd (f s)))"

definition holds_round :: "(x86emu \<Rightarrow> bool) \<Rightarrow> round \<Rightarrow> bool" where
  "holds_round I r = (case r of Next s \<Rightarrow> holds I s | Done _ s \<Rightarrow> holds I s | Host_fault \<Rightarrow> True | Text_overrun \<Rightarrow> True)"

definition holds_rounds :: "(x86emu \<Rightarrow> bool) \<Rightarrow> round option \<Rightarrow> bool" where
  "holds_rounds I w \<longleftrightarrow> (\<forall>r. w = Some r \<longrightarrow> holds_round I r)"

lemma rounds:
  "holds I v \<Longrightarrow> (\<And>x. holds I x \<Longrightarrow> holds_rounds I (f x)) \<Longrightarrow> holds_rounds I (Let v f)"
  "holds2 I p \<Longrightarrow> (\<And>a x. holds I x \<Longrightarrow> holds_rounds I (g a x)) \<Longrightarrow> holds_rounds I (Let p (case_prod g))"
  "holds_rounds I a \<Longrightarrow> holds_rounds I b \<Longrightarrow> holds_rounds I (if c then a else b)"
  "holds I s \<Longrightarrow> holds_rounds I (Some (Done n s))"
  "holds_round I r \<Longrightarrow> holds_rounds I (Some r)"
  by (auto simp: holds_rounds_def holds_round_def holds2_def split_beta split: option.split)

context emu_invariant
begin

lemma delivery:
  assumes "handlers_keep (holds I) h" "holds I s"
  shows "holds I (generate_int (host_dev h) (host_intr h) nr t e s)"
proof -
  have f: "holds2 I (f x nr t)" if "host_intr h = Some f" "holds I x" for f x nr t
    using assms(1) that by (simp add: handlers_keep_def holds2_def)
  have idt: "holds2 I (idt_lookup dev nr cs eip x)" if "holds I x" for dev nr cs eip x
    unfolding idt_lookup_def decode_memio_def by (rule kept that | assumption)+
  show ?thesis unfolding generate_int_def by (rule kept idt f assms | assumption)+
qed

lemma interrupt:
  assumes "handlers_keep (holds I) h" "holds I s"
  shows "holds I (handle_interrupt (host_dev h) (host_intr h) s)"
  unfolding handle_interrupt_def by (rule kept delivery [OF assms(1)] assms(2) | assumption)+

lemma prefixes:
  assumes "fetch_opcode dev s = Some (Some r)" "holds I s"
  shows "holds2 I r"
proof -
  have pre: "holds I (apply_prefix op x)" if "holds I x" "disasm_len (apply_prefix op x) \<le> DISASM_BUF" for op x
    using that unfolding apply_prefix_def OP_DECODE_def R_ES_INDEX_def R_CS_INDEX_def R_SS_INDEX_def R_DS_INDEX_def R_FS_INDEX_def R_GS_INDEX_def
    by (auto intro!: kept split: if_splits)
  have "\<forall>q. r' = Some q \<longrightarrow> holds I s \<longrightarrow> holds2 I q" if "fetch_opcode dev s = Some r'" for r'
  proof (rule fetch_opcode.raw_induct [OF _ that])
    fix fetch dev s r'
    assume IH: "\<And>dev s r'. fetch dev s = Some r' \<Longrightarrow> \<forall>q. r' = Some q \<longrightarrow> holds I s \<longrightarrow> holds2 I q"
      and r: "(let (op1, s) = fetch_byte dev s in if is_prefix op1 then let s = apply_prefix op1 s
        in if DISASM_BUF < disasm_len s then Some None else fetch dev s else Some (Some (op1, s))) = Some r'"
    show "\<forall>q. r' = Some q \<longrightarrow> holds I s \<longrightarrow> holds2 I q"
    proof (intro allI impI)
      fix q assume q: "r' = Some q" and "holds I s"
      then have k: "holds I (snd (fetch_byte dev s))" by (simp add: kept)
      show "holds2 I q"
      proof (cases "is_prefix (fst (fetch_byte dev s))")
        case True
        then have "fetch dev (apply_prefix (fst (fetch_byte dev s)) (snd (fetch_byte dev s))) = Some r'"
          and "disasm_len (apply_prefix (fst (fetch_byte dev s)) (snd (fetch_byte dev s))) \<le> DISASM_BUF"
          using r q by (auto simp: split_beta Let_def split: if_splits)
        then show ?thesis using IH pre [OF k] q by blast
      next
        case False
        then show ?thesis using r q k by (auto simp: split_beta Let_def holds2_def)
      qed
    qed
  qed
  then show ?thesis using assms by blast
qed

lemma checks [kept]:
  assumes "holds I s"
  shows "holds2 I (x86emu_read_byte_noperm dev a s)" "holds2 I (loop_check dev op1 s)" "holds2 I (no_code_check dev op1 rs s)"
proof -
  have r: "holds2 I (x86emu_read_byte_noperm dev a x)" if "holds I x" for a x
    unfolding x86emu_read_byte_noperm_def by (rule kept that)+
  have j: "holds2 I (jump_distance dev op1 u x)" if "holds I x" for u x
    unfolding jump_distance_def by (rule kept r that | assumption)+
  show "holds2 I (x86emu_read_byte_noperm dev a s)" using assms by (rule r)
  show "holds2 I (loop_check dev op1 s)" "holds2 I (no_code_check dev op1 rs s)"
    unfolding loop_check_def no_code_check_def by (rule kept r j assms | assumption)+
qed

lemma executed:
  assumes "handlers_keep (holds I) h" "holds I s"
  shows "holds_round I (execute h op1 rs s)"
proof (cases "(x86emu_optab (host_dev h) ! unat op1) op1 s")
  case (Some x)
  have "holds I x" using instruction [OF assms(2), of "host_dev h" op1] by (simp add: Some holds_opt_def)
  then have "holds I (handle_interrupt (host_dev h) (host_intr h) x)" by (rule interrupt [OF assms(1)])
  then show ?thesis by (simp add: execute_def Some holds_round_def Let_def kept)
qed (simp add: execute_def holds_round_def)

lemma round_kept:
  assumes keep: "handlers_keep (holds I) h" and s: "holds I s"
  shows "holds_rounds I (x86emu_round h flags s)"
proof -
  have start: "holds I (begin_instruction s)" unfolding begin_instruction_def by (rule kept s | simp)+
  have check: "holds2 I (f x)" if "host_code_check h = Some f" "holds I x" for f x
    using keep that by (simp add: handlers_keep_def holds2_def)
  have fetched: "holds_rounds I (case fetch_opcode dev y of None \<Rightarrow> None | Some None \<Rightarrow> Some Text_overrun | Some (Some z) \<Rightarrow> case_prod k z)"
    if "holds I y" "\<And>a x. holds I x \<Longrightarrow> holds_rounds I (k a x)" for dev y k
    using prefixes [OF _ that(1), of dev] that(2)
    by (cases "fetch_opcode dev y") (auto simp: holds2_def holds_rounds_def holds_round_def split: option.splits)
  show ?thesis
    unfolding x86emu_round_def
    by (rule rounds kept start check fetched executed keep s | assumption)+
qed

lemma loop_kept:
  assumes "handlers_keep (holds I) h" "holds I s"
  shows "holds_rounds I (run_loop h flags s)"
proof -
  have "holds I s \<longrightarrow> handlers_keep (holds I) h \<longrightarrow> holds_round I r" if "run_loop h flags s = Some r" for r
  proof (rule run_loop.raw_induct [OF _ that])
    fix go h flags s r
    assume IH: "\<And>h flags s r. go h flags s = Some r \<Longrightarrow> holds I s \<longrightarrow> handlers_keep (holds I) h \<longrightarrow> holds_round I r"
      and r: "(case x86emu_round h flags s of None \<Rightarrow> None | Some (Next s) \<Rightarrow> go h flags s
        | Some (Done w x) \<Rightarrow> Some (Done w x) | Some Host_fault \<Rightarrow> Some Host_fault | Some Text_overrun \<Rightarrow> Some Text_overrun) = Some r"
    show "holds I s \<longrightarrow> handlers_keep (holds I) h \<longrightarrow> holds_round I r"
    proof (intro impI)
      assume s: "holds I s" and keep: "handlers_keep (holds I) h"
      obtain x where x: "x86emu_round h flags s = Some x" using r by (cases "x86emu_round h flags s") auto
      have k: "holds_round I x" using round_kept [OF keep s] x by (simp add: holds_rounds_def)
      show "holds_round I r"
      proof (cases x)
        case (Next s')
        then have "go h flags s' = Some r" "holds I s'" using r x k by (simp_all add: holds_round_def)
        then show ?thesis using IH keep by blast
      qed (use r x k in simp_all)
    qed
  qed
  then show ?thesis using assms by (simp add: holds_rounds_def)
qed

end

section \<open>The processor stays well formed\<close>

definition emu_ok :: "x86emu \<Rightarrow> bool" where
  "emu_ok s \<longleftrightarrow> mem_ok (emu_mem s) \<and> shape s"

section \<open>Confinement\<close>

text \<open>What an emulated program may do to memory: it keeps the permissions and the storage behind every address, and changes
  bytes only where it may write.\<close>

definition mem_step :: "flat \<Rightarrow> flat \<Rightarrow> bool" where
  "mem_step f g \<longleftrightarrow> same_bits f g \<and> floc g = floc f \<and>
     (\<forall>l. fbyte g l \<noteq> fbyte f l \<longrightarrow> (\<exists>b. l = floc f b \<and> fattr f b AND X86EMU_PERM_W \<noteq> 0))"

text \<open>And to ports: it keeps the rights, reads only ports it may read, and puts nothing out unless it may write some port.\<close>

definition port_step :: "x86emu \<Rightarrow> x86emu \<Rightarrow> bool" where
  "port_step s t \<longleftrightarrow> (\<exists>new. port_log (host_io t) = new @ port_log (host_io s) \<and>
      (\<forall>e\<in>set new. (\<forall>p\<in>set (ports_read e). may_read s p) \<and> (ports_read e = [] \<longrightarrow> (\<exists>p. may_write s p)))) \<and>
    (\<forall>p. may_read t p \<longleftrightarrow> may_read s p) \<and> (\<forall>p. may_write t p \<longleftrightarrow> may_write s p)"

definition confined :: "x86emu \<Rightarrow> x86emu \<Rightarrow> bool" where
  "confined s t \<longleftrightarrow> mem_ok (emu_mem t) \<and> mem_step (view (emu_mem s)) (view (emu_mem t)) \<and> port_step s t"

lemma mem_step_trans: "mem_step f g \<Longrightarrow> mem_step g h \<Longrightarrow> mem_step f h"
  unfolding mem_step_def using same_bits_trans [of f g h] same_bits_perm(2) [of f g] by metis

lemma port_step_trans:
  assumes st: "port_step s t" and tu: "port_step t u"
  shows "port_step s u"
proof -
  obtain new new' where n: "port_log (host_io t) = new @ port_log (host_io s)" "port_log (host_io u) = new' @ port_log (host_io t)"
    and p: "\<forall>e\<in>set new. (\<forall>p\<in>set (ports_read e). may_read s p) \<and> (ports_read e = [] \<longrightarrow> (\<exists>p. may_write s p))"
      "\<forall>e\<in>set new'. (\<forall>p\<in>set (ports_read e). may_read t p) \<and> (ports_read e = [] \<longrightarrow> (\<exists>p. may_write t p))"
    using st tu unfolding port_step_def by blast
  have "port_log (host_io u) = (new' @ new) @ port_log (host_io s)" by (simp add: n)
  moreover have "\<forall>e\<in>set (new' @ new). (\<forall>p\<in>set (ports_read e). may_read s p) \<and> (ports_read e = [] \<longrightarrow> (\<exists>p. may_write s p))"
    using p st by (auto simp: port_step_def)
  ultimately show ?thesis using st tu unfolding port_step_def by metis
qed

lemma port_step_same: "host_io t = host_io s \<Longrightarrow> io_map t = io_map s \<Longrightarrow> iopl_ok t = iopl_ok s \<Longrightarrow> port_step s t"
  by (simp add: port_step_def may_read_def may_write_def)

lemma input_port_step: "input_step s t \<Longrightarrow> port_step s t"
  unfolding input_step_def port_step_def by blast

section \<open>Accesses are confined\<close>

lemma emu_confined_trans: "confined s t \<Longrightarrow> confined t u \<Longrightarrow> confined s u"
  unfolding confined_def using mem_step_trans port_step_trans by blast

lemma mem_step_invalid [simp]:
  "mem_step (f\<lparr>finvalid := i\<rparr>) g \<longleftrightarrow> mem_step f g" "mem_step f (g\<lparr>finvalid := i\<rparr>) \<longleftrightarrow> mem_step f g" "mem_step f f"
  by (simp_all add: mem_step_def same_bits_def)

lemma confined_same:
  "mem_ok (emu_mem s) \<Longrightarrow> emu_mem t = (emu_mem s)\<lparr>invalid := i\<rparr> \<Longrightarrow> port_step s t \<Longrightarrow> confined s t"
  by (simp add: confined_def)

text \<open>Port accesses leave the memory alone.\<close>

definition same_memory :: "x86emu \<Rightarrow> x86emu \<Rightarrow> bool" where
  "same_memory s t \<longleftrightarrow> (\<exists>i. emu_mem t = (emu_mem s)\<lparr>invalid := i\<rparr>)"

lemma same_memory_trans: "same_memory s t \<Longrightarrow> same_memory t u \<Longrightarrow> same_memory s u"
  by (auto simp: same_memory_def)

lemma same_memory_eq: "emu_mem t = emu_mem s \<Longrightarrow> same_memory s t"
proof -
  have "emu_mem s = (emu_mem s)\<lparr>invalid := invalid (emu_mem s)\<rparr>" by simp
  then show "emu_mem t = emu_mem s \<Longrightarrow> same_memory s t" unfolding same_memory_def by metis
qed

lemma fold_memory:
  "emu_mem (fold (\<lambda>k. count_i (p + k)) ks s) = emu_mem s" "emu_mem (fold (\<lambda>k. count_o (p + k)) ks s) = emu_mem s"
  "emu_mem (fold (\<lambda>k. or_io (p + k) b) ks s) = emu_mem s"
  by (induction ks arbitrary: s) simp_all

lemma host_memory:
  "emu_mem (snd (inb dev a s)) = emu_mem s" "emu_mem (snd (inw dev a s)) = emu_mem s" "emu_mem (snd (inl dev a s)) = emu_mem s"
  "emu_mem (outb a v s) = emu_mem s" "emu_mem (outw a v s) = emu_mem s" "emu_mem (outl a v s) = emu_mem s"
  by (simp_all add: inb_def inw_def inl_def outb_def outw_def outl_def split_beta)

lemma byte_port_memory: "same_memory s (snd (vm_i_byte dev a s))" "same_memory s (vm_o_byte a v s)"
proof -
  have inv: "same_memory s (set_invalid (or_io p b s))" for p b by (auto simp: same_memory_def)
  show "same_memory s (snd (vm_i_byte dev a s))" "same_memory s (vm_o_byte a v s)"
    by (auto simp: vm_i_byte_def vm_o_byte_def Let_def host_memory inv intro: same_memory_eq)
qed

lemma port_memory:
  "same_memory s (snd (vm_i_word dev a s))" "same_memory s (snd (vm_i_dword dev a s))"
  "same_memory s (vm_o_word a v s)" "same_memory s (vm_o_dword a v s)"
proof -
  note i = same_memory_trans [OF _ byte_port_memory(1)] and o = same_memory_trans [OF _ byte_port_memory(2)]
  show "same_memory s (snd (vm_i_word dev a s))" "same_memory s (vm_o_word a v s)"
    by (auto simp: vm_i_word_def vm_o_word_def Let_def split_beta host_memory
        intro: same_memory_eq i [OF byte_port_memory(1)] o [OF byte_port_memory(2)])
  show "same_memory s (snd (vm_i_dword dev a s))" "same_memory s (vm_o_dword a v s)"
    by (auto simp: vm_i_dword_def vm_o_dword_def Let_def split_beta host_memory fold_memory
        intro: same_memory_eq i [OF i [OF i [OF byte_port_memory(1)]]] o [OF o [OF o [OF byte_port_memory(2)]]])
qed

lemma output_event:
  assumes "may_write s p" "e \<in> {Out8 a b, Out16 a w, Out32 a l}"
    and "port_log (host_io t) = e # port_log (host_io s)"
    and "\<And>q. may_read t q \<longleftrightarrow> may_read s q" "\<And>q. may_write t q \<longleftrightarrow> may_write s q"
  shows "port_step s t"
  unfolding port_step_def using assms by (intro conjI exI [of _ "[e]"]) (auto simp: ports_read_def)

lemma byte_output_step: "port_step s (vm_o_byte a v s)"
proof (cases "may_write s (unat (a AND 0xFFFF))")
  case True
  then show ?thesis
    using vm_o_byte_effect [OF refl refl, of a v s]
    by (intro output_event [of s _ "Out8 (ucast v) (ucast (a AND 0xFFFF))"]) (simp_all add: io_out_8_def)
next
  case False
  then show ?thesis
    using vm_o_byte_effect [OF refl refl, of a v s] unfolding port_step_def by (intro conjI exI [of _ "[]"]) simp_all
qed

lemma output_step: "port_step s (vm_o_word a v s)" "port_step s (vm_o_dword a v s)"
proof -
  note o = port_step_trans [OF _ byte_output_step]
  let ?p = "unat (a AND 0xFFFF)"
  show "port_step s (vm_o_word a v s)"
  proof (cases "iopl_ok s \<and> a AND 0xFFFF \<noteq> 0xFFFF \<and> may_write s ?p \<and> may_write s (?p + 1)")
    case True
    have "vm_o_word a v s = outw v (a AND 0xFFFF)
        (count_o (?p + 1) (count_o ?p (or_io (?p + 1) X86EMU_ACC_W (or_io ?p X86EMU_ACC_W s))))"
      using True unfolding may_write_def by (auto simp: vm_o_word_def Let_def)
    then show ?thesis using True
      by (intro output_event [of s ?p "Out16 (ucast v) (ucast (a AND 0xFFFF))"]) (simp_all add: outw_def io_out_16_def)
  next
    case False
    then have "vm_o_word a v s = vm_o_byte ((a AND 0xFFFF) + 1) v (vm_o_byte (a AND 0xFFFF) v s)"
      unfolding may_write_def by (auto simp: vm_o_word_def Let_def)
    then show ?thesis by (simp add: o [OF byte_output_step])
  qed
  show "port_step s (vm_o_dword a v s)"
  proof (cases "iopl_ok s \<and> \<not> a AND 0xFFFF \<ge> 0xFFFD \<and> (\<forall>k\<in>{0, 1, 2, 3}. may_write s (?p + k))")
    case True
    have "vm_o_dword a v s = outl v (a AND 0xFFFF)
        (fold (\<lambda>k. count_o (?p + k)) [0..<4] (fold (\<lambda>k. or_io (?p + k) X86EMU_ACC_W) [0..<4] s))"
      using True unfolding may_write_def by (auto simp: vm_o_dword_def Let_def upto_4)
    then show ?thesis using True
      by (intro output_event [of s ?p "Out32 (ucast v) (a AND 0xFFFF)"]) (simp_all add: outl_def io_out_32_def upto_4)
  next
    case False
    have "vm_o_dword a v s = vm_o_byte ((a AND 0xFFFF) + 3) v (vm_o_byte ((a AND 0xFFFF) + 2) v
        (vm_o_byte ((a AND 0xFFFF) + 1) v (vm_o_byte (a AND 0xFFFF) v s)))"
      using False unfolding may_write_def by (auto simp: vm_o_dword_def Let_def upto_4)
    then show ?thesis by (simp add: o [OF o [OF o [OF byte_output_step]]])
  qed
qed

lemma port_steps:
  "port_step s (snd (vm_i_byte dev a s))" "port_step s (snd (vm_i_word dev a s))" "port_step s (snd (vm_i_dword dev a s))"
proof -
  obtain vb b vw w vl l where r: "vm_i_byte dev a s = (vb, b)" "vm_i_word dev a s = (vw, w)" "vm_i_dword dev a s = (vl, l)"
    by (metis surj_pair)
  show "port_step s (snd (vm_i_byte dev a s))" "port_step s (snd (vm_i_word dev a s))" "port_step s (snd (vm_i_dword dev a s))"
    using vm_i_byte_step [OF r(1) refl] vm_i_word_step [OF r(2) refl] vm_i_dword_step [OF r(3) refl]
    by (simp_all add: r input_port_step)
qed

lemma same_memory_confined: "mem_ok (emu_mem s) \<Longrightarrow> same_memory s t \<Longrightarrow> port_step s t \<Longrightarrow> confined s t"
  unfolding same_memory_def using confined_same by blast

lemma confined_ports:
  assumes "mem_ok (emu_mem s)"
  shows "confined s (snd (vm_i_byte dev a s))" "confined s (snd (vm_i_word dev a s))" "confined s (snd (vm_i_dword dev a s))"
    "confined s (vm_o_byte a v s)" "confined s (vm_o_word a v s)" "confined s (vm_o_dword a v s)"
  by (rule same_memory_confined [OF assms], (rule byte_port_memory port_memory),
      (rule port_steps byte_output_step output_step))+

lemma confined_reads:
  assumes ok: "mem_ok (emu_mem s)"
  shows "memory_read rd perm acc n \<Longrightarrow> confined s (snd (mem_read rd a s))"
    "confined s (snd (mem_read vm_r_byte_noperm a s))"
    "memory_access rd' n' wr \<Longrightarrow> confined s (mem_write wr a v s)"
proof -
  have pure: "confined s (s\<lparr>emu_mem := m\<rparr>)" if "mem_ok m" "mem_step (view (emu_mem s)) (view m)" for m
    using that by (simp add: confined_def port_step_same)
  show "confined s (snd (mem_read rd a s))" if "memory_read rd perm acc n"
  proof -
    obtain v m where r: "rd (emu_mem s) a = (v, m)" by (metis surj_pair)
    show ?thesis using memory_read.read_effect [OF that ok r] pure [of m] by (simp add: mem_read_def r mem_step_def)
  qed
  obtain p m where r: "vm_get_page (emu_mem s) a True = (p, m)" by (metis surj_pair)
  show "confined s (snd (mem_read vm_r_byte_noperm a s))"
    using vm_get_page_invisible [OF r ok] pure [of m] by (simp add: mem_read_def vm_r_byte_noperm_def r)
  show "confined s (mem_write wr a v s)" if "memory_access rd' n' wr"
  proof -
    note e = memory_access.write_effect [OF that ok, where a = a and v = v]
    have "mem_step (view (emu_mem s)) (view (wr (emu_mem s) a v))" unfolding mem_step_def using e(1,3,4) by blast
    then show ?thesis using pure [OF e(5)] by (simp add: mem_write_def)
  qed
qed

text \<open>One access of any kind, except a write that ignores the permissions, which no instruction makes.\<close>

lemma access_confined:
  assumes ok: "mem_ok (emu_mem s)" and t: "t \<noteq> X86EMU_MEMIO_W OR X86EMU_MEMIO_8_NOPERM"
  shows "confined s (snd (snd (vm_memio dev a v t s)))"
proof -
  define s1 where "s1 = s\<lparr>emu_mem := (emu_mem s)\<lparr>invalid := False\<rparr>\<rparr>"
  have ok1: "mem_ok (emu_mem s1)" using ok by (simp add: s1_def)
  have start: "confined s s1" by (rule confined_same [OF ok]) (simp_all add: s1_def port_step_same)
  have same: "confined s1 s1" by (simp add: confined_def ok1 port_step_same)
  have "t = (t AND NOT 0xff) OR (t AND 0xff)"
    by (rule bit_word_eqI) (auto simp: bit_simps)
  then have not_W: "\<not> (t AND NOT 0xff = X86EMU_MEMIO_W \<and> t AND 0xff = X86EMU_MEMIO_8_NOPERM)" using t by metis
  show ?thesis
  proof (cases "t AND NOT 0xff = X86EMU_MEMIO_W \<and> t AND 0xff = X86EMU_MEMIO_8_NOPERM")
    case False
    note rules = confined_reads(1) [OF ok1 byte_access.memory_read_axioms] confined_reads(1) [OF ok1 word_access.memory_read_axioms]
      confined_reads(1) [OF ok1 dword_access.memory_read_axioms] confined_reads(1) [OF ok1 byte_fetch.memory_read_axioms]
      confined_reads(1) [OF ok1 word_fetch.memory_read_axioms] confined_reads(1) [OF ok1 dword_fetch.memory_read_axioms]
      confined_reads(2) [OF ok1] confined_reads(3) [OF ok1 byte_access.memory_access_axioms]
      confined_reads(3) [OF ok1 word_access.memory_access_axioms] confined_reads(3) [OF ok1 dword_access.memory_access_axioms]
      confined_ports [OF ok1]
    show ?thesis
      by (rule emu_confined_trans [OF start])
        (use False in \<open>auto simp: vm_memio_def Let_def split_beta s1_def [symmetric] rules same\<close>)
  qed (use not_W in blast)
qed

section \<open>The instances\<close>

interpretation well_formed: emu_invariant "\<lambda>s. mem_ok (emu_mem s)"
proof
  show "outside t = outside s \<Longrightarrow> mem_ok (emu_mem t)" if "mem_ok (emu_mem s)" for s t using that by (simp add: outside_def)
  show "mem_ok (emu_mem (snd (snd (vm_memio dev a v t s))))" if "mem_ok (emu_mem s)" "t \<noteq> X86EMU_MEMIO_W OR X86EMU_MEMIO_8_NOPERM"
    for dev a v t and s :: x86emu using access_confined [OF that] by (simp add: confined_def)
qed

interpretation sandbox: emu_invariant "confined s0" for s0
proof
  show "confined s0 t" if "confined s0 s" "outside t = outside s" for s t
    using that by (auto simp: outside_def confined_def port_step_def may_read_def may_write_def)
  show "confined s0 (snd (snd (vm_memio dev a v t s)))" if "confined s0 s" "t \<noteq> X86EMU_MEMIO_W OR X86EMU_MEMIO_8_NOPERM"
    for dev a v t s
    using that by (intro emu_confined_trans [OF that(1) access_confined]) (simp_all add: confined_def)
qed

section \<open>A machine for the examples\<close>

text \<open>A program at address 0 of an otherwise empty memory that may be read, written and executed.\<close>

definition program_memory :: "u8 list \<Rightarrow> x86emu_mem_t" where
  "program_memory code = (emu_mem_new 0x0f (\<lambda>_. 0))\<lparr>pdir := Some (\<lambda>i. if i = 0 then Some (\<lambda>j. if j = 0
      then \<lparr>attr = Some (\<lambda>_. 0x0f), own = (\<lambda>k. if k < length code then code ! k else 0), page_data = Own_data, page_def_attr = 0x0f\<rparr>
      else no_page\<lparr>page_def_attr := 0x0f\<rparr>) else None)\<rparr>"

definition program_machine :: "u8 list \<Rightarrow> x86emu" where
  "program_machine code =
     \<lparr>R_EAX = 0, R_EBX = 0, R_ECX = 0, R_EDX = 0, R_ESP = 0x800, R_EBP = 0, R_ESI = 0, R_EDI = 0, R_FLG = 2,
      seg = (\<lambda>_. \<lparr>sel_base = 0, sel_limit = 0xFFFF, sel_sel = 0, sel_acc = 0x93\<rparr>), mode = 0,
      intr_nr = 0, intr_type = 0, intr_errcode = 0,
      emu_mem = program_memory code, io_map = (\<lambda>port. 0),
      stats_i = (\<lambda>_. 0), stats_o = (\<lambda>_. 0), iopl_needed = False, iopl_ok = True,
      host_io = \<lparr>if_flag = True, port_log = []\<rparr>,
      R_EIP = 0, ldt = \<lparr>sel_base = 0, sel_limit = 0xFFFF, sel_sel = 0, sel_acc = 0x93\<rparr>,
      tr = \<lparr>sel_base = 0, sel_limit = 0xFFFF, sel_sel = 0, sel_acc = 0x93\<rparr>,
      crx = (\<lambda>_. 0), drx = (\<lambda>_. 0), gdt_base = 0, gdt_limit = 0, idt_base = 0, idt_limit = 0x3ff,
      msr = (\<lambda>_. 0), msr_perm = (\<lambda>_. 0), default_seg = None, saved_eip = 0, saved_cs = 0, instr_buf = [],
      intr_stats = (\<lambda>_. 0), debug_start = 0, debug_len = 0, log_trace = 0, max_instr = 0, disasm_len = 0\<rparr>"

definition quiet_host :: run_host where
  "quiet_host = \<lparr>host_dev = (\<lambda>_ _. 0), host_intr = None, host_code_check = None, host_elapsed = (\<lambda>_. 0),
     host_tsc = (\<lambda>n. n), host_iopl = 0, host_timeout = 0\<rparr>"



text \<open>The program \<open>stosb\<close>, with a limit of one instruction.\<close>

definition store_al :: x86emu where
  "store_al = (program_machine [0xaa])\<lparr>R_EAX := 7, R_EDI := 0x40, max_instr := 1\<rparr>"

lemma store_al_ok: "emu_ok store_al"
  by (auto simp: emu_ok_def store_al_def program_machine_def program_memory_def emu_mem_new_def mem_ok_def page_of_def
      no_page_def shape_def reserved_def F_ALWAYS_ON_def split: if_splits)

lemma store_al_fetch:
  "fst (fetch_byte (\<lambda>_ _. 0) (begin_instruction store_al)) = 0xaa" "mode (snd (fetch_byte (\<lambda>_ _. 0) (begin_instruction store_al))) = 0"
  by code_simp+

lemma fetch_byte_frame [simp]:
  "msr (snd (fetch_byte dev s)) = msr s" "max_instr (snd (fetch_byte dev s)) = max_instr s"
  "seg (snd (fetch_byte dev s)) = seg s" "intr_type (snd (fetch_byte dev s)) = intr_type s" "R_EDI (snd (fetch_byte dev s)) = R_EDI s"
  "debug_len (snd (fetch_byte dev s)) = debug_len s" "R_FLG (snd (fetch_byte dev s)) = R_FLG s"
  by (simp_all add: fetch_byte_def decode_memio_def split_beta Let_def advance_ip_def x86emu_stop_def)

lemma fetch_len [simp]: "disasm_len (snd (fetch_byte dev s)) = disasm_len s"
  by (simp add: fetch_byte_def decode_memio_def split_beta Let_def advance_ip_def x86emu_stop_def)

lemma store_al_round:
  "\<exists>t. x86emu_round quiet_host X86EMU_RUN_MAX_INSTR store_al = Some (Next t) \<and> R_TSC t = 1 \<and> max_instr t = 1"
proof -
  let ?dev = "\<lambda>_ _. 0" and ?s = "begin_instruction store_al"
  obtain s2 where f: "fetch_byte ?dev ?s = (0xaa, s2)" using store_al_fetch(1) by (metis prod.collapse)
  have m: "mode s2 = 0" using store_al_fetch(2) by (simp add: f)
  have s2: "msr s2 = (\<lambda>_. 0)" "max_instr s2 = 1" "intr_type s2 = 0" "R_EDI s2 = 0x40" "R_FLG s2 = 2"
    "sel_limit (seg s2 0) = 0xFFFF" "debug_len s2 = 0" "disasm_len s2 = 0"
    using fetch_byte_frame [of ?dev ?s, unfolded f] fetch_len [of ?dev ?s, unfolded f] by (simp_all add: begin_instruction_def store_al_def program_machine_def)
  have o: "fetch_opcode ?dev ?s = Some (Some (0xaa, s2))" by (subst fetch_opcode.simps) (simp add: f is_prefix_def)
  define t where "t = x86emuOp_stos_byte ?dev s2"
  have op: "x86emu_optab ?dev ! unat (0xaa :: u8) = plain (x86emuOp_stos_byte ?dev)" by (simp add: x86emu_optab_def)
  have k: "msr t = (\<lambda>_. 0)" "max_instr t = 1" "intr_type t = 0" "mode t = 0" "debug_len t = 0"
    by (simp_all add: t_def x86emuOp_stos_byte_def Let_def rep_string_def MODE_REP_def m move_DI_def s2 string_DI_def MODE_ADDR32_def
      store_data_byte_abs_def check_data_access_def decode_memio_def R_ES_INDEX_def x_reg_def)
  define u where "u = t\<lparr>intr_type := 0, msr := (msr t)(0x11 := 0, 0x12 := 0, 0x10 := 1)\<rparr>"
  have "execute quiet_host 0xaa 0 s2 = Next u"
    using op by (simp add: execute_def quiet_host_def plain_def t_def [symmetric] handle_interrupt_def k MODE_HALTED_def Let_def
        R_TSC_def u_def fun_upd_def fun_eq_iff s2 DISASM_BUF_def INSTR_TEXT_def)
  moreover have "R_TSC ?s = 0" "max_instr ?s = 1" by (simp_all add: begin_instruction_def store_al_def program_machine_def R_TSC_def Let_def)
  ultimately have "x86emu_round quiet_host X86EMU_RUN_MAX_INSTR store_al = Some (Next u)"
    using o by (simp add: x86emu_round_def Let_def X86EMU_RUN_MAX_INSTR_def X86EMU_RUN_TIMEOUT_def X86EMU_RUN_LOOP_def
        X86EMU_RUN_NO_CODE_def quiet_host_def MODE_HALTED_def m)
  then show ?thesis by (auto simp: u_def R_TSC_def k)
qed

lemma store_al_run: "\<exists>t. x86emu_run quiet_host X86EMU_RUN_MAX_INSTR store_al = Some (Done X86EMU_RUN_MAX_INSTR t)"
proof -
  obtain t where r: "x86emu_round quiet_host X86EMU_RUN_MAX_INSTR store_al = Some (Next t)" and t: "R_TSC t = 1" "max_instr t = 1"
    using store_al_round by blast
  have "R_TSC (begin_instruction t) = R_TSC t" "max_instr (begin_instruction t) = max_instr t"
    by (simp_all add: begin_instruction_def R_TSC_def Let_def)
  then have "x86emu_round quiet_host X86EMU_RUN_MAX_INSTR t = Some (Done X86EMU_RUN_MAX_INSTR (begin_instruction t))"
    by (simp add: x86emu_round_def t X86EMU_RUN_MAX_INSTR_def Let_def)
  then have "run_loop quiet_host X86EMU_RUN_MAX_INSTR t = Some (Done X86EMU_RUN_MAX_INSTR (begin_instruction t))"
    by (subst run_loop.simps) simp
  then have "run_loop quiet_host X86EMU_RUN_MAX_INSTR store_al = Some (Done X86EMU_RUN_MAX_INSTR (begin_instruction t))"
    by (subst run_loop.simps) (simp add: r)
  moreover have "store_al\<lparr>iopl_ok := \<not> (iopl_needed store_al \<and> host_iopl quiet_host \<noteq> 3)\<rparr> = store_al"
    by (simp add: store_al_def program_machine_def)
  ultimately show ?thesis by (simp add: x86emu_run_def Let_def)
qed

lemma quiet_host_keeps: "handlers_keep P quiet_host"
  by (simp add: handlers_keep_def quiet_host_def)

section \<open>Properties\<close>

lemma emu_ok_holds: "emu_ok = holds (\<lambda>s. mem_ok (emu_mem s))"
  by (simp add: fun_eq_iff emu_ok_def holds_def)

text \<open>
  C20. Every round of the emulator keeps the processor well formed, whatever instruction it executes and whatever interrupt
  it delivers: the pages of the memory stay consistent, the reserved bit of the flags stays set, the buffer of the instruction's bytes is
  not overrun however many prefixes precede an opcode, the segment override names a segment register, and the text of the prefixes
  is within the disassembly buffer. The rounds that end otherwise are those whose division faults in the emulator, and those whose prefixes
  leave less than \<open>INSTR_TEXT\<close> bytes of that buffer, which nothing in the program checks; of their states nothing is claimed.
\<close>
theorem rounds_preserve_well_formedness:
  assumes "emu_ok s" "handlers_keep emu_ok h" "x86emu_round h flags s = Some r"
  shows "case r of Next t \<Rightarrow> emu_ok t | Done rs t \<Rightarrow> emu_ok t | Host_fault \<Rightarrow> True | Text_overrun \<Rightarrow> True"
  using well_formed.round_kept [of h s flags] assms
  by (simp add: emu_ok_holds holds_rounds_def holds_round_def split: round.split_asm)

lemma rounds_preserve_well_formedness_witness:
  "\<exists>t. x86emu_round quiet_host X86EMU_RUN_MAX_INSTR store_al = Some (Next t) \<and> emu_ok t"
  using store_al_round rounds_preserve_well_formedness [OF store_al_ok quiet_host_keeps] by fastforce

lemma run_confined:
  assumes "emu_ok s" "s0 = s\<lparr>iopl_ok := \<not> (iopl_needed s \<and> host_iopl h \<noteq> 3)\<rparr>"
    and "handlers_keep (\<lambda>t. confined s0 t \<and> shape t) h" "x86emu_run h flags s = Some (Done rs t)"
  shows "confined s0 t" "shape t"
proof -
  have "holds (confined s0) s0"
    using assms(1) by (simp add: holds_def emu_ok_def assms(2) confined_def port_step_same shape_def)
  moreover have "handlers_keep (holds (confined s0)) h" using assms(3) by (simp add: handlers_keep_def holds_def)
  ultimately have "holds_rounds (confined s0) (run_loop h flags s0)" by (intro sandbox.loop_kept)
  moreover obtain u where "run_loop h flags s0 = Some (Done rs u)" and t: "t = u\<lparr>msr := (msr u)(0x12 := host_tsc h (R_TSC u))\<rparr>"
    using assms(4) unfolding x86emu_run_def assms(2) [symmetric] Let_def by (auto split: option.splits round.splits)
  ultimately have "holds (confined s0) u" by (simp add: holds_rounds_def holds_round_def)
  then have "holds (confined s0) t" unfolding t by (rule kept sandbox.updates)
  then show "confined s0 t" "shape t" by (simp_all add: holds_def)
qed

text \<open>
  C19. An emulated program stays within what it was given. When the run ends (it has neither faulted on a division nor come to an
  instruction whose prefixes leave less than \<open>INSTR_TEXT\<close> bytes of the disassembly buffer, which are other outcomes), it has changed no byte of memory
  that it may not write, nor any permission or the place of any page; its input came only from ports it may read, it put nothing
  out unless it may write some port, and its rights to ports are the same.
\<close>
theorem emulated_program_is_confined:
  assumes "emu_ok s" "s0 = s\<lparr>iopl_ok := \<not> (iopl_needed s \<and> host_iopl h \<noteq> 3)\<rparr>"
    and "handlers_keep (\<lambda>t. confined s0 t \<and> shape t) h"
    and "x86emu_run h flags s = Some (Done rs t)" "f = view (emu_mem s)" "g = view (emu_mem t)"
  shows "(\<forall>l. fbyte g l \<noteq> fbyte f l \<longrightarrow> (\<exists>b. l = floc f b \<and> fattr f b AND X86EMU_PERM_W \<noteq> 0)) \<and>
    same_bits f g \<and> floc g = floc f \<and> port_step s0 t \<and> emu_ok t"
  using run_confined [OF assms(1-4)] by (simp add: confined_def mem_step_def emu_ok_def assms(2,5,6))


lemma emulated_program_is_confined_witness:
  "\<exists>t. x86emu_run quiet_host X86EMU_RUN_MAX_INSTR store_al = Some (Done X86EMU_RUN_MAX_INSTR t) \<and>
     same_bits (view (emu_mem store_al)) (view (emu_mem t)) \<and> emu_ok t"
  using store_al_run emulated_program_is_confined [OF store_al_ok refl quiet_host_keeps _ refl refl] by blast

end
