(* ===== verification/X86emu_Prefix.thy ===== *)
theory X86emu_Prefix
  imports X86emu_Sandbox
begin

text \<open>
  When the loop over the instruction prefixes ends (\<open>x86emu_run\<close> in \<open>libx86emu/decode.c\<close>). The loop has no bound of its own, and
  neither the limit on instructions nor the one on time stops it: it ends at the first byte that is not a prefix, unless the disassembly
  text of the prefixes before it has filled its buffer.
\<close>

section \<open>The bytes of the code\<close>

definition code_byte :: "x86emu \<Rightarrow> u32 \<Rightarrow> u8" where
  "code_byte s k =
     ucast (seen X86EMU_PERM_X [sel_base (seg s R_CS_INDEX) + R_EIP (advance_ip k s)] (view (emu_mem s)))"

lemma seen_step: "mem_step f g \<Longrightarrow> fbyte g = fbyte f \<Longrightarrow> seen X86EMU_PERM_X as g = seen X86EMU_PERM_X as f"
  unfolding mem_step_def using same_bits_perm(3) [of f g] by (intro seen_cong) auto

lemma ucast_sum: "ucast (a + b :: u32) = (ucast a + ucast b :: u16)"
proof -
  have "take_bit 16 (take_bit 32 x + take_bit 32 y) = take_bit 16 (x + y)" for x y :: int
    using take_bit_add [of 16 "take_bit 32 x" "take_bit 32 y"] take_bit_add [of 16 x y] by simp
  then show ?thesis by transfer simp
qed

lemma with_x_reg_self: "with_x_reg (x_reg e) e = e"
  by (rule bit_word_eqI, simp only: with_x_reg_def x_reg_def reg_bits) auto

lemma advance_0: "R_EIP (advance_ip 0 s) = R_EIP s"
  by (simp add: advance_ip_def with_x_reg_self)

lemma with_x_reg_twice: "with_x_reg a (with_x_reg b e) = with_x_reg a e"
  by (rule bit_word_eqI, simp only: with_x_reg_def reg_bits) (auto dest: bit_imp_le_length)

lemma advance_advance: "R_EIP (advance_ip k (advance_ip n s)) = R_EIP (advance_ip (n + k) s)"
  by (simp add: advance_ip_def MODE_CODE32_def with_x_reg_twice ucast_sum algebra_simps)

lemma advance_cong: "MODE_CODE32 x = MODE_CODE32 y \<Longrightarrow> R_EIP x = R_EIP y \<Longrightarrow> R_EIP (advance_ip k x) = R_EIP (advance_ip k y)"
  by (simp add: advance_ip_def)

text \<open>What a fetch sees, and what the next one will see.\<close>

lemma fetch_byte_sees:
  assumes ok: "mem_ok (emu_mem s)" and f: "fetch_byte dev s = (v, t)"
  shows "v = code_byte s 0" "mem_ok (emu_mem t)" "code_byte t k = code_byte s (1 + k)" "R_EIP t = R_EIP (advance_ip 1 s)"
    "MODE_CODE32 t = MODE_CODE32 s"
proof -
  obtain err val u where m: "vm_memio dev (sel_base (seg s R_CS_INDEX) + R_EIP s) 0 (X86EMU_MEMIO_X OR X86EMU_MEMIO_8) s = (err, val, u)"
    by (metis prod_cases3)
  have m': "decode_memio dev (sel_base (seg s R_CS_INDEX) + R_EIP s) 0 (X86EMU_MEMIO_8 OR X86EMU_MEMIO_X) s = (err, val, u)"
    using m by (simp add: decode_memio_def or.commute)
  note e = memio_X [OF ok _ m, simplified]
  have code: "MODE_CODE32 (x86emu_stop x) = MODE_CODE32 x" for x :: x86emu
    by (simp add: MODE_CODE32_def x86emu_stop_def MODE_CODE32_bit_def MODE_HALTED_bit_def bit.conj_disj_distrib2)
  define w where "w = (if err then x86emu_stop u else u)"
  have frame: "mode u = mode s" "seg u = seg s" "R_EIP u = R_EIP s"
    using memio_sel [of dev "sel_base (seg s R_CS_INDEX) + R_EIP s" 0 "X86EMU_MEMIO_X OR X86EMU_MEMIO_8" s] by (simp_all add: m)
  have "MODE_CODE32 u = MODE_CODE32 s" by (simp add: MODE_CODE32_def frame)
  then have w: "emu_mem w = emu_mem u" "seg w = seg s" "R_EIP w = R_EIP s" "MODE_CODE32 w = MODE_CODE32 s"
    by (simp_all add: w_def code) (simp_all add: x86emu_stop_def frame)
  have v: "v = ucast val" and t: "t = (let z = advance_ip 1 w in if length (instr_buf z) < 32 then z\<lparr>instr_buf := instr_buf z @ [ucast val]\<rparr> else z)"
    using f by (simp_all add: fetch_byte_def m' Let_def w_def)
  have tt: "emu_mem t = emu_mem u" "seg t = seg s" "R_EIP t = R_EIP (advance_ip 1 w)" "MODE_CODE32 t = MODE_CODE32 s"
    using w(4) by (simp_all add: t Let_def advance_ip_def w(1-3) MODE_CODE32_def)
  show "mem_ok (emu_mem t)" using e by (simp add: tt)
  show "R_EIP t = R_EIP (advance_ip 1 s)" "MODE_CODE32 t = MODE_CODE32 s" by (simp_all add: tt w advance_ip_def)
  show "v = code_byte s 0" using e by (simp add: v code_byte_def advance_0 width_def)
  have "X86EMU_MEMIO_X OR X86EMU_MEMIO_8 \<noteq> X86EMU_MEMIO_W OR X86EMU_MEMIO_8_NOPERM" by code_simp
  then have "mem_step (view (emu_mem s)) (view (emu_mem u))"
    using access_confined [OF ok, of "X86EMU_MEMIO_X OR X86EMU_MEMIO_8" dev] m by (metis confined_def snd_conv)
  then have "seen X86EMU_PERM_X as (view (emu_mem u)) = seen X86EMU_PERM_X as (view (emu_mem s))" for as
    using e by (intro seen_step) simp_all
  moreover have "R_EIP (advance_ip k t) = R_EIP (advance_ip (1 + k) s)"
  proof -
    have "MODE_CODE32 t = MODE_CODE32 (advance_ip 1 s)" "R_EIP t = R_EIP (advance_ip 1 s)"
      using tt(3,4) w(3,4) by (simp_all add: advance_ip_def MODE_CODE32_def)
    from advance_cong [OF this] show ?thesis by (simp add: advance_advance)
  qed
  ultimately show "code_byte t k = code_byte s (1 + k)" by (simp only: code_byte_def tt)
qed

lemma code_byte_prefix [simp]:
  "code_byte (apply_prefix op s) k = code_byte s k" "emu_mem (apply_prefix op s) = emu_mem s"
  "R_EIP (advance_ip k (apply_prefix op s)) = R_EIP (advance_ip k s)"
proof -
  have bits: "MODE_DATA32_bit AND MODE_CODE32_bit = 0" "MODE_ADDR32_bit AND MODE_CODE32_bit = 0"
    "MODE_REPE_bit AND MODE_CODE32_bit = 0" "MODE_REPNE_bit AND MODE_CODE32_bit = 0" by code_simp+
  have mode: "MODE_CODE32 (apply_prefix op s) = MODE_CODE32 s"
    by (simp add: MODE_CODE32_def apply_prefix_def OP_DECODE_def bit.conj_disj_distrib2 bit.conj_xor_distrib2 bits)
  have "R_EIP (apply_prefix op s) = R_EIP s" and sg: "seg (apply_prefix op s) = seg s" and mem: "emu_mem (apply_prefix op s) = emu_mem s"
    by (simp_all add: apply_prefix_def OP_DECODE_def)
  then show eip: "R_EIP (advance_ip k (apply_prefix op s)) = R_EIP (advance_ip k s)" for k
    by (simp add: advance_ip_def mode)
  show "emu_mem (apply_prefix op s) = emu_mem s" by (rule mem)
  show "code_byte (apply_prefix op s) k = code_byte s k" by (simp add: code_byte_def eip sg mem)
qed

section \<open>Termination\<close>

text \<open>The characters a prefix writes to the disassembly buffer; the prefixes that write none are silent.\<close>

definition prefix_text :: "u8 \<Rightarrow> nat" where
  "prefix_text op = (if op = 0xf0 \<or> op = 0xf2 then 6 else if op = 0xf3 then 5 else 0)"

definition is_silent :: "u8 \<Rightarrow> bool" where
  "is_silent op \<longleftrightarrow> is_prefix op \<and> prefix_text op = 0"

definition text_before :: "x86emu \<Rightarrow> nat \<Rightarrow> nat" where
  "text_before s n = (\<Sum>k<n. prefix_text (code_byte s (of_nat k)))"

lemma prefix_len [simp]: "disasm_len (apply_prefix op s) = disasm_len s + prefix_text op"
  by (simp add: apply_prefix_def OP_DECODE_def prefix_text_def)

lemma text_before_prefix [simp]: "text_before (apply_prefix op s) n = text_before s n"
  by (simp add: text_before_def)

lemma text_before_Suc:
  "(\<And>k. code_byte t k = code_byte s (1 + k)) \<Longrightarrow> text_before s (Suc n) = prefix_text (code_byte s 0) + text_before t n"
  unfolding text_before_def by (simp only: sum.lessThan_Suc_shift) simp

lemma fetch_opcode_step:
  assumes ok: "mem_ok (emu_mem s)" and f: "fetch_byte dev s = (v, t)"
  shows "fetch_opcode dev s =
    (if is_prefix (code_byte s 0) then
       if disasm_len s + prefix_text (code_byte s 0) > DISASM_BUF then Some None else fetch_opcode dev (apply_prefix v t)
     else Some (Some (v, t)))"
  using fetch_byte_sees(1) [OF ok f] fetch_len [of dev s] by (subst fetch_opcode.simps) (simp add: f Let_def)

lemma ends_at_opcode:
  "mem_ok (emu_mem s) \<Longrightarrow> disasm_len s \<le> DISASM_BUF \<Longrightarrow>
   \<not> is_prefix (code_byte s (of_nat n)) \<or> DISASM_BUF < disasm_len s + text_before s n \<Longrightarrow> fetch_opcode dev s \<noteq> None"
proof (induction n arbitrary: s)
  case (Suc n)
  obtain v t where f: "fetch_byte dev s = (v, t)" by (metis surj_pair)
  note e = fetch_byte_sees [OF Suc.prems(1) f]
  show ?case
  proof (cases "is_prefix (code_byte s 0) \<and> disasm_len s + prefix_text (code_byte s 0) \<le> DISASM_BUF")
    case True
    have len: "disasm_len t = disasm_len s" using fetch_len [of dev s] by (simp add: f)
    have "\<not> is_prefix (code_byte (apply_prefix v t) (of_nat n)) \<or>
        DISASM_BUF < disasm_len (apply_prefix v t) + text_before (apply_prefix v t) n"
      using Suc.prems(3) e(1,3) text_before_Suc [of t s n] by (simp add: len add.assoc)
    then have "fetch_opcode dev (apply_prefix v t) \<noteq> None"
      using e(1,2) True len by (intro Suc.IH) simp_all
    then show ?thesis using True by (simp add: fetch_opcode_step [OF Suc.prems(1) f])
  qed (auto simp: fetch_opcode_step [OF Suc.prems(1) f])
next
  case 0
  obtain v t where f: "fetch_byte dev s = (v, t)" by (metis surj_pair)
  show ?case using 0 by (simp add: fetch_opcode_step [OF 0(1) f] text_before_def)
qed

text \<open>The code segment is read round and round, so a prefix with text fills the buffer in the end.\<close>

lemma text_grows:
  assumes "prefix_text (code_byte s k) \<noteq> 0"
  shows "\<exists>n. m \<le> text_before s n"
proof (induction m)
  case (Suc m)
  then obtain n where n: "m \<le> text_before s n" by blast
  define j where "j = unat k + 2 ^ 32 * n"
  have "of_nat j = of_nat (unat k) + of_nat (2 ^ 32) * (of_nat n :: u32)" by (simp only: j_def of_nat_add of_nat_mult)
  also have "of_nat (2 ^ 32) = (0 :: u32)" by simp
  finally have "of_nat j = k" by simp
  moreover have "n \<le> j" by (simp add: j_def)
  then have "text_before s n \<le> text_before s j" unfolding text_before_def by (intro sum_mono2) auto
  ultimately have "Suc m \<le> text_before s (Suc j)"
    using n assms by (simp add: text_before_def)
  then show ?case by blast
qed simp

definition ends_after :: "x86emu \<Rightarrow> u8 \<times> x86emu \<Rightarrow> nat \<Rightarrow> bool" where
  "ends_after s r n \<longleftrightarrow> fst r = code_byte s (of_nat n) \<and> \<not> is_prefix (fst r) \<and>
     (\<forall>k\<in>set [0..<n]. is_prefix (code_byte s (of_nat k))) \<and> R_EIP (snd r) = R_EIP (advance_ip (of_nat n + 1) s) \<and>
     disasm_len (snd r) = disasm_len s + text_before s n"

definition runs_over :: "x86emu \<Rightarrow> nat \<Rightarrow> bool" where
  "runs_over s n \<longleftrightarrow> (\<forall>k\<in>set [0..<n]. is_prefix (code_byte s (of_nat k))) \<and> DISASM_BUF < disasm_len s + text_before s n"

definition ends_as :: "x86emu \<Rightarrow> (u8 \<times> x86emu) option \<Rightarrow> bool" where
  "ends_as s r \<longleftrightarrow> (case r of None \<Rightarrow> \<exists>n. runs_over s n | Some q \<Rightarrow> disasm_len (snd q) \<le> DISASM_BUF \<and> (\<exists>n. ends_after s q n))"

lemma returns_first_opcode:
  assumes "fetch_opcode dev s = Some r" "mem_ok (emu_mem s)" "disasm_len s \<le> DISASM_BUF"
  shows "ends_as s r"
proof -
  have "mem_ok (emu_mem s) \<longrightarrow> disasm_len s \<le> DISASM_BUF \<longrightarrow> ends_as s r"
  proof (rule fetch_opcode.raw_induct [OF _ assms(1)])
    fix go dev s r
    assume IH: "\<And>dev s r. go dev s = Some r \<Longrightarrow> mem_ok (emu_mem s) \<longrightarrow> disasm_len s \<le> DISASM_BUF \<longrightarrow> ends_as s r"
      and r: "(let (op1, s) = fetch_byte dev s in if is_prefix op1 then let s = apply_prefix op1 s
        in if DISASM_BUF < disasm_len s then Some None else go dev s else Some (Some (op1, s))) = Some r"
    show "mem_ok (emu_mem s) \<longrightarrow> disasm_len s \<le> DISASM_BUF \<longrightarrow> ends_as s r"
    proof (intro impI)
      assume ok: "mem_ok (emu_mem s)" and room: "disasm_len s \<le> DISASM_BUF"
      obtain v t where f: "fetch_byte dev s = (v, t)" by (metis surj_pair)
      note e = fetch_byte_sees [OF ok f]
      have len: "disasm_len t = disasm_len s" using fetch_len [of dev s] by (simp add: f)
      consider (opcode) "\<not> is_prefix v" | (over) "is_prefix v" "DISASM_BUF < disasm_len s + prefix_text v"
        | (more) "is_prefix v" "disasm_len s + prefix_text v \<le> DISASM_BUF" by linarith
      then show "ends_as s r"
      proof cases
        case opcode
        then have "r = Some (v, t)" using r by (simp add: f)
        then show ?thesis using opcode e(1,4) len room by (auto simp: ends_as_def ends_after_def text_before_def intro!: exI [of _ 0])
      next
        case over
        then have "r = None" using r by (simp add: f len)
        then show ?thesis using over e(1) by (auto simp: ends_as_def runs_over_def text_before_def intro!: exI [of _ 1])
      next
        case more
        let ?u = "apply_prefix v t"
        have "go dev ?u = Some r" using more r by (simp add: f len)
        then have u: "ends_as ?u r" using IH e(2) more(2) len by simp
        have eip: "R_EIP (advance_ip k t) = R_EIP (advance_ip (1 + k) s)" for k
          using advance_cong [of t "advance_ip 1 s" k] e(4,5) by (simp add: advance_advance) (simp add: advance_ip_def MODE_CODE32_def)
        have pre: "(\<forall>k\<in>set [0..<Suc n]. is_prefix (code_byte s (of_nat k))) \<longleftrightarrow> (\<forall>k\<in>set [0..<n]. is_prefix (code_byte t (of_nat k)))" for n
        proof -
          have "set [0..<Suc n] = insert 0 (Suc ` set [0..<n])" by (simp only: set_upt atLeast0_lessThan_Suc_eq_insert_0)
          then show ?thesis using more(1) e(1) by (simp only: Set.ball_simps) (simp add: e(3))
        qed
        have written: "text_before s (Suc n) = prefix_text v + text_before t n" for n
          using text_before_Suc [of t s n] e(1,3) by simp
        have "runs_over ?u n \<Longrightarrow> runs_over s (Suc n)" for n unfolding runs_over_def pre written by (simp add: len)
        moreover have "ends_after ?u q n \<Longrightarrow> ends_after s q (Suc n)" for q n
          unfolding ends_after_def pre written by (elim conjE, simp add: len e(3) eip algebra_simps)
        ultimately show ?thesis using u unfolding ends_as_def by (cases r) (simp_all only: option.case, blast+)
      qed
    qed
  qed
  then show ?thesis using assms(2,3) by blast
qed

lemma prefixes_below:
  "code_byte s ` of_nat ` {..<n} \<subseteq> Collect is_prefix \<longleftrightarrow> (\<forall>k\<in>set [0..<n]. is_prefix (code_byte s (of_nat k)))"
  by (auto simp: image_subset_iff)

lemma silent_loop:
  assumes "mem_ok (emu_mem s)" "disasm_len s \<le> DISASM_BUF" "\<And>k. is_silent (code_byte s k)"
  shows "fetch_opcode dev s = None"
proof -
  have "text_before s n = 0" "is_prefix (code_byte s k)" for n k using assms(3) by (simp_all add: text_before_def is_silent_def)
  then show ?thesis
    using returns_first_opcode [of dev s] assms(1,2)
    by (cases "fetch_opcode dev s") (auto simp: ends_as_def ends_after_def runs_over_def split: option.splits)
qed

lemma loop_silent:
  assumes "mem_ok (emu_mem s)" "disasm_len s \<le> DISASM_BUF" "fetch_opcode dev s = None"
  shows "is_silent (code_byte s k)"
proof (rule ccontr)
  assume "\<not> is_silent (code_byte s k)"
  then consider "\<not> is_prefix (code_byte s (of_nat (unat k)))" | "prefix_text (code_byte s k) \<noteq> 0" by (auto simp: is_silent_def)
  then show False
  proof cases
    case 1
    then show ?thesis using ends_at_opcode [OF assms(1,2), of "unat k" dev] assms(3) by simp
  next
    case 2
    then obtain n where "Suc DISASM_BUF \<le> text_before s n" using text_grows by blast
    then show ?thesis using ends_at_opcode [OF assms(1,2), of n dev] assms(3) by simp
  qed
qed

text \<open>
  C23. How the loop over the prefixes ends. It runs forever exactly if all bytes of the code are prefixes that write no
  disassembly text. It returns the first byte that is not a prefix, with the instruction pointer behind it, if the text of the
  prefixes before it leaves room in the disassembly buffer; otherwise that text fills the buffer first.
\<close>
theorem prefix_loop_termination:
  assumes "mem_ok (emu_mem s)" "disasm_len s \<le> DISASM_BUF"
  shows "(fetch_opcode dev s = None) = ((\<lambda>k. is_silent (code_byte s k)) = (\<lambda>_. True)) \<and>
    (case fetch_opcode dev s of
      None \<Rightarrow> True
    | Some None \<Rightarrow> \<exists>n. code_byte s ` of_nat ` {..<n} \<subseteq> Collect is_prefix \<and> DISASM_BUF < disasm_len s + text_before s n
    | Some (Some (op, t)) \<Rightarrow> \<exists>n. op = code_byte s (of_nat n) \<and> \<not> is_prefix op \<and>
        code_byte s ` of_nat ` {..<n} \<subseteq> Collect is_prefix \<and> disasm_len s + text_before s n \<le> DISASM_BUF \<and>
        R_EIP t = R_EIP (advance_ip (of_nat n + 1) s))"
proof (cases "fetch_opcode dev s")
  case None
  then show ?thesis using loop_silent [OF assms None] by (simp add: fun_eq_iff)
next
  case (Some r)
  have "\<not> (\<forall>k. is_silent (code_byte s k))" using silent_loop [OF assms, of dev] Some by auto
  moreover have "ends_as s r" by (rule returns_first_opcode [OF Some assms])
  ultimately show ?thesis unfolding Some prefixes_below
    by (auto simp: ends_as_def ends_after_def runs_over_def fun_eq_iff split: option.splits prod.splits)
qed

lemma prefix_loop_termination_witness:
  "mem_ok (emu_mem store_al) \<and> (fetch_opcode (\<lambda>_ _. 0) store_al = None) = ((\<lambda>k. is_silent (code_byte store_al k)) = (\<lambda>_. True))"
  using store_al_ok prefix_loop_termination [of store_al "\<lambda>_ _. 0"] by (simp add: emu_ok_def shape_def)

text \<open>
  C24. The limits of \<open>x86emu_run\<close> are looked at between instructions only. When the code segment holds nothing but prefix bytes
  and the first test passes, the emulator never returns to its caller, whatever limits on instructions and time are given: it loops
  forever if no prefix writes disassembly text, and otherwise overruns the buffer of that text.
\<close>
theorem prefixes_defeat_the_limits:
  assumes "mem_ok (emu_mem s)" "(\<lambda>k. is_prefix (code_byte (begin_instruction s) k)) = (\<lambda>_. True)" "host_code_check h = None"
    and "R_TSC s < max_instr s" "host_elapsed h (R_TSC s) \<le> host_timeout h"
  shows "x86emu_run h flags s =
    (if (\<lambda>k. is_silent (code_byte (begin_instruction s) k)) = (\<lambda>_. True) then None else Some Text_overrun)"
proof -
  define s0 where "s0 = s\<lparr>iopl_ok := \<not> (iopl_needed s \<and> host_iopl h \<noteq> 3)\<rparr>"
  define b where "b = begin_instruction s0"
  have parts: "emu_mem b = emu_mem (begin_instruction s)" "seg b = seg (begin_instruction s)" "mode b = mode (begin_instruction s)"
    "R_EIP b = R_EIP (begin_instruction s)" by (simp_all add: b_def s0_def begin_instruction_def Let_def)
  then have code: "code_byte b k = code_byte (begin_instruction s) k" for k
    by (simp add: code_byte_def advance_ip_def MODE_CODE32_def)
  then have prefixes: "is_prefix (code_byte b k)" for k using fun_cong [OF assms(2)] by simp
  have ok: "mem_ok (emu_mem b)" using assms(1) parts(1) by (simp add: begin_instruction_def Let_def)
  have len: "disasm_len b \<le> DISASM_BUF" by (simp add: b_def begin_instruction_def Let_def)
  have "fetch_opcode (host_dev h) b = (if \<forall>k. is_silent (code_byte b k) then None else Some None)"
  proof (cases "fetch_opcode (host_dev h) b")
    case None
    then show ?thesis using loop_silent [OF ok len None] by simp
  next
    case (Some r)
    then have "ends_as b r" using ok len by (rule returns_first_opcode)
    then have "r = None" using prefixes by (auto simp: ends_as_def ends_after_def split: option.splits)
    then show ?thesis using silent_loop [OF ok len, of "host_dev h"] Some by auto
  qed
  moreover have "R_TSC b = R_TSC s" "max_instr b = max_instr s"
    by (simp_all add: b_def s0_def begin_instruction_def Let_def R_TSC_def)
  ultimately have "x86emu_round h flags s0 = (if \<forall>k. is_silent (code_byte b k) then None else Some Text_overrun)"
    using assms(3-5) by (auto simp: x86emu_round_def b_def [symmetric] Let_def not_le)
  then have "run_loop h flags s0 = (if \<forall>k. is_silent (code_byte b k) then None else Some Text_overrun)"
    by (subst run_loop.simps) simp
  then show ?thesis unfolding x86emu_run_def s0_def [symmetric] Let_def by (simp add: code fun_eq_iff)
qed

definition all_prefixes :: "u8 \<Rightarrow> x86emu" where
  "all_prefixes op = (program_machine [])\<lparr>max_instr := 1000,
     emu_mem := (emu_mem_new 0x0f (\<lambda>_. 0))\<lparr>pdir := Some (\<lambda>_. Some (\<lambda>_.
       \<lparr>attr = Some (\<lambda>_. 0x0f), own = (\<lambda>_. op), page_data = Own_data, page_def_attr = 0x0f\<rparr>))\<rparr>\<rparr>"

lemma ucast_back: "(ucast (ucast b :: u32) :: u8) = b" for b :: u8
  by (rule bit_word_eqI) (simp add: bit_simps)

lemma all_prefixes_code: "mem_ok (emu_mem (all_prefixes op))" "code_byte (begin_instruction (all_prefixes op)) k = op"
proof -
  have p: "page_of (emu_mem (all_prefixes op)) a = \<lparr>attr = Some (\<lambda>_. 0x0f), own = (\<lambda>_. op), page_data = Own_data, page_def_attr = 0x0f\<rparr>" for a
    by (simp add: all_prefixes_def page_of_def)
  then show "mem_ok (emu_mem (all_prefixes op))" by (simp add: mem_ok_def)
  have "emu_mem (begin_instruction (all_prefixes op)) = emu_mem (all_prefixes op)" by (simp add: begin_instruction_def Let_def)
  then show "code_byte (begin_instruction (all_prefixes op)) k = op"
    by (simp add: code_byte_def view_def p get_attr_def X86EMU_PERM_X_def ucast_back)
qed

lemma prefixes_defeat_the_limits_witness:
  "x86emu_run quiet_host (X86EMU_RUN_MAX_INSTR OR X86EMU_RUN_TIMEOUT) (all_prefixes 0x66) = None \<and>
   x86emu_run quiet_host (X86EMU_RUN_MAX_INSTR OR X86EMU_RUN_TIMEOUT) (all_prefixes 0xf0) = Some Text_overrun"
proof -
  have p: "(\<lambda>k. is_prefix (code_byte (begin_instruction (all_prefixes op)) k)) = (\<lambda>_. True)" if "op \<in> {0x66, 0xf0}" for op
    using that by (auto simp: all_prefixes_code is_prefix_def)
  have run: "x86emu_run quiet_host flags (all_prefixes op) = (if is_silent op then None else Some Text_overrun)" if "op \<in> {0x66, 0xf0}" for op flags
    using prefixes_defeat_the_limits [OF all_prefixes_code(1) p [OF that], of quiet_host flags]
    by (simp add: all_prefixes_code(2) fun_eq_iff) (simp add: all_prefixes_def program_machine_def R_TSC_def quiet_host_def)
  have "is_silent 0x66" "\<not> is_silent 0xf0" by code_simp+
  then show ?thesis using run by simp
qed

end
