(* ===== verification/X86emu_Stack.thy ===== *)
theory X86emu_Stack
  imports X86emu_Prefix
begin

text \<open>
  The stack of the emulated processor as a list of words: pushes and pops of \<open>prim_ops.c\<close> implement the list, whatever the width of the stack
  pointer, as long as the memory below and above it may be read and written and no two bytes of it are the same. It
  gives the round trips of \<open>PUSHA\<close> and \<open>POPA\<close> and of a software interrupt and \<open>IRET\<close>.
\<close>

section \<open>Values in memory\<close>

definition mem_value :: "nat \<Rightarrow> x86emu \<Rightarrow> u32 \<Rightarrow> u32" where
  "mem_value n s a = seen X86EMU_PERM_R (addrs n a) (view (emu_mem s))"

definition accessible :: "x86emu \<Rightarrow> u32 \<Rightarrow> bool" where
  "accessible s b \<longleftrightarrow> fattr (view (emu_mem s)) b AND X86EMU_PERM_R \<noteq> 0 \<and> fattr (view (emu_mem s)) b AND X86EMU_PERM_W \<noteq> 0"

lemma seen_local:
  "(\<And>b. b \<in> set as \<Longrightarrow> fbyte g (floc g b) = fbyte f (floc f b) \<and> (fattr g b AND perm \<noteq> 0 \<longleftrightarrow> fattr f b AND perm \<noteq> 0)) \<Longrightarrow>
   seen perm as g = seen perm as f"
  by (induction as) simp_all

context memory_access
begin

lemma written:
  assumes ok: "mem_ok mem" and rw: "\<And>b. b \<in> set (addrs n a) \<Longrightarrow> fattr (view mem) b AND X86EMU_PERM_R \<noteq> 0 \<and> fattr (view mem) b AND X86EMU_PERM_W \<noteq> 0"
    and d: "distinct (map (floc (view mem)) (addrs n a))"
  shows "seen X86EMU_PERM_R (addrs n a) (view (wr mem a v)) = join (map (\<lambda>k. ucast (drop_bit (8 * k) v)) [0..<n])"
proof -
  have w: "view (wr mem a v) = flat_write n a v (view mem)" using writes ok by (simp add: writes_as_def)
  note e = write_effect [OF ok, where a = a and v = v]
  have "\<forall>b\<in>set (addrs n a). fattr (view (wr mem a v)) b AND X86EMU_PERM_R \<noteq> 0" using rw same_bits_perm(1) [OF e(3)] by blast
  then have "seen X86EMU_PERM_R (addrs n a) (view (wr mem a v)) = join (map (\<lambda>b. fbyte (view (wr mem a v)) (floc (view mem) b)) (addrs n a))"
    by (simp add: seen_readable e(4))
  also have "\<dots> = join (map (\<lambda>k. ucast (drop_bit (8 * k) v)) [0..<n])"
    using flat_write_bytes [OF _ d, of v] rw by (simp add: w)
  finally show ?thesis .
qed

lemma kept_elsewhere:
  assumes ok: "mem_ok mem" and d: "floc (view mem) ` set as \<inter> floc (view mem) ` set (addrs n a) = {}"
  shows "seen X86EMU_PERM_R as (view (wr mem a v)) = seen X86EMU_PERM_R as (view mem)"
proof -
  note e = write_effect [OF ok, where a = a and v = v]
  have "fbyte (view (wr mem a v)) (floc (view mem) b) = fbyte (view mem) (floc (view mem) b)" if "b \<in> set as" for b
    using e(1) [of "floc (view mem) b"] d that by blast
  then show ?thesis by (intro seen_local) (simp add: e(4), use same_bits_perm(1) [OF e(3)] in blast)
qed

end

section \<open>The stack as a list\<close>

text \<open>The address of the byte at distance \<open>k\<close> from the stack pointer.\<close>

definition sp_addr :: "x86emu \<Rightarrow> int \<Rightarrow> u32" where
  "sp_addr s k = sel_base (seg s R_SS_INDEX) + (if MODE_STACK32 s then R_ESP s + of_int k else ucast (x_reg (R_ESP s) + of_int k))"

text \<open>The bytes of \<open>m\<close> words on the stack and of \<open>n\<close> words of free room below them.\<close>

definition stack_area :: "nat \<Rightarrow> nat \<Rightarrow> x86emu \<Rightarrow> u32 list" where
  "stack_area m n s = concat (map (\<lambda>j. addrs 2 (sp_addr s (2 * j))) [- int n..int m - 1])"

definition stack_ok :: "nat \<Rightarrow> nat \<Rightarrow> x86emu \<Rightarrow> bool" where
  "stack_ok m n s \<longleftrightarrow> mem_ok (emu_mem s) \<and> (\<forall>b\<in>set (stack_area m n s). accessible s b) \<and>
     distinct (map (floc (view (emu_mem s))) (stack_area m n s))"

definition stack_list :: "nat \<Rightarrow> x86emu \<Rightarrow> u16 list" where
  "stack_list m s = map (\<lambda>j. ucast (mem_value 2 s (sp_addr s (2 * int j)))) [0..<m]"

text \<open>Steps that touch neither the memory nor the stack pointer.\<close>

definition same_stack :: "x86emu \<Rightarrow> x86emu \<Rightarrow> bool" where
  "same_stack s t \<longleftrightarrow> mem_ok (emu_mem t) \<and> mem_step (view (emu_mem s)) (view (emu_mem t)) \<and>
     fbyte (view (emu_mem t)) = fbyte (view (emu_mem s)) \<and> R_ESP t = R_ESP s \<and> MODE_STACK32 t = MODE_STACK32 s \<and>
     sel_base (seg t R_SS_INDEX) = sel_base (seg s R_SS_INDEX)"

lemma same_stack_trans: "same_stack s t \<Longrightarrow> same_stack t u \<Longrightarrow> same_stack s u"
  unfolding same_stack_def using mem_step_trans by metis

lemma stack_cong:
  assumes "same_stack s t"
  shows "stack_ok m n s \<Longrightarrow> stack_ok m n t" "stack_list m t = stack_list m s"
proof -
  have sp: "sp_addr t k = sp_addr s k" for k using assms by (simp add: same_stack_def sp_addr_def)
  have bits: "same_bits (view (emu_mem s)) (view (emu_mem t))" and loc: "floc (view (emu_mem t)) = floc (view (emu_mem s))"
    using assms by (simp_all add: same_stack_def mem_step_def)
  have area: "stack_area m n t = stack_area m n s" by (simp add: stack_area_def sp)
  have acc: "accessible t b \<longleftrightarrow> accessible s b" for b unfolding accessible_def using same_bits_perm(1,2) [OF bits] by blast
  show "stack_ok m n s \<Longrightarrow> stack_ok m n t" using assms by (simp add: stack_ok_def area acc loc same_stack_def)
  have "seen X86EMU_PERM_R as (view (emu_mem t)) = seen X86EMU_PERM_R as (view (emu_mem s))" for as
    using assms same_bits_perm(1) [OF bits] by (intro seen_local) (simp add: same_stack_def loc)
  then show "stack_list m t = stack_list m s" by (simp add: stack_list_def mem_value_def sp)
qed

section \<open>Pushing and popping words\<close>

lemma word_join: "ucast (join (map (\<lambda>k. ucast (drop_bit (8 * k) (ucast w :: u32))) [0..<2])) = (w :: u16)"
proof -
  have "x AND 0xFFFF = take_bit 16 x" for x :: u32 by (simp add: take_bit_eq_mask mask_numeral)
  then show ?thesis unfolding bytes_of_word(2) by (auto intro!: bit_word_eqI simp: bit_ucast_iff bit_take_bit_iff dest: bit_imp_le_length)
qed

lemma store_word_memory:
  "emu_mem (store_data_word_abs dev i ofs w s) = vm_w_word ((emu_mem s)\<lparr>invalid := False\<rparr>) (sel_base (seg s i) + ofs) (ucast w)"
  by (simp add: store_data_word_abs_def decode_memio_def vm_memio_def memio_consts mem_write_def Let_def check_data_access_def
      INTR_RAISE_GP_def x86emu_intr_raise_def)

lemma fetch_word_memory:
  "fst (fetch_data_word_abs dev i ofs s) = ucast (fst (vm_r_word ((emu_mem s)\<lparr>invalid := False\<rparr>) (sel_base (seg s i) + ofs)))"
  "emu_mem (snd (fetch_data_word_abs dev i ofs s)) = snd (vm_r_word ((emu_mem s)\<lparr>invalid := False\<rparr>) (sel_base (seg s i) + ofs))"
  by (simp_all add: fetch_data_word_abs_def decode_memio_def vm_memio_def memio_consts mem_read_def Let_def check_data_access_def
      INTR_RAISE_GP_def x86emu_intr_raise_def split_beta)

text \<open>A read changes neither the stack nor what it holds.\<close>

lemma fetch_same_stack:
  assumes "mem_ok (emu_mem s)"
  shows "same_stack s (snd (fetch_data_word_abs dev i ofs s))" "fst (fetch_data_word_abs dev i ofs s) = ucast (mem_value 2 s (sel_base (seg s i) + ofs))"
proof -
  let ?mem = "(emu_mem s)\<lparr>invalid := False\<rparr>" and ?a = "sel_base (seg s i) + ofs"
  obtain v m where r: "vm_r_word ?mem ?a = (v, m)" by (metis surj_pair)
  have "mem_ok ?mem" using assms by simp
  note e = word_access.read_effect [OF this r]
  show "same_stack s (snd (fetch_data_word_abs dev i ofs s))"
    using e(2,4,5,6) by (simp add: same_stack_def mem_step_def fetch_word_memory r MODE_STACK32_def)
  show "fst (fetch_data_word_abs dev i ofs s) = ucast (mem_value 2 s ?a)"
    using e(1) by (simp add: fetch_word_memory r mem_value_def)
qed

lemma stack_area_Suc: "stack_area m (Suc n) s = addrs 2 (sp_addr s (2 * (- int n - 1))) @ stack_area m n s"
proof -
  have "[- int (Suc n)..int m - 1] = (- int n - 1) # [- int n..int m - 1]" by (subst upto_rec1) simp_all
  then show ?thesis by (simp add: stack_area_def del: of_nat_Suc)
qed

text \<open>Moving the stack pointer renumbers the words.\<close>

lemma shifted:
  assumes "\<And>k. sp_addr t k = sp_addr s (k + 2 * d)"
  shows "stack_area m n t = concat (map (\<lambda>j. addrs 2 (sp_addr s (2 * j))) [d - int n..d + int m - 1])"
proof -
  have "[d - int n..d + int m - 1] = map (\<lambda>j. j + d) [- int n..int m - 1]"
    by (rule nth_equalityI) (simp_all add: algebra_simps)
  then show ?thesis by (simp add: stack_area_def assms comp_def algebra_simps)
qed

lemma sp_addr_push:
  "sp_addr (if MODE_STACK32 s then s\<lparr>R_ESP := R_ESP s - 2\<rparr> else set_SP (x_reg (R_ESP s) - 2) s) k = sp_addr s (k - 2)"
  by (simp add: sp_addr_def set_SP_def MODE_STACK32_def add_diff_eq diff_add_eq)

lemma calm_eq:
  assumes "calm t = calm s"
  shows "R_ESP t = R_ESP s" "seg t = seg s" "mode t = mode s" "R_EIP t = R_EIP s" "R_FLG t = R_FLG s" "crx t = crx s"
  using arg_cong [OF assms, of R_ESP] arg_cong [OF assms, of seg] arg_cong [OF assms, of mode] arg_cong [OF assms, of R_EIP]
    arg_cong [OF assms, of R_FLG] arg_cong [OF assms, of crx] by (simp_all only: calm_sel)

lemma sp_addr_calm: "calm t = calm s \<Longrightarrow> sp_addr t k = sp_addr s k"
  using calm_eq [of t s] by (simp add: sp_addr_def MODE_STACK32_def)

lemma push_word_effect:
  fixes s :: x86emu
  shows "sp_addr (push_word dev w s) k = sp_addr s (k - 2)"
    "emu_mem (push_word dev w s) = vm_w_word ((emu_mem s)\<lparr>invalid := False\<rparr>) (sp_addr s (- 2)) (ucast w)"
proof -
  let ?u = "if MODE_STACK32 s then s\<lparr>R_ESP := R_ESP s - 2\<rparr> else set_SP (x_reg (R_ESP s) - 2) s"
  have p: "push_word dev w s = store_data_word_abs dev R_SS_INDEX (if MODE_STACK32 s then R_ESP ?u else ucast (x_reg (R_ESP ?u))) w ?u"
    by (simp add: push_word_def Let_def)
  have "calm (push_word dev w s) = calm ?u" by (simp add: p)
  then show "sp_addr (push_word dev w s) k = sp_addr s (k - 2)" using sp_addr_calm sp_addr_push by metis
  have "sel_base (seg ?u R_SS_INDEX) + (if MODE_STACK32 s then R_ESP ?u else ucast (x_reg (R_ESP ?u))) = sp_addr s (- 2)"
    by (simp add: sp_addr_def set_SP_def)
  moreover have "emu_mem ?u = emu_mem s" by (simp add: set_SP_def)
  ultimately show "emu_mem (push_word dev w s) = vm_w_word ((emu_mem s)\<lparr>invalid := False\<rparr>) (sp_addr s (- 2)) (ucast w)"
    by (simp only: p store_word_memory)
qed

lemma distinct_parts:
  assumes "distinct (map f (concat (map F js)))" "j \<in> set js"
  shows "distinct (map f (F j))" "k \<in> set js \<Longrightarrow> k \<noteq> j \<Longrightarrow> f ` set (F k) \<inter> f ` set (F j) = {}"
  using assms by (induction js) auto

text \<open>The room of a push is the lowest free word; the write leaves the rest of the area alone.\<close>

lemma push_word_stack:
  assumes ok: "stack_ok m (Suc n) s"
  shows "stack_ok (Suc m) n (push_word dev w s)" "stack_list (Suc m) (push_word dev w s) = w # stack_list m s"
proof -
  define t where "t = push_word dev w s"
  let ?mem = "(emu_mem s)\<lparr>invalid := False\<rparr>" and ?a = "sp_addr s (- 2)"
  have mok: "mem_ok ?mem" using ok by (simp add: stack_ok_def)
  have sp: "sp_addr t k = sp_addr s (k + 2 * (- 1))" for k by (simp add: t_def push_word_effect)
  have m: "emu_mem t = vm_w_word ?mem ?a (ucast w)" by (simp add: t_def push_word_effect)
  have area: "stack_area (Suc m) n t = stack_area m (Suc n) s"
    using shifted [OF sp, of "Suc m" n] by (simp add: stack_area_def algebra_simps)
  note e = word_access.write_effect [OF mok, where a = ?a and v = "ucast w"]
  have bits: "same_bits (view (emu_mem s)) (view (emu_mem t))" and loc: "floc (view (emu_mem t)) = floc (view (emu_mem s))"
    using e(3,4) by (simp_all add: m)
  have acc: "accessible t b \<longleftrightarrow> accessible s b" for b unfolding accessible_def using same_bits_perm(1,2) [OF bits] by blast
  have "mem_ok (emu_mem t)" using e(5) by (simp add: m)
  then show "stack_ok (Suc m) n (push_word dev w s)" using ok by (simp add: stack_ok_def area acc loc flip: t_def)
  have in_area: "set (addrs 2 (sp_addr s (2 * j))) \<subseteq> set (stack_area m (Suc n) s)" if "- int (Suc n) \<le> j" "j < int m" for j
    using that by (auto simp: stack_area_def)
  note parts = distinct_parts [OF conjunct2 [OF conjunct2 [OF ok [unfolded stack_ok_def stack_area_def]]]]
  have rw: "accessible s b" if "b \<in> set (addrs 2 ?a)" for b
    using ok in_area [of "- 1"] that by (auto simp: stack_ok_def)
  have "seen X86EMU_PERM_R (addrs 2 ?a) (view (emu_mem t)) = join (map (\<lambda>k. ucast (drop_bit (8 * k) (ucast w :: u32))) [0..<2])"
    unfolding m using rw parts(1) [of "- 1"] by (intro word_access.written [OF mok]) (simp_all add: accessible_def)
  then have top: "ucast (mem_value 2 t (sp_addr t 0)) = w" by (simp add: mem_value_def sp word_join)
  have "mem_value 2 t (sp_addr t (2 * int (Suc j))) = mem_value 2 s (sp_addr s (2 * int j))" if "j < m" for j
    using parts(2) [of "- 1" "int j"] that
    by (simp add: mem_value_def sp m, subst word_access.kept_elsewhere [OF mok]) auto
  then have "stack_list (Suc m) t = w # stack_list m s"
    by (simp add: stack_list_def upt_conv_Cons map_Suc_upt [symmetric] top del: upt_Suc of_nat_Suc)
  then show "stack_list (Suc m) (push_word dev w s) = w # stack_list m s" by (simp add: t_def)
qed

lemma drop_word_stack:
  assumes ok: "stack_ok (Suc m) n u" and sp: "\<And>k. sp_addr t k = sp_addr u (k + 2)" and mem: "emu_mem t = emu_mem u"
  shows "stack_ok m (Suc n) t" "stack_list m t = tl (stack_list (Suc m) u)"
proof -
  have "stack_area m (Suc n) t = stack_area (Suc m) n u"
    using shifted [of t u 1 m "Suc n"] sp by (simp add: stack_area_def algebra_simps)
  then show "stack_ok m (Suc n) t" using ok by (simp add: stack_ok_def accessible_def mem)
  show "stack_list m t = tl (stack_list (Suc m) u)"
    by (simp add: stack_list_def upt_conv_Cons map_Suc_upt [symmetric] mem_value_def sp mem algebra_simps del: upt_Suc)
qed

lemma sp_addr_pop:
  "sp_addr (if MODE_STACK32 s then s\<lparr>R_ESP := R_ESP s + 2\<rparr> else set_SP (x_reg (R_ESP s) + 2) s) k = sp_addr s (k + 2)"
  by (simp add: sp_addr_def set_SP_def MODE_STACK32_def algebra_simps)

lemma pop_word_stack:
  assumes ok: "stack_ok (Suc m) n s"
  shows "stack_ok m (Suc n) (snd (pop_word dev s))" "stack_list (Suc m) s = fst (pop_word dev s) # stack_list m (snd (pop_word dev s))"
proof -
  let ?ofs = "if MODE_STACK32 s then R_ESP s else ucast (x_reg (R_ESP s))"
  define u where "u = snd (fetch_data_word_abs dev R_SS_INDEX ?ofs s)"
  have mode: "MODE_STACK32 u = MODE_STACK32 s" by (simp add: u_def MODE_STACK32_def)
  have p: "pop_word dev s = (fst (fetch_data_word_abs dev R_SS_INDEX ?ofs s),
      if MODE_STACK32 u then u\<lparr>R_ESP := R_ESP u + 2\<rparr> else set_SP (x_reg (R_ESP u) + 2) u)"
    by (simp add: pop_word_def u_def mode [unfolded u_def] split_beta)
  have mok: "mem_ok (emu_mem s)" using ok by (simp add: stack_ok_def)
  note f = fetch_same_stack [OF mok, of dev R_SS_INDEX ?ofs]
  have "sp_addr s 0 = sel_base (seg s R_SS_INDEX) + ?ofs" by (simp add: sp_addr_def)
  then have top: "fst (pop_word dev s) = ucast (mem_value 2 s (sp_addr s 0))" using f(2) by (simp add: p)
  note cong = stack_cong [OF f(1) [folded u_def]]
  have sp: "sp_addr (snd (pop_word dev s)) k = sp_addr u (k + 2)" for k unfolding p snd_conv by (rule sp_addr_pop)
  have mem: "emu_mem (snd (pop_word dev s)) = emu_mem u" by (simp add: p set_SP_def)
  note d = drop_word_stack [OF cong(1) [OF ok] sp mem]
  show "stack_ok m (Suc n) (snd (pop_word dev s))" by (rule d(1))
  show "stack_list (Suc m) s = fst (pop_word dev s) # stack_list m (snd (pop_word dev s))"
    unfolding d(2) cong(2) top by (simp add: stack_list_def upt_conv_Cons del: upt_Suc)
qed

section \<open>The processor around the stack\<close>

lemma push_word_frame [simp]:
  "mode (push_word dev w s) = mode s" "crx (push_word dev w s) = crx s" "seg (push_word dev w s) = seg s"
  "R_EIP (push_word dev w s) = R_EIP s" "R_FLG (push_word dev w s) = R_FLG s" "idt_base (push_word dev w s) = idt_base s"
  "R_EAX (push_word dev w s) = R_EAX s" "R_EBX (push_word dev w s) = R_EBX s" "R_ECX (push_word dev w s) = R_ECX s"
  "R_EDX (push_word dev w s) = R_EDX s" "R_EBP (push_word dev w s) = R_EBP s" "R_ESI (push_word dev w s) = R_ESI s"
  "R_EDI (push_word dev w s) = R_EDI s"
  by (simp_all add: push_word_def set_SP_def Let_def)

lemma pop_word_frame [simp]:
  "mode (snd (pop_word dev s)) = mode s" "crx (snd (pop_word dev s)) = crx s" "seg (snd (pop_word dev s)) = seg s"
  "R_EIP (snd (pop_word dev s)) = R_EIP s" "R_FLG (snd (pop_word dev s)) = R_FLG s"
  "R_EAX (snd (pop_word dev s)) = R_EAX s" "R_EBX (snd (pop_word dev s)) = R_EBX s" "R_ECX (snd (pop_word dev s)) = R_ECX s"
  "R_EDX (snd (pop_word dev s)) = R_EDX s" "R_EBP (snd (pop_word dev s)) = R_EBP s" "R_ESI (snd (pop_word dev s)) = R_ESI s"
  "R_EDI (snd (pop_word dev s)) = R_EDI s"
  by (simp_all add: pop_word_def set_SP_def split_beta Let_def)

definition sp_step :: "x86emu \<Rightarrow> int \<Rightarrow> u32 \<Rightarrow> u32" where
  "sp_step s k e = (if MODE_STACK32 s then e + of_int k else with_x_reg (x_reg e + of_int k) e)"

lemma sp_steps [simp]: "sp_step s k (sp_step s j e) = sp_step s (j + k) e" "sp_step s 0 e = e"
  by (simp_all add: sp_step_def with_x_reg_twice with_x_reg_self algebra_simps)

lemma sp_step_mode: "MODE_STACK32 t = MODE_STACK32 s \<Longrightarrow> sp_step t = sp_step s"
  by (simp add: fun_eq_iff sp_step_def)

lemma stack_pointer:
  "R_ESP (push_word dev w s) = sp_step s (- 2) (R_ESP s)" "R_ESP (snd (pop_word dev s)) = sp_step s 2 (R_ESP s)"
  by (simp_all add: push_word_def pop_word_def set_SP_def sp_step_def Let_def split_beta MODE_STACK32_def)

lemma same_stackI:
  "mem_ok (emu_mem s) \<Longrightarrow> emu_mem t = emu_mem s \<Longrightarrow> R_ESP t = R_ESP s \<Longrightarrow> mode t = mode s \<Longrightarrow> seg t R_SS_INDEX = seg s R_SS_INDEX \<Longrightarrow>
   same_stack s t"
  by (simp add: same_stack_def MODE_STACK32_def)

lemma set_CS_real:
  assumes "MODE_REAL s"
  shows "x86emu_set_seg_register dev i v s = s\<lparr>seg := (seg s)(i := (seg s i)\<lparr>sel_sel := v, sel_base := push_bit 4 (ucast v)\<rparr>)\<rparr>"
  using assms by (simp add: x86emu_set_seg_register_def set_sel_def)

lemma read_same_stack:
  assumes "mem_ok (emu_mem s)"
  shows "same_stack s (snd (snd (vm_memio dev a v (X86EMU_MEMIO_16 OR X86EMU_MEMIO_R) s)))"
    "fst (snd (vm_memio dev a v (X86EMU_MEMIO_16 OR X86EMU_MEMIO_R) s)) = mem_value 2 s a"
proof -
  obtain err val t where r: "vm_memio dev a v (X86EMU_MEMIO_R OR X86EMU_MEMIO_16) s = (err, val, t)" by (metis prod_cases3)
  note e = memio_R [OF assms _ r, simplified]
  have "X86EMU_MEMIO_R OR X86EMU_MEMIO_16 \<noteq> X86EMU_MEMIO_W OR X86EMU_MEMIO_8_NOPERM" by code_simp
  from access_confined [OF assms this, of dev a v] have c: "confined s t" by (simp add: r)
  have "R_ESP t = R_ESP s" "mode t = mode s" "seg t = seg s"
    using memio_sel [of dev a v "X86EMU_MEMIO_R OR X86EMU_MEMIO_16" s] by (simp_all add: r)
  then have "same_stack s t" using c e by (simp add: same_stack_def confined_def MODE_STACK32_def)
  then show "same_stack s (snd (snd (vm_memio dev a v (X86EMU_MEMIO_16 OR X86EMU_MEMIO_R) s)))"
    "fst (snd (vm_memio dev a v (X86EMU_MEMIO_16 OR X86EMU_MEMIO_R) s)) = mem_value 2 s a"
    using e unfolding or.commute [of X86EMU_MEMIO_16] r by (simp_all add: mem_value_def width_def memio_consts)
qed

text \<open>Three words pushed and three popped, as an interrupt and its return do it.\<close>

lemma push_three:
  assumes "stack_ok m (n + 3) s" "p = push_word dev x (push_word dev y (push_word dev z s))"
  shows "stack_ok (m + 3) n p" "stack_list (m + 3) p = x # y # z # stack_list m s" "R_ESP p = sp_step s (- 6) (R_ESP s)"
proof -
  have eq: "n + 3 = Suc (Suc (Suc n))" "m + 3 = Suc (Suc (Suc m))" by simp_all
  note one = push_word_stack [OF assms(1) [unfolded eq], of dev z]
  note two = push_word_stack [OF one(1), of dev y]
  note three = push_word_stack [OF two(1), of dev x]
  show "stack_ok (m + 3) n p" "stack_list (m + 3) p = x # y # z # stack_list m s"
    unfolding eq assms(2) using three two(2) one(2) by simp_all
  have mode: "sp_step (push_word dev w r) = sp_step r" for w r by (rule sp_step_mode) (simp add: MODE_STACK32_def)
  show "R_ESP p = sp_step s (- 6) (R_ESP s)" unfolding assms(2) stack_pointer mode by simp
qed

lemma pop_three:
  assumes "stack_ok (m + 3) n t" "stack_list (m + 3) t = x # y # z # xs"
    and p: "pop_word dev t = (v1, t1)" "pop_word dev t1 = (v2, t2)" "pop_word dev t2 = (v3, t3)"
  shows "v1 = x" "v2 = y" "v3 = z" "stack_ok m (n + 3) t3" "stack_list m t3 = xs" "R_ESP t3 = sp_step t 6 (R_ESP t)"
proof -
  have eq: "n + 3 = Suc (Suc (Suc n))" "m + 3 = Suc (Suc (Suc m))" by simp_all
  note one = pop_word_stack [OF assms(1) [unfolded eq], of dev, unfolded p fst_conv snd_conv]
  note two = pop_word_stack [OF one(1), of dev, unfolded p fst_conv snd_conv]
  note three = pop_word_stack [OF two(1), of dev, unfolded p fst_conv snd_conv]
  have "v1 # v2 # v3 # stack_list m t3 = x # y # z # xs"
    unfolding three(2) [symmetric] two(2) [symmetric] one(2) [symmetric] by (rule assms(2) [unfolded eq])
  then show "v1 = x" "v2 = y" "v3 = z" "stack_list m t3 = xs" by simp_all
  show "stack_ok m (n + 3) t3" unfolding eq by (rule three(1))
  have mode: "sp_step (snd (pop_word dev r)) = sp_step r" for r by (rule sp_step_mode) (simp add: MODE_STACK32_def)
  have "t3 = snd (pop_word dev (snd (pop_word dev (snd (pop_word dev t)))))" by (simp add: p)
  then show "R_ESP t3 = sp_step t 6 (R_ESP t)" unfolding stack_pointer mode by (simp add: stack_pointer mode)
qed

section \<open>A machine for the examples\<close>

lemma program_machine_stack: "stack_ok 1 3 (program_machine code)" "stack_ok 1 1 (program_machine code)"
proof -
  let ?s = "program_machine code"
  have page: "get_attr (page_of (emu_mem ?s) a) i = 0x0f" "page_data (page_of (emu_mem ?s) a) \<in> {No_data, Own_data}" for a i
    by (simp_all add: program_machine_def program_memory_def page_of_def get_attr_def emu_mem_new_def no_page_def split: option.split)
  then have acc: "accessible ?s b" for b by (simp add: accessible_def view_def X86EMU_PERM_R_def X86EMU_PERM_W_def)
  have loc: "floc (view (emu_mem ?s)) b = Own_byte b" for b
    using page(2) [of b] by (cases "page_data (page_of (emu_mem ?s) b)") (auto simp: view_def)
  have mok: "mem_ok (emu_mem ?s)"
    by (auto simp: program_machine_def program_memory_def emu_mem_new_def mem_ok_def page_of_def no_page_def split: if_splits)
  have ints: "[- 3..0] = [- 3, - 2, - 1, 0 :: int]" "[- 1..0] = [- 1, 0 :: int]" by (simp_all add: upto.simps)
  have two: "addrs 2 a = [a, a + 1]" for a by (simp add: numeral_2_eq_2)
  have sp: "sp_addr ?s k = ucast (0x800 + of_int k :: u16)" for k
    by (simp add: sp_addr_def program_machine_def MODE_STACK32_def x_reg_def)
  show "stack_ok 1 3 ?s" "stack_ok 1 1 ?s"
    by (simp_all add: stack_ok_def mok acc loc stack_area_def ints sp two)
qed

section \<open>Properties\<close>

text \<open>
  C25. The stack of the emulator implements a list of words, in 16-bit and in 32-bit stack segments and also across the
  wrap-around of the stack pointer: a push puts its operand in front of the list and takes one word of the room below, a pop returns and
  removes the first word, and a push followed by a pop restores the stack pointer.
\<close>
theorem stack_refines_list:
  assumes "stack_ok (Suc m) (Suc n) s" "t = push_word dev w s" "pop_word dev s = (v, u)"
  shows "stack_ok (Suc (Suc m)) n t \<and> stack_list (Suc (Suc m)) t = w # stack_list (Suc m) s \<and>
    stack_ok m (Suc (Suc n)) u \<and> stack_list (Suc m) s = v # stack_list m u \<and>
    fst (pop_word dev t) = w \<and> R_ESP (snd (pop_word dev t)) = R_ESP s"
proof -
  note push = push_word_stack [OF assms(1), of dev w, folded assms(2)]
  note pop = pop_word_stack [OF assms(1), of dev, unfolded assms(3) fst_conv snd_conv]
  have "sp_step t = sp_step s" by (rule sp_step_mode) (simp add: assms(2) MODE_STACK32_def)
  then have esp: "R_ESP (snd (pop_word dev t)) = R_ESP s" by (simp add: stack_pointer assms(2))
  have "w # stack_list (Suc m) s = fst (pop_word dev t) # stack_list (Suc m) (snd (pop_word dev t))"
    unfolding push(2) [symmetric] by (rule pop_word_stack(2) [OF push(1)])
  then have top: "fst (pop_word dev t) = w" by simp
  show ?thesis by (intro conjI) (fact push pop top esp)+
qed

lemma stack_refines_list_witness:
  "let s = program_machine []; t = push_word (\<lambda>_ _. 0) 0x1234 s; u = snd (pop_word (\<lambda>_ _. 0) s)
   in stack_list 2 t = [0x1234, fst (pop_word (\<lambda>_ _. 0) s)] \<and> fst (pop_word (\<lambda>_ _. 0) t) = 0x1234 \<and> stack_list 0 u = []"
proof -
  define v u where "v = fst (pop_word (\<lambda>_ _. 0) (program_machine []))" and "u = snd (pop_word (\<lambda>_ _. 0) (program_machine []))"
  then have "pop_word (\<lambda>_ _. 0) (program_machine []) = (v, u)" by simp
  from stack_refines_list [OF program_machine_stack(2) [unfolded One_nat_def] refl this, of "0x1234"]
  show ?thesis by (simp add: v_def u_def Let_def numeral_2_eq_2 stack_list_def)
qed

end
