(* ===== verification/X86emu_Interrupt.thy ===== *)
theory X86emu_Interrupt
  imports X86emu_Stack
begin

text \<open>
  Interrupts of the emulated processor in real mode, from the delivery by \<open>generate_int\<close> through the handler to \<open>IRET\<close>.
\<close>

section \<open>The vector\<close>

lemma real_mode_vector:
  assumes ok: "mem_ok (emu_mem s)" and real: "MODE_REAL s"
    and r: "idt_lookup dev nr cs eip s = ((new_cs, new_eip), t)" and a: "a = idt_base s + push_bit 2 (ucast nr)"
  shows "new_eip = mem_value 2 s a" "new_cs = mem_value 2 s (a + 2)" "same_stack s t" "cpu t = cpu s"
proof -
  obtain e1 v1 s1 where m1: "vm_memio dev a eip (X86EMU_MEMIO_16 OR X86EMU_MEMIO_R) s = (e1, v1, s1)" by (metis prod_cases3)
  have i: "idt_base s1 = idt_base s" using memio_sel [of dev a eip "X86EMU_MEMIO_16 OR X86EMU_MEMIO_R" s] by (simp add: m1)
  obtain e2 v2 s2 where m2: "vm_memio dev (a + 2) cs (X86EMU_MEMIO_16 OR X86EMU_MEMIO_R) s1 = (e2, v2, s2)" by (metis prod_cases3)
  have t: "new_eip = v1" "new_cs = v2" "t = s2" using r real i m1 m2 by (simp_all add: idt_lookup_def decode_memio_def a)
  note r1 = read_same_stack [OF ok, of dev a eip, unfolded m1 snd_conv fst_conv]
  have ok1: "mem_ok (emu_mem s1)" using r1(1) by (simp add: same_stack_def)
  note r2 = read_same_stack [OF ok1, of dev "a + 2" cs, unfolded m2 snd_conv fst_conv]
  show "new_eip = mem_value 2 s a" using r1(2) by (simp add: t)
  have "same_bits (view (emu_mem s)) (view (emu_mem s1))" using r1(1) by (simp add: same_stack_def mem_step_def)
  then have "mem_value 2 s1 b = mem_value 2 s b" for b
    unfolding mem_value_def using r1(1) same_bits_perm(1) by (intro seen_local) (auto simp: same_stack_def mem_step_def)
  then show "new_cs = mem_value 2 s (a + 2)" using r2(2) by (simp add: t)
  show "same_stack s t" using same_stack_trans [OF r1(1) r2(1)] by (simp add: t)
  show "cpu t = cpu s" using cpu_memio [of dev a eip "X86EMU_MEMIO_16 OR X86EMU_MEMIO_R" s]
      cpu_memio [of dev "a + 2" cs "X86EMU_MEMIO_16 OR X86EMU_MEMIO_R" s1] by (simp add: m1 m2 t)
qed

lemma ucast_twice: "ucast (ucast w :: u32) = (w :: u16)"
  by (rule bit_word_eqI) (auto simp: bit_ucast_iff dest: bit_imp_le_length)

lemma system_flags_cleared:
  "\<not> ACCESS_FLAG F_IF (CLEAR_FLAG F_TF (CLEAR_FLAG F_IF f))" "\<not> ACCESS_FLAG F_TF (CLEAR_FLAG F_TF (CLEAR_FLAG F_IF f))"
proof -
  have "ACCESS_FLAG F_IF x = bit x 9" "ACCESS_FLAG F_TF x = bit x 8" for x
    using and_exp_nonzero [of x 9] and_exp_nonzero [of x 8] by (simp_all add: ACCESS_FLAG_def F_IF_def F_TF_def)
  moreover have "bit F_IF 9" "bit F_TF 8" by code_simp+
  ultimately show "\<not> ACCESS_FLAG F_IF (CLEAR_FLAG F_TF (CLEAR_FLAG F_IF f))" "\<not> ACCESS_FLAG F_TF (CLEAR_FLAG F_TF (CLEAR_FLAG F_IF f))"
    by (simp_all add: flag_update_bit)
qed

section \<open>Delivery and return\<close>

text \<open>The delivery of an interrupt without error code, whose return address is the current one.\<close>

lemma real_mode_delivery:
  assumes "stack_ok m (n + 3) s" "MODE_REAL s" "type AND (INTR_MODE_RESTART OR INTR_MODE_ERRCODE) = 0"
    and "a = idt_base s + push_bit 2 (ucast nr)" "e = generate_int dev None nr type err s"
  shows "R_EIP e = mem_value 2 s a" "sel_sel (seg e R_CS_INDEX) = ucast (mem_value 2 s (a + 2))"
    "R_FLG e = CLEAR_FLAG F_TF (CLEAR_FLAG F_IF (R_FLG s))" "stack_ok (m + 3) n e" "MODE_STACK32 e = MODE_STACK32 s"
    "stack_list (m + 3) e = ucast (R_EIP s) # sel_sel (seg s R_CS_INDEX) # ucast (R_FLG s) # stack_list m s"
    "R_ESP e = sp_step s (- 6) (R_ESP s)"
proof -
  define s0 where "s0 = s\<lparr>intr_stats := (intr_stats s)(nr := intr_stats s nr + 1)\<rparr>"
  obtain cs' eip' s1 where idt: "idt_lookup dev nr (ucast (sel_sel (seg s R_CS_INDEX))) (R_EIP s) s0 = ((cs', eip'), s1)"
    by (metis surj_pair)
  have ok: "mem_ok (emu_mem s)" using assms(1) by (simp add: stack_ok_def)
  have start: "same_stack s s0" "MODE_REAL s0" "a = idt_base s0 + push_bit 2 (ucast nr)" "mem_ok (emu_mem s0)"
    "mem_value 2 s0 b = mem_value 2 s b" for b
    using ok assms(2,4) by (simp_all add: s0_def same_stackI MODE_REAL_def MODE_PROTECTED_def R_CR0_def mem_value_def)
  note vec = real_mode_vector [OF start(4,2) idt start(3)]
  have type: "type AND INTR_MODE_RESTART = 0" "type AND INTR_MODE_ERRCODE = 0"
    using assms(3) by (simp_all add: bit.conj_disj_distrib or_eq_0_iff)
  have c1: "mode s1 = mode s" "crx s1 = crx s" "seg s1 = seg s" "R_FLG s1 = R_FLG s" "R_ESP s1 = R_ESP s"
    using arg_cong [OF vec(4), of mode] arg_cong [OF vec(4), of crx] arg_cong [OF vec(4), of seg] arg_cong [OF vec(4), of R_FLG]
      arg_cong [OF vec(4), of R_ESP] by (simp_all only: cpu_sel) (simp_all add: s0_def)
  define p where "p = push_word dev (ucast (R_EIP s)) (push_word dev (sel_sel (seg s R_CS_INDEX)) (push_word dev (ucast (R_FLG s)) s1))"
  have real: "MODE_REAL x = MODE_REAL s" if "crx x = crx s" for x using that by (simp add: MODE_REAL_def MODE_PROTECTED_def R_CR0_def)
  have "seg s0 = seg s" "R_EIP s0 = R_EIP s" by (simp_all add: s0_def)
  moreover have "\<not> MODE_PROTECTED s1" using real [OF c1(2)] assms(2) by (simp add: MODE_REAL_def)
  moreover have "MODE_REAL (p\<lparr>R_FLG := f\<rparr>)" for f using assms(2) real [of "p\<lparr>R_FLG := f\<rparr>"] by (simp add: p_def c1)
  moreover have "R_FLG p = R_FLG s" "seg p = seg s" by (simp_all add: p_def c1)
  ultimately have e: "e = p\<lparr>R_FLG := CLEAR_FLAG F_TF (CLEAR_FLAG F_IF (R_FLG s)),
      seg := (seg s)(R_CS_INDEX := (seg s R_CS_INDEX)\<lparr>sel_sel := ucast cs', sel_base := push_bit 4 (ucast (ucast cs' :: u16))\<rparr>),
      R_EIP := eip'\<rparr>"
    by (simp add: assms(5) generate_int_def Let_def s0_def [symmetric] type idt c1 p_def [symmetric] set_CS_real ucast_twice)
  note before = stack_cong [OF same_stack_trans [OF start(1) vec(3)]]
  have "stack_ok m (n + 3) s1" "stack_list m s1 = stack_list m s" using before assms(1) by simp_all
  note push = push_three [OF this(1) p_def, unfolded this(2)]
  have "same_stack p e"
    using push(1) by (intro same_stackI) (simp_all add: e stack_ok_def R_SS_INDEX_def R_CS_INDEX_def p_def c1)
  note after = stack_cong [OF this]
  have step: "sp_step s1 = sp_step s" by (rule sp_step_mode) (simp add: MODE_STACK32_def c1)
  show "R_EIP e = mem_value 2 s a" "sel_sel (seg e R_CS_INDEX) = ucast (mem_value 2 s (a + 2))"
    "R_FLG e = CLEAR_FLAG F_TF (CLEAR_FLAG F_IF (R_FLG s))" "MODE_STACK32 e = MODE_STACK32 s"
    using vec(1,2) by (simp_all add: e start(5) MODE_STACK32_def p_def c1)
  show "stack_ok (m + 3) n e" by (rule after(1) [OF push(1)])
  show "stack_list (m + 3) e = ucast (R_EIP s) # sel_sel (seg s R_CS_INDEX) # ucast (R_FLG s) # stack_list m s"
    unfolding after(2) by (rule push(2))
  show "R_ESP e = sp_step s (- 6) (R_ESP s)" using push(3) by (simp add: e c1 step)
qed

text \<open>\<open>IRET\<close> in 16-bit code with the three words of a delivery on the stack.\<close>

lemma real_mode_return:
  assumes "stack_ok (m + 3) n t" "stack_list (m + 3) t = x # y # z # xs" "MODE_REAL t" "\<not> MODE_DATA32 t" "u = x86emuOp_iret dev t"
  shows "R_EIP u = ucast x" "sel_sel (seg u R_CS_INDEX) = y" "sel_base (seg u R_CS_INDEX) = push_bit 4 (ucast y)"
    "R_FLG u = ucast z OR F_ALWAYS_ON" "R_ESP u = sp_step t 6 (R_ESP t)" "stack_ok m (n + 3) u" "stack_list m u = xs"
proof -
  obtain v1 t1 v2 t2 v3 t3 where pops: "pop_word dev t = (v1, t1)" "pop_word dev t1 = (v2, t2)" "pop_word dev t2 = (v3, t3)"
    by (metis surj_pair)
  note pop = pop_three [OF assms(1,2) pops]
  have t3: "mode t1 = mode t" "mode t2 = mode t" "crx t3 = crx t" "mode t3 = mode t"
    using pop_word_frame(1,2) [of dev t] pop_word_frame(1,2) [of dev t1] pop_word_frame(1,2) [of dev t2] by (simp_all add: pops)
  have "MODE_REAL (t3\<lparr>R_FLG := f\<rparr>)" for f using assms(3) by (simp add: MODE_REAL_def MODE_PROTECTED_def R_CR0_def t3)
  then have u: "u = t3\<lparr>R_FLG := ucast v3 OR F_ALWAYS_ON,
      seg := (seg t3)(R_CS_INDEX := (seg t3 R_CS_INDEX)\<lparr>sel_sel := v2, sel_base := push_bit 4 (ucast v2)\<rparr>), R_EIP := ucast v1\<rparr>"
    using assms(4) by (simp add: assms(5) x86emuOp_iret_def pop_size_def MODE_DATA32_def t3 pops set_CS_real ucast_twice)
  then show "R_EIP u = ucast x" "sel_sel (seg u R_CS_INDEX) = y" "sel_base (seg u R_CS_INDEX) = push_bit 4 (ucast y)"
    "R_FLG u = ucast z OR F_ALWAYS_ON" "R_ESP u = sp_step t 6 (R_ESP t)" using pop(1-3,6) by simp_all
  have "mem_ok (emu_mem t3)" using pop(4) by (simp add: stack_ok_def)
  then have "same_stack t3 u" by (intro same_stackI) (simp_all add: u R_SS_INDEX_def R_CS_INDEX_def)
  note after = stack_cong [OF this]
  show "stack_ok m (n + 3) u" by (rule after(1) [OF pop(4)])
  show "stack_list m u = xs" unfolding after(2) by (rule pop(5))
qed

section \<open>Interrupt and return\<close>

text \<open>
  C26. A software interrupt in real mode enters the handler that the interrupt table names, with the interrupt and trap flags
  cleared, and \<open>IRET\<close> comes back: whatever the handler has done, when it has restored the stack, the program
  continues at the old address with the old flags and the old stack (in 16-bit code, which keeps the lower halves).
\<close>
theorem interrupt_and_return:
  assumes "stack_ok m (n + 3) s" "MODE_REAL s" "type AND (INTR_MODE_RESTART OR INTR_MODE_ERRCODE) = 0"
    and "a = idt_base s + push_bit 2 (ucast nr)" "e = generate_int dev None nr type err s"
    and "same_stack e t" "MODE_REAL t" "\<not> MODE_DATA32 t" "u = x86emuOp_iret dev t"
  shows "R_EIP e = mem_value 2 s a \<and> sel_sel (seg e R_CS_INDEX) = ucast (mem_value 2 s (a + 2)) \<and>
    \<not> ACCESS_FLAG F_IF (R_FLG e) \<and> \<not> ACCESS_FLAG F_TF (R_FLG e) \<and>
    R_EIP u = ucast (x_reg (R_EIP s)) \<and> sel_sel (seg u R_CS_INDEX) = sel_sel (seg s R_CS_INDEX) \<and>
    sel_base (seg u R_CS_INDEX) = push_bit 4 (ucast (sel_sel (seg s R_CS_INDEX))) \<and>
    R_FLG u = ucast (x_reg (R_FLG s)) OR F_ALWAYS_ON \<and>
    R_ESP u = R_ESP s \<and> stack_ok m (n + 3) u \<and> stack_list m u = stack_list m s"
proof -
  note enter = real_mode_delivery [OF assms(1-5)]
  note same = stack_cong [OF assms(6)]
  note leave = real_mode_return [OF same(1) [OF enter(4)] trans [OF same(2) enter(6)] assms(7-9)]
  have "MODE_STACK32 t = MODE_STACK32 s" "R_ESP t = R_ESP e" using assms(6) enter(5) by (simp_all add: same_stack_def)
  then have "R_ESP u = R_ESP s" using leave(5) enter(7) sp_step_mode [of t s] by simp
  then show ?thesis using enter(1,2,3) leave(1-4,6,7) by (simp add: system_flags_cleared x_reg_def)
qed

section \<open>A machine for the examples\<close>

lemma segment_frame [simp]:
  "mode (x86emu_set_seg_register dev i v s) = mode s" "crx (x86emu_set_seg_register dev i v s) = crx s"
  by (simp_all add: x86emu_set_seg_register_def set_sel_def emu_memio_def Let_def split_beta INTR_RAISE_GP_def x86emu_intr_raise_def)

lemma delivery_frame:
  "mode (generate_int dev None nr type err s) = mode s" "crx (generate_int dev None nr type err s) = crx s"
proof -
  have idt: "mode (snd (idt_lookup dev nr cs eip x)) = mode x" "crx (snd (idt_lookup dev nr cs eip x)) = crx x" for cs eip x
    by (simp_all add: idt_lookup_def decode_memio_def Let_def split_beta)
  have long: "mode (push_long dev l x) = mode x" "crx (push_long dev l x) = crx x" for l x
    by (simp_all add: push_long_def set_SP_def Let_def)
  show "mode (generate_int dev None nr type err s) = mode s" "crx (generate_int dev None nr type err s) = crx s"
    by (simp_all add: generate_int_def Let_def split_beta idt long)
qed

lemma interrupt_and_return_witness:
  "let s = (program_machine [])\<lparr>R_EIP := 0x123\<rparr>; e = generate_int (\<lambda>_ _. 0) None 0x10 INTR_TYPE_SOFT 0 s;
       u = x86emuOp_iret (\<lambda>_ _. 0) e
   in R_EIP u = 0x123 \<and> R_ESP u = 0x800 \<and> \<not> ACCESS_FLAG F_IF (R_FLG e)"
proof -
  define s where "s = (program_machine [])\<lparr>R_EIP := 0x123\<rparr>"
  define e where "e = generate_int (\<lambda>_ _. 0) None 0x10 INTR_TYPE_SOFT 0 s"
  have "same_stack (program_machine []) s"
    using program_machine_stack(1) [of "[]"] by (intro same_stackI) (simp_all add: s_def stack_ok_def)
  then have ok: "stack_ok 1 (0 + 3) s" using stack_cong(1) program_machine_stack(1) by simp
  have m: "mode e = 0" "crx e = (\<lambda>_. 0)" "crx s = (\<lambda>_. 0)" "R_EIP s = 0x123" "R_ESP s = 0x800"
    by (simp_all add: e_def delivery_frame s_def program_machine_def)
  have real: "MODE_REAL s" "MODE_REAL e" "\<not> MODE_DATA32 e"
    by (simp_all add: MODE_REAL_def MODE_PROTECTED_def R_CR0_def MODE_DATA32_def m)
  have "INTR_TYPE_SOFT AND (INTR_MODE_RESTART OR INTR_MODE_ERRCODE) = 0" by code_simp
  note rule = interrupt_and_return [OF ok real(1) this refl e_def _ real(2,3) refl]
  have "emu_ok s" using ok by (simp add: emu_ok_def stack_ok_def s_def program_machine_def shape_def reserved_def F_ALWAYS_ON_def)
  then have "mem_ok (emu_mem e)"
    using well_formed.delivery [OF quiet_host_keeps, of s "0x10" INTR_TYPE_SOFT 0]
    by (simp add: holds_def emu_ok_def quiet_host_def e_def)
  then have "same_stack e e" by (intro same_stackI) simp_all
  from rule [OF this] show ?thesis by (simp add: e_def [symmetric] s_def [symmetric] m x_reg_def Let_def)
qed

end
