(* ===== verification/X86emu_Api.thy ===== *)
theory X86emu_Api
  imports X86emu_Interrupt
begin

text \<open>
  The interface of the emulator to its client (\<^verbatim>\<open>libx86emu/api.c\<close>): creation and accesses from outside, and
  what those that ignore the permissions do to the flat memory. The memory of the machine the emulator runs on, which redirected pages
  reach, and its ports are part of the emulator's state.
\<close>

definition X86EMU_PERM_RW :: u8 where "X86EMU_PERM_RW = X86EMU_PERM_R OR X86EMU_PERM_W"
definition X86EMU_PERM_RX :: u8 where "X86EMU_PERM_RX = X86EMU_PERM_R OR X86EMU_PERM_X"

text \<open>All of \<open>calloc\<close>'s memory is zero. \<open>iopl\<close> is what \<open>getiopl\<close> reads.\<close>

definition x86emu_new :: "nat \<Rightarrow> (u64 \<Rightarrow> u8) \<Rightarrow> machine \<Rightarrow> u32 \<Rightarrow> u32 \<Rightarrow> x86emu" where
  "x86emu_new iopl host_memory m def_mem_perm def_io_perm =
     (let z = \<lparr>sel_base = 0, sel_limit = 0, sel_sel = 0, sel_acc = 0\<rparr>;
          emu = \<lparr>R_EAX = 0, R_EBX = 0, R_ECX = 0, R_EDX = 0, R_ESP = 0, R_EBP = 0, R_ESI = 0, R_EDI = 0, R_FLG = 0,
            seg = (\<lambda>_. z), mode = 0, intr_nr = 0, intr_type = 0, intr_errcode = 0,
            emu_mem = emu_mem_new (ucast def_mem_perm) host_memory, io_map = (\<lambda>_. 0), stats_i = (\<lambda>_. 0), stats_o = (\<lambda>_. 0),
            iopl_needed = False, iopl_ok = False, host_io = m,
            R_EIP = 0, ldt = z, tr = z, crx = (\<lambda>_. 0), drx = (\<lambda>_. 0), gdt_base = 0, gdt_limit = 0, idt_base = 0, idt_limit = 0,
            msr = (\<lambda>_. 0), msr_perm = (\<lambda>_. 0), default_seg = None, saved_eip = 0, saved_cs = 0, instr_buf = [],
            intr_stats = (\<lambda>_. 0), debug_start = 0, debug_len = 0, log_trace = 0, max_instr = 0, disasm_len = 0\<rparr>;
          emu = (if def_io_perm \<noteq> 0 then x86emu_set_io_perm iopl 0 (of_nat (X86EMU_IO_PORTS - 1)) def_io_perm emu else emu)
      in x86emu_reset emu)"

definition x86emu_read_byte :: "device \<Rightarrow> u32 \<Rightarrow> x86emu \<Rightarrow> u32 \<times> x86emu" where
  "x86emu_read_byte dev addr s = snd (vm_memio dev addr 0xff (X86EMU_MEMIO_R OR X86EMU_MEMIO_8) s)"

definition x86emu_read_word :: "device \<Rightarrow> u32 \<Rightarrow> x86emu \<Rightarrow> u32 \<times> x86emu" where
  "x86emu_read_word dev addr s = snd (vm_memio dev addr 0xffff (X86EMU_MEMIO_R OR X86EMU_MEMIO_16) s)"

definition x86emu_read_dword :: "device \<Rightarrow> u32 \<Rightarrow> x86emu \<Rightarrow> u32 \<times> x86emu" where
  "x86emu_read_dword dev addr s = snd (vm_memio dev addr 0xffffffff (X86EMU_MEMIO_R OR X86EMU_MEMIO_32) s)"

definition x86emu_write_byte :: "device \<Rightarrow> u32 \<Rightarrow> u32 \<Rightarrow> x86emu \<Rightarrow> x86emu" where
  "x86emu_write_byte dev addr val s = snd (snd (vm_memio dev addr val (X86EMU_MEMIO_W OR X86EMU_MEMIO_8) s))"

definition x86emu_write_byte_noperm :: "device \<Rightarrow> u32 \<Rightarrow> u32 \<Rightarrow> x86emu \<Rightarrow> x86emu" where
  "x86emu_write_byte_noperm dev addr val s = snd (snd (vm_memio dev addr val (X86EMU_MEMIO_W OR X86EMU_MEMIO_8_NOPERM) s))"

definition x86emu_write_word :: "device \<Rightarrow> u32 \<Rightarrow> u32 \<Rightarrow> x86emu \<Rightarrow> x86emu" where
  "x86emu_write_word dev addr val s = snd (snd (vm_memio dev addr val (X86EMU_MEMIO_W OR X86EMU_MEMIO_16) s))"

definition x86emu_write_dword :: "device \<Rightarrow> u32 \<Rightarrow> u32 \<Rightarrow> x86emu \<Rightarrow> x86emu" where
  "x86emu_write_dword dev addr val s = snd (snd (vm_memio dev addr val (X86EMU_MEMIO_W OR X86EMU_MEMIO_32) s))"

section \<open>Accesses that ignore the permissions\<close>

lemma vm_w_byte_noperm_view:
  assumes "mem_ok mem"
  shows "view (vm_w_byte_noperm mem a v) = (view mem)\<lparr>fattr := (fattr (view mem))(a := fattr (view mem) a OR X86EMU_PERM_VALID OR X86EMU_ACC_W),
      fbyte := (fbyte (view mem))(floc (view mem) a := ucast v)\<rparr>"
    "mem_ok (vm_w_byte_noperm mem a v)"
proof -
  obtain p mem1 where g: "vm_get_page mem a True = (p, mem1)" by (cases "vm_get_page mem a True")
  note f = vm_get_page_fetched [OF g assms]
  have at: "get_attr p (page_idx a) = fattr (view mem) a" by (simp add: f(3) fattr_page [of a a] flip: f(2))
  note put = fetched_attr [OF f(1) same_page_refl refl]
  note data = fetched_data [OF put(2) same_page_refl refl]
  show "view (vm_w_byte_noperm mem a v) = (view mem)\<lparr>fattr := (fattr (view mem))(a := fattr (view mem) a OR X86EMU_PERM_VALID OR X86EMU_ACC_W),
      fbyte := (fbyte (view mem))(floc (view mem) a := ucast v)\<rparr>"
    using f(2) by (simp add: vm_w_byte_noperm_def Let_def g at put data or.assoc)
  show "mem_ok (vm_w_byte_noperm mem a v)"
    using put(2) [THEN fetched_ok] data(2) [THEN fetched_ok] by (simp add: vm_w_byte_noperm_def Let_def g)
qed

lemma write_noperm_eq:
  "x86emu_write_byte_noperm dev a v s = s\<lparr>emu_mem := vm_w_byte_noperm ((emu_mem s)\<lparr>invalid := False\<rparr>) a v\<rparr>"
proof -
  have "(X86EMU_MEMIO_W OR X86EMU_MEMIO_8_NOPERM) AND 0xff = X86EMU_MEMIO_8_NOPERM"
    "(X86EMU_MEMIO_W OR X86EMU_MEMIO_8_NOPERM) AND NOT 0xff = X86EMU_MEMIO_W" by code_simp+
  then show ?thesis by (simp add: x86emu_write_byte_noperm_def vm_memio_def mem_write_def memio_consts)
qed

text \<open>The bits that record accesses are cleared, nothing else.\<close>

lemma reset_stats_view:
  "mem_ok mem \<Longrightarrow> mem_ok (x86emu_reset_access_stats mem)"
  "floc (view (x86emu_reset_access_stats mem)) = floc (view mem)" "fbyte (view (x86emu_reset_access_stats mem)) = fbyte (view mem)"
  "fattr (view (x86emu_reset_access_stats mem)) a AND X86EMU_PERM_W = fattr (view mem) a AND X86EMU_PERM_W"
proof -
  let ?m = "x86emu_reset_access_stats mem"
  have page: "page_data (page_of ?m a) = page_data (page_of mem a)" "own (page_of ?m a) = own (page_of mem a)"
    "attr (page_of ?m a) = None \<longleftrightarrow> attr (page_of mem a) = None" "host ?m = host mem" for a
    by (auto simp: x86emu_reset_access_stats_def page_of_def split: option.splits)
  show "mem_ok ?m" if "mem_ok mem" using that by (simp add: mem_ok_def page)
  show "floc (view ?m) = floc (view mem)" "fbyte (view ?m) = fbyte (view mem)" by (simp_all add: view_def page(1,2,4) fun_eq_iff page(3) split: loc.split)
  have "x AND (X86EMU_PERM_RWX OR X86EMU_PERM_VALID) AND X86EMU_PERM_W = x AND X86EMU_PERM_W" for x :: u8
  proof -
    have "(X86EMU_PERM_RWX OR X86EMU_PERM_VALID) AND X86EMU_PERM_W = X86EMU_PERM_W" by code_simp
    then show ?thesis by (simp add: and.assoc)
  qed
  then show "fattr (view ?m) a AND X86EMU_PERM_W = fattr (view mem) a AND X86EMU_PERM_W"
    by (auto simp: view_def x86emu_reset_access_stats_def page_of_def get_attr_def and.assoc no_page_def split: option.splits)
qed

end
