(* ===== verification/Console.thy ===== *)
theory Console
  imports Machine
begin

text \<open>
  \<^verbatim>\<open>kernel/console.c\<close> and \<^verbatim>\<open>include/kernel/x86/vga.h\<close>: the text console on the VGA text
  buffer. The video memory is a map from the (even) addresses of 16-bit cells; characters are bytes, signed as \<open>char\<close> is on x86.
  The specification is a terminal that keeps every line ever written and shows the last 25 of them.
\<close>

section \<open>The VGA text mode\<close>

definition KERNEL_VIRTUAL_BASE :: u64 where "KERNEL_VIRTUAL_BASE = 0xFFFFFFFFC0000000"
definition ISA_IO_BASE :: u64 where "ISA_IO_BASE = KERNEL_VIRTUAL_BASE"

definition VGA_WIDTH :: int where "VGA_WIDTH = 80"
definition VGA_HEIGHT :: int where "VGA_HEIGHT = 25"
definition VGA_MEMORY :: u64 where "VGA_MEMORY = ISA_IO_BASE + 0x000B8000"

definition VGA_COLOR_BLACK :: u32 where "VGA_COLOR_BLACK = 0"
definition VGA_COLOR_LIGHT_GREY :: u32 where "VGA_COLOR_LIGHT_GREY = 7"

definition vga_make_color :: "u32 \<Rightarrow> u32 \<Rightarrow> u8" where
  "vga_make_color fg bg = ucast (fg OR push_bit 4 bg)"

definition vga_make_entry :: "u8 \<Rightarrow> u8 \<Rightarrow> u16" where
  "vga_make_entry c color = (let c16 = scast c; color16 = ucast color in c16 OR push_bit 8 color16)"

definition vga_move_cursor :: "int \<Rightarrow> int \<Rightarrow> 'a machine_scheme \<Rightarrow> 'a machine_scheme" where
  "vga_move_cursor x y s =
     (let cursorLocation = word_of_int (y * VGA_WIDTH + x) :: u16
      in io_out_8 0x3D5 (ucast cursorLocation) (io_out_8 0x3D4 15
           (io_out_8 0x3D5 (ucast (drop_bit 8 cursorLocation)) (io_out_8 0x3D4 14 s))))"

definition vga_solid_cursor :: "'a machine_scheme \<Rightarrow> 'a machine_scheme" where
  "vga_solid_cursor s = io_out_8 0x3d5 0x00 (io_out_8 0x3d4 0x0a s)"

definition vga_hide_cursor :: "'a machine_scheme \<Rightarrow> 'a machine_scheme" where
  "vga_hide_cursor s = io_out_8 0x3d4 (ucast (0x000b :: u32)) (io_out_8 0x3d4 (ucast (0x200a :: u32)) s)"

section \<open>The console\<close>

record console = machine +
  console_row :: int
  console_column :: int
  console_color :: u8
  console_buffer :: u64               \<comment> \<open>the pointer, 0 before \<open>console_init\<close>\<close>
  video :: "u64 \<Rightarrow> u16"               \<comment> \<open>the 16-bit cells of memory, by address\<close>

text \<open>The address of \<open>p[index]\<close> for a pointer to 16-bit cells.\<close>

definition cell :: "u64 \<Rightarrow> int \<Rightarrow> u64" where
  "cell p index = p + 2 * word_of_int index"

definition console_setcolor :: "u8 \<Rightarrow> 'a console_scheme \<Rightarrow> 'a console_scheme" where
  "console_setcolor color s = s\<lparr>console_color := color\<rparr>"

definition console_putentryat :: "u8 \<Rightarrow> u8 \<Rightarrow> int \<Rightarrow> int \<Rightarrow> 'a console_scheme \<Rightarrow> 'a console_scheme" where
  "console_putentryat c color x y s =
     (let index = y * VGA_WIDTH + x
      in s\<lparr>video := (video s)(cell (console_buffer s) index := vga_make_entry c color)\<rparr>)"

definition console_scroll :: "'a console_scheme \<Rightarrow> 'a console_scheme" where
  "console_scroll s =
     (let s = fold (\<lambda>i s. s\<lparr>video := (video s)(cell VGA_MEMORY i := video s (cell VGA_MEMORY (i + VGA_WIDTH)))\<rparr>)
                [0..VGA_WIDTH * (VGA_HEIGHT - 1) - 1] s
      in fold (\<lambda>i s. s\<lparr>video := (video s)(cell VGA_MEMORY i := vga_make_entry 32 (console_color s))\<rparr>)
           [VGA_WIDTH * (VGA_HEIGHT - 1)..VGA_WIDTH * VGA_HEIGHT - 1] s)"

definition console_putchar :: "u8 \<Rightarrow> 'a console_scheme \<Rightarrow> 'a console_scheme" where
  "console_putchar c s =
     (let s = (if c = 10 then s\<lparr>console_column := 0, console_row := console_row s + 1\<rparr>
               else
                 let s = console_putentryat c (console_color s) (console_column s) (console_row s) s;
                     s = s\<lparr>console_column := console_column s + 1\<rparr>
                 in if console_column s = VGA_WIDTH then s\<lparr>console_column := 0, console_row := console_row s + 1\<rparr> else s)
      in if console_row s = VGA_HEIGHT then let s = console_scroll s in s\<lparr>console_row := console_row s - 1\<rparr> else s)"

definition console_init :: "'a console_scheme \<Rightarrow> 'a console_scheme" where
  "console_init s =
     (let s = s\<lparr>console_row := 0, console_column := 0,
                console_color := vga_make_color VGA_COLOR_LIGHT_GREY VGA_COLOR_BLACK, console_buffer := VGA_MEMORY\<rparr>;
          s = fold (\<lambda>y. fold (\<lambda>x s. let index = y * VGA_WIDTH + x
                 in s\<lparr>video := (video s)(cell (console_buffer s) index := vga_make_entry 32 (console_color s))\<rparr>) [0..VGA_WIDTH - 1])
                [0..VGA_HEIGHT - 1] s
      in vga_hide_cursor s)"

text \<open>\<open>console_write\<close> takes a length, \<open>console_writestring\<close> stops at a NUL (the end of the list stands for one).\<close>

definition console_write :: "u8 list \<Rightarrow> nat \<Rightarrow> 'a console_scheme \<Rightarrow> 'a console_scheme" where
  "console_write data n s = fold (\<lambda>i. console_putchar (data ! i)) [0..<n] s"

fun console_writestring :: "u8 list \<Rightarrow> 'a console_scheme \<Rightarrow> int \<times> 'a console_scheme" where
  "console_writestring [] s = (0, s)"
| "console_writestring (c # p) s =
     (if c = 0 then (0, s) else let (n, s) = console_writestring p (console_putchar c s) in (n + 1, s))"

section \<open>A terminal as specification\<close>

text \<open>The complete lines so far, and the line being written.\<close>

type_synonym terminal = "u8 list list \<times> u8 list"

fun type_char :: "u8 \<Rightarrow> terminal \<Rightarrow> terminal" where
  "type_char c (ls, l) =
     (if c = 10 then (ls @ [l], []) else if length l = 79 then (ls @ [l @ [c]], []) else (ls, l @ [c]))"

definition blank :: "u8 \<Rightarrow> u16" where
  "blank color = vga_make_entry 32 color"

definition screen_line :: "u8 \<Rightarrow> u8 list \<Rightarrow> u16 list" where
  "screen_line color l = map (\<lambda>c. vga_make_entry c color) l @ replicate (80 - length l) (blank color)"

text \<open>The last 25 lines, the rows below them empty.\<close>

fun shown :: "terminal \<Rightarrow> u8 list list" where
  "shown (ls, l) = drop (length ls - 24) ls @ l # replicate (24 - length ls) []"

text \<open>The rows in the video memory.\<close>

definition row_of :: "'a console_scheme \<Rightarrow> nat \<Rightarrow> u16 list" where
  "row_of s r = map (\<lambda>c. video s (cell VGA_MEMORY (80 * int r + int c))) [0..<80]"

definition screen :: "'a console_scheme \<Rightarrow> u16 list list" where
  "screen s = map (row_of s) [0..<25]"

definition video_memory :: "u64 set" where
  "video_memory = cell VGA_MEMORY ` {0..<2000}"

section \<open>Cells and loops\<close>

lemma cell_eq [simp]:
  assumes "0 \<le> i" "i < 2000" "0 \<le> j" "j < 2000"
  shows "cell p i = cell p j \<longleftrightarrow> i = j"
proof
  assume "cell p i = cell p j"
  then have "word_of_int (2 * i) = (word_of_int (2 * j) :: u64)" by (simp add: cell_def)
  then have "take_bit 64 (2 * i) = take_bit 64 (2 * j)" by (simp only: word_of_int_eq_iff) simp
  then show "i = j" using assms by (simp add: take_bit_int_eq_self)
qed simp

lemma cell_add: "cell p (i + 80) = cell p i + 160"
  by (simp add: cell_def)

lemma cell_image [simp]:
  assumes "0 \<le> i" "i < 2000" "0 \<le> l" "h \<le> 2000"
  shows "cell p i \<in> cell p ` {l..<h} \<longleftrightarrow> l \<le> i \<and> i < h"
  using assms by (auto simp: image_iff)

lemma upto_nat: "[0..int n - 1] = map int [0..<n]"
  by (induction n) (simp_all add: upto_rec2)

lemma scroll_loop:
  "n \<le> 1920 \<Longrightarrow>
   fold (\<lambda>i s. s\<lparr>video := (video s)(cell VGA_MEMORY i := video s (cell VGA_MEMORY (i + 80)))\<rparr>) (map int [0..<n]) s =
   s\<lparr>video := \<lambda>a. if a \<in> cell VGA_MEMORY ` {0..<int n} then video s (a + 160) else video s a\<rparr>"
proof (induction n)
  case 0
  then show ?case by simp
next
  case (Suc n)
  have "{0..<int (Suc n)} = insert (int n) {0..<int n}" by auto
  then show ?case using Suc by (auto simp: cell_add [symmetric] fun_eq_iff)
qed

lemma fill_loop:
  "fold (\<lambda>i s. s\<lparr>video := (video s)(cell VGA_MEMORY i := vga_make_entry 32 (console_color s))\<rparr>) xs s =
   s\<lparr>video := \<lambda>a. if a \<in> cell VGA_MEMORY ` set xs then blank (console_color s) else video s a\<rparr>"
  by (induction xs arbitrary: s) (auto simp: blank_def fun_eq_iff)

lemma fill_range:
  "fold (\<lambda>i s. s\<lparr>video := (video s)(cell VGA_MEMORY i := vga_make_entry 32 (console_color s))\<rparr>) [l..h - 1] s =
   s\<lparr>video := \<lambda>a. if a \<in> cell VGA_MEMORY ` {l..<h} then blank (console_color s) else video s a\<rparr>"
proof -
  have "set [l..h - 1] = {l..<h}" by auto
  then show ?thesis unfolding fill_loop by simp
qed

lemma fill_row:
  "fold (\<lambda>x s. s\<lparr>video := (video s)(cell (console_buffer s) (y * 80 + x) := vga_make_entry 32 (console_color s))\<rparr>) xs s =
   s\<lparr>video := \<lambda>a. if a \<in> cell (console_buffer s) ` (+) (y * 80) ` set xs then blank (console_color s) else video s a\<rparr>"
  by (induction xs arbitrary: s) (auto simp: blank_def fun_eq_iff)

lemma fill_rows:
  "fold (\<lambda>y. fold (\<lambda>x s. s\<lparr>video := (video s)(cell (console_buffer s) (y * 80 + x) := vga_make_entry 32 (console_color s))\<rparr>) xs) ys s =
   s\<lparr>video := \<lambda>a. if a \<in> cell (console_buffer s) ` (\<Union>y \<in> set ys. (+) (y * 80) ` set xs) then blank (console_color s) else video s a\<rparr>"
proof (induction ys arbitrary: s)
  case (Cons y ys)
  show ?case unfolding fold_simps Cons.IH unfolding fill_row
    by (simp cong: if_cong) (rule arg_cong [where f = "\<lambda>v. s\<lparr>video := v\<rparr>"], simp add: fun_eq_iff image_Un)
qed simp

lemma all_cells:
  assumes "0 < w" "0 \<le> h"
  shows "(\<Union>y \<in> {0..h - 1}. (+) (y * w) ` {0..w - 1}) = {0..<h * w :: int}"
proof (rule set_eqI, rule iffI)
  fix i assume "i \<in> (\<Union>y \<in> {0..h - 1}. (+) (y * w) ` {0..w - 1})"
  then obtain y x where i: "y \<in> {0..h - 1}" "x \<in> {0..w - 1}" "i = y * w + x" by blast
  have "(y + 1) * w \<le> h * w" using i assms by (intro mult_right_mono) simp_all
  then show "i \<in> {0..<h * w}" using i assms by (simp add: algebra_simps)
next
  fix i assume i: "i \<in> {0..<h * w}"
  have "i div w * w \<le> i" using assms by (simp flip: minus_mod_eq_div_mult)
  then have "i div w * w < h * w" using i by simp
  then have "0 \<le> i div w" "i div w < h" using i assms by (simp_all add: pos_imp_zdiv_nonneg_iff mult_less_cancel_right)
  moreover have "0 \<le> i mod w" "i mod w < w" using assms by simp_all
  moreover have "i = i div w * w + i mod w" by simp
  ultimately show "i \<in> (\<Union>y \<in> {0..h - 1}. (+) (y * w) ` {0..w - 1})"
    by (intro UN_I [of "i div w"] image_eqI [of _ _ "i mod w"]) simp_all
qed

text \<open>Scrolling moves the rows up and clears the last one; the other memory stays.\<close>

lemma console_scroll_effect:
  "console_scroll s = s\<lparr>video := \<lambda>a. if a \<in> cell VGA_MEMORY ` {1920..<2000} then blank (console_color s)
     else if a \<in> cell VGA_MEMORY ` {0..<1920} then video s (a + 160) else video s a\<rparr>"
proof -
  have n: "VGA_WIDTH * (VGA_HEIGHT - 1) = int 1920" "VGA_WIDTH * VGA_HEIGHT = 2000" "VGA_WIDTH = 80"
    by (simp_all add: VGA_WIDTH_def VGA_HEIGHT_def)
  show ?thesis unfolding console_scroll_def n(1,2) unfolding n(3) upto_nat scroll_loop [OF order_refl] fill_range
    by (simp add: Let_def cong: if_cong)
qed

lemma console_init_effect:
  "console_init s = vga_hide_cursor (s\<lparr>console_row := 0, console_column := 0, console_color := vga_make_color 7 0,
     console_buffer := VGA_MEMORY, video := \<lambda>a. if a \<in> video_memory then blank (vga_make_color 7 0) else video s a\<rparr>)"
proof -
  have n: "VGA_WIDTH - 1 = 79" "VGA_HEIGHT - 1 = 24" "VGA_WIDTH = 80" by (simp_all add: VGA_WIDTH_def VGA_HEIGHT_def)
  have ints: "80 - 1 = (79 :: int)" "25 - 1 = (24 :: int)" "25 * 80 = (2000 :: int)" by simp_all
  have cells: "(\<Union>y \<in> {0..24}. (+) (y * 80) ` {0..79}) = {0..<2000 :: int}"
    by (rule all_cells [of 80 25, unfolded ints]) simp_all
  show ?thesis
    unfolding console_init_def Let_def n(1,2) unfolding n(3) fill_rows set_upto cells VGA_COLOR_LIGHT_GREY_def VGA_COLOR_BLACK_def video_memory_def
    by (simp cong: if_cong)
qed

section \<open>Rows\<close>

lemma row_of_cong: "video s = video t \<Longrightarrow> row_of s = row_of t"
  by (simp add: row_of_def fun_eq_iff)

lemma row_of_update:
  assumes "x < 80" "y < 25" "r < 25"
  shows "row_of (s\<lparr>video := (video s)(cell VGA_MEMORY (int y * 80 + int x) := e)\<rparr>) r =
    (if r = y then (row_of s y)[x := e] else row_of s r)"
proof -
  have "80 * int r + int c = int y * 80 + int x \<longleftrightarrow> r = y \<and> c = x" if "c < 80" for c
    using that assms by (cases r y rule: linorder_cases) auto
  then have "cell VGA_MEMORY (80 * int r + int c) = cell VGA_MEMORY (int y * 80 + int x) \<longleftrightarrow> r = y \<and> c = x" if "c < 80" for c
    using that assms by simp
  then show ?thesis by (intro nth_equalityI) (simp_all add: row_of_def nth_list_update)
qed

lemma row_of_scroll:
  assumes "r < 25"
  shows "row_of (console_scroll s) r = (if r = 24 then replicate 80 (blank (console_color s)) else row_of s (Suc r))"
proof -
  have next_row: "cell VGA_MEMORY (80 * int r + int c) + 160 = cell VGA_MEMORY (80 * int (Suc r) + int c)" for c
    using cell_add [of VGA_MEMORY "80 * int r + int c"] by (simp add: algebra_simps)
  have "cell VGA_MEMORY (80 * int r + int c) \<in> cell VGA_MEMORY ` {1920..<2000} \<longleftrightarrow> r = 24"
    "cell VGA_MEMORY (80 * int r + int c) \<in> cell VGA_MEMORY ` {0..<1920} \<longleftrightarrow> r \<noteq> 24" if "c < 80" for c
    using that assms by auto
  then show ?thesis
    by (intro nth_equalityI) (simp_all only: row_of_def console_scroll_effect next_row [symmetric], simp_all)
qed

section \<open>The console implements the terminal\<close>

text \<open>The state of the console that displays a terminal.\<close>

fun displays :: "terminal \<Rightarrow> 'a console_scheme \<Rightarrow> bool" where
  "displays (ls, l) s \<longleftrightarrow>
     console_row s = int (min (length ls) 24) \<and> console_column s = int (length l) \<and> length l < 80 \<and>
     console_buffer s = VGA_MEMORY \<and> screen s = map (screen_line (console_color s)) (shown (ls, l))"

lemma length_shown [simp]: "length (shown t) = 25"
  by (cases t) simp

lemma screen_row: "r < 25 \<Longrightarrow> row_of s r = screen s ! r"
  by (simp add: screen_def)

lemma screen_eqI: "length xs = 25 \<Longrightarrow> (\<And>r. r < 25 \<Longrightarrow> row_of s r = xs ! r) \<Longrightarrow> screen s = xs"
  by (auto simp: screen_def intro: nth_equalityI)

lemma shown_nth:
  "r < 25 \<Longrightarrow> shown (ls, l) ! r =
    (if r < min (length ls) 24 then ls ! (length ls - 24 + r) else if r = min (length ls) 24 then l else [])"
  by (auto simp: nth_append nth_Cons' min_def)

lemma screen_frame [simp]:
  "screen (s\<lparr>console_row := y\<rparr>) = screen s" "screen (s\<lparr>console_column := x\<rparr>) = screen s"
  by (simp_all add: screen_def row_of_def)

lemma screen_line_Nil [simp]: "screen_line color [] = replicate 80 (blank color)"
  by (simp add: screen_line_def)

lemma screen_line_snoc:
  "length l < 80 \<Longrightarrow> (screen_line color l)[length l := vga_make_entry c color] = screen_line color (l @ [c])"
  by (auto simp: screen_line_def list_update_append Suc_diff_le [symmetric] replicate_Suc [symmetric]
      simp del: replicate_Suc intro!: nth_equalityI simp: nth_list_update nth_append)

lemma putentry_screen:
  assumes "length l < 80" "console_buffer s = VGA_MEMORY" "screen s = map (screen_line (console_color s)) (shown (ls, l))"
  shows "screen (console_putentryat c (console_color s) (int (length l)) (int (min (length ls) 24)) s) =
    map (screen_line (console_color s)) (shown (ls, l @ [c]))"
proof (rule screen_eqI)
  fix r :: nat assume r: "r < 25"
  define y where "y = min (length ls) 24"
  have y: "y < 25" by (simp add: y_def)
  let ?t = "console_putentryat c (console_color s) (int (length l)) (int y) s"
  have "row_of ?t r = (if r = y then (row_of s y)[length l := vga_make_entry c (console_color s)] else row_of s r)"
    unfolding console_putentryat_def Let_def VGA_WIDTH_def assms(2) using assms(1) r y by (intro row_of_update) simp_all
  moreover have nth: "map (screen_line (console_color s)) (shown (ls, m)) ! q =
      screen_line (console_color s) (if q < y then ls ! (length ls - 24 + q) else if q = y then m else [])" if "q < 25" for q m
    using that unfolding y_def by (simp add: shown_nth del: shown.simps)
  moreover have "row_of s q = map (screen_line (console_color s)) (shown (ls, l)) ! q" if "q < 25" for q
    unfolding screen_row [OF that] assms(3) by (rule refl)
  ultimately show "row_of (console_putentryat c (console_color s) (int (length l)) (int (min (length ls) 24)) s) r =
      map (screen_line (console_color s)) (shown (ls, l @ [c])) ! r"
    unfolding y_def [symmetric] using r y assms(1) by (simp add: screen_line_snoc del: shown.simps nth_map)
qed simp

text \<open>The end of a line: the next row, or a scroll when the last one is full.\<close>

definition full_screen_scrolls :: "'a console_scheme \<Rightarrow> 'a console_scheme" where
  "full_screen_scrolls s =
     (if console_row s = VGA_HEIGHT then (console_scroll s)\<lparr>console_row := console_row (console_scroll s) - 1\<rparr> else s)"

definition character_put :: "u8 \<Rightarrow> 'a console_scheme \<Rightarrow> 'a console_scheme" where
  "character_put c s =
     (console_putentryat c (console_color s) (console_column s) (console_row s) s)\<lparr>console_column := console_column s + 1\<rparr>"

lemma character_put_frame [simp]:
  "console_row (character_put c s) = console_row s" "console_buffer (character_put c s) = console_buffer s"
  "console_color (character_put c s) = console_color s" "console_column (character_put c s) = console_column s + 1"
  by (simp_all add: character_put_def console_putentryat_def Let_def)

lemma putchar_cases:
  "console_putchar 10 s = full_screen_scrolls (s\<lparr>console_column := 0, console_row := console_row s + 1\<rparr>)"
  "c \<noteq> 10 \<Longrightarrow> console_column s + 1 = VGA_WIDTH \<Longrightarrow>
   console_putchar c s = full_screen_scrolls ((character_put c s)\<lparr>console_column := 0, console_row := console_row s + 1\<rparr>)"
  "c \<noteq> 10 \<Longrightarrow> console_column s + 1 \<noteq> VGA_WIDTH \<Longrightarrow> console_putchar c s = full_screen_scrolls (character_put c s)"
  by (simp_all add: console_putchar_def full_screen_scrolls_def character_put_def console_putentryat_def Let_def)

lemma line_break:
  assumes "console_row s = int (min (length ls) 24) + 1" "console_column s = 0" "console_buffer s = VGA_MEMORY"
    and "screen s = map (screen_line (console_color s)) (shown (ls, m))"
  shows "displays (ls @ [m], []) (full_screen_scrolls s)"
proof (cases "length ls < 24")
  case True
  then have "shown (ls @ [m], []) = shown (ls, m)"
    by (simp add: Suc_diff_le [symmetric] replicate_Suc [symmetric] del: replicate_Suc)
  then show ?thesis using True assms by (simp add: VGA_HEIGHT_def full_screen_scrolls_def)
next
  case False
  have "screen (console_scroll s) = map (screen_line (console_color s)) (shown (ls @ [m], []))"
  proof (rule screen_eqI)
    fix r :: nat assume r: "r < 25"
    show "row_of (console_scroll s) r = map (screen_line (console_color s)) (shown (ls @ [m], [])) ! r"
    proof (cases "r = 24")
      case True
      then show ?thesis using r False by (simp add: row_of_scroll shown_nth del: shown.simps)
    next
      case neq: False
      then have "row_of (console_scroll s) r = map (screen_line (console_color s)) (shown (ls, m)) ! Suc r"
        using r by (simp add: row_of_scroll screen_row [of _ s] assms(4) del: nth_map shown.simps)
      then show ?thesis using r neq False by (auto simp: shown_nth nth_append Suc_diff_le simp del: shown.simps
          intro!: arg_cong [where f = "\<lambda>i. screen_line _ (ls ! i)"])
    qed
  qed simp
  then show ?thesis using False assms(1-3) by (simp add: VGA_HEIGHT_def full_screen_scrolls_def console_scroll_effect del: shown.simps)
qed

lemma displays_putchar: "displays t s \<Longrightarrow> displays (type_char c t) (console_putchar c s)"
proof (cases t)
  case (Pair ls l)
  assume "displays t s"
  note d = this [unfolded Pair displays.simps]
  have put: "screen (character_put c s) = map (screen_line (console_color s)) (shown (ls, l @ [c]))"
    using putentry_screen [of l s ls c] d by (simp add: character_put_def)
  consider "c = 10" | "c \<noteq> 10" "length l = 79" | "c \<noteq> 10" "length l \<noteq> 79" by blast
  then show ?thesis
  proof cases
    case 1
    then show ?thesis using d by (simp only: Pair type_char.simps if_True putchar_cases refl) (rule line_break, simp_all)
  next
    case 2
    then have "console_column s + 1 = VGA_WIDTH" using d by (simp add: VGA_WIDTH_def)
    then have "displays (ls @ [l @ [c]], []) (console_putchar c s)"
      unfolding putchar_cases(2) [OF 2(1) \<open>console_column s + 1 = VGA_WIDTH\<close>] using d put by (intro line_break) simp_all
    then show ?thesis using 2 by (simp add: Pair del: displays.simps)
  next
    case 3
    then have "console_column s + 1 \<noteq> VGA_WIDTH" using d by (simp add: VGA_WIDTH_def)
    then have "console_putchar c s = character_put c s"
      using 3 d by (auto simp: putchar_cases full_screen_scrolls_def VGA_HEIGHT_def)
    then show ?thesis using 3 d put by (simp add: Pair del: shown.simps)
  qed
qed

text \<open>Everything stays in the video memory.\<close>

lemma putchar_video:
  assumes "displays t s" "a \<notin> video_memory"
  shows "video (console_putchar c s) a = video s a"
proof (cases t)
  case (Pair ls l)
  have "0 \<le> console_row s" "console_row s \<le> 24" "0 \<le> console_column s" "console_column s < 80" "console_buffer s = VGA_MEMORY"
    using assms(1) by (auto simp: Pair)
  then have "a \<noteq> cell (console_buffer s) (console_row s * VGA_WIDTH + console_column s)"
    using assms(2) by (auto simp: video_memory_def VGA_WIDTH_def)
  then have put: "video (character_put c s) a = video s a" by (simp add: character_put_def console_putentryat_def Let_def)
  have "a \<notin> cell VGA_MEMORY ` {1920..<2000}" "a \<notin> cell VGA_MEMORY ` {0..<1920}" using assms(2) by (auto simp: video_memory_def)
  then have scroll: "video (full_screen_scrolls u) a = video u a" for u :: "'a console_scheme"
    by (simp add: full_screen_scrolls_def console_scroll_effect)
  consider "c = 10" | "c \<noteq> 10" "console_column s + 1 = VGA_WIDTH" | "c \<noteq> 10" "console_column s + 1 \<noteq> VGA_WIDTH" by blast
  then show ?thesis using put by cases (simp_all add: putchar_cases scroll)
qed

lemma console_color_putchar: "displays t s \<Longrightarrow> console_color (console_putchar c s) = console_color s"
  by (cases "c = 10"; cases "console_column s + 1 = VGA_WIDTH")
    (simp_all add: putchar_cases full_screen_scrolls_def console_scroll_effect)

lemma changes_trans:
  "{a. h a \<noteq> g a} \<subseteq> A \<Longrightarrow> (\<And>a. a \<notin> A \<Longrightarrow> g a = f a) \<Longrightarrow> {a. h a \<noteq> f a} \<subseteq> A"
  by (rule subsetI) (metis (mono_tags, lifting) mem_Collect_eq subsetD)

lemma writestring_displays:
  assumes "displays t s"
  shows "displays (fold type_char (takeWhile ((\<noteq>) 0) p) t) (snd (console_writestring p s)) \<and>
    fst (console_writestring p s) = int (length (takeWhile ((\<noteq>) 0) p)) \<and>
    console_color (snd (console_writestring p s)) = console_color s \<and>
    {a. video (snd (console_writestring p s)) a \<noteq> video s a} \<subseteq> video_memory"
  using assms
proof (induction p s arbitrary: t rule: console_writestring.induct)
  case (2 c p s)
  show ?case
  proof (cases "c = 0")
    case False
    note IH = 2(1) [OF False displays_putchar [OF 2(2), of c]]
    have "{a. video (snd (console_writestring p (console_putchar c s))) a \<noteq> video s a} \<subseteq> video_memory"
      using conjunct2 [OF conjunct2 [OF conjunct2 [OF IH]]] putchar_video [OF 2(2), of _ c] by (rule changes_trans)
    then show ?thesis using IH False console_color_putchar [OF 2(2)] by (simp add: split_beta Let_def)
  qed (use 2(2) in simp)
qed simp

lemma init_displays: "displays ([], []) (console_init s)"
  "console_color (console_init s) = vga_make_color 7 0" "{a. video (console_init s) a \<noteq> video s a} \<subseteq> video_memory"
proof -
  have hide: "row_of (vga_hide_cursor u) = row_of u" for u :: "'a console_scheme"
    by (simp add: row_of_def fun_eq_iff vga_hide_cursor_def io_simps)
  have "row_of (console_init s) r = replicate 80 (blank (vga_make_color 7 0))" if "r < 25" for r
  proof -
    have "80 * int r + int c < 2000" if "c < 80" for c using that \<open>r < 25\<close> by simp
    then show ?thesis unfolding console_init_effect hide
      by (intro nth_equalityI) (simp_all add: row_of_def video_memory_def)
  qed
  then have "screen (console_init s) = replicate 25 (replicate 80 (blank (vga_make_color 7 0)))"
    by (intro screen_eqI) simp_all
  then show "displays ([], []) (console_init s)"
    "console_color (console_init s) = vga_make_color 7 0" "{a. video (console_init s) a \<noteq> video s a} \<subseteq> video_memory"
    by (auto simp: console_init_effect vga_hide_cursor_def io_simps map_replicate simp flip: replicate_Suc split: if_splits)
qed

lemma displays_screen: "displays t s \<Longrightarrow> screen s = map (screen_line (console_color s)) (shown t)"
  by (cases t) (simp del: shown.simps)

section \<open>Properties\<close>

text \<open>
  C16. The console is a terminal: after \<open>console_init\<close>, \<open>console_writestring\<close> returns the number of
  characters before the terminating NUL, the 25 rows of the VGA buffer show the last 25 lines of the text, broken at newlines and
  at the 80th column and padded with blanks, however much was written, and no cell outside the buffer is written.
\<close>
theorem console_shows_last_lines:
  "let text = takeWhile ((\<noteq>) 0) str; (n, t) = console_writestring str (console_init s) in
   n = int (length text) \<and>
   screen t = map (screen_line (vga_make_color 7 0)) (shown (fold type_char text ([], []))) \<and>
   {a. video t a \<noteq> video s a} \<subseteq> video_memory"
proof -
  note w = writestring_displays [OF init_displays(1), of str s, unfolded init_displays(2)]
  have outside: "a \<notin> video_memory \<Longrightarrow> video (console_init s) a = video s a" for a
    using init_displays(3) [of s] by blast
  have "{a. video (snd (console_writestring str (console_init s))) a \<noteq> video s a} \<subseteq> video_memory"
    by (rule changes_trans [OF conjunct2 [OF conjunct2 [OF conjunct2 [OF w]]] outside])
  then show ?thesis
    unfolding Let_def case_prod_beta displays_screen [OF conjunct1 [OF w]] conjunct1 [OF conjunct2 [OF conjunct2 [OF w]]]
    using w by blast
qed

end
