(* ===== verification/Bios.thy ===== *)
theory Bios
  imports X86emu_Api Console
begin

text \<open>
  \<^verbatim>\<open>kernel/x86/bios.c\<close>: the kernel calls the video BIOS in the emulator. The first page of memory is copied into the
  emulator, the rest of the first megabyte is redirected to the machine's own memory, and the emulated
  program is \<open>int 10h; hlt\<close>. The text printed on the way is left out.
\<close>

definition vm_write_byte :: "device \<Rightarrow> u32 \<Rightarrow> u32 \<Rightarrow> u8 \<Rightarrow> x86emu \<Rightarrow> x86emu" where
  "vm_write_byte dev addr val perm s =
     (let s = x86emu_write_byte_noperm dev addr val s
      in s\<lparr>emu_mem := x86emu_set_perm addr addr (ucast (perm OR X86EMU_PERM_VALID)) (emu_mem s)\<rparr>)"

definition vm_write_word :: "device \<Rightarrow> u32 \<Rightarrow> u32 \<Rightarrow> u8 \<Rightarrow> x86emu \<Rightarrow> x86emu" where
  "vm_write_word dev addr val perm s =
     (let s = x86emu_write_byte_noperm dev addr val s;
          s = x86emu_write_byte_noperm dev (addr + 1) (drop_bit 8 val) s
      in s\<lparr>emu_mem := x86emu_set_perm addr (addr + 1) (ucast (perm OR X86EMU_PERM_VALID)) (emu_mem s)\<rparr>)"

text \<open>The address where the machine's memory at \<open>start\<close> is mapped, 0 (NULL) for an empty range.\<close>

definition map_mem :: "u32 \<Rightarrow> u32 \<Rightarrow> u64" where
  "map_mem start sz = (if sz = 0 then 0 else ISA_IO_BASE + ucast start)"

primrec copy_bytes :: "device \<Rightarrow> nat \<Rightarrow> u32 \<Rightarrow> u64 \<Rightarrow> u8 \<Rightarrow> x86emu \<Rightarrow> x86emu" where
  "copy_bytes dev 0 dst src perm s = s"
| "copy_bytes dev (Suc n) dst src perm s =
     copy_bytes dev n (dst + 1) (src + 1) perm (vm_write_byte dev dst (ucast (host (emu_mem s) src)) perm s)"

definition copy_to_vm :: "device \<Rightarrow> u32 \<Rightarrow> u64 \<Rightarrow> u32 \<Rightarrow> u8 \<Rightarrow> x86emu \<Rightarrow> x86emu" where
  "copy_to_vm dev dst src sz perm s = (if sz = 0 then s else copy_bytes dev (unat sz) dst src perm s)"

definition copy_from_vm :: "device \<Rightarrow> u64 \<Rightarrow> u32 \<Rightarrow> u32 \<Rightarrow> x86emu \<Rightarrow> x86emu" where
  "copy_from_vm dev dst src n s =
     fold (\<lambda>u s. let (b, s) = x86emu_read_byte_noperm dev (src + of_nat u) s
        in s\<lparr>emu_mem := (emu_mem s)\<lparr>host := (host (emu_mem s))(dst + of_nat u := ucast b)\<rparr>\<rparr>) [0..<unat n] s"

text \<open>Faults stop the emulator, interrupts other than 10h are ignored.\<close>

definition vm_interrupt :: "x86emu \<Rightarrow> u8 \<Rightarrow> u32 \<Rightarrow> int \<times> x86emu" where
  "vm_interrupt emu num type =
     (if type AND 0xff = INTR_TYPE_FAULT then (0, x86emu_stop emu)
      else if num \<noteq> 0x10 then (1, emu) else (0, emu))"

definition redirect_page :: "nat \<Rightarrow> x86emu \<Rightarrow> x86emu" where
  "redirect_page i s =
     (let page = of_nat (0x1000 * i) in s\<lparr>emu_mem := x86emu_set_page page (Some (ucast page + ISA_IO_BASE)) (emu_mem s)\<rparr>)"

definition vm_create :: "nat \<Rightarrow> device \<Rightarrow> (u64 \<Rightarrow> u8) \<Rightarrow> machine \<Rightarrow> x86emu" where
  "vm_create iopl dev host_memory m =
     (let s = x86emu_new iopl host_memory m 0 (ucast X86EMU_PERM_RW);
          p1 = map_mem 0 0x1000;
          s = copy_to_vm dev 0 p1 0x1000 X86EMU_PERM_RW s;
          s = s\<lparr>emu_mem := x86emu_set_perm 0x1000 0xFFFFF (ucast X86EMU_PERM_RWX) (emu_mem s)\<rparr>
      in fold redirect_page [1..<0x100] s)"

definition vm_run :: "run_host \<Rightarrow> x86emu \<Rightarrow> round option" where
  "vm_run h s =
     x86emu_run h (X86EMU_RUN_LOOP OR X86EMU_RUN_NO_CODE) (s\<lparr>emu_mem := x86emu_reset_access_stats (emu_mem s)\<rparr>)"

definition vga_program :: "device \<Rightarrow> x86emu \<Rightarrow> x86emu" where
  "vga_program dev s =
     (let s = s\<lparr>emu_mem := x86emu_set_perm 0x7000 0x8000 (ucast X86EMU_PERM_RWX) (emu_mem s)\<rparr>;
          s = (x86emu_set_seg_register dev R_CS_INDEX 0 s)\<lparr>R_EIP := 0x7c00\<rparr>;
          s = (x86emu_set_seg_register dev R_SS_INDEX 0 s)\<lparr>R_ESP := 0x7c00\<rparr>;
          s = s\<lparr>R_EAX := with_h_reg 0x0F (R_EAX s)\<rparr>;
          s = s\<lparr>R_EAX := with_l_reg 0x00 (R_EAX s)\<rparr>;
          s = vm_write_word dev 0x7c00 0x10cd X86EMU_PERM_RX s;
          s = vm_write_byte dev 0x7c02 0xf4 X86EMU_PERM_RX s
      in s\<lparr>R_EAX := 0x4f02, R_EBX := 0x117 OR push_bit 14 1\<rparr>)"

text \<open>
  The result with the emulator as it was left, whose host memory and ports are those of the machine. A division that
  faults in the emulator's own code is an interrupt of the kernel without handler; disassembly text that runs over its
  buffer overwrites the kernel's memory (\<open>Buffer_overrun\<close>).
\<close>

definition vga_set_mode :: "run_host \<Rightarrow> (u64 \<Rightarrow> u8) \<Rightarrow> machine \<Rightarrow> int \<Rightarrow> (int \<times> x86emu) outcome" where
  "vga_set_mode h host_memory m vga_mode =
     (let dev = host_dev h;
          h = h\<lparr>host_intr := Some vm_interrupt, host_code_check := None, host_timeout := 0\<rparr>;
          s = vga_program dev (vm_create (host_iopl h) dev host_memory m)
      in and_then (returns (vm_run h s))
           (\<lambda>r. case r of Done err s \<Rightarrow> Inr (0, s) | Text_overrun \<Rightarrow> Inl Buffer_overrun | _ \<Rightarrow> Inl (Fatal ''Unhandled interrupt'')))"

section \<open>The memory of the emulated machine\<close>

definition set_flat :: "u32 \<Rightarrow> u8 \<Rightarrow> u8 \<Rightarrow> flat \<Rightarrow> flat" where
  "set_flat a b perm f = f\<lparr>fattr := (fattr f)(a := perm), fbyte := (fbyte f)(floc f a := b), finvalid := False\<rparr>"

lemma ucast_byte [simp]: "ucast (ucast b :: u32) = (b :: u8)"
  by (rule bit_word_eqI) (auto simp: bit_ucast_iff dest: bit_imp_le_length)

lemma flat_set_perm_byte: "flat_set_perm (unat a) (Suc (unat a)) perm f = f\<lparr>fattr := (fattr f)(a := perm)\<rparr>"
  by (auto simp: flat_set_perm_def fun_eq_iff word_unat_eq_iff)

lemma vm_write_byte_view:
  assumes "mem_ok (emu_mem s)"
  shows "mem_ok (emu_mem (vm_write_byte dev a v perm s))"
    "view (emu_mem (vm_write_byte dev a v perm s)) = set_flat a (ucast v) (perm OR X86EMU_PERM_VALID) (view (emu_mem s))"
proof -
  let ?m = "vm_w_byte_noperm ((emu_mem s)\<lparr>invalid := False\<rparr>) a v"
  have w: "mem_ok ?m" "view ?m = (view (emu_mem s))\<lparr>finvalid := False, fattr := (fattr (view (emu_mem s)))(a := fattr (view (emu_mem s)) a
      OR X86EMU_PERM_VALID OR X86EMU_ACC_W), fbyte := (fbyte (view (emu_mem s)))(floc (view (emu_mem s)) a := ucast v)\<rparr>"
    using vm_w_byte_noperm_view [of "(emu_mem s)\<lparr>invalid := False\<rparr>" a v] assms by simp_all
  have "(if a = 0 \<and> 0xFFF \<le> a then 4096 else if a \<le> a then unat a + 1 else 0) = Suc (unat a)" by simp
  then show "mem_ok (emu_mem (vm_write_byte dev a v perm s))"
    "view (emu_mem (vm_write_byte dev a v perm s)) = set_flat a (ucast v) (perm OR X86EMU_PERM_VALID) (view (emu_mem s))"
    using x86emu_set_perm_view [OF w(1), of a a "ucast (perm OR X86EMU_PERM_VALID)"] w(2)
    by (simp_all add: vm_write_byte_def write_noperm_eq flat_set_perm_byte set_flat_def)
qed

text \<open>The copy, for addresses with storage of their own.\<close>

definition copied :: "nat \<Rightarrow> nat \<Rightarrow> u64 \<Rightarrow> u8 \<Rightarrow> flat \<Rightarrow> flat" where
  "copied lo n src perm f = f
     \<lparr>fattr := \<lambda>a. if lo \<le> unat a \<and> unat a < lo + n then perm else fattr f a,
      fbyte := \<lambda>l. case l of Host_byte h \<Rightarrow> fbyte f l
        | Own_byte a \<Rightarrow> if lo \<le> unat a \<and> unat a < lo + n then fbyte f (Host_byte (src + of_nat (unat a - lo))) else fbyte f l\<rparr>"

lemma copied_step:
  assumes "floc f dst = Own_byte dst" "\<not> finvalid f"
  shows "copied (Suc (unat dst)) n (src + 1) perm (set_flat dst (fbyte f (Host_byte src)) perm f) = copied (unat dst) (Suc n) src perm f"
proof (rule flat.equality)
  have src: "src + 1 + of_nat (unat a - Suc (unat dst)) = src + of_nat (unat a - unat dst)" if "Suc (unat dst) \<le> unat a" for a :: u32
  proof -
    have "unat a - unat dst = Suc (unat a - Suc (unat dst))" using that by simp
    then show ?thesis by simp
  qed
  have where_is: "unat a < unat dst \<or> a = dst \<or> Suc (unat dst) \<le> unat a" for a
    using word_unat_eq_iff [of a dst] by linarith
  show "fattr (copied (Suc (unat dst)) n (src + 1) perm (set_flat dst (fbyte f (Host_byte src)) perm f)) =
      fattr (copied (unat dst) (Suc n) src perm f)"
  proof
    fix a show "fattr (copied (Suc (unat dst)) n (src + 1) perm (set_flat dst (fbyte f (Host_byte src)) perm f)) a =
        fattr (copied (unat dst) (Suc n) src perm f) a"
      using where_is [of a] by (elim disjE) (simp_all add: copied_def set_flat_def, auto)
  qed
  show "fbyte (copied (Suc (unat dst)) n (src + 1) perm (set_flat dst (fbyte f (Host_byte src)) perm f)) =
      fbyte (copied (unat dst) (Suc n) src perm f)"
  proof
    fix l show "fbyte (copied (Suc (unat dst)) n (src + 1) perm (set_flat dst (fbyte f (Host_byte src)) perm f)) l =
        fbyte (copied (unat dst) (Suc n) src perm f) l"
    proof (cases l)
      case (Own_byte a)
      then show ?thesis using where_is [of a] assms(1)
        by (elim disjE) (simp_all add: copied_def set_flat_def src del: of_nat_diff of_nat_add, auto)
    qed (use assms(1) in \<open>simp add: copied_def set_flat_def\<close>)
  qed
qed (simp_all add: copied_def set_flat_def assms(2))

lemma copied_none [simp]: "copied lo 0 src perm f = f"
  by (rule flat.equality) (auto simp: copied_def fun_eq_iff split: loc.splits)

lemma copy_bytes_view:
  assumes "mem_ok (emu_mem s)" "unat dst + n < 2 ^ 32" "\<not> finvalid (view (emu_mem s))"
    and "\<And>a. floc (view (emu_mem s)) a = Own_byte a"
  shows "mem_ok (emu_mem (copy_bytes dev n dst source perm s)) \<and>
    view (emu_mem (copy_bytes dev n dst source perm s)) = copied (unat dst) n source (perm OR X86EMU_PERM_VALID) (view (emu_mem s))"
  using assms
proof (induction n arbitrary: dst source s)
  case (Suc n)
  define t where "t = vm_write_byte dev dst (ucast (host (emu_mem s) source)) perm s"
  have host: "host (emu_mem s) source = fbyte (view (emu_mem s)) (Host_byte source)" by (simp add: view_def)
  have t: "mem_ok (emu_mem t)"
    "view (emu_mem t) = set_flat dst (fbyte (view (emu_mem s)) (Host_byte source)) (perm OR X86EMU_PERM_VALID) (view (emu_mem s))"
    using vm_write_byte_view [OF Suc.prems(1)] by (simp_all add: t_def host)
  have up: "unat (dst + 1) = Suc (unat dst)" using Suc.prems(2) by (simp add: unat_word_ariths)
  have step: "copy_bytes dev (Suc n) dst source perm s = copy_bytes dev n (dst + 1) (source + 1) perm t" by (simp add: t_def)
  show ?case unfolding step copied_step [OF Suc.prems(4,3), symmetric] t(2) [symmetric] up [symmetric]
    by (rule Suc.IH [OF t(1)]) (use Suc.prems(2,4) in \<open>simp_all add: up t(2) set_flat_def\<close>)
qed simp

text \<open>Redirecting the pages from the second one on.\<close>

definition redirected :: "nat \<Rightarrow> flat \<Rightarrow> flat" where
  "redirected n f = f
     \<lparr>fattr := \<lambda>a. if 0 < unat a div 4096 \<and> unat a div 4096 < n then fattr f a OR X86EMU_PERM_VALID else fattr f a,
      floc := \<lambda>a. if 0 < unat a div 4096 \<and> unat a div 4096 < n then Host_byte (ISA_IO_BASE + ucast a) else floc f a\<rparr>"

lemma page_address:
  assumes "i < 0x100"
  shows "same_page (of_nat (0x1000 * i)) a \<longleftrightarrow> unat a div 4096 = i"
    "same_page (of_nat (0x1000 * i)) a \<Longrightarrow> ucast (of_nat (0x1000 * i) :: u32) + of_nat (page_idx a) = (ucast a :: u64)"
proof -
  have u: "unat (of_nat (0x1000 * i) :: u32) = 0x1000 * i"
    using assms by (simp only: unsigned_of_nat of_nat_id) (rule take_bit_nat_eq_self, simp)
  then show p: "same_page (of_nat (0x1000 * i)) a \<longleftrightarrow> unat a div 4096 = i" by (auto simp: same_page_div)
  show "ucast (of_nat (0x1000 * i) :: u32) + of_nat (page_idx a) = (ucast a :: u64)" if "same_page (of_nat (0x1000 * i)) a"
  proof -
    have "(ucast (of_nat (0x1000 * i) :: u32) :: u64) = of_nat (0x1000 * i)"
      by (metis of_nat_unat u)
    moreover have "0x1000 * i + page_idx a = unat a" using that p by (simp add: page_idx_mod) (metis mult_div_mod_eq)
    ultimately show ?thesis by (metis of_nat_add of_nat_unat)
  qed
qed

lemma redirect_view:
  "mem_ok (emu_mem s) \<Longrightarrow> n \<le> 0x100 \<Longrightarrow>
   t = fold redirect_page [1..<n] s \<Longrightarrow>
   mem_ok (emu_mem t) \<and> view (emu_mem t) = redirected n (view (emu_mem s))"
proof (induction n arbitrary: t)
  case 0
  then show ?case by (auto simp: redirected_def intro!: flat.equality)
next
  case (Suc n)
  define u where "u = fold redirect_page [1..<n] s"
  have u: "mem_ok (emu_mem u)" "view (emu_mem u) = redirected n (view (emu_mem s))" using Suc.IH [OF Suc.prems(1) _ u_def] Suc.prems(2) by simp_all
  show ?case
  proof (cases "n = 0")
    case True
    have "redirected (Suc 0) f = f" for f by (rule flat.equality) (auto simp: redirected_def fun_eq_iff)
    then show ?thesis using Suc.prems True by simp
  next
    case False
    then have t: "emu_mem t = x86emu_set_page (of_nat (0x1000 * n)) (Some (ucast (of_nat (0x1000 * n) :: u32) + ISA_IO_BASE)) (emu_mem u)"
      using Suc.prems(3) by (simp add: u_def) (simp add: redirect_page_def Let_def)
    note p = page_address [of n]
    have "ucast (of_nat (0x1000 * n) :: u32) + ISA_IO_BASE + of_nat (page_idx a) = ISA_IO_BASE + ucast a"
      if "unat a div 4096 = n" for a :: u32
      using p(2) [of a] p(1) [of a] that Suc.prems(2) by (simp add: algebra_simps)
    then show ?thesis
      using x86emu_set_page_view [OF u(1)] u(2) False Suc.prems(2) p(1) unfolding t
      by (auto simp: redirected_def fun_eq_iff less_Suc_eq intro!: flat.equality)
  qed
qed

definition bios_memory :: "(u64 \<Rightarrow> u8) \<Rightarrow> flat" where
  "bios_memory m =
     \<lparr>fattr = \<lambda>a. if unat a < 0x1000 then X86EMU_PERM_RW OR X86EMU_PERM_VALID
        else if unat a < 0x100000 then X86EMU_PERM_RWX OR X86EMU_PERM_VALID else 0,
      floc = \<lambda>a. if 0x1000 \<le> unat a \<and> unat a < 0x100000 then Host_byte (ISA_IO_BASE + ucast a) else Own_byte a,
      fbyte = \<lambda>l. case l of Host_byte p \<Rightarrow> m p
        | Own_byte a \<Rightarrow> if unat a < 0x1000 then m (ISA_IO_BASE + ucast a) else 0,
      finvalid = False\<rparr>"

lemma new_memory: "emu_mem (x86emu_new iopl m io 0 p) = emu_mem_new 0 m"
  by (simp add: x86emu_new_def x86emu_reset_def x86emu_set_io_perm_def Let_def)

lemma vm_create_eq:
  "vm_create iopl dev m io = fold redirect_page [1..<0x100]
     (let c = copy_bytes dev 4096 0 ISA_IO_BASE X86EMU_PERM_RW (x86emu_new iopl m io 0 (ucast X86EMU_PERM_RW))
      in c\<lparr>emu_mem := x86emu_set_perm 0x1000 0xFFFFF (ucast X86EMU_PERM_RWX) (emu_mem c)\<rparr>)"
  by (simp only: vm_create_def Let_def map_mem_def copy_to_vm_def) simp

lemma vm_create_view:
  "mem_ok (emu_mem (vm_create iopl dev m io)) \<and> view (emu_mem (vm_create iopl dev m io)) = bios_memory m"
proof -
  define s where "s = x86emu_new iopl m io 0 (ucast X86EMU_PERM_RW)"
  define c where "c = copy_bytes dev 4096 0 ISA_IO_BASE X86EMU_PERM_RW s"
  define d where "d = c\<lparr>emu_mem := x86emu_set_perm 0x1000 0xFFFFF (ucast X86EMU_PERM_RWX) (emu_mem c)\<rparr>"
  have new: "emu_mem s = emu_mem_new 0 m" by (simp add: s_def new_memory)
  have s: "mem_ok (emu_mem s)" "view (emu_mem s) =
      \<lparr>fattr = (\<lambda>_. 0), floc = Own_byte, fbyte = (\<lambda>l. case l of Own_byte _ \<Rightarrow> 0 | Host_byte a \<Rightarrow> m a), finvalid = False\<rparr>"
    unfolding new by (rule emu_mem_new_view)+
  have c: "mem_ok (emu_mem c) \<and> view (emu_mem c) = copied 0 4096 ISA_IO_BASE (X86EMU_PERM_RW OR X86EMU_PERM_VALID) (view (emu_mem s))"
    using copy_bytes_view [where s = s and dst = 0 and n = 4096] s unfolding c_def by simp
  have d: "mem_ok (emu_mem d)" "view (emu_mem d) = flat_set_perm 4096 0x100000 X86EMU_PERM_RWX (view (emu_mem c))"
    using x86emu_set_perm_view [OF conjunct1 [OF c], of "0x1000" "0xFFFFF"] c by (simp_all add: d_def)
  have "vm_create iopl dev m io = fold redirect_page [1..<0x100] d" unfolding vm_create_eq Let_def d_def c_def s_def by (rule refl)
  note r = redirect_view [OF d(1) order_refl this]
  have small: "0 < n div 4096 \<longleftrightarrow> 4096 \<le> n" "n div 4096 < 256 \<longleftrightarrow> n < 1048576" for n :: nat by (simp_all add: div_greater_zero_iff div_less_iff_less_mult)
  show ?thesis using r unfolding d(2) conjunct2 [OF c] s(2)
    by (auto simp: redirected_def copied_def flat_set_perm_def bios_memory_def small fun_eq_iff intro!: flat.equality split: loc.splits)
qed

section \<open>What the call may touch\<close>

text \<open>The machine's memory from 4 KB to 1 MB, as the kernel sees it.\<close>

definition low_memory :: "u64 set" where
  "low_memory = (\<lambda>a :: u32. ISA_IO_BASE + ucast a) ` {a. 0x1000 \<le> unat a \<and> unat a < 0x100000}"

definition bios_sandbox :: "(u64 \<Rightarrow> u8) \<Rightarrow> flat \<Rightarrow> bool" where
  "bios_sandbox m f \<longleftrightarrow> floc f = floc (bios_memory m) \<and> (\<forall>a. fattr f a AND X86EMU_PERM_W \<noteq> 0 \<longrightarrow> unat a < 0x100000) \<and>
     {p. fbyte f (Host_byte p) \<noteq> m p} \<subseteq> low_memory"

lemma bios_place:
  assumes "unat a < 0x100000" "Host_byte p = floc (bios_memory m) a"
  shows "p \<in> low_memory"
  using assms by (auto simp: bios_memory_def low_memory_def split: if_splits)

lemma bios_sandbox_start: "bios_sandbox m (bios_memory m)"
  by (simp add: bios_sandbox_def) (simp add: bios_memory_def)

lemma bios_sandbox_perm: "hi \<le> 0x100000 \<Longrightarrow> bios_sandbox m f \<Longrightarrow> bios_sandbox m (flat_set_perm lo hi perm f)"
  by (auto simp: bios_sandbox_def flat_set_perm_def)

lemma bios_sandbox_invalid [simp]: "bios_sandbox m (f\<lparr>finvalid := i\<rparr>) = bios_sandbox m f"
  by (simp add: bios_sandbox_def)

lemma bios_sandbox_byte:
  assumes "unat a < 0x100000" "bios_sandbox m f"
  shows "bios_sandbox m (f\<lparr>fattr := (fattr f)(a := perm), fbyte := (fbyte f)(floc f a := b)\<rparr>)"
  using assms bios_place [OF assms(1), of _ m] by (auto simp: bios_sandbox_def)

lemma bios_sandbox_step:
  assumes "mem_step f g" "bios_sandbox m f"
  shows "bios_sandbox m g"
proof -
  have same: "same_bits f g" "floc g = floc f" and bytes: "\<And>l. fbyte g l \<noteq> fbyte f l \<Longrightarrow> \<exists>b. l = floc f b \<and> fattr f b AND X86EMU_PERM_W \<noteq> 0"
    using assms(1) by (auto simp: mem_step_def)
  have "p \<in> low_memory" if "fbyte g (Host_byte p) \<noteq> m p" for p
  proof (cases "fbyte g (Host_byte p) = fbyte f (Host_byte p)")
    case True
    then show ?thesis using that assms(2) by (auto simp: bios_sandbox_def)
  next
    case False
    then obtain b where "Host_byte p = floc f b" "fattr f b AND X86EMU_PERM_W \<noteq> 0" using bytes by blast
    then show ?thesis using assms(2) bios_place [of b p m] by (simp add: bios_sandbox_def)
  qed
  then show ?thesis using assms(2) same same_bits_perm(2) [OF same(1)] by (auto simp: bios_sandbox_def)
qed

text \<open>The emulator during the set-up: consistent pages, a machine in real mode, and the sandbox.\<close>

definition bios_ready :: "(u64 \<Rightarrow> u8) \<Rightarrow> machine \<Rightarrow> x86emu \<Rightarrow> bool" where
  "bios_ready m io s \<longleftrightarrow> emu_ok s \<and> bios_sandbox m (view (emu_mem s)) \<and> host_io s = io \<and> MODE_REAL s"

lemma bios_ready_write:
  assumes "bios_ready m io s" "unat a < 0x100000"
  shows "bios_ready m io (x86emu_write_byte_noperm dev a v s)"
proof -
  let ?mem = "(emu_mem s)\<lparr>invalid := False\<rparr>"
  have "mem_ok ?mem" "bios_sandbox m (view (emu_mem s))" using assms(1) by (simp_all add: bios_ready_def emu_ok_def)
  note w = vm_w_byte_noperm_view [OF this(1), of a v]
    and b = bios_sandbox_byte [OF assms(2), of m "(view (emu_mem s))\<lparr>finvalid := False\<rparr>", simplified bios_sandbox_invalid, OF this(2)]
  have "bios_sandbox m (view (vm_w_byte_noperm ?mem a v))" using b by (simp add: w)
  then show ?thesis using assms(1) w(2) by (simp add: bios_ready_def write_noperm_eq emu_ok_def shape_def MODE_REAL_def MODE_PROTECTED_def R_CR0_def)
qed

lemma bios_ready_perm:
  assumes "bios_ready m io s" "0 < lo" "lo \<le> hi" "unat hi < 0x100000"
  shows "bios_ready m io (s\<lparr>emu_mem := x86emu_set_perm lo hi perm (emu_mem s)\<rparr>)"
proof -
  have ok: "mem_ok (emu_mem s)" "bios_sandbox m (view (emu_mem s))" using assms(1) by (simp_all add: bios_ready_def emu_ok_def)
  have "lo \<noteq> 0" using assms(2) by simp
  then have "mem_ok (x86emu_set_perm lo hi perm (emu_mem s))"
    "view (x86emu_set_perm lo hi perm (emu_mem s)) = flat_set_perm (unat lo) (unat hi + 1) (ucast perm) (view (emu_mem s))"
    using x86emu_set_perm_view [OF ok(1), of lo hi perm] assms(3) by simp_all
  then show ?thesis using assms(1) bios_sandbox_perm [OF _ ok(2)] assms(4)
    by (simp add: bios_ready_def emu_ok_def shape_def MODE_REAL_def MODE_PROTECTED_def R_CR0_def)
qed

lemma bios_ready_update:
  assumes "bios_ready m io s"
  shows "bios_ready m io (s\<lparr>R_EAX := x\<rparr>)" "bios_ready m io (s\<lparr>R_EBX := x\<rparr>)" "bios_ready m io (s\<lparr>R_ESP := x\<rparr>)"
    "bios_ready m io (s\<lparr>R_EIP := x\<rparr>)" "bios_ready m io (x86emu_set_seg_register dev i w s)"
proof -
  have "MODE_REAL s" using assms by (simp add: bios_ready_def)
  then show "bios_ready m io (x86emu_set_seg_register dev i w s)"
    using assms by (simp add: set_CS_real bios_ready_def emu_ok_def shape_def MODE_REAL_def MODE_PROTECTED_def R_CR0_def)
qed (use assms in \<open>simp_all add: bios_ready_def emu_ok_def shape_def MODE_REAL_def MODE_PROTECTED_def R_CR0_def\<close>)

lemma vga_program_ready:
  assumes "bios_ready m io s"
  shows "bios_ready m io (vga_program dev s)"
  unfolding vga_program_def vm_write_word_def vm_write_byte_def Let_def
  by (intro bios_ready_update bios_ready_perm bios_ready_write assms) simp_all

lemma handler_keeps:
  "handlers_keep (\<lambda>t. confined s0 t \<and> shape t) (h\<lparr>host_intr := Some vm_interrupt, host_code_check := None, host_timeout := 0\<rparr>)"
proof -
  have "holds (confined s0) (snd (vm_interrupt s nr t))" if "holds (confined s0) s" for s nr t
    using that sandbox.raised(6) [OF that] by (simp add: vm_interrupt_def)
  then show ?thesis by (simp add: handlers_keep_def holds_def)
qed

lemma vm_create_other:
  "shape (vm_create iopl dev m io)" "host_io (vm_create iopl dev m io) = io" "MODE_REAL (vm_create iopl dev m io)"
proof -
  define same where "same s t \<longleftrightarrow> R_FLG t = R_FLG s \<and> instr_buf t = instr_buf s \<and> default_seg t = default_seg s \<and>
    host_io t = host_io s \<and> crx t = crx s \<and> disasm_len t = disasm_len s" for s t :: x86emu
  have copy: "same s (copy_bytes dev n dst a perm s)" for n dst a perm s
    by (induction n arbitrary: dst a s) (simp_all add: same_def vm_write_byte_def write_noperm_eq)
  have pages: "same s (fold redirect_page ks s)" for ks s
    by (induction ks arbitrary: s) (simp_all add: same_def redirect_page_def Let_def)
  have trans: "same s t \<Longrightarrow> same t u \<Longrightarrow> same s u" for s t u by (simp add: same_def)
  define s where "s = x86emu_new iopl m io 0 (ucast X86EMU_PERM_RW)"
  have "same s (vm_create iopl dev m io)"
    unfolding vm_create_eq Let_def s_def [symmetric]
    by (rule trans [OF _ pages], rule trans [OF copy]) (simp add: same_def)
  moreover have "R_FLG s = 2" "instr_buf s = []" "default_seg s = None" "host_io s = io" "crx s = (\<lambda>_. 0)" "disasm_len s = 0"
    by (simp_all add: s_def x86emu_new_def x86emu_reset_def x86emu_set_io_perm_def Let_def)
  ultimately show "shape (vm_create iopl dev m io)" "host_io (vm_create iopl dev m io) = io" "MODE_REAL (vm_create iopl dev m io)"
    by (simp_all add: same_def shape_def reserved_def F_ALWAYS_ON_def MODE_REAL_def MODE_PROTECTED_def R_CR0_def)
qed

lemma vga_set_mode_ready: "bios_ready m io (vga_program dev (vm_create iopl dev m io))"
  using vm_create_view [of iopl dev m io] vm_create_other [of iopl dev m io]
  by (intro vga_program_ready) (simp add: bios_ready_def emu_ok_def bios_sandbox_start)

lemma vm_run_confined:
  assumes "bios_ready m io s" "vm_run (h\<lparr>host_intr := Some vm_interrupt, host_code_check := None, host_timeout := 0\<rparr>) s = Some (Done e t)"
  shows "bios_sandbox m (view (emu_mem t))" "\<exists>new. port_log (host_io t) = new @ port_log io"
proof -
  let ?h = "h\<lparr>host_intr := Some vm_interrupt, host_code_check := None, host_timeout := 0\<rparr>"
  define u where "u = s\<lparr>emu_mem := x86emu_reset_access_stats (emu_mem s)\<rparr>"
  define u0 where "u0 = u\<lparr>iopl_ok := \<not> (iopl_needed u \<and> host_iopl ?h \<noteq> 3)\<rparr>"
  have s: "emu_ok s" "bios_sandbox m (view (emu_mem s))" "host_io s = io" using assms(1) by (simp_all add: bios_ready_def)
  then have ok: "emu_ok u" by (simp add: u_def emu_ok_def shape_def reset_stats_view(1))
  have "bios_sandbox m (view (emu_mem u))"
    using s(2) by (simp add: bios_sandbox_def u_def reset_stats_view)
  then have start: "bios_sandbox m (view (emu_mem u0))" "host_io u0 = io" by (simp_all add: u0_def u_def s(3))
  have "x86emu_run ?h (X86EMU_RUN_LOOP OR X86EMU_RUN_NO_CODE) u = Some (Done e t)"
    using assms(2) by (simp add: vm_run_def u_def)
  from run_confined(1) [OF ok u0_def handler_keeps this]
  have "mem_step (view (emu_mem u0)) (view (emu_mem t))" "port_step u0 t" by (simp_all add: confined_def)
  then show "bios_sandbox m (view (emu_mem t))" "\<exists>new. port_log (host_io t) = new @ port_log io"
    using bios_sandbox_step start by (auto simp: port_step_def)
qed

section \<open>Properties\<close>

text \<open>
  C22. The machine \<open>vm_create\<close> sets up for the BIOS: the first page is a readable and writable copy of the machine's, with the interrupt
  table; from 4 KB to 1 MB every address is the machine's own memory, readable, writable and executable; and there is nothing above.
\<close>
theorem vm_create_memory:
  "view (emu_mem (vm_create iopl dev m io)) =
     \<lparr>fattr = \<lambda>a. if unat a < 0x1000 then X86EMU_PERM_RW OR X86EMU_PERM_VALID
        else if unat a < 0x100000 then X86EMU_PERM_RWX OR X86EMU_PERM_VALID else 0,
      floc = \<lambda>a. if 0x1000 \<le> unat a \<and> unat a < 0x100000 then Host_byte (ISA_IO_BASE + ucast a) else Own_byte a,
      fbyte = \<lambda>l. case l of Host_byte p \<Rightarrow> m p
        | Own_byte a \<Rightarrow> if unat a < 0x1000 then m (ISA_IO_BASE + ucast a) else 0,
      finvalid = False\<rparr>"
  using vm_create_view [of iopl dev m io] by (simp add: bios_memory_def)

text \<open>
  C21. When \<open>vga_set_mode\<close> returns, the machine's memory is as it was but for the range from
  4 KB to 1 MB: the copy of the first page shields the interrupt table, and the kernel's own memory is out of reach of the video BIOS. The call
  returns 0, or does not return because the emulated program runs for ever, makes the emulator's own division fault,
  or has an instruction with so many prefixes that their disassembly leaves less than \<open>INSTR_TEXT\<close> bytes of its
  buffer, which is the one way out of the confinement: nothing is said of the memory then.
\<close>
theorem bios_call_is_confined:
  "case vga_set_mode h m io vga_mode of
     Inl e \<Rightarrow> e \<in> {Spins_forever, Fatal ''Unhandled interrupt'', Buffer_overrun}
   | Inr (r, t) \<Rightarrow> r = 0 \<and> {p. host (emu_mem t) p \<noteq> m p} \<subseteq> (\<lambda>a :: u32. ISA_IO_BASE + ucast a) ` {a. 0x1000 \<le> unat a \<and> unat a < 0x100000} \<and>
       (\<exists>new. port_log (host_io t) = new @ port_log io)"
proof -
  let ?h = "h\<lparr>host_intr := Some vm_interrupt, host_code_check := None, host_timeout := 0\<rparr>"
  define s where "s = vga_program (host_dev h) (vm_create (host_iopl ?h) (host_dev h) m io)"
  have ready: "bios_ready m io s" unfolding s_def by (rule vga_set_mode_ready)
  have byte: "host mem p = fbyte (view mem) (Host_byte p)" for mem p by (simp add: view_def)
  have ended: "{p. host (emu_mem t) p \<noteq> m p} \<subseteq> low_memory" "\<exists>new. port_log (host_io t) = new @ port_log io"
    if "vm_run ?h s = Some (Done e t)" for e t
    using vm_run_confined [OF ready that] by (simp_all add: bios_sandbox_def byte)
  have r: "vga_set_mode h m io vga_mode = and_then (returns (vm_run ?h s))
      (\<lambda>r. case r of Done err s \<Rightarrow> Inr (0, s) | Text_overrun \<Rightarrow> Inl Buffer_overrun | _ \<Rightarrow> Inl (Fatal ''Unhandled interrupt''))"
    by (simp only: vga_set_mode_def Let_def s_def)
  show ?thesis
  proof (cases "vm_run ?h s")
    case None
    then show ?thesis unfolding r by simp
  next
    case (Some q)
    then show ?thesis using ended unfolding r low_memory_def by (cases q) simp_all
  qed
qed

end
