(* ===== verification/Printf.thy ===== *)
theory Printf
  imports Console "HOL-Library.Char_ord"
begin

text \<open>
  \<^verbatim>\<open>libc/stdio/printf.c\<close>, \<^verbatim>\<open>puts.c\<close> and \<^verbatim>\<open>putchar.c\<close>: formatted output to the console. Strings are lists of
  characters without their NUL; what the code appends to the output buffer is the result of the function. The variable arguments are the
  64-bit slots in the order they are taken, a pointer is an address of the given memory. \<open>flt\<close>, the text of a floating-point number,
  is a parameter.
\<close>

definition ZEROPAD :: u32 where "ZEROPAD = 1"
definition SIGN :: u32 where "SIGN = 2"
definition PLUS :: u32 where "PLUS = 4"
definition SPACE :: u32 where "SPACE = 8"
definition LEFT :: u32 where "LEFT = 16"
definition HEX_PREP :: u32 where "HEX_PREP = 32"
definition UPPERCASE :: u32 where "UPPERCASE = 64"

definition is_digit :: "char \<Rightarrow> bool" where
  "is_digit c \<longleftrightarrow> CHR ''0'' \<le> c \<and> c \<le> CHR ''9''"

definition lower_digits :: string where "lower_digits = ''0123456789abcdefghijklmnopqrstuvwxyz''"
definition upper_digits :: string where "upper_digits = ''0123456789ABCDEFGHIJKLMNOPQRSTUVWXYZ''"

text \<open>The string at an address, of at most \<open>count\<close> characters.\<close>

function strnlen :: "(u64 \<Rightarrow> u8) \<Rightarrow> u64 \<Rightarrow> nat \<Rightarrow> nat" where
  "strnlen mem s count = (if mem s = 0 \<or> count = 0 then 0 else Suc (strnlen mem (s + 1) (count - 1)))"
  by auto
termination by (relation "measure (\<lambda>(mem, s, count). count)") auto

declare strnlen.simps [simp del]

fun ee_skip_atoi :: "string \<Rightarrow> int \<Rightarrow> int \<times> string" where
  "ee_skip_atoi [] i = (i, [])"
| "ee_skip_atoi (c # s) i = (if is_digit c then ee_skip_atoi s (i * 10 + (of_char c - 48)) else (i, c # s))"

section \<open>Numbers and addresses\<close>

text \<open>\<open>while (size-- > 0) *str++ = c\<close> and \<open>while (len < size--) *str++ = ' '\<close>, with the value \<open>size\<close> is left with.\<close>

definition pad :: "char \<Rightarrow> int \<Rightarrow> string \<times> int" where
  "pad c n = (replicate (nat n) c, min n 0 - 1)"

definition pad_to :: "int \<Rightarrow> int \<Rightarrow> string \<times> int" where
  "pad_to n field = (replicate (nat (field - n)) CHR '' '', min field n - 1)"

text \<open>The digits, the lowest first (the base is at least 2 where this is used).\<close>

function tmp_digits :: "string \<Rightarrow> u64 \<Rightarrow> u64 \<Rightarrow> string" where
  "tmp_digits dig base num = (if num = 0 \<or> base < 2 then [] else dig ! unat (num mod base) # tmp_digits dig base (num div base))"
  by auto
termination
proof (relation "measure (\<lambda>(dig, base, num). unat num)")
  fix dig :: string and base num :: u64 assume "\<not> (num = 0 \<or> base < 2)"
  then have "unat num \<noteq> 0" "1 < unat base" by (auto simp: word_less_nat_alt unat_eq_0)
  then show "((dig, base, num div base), dig, base, num) \<in> measure (\<lambda>(dig, base, num). unat num)" by (simp add: unat_div)
qed simp

declare tmp_digits.simps [simp del]

definition ee_number :: "u64 \<Rightarrow> int \<Rightarrow> int \<Rightarrow> int \<Rightarrow> u32 \<Rightarrow> string option" where
  "ee_number num base field precision type =
     (let dig = (if type AND UPPERCASE \<noteq> 0 then upper_digits else lower_digits);
          type = (if type AND LEFT \<noteq> 0 then type AND NOT ZEROPAD else type)
      in if base < 2 \<or> base > 36 then None
         else
           let c = (if type AND ZEROPAD \<noteq> 0 then CHR ''0'' else CHR '' '');
               (sign, num, field) =
                 (if type AND SIGN \<noteq> 0 then
                    if num <s 0 then (''-'', - num, field - 1)
                    else if type AND PLUS \<noteq> 0 then (''+'', num, field - 1)
                    else if type AND SPACE \<noteq> 0 then ('' '', num, field - 1)
                    else ('''', num, field)
                  else ('''', num, field));
               field = (if type AND HEX_PREP \<noteq> 0 then if base = 16 then field - 2 else if base = 8 then field - 1 else field else field);
               tmp = (if num = 0 then ''0'' else tmp_digits dig (word_of_int base) num);
               i = int (length tmp);
               precision = (if i > precision then i else precision);
               field = field - precision;
               (spaces, field) = (if type AND (ZEROPAD OR LEFT) = 0 then pad CHR '' '' field else ('''', field));
               prefix = (if type AND HEX_PREP \<noteq> 0 then
                           if base = 8 then ''0'' else if base = 16 then [CHR ''0'', lower_digits ! 33] else '''' else '''');
               (zeros, field) = (if type AND LEFT = 0 then pad c field else ('''', field));
               (after, field) = pad CHR '' '' field
           in Some (spaces @ sign @ prefix @ zeros @ replicate (nat (precision - i)) CHR ''0'' @ rev tmp @ after))"

definition hex_byte :: "string \<Rightarrow> u8 \<Rightarrow> string" where
  "hex_byte dig b = [dig ! unat (drop_bit 4 b), dig ! unat (b AND 0x0F)]"

definition eaddr :: "(u64 \<Rightarrow> u8) \<Rightarrow> u64 \<Rightarrow> int \<Rightarrow> int \<Rightarrow> u32 \<Rightarrow> string" where
  "eaddr mem addr field precision type =
     (let dig = (if type AND UPPERCASE \<noteq> 0 then upper_digits else lower_digits);
          tmp = concat (map (\<lambda>i. (if i \<noteq> 0 then '':'' else '''') @ hex_byte dig (mem (addr + of_nat i))) [0..<6]);
          (before, field) = (if type AND LEFT = 0 then pad_to (int (length tmp)) field else ('''', field));
          (after, field) = pad_to (int (length tmp)) field
      in before @ tmp @ after)"

definition decimal_byte :: "nat \<Rightarrow> string" where
  "decimal_byte n =
     (if n = 0 then [lower_digits ! 0]
      else if n \<ge> 100 then [lower_digits ! (n div 100), lower_digits ! (n mod 100 div 10), lower_digits ! (n mod 100 mod 10)]
      else if n \<ge> 10 then [lower_digits ! (n div 10), lower_digits ! (n mod 10)]
      else [lower_digits ! n])"

definition iaddr :: "(u64 \<Rightarrow> u8) \<Rightarrow> u64 \<Rightarrow> int \<Rightarrow> int \<Rightarrow> u32 \<Rightarrow> string" where
  "iaddr mem addr field precision type =
     (let tmp = concat (map (\<lambda>i. (if i \<noteq> 0 then ''.'' else '''') @ decimal_byte (unat (mem (addr + of_nat i)))) [0..<4]);
          (before, field) = (if type AND LEFT = 0 then pad_to (int (length tmp)) field else ('''', field));
          (after, field) = pad_to (int (length tmp)) field
      in before @ tmp @ after)"

section \<open>Formats\<close>

fun parse_flags :: "string \<Rightarrow> u32 \<Rightarrow> u32 \<times> string" where
  "parse_flags [] flags = (flags, [])"
| "parse_flags (c # fmt) flags =
     (if c = CHR ''-'' then parse_flags fmt (flags OR LEFT)
      else if c = CHR ''+'' then parse_flags fmt (flags OR PLUS)
      else if c = CHR '' '' then parse_flags fmt (flags OR SPACE)
      else if c = CHR ''#'' then parse_flags fmt (flags OR HEX_PREP)
      else if c = CHR ''0'' then parse_flags fmt (flags OR ZEROPAD)
      else (flags, c # fmt))"

text \<open>The arguments: the slots, and the number of the next one.\<close>

type_synonym arguments = "nat \<Rightarrow> u64"

definition int_arg :: "arguments \<Rightarrow> nat \<Rightarrow> int" where
  "int_arg args n = sint (ucast (args n) :: u32)"

definition parse_width :: "arguments \<Rightarrow> string \<Rightarrow> u32 \<Rightarrow> nat \<Rightarrow> int \<times> u32 \<times> string \<times> nat" where
  "parse_width args fmt flags n =
     (case fmt of [] \<Rightarrow> (- 1, flags, fmt, n)
      | c # rest \<Rightarrow>
          if is_digit c then let (w, fmt) = ee_skip_atoi fmt 0 in (w, flags, fmt, n)
          else if c = CHR ''*'' then
            let w = int_arg args n in if w < 0 then (- w, flags OR LEFT, rest, n + 1) else (w, flags, rest, n + 1)
          else (- 1, flags, fmt, n))"

definition parse_precision :: "arguments \<Rightarrow> string \<Rightarrow> nat \<Rightarrow> int \<times> string \<times> nat" where
  "parse_precision args fmt n =
     (case fmt of [] \<Rightarrow> (- 1, fmt, n)
      | c # rest \<Rightarrow>
          if c = CHR ''.'' then
            let (p, fmt, n) =
              (case rest of [] \<Rightarrow> (- 1, rest, n)
               | d # rest' \<Rightarrow>
                   if is_digit d then let (p, fmt) = ee_skip_atoi rest 0 in (p, fmt, n)
                   else if d = CHR ''*'' then (int_arg args n, rest', n + 1)
                   else (- 1, rest, n))
            in (if p < 0 then 0 else p, fmt, n)
          else (- 1, fmt, n))"

definition parse_qualifier :: "string \<Rightarrow> char option \<times> string" where
  "parse_qualifier fmt =
     (case fmt of [] \<Rightarrow> (None, fmt)
      | c # rest \<Rightarrow> if c = CHR ''l'' \<or> c = CHR ''L'' then (Some c, rest) else (None, fmt))"

definition string_at :: "(u64 \<Rightarrow> u8) \<Rightarrow> u64 \<Rightarrow> nat \<Rightarrow> string" where
  "string_at mem s n = map (\<lambda>i. char_of (unat (mem (s + of_nat i)))) [0..<n]"

text \<open>\<open>%c\<close> and \<open>%s\<close>. A negative precision is no limit, as a \<open>size_t\<close>.\<close>

definition format_char :: "char \<Rightarrow> int \<Rightarrow> u32 \<Rightarrow> string" where
  "format_char c field flags =
     (let (before, field) = (if flags AND LEFT = 0 then (replicate (nat (field - 1)) CHR '' '', min (field - 1) 0) else ('''', field))
      in before @ c # replicate (nat (field - 1)) CHR '' '')"

definition format_string :: "(u64 \<Rightarrow> u8) \<Rightarrow> u64 \<Rightarrow> int \<Rightarrow> int \<Rightarrow> u32 \<Rightarrow> string" where
  "format_string mem s field precision flags =
     (let limit = unat (word_of_int precision :: u64);
          text = (if s = 0 then take limit ''<NULL>'' else string_at mem s (strnlen mem s limit));
          n = int (length text);
          (before, field) = (if flags AND LEFT = 0 then pad_to n field else ('''', field));
          (after, field) = pad_to n field
      in before @ text @ after)"

definition number_arg :: "arguments \<Rightarrow> nat \<Rightarrow> char option \<Rightarrow> u32 \<Rightarrow> u64" where
  "number_arg args n qualifier flags =
     (if qualifier = Some CHR ''l'' then args n
      else if flags AND SIGN \<noteq> 0 then scast (ucast (args n) :: u32)
      else ucast (ucast (args n) :: u32))"

type_synonym float_format = "u64 \<Rightarrow> int \<Rightarrow> int \<Rightarrow> char \<Rightarrow> u32 \<Rightarrow> string"

text \<open>One conversion, at the character after flags, width, precision and qualifier: its text, the rest of the format and
  the next argument. The pointer \<open>ee_number\<close> returns is NULL for bases that do not occur.\<close>

definition conversion :: "(u64 \<Rightarrow> u8) \<Rightarrow> float_format \<Rightarrow> arguments \<Rightarrow> u32 \<Rightarrow> int \<Rightarrow> int \<Rightarrow> char option \<Rightarrow> string \<Rightarrow> nat \<Rightarrow>
    (string \<times> string \<times> nat) option" where
  "conversion mem flt args flags field precision qualifier fmt n =
     (case fmt of [] \<Rightarrow> Some (''%'', [], n)
      | c # rest \<Rightarrow>
          let number = (\<lambda>base flags. map_option (\<lambda>t. (t, rest, n + 1))
                 (ee_number (number_arg args n qualifier flags) base field precision flags))
          in if c = CHR ''c'' then Some (format_char (char_of (unat (ucast (args n) :: u8))) field flags, rest, n + 1)
             else if c = CHR ''s'' then Some (format_string mem (args n) field precision flags, rest, n + 1)
             else if c = CHR ''p'' then
               let (field, flags) = (if field = - 1 then (2 * 8, flags OR ZEROPAD) else (field, flags))
               in map_option (\<lambda>t. (t, rest, n + 1)) (ee_number (args n) 16 field precision flags)
             else if c = CHR ''A'' \<or> c = CHR ''a'' then
               let flags = (if c = CHR ''A'' then flags OR UPPERCASE else flags)
               in Some (if qualifier = Some CHR ''l'' then eaddr mem (args n) field precision flags
                        else iaddr mem (args n) field precision flags, rest, n + 1)
             else if c = CHR ''o'' then number 8 flags
             else if c = CHR ''X'' then number 16 (flags OR UPPERCASE)
             else if c = CHR ''x'' then number 16 flags
             else if c = CHR ''d'' \<or> c = CHR ''i'' then number 10 (flags OR SIGN)
             else if c = CHR ''u'' then number 10 flags
             else if c = CHR ''f'' then Some (flt (args n) field precision c (flags OR SIGN), rest, n + 1)
             else Some ((if c \<noteq> CHR ''%'' then ''%'' else '''') @ [c], rest, n))"

definition directive :: "(u64 \<Rightarrow> u8) \<Rightarrow> float_format \<Rightarrow> arguments \<Rightarrow> string \<Rightarrow> nat \<Rightarrow> (string \<times> string \<times> nat) option" where
  "directive mem flt args fmt n =
     (let (flags, fmt) = parse_flags fmt 0;
          (field, flags, fmt, n) = parse_width args fmt flags n;
          (precision, fmt, n) = parse_precision args fmt n;
          (qualifier, fmt) = parse_qualifier fmt
      in conversion mem flt args flags field precision qualifier fmt n)"

lemma parse_lengths:
  "length (snd (parse_flags fmt flags)) \<le> length fmt"
  "length (fst (snd (snd (parse_width args fmt flags n)))) \<le> length fmt"
  "length (fst (snd (parse_precision args fmt n))) \<le> length fmt"
  "length (snd (parse_qualifier fmt)) \<le> length fmt"
proof -
  have atoi: "length (snd (ee_skip_atoi fmt i)) \<le> length fmt" for fmt i
    by (induction fmt i rule: ee_skip_atoi.induct) auto
  show "length (snd (parse_flags fmt flags)) \<le> length fmt"
    by (induction fmt flags rule: parse_flags.induct) (auto simp: le_SucI)
  show "length (fst (snd (snd (parse_width args fmt flags n)))) \<le> length fmt"
    using atoi [of fmt 0] by (auto simp: parse_width_def Let_def split_beta split: list.split)
  show "length (fst (snd (parse_precision args fmt n))) \<le> length fmt"
    using atoi [of "tl fmt" 0] by (auto simp: parse_precision_def Let_def split_beta le_SucI split: list.split)
  show "length (snd (parse_qualifier fmt)) \<le> length fmt" by (auto simp: parse_qualifier_def split: list.split)
qed

lemma conversion_length:
  "conversion mem flt args flags field precision qualifier fmt n = Some (t, rest, m) \<Longrightarrow> length rest \<le> length fmt"
  by (auto simp: conversion_def Let_def split_beta split: list.splits if_splits)

lemma directive_length: "directive mem flt args fmt n = Some (t, rest, m) \<Longrightarrow> length rest \<le> length fmt"
proof -
  assume d: "directive mem flt args fmt n = Some (t, rest, m)"
  obtain f1 fmt1 where 1: "parse_flags fmt 0 = (f1, fmt1)" by (metis surj_pair)
  obtain w f2 fmt2 n2 where 2: "parse_width args fmt1 f1 n = (w, f2, fmt2, n2)" by (metis prod_cases4)
  obtain p fmt3 n3 where 3: "parse_precision args fmt2 n2 = (p, fmt3, n3)" by (metis prod_cases3)
  obtain q fmt4 where 4: "parse_qualifier fmt3 = (q, fmt4)" by (metis surj_pair)
  have "conversion mem flt args f2 w p q fmt4 n3 = Some (t, rest, m)" using d by (simp add: directive_def 1 2 3 4)
  then have "length rest \<le> length fmt4" by (rule conversion_length)
  also have "\<dots> \<le> length fmt"
    using parse_lengths(1) [of fmt 0] parse_lengths(2) [of args fmt1 f1 n] parse_lengths(3) [of args fmt2 n2] parse_lengths(4) [of fmt3]
    by (simp add: 1 2 3 4)
  finally show ?thesis .
qed

function ee_vsprintf :: "(u64 \<Rightarrow> u8) \<Rightarrow> float_format \<Rightarrow> arguments \<Rightarrow> string \<Rightarrow> nat \<Rightarrow> string option" where
  "ee_vsprintf mem flt args [] n = Some []"
| "ee_vsprintf mem flt args (c # fmt) n =
     (if c \<noteq> CHR ''%'' then map_option (Cons c) (ee_vsprintf mem flt args fmt n)
      else case directive mem flt args fmt n of
             None \<Rightarrow> None
           | Some (text, fmt, n) \<Rightarrow> map_option (append text) (ee_vsprintf mem flt args fmt n))"
  by pat_completeness auto
termination by (relation "measure (\<lambda>(mem, flt, args, fmt, n). length fmt)") (auto dest: directive_length simp: le_imp_less_Suc)

section \<open>Output\<close>

text \<open>The text must fit in the buffer; otherwise (\<open>None\<close>) it overwrites the stack.\<close>

definition vprintf :: "(u64 \<Rightarrow> u8) \<Rightarrow> float_format \<Rightarrow> arguments \<Rightarrow> string \<Rightarrow> 'a console_scheme \<Rightarrow> (int \<times> 'a console_scheme) option" where
  "vprintf mem flt args format s =
     (case ee_vsprintf mem flt args format 0 of
        None \<Rightarrow> None
      | Some text \<Rightarrow>
          if length text < 80 * 25 + 1
          then Some (int (length text), snd (console_writestring (map of_char text) s))
          else None)"

definition printf :: "(u64 \<Rightarrow> u8) \<Rightarrow> float_format \<Rightarrow> arguments \<Rightarrow> string \<Rightarrow> 'a console_scheme \<Rightarrow> (int \<times> 'a console_scheme) option" where
  "printf mem flt args format s = vprintf mem flt args format s"

definition puts :: "u8 list \<Rightarrow> 'a console_scheme \<Rightarrow> int \<times> 'a console_scheme" where
  "puts string s = (1, console_putchar 10 (snd (console_writestring string s)))"

definition putchar :: "u32 \<Rightarrow> 'a console_scheme \<Rightarrow> int \<times> 'a console_scheme" where
  "putchar c s = (uint (ucast c :: u8), console_putchar (ucast c) s)"

section \<open>Reading numbers back\<close>

definition digit_value :: "char \<Rightarrow> nat" where
  "digit_value c =
     (if is_digit c then of_char c - 48 else if CHR ''a'' \<le> c \<and> c \<le> CHR ''z'' then of_char c - 87 else of_char c - 55)"

definition read_number :: "nat \<Rightarrow> string \<Rightarrow> nat" where
  "read_number base text = foldl (\<lambda>v c. v * base + digit_value c) 0 text"

fun read_signed :: "nat \<Rightarrow> string \<Rightarrow> int" where
  "read_signed base [] = 0"
| "read_signed base (c # cs) = (if c = CHR ''-'' then - int (read_number base cs) else int (read_number base (c # cs)))"

lemma read_number_snoc: "read_number base (text @ [c]) = read_number base text * base + digit_value c"
  by (simp add: read_number_def)

lemma digit_values: "list_all (\<lambda>k. digit_value (lower_digits ! k) = k \<and> digit_value (upper_digits ! k) = k \<and>
    lower_digits ! k \<noteq> CHR ''-'' \<and> upper_digits ! k \<noteq> CHR ''-'') [0..<36]"
  by code_simp

definition digit_set :: "string \<Rightarrow> bool" where
  "digit_set dig \<longleftrightarrow> dig = lower_digits \<or> dig = upper_digits"

lemma digit_at: "digit_set dig \<Longrightarrow> k < 36 \<Longrightarrow> digit_value (dig ! k) = k \<and> dig ! k \<noteq> CHR ''-''"
  using digit_values by (auto simp: digit_set_def list_all_iff)

lemma tmp_digits_read:
  assumes "digit_set dig" "2 \<le> base" "base \<le> 36"
  shows "read_number (unat base) (rev (tmp_digits dig base num)) = unat num"
    "CHR ''-'' \<notin> set (tmp_digits dig base num)"
proof -
  have small: "unat (n mod base) < 36" for n
  proof -
    have "0 < unat base" "unat base \<le> 36" using assms(2,3) by (simp_all add: word_le_nat_alt)
    then show ?thesis by (simp add: unat_mod) (meson mod_less_divisor order_less_le_trans)
  qed
  show "read_number (unat base) (rev (tmp_digits dig base num)) = unat num"
    using assms(1,2) digit_at [OF assms(1) small] by (induction dig base num rule: tmp_digits.induct)
      (subst tmp_digits.simps, auto simp: read_number_snoc read_number_def [of _ "[]"] unat_div unat_mod word_le_nat_alt not_less
        word_less_nat_alt)
  show "CHR ''-'' \<notin> set (tmp_digits dig base num)"
  proof -
    have "CHR ''-'' \<noteq> dig ! unat (n mod base)" for n using digit_at [OF assms(1) small [of n]] by metis
    then show ?thesis using assms(1,2) by (induction dig base num rule: tmp_digits.induct) (subst tmp_digits.simps, auto simp: word_less_nat_alt word_le_nat_alt)
  qed
qed

text \<open>The buffer of 66 characters is large enough for every number.\<close>

lemma tmp_digits_length: "unat num < 2 ^ k \<Longrightarrow> length (tmp_digits dig base num) \<le> k"
proof (induction dig base num arbitrary: k rule: tmp_digits.induct)
  case (1 dig base num)
  show ?case
  proof (cases "num = 0 \<or> base < 2")
    case False
    then obtain m where k: "k = Suc m" using 1(2) by (cases k) (auto simp: unat_eq_0)
    have "unat (num div base) \<le> unat num div 2"
      using False by (simp add: unat_div word_less_nat_alt div_le_mono2)
    then have "unat (num div base) < 2 ^ m" using 1(2) by (simp add: k)
    then show ?thesis using 1(1) [OF False] False by (subst tmp_digits.simps) (simp add: k)
  qed (simp add: tmp_digits.simps)
qed

section \<open>Layout of a number\<close>

lemma base_word:
  assumes "2 \<le> base" "base \<le> 36"
  shows "2 \<le> (word_of_int base :: u64)" "(word_of_int base :: u64) \<le> 36" "unat (word_of_int base :: u64) = nat base"
proof -
  have u: "uint (word_of_int base :: u64) = base" using assms by (simp add: uint_word_of_int take_bit_int_eq_self)
  then show "unat (word_of_int base :: u64) = nat base" by (simp add: unat_eq_nat_uint)
  show "2 \<le> (word_of_int base :: u64)" "(word_of_int base :: u64) \<le> 36" using assms by (simp_all only: word_le_def u) simp_all
qed

definition digits :: "string \<Rightarrow> int \<Rightarrow> u64 \<Rightarrow> string" where
  "digits dig base num = (if num = 0 then ''0'' else rev (tmp_digits dig (word_of_int base) num))"

lemma digits_read:
  assumes "digit_set dig" "2 \<le> base" "base \<le> 36"
  shows "read_number (nat base) (digits dig base num) = unat num" "CHR ''-'' \<notin> set (digits dig base num)" "digits dig base num \<noteq> []"
proof -
  note b = base_word [OF assms(2,3)]
  show "read_number (nat base) (digits dig base num) = unat num"
    using tmp_digits_read(1) [OF assms(1) b(1,2), of num] by (simp add: digits_def b(3)) (simp add: read_number_def digit_value_def is_digit_def)
  show "CHR ''-'' \<notin> set (digits dig base num)" using tmp_digits_read(2) [OF assms(1) b(1,2), of num] by (simp add: digits_def)
  show "digits dig base num \<noteq> []" using b(1) by (simp add: digits_def) (subst tmp_digits.simps, auto)
qed

lemma digits_length: "length (digits dig base num) \<le> 64"
proof -
  have "unat num < 2 ^ 64" using unsigned_less [of num, where 'a = nat] by simp
  then show ?thesis using tmp_digits_length [of num 64] by (simp add: digits_def)
qed

lemma read_signed_digits:
  assumes "digit_set dig" "2 \<le> base" "base \<le> 36"
  shows "read_signed (nat base) (digits dig base num) = int (unat num)"
    "read_signed (nat base) (CHR ''-'' # digits dig base num) = - int (unat num)"
proof -
  note d = digits_read [OF assms, of num]
  obtain c cs where "digits dig base num = c # cs" using d(3) by (cases "digits dig base num") auto
  then show "read_signed (nat base) (digits dig base num) = int (unat num)" using d(1,2) by auto
  show "read_signed (nat base) (CHR ''-'' # digits dig base num) = - int (unat num)" using d(1) by simp
qed

text \<open>Without flags, width and precision only the sign and the digits are left.\<close>

lemma ee_number_plain:
  assumes "2 \<le> base" "base \<le> 36"
  shows "ee_number num base (- 1) (- 1) 0 = Some (digits lower_digits base num)"
    "ee_number num base (- 1) (- 1) SIGN =
      Some (if num <s 0 then CHR ''-'' # digits lower_digits base (- num) else digits lower_digits base num)"
proof -
  have bits: "SIGN AND UPPERCASE = 0" "SIGN AND LEFT = 0" "SIGN AND ZEROPAD = 0" "SIGN \<noteq> 0" "SIGN AND PLUS = 0" "SIGN AND SPACE = 0"
    "SIGN AND HEX_PREP = 0" "SIGN AND (ZEROPAD OR LEFT) = 0" by code_simp+
  have z: "- num = 0 \<longleftrightarrow> num = 0" by simp
  show "ee_number num base (- 1) (- 1) 0 = Some (digits lower_digits base num)"
    using assms by (simp add: ee_number_def pad_def digits_def Let_def)
  show "ee_number num base (- 1) (- 1) SIGN =
      Some (if num <s 0 then CHR ''-'' # digits lower_digits base (- num) else digits lower_digits base num)"
    using assms by (auto simp: ee_number_def pad_def digits_def Let_def bits)
qed

lemma sign_cases:
  fixes w :: u64
  shows "w <s 0 \<Longrightarrow> int (unat (- w)) = - sint w" "\<not> w <s 0 \<Longrightarrow> int (unat w) = sint w"
proof -
  have range: "- (2 ^ 63) \<le> sint w" "sint w < 2 ^ 63" using sint_ge [of w] sint_lt [of w] by simp_all
  have w: "word_of_int (sint w) = w" by simp
  have neg: "w <s 0 \<longleftrightarrow> sint w < 0" by (simp add: word_sless_alt)
  show "int (unat w) = sint w" if "\<not> w <s 0"
  proof -
    have "uint w = uint (word_of_int (sint w) :: u64)" by simp
    also have "\<dots> = sint w" using that neg range by (simp only: uint_word_of_int) (simp add: take_bit_int_eq_self)
    finally show ?thesis by simp
  qed
  show "int (unat (- w)) = - sint w" if "w <s 0"
  proof -
    have "uint (- w) = uint (word_of_int (- sint w) :: u64)" by simp
    also have "\<dots> = - sint w" using that neg range by (simp only: uint_word_of_int) (simp add: take_bit_int_eq_self)
    finally show ?thesis by simp
  qed
qed

section \<open>A reference for the layout\<close>

text \<open>Sign, prefix and digits in the order the standard gives; the room left in the field is blanks before them, blanks after
  them, or zeros between the prefix and the digits.\<close>

definition number_sign :: "u32 \<Rightarrow> u64 \<Rightarrow> string" where
  "number_sign type num =
     (if type AND SIGN = 0 then '''' else if num <s 0 then ''-'' else if type AND PLUS \<noteq> 0 then ''+''
      else if type AND SPACE \<noteq> 0 then '' '' else '''')"

definition magnitude :: "u32 \<Rightarrow> u64 \<Rightarrow> u64" where
  "magnitude type num = (if type AND SIGN \<noteq> 0 \<and> num <s 0 then - num else num)"

definition number_prefix :: "u32 \<Rightarrow> int \<Rightarrow> string" where
  "number_prefix type base = (if type AND HEX_PREP = 0 then '''' else if base = 16 then ''0x'' else if base = 8 then ''0'' else '''')"

definition number_layout :: "u64 \<Rightarrow> int \<Rightarrow> int \<Rightarrow> int \<Rightarrow> u32 \<Rightarrow> string" where
  "number_layout num base field precision type =
     (let ds = digits (if type AND UPPERCASE \<noteq> 0 then upper_digits else lower_digits) base (magnitude type num);
          ds = replicate (nat precision - length ds) CHR ''0'' @ ds;
          s = number_sign type num @ number_prefix type base;
          room = nat field - length (s @ ds)
      in if type AND LEFT \<noteq> 0 then s @ ds @ replicate room CHR '' ''
         else if type AND ZEROPAD \<noteq> 0 then s @ replicate room CHR ''0'' @ ds
         else replicate room CHR '' '' @ s @ ds)"

lemma flag_tests:
  "(t AND NOT ZEROPAD) AND ZEROPAD = 0" "(t AND NOT ZEROPAD) AND (ZEROPAD OR LEFT) = t AND LEFT"
  "(t AND NOT ZEROPAD) AND SIGN = t AND SIGN" "(t AND NOT ZEROPAD) AND PLUS = t AND PLUS" "(t AND NOT ZEROPAD) AND SPACE = t AND SPACE"
  "(t AND NOT ZEROPAD) AND HEX_PREP = t AND HEX_PREP" "(t AND NOT ZEROPAD) AND LEFT = t AND LEFT"
  "t AND (ZEROPAD OR LEFT) = 0 \<longleftrightarrow> t AND ZEROPAD = 0 \<and> t AND LEFT = 0"
proof -
  have "NOT ZEROPAD AND ZEROPAD = 0" "NOT ZEROPAD AND (ZEROPAD OR LEFT) = LEFT" "NOT ZEROPAD AND SIGN = SIGN" "NOT ZEROPAD AND PLUS = PLUS"
    "NOT ZEROPAD AND SPACE = SPACE" "NOT ZEROPAD AND HEX_PREP = HEX_PREP" "NOT ZEROPAD AND LEFT = LEFT" by code_simp+
  then show "(t AND NOT ZEROPAD) AND ZEROPAD = 0" "(t AND NOT ZEROPAD) AND (ZEROPAD OR LEFT) = t AND LEFT"
    "(t AND NOT ZEROPAD) AND SIGN = t AND SIGN" "(t AND NOT ZEROPAD) AND PLUS = t AND PLUS" "(t AND NOT ZEROPAD) AND SPACE = t AND SPACE"
    "(t AND NOT ZEROPAD) AND HEX_PREP = t AND HEX_PREP" "(t AND NOT ZEROPAD) AND LEFT = t AND LEFT"
    by (simp_all only: and.assoc and_zero_eq)
  show "t AND (ZEROPAD OR LEFT) = 0 \<longleftrightarrow> t AND ZEROPAD = 0 \<and> t AND LEFT = 0" by (simp add: bit.conj_disj_distrib or_eq_0_iff)
qed

lemma sign_step:
  "(if type AND SIGN \<noteq> 0 then
      if num <s 0 then (''-'', - num, field - 1)
      else if type AND PLUS \<noteq> 0 then (''+'', num, field - 1)
      else if type AND SPACE \<noteq> 0 then ('' '', num, field - 1)
      else ('''', num, field)
    else ('''', num, field)) = (number_sign type num, magnitude type num, field - int (length (number_sign type num)))"
  by (simp add: number_sign_def magnitude_def)

lemma prefix_step:
  "(if type AND HEX_PREP \<noteq> 0 then if base = 16 then field - 2 else if base = 8 then field - 1 else field else field) =
    field - int (length (number_prefix type base))"
  "(if type AND HEX_PREP \<noteq> 0 then
      if base = 8 then ''0'' else if base = 16 then [CHR ''0'', lower_digits ! 33] else '''' else '''') = number_prefix type base"
proof -
  have "lower_digits ! 33 = CHR ''x''" by code_simp
  then show "(if type AND HEX_PREP \<noteq> 0 then
      if base = 8 then ''0'' else if base = 16 then [CHR ''0'', lower_digits ! 33] else '''' else '''') = number_prefix type base"
    by (simp add: number_prefix_def)
qed (simp add: number_prefix_def)

text \<open>The fillings, for the \<open>r\<close> characters the field has left.\<close>

lemma fill: "fst (pad c r) = replicate (nat r) c" "snd (pad c r) \<le> - 1" "r \<le> 0 \<Longrightarrow> fst (pad c r) = ''''"
  by (simp_all add: pad_def)

lemma ee_number_layout:
  assumes "\<not> (base < 2 \<or> base > 36)"
  shows "ee_number num base field precision type = Some (number_layout num base field precision type)"
proof -
  let ?t = "if type AND LEFT \<noteq> 0 then type AND NOT ZEROPAD else type"
  let ?dig = "if type AND UPPERCASE \<noteq> 0 then upper_digits else lower_digits"
  let ?m = "magnitude type num" let ?s = "number_sign type num" let ?p = "number_prefix type base"
  define ds where "ds = digits ?dig base ?m"
  have tmp: "(if ?m = 0 then ''0'' else tmp_digits ?dig (word_of_int base) ?m) = rev ds" by (simp add: ds_def digits_def)
  have t: "number_sign ?t num = ?s" "magnitude ?t num = ?m" "number_prefix ?t base = ?p"
    by (simp_all add: number_sign_def magnitude_def number_prefix_def flag_tests)
  define n where "n = int (length ds)"
  define q where "q = (if n > precision then n else precision)"
  define r where "r = field - int (length ?s) - int (length ?p) - q"
  let ?zeros = "replicate (nat precision - length ds) CHR ''0''"
  have q: "nat (q - n) = nat precision - length ds" by (auto simp: q_def n_def)
  have r: "nat r = nat field - length ((?s @ ?p) @ ?zeros @ ds)"
    by (auto simp: r_def q_def n_def)
  have e: "ee_number num base field precision type =
     (let (spaces, field) = (if ?t AND (ZEROPAD OR LEFT) = 0 then pad CHR '' '' r else ('''', r));
          (zeros, field) = (if ?t AND LEFT = 0 then pad (if ?t AND ZEROPAD \<noteq> 0 then CHR ''0'' else CHR '' '') field else ('''', field))
      in Some (spaces @ ?s @ ?p @ zeros @ ?zeros @ ds @ fst (pad CHR '' '' field)))"
    using assms unfolding ee_number_def Let_def sign_step prefix_step t prod.case tmp length_rev n_def [symmetric] q_def [symmetric] r_def [symmetric]
    by (simp add: split_beta q del: if_split cong: if_cong)
  have l: "number_layout num base field precision type =
      (if type AND LEFT \<noteq> 0 then (?s @ ?p) @ (?zeros @ ds) @ replicate (nat r) CHR '' ''
       else if type AND ZEROPAD \<noteq> 0 then (?s @ ?p) @ replicate (nat r) CHR ''0'' @ (?zeros @ ds)
       else replicate (nat r) CHR '' '' @ (?s @ ?p) @ (?zeros @ ds))"
    unfolding number_layout_def Let_def ds_def [symmetric] r by simp
  show ?thesis
  proof (cases "type AND LEFT = 0")
    case False
    then show ?thesis unfolding e l by (simp add: flag_tests fill)
  next
    case True
    then show ?thesis unfolding e l
      by (cases "type AND ZEROPAD = 0") (simp_all add: flag_tests pad_def split_beta Let_def)
  qed
qed

section \<open>Properties\<close>

lemma conversions:
  "directive mem flt args ''d'' n = map_option (\<lambda>t. (t, [], n + 1)) (ee_number (scast (ucast (args n) :: u32)) 10 (- 1) (- 1) SIGN)"
  "directive mem flt args ''u'' n = map_option (\<lambda>t. (t, [], n + 1)) (ee_number (ucast (ucast (args n) :: u32)) 10 (- 1) (- 1) 0)"
  "directive mem flt args ''x'' n = map_option (\<lambda>t. (t, [], n + 1)) (ee_number (ucast (ucast (args n) :: u32)) 16 (- 1) (- 1) 0)"
  "directive mem flt args ''lx'' n = map_option (\<lambda>t. (t, [], n + 1)) (ee_number (args n) 16 (- 1) (- 1) 0)"
  "directive mem flt args ''ld'' n = map_option (\<lambda>t. (t, [], n + 1)) (ee_number (args n) 10 (- 1) (- 1) SIGN)"
  "directive mem flt args ''s'' n = Some (format_string mem (args n) (- 1) (- 1) 0, [], n + 1)"
  by (simp_all add: directive_def parse_width_def parse_precision_def parse_qualifier_def conversion_def number_arg_def is_digit_def
      SIGN_def Let_def)

text \<open>
  C18. What \<open>printf\<close> writes for a number reads back as the number: \<open>%d\<close> and \<open>%ld\<close> as the signed, \<open>%u\<close>, \<open>%x\<close> and \<open>%lx\<close>
  as the unsigned value of the argument, the smallest negative number included.
\<close>
theorem printed_number_reads_back:
  "map_option (read_signed 10) (ee_vsprintf mem flt args ''%d'' 0) = Some (sint (ucast (args 0) :: u32)) \<and>
   map_option (read_signed 10) (ee_vsprintf mem flt args ''%ld'' 0) = Some (sint (args 0)) \<and>
   map_option (read_number 10) (ee_vsprintf mem flt args ''%u'' 0) = Some (unat (ucast (args 0) :: u32)) \<and>
   map_option (read_number 16) (ee_vsprintf mem flt args ''%x'' 0) = Some (unat (ucast (args 0) :: u32)) \<and>
   map_option (read_number 16) (ee_vsprintf mem flt args ''%lx'' 0) = Some (unat (args 0))"
proof -
  have dig: "digit_set lower_digits" by (simp add: digit_set_def)
  have signed: "read_signed 10 (if w <s 0 then CHR ''-'' # digits lower_digits 10 (- w) else digits lower_digits 10 w) = sint w" for w :: u64
    using read_signed_digits [OF dig, of 10] sign_cases [of w] by simp
  have wide: "unat (ucast v :: u64) = unat v" "sint (scast v :: u64) = sint v" for v :: u32
  proof -
    have "unat v < 2 ^ 64" using unsigned_less [of v, where 'a = nat] by simp
    then show "unat (ucast v :: u64) = unat v" by (simp only: unsigned_ucast_eq) (simp add: take_bit_nat_eq_self)
    have "- (2 ^ 63) \<le> sint v" "sint v < 2 ^ 63" using sint_ge [of v] sint_lt [of v] by simp_all
    then show "sint (scast v :: u64) = sint v" by (simp only: signed_scast_eq) (simp add: signed_take_bit_int_eq_self)
  qed
  show ?thesis
    using digits_read(1) [OF dig, of 10] digits_read(1) [OF dig, of 16]
    by (simp add: conversions ee_number_plain option.map_comp comp_def signed wide)
qed

text \<open>
  C17. \<open>ee_number\<close> lays a number out as the C standard says: blanks, sign, prefix, the zeros of the zero flag, the zeros of the
  precision, the digits of the magnitude and blanks, at every width, precision and combination of flags, for every base from 2 to 36
  (it fails for others). The digits read back as the magnitude, and the 66 characters of its buffer hold them.
\<close>
theorem numbers_are_laid_out:
  "ee_number num base field precision type =
     (if base \<in> {2..36} then Some (number_layout num base field precision type) else None) \<and>
   length (digits dig base num) \<le> 64 \<and>
   (case base \<in> {2..36} of False \<Rightarrow> True
    | True \<Rightarrow> read_number (nat base) (digits lower_digits base num) = unat num \<and>
              read_number (nat base) (digits upper_digits base num) = unat num)"
proof (intro conjI)
  show "ee_number num base field precision type =
     (if base \<in> {2..36} then Some (number_layout num base field precision type) else None)"
    using ee_number_layout [of base num field precision type] by (auto simp: ee_number_def)
  show "length (digits dig base num) \<le> 64" by (rule digits_length)
  show "case base \<in> {2..36} of False \<Rightarrow> True
    | True \<Rightarrow> read_number (nat base) (digits lower_digits base num) = unat num \<and>
              read_number (nat base) (digits upper_digits base num) = unat num"
    by (cases "base \<in> {2..36}") (auto simp: digits_read(1) digit_set_def)
qed

text \<open>The buffer of \<open>vprintf\<close> is that of one screen: a longer text, as the blanks of one wide field, overruns it.\<close>

lemma vprintf_overruns: "vprintf mem flt args ''%3000d'' s = None"
proof -
  have d: "directive mem flt args ''3000d'' 0 = map_option (\<lambda>t. (t, [], 1)) (ee_number (scast (ucast (args 0) :: u32)) 10 3000 (- 1) SIGN)"
    by (simp add: directive_def parse_width_def parse_precision_def parse_qualifier_def conversion_def number_arg_def is_digit_def
      SIGN_def Let_def)
  have "nat field \<le> length (number_layout num base field precision type)" for num base field precision type
    by (auto simp: number_layout_def Let_def)
  note wide = this [where field = 3000 and base = 10 and precision = "- 1" and type = SIGN]
  have "\<not> length (number_layout num 10 3000 (- 1) SIGN) < 2001" for num using wide [of num] by simp
  then show ?thesis by (simp add: vprintf_def d ee_number_layout)
qed

end
