(* ===== verification/Context_Switch.thy ===== *)
theory Context_Switch
  imports Prelude
begin

text \<open>
  The assembly of the kernel (\<^verbatim>\<open>kernel/x86/thread_64.asm\<close> and \<^verbatim>\<open>kernel/x86/interrupt_64.asm\<close>) on a core: its
  registers and memory, whose quadwords are at the multiples of 8. An instruction is a function on the core.
\<close>

datatype reg = RAX | RBX | RCX | RDX | RSI | RDI | RBP | RSP | R8 | R9 | R10 | R11 | R12 | R13 | R14 | R15

datatype selector = Sel_CS | Sel_SS | Sel_DS | Sel_ES | Sel_FS | Sel_GS

record core =
  gpr :: "reg \<Rightarrow> u64"
  sel :: "selector \<Rightarrow> u16"
  rip :: u64
  rflags :: u64
  cr2 :: u64
  mem :: "u64 \<Rightarrow> u64"

section \<open>Parts of a quadword\<close>

text \<open>The 16 bits at an even address.\<close>

definition cell_of :: "u64 \<Rightarrow> u64" where "cell_of a = a AND NOT 7"
definition cell_shift :: "u64 \<Rightarrow> nat" where "cell_shift a = 8 * unat (a AND 7)"

definition part16 :: "nat \<Rightarrow> u64 \<Rightarrow> u16" where
  "part16 k w = ucast (drop_bit k w)"

definition set_part16 :: "nat \<Rightarrow> u16 \<Rightarrow> u64 \<Rightarrow> u64" where
  "set_part16 k v w = (w AND NOT (push_bit k 0xFFFF)) OR push_bit k (ucast v)"

definition load16 :: "(u64 \<Rightarrow> u64) \<Rightarrow> u64 \<Rightarrow> u16" where
  "load16 m a = part16 (cell_shift a) (m (cell_of a))"

definition store16 :: "u64 \<Rightarrow> u16 \<Rightarrow> (u64 \<Rightarrow> u64) \<Rightarrow> u64 \<Rightarrow> u64" where
  "store16 a v m = m(cell_of a := set_part16 (cell_shift a) v (m (cell_of a)))"

section \<open>Instructions\<close>

definition set_reg :: "reg \<Rightarrow> u64 \<Rightarrow> core \<Rightarrow> core" where
  "set_reg r v c = c\<lparr>gpr := (gpr c)(r := v)\<rparr>"

definition set_selector :: "selector \<Rightarrow> u16 \<Rightarrow> core \<Rightarrow> core" where
  "set_selector r v c = c\<lparr>sel := (sel c)(r := v)\<rparr>"

definition push :: "u64 \<Rightarrow> core \<Rightarrow> core" where
  "push v c = set_reg RSP (gpr c RSP - 8) (c\<lparr>mem := (mem c)(gpr c RSP - 8 := v)\<rparr>)"

definition push_reg :: "reg \<Rightarrow> core \<Rightarrow> core" where
  "push_reg r c = push (gpr c r) c"

definition pop_reg :: "reg \<Rightarrow> core \<Rightarrow> core" where
  "pop_reg r c = set_reg r (mem c (gpr c RSP)) (set_reg RSP (gpr c RSP + 8) c)"

definition push16_sel :: "selector \<Rightarrow> core \<Rightarrow> core" where
  "push16_sel r c = set_reg RSP (gpr c RSP - 2) (c\<lparr>mem := store16 (gpr c RSP - 2) (sel c r) (mem c)\<rparr>)"

definition pop16_sel :: "selector \<Rightarrow> core \<Rightarrow> core" where
  "pop16_sel r c = set_selector r (load16 (mem c) (gpr c RSP)) (set_reg RSP (gpr c RSP + 2) c)"

definition ret :: "core \<Rightarrow> core" where
  "ret c = set_reg RSP (gpr c RSP + 8) (c\<lparr>rip := mem c (gpr c RSP)\<rparr>)"

definition iretq :: "core \<Rightarrow> core" where
  "iretq c =
     (let sp = gpr c RSP; m = mem c
      in set_reg RSP (m (sp + 24)) (set_selector Sel_SS (ucast (m (sp + 32))) (set_selector Sel_CS (ucast (m (sp + 8)))
           (c\<lparr>rip := m sp, rflags := m (sp + 16)\<rparr>))))"

section \<open>thread_switch\<close>

text \<open>
  \<open>thread_switch\<close>, entered by a call (the return address is on top of the stack), with the context to switch to in RSI. The address
  of the context it stores through RDI is the first result.
\<close>

definition saved_registers :: "reg list" where
  "saved_registers = [R15, R14, R13, R12, RBP, RBX]"

definition switch_to :: "core \<Rightarrow> core" where
  "switch_to c = ret (fold pop_reg (rev saved_registers) c)"

definition thread_switch :: "core \<Rightarrow> u64 \<times> core" where
  "thread_switch c =
     (let c = fold push_reg saved_registers c
      in (gpr c RSP, switch_to (set_reg RSP (gpr c RSI) c)))"

section \<open>Interrupts\<close>

text \<open>
  What the processor pushes when it takes an interrupt in 64-bit mode, on a stack aligned to 16 bytes; vectors with an error code
  push it as well. The interrupt gates of the kernel clear the interrupt flag.
\<close>

definition pushes_error :: "nat \<Rightarrow> bool" where
  "pushes_error n \<longleftrightarrow> n = 8 \<or> (10 \<le> n \<and> n \<le> 14) \<or> n = 17 \<or> n = 30"

definition deliver :: "nat \<Rightarrow> u64 \<Rightarrow> core \<Rightarrow> core" where
  "deliver n err c =
     (let sp = gpr c RSP;
          d = set_reg RSP (sp AND NOT 15) c;
          d = push (rip c) (push (ucast (sel c Sel_CS)) (push (rflags c) (push sp (push (ucast (sel c Sel_SS)) d))));
          d = (if pushes_error n then push err d else d)
      in set_selector Sel_CS 8 (d\<lparr>rflags := rflags c AND NOT 0x200\<rparr>))"

text \<open>The macro \<open>INTERRUPT_ENTRY\<close> and \<open>interrupt_entry\<close>, up to the call of \<open>interrupt_dispatch\<close>.\<close>

definition interrupt_registers :: "reg list" where
  "interrupt_registers = [R15, R14, R13, R12, R11, R10, R9, R8, RBP, RDI, RSI, RDX, RCX, RBX, RAX]"

definition interrupt_stub :: "nat \<Rightarrow> core \<Rightarrow> core" where
  "interrupt_stub n c = push (of_nat n) (if \<not> pushes_error n then push 0 c else c)"

definition interrupt_entry :: "core \<Rightarrow> core" where
  "interrupt_entry c =
     (let c = fold push_reg interrupt_registers c;
          c = push16_sel Sel_FS (push16_sel Sel_GS c);
          c = set_reg RSP (gpr c RSP - 4) c;
          c = c\<lparr>mem := store16 (gpr c RSP) (sel c Sel_DS) (store16 (gpr c RSP + 2) (sel c Sel_ES) (mem c))\<rparr>;
          c = push_reg RAX (set_reg RAX (cr2 c) c);
          c = c\<lparr>rflags := rflags c AND NOT 0x400\<rparr>;
          c = set_reg RDI (gpr c RSP) (set_reg RBX (gpr c RSP) c)
      in set_reg RSP (gpr c RSP AND NOT 15) c)"

text \<open>The return from the call: \<open>mov rsp, rbx\<close>, then \<open>interrupt_exit\<close>.\<close>

definition interrupt_exit_code :: "core \<Rightarrow> core" where
  "interrupt_exit_code c =
     (let c = set_reg RSP (gpr c RSP + 8) c;
          c = set_selector Sel_DS (load16 (mem c) (gpr c RSP)) c;
          c = set_selector Sel_ES (load16 (mem c) (gpr c RSP + 2)) c;
          c = set_reg RSP (gpr c RSP + 4) c;
          c = pop16_sel Sel_GS (pop16_sel Sel_FS c);
          c = fold pop_reg (rev interrupt_registers) c;
          c = set_reg RSP (gpr c RSP + 16) c
      in iretq c)"

definition interrupt_return :: "core \<Rightarrow> core" where
  "interrupt_return c = interrupt_exit_code (set_reg RSP (gpr c RBX) c)"

named_theorems asm_simps \<open>evaluation of instructions\<close>

lemmas [asm_simps] = set_reg_def set_selector_def push_def push_reg_def pop_reg_def push16_sel_def pop16_sel_def ret_def iretq_def Let_def

section \<open>What the code stores and loads\<close>

lemma switch_saves:
  "thread_switch c = (gpr c RSP - 48, switch_to (c\<lparr>gpr := (gpr c)(RSP := gpr c RSI),
     mem := (mem c)(gpr c RSP - 8 := gpr c R15, gpr c RSP - 16 := gpr c R14, gpr c RSP - 24 := gpr c R13, gpr c RSP - 32 := gpr c R12,
       gpr c RSP - 40 := gpr c RBP, gpr c RSP - 48 := gpr c RBX)\<rparr>))"
  by (cases c) (simp add: thread_switch_def saved_registers_def asm_simps)

lemma switch_loads:
  "switch_to c = (let sp = gpr c RSP in c\<lparr>gpr := (gpr c)(RBX := mem c sp, RBP := mem c (sp + 8), R12 := mem c (sp + 16),
     R13 := mem c (sp + 24), R14 := mem c (sp + 32), R15 := mem c (sp + 40), RSP := sp + 56), rip := mem c (sp + 48)\<rparr>)"
  by (cases c) (simp add: switch_to_def saved_registers_def asm_simps add.commute fun_upd_twist)

lemma uint_low: "uint (x AND 7) = uint x mod 8" for x :: u64
proof -
  have "uint (x AND 7) = uint x AND 7" by (simp add: uint_and)
  also have "(7 :: int) = mask 3" by (simp add: mask_eq_exp_minus_1)
  finally show ?thesis by (simp only: take_bit_eq_mask [symmetric] take_bit_eq_mod) simp
qed

lemma aligned_low:
  assumes "a AND 7 = (0 :: u64)"
  shows "(a + k) AND 7 = k AND 7" "a + k - ((a + k) AND 7) = (a + k) AND NOT 7"
proof -
  have "uint a mod 8 = 0" using uint_low [of a] assms by simp
  then have "(uint a + uint k) mod 2 ^ 64 mod 8 = uint k mod 8"
    by (simp add: mod_mod_cancel) (metis add_0 mod_add_left_eq)
  then have "uint ((a + k) AND 7) = uint (k AND 7)" by (simp only: uint_low uint_word_ariths) simp
  then show "(a + k) AND 7 = k AND 7" by (simp only: word_uint_eq_iff)
  have "(x AND 7) + (x AND NOT 7) = x" for x :: u64
    by (subst disjunctive_add_eq_or) (auto simp: bit_simps intro: bit_word_eqI) 
  then show "a + k - ((a + k) AND 7) = (a + k) AND NOT 7" by (metis add_diff_cancel_left')
qed

lemma aligned_parts:
  assumes "a AND 7 = (0 :: u64)"
  shows "cell_of (a + 8) = a + 8" "cell_of (a + 10) = a + 8" "cell_of (a + 12) = a + 8" "cell_of (a + 14) = a + 8"
    "cell_shift (a + 8) = 0" "cell_shift (a + 10) = 16" "cell_shift (a + 12) = 32" "cell_shift (a + 14) = 48"
  using aligned_low [OF assms, symmetric] by (simp_all add: cell_of_def cell_shift_def)

lemma exit_loads:
  assumes "gpr c RSP AND 7 = 0"
  shows "interrupt_exit_code c = (let f = gpr c RSP; m = mem c in c\<lparr>
     sel := (sel c)(Sel_DS := part16 0 (m (f + 8)), Sel_ES := part16 16 (m (f + 8)), Sel_FS := part16 32 (m (f + 8)),
       Sel_GS := part16 48 (m (f + 8)), Sel_CS := ucast (m (f + 160)), Sel_SS := ucast (m (f + 184))),
     gpr := (gpr c)(RAX := m (f + 16), RBX := m (f + 24), RCX := m (f + 32), RDX := m (f + 40), RSI := m (f + 48), RDI := m (f + 56),
       RBP := m (f + 64), R8 := m (f + 72), R9 := m (f + 80), R10 := m (f + 88), R11 := m (f + 96), R12 := m (f + 104),
       R13 := m (f + 112), R14 := m (f + 120), R15 := m (f + 128), RSP := m (f + 176)),
     rip := m (f + 152), rflags := m (f + 168)\<rparr>)"
  using aligned_parts [OF assms]
  by (cases c) (simp add: interrupt_exit_code_def interrupt_registers_def asm_simps load16_def add.commute fun_upd_twist)

lemma aligned_before:
  assumes "a AND 7 = 0"
  shows "cell_of (a - 2) = a - 8" "cell_of (a - 4) = a - 8" "cell_of (a - 6) = a - 8" "cell_of (a - 8) = a - 8"
    "cell_shift (a - 8) = 0" "cell_shift (a - 6) = 16" "cell_shift (a - 4) = 32" "cell_shift (a - 2) = 48"
proof -
  have "(a - 16) AND 7 = 0" using aligned_low(1) [OF assms, of "- 16"] by simp
  from aligned_parts [OF this] show "cell_of (a - 2) = a - 8" "cell_of (a - 4) = a - 8" "cell_of (a - 6) = a - 8" "cell_of (a - 8) = a - 8"
    "cell_shift (a - 8) = 0" "cell_shift (a - 6) = 16" "cell_shift (a - 4) = 32" "cell_shift (a - 2) = 48"
    by simp_all
qed

definition pack_selectors :: "(selector \<Rightarrow> u16) \<Rightarrow> u64 \<Rightarrow> u64" where
  "pack_selectors s w = set_part16 0 (s Sel_DS) (set_part16 16 (s Sel_ES) (set_part16 32 (s Sel_FS) (set_part16 48 (s Sel_GS) w)))"

lemma bit_part16: "bit (part16 k w) n \<longleftrightarrow> n < 16 \<and> bit w (k + n)"
  by (auto simp: part16_def bit_simps)

lemma bit_set_part16: "k \<le> 48 \<Longrightarrow> n < 64 \<Longrightarrow> bit (set_part16 k v w) n \<longleftrightarrow> (if k \<le> n \<and> n < k + 16 then bit v (n - k) else bit w n)"
proof -
  assume k: "k \<le> 48" and n: "n < 64"
  have b: "bit (push_bit k (0xFFFF :: u64)) n \<longleftrightarrow> k \<le> n \<and> n - k < 16"
    using n by (simp only: bit_push_bit_iff bit_numeral_word_iff mask_bits) auto
  have v: "bit (push_bit k (ucast v :: u64)) n \<longleftrightarrow> k \<le> n \<and> bit v (n - k)"
    using n by (auto simp only: bit_push_bit_iff bit_ucast_iff) auto
  have o: "bit v m \<Longrightarrow> m < 16" for m using bit_imp_le_length [of v m] by simp
  show ?thesis
    unfolding set_part16_def bit_or_iff bit_and_iff bit_not_iff b v using n o [of "n - k"] by auto
qed

lemma unpack: 
  "part16 0 (pack_selectors s w) = s Sel_DS" "part16 16 (pack_selectors s w) = s Sel_ES"
  "part16 32 (pack_selectors s w) = s Sel_FS" "part16 48 (pack_selectors s w) = s Sel_GS"
  by (rule bit_word_eqI; simp add: pack_selectors_def bit_part16 bit_set_part16)+

lemma push_reg_step:
  "r \<noteq> RSP \<Longrightarrow> push_reg r (c\<lparr>gpr := g(RSP := s), mem := m\<rparr>) = c\<lparr>gpr := g(RSP := s - 8), mem := m(s - 8 := g r)\<rparr>"
  by (simp add: asm_simps)

lemma entry_pushes:
  "fold push_reg interrupt_registers (c\<lparr>gpr := g(RSP := t), mem := m\<rparr>) = c\<lparr>gpr := g(RSP := t - 120),
     mem := m(t - 8 := g R15, t - 16 := g R14, t - 24 := g R13, t - 32 := g R12, t - 40 := g R11,
       t - 48 := g R10, t - 56 := g R9, t - 64 := g R8, t - 72 := g RBP, t - 80 := g RDI, t - 88 := g RSI,
       t - 96 := g RDX, t - 104 := g RCX, t - 112 := g RBX, t - 120 := g RAX)\<rparr>"
  by (simp add: interrupt_registers_def push_reg_step)

lemma entry_selectors:
  assumes "gpr c RSP AND 7 = 0"
  shows "push16_sel Sel_FS (push16_sel Sel_GS c) = c\<lparr>gpr := (gpr c)(RSP := gpr c RSP - 4), mem := (mem c)(gpr c RSP - 8 :=
    set_part16 32 (sel c Sel_FS) (set_part16 48 (sel c Sel_GS) (mem c (gpr c RSP - 8))))\<rparr>"
  using aligned_before [OF assms] by (cases c) (simp add: asm_simps store16_def)

lemma entry_saves:
  assumes "gpr c RSP AND 7 = 0"
  shows "interrupt_entry c = (let t = gpr c RSP in c\<lparr>
     gpr := (gpr c)(RAX := cr2 c, RBX := t - 136, RDI := t - 136, RSP := (t - 136) AND NOT 15),
     rflags := rflags c AND NOT 0x400,
     mem := (mem c)(t - 8 := gpr c R15, t - 16 := gpr c R14, t - 24 := gpr c R13, t - 32 := gpr c R12, t - 40 := gpr c R11,
       t - 48 := gpr c R10, t - 56 := gpr c R9, t - 64 := gpr c R8, t - 72 := gpr c RBP, t - 80 := gpr c RDI, t - 88 := gpr c RSI,
       t - 96 := gpr c RDX, t - 104 := gpr c RCX, t - 112 := gpr c RBX, t - 120 := gpr c RAX,
       t - 128 := pack_selectors (sel c) (mem c (t - 128)), t - 136 := cr2 c)\<rparr>)"
proof -
  define t where "t = gpr c RSP"
  define m where "m = (mem c)(t - 8 := gpr c R15, t - 16 := gpr c R14, t - 24 := gpr c R13, t - 32 := gpr c R12, t - 40 := gpr c R11,
       t - 48 := gpr c R10, t - 56 := gpr c R9, t - 64 := gpr c R8, t - 72 := gpr c RBP, t - 80 := gpr c RDI, t - 88 := gpr c RSI,
       t - 96 := gpr c RDX, t - 104 := gpr c RCX, t - 112 := gpr c RBX, t - 120 := gpr c RAX)"
  have old: "m (t - 128) = mem c (t - 128)" by (simp add: m_def)
  have a: "(t - 120) AND 7 = 0" using aligned_low(1) [OF assms, of "- 120"] by (simp add: t_def)
  note b = aligned_before [OF a, simplified]
  have p: "fold push_reg interrupt_registers c = c\<lparr>gpr := (gpr c)(RSP := t - 120), mem := m\<rparr>"
    using entry_pushes [where c = c and g = "gpr c" and m = "mem c" and t = "gpr c RSP"] by (simp add: m_def t_def)
  have s: "push16_sel Sel_FS (push16_sel Sel_GS (c\<lparr>gpr := (gpr c)(RSP := t - 120), mem := m\<rparr>)) =
      c\<lparr>gpr := (gpr c)(RSP := t - 124), mem := m(t - 128 := set_part16 32 (sel c Sel_FS) (set_part16 48 (sel c Sel_GS) (mem c (t - 128))))\<rparr>"
    using entry_selectors [of "c\<lparr>gpr := (gpr c)(RSP := t - 120), mem := m\<rparr>"] a by (simp add: old)
  show ?thesis
    unfolding interrupt_entry_def Let_def p s t_def [symmetric] m_def [symmetric]
    by (simp add: asm_simps store16_def b pack_selectors_def old fun_upd_twist)
qed

section \<open>Restoring\<close>

text \<open>The quadwords of a frame of \<open>n\<close> quadwords at \<open>a\<close>.\<close>

definition frame_words :: "u64 \<Rightarrow> nat \<Rightarrow> (u64 \<Rightarrow> u64) \<Rightarrow> u64 list" where
  "frame_words a n m = map (\<lambda>i. m (a + 8 * of_nat i)) [0..<n]"

definition frame_cells :: "u64 \<Rightarrow> nat \<Rightarrow> u64 set" where
  "frame_cells a n = (\<lambda>i. a + 8 * of_nat i) ` set [0..<n]"

lemma context_frame:
  "frame_words a 7 m = [m a, m (a + 8), m (a + 16), m (a + 24), m (a + 32), m (a + 40), m (a + 48)]"
  by (simp add: frame_words_def upt_rec)

lemma interrupt_frame:
  "frame_words a 24 m = [m a, m (a + 8), m (a + 16), m (a + 24), m (a + 32), m (a + 40), m (a + 48), m (a + 56), m (a + 64),
     m (a + 72), m (a + 80), m (a + 88), m (a + 96), m (a + 104), m (a + 112), m (a + 120), m (a + 128), m (a + 136), m (a + 144),
     m (a + 152), m (a + 160), m (a + 168), m (a + 176), m (a + 184)]"
  by (simp add: frame_words_def upt_rec)

text \<open>
  C14. \<open>thread_switch\<close> and a later \<open>thread_switch\<close> by another thread to the context it saved return to the first caller as from an
  ordinary call: to its return address, with its stack pointer and the registers that a function preserves, whatever ran in between, as
  long as the seven quadwords of the context stay as they were saved and are not those the second call pushes.
\<close>
theorem thread_switch_returns:
  assumes "thread_switch c = (saved, c')" and "frame_words saved 7 (mem d) = frame_words saved 7 (mem c')"
    and "frame_cells saved 7 \<inter> frame_cells (gpr d RSP - 48) 6 = {}" and "gpr d RSI = saved"
  shows "rip (snd (thread_switch d)) = mem c (gpr c RSP) \<and> gpr (snd (thread_switch d)) RSP = gpr c RSP + 8 \<and>
    map (gpr (snd (thread_switch d))) [RBX, RBP, R12, R13, R14, R15] = map (gpr c) [RBX, RBP, R12, R13, R14, R15]"
proof -
  have s: "saved = gpr c RSP - 48"
    and w: "frame_words saved 7 (mem c') = [gpr c RBX, gpr c RBP, gpr c R12, gpr c R13, gpr c R14, gpr c R15, mem c (gpr c RSP)]"
  proof -
    have e: "saved = fst (thread_switch c)" "mem c' = mem (snd (thread_switch c))" by (simp_all add: assms(1))
    show "saved = gpr c RSP - 48" unfolding e switch_saves by simp
    then show "frame_words saved 7 (mem c') = [gpr c RBX, gpr c RBP, gpr c R12, gpr c R13, gpr c R14, gpr c R15, mem c (gpr c RSP)]"
      unfolding e(2) switch_saves context_frame by (simp add: switch_loads Let_def)
  qed
  have six: "frame_cells (r - 48) 6 = {r - 48, r - 40, r - 32, r - 24, r - 16, r - 8}" for r
    by (simp add: frame_cells_def upt_rec del: set_upt) 
  define m where "m = (mem d)(gpr d RSP - 8 := gpr d R15, gpr d RSP - 16 := gpr d R14, gpr d RSP - 24 := gpr d R13,
       gpr d RSP - 32 := gpr d R12, gpr d RSP - 40 := gpr d RBP, gpr d RSP - 48 := gpr d RBX)"
  have apart: "x \<in> frame_cells saved 7 \<Longrightarrow> m x = mem d x" for x
    using assms(3) [unfolded six] by (auto simp: m_def)
  have "frame_words saved 7 m = frame_words saved 7 (mem d)"
    unfolding frame_words_def by (rule map_cong [OF refl]) (rule apart, simp add: frame_cells_def)
  then have "frame_words saved 7 m = [gpr c RBX, gpr c RBP, gpr c R12, gpr c R13, gpr c R14, gpr c R15, mem c (gpr c RSP)]"
    using assms(2) w by simp
  note f = this [unfolded context_frame list.inject]
  have d: "snd (thread_switch d) = switch_to (d\<lparr>gpr := (gpr d)(RSP := saved), mem := m\<rparr>)"
    unfolding switch_saves assms(4) m_def by simp
  have "rip (snd (thread_switch d)) = m (saved + 48)" "gpr (snd (thread_switch d)) RSP = saved + 56"
    "map (gpr (snd (thread_switch d))) [RBX, RBP, R12, R13, R14, R15] = [m saved, m (saved + 8), m (saved + 16), m (saved + 24), m (saved + 32), m (saved + 40)]"
    unfolding d switch_loads Let_def by simp_all
  then show ?thesis using f by (simp only: simp_thms list.map) (simp add: s)
qed

definition sample_core :: core where
  "sample_core = \<lparr>gpr = (\<lambda>_. 0)(RSP := 0x1000, RBX := 7, RSI := 0x3000), sel = \<lambda>_. 0x10, rip = 0x100000, rflags = 0x202, cr2 = 0, mem = (\<lambda>_. 0)(0x1000 := 42)\<rparr>"

theorem thread_switch_returns_witness:
  "let (saved, c') = thread_switch sample_core; d = set_reg RSP 0x2000 (set_reg RSI saved c') in
   rip (snd (thread_switch d)) = 42 \<and> gpr (snd (thread_switch d)) RSP = 0x1008 \<and> gpr (snd (thread_switch d)) RBX = 7"
proof -
  obtain saved c' where s: "thread_switch sample_core = (saved, c')" by (cases "thread_switch sample_core")
  have sv: "saved = 0xFD0" using s by (simp add: switch_saves sample_core_def)
  have "frame_cells 0xFD0 7 \<inter> frame_cells (0x2000 - 48) 6 = {}" by (simp add: frame_cells_def upt_rec del: set_upt)
  then show ?thesis
    using thread_switch_returns [OF s, of "set_reg RSP 0x2000 (set_reg RSI saved c')"] sv
    by (simp add: s set_reg_def) (simp add: sample_core_def)
qed

text \<open>
  C15. An interrupt is transparent: from the interrupt taken by the processor through \<open>interrupt_entry\<close>, any dispatch that
  preserves RBX and leaves the interrupt context alone, and \<open>interrupt_exit\<close>, the interrupted code continues with all its registers,
  segment selectors and flags, at the instruction and on the stack it was interrupted; for vectors with and without an error code.
\<close>
theorem interrupt_is_transparent:
  assumes "entered = interrupt_entry (interrupt_stub n (deliver n err c))" and "gpr d RBX = gpr entered RBX"
    and "frame_words (gpr d RBX) 24 (mem d) = frame_words (gpr d RBX) 24 (mem entered)"
  shows "interrupt_return d = c\<lparr>cr2 := cr2 d, mem := mem d\<rparr>"
proof -
  define s where "s = gpr c RSP AND NOT 15"
  define m where "m = (mem c)(s - 8 := ucast (sel c Sel_SS), s - 16 := gpr c RSP, s - 24 := rflags c, s - 32 := ucast (sel c Sel_CS), s - 40 := rip c)"
  define b where "b = interrupt_stub n (deliver n err c)"
  have stub: "gpr b = (gpr c)(RSP := s - 56)" "sel b = (sel c)(Sel_CS := 8)" "cr2 b = cr2 c"
    "mem b = m(s - 48 := if pushes_error n then err else 0, s - 56 := of_nat n)"
    by (simp_all add: b_def m_def s_def interrupt_stub_def deliver_def asm_simps)
  have al: "(s - 56) AND 7 = 0"
  proof -
    have "s AND 7 = 0" by (simp add: s_def and.assoc)
    from aligned_low(1) [OF this, of "- 56"] show ?thesis by simp
  qed
  define f where "f = s - 192"
  have entered: "gpr entered RBX = f" and e: "mem entered = (mem b)(f + 128 := gpr b R15, f + 120 := gpr b R14, f + 112 := gpr b R13,
      f + 104 := gpr b R12, f + 96 := gpr b R11, f + 88 := gpr b R10, f + 80 := gpr b R9, f + 72 := gpr b R8, f + 64 := gpr b RBP,
      f + 56 := gpr b RDI, f + 48 := gpr b RSI, f + 40 := gpr b RDX, f + 32 := gpr b RCX, f + 24 := gpr b RBX, f + 16 := gpr b RAX,
      f + 8 := pack_selectors (sel b) (mem b (f + 8)), f := cr2 b)"
    using entry_saves [of b] al unfolding assms(1) b_def [symmetric] by (simp_all add: stub(1) f_def Let_def)
  have g: "gpr d RBX = f" using assms(2) entered by simp
  note w = assms(3) [unfolded g interrupt_frame list.inject]
  have r: "interrupt_return d = interrupt_exit_code (d\<lparr>gpr := (gpr d)(RSP := f)\<rparr>)" by (simp add: interrupt_return_def set_reg_def g)
  have al: "f AND 7 = 0" using aligned_low(1) [OF al, of "- 136"] by (simp add: f_def)
  show ?thesis
  proof -
    have b: "mem b (f + 152) = rip c" "mem b (f + 160) = ucast (sel c Sel_CS)" "mem b (f + 168) = rflags c"
      "mem b (f + 176) = gpr c RSP" "mem b (f + 184) = ucast (sel c Sel_SS)"
      by (simp_all add: stub m_def f_def)
    have sels: "(sel d)(Sel_DS := sel c Sel_DS, Sel_ES := sel c Sel_ES, Sel_FS := sel c Sel_FS, Sel_GS := sel c Sel_GS,
        Sel_CS := sel c Sel_CS, Sel_SS := sel c Sel_SS) = sel c"
    proof
      fix x show "((sel d)(Sel_DS := sel c Sel_DS, Sel_ES := sel c Sel_ES, Sel_FS := sel c Sel_FS, Sel_GS := sel c Sel_GS,
        Sel_CS := sel c Sel_CS, Sel_SS := sel c Sel_SS)) x = sel c x" by (cases x) simp_all
    qed
    have regs: "(gpr d)(RAX := g RAX, RBX := g RBX, RCX := g RCX, RDX := g RDX, RSI := g RSI, RDI := g RDI, RBP := g RBP, R8 := g R8,
        R9 := g R9, R10 := g R10, R11 := g R11, R12 := g R12, R13 := g R13, R14 := g R14, R15 := g R15, RSP := g RSP) = g" for g
    proof
      fix x show "((gpr d)(RAX := g RAX, RBX := g RBX, RCX := g RCX, RDX := g RDX, RSI := g RSI, RDI := g RDI, RBP := g RBP, R8 := g R8,
        R9 := g R9, R10 := g R10, R11 := g R11, R12 := g R12, R13 := g R13, R14 := g R14, R15 := g R15, RSP := g RSP)) x = g x"
        by (cases x) simp_all
    qed
    have ids: "ucast (ucast (v :: u16) :: u64) = v" for v by (rule bit_word_eqI) (auto simp: bit_simps)
    show ?thesis
      unfolding r using exit_loads [of "d\<lparr>gpr := (gpr d)(RSP := f)\<rparr>"] al regs [of "gpr c"]
      by (simp add: w e Let_def b unpack stub(1,2) ids sels)
  qed
qed

theorem interrupt_is_transparent_witness:
  "interrupt_return (interrupt_entry (interrupt_stub 14 (deliver 14 2 sample_core))) =
   sample_core\<lparr>mem := mem (interrupt_entry (interrupt_stub 14 (deliver 14 2 sample_core)))\<rparr>"
proof -
  let ?e = "interrupt_entry (interrupt_stub 14 (deliver 14 2 sample_core))"
  have "cr2 ?e = cr2 sample_core" by (simp add: interrupt_entry_def interrupt_registers_def interrupt_stub_def deliver_def asm_simps)
  then show ?thesis using interrupt_is_transparent [of ?e 14 2 sample_core ?e] by simp
qed

end
