(* ===== verification/Thread_Create.thy ===== *)
theory Thread_Create
  imports Context_Switch Scheduler Memory_Props
begin

text \<open>
  \<^verbatim>\<open>kernel/thread.c\<close>: \<open>thread_create\<close>. It allocates a stack and builds the frames on it by which a switch to the new thread
  reaches \<open>thread_entry\<close>, the thread's function and \<open>thread_exit\<close>. Its stores go through the page tables: the first one to the
  stack is backed by the page fault handler.
\<close>

section \<open>Stores leave the rest of the machine alone\<close>

definition stores_memory :: "'a storer \<Rightarrow> bool" where
  "stores_memory st \<longleftrightarrow> (\<forall>va v s s'. st va v s = Inr s' \<longrightarrow> only_mm s s')"

lemma stores_memoryD: "stores_memory st \<Longrightarrow> st va v s = Inr s' \<Longrightarrow> only_mm s s'"
  by (simp add: stores_memory_def)

lemma zero_page_memory: "stores_memory st \<Longrightarrow> zero_page_via st va s = Inr s' \<Longrightarrow> only_mm s s'"
  by (auto simp: zero_page_via_def outcome_simps dest!: stores_memoryD intro: only_mm_trans only_mm_steps split: option.splits)

lemma unmap_page_memory: "stores_memory st \<Longrightarrow> vmm_unmap_page_via st va s = Inr s' \<Longrightarrow> only_mm s s'"
  by (auto simp: vmm_unmap_page_via_def outcome_simps dest!: stores_memoryD intro: only_mm_trans)

lemma alloc_from_regions_memory: "alloc_from_regions s = Inr (p, s') \<Longrightarrow> only_mm s s'"
  by (auto simp: alloc_from_regions_def outcome_simps Let_def only_mm_def split: if_splits)

lemma alloc_page_memory:
  assumes st: "stores_memory st" and run: "pmm_alloc_page_via st s = Inr (p, s')"
  shows "only_mm s s'"
proof (cases "pmm_stack_top s \<noteq> PMM_STACK_VMA")
  case True
  let ?t = "s\<lparr>pmm_stack_top := pmm_stack_top s - 8\<rparr>"
  obtain u where u: "(if IS_PAGE_ALIGNED (pmm_stack_top ?t) then vmm_unmap_page_via st (pmm_stack_top ?t) ?t else Inr ?t) = Inr u"
    and s': "s' = u\<lparr>pmm_free_memory := pmm_free_memory u - PAGE_SIZE\<rparr>"
    using run True by (auto simp: pmm_alloc_page_via_def outcome_simps Let_def)
  have "only_mm s ?t" "only_mm u s'" by (simp_all add: only_mm_def s')
  moreover have "only_mm ?t u" using u unmap_page_memory [OF st] by (auto split: if_splits)
  ultimately show ?thesis by (blast intro: only_mm_trans)
qed (use run alloc_from_regions_memory in \<open>simp add: pmm_alloc_page_via_def\<close>)

lemma fault_memory:
  assumes st: "stores_memory st" and run: "vmm_page_fault_handler_via st a e s = Inr (r, s')"
  shows "only_mm s s'"
proof -
  obtain page entry u v where "pmm_alloc_page_via st s = Inr (page, u)" "st (entry_addr pm1_base (index1 (PAGE_ALIGN_DOWN a))) entry u = Inr v"
    "zero_page_via st (PAGE_ALIGN_DOWN a) (vmm_invalidate (PAGE_ALIGN_DOWN a) v) = Inr s'"
    using run by (auto simp: vmm_page_fault_handler_via_def outcome_simps Let_def simp del: index1_align_down split: if_splits)
  then have "only_mm s u" "only_mm u v" "only_mm (vmm_invalidate (PAGE_ALIGN_DOWN a) v) s'"
    using alloc_page_memory [OF st] stores_memoryD [OF st] zero_page_memory [OF st] by blast+
  then show ?thesis by (blast intro: only_mm_trans only_mm_steps(3))
qed

lemma store_memory: "stores_memory (store n)"
proof (induction n)
  case 0
  show ?case by (auto simp: stores_memory_def store.simps split: option.splits)
next
  case (Suc n)
  show ?case unfolding stores_memory_def
    by (subst store.simps) (auto simp: outcome_simps split: option.splits
        dest!: fault_memory [OF Suc] stores_memoryD [OF Suc] intro: only_mm_trans)
qed

lemma put_memory: "stores_memory put"
  by (simp add: put_def store_memory)

text \<open>\<open>vmm_alloc\<close> also moves its own pointer.\<close>

definition only_alloc :: "'a mm_scheme \<Rightarrow> 'a mm_scheme \<Rightarrow> bool" where
  "only_alloc s s' \<longleftrightarrow> only_mm s (s'\<lparr>next_alloc := next_alloc s\<rparr>)"

lemma only_alloc_trans: "only_alloc s t \<Longrightarrow> only_alloc t u \<Longrightarrow> only_alloc s u"
  unfolding only_alloc_def only_mm_def by (cases s, cases t, cases u) simp

lemma only_mm_alloc: "only_mm s t \<Longrightarrow> only_alloc s t"
  unfolding only_alloc_def only_mm_def by (cases s, cases t) simp

lemma alloc_loop_memory: "vmm_alloc_loop n s = Inr s' \<Longrightarrow> only_alloc s s'"
proof (induction n arbitrary: s)
  case (Suc n)
  let ?va = "next_alloc s"
  obtain t where t: "put (entry_addr pm1_base (index1 ?va)) PAGE_ALLOCATED s = Inr t"
    "vmm_alloc_loop n ((vmm_invalidate (next_alloc t) t)\<lparr>next_alloc := next_alloc (vmm_invalidate (next_alloc t) t) + PAGE_SIZE\<rparr>) = Inr s'"
    using Suc.prems by (auto simp: outcome_simps Let_def)
  let ?u = "(vmm_invalidate (next_alloc t) t)\<lparr>next_alloc := next_alloc (vmm_invalidate (next_alloc t) t) + PAGE_SIZE\<rparr>"
  have "only_alloc s t" by (rule only_mm_alloc [OF stores_memoryD [OF put_memory t(1)]])
  moreover have "only_alloc t ?u" by (simp add: only_alloc_def only_mm_def vmm_invalidate_def)
  ultimately show ?case using Suc.IH [OF t(2)] only_alloc_trans by blast
qed (simp add: only_mm_alloc)

lemma vmm_alloc_memory: "vmm_alloc nbytes s = Inr (a, s') \<Longrightarrow> only_alloc s s'"
  by (auto simp: vmm_alloc_def Let_def outcome_simps only_mm_alloc dest: alloc_loop_memory split: if_splits)

lemma only_alloc_fields:
  assumes "only_alloc s s'"
  shows "mm.more s' = mm.more s" "if_flag s' = if_flag s" "g_spinLockCount s' = g_spinLockCount s" "port_log s' = port_log s"
    "g_interruptsEnabled s' = g_interruptsEnabled s"
  using assms unfolding only_alloc_def only_mm_def by (cases s; cases s'; simp)+

section \<open>thread_create\<close>

definition thread_current :: "'a sched_scheme \<Rightarrow> tid" where
  "thread_current s = current_thread s"

definition THREAD_STACK_SIZE :: u64 where "THREAD_STACK_SIZE = 16384"

text \<open>The addresses of the code the frames refer to, given by the linker.\<close>

record code_addresses =
  at_thread_entry :: u64
  at_thread_exit :: u64
  at_interrupt_exit :: u64

text \<open>A store of 16 bits.\<close>

definition put16 :: "u64 \<Rightarrow> u16 \<Rightarrow> 'a mm_scheme \<Rightarrow> 'a mm_scheme outcome" where
  "put16 va v s =
     (let merge = (\<lambda>f s. write_word f (slot va) (set_part16 (cell_shift va) v (ram s f (slot va))) s)
      in case walk (ram s) (cr3 s) va of
           Some f \<Rightarrow> Inr (merge f s)
         | None \<Rightarrow> and_then (vmm_page_fault_handler va PAGE_FAULT_WRITE s) (\<lambda>(_, s).
             case walk (ram s) (cr3 s) va of Some f \<Rightarrow> Inr (merge f s) | None \<Rightarrow> Inl Page_fault_nested_too_deep))"

text \<open>
  The frames, from the top of the stack: the return address of the thread's function, an interrupt context (192 bytes: cr2; ds, es,
  fs, gs; rax to r15; interrupt, error, rip, cs, rflags, rsp, ss), the return address of \<open>thread_entry\<close>, and the registers of
  \<open>thread_switch\<close> (56 bytes, rip the last). Returns the addresses of the interrupt context and of the registers.
\<close>

definition build_frames :: "code_addresses \<Rightarrow> u64 \<Rightarrow> u64 \<Rightarrow> 'a mm_scheme \<Rightarrow> ((u64 \<times> u64) \<times> 'a mm_scheme) outcome" where
  "build_frames code user_thread_function stack_top s =
     (let stack = stack_top - 8 in
      and_then (put stack (at_thread_exit code) s) (\<lambda>s.
      let frame = stack - 192 in
      and_then (put frame 0 s) (\<lambda>s.
      and_then (put (frame + 160) 0x08 s) (\<lambda>s.
      and_then (put (frame + 184) 0x10 s) (\<lambda>s.
      and_then (put16 (frame + 8) 0x10 s) (\<lambda>s.
      and_then (put16 (frame + 10) 0x10 s) (\<lambda>s.
      and_then (put16 (frame + 12) 0x10 s) (\<lambda>s.
      and_then (put16 (frame + 14) 0x10 s) (\<lambda>s.
      and_then (put (frame + 168) (word_of_int X86_EFLAGS_IF) s) (\<lambda>s.
      and_then (put (frame + 152) user_thread_function s) (\<lambda>s.
      and_then (put (frame + 176) (frame + 192) s) (\<lambda>s.
      let stack = frame - 8 in
      and_then (put stack (at_interrupt_exit code) s) (\<lambda>s.
      let context = stack - 56 in
      and_then (put (context + 48) (at_thread_entry code) s) (\<lambda>s.
      Inr ((frame, context), s)))))))))))))))"

text \<open>
  \<open>malloc\<close> is a parameter, the block it returns for the control block; the result is not checked. The saved context of a new
  thread is \<open>At_thread_entry\<close>, which stands for the registers on its stack.
\<close>

definition thread_create :: "code_addresses \<Rightarrow> tid option \<Rightarrow> u64 \<Rightarrow> 'a sched_scheme \<Rightarrow> (tid \<times> 'a sched_scheme) outcome" where
  "thread_create code allocated user_thread_function s =
     (case allocated of None \<Rightarrow> Inl Null_dereference
      | Some thread \<Rightarrow>
          let s = set_state thread THREAD_READY s in
          and_then (vmm_alloc THREAD_STACK_SIZE s) (\<lambda>(stack, s).
          let s = s\<lparr>threads := (threads s)(thread := (threads s thread)\<lparr>th_stack := stack\<rparr>)\<rparr> in
          and_then (build_frames code user_thread_function (stack + THREAD_STACK_SIZE) s) (\<lambda>((frame, context), s).
          let s = s\<lparr>threads := (threads s)(thread := (threads s thread)
                     \<lparr>th_interrupt_frame := Some frame, th_context := Some At_thread_entry\<rparr>)\<rparr> in
          check (interrupt_enabled s \<noteq> 0) (Assertion_failed ''interrupt_enabled()'')
         (and_then (scheduler_acquire s) (\<lambda>s.
          let s = s\<lparr>threads := (threads s)(thread := (threads s thread)\<lparr>th_blocker := None\<rparr>)\<rparr> in
          and_then (returns (list_append (threads s) (ready_list s) thread)) (\<lambda>(h, l).
          and_then (scheduler_release (s\<lparr>threads := h, ready_list := l\<rparr>)) (\<lambda>s.
          Inr (thread, s))))))))"

section \<open>Stores to one page\<close>

lemma in_page:
  assumes "b AND 0xFFF = 0" and "k < 4096"
  shows "path (b + k) = path b" "slot (b + k) = drop_bit 3 k" "cell_shift (b + k) = cell_shift k"
proof -
  have k: "n < 12" if "bit k n" for n
  proof -
    have "unat k < 2 ^ 12" using assms(2) by (simp add: word_less_nat_alt)
    then show ?thesis using that bit_less [of "unat k" n 12] by (simp add: bit_unsigned_iff)
  qed
  have b: "\<not> bit b n" if "n < 12" for n
  proof -
    have "bit (b AND 0xFFF) n \<longleftrightarrow> bit b n" using that by (simp add: bit_and_iff bit_numeral_word_iff mask_bits)
    then show ?thesis using assms(1) by simp
  qed
  have o: "b + k = b OR k" by (rule disjoint_add) (use k b in blast)
  show "path (b + k) = path b" unfolding o path_eq_iff using k by (auto simp: bit_or_iff dest: leD)
  show "slot (b + k) = drop_bit 3 k"
  proof (unfold o, rule bit_word_eqI)
    fix n
    show "bit (slot (b OR k)) n = bit (drop_bit 3 k) n"
      using k [of "3 + n"] b [of "3 + n"] by (auto simp: bit_ix bit_or_iff bit_drop_bit_eq)
  qed
  have "b AND 7 = (b AND 0xFFF) AND 7" by (simp add: and.assoc)
  then have "b AND 7 = 0" using assms(1) by simp
  then show "cell_shift (b + k) = cell_shift k" unfolding cell_shift_def by (simp only: aligned_low(1))
qed

text \<open>The page at \<open>b\<close> is mapped to the frame \<open>p\<close>, which holds data.\<close>

definition data_page :: "'a mm_scheme \<Rightarrow> u64 list \<Rightarrow> u64 \<Rightarrow> u64 \<Rightarrow> bool" where
  "data_page s ps b p \<longleftrightarrow> mm_ok s ps \<and> p \<notin> table_frames (ram s) (cr3 s) \<and> p \<notin> set ps \<and>
     walk (ram s) (cr3 s) b = Some p \<and> outside b \<and> b AND 0xFFF = 0"

lemma data_page_walk: "data_page s ps b p \<Longrightarrow> k < 4096 \<Longrightarrow> walk (ram s) (cr3 s) (b + k) = Some p"
  using walk_path [OF in_page(1)] by (simp add: data_page_def)

lemma data_page_write: "data_page s ps b p \<Longrightarrow> data_page (write_word p i v s) ps b p"
  using mm_ok_write_word(1,3) [of s ps p i v] mm_ok_write_word(2) [of s ps p b i v] unfolding data_page_def outside_def by simp

lemma put_on_page: "data_page s ps b p \<Longrightarrow> k < 4096 \<Longrightarrow> put (b + k) v s = Inr (write_word p (drop_bit 3 k) v s)"
  using put_mapped [OF data_page_walk, of s ps b p k v] in_page(2) [of b k] by (simp add: data_page_def)

lemma put16_on_page:
  "data_page s ps b p \<Longrightarrow> k < 4096 \<Longrightarrow>
   put16 (b + k) v s = Inr (write_word p (drop_bit 3 k) (set_part16 (cell_shift k) v (ram s p (drop_bit 3 k))) s)"
  using in_page(2,3) [of b k] data_page_walk [of s ps b p k] by (simp add: put16_def data_page_def)

section \<open>The frames of a new thread\<close>

text \<open>The contents of the page of the frames: the rest of it is clear.\<close>

definition new_frames :: "code_addresses \<Rightarrow> u64 \<Rightarrow> u64 \<Rightarrow> u64 \<Rightarrow> u64" where
  "new_frames code user stack_top = (\<lambda>_. 0)(511 := at_thread_exit code, 510 := 0x10, 509 := stack_top - 8, 508 := 0x200, 507 := 8,
     506 := user, 488 := 0x0010001000100010, 486 := at_interrupt_exit code, 485 := at_thread_entry code)"

lemma build_frames_on_page:
  assumes d: "data_page s ps b p" and zero: "ram s p = (\<lambda>_. 0)(511 := at_thread_exit code)"
    and first: "put (b + 4088) (at_thread_exit code) s0 = Inr s"
  shows "build_frames code user (b + 4096) s0 =
    Inr ((b + 3896, b + 3832), s\<lparr>ram := (ram s)(p := new_frames code user (b + 4096))\<rparr>)"
proof -
  note on_page = put_on_page [of _ ps b p, unfolded add.commute [of b]] put16_on_page [of _ ps b p, unfolded add.commute [of b]]
    data_page_write
  have sels: "set_part16 48 16 (set_part16 32 16 (set_part16 16 16 (set_part16 0 16 0))) = 0x0010001000100010" by code_simp
  have shifts: "cell_shift 3904 = 0" "cell_shift 3906 = 16" "cell_shift 3908 = 32" "cell_shift 3910 = 48"
    by (simp_all add: cell_shift_def)
  have slots: "drop_bit 3 (3896 :: u64) = 487" "drop_bit 3 (4056 :: u64) = 507" "drop_bit 3 (4080 :: u64) = 510" "drop_bit 3 (3904 :: u64) = 488"
     "drop_bit 3 (3906 :: u64) = 488" "drop_bit 3 (3908 :: u64) = 488" "drop_bit 3 (3910 :: u64) = 488" "drop_bit 3 (4064 :: u64) = 508"
     "drop_bit 3 (4048 :: u64) = 506" "drop_bit 3 (4072 :: u64) = 509" "drop_bit 3 (3888 :: u64) = 486" "drop_bit 3 (3880 :: u64) = 485"
    by (simp_all add: drop_bit_eq_div)
  let ?w = "((\<lambda>_. 0)(511 := at_thread_exit code))(487 := 0, 507 := 8, 510 := 0x10, 488 := 0x10, 488 := set_part16 16 16 0x10,
    488 := set_part16 32 16 (set_part16 16 16 0x10), 488 := 0x0010001000100010, 508 := 0x200, 506 := user, 509 := 4088 + b, 486 := at_interrupt_exit code,
    485 := at_thread_entry code)"
  have first_part: "set_part16 0 16 0 = 0x10" by code_simp
  have w: "?w = new_frames code user (4096 + b)" by (rule ext) (simp add: new_frames_def)
  have "build_frames code user (b + 4096) s0 = Inr ((b + 3896, b + 3832), s\<lparr>ram := (ram s)(p := ?w)\<rparr>)"
    using d first
    apply (simp add: build_frames_def Let_def on_page add.commute [of b] slots shifts put_entry_at zero sels [unfolded first_part] first_part X86_EFLAGS_IF_def)
    apply (simp add: write_word_def zero)
    done
  then show ?thesis unfolding w by (simp add: add.commute)
qed

section \<open>Creating a thread\<close>

lemma mm_ok_only:
  assumes "ram u = ram s" "cr3 u = cr3 s" "pmm_stack_top u = pmm_stack_top s" "s_free_memory u = s_free_memory s"
    "s_free_memory_count u = s_free_memory_count s" "s_free_memory_current u = s_free_memory_current s"
  shows "mm_ok u ps = mm_ok s ps" "free_pages u ps = free_pages s ps"
  using assms by (simp_all add: mm_ok_def free_stack_def frames_ok_def regions_ok_def region_pages_def free_pages_def in_use_def)

lemma stack_reserved:
  assumes ok: "mm_ok s ps" and free: "5 \<le> card (free_pages s ps)" and room: "range_ok s (next_alloc s) 4"
  shows "\<exists>s1 ps1. vmm_alloc THREAD_STACK_SIZE s = Inr (next_alloc s, s1) \<and> next_alloc s1 = next_alloc s + 16384 \<and>
    confined (range_paths (next_alloc s) 4) s ps s1 ps1 \<and> page_entry s1 (next_alloc s + 0x3000) = Some PAGE_ALLOCATED \<and>
    free_pages s1 ps1 \<noteq> {}"
proof -
  obtain s1 ps1 where 1: "vmm_alloc_loop 4 s = Inr s1" "next_alloc s1 = page_at (next_alloc s) 4"
    "confined (range_paths (next_alloc s) 4) s ps s1 ps1" "\<forall>i < 4. page_entry s1 (page_at (next_alloc s) i) = Some PAGE_ALLOCATED"
    "card (free_pages s ps) \<le> card (free_pages s1 ps1) + 4"
    using alloc_loop [OF ok _ room] free by auto
  have "PAGE_ALIGN_UP THREAD_STACK_SIZE = 0x4000" by (simp add: PAGE_ALIGN_UP_def PAGE_ALIGN_DOWN_def PAGE_SIZE_def THREAD_STACK_SIZE_def)
  then have "vmm_alloc THREAD_STACK_SIZE s = Inr (next_alloc s, s1)"
    using 1(1) by (simp add: vmm_alloc_def Let_def pages_between_def) (simp add: THREAD_STACK_SIZE_def)
  moreover have "page_entry s1 (next_alloc s + 0x3000) = Some PAGE_ALLOCATED"
    using 1(4) [rule_format, of 3] by (simp add: page_at_def PAGE_SIZE_def)
  moreover have "free_pages s1 ps1 \<noteq> {}" using 1(5) free by auto
  ultimately show ?thesis using 1(2,3) by (simp add: page_at_def PAGE_SIZE_def) blast
qed

lemma stack_built:
  assumes ok: "mm_ok s ps" and free: "free_pages s ps \<noteq> {}" and b: "outside b" "b AND 0xFFF = 0"
    and e: "page_entry s b = Some PAGE_ALLOCATED"
  shows "\<exists>s' ps' p. build_frames code user (b + 4096) s = Inr ((b + 3896, b + 3832), s') \<and> only_mm s s' \<and> data_page s' ps' b p \<and>
    ram s' p = new_frames code user (b + 4096) \<and> p \<in> free_pages s ps \<and>
    (\<forall>vb. outside vb \<longrightarrow> path vb \<noteq> path b \<longrightarrow> walk (ram s') (cr3 s') vb = walk (ram s) (cr3 s) vb) \<and>
    (\<forall>f. f \<notin> table_frames (ram s) (cr3 s) \<union> free_pages s ps \<longrightarrow> ram s' f = ram s f)"
proof -
  let ?a = "b + 4088"
  have a: "path ?a = path b" "slot ?a = 511" using in_page [OF b(2), of 4088] by (simp_all add: drop_bit_eq_div)
  have out: "outside ?a" and ent: "page_entry s ?a = Some PAGE_ALLOCATED"
    using path_parts [OF a(1)] b(1) e by (simp_all add: outside_def page_entry_def path_def)
  have mask: "PAGE_ALLOCATED AND PAGE_ALLOCATED \<noteq> 0" by (simp add: PAGE_ALLOCATED_def)
  obtain p t qs where t: "put ?a (at_thread_exit code) s = Inr t" "mm_ok t qs" "p \<in> free_pages s ps" "free_pages t qs = free_pages s ps - {p}"
    "walk (ram t) (cr3 t) ?a = Some p" "ram t p = (\<lambda>_. 0)(511 := at_thread_exit code)"
    "\<forall>vb. outside vb \<longrightarrow> path vb \<noteq> path ?a \<longrightarrow> walk (ram t) (cr3 t) vb = walk (ram s) (cr3 s) vb"
    "\<forall>f. f \<notin> table_frames (ram s) (cr3 s) \<union> free_pages s ps \<longrightarrow> ram t f = ram s f"
    "table_frames (ram t) (cr3 t) = table_frames (ram s) (cr3 s)"
    using demand_page_tables [OF ok free out ent not_present_allocated(1) mask, of "at_thread_exit code"] a(2) by auto
  have d: "data_page t qs b p"
    using t(2,4,5,9) free_not_table [OF ok t(3)] b walk_path [OF a(1)] by (auto simp: data_page_def free_pages_def)
  let ?u = "t\<lparr>ram := (ram t)(p := new_frames code user (b + 4096))\<rparr>"
  have run: "build_frames code user (b + 4096) s = Inr ((b + 3896, b + 3832), ?u)"
    by (rule build_frames_on_page [OF d t(6,1)])
  note md = mm_ok_data [OF t(2), of p ?u, OF _ _ refl]
  have p: "p \<notin> table_frames (ram t) (cr3 t)" "p \<notin> set qs" using d by (simp_all add: data_page_def)
  have same: "walk (ram ?u) (cr3 ?u) va = walk (ram t) (cr3 t) va" if "ix4 va \<noteq> 510" for va by (rule md(3) [OF p that])
  have "data_page ?u qs b p"
    using md(1,2) [OF p] same [of b] d p b(1) by (simp add: data_page_def outside_def)
  moreover have "only_mm s ?u"
  proof -
    have "only_mm t ?u" by (simp add: only_mm_def)
    then show ?thesis using stores_memoryD [OF put_memory t(1)] only_mm_trans by blast
  qed
  moreover have "walk (ram ?u) (cr3 ?u) vb = walk (ram s) (cr3 s) vb" if "outside vb" "path vb \<noteq> path b" for vb
    using same [of vb] t(7) that a(1) by (simp add: outside_def)
  moreover have "ram ?u f = ram s f" if "f \<notin> table_frames (ram s) (cr3 s) \<union> free_pages s ps" for f
    using that t(3,8) by auto
  moreover have "ram ?u p = new_frames code user (b + 4096)" by simp
  ultimately show ?thesis using run t(3) by blast
qed

lemma sched_fields:
  assumes "mm.more s' = mm.more s"
  shows "threads s' = threads s" "current_thread s' = current_thread s" "ready_list s' = ready_list s"
    "suspended_list s' = suspended_list s" "scheduler_lock s' = scheduler_lock s" "timer_tick s' = timer_tick s"
    "sched.more s' = sched.more s"
  using assms by (cases s; cases s'; simp)+

lemma only_mm_spin:
  assumes "only_mm s s'"
  shows "g_spinLockCount s' = g_spinLockCount s"
  by (rule trans [OF arg_cong [OF assms [unfolded only_mm_def]]]) simp

lemma thread_list_nexts: "nexts h' = nexts h \<Longrightarrow> thread_list h' p xs = thread_list h p xs"
  by (simp add: thread_list_def)

text \<open>The end of \<open>thread_create\<close>: the new thread is queued under the scheduler lock.\<close>

definition queue_new :: "tid \<Rightarrow> 'a sched_scheme \<Rightarrow> (tid \<times> 'a sched_scheme) outcome" where
  "queue_new thread s =
     check (interrupt_enabled s \<noteq> 0) (Assertion_failed ''interrupt_enabled()'')
    (and_then (scheduler_acquire s) (\<lambda>s.
     let s = s\<lparr>threads := (threads s)(thread := (threads s thread)\<lparr>th_blocker := None\<rparr>)\<rparr> in
     and_then (returns (list_append (threads s) (ready_list s) thread)) (\<lambda>(h, l).
     and_then (scheduler_release (s\<lparr>threads := h, ready_list := l\<rparr>)) (\<lambda>s.
     Inr (thread, s)))))"

lemma new_thread_queued:
  assumes q: "queued s rs ss" and t: "t \<notin> set rs \<union> set ss" "t \<noteq> current_thread s" "th_context (threads s t) \<noteq> None"
    and lock: "scheduler_lock s = 0" "g_spinLockCount s = 0" "if_flag s"
  shows "\<exists>h l. queue_new t s = Inr (t, s\<lparr>threads := h, ready_list := l, g_spinLockCount := 0, g_interruptsEnabled := X86_EFLAGS_IF,
      scheduler_lock := 0, if_flag := True\<rparr>) \<and>
    queued (s\<lparr>threads := h, ready_list := l\<rparr>) (rs @ [t]) ss \<and>
    th_state (h t) = th_state (threads s t) \<and> th_stack (h t) = th_stack (threads s t) \<and> th_blocker (h t) = None \<and>
    th_interrupt_frame (h t) = th_interrupt_frame (threads s t) \<and> th_context (h t) = th_context (threads s t)"
proof -
  note q' = q [unfolded queued_def]
  let ?h1 = "(threads s)(t := (threads s t)\<lparr>th_blocker := None\<rparr>)"
  have rs: "thread_list ?h1 (ready_list s) rs" "thread_list ?h1 (suspended_list s) ss"
    using q' by (simp_all only: thread_list_payload)
  have tr: "t \<notin> set rs" using t(1) by simp
  obtain h l where a: "list_append ?h1 (ready_list s) t = Some (h, l)" "thread_list h l (rs @ [t])"
    "\<And>u. thread_payload (h u) = thread_payload (?h1 u)" "\<And>u. u \<notin> insert t (set rs) \<Longrightarrow> h u = ?h1 u"
    using tq.appendE [OF rs(1) tr] by blast
  have ss: "thread_list h (suspended_list s) ss"
  proof (rule tq.rep_local [OF rs(2)])
    fix u assume "u \<in> set ss"
    then have "u \<notin> insert t (set rs)" using q' t(1) by auto
    then show "h u = ?h1 u" by (rule a(4))
  qed
  note pay = payload_fields [OF a(3)]
  let ?u = "s\<lparr>if_flag := False, g_spinLockCount := 1, g_interruptsEnabled := interrupt_enabled s, scheduler_lock := 1,
     threads := h, ready_list := l\<rparr>"
  have rel: "scheduler_release ?u = Inr (?u\<lparr>if_flag := True, g_spinLockCount := 0, scheduler_lock := 0\<rparr>)"
    using release_last [of ?u] lock(3) by simp
  have "queue_new t s = Inr (t, ?u\<lparr>if_flag := True, g_spinLockCount := 0, scheduler_lock := 0\<rparr>)"
    using lock a(1) rel acquire_first [OF lock(2,1)] by (simp add: queue_new_def Let_def)
  moreover have "interrupt_enabled s = X86_EFLAGS_IF" using lock(3) by (simp add: interrupt_enabled_def)
  moreover have "queued (s\<lparr>threads := h, ready_list := l\<rparr>) (rs @ [t]) ss"
    unfolding queued_def using a(2) ss q' t pay(2) by auto
  ultimately show ?thesis using pay [of t] by (intro exI [of _ h] exI [of _ l]) simp
qed

lemma queued_same:
  assumes "queued s rs ss" and "nexts (threads u) = nexts (threads s)" and "ready_list u = ready_list s" "suspended_list u = suspended_list s"
    "current_thread u = current_thread s" and "\<And>x. x \<in> set rs \<union> set ss \<Longrightarrow> th_context (threads u x) = th_context (threads s x)"
  shows "queued u rs ss"
  using assms unfolding queued_def by (simp add: thread_list_nexts [OF assms(2)])

section \<open>What a switch to the new thread does\<close>

text \<open>The memory the processor sees, and the frames in it: the last 33 quadwords of the page at \<open>b\<close>, which ends the stack.\<close>

definition view :: "'a mm_scheme \<Rightarrow> u64 \<Rightarrow> u64" where
  "view s a = (case load s a of Inl _ \<Rightarrow> 0 | Inr v \<Rightarrow> v)"

definition holds_frames :: "code_addresses \<Rightarrow> u64 \<Rightarrow> u64 \<Rightarrow> (u64 \<Rightarrow> u64) \<Rightarrow> bool" where
  "holds_frames code user b m \<longleftrightarrow> frame_words (b + 3832) 33 m =
     replicate 6 0 @ [at_thread_entry code, at_interrupt_exit code, 0, 0x0010001000100010] @ replicate 17 0 @
     [user, 8, 0x200, b + 4088, 0x10, at_thread_exit code]"

lemma new_frames_hold:
  assumes d: "data_page s ps b p" and r: "ram s p = new_frames code user (b + 4096)"
  shows "holds_frames code user b (view s)" "k < 4096 \<Longrightarrow> load s (b + k) = Inr (view s (b + k))"
proof -
  have v: "load s (b + k) = Inr (new_frames code user (b + 4096) (drop_bit 3 k))" if "k < 4096" for k
    using load_mapped [OF data_page_walk [OF d that]] in_page(2) [of b k] d that r by (simp add: data_page_def)
  then show "k < 4096 \<Longrightarrow> load s (b + k) = Inr (view s (b + k))" by (simp add: view_def)
  have w: "view s (b + k) = new_frames code user (b + 4096) (drop_bit 3 k)" if "k < 4096" for k
    using v [OF that] by (simp add: view_def)
  show "holds_frames code user b (view s)"
  proof -
    have reps: "replicate 6 (0 :: u64) = [0, 0, 0, 0, 0, 0]"
      "replicate 17 (0 :: u64) = [0, 0, 0, 0, 0, 0, 0, 0, 0, 0, 0, 0, 0, 0, 0, 0, 0]" by (simp_all add: numeral_eq_Suc)
    show ?thesis
      by (simp add: holds_frames_def frame_words_def upt_rec reps w drop_bit_eq_div add.assoc) (simp add: new_frames_def)
  qed
qed

lemma frames_words:
  assumes "holds_frames code user b m"
  shows "m (b + 3880) = at_thread_entry code" "m (b + 3888) = at_interrupt_exit code" "m (b + 4088) = at_thread_exit code"
    "m (b + 3904) = 0x0010001000100010" "m (b + 4048) = user" "m (b + 4056) = 8" "m (b + 4064) = 0x200" "m (b + 4072) = b + 4088"
    "m (b + 4080) = 0x10" "\<And>j. j < 15 \<Longrightarrow> m (b + 3912 + 8 * of_nat j) = 0"
proof -
  have n: "m (b + 3832 + 8 * of_nat i) = (replicate 6 0 @ [at_thread_entry code, at_interrupt_exit code, 0, 0x0010001000100010] @ replicate 17 0 @
     [user, 8, 0x200, b + 4088, 0x10, at_thread_exit code]) ! i" if "i < 33" for i
    using arg_cong [OF assms [unfolded holds_frames_def frame_words_def], of "\<lambda>xs. xs ! i"] that by simp
  show "m (b + 3880) = at_thread_entry code" "m (b + 3888) = at_interrupt_exit code" "m (b + 4088) = at_thread_exit code"
    "m (b + 3904) = 0x0010001000100010" "m (b + 4048) = user" "m (b + 4056) = 8" "m (b + 4064) = 0x200" "m (b + 4072) = b + 4088"
    "m (b + 4080) = 0x10"
    using n [of 6] n [of 7] n [of 32] n [of 9] n [of 27] n [of 28] n [of 29] n [of 30] n [of 31]
    by (simp_all add: nth_append add.commute [of b])
  show "m (b + 3912 + 8 * of_nat j) = 0" if "j < 15" for j
    using n [of "10 + j"] that by (simp add: nth_append nth_Cons' add.assoc [symmetric] add.commute [of b])
qed

text \<open>
  What \<open>thread_entry\<close>, a compiled C function without arguments, keeps of its caller's state, from its first instruction (core \<open>c\<close>) to its
  \<open>ret\<close> (core \<open>d\<close>): the stack pointer and the \<open>n\<close> quadwords from there on, which are the caller's. Below
  the stack pointer, where it pushes its own data, and elsewhere the memory may change, and so may all other registers.
\<close>

definition keeps_caller :: "nat \<Rightarrow> core \<Rightarrow> core \<Rightarrow> bool" where
  "keeps_caller n c d \<longleftrightarrow> gpr d RSP = gpr c RSP \<and> frame_words (gpr c RSP) n (mem d) = frame_words (gpr c RSP) n (mem c)"

lemma kept_frames:
  assumes h: "holds_frames code user b m" and kept: "frame_words (b + 3888) 26 m' = frame_words (b + 3888) 26 m"
  shows "m' (b + 3888) = at_interrupt_exit code" "m' (b + 4088) = at_thread_exit code"
    "m' (b + 3904) = 0x0010001000100010" "m' (b + 4048) = user" "m' (b + 4056) = 8" "m' (b + 4064) = 0x200" "m' (b + 4072) = b + 4088"
    "m' (b + 4080) = 0x10" "\<And>j. j < 15 \<Longrightarrow> m' (b + 3912 + 8 * of_nat j) = 0"
proof -
  note c = frames_words [OF h]
  have same: "m' (b + 3888 + 8 * of_nat i) = m (b + 3888 + 8 * of_nat i)" if "i < 26" for i
    using arg_cong [OF kept [unfolded frame_words_def], of "\<lambda>xs. xs ! i"] that by simp
  show "m' (b + 3888) = at_interrupt_exit code" "m' (b + 4088) = at_thread_exit code"
    "m' (b + 3904) = 0x0010001000100010" "m' (b + 4048) = user" "m' (b + 4056) = 8" "m' (b + 4064) = 0x200" "m' (b + 4072) = b + 4088"
    "m' (b + 4080) = 0x10"
    using same [of 0] same [of 25] same [of 2] same [of 20] same [of 21] same [of 22] same [of 23] same [of 24] c(2-9)
    by (simp_all add: add.assoc)
  show "m' (b + 3912 + 8 * of_nat j) = 0" if "j < 15" for j
    using same [of "3 + j"] c(10) [OF that] that by (simp add: distrib_left add.assoc)
qed

text \<open>
  C13. A new thread starts in its function. Switched to, it runs \<open>thread_entry\<close>; whatever that does, as long as it keeps its
  caller's part of the stack, it returns to \<open>interrupt_exit\<close>, from which the thread runs its function at the end of its stack with
  all other registers clear, the kernel's selectors and interrupts enabled, and the return from the function goes to \<open>thread_exit\<close>.
\<close>
theorem new_thread_starts:
  assumes "holds_frames code user b (mem c)" and "gpr c RSP = b + 3832" and "b AND 7 = 0"
    and "keeps_caller 26 (switch_to c) d"
  shows "rip (switch_to c) = at_thread_entry code \<and> rip (ret d) = at_interrupt_exit code \<and>
    interrupt_exit_code (ret d) = d\<lparr>gpr := (\<lambda>_. 0)(RSP := b + 4088), sel := (\<lambda>_. 0x10)(Sel_CS := 8), rip := user, rflags := 0x200\<rparr> \<and>
    rip (ret (interrupt_exit_code (ret d))) = at_thread_exit code"
proof -
  note c = frames_words [OF assms(1)]
  have start: "rip (switch_to c) = at_thread_entry code" "gpr (switch_to c) RSP = b + 3888" "mem (switch_to c) = mem c"
    using c(1,2) by (simp_all add: switch_loads assms(2) Let_def set_reg_def add.commute)
  have sp: "gpr d RSP = b + 3888" and kept: "frame_words (b + 3888) 26 (mem d) = frame_words (b + 3888) 26 (mem c)"
    using assms(4) start by (simp_all add: keeps_caller_def)
  note d = kept_frames [OF assms(1) kept]
  let ?d = "ret d"
  have ret: "rip ?d = at_interrupt_exit code" "gpr ?d RSP = b + 3896" "mem ?d = mem d"
    using d(1) by (simp_all add: ret_def set_reg_def sp add.commute)
  have al: "gpr ?d RSP AND 7 = 0" using aligned_low(1) [OF assms(3), of 3896] by (simp add: ret(2))
  have sels: "part16 0 (0x0010001000100010 :: u64) = 0x10" "part16 16 (0x0010001000100010 :: u64) = 0x10"
    "part16 32 (0x0010001000100010 :: u64) = 0x10" "part16 48 (0x0010001000100010 :: u64) = 0x10" by code_simp+
  have zero: "mem d (b + 3912) = 0" "mem d (b + 3920) = 0" "mem d (b + 3928) = 0" "mem d (b + 3936) = 0" "mem d (b + 3944) = 0"
    "mem d (b + 3952) = 0" "mem d (b + 3960) = 0" "mem d (b + 3968) = 0" "mem d (b + 3976) = 0" "mem d (b + 3984) = 0"
    "mem d (b + 3992) = 0" "mem d (b + 4000) = 0" "mem d (b + 4008) = 0" "mem d (b + 4016) = 0" "mem d (b + 4024) = 0"
    using d(9) [of 0] d(9) [of 1] d(9) [of 2] d(9) [of 3] d(9) [of 4] d(9) [of 5] d(9) [of 6] d(9) [of 7] d(9) [of 8]
      d(9) [of 9] d(9) [of 10] d(9) [of 11] d(9) [of 12] d(9) [of 13] d(9) [of 14] by (simp_all add: add.commute [of b])
  have g: "(gpr ?d)(RAX := 0, RBX := 0, RCX := 0, RDX := 0, RSI := 0, RDI := 0, RBP := 0, R8 := 0, R9 := 0, R10 := 0, R11 := 0, R12 := 0,
     R13 := 0, R14 := 0, R15 := 0, RSP := b + 4088) = (\<lambda>_. 0)(RSP := b + 4088)"
  proof
    fix x show "((gpr ?d)(RAX := 0, RBX := 0, RCX := 0, RDX := 0, RSI := 0, RDI := 0, RBP := 0, R8 := 0, R9 := 0, R10 := 0, R11 := 0, R12 := 0,
     R13 := 0, R14 := 0, R15 := 0, RSP := b + 4088)) x = ((\<lambda>_. 0)(RSP := b + 4088)) x" by (cases x) simp_all
  qed
  have l: "(sel ?d)(Sel_DS := 0x10, Sel_ES := 0x10, Sel_FS := 0x10, Sel_GS := 0x10, Sel_CS := 8, Sel_SS := 0x10) = (\<lambda>_. 0x10)(Sel_CS := 8)"
  proof
    fix x show "((sel ?d)(Sel_DS := 0x10, Sel_ES := 0x10, Sel_FS := 0x10, Sel_GS := 0x10, Sel_CS := 8, Sel_SS := 0x10)) x = ((\<lambda>_. 0x10)(Sel_CS := 8)) x"
      by (cases x) simp_all
  qed
  have "interrupt_exit_code ?d = ?d\<lparr>gpr := (\<lambda>_. 0)(RSP := b + 4088), sel := (\<lambda>_. 0x10)(Sel_CS := 8), rip := user, rflags := 0x200\<rparr>"
    unfolding exit_loads [OF al] Let_def ret(2,3) using zero d
    by (simp add: sels g l add.assoc)
  then have "interrupt_exit_code ?d = d\<lparr>gpr := (\<lambda>_. 0)(RSP := b + 4088), sel := (\<lambda>_. 0x10)(Sel_CS := 8), rip := user, rflags := 0x200\<rparr>"
    by (simp add: ret_def set_reg_def)
  then show ?thesis using start(1) ret(1) d(2) by (simp add: ret_def set_reg_def)
qed

lemma sample_frames: "holds_frames code user b (\<lambda>a. new_frames code user (b + 4096) (drop_bit 3 (a - b)))"
proof -
  have reps: "replicate 6 (0 :: u64) = [0, 0, 0, 0, 0, 0]"
    "replicate 17 (0 :: u64) = [0, 0, 0, 0, 0, 0, 0, 0, 0, 0, 0, 0, 0, 0, 0, 0, 0]" by (simp_all add: numeral_eq_Suc)
  show ?thesis
    by (simp add: holds_frames_def frame_words_def upt_rec reps drop_bit_eq_div add.commute [of b]) (simp add: new_frames_def)
qed

definition sample_code :: code_addresses where
  "sample_code = \<lparr>at_thread_entry = 0x1000, at_thread_exit = 0x2000, at_interrupt_exit = 0x3000\<rparr>"

definition switched_core :: core where
  "switched_core = sample_core\<lparr>gpr := (gpr sample_core)(RSP := 0x8EF8),
     mem := (\<lambda>a. new_frames sample_code 0x4000 (0x8000 + 4096) (drop_bit 3 (a - 0x8000)))\<rparr>"

text \<open>An entry function that pushes over the area below its stack pointer and changes other registers.\<close>

definition sample_entry :: "core \<Rightarrow> core" where
  "sample_entry c = set_reg RAX 7 (set_reg RSP (gpr c RSP) (push 3 (push 2 (push 1 c))))"

theorem new_thread_starts_witness:
  "rip (switch_to switched_core) = 0x1000 \<and> rip (ret (sample_entry (switch_to switched_core))) = 0x3000 \<and>
   rip (interrupt_exit_code (ret (sample_entry (switch_to switched_core)))) = 0x4000"
proof -
  have h: "holds_frames sample_code 0x4000 0x8000 (mem switched_core)"
  proof -
    have "mem switched_core = (\<lambda>a. new_frames sample_code 0x4000 (0x8000 + 4096) (drop_bit 3 (a - 0x8000)))"
      by (simp add: switched_core_def)
    then show ?thesis by (simp only: sample_frames)
  qed
  have "gpr (switch_to switched_core) RSP = 0x8F30" by (simp add: switch_loads Let_def set_reg_def) (simp add: switched_core_def)
  then have "keeps_caller 26 (switch_to switched_core) (sample_entry (switch_to switched_core))"
    by (simp add: keeps_caller_def sample_entry_def push_def set_reg_def frame_words_def upt_rec)
  then show ?thesis
    using new_thread_starts [OF h] by (simp add: sample_code_def) (simp add: switched_core_def)
qed

text \<open>
  C12. \<open>thread_create\<close>, in a consistent memory with five free pages: it reserves the stack, builds the frames from which a switch
  starts the thread (the first store is backed by the page fault handler), queues the thread last in the ready list, ready, without a
  blocker and with the scheduler unlocked and interrupts enabled again, and changes no other translation and no memory in use.
\<close>
theorem thread_create_builds_stack:
  assumes ok: "mm_ok s ps" "5 \<le> card (free_pages s ps)" "range_ok s (next_alloc s) 4" "uint (next_alloc s) mod 4096 = 0"
    and q: "queued s rs ss" and t: "t \<notin> set rs \<union> set ss" "t \<noteq> current_thread s"
    and lock: "scheduler_lock s = 0" "g_spinLockCount s = 0" "if_flag s"
  shows "\<exists>s' ps'. thread_create code (Some t) user s = Inr (t, s') \<and> mm_ok s' ps' \<and> queued s' (rs @ [t]) ss \<and>
    th_state (threads s' t) = THREAD_READY \<and> th_stack (threads s' t) = next_alloc s \<and>
    th_interrupt_frame (threads s' t) = Some (next_alloc s + 16184) \<and> th_context (threads s' t) = Some At_thread_entry \<and>
    th_blocker (threads s' t) = None \<and>
    if_flag s' \<and> scheduler_lock s' = 0 \<and> g_spinLockCount s' = 0 \<and> next_alloc s' = next_alloc s + 16384 \<and>
    holds_frames code user (next_alloc s + 0x3000) (view s') \<and>
    (\<forall>k < 4096. load s' (next_alloc s + 0x3000 + k) = Inr (view s' (next_alloc s + 0x3000 + k))) \<and>
    (\<forall>vb. outside vb \<longrightarrow> path vb \<notin> range_paths (next_alloc s) 4 \<longrightarrow> walk (ram s') (cr3 s') vb = walk (ram s) (cr3 s) vb) \<and>
    (\<forall>f. f \<notin> table_frames (ram s) (cr3 s) \<union> free_pages s ps \<longrightarrow> ram s' f = ram s f)"
proof -
  let ?va = "next_alloc s" and ?b = "next_alloc s + 0x3000"
  define s0 where "s0 = set_state t THREAD_READY s"
  have s0: "mm_ok s0 ps" "free_pages s0 ps = free_pages s ps" "range_ok s0 (next_alloc s0) 4" "next_alloc s0 = ?va"
    "ram s0 = ram s" "cr3 s0 = cr3 s"
    using ok(1,3) mm_ok_only [of s0 s ps] by (simp_all add: s0_def set_state_def range_ok_def)
  obtain s1 ps1 where 1: "vmm_alloc THREAD_STACK_SIZE s0 = Inr (?va, s1)" "next_alloc s1 = ?va + 16384"
    "confined (range_paths ?va 4) s0 ps s1 ps1" "page_entry s1 ?b = Some PAGE_ALLOCATED" "free_pages s1 ps1 \<noteq> {}"
    using stack_reserved [OF s0(1) _ s0(3)] ok(2) s0(2,4) by auto
  note m1 = only_alloc_fields [OF vmm_alloc_memory [OF 1(1)]]
  define s1' where "s1' = s1\<lparr>threads := (threads s1)(t := (threads s1 t)\<lparr>th_stack := ?va\<rparr>)\<rparr>"
  have s1': "mm_ok s1' ps1" "free_pages s1' ps1 = free_pages s1 ps1" "page_entry s1' ?b = Some PAGE_ALLOCATED"
    "ram s1' = ram s1" "cr3 s1' = cr3 s1"
    using confinedD(1) [OF 1(3)] 1(4) mm_ok_only [of s1' s1 ps1] by (simp_all add: s1'_def page_entry_def)
  have out: "outside ?b"
  proof -
    have "outside (page_at ?va 3)" using ok(3) by (simp add: range_ok_def)
    then show ?thesis by (simp add: page_at_def PAGE_SIZE_def)
  qed
  have al: "?b AND 0xFFF = 0" using offset_in_page [OF ok(4), of "0x3000"] by simp
  obtain s2 ps2 p where 2: "build_frames code user (?b + 4096) s1' = Inr ((?b + 3896, ?b + 3832), s2)" "only_mm s1' s2"
    "data_page s2 ps2 ?b p" "ram s2 p = new_frames code user (?b + 4096)" "p \<in> free_pages s1' ps1"
    "\<forall>vb. outside vb \<longrightarrow> path vb \<noteq> path ?b \<longrightarrow> walk (ram s2) (cr3 s2) vb = walk (ram s1') (cr3 s1') vb"
    "\<forall>f. f \<notin> table_frames (ram s1') (cr3 s1') \<union> free_pages s1' ps1 \<longrightarrow> ram s2 f = ram s1' f"
    using stack_built [OF s1'(1) _ out al s1'(3)] 1(5) s1'(2) by metis
  note m2 = only_mm_fields [OF 2(2)]
  define s2' where "s2' = s2\<lparr>threads := (threads s2)(t := (threads s2 t)\<lparr>th_interrupt_frame := Some (?va + 16184), th_context := Some At_thread_entry\<rparr>)\<rparr>"
  have s2': "mm_ok s2' ps2" "ram s2' = ram s2" "cr3 s2' = cr3 s2" "next_alloc s2' = ?va + 16384"
    using 2(3) mm_ok_only(1) [of s2' s2 ps2] m2(2) 1(2) by (simp_all add: s2'_def s1'_def data_page_def)
  have sched: "threads s2' = (threads s)(t := (threads s t)\<lparr>th_state := THREAD_READY, th_stack := ?va,
      th_interrupt_frame := Some (?va + 16184), th_context := Some At_thread_entry\<rparr>)"
    "ready_list s2' = ready_list s" "suspended_list s2' = suspended_list s" "current_thread s2' = current_thread s"
    "scheduler_lock s2' = scheduler_lock s"
    using sched_fields [OF m2(6)] sched_fields [OF m1(1)] by (simp_all add: s2'_def s1'_def s0_def set_state_def)
  have mach: "if_flag s2' = if_flag s" "g_spinLockCount s2' = g_spinLockCount s"
    using m2(5) m1(2,3) only_mm_spin [OF 2(2)] by (simp_all add: s2'_def s1'_def s0_def set_state_def)
  note 3 = new_frames_hold [OF 2(3,4)]
  have v: "view u = view s2" "load u = load s2" if "ram u = ram s2" "cr3 u = cr3 s2" for u :: "'a sched_scheme"
    unfolding view_def [abs_def] load_def [abs_def] that by (rule refl)+
  have q2: "queued s2' rs ss"
  proof (rule queued_same [OF q])
    show "nexts (threads s2') = nexts (threads s)" by (auto simp: sched(1) nexts_def)
    show "th_context (threads s2' x) = th_context (threads s x)" if "x \<in> set rs \<union> set ss" for x using that t(1) by (auto simp: sched(1))
  qed (simp_all add: sched)
  have current: "t \<noteq> current_thread s2'" and ctx: "th_context (threads s2' t) \<noteq> None" using t(2) by (simp_all add: sched)
  have lock2: "scheduler_lock s2' = 0" "g_spinLockCount s2' = 0" "if_flag s2'" using lock by (simp_all add: sched mach)
  obtain h l where 4: "queue_new t s2' = Inr (t, s2'\<lparr>threads := h, ready_list := l, g_spinLockCount := 0, g_interruptsEnabled := X86_EFLAGS_IF,
      scheduler_lock := 0, if_flag := True\<rparr>)" "queued (s2'\<lparr>threads := h, ready_list := l\<rparr>) (rs @ [t]) ss"
    "th_state (h t) = th_state (threads s2' t)" "th_stack (h t) = th_stack (threads s2' t)" "th_blocker (h t) = None"
    "th_interrupt_frame (h t) = th_interrupt_frame (threads s2' t)" "th_context (h t) = th_context (threads s2' t)"
    using new_thread_queued [OF q2 t(1) current ctx lock2] by blast
  let ?s' = "s2'\<lparr>threads := h, ready_list := l, g_spinLockCount := 0, g_interruptsEnabled := X86_EFLAGS_IF, scheduler_lock := 0, if_flag := True\<rparr>"
  have run: "thread_create code (Some t) user s = Inr (t, ?s')"
  proof -
    have "if_flag s2" using lock2(3) by (simp add: s2'_def)
    then show ?thesis
      using 4(1) 1(1) 2(1) lock2(3)
      by (simp add: thread_create_def queue_new_def Let_def s0_def [symmetric] s1'_def [symmetric] s2'_def [symmetric]
          THREAD_STACK_SIZE_def add.assoc)
  qed
  show ?thesis
  proof (intro exI conjI)
    show "thread_create code (Some t) user s = Inr (t, ?s')" by (rule run)
    show "mm_ok ?s' ps2" using s2'(1) mm_ok_only(1) [of ?s' s2' ps2] by simp
    show "queued ?s' (rs @ [t]) ss" using 4(2) by (simp add: queued_def)
    show "\<forall>vb. outside vb \<longrightarrow> path vb \<notin> range_paths ?va 4 \<longrightarrow> walk (ram ?s') (cr3 ?s') vb = walk (ram s) (cr3 s) vb"
    proof (intro allI impI)
      fix vb assume vb: "outside vb" "path vb \<notin> range_paths ?va 4"
      have "path ?b \<in> range_paths ?va 4" using in_range_path [of 3 4 ?va] by (simp add: page_at_def PAGE_SIZE_def)
      then have "path vb \<noteq> path ?b" using vb(2) by auto
      then show "walk (ram ?s') (cr3 ?s') vb = walk (ram s) (cr3 s) vb"
        using 2(6) vb confinedD(2) [OF 1(3) vb] by (simp add: s2' s1' s0)
    qed
    show "\<forall>f. f \<notin> table_frames (ram s) (cr3 s) \<union> free_pages s ps \<longrightarrow> ram ?s' f = ram s f"
    proof (intro allI impI)
      fix f assume f: "f \<notin> table_frames (ram s) (cr3 s) \<union> free_pages s ps"
      have "table_frames (ram s1) (cr3 s1) \<union> free_pages s1 ps1 \<subseteq> table_frames (ram s) (cr3 s) \<union> free_pages s ps"
        using confinedD(6,7) [OF 1(3)] by (auto simp: s0)
      then have "ram s2 f = ram s1 f" using 2(7) f by (auto simp: s1')
      then show "ram ?s' f = ram s f" using confinedD(5) [OF 1(3), of f] f by (simp add: s2' s0)
    qed
    show "holds_frames code user ?b (view ?s')" "\<forall>k < 4096. load ?s' (?b + k) = Inr (view ?s' (?b + k))"
      using 3 v [of ?s'] by (simp_all add: s2')
  qed (simp_all add: 4 sched(1) s2')
qed

definition boot_sched :: sched where
  "boot_sched = mm.extend (boot_state\<lparr>if_flag := True\<rparr>)
     (sched.fields 0 (\<lambda>_. \<lparr>th_state = THREAD_RUNNING, th_stack = 0, th_interrupt_frame = None, th_context = None, th_next = None, th_blocker = None\<rparr>)
        0 None None 0)"

lemma boot_sched_fields:
  "ram boot_sched = boot_ram" "cr3 boot_sched = 0x1000" "next_alloc boot_sched = 0xFFFFFFFFE0002000" "if_flag boot_sched"
  "g_spinLockCount boot_sched = 0" "scheduler_lock boot_sched = 0" "current_thread boot_sched = 0" "ready_list boot_sched = None"
  "suspended_list boot_sched = None"
  by (simp_all add: boot_sched_def boot_state_def mm.defs sched.defs)

lemma boot_sched_ok: "mm_ok boot_sched []" "5 \<le> card (free_pages boot_sched [])" "range_ok boot_sched 0xFFFFFFFFE0002000 4"
proof -
  have same: "mm_ok boot_sched [] = mm_ok boot_state []" "free_pages boot_sched [] = free_pages boot_state []"
    by (simp_all add: boot_sched_def boot_state_def mm.defs sched.defs mm_ok_def free_stack_def frames_ok_def regions_ok_def region_pages_def
        free_pages_def in_use_def)
  then show "mm_ok boot_sched []" using boot_ok by simp
  have fin: "finite (free_pages boot_state [])" using boot_card(1) card.infinite by fastforce
  have "{0x100000, 0x101000, 0x102000, 0x103000, 0x104000} \<subseteq> free_pages boot_state []" by (simp add: boot_free)
  from card_mono [OF fin this] show "5 \<le> card (free_pages boot_sched [])" by (simp add: same(2))
  let ?b = "0xFFFFFFFFE0002000 :: u64"
  have pages: "page_at ?b 0 = 0xFFFFFFFFE0002000" "page_at ?b 1 = 0xFFFFFFFFE0003000" "page_at ?b 2 = 0xFFFFFFFFE0004000"
    "page_at ?b 3 = 0xFFFFFFFFE0005000"
    by (simp_all add: page_at_def PAGE_SIZE_def)
  have ix: "ix4 0xFFFFFFFFE0004000 = 511" "ix3 0xFFFFFFFFE0004000 = 511" "ix4 0xFFFFFFFFE0005000 = 511" "ix3 0xFFFFFFFFE0005000 = 511"
    by (simp_all add: ix_defs drop_bit_eq_div)
  have table: "node boot_ram 0x1000 [511, 511] \<noteq> None" by (simp add: node_boot del: node.simps(2))
  show "range_ok boot_sched ?b 4"
    unfolding range_ok_def boot_sched_fields
  proof (intro conjI allI impI)
    fix i :: nat assume "i < 4"
    then consider "i = 0" | "i = 1" | "i = 2" | "i = 3" by linarith
    then have "ix4 (page_at ?b i) = 511 \<and> ix3 (page_at ?b i) = 511" by cases (simp_all only: pages boot_ix ix simp_thms)
    then show "outside (page_at ?b i)" "node boot_ram 0x1000 [ix4 (page_at ?b i), ix3 (page_at ?b i)] \<noteq> None"
      using table by (simp_all add: outside_def del: node.simps)
  qed simp
qed

theorem thread_create_builds_stack_witness:
  "\<exists>s' ps'. thread_create sample_code (Some 1) 0x4000 boot_sched = Inr (1, s') \<and> mm_ok s' ps' \<and> queued s' [1] [] \<and>
     holds_frames sample_code 0x4000 0xFFFFFFFFE0005000 (view s')"
proof -
  have q: "queued boot_sched [] []" by (simp add: queued_def boot_sched_fields thread_list_def)
  show ?thesis
    using thread_create_builds_stack [OF boot_sched_ok(1,2) _ _ q, of 1 sample_code "0x4000"] boot_sched_ok(3)
    by (auto simp: boot_sched_fields)
qed

end
