(* ===== verification/Acpi_Os.thy ===== *)
theory Acpi_Os
  imports Semaphore Pci Thread_Create
begin

text \<open>
  \<^verbatim>\<open>kernel/acpi.c\<close>: the operating system layer that ACPICA calls. A status is a number, an object created for
  ACPICA is identified by the block \<open>malloc\<close> returned, which is a parameter, as is what the handler of ACPICA answers. Messages are left out.
\<close>

section \<open>Statuses\<close>

definition AE_OK :: u32 where "AE_OK = 0"
definition AE_ERROR :: u32 where "AE_ERROR = 1"
definition AE_NO_MEMORY :: u32 where "AE_NO_MEMORY = 4"
definition AE_NOT_EXIST :: u32 where "AE_NOT_EXIST = 6"
definition AE_ALREADY_EXISTS :: u32 where "AE_ALREADY_EXISTS = 7"
definition AE_TIME :: u32 where "AE_TIME = 0x11"
definition AE_BAD_PARAMETER :: u32 where "AE_BAD_PARAMETER = 0x1001"
definition ACPI_WAIT_FOREVER :: u16 where "ACPI_WAIT_FOREVER = 0xFFFF"
definition ACPI_DO_NOT_WAIT :: u16 where "ACPI_DO_NOT_WAIT = 0"
definition ACPI_INTERRUPT_HANDLED :: int where "ACPI_INTERRUPT_HANDLED = 1"

text \<open>The globals, and the spin locks that were created.\<close>

record acpi = sys +
  AcpiInterruptHandler :: u64
  AcpiInterruptContext :: u64
  acpi_locks :: "sid \<Rightarrow> u32"

section \<open>Tables and memory\<close>

text \<open>Overrides: the status and the value stored, none.\<close>

definition AcpiOsPredefinedOverride :: "u32 \<times> u64" where "AcpiOsPredefinedOverride = (AE_OK, 0)"
definition AcpiOsTableOverride :: "u32 \<times> u64" where "AcpiOsTableOverride = (AE_OK, 0)"
definition AcpiOsPhysicalTableOverride :: "u32 \<times> u64 \<times> u32" where "AcpiOsPhysicalTableOverride = (AE_OK, 0, 0)"

definition AcpiOsMapMemory :: "u64 \<Rightarrow> u64 \<Rightarrow> 'a mm_scheme \<Rightarrow> (u64 \<times> 'a mm_scheme) outcome" where
  "AcpiOsMapMemory physicalAddress nbytes s = vmm_map physicalAddress nbytes s"

definition AcpiOsUnmapMemory :: "u64 \<Rightarrow> u64 \<Rightarrow> 'a mm_scheme \<Rightarrow> 'a mm_scheme outcome" where
  "AcpiOsUnmapMemory memory nbytes s = and_then (vmm_unmap memory nbytes s) (\<lambda>(_, s). Inr s)"

definition AcpiOsAllocate :: "u64 \<Rightarrow> u64 outcome" where
  "AcpiOsAllocate memory = check (memory \<noteq> 0) (Assertion_failed ''memory != NULL'') (Inr memory)"

definition AcpiOsFree :: "(u64 \<Rightarrow> 'b \<Rightarrow> 'b) \<Rightarrow> u64 \<Rightarrow> 'b \<Rightarrow> 'b outcome" where
  "AcpiOsFree free memory s = check (memory \<noteq> 0) (Assertion_failed ''memory != NULL'') (Inr (free memory s))"

section \<open>Threads\<close>

definition AcpiOsGetThreadId :: "'a sched_scheme \<Rightarrow> tid" where
  "AcpiOsGetThreadId s = current_thread s"

definition AcpiOsExecute :: u32 where "AcpiOsExecute = AE_ERROR"

section \<open>Mutexes, semaphores and locks\<close>

text \<open>\<open>handle\<close>: whether there is a place for the handle. The result is the status and the handle stored.\<close>

definition AcpiOsCreateMutex :: "sid option \<Rightarrow> bool \<Rightarrow> 'a sys_scheme \<Rightarrow> ((u32 \<times> sid option) \<times> 'a sys_scheme) outcome" where
  "AcpiOsCreateMutex allocated handle s =
     (if \<not> handle then Inr ((AE_BAD_PARAMETER, None), s)
      else case allocated of
             None \<Rightarrow> Inr ((AE_NO_MEMORY, None), s)
           | Some mutex \<Rightarrow> and_then (mutex_init mutex s) (\<lambda>s. Inr ((AE_OK, Some mutex), s)))"

definition AcpiOsAcquireMutex :: "device \<Rightarrow> sid \<Rightarrow> u16 \<Rightarrow> 'a sys_scheme \<Rightarrow> (u32 \<times> 'a sys_scheme) outcome" where
  "AcpiOsAcquireMutex dev handle timeout s =
     (if timeout = ACPI_DO_NOT_WAIT then
        and_then (mutex_try_lock handle s) (\<lambda>(taken, s). Inr (if taken then AE_OK else AE_TIME, s))
      else if timeout = ACPI_WAIT_FOREVER then and_then (mutex_lock dev handle s) (\<lambda>s. Inr (AE_OK, s))
      else Inl (Assertion_failed ''0''))"

definition AcpiOsReleaseMutex :: "sid \<Rightarrow> 'a sys_scheme \<Rightarrow> 'a sys_scheme outcome" where
  "AcpiOsReleaseMutex handle s = mutex_unlock handle s"

definition AcpiOsCreateSemaphore :: "sid option \<Rightarrow> u32 \<Rightarrow> bool \<Rightarrow> 'a sys_scheme \<Rightarrow> ((u32 \<times> sid option) \<times> 'a sys_scheme) outcome" where
  "AcpiOsCreateSemaphore allocated initialCount handle s =
     (if \<not> handle then Inr ((AE_BAD_PARAMETER, None), s)
      else case allocated of
             None \<Rightarrow> Inr ((AE_NO_MEMORY, None), s)
           | Some semaphore \<Rightarrow> and_then (semaphore_init semaphore (sint initialCount) s) (\<lambda>s. Inr ((AE_OK, Some semaphore), s)))"

primrec wait_loop :: "nat \<Rightarrow> device \<Rightarrow> sid \<Rightarrow> 'a sys_scheme \<Rightarrow> 'a sys_scheme outcome" where
  "wait_loop 0 dev handle s = Inr s"
| "wait_loop (Suc n) dev handle s = and_then (semaphore_lock dev handle s) (wait_loop n dev handle)"

definition AcpiOsWaitSemaphore :: "device \<Rightarrow> sid \<Rightarrow> u32 \<Rightarrow> u16 \<Rightarrow> 'a sys_scheme \<Rightarrow> (u32 \<times> 'a sys_scheme) outcome" where
  "AcpiOsWaitSemaphore dev handle count timeout s =
     check (timeout = ACPI_WAIT_FOREVER) (Assertion_failed ''timeout == ACPI_WAIT_FOREVER'')
       (and_then (wait_loop (unat count) dev handle s) (\<lambda>s. Inr (AE_OK, s)))"

primrec signal_loop :: "nat \<Rightarrow> sid \<Rightarrow> 'a sys_scheme \<Rightarrow> 'a sys_scheme outcome" where
  "signal_loop 0 handle s = Inr s"
| "signal_loop (Suc n) handle s = and_then (semaphore_unlock handle s) (signal_loop n handle)"

definition AcpiOsSignalSemaphore :: "sid \<Rightarrow> u32 \<Rightarrow> 'a sys_scheme \<Rightarrow> (u32 \<times> 'a sys_scheme) outcome" where
  "AcpiOsSignalSemaphore handle count s = and_then (signal_loop (unat count) handle s) (\<lambda>s. Inr (AE_OK, s))"

definition AcpiOsCreateLock :: "sid option \<Rightarrow> bool \<Rightarrow> 'a acpi_scheme \<Rightarrow> (u32 \<times> sid option) \<times> 'a acpi_scheme" where
  "AcpiOsCreateLock allocated handle s =
     (if \<not> handle then ((AE_BAD_PARAMETER, None), s)
      else case allocated of
             None \<Rightarrow> ((AE_NO_MEMORY, None), s)
           | Some spinlock \<Rightarrow> ((AE_OK, Some spinlock), s\<lparr>acpi_locks := (acpi_locks s)(spinlock := SPINLOCK_UNLOCKED)\<rparr>))"

definition AcpiOsAcquireLock :: "sid \<Rightarrow> 'a acpi_scheme \<Rightarrow> (u64 \<times> 'a acpi_scheme) outcome" where
  "AcpiOsAcquireLock handle s =
     and_then (spin_lock (acpi_locks s handle) s) (\<lambda>(l, s). Inr (0, s\<lparr>acpi_locks := (acpi_locks s)(handle := l)\<rparr>))"

definition AcpiOsReleaseLock :: "sid \<Rightarrow> 'a acpi_scheme \<Rightarrow> 'a acpi_scheme outcome" where
  "AcpiOsReleaseLock handle s =
     and_then (spin_unlock (acpi_locks s handle) s) (\<lambda>(l, s). Inr (s\<lparr>acpi_locks := (acpi_locks s)(handle := l)\<rparr>))"

section \<open>Interrupts\<close>

text \<open>A call of address 0 is a null dereference; \<open>call\<close> is what a handler does.\<close>

definition acpi_interrupt_handler :: "(u64 \<Rightarrow> u64 \<Rightarrow> 'a acpi_scheme \<Rightarrow> int \<times> 'a acpi_scheme) \<Rightarrow> 'a acpi_scheme \<Rightarrow> (bool \<times> 'a acpi_scheme) outcome" where
  "acpi_interrupt_handler call s =
     (if AcpiInterruptHandler s = 0 then Inl Null_dereference
      else let (status, s) = call (AcpiInterruptHandler s) (AcpiInterruptContext s) s in Inr (status = ACPI_INTERRUPT_HANDLED, s))"

definition AcpiOsInstallInterruptHandler :: "u32 \<Rightarrow> u64 \<Rightarrow> u64 \<Rightarrow> 'a acpi_scheme \<Rightarrow> (u32 \<times> 'a acpi_scheme) outcome" where
  "AcpiOsInstallInterruptHandler interruptNumber serviceRoutine ctxt s =
     (if interruptNumber > 255 then Inr (AE_BAD_PARAMETER, s)
      else if serviceRoutine = 0 then Inr (AE_BAD_PARAMETER, s)
      else if AcpiInterruptHandler s \<noteq> 0 then Inr (AE_ALREADY_EXISTS, s)
      else let s = s\<lparr>AcpiInterruptHandler := serviceRoutine, AcpiInterruptContext := ctxt\<rparr>
           in and_then (interrupt_register (uint interruptNumber) acpi_interrupt_handler_handler s) (\<lambda>(r, s).
              if r = 0 then Inr (AE_ALREADY_EXISTS, s\<lparr>AcpiInterruptHandler := 0, AcpiInterruptContext := 0\<rparr>)
              else Inr (AE_OK, s)))"

definition AcpiOsRemoveInterruptHandler :: "u32 \<Rightarrow> u64 \<Rightarrow> 'a acpi_scheme \<Rightarrow> u32 \<times> 'a acpi_scheme" where
  "AcpiOsRemoveInterruptHandler interruptNumber serviceRoutine s =
     (if AcpiInterruptHandler s = 0 then (AE_NOT_EXIST, s)
      else (AE_OK, s\<lparr>AcpiInterruptHandler := 0, AcpiInterruptContext := 0\<rparr>))"

section \<open>Memory, ports and PCI\<close>

definition AcpiOsReadMemory :: u32 where "AcpiOsReadMemory = AE_BAD_PARAMETER"
definition AcpiOsWriteMemory :: u32 where "AcpiOsWriteMemory = AE_BAD_PARAMETER"

text \<open>The value read, if one was.\<close>

definition AcpiOsReadPort :: "device \<Rightarrow> u64 \<Rightarrow> u32 \<Rightarrow> 'a machine_scheme \<Rightarrow> (u32 \<times> u32 option) \<times> 'a machine_scheme" where
  "AcpiOsReadPort dev address width s =
     (if width = 8 then let (v, s) = io_in_8 dev (ucast address) s in ((AE_OK, Some (ucast v)), s)
      else if width = 16 then let (v, s) = io_in_16 dev (ucast address) s in ((AE_OK, Some (ucast v)), s)
      else if width = 32 then let (v, s) = io_in_32 dev (ucast address) s in ((AE_OK, Some v), s)
      else ((AE_BAD_PARAMETER, None), s))"

definition AcpiOsWritePort :: "u64 \<Rightarrow> u32 \<Rightarrow> u32 \<Rightarrow> 'a machine_scheme \<Rightarrow> u32 \<times> 'a machine_scheme" where
  "AcpiOsWritePort address v width s =
     (if width = 8 then (AE_OK, io_out_8 (ucast address) (ucast v) s)
      else if width = 16 then (AE_OK, io_out_16 (ucast address) (ucast v) s)
      else if width = 32 then (AE_OK, io_out_32 (ucast address) v s)
      else (AE_BAD_PARAMETER, s))"

definition AcpiOsReadPciConfiguration ::
    "device \<Rightarrow> u16 \<Rightarrow> u16 \<Rightarrow> u16 \<Rightarrow> u32 \<Rightarrow> u32 \<Rightarrow> 'a machine_scheme \<Rightarrow> ((u32 \<times> u64 option) \<times> 'a machine_scheme) outcome" where
  "AcpiOsReadPciConfiguration dev bus device function reg width s =
     (let b = uint bus; d = uint device; f = uint function; r = sint reg
      in if width = 8 then and_then (pci_read_config_8 dev b d f r s) (\<lambda>(v, s). Inr ((AE_OK, Some (ucast v)), s))
         else if width = 16 then and_then (pci_read_config_16 dev b d f r s) (\<lambda>(v, s). Inr ((AE_OK, Some (ucast v)), s))
         else if width = 32 then and_then (pci_read_config_32 dev b d f r s) (\<lambda>(v, s). Inr ((AE_OK, Some (ucast v)), s))
         else Inl (Assertion_failed ''0''))"

definition AcpiOsWritePciConfiguration :: u32 where "AcpiOsWritePciConfiguration = AE_OK"
definition AcpiOsGetTimer :: u64 where "AcpiOsGetTimer = 0"
definition AcpiOsSignal :: u32 where "AcpiOsSignal = AE_OK"

section \<open>Properties\<close>

text \<open>On a semaphore nobody waits for, units are signalled and waited for one by one.\<close>

definition idle :: "sid \<Rightarrow> 'a sys_scheme \<Rightarrow> bool" where
  "idle m s \<longleftrightarrow> sm_lock (sems s m) = 0 \<and> sm_head (sems s m) = None \<and> sm_tail (sems s m) = None \<and> g_spinLockCount s = 0"

definition with_units :: "sid \<Rightarrow> int \<Rightarrow> 'a sys_scheme \<Rightarrow> 'a sys_scheme" where
  "with_units m c s = s\<lparr>g_interruptsEnabled := interrupt_enabled s, sems := (sems s)(m := (sems s m)\<lparr>sm_count := c\<rparr>)\<rparr>"

lemma acpi_unlock_free: "\<not> if_flag t \<Longrightarrow> g_spinLockCount t = 1 \<Longrightarrow> g_interruptsEnabled t = interrupt_enabled s \<Longrightarrow>
    spin_unlock l t = Inr (0, t\<lparr>if_flag := if_flag s, g_spinLockCount := 0\<rparr>)"
  using spin_unlock_last [of t l] by simp

lemma with_units_eq:
  assumes "idle m s"
  shows "s\<lparr>g_interruptsEnabled := interrupt_enabled s, g_spinLockCount := 0,
      sems := (sems s)(m := (sems s m)\<lparr>sm_count := c, sm_lock := 0\<rparr>)\<rparr> = with_units m c s"
proof -
  have "(sems s m)\<lparr>sm_count := c, sm_lock := 0\<rparr> = (sems s m)\<lparr>sm_count := c\<rparr>"
    using assms by (cases "sems s m") (simp add: idle_def)
  moreover have "s\<lparr>g_interruptsEnabled := a, g_spinLockCount := 0, sems := f\<rparr> = s\<lparr>g_interruptsEnabled := a, sems := f\<rparr>" for a f
    using assms by (cases s) (simp add: idle_def)
  ultimately show ?thesis by (simp add: with_units_def)
qed

lemma with_units_idle [simp]: "idle m s \<Longrightarrow> idle m (with_units m c s)" "sm_count (sems (with_units m c s) m) = c"
  "with_units m d (with_units m c s) = with_units m d s"
  by (simp_all add: idle_def with_units_def interrupt_enabled_def)

lemma unlock_idle: "idle m s \<Longrightarrow> semaphore_unlock m s = Inr (with_units m (sm_count (sems s m) + 1) s)"
  unfolding with_units_eq [symmetric]
  by (simp add: semaphore_unlock_def sem_acquire_def sem_release_def spin_lock_first waiter_pop_def set_sem_def acpi_unlock_free [of _ s] idle_def)

lemma lock_idle: "idle m s \<Longrightarrow> 0 < sm_count (sems s m) \<Longrightarrow> semaphore_lock dev m s = Inr (with_units m (sm_count (sems s m) - 1) s)"
  unfolding with_units_eq [symmetric]
  by (simp add: semaphore_lock_def semaphore_lock_begin_def sem_acquire_def sem_release_def spin_lock_first set_sem_def acpi_unlock_free [of _ s] idle_def)

lemma signal_idle: "idle m s \<Longrightarrow> signal_loop (Suc n) m s = Inr (with_units m (sm_count (sems s m) + int (Suc n)) s)"
proof (induction n arbitrary: s)
  case (Suc n)
  then show ?case using Suc.IH [of "with_units m (sm_count (sems s m) + 1) s"] by (simp add: unlock_idle algebra_simps)
qed (simp add: unlock_idle)

lemma wait_idle: "idle m s \<Longrightarrow> int (Suc n) \<le> sm_count (sems s m) \<Longrightarrow>
    wait_loop (Suc n) dev m s = Inr (with_units m (sm_count (sems s m) - int (Suc n)) s)"
proof (induction n arbitrary: s)
  case (Suc n)
  then show ?case using Suc.IH [of "with_units m (sm_count (sems s m) - 1) s"] by (simp add: lock_idle algebra_simps)
qed (simp add: lock_idle)

text \<open>
  C39. The interrupt handler of ACPICA, once installed, is called with its context whenever the interrupt is dispatched to this layer. After
  \<open>AcpiOsRemoveInterruptHandler\<close> the layer stays registered for the interrupt: the next one calls a null pointer, and no
  handler can be installed for the interrupt again.
\<close>
theorem removed_handler_stays_registered:
  assumes "AcpiOsInstallInterruptHandler n h c s = Inr (AE_OK, t)"
  shows "interrupt_handlers t (uint n) = Some acpi_interrupt_handler_handler \<and>
    acpi_interrupt_handler call t = (let (r, u) = call h c t in Inr (r = ACPI_INTERRUPT_HANDLED, u)) \<and>
    (case AcpiOsRemoveInterruptHandler n h t of (r, u) \<Rightarrow>
       r = AE_OK \<and> interrupt_handlers u (uint n) = Some acpi_interrupt_handler_handler \<and>
       acpi_interrupt_handler call u = Inl Null_dereference \<and>
       map_sum id fst (AcpiOsInstallInterruptHandler n h d u) = Inr AE_ALREADY_EXISTS)"
proof -
  have d: "n \<le> 255" "h \<noteq> 0" "AcpiInterruptHandler s = 0" "interrupt_handlers s (uint n) = None"
    and t: "t = s\<lparr>AcpiInterruptHandler := h, AcpiInterruptContext := c,
      interrupt_handlers := (interrupt_handlers s)(uint n := Some acpi_interrupt_handler_handler)\<rparr>"
    using assms by (auto simp: AcpiOsInstallInterruptHandler_def interrupt_register_def check_def AE_OK_def AE_BAD_PARAMETER_def
        AE_ALREADY_EXISTS_def Let_def outcome_simps not_less split: if_splits)
  have r: "0 \<le> uint n" "uint n \<le> 255" using d(1) by (simp_all add: word_le_def)
  show ?thesis
    using d r by (simp add: t acpi_interrupt_handler_def AcpiOsRemoveInterruptHandler_def AcpiOsInstallInterruptHandler_def interrupt_register_def Let_def not_less [symmetric])
qed

definition acpi_boot :: acpi where
  "acpi_boot = sys.extend (sched.extend boot_sched (sys.fields
     (\<lambda>_. \<lparr>sm_lock = 0, sm_count = 0, sm_head = None, sm_tail = None\<rparr>) (\<lambda>t. \<lparr>wt_thread = t, wt_next = None\<rparr>))) (acpi.fields 0 0 (\<lambda>_. 0))"

lemma acpi_boot_fields: "AcpiInterruptHandler acpi_boot = 0" "interrupt_handlers acpi_boot n = None"
  by (simp_all add: acpi_boot_def sys.defs sched.defs acpi.defs boot_sched_def mm.defs boot_state_def)

theorem removed_handler_stays_registered_witness:
  "\<exists>t. AcpiOsInstallInterruptHandler 9 0x5000 0 acpi_boot = Inr (AE_OK, t) \<and>
     acpi_interrupt_handler (\<lambda>h c s. (1, s)) (snd (AcpiOsRemoveInterruptHandler 9 0x5000 t)) = Inl Null_dereference"
proof -
  obtain t where t: "AcpiOsInstallInterruptHandler 9 0x5000 0 acpi_boot = Inr (AE_OK, t)"
    by (simp add: acpi_boot_fields AcpiOsInstallInterruptHandler_def interrupt_register_def Let_def)
  have "acpi_interrupt_handler (\<lambda>h c s. (1, s)) (snd (AcpiOsRemoveInterruptHandler 9 0x5000 t)) = Inl Null_dereference"
    using removed_handler_stays_registered [OF t, of "\<lambda>h c s. (1, s)"]
    by (cases "AcpiOsRemoveInterruptHandler 9 0x5000 t") simp
  with t show ?thesis by blast
qed

end
