(* ===== verification/Libc.thy ===== *)
theory Libc
  imports Vmm
begin

text \<open>
  \<^verbatim>\<open>libc/string.c\<close> and \<^verbatim>\<open>libc/posix/mman.c\<close>. The string functions work on a memory of bytes; a loop that meets no
  NUL in the address space does not return, which is \<open>None\<close>.
\<close>

section \<open>Memory\<close>

text \<open>The loops return the pointer they end with, which is what \<open>memcpy\<close> and \<open>memset\<close> return.\<close>

primrec copy_loop :: "nat \<Rightarrow> u64 \<Rightarrow> u64 \<Rightarrow> (u64 \<Rightarrow> u8) \<Rightarrow> u64 \<times> (u64 \<Rightarrow> u8)" where
  "copy_loop 0 dest src m = (dest, m)"
| "copy_loop (Suc i) dest src m = copy_loop i (dest + 1) (src + 1) (m(dest := m src))"

definition memcpy :: "u64 \<Rightarrow> u64 \<Rightarrow> u64 \<Rightarrow> (u64 \<Rightarrow> u8) \<Rightarrow> u64 \<times> (u64 \<Rightarrow> u8)" where
  "memcpy dest src count m = copy_loop (unat count) dest src m"

primrec set_loop :: "nat \<Rightarrow> u64 \<Rightarrow> u8 \<Rightarrow> (u64 \<Rightarrow> u8) \<Rightarrow> u64 \<times> (u64 \<Rightarrow> u8)" where
  "set_loop 0 dest v m = (dest, m)"
| "set_loop (Suc i) dest v m = set_loop i (dest + 1) v (m(dest := v))"

definition memset :: "u64 \<Rightarrow> u32 \<Rightarrow> u64 \<Rightarrow> (u64 \<Rightarrow> u8) \<Rightarrow> u64 \<times> (u64 \<Rightarrow> u8)" where
  "memset dest v count m = set_loop (unat count) dest (ucast v) m"

section \<open>Strings\<close>

partial_function (option) strchr_loop :: "(u64 \<Rightarrow> u8) \<Rightarrow> u8 \<Rightarrow> u64 \<Rightarrow> u64 option" where
  "strchr_loop m c p = (if m p = 0 then Some 0 else if m p = c then Some p else strchr_loop m c (p + 1))"

definition strchr :: "(u64 \<Rightarrow> u8) \<Rightarrow> u64 \<Rightarrow> u32 \<Rightarrow> u64 option" where
  "strchr m string character = strchr_loop m (ucast character) string"

partial_function (option) strlen_loop :: "(u64 \<Rightarrow> u8) \<Rightarrow> u64 \<Rightarrow> u64 \<Rightarrow> u64 option" where
  "strlen_loop m string result = (if m (string + result) = 0 then Some result else strlen_loop m string (result + 1))"

definition strlen :: "(u64 \<Rightarrow> u8) \<Rightarrow> u64 \<Rightarrow> u64 option" where
  "strlen m string = strlen_loop m string 0"

section \<open>mmap\<close>

definition EINVAL :: u32 where "EINVAL = 21"
definition ENOMEM :: u32 where "ENOMEM = 23"
definition MAP_ANONYMOUS :: u32 where "MAP_ANONYMOUS = 4"
definition MAP_FAILED :: u64 where "MAP_FAILED = - 1"

text \<open>The result and the value \<open>errno\<close> is left with.\<close>

definition mmap :: "u64 \<Rightarrow> u32 \<Rightarrow> int \<Rightarrow> u32 \<Rightarrow> 'a mm_scheme \<Rightarrow> ((u64 \<times> u32) \<times> 'a mm_scheme) outcome" where
  "mmap nbytes map_flags fd errno s =
     (if nbytes = 0 then Inr ((MAP_FAILED, EINVAL), s)
      else if map_flags AND MAP_ANONYMOUS \<noteq> 0 \<and> fd \<noteq> - 1 then Inr ((MAP_FAILED, EINVAL), s)
      else if fd \<noteq> - 1 then Inl (Fatal ''mmap() doesn't support fd != -1'')
      else and_then (vmm_alloc nbytes s) (\<lambda>(memory, s).
             if memory = 0 then Inr ((MAP_FAILED, ENOMEM), s) else Inr ((memory, errno), s)))"

definition munmap :: "u32 \<Rightarrow> int \<times> u32" where
  "munmap errno = (- 1, EINVAL)"

section \<open>What they do\<close>

lemma copy_loop_end: "fst (copy_loop n dest src m) = dest + of_nat n"
  by (induction n arbitrary: dest src m) (simp_all add: algebra_simps)

lemma copy_loop_outside: "(\<And>i. i < n \<Longrightarrow> a \<noteq> dest + of_nat i) \<Longrightarrow> snd (copy_loop n dest src m) a = m a"
proof (induction n arbitrary: dest src m)
  case (Suc n)
  have "a \<noteq> dest + 1 + of_nat i" if "i < n" for i using Suc.prems [of "Suc i"] that by (simp add: add.assoc)
  moreover have "a \<noteq> dest" using Suc.prems [of 0] by simp
  ultimately show ?case using Suc.IH [of "dest + 1"] by simp
qed simp

text \<open>
  The bytes are copied when no byte of the source is overwritten before it is read: the destination does not begin inside the source.
\<close>

lemma copy_loop_copies:
  assumes "\<And>i j. i < j \<Longrightarrow> j < n \<Longrightarrow> src + of_nat j \<noteq> dest + of_nat i" and "n \<le> 2 ^ 64" and "k < n"
  shows "snd (copy_loop n dest src m) (dest + of_nat k) = m (src + of_nat k)"
  using assms
proof (induction n arbitrary: dest src m k)
  case (Suc n)
  show ?case
  proof (cases k)
    case 0
    have "dest \<noteq> dest + 1 + of_nat i" if "i < n" for i
    proof
      assume "dest = dest + 1 + of_nat i"
      then have "of_nat (Suc i) = (0 :: u64)" by (simp add: add.assoc)
      then have "2 ^ 64 dvd Suc i" by (simp only: word_of_nat_eq_0_iff) simp
      then have "2 ^ 64 \<le> Suc i" by (rule dvd_imp_le) simp
      then show False using that Suc.prems(2) by linarith
    qed
    then show ?thesis using 0 copy_loop_outside [of n dest "dest + 1"] by simp
  next
    case (Suc j)
    have "snd (copy_loop n (dest + 1) (src + 1) (m(dest := m src))) (dest + 1 + of_nat j) = (m(dest := m src)) (src + 1 + of_nat j)"
    proof (rule Suc.IH)
      fix i l assume "i < l" "l < n"
      then show "src + 1 + of_nat l \<noteq> dest + 1 + of_nat i" using Suc.prems(1) [of "Suc i" "Suc l"] by (simp add: add.assoc)
    qed (use Suc.prems Suc in simp_all)
    moreover have "src + 1 + of_nat j \<noteq> dest" using Suc.prems(1) [of 0 "Suc j"] Suc.prems(3) Suc by (simp add: add.assoc)
    ultimately show ?thesis using Suc by (simp add: add.assoc)
  qed
qed simp

lemma strlen_loop_result:
  assumes "\<And>k. k < n \<Longrightarrow> m (string + r + of_nat k) \<noteq> 0" and "m (string + r + of_nat n) = 0"
  shows "strlen_loop m string r = Some (r + of_nat n)"
  using assms
proof (induction n arbitrary: r)
  case 0
  then show ?case by (subst strlen_loop.simps) simp
next
  case (Suc n)
  have "m (string + r) \<noteq> 0" using Suc.prems(1) [of 0] by simp
  moreover have "strlen_loop m string (r + 1) = Some (r + 1 + of_nat n)"
  proof (rule Suc.IH)
    show "m (string + (r + 1) + of_nat k) \<noteq> 0" if "k < n" for k using Suc.prems(1) [of "Suc k"] that by (simp add: add.assoc)
    show "m (string + (r + 1) + of_nat n) = 0" using Suc.prems(2) by (simp add: add.assoc)
  qed
  ultimately show ?case by (subst strlen_loop.simps) (simp add: add.assoc)
qed

lemma strchr_loop_result:
  assumes "\<And>k. k < n \<Longrightarrow> m (p + of_nat k) \<noteq> 0 \<and> m (p + of_nat k) \<noteq> c" and "m (p + of_nat n) = 0 \<or> m (p + of_nat n) = c"
  shows "strchr_loop m c p = Some (if m (p + of_nat n) = 0 then 0 else p + of_nat n)"
  using assms
proof (induction n arbitrary: p)
  case 0
  then show ?case by (subst strchr_loop.simps) auto
next
  case (Suc n)
  have "m p \<noteq> 0 \<and> m p \<noteq> c" using Suc.prems(1) [of 0] by simp
  moreover have "strchr_loop m c (p + 1) = Some (if m (p + 1 + of_nat n) = 0 then 0 else p + 1 + of_nat n)"
  proof (rule Suc.IH)
    show "m (p + 1 + of_nat k) \<noteq> 0 \<and> m (p + 1 + of_nat k) \<noteq> c" if "k < n" for k
      using Suc.prems(1) [of "Suc k"] that by (simp add: add.assoc)
    show "m (p + 1 + of_nat n) = 0 \<or> m (p + 1 + of_nat n) = c" using Suc.prems(2) by (simp add: add.assoc)
  qed
  ultimately show ?case by (subst strchr_loop.simps) (simp add: add.assoc)
qed

text \<open>
  \<open>memcpy\<close> copies, and leaves the other bytes alone, unless the destination begins inside the source; like \<open>memset\<close> it
  returns the end of the destination, not the destination itself.
\<close>

theorem memcpy_copies:
  assumes "\<And>i j. i < j \<Longrightarrow> j < unat count \<Longrightarrow> src + of_nat j \<noteq> dest + of_nat i"
  shows "fst (memcpy dest src count m) = dest + count \<and>
    (\<forall>k < unat count. snd (memcpy dest src count m) (dest + of_nat k) = m (src + of_nat k)) \<and>
    (\<forall>a. (\<forall>k < unat count. a \<noteq> dest + of_nat k) \<longrightarrow> snd (memcpy dest src count m) a = m a)"
proof -
  have n: "unat count \<le> 2 ^ 64" using unsigned_less [of count, where 'a = nat] by simp
  show ?thesis
    unfolding memcpy_def using copy_loop_copies [OF assms n] copy_loop_outside [of "unat count"] copy_loop_end [of "unat count"] by auto
qed

lemma set_loop_end: "fst (set_loop n dest v m) = dest + of_nat n"
  by (induction n arbitrary: dest m) (simp_all add: algebra_simps)

lemma set_loop_sets: "snd (set_loop n dest v m) a = (if \<exists>i < n. a = dest + of_nat i then v else m a)"
proof (induction n arbitrary: dest m)
  case (Suc n)
  have "(\<exists>i < Suc n. a = dest + of_nat i) \<longleftrightarrow> a = dest \<or> (\<exists>i < n. a = dest + 1 + of_nat i)"
    unfolding Ex_less_Suc2 by (simp add: add.assoc)
  then show ?case using Suc.IH [of "dest + 1"] by auto
qed simp

theorem memset_sets:
  "memset dest v count m = (dest + count, \<lambda>a. if \<exists>i < unat count. a = dest + of_nat i then ucast v else m a)"
  using set_loop_end [of "unat count" dest "ucast v" m] set_loop_sets [of "unat count" dest "ucast v" m]
  by (simp add: memset_def prod_eq_iff fun_eq_iff)

theorem strlen_counts:
  assumes "\<And>k. k < n \<Longrightarrow> m (string + of_nat k) \<noteq> 0" and "m (string + of_nat n) = 0"
  shows "strlen m string = Some (of_nat n)"
  using strlen_loop_result [of n m string 0] assms by (simp add: strlen_def)

theorem strchr_finds:
  assumes "\<And>k. k < n \<Longrightarrow> m (string + of_nat k) \<noteq> 0 \<and> m (string + of_nat k) \<noteq> ucast character"
    and "m (string + of_nat n) = 0 \<or> m (string + of_nat n) = ucast character"
  shows "strchr m string character = Some (if m (string + of_nat n) = 0 then 0 else string + of_nat n)"
  using strchr_loop_result [of n m string "ucast character"] assms by (simp add: strchr_def)

end
