(* ===== verification/Spec2Isabelle.thy ===== *)
theory Spec2Isabelle
  imports Memory_Props Run_Props Pci Bios Printf Thread_Create Acpi_Os Libc
begin

text \<open>
  Verification of kiznix: the core of the kernel (\<open>src/src/kernel\<close>, x86_64 configuration), the x86 emulator it runs
  the video BIOS with (\<open>src/src/libx86emu\<close>), and the part of the C library that the kernel prints and copies with
  (\<open>src/src/libc\<close>). This theory gathers the parts.

  \<^bold>\<open>The program.\<close> The kernel sets up interrupts (\<open>interrupt.c\<close>, \<open>pic.c\<close>, \<open>timer.c\<close>), physical memory (\<open>pmm.c\<close>: regions from
  the boot loader and a stack of freed pages that is itself mapped memory) and virtual memory (\<open>vmm.c\<close>: page tables reached
  through their recursive mapping, pages backed at the first fault), and then runs threads (\<open>thread.c\<close>) that are preempted by
  the timer and synchronise by semaphores and mutexes (\<open>semaphore.c\<close>, \<open>mutex.c\<close>) under a spin lock (\<open>spinlock.c\<close>). pmm and vmm
  call each other: mapping a page may need a page for a table, freeing a page may need a mapping for the stack, and
  either may fault. A new thread starts by a switch to a stack that \<open>thread_create\<close> filled (\<open>thread.c\<close>, \<open>thread_64.asm\<close>), whose pages are
  backed when it writes to them. The ACPI code, which is not part of the kernel proper, reaches the kernel through the layer in \<open>acpi.c\<close>.
  The emulator interprets 16- and 32-bit code on its own registers (\<open>prim_ops.c\<close>, \<open>decode.c\<close>, \<open>ops.c\<close>, \<open>ops2.c\<close>) and on a paged memory
  with permissions per byte (\<open>mem.c\<close>) that can lead into host memory and host ports; \<open>bios.c\<close> calls it through \<open>api.c\<close>.

  \<^bold>\<open>Theories and sources: the kernel.\<close>
  \<^item> \<open>Prelude\<close>: errors as values (\<open>trap\<close>, \<open>outcome\<close> with \<open>and_then\<close>, \<open>check\<close>, \<open>returns\<close>), machine integers, linked lists in a heap
    (\<open>chain\<close>). \<open>Queue_Interface\<close>: queues as a locale, interpreted for the thread lists and the waiter lists.
  \<^item> \<open>Machine\<close> (\<open>include/kernel/x86/io.h\<close>, \<open>interrupt.h\<close>), \<open>Pic\<close> (\<open>x86/pic.c\<close>), \<open>Interrupt\<close> (\<open>x86/interrupt.c\<close>), \<open>Timer\<close>
    (\<open>x86/timer.c\<close>), \<open>Spinlock\<close> (\<open>spinlock.c\<close>): port accesses are logged and the devices behind them are a parameter;
    \<open>Pic\<close> has a model of the two chips with their mask and in-service registers.
    \<open>Console\<close> (\<open>console.c\<close>, \<open>x86/vga.h\<close>): the text screen as an array of cells. \<open>Pci\<close> (\<open>x86/pci.c\<close>): the configuration space behind its two ports.
  \<^item> \<open>Paging\<close>, \<open>Page_Tree\<close>: page tables in simulated memory, address translation and the recursive mapping.
    \<open>Mm_State\<close>, \<open>Pmm\<close>, \<open>Vmm\<close> (\<open>x86/pmm.c\<close>, \<open>x86/vmm.c\<close>): the operations. \<open>Mm_Invariant\<close>, \<open>Vmm_Tables\<close>, \<open>Vmm_Spec\<close>, \<open>Vmm_Range\<close>: the
    invariant \<open>mm_ok\<close> (page tables and free pages are disjoint frames, the stack of freed pages is mapped), that every operation keeps it, and
    what each does to the translation of addresses. Beside the tables the kernel reaches memory through the window of the boot loader on the first
    megabytes (\<open>boot_window\<close>), whose pages are never free. \<open>Pmm_Stack\<close>: the push of a freed page whose page table has to be taken from the
    stack it is pushed to. \<open>Tlb\<close>: which addresses the operations invalidate, and what that leaves of the translations the
    processor has cached. \<open>Memory_Props\<close>: the properties.
  \<^item> \<open>Thread_List\<close>, \<open>Scheduler\<close> (\<open>thread.c\<close>), \<open>Semaphore\<close> (\<open>semaphore.c\<close>, \<open>mutex.c\<close>): the linked lists with their pointers, and the operations
    up to the switch of the stack. \<open>Run\<close>: executions, a step relation in which the running thread calls an operation or the timer
    interrupts; \<open>Run_Props\<close>: what holds in every reachable state.
  \<^item> \<open>Context_Switch\<close> (\<open>x86/thread_64.asm\<close>, \<open>x86/interrupt_64.asm\<close>): the registers saved and restored around a switch and around an
    interrupt, instruction by instruction. \<open>Thread_Create\<close> (\<open>thread.c\<close>): the first stack of a thread, written through the page tables;
    it joins the memory manager, the scheduler and the switch.
  \<^item> \<open>Acpi_Os\<close> (\<open>acpi.c\<close>): locks, semaphores, caches, tables, memory and interrupt handlers as ACPICA sees them.
    \<open>Printf\<close> (\<open>libc/stdio\<close>): formatted integers and strings, against a layout of numbers. \<open>Libc\<close> (\<open>libc/string.c\<close>, \<open>posix/mman.c\<close>).

  \<^bold>\<open>Theories and sources: the emulator.\<close>
  \<^item> \<open>X86emu_Flags\<close>, \<open>X86emu_Carry\<close>, \<open>X86emu_Arith\<close>, \<open>X86emu_Logic\<close>, \<open>X86emu_Shift\<close>, \<open>X86emu_Regs\<close>, \<open>X86emu_Muldiv\<close>
    (\<open>prim_ops.c\<close>): the arithmetic unit against mathematical integers and bits, flags included.
  \<^item> \<open>X86emu_Mem\<close> (\<open>mem.c\<close>), \<open>X86emu_Mem_Spec\<close>, \<open>X86emu_Mem_Perm\<close>, \<open>X86emu_Mem_Props\<close>: the paged memory and its refinement
    of a flat memory; the locales \<open>memory_read\<close> and \<open>memory_access\<close> hold what follows for every width. \<open>X86emu_Ports\<close> (\<open>mem.c\<close>): the ports and
    the access function \<open>vm_memio\<close>.
  \<^item> \<open>X86emu_Cpu\<close>, \<open>X86emu_Decode\<close> (\<open>decode.c\<close>, the stack of \<open>prim_ops.c\<close>): instruction fetches, accesses through segments,
    operands and addresses, descriptors, interrupts. \<open>X86emu_Ops_Alu\<close>, \<open>X86emu_Ops_Move\<close>, \<open>X86emu_Ops_String\<close>, \<open>X86emu_Ops_Control\<close> (\<open>ops.c\<close>) and
    \<open>X86emu_Ops2\<close> (\<open>ops2.c\<close>): one definition per instruction handler. \<open>X86emu_Run\<close>: the opcode table, the prefixes and the main loop
    \<open>x86emu_run\<close>.
  \<^item> \<open>X86emu_Prefix\<close>: when the loop over the prefixes ends. \<open>X86emu_Stack\<close>: pushes and pops as a list. \<open>X86emu_Interrupt\<close>: an interrupt in real
    mode, up to the return of its handler.
  \<^item> \<open>X86emu_Invariant\<close>, \<open>X86emu_Keeps\<close>, \<open>X86emu_Sandbox\<close>: a locale for what every access keeps, the proof that every handler and the
    whole run keep it, and its interpretations: the processor stays well formed and a program stays within its permissions.
  \<^item> \<open>X86emu_Api\<close> (\<open>api.c\<close>) and \<open>Bios\<close> (\<open>kernel/x86/bios.c\<close>): the emulator as its client sees it, and the call of a BIOS interrupt by the kernel.

  \<^bold>\<open>Correspondence.\<close> A C function is a definition of the same name that takes and returns the state explicitly; a struct is a record, an
  enumeration a datatype, an unsigned integer a word of its width. Pointers to threads, waiters and semaphores are numbers into
  heaps. A failed assertion, an endless wait and a null pointer that is followed are values of \<open>trap\<close>. Devices, the memory
  allocator, ACPICA and the privilege level of the host are parameters.

  \<^bold>\<open>Bounds.\<close> A store to memory that faults is retried after the page fault handler; two levels of such stores are modelled (a fault
  while handling a fault is a trap), which is enough because \<open>mm_ok\<close> keeps the tables and the top of the page stack mapped, so that the inner store
  never faults (\<open>Mm_Invariant\<close>, \<open>Vmm_Spec\<close>). Loops over pages count the pages; the division loop makes the 33 rounds of
  the code; \<open>set_perm_pages\<close> terminates because the rest of its range shrinks. Loops that may not end, the main loop of the
  emulator among them, are partial functions whose value is then \<open>None\<close>. The emulator writes the disassembly of each instruction into a buffer
  of \<open>DISASM_BUF\<close> bytes that it never checks: the text of the prefixes, which is not bounded, is counted (\<open>disasm_len\<close>, \<open>OP_DECODE\<close>),
  the text of the instruction proper is bounded by \<open>INSTR_TEXT\<close>, more than any handler writes; a run
  in which the two do not fit ends with \<open>Text_overrun\<close> (\<open>Buffer_overrun\<close> for the kernel that called it), since the program then
  writes over its own state.

  \<^bold>\<open>Not modelled.\<close> ACPICA itself, which is third-party code; the allocator of the C library (dlmalloc, also third-party) and its floating-point
  output (\<open>fcvtbuf.c\<close>, \<open>modf.c\<close> and the floating-point conversions of \<open>printf.c\<close>); the boot code and the descriptor tables that \<open>cpu.c\<close>
  loads; \<open>kernel.c\<close>, which only calls the parts in order; the exit of a thread; in \<open>acpi.c\<close>, the start of ACPICA and its messages; the
  i386 and PAE configurations of \<open>vmm.c\<close>. Of the emulator, the trace
  log, the contents of the disassembly text and the dumps; its main loop is modelled as it runs without a log buffer. Memory that the C
  allocator cannot give (\<open>mem.c\<close> and \<open>thread.c\<close> do not check for it) is not a case of the model, and the C \<open>int\<close> counters of spin locks and
  semaphores are integers.
\<close>

end
